(* ===== verification/V1_Prelude.thy ===== *)
theory V1_Prelude
  imports Main "HOL-Library.Word"
begin

text \<open>
  Shared vocabulary of the development: the firmware's machine integers, the wrap-around
  clock arithmetic it uses on \<open>millis()\<close> values, fixed-size arrays as lists, and the
  generic lemmas the component theories build on.

  Every time stamp of the firmware is a \<open>uint32_t\<close> that wraps after 49.7 days. The code
  compares time stamps in two ways only: \<open>static_cast<uint32_t>(now - then)\<close> against a
  duration, and \<open>static_cast<int32_t>(a - b) > 0\<close> for "a is later than b". Both are kept
  as word operations here.
\<close>

unbundle bit_operations_syntax

type_synonym u8 = "8 word"
type_synonym u16 = "16 word"
type_synonym u32 = "32 word"
type_synonym u64 = "64 word"

named_theorems fw_defs \<open>definitions of guards and small helpers, unfolded by the component proofs\<close>

section \<open>Wrap-around clock\<close>

definition elapsed_ms :: "u32 \<Rightarrow> u32 \<Rightarrow> u32" where
  "elapsed_ms now t = now - t"

definition later_than :: "u32 \<Rightarrow> u32 \<Rightarrow> bool" where
  "later_than a b \<longleftrightarrow> 0 < sint (a - b)"

lemma elapsed_self [simp]: "elapsed_ms t t = 0"
  by (simp add: elapsed_ms_def)

lemma later_than_irrefl [simp]: "\<not> later_than t t"
  by (simp add: later_than_def)

text \<open>Elapsed time does not see the wrap: shifting both ends by the same amount is invisible.\<close>

lemma elapsed_shift [simp]: "elapsed_ms (now + d) (t + d) = elapsed_ms now t"
  by (simp add: elapsed_ms_def)

lemma later_than_shift [simp]: "later_than (a + d) (b + d) = later_than a b"
  by (simp add: later_than_def)

lemma elapsed_add: "elapsed_ms (t + d) t = d"
  by (simp add: elapsed_ms_def)

text \<open>
  Within any window of less than \<open>2^31\<close> milliseconds the two comparisons are the ordinary
  ones on the offsets into the window, wherever the clock wraps.
\<close>

lemma sint_of_int_small:
  "- (2 ^ 31) \<le> z \<Longrightarrow> z < 2 ^ 31 \<Longrightarrow> sint (word_of_int z :: u32) = z"
  by (simp add: sint_sbintrunc' signed_take_bit_int_eq_self)

lemma sint_window:
  assumes "j < 2 ^ 31" "k < 2 ^ 31"
  shows "sint ((t + word_of_nat j) - (t + word_of_nat k) :: u32) = int j - int k"
proof -
  have "(t + word_of_nat j) - (t + word_of_nat k) = (word_of_int (int j - int k) :: u32)"
    by simp
  also have "sint \<dots> = int j - int k"
    using assms by (intro sint_of_int_small) auto
  finally show ?thesis .
qed

lemma later_than_window:
  "j < 2 ^ 31 \<Longrightarrow> k < 2 ^ 31 \<Longrightarrow>
   later_than (t + word_of_nat j) (t + word_of_nat k) \<longleftrightarrow> k < j"
  unfolding later_than_def by (subst sint_window) auto

lemma elapsed_window:
  "j \<le> k \<Longrightarrow> elapsed_ms (t + word_of_nat k) (t + word_of_nat j) = word_of_nat (k - j)"
  by (simp add: elapsed_ms_def of_nat_diff)

section \<open>Machines driven by a list of events\<close>

text \<open>
  Most components are deterministic objects: a state and one function per operation. Their
  histories are folds of a step function over the events the rest of the firmware sends. The
  locale gives each of them the induction once; a component's theory interprets it on its
  own step function and invariant.
\<close>

locale guarded_machine =
  fixes step :: "'s \<Rightarrow> 'e \<Rightarrow> 's"
    and inv :: "'s \<Rightarrow> bool"
    and admissible :: "'e \<Rightarrow> bool"
  assumes guarded_step: "inv s \<Longrightarrow> admissible e \<Longrightarrow> inv (step s e)"
begin

lemma guarded_run: "inv s \<Longrightarrow> list_all admissible es \<Longrightarrow> inv (foldl step s es)"
  by (induction es arbitrary: s) (simp_all add: guarded_step)

end

text \<open>A machine whose invariant survives every event.\<close>

locale event_machine =
  fixes step :: "'s \<Rightarrow> 'e \<Rightarrow> 's"
    and inv :: "'s \<Rightarrow> bool"
  assumes step_inv: "inv s \<Longrightarrow> inv (step s e)"

sublocale event_machine \<subseteq> guarded_machine step inv "\<lambda>_. True"
  by unfold_locales (rule step_inv)

context event_machine
begin

lemma run_inv: "inv s \<Longrightarrow> inv (foldl step s es)"
  using guarded_run [of s es] by (simp add: list_all_iff)

lemma run_prefix_inv: "inv s \<Longrightarrow> inv (foldl step s (take n es))"
  by (rule run_inv)

end

text \<open>
  A machine with a latch: a state predicate that, once true, no event of the class
  \<open>keeps\<close> clears.
\<close>

locale latching_machine =
  fixes step :: "'s \<Rightarrow> 'e \<Rightarrow> 's"
    and latched :: "'s \<Rightarrow> bool"
    and keeps :: "'e \<Rightarrow> bool"
  assumes step_latched: "latched s \<Longrightarrow> keeps e \<Longrightarrow> latched (step s e)"
begin

lemma run_latched: "latched s \<Longrightarrow> list_all keeps es \<Longrightarrow> latched (foldl step s es)"
  by (induction es arbitrary: s) (simp_all add: step_latched)

end

text \<open>
  Counting over a history: \<open>total step w s es\<close> adds the weight of every event at the state it
  meets. A machine with a budget never spends more than it earned and started with.
\<close>

fun total :: "('s \<Rightarrow> 'e \<Rightarrow> 's) \<Rightarrow> ('s \<Rightarrow> 'e \<Rightarrow> nat) \<Rightarrow> 's \<Rightarrow> 'e list \<Rightarrow> nat" where
  "total step w s [] = 0"
| "total step w s (e # es) = w s e + total step w (step s e) es"

lemma total_const: "total step (\<lambda>_ e. if e = x then 1 else 0) s es = count_list es x"
  by (induction es arbitrary: s) auto

locale budget_machine = event_machine step inv
  for step :: "'s \<Rightarrow> 'e \<Rightarrow> 's" and inv :: "'s \<Rightarrow> bool" +
  fixes savings :: "'s \<Rightarrow> nat"
    and spent earned :: "'s \<Rightarrow> 'e \<Rightarrow> nat"
  assumes budget: "inv s \<Longrightarrow> spent s e + savings (step s e) \<le> savings s + earned s e"
begin

lemma total_budget:
  "inv s \<Longrightarrow> total step spent s es + savings (foldl step s es) \<le> savings s + total step earned s es"
proof (induction es arbitrary: s)
  case (Cons e es)
  from budget [OF Cons.prems, of e] Cons.IH [OF step_inv [OF Cons.prems], of e] show ?case by simp
qed simp

end

section \<open>Lists as fixed-size arrays\<close>

lemma length_list_update_eq: "length xs = n \<Longrightarrow> length (xs[i := v]) = n"
  by simp

lemma list_all_update: "list_all P xs \<Longrightarrow> P v \<Longrightarrow> list_all P (xs[i := v])"
  by (auto simp: list_all_iff dest: set_update_subset_insert [THEN subsetD])

lemma list_all_replicate [simp]: "list_all P (replicate n x) \<longleftrightarrow> n = 0 \<or> P x"
  by (induction n) auto

section \<open>Bytes\<close>

text \<open>
  A byte is the union of its two nibbles; the protocol keys fields off each of them.
\<close>

lemma nibbles_join: "(x AND 0xF0) OR (x AND 0x0F) = (x :: u8)"
proof -
  have "(x AND 0xF0) OR (x AND 0x0F) = x AND (0xF0 OR 0x0F)"
    by (simp only: bit.conj_disj_distrib)
  also have "(0xF0 OR 0x0F :: u8) = -1" by simp
  also have "x AND -1 = x" by (simp only: bit.conj_one_right)
  finally show ?thesis .
qed

lemma unat_u8_lt: "unat (x :: u8) < 256"
  using unsigned_less [where w = x] by simp

lemma unat_and_nibble: "unat (x AND 0x0F :: u8) < 16"
proof -
  have "x AND 0x0F \<le> (0x0F :: u8)" by (rule word_and_le1)
  then show ?thesis by (simp add: word_le_nat_alt)
qed

text \<open>
  Equality of bytes bit by bit, and the single-bit masks the decoders test: with both, the
  simplifier decides identities between masked, shifted and assembled bytes.
\<close>

lemma u8_eq_bits:
  "x = y \<longleftrightarrow>
     bit x 0 = bit y 0 \<and> bit x 1 = bit y 1 \<and> bit x 2 = bit y 2 \<and> bit x 3 = bit y 3 \<and>
     bit x 4 = bit y 4 \<and> bit x 5 = bit y 5 \<and> bit x 6 = bit y 6 \<and> bit x 7 = bit (y :: u8) 7"
  (is "_ \<longleftrightarrow> ?R")
proof
  assume r: ?R
  show "x = y"
  proof (rule bit_word_eqI)
    fix n :: nat
    assume "n < LENGTH(8)"
    then have "n \<in> set [0..<8]" by simp
    then show "bit x n = bit y n"
      using r by (simp add: upt_rec) (elim disjE; simp add: numeral_eq_Suc)
  qed
qed simp

lemma u8_test_bit:
  "(v AND 0x01 = 0) = (\<not> bit (v :: u8) 0)" "(v AND 0x02 = 0) = (\<not> bit v 1)"
  "(v AND 0x04 = 0) = (\<not> bit v 2)" "(v AND 0x08 = 0) = (\<not> bit v 3)"
  "(v AND 0x10 = 0) = (\<not> bit v 4)" "(v AND 0x20 = 0) = (\<not> bit v 5)"
  "(v AND 0x40 = 0) = (\<not> bit v 6)" "(v AND 0x80 = 0) = (\<not> bit v 7)"
  by (auto simp: u8_eq_bits bit_simps)

lemma u8_high_bits: "8 \<le> n \<Longrightarrow> \<not> bit (v :: u8) n"
  by (auto dest: bit_imp_le_length)

lemmas u8_bits = u8_eq_bits u8_test_bit u8_high_bits bit_simps

lemma numeral_le_one_word [simp]:
  "(numeral k :: 'a::len word) \<le> 1 \<longleftrightarrow> unat (numeral k :: 'a word) \<le> 1"
  by (cases "LENGTH('a) = 1") (auto simp: word_le_nat_alt)

end
