(* ===== verification/V1_Parser_Types.thy ===== *)
theory V1_Parser_Types
  imports V1_Prelude
begin

text \<open>
  The protocol data types shared by the parser and its consumers
  (\<open>src/packet_parser_types.h\<close>) and the parser object's own state
  (\<open>src/packet_parser.h\<close>). Field names carry a prefix for their struct; default values
  are the constructors of the code. The settings observations share the header
  \<open>revision, sequence, ingressSequence\<close>, a base record that each of them extends.
\<close>

section \<open>Bands and directions\<close>

datatype band = BAND_NONE | BAND_LASER | BAND_KA | BAND_K | BAND_X | BAND_KU

fun band_bit :: "band \<Rightarrow> u8" where
  "band_bit BAND_NONE = 0"
| "band_bit BAND_LASER = 0x01"
| "band_bit BAND_KA = 0x02"
| "band_bit BAND_K = 0x04"
| "band_bit BAND_X = 0x08"
| "band_bit BAND_KU = 0x10"

text \<open>A \<open>Direction\<close> is used as a bitmap of arrows: the byte itself.\<close>

type_synonym direction = u8

definition DIR_NONE :: direction where "DIR_NONE = 0"
definition DIR_FRONT :: direction where "DIR_FRONT = 1"
definition DIR_SIDE :: direction where "DIR_SIDE = 2"
definition DIR_REAR :: direction where "DIR_REAR = 4"

lemmas dir_defs = DIR_NONE_def DIR_FRONT_def DIR_SIDE_def DIR_REAR_def

section \<open>Alerts and the display state\<close>

record alert_data =
  ad_band :: band
  ad_direction :: direction
  ad_v1Index :: u8
  ad_frontRawStrength :: u8
  ad_rearRawStrength :: u8
  ad_frontStrength :: u8
  ad_rearStrength :: u8
  ad_frequency :: u32
  ad_isValid :: bool
  ad_isPriority :: bool
  ad_isJunk :: bool
  ad_photoType :: u8
  ad_rawBandBits :: u8
  ad_isKu :: bool

definition UNKNOWN_V1_INDEX :: u8 where "UNKNOWN_V1_INDEX = 255"

definition default_alert :: alert_data where
  "default_alert = \<lparr>
     ad_band = BAND_NONE, ad_direction = DIR_NONE, ad_v1Index = UNKNOWN_V1_INDEX,
     ad_frontRawStrength = 0, ad_rearRawStrength = 0, ad_frontStrength = 0,
     ad_rearStrength = 0, ad_frequency = 0, ad_isValid = False, ad_isPriority = False,
     ad_isJunk = False, ad_photoType = 0, ad_rawBandBits = 0, ad_isKu = False \<rparr>"

record cleared_alert =
  ca_alert :: alert_data
  ca_clearedAtMs :: u32
  ca_revision :: u32

definition default_cleared_alert :: cleared_alert where
  "default_cleared_alert = \<lparr> ca_alert = default_alert, ca_clearedAtMs = 0, ca_revision = 0 \<rparr>"

record display_state =
  ds_activeBands :: u8
  ds_arrows :: direction
  ds_priorityArrow :: direction
  ds_signalBars :: u8
  ds_muted :: bool
  ds_systemTest :: bool
  ds_modeChar :: char
  ds_hasMode :: bool
  ds_displayOn :: bool
  ds_hasDisplayOn :: bool
  ds_flashBits :: u8
  ds_bandFlashBits :: u8
  ds_mainVolume :: u8
  ds_muteVolume :: u8
  ds_v1FirmwareVersion :: u32
  ds_hasV1Version :: bool
  ds_hasVolumeData :: bool
  ds_v1PriorityIndex :: u8
  ds_bogeyCounterByte :: u8
  ds_bogeyCounterChar :: char
  ds_bogeyCounterDot :: bool
  ds_bogeyCounterByte2 :: u8
  ds_bogeyCounterChar2 :: char
  ds_bogeyCounterDot2 :: bool
  ds_hasJunkAlert :: bool
  ds_hasPhotoAlert :: bool
  ds_hasKuAlert :: bool
  ds_softMuted :: bool
  ds_timeSliceHoldoff :: bool
  ds_displayActive :: bool
  ds_hasDisplayActive :: bool
  ds_logicMuted :: bool
  ds_hasLogicMuted :: bool
  ds_autoMuted :: bool
  ds_hasAutoMuted :: bool
  ds_doubleTapActive :: bool
  ds_hasDoubleTapActive :: bool
  ds_systemStatus :: bool
  ds_savedMainVolume :: u8
  ds_savedMuteVolume :: u8
  ds_hasSavedVolume :: bool

definition default_display_state :: display_state where
  "default_display_state = \<lparr>
     ds_activeBands = 0, ds_arrows = DIR_NONE, ds_priorityArrow = DIR_NONE, ds_signalBars = 0,
     ds_muted = False, ds_systemTest = False, ds_modeChar = CHR 0x00, ds_hasMode = False,
     ds_displayOn = True, ds_hasDisplayOn = False, ds_flashBits = 0, ds_bandFlashBits = 0,
     ds_mainVolume = 0, ds_muteVolume = 0, ds_v1FirmwareVersion = 0, ds_hasV1Version = False,
     ds_hasVolumeData = False, ds_v1PriorityIndex = 0, ds_bogeyCounterByte = 0,
     ds_bogeyCounterChar = CHR ''0'', ds_bogeyCounterDot = False, ds_bogeyCounterByte2 = 0,
     ds_bogeyCounterChar2 = CHR '' '', ds_bogeyCounterDot2 = False, ds_hasJunkAlert = False,
     ds_hasPhotoAlert = False, ds_hasKuAlert = False, ds_softMuted = False,
     ds_timeSliceHoldoff = True, ds_displayActive = False, ds_hasDisplayActive = False,
     ds_logicMuted = False, ds_hasLogicMuted = False, ds_autoMuted = False,
     ds_hasAutoMuted = False, ds_doubleTapActive = False, ds_hasDoubleTapActive = False,
     ds_systemStatus = True, ds_savedMainVolume = 0, ds_savedMuteVolume = 0,
     ds_hasSavedVolume = False \<rparr>"

section \<open>Settings observations\<close>

record observation =
  obs_revision :: u32
  obs_sequence :: u32
  obs_ingressSequence :: u32

text \<open>
  Every accepted response stamps its observation the same way: the revision advances, the
  parser's next sequence number and the frame's transport ingress are recorded.
\<close>

definition stamp :: "u32 \<Rightarrow> u32 \<Rightarrow> 'a observation_scheme \<Rightarrow> 'a observation_scheme" where
  "stamp sq ingress ob =
     ob\<lparr>obs_revision := obs_revision ob + 1, obs_sequence := sq, obs_ingressSequence := ingress\<rparr>"

lemma stamp_header [simp]:
  "obs_revision (stamp sq g ob) = obs_revision ob + 1"
  "obs_sequence (stamp sq g ob) = sq"
  "obs_ingressSequence (stamp sq g ob) = g"
  by (simp_all add: stamp_def)

record display_on_obs = observation +
  don_available :: bool
  don_value :: bool

record mode_obs = observation +
  mode_available :: bool
  mode_value :: char

record current_volume_obs = observation +
  cv_available :: bool
  cv_main :: u8
  cv_muted :: u8

record all_volume_obs = observation +
  av_available :: bool
  av_currentMain :: u8
  av_currentMuted :: u8
  av_savedMain :: u8
  av_savedMuted :: u8

record display_volume_obs = observation +
  dv_available :: bool
  dv_main :: u8
  dv_muted :: u8

datatype bt_indicator = BtOff | BtBlinking | BtOn | BtInvalid

record bluetooth_obs = observation +
  bt_available :: bool
  bt_image1 :: bool
  bt_image2 :: bool
  bt_state :: bt_indicator

record sweep_section =
  sec_index :: u8
  sec_count :: u8
  sec_lowerMHz :: u16
  sec_upperMHz :: u16

record sweep_sections_obs = observation +
  ss_available :: bool
  ss_complete :: bool
  ss_poisoned :: bool
  ss_count :: u8
  ss_presentMask :: u16
  ss_sections :: "sweep_section list"

record sweep_max_obs = observation +
  sm_available :: bool
  sm_poisoned :: bool
  sm_maxIndex :: u8

record sweep_definition =
  def_index :: u8
  def_lowerMHz :: u16
  def_upperMHz :: u16

record sweep_definitions_obs = observation +
  sd_presentMask :: u64
  sd_poisoned :: bool
  sd_definitions :: "sweep_definition list"
  sd_ingressSequences :: "u32 list"

record sweep_write_obs = observation +
  sw_available :: bool
  sw_result :: u8

definition default_display_on_obs :: display_on_obs where
  "default_display_on_obs = \<lparr> obs_revision = 0, obs_sequence = 0, obs_ingressSequence = 0,
     don_available = False, don_value = True \<rparr>"

definition default_mode_obs :: mode_obs where
  "default_mode_obs = \<lparr> obs_revision = 0, obs_sequence = 0, obs_ingressSequence = 0,
     mode_available = False, mode_value = CHR 0x00 \<rparr>"

definition default_current_volume_obs :: current_volume_obs where
  "default_current_volume_obs = \<lparr> obs_revision = 0, obs_sequence = 0, obs_ingressSequence = 0,
     cv_available = False, cv_main = 0, cv_muted = 0 \<rparr>"

definition default_all_volume_obs :: all_volume_obs where
  "default_all_volume_obs = \<lparr> obs_revision = 0, obs_sequence = 0, obs_ingressSequence = 0,
     av_available = False, av_currentMain = 0, av_currentMuted = 0, av_savedMain = 0,
     av_savedMuted = 0 \<rparr>"

definition default_display_volume_obs :: display_volume_obs where
  "default_display_volume_obs = \<lparr> obs_revision = 0, obs_sequence = 0, obs_ingressSequence = 0,
     dv_available = False, dv_main = 0, dv_muted = 0 \<rparr>"

definition default_bluetooth_obs :: bluetooth_obs where
  "default_bluetooth_obs = \<lparr> obs_revision = 0, obs_sequence = 0, obs_ingressSequence = 0,
     bt_available = False, bt_image1 = False, bt_image2 = False, bt_state = BtInvalid \<rparr>"

definition default_sweep_section :: sweep_section where
  "default_sweep_section =
     \<lparr> sec_index = 0, sec_count = 0, sec_lowerMHz = 0, sec_upperMHz = 0 \<rparr>"

definition default_sweep_definition :: sweep_definition where
  "default_sweep_definition = \<lparr> def_index = 0, def_lowerMHz = 0, def_upperMHz = 0 \<rparr>"

definition default_sweep_sections_obs :: sweep_sections_obs where
  "default_sweep_sections_obs = \<lparr> obs_revision = 0, obs_sequence = 0, obs_ingressSequence = 0,
     ss_available = False, ss_complete = False, ss_poisoned = False, ss_count = 0,
     ss_presentMask = 0, ss_sections = replicate 15 default_sweep_section \<rparr>"

definition default_sweep_max_obs :: sweep_max_obs where
  "default_sweep_max_obs = \<lparr> obs_revision = 0, obs_sequence = 0, obs_ingressSequence = 0,
     sm_available = False, sm_poisoned = False, sm_maxIndex = 0 \<rparr>"

definition default_sweep_definitions_obs :: sweep_definitions_obs where
  "default_sweep_definitions_obs = \<lparr> obs_revision = 0, obs_sequence = 0, obs_ingressSequence = 0,
     sd_presentMask = 0, sd_poisoned = False,
     sd_definitions = replicate 64 default_sweep_definition,
     sd_ingressSequences = replicate 64 0 \<rparr>"

definition default_sweep_write_obs :: sweep_write_obs where
  "default_sweep_write_obs = \<lparr> obs_revision = 0, obs_sequence = 0, obs_ingressSequence = 0,
     sw_available = False, sw_result = 0 \<rparr>"

section \<open>The parser object\<close>

datatype alert_index_mode = IndexUnknown | ZeroBased | OneBased

definition MAX_ALERTS :: nat where "MAX_ALERTS = 15"
definition RAW_ALERT_INDEX_SLOTS :: nat where "RAW_ALERT_INDEX_SLOTS = MAX_ALERTS + 1"

text \<open>
  A call of the registered alert-table observer, with its arguments. The model keeps the
  calls the parser made in \<open>p_observerCalls\<close>, newest first; \<open>p_hasObserver\<close> says that an
  observer is registered.
\<close>

record observer_call =
  oc_alerts :: "alert_data list"
  oc_count :: nat
  oc_priorityIndex :: u8
  oc_nowMs :: u32

record parser =
  p_displayState :: display_state
  p_alerts :: "alert_data list"
  p_alertCount :: nat
  p_alertLifetime :: u32
  p_lastRenderableAlert :: alert_data
  p_clearedAlert :: cleared_alert
  p_alertTableObserved :: bool
  p_alertTableObservedAtMs :: u32
  p_positiveAlertObserved :: bool
  p_lastPositiveAlertAtMs :: u32
  p_displayOnObs :: display_on_obs
  p_modeObs :: mode_obs
  p_currentVolumeObs :: current_volume_obs
  p_allVolumeObs :: all_volume_obs
  p_displayVolumeObs :: display_volume_obs
  p_bluetoothObs :: bluetooth_obs
  p_sweepSectionsObs :: sweep_sections_obs
  p_sweepMaxObs :: sweep_max_obs
  p_sweepDefinitionsObs :: sweep_definitions_obs
  p_sweepWriteObs :: sweep_write_obs
  p_settingsObsSequence :: u32
  p_displayMuteConfirmCount :: u8
  p_alertChunks :: "u8 list list"
  p_alertChunkPresent :: "bool list"
  p_alertChunkCountTag :: "u8 list"
  p_alertChunkRxMs :: "u32 list"
  p_alertTableFirstSeenMs :: "u32 list"
  p_alertIndexMode :: alert_index_mode
  p_alertResyncRequired :: bool
  p_hasObserver :: bool
  p_observerCalls :: "observer_call list"

definition new_parser :: parser where
  "new_parser = \<lparr>
     p_displayState = default_display_state,
     p_alerts = replicate MAX_ALERTS default_alert, p_alertCount = 0, p_alertLifetime = 0,
     p_lastRenderableAlert = default_alert, p_clearedAlert = default_cleared_alert,
     p_alertTableObserved = False, p_alertTableObservedAtMs = 0,
     p_positiveAlertObserved = False, p_lastPositiveAlertAtMs = 0,
     p_displayOnObs = default_display_on_obs, p_modeObs = default_mode_obs,
     p_currentVolumeObs = default_current_volume_obs,
     p_allVolumeObs = default_all_volume_obs,
     p_displayVolumeObs = default_display_volume_obs,
     p_bluetoothObs = default_bluetooth_obs,
     p_sweepSectionsObs = default_sweep_sections_obs,
     p_sweepMaxObs = default_sweep_max_obs,
     p_sweepDefinitionsObs = default_sweep_definitions_obs,
     p_sweepWriteObs = default_sweep_write_obs,
     p_settingsObsSequence = 0, p_displayMuteConfirmCount = 0,
     p_alertChunks = replicate RAW_ALERT_INDEX_SLOTS (replicate 8 0),
     p_alertChunkPresent = replicate RAW_ALERT_INDEX_SLOTS False,
     p_alertChunkCountTag = replicate RAW_ALERT_INDEX_SLOTS 0,
     p_alertChunkRxMs = replicate RAW_ALERT_INDEX_SLOTS 0,
     p_alertTableFirstSeenMs = replicate (MAX_ALERTS + 1) 0,
     p_alertIndexMode = IndexUnknown, p_alertResyncRequired = False,
     p_hasObserver = False, p_observerCalls = [] \<rparr>"

text \<open>Registering an observer.\<close>

definition setAlertTableObserver :: "bool \<Rightarrow> parser \<Rightarrow> parser" where
  "setAlertTableObserver isSet p = p\<lparr>p_hasObserver := isSet\<rparr>"

text \<open>The small queries of the class.\<close>

definition supportsVolume :: "display_state \<Rightarrow> bool" where
  "supportsVolume d \<longleftrightarrow> ds_hasVolumeData d \<or> (ds_hasV1Version d \<and> ds_v1FirmwareVersion d \<ge> 41028)"

definition hasDisplayLaserAlert :: "parser \<Rightarrow> bool" where
  "hasDisplayLaserAlert p \<longleftrightarrow> ds_activeBands (p_displayState p) AND band_bit BAND_LASER \<noteq> 0"

definition hasAlerts :: "parser \<Rightarrow> bool" where
  "hasAlerts p \<longleftrightarrow> p_alertCount p > 0 \<or> hasDisplayLaserAlert p"

definition hasFreshAlertTable :: "parser \<Rightarrow> u32 \<Rightarrow> u32 \<Rightarrow> bool" where
  "hasFreshAlertTable p nowMs maxAgeMs \<longleftrightarrow>
     p_alertTableObserved p \<and> \<not> p_alertResyncRequired p \<and>
     elapsed_ms nowMs (p_alertTableObservedAtMs p) \<le> maxAgeMs"

abbreviation update_display :: "(display_state \<Rightarrow> display_state) \<Rightarrow> parser \<Rightarrow> parser" where
  "update_display f p \<equiv> p\<lparr>p_displayState := f (p_displayState p)\<rparr>"

end
