(* ===== verification/V1_Firmware_Compat.thy ===== *)
theory V1_Firmware_Compat
  imports V1_Prelude
begin

text \<open>
  Firmware capabilities of the connected detector and the user-byte masks that go with them
  (\<open>src/v1_firmware_compat.h\<close>). A firmware version is the integer \<open>41028\<close> for 4.1028,
  kept at its width; 0 means that no version is known.
\<close>

definition kInitialGen2Version :: u32 where "kInitialGen2Version = 40000"
definition kFirstUnverifiedFutureMajorVersion :: u32 where
  "kFirstUnverifiedFutureMajorVersion = 50000"
definition kCustomFrequenciesVersion :: u32 where "kCustomFrequenciesVersion = 41018"
definition kUserSettingsVersion :: u32 where "kUserSettingsVersion = 41018"
definition kVolumeChangeVersion :: u32 where "kVolumeChangeVersion = 41026"
definition kModeObservationVersion :: u32 where "kModeObservationVersion = 41028"
definition kDoubleTapVersion :: u32 where "kDoubleTapVersion = 41028"
definition kKaPriorityAndFastLaserVersion :: u32 where "kKaPriorityAndFastLaserVersion = 41031"
definition kKeepBluetoothLedOnVersion :: u32 where "kKeepBluetoothLedOnVersion = 41032"
definition kKaSensitivityVersion :: u32 where "kKaSensitivityVersion = 41032"
definition kStartupRestingDisplayAndBsmVersion :: u32 where
  "kStartupRestingDisplayAndBsmVersion = 41035"
definition kAutoMuteVersion :: u32 where "kAutoMuteVersion = 41036"
definition kSavedVolumeVersion :: u32 where "kSavedVolumeVersion = 41037"
definition kDisplayActiveVersion :: u32 where "kDisplayActiveVersion = 41037"
definition kKAndXSensitivityVersion :: u32 where "kKAndXSensitivityVersion = 41037"
definition kPhotoRadarVersion :: u32 where "kPhotoRadarVersion = 41037"
definition kFullUserBytesVersion :: u32 where "kFullUserBytesVersion = 41039"
definition kLogicMutedVersion :: u32 where "kLogicMutedVersion = 41039"
definition kUserByteCount :: nat where "kUserByteCount = 6"
definition kLegacyGen2UserByteCount :: nat where "kLegacyGen2UserByteCount = 4"

lemmas firmware_consts = kInitialGen2Version_def kFirstUnverifiedFutureMajorVersion_def
  kCustomFrequenciesVersion_def kUserSettingsVersion_def kVolumeChangeVersion_def
  kModeObservationVersion_def kDoubleTapVersion_def kKaPriorityAndFastLaserVersion_def
  kKeepBluetoothLedOnVersion_def kKaSensitivityVersion_def
  kStartupRestingDisplayAndBsmVersion_def kAutoMuteVersion_def kSavedVolumeVersion_def
  kDisplayActiveVersion_def kKAndXSensitivityVersion_def kPhotoRadarVersion_def
  kFullUserBytesVersion_def kLogicMutedVersion_def kUserByteCount_def
  kLegacyGen2UserByteCount_def

record capabilities_t =
  versionKnown :: bool
  gen2 :: bool
  cap_userByteCount :: nat
  customSweeps :: bool
  volumeChange :: bool
  modeObservation :: bool
  doubleTap :: bool
  kaAlwaysPriority :: bool
  fastLaserDetect :: bool
  keepBluetoothLedOn :: bool
  kaSensitivity :: bool
  startupSequence :: bool
  restingDisplay :: bool
  bsmPlus :: bool
  autoMute :: bool
  allVolume :: bool
  savedVolume :: bool
  cap_displayActive :: bool
  cap_logicMuted :: bool
  kSensitivity :: bool
  xSensitivity :: bool
  photoRadar :: bool
  gatsoRT4 :: bool
  photoIntersectionFilter :: bool

definition default_capabilities :: capabilities_t where
  "default_capabilities = \<lparr>
     versionKnown = False, gen2 = False, cap_userByteCount = kLegacyGen2UserByteCount,
     customSweeps = False, volumeChange = False, modeObservation = False, doubleTap = False,
     kaAlwaysPriority = False, fastLaserDetect = False, keepBluetoothLedOn = False,
     kaSensitivity = False, startupSequence = False, restingDisplay = False, bsmPlus = False,
     autoMute = False, allVolume = False, savedVolume = False, cap_displayActive = False,
     cap_logicMuted = False, kSensitivity = False, xSensitivity = False, photoRadar = False,
     gatsoRT4 = False, photoIntersectionFilter = False \<rparr>"

definition supportedUserByteCount :: "u32 \<Rightarrow> nat" where
  "supportedUserByteCount v =
     (if v \<ge> kFirstUnverifiedFutureMajorVersion then 0
      else if v \<noteq> 0 \<and> v < kInitialGen2Version then kUserByteCount
      else if v \<ge> kFullUserBytesVersion then kUserByteCount
      else kLegacyGen2UserByteCount)"

definition capabilities :: "u32 \<Rightarrow> capabilities_t" where
  "capabilities v =
     (let r = default_capabilities
                \<lparr> versionKnown := (v \<noteq> 0),
                  gen2 := (v \<ge> kInitialGen2Version \<and> v < kFirstUnverifiedFutureMajorVersion),
                  cap_userByteCount := supportedUserByteCount v \<rparr>
      in if \<not> versionKnown r \<or> \<not> gen2 r then r
         else r \<lparr>
           customSweeps := v \<ge> kCustomFrequenciesVersion,
           volumeChange := v \<ge> kVolumeChangeVersion,
           modeObservation := v \<ge> kModeObservationVersion,
           doubleTap := v \<ge> kDoubleTapVersion,
           kaAlwaysPriority := v \<ge> kKaPriorityAndFastLaserVersion,
           fastLaserDetect := v \<ge> kKaPriorityAndFastLaserVersion,
           keepBluetoothLedOn := v \<ge> kKeepBluetoothLedOnVersion,
           kaSensitivity := v \<ge> kKaSensitivityVersion,
           startupSequence := v \<ge> kStartupRestingDisplayAndBsmVersion,
           restingDisplay := v \<ge> kStartupRestingDisplayAndBsmVersion,
           bsmPlus := v \<ge> kStartupRestingDisplayAndBsmVersion,
           autoMute := v \<ge> kAutoMuteVersion,
           allVolume := v \<ge> kSavedVolumeVersion,
           savedVolume := v \<ge> kSavedVolumeVersion,
           cap_displayActive := v \<ge> kDisplayActiveVersion,
           cap_logicMuted := v \<ge> kLogicMutedVersion,
           kSensitivity := v \<ge> kKAndXSensitivityVersion,
           xSensitivity := v \<ge> kKAndXSensitivityVersion,
           photoRadar := v \<ge> kPhotoRadarVersion,
           gatsoRT4 := v \<ge> kFullUserBytesVersion,
           photoIntersectionFilter := v \<ge> kFullUserBytesVersion \<rparr>)"

text \<open>
  The user-byte arrays are C arrays of six bytes: lists of length 6 here; a null array is
  \<open>None\<close> and leaves the output as it was.
\<close>

definition prepareUserBytesForWrite :: "u8 list option \<Rightarrow> u8 list option \<Rightarrow> u32 \<Rightarrow> u8 list option" where
  "prepareUserBytesForWrite input output v =
     (case (input, output) of
        (Some i, Some _) \<Rightarrow>
          Some (map (\<lambda>k. if k < supportedUserByteCount v then i ! k else 0xFF) [0..<kUserByteCount])
      | _ \<Rightarrow> output)"

definition supportedUserByteMasks :: "u32 \<Rightarrow> u8 list" where
  "supportedUserByteMasks v =
     (let m = replicate kUserByteCount 0 in
      if v < kUserSettingsVersion then m
      else
        let m = m[0 := 0xFF];
            m = m[1 := 0x0F];
            m = (if v \<ge> kKaPriorityAndFastLaserVersion then m[1 := 0x3F] else m);
            m = (if v \<ge> kKaSensitivityVersion then m[1 := 0xFF] else m);
            m = (if v \<ge> kStartupRestingDisplayAndBsmVersion then m[2 := 0x07] else m);
            m = (if v \<ge> kAutoMuteVersion then m[2 := 0x1F] else m);
            m = (if v \<ge> kKAndXSensitivityVersion then m[2 := 0xFF, 3 := 0xFF] else m)
        in if v \<ge> kFullUserBytesVersion then m[4 := 0x03] else m)"

definition hasWritableUserSettings :: "u32 \<Rightarrow> bool" where
  "hasWritableUserSettings v \<longleftrightarrow>
     v \<ge> kUserSettingsVersion \<and> v < kFirstUnverifiedFutureMajorVersion"

definition overlaySupportedUserBytes ::
    "u8 list option \<Rightarrow> u8 list option \<Rightarrow> u8 list option \<Rightarrow> u32 \<Rightarrow> u8 list option" where
  "overlaySupportedUserBytes live desired effective v =
     (case (live, desired, effective) of
        (Some l, Some d, Some _) \<Rightarrow>
          (let masks = supportedUserByteMasks v in
           Some (map (\<lambda>k. (l ! k AND NOT (masks ! k)) OR (d ! k AND masks ! k))
                  [0..<kUserByteCount]))
      | _ \<Rightarrow> effective)"

definition userBytesMatchSupported :: "u8 list option \<Rightarrow> u8 list option \<Rightarrow> u32 \<Rightarrow> bool" where
  "userBytesMatchSupported left right v =
     (case (left, right) of
        (Some l, Some r) \<Rightarrow>
          (let masks = supportedUserByteMasks v in
           list_all (\<lambda>k. l ! k AND masks ! k = r ! k AND masks ! k) [0..<kUserByteCount])
      | _ \<Rightarrow> False)"

definition hasValidModeledUserSettingValues :: "u8 list option \<Rightarrow> u32 \<Rightarrow> bool" where
  "hasValidModeledUserSettingValues bytes v =
     (case bytes of None \<Rightarrow> False
      | Some b \<Rightarrow>
          let supported = capabilities v in
          if kaSensitivity supported \<and> drop_bit 6 (b ! 1) AND 0x03 = 0 then False
          else if autoMute supported \<and> drop_bit 3 (b ! 2) AND 0x03 = 0 then False
          else if kSensitivity supported \<and> drop_bit 5 (b ! 2) AND 0x03 = 0 then False
          else if xSensitivity supported \<and> b ! 3 AND 0x03 = 0 then False
          else True)"

section \<open>Capabilities\<close>

lemma capabilities_zero [simp]: "capabilities 0 = default_capabilities"
  by (simp add: capabilities_def default_capabilities_def supportedUserByteCount_def
      firmware_consts)

text \<open>Every capability is off outside the qualified 4.x range.\<close>

lemma capabilities_outside_gen2:
  assumes "v = 0 \<or> v < kInitialGen2Version \<or> v \<ge> kFirstUnverifiedFutureMajorVersion"
  shows "capabilities v = default_capabilities
           \<lparr>versionKnown := (v \<noteq> 0), cap_userByteCount := supportedUserByteCount v\<rparr>"
  using assms by (auto simp: capabilities_def default_capabilities_def kInitialGen2Version_def Let_def)

lemma capabilities_gen2:
  assumes "kInitialGen2Version \<le> v" "v < kFirstUnverifiedFutureMajorVersion"
  shows "modeObservation (capabilities v) \<longleftrightarrow> v \<ge> kModeObservationVersion"
    and "customSweeps (capabilities v) \<longleftrightarrow> v \<ge> kCustomFrequenciesVersion"
    and "cap_logicMuted (capabilities v) \<longleftrightarrow> v \<ge> kLogicMutedVersion"
    and "cap_displayActive (capabilities v) \<longleftrightarrow> v \<ge> kDisplayActiveVersion"
    and "autoMute (capabilities v) \<longleftrightarrow> v \<ge> kAutoMuteVersion"
    and "kaSensitivity (capabilities v) \<longleftrightarrow> v \<ge> kKaSensitivityVersion"
    and "kSensitivity (capabilities v) \<longleftrightarrow> v \<ge> kKAndXSensitivityVersion"
    and "xSensitivity (capabilities v) \<longleftrightarrow> v \<ge> kKAndXSensitivityVersion"
  using assms by (auto simp: capabilities_def default_capabilities_def kInitialGen2Version_def Let_def)

section \<open>User bytes\<close>

lemma length_masks [simp]: "length (supportedUserByteMasks v) = 6"
  by (simp add: supportedUserByteMasks_def kUserByteCount_def Let_def)

lemma mask_select_same: "((x AND NOT m) OR (y AND m)) AND m = y AND (m :: u8)"
  by (simp add: bit_eq_iff bit_simps) blast

lemma mask_select_other: "((x AND NOT m) OR (y AND m)) AND NOT m = x AND NOT (m :: u8)"
  by (simp add: bit_eq_iff bit_simps) blast

lemma overlay_nth:
  assumes "overlaySupportedUserBytes (Some l) (Some d) (Some e) v = Some r" "k < 6"
  shows "r ! k = (l ! k AND NOT (supportedUserByteMasks v ! k)) OR (d ! k AND supportedUserByteMasks v ! k)"
  using assms by (auto simp: overlaySupportedUserBytes_def kUserByteCount_def Let_def)

text \<open>
  The overlay written to the detector matches the desired bytes on every bit the firmware
  implements, and the live bytes on every other bit.
\<close>

lemma overlay_matches:
  "overlaySupportedUserBytes (Some l) (Some d) (Some e) v = Some r \<Longrightarrow>
   userBytesMatchSupported (Some r) (Some d) v"
  by (auto simp: userBytesMatchSupported_def list_all_iff kUserByteCount_def overlay_nth
      mask_select_same)

lemma overlay_keeps_unsupported:
  "overlaySupportedUserBytes (Some l) (Some d) (Some e) v = Some r \<Longrightarrow> k < 6 \<Longrightarrow>
   r ! k AND NOT (supportedUserByteMasks v ! k) = l ! k AND NOT (supportedUserByteMasks v ! k)"
  by (simp add: overlay_nth mask_select_other)

lemma match_refl: "userBytesMatchSupported (Some l) (Some l) v"
  by (simp add: userBytesMatchSupported_def list_all_iff)

lemma match_sym: "userBytesMatchSupported (Some l) (Some r) v \<Longrightarrow>
    userBytesMatchSupported (Some r) (Some l) v"
  by (auto simp: userBytesMatchSupported_def list_all_iff Let_def)

lemma match_trans: "userBytesMatchSupported (Some a) (Some b) v \<Longrightarrow>
    userBytesMatchSupported (Some b) (Some c) v \<Longrightarrow> userBytesMatchSupported (Some a) (Some c) v"
  by (auto simp: userBytesMatchSupported_def list_all_iff Let_def)

end
