(* ===== verification/V1_Parser_Display.thy ===== *)
theory V1_Parser_Display
  imports V1_Parser_Types V1_Firmware_Compat
begin

text \<open>
  Decoding of the detector's display broadcast (\<open>PacketParser::parseDisplayData\<close> and its
  helpers in \<open>src/packet_parser.cpp\<close>): the seven-segment bogey counter, band and arrow
  images with their blink masks, the mode, the status bits, the mute debounce and the
  signal bars. A payload is \<open>&data[5]\<close> of the frame, with the payload length beside it.
\<close>

section \<open>Definitions\<close>

record band_arrow =
  ba_laser :: bool
  ba_ka :: bool
  ba_k :: bool
  ba_x :: bool
  ba_mute :: bool
  ba_front :: bool
  ba_side :: bool
  ba_rear :: bool

definition processBandArrow :: "u8 \<Rightarrow> band_arrow" where
  "processBandArrow v = \<lparr>
     ba_laser = (v AND 0x01 \<noteq> 0), ba_ka = (v AND 0x02 \<noteq> 0), ba_k = (v AND 0x04 \<noteq> 0),
     ba_x = (v AND 0x08 \<noteq> 0), ba_mute = (v AND 0x10 \<noteq> 0), ba_front = (v AND 0x20 \<noteq> 0),
     ba_side = (v AND 0x40 \<noteq> 0), ba_rear = (v AND 0x80 \<noteq> 0) \<rparr>"

text \<open>The segment images the counter can show, in the order of the code's switch.\<close>

definition bogey_glyphs :: "(u8 \<times> char) list" where
  "bogey_glyphs =
     [(6, CHR ''1''), (7, CHR ''7''), (24, CHR ''&''), (28, CHR ''u''), (30, CHR ''J''),
      (56, CHR ''L''), (57, CHR ''C''), (62, CHR ''U''), (63, CHR ''0''), (73, CHR ''#''),
      (79, CHR ''3''), (88, CHR ''c''), (91, CHR ''2''), (94, CHR ''d''), (102, CHR ''4''),
      (109, CHR ''5''), (111, CHR ''9''), (113, CHR ''F''), (115, CHR ''P''), (119, CHR ''A''),
      (121, CHR ''E''), (124, CHR ''b''), (125, CHR ''6''), (127, CHR ''8'')]"

definition decodeBogeyCounterByte :: "u8 \<Rightarrow> char \<times> bool" where
  "decodeBogeyCounterByte bogeyImage =
     ((case map_of bogey_glyphs (bogeyImage AND 0x7F) of Some c \<Rightarrow> c | None \<Rightarrow> CHR '' ''),
      bogeyImage AND 0x80 \<noteq> 0)"

text \<open>The mode bits of a display packet, shared by both decoders: \<open>CHR 0x00\<close> is "unknown".\<close>

definition mode_of_aux :: "u8 \<Rightarrow> u8 \<Rightarrow> char" where
  "mode_of_aux aux0 aux1 =
     (let euroMode = (aux0 AND 0x10 \<noteq> 0); customSw = (aux0 AND 0x20 \<noteq> 0);
          code = drop_bit 2 aux1 AND 0x03 in
      if code = 1 then (if euroMode then (if customSw then CHR ''C'' else CHR ''U'') else CHR ''A'')
      else if code = 2 then (if euroMode then (if customSw then CHR ''c'' else CHR ''u'') else CHR ''l'')
      else if code = 3 then (if euroMode then CHR 0x00 else CHR ''L'')
      else CHR 0x00)"

definition decodeQualifiedModeObservation :: "u8 list option \<Rightarrow> u32 \<Rightarrow> char" where
  "decodeQualifiedModeObservation payload firmwareVersion =
     (case payload of None \<Rightarrow> CHR 0x00
      | Some b \<Rightarrow>
          if \<not> modeObservation (capabilities firmwareVersion) then CHR 0x00
          else mode_of_aux (b ! 5) (b ! 6))"

definition mode_glyphs :: "(u8 \<times> char) list" where
  "mode_glyphs =
     [(0x77, CHR ''A''), (0x39, CHR ''C''), (0x3E, CHR ''U''), (0x18, CHR ''l''),
      (0x1C, CHR ''u''), (0x58, CHR ''c''), (0x38, CHR ''L'')]"

definition decodeMode :: "u8 list option \<Rightarrow> nat \<Rightarrow> display_state \<Rightarrow> display_state" where
  "decodeMode payload len d =
     (case payload of None \<Rightarrow> d
      | Some b \<Rightarrow>
          if len > 6 \<and> ds_hasV1Version d \<and> modeObservation (capabilities (ds_v1FirmwareVersion d)) then
            (let qualifiedMode = mode_of_aux (b ! 5) (b ! 6) in
             if qualifiedMode = CHR 0x00 then d\<lparr>ds_modeChar := CHR 0x00, ds_hasMode := False\<rparr>
             else d\<lparr>ds_modeChar := qualifiedMode, ds_hasMode := True\<rparr>)
          else if len < 1 then d
          else (case map_of mode_glyphs (b ! 0 AND 0x7F) of
                  None \<Rightarrow> d
                | Some mode \<Rightarrow> d\<lparr>ds_modeChar := mode, ds_hasMode := (mode \<noteq> CHR 0x00)\<rparr>))"

definition kLedBitmapDomain :: "u8 list" where
  "kLedBitmapDomain = [0x00, 0x01, 0x03, 0x07, 0x0F, 0x1F, 0x3F, 0x7F, 0xFF]"

definition kLedBitmapMaxBars :: u8 where "kLedBitmapMaxBars = 8"

definition decodeLEDBitmap :: "u8 \<Rightarrow> u8" where
  "decodeLEDBitmap bitmap =
     (case find (\<lambda>i. kLedBitmapDomain ! i = bitmap) [0..<length kLedBitmapDomain] of
        Some i \<Rightarrow> word_of_nat i
      | None \<Rightarrow> kLedBitmapMaxBars)"

text \<open>The bogey counter pair.\<close>

definition set_bogey :: "u8 \<Rightarrow> u8 \<Rightarrow> display_state \<Rightarrow> display_state" where
  "set_bogey b1 b2 d =
     (let (c1, dot1) = decodeBogeyCounterByte b1; (c2, dot2) = decodeBogeyCounterByte b2 in
      d\<lparr>ds_bogeyCounterByte := b1, ds_bogeyCounterChar := c1, ds_bogeyCounterDot := dot1,
        ds_bogeyCounterByte2 := b2, ds_bogeyCounterChar2 := c2, ds_bogeyCounterDot2 := dot2\<rparr>)"

text \<open>The status snapshot from auxData0 and auxData1, and the \<open>auxSystemStatus\<close> it yields.\<close>

definition set_status :: "u8 list \<Rightarrow> nat \<Rightarrow> display_state \<Rightarrow> display_state \<times> bool" where
  "set_status b len d =
     (if len > 5 then
        let aux0 = b ! 5; aux1 = b ! 6; caps = capabilities (ds_v1FirmwareVersion d) in
        (d\<lparr>ds_softMuted := aux0 AND 0x01 \<noteq> 0,
           ds_timeSliceHoldoff := aux0 AND 0x02 \<noteq> 0,
           ds_displayOn := aux0 AND 0x08 \<noteq> 0,
           ds_hasDisplayOn := True,
           ds_hasDisplayActive := cap_displayActive caps,
           ds_displayActive := cap_displayActive caps \<and> aux0 AND 0x80 \<noteq> 0,
           ds_hasLogicMuted := cap_logicMuted caps,
           ds_logicMuted := cap_logicMuted caps \<and> aux1 AND 0x02 \<noteq> 0,
           ds_hasAutoMuted := autoMute caps,
           ds_autoMuted := autoMute caps \<and> aux1 AND 0x10 \<noteq> 0,
           ds_hasDoubleTapActive := doubleTap caps,
           ds_doubleTapActive := doubleTap caps \<and> aux1 AND 0x20 \<noteq> 0\<rparr>,
         aux0 AND 0x04 \<noteq> 0)
      else (d\<lparr>ds_softMuted := False, ds_timeSliceHoldoff := True\<rparr>, False))"

text \<open>Bands, arrows and their blink bits, gated by the system status.\<close>

definition band_bitmap :: "band_arrow \<Rightarrow> u8" where
  "band_bitmap a =
     (let bits = (0 :: u8);
          bits = (if ba_laser a then bits OR band_bit BAND_LASER else bits);
          bits = (if ba_ka a then bits OR band_bit BAND_KA else bits);
          bits = (if ba_k a then bits OR band_bit BAND_K else bits)
      in if ba_x a then bits OR band_bit BAND_X else bits)"

definition arrow_bitmap :: "band_arrow \<Rightarrow> direction" where
  "arrow_bitmap a =
     (let dirs = DIR_NONE;
          dirs = (if ba_front a then dirs OR DIR_FRONT else dirs);
          dirs = (if ba_side a then dirs OR DIR_SIDE else dirs)
      in if ba_rear a then dirs OR DIR_REAR else dirs)"

definition set_bands_arrows :: "u8 \<Rightarrow> u8 \<Rightarrow> nat \<Rightarrow> bool \<Rightarrow> display_state \<Rightarrow> display_state" where
  "set_bands_arrows image1 image2 len auxSystemStatus d =
     (let arrow = processBandArrow image1; flashing = image1 AND NOT image2;
          d = d\<lparr>ds_bandFlashBits := flashing AND 0x0F, ds_flashBits := flashing AND 0xE0,
                ds_activeBands := band_bitmap arrow, ds_arrows := arrow_bitmap arrow\<rparr>
      in if len > 5 \<and> \<not> auxSystemStatus then
           d\<lparr>ds_activeBands := 0, ds_arrows := DIR_NONE, ds_bandFlashBits := 0, ds_flashBits := 0\<rparr>
         else d)"

text \<open>The two-packet mute debounce.\<close>

definition mute_confirm :: "u8 \<Rightarrow> u8 \<Rightarrow> u8" where
  "mute_confirm image1 count =
     (if image1 AND 0x10 \<noteq> 0 then (if count < 2 then count + 1 else count) else 0)"

definition parseDisplayData :: "u8 list option \<Rightarrow> nat \<Rightarrow> parser \<Rightarrow> bool \<times> parser" where
  "parseDisplayData payload len p =
     (case payload of None \<Rightarrow> (False, p)
      | Some b \<Rightarrow>
          if len < 8 then (False, p)
          else
            let d = p_displayState p;
                d = set_bogey (b ! 0) (b ! 1) d;
                image1 = b ! 3; image2 = b ! 4;
                d = decodeMode payload len d;
                (d, auxSystemStatus) = set_status b len d;
                d = d\<lparr>ds_systemStatus := auxSystemStatus\<rparr>;
                d = set_bands_arrows image1 image2 len auxSystemStatus d;
                confirm = mute_confirm image1 (p_displayMuteConfirmCount p);
                d = d\<lparr>ds_muted := confirm \<ge> 2\<rparr>;
                d = (if len > 2 then d\<lparr>ds_signalBars := decodeLEDBitmap (b ! 2)\<rparr> else d)
            in (True, p\<lparr>p_displayState := d, p_displayMuteConfirmCount := confirm\<rparr>))"

section \<open>Signal bars\<close>

lemma find_Some_in: "find P xs = Some x \<Longrightarrow> x \<in> set xs \<and> P x"
  by (auto simp: find_Some_iff)

lemma decodeLEDBitmap_cases:
  "decodeLEDBitmap b =
     (if b = 0 then 0 else if b = 1 then 1 else if b = 3 then 2 else if b = 7 then 3
      else if b = 15 then 4 else if b = 31 then 5 else if b = 63 then 6 else if b = 127 then 7
      else 8)"
  by (simp add: decodeLEDBitmap_def kLedBitmapDomain_def kLedBitmapMaxBars_def upt_rec)

lemma decodeLEDBitmap_le: "decodeLEDBitmap b \<le> 8"
  by (simp add: decodeLEDBitmap_cases)

text \<open>Each LED count is decoded from its own image: the ladder is a left inverse.\<close>

lemma decodeLEDBitmap_ladder:
  assumes "n \<le> 8"
  shows "decodeLEDBitmap (kLedBitmapDomain ! n) = word_of_nat n"
proof -
  from assms have "n \<in> set [0,1,2,3,4,5,6,7,8]" by auto
  then show ?thesis by (simp, elim disjE) (simp_all add: decodeLEDBitmap_cases kLedBitmapDomain_def)
qed

section \<open>The mute debounce\<close>

lemma mute_confirm_le: "c \<le> 2 \<Longrightarrow> mute_confirm i c \<le> 2"
  by (auto simp: mute_confirm_def word_less_nat_alt word_le_nat_alt unat_word_ariths)

text \<open>Muted means that the last two display packets both carried the mute bit.\<close>

lemma mute_confirm_two:
  assumes "c \<le> 2"
  shows "mute_confirm i2 (mute_confirm i1 c) \<ge> 2 \<longleftrightarrow> i1 AND 0x10 \<noteq> 0 \<and> i2 AND 0x10 \<noteq> 0"
proof -
  have "c = 0 \<or> c = 1 \<or> c = 2"
    using assms by unat_arith
  then show ?thesis by (elim disjE) (auto simp: mute_confirm_def)
qed

section \<open>Bands and arrows\<close>

text \<open>The eight tests of the code assemble the two fields of the image byte.\<close>

lemma band_bitmap_process: "band_bitmap (processBandArrow v) = v AND 0x0F"
  by (simp add: band_bitmap_def processBandArrow_def Let_def u8_bits)

lemma arrow_bitmap_process: "arrow_bitmap (processBandArrow v) = drop_bit 5 v"
  by (simp add: arrow_bitmap_def processBandArrow_def Let_def dir_defs u8_bits)

lemma set_bands_arrows_fields:
  assumes "len > 5"
  shows "ds_activeBands (set_bands_arrows i1 i2 len st d) = (if st then i1 AND 0x0F else 0)"
    and "ds_arrows (set_bands_arrows i1 i2 len st d) = (if st then drop_bit 5 i1 else 0)"
    and "ds_bandFlashBits (set_bands_arrows i1 i2 len st d)
           = (if st then (i1 AND NOT i2) AND 0x0F else 0)"
    and "ds_flashBits (set_bands_arrows i1 i2 len st d)
           = (if st then (i1 AND NOT i2) AND 0xE0 else 0)"
  using assms
  by (simp_all add: set_bands_arrows_def Let_def band_bitmap_process arrow_bitmap_process
      DIR_NONE_def)

section \<open>The whole display packet\<close>

definition display_payload :: "u8 list option \<Rightarrow> nat \<Rightarrow> bool" where
  "display_payload payload len \<longleftrightarrow> payload \<noteq> None \<and> 8 \<le> len"

lemma parseDisplayData_result: "fst (parseDisplayData payload len p) = display_payload payload len"
  by (auto simp: parseDisplayData_def display_payload_def Let_def split: option.splits prod.splits)

lemma parseDisplayData_reject:
  "\<not> display_payload payload len \<Longrightarrow> parseDisplayData payload len p = (False, p)"
  by (auto simp: parseDisplayData_def display_payload_def split: option.splits)

text \<open>The decoder writes the display state and the mute counter, nothing else of the parser.\<close>

lemma parseDisplayData_frame:
  "snd (parseDisplayData payload len p) =
     p\<lparr>p_displayState := p_displayState (snd (parseDisplayData payload len p)),
       p_displayMuteConfirmCount := p_displayMuteConfirmCount (snd (parseDisplayData payload len p))\<rparr>"
  by (auto simp: parseDisplayData_def Let_def split: option.splits prod.splits)

lemma decodeMode_frame:
  "\<exists>m h. decodeMode payload len d = d\<lparr>ds_modeChar := m, ds_hasMode := h\<rparr>"
proof -
  have same: "d = d\<lparr>ds_modeChar := ds_modeChar d, ds_hasMode := ds_hasMode d\<rparr>" by simp
  show ?thesis
    by (cases payload) (auto simp: decodeMode_def Let_def split: option.splits intro: same)
qed

lemma decodeMode_keeps [simp]:
  "ds_v1FirmwareVersion (decodeMode b n d) = ds_v1FirmwareVersion d"
  "ds_hasV1Version (decodeMode b n d) = ds_hasV1Version d"
  "ds_mainVolume (decodeMode b n d) = ds_mainVolume d"
  "ds_muteVolume (decodeMode b n d) = ds_muteVolume d"
  "ds_savedMainVolume (decodeMode b n d) = ds_savedMainVolume d"
  "ds_savedMuteVolume (decodeMode b n d) = ds_savedMuteVolume d"
  "ds_v1PriorityIndex (decodeMode b n d) = ds_v1PriorityIndex d"
  "ds_activeBands (decodeMode b n d) = ds_activeBands d"
  by (use decodeMode_frame [of b n d] in auto)

text \<open>What a display packet shows, field by field.\<close>

lemma set_status_keeps [simp]:
  "ds_v1FirmwareVersion (fst (set_status b n d)) = ds_v1FirmwareVersion d"
  "ds_hasV1Version (fst (set_status b n d)) = ds_hasV1Version d"
  "ds_mainVolume (fst (set_status b n d)) = ds_mainVolume d"
  "ds_muteVolume (fst (set_status b n d)) = ds_muteVolume d"
  "ds_savedMainVolume (fst (set_status b n d)) = ds_savedMainVolume d"
  "ds_savedMuteVolume (fst (set_status b n d)) = ds_savedMuteVolume d"
  "ds_v1PriorityIndex (fst (set_status b n d)) = ds_v1PriorityIndex d"
  by (simp_all add: set_status_def Let_def)

lemma set_bogey_keeps [simp]:
  "ds_v1FirmwareVersion (set_bogey x y d) = ds_v1FirmwareVersion d"
  "ds_hasV1Version (set_bogey x y d) = ds_hasV1Version d"
  "ds_mainVolume (set_bogey x y d) = ds_mainVolume d"
  "ds_muteVolume (set_bogey x y d) = ds_muteVolume d"
  "ds_savedMainVolume (set_bogey x y d) = ds_savedMainVolume d"
  "ds_savedMuteVolume (set_bogey x y d) = ds_savedMuteVolume d"
  "ds_v1PriorityIndex (set_bogey x y d) = ds_v1PriorityIndex d"
  by (simp_all add: set_bogey_def Let_def case_prod_unfold)

lemma set_bands_arrows_keeps [simp]:
  "ds_v1FirmwareVersion (set_bands_arrows i j n st d) = ds_v1FirmwareVersion d"
  "ds_hasV1Version (set_bands_arrows i j n st d) = ds_hasV1Version d"
  "ds_mainVolume (set_bands_arrows i j n st d) = ds_mainVolume d"
  "ds_muteVolume (set_bands_arrows i j n st d) = ds_muteVolume d"
  "ds_savedMainVolume (set_bands_arrows i j n st d) = ds_savedMainVolume d"
  "ds_savedMuteVolume (set_bands_arrows i j n st d) = ds_savedMuteVolume d"
  "ds_v1PriorityIndex (set_bands_arrows i j n st d) = ds_v1PriorityIndex d"
  by (simp_all add: set_bands_arrows_def Let_def)

lemma parseDisplayData_keeps [simp]:
  "ds_v1FirmwareVersion (p_displayState (snd (parseDisplayData b n p)))
     = ds_v1FirmwareVersion (p_displayState p)"
  "ds_hasV1Version (p_displayState (snd (parseDisplayData b n p)))
     = ds_hasV1Version (p_displayState p)"
  "ds_mainVolume (p_displayState (snd (parseDisplayData b n p))) = ds_mainVolume (p_displayState p)"
  "ds_muteVolume (p_displayState (snd (parseDisplayData b n p))) = ds_muteVolume (p_displayState p)"
  "ds_savedMainVolume (p_displayState (snd (parseDisplayData b n p)))
     = ds_savedMainVolume (p_displayState p)"
  "ds_savedMuteVolume (p_displayState (snd (parseDisplayData b n p)))
     = ds_savedMuteVolume (p_displayState p)"
  "ds_v1PriorityIndex (p_displayState (snd (parseDisplayData b n p)))
     = ds_v1PriorityIndex (p_displayState p)"
  by (auto simp: parseDisplayData_def Let_def case_prod_unfold split: option.splits)

lemma set_status_flag: "len > 5 \<Longrightarrow> snd (set_status b len d) = (b ! 5 AND 0x04 \<noteq> 0)"
  by (simp add: set_status_def Let_def)

lemma parseDisplayData_shows:
  fixes b :: "u8 list" and len :: nat and p :: parser
  assumes "8 \<le> len"
  defines "d' \<equiv> p_displayState (snd (parseDisplayData (Some b) len p))"
    and "st \<equiv> b ! 5 AND 0x04 \<noteq> 0"
  shows "ds_activeBands d' = (if st then b ! 3 AND 0x0F else 0)"
    and "ds_arrows d' = (if st then drop_bit 5 (b ! 3) else 0)"
    and "ds_bandFlashBits d' = (if st then (b ! 3 AND NOT (b ! 4)) AND 0x0F else 0)"
    and "ds_flashBits d' = (if st then (b ! 3 AND NOT (b ! 4)) AND 0xE0 else 0)"
    and "ds_signalBars d' = decodeLEDBitmap (b ! 2)"
    and "ds_muted d' \<longleftrightarrow> mute_confirm (b ! 3) (p_displayMuteConfirmCount p) \<ge> 2"
  using assms(1) unfolding d'_def st_def
  by (simp_all add: parseDisplayData_def Let_def case_prod_unfold set_bands_arrows_fields
      set_status_flag)

lemma parseDisplayData_confirm:
  "8 \<le> len \<Longrightarrow> p_displayMuteConfirmCount (snd (parseDisplayData (Some b) len p)) =
     mute_confirm (b ! 3) (p_displayMuteConfirmCount p)"
  by (simp add: parseDisplayData_def Let_def case_prod_unfold)

end
