(* ===== verification/V1_Parser_Alerts.thy ===== *)
theory V1_Parser_Alerts
  imports V1_Parser_Display
begin

text \<open>
  The alert table (\<open>src/packet_parser_alerts.cpp\<close>): the detector sends one row per packet,
  \<open>index/count\<close> in its first byte, and the parser assembles a complete table from a cache
  of raw rows before it publishes it. The cache is five parallel arrays indexed by the raw
  row index \<open>0..15\<close>; the loops over it are folds over \<open>[0..<16]\<close>.
\<close>

section \<open>Cache and publication\<close>

definition combineMSBLSB :: "u8 \<Rightarrow> u8 \<Rightarrow> u16" where
  "combineMSBLSB msb lsb = push_bit 8 (ucast msb) OR ucast lsb"

definition kAlertRowFreshnessMs :: u32 where "kAlertRowFreshnessMs = 1500"
definition kAlertAssemblyTimeoutMs :: u32 where "kAlertAssemblyTimeoutMs = 1800"

definition clearAlertCache :: "parser \<Rightarrow> parser" where
  "clearAlertCache p = p\<lparr>
     p_alertChunkPresent := replicate RAW_ALERT_INDEX_SLOTS False,
     p_alertChunkCountTag := replicate RAW_ALERT_INDEX_SLOTS 0,
     p_alertChunkRxMs := replicate RAW_ALERT_INDEX_SLOTS 0,
     p_alertTableFirstSeenMs := replicate (MAX_ALERTS + 1) 0\<rparr>"

definition resetAlertAssembly :: "parser \<Rightarrow> parser" where
  "resetAlertAssembly p = clearAlertCache p"

definition markAlertStreamDiscontinuous :: "parser \<Rightarrow> parser" where
  "markAlertStreamDiscontinuous p =
     (clearAlertCache p)\<lparr>p_alertResyncRequired := True, p_alertTableObserved := False\<rparr>"

definition drop_slot :: "nat \<Rightarrow> parser \<Rightarrow> parser" where
  "drop_slot i p = p\<lparr>
     p_alertChunkPresent := (p_alertChunkPresent p)[i := False],
     p_alertChunkCountTag := (p_alertChunkCountTag p)[i := 0],
     p_alertChunkRxMs := (p_alertChunkRxMs p)[i := 0]\<rparr>"

definition row_of_count :: "parser \<Rightarrow> u8 \<Rightarrow> nat \<Rightarrow> bool" where
  "row_of_count p count i \<longleftrightarrow> p_alertChunkPresent p ! i \<and> p_alertChunkCountTag p ! i = count"

definition anyRowsForCount :: "parser \<Rightarrow> u8 \<Rightarrow> bool" where
  "anyRowsForCount p count = list_ex (row_of_count p count) [0..<RAW_ALERT_INDEX_SLOTS]"

definition set_first_seen :: "u8 \<Rightarrow> u32 \<Rightarrow> parser \<Rightarrow> parser" where
  "set_first_seen count ms p =
     p\<lparr>p_alertTableFirstSeenMs := (p_alertTableFirstSeenMs p)[unat count := ms]\<rparr>"

definition clearAlertCacheForCount :: "u8 \<Rightarrow> parser \<Rightarrow> parser" where
  "clearAlertCacheForCount count p =
     (if count = 0 \<or> unat count > MAX_ALERTS then p
      else set_first_seen count 0
        (fold (\<lambda>i q. if row_of_count q count i then drop_slot i q else q)
           [0..<RAW_ALERT_INDEX_SLOTS] p))"

definition clearPublishedAlerts :: "parser \<Rightarrow> parser" where
  "clearPublishedAlerts p = p\<lparr>
     p_alerts := replicate MAX_ALERTS default_alert,
     p_alertCount := 0,
     p_displayState := (p_displayState p)\<lparr>
       ds_priorityArrow := DIR_NONE, ds_v1PriorityIndex := 0, ds_hasJunkAlert := False,
       ds_hasPhotoAlert := False, ds_hasKuAlert := False\<rparr>\<rparr>"

definition notifyAlertTableObserver :: "u32 \<Rightarrow> parser \<Rightarrow> parser" where
  "notifyAlertTableObserver nowMs p =
     (let p = p\<lparr>p_alertTableObserved := True, p_alertTableObservedAtMs := nowMs\<rparr> in
      if p_hasObserver p then
        p\<lparr>p_observerCalls :=
            \<lparr> oc_alerts = p_alerts p, oc_count = p_alertCount p,
              oc_priorityIndex = ds_v1PriorityIndex (p_displayState p), oc_nowMs = nowMs \<rparr>
            # p_observerCalls p\<rparr>
      else p)"

definition resetAlertStateAt :: "u32 \<Rightarrow> parser \<Rightarrow> parser" where
  "resetAlertStateAt nowMs p =
     (let hadPublishedAlerts = p_alertCount p > 0;
          p = clearPublishedAlerts (clearAlertCache p)
      in if hadPublishedAlerts then notifyAlertTableObserver nowMs p else p)"

text \<open>A new detector session; \<open>now\<close> is the \<open>millis()\<close> the reset reads.\<close>

definition resetAlertState :: "u32 \<Rightarrow> parser \<Rightarrow> parser" where
  "resetAlertState now p =
     (let p = p\<lparr>p_alertLifetime := p_alertLifetime p + 1,
                p_lastRenderableAlert := default_alert,
                p_clearedAlert := (p_clearedAlert p)\<lparr>ca_alert := default_alert,
                  ca_revision := ca_revision (p_clearedAlert p) + 1\<rparr>,
                p_displayState := (p_displayState p)\<lparr>ds_activeBands := 0, ds_arrows := DIR_NONE,
                  ds_signalBars := 0, ds_flashBits := 0, ds_bandFlashBits := 0\<rparr>,
                p_alertIndexMode := IndexUnknown,
                p_alertResyncRequired := False,
                p_positiveAlertObserved := False\<rparr>;
          p = resetAlertStateAt now p
      in p\<lparr>p_alertTableObserved := False\<rparr>)"

section \<open>Session resets of the other observations\<close>

definition resetSweepSectionsObservation :: "parser \<Rightarrow> parser" where
  "resetSweepSectionsObservation p = p\<lparr>p_sweepSectionsObs := default_sweep_sections_obs\<rparr>"

definition resetSweepMaxObservation :: "parser \<Rightarrow> parser" where
  "resetSweepMaxObservation p = p\<lparr>p_sweepMaxObs := default_sweep_max_obs\<rparr>"

definition resetSweepDefinitionsObservation :: "parser \<Rightarrow> parser" where
  "resetSweepDefinitionsObservation p =
     p\<lparr>p_sweepDefinitionsObs := default_sweep_definitions_obs\<rparr>"

definition resetSweepWriteResultObservation :: "parser \<Rightarrow> parser" where
  "resetSweepWriteResultObservation p = p\<lparr>p_sweepWriteObs := default_sweep_write_obs\<rparr>"

definition resetSweepCaptureState :: "parser \<Rightarrow> parser" where
  "resetSweepCaptureState p =
     resetSweepWriteResultObservation (resetSweepDefinitionsObservation
       (resetSweepMaxObservation (resetSweepSectionsObservation p)))"

definition resetV1Version :: "parser \<Rightarrow> parser" where
  "resetV1Version = update_display (\<lambda>d. d\<lparr>
     ds_v1FirmwareVersion := 0, ds_hasV1Version := False, ds_displayActive := False,
     ds_hasDisplayActive := False, ds_logicMuted := False, ds_hasLogicMuted := False,
     ds_autoMuted := False, ds_hasAutoMuted := False, ds_doubleTapActive := False,
     ds_hasDoubleTapActive := False\<rparr>)"

definition resetVolumeState :: "parser \<Rightarrow> parser" where
  "resetVolumeState p =
     (update_display (\<lambda>d. d\<lparr>ds_mainVolume := 0, ds_muteVolume := 0, ds_savedMainVolume := 0,
        ds_savedMuteVolume := 0, ds_hasVolumeData := False, ds_hasSavedVolume := False\<rparr>) p)
     \<lparr>p_currentVolumeObs := default_current_volume_obs,
      p_allVolumeObs := default_all_volume_obs,
      p_displayVolumeObs := default_display_volume_obs\<rparr>"

definition resetModeAndDisplayState :: "parser \<Rightarrow> parser" where
  "resetModeAndDisplayState p =
     resetSweepCaptureState
       ((update_display (\<lambda>d. d\<lparr>ds_muted := False, ds_softMuted := False,
           ds_modeChar := CHR 0x00, ds_hasMode := False, ds_displayOn := True,
           ds_hasDisplayOn := False, ds_timeSliceHoldoff := True, ds_displayActive := False,
           ds_hasDisplayActive := False, ds_logicMuted := False, ds_hasLogicMuted := False,
           ds_autoMuted := False, ds_hasAutoMuted := False, ds_doubleTapActive := False,
           ds_hasDoubleTapActive := False\<rparr>) p)
        \<lparr>p_displayMuteConfirmCount := 0,
         p_displayOnObs := default_display_on_obs,
         p_modeObs := default_mode_obs,
         p_bluetoothObs := default_bluetooth_obs\<rparr>)"

section \<open>Row fields\<close>

definition decodeBand :: "u8 \<Rightarrow> band" where
  "decodeBand bandArrow =
     (let v = bandArrow AND 0x1F in
      if v = 0x01 then BAND_LASER else if v = 0x02 then BAND_KA
      else if v = 0x04 then BAND_K else if v = 0x08 then BAND_X
      else if v = 0x10 then BAND_KU else BAND_NONE)"

definition decodeDirection :: "u8 \<Rightarrow> direction" where
  "decodeDirection bandArrow =
     (let v = bandArrow AND 0xE0 in
      if v = 0x20 then DIR_FRONT else if v = 0x40 then DIR_SIDE
      else if v = 0x80 then DIR_REAR else DIR_NONE)"

text \<open>
  The RSSI scales as threshold tables, strongest first: the code's chain of comparisons
  returns the bars of the first threshold the raw value reaches.
\<close>

definition bars_from :: "(u8 \<times> u8) list \<Rightarrow> u8 \<Rightarrow> u8" where
  "bars_from table raw = (case find (\<lambda>(t, _). raw \<ge> t) table of Some (_, n) \<Rightarrow> n | None \<Rightarrow> 0)"

definition ka_scale :: "(u8 \<times> u8) list" where
  "ka_scale = [(0xBA, 8), (0xB3, 7), (0xAC, 6), (0xA5, 5), (0x9E, 4), (0x97, 3), (0x90, 2), (0x01, 1)]"

definition x_scale :: "(u8 \<times> u8) list" where
  "x_scale = [(0xD0, 8), (0xC5, 7), (0xBD, 6), (0xB4, 5), (0xAA, 4), (0xA0, 3), (0x96, 2), (0x01, 1)]"

definition k_scale :: "(u8 \<times> u8) list" where
  "k_scale = [(0xC2, 8), (0xB8, 7), (0xAE, 6), (0xA4, 5), (0x9A, 4), (0x90, 3), (0x88, 2), (0x01, 1)]"

fun mapStrengthToBars :: "band \<Rightarrow> u8 \<Rightarrow> u8" where
  "mapStrengthToBars BAND_LASER raw = 8"
| "mapStrengthToBars BAND_KA raw = bars_from ka_scale raw"
| "mapStrengthToBars BAND_X raw = bars_from x_scale raw"
| "mapStrengthToBars BAND_K raw = bars_from k_scale raw"
| "mapStrengthToBars BAND_KU raw = bars_from k_scale raw"
| "mapStrengthToBars BAND_NONE raw = 0"

text \<open>One decoded row; \<open>a\<close> is the eight-byte cached chunk.\<close>

definition decode_row :: "display_state \<Rightarrow> nat \<Rightarrow> u8 list \<Rightarrow> alert_data" where
  "decode_row d rawIndex a =
     (let bandArrow = a ! 5; aux0 = a ! 6;
          b = decodeBand bandArrow;
          junkSupported = \<not> ds_hasV1Version d \<or> ds_v1FirmwareVersion d \<ge> 41032;
          photoSupported = \<not> ds_hasV1Version d \<or> ds_v1FirmwareVersion d \<ge> 41037
      in \<lparr> ad_band = b,
           ad_direction = decodeDirection bandArrow,
           ad_v1Index = word_of_nat rawIndex,
           ad_frontRawStrength = a ! 3,
           ad_rearRawStrength = a ! 4,
           ad_frontStrength = mapStrengthToBars b (a ! 3),
           ad_rearStrength = mapStrengthToBars b (a ! 4),
           ad_frequency = (if b = BAND_LASER then 0 else ucast (combineMSBLSB (a ! 1) (a ! 2))),
           ad_isValid = True,
           ad_isPriority = aux0 AND 0x80 \<noteq> 0,
           ad_isJunk = junkSupported \<and> aux0 AND 0x40 \<noteq> 0,
           ad_photoType = (if photoSupported then aux0 AND 0x0F else 0),
           ad_rawBandBits = bandArrow AND 0x1F,
           ad_isKu = (bandArrow AND 0x1F = 0x10) \<rparr>)"

section \<open>Assembling a table\<close>

text \<open>The newest retained receipt time, at least \<open>nowMs\<close>.\<close>

definition freshness_now :: "u32 \<Rightarrow> parser \<Rightarrow> u32" where
  "freshness_now nowMs p =
     fold (\<lambda>i f. if p_alertChunkPresent p ! i \<and> later_than (p_alertChunkRxMs p ! i) f
                 then p_alertChunkRxMs p ! i else f)
       [0..<RAW_ALERT_INDEX_SLOTS] nowMs"

definition drop_stale_row :: "u32 \<Rightarrow> nat \<Rightarrow> parser \<Rightarrow> parser" where
  "drop_stale_row freshNow i p =
     (if \<not> p_alertChunkPresent p ! i then p
      else if elapsed_ms freshNow (p_alertChunkRxMs p ! i) > kAlertRowFreshnessMs then
        let staleCount = p_alertChunkCountTag p ! i;
            p = drop_slot i p
        in if staleCount > 0 \<and> unat staleCount \<le> MAX_ALERTS \<and> \<not> anyRowsForCount p staleCount
           then set_first_seen staleCount 0 p else p
      else p)"

definition drop_stale_rows :: "u32 \<Rightarrow> parser \<Rightarrow> parser" where
  "drop_stale_rows freshNow p = fold (drop_stale_row freshNow) [0..<RAW_ALERT_INDEX_SLOTS] p"

definition note_positive_row :: "u32 \<Rightarrow> parser \<Rightarrow> parser" where
  "note_positive_row nowMs p =
     (if \<not> p_positiveAlertObserved p \<or> later_than nowMs (p_lastPositiveAlertAtMs p)
      then p\<lparr>p_positiveAlertObserved := True, p_lastPositiveAlertAtMs := nowMs\<rparr> else p)"

definition row_chunk :: "u8 list \<Rightarrow> nat \<Rightarrow> u8 list" where
  "row_chunk payload len = map (\<lambda>i. if i < min 8 len then payload ! i else 0) [0..<8]"

definition store_row :: "u8 list \<Rightarrow> nat \<Rightarrow> nat \<Rightarrow> u8 \<Rightarrow> u32 \<Rightarrow> parser \<Rightarrow> parser" where
  "store_row payload len slot count nowMs p =
     (let hadRows = anyRowsForCount p count;
          p = p\<lparr>p_alertChunkPresent := (p_alertChunkPresent p)[slot := True],
                p_alertChunkCountTag := (p_alertChunkCountTag p)[slot := count],
                p_alertChunkRxMs := (p_alertChunkRxMs p)[slot := nowMs]\<rparr>;
          p = (if \<not> hadRows \<or> p_alertTableFirstSeenMs p ! unat count = 0
               then set_first_seen count nowMs p else p)
      in p\<lparr>p_alertChunks := (p_alertChunks p)[slot := row_chunk payload len]\<rparr>)"

definition row_fresh :: "parser \<Rightarrow> u32 \<Rightarrow> u8 \<Rightarrow> nat \<Rightarrow> bool" where
  "row_fresh p freshNow count i \<longleftrightarrow>
     i < RAW_ALERT_INDEX_SLOTS \<and> row_of_count p count i \<and>
     elapsed_ms freshNow (p_alertChunkRxMs p ! i) \<le> kAlertRowFreshnessMs"

definition raw_index :: "bool \<Rightarrow> nat \<Rightarrow> nat" where
  "raw_index zeroBased i = (if zeroBased then i else i + 1)"

definition countRowsForMode :: "parser \<Rightarrow> u32 \<Rightarrow> u8 \<Rightarrow> bool \<Rightarrow> nat" where
  "countRowsForMode p freshNow count zeroBased =
     length (filter (\<lambda>l. row_fresh p freshNow count (raw_index zeroBased l)) [0..<unat count])"

record table_acc =
  ta_alerts :: "alert_data list"
  ta_anyJunk :: bool
  ta_anyPhoto :: bool
  ta_anyKu :: bool
  ta_timestampMs :: u32

text \<open>The decode loop over the rows of the candidate; a row that is not fresh abandons it.\<close>

fun decode_rows :: "parser \<Rightarrow> u32 \<Rightarrow> u8 \<Rightarrow> bool \<Rightarrow> nat list \<Rightarrow> table_acc \<Rightarrow> table_acc option" where
  "decode_rows p freshNow count zeroBased [] acc = Some acc"
| "decode_rows p freshNow count zeroBased (i # is) acc =
     (let raw = raw_index zeroBased i in
      if \<not> row_fresh p freshNow count raw then None
      else
        let rx = p_alertChunkRxMs p ! raw;
            ts = (if later_than rx (ta_timestampMs acc) then rx else ta_timestampMs acc);
            acc = acc\<lparr>ta_timestampMs := ts\<rparr>;
            alert = decode_row (p_displayState p) raw (p_alertChunks p ! raw);
            acc = (if length (ta_alerts acc) < MAX_ALERTS then
                     acc\<lparr>ta_alerts := ta_alerts acc @ [alert],
                         ta_anyJunk := ta_anyJunk acc \<or> ad_isJunk alert,
                         ta_anyPhoto := ta_anyPhoto acc \<or> ad_photoType alert \<noteq> 0,
                         ta_anyKu := ta_anyKu acc \<or> ad_band alert = BAND_KU\<rparr>
                   else acc)
        in decode_rows p freshNow count zeroBased is acc)"

definition isUsable :: "alert_data \<Rightarrow> bool" where
  "isUsable a \<longleftrightarrow>
     (if \<not> ad_isValid a \<or> ad_band a = BAND_NONE then False
      else if ad_band a \<noteq> BAND_LASER \<and> ad_frequency a = 0 then False
      else True)"

definition isUsableAlert :: "alert_data list \<Rightarrow> nat \<Rightarrow> int \<Rightarrow> bool" where
  "isUsableAlert alerts alertCount idx \<longleftrightarrow>
     (if idx < 0 \<or> idx \<ge> int alertCount then False else isUsable (alerts ! nat idx))"

text \<open>
  Priority resolution: the first row flagged by the detector if it is usable, else the first
  usable row, else row 0.
\<close>

definition first_index :: "(nat \<Rightarrow> bool) \<Rightarrow> nat \<Rightarrow> int" where
  "first_index P n = (case find P [0..<n] of Some i \<Rightarrow> int i | None \<Rightarrow> -1)"

definition resolve_priority :: "alert_data list \<Rightarrow> nat \<Rightarrow> int" where
  "resolve_priority alerts alertCount =
     (let priorityIdx = first_index (\<lambda>i. ad_isPriority (alerts ! i)) alertCount;
          priorityIdx = (if \<not> isUsableAlert alerts alertCount priorityIdx
                         then first_index (\<lambda>i. isUsableAlert alerts alertCount (int i)) alertCount
                         else priorityIdx)
      in if priorityIdx < 0 then 0 else priorityIdx)"

definition publish_table :: "bool \<Rightarrow> table_acc \<Rightarrow> parser \<Rightarrow> parser" where
  "publish_table zeroBased acc p =
     (let next_alerts = ta_alerts acc;
          p = p\<lparr>p_alerts := next_alerts @ replicate (MAX_ALERTS - length next_alerts) default_alert,
                p_alertCount := length next_alerts,
                p_alertIndexMode := (if zeroBased then ZeroBased else OneBased)\<rparr>;
          p = (if p_alertCount p > 0 then
                 let idx = resolve_priority (p_alerts p) (p_alertCount p) in
                 update_display (\<lambda>d. d\<lparr>ds_v1PriorityIndex := word_of_int idx,
                   ds_priorityArrow := ad_direction (p_alerts p ! nat idx)\<rparr>) p
               else p);
          p = update_display (\<lambda>d. d\<lparr>ds_hasJunkAlert := ta_anyJunk acc,
                ds_hasPhotoAlert := ta_anyPhoto acc, ds_hasKuAlert := ta_anyKu acc\<rparr>) p;
          p = notifyAlertTableObserver (ta_timestampMs acc) p
      in clearAlertCache p)"

text \<open>A count-zero row empties the table.\<close>

definition clear_table :: "u32 \<Rightarrow> parser \<Rightarrow> parser" where
  "clear_table nowMs p =
     (let p = (if \<not> hasDisplayLaserAlert p
               then update_display (\<lambda>d. d\<lparr>ds_arrows := DIR_NONE\<rparr>) p else p);
          p = resetAlertStateAt nowMs p
      in p\<lparr>p_positiveAlertObserved := False, p_alertTableObserved := True,
           p_alertTableObservedAtMs := nowMs, p_alertResyncRequired := False\<rparr>)"

text \<open>Once a row is stored: publish a complete candidate, or give up on one that took too long.\<close>

definition try_publish :: "u8 \<Rightarrow> u32 \<Rightarrow> u32 \<Rightarrow> parser \<Rightarrow> parser" where
  "try_publish count freshNow nowMs p =
     (let completeZeroBased = (countRowsForMode p freshNow count True = unat count);
          completeOneBased = (countRowsForMode p freshNow count False = unat count)
      in if \<not> completeZeroBased \<and> \<not> completeOneBased then
           (if p_alertTableFirstSeenMs p ! unat count \<noteq> 0 \<and>
               elapsed_ms freshNow (p_alertTableFirstSeenMs p ! unat count) > kAlertAssemblyTimeoutMs
            then clearAlertCacheForCount count p else p)
         else
           (case decode_rows p freshNow count completeZeroBased
                   [0..<min (unat count) MAX_ALERTS]
                   \<lparr> ta_alerts = [], ta_anyJunk = False, ta_anyPhoto = False, ta_anyKu = False,
                     ta_timestampMs = nowMs \<rparr> of
              None \<Rightarrow> p
            | Some acc \<Rightarrow> publish_table completeZeroBased acc p))"

definition parseAlertData :: "u8 list option \<Rightarrow> nat \<Rightarrow> u32 \<Rightarrow> parser \<Rightarrow> bool \<times> parser" where
  "parseAlertData payload len nowMs p =
     (case payload of None \<Rightarrow> (False, p)
      | Some b \<Rightarrow>
        if len < 1 then (False, p)
        else
          let alertIndex = drop_bit 4 (b ! 0) AND 0x0F;
              count = b ! 0 AND 0x0F
          in
          if count = 0 then (True, clear_table nowMs p)
          else if len < 7 then (False, p)
          else if unat count > MAX_ALERTS then (False, p)
          else
            let freshNow = freshness_now nowMs p;
                p = drop_stale_rows freshNow p;
                indexValidOneBased = (alertIndex \<ge> 1 \<and> alertIndex \<le> count);
                indexValidZeroBased = (alertIndex < count)
            in
            if \<not> indexValidOneBased \<and> \<not> indexValidZeroBased then (True, p)
            else
              let p = note_positive_row nowMs p in
              if p_alertResyncRequired p \<and>
                 alertIndex \<noteq> (if p_alertIndexMode p = ZeroBased then 0 else 1) then (True, p)
              else
                let p = p\<lparr>p_alertResyncRequired := False\<rparr>;
                    slot = unat alertIndex
                in
                if row_of_count p count slot \<and> sint (nowMs - p_alertChunkRxMs p ! slot) < 0 then (True, p)
                else (True, try_publish count freshNow nowMs (store_row b len slot count nowMs p)))"

section \<open>The alert to present\<close>

definition getPriorityAlert :: "parser \<Rightarrow> alert_data" where
  "getPriorityAlert p =
     (if hasDisplayLaserAlert p then
        default_alert\<lparr>ad_band := BAND_LASER, ad_direction := ds_arrows (p_displayState p),
                      ad_isValid := True, ad_isPriority := True\<rparr>
      else if p_alertCount p = 0 then default_alert
      else
        let idx = unat (ds_v1PriorityIndex (p_displayState p)) in
        if idx < p_alertCount p then p_alerts p ! idx else p_alerts p ! 0)"

definition isRenderable :: "alert_data \<Rightarrow> bool" where
  "isRenderable a \<longleftrightarrow>
     (if \<not> ad_isValid a \<or> ad_band a = BAND_NONE then False
      else ad_band a = BAND_LASER \<or> ad_frequency a \<noteq> 0)"

text \<open>The code's boolean and out parameter: \<open>None\<close> is \<open>false\<close> (the out value is then the default alert).\<close>

definition getRenderablePriorityAlert :: "parser \<Rightarrow> alert_data option" where
  "getRenderablePriorityAlert p =
     (let priority = getPriorityAlert p in
      if isRenderable priority then Some priority
      else find isRenderable (take (p_alertCount p) (p_alerts p)))"

definition retainAlertPresentation :: "bool \<Rightarrow> u32 \<Rightarrow> parser \<Rightarrow> parser" where
  "retainAlertPresentation hadAlerts nowMs p =
     (if hasAlerts p then
        let p = (if \<not> hadAlerts then p\<lparr>p_lastRenderableAlert := default_alert\<rparr> else p) in
        (case getRenderablePriorityAlert p of
           Some priority \<Rightarrow> p\<lparr>p_lastRenderableAlert := priority\<rparr>
         | None \<Rightarrow> p)
      else if hadAlerts then
        p\<lparr>p_clearedAlert := \<lparr> ca_alert = p_lastRenderableAlert p, ca_clearedAtMs = nowMs,
                                ca_revision = ca_revision (p_clearedAlert p) + 1 \<rparr>,
          p_lastRenderableAlert := default_alert\<rparr>
      else p)"

text \<open>
  The verified resting display of All-Bogeys mode may retire an old table after the phone
  stopped the stream.
\<close>

definition resting_all_bogeys :: "u8 list \<Rightarrow> bool" where
  "resting_all_bogeys b \<longleftrightarrow>
     b ! 0 = 0x77 \<and> b ! 1 = 0x77 \<and> b ! 2 = 0 \<and> b ! 3 = 0 \<and> b ! 4 = 0 \<and>
     b ! 5 AND 0x9D = 0x0C \<and> b ! 6 AND 0x1E = 0x04"

definition retireStoppedAllBogeysAlerts :: "u8 list \<Rightarrow> u32 \<Rightarrow> parser \<Rightarrow> parser" where
  "retireStoppedAllBogeysAlerts b nowMs p =
     (if p_alertCount p = 0 \<or> \<not> ds_hasV1Version (p_displayState p) \<or>
         \<not> cap_logicMuted (capabilities (ds_v1FirmwareVersion (p_displayState p))) \<or>
         \<not> resting_all_bogeys b then p
      else if sint (nowMs - p_alertTableObservedAtMs p) \<le> sint kAlertRowFreshnessMs \<or>
         (p_positiveAlertObserved p \<and>
          sint (nowMs - p_lastPositiveAlertAtMs p) \<le> sint kAlertRowFreshnessMs) then p
      else notifyAlertTableObserver nowMs (clearPublishedAlerts p))"

end
