(* ===== verification/V1_Alert_Table.thy ===== *)
theory V1_Alert_Table
  imports V1_Parser_Alerts
begin

text \<open>
  What the alert assembly computes. The five parallel arrays of the row cache are related
  to one partial map from raw row indexes to rows, on which every cache operation has a one
  line meaning; completeness, publication and the invariants are then proved over the map.
\<close>

section \<open>Well-formed caches\<close>

definition cache_wf :: "parser \<Rightarrow> bool" where
  "cache_wf p \<longleftrightarrow>
     length (p_alertChunks p) = 16 \<and> length (p_alertChunkPresent p) = 16 \<and>
     length (p_alertChunkCountTag p) = 16 \<and> length (p_alertChunkRxMs p) = 16 \<and>
     length (p_alertTableFirstSeenMs p) = 16"

lemmas slots_def = RAW_ALERT_INDEX_SLOTS_def MAX_ALERTS_def

lemma fold_preserves: "(\<And>x s. P s \<Longrightarrow> P (f x s)) \<Longrightarrow> P s \<Longrightarrow> P (fold f xs s)"
  by (induction xs arbitrary: s) auto

lemma wf_drop_slot [simp]: "cache_wf (drop_slot i p) = cache_wf p"
  by (simp add: cache_wf_def drop_slot_def)

lemma wf_set_first_seen [simp]: "cache_wf (set_first_seen c ms p) = cache_wf p"
  by (simp add: cache_wf_def set_first_seen_def)

lemma wf_clearAlertCache: "cache_wf p \<Longrightarrow> cache_wf (clearAlertCache p)"
  by (simp add: cache_wf_def clearAlertCache_def slots_def)

lemma wf_store_row: "cache_wf p \<Longrightarrow> cache_wf (store_row b n i c t p)"
  by (simp add: cache_wf_def store_row_def set_first_seen_def Let_def)

lemma wf_drop_stale_row: "cache_wf p \<Longrightarrow> cache_wf (drop_stale_row f i p)"
  by (simp add: drop_stale_row_def Let_def)

lemmas wf_fold = fold_preserves [where P = cache_wf]

lemma wf_drop_stale_rows: "cache_wf p \<Longrightarrow> cache_wf (drop_stale_rows f p)"
  unfolding drop_stale_rows_def by (rule wf_fold) (rule wf_drop_stale_row)

lemma wf_clear_count: "cache_wf p \<Longrightarrow> cache_wf (clearAlertCacheForCount c p)"
proof -
  assume "cache_wf p"
  then have "cache_wf (fold (\<lambda>i q. if row_of_count q c i then drop_slot i q else q)
      [0..<RAW_ALERT_INDEX_SLOTS] p)"
    by (rule wf_fold [rotated]) simp
  with \<open>cache_wf p\<close> show ?thesis by (simp add: clearAlertCacheForCount_def)
qed

section \<open>The cache as a partial map\<close>

record cached_row =
  cr_count :: u8
  cr_rxMs :: u32
  cr_chunk :: "u8 list"

definition cache :: "parser \<Rightarrow> nat \<Rightarrow> cached_row option" where
  "cache p i =
     (if i < RAW_ALERT_INDEX_SLOTS \<and> p_alertChunkPresent p ! i
      then Some \<lparr> cr_count = p_alertChunkCountTag p ! i, cr_rxMs = p_alertChunkRxMs p ! i,
                  cr_chunk = p_alertChunks p ! i \<rparr>
      else None)"

lemma cache_out: "16 \<le> i \<Longrightarrow> cache p i = None"
  by (simp add: cache_def slots_def)

lemma cache_clear [simp]: "cache (clearAlertCache p) = Map.empty"
  by (auto simp: cache_def clearAlertCache_def slots_def)

lemma cache_set_first_seen [simp]: "cache (set_first_seen c ms p) = cache p"
  by (auto simp: cache_def set_first_seen_def fun_eq_iff)

lemma cache_drop_slot: "cache_wf p \<Longrightarrow> cache (drop_slot i p) = (cache p)(i := None)"
  by (auto simp: cache_def drop_slot_def cache_wf_def slots_def fun_eq_iff)

lemma cache_store_row:
  "cache_wf p \<Longrightarrow> i < 16 \<Longrightarrow>
   cache (store_row b n i c t p) =
     (cache p)(i \<mapsto> \<lparr> cr_count = c, cr_rxMs = t, cr_chunk = row_chunk b n \<rparr>)"
  by (auto simp: cache_def store_row_def set_first_seen_def cache_wf_def slots_def Let_def
      fun_eq_iff nth_list_update)

lemma row_of_count_cache:
  "i < 16 \<Longrightarrow> row_of_count p c i \<longleftrightarrow> (\<exists>r. cache p i = Some r \<and> cr_count r = c)"
  by (auto simp: row_of_count_def cache_def slots_def)

definition stale :: "u32 \<Rightarrow> cached_row \<Rightarrow> bool" where
  "stale f r \<longleftrightarrow> elapsed_ms f (cr_rxMs r) > kAlertRowFreshnessMs"

lemma cache_drop_stale_row:
  "cache_wf p \<Longrightarrow> i < 16 \<Longrightarrow>
   cache (drop_stale_row f i p) =
     (cache p)(i := (case cache p i of Some r \<Rightarrow> if stale f r then None else Some r | None \<Rightarrow> None))"
  by (auto simp: drop_stale_row_def Let_def cache_drop_slot stale_def)
     (auto simp: cache_def slots_def fun_eq_iff stale_def)

lemma cache_drop_stale_fold:
  assumes "cache_wf p" "n \<le> 16"
  shows "cache (fold (drop_stale_row f) [0..<n] p) i =
     (if i < n then (case cache p i of Some r \<Rightarrow> if stale f r then None else Some r | None \<Rightarrow> None)
      else cache p i)"
  using assms
proof (induction n arbitrary: i)
  case 0
  then show ?case by simp
next
  case (Suc n)
  let ?q = "fold (drop_stale_row f) [0..<n] p"
  have "cache_wf ?q" using Suc.prems by (intro wf_fold wf_drop_stale_row) auto
  then have "cache (drop_stale_row f n ?q) i = ((cache ?q)(n := (case cache ?q n of
      Some r \<Rightarrow> if stale f r then None else Some r | None \<Rightarrow> None))) i"
    using Suc.prems by (simp add: cache_drop_stale_row)
  with Suc show ?case by (auto simp: less_Suc_eq)
qed

text \<open>Dropping stale rows restricts the map to the fresh ones.\<close>

lemma cache_drop_stale_rows:
  assumes "cache_wf p"
  shows "cache (drop_stale_rows f p) i =
     (case cache p i of Some r \<Rightarrow> if stale f r then None else Some r | None \<Rightarrow> None)"
  using assms cache_drop_stale_fold [of p 16 f i] cache_out [of i p]
  by (auto simp: drop_stale_rows_def slots_def simp del: upt_rec_numeral)

lemma cache_clear_count_fold:
  assumes "cache_wf p" "n \<le> 16"
  shows "cache (fold (\<lambda>i q. if row_of_count q c i then drop_slot i q else q) [0..<n] p) i =
     (if i < n \<and> (\<exists>r. cache p i = Some r \<and> cr_count r = c) then None else cache p i)"
  using assms
proof (induction n arbitrary: i)
  case 0
  then show ?case by simp
next
  case (Suc n)
  let ?q = "fold (\<lambda>i q. if row_of_count q c i then drop_slot i q else q) [0..<n] p"
  have "cache_wf ?q" using Suc.prems by (intro wf_fold) auto
  with Suc show ?case by (auto simp: less_Suc_eq cache_drop_slot row_of_count_cache)
qed

lemma cache_clear_count:
  assumes "cache_wf p" "c \<noteq> 0" "unat c \<le> 15"
  shows "cache (clearAlertCacheForCount c p) i =
     (if \<exists>r. cache p i = Some r \<and> cr_count r = c then None else cache p i)"
  using assms cache_clear_count_fold [of p 16 c i] cache_out [of i p]
  by (auto simp: clearAlertCacheForCount_def slots_def simp del: upt_rec_numeral)

text \<open>
  The cache operations touch nothing else of the parser.
\<close>

definition erase_cache :: "parser \<Rightarrow> parser" where
  "erase_cache p = p\<lparr>p_alertChunks := [], p_alertChunkPresent := [], p_alertChunkCountTag := [],
     p_alertChunkRxMs := [], p_alertTableFirstSeenMs := []\<rparr>"

definition same_but_cache :: "parser \<Rightarrow> parser \<Rightarrow> bool" where
  "same_but_cache p q \<longleftrightarrow> erase_cache q = erase_cache p"

lemma same_but_cache_refl [simp]: "same_but_cache p p"
  by (simp add: same_but_cache_def)

lemma same_but_cache_trans: "same_but_cache p q \<Longrightarrow> same_but_cache q r \<Longrightarrow> same_but_cache p r"
  by (simp add: same_but_cache_def)

lemma erase_cache_sel:
  "p_displayState (erase_cache p) = p_displayState p" "p_alerts (erase_cache p) = p_alerts p"
  "p_alertCount (erase_cache p) = p_alertCount p"
  "p_alertIndexMode (erase_cache p) = p_alertIndexMode p"
  "p_observerCalls (erase_cache p) = p_observerCalls p"
  "p_hasObserver (erase_cache p) = p_hasObserver p"
  "p_alertResyncRequired (erase_cache p) = p_alertResyncRequired p"
  "p_displayMuteConfirmCount (erase_cache p) = p_displayMuteConfirmCount p"
  "p_alertTableObserved (erase_cache p) = p_alertTableObserved p"
  "p_alertTableObservedAtMs (erase_cache p) = p_alertTableObservedAtMs p"
  by (simp_all add: erase_cache_def)

lemma same_but_cacheD:
  assumes "same_but_cache p q"
  shows "p_displayState q = p_displayState p" "p_alerts q = p_alerts p"
    "p_alertCount q = p_alertCount p" "p_alertIndexMode q = p_alertIndexMode p"
    "p_observerCalls q = p_observerCalls p" "p_hasObserver q = p_hasObserver p"
    "p_alertResyncRequired q = p_alertResyncRequired p"
    "p_displayMuteConfirmCount q = p_displayMuteConfirmCount p"
    "p_alertTableObserved q = p_alertTableObserved p"
    "p_alertTableObservedAtMs q = p_alertTableObservedAtMs p"
  using assms by (metis same_but_cache_def erase_cache_sel)+

lemma same_clearAlertCache [simp]: "same_but_cache p (clearAlertCache p)"
  by (simp add: same_but_cache_def erase_cache_def clearAlertCache_def)

lemma same_set_first_seen [simp]: "same_but_cache p (set_first_seen c t q) = same_but_cache p q"
  by (simp add: same_but_cache_def erase_cache_def set_first_seen_def)

lemma same_drop_slot [simp]: "same_but_cache p (drop_slot i q) = same_but_cache p q"
  by (simp add: same_but_cache_def erase_cache_def drop_slot_def)

lemma same_store_row [simp]: "same_but_cache p (store_row b n i c t p)"
  by (simp add: same_but_cache_def erase_cache_def store_row_def set_first_seen_def Let_def)

lemma same_fold: "(\<And>x q. same_but_cache q (f x q)) \<Longrightarrow> same_but_cache p (fold f xs p)"
proof (induction xs arbitrary: p)
  case (Cons x xs)
  then show ?case by (auto intro: same_but_cache_trans [of p "f x p"])
qed simp

lemma same_drop_stale_row: "same_but_cache p (drop_stale_row f i p)"
  by (simp add: drop_stale_row_def Let_def)

lemma same_drop_stale_rows [simp]: "same_but_cache p (drop_stale_rows f p)"
  unfolding drop_stale_rows_def by (rule same_fold) (rule same_drop_stale_row)

lemma drop_stale_rows_sel [simp]:
  "p_displayState (drop_stale_rows f p) = p_displayState p"
  "p_alerts (drop_stale_rows f p) = p_alerts p"
  "p_alertCount (drop_stale_rows f p) = p_alertCount p"
  "p_alertIndexMode (drop_stale_rows f p) = p_alertIndexMode p"
  "p_observerCalls (drop_stale_rows f p) = p_observerCalls p"
  "p_hasObserver (drop_stale_rows f p) = p_hasObserver p"
  "p_alertResyncRequired (drop_stale_rows f p) = p_alertResyncRequired p"
  by (rule same_but_cacheD [OF same_drop_stale_rows])+

lemma same_clear_count [simp]: "same_but_cache p (clearAlertCacheForCount c p)"
proof -
  have "same_but_cache p (fold (\<lambda>i q. if row_of_count q c i then drop_slot i q else q)
      [0..<RAW_ALERT_INDEX_SLOTS] p)"
    by (rule same_fold) simp
  then show ?thesis by (simp add: clearAlertCacheForCount_def)
qed

section \<open>Completeness and decoding\<close>

lemma row_fresh_cache:
  "row_fresh p f c i \<longleftrightarrow> (\<exists>r. cache p i = Some r \<and> cr_count r = c \<and> \<not> stale f r)"
  by (auto simp: row_fresh_def row_of_count_def cache_def stale_def not_less)

definition complete_rows :: "(nat \<Rightarrow> cached_row option) \<Rightarrow> u32 \<Rightarrow> u8 \<Rightarrow> bool \<Rightarrow> bool" where
  "complete_rows m f c zb \<longleftrightarrow>
     (\<forall>l < unat c. \<exists>r. m (raw_index zb l) = Some r \<and> cr_count r = c \<and> \<not> stale f r)"

lemma length_filter_full: "length (filter P [0..<n]) = n \<longleftrightarrow> (\<forall>i<n. P i)"
proof
  assume "length (filter P [0..<n]) = n"
  then have "filter P [0..<n] = [0..<n]"
    by (metis length_upt diff_zero filter_id_conv length_filter_less less_irrefl)
  then show "\<forall>i<n. P i" by (simp add: filter_id_conv)
qed (simp add: filter_True)

lemma countRows_complete:
  "countRowsForMode p f c zb = unat c \<longleftrightarrow> complete_rows (cache p) f c zb"
  by (simp add: countRowsForMode_def length_filter_full complete_rows_def row_fresh_cache)

definition row_alert :: "parser \<Rightarrow> bool \<Rightarrow> nat \<Rightarrow> alert_data" where
  "row_alert p zb i =
     decode_row (p_displayState p) (raw_index zb i) (p_alertChunks p ! raw_index zb i)"

lemma decode_rows_complete:
  assumes "\<forall>i\<in>set is. row_fresh p f c (raw_index zb i)"
    and "length (ta_alerts acc) + length is \<le> MAX_ALERTS"
  shows "\<exists>acc'. decode_rows p f c zb is acc = Some acc' \<and>
     ta_alerts acc' = ta_alerts acc @ map (row_alert p zb) is \<and>
     ta_anyJunk acc' = (ta_anyJunk acc \<or> list_ex (\<lambda>i. ad_isJunk (row_alert p zb i)) is) \<and>
     ta_anyPhoto acc' = (ta_anyPhoto acc \<or> list_ex (\<lambda>i. ad_photoType (row_alert p zb i) \<noteq> 0) is) \<and>
     ta_anyKu acc' = (ta_anyKu acc \<or> list_ex (\<lambda>i. ad_band (row_alert p zb i) = BAND_KU) is)"
  using assms
proof (induction "is" arbitrary: acc)
  case Nil
  then show ?case by simp
next
  case (Cons i "is")
  let ?rx = "p_alertChunkRxMs p ! raw_index zb i"
  let ?acc = "acc\<lparr>ta_timestampMs := if later_than ?rx (ta_timestampMs acc) then ?rx
                     else ta_timestampMs acc,
                  ta_alerts := ta_alerts acc @ [row_alert p zb i],
                  ta_anyJunk := ta_anyJunk acc \<or> ad_isJunk (row_alert p zb i),
                  ta_anyPhoto := ta_anyPhoto acc \<or> ad_photoType (row_alert p zb i) \<noteq> 0,
                  ta_anyKu := ta_anyKu acc \<or> ad_band (row_alert p zb i) = BAND_KU\<rparr>"
  have "decode_rows p f c zb (i # is) acc = decode_rows p f c zb is ?acc"
    using Cons.prems by (simp add: Let_def row_alert_def)
  with Cons.IH [of ?acc] Cons.prems show ?case by auto
qed

section \<open>Publishing\<close>

text \<open>\<open>first_index\<close> is the least index that satisfies the predicate, or -1.\<close>

lemma first_index_cases:
  obtains (none) "first_index P n = -1" "\<forall>i<n. \<not> P i"
    | (found) i where "first_index P n = int i" "i < n" "P i" "\<forall>j<i. \<not> P j"
proof (cases "find P [0..<n]")
  case None
  then have "\<forall>i<n. \<not> P i" by (simp add: find_None_iff)
  with None none show ?thesis by (simp add: first_index_def)
next
  case (Some i)
  then have "first_index P n = int i" by (simp add: first_index_def)
  moreover have "i < n \<and> P i \<and> (\<forall>j<i. \<not> P j)" using Some by (auto simp: find_Some_iff)
  ultimately show ?thesis using found by blast
qed

lemma resolve_priority_bound:
  assumes "0 < n"
  shows "0 \<le> resolve_priority xs n \<and> resolve_priority xs n < int n"
proof (cases rule: first_index_cases [of "\<lambda>i. ad_isPriority (xs ! i)" n])
  case none
  then show ?thesis
    by (cases rule: first_index_cases [of "\<lambda>i. isUsableAlert xs n (int i)" n])
      (use assms in \<open>auto simp: resolve_priority_def Let_def isUsableAlert_def\<close>)
next
  case (found i)
  then show ?thesis
    by (cases rule: first_index_cases [of "\<lambda>i. isUsableAlert xs n (int i)" n])
      (use assms in \<open>auto simp: resolve_priority_def Let_def\<close>)
qed

text \<open>The resolved row is usable whenever some row of the table is.\<close>

lemma resolve_priority_usable:
  assumes "i < n" "isUsable (xs ! i)"
  shows "isUsable (xs ! nat (resolve_priority xs n))"
proof -
  let ?flag = "first_index (\<lambda>i. ad_isPriority (xs ! i)) n"
  let ?use = "first_index (\<lambda>i. isUsableAlert xs n (int i)) n"
  show ?thesis
  proof (cases rule: first_index_cases [of "\<lambda>i. isUsableAlert xs n (int i)" n])
    case none
    with assms show ?thesis by (auto simp: isUsableAlert_def)
  next
    case (found k)
    then have usable: "isUsable (xs ! k)" by (auto simp: isUsableAlert_def split: if_splits)
    show ?thesis
    proof (cases "isUsableAlert xs n ?flag")
      case True
      then have "resolve_priority xs n = ?flag" "isUsable (xs ! nat ?flag)"
        by (auto simp: resolve_priority_def Let_def isUsableAlert_def split: if_splits)
      then show ?thesis by simp
    next
      case False
      then have "resolve_priority xs n = int k"
        using found(1) by (simp add: resolve_priority_def Let_def)
      with usable show ?thesis by simp
    qed
  qed
qed

lemma publish_table_alerts:
  "p_alerts (publish_table zb acc p) =
     ta_alerts acc @ replicate (MAX_ALERTS - length (ta_alerts acc)) default_alert"
  "p_alertCount (publish_table zb acc p) = length (ta_alerts acc)"
  "p_alertIndexMode (publish_table zb acc p) = (if zb then ZeroBased else OneBased)"
  "cache (publish_table zb acc p) = Map.empty"
  by (simp_all add: publish_table_def Let_def notifyAlertTableObserver_def)
     (simp_all add: clearAlertCache_def)

section \<open>One received row\<close>

definition fresh_rows :: "u32 \<Rightarrow> parser \<Rightarrow> nat \<Rightarrow> cached_row option" where
  "fresh_rows f p i =
     (case cache p i of Some r \<Rightarrow> if stale f r then None else Some r | None \<Rightarrow> None)"

lemma cache_fresh_rows: "cache_wf p \<Longrightarrow> cache (drop_stale_rows f p) = fresh_rows f p"
  by (simp add: fresh_rows_def cache_drop_stale_rows fun_eq_iff)

text \<open>The conditions under which a row with a non-zero count enters the cache.\<close>

definition row_admitted :: "parser \<Rightarrow> u8 \<Rightarrow> u8 \<Rightarrow> u32 \<Rightarrow> bool" where
  "row_admitted p idx count t \<longleftrightarrow>
     (1 \<le> idx \<and> idx \<le> count \<or> idx < count) \<and>
     (p_alertResyncRequired p \<longrightarrow> idx = (if p_alertIndexMode p = ZeroBased then 0 else 1)) \<and>
     (\<forall>r. fresh_rows (freshness_now t p) p (unat idx) = Some r \<longrightarrow> cr_count r = count \<longrightarrow>
        \<not> sint (t - cr_rxMs r) < 0)"

lemma unat_count_le: "unat (x AND 0x0F :: u8) \<le> MAX_ALERTS"
  using unat_and_nibble [of x] by (simp add: slots_def)

lemma note_positive_row_sel [simp]:
  "p_displayState (note_positive_row t p) = p_displayState p"
  "p_alerts (note_positive_row t p) = p_alerts p"
  "p_alertCount (note_positive_row t p) = p_alertCount p"
  "p_observerCalls (note_positive_row t p) = p_observerCalls p"
  "p_hasObserver (note_positive_row t p) = p_hasObserver p"
  "p_alertResyncRequired (note_positive_row t p) = p_alertResyncRequired p"
  "p_alertIndexMode (note_positive_row t p) = p_alertIndexMode p"
  "p_alertTableFirstSeenMs (note_positive_row t p) = p_alertTableFirstSeenMs p"
  "p_alertChunkRxMs (note_positive_row t p) = p_alertChunkRxMs p"
  "p_alertChunks (note_positive_row t p) = p_alertChunks p"
  "cache (note_positive_row t p) = cache p"
  "cache_wf (note_positive_row t p) = cache_wf p"
  by (simp_all add: note_positive_row_def cache_def cache_wf_def fun_eq_iff)

lemma resync_update_sel [simp]:
  "cache (p\<lparr>p_alertResyncRequired := x\<rparr>) = cache p"
  "cache_wf (p\<lparr>p_alertResyncRequired := x\<rparr>) = cache_wf p"
  by (simp_all add: cache_def cache_wf_def fun_eq_iff)

text \<open>The parser just before the row is stored, and the parse as one decision.\<close>

definition prepared :: "u32 \<Rightarrow> parser \<Rightarrow> parser" where
  "prepared t p =
     (note_positive_row t (drop_stale_rows (freshness_now t p) p))\<lparr>p_alertResyncRequired := False\<rparr>"

lemma prepared_sel:
  assumes "cache_wf p"
  shows "cache (prepared t p) = fresh_rows (freshness_now t p) p" "cache_wf (prepared t p)"
    and "p_displayState (prepared t p) = p_displayState p" "p_alerts (prepared t p) = p_alerts p"
    and "p_alertCount (prepared t p) = p_alertCount p"
    and "p_observerCalls (prepared t p) = p_observerCalls p"
    and "p_hasObserver (prepared t p) = p_hasObserver p"
  using assms
  by (simp_all add: prepared_def cache_fresh_rows wf_drop_stale_rows)

lemma nibble_index: "unat (drop_bit 4 (x :: u8) AND 0x0F) < 16"
  by (rule unat_and_nibble)

lemma delayed_row:
  "i < 16 \<Longrightarrow> row_of_count q c i \<and> Q (p_alertChunkRxMs q ! i) \<longleftrightarrow>
     (\<exists>r. cache q i = Some r \<and> cr_count r = c \<and> Q (cr_rxMs r))"
  by (auto simp: cache_def row_of_count_def slots_def)

lemma parseAlertData_row:
  assumes "cache_wf p" "7 \<le> len" and idx: "idx = drop_bit 4 (b ! 0) AND 0x0F"
    and count: "count = b ! 0 AND 0x0F" "count \<noteq> 0"
  shows "row_admitted p idx count t \<Longrightarrow>
      parseAlertData (Some b) len t p =
        (True, try_publish count (freshness_now t p) t
           (store_row b len (unat idx) count t (prepared t p)))" (is "_ \<Longrightarrow> ?A")
    and "\<not> row_admitted p idx count t \<Longrightarrow>
      \<exists>q. parseAlertData (Some b) len t p = (True, q) \<and> p_alerts q = p_alerts p \<and>
        p_alertCount q = p_alertCount p \<and> p_observerCalls q = p_observerCalls p \<and>
        p_displayState q = p_displayState p \<and> cache q = fresh_rows (freshness_now t p) p"
      (is "_ \<Longrightarrow> ?B")
proof -
  let ?f = "freshness_now t p"
  let ?d = "drop_stale_rows ?f p"
  let ?n = "note_positive_row t ?d"
  have slot: "unat idx < 16" using idx nibble_index by simp
  have cd: "cache ?d = fresh_rows ?f p" using assms(1) by (simp add: cache_fresh_rows)
  have delayed: "row_of_count q count (unat idx) \<and> sint (t - p_alertChunkRxMs q ! unat idx) < 0
      \<longleftrightarrow> (\<exists>r. fresh_rows ?f p (unat idx) = Some r \<and> cr_count r = count \<and> sint (t - cr_rxMs r) < 0)"
    if "cache q = fresh_rows ?f p" for q
    using delayed_row [OF slot, of q count "\<lambda>x. sint (t - x) < 0"] by (simp only: that)
  define V where "V \<longleftrightarrow> 1 \<le> idx \<and> idx \<le> count \<or> idx < count"
  define R where "R \<longleftrightarrow> p_alertResyncRequired p \<and> idx \<noteq> (if p_alertIndexMode p = ZeroBased then 0 else 1)"
  define D where "D \<longleftrightarrow> (\<exists>r. fresh_rows ?f p (unat idx) = Some r \<and> cr_count r = count \<and> sint (t - cr_rxMs r) < 0)"
  have bound: "\<not> unat count > MAX_ALERTS" using count(1) unat_count_le by (simp add: not_less)
  have d1: "cache (?n\<lparr>p_alertResyncRequired := False\<rparr>) = fresh_rows ?f p" using cd by simp
  have del: "row_of_count (?n\<lparr>p_alertResyncRequired := False\<rparr>) count (unat idx) \<and>
      sint (t - p_alertChunkRxMs (?n\<lparr>p_alertResyncRequired := False\<rparr>) ! unat idx) < 0 \<longleftrightarrow> D"
    using delayed [OF d1] by (simp only: D_def)
  have V: "(\<not> (idx \<ge> 1 \<and> idx \<le> count) \<and> \<not> idx < count) = (\<not> V)" by (auto simp: V_def)
  have R: "(p_alertResyncRequired ?n \<and> idx \<noteq> (if p_alertIndexMode ?n = ZeroBased then 0 else 1)) = R"
    by (simp add: R_def)
  have parse: "parseAlertData (Some b) len t p =
      (if \<not> V then (True, ?d) else if R then (True, ?n)
       else if D then (True, ?n\<lparr>p_alertResyncRequired := False\<rparr>)
       else (True, try_publish count ?f t (store_row b len (unat idx) count t (prepared t p))))"
    using assms(2) count(2) bound
    by (simp only: parseAlertData_def Let_def option.case flip: idx count(1))
       (simp only: V R del prepared_def, simp)
  have adm: "row_admitted p idx count t \<longleftrightarrow> V \<and> \<not> R \<and> \<not> D"
    unfolding row_admitted_def V_def R_def D_def by blast
  show "row_admitted p idx count t \<Longrightarrow> ?A"
    by (simp add: parse adm)
  show "\<not> row_admitted p idx count t \<Longrightarrow> ?B"
    using cd by (auto simp: parse adm)
qed

text \<open>
  The table a cache describes under an index scheme, and the exact effect of one row on the
  published table: it is replaced precisely when the row is admitted and completes a scheme
  (zero-based first), and then by the decoded fresh rows of the cache.
\<close>

definition spec_table :: "display_state \<Rightarrow> (nat \<Rightarrow> cached_row option) \<Rightarrow> u8 \<Rightarrow> bool \<Rightarrow> alert_data list" where
  "spec_table d m c zb =
     map (\<lambda>i. decode_row d (raw_index zb i) (cr_chunk (the (m (raw_index zb i))))) [0..<unat c]"

lemma row_alert_cache:
  "cache p (raw_index zb i) = Some r \<Longrightarrow>
   row_alert p zb i = decode_row (p_displayState p) (raw_index zb i) (cr_chunk r)"
  by (auto simp: row_alert_def cache_def split: if_splits)

definition table_ready :: "(nat \<Rightarrow> cached_row option) \<Rightarrow> u32 \<Rightarrow> u8 \<Rightarrow> bool" where
  "table_ready m f c \<longleftrightarrow> complete_rows m f c True \<or> complete_rows m f c False"

lemma try_publish_ready:
  assumes "table_ready (cache q) f c" "unat c \<le> MAX_ALERTS"
  defines "zb \<equiv> complete_rows (cache q) f c True"
  obtains acc where "try_publish c f t q = publish_table zb acc q"
    "ta_alerts acc = spec_table (p_displayState q) (cache q) c zb"
proof -
  let ?acc = "\<lparr> ta_alerts = [], ta_anyJunk = False, ta_anyPhoto = False, ta_anyKu = False,
    ta_timestampMs = t \<rparr>"
  have rows: "complete_rows (cache q) f c zb" using assms(1) unfolding zb_def table_ready_def
    by (cases "complete_rows (cache q) f c True") simp_all
  then have "\<forall>i\<in>set [0..<min (unat c) MAX_ALERTS]. row_fresh q f c (raw_index zb i)"
    by (auto simp: complete_rows_def row_fresh_cache)
  from decode_rows_complete [OF this, of ?acc] assms(2) obtain acc where
    acc: "decode_rows q f c zb [0..<min (unat c) MAX_ALERTS] ?acc = Some acc"
    "ta_alerts acc = map (row_alert q zb) [0..<min (unat c) MAX_ALERTS]" by auto
  have "map (row_alert q zb) [0..<unat c] = spec_table (p_displayState q) (cache q) c zb"
    using rows by (fastforce simp: spec_table_def complete_rows_def row_alert_cache)
  with acc(2) assms(2) have "ta_alerts acc = spec_table (p_displayState q) (cache q) c zb"
    by (simp add: min_absorb1)
  moreover have "try_publish c f t q = publish_table zb acc q"
    using acc(1) assms(1)
    by (cases "complete_rows (cache q) f c True")
       (simp_all add: try_publish_def countRows_complete table_ready_def zb_def Let_def)
  ultimately show ?thesis using that by blast
qed

lemma try_publish_hold:
  "\<not> table_ready (cache q) f c \<Longrightarrow> same_but_cache q (try_publish c f t q)"
  by (simp add: try_publish_def countRows_complete table_ready_def Let_def)

lemma length_spec_table [simp]: "length (spec_table d m c zb) = unat c"
  by (simp add: spec_table_def)

lemma store_row_sel [simp]:
  "p_displayState (store_row b n i c t p) = p_displayState p"
  "p_alerts (store_row b n i c t p) = p_alerts p"
  "p_alertCount (store_row b n i c t p) = p_alertCount p"
  "p_observerCalls (store_row b n i c t p) = p_observerCalls p"
  by (rule same_but_cacheD [OF same_store_row])+


end
