(* ===== verification/V1_Packet_Framing.thy ===== *)
theory V1_Packet_Framing
  imports V1_Prelude
begin

text \<open>
  The canonical shape of a Valentine One response (\<open>src/v1_packet_framing.h\<close>): an ESP
  frame \<open>AA dest origin id len data [checksum] AB\<close> whose originator is the V1 with
  (\<open>EA\<close>) or without (\<open>E9\<close>) checksum. A C pointer with its size is a
  \<open>u8 list option\<close>, \<open>None\<close> for the null pointer.
\<close>

definition kOriginatorBase :: u8 where "kOriginatorBase = 0xE0"
definition kOriginatorMask :: u8 where "kOriginatorMask = 0xF0"
definition kDeviceIdMask :: u8 where "kDeviceIdMask = 0x0F"
definition kV1WithoutChecksum :: u8 where "kV1WithoutChecksum = 0x09"
definition kV1WithChecksum :: u8 where "kV1WithChecksum = 0x0A"

lemmas framing_consts = kOriginatorBase_def kOriginatorMask_def kDeviceIdMask_def
  kV1WithoutChecksum_def kV1WithChecksum_def

definition hasCanonicalResponseWidth :: "u8 list option \<Rightarrow> nat \<Rightarrow> bool" where
  "hasCanonicalResponseWidth packet dataBytes =
     (case packet of None \<Rightarrow> False
      | Some p \<Rightarrow>
          if length p < 6 \<or> p ! 2 AND kOriginatorMask \<noteq> kOriginatorBase then False
          else
            let originator = p ! 2 AND kDeviceIdMask in
            if originator \<noteq> kV1WithChecksum \<and> originator \<noteq> kV1WithoutChecksum then False
            else
              let checksumBytes = (if originator = kV1WithChecksum then 1 else 0);
                  expectedPayload = dataBytes + checksumBytes
              in unat (p ! 4) = expectedPayload \<and> length p = expectedPayload + 6)"

text \<open>The checksum loop adds every byte but the last two, modulo 256.\<close>

definition checksum8 :: "u8 list \<Rightarrow> u8" where
  "checksum8 bs = foldl (\<lambda>c b. c + b) 0 bs"

definition hasCanonicalResponseEvidence :: "u8 list option \<Rightarrow> nat \<Rightarrow> bool" where
  "hasCanonicalResponseEvidence packet dataBytes =
     (if \<not> hasCanonicalResponseWidth packet dataBytes then False
      else case packet of None \<Rightarrow> False
      | Some p \<Rightarrow>
          if p ! 2 AND kDeviceIdMask = kV1WithoutChecksum then True
          else p ! (length p - 2) = checksum8 (take (length p - 2) p))"

definition hasCanonicalResponseEvidenceForDestination ::
    "u8 list option \<Rightarrow> nat \<Rightarrow> u8 \<Rightarrow> bool" where
  "hasCanonicalResponseEvidenceForDestination packet dataBytes destination =
     (case packet of None \<Rightarrow> False
      | Some p \<Rightarrow> p ! 1 = destination \<and> hasCanonicalResponseEvidence packet dataBytes)"

section \<open>The frames the checks accept\<close>

text \<open>
  The wire layout the detector sends, as a specification: the frame of \<open>data\<close> with the
  given start and end bytes, for a V1 that appends a checksum or not.
\<close>

definition response_frame :: "u8 \<Rightarrow> u8 \<Rightarrow> bool \<Rightarrow> u8 \<Rightarrow> u8 list \<Rightarrow> u8 \<Rightarrow> u8 list" where
  "response_frame start dest withSum pid data stop =
     (let body = start # dest # (if withSum then 0xEA else 0xE9) # pid #
                 word_of_nat (length data + (if withSum then 1 else 0)) # data
      in body @ (if withSum then [checksum8 body] else []) @ [stop])"

lemma length_response_frame [simp]:
  "length (response_frame a d w i data z) = length data + (if w then 7 else 6)"
  by (simp add: response_frame_def Let_def)

lemma originator_byte:
  "x AND 0xF0 = 0xE0 \<Longrightarrow> x AND 0x0F = 0x0A \<Longrightarrow> x = (0xEA :: u8)"
  "x AND 0xF0 = 0xE0 \<Longrightarrow> x AND 0x0F = 0x09 \<Longrightarrow> x = (0xE9 :: u8)"
  using nibbles_join [of x] by auto

lemma list_of_five:
  assumes "5 \<le> length p"
  shows "p = p ! 0 # p ! 1 # p ! 2 # p ! 3 # p ! 4 # drop 5 p"
proof -
  obtain a b c d e r where "p = a # b # c # d # e # r"
    using assms by (auto simp: Suc_le_length_iff numeral_eq_Suc)
  then show ?thesis by (simp add: numeral_eq_Suc)
qed

lemma length_byte_with_sum: "n < 255 \<Longrightarrow> unat (1 + word_of_nat n :: u8) = Suc n"
proof -
  assume "n < 255"
  then have "unat (word_of_nat (Suc n) :: u8) = Suc n"
    by (simp add: unat_of_nat del: of_nat_Suc)
  then show ?thesis by simp
qed

lemma length_byte_read:
  assumes "unat (b :: u8) = Suc n"
  shows "1 + word_of_nat n = b"
proof -
  have "b = word_of_nat (unat b)" by simp
  also have "\<dots> = 1 + word_of_nat n" by (simp only: assms of_nat_Suc)
  finally show ?thesis by simp
qed

lemma response_frame_nth:
  "response_frame a d w i data z ! Suc 0 = d"
  "response_frame a d w i data z ! 2 = (if w then 0xEA else 0xE9)"
  "response_frame a d w i data z ! 3 = i"
  "response_frame a d w i data z ! 4 = word_of_nat (length data + (if w then 1 else 0))"
  by (simp_all add: response_frame_def Let_def)

lemma width_sum: "p ! 2 = 0xEA \<Longrightarrow>
    hasCanonicalResponseWidth (Some p) n \<longleftrightarrow> unat (p ! 4) = n + 1 \<and> length p = n + 7"
  by (auto simp: hasCanonicalResponseWidth_def framing_consts)

lemma width_plain: "p ! 2 = 0xE9 \<Longrightarrow>
    hasCanonicalResponseWidth (Some p) n \<longleftrightarrow> unat (p ! 4) = n \<and> length p = n + 6"
  by (auto simp: hasCanonicalResponseWidth_def framing_consts)

lemma width_cases:
  assumes "hasCanonicalResponseWidth (Some p) n"
  obtains (sum) "p ! 2 = 0xEA" "unat (p ! 4) = n + 1" "length p = n + 7"
    | (plain) "p ! 2 = 0xE9" "unat (p ! 4) = n" "length p = n + 6"
proof -
  from assms have base: "p ! 2 AND 0xF0 = 0xE0"
    and dev: "p ! 2 AND 0x0F = 0x0A \<or> p ! 2 AND 0x0F = 0x09"
    by (auto simp: hasCanonicalResponseWidth_def framing_consts Let_def split: if_splits)
  from dev show ?thesis
  proof
    assume "p ! 2 AND 0x0F = 0x0A"
    with base have "p ! 2 = 0xEA" by (rule originator_byte)
    with assms that(1) show ?thesis by (simp add: width_sum)
  next
    assume "p ! 2 AND 0x0F = 0x09"
    with base have "p ! 2 = 0xE9" by (rule originator_byte)
    with assms that(2) show ?thesis by (simp add: width_plain)
  qed
qed

lemma frame_of_plain:
  assumes "p ! 2 = 0xE9" "unat (p ! 4) = n" "length p = n + 6"
  shows "p = response_frame (p ! 0) (p ! 1) False (p ! 3) (take n (drop 5 p)) (p ! (n + 5))"
proof -
  have len: "word_of_nat n = p ! 4" using assms(2) by (simp flip: assms(2))
  have tail: "drop 5 p = take n (drop 5 p) @ [p ! (n + 5)]"
    using assms(3) take_Suc_conv_app_nth [of n "drop 5 p"] by (simp add: add.commute)
  have "p = p ! 0 # p ! 1 # p ! 2 # p ! 3 # p ! 4 # drop 5 p"
    using assms(3) by (intro list_of_five) simp
  also have "\<dots> = response_frame (p ! 0) (p ! 1) False (p ! 3) (take n (drop 5 p)) (p ! (n + 5))"
    using assms(1,3) len by (subst tail) (simp add: response_frame_def Let_def)
  finally show ?thesis .
qed

lemma frame_of_sum:
  assumes "p ! 2 = 0xEA" "unat (p ! 4) = n + 1" "length p = n + 7"
    and "p ! (n + 5) = checksum8 (take (n + 5) p)"
  shows "p = response_frame (p ! 0) (p ! 1) True (p ! 3) (take n (drop 5 p)) (p ! (n + 6))"
proof -
  have len: "1 + word_of_nat n = p ! 4" using assms(2) by (simp add: length_byte_read)
  have body: "take (n + 5) p = p ! 0 # p ! 1 # p ! 2 # p ! 3 # p ! 4 # take n (drop 5 p)"
    using assms(3) by (subst list_of_five [of p]) (simp_all add: eval_nat_numeral)
  have "p = take (n + 5) p @ [p ! (n + 5)] @ [p ! (n + 6)]"
    using assms(3) id_take_nth_drop [of "n + 5" p] id_take_nth_drop [of "0" "drop (n + 6) p"]
    by (simp add: add.commute)
  also have "\<dots> = response_frame (p ! 0) (p ! 1) True (p ! 3) (take n (drop 5 p)) (p ! (n + 6))"
    using assms body len by (simp add: response_frame_def Let_def)
  finally show ?thesis .
qed

lemma frame_evidence:
  assumes "length data + (if w then 1 else 0) < 256"
  shows "hasCanonicalResponseEvidenceForDestination
           (Some (response_frame a d w i data z)) (length data) d"
proof (cases w)
  case True
  then show ?thesis using assms
    by (simp add: hasCanonicalResponseEvidenceForDestination_def hasCanonicalResponseEvidence_def
        width_sum response_frame_nth length_byte_with_sum framing_consts)
      (simp add: response_frame_def Let_def eval_nat_numeral)
next
  case False
  then show ?thesis using assms
    by (simp add: hasCanonicalResponseEvidenceForDestination_def hasCanonicalResponseEvidence_def
        width_plain response_frame_nth unat_of_nat framing_consts)
qed

text \<open>Claim C24. The evidence check accepts exactly the canonical frames.\<close>

theorem evidence_iff_frame:
  "hasCanonicalResponseEvidenceForDestination (Some p) n dest \<longleftrightarrow>
     (\<exists>start w pid data stop. length data = n \<and> n + (if w then 1 else 0) < 256 \<and>
        p = response_frame start dest w pid data stop)" (is "?E \<longleftrightarrow> ?F")
proof
  assume E: ?E
  then have "hasCanonicalResponseWidth (Some p) n" and d: "p ! 1 = dest"
    by (auto simp: hasCanonicalResponseEvidenceForDestination_def
        hasCanonicalResponseEvidence_def split: if_splits)
  then show ?F
  proof (cases rule: width_cases)
    case sum
    then have "p ! (n + 5) = checksum8 (take (n + 5) p)"
      using E by (simp add: hasCanonicalResponseEvidenceForDestination_def
          hasCanonicalResponseEvidence_def framing_consts add.commute split: if_splits)
    from frame_of_sum [OF sum this] d sum unat_u8_lt [of "p ! 4"] show ?thesis
      by (intro exI [of _ "p ! 0"] exI [of _ True] exI [of _ "p ! 3"]
          exI [of _ "take n (drop 5 p)"] exI [of _ "p ! (n + 6)"]) simp
  next
    case plain
    from frame_of_plain [OF plain] d plain unat_u8_lt [of "p ! 4"] show ?thesis
      by (intro exI [of _ "p ! 0"] exI [of _ False] exI [of _ "p ! 3"]
          exI [of _ "take n (drop 5 p)"] exI [of _ "p ! (n + 5)"]) simp
  qed
next
  assume ?F
  then show ?E using frame_evidence by blast
qed

end
