(* ===== verification/V1_Packet_Parser.thy ===== *)
theory V1_Packet_Parser
  imports V1_Alert_Table V1_Packet_Framing
begin

text \<open>
  The parser's dispatch on packet ids (\<open>PacketParser::parseInternal\<close> in
  \<open>src/packet_parser.cpp\<close>), one definition per case of its switch. A handler takes the
  received buffer \<open>data\<close>, the payload \<open>&data[5]\<close> (so \<open>payload = drop 5 data\<close>) and the
  transport ingress of the frame, and returns the code's boolean with the new state.
  \<open>mil\<close> gives the values that successive calls of \<open>millis()\<close> return during one parse.
\<close>

section \<open>Packet identifiers\<close>

definition ESP_PACKET_START :: u8 where "ESP_PACKET_START = 0xAA"
definition ESP_PACKET_END :: u8 where "ESP_PACKET_END = 0xAB"
definition PACKET_ID_VERSION :: u8 where "PACKET_ID_VERSION = 0x01"
definition PACKET_ID_RESP_VERSION :: u8 where "PACKET_ID_RESP_VERSION = 0x02"
definition PACKET_ID_RESP_USER_BYTES :: u8 where "PACKET_ID_RESP_USER_BYTES = 0x12"
definition PACKET_ID_WRITE_USER_BYTES :: u8 where "PACKET_ID_WRITE_USER_BYTES = 0x13"
definition PACKET_ID_FACTORY_DEFAULT :: u8 where "PACKET_ID_FACTORY_DEFAULT = 0x14"
definition PACKET_ID_WRITE_SWEEP_DEFINITION :: u8 where "PACKET_ID_WRITE_SWEEP_DEFINITION = 0x15"
definition PACKET_ID_REQ_ALL_SWEEP_DEFINITIONS :: u8 where
  "PACKET_ID_REQ_ALL_SWEEP_DEFINITIONS = 0x16"
definition PACKET_ID_RESP_SWEEP_DEFINITION :: u8 where "PACKET_ID_RESP_SWEEP_DEFINITION = 0x17"
definition PACKET_ID_REQ_MAX_SWEEP_INDEX :: u8 where "PACKET_ID_REQ_MAX_SWEEP_INDEX = 0x19"
definition PACKET_ID_RESP_MAX_SWEEP_INDEX :: u8 where "PACKET_ID_RESP_MAX_SWEEP_INDEX = 0x20"
definition PACKET_ID_RESP_SWEEP_WRITE_RESULT :: u8 where "PACKET_ID_RESP_SWEEP_WRITE_RESULT = 0x21"
definition PACKET_ID_REQ_SWEEP_SECTIONS :: u8 where "PACKET_ID_REQ_SWEEP_SECTIONS = 0x22"
definition PACKET_ID_RESP_SWEEP_SECTIONS :: u8 where "PACKET_ID_RESP_SWEEP_SECTIONS = 0x23"
definition PACKET_ID_DISPLAY_DATA :: u8 where "PACKET_ID_DISPLAY_DATA = 0x31"
definition PACKET_ID_TURN_OFF_DISPLAY :: u8 where "PACKET_ID_TURN_OFF_DISPLAY = 0x32"
definition PACKET_ID_TURN_ON_DISPLAY :: u8 where "PACKET_ID_TURN_ON_DISPLAY = 0x33"
definition PACKET_ID_MUTE_ON :: u8 where "PACKET_ID_MUTE_ON = 0x34"
definition PACKET_ID_MUTE_OFF :: u8 where "PACKET_ID_MUTE_OFF = 0x35"
definition PACKET_ID_REQ_CURRENT_VOLUME :: u8 where "PACKET_ID_REQ_CURRENT_VOLUME = 0x37"
definition PACKET_ID_RESP_CURRENT_VOLUME :: u8 where "PACKET_ID_RESP_CURRENT_VOLUME = 0x38"
definition PACKET_ID_REQ_WRITE_VOLUME :: u8 where "PACKET_ID_REQ_WRITE_VOLUME = 0x39"
definition PACKET_ID_REQ_ALL_VOLUME :: u8 where "PACKET_ID_REQ_ALL_VOLUME = 0x3C"
definition PACKET_ID_RESP_ALL_VOLUME :: u8 where "PACKET_ID_RESP_ALL_VOLUME = 0x3D"
definition PACKET_ID_ALERT_DATA :: u8 where "PACKET_ID_ALERT_DATA = 0x43"
definition PACKET_ID_RESP_REQUEST_NOT_PROCESSED :: u8 where
  "PACKET_ID_RESP_REQUEST_NOT_PROCESSED = 0x65"
definition PACKET_ID_INF_V1_BUSY :: u8 where "PACKET_ID_INF_V1_BUSY = 0x66"

lemmas frame_bytes = ESP_PACKET_START_def ESP_PACKET_END_def

lemmas packet_ids = PACKET_ID_VERSION_def PACKET_ID_RESP_VERSION_def
  PACKET_ID_RESP_USER_BYTES_def PACKET_ID_WRITE_USER_BYTES_def PACKET_ID_FACTORY_DEFAULT_def
  PACKET_ID_WRITE_SWEEP_DEFINITION_def PACKET_ID_REQ_ALL_SWEEP_DEFINITIONS_def
  PACKET_ID_RESP_SWEEP_DEFINITION_def PACKET_ID_REQ_MAX_SWEEP_INDEX_def
  PACKET_ID_RESP_MAX_SWEEP_INDEX_def PACKET_ID_RESP_SWEEP_WRITE_RESULT_def
  PACKET_ID_REQ_SWEEP_SECTIONS_def PACKET_ID_RESP_SWEEP_SECTIONS_def
  PACKET_ID_DISPLAY_DATA_def PACKET_ID_TURN_OFF_DISPLAY_def PACKET_ID_TURN_ON_DISPLAY_def
  PACKET_ID_MUTE_ON_def PACKET_ID_MUTE_OFF_def PACKET_ID_REQ_CURRENT_VOLUME_def
  PACKET_ID_RESP_CURRENT_VOLUME_def PACKET_ID_REQ_WRITE_VOLUME_def PACKET_ID_REQ_ALL_VOLUME_def
  PACKET_ID_RESP_ALL_VOLUME_def PACKET_ID_ALERT_DATA_def
  PACKET_ID_RESP_REQUEST_NOT_PROCESSED_def PACKET_ID_INF_V1_BUSY_def

section \<open>Display broadcast\<close>

definition bluetooth_state :: "bool \<Rightarrow> bool \<Rightarrow> bt_indicator" where
  "bluetooth_state image1 image2 =
     (if \<not> image1 \<and> \<not> image2 then BtOff else if image1 \<noteq> image2 then BtBlinking else BtOn)"

definition record_display_on :: "u8 list \<Rightarrow> u32 \<Rightarrow> u32 \<Rightarrow> parser \<Rightarrow> parser" where
  "record_display_on payload sq ingress p =
     p\<lparr>p_displayOnObs := (stamp sq ingress (p_displayOnObs p))
         \<lparr>don_available := True, don_value := payload ! 5 AND 0x08 \<noteq> 0\<rparr>\<rparr>"

definition record_bluetooth :: "u8 list \<Rightarrow> u32 \<Rightarrow> u32 \<Rightarrow> parser \<Rightarrow> parser" where
  "record_bluetooth payload sq ingress p =
     (if ds_hasV1Version (p_displayState p) \<and>
         customSweeps (capabilities (ds_v1FirmwareVersion (p_displayState p))) then
        let image1 = (payload ! 6 AND 0x40 \<noteq> 0); image2 = (payload ! 6 AND 0x80 \<noteq> 0) in
        p\<lparr>p_bluetoothObs := (stamp sq ingress (p_bluetoothObs p))
            \<lparr>bt_image1 := image1, bt_image2 := image2,
             bt_state := bluetooth_state image1 image2, bt_available := True\<rparr>\<rparr>
      else p)"

definition record_mode :: "u8 list \<Rightarrow> u32 \<Rightarrow> u32 \<Rightarrow> parser \<Rightarrow> parser" where
  "record_mode payload sq ingress p =
     (if ds_hasV1Version (p_displayState p) \<and>
         modeObservation (capabilities (ds_v1FirmwareVersion (p_displayState p))) then
        let mode = decodeQualifiedModeObservation (Some payload)
                     (ds_v1FirmwareVersion (p_displayState p)) in
        p\<lparr>p_modeObs := (stamp sq ingress (p_modeObs p))
            \<lparr>mode_value := mode, mode_available := mode \<noteq> CHR 0x00\<rparr>\<rparr>
      else p)"

definition record_display_volume :: "u8 list \<Rightarrow> u32 \<Rightarrow> u32 \<Rightarrow> parser \<Rightarrow> parser" where
  "record_display_volume payload sq ingress p =
     (let main = drop_bit 4 (payload ! 7) AND 0x0F;
          muted = payload ! 7 AND 0x0F;
          available = (main \<le> 9 \<and> muted \<le> 9);
          p = p\<lparr>p_displayVolumeObs := (stamp sq ingress (p_displayVolumeObs p))
                  \<lparr>dv_main := main, dv_muted := muted, dv_available := available\<rparr>\<rparr>
      in if available then
           update_display (\<lambda>d. d\<lparr>ds_mainVolume := main, ds_muteVolume := muted,
             ds_hasVolumeData := True\<rparr>) p
         else p)"

definition record_display_observations :: "u8 list \<Rightarrow> u32 \<Rightarrow> parser \<Rightarrow> parser" where
  "record_display_observations payload ingress p =
     (let sq = p_settingsObsSequence p + 1;
          p = p\<lparr>p_settingsObsSequence := sq\<rparr>
      in record_display_volume payload sq ingress (record_mode payload sq ingress
           (record_bluetooth payload sq ingress (record_display_on payload sq ingress p))))"

text \<open>The aggregate alert lifetime advances when an operation starts or ends the alert state.\<close>

definition advance_lifetime :: "bool \<Rightarrow> parser \<Rightarrow> parser" where
  "advance_lifetime hadAlerts p =
     (if hadAlerts \<noteq> hasAlerts p then p\<lparr>p_alertLifetime := p_alertLifetime p + 1\<rparr> else p)"

definition handle_display_data ::
    "(nat \<Rightarrow> u32) \<Rightarrow> u8 list \<Rightarrow> u32 option \<Rightarrow> u32 \<Rightarrow> bool \<Rightarrow> parser \<Rightarrow> bool \<times> parser" where
  "handle_display_data mil data nowMs ingress receivedAfterPhoneStop p =
     (if \<not> hasCanonicalResponseEvidenceForDestination (Some data) 8 0xD8 then (False, p)
      else
        let payload = drop 5 data;
            hadAlerts = hasAlerts p;
            (parsed, p) = parseDisplayData (Some payload) (length data - 6) p;
            p = (if parsed then record_display_observations payload ingress p else p);
            p = (case nowMs of
                   Some ms \<Rightarrow> if parsed \<and> receivedAfterPhoneStop
                              then retireStoppedAllBogeysAlerts payload ms p else p
                 | None \<Rightarrow> p);
            p = (if parsed then retainAlertPresentation hadAlerts
                   (case nowMs of Some ms \<Rightarrow> ms | None \<Rightarrow> mil 0) p else p)
        in (parsed, advance_lifetime hadAlerts p))"

section \<open>Alert rows, version and volumes\<close>

definition handle_alert_data ::
    "(nat \<Rightarrow> u32) \<Rightarrow> u8 list \<Rightarrow> u32 option \<Rightarrow> parser \<Rightarrow> bool \<times> parser" where
  "handle_alert_data mil data nowMs p =
     (if \<not> hasCanonicalResponseEvidenceForDestination (Some data) 7 0xD8 \<and>
         \<not> hasCanonicalResponseEvidenceForDestination (Some data) 7 0xD6 then (False, p)
      else
        let hadAlerts = hasAlerts p;
            alertNowMs = (case nowMs of Some ms \<Rightarrow> ms | None \<Rightarrow> mil 0);
            (parsed, p) = parseAlertData (Some (drop 5 data)) (length data - 6) alertNowMs p;
            p = (if parsed then retainAlertPresentation hadAlerts
                   (case nowMs of Some ms \<Rightarrow> ms | None \<Rightarrow> mil 1) p else p)
        in (parsed, advance_lifetime hadAlerts p))"

definition isAsciiDigit :: "u8 \<Rightarrow> bool" where
  "isAsciiDigit v \<longleftrightarrow> v \<ge> 0x30 \<and> v \<le> 0x39"

definition isAsciiLetter :: "u8 \<Rightarrow> bool" where
  "isAsciiLetter v \<longleftrightarrow> v \<ge> 0x41 \<and> v \<le> 0x5A \<or> v \<ge> 0x61 \<and> v \<le> 0x7A"

definition digit_value :: "u8 \<Rightarrow> u32" where
  "digit_value v = ucast v - 0x30"

definition version_number :: "u8 list \<Rightarrow> u32" where
  "version_number payload =
     digit_value (payload ! 1) * 10000 + digit_value (payload ! 3) * 1000 +
     digit_value (payload ! 4) * 100 + digit_value (payload ! 5) * 10 + digit_value (payload ! 6)"

definition handle_resp_version :: "u8 list \<Rightarrow> parser \<Rightarrow> bool \<times> parser" where
  "handle_resp_version data p =
     (if \<not> hasCanonicalResponseEvidenceForDestination (Some data) 7 0xD6 then (False, p)
      else
        let payload = drop 5 data in
        if \<not> isAsciiLetter (payload ! 0) \<or> \<not> isAsciiDigit (payload ! 1) \<or> payload ! 2 \<noteq> 0x2E \<or>
           \<not> isAsciiDigit (payload ! 3) \<or> \<not> isAsciiDigit (payload ! 4) \<or>
           \<not> isAsciiDigit (payload ! 5) \<or> \<not> isAsciiDigit (payload ! 6) then (False, p)
        else if payload ! 0 = 0x76 \<or> payload ! 0 = 0x56 then
          (True, update_display (\<lambda>d. d\<lparr>ds_v1FirmwareVersion := version_number payload,
                   ds_hasV1Version := True\<rparr>) p)
        else (True, p))"

definition handle_all_volume :: "u8 list \<Rightarrow> u32 \<Rightarrow> parser \<Rightarrow> bool \<times> parser" where
  "handle_all_volume data ingress p =
     (if \<not> hasCanonicalResponseEvidenceForDestination (Some data) 4 0xD6 then (False, p)
      else
        let payload = drop 5 data in
        if payload ! 0 > 9 \<or> payload ! 1 > 9 \<or> payload ! 2 > 9 \<or> payload ! 3 > 9 then (False, p)
        else
          let p = update_display (\<lambda>d. d\<lparr>ds_mainVolume := payload ! 0,
                    ds_muteVolume := payload ! 1, ds_savedMainVolume := payload ! 2,
                    ds_savedMuteVolume := payload ! 3, ds_hasVolumeData := True,
                    ds_hasSavedVolume := True\<rparr>) p;
              sq = p_settingsObsSequence p + 1
          in (True, p\<lparr>p_settingsObsSequence := sq,
                p_allVolumeObs := (stamp sq ingress (p_allVolumeObs p))
                  \<lparr>av_available := True, av_currentMain := payload ! 0,
                   av_currentMuted := payload ! 1, av_savedMain := payload ! 2,
                   av_savedMuted := payload ! 3\<rparr>\<rparr>))"

definition handle_current_volume :: "u8 list \<Rightarrow> u32 \<Rightarrow> parser \<Rightarrow> bool \<times> parser" where
  "handle_current_volume data ingress p =
     (if \<not> hasCanonicalResponseEvidenceForDestination (Some data) 2 0xD6 then (False, p)
      else
        let payload = drop 5 data in
        if payload ! 0 > 9 \<or> payload ! 1 > 9 then (False, p)
        else
          let p = update_display (\<lambda>d. d\<lparr>ds_mainVolume := payload ! 0,
                    ds_muteVolume := payload ! 1, ds_hasVolumeData := True\<rparr>) p;
              sq = p_settingsObsSequence p + 1
          in (True, p\<lparr>p_settingsObsSequence := sq,
                p_currentVolumeObs := (stamp sq ingress (p_currentVolumeObs p))
                  \<lparr>cv_available := True, cv_main := payload ! 0, cv_muted := payload ! 1\<rparr>\<rparr>))"

text \<open>\<open>InfV1Busy\<close> carries one to five request ids.\<close>

definition handle_busy :: "u8 list \<Rightarrow> bool" where
  "handle_busy data =
     list_ex (\<lambda>count. hasCanonicalResponseEvidenceForDestination (Some data) count 0xD8) [1..<6]"

section \<open>Custom sweep responses\<close>

definition handle_max_sweep_index :: "u8 list \<Rightarrow> u32 \<Rightarrow> parser \<Rightarrow> bool \<times> parser" where
  "handle_max_sweep_index data ingress p =
     (if \<not> hasCanonicalResponseEvidenceForDestination (Some data) 1 0xD6 then (False, p)
      else
        let payload = drop 5 data; obs = p_sweepMaxObs p; sq = p_settingsObsSequence p + 1 in
        if sm_poisoned obs then (False, p)
        else if payload ! 0 > 0x3F \<or> (sm_available obs \<and> sm_maxIndex obs \<noteq> payload ! 0) then
          (False, p\<lparr>p_settingsObsSequence := sq,
             p_sweepMaxObs := (stamp sq ingress obs)\<lparr>sm_available := False, sm_poisoned := True\<rparr>\<rparr>)
        else
          let allowed = (if payload ! 0 = 63 then (-1 :: u64)
                         else push_bit (unat (payload ! 0) + 1) 1 - 1);
              defs = p_sweepDefinitionsObs p;
              p = (if sd_presentMask defs AND NOT allowed \<noteq> 0
                   then p\<lparr>p_sweepDefinitionsObs := defs\<lparr>sd_poisoned := True\<rparr>\<rparr> else p)
          in (True, p\<lparr>p_settingsObsSequence := sq,
                p_sweepMaxObs := (stamp sq ingress obs)
                  \<lparr>sm_available := True, sm_maxIndex := payload ! 0\<rparr>\<rparr>))"

definition be16 :: "u8 \<Rightarrow> u8 \<Rightarrow> u16" where
  "be16 hi lo = push_bit 8 (ucast hi) OR ucast lo"

definition bad_range :: "u16 \<Rightarrow> u16 \<Rightarrow> bool" where
  "bad_range lower upper \<longleftrightarrow>
     (\<not> (lower = 0 \<and> upper = 0) \<and> lower \<ge> upper) \<or> (lower = 0) \<noteq> (upper = 0)"

definition poisonSweepSections :: "parser \<Rightarrow> parser" where
  "poisonSweepSections p =
     p\<lparr>p_sweepSectionsObs := (p_sweepSectionsObs p)
         \<lparr>ss_poisoned := True, ss_available := False, ss_complete := False\<rparr>\<rparr>"

text \<open>The loop over the five-byte sections of a response; \<open>None\<close> is the poisoning exit.\<close>

fun add_sections :: "u8 list \<Rightarrow> u8 \<Rightarrow> nat list \<Rightarrow> sweep_sections_obs \<Rightarrow> sweep_sections_obs option" where
  "add_sections payload declared [] cand = Some cand"
| "add_sections payload declared (offset # offsets) cand =
     (let indexCount = payload ! offset; wireIndex = drop_bit 4 indexCount AND 0x0F in
      if indexCount AND 0x0F \<noteq> declared \<or> wireIndex = 0 \<or> wireIndex > declared then None
      else
        let index = wireIndex - 1;
            upper = be16 (payload ! (offset + 1)) (payload ! (offset + 2));
            lower = be16 (payload ! (offset + 3)) (payload ! (offset + 4))
        in
        if bad_range lower upper then None
        else if bit (ss_presentMask cand) (unat index) then None
        else add_sections payload declared offsets
          (cand\<lparr>ss_sections := (ss_sections cand)[unat index :=
                  \<lparr> sec_index = index, sec_count = declared, sec_lowerMHz = lower,
                    sec_upperMHz = upper \<rparr>],
                ss_presentMask := ss_presentMask cand OR push_bit (unat index) 1\<rparr>))"

definition section_bytes :: "u8 list \<Rightarrow> nat option" where
  "section_bytes data =
     find (\<lambda>n. hasCanonicalResponseEvidenceForDestination (Some data) n 0xD6) [5, 10, 15]"

definition handle_sweep_sections :: "u8 list \<Rightarrow> u32 \<Rightarrow> parser \<Rightarrow> bool \<times> parser" where
  "handle_sweep_sections data ingress p =
     (if ss_poisoned (p_sweepSectionsObs p) then (False, p)
      else
        case section_bytes data of
          None \<Rightarrow> (False, p)
        | Some dataBytes \<Rightarrow>
            let payload = drop 5 data; declaredCount = payload ! 0 AND 0x0F in
            if declaredCount = 0 \<or> declaredCount > 15 then (False, poisonSweepSections p)
            else
              let cand = p_sweepSectionsObs p in
              if ss_count cand \<noteq> 0 \<and> ss_count cand \<noteq> declaredCount then (False, poisonSweepSections p)
              else
                (case add_sections payload declaredCount
                        (map (\<lambda>k. 5 * k) [0..<dataBytes div 5])
                        (cand\<lparr>ss_count := declaredCount\<rparr>) of
                   None \<Rightarrow> (False, poisonSweepSections p)
                 | Some cand \<Rightarrow>
                     let sq = p_settingsObsSequence p + 1;
                         cand = (stamp sq ingress cand)
                           \<lparr>ss_complete := (ss_presentMask cand = push_bit (unat declaredCount) 1 - 1),
                            ss_available := True\<rparr>
                     in (True, p\<lparr>p_settingsObsSequence := sq, p_sweepSectionsObs := cand\<rparr>)))"

definition poisonSweepDefinitions :: "parser \<Rightarrow> parser" where
  "poisonSweepDefinitions p =
     p\<lparr>p_sweepDefinitionsObs := (p_sweepDefinitionsObs p)\<lparr>sd_poisoned := True\<rparr>\<rparr>"

definition handle_sweep_definition :: "u8 list \<Rightarrow> u32 \<Rightarrow> parser \<Rightarrow> bool \<times> parser" where
  "handle_sweep_definition data ingress p =
     (let obs = p_sweepDefinitionsObs p; maxObs = p_sweepMaxObs p in
      if sd_poisoned obs then (False, p)
      else if \<not> hasCanonicalResponseEvidenceForDestination (Some data) 5 0xD6 then (False, p)
      else
        let payload = drop 5 data in
        if payload ! 0 AND 0x40 \<noteq> 0 then (False, poisonSweepDefinitions p)
        else
          let index = payload ! 0 AND 0x3F in
          if sm_available maxObs \<and> index > sm_maxIndex maxObs then (False, poisonSweepDefinitions p)
          else
            let upper = be16 (payload ! 1) (payload ! 2); lower = be16 (payload ! 3) (payload ! 4) in
            if bad_range lower upper then (False, poisonSweepDefinitions p)
            else if bit (sd_presentMask obs) (unat index) \<and>
                    (def_lowerMHz (sd_definitions obs ! unat index) \<noteq> lower \<or>
                     def_upperMHz (sd_definitions obs ! unat index) \<noteq> upper)
            then (False, poisonSweepDefinitions p)
            else
              let sq = p_settingsObsSequence p + 1 in
              (True, p\<lparr>p_settingsObsSequence := sq,
                 p_sweepDefinitionsObs := (stamp sq ingress obs)
                   \<lparr>sd_definitions := (sd_definitions obs)[unat index :=
                      \<lparr> def_index = index, def_lowerMHz = lower, def_upperMHz = upper \<rparr>],
                    sd_ingressSequences := (sd_ingressSequences obs)[unat index := ingress],
                    sd_presentMask := sd_presentMask obs OR push_bit (unat index) 1\<rparr>\<rparr>))"

definition handle_sweep_write_result :: "u8 list \<Rightarrow> u32 \<Rightarrow> parser \<Rightarrow> bool \<times> parser" where
  "handle_sweep_write_result data ingress p =
     (if \<not> hasCanonicalResponseEvidenceForDestination (Some data) 1 0xD6 then (False, p)
      else
        let payload = drop 5 data; sq = p_settingsObsSequence p + 1 in
        if payload ! 0 > 64 then (False, p)
        else (True, p\<lparr>p_settingsObsSequence := sq,
                p_sweepWriteObs := (stamp sq ingress (p_sweepWriteObs p))
                  \<lparr>sw_available := True, sw_result := payload ! 0\<rparr>\<rparr>))"

section \<open>The dispatch\<close>

definition validatePacket :: "u8 list \<Rightarrow> bool" where
  "validatePacket data \<longleftrightarrow>
     (if length data < 8 then False
      else if data ! 0 \<noteq> ESP_PACKET_START \<or> data ! (length data - 1) \<noteq> ESP_PACKET_END then False
      else True)"

text \<open>Packet ids that may be shorter than eight bytes.\<close>

definition short_packet_ids :: "u8 list" where
  "short_packet_ids =
     [PACKET_ID_WRITE_USER_BYTES, PACKET_ID_TURN_OFF_DISPLAY, PACKET_ID_TURN_ON_DISPLAY,
      PACKET_ID_MUTE_ON, PACKET_ID_MUTE_OFF, 0x36, PACKET_ID_REQ_WRITE_VOLUME,
      PACKET_ID_RESP_CURRENT_VOLUME, PACKET_ID_RESP_MAX_SWEEP_INDEX,
      PACKET_ID_RESP_SWEEP_WRITE_RESULT, PACKET_ID_RESP_USER_BYTES, PACKET_ID_VERSION,
      PACKET_ID_RESP_REQUEST_NOT_PROCESSED, PACKET_ID_INF_V1_BUSY]"

text \<open>Requests and echoes on the shared bus: acknowledged, never evidence.\<close>

definition echo_packet_ids :: "u8 list" where
  "echo_packet_ids =
     [PACKET_ID_WRITE_USER_BYTES, PACKET_ID_TURN_OFF_DISPLAY, PACKET_ID_TURN_ON_DISPLAY,
      PACKET_ID_MUTE_ON, PACKET_ID_MUTE_OFF, 0x36, PACKET_ID_REQ_WRITE_VOLUME,
      PACKET_ID_RESP_USER_BYTES, PACKET_ID_REQ_CURRENT_VOLUME, PACKET_ID_REQ_ALL_VOLUME,
      PACKET_ID_FACTORY_DEFAULT, PACKET_ID_WRITE_SWEEP_DEFINITION,
      PACKET_ID_REQ_ALL_SWEEP_DEFINITIONS, PACKET_ID_REQ_MAX_SWEEP_INDEX,
      PACKET_ID_REQ_SWEEP_SECTIONS, PACKET_ID_VERSION]"

definition dispatch ::
    "(nat \<Rightarrow> u32) \<Rightarrow> u8 list \<Rightarrow> u32 option \<Rightarrow> u32 \<Rightarrow> bool \<Rightarrow> parser \<Rightarrow> bool \<times> parser" where
  "dispatch mil data nowMs ingress afterStop p =
     (let packetId = data ! 3 in
      if packetId = PACKET_ID_DISPLAY_DATA then handle_display_data mil data nowMs ingress afterStop p
      else if packetId = PACKET_ID_ALERT_DATA then handle_alert_data mil data nowMs p
      else if packetId \<in> set echo_packet_ids then (True, p)
      else if packetId = PACKET_ID_RESP_VERSION then handle_resp_version data p
      else if packetId = PACKET_ID_RESP_ALL_VOLUME then handle_all_volume data ingress p
      else if packetId = PACKET_ID_RESP_CURRENT_VOLUME then handle_current_volume data ingress p
      else if packetId = PACKET_ID_RESP_REQUEST_NOT_PROCESSED then
        (hasCanonicalResponseEvidenceForDestination (Some data) 1 0xD6, p)
      else if packetId = PACKET_ID_INF_V1_BUSY then (handle_busy data, p)
      else if packetId = PACKET_ID_RESP_MAX_SWEEP_INDEX then handle_max_sweep_index data ingress p
      else if packetId = PACKET_ID_RESP_SWEEP_SECTIONS then handle_sweep_sections data ingress p
      else if packetId = PACKET_ID_RESP_SWEEP_DEFINITION then handle_sweep_definition data ingress p
      else if packetId = PACKET_ID_RESP_SWEEP_WRITE_RESULT then handle_sweep_write_result data ingress p
      else (False, p))"

text \<open>
  \<open>nowMs = None\<close> is the overload without a time stamp, for which the code reads \<open>millis()\<close>.
\<close>

definition parseInternal ::
    "(nat \<Rightarrow> u32) \<Rightarrow> u8 list option \<Rightarrow> u32 option \<Rightarrow> u32 \<Rightarrow> bool \<Rightarrow> parser \<Rightarrow> bool \<times> parser" where
  "parseInternal mil packet nowMs ingress afterStop p =
     (case packet of None \<Rightarrow> (False, p)
      | Some data \<Rightarrow>
          if length data < 7 then (False, p)
          else if data ! 0 \<noteq> ESP_PACKET_START \<or> data ! (length data - 1) \<noteq> ESP_PACKET_END
          then (False, p)
          else if data ! 3 \<notin> set short_packet_ids \<and> \<not> validatePacket data then (False, p)
          else dispatch mil data nowMs ingress afterStop p)"

definition parse_now :: "(nat \<Rightarrow> u32) \<Rightarrow> u8 list option \<Rightarrow> parser \<Rightarrow> bool \<times> parser" where
  "parse_now mil packet p = parseInternal mil packet None 0 False p"

definition parse_at :: "u8 list option \<Rightarrow> u32 \<Rightarrow> parser \<Rightarrow> bool \<times> parser" where
  "parse_at packet nowMs p = parseInternal (\<lambda>_. nowMs) packet (Some nowMs) 0 False p"

definition parse :: "u8 list option \<Rightarrow> u32 \<Rightarrow> u32 \<Rightarrow> bool \<Rightarrow> parser \<Rightarrow> bool \<times> parser" where
  "parse packet nowMs ingress afterStop p =
     parseInternal (\<lambda>_. nowMs) packet (Some nowMs) ingress afterStop p"

text \<open>The newest of the three volume observations: main, muted and ingress.\<close>

definition copyLatestCanonicalCurrentVolume :: "parser \<Rightarrow> (u8 \<times> u8 \<times> u32) option" where
  "copyLatestCanonicalCurrentVolume p =
     (let dv = p_displayVolumeObs p; av = p_allVolumeObs p; cv = p_currentVolumeObs p;
          (latest, found) = (if dv_available dv \<and> obs_sequence dv \<ge> 0
             then (obs_sequence dv, Some (dv_main dv, dv_muted dv, obs_ingressSequence dv))
             else (0, None));
          (latest, found) = (if av_available av \<and> obs_sequence av \<ge> latest
             then (obs_sequence av, Some (av_currentMain av, av_currentMuted av, obs_ingressSequence av))
             else (latest, found))
      in if cv_available cv \<and> obs_sequence cv \<ge> latest
         then Some (cv_main cv, cv_muted cv, obs_ingressSequence cv) else found)"

end
