(* ===== verification/V1_Parser_Machine.thy ===== *)
theory V1_Parser_Machine
  imports V1_Packet_Parser
begin

text \<open>
  The parser as an event machine: every public operation that changes it is an event, and the
  invariants of its state hold after any sequence of them, whatever bytes arrive. The
  invariant is split by the part of the state it speaks of, each handler preserving each part.
\<close>

section \<open>Events\<close>

datatype parser_event =
    Parse "u8 list option" u32 u32 bool
  | ParseAt "u8 list option" u32
  | ParseNow "nat \<Rightarrow> u32" "u8 list option"
  | ResetAlertAssembly
  | MarkAlertStreamDiscontinuous
  | ResetAlertState u32
  | ResetV1Version
  | ResetVolumeState
  | ResetModeAndDisplayState
  | ResetSweepSections
  | ResetSweepMax
  | ResetSweepDefinitions
  | ResetSweepWriteResult
  | ResetSweepCapture
  | SetObserver bool

fun parser_step :: "parser \<Rightarrow> parser_event \<Rightarrow> parser" where
  "parser_step p (Parse packet t ingress afterStop) = snd (parse packet t ingress afterStop p)"
| "parser_step p (ParseAt packet t) = snd (parse_at packet t p)"
| "parser_step p (ParseNow mil packet) = snd (parse_now mil packet p)"
| "parser_step p ResetAlertAssembly = resetAlertAssembly p"
| "parser_step p MarkAlertStreamDiscontinuous = markAlertStreamDiscontinuous p"
| "parser_step p (ResetAlertState now) = resetAlertState now p"
| "parser_step p ResetV1Version = resetV1Version p"
| "parser_step p ResetVolumeState = resetVolumeState p"
| "parser_step p ResetModeAndDisplayState = resetModeAndDisplayState p"
| "parser_step p ResetSweepSections = resetSweepSectionsObservation p"
| "parser_step p ResetSweepMax = resetSweepMaxObservation p"
| "parser_step p ResetSweepDefinitions = resetSweepDefinitionsObservation p"
| "parser_step p ResetSweepWriteResult = resetSweepWriteResultObservation p"
| "parser_step p ResetSweepCapture = resetSweepCaptureState p"
| "parser_step p (SetObserver b) = setAlertTableObserver b p"

section \<open>The invariant\<close>

definition table_inv :: "parser \<Rightarrow> bool" where
  "table_inv p \<longleftrightarrow>
     cache_wf p \<and> length (p_alerts p) = MAX_ALERTS \<and> p_alertCount p \<le> MAX_ALERTS \<and>
     (0 < p_alertCount p \<longrightarrow> unat (ds_v1PriorityIndex (p_displayState p)) < p_alertCount p) \<and>
     list_all ad_isValid (take (p_alertCount p) (p_alerts p))"

definition display_inv :: "parser \<Rightarrow> bool" where
  "display_inv p \<longleftrightarrow>
     p_displayMuteConfirmCount p \<le> 2 \<and>
     ds_muted (p_displayState p) = (p_displayMuteConfirmCount p \<ge> 2) \<and>
     ds_signalBars (p_displayState p) \<le> 8 \<and>
     ds_activeBands (p_displayState p) \<le> 0x0F"

definition volume_inv :: "parser \<Rightarrow> bool" where
  "volume_inv p \<longleftrightarrow>
     ds_mainVolume (p_displayState p) \<le> 9 \<and> ds_muteVolume (p_displayState p) \<le> 9 \<and>
     ds_savedMainVolume (p_displayState p) \<le> 9 \<and> ds_savedMuteVolume (p_displayState p) \<le> 9 \<and>
     (dv_available (p_displayVolumeObs p) \<longrightarrow>
        dv_main (p_displayVolumeObs p) \<le> 9 \<and> dv_muted (p_displayVolumeObs p) \<le> 9) \<and>
     (av_available (p_allVolumeObs p) \<longrightarrow>
        av_currentMain (p_allVolumeObs p) \<le> 9 \<and> av_currentMuted (p_allVolumeObs p) \<le> 9 \<and>
        av_savedMain (p_allVolumeObs p) \<le> 9 \<and> av_savedMuted (p_allVolumeObs p) \<le> 9) \<and>
     (cv_available (p_currentVolumeObs p) \<longrightarrow>
        cv_main (p_currentVolumeObs p) \<le> 9 \<and> cv_muted (p_currentVolumeObs p) \<le> 9)"

definition sections_inv :: "sweep_sections_obs \<Rightarrow> bool" where
  "sections_inv ob \<longleftrightarrow>
     length (ss_sections ob) = 15 \<and> unat (ss_count ob) \<le> 15 \<and>
     (\<forall>i. bit (ss_presentMask ob) i \<longrightarrow> i < unat (ss_count ob) \<and>
        sec_index (ss_sections ob ! i) = word_of_nat i \<and>
        \<not> bad_range (sec_lowerMHz (ss_sections ob ! i)) (sec_upperMHz (ss_sections ob ! i)))"

definition sections_status :: "sweep_sections_obs \<Rightarrow> bool" where
  "sections_status ob \<longleftrightarrow>
     (ss_poisoned ob \<longrightarrow> \<not> ss_available ob \<and> \<not> ss_complete ob) \<and>
     (ss_complete ob \<longrightarrow> ss_presentMask ob = push_bit (unat (ss_count ob)) 1 - 1)"

definition definitions_inv :: "sweep_max_obs \<Rightarrow> sweep_definitions_obs \<Rightarrow> bool" where
  "definitions_inv mx df \<longleftrightarrow>
     length (sd_definitions df) = 64 \<and> length (sd_ingressSequences df) = 64 \<and>
     (sm_available mx \<longrightarrow> sm_maxIndex mx \<le> 63 \<and> \<not> sm_poisoned mx) \<and>
     (\<forall>i. bit (sd_presentMask df) i \<longrightarrow>
        \<not> bad_range (def_lowerMHz (sd_definitions df ! i)) (def_upperMHz (sd_definitions df ! i)) \<and>
        def_index (sd_definitions df ! i) = word_of_nat i \<and>
        (sm_available mx \<longrightarrow> \<not> sd_poisoned df \<longrightarrow> i \<le> unat (sm_maxIndex mx)))"

definition sweep_inv :: "parser \<Rightarrow> bool" where
  "sweep_inv p \<longleftrightarrow>
     sections_inv (p_sweepSectionsObs p) \<and> sections_status (p_sweepSectionsObs p) \<and>
     definitions_inv (p_sweepMaxObs p) (p_sweepDefinitionsObs p) \<and>
     (sw_available (p_sweepWriteObs p) \<longrightarrow> sw_result (p_sweepWriteObs p) \<le> 64)"

definition parser_inv :: "parser \<Rightarrow> bool" where
  "parser_inv p \<longleftrightarrow> table_inv p \<and> display_inv p \<and> volume_inv p \<and> sweep_inv p"

lemmas inv_parts = parser_inv_def table_inv_def display_inv_def volume_inv_def sweep_inv_def

lemma new_parser_inv: "parser_inv new_parser"
  by (simp add: inv_parts sections_inv_def sections_status_def definitions_inv_def new_parser_def
      cache_wf_def slots_def default_display_state_def default_display_volume_obs_def
      default_all_volume_obs_def default_current_volume_obs_def default_sweep_sections_obs_def
      default_sweep_max_obs_def default_sweep_definitions_obs_def default_sweep_write_obs_def)

section \<open>Sweep sections\<close>

lemma nibble_pred:
  assumes "w \<noteq> 0" "w \<le> n" "unat (n :: u8) \<le> 15"
  shows "unat (w - 1) < unat n" "unat (w - 1) < 15" "word_of_nat (unat (w - 1)) = w - 1"
proof -
  have "unat (w - 1) = unat w - 1" using assms(1) by (simp add: unat_minus_one)
  moreover have "0 < unat w" using assms(1) by (simp add: unat_gt_0)
  ultimately show "unat (w - 1) < unat n" "unat (w - 1) < 15"
    using assms(2,3) by (auto simp: word_le_nat_alt)
qed simp

text \<open>The masks, in the simplifier's normal form \<open>2 ^ k\<close> of \<open>push_bit k 1\<close>.\<close>

lemma bit_set_u16: "k < 16 \<Longrightarrow> bit (m OR 2 ^ k :: u16) i \<longleftrightarrow> bit m i \<or> i = k"
  by (auto simp: bit_simps)

lemma bit_set_u64: "k < 64 \<Longrightarrow> bit (m OR 2 ^ k :: u64) i \<longleftrightarrow> bit m i \<or> i = k"
  by (auto simp: bit_simps)

lemma bit_low_mask_u16: "n \<le> 15 \<Longrightarrow> bit (2 ^ n - 1 :: u16) i \<longleftrightarrow> i < n"
  by (auto simp: bit_simps simp flip: mask_eq_exp_minus_1)

lemma bit_low_mask_u64: "n \<le> 63 \<Longrightarrow> bit (2 * 2 ^ n - 1 :: u64) i \<longleftrightarrow> i \<le> n"
proof -
  assume "n \<le> 63"
  moreover have "(2 * 2 ^ n - 1 :: u64) = mask (Suc n)" by (simp add: mask_eq_exp_minus_1)
  ultimately show ?thesis by (auto simp: bit_simps)
qed

lemma add_sections_inv:
  assumes "add_sections payload declared offs cand = Some cand'" "sections_inv cand"
    and "ss_count cand = declared" "unat declared \<le> 15"
  shows "sections_inv cand' \<and> ss_count cand' = declared \<and> ss_poisoned cand' = ss_poisoned cand"
  using assms
proof (induction payload declared offs cand rule: add_sections.induct)
  case (1 payload declared cand)
  then show ?case by simp
next
  case (2 payload declared off offs cand)
  let ?w = "drop_bit 4 (payload ! off) AND 0x0F"
  let ?i = "unat (?w - 1)"
  let ?lower = "be16 (payload ! (off + 3)) (payload ! (off + 4))"
  let ?upper = "be16 (payload ! (off + 1)) (payload ! (off + 2))"
  let ?c = "cand\<lparr>ss_sections := (ss_sections cand)[?i := \<lparr> sec_index = ?w - 1, sec_count = declared,
      sec_lowerMHz = ?lower, sec_upperMHz = ?upper \<rparr>],
      ss_presentMask := ss_presentMask cand OR push_bit ?i 1\<rparr>"
  from "2.prems"(1) have ok: "payload ! off AND 0x0F = declared" "?w \<noteq> 0" "?w \<le> declared"
    "\<not> bad_range ?lower ?upper" "\<not> bit (ss_presentMask cand) ?i"
    and rec: "add_sections payload declared offs ?c = Some cand'"
    by (auto simp: Let_def not_less split: if_splits)
  note idx = nibble_pred [OF ok(2,3) "2.prems"(4)]
  have "sections_inv ?c"
    using "2.prems"(2,3,4) idx ok(4) unfolding sections_inv_def
    by (auto simp: bit_set_u16 nth_list_update)
  with "2.IH" [OF refl refl _ refl refl refl _ _ rec] ok "2.prems"(3,4) show ?case
    by (auto simp: not_less)
qed

lemma poison_sections_inv:
  "sections_inv (p_sweepSectionsObs p) \<Longrightarrow> sections_inv (p_sweepSectionsObs (poisonSweepSections p))"
  "sections_status (p_sweepSectionsObs (poisonSweepSections p))"
  by (simp_all add: poisonSweepSections_def sections_inv_def sections_status_def)

lemma handle_sweep_sections_cases:
  assumes "sections_inv (p_sweepSectionsObs p)"
  obtains (keep) "handle_sweep_sections data ingress p = (False, p)"
    | (poison) "handle_sweep_sections data ingress p = (False, poisonSweepSections p)"
    | (accept) sq cand where "handle_sweep_sections data ingress p =
        (True, p\<lparr>p_settingsObsSequence := sq, p_sweepSectionsObs := cand\<rparr>)"
      "sections_inv cand" "sections_status cand" "ss_available cand" "\<not> ss_poisoned cand"
proof -
  define d where "d = drop 5 data ! 0 AND 0x0F"
  have le: "unat d \<le> 15" using unat_and_nibble [of "drop 5 data ! 0"] unfolding d_def by linarith
  note unfolded = handle_sweep_sections_def Let_def d_def [symmetric]
  let ?o = "p_sweepSectionsObs p"
  consider (a) "ss_poisoned ?o" | (b) "\<not> ss_poisoned ?o" "section_bytes data = None"
    | (c) n where "\<not> ss_poisoned ?o" "section_bytes data = Some n" "d = 0 \<or> d > 15"
    | (e) n where "\<not> ss_poisoned ?o" "section_bytes data = Some n" "\<not> (d = 0 \<or> d > 15)"
        "ss_count ?o \<noteq> 0 \<and> ss_count ?o \<noteq> d"
    | (f) n where "\<not> ss_poisoned ?o" "section_bytes data = Some n" "\<not> (d = 0 \<or> d > 15)"
        "\<not> (ss_count ?o \<noteq> 0 \<and> ss_count ?o \<noteq> d)"
    by (cases "section_bytes data") blast+
  then show ?thesis
  proof cases
    case a
    then show ?thesis by (intro keep) (simp only: unfolded if_True)
  next
    case b
    then show ?thesis by (intro keep) (simp only: unfolded if_False option.case)
  next
    case c
    then show ?thesis by (intro poison) (simp only: unfolded if_False if_True option.case)
  next
    case e
    then show ?thesis
      by (intro poison) (simp only: unfolded if_False if_True option.case not_False_eq_True simp_thms)
  next
    case f
    show ?thesis
    proof (cases "add_sections (drop 5 data) d (map (\<lambda>k. 5 * k) [0..<n div 5]) (?o\<lparr>ss_count := d\<rparr>)")
      case None
      with f show ?thesis by (intro poison) (simp only: unfolded if_False option.case)
    next
      case (Some cand)
      have "sections_inv (?o\<lparr>ss_count := d\<rparr>)"
        using assms f(4) le by (auto simp: sections_inv_def)
      from add_sections_inv [OF Some this _ le] f(1)
      have c: "sections_inv cand" "ss_count cand = d" "\<not> ss_poisoned cand" by auto
      let ?sq = "p_settingsObsSequence p + 1"
      let ?cand = "(stamp ?sq ingress cand)\<lparr>ss_complete :=
          (ss_presentMask cand = push_bit (unat d) 1 - 1), ss_available := True\<rparr>"
      have "handle_sweep_sections data ingress p =
          (True, p\<lparr>p_settingsObsSequence := ?sq, p_sweepSectionsObs := ?cand\<rparr>)"
        using f Some by (simp only: unfolded if_False option.case)
      moreover have "sections_inv ?cand" "sections_status ?cand"
        using c by (simp_all add: sections_inv_def sections_status_def stamp_def)
      ultimately show ?thesis using accept c(3) by (simp add: stamp_def)
    qed
  qed
qed

section \<open>The other sweep responses\<close>

lemma low_bits_u64:
  "v \<le> 63 \<Longrightarrow> bit (if v = 63 then -1 else push_bit (unat v + 1) 1 - 1 :: u64) i \<longleftrightarrow>
     i \<le> unat (v :: u8) \<and> i < 64"
proof -
  assume v: "v \<le> 63"
  then have n: "unat v \<le> 63" by (simp add: word_le_nat_alt)
  show ?thesis
  proof (cases "v = 63")
    case True
    then show ?thesis by auto
  next
    case False
    then show ?thesis using bit_low_mask_u64 [OF n, of i] n by auto
  qed
qed

lemma mask_within: "m AND NOT a = 0 \<Longrightarrow> bit m i \<Longrightarrow> bit (a :: u64) i"
  by (metis bit_and_iff bit_not_iff_eq bit_0_eq bot_apply bot_bool_def bit_imp_le_length
      impossible_bit possible_bit_def not_less)

lemma definitions_inv_max:
  assumes inv: "definitions_inv mx df" and v: "v \<le> 63"
    and mx': "sm_maxIndex mx' = v" "sm_available mx'" "\<not> sm_poisoned mx'"
  defines "allowed \<equiv> (if v = 63 then -1 else push_bit (unat v + 1) 1 - 1 :: u64)"
  shows "definitions_inv mx' (if sd_presentMask df AND NOT allowed \<noteq> 0 then df\<lparr>sd_poisoned := True\<rparr> else df)"
proof (cases "sd_presentMask df AND NOT allowed = 0")
  case True
  then have "bit (sd_presentMask df) i \<Longrightarrow> i \<le> unat v" for i
    using mask_within [OF True, of i] low_bits_u64 [OF v, of i] unfolding allowed_def by blast
  with True inv v mx' show ?thesis by (auto simp: definitions_inv_def)
next
  case False
  with inv v mx' show ?thesis by (auto simp: definitions_inv_def)
qed

lemma handle_max_sweep_index_inv:
  assumes "sweep_inv p"
  shows "sweep_inv (snd (handle_max_sweep_index data g p))"
proof -
  define v where "v = drop 5 data ! 0"
  let ?o = "p_sweepMaxObs p"
  show ?thesis
  proof (cases "hasCanonicalResponseEvidenceForDestination (Some data) 1 0xD6 \<and> \<not> sm_poisoned ?o")
    case False
    with assms show ?thesis by (auto simp: handle_max_sweep_index_def Let_def)
  next
    case ok: True
    show ?thesis
    proof (cases "v > 0x3F \<or> sm_available ?o \<and> sm_maxIndex ?o \<noteq> v")
      case True
      with ok have "snd (handle_max_sweep_index data g p) = p\<lparr>p_settingsObsSequence := p_settingsObsSequence p + 1,
          p_sweepMaxObs := (stamp (p_settingsObsSequence p + 1) g ?o)\<lparr>sm_available := False, sm_poisoned := True\<rparr>\<rparr>"
        by (simp only: handle_max_sweep_index_def Let_def v_def if_True if_False simp_thms snd_conv)
      with assms show ?thesis by (auto simp: sweep_inv_def definitions_inv_def)
    next
      case False
      let ?mx = "(stamp (p_settingsObsSequence p + 1) g ?o)\<lparr>sm_available := True, sm_maxIndex := v\<rparr>"
      from ok False have eq: "snd (handle_max_sweep_index data g p) =
        (if sd_presentMask (p_sweepDefinitionsObs p) AND NOT (if v = 63 then -1 else push_bit (unat v + 1) 1 - 1) \<noteq> 0
         then p\<lparr>p_sweepDefinitionsObs := (p_sweepDefinitionsObs p)\<lparr>sd_poisoned := True\<rparr>\<rparr> else p)
        \<lparr>p_settingsObsSequence := p_settingsObsSequence p + 1, p_sweepMaxObs := ?mx\<rparr>"
        by (simp only: handle_max_sweep_index_def Let_def v_def if_True if_False simp_thms snd_conv)
      have "v \<le> 63" using False by (simp add: not_less)
      with definitions_inv_max [of ?o "p_sweepDefinitionsObs p" v ?mx] assms ok
      show ?thesis unfolding eq by (auto simp: sweep_inv_def stamp_def simp del: push_bit_of_1)
    qed
  qed
qed

lemma handle_sweep_definition_inv:
  assumes "sweep_inv p"
  shows "sweep_inv (snd (handle_sweep_definition data g p))"
proof -
  define v where "v = drop 5 data ! 0 AND 0x3F"
  define lo where "lo = be16 (drop 5 data ! 3) (drop 5 data ! 4)"
  define hi where "hi = be16 (drop 5 data ! 1) (drop 5 data ! 2)"
  let ?d = "p_sweepDefinitionsObs p" and ?m = "p_sweepMaxObs p"
  let ?new = "p\<lparr>p_settingsObsSequence := p_settingsObsSequence p + 1,
     p_sweepDefinitionsObs := (stamp (p_settingsObsSequence p + 1) g ?d)
       \<lparr>sd_definitions := (sd_definitions ?d)[unat v := \<lparr> def_index = v, def_lowerMHz = lo, def_upperMHz = hi \<rparr>],
        sd_ingressSequences := (sd_ingressSequences ?d)[unat v := g],
        sd_presentMask := sd_presentMask ?d OR push_bit (unat v) 1\<rparr>\<rparr>"
  have v: "unat v < 64"
  proof -
    have "v \<le> 0x3F" unfolding v_def by (rule word_and_le1)
    then show ?thesis by (simp add: word_le_nat_alt)
  qed
  have cases: "snd (handle_sweep_definition data g p) =
     (if sd_poisoned ?d \<or> \<not> hasCanonicalResponseEvidenceForDestination (Some data) 5 0xD6 then p
      else if drop 5 data ! 0 AND 0x40 \<noteq> 0 \<or> sm_available ?m \<and> v > sm_maxIndex ?m \<or> bad_range lo hi \<or>
        bit (sd_presentMask ?d) (unat v) \<and>
        (def_lowerMHz (sd_definitions ?d ! unat v) \<noteq> lo \<or> def_upperMHz (sd_definitions ?d ! unat v) \<noteq> hi)
      then poisonSweepDefinitions p else ?new)"
    unfolding handle_sweep_definition_def Let_def v_def lo_def hi_def
    by (simp only: if_distrib [of snd] snd_conv split: if_split) blast
  have "sweep_inv (poisonSweepDefinitions p)"
    using assms by (auto simp: sweep_inv_def definitions_inv_def poisonSweepDefinitions_def)
  moreover have "sweep_inv ?new" if "\<not> bad_range lo hi" "\<not> (sm_available ?m \<and> v > sm_maxIndex ?m)"
    using assms that v
    by (auto simp: sweep_inv_def definitions_inv_def stamp_def bit_set_u64 nth_list_update
        word_less_nat_alt not_less)
  ultimately show ?thesis using assms unfolding cases by auto
qed

lemma handle_sweep_sections_inv:
  assumes "sweep_inv p"
  shows "sweep_inv (snd (handle_sweep_sections data g p))"
proof -
  have s: "sections_inv (p_sweepSectionsObs p)" using assms by (simp add: sweep_inv_def)
  from s show ?thesis
  proof (cases rule: handle_sweep_sections_cases [of p data g])
    case poison
    with assms poison_sections_inv [of p] show ?thesis
      by (auto simp: sweep_inv_def poisonSweepSections_def)
  qed (use assms in \<open>auto simp: sweep_inv_def\<close>)
qed

lemma handle_sweep_write_result_inv:
  "sweep_inv p \<Longrightarrow> sweep_inv (snd (handle_sweep_write_result data g p))"
  by (auto simp: handle_sweep_write_result_def sweep_inv_def Let_def not_less stamp_def)

end
