(* ===== verification/V1_Alert_Delivery.thy ===== *)
theory V1_Alert_Delivery
  imports V1_Alert_Table
begin

text \<open>
  A whole alert table on the wire. The detector numbers the rows \<open>1..n\<close> and sends one packet
  per row; delivered in order within the freshness window, the rows are published as the
  table, whatever the parser held before. Nothing is published before the last row.
\<close>

section \<open>Cache times inside the window\<close>

lemma freshness_now_id:
  assumes "\<forall>i r. cache p i = Some r \<longrightarrow> \<not> later_than (cr_rxMs r) t"
  shows "freshness_now t p = t"
proof -
  have "fold (\<lambda>i f. if p_alertChunkPresent p ! i \<and> later_than (p_alertChunkRxMs p ! i) f
      then p_alertChunkRxMs p ! i else f) xs t = t"
    if "set xs \<subseteq> {0..<RAW_ALERT_INDEX_SLOTS}" for xs
    using that
  proof (induction xs)
    case (Cons i xs)
    then have "i < RAW_ALERT_INDEX_SLOTS" by simp
    then have "\<not> (p_alertChunkPresent p ! i \<and> later_than (p_alertChunkRxMs p ! i) t)"
      using assms [rule_format, of i] by (auto simp: cache_def)
    with Cons show ?case by auto
  qed simp
  then show ?thesis unfolding freshness_now_def by simp
qed

lemma fresh_rows_id:
  "\<forall>i r. cache p i = Some r \<longrightarrow> \<not> stale f r \<Longrightarrow> fresh_rows f p = cache p"
  by (auto simp: fresh_rows_def fun_eq_iff split: option.splits)

lemma not_stale_window:
  assumes "j \<le> k" "k \<le> 1500" "cr_rxMs r = t0 + word_of_nat j"
  shows "\<not> stale (t0 + word_of_nat k) r"
proof -
  have "unat (word_of_nat (k - j) :: u32) = k - j"
    using assms(2) by (simp only: unat_of_nat) simp
  then have "(word_of_nat (k - j) :: u32) \<le> 1500"
    using assms(2) by (simp add: word_le_nat_alt del: of_nat_diff)
  then show ?thesis
    by (simp only: stale_def assms(3) elapsed_window [OF assms(1)] kAlertRowFreshnessMs_def not_less)
qed

lemma drop_stale_rows_id:
  assumes "\<forall>i r. cache p i = Some r \<longrightarrow> \<not> stale f r"
  shows "drop_stale_rows f p = p"
proof -
  have "fold (drop_stale_row f) xs p = p" if "set xs \<subseteq> {0..<RAW_ALERT_INDEX_SLOTS}" for xs
    using that
  proof (induction xs)
    case (Cons i xs)
    then have "drop_stale_row f i p = p"
      using assms [rule_format, of i] by (auto simp: drop_stale_row_def cache_def stale_def)
    with Cons show ?case by simp
  qed simp
  then show ?thesis by (simp add: drop_stale_rows_def)
qed

section \<open>One row of a delivery\<close>

definition row_header :: "nat \<Rightarrow> nat \<Rightarrow> u8 list \<Rightarrow> bool" where
  "row_header i n b \<longleftrightarrow> drop_bit 4 (b ! 0) AND 0x0F = word_of_nat i \<and> b ! 0 AND 0x0F = word_of_nat n"

text \<open>
  The rows of one table with their receipt times \<open>t0 + d i\<close>: numbered in order, received in
  order, within the freshness window.
\<close>

definition delivery :: "u8 list list \<Rightarrow> nat \<Rightarrow> (nat \<Rightarrow> nat) \<Rightarrow> bool" where
  "delivery rows len d \<longleftrightarrow>
     0 < length rows \<and> length rows \<le> MAX_ALERTS \<and> 7 \<le> len \<and>
     (\<forall>i<length rows. row_header (i + 1) (length rows) (rows ! i) \<and> d i \<le> 1500) \<and>
     (\<forall>j<length rows. \<forall>i\<le>j. d i \<le> d j)"

text \<open>The cache after the first \<open>k\<close> rows.\<close>

definition partial_cache ::
    "u8 list list \<Rightarrow> nat \<Rightarrow> u32 \<Rightarrow> (nat \<Rightarrow> nat) \<Rightarrow> nat \<Rightarrow> nat \<Rightarrow> cached_row option" where
  "partial_cache rows len t0 d k i =
     (if 1 \<le> i \<and> i \<le> k then
        Some \<lparr> cr_count = word_of_nat (length rows), cr_rxMs = t0 + word_of_nat (d (i - 1)),
               cr_chunk = row_chunk (rows ! (i - 1)) len \<rparr>
      else None)"

definition mid_delivery ::
    "u8 list list \<Rightarrow> nat \<Rightarrow> u32 \<Rightarrow> (nat \<Rightarrow> nat) \<Rightarrow> parser \<Rightarrow> nat \<Rightarrow> parser \<Rightarrow> bool" where
  "mid_delivery rows len t0 d p k q \<longleftrightarrow>
     cache_wf q \<and> cache q = partial_cache rows len t0 d k \<and>
     p_displayState q = p_displayState p \<and> p_alerts q = p_alerts p \<and>
     p_alertCount q = p_alertCount p \<and> p_alertIndexMode q = p_alertIndexMode p \<and>
     (p_alertResyncRequired q \<longrightarrow> k = 0 \<and> p_alertIndexMode p \<noteq> ZeroBased) \<and>
     (0 < k \<longrightarrow> (\<exists>j<k. p_alertTableFirstSeenMs q ! length rows = t0 + word_of_nat (d j)))"

lemma unat_small_u8: "n \<le> MAX_ALERTS \<Longrightarrow> unat (word_of_nat n :: u8) = n"
  by (simp add: unat_of_nat slots_def)

lemma partial_cache_window:
  assumes "delivery rows len d" "k < length rows" "partial_cache rows len t0 d k i = Some r"
  shows "\<not> stale (t0 + word_of_nat (d k)) r" "\<not> later_than (cr_rxMs r) (t0 + word_of_nat (d k))"
proof -
  from assms(3) have i: "1 \<le> i" "i \<le> k" and rx: "cr_rxMs r = t0 + word_of_nat (d (i - 1))"
    by (auto simp: partial_cache_def split: if_splits)
  have d: "d (i - 1) \<le> d k" "d k \<le> 1500"
    using assms(1,2) i by (auto simp: delivery_def)
  show "\<not> stale (t0 + word_of_nat (d k)) r"
    using d rx by (intro not_stale_window) auto
  show "\<not> later_than (cr_rxMs r) (t0 + word_of_nat (d k))"
    unfolding rx using d by (subst later_than_window) auto
qed

lemma partial_cache_step:
  "(partial_cache rows len t0 d k)(k + 1 \<mapsto> \<lparr> cr_count = word_of_nat (length rows),
      cr_rxMs = t0 + word_of_nat (d k), cr_chunk = row_chunk (rows ! k) len \<rparr>)
   = partial_cache rows len t0 d (k + 1)"
  by (auto simp: partial_cache_def fun_eq_iff)

text \<open>A partial table is complete under no scheme before its last row, then one-based.\<close>

lemma partial_cache_complete:
  assumes "delivery rows len d" "k < length rows"
  shows "complete_rows (partial_cache rows len t0 d (k + 1)) (t0 + word_of_nat (d k))
           (word_of_nat (length rows)) zb \<longleftrightarrow> \<not> zb \<and> k + 1 = length rows"
proof -
  let ?m = "partial_cache rows len t0 d (k + 1)" and ?f = "t0 + word_of_nat (d k)"
  have n: "0 < length rows" "unat (word_of_nat (length rows) :: u8) = length rows"
    using assms(1) by (auto simp: delivery_def unat_small_u8)
  have fresh: "\<not> stale ?f \<lparr>cr_count = c, cr_rxMs = t0 + word_of_nat (d l), cr_chunk = x\<rparr>"
    if "l \<le> k" for l x c
    using assms that by (intro not_stale_window [of "d l"]) (auto simp: delivery_def)
  show ?thesis
  proof (cases zb)
    case True
    then have "?m (raw_index zb 0) = None" by (simp add: raw_index_def partial_cache_def)
    with n show ?thesis using True by (auto simp: complete_rows_def)
  next
    case False
    show ?thesis
    proof (cases "k + 1 = length rows")
      case True
      then show ?thesis
        using False n fresh by (auto simp: complete_rows_def raw_index_def partial_cache_def)
    next
      case ne: False
      then have "?m (raw_index False (k + 1)) = None" "k + 1 < length rows"
        using assms(2) by (simp_all add: raw_index_def partial_cache_def)
      then show ?thesis using False ne n by (auto simp: complete_rows_def)
    qed
  qed
qed

lemma prepared_first_seen:
  assumes "\<forall>i r. cache q i = Some r \<longrightarrow> \<not> stale (freshness_now t q) r"
  shows "p_alertTableFirstSeenMs (prepared t q) = p_alertTableFirstSeenMs q"
    and "p_alertIndexMode (prepared t q) = p_alertIndexMode q"
  using drop_stale_rows_id [OF assms] by (simp_all add: prepared_def)

lemma no_rows_empty: "cache q = Map.empty \<Longrightarrow> \<not> anyRowsForCount q c"
  by (auto simp: anyRowsForCount_def list_ex_iff row_of_count_cache slots_def)

lemma store_row_first_seen:
  assumes "cache_wf q" "unat c \<le> MAX_ALERTS"
  shows "p_alertTableFirstSeenMs (store_row b len i c t q) ! unat c =
     (if \<not> anyRowsForCount q c \<or> p_alertTableFirstSeenMs q ! unat c = 0 then t
      else p_alertTableFirstSeenMs q ! unat c)"
  using assms by (simp add: store_row_def set_first_seen_def Let_def cache_wf_def slots_def)

lemma store_row_modes [simp]:
  "p_alertIndexMode (store_row b n i c t p) = p_alertIndexMode p"
  "p_alertResyncRequired (store_row b n i c t p) = p_alertResyncRequired p"
  by (rule same_but_cacheD [OF same_store_row])+

lemma prepared_resync [simp]: "\<not> p_alertResyncRequired (prepared t q)"
  by (simp add: prepared_def)

lemma delivery_row:
  assumes dl: "delivery rows len d" and k: "k < length rows"
    and mid: "mid_delivery rows len t0 d p k q"
  defines "t \<equiv> t0 + word_of_nat (d k)" and "c \<equiv> word_of_nat (length rows) :: u8"
  defines "q' \<equiv> store_row (rows ! k) len (k + 1) c t (prepared t q)"
  shows "snd (parseAlertData (Some (rows ! k)) len t q) = try_publish c t t q'"
    and "mid_delivery rows len t0 d p (k + 1) q'"
proof -
  from dl k have n: "length rows \<le> MAX_ALERTS" and len: "7 \<le> len"
    and hdr: "row_header (k + 1) (length rows) (rows ! k)" and dk: "d k \<le> 1500"
    by (auto simp: delivery_def)
  from mid have wf: "cache_wf q" and cq: "cache q = partial_cache rows len t0 d k"
    by (simp_all add: mid_delivery_def)
  have win: "\<forall>i r. cache q i = Some r \<longrightarrow> \<not> stale t r \<and> \<not> later_than (cr_rxMs r) t"
    unfolding cq t_def using partial_cache_window [OF dl k] by blast
  then have f: "freshness_now t q = t" by (intro freshness_now_id) blast
  with win have fresh: "fresh_rows (freshness_now t q) q = cache q" by (intro fresh_rows_id) simp
  have uc: "unat c = length rows" using n by (simp add: c_def unat_small_u8)
  have idx: "drop_bit 4 (rows ! k ! 0) AND 0x0F = word_of_nat (k + 1)"
    and cnt: "rows ! k ! 0 AND 0x0F = c" using hdr by (simp_all add: row_header_def c_def)
  have ui: "unat (word_of_nat (k + 1) :: u8) = k + 1"
    using n k by (intro unat_small_u8) simp
  have c0: "c \<noteq> 0" using uc k by (metis unat_0 less_nat_zero_code)
  have adm: "row_admitted q (word_of_nat (k + 1)) c t"
    unfolding row_admitted_def fresh ui
  proof (intro conjI impI allI)
    show "1 \<le> (word_of_nat (k + 1) :: u8) \<and> word_of_nat (k + 1) \<le> c \<or> word_of_nat (k + 1) < c"
      using k unfolding word_le_nat_alt ui uc by (intro disjI1) simp
  next
    assume "p_alertResyncRequired q"
    with mid have "k = 0" "p_alertIndexMode q \<noteq> ZeroBased" by (auto simp: mid_delivery_def)
    then show "word_of_nat (k + 1) = (if p_alertIndexMode q = ZeroBased then 0 else 1 :: u8)" by simp
  next
    fix r
    assume "cache q (k + 1) = Some r"
    then show "\<not> sint (t - cr_rxMs r) < 0" by (simp add: cq partial_cache_def)
  qed
  from parseAlertData_row(1) [OF wf len refl refl, of "rows ! k" t] adm c0
  show "snd (parseAlertData (Some (rows ! k)) len t q) = try_publish c t t q'"
    unfolding idx cnt ui f q'_def by simp
  have pwf: "cache_wf (prepared t q)" using wf by (rule prepared_sel(2))
  have slot: "k + 1 < 16" using n k by (simp add: slots_def)
  have cq': "cache q' = partial_cache rows len t0 d (k + 1)"
    unfolding q'_def cache_store_row [OF pwf slot] prepared_sel(1) [OF wf] fresh cq
    unfolding t_def c_def by (rule partial_cache_step)
  have fs: "p_alertTableFirstSeenMs (prepared t q) = p_alertTableFirstSeenMs q"
    and md: "p_alertIndexMode (prepared t q) = p_alertIndexMode q"
    using win f prepared_first_seen [of q t] by auto
  have empty: "\<not> anyRowsForCount (prepared t q) c" if "k = 0"
  proof (rule no_rows_empty)
    show "cache (prepared t q) = Map.empty"
      unfolding prepared_sel(1) [OF wf] fresh cq using that by (auto simp: partial_cache_def)
  qed
  have "\<exists>j<k + 1. p_alertTableFirstSeenMs q' ! length rows = t0 + word_of_nat (d j)"
  proof (cases "\<not> anyRowsForCount (prepared t q) c \<or> p_alertTableFirstSeenMs q ! length rows = 0")
    case True
    then have "p_alertTableFirstSeenMs q' ! length rows = t"
      using store_row_first_seen [OF pwf, of c] uc n fs by (auto simp: q'_def)
    then show ?thesis unfolding t_def by (intro exI [of _ k]) simp
  next
    case False
    then have "p_alertTableFirstSeenMs q' ! length rows = p_alertTableFirstSeenMs q ! length rows"
      using store_row_first_seen [OF pwf, of c] uc n fs by (auto simp: q'_def)
    moreover have "0 < k" using False empty by blast
    ultimately show ?thesis using mid by (auto simp: mid_delivery_def intro: less_SucI)
  qed
  then show "mid_delivery rows len t0 d p (k + 1) q'"
    using mid cq' pwf md prepared_sel [OF wf, of t]
    by (simp add: mid_delivery_def q'_def wf_store_row)
qed

section \<open>The whole delivery\<close>

definition deliver :: "nat \<Rightarrow> parser \<Rightarrow> (u8 list \<times> u32) list \<Rightarrow> parser" where
  "deliver len p rows = foldl (\<lambda>q (b, t). snd (parseAlertData (Some b) len t q)) p rows"

definition timed :: "u8 list list \<Rightarrow> u32 \<Rightarrow> (nat \<Rightarrow> nat) \<Rightarrow> (u8 list \<times> u32) list" where
  "timed rows t0 d = map (\<lambda>i. (rows ! i, t0 + word_of_nat (d i))) [0..<length rows]"

lemma no_assembly_timeout:
  assumes "j \<le> k" "k \<le> 1500"
  shows "\<not> elapsed_ms (t0 + word_of_nat k) (t0 + word_of_nat j) > kAlertAssemblyTimeoutMs"
proof -
  have "unat (word_of_nat (k - j) :: u32) = k - j"
    using assms(2) by (simp only: unat_of_nat) simp
  then show ?thesis
    unfolding elapsed_window [OF assms(1)] kAlertAssemblyTimeoutMs_def not_less word_le_nat_alt
    using assms(2) by simp
qed

lemma delivery_partial:
  assumes dl: "delivery rows len d" and mid: "mid_delivery rows len t0 d p 0 p"
    and k: "k < length rows"
  shows "mid_delivery rows len t0 d p k (deliver len p (take k (timed rows t0 d)))"
  using k
proof (induction k)
  case 0
  then show ?case using mid by (simp add: deliver_def)
next
  case (Suc k)
  let ?q = "deliver len p (take k (timed rows t0 d))"
  let ?t = "t0 + word_of_nat (d k)" and ?c = "word_of_nat (length rows) :: u8"
  let ?q' = "store_row (rows ! k) len (k + 1) ?c ?t (prepared ?t ?q)"
  have midk: "mid_delivery rows len t0 d p k ?q" and k: "k < length rows" using Suc by simp_all
  have step: "deliver len p (take (Suc k) (timed rows t0 d)) = try_publish ?c ?t ?t ?q'"
    using k delivery_row(1) [OF dl k midk]
    by (simp add: deliver_def take_Suc_conv_app_nth timed_def)
  have mid': "mid_delivery rows len t0 d p (k + 1) ?q'" by (rule delivery_row(2) [OF dl k midk])
  have uc: "unat ?c = length rows" using dl by (intro unat_small_u8) (simp add: delivery_def)
  have notready: "\<not> complete_rows (cache ?q') ?t ?c zb" for zb
    using mid' partial_cache_complete [OF dl k] Suc.prems by (simp add: mid_delivery_def)
  obtain j where j: "j < k + 1"
    "p_alertTableFirstSeenMs ?q' ! length rows = t0 + word_of_nat (d j)"
    using mid' by (auto simp: mid_delivery_def)
  have "d j \<le> d k" "d k \<le> 1500" using dl k j(1) by (auto simp: delivery_def)
  then have "\<not> elapsed_ms ?t (p_alertTableFirstSeenMs ?q' ! unat ?c) > kAlertAssemblyTimeoutMs"
    unfolding uc j(2) by (rule no_assembly_timeout)
  then have "try_publish ?c ?t ?t ?q' = ?q'"
    using notready by (simp only: try_publish_def countRows_complete Let_def) simp
  then show ?case using mid' step by simp
qed

text \<open>
  Claim C11. The parser's assembly cache is well formed and empty, and if the parser still waits for
  a resynchronisation it is not in the zero-based index mode. Then an alert table of one-based
  rows, delivered in order within the freshness window from any clock value, is published
  exactly: the count, the decoded rows in order, and an empty assembly cache.
\<close>

theorem table_delivery_published:
  assumes dl: "delivery rows len d"
    and wf: "cache_wf p" "cache p = Map.empty"
    and sync: "p_alertResyncRequired p \<Longrightarrow> p_alertIndexMode p \<noteq> ZeroBased"
  shows "p_alertCount (deliver len p (timed rows t0 d)) = length rows \<and>
    take (length rows) (p_alerts (deliver len p (timed rows t0 d))) =
      map (\<lambda>i. decode_row (p_displayState p) (i + 1) (row_chunk (rows ! i) len)) [0..<length rows] \<and>
    cache (deliver len p (timed rows t0 d)) = Map.empty"
proof -
  from dl obtain k where k: "length rows = k + 1" "k < length rows"
    by (cases "length rows") (auto simp: delivery_def)
  let ?q = "deliver len p (take k (timed rows t0 d))"
  let ?t = "t0 + word_of_nat (d k)" and ?c = "word_of_nat (length rows) :: u8"
  let ?q' = "store_row (rows ! k) len (k + 1) ?c ?t (prepared ?t ?q)"
  let ?m = "partial_cache rows len t0 d (k + 1)"
  have "cache p = partial_cache rows len t0 d 0"
    using wf(2) by (auto simp: partial_cache_def)
  then have "mid_delivery rows len t0 d p 0 p"
    using wf(1) sync by (simp add: mid_delivery_def)
  then have midk: "mid_delivery rows len t0 d p k ?q" by (rule delivery_partial [OF dl _ k(2)])
  have all: "deliver len p (timed rows t0 d) = try_publish ?c ?t ?t ?q'"
  proof -
    have "timed rows t0 d = take k (timed rows t0 d) @ [(rows ! k, ?t)]"
      using k(1) by (simp add: timed_def)
    then have "deliver len p (timed rows t0 d) = snd (parseAlertData (Some (rows ! k)) len ?t ?q)"
      unfolding deliver_def by (metis (mono_tags, lifting) foldl_append foldl_Cons foldl_Nil case_prod_conv)
    then show ?thesis by (simp only: delivery_row(1) [OF dl k(2) midk])
  qed
  have mid': "mid_delivery rows len t0 d p (k + 1) ?q'" by (rule delivery_row(2) [OF dl k(2) midk])
  then have cq: "cache ?q' = ?m" and dq: "p_displayState ?q' = p_displayState p"
    by (simp_all add: mid_delivery_def)
  have uc: "unat ?c = length rows" using dl by (intro unat_small_u8) (simp add: delivery_def)
  have one: "\<not> complete_rows (cache ?q') ?t ?c True" and rdy: "table_ready (cache ?q') ?t ?c"
    unfolding cq table_ready_def using partial_cache_complete [OF dl k(2)] k(1) by simp_all
  have bound: "unat ?c \<le> MAX_ALERTS" using uc dl by (simp add: delivery_def)
  obtain acc where acc: "try_publish ?c ?t ?t ?q' = publish_table False acc ?q'"
    "ta_alerts acc = spec_table (p_displayState p) ?m ?c False"
    using try_publish_ready [OF rdy bound, of ?t] one unfolding cq dq by metis
  have "spec_table (p_displayState p) ?m ?c False =
      map (\<lambda>i. decode_row (p_displayState p) (i + 1) (row_chunk (rows ! i) len)) [0..<length rows]"
    unfolding spec_table_def uc
    by (rule map_cong) (auto simp: raw_index_def partial_cache_def k(1))
  then show ?thesis
    using acc uc by (simp add: all publish_table_alerts)
qed

text \<open>Two rows, 40 ms apart across a clock wrap, to a new parser.\<close>

definition sample_rows :: "u8 list list" where
  "sample_rows = [[0x12, 0x86, 0xA1, 0xB8, 0x00, 0x22, 0x80], [0x22, 0x5E, 0x1F, 0x00, 0x95, 0x84, 0x00]]"

lemma new_parser_cache [simp]: "cache_wf new_parser" "cache new_parser = Map.empty"
  by (auto simp: cache_wf_def cache_def new_parser_def slots_def)

lemma sample_delivery: "delivery sample_rows 7 (\<lambda>i. 40 * i)"
proof -
  have len: "length sample_rows = 2" by (simp add: sample_rows_def)
  have "row_header (i + 1) 2 (sample_rows ! i)" if "i < 2" for i
  proof -
    from that have "i = 0 \<or> i = 1" by auto
    then show ?thesis by (elim disjE) (simp_all add: row_header_def sample_rows_def)
  qed
  then show ?thesis by (auto simp: delivery_def len slots_def)
qed

theorem table_delivery_published_witness:
  "p_alertCount (deliver 7 new_parser (timed sample_rows 0xFFFFFFF0 (\<lambda>i. 40 * i))) = 2 \<and>
   map ad_band (take 2 (p_alerts (deliver 7 new_parser (timed sample_rows 0xFFFFFFF0 (\<lambda>i. 40 * i)))))
     = [BAND_KA, BAND_K]"
proof -
  have "length sample_rows = 2" by (simp add: sample_rows_def)
  moreover have "map ad_band (map (\<lambda>i. decode_row (p_displayState new_parser) (i + 1)
      (row_chunk (sample_rows ! i) 7)) [0..<2]) = [BAND_KA, BAND_K]"
    by (simp add: decode_row_def row_chunk_def decodeBand_def sample_rows_def upt_rec Let_def)
  ultimately show ?thesis
    using table_delivery_published [OF sample_delivery new_parser_cache, of "0xFFFFFFF0"]
    by (simp add: new_parser_def [THEN arg_cong, of p_alertResyncRequired])
qed

end
