(* ===== verification/V1_Parser_Invariant.thy ===== *)
theory V1_Parser_Invariant
  imports V1_Parser_Machine V1_Alert_Delivery
begin

text \<open>
  Every operation of the parser keeps every part of its invariant, and the machine locales
  interpreted on it: after any history of packets and resets the table, the volumes, the
  display image and the sweep capture are within the bounds their consumers rely on.
\<close>

section \<open>The alert table\<close>

lemma same_but_cache_more:
  assumes "same_but_cache p q"
  shows "p_currentVolumeObs q = p_currentVolumeObs p" "p_allVolumeObs q = p_allVolumeObs p"
    "p_displayVolumeObs q = p_displayVolumeObs p"
    "p_sweepSectionsObs q = p_sweepSectionsObs p" "p_sweepMaxObs q = p_sweepMaxObs p"
    "p_sweepDefinitionsObs q = p_sweepDefinitionsObs p" "p_sweepWriteObs q = p_sweepWriteObs p"
proof -
  from assms have "erase_cache q = erase_cache p" by (simp add: same_but_cache_def)
  note eq = arg_cong [where f = p_currentVolumeObs, OF this]
    arg_cong [where f = p_allVolumeObs, OF this] arg_cong [where f = p_displayVolumeObs, OF this]
    arg_cong [where f = p_sweepSectionsObs, OF this] arg_cong [where f = p_sweepMaxObs, OF this]
    arg_cong [where f = p_sweepDefinitionsObs, OF this] arg_cong [where f = p_sweepWriteObs, OF this]
  then show "p_currentVolumeObs q = p_currentVolumeObs p" "p_allVolumeObs q = p_allVolumeObs p"
    "p_displayVolumeObs q = p_displayVolumeObs p"
    "p_sweepSectionsObs q = p_sweepSectionsObs p" "p_sweepMaxObs q = p_sweepMaxObs p"
    "p_sweepDefinitionsObs q = p_sweepDefinitionsObs p" "p_sweepWriteObs q = p_sweepWriteObs p"
    by (simp_all add: erase_cache_def)
qed

lemma inv_same:
  assumes "same_but_cache p q" "cache_wf q" "parser_inv p"
  shows "parser_inv q"
  using assms(2,3)
  unfolding inv_parts by (simp only: same_but_cacheD [OF assms(1)] same_but_cache_more [OF assms(1)]) simp

lemma inv_wf: "parser_inv p \<Longrightarrow> cache_wf p"
  by (simp add: inv_parts)

lemma inv_drop_stale_rows: "parser_inv p \<Longrightarrow> parser_inv (drop_stale_rows f p)"
  by (rule inv_same [OF same_drop_stale_rows wf_drop_stale_rows]) (auto intro: inv_wf)

lemma inv_store_row: "parser_inv p \<Longrightarrow> parser_inv (store_row b n i c t p)"
  by (rule inv_same [OF same_store_row wf_store_row]) (auto intro: inv_wf)

lemma inv_clear_count: "parser_inv p \<Longrightarrow> parser_inv (clearAlertCacheForCount c p)"
  by (rule inv_same [OF same_clear_count wf_clear_count]) (auto intro: inv_wf)

lemma inv_clearAlertCache: "parser_inv p \<Longrightarrow> parser_inv (clearAlertCache p)"
  by (rule inv_same [OF same_clearAlertCache wf_clearAlertCache]) (auto intro: inv_wf)

text \<open>Fields outside the invariant.\<close>

lemma inv_irrelevant [simp]:
  "parser_inv (p\<lparr>p_alertResyncRequired := a\<rparr>) = parser_inv p"
  "parser_inv (p\<lparr>p_alertTableObserved := a\<rparr>) = parser_inv p"
  "parser_inv (p\<lparr>p_alertTableObservedAtMs := t\<rparr>) = parser_inv p"
  "parser_inv (p\<lparr>p_positiveAlertObserved := a\<rparr>) = parser_inv p"
  "parser_inv (p\<lparr>p_lastPositiveAlertAtMs := t\<rparr>) = parser_inv p"
  "parser_inv (p\<lparr>p_alertLifetime := t\<rparr>) = parser_inv p"
  "parser_inv (p\<lparr>p_lastRenderableAlert := al\<rparr>) = parser_inv p"
  "parser_inv (p\<lparr>p_clearedAlert := ca\<rparr>) = parser_inv p"
  "parser_inv (p\<lparr>p_observerCalls := oc\<rparr>) = parser_inv p"
  "parser_inv (p\<lparr>p_hasObserver := a\<rparr>) = parser_inv p"
  "parser_inv (p\<lparr>p_alertIndexMode := m\<rparr>) = parser_inv p"
  "parser_inv (p\<lparr>p_settingsObsSequence := t\<rparr>) = parser_inv p"
  "parser_inv (p\<lparr>p_displayOnObs := don\<rparr>) = parser_inv p"
  "parser_inv (p\<lparr>p_modeObs := mo\<rparr>) = parser_inv p"
  "parser_inv (p\<lparr>p_bluetoothObs := bo\<rparr>) = parser_inv p"
  by (simp_all add: inv_parts cache_wf_def)

lemma inv_note_positive: "parser_inv p \<Longrightarrow> parser_inv (note_positive_row t p)"
  by (simp add: note_positive_row_def)

lemma inv_notify: "parser_inv p \<Longrightarrow> parser_inv (notifyAlertTableObserver t p)"
  by (simp add: notifyAlertTableObserver_def Let_def)

lemma inv_retain: "parser_inv p \<Longrightarrow> parser_inv (retainAlertPresentation h t p)"
  by (simp add: retainAlertPresentation_def Let_def split: option.split)

lemma inv_lifetime: "parser_inv p \<Longrightarrow> parser_inv (advance_lifetime h p)"
  by (simp add: advance_lifetime_def)

lemma inv_clearPublished: "parser_inv p \<Longrightarrow> parser_inv (clearPublishedAlerts p)"
  by (simp add: clearPublishedAlerts_def inv_parts cache_wf_def)

lemma inv_resetAlertStateAt: "parser_inv p \<Longrightarrow> parser_inv (resetAlertStateAt t p)"
  by (simp add: resetAlertStateAt_def Let_def inv_notify inv_clearPublished inv_clearAlertCache)

lemma inv_clear_table: "parser_inv p \<Longrightarrow> parser_inv (clear_table t p)"
proof -
  assume "parser_inv p"
  then have "parser_inv (update_display (\<lambda>d. d\<lparr>ds_arrows := DIR_NONE\<rparr>) p)"
    by (simp add: inv_parts cache_wf_def)
  with \<open>parser_inv p\<close> show ?thesis by (simp add: clear_table_def Let_def inv_resetAlertStateAt)
qed

lemma inv_retire: "parser_inv p \<Longrightarrow> parser_inv (retireStoppedAllBogeysAlerts b t p)"
  by (simp add: retireStoppedAllBogeysAlerts_def inv_notify inv_clearPublished)

lemma decode_rows_valid:
  assumes "decode_rows p f c zb is acc = Some acc'"
    and "list_all ad_isValid (ta_alerts acc)" "length (ta_alerts acc) \<le> MAX_ALERTS"
  shows "list_all ad_isValid (ta_alerts acc') \<and> length (ta_alerts acc') \<le> MAX_ALERTS"
  using assms
proof (induction "is" arbitrary: acc)
  case Nil
  then show ?case by simp
next
  case (Cons i "is")
  have valid: "ad_isValid (decode_row d r ch)" for d r ch by (simp add: decode_row_def Let_def)
  from Cons.prems(1) have fr: "row_fresh p f c (raw_index zb i)"
    by (cases "row_fresh p f c (raw_index zb i)") simp_all
  from Cons.prems obtain acc1 where "decode_rows p f c zb is acc1 = Some acc'"
    "list_all ad_isValid (ta_alerts acc1)" "length (ta_alerts acc1) \<le> MAX_ALERTS"
    using fr valid by (cases "length (ta_alerts acc) < MAX_ALERTS") (simp_all add: Let_def)
  then show ?case by (rule Cons.IH)
qed

lemma inv_publish:
  assumes "parser_inv p" "list_all ad_isValid (ta_alerts acc)" "length (ta_alerts acc) \<le> MAX_ALERTS"
  shows "parser_inv (publish_table zb acc p)"
proof -
  let ?n = "length (ta_alerts acc)"
  let ?al = "ta_alerts acc @ replicate (MAX_ALERTS - ?n) default_alert"
  let ?i = "resolve_priority ?al ?n"
  have "unat (word_of_int ?i :: u8) < ?n" if "0 < ?n"
  proof -
    have b: "0 \<le> ?i" "?i < int ?n" using resolve_priority_bound [OF that, of ?al] by auto
    obtain k where k: "?i = int k" using b(1) by (metis nonneg_int_cases)
    have "k < ?n" using b(2) k by simp
    moreover from this have "k < 256" using assms(3) by (simp add: slots_def)
    ultimately show ?thesis by (simp add: k unat_of_nat)
  qed
  then have "parser_inv (notifyAlertTableObserver ts (update_display (\<lambda>d. d\<lparr>ds_hasJunkAlert := j,
        ds_hasPhotoAlert := ph, ds_hasKuAlert := ku\<rparr>)
      (if 0 < ?n then update_display (\<lambda>d. d\<lparr>ds_v1PriorityIndex := word_of_int ?i,
           ds_priorityArrow := arr\<rparr>) (p\<lparr>p_alerts := ?al, p_alertCount := ?n, p_alertIndexMode := im\<rparr>)
       else p\<lparr>p_alerts := ?al, p_alertCount := ?n, p_alertIndexMode := im\<rparr>)))" for ts j ph ku arr im
    using assms by (intro inv_notify) (auto simp: inv_parts cache_wf_def slots_def)
  then show ?thesis
    unfolding publish_table_def Let_def
    by (intro inv_clearAlertCache) (simp cong: if_cong)
qed

lemma inv_try_publish: "parser_inv p \<Longrightarrow> parser_inv (try_publish c f t p)"
proof (cases "decode_rows p f c (countRowsForMode p f c True = unat c) [0..<min (unat c) MAX_ALERTS]
    \<lparr> ta_alerts = [], ta_anyJunk = False, ta_anyPhoto = False, ta_anyKu = False, ta_timestampMs = t \<rparr>")
  case None
  then show "parser_inv p \<Longrightarrow> ?thesis"
    by (simp add: try_publish_def Let_def inv_clear_count)
next
  case (Some acc)
  from decode_rows_valid [OF this] have "list_all ad_isValid (ta_alerts acc)"
    "length (ta_alerts acc) \<le> MAX_ALERTS" by simp_all
  with Some show "parser_inv p \<Longrightarrow> ?thesis"
    by (simp add: try_publish_def Let_def inv_clear_count inv_publish)
qed

lemma inv_parseAlertData: "parser_inv p \<Longrightarrow> parser_inv (snd (parseAlertData b n t p))"
  unfolding parseAlertData_def Let_def
  by (simp add: inv_clear_table inv_drop_stale_rows inv_note_positive inv_try_publish inv_store_row
      split: option.split)


section \<open>The other handlers\<close>

lemma parseDisplayData_untouched [simp]:
  "p_alerts (snd (parseDisplayData b n p)) = p_alerts p"
  "p_alertCount (snd (parseDisplayData b n p)) = p_alertCount p"
  "p_alertChunks (snd (parseDisplayData b n p)) = p_alertChunks p"
  "p_alertChunkPresent (snd (parseDisplayData b n p)) = p_alertChunkPresent p"
  "p_alertChunkCountTag (snd (parseDisplayData b n p)) = p_alertChunkCountTag p"
  "p_alertChunkRxMs (snd (parseDisplayData b n p)) = p_alertChunkRxMs p"
  "p_alertTableFirstSeenMs (snd (parseDisplayData b n p)) = p_alertTableFirstSeenMs p"
  "p_currentVolumeObs (snd (parseDisplayData b n p)) = p_currentVolumeObs p"
  "p_allVolumeObs (snd (parseDisplayData b n p)) = p_allVolumeObs p"
  "p_displayVolumeObs (snd (parseDisplayData b n p)) = p_displayVolumeObs p"
  "p_sweepSectionsObs (snd (parseDisplayData b n p)) = p_sweepSectionsObs p"
  "p_sweepMaxObs (snd (parseDisplayData b n p)) = p_sweepMaxObs p"
  "p_sweepDefinitionsObs (snd (parseDisplayData b n p)) = p_sweepDefinitionsObs p"
  "p_sweepWriteObs (snd (parseDisplayData b n p)) = p_sweepWriteObs p"
  by (subst parseDisplayData_frame; simp)+

lemma inv_parseDisplayData: "parser_inv p \<Longrightarrow> parser_inv (snd (parseDisplayData b n p))"
proof (cases "display_payload b n")
  case False
  then show "parser_inv p \<Longrightarrow> ?thesis" by (simp add: parseDisplayData_reject)
next
  case True
  then obtain bs where b: "b = Some bs" "8 \<le> n" by (auto simp: display_payload_def)
  assume inv: "parser_inv p"
  let ?q = "snd (parseDisplayData b n p)"
  have mask: "bs ! 3 AND 0x0F \<le> (0x0F :: u8)" by (rule word_and_le1)
  have "display_inv ?q"
    using inv b mask
    by (simp add: display_inv_def parser_inv_def parseDisplayData_shows parseDisplayData_confirm
        mute_confirm_le decodeLEDBitmap_le)
  moreover have "table_inv ?q" "volume_inv ?q" "sweep_inv ?q"
    using inv by (simp_all add: parser_inv_def table_inv_def volume_inv_def sweep_inv_def cache_wf_def)
  ultimately show ?thesis by (simp add: parser_inv_def)
qed

lemma inv_record_display_on: "parser_inv p \<Longrightarrow> parser_inv (record_display_on b s g p)"
  by (simp add: record_display_on_def)

lemma inv_record_bluetooth: "parser_inv p \<Longrightarrow> parser_inv (record_bluetooth b s g p)"
  by (simp add: record_bluetooth_def Let_def)

lemma inv_record_mode: "parser_inv p \<Longrightarrow> parser_inv (record_mode b s g p)"
  by (simp add: record_mode_def Let_def)

lemma inv_record_display_volume: "parser_inv p \<Longrightarrow> parser_inv (record_display_volume b s g p)"
  by (auto simp: record_display_volume_def Let_def inv_parts cache_wf_def)

lemmas inv_record = inv_record_display_on inv_record_bluetooth inv_record_mode
  inv_record_display_volume

lemma inv_record_observations:
  "parser_inv p \<Longrightarrow> parser_inv (record_display_observations b g p)"
  unfolding record_display_observations_def Let_def by (intro inv_record) simp

lemma inv_handle_display: "parser_inv p \<Longrightarrow> parser_inv (snd (handle_display_data m data t g s p))"
  unfolding handle_display_data_def Let_def
  by (auto simp: case_prod_unfold inv_lifetime inv_retain inv_retire inv_record_observations
      inv_parseDisplayData split: option.split)

lemma inv_handle_alert: "parser_inv p \<Longrightarrow> parser_inv (snd (handle_alert_data m data t p))"
  unfolding handle_alert_data_def Let_def
  by (auto simp: case_prod_unfold inv_lifetime inv_retain inv_parseAlertData)

lemma inv_handle_version: "parser_inv p \<Longrightarrow> parser_inv (snd (handle_resp_version data p))"
  by (auto simp: handle_resp_version_def Let_def inv_parts cache_wf_def)

lemma inv_handle_all_volume: "parser_inv p \<Longrightarrow> parser_inv (snd (handle_all_volume data g p))"
  by (auto simp: handle_all_volume_def Let_def inv_parts cache_wf_def not_less)

lemma inv_handle_current_volume: "parser_inv p \<Longrightarrow> parser_inv (snd (handle_current_volume data g p))"
  by (auto simp: handle_current_volume_def Let_def inv_parts cache_wf_def not_less)

text \<open>The sweep handlers leave the rest of the parser alone.\<close>

definition sweep_only :: "parser \<Rightarrow> parser \<Rightarrow> bool" where
  "sweep_only p q \<longleftrightarrow> q = p\<lparr>p_settingsObsSequence := p_settingsObsSequence q,
     p_sweepSectionsObs := p_sweepSectionsObs q, p_sweepMaxObs := p_sweepMaxObs q,
     p_sweepDefinitionsObs := p_sweepDefinitionsObs q, p_sweepWriteObs := p_sweepWriteObs q\<rparr>"

lemma sweep_only_inv: "sweep_only p q \<Longrightarrow> sweep_inv q \<Longrightarrow> parser_inv p \<Longrightarrow> parser_inv q"
  unfolding sweep_only_def parser_inv_def
  by (erule ssubst) (simp add: table_inv_def display_inv_def volume_inv_def sweep_inv_def cache_wf_def)

lemma sweep_only_handlers:
  "sweep_only p (snd (handle_max_sweep_index data g p))"
  "sweep_only p (snd (handle_sweep_definition data g p))"
  "sweep_only p (snd (handle_sweep_write_result data g p))"
  "sweep_only p (snd (handle_sweep_sections data g p))"
  by (simp_all add: sweep_only_def handle_max_sweep_index_def handle_sweep_definition_def
      handle_sweep_write_result_def handle_sweep_sections_def poisonSweepSections_def
      poisonSweepDefinitions_def Let_def split: option.split)

lemma inv_sweep_handlers:
  "parser_inv p \<Longrightarrow> parser_inv (snd (handle_max_sweep_index data g p))"
  "parser_inv p \<Longrightarrow> parser_inv (snd (handle_sweep_definition data g p))"
  "parser_inv p \<Longrightarrow> parser_inv (snd (handle_sweep_write_result data g p))"
  "parser_inv p \<Longrightarrow> parser_inv (snd (handle_sweep_sections data g p))"
  by (rule sweep_only_inv [OF sweep_only_handlers(1)] sweep_only_inv [OF sweep_only_handlers(2)]
      sweep_only_inv [OF sweep_only_handlers(3)] sweep_only_inv [OF sweep_only_handlers(4)];
      simp add: parser_inv_def handle_max_sweep_index_inv handle_sweep_definition_inv
      handle_sweep_write_result_inv handle_sweep_sections_inv)+

lemmas inv_handlers = inv_handle_display inv_handle_alert inv_handle_version inv_handle_all_volume
  inv_handle_current_volume inv_sweep_handlers

lemma inv_dispatch: "parser_inv p \<Longrightarrow> parser_inv (snd (dispatch m data t g s p))"
  unfolding dispatch_def Let_def
  by (simp add: inv_handlers del: set_simps list.set)

lemma inv_parseInternal: "parser_inv p \<Longrightarrow> parser_inv (snd (parseInternal m b t g s p))"
  by (simp add: parseInternal_def inv_dispatch split: option.split)

section \<open>Resets\<close>

lemma inv_resets:
  assumes "parser_inv p"
  shows "parser_inv (resetSweepSectionsObservation p)" "parser_inv (resetSweepMaxObservation p)"
    "parser_inv (resetSweepDefinitionsObservation p)"
    "parser_inv (resetSweepWriteResultObservation p)"
    "parser_inv (resetV1Version p)" "parser_inv (resetVolumeState p)"
  using assms
  by (auto simp: inv_parts cache_wf_def sections_inv_def sections_status_def definitions_inv_def
      resetSweepSectionsObservation_def resetSweepMaxObservation_def
      resetSweepDefinitionsObservation_def resetSweepWriteResultObservation_def
      resetV1Version_def resetVolumeState_def default_sweep_sections_obs_def
      default_sweep_max_obs_def default_sweep_definitions_obs_def default_sweep_write_obs_def
      default_display_volume_obs_def default_all_volume_obs_def default_current_volume_obs_def)

lemma inv_resetSweepCapture: "parser_inv p \<Longrightarrow> parser_inv (resetSweepCaptureState p)"
  by (simp add: resetSweepCaptureState_def inv_resets)

lemma inv_resetModeAndDisplay: "parser_inv p \<Longrightarrow> parser_inv (resetModeAndDisplayState p)"
  unfolding resetModeAndDisplayState_def
  by (rule inv_resetSweepCapture) (simp add: inv_parts cache_wf_def)

lemma inv_resetAlertState: "parser_inv p \<Longrightarrow> parser_inv (resetAlertState t p)"
proof -
  assume "parser_inv p"
  then have "parser_inv (p\<lparr>p_displayState := (p_displayState p)\<lparr>ds_activeBands := 0, ds_arrows := DIR_NONE,
      ds_signalBars := 0, ds_flashBits := 0, ds_bandFlashBits := 0\<rparr>\<rparr>)"
    by (simp add: inv_parts cache_wf_def)
  then have "parser_inv (p\<lparr>p_alertLifetime := p_alertLifetime p + 1,
      p_lastRenderableAlert := default_alert, p_clearedAlert := ca,
      p_displayState := (p_displayState p)\<lparr>ds_activeBands := 0, ds_arrows := DIR_NONE,
        ds_signalBars := 0, ds_flashBits := 0, ds_bandFlashBits := 0\<rparr>,
      p_alertIndexMode := IndexUnknown, p_alertResyncRequired := False,
      p_positiveAlertObserved := False\<rparr>)" for ca
    by (simp add: inv_parts cache_wf_def)
  then show ?thesis
    by (simp add: resetAlertState_def Let_def inv_resetAlertStateAt)
qed

lemma parser_step_inv: "parser_inv p \<Longrightarrow> parser_inv (parser_step p e)"
  by (cases e)
    (simp_all add: parse_def parse_at_def parse_now_def inv_parseInternal resetAlertAssembly_def
      markAlertStreamDiscontinuous_def setAlertTableObserver_def inv_clearAlertCache
      inv_resetAlertState inv_resets inv_resetSweepCapture inv_resetModeAndDisplay)

interpretation parser_machine: event_machine parser_step parser_inv
  by unfold_locales (rule parser_step_inv)

lemma reachable_parser_inv: "parser_inv (foldl parser_step new_parser es)"
  by (rule parser_machine.run_inv [OF new_parser_inv])

end
