(* ===== verification/V1_Parser_Properties.thy ===== *)
theory V1_Parser_Properties
  imports V1_Parser_Invariant
begin

text \<open>
  What the parser promises its consumers, stated over whole packets: bounds of every state
  it can reach, the frames that change nothing, the mute debounce, the version, the priority
  alert, the completeness and the poisoning of a sweep capture, the newest volume.
\<close>

section \<open>Reachable states\<close>

text \<open>Claim C21. Every state of the parser satisfies the invariant.\<close>

theorem parser_history_invariant:
  "parser_inv (foldl parser_step new_parser es)"
  by (rule parser_machine.run_inv [OF new_parser_inv])

section \<open>Packets that change nothing\<close>

text \<open>
  \<open>rejects P r\<close>: a result that is \<open>false\<close> leaves a state satisfying \<open>P\<close>. It is checked branch
  by branch of the handlers.
\<close>

definition rejects :: "('s \<Rightarrow> bool) \<Rightarrow> bool \<times> 's \<Rightarrow> bool" where
  "rejects P r \<longleftrightarrow> fst r \<or> P (snd r)"

lemma rejects_branches:
  "rejects P (True, q)" "rejects P (False, q) = P q"
  "rejects P (if b then r1 else r2) = (if b then rejects P r1 else rejects P r2)"
  "rejects P (case x of None \<Rightarrow> r3 | Some y \<Rightarrow> f y) = (case x of None \<Rightarrow> rejects P r3 | Some y \<Rightarrow> rejects P (f y))"
  by (simp_all add: rejects_def split: option.split)

lemma if_same: "(if b then x else x) = x"
  by simp

lemma parseAlertData_reject: "rejects ((=) p) (parseAlertData b n t p)"
  unfolding parseAlertData_def Let_def
  by (simp only: rejects_branches if_same simp_thms if_True if_False split: option.split)

lemma handle_display_reject: "rejects ((=) p) (handle_display_data m data t g s p)"
proof (cases "display_payload (Some (drop 5 data)) (length data - 6)")
  case True
  then have "fst (parseDisplayData (Some (drop 5 data)) (length data - 6) p)"
    by (simp add: parseDisplayData_result)
  then show ?thesis
    by (simp add: handle_display_data_def Let_def case_prod_unfold rejects_def)
next
  case False
  then show ?thesis
    by (cases t) (simp_all add: handle_display_data_def Let_def parseDisplayData_reject
        advance_lifetime_def rejects_def)
qed

lemma handle_alert_reject: "rejects ((=) p) (handle_alert_data m data t p)"
proof (cases "fst (parseAlertData (Some (drop 5 data)) (length data - 6)
    (case t of Some ms \<Rightarrow> ms | None \<Rightarrow> m 0) p)")
  case True
  then show ?thesis
    by (simp add: handle_alert_data_def Let_def case_prod_unfold rejects_def)
next
  case False
  then have "snd (parseAlertData (Some (drop 5 data)) (length data - 6)
    (case t of Some ms \<Rightarrow> ms | None \<Rightarrow> m 0) p) = p"
    using parseAlertData_reject [of p "Some (drop 5 data)"] unfolding rejects_def by metis
  with False show ?thesis
    by (simp add: handle_alert_data_def Let_def case_prod_unfold rejects_def advance_lifetime_def)
qed

lemma other_handlers_reject:
  "rejects ((=) p) (handle_resp_version data p)"
  "rejects ((=) p) (handle_all_volume data g p)"
  "rejects ((=) p) (handle_current_volume data g p)"
  unfolding handle_resp_version_def handle_all_volume_def handle_current_volume_def Let_def
  by (simp_all add: rejects_branches)

lemma sweep_only_refl: "sweep_only p p"
  by (simp add: sweep_only_def)

lemma rejects_sweep_only: "rejects ((=) p) r \<Longrightarrow> rejects (sweep_only p) r"
  by (auto simp: rejects_def sweep_only_refl)

lemma sweep_handlers_reject:
  "rejects (sweep_only p) (handle_max_sweep_index data g p)"
  "rejects (sweep_only p) (handle_sweep_definition data g p)"
  "rejects (sweep_only p) (handle_sweep_write_result data g p)"
  "rejects (sweep_only p) (handle_sweep_sections data g p)"
  by (simp_all add: rejects_def sweep_only_handlers)

lemmas handlers_reject = sweep_handlers_reject
  handle_display_reject [THEN rejects_sweep_only] handle_alert_reject [THEN rejects_sweep_only]
  other_handlers_reject [THEN rejects_sweep_only]

lemma rejects_pair_same: "rejects (sweep_only p) (b, p)"
  by (simp add: rejects_def sweep_only_refl)

lemma dispatch_reject: "rejects (sweep_only p) (dispatch m data t g s p)"
  unfolding dispatch_def Let_def
  by (simp only: rejects_branches(3) handlers_reject rejects_pair_same if_same)

text \<open>A rejected packet leaves everything but the sweep capture as it was.\<close>

theorem rejected_packet_inert:
  assumes "\<not> fst (parse packet t g s p)"
  shows "sweep_only p (snd (parse packet t g s p))"
proof -
  have "rejects (sweep_only p) (parse packet t g s p)"
    unfolding parse_def parseInternal_def
    by (simp only: rejects_branches(3,4) rejects_pair_same dispatch_reject if_same split: option.split) simp
  with assms show ?thesis by (simp add: rejects_def)
qed

text \<open>A truncated alert frame.\<close>

theorem rejected_packet_inert_witness:
  "sweep_only new_parser (snd (parse (Some [0xAA, 0xD8, 0xEA, 0x43, 0x02, 0x11, 0xAB]) 5 1 False new_parser))"
  by (rule rejected_packet_inert) (simp add: parse_def parseInternal_def packet_ids frame_bytes short_packet_ids_def
      validatePacket_def)

text \<open>Requests echoed on the bus are acknowledged and never change the parser.\<close>

theorem echo_never_evidence:
  assumes "7 \<le> length data" "data ! 0 = ESP_PACKET_START"
    and "data ! (length data - 1) = ESP_PACKET_END"
    and "data ! 3 \<in> set echo_packet_ids" "8 \<le> length data \<or> data ! 3 \<in> set short_packet_ids"
  shows "parse (Some data) t g s p = (True, p)"
proof -
  have "data ! 3 \<noteq> PACKET_ID_DISPLAY_DATA" "data ! 3 \<noteq> PACKET_ID_ALERT_DATA"
    using assms(4) by (auto simp: echo_packet_ids_def packet_ids)
  then have "dispatch (\<lambda>_. t) data (Some t) g s p = (True, p)"
    using assms(4) by (simp add: dispatch_def Let_def)
  with assms show ?thesis
    by (auto simp: parse_def parseInternal_def validatePacket_def not_less)
qed

text \<open>The app's own mute request, echoed.\<close>

theorem echo_never_evidence_witness:
  "parse (Some [0xAA, 0xDA, 0xE4, 0x34, 0x01, 0x9D, 0xAB]) 77 3 True new_parser = (True, new_parser)"
  by (rule echo_never_evidence)
    (simp_all add: packet_ids frame_bytes echo_packet_ids_def
      short_packet_ids_def)

end
