(* ===== verification/V1_Parser_Consumers.thy ===== *)
theory V1_Parser_Consumers
  imports V1_Parser_Promises
begin

text \<open>
  What the consumers of the parser read: the alert to present, the captured sweeps and the
  latches that guard them, the newest volume, the empty table.
\<close>

section \<open>The alert to present\<close>

text \<open>
  In every reachable state the alert to present is the display's laser, else the
  detector's priority row when it can be rendered, else some row that can; it is missing only
  when no row can be rendered.
\<close>

theorem presented_alert:
  fixes es :: "parser_event list"
  defines "p \<equiv> foldl parser_step new_parser es"
  defines "rows \<equiv> take (p_alertCount p) (p_alerts p)"
    and "idx \<equiv> unat (ds_v1PriorityIndex (p_displayState p))"
  shows "case getRenderablePriorityAlert p of
      None \<Rightarrow> \<not> hasDisplayLaserAlert p \<and> \<not> list_ex isRenderable rows
    | Some a \<Rightarrow> isRenderable a \<and>
        (if hasDisplayLaserAlert p then ad_band a = BAND_LASER \<and> ad_direction a = ds_arrows (p_displayState p)
         else if isRenderable (rows ! idx) \<and> rows \<noteq> [] then a = rows ! idx
         else a \<in> set rows)"
proof -
  have inv: "parser_inv p" unfolding p_def by (rule reachable_parser_inv)
  then have idx: "0 < p_alertCount p \<Longrightarrow> idx < p_alertCount p"
    and len: "length (p_alerts p) = MAX_ALERTS" "p_alertCount p \<le> MAX_ALERTS"
    by (auto simp: parser_inv_def table_inv_def idx_def)
  have rows: "rows = [] \<longleftrightarrow> p_alertCount p = 0" "0 < p_alertCount p \<Longrightarrow> rows ! idx = p_alerts p ! idx"
    using len idx by (auto simp: rows_def slots_def)
  show ?thesis
  proof (cases "hasDisplayLaserAlert p")
    case True
    then show ?thesis
      by (simp add: getRenderablePriorityAlert_def getPriorityAlert_def Let_def isRenderable_def)
  next
    case no_laser: False
    show ?thesis
    proof (cases "p_alertCount p = 0")
      case True
      with no_laser rows show ?thesis
        by (simp add: getRenderablePriorityAlert_def getPriorityAlert_def Let_def isRenderable_def
            default_alert_def)
    next
      case False
      then have prio: "getPriorityAlert p = rows ! idx"
        using no_laser idx rows by (simp add: getPriorityAlert_def Let_def idx_def)
      show ?thesis
        using no_laser False rows prio
        by (auto simp: getRenderablePriorityAlert_def Let_def rows_def [symmetric] find_None_iff
            list_ex_iff dest: find_Some_in split: option.split)
    qed
  qed
qed

section \<open>Sweep captures\<close>

text \<open>
  A sweep-section capture that is reported complete holds every section of the
  declared count, each with its own index and a proper range.
\<close>

theorem complete_capture:
  fixes es :: "parser_event list"
  defines "ob \<equiv> p_sweepSectionsObs (foldl parser_step new_parser es)"
  assumes "ss_complete ob" "i < unat (ss_count ob)"
  shows "unat (ss_count ob) \<le> 15 \<and> sec_index (ss_sections ob ! i) = word_of_nat i \<and>
    \<not> bad_range (sec_lowerMHz (ss_sections ob ! i)) (sec_upperMHz (ss_sections ob ! i)) \<and>
    \<not> ss_poisoned ob"
proof -
  have "parser_inv (foldl parser_step new_parser es)" by (rule reachable_parser_inv)
  then have inv: "sections_inv ob" "sections_status ob" by (simp_all add: parser_inv_def sweep_inv_def ob_def)
  then have le: "unat (ss_count ob) \<le> 15" by (simp add: sections_inv_def)
  from inv(2) assms(2) have "ss_presentMask ob = 2 ^ unat (ss_count ob) - 1" "\<not> ss_poisoned ob"
    by (auto simp: sections_status_def)
  moreover from this(1) have "bit (ss_presentMask ob) i"
    using assms(3) le by (simp add: bit_low_mask_u16)
  ultimately show ?thesis using inv(1) le by (auto simp: sections_inv_def)
qed

text \<open>A one-section capture.\<close>

theorem complete_capture_witness:
  "sec_index (ss_sections (p_sweepSectionsObs (foldl parser_step new_parser
     [Parse (Some [0xAA, 0xD6, 0xE9, 0x23, 0x05, 0x11, 0x8D, 0x9E, 0x82, 0xD6, 0xAB]) 5 1 False])) ! 0) = 0"
  (is "sec_index (ss_sections (p_sweepSectionsObs (foldl parser_step new_parser ?es)) ! 0) = 0")
proof -
  have "ss_complete (p_sweepSectionsObs (foldl parser_step new_parser ?es)) \<and>
      ss_count (p_sweepSectionsObs (foldl parser_step new_parser ?es)) = 1"
    by code_simp
  with complete_capture [of ?es 0] show ?thesis by simp
qed

text \<open>Poisoned sections stay poisoned until the capture is reset.\<close>

fun keeps_sections :: "parser_event \<Rightarrow> bool" where
  "keeps_sections ResetSweepSections = False"
| "keeps_sections ResetSweepCapture = False"
| "keeps_sections ResetModeAndDisplayState = False"
| "keeps_sections _ = True"

definition sections_poisoned :: "parser \<Rightarrow> bool" where
  "sections_poisoned p \<longleftrightarrow> ss_poisoned (p_sweepSectionsObs p)"


lemma sections_cache_ops [simp]:
  "p_sweepSectionsObs (drop_stale_rows f p) = p_sweepSectionsObs p"
  "p_sweepSectionsObs (store_row b n i c t p) = p_sweepSectionsObs p"
  "p_sweepSectionsObs (clearAlertCacheForCount c p) = p_sweepSectionsObs p"
  "p_sweepSectionsObs (clearAlertCache p) = p_sweepSectionsObs p"
  by (rule same_but_cache_more(4) [OF same_drop_stale_rows] same_but_cache_more(4) [OF same_store_row]
      same_but_cache_more(4) [OF same_clear_count] same_but_cache_more(4) [OF same_clearAlertCache])+

lemma sections_table_ops [simp]:
  "p_sweepSectionsObs (note_positive_row t p) = p_sweepSectionsObs p"
  "p_sweepSectionsObs (notifyAlertTableObserver t p) = p_sweepSectionsObs p"
  "p_sweepSectionsObs (clearPublishedAlerts p) = p_sweepSectionsObs p"
  "p_sweepSectionsObs (resetAlertStateAt t p) = p_sweepSectionsObs p"
  "p_sweepSectionsObs (clear_table t p) = p_sweepSectionsObs p"
  "p_sweepSectionsObs (publish_table zb acc p) = p_sweepSectionsObs p"
  "p_sweepSectionsObs (retainAlertPresentation h t p) = p_sweepSectionsObs p"
  "p_sweepSectionsObs (retireStoppedAllBogeysAlerts b t p) = p_sweepSectionsObs p"
  "p_sweepSectionsObs (advance_lifetime h p) = p_sweepSectionsObs p"
  "p_sweepSectionsObs (record_display_observations b g p) = p_sweepSectionsObs p"
  by (simp_all add: note_positive_row_def notifyAlertTableObserver_def clearPublishedAlerts_def
      resetAlertStateAt_def clear_table_def publish_table_def retainAlertPresentation_def
      retireStoppedAllBogeysAlerts_def advance_lifetime_def record_display_observations_def
      record_display_volume_def record_mode_def record_bluetooth_def record_display_on_def Let_def
      split: option.split)

lemma sections_try_publish [simp]: "p_sweepSectionsObs (try_publish c f t p) = p_sweepSectionsObs p"
  by (simp add: try_publish_def Let_def split: option.split)

lemma sections_parseAlertData [simp]:
  "p_sweepSectionsObs (snd (parseAlertData b n t p)) = p_sweepSectionsObs p"
  by (simp add: parseAlertData_def Let_def split: option.split)

lemma sections_handlers [simp]:
  "p_sweepSectionsObs (snd (handle_display_data m data t g s p)) = p_sweepSectionsObs p"
  "p_sweepSectionsObs (snd (handle_alert_data m data t p)) = p_sweepSectionsObs p"
  "p_sweepSectionsObs (snd (handle_resp_version data p)) = p_sweepSectionsObs p"
  "p_sweepSectionsObs (snd (handle_all_volume data g p)) = p_sweepSectionsObs p"
  "p_sweepSectionsObs (snd (handle_current_volume data g p)) = p_sweepSectionsObs p"
  "p_sweepSectionsObs (snd (handle_max_sweep_index data g p)) = p_sweepSectionsObs p"
  "p_sweepSectionsObs (snd (handle_sweep_definition data g p)) = p_sweepSectionsObs p"
  "p_sweepSectionsObs (snd (handle_sweep_write_result data g p)) = p_sweepSectionsObs p"
  by (simp_all add: handle_display_data_def handle_alert_data_def handle_resp_version_def
      handle_all_volume_def handle_current_volume_def handle_max_sweep_index_def
      handle_sweep_definition_def handle_sweep_write_result_def poisonSweepDefinitions_def
      Let_def case_prod_unfold split: option.split)

lemma poisoned_ignores: "sections_poisoned p \<Longrightarrow> handle_sweep_sections data g p = (False, p)"
  by (simp add: sections_poisoned_def handle_sweep_sections_def)

lemma sections_dispatch:
  "sections_poisoned p \<Longrightarrow>
   p_sweepSectionsObs (snd (dispatch m data t g s p)) = p_sweepSectionsObs p"
  unfolding dispatch_def Let_def
  by (simp add: poisoned_ignores del: set_simps list.set)

lemma sections_parseInternal:
  "sections_poisoned p \<Longrightarrow>
   p_sweepSectionsObs (snd (parseInternal m b t g s p)) = p_sweepSectionsObs p"
  by (simp add: parseInternal_def sections_dispatch split: option.split)

lemma sections_step:
  assumes "sections_poisoned p" "keeps_sections e"
  shows "p_sweepSectionsObs (parser_step p e) = p_sweepSectionsObs p"
  using assms
  by (cases e) (simp_all add: parse_def parse_at_def parse_now_def sections_parseInternal
      resetAlertAssembly_def markAlertStreamDiscontinuous_def resetAlertState_def
      resetV1Version_def resetVolumeState_def resetSweepMaxObservation_def
      resetSweepDefinitionsObservation_def resetSweepWriteResultObservation_def
      setAlertTableObserver_def Let_def)

interpretation sections_latch: latching_machine parser_step sections_poisoned keeps_sections
  by unfold_locales (simp add: sections_poisoned_def sections_step)

text \<open>
  Once a section response contradicted the capture, no packet makes the capture
  available again; only the three resets of the capture do.
\<close>

theorem poison_lasts:
  assumes "sections_poisoned p" "sections_status (p_sweepSectionsObs p)" "list_all keeps_sections es"
  shows "sections_poisoned (foldl parser_step p es) \<and>
    \<not> ss_available (p_sweepSectionsObs (foldl parser_step p es))"
proof -
  have "p_sweepSectionsObs (foldl parser_step p es) = p_sweepSectionsObs p"
    using assms(1,3)
  proof (induction es rule: rev_induct)
    case (snoc e es)
    then have "sections_poisoned (foldl parser_step p es)"
      by (intro sections_latch.run_latched) simp_all
    with snoc show ?case by (simp add: sections_step)
  qed simp
  with assms show ?thesis by (simp add: sections_poisoned_def sections_status_def)
qed

text \<open>Two responses that disagree on the section count, then a well-formed one.\<close>

definition poison_history :: "parser_event list" where
  "poison_history =
     [Parse (Some [0xAA, 0xD6, 0xE9, 0x23, 0x05, 0x12, 0x8D, 0x9E, 0x82, 0xD6, 0xAB]) 5 1 False,
      Parse (Some [0xAA, 0xD6, 0xE9, 0x23, 0x05, 0x23, 0x8D, 0x9E, 0x82, 0xD6, 0xAB]) 6 2 False]"

theorem poison_lasts_witness:
  "\<not> ss_available (p_sweepSectionsObs (foldl parser_step (foldl parser_step new_parser poison_history)
     [Parse (Some [0xAA, 0xD6, 0xE9, 0x23, 0x05, 0x22, 0x8D, 0x9E, 0x82, 0xD6, 0xAB]) 7 3 False]))"
  (is "\<not> ss_available (p_sweepSectionsObs (foldl parser_step ?p ?es))")
proof -
  have "sections_poisoned ?p" by code_simp
  moreover have "sections_status (p_sweepSectionsObs ?p)"
    using reachable_parser_inv [of poison_history] by (simp add: parser_inv_def sweep_inv_def)
  ultimately show ?thesis using poison_lasts [of ?p ?es] by simp
qed

section \<open>The newest volume\<close>

text \<open>
  A current-volume response that the parser accepts is what the newest-volume query
  returns next, whatever was observed before, as long as the sequence numbers have not
  wrapped.
\<close>

theorem newest_volume:
  assumes "fst (handle_current_volume data g p)"
    and "p_settingsObsSequence p + 1 \<noteq> 0"
    and "obs_sequence (p_displayVolumeObs p) \<le> p_settingsObsSequence p"
    and "obs_sequence (p_allVolumeObs p) \<le> p_settingsObsSequence p"
  shows "copyLatestCanonicalCurrentVolume (snd (handle_current_volume data g p)) =
    Some (data ! 5, data ! 6, g)"
proof -
  from assms(1) have ev: "hasCanonicalResponseEvidenceForDestination (Some data) 2 0xD6"
    and ok: "\<not> (drop 5 data ! 0 > 9 \<or> drop 5 data ! 1 > 9)"
    by (auto simp: handle_current_volume_def Let_def split: if_splits)
  then have len: "8 \<le> length data"
    by (auto simp: hasCanonicalResponseEvidenceForDestination_def hasCanonicalResponseEvidence_def
        elim!: width_cases split: if_splits)
  have le: "x \<le> p_settingsObsSequence p \<Longrightarrow> x \<le> p_settingsObsSequence p + 1" for x
    using assms(2) by unat_arith
  have pl: "drop 5 data ! 0 = data ! 5" "drop 5 data ! 1 = data ! 6" using len by simp_all
  show ?thesis
    using ev ok le [OF assms(3)] le [OF assms(4)] pl
    by (simp add: handle_current_volume_def Let_def copyLatestCanonicalCurrentVolume_def
        case_prod_unfold stamp_def)
qed

theorem newest_volume_witness:
  "copyLatestCanonicalCurrentVolume (snd (handle_current_volume
     [0xAA, 0xD6, 0xE9, 0x38, 0x02, 0x07, 0x03, 0xAB] 12 new_parser)) = Some (7, 3, 12)"
proof -
  have "fst (handle_current_volume [0xAA, 0xD6, 0xE9, 0x38, 0x02, 0x07, 0x03, 0xAB] 12 new_parser)"
    by code_simp
  then show ?thesis
    using newest_volume [of "[0xAA, 0xD6, 0xE9, 0x38, 0x02, 0x07, 0x03, 0xAB]" 12 new_parser]
    by (simp add: new_parser_def default_display_volume_obs_def default_all_volume_obs_def)
qed


section \<open>Table rows\<close>


lemma presentation_keeps:
  "p_alertCount (advance_lifetime h (retainAlertPresentation k t p)) = p_alertCount p"
  "p_alerts (advance_lifetime h (retainAlertPresentation k t p)) = p_alerts p"
  "p_observerCalls (advance_lifetime h (retainAlertPresentation k t p)) = p_observerCalls p"
  "hasFreshAlertTable (advance_lifetime h (retainAlertPresentation k t p)) = hasFreshAlertTable p"
  by (simp_all add: advance_lifetime_def retainAlertPresentation_def Let_def hasFreshAlertTable_def
      fun_eq_iff split: option.split)

lemma clear_table_fields:
  "p_alertCount (clear_table t p) = 0" "p_alerts (clear_table t p) = replicate MAX_ALERTS default_alert"
  "hasFreshAlertTable (clear_table t p) t 0"
  "map oc_count (p_observerCalls (clear_table t p)) =
     (if p_hasObserver p \<and> 0 < p_alertCount p then [0] else []) @ map oc_count (p_observerCalls p)"
  by (simp_all add: clear_table_def resetAlertStateAt_def clearPublishedAlerts_def
      clearAlertCache_def notifyAlertTableObserver_def hasFreshAlertTable_def Let_def)

text \<open>
  A row with count zero is the detector's empty table: the published table is
  emptied at once, counts as freshly observed, and an observer is told exactly when there was
  something to clear.
\<close>

theorem zero_row_empties:
  fixes data :: "u8 list" and w s :: bool and t g :: u32 and p :: parser
  assumes "length data = 7" "data ! 0 AND 0x0F = 0"
  defines "r \<equiv> parse (Some (v1_frame 0xD8 w PACKET_ID_ALERT_DATA data)) t g s p"
  shows "fst r \<and> p_alertCount (snd r) = 0 \<and> p_alerts (snd r) = replicate MAX_ALERTS default_alert \<and>
    hasFreshAlertTable (snd r) t 0 \<and>
    map oc_count (p_observerCalls (snd r)) =
      (if p_hasObserver p \<and> 0 < p_alertCount p then [0] else []) @ map oc_count (p_observerCalls p)"
proof -
  let ?f = "v1_frame 0xD8 w PACKET_ID_ALERT_DATA data"
  let ?c = "clear_table t p"
  have ev: "hasCanonicalResponseEvidenceForDestination (Some ?f) 7 0xD8"
    using frame_evidence [of data w ESP_PACKET_START "0xD8"] assms(1) by simp
  have pl: "drop 5 ?f ! 0 = data ! 0" using assms(1) by (intro frame_payload) simp
  have pd: "parseAlertData (Some (drop 5 ?f)) (length ?f - 6) t p = (True, ?c)"
    using assms(1,2) pl by (simp add: parseAlertData_def Let_def del: nth_drop)
  have "r = handle_alert_data (\<lambda>_. t) ?f (Some t) p"
    unfolding r_def using assms(1)
    by (subst parse_frame) (simp_all add: dispatch_def Let_def response_frame_nth packet_ids)
  also have "\<dots> = (True, advance_lifetime (hasAlerts p) (retainAlertPresentation (hasAlerts p) t ?c))"
    using ev by (simp add: handle_alert_data_def Let_def pd del: length_response_frame)
  finally show ?thesis
    by (simp add: presentation_keeps clear_table_fields)
qed

theorem zero_row_empties_witness:
  "p_alertCount (snd (parse (Some (v1_frame 0xD8 True PACKET_ID_ALERT_DATA [0, 0, 0, 0, 0, 0, 0])) 3 1 False
     (new_parser\<lparr>p_alertCount := 2\<rparr>))) = 0"
  using zero_row_empties [of "[0, 0, 0, 0, 0, 0, 0]" True 3 1 False "new_parser\<lparr>p_alertCount := 2\<rparr>"]
  by simp

end
