(* ===== verification/V1_Request_Gates.thy ===== *)
theory V1_Request_Gates
  imports V1_Prelude
begin

text \<open>
  The two gates in front of requests to the detector: the ESP flow control on busy request
  ids (\<open>src/v1_request_flow_control.h\<close>) and the pacing of alert-data requests
  (\<open>src/ble_alert_request_gate.h\<close>). A \<open>std::bitset<256>\<close> is a set of request ids.
\<close>

section \<open>Flow control\<close>

record flow_control =
  fc_busy :: "u8 set"
  fc_rejected :: "u8 set"
  fc_releasedRetries :: "u8 set"
  fc_busySinceLastDisplay :: bool

definition fc_reset :: flow_control where
  "fc_reset = \<lparr> fc_busy = {}, fc_rejected = {}, fc_releasedRetries = {}, fc_busySinceLastDisplay = False \<rparr>"

text \<open>\<open>None\<close> is the null pointer: nothing is busy, but the busy report counts.\<close>

definition onBusy :: "u8 list option \<Rightarrow> flow_control \<Rightarrow> flow_control" where
  "onBusy packetIds f =
     f\<lparr>fc_busy := (case packetIds of None \<Rightarrow> {} | Some ids \<Rightarrow> set ids), fc_busySinceLastDisplay := True\<rparr>"

definition onRequestNotProcessed :: "u8 \<Rightarrow> flow_control \<Rightarrow> flow_control" where
  "onRequestNotProcessed i f =
     f\<lparr>fc_rejected := insert i (fc_rejected f), fc_releasedRetries := fc_releasedRetries f - {i}\<rparr>"

definition onDisplay :: "flow_control \<Rightarrow> flow_control" where
  "onDisplay f =
     (if fc_busySinceLastDisplay f then f\<lparr>fc_busySinceLastDisplay := False\<rparr>
      else f\<lparr>fc_busy := {}, fc_releasedRetries := fc_releasedRetries f \<union> fc_rejected f,
             fc_rejected := {}\<rparr>)"

definition fc_holds :: "flow_control \<Rightarrow> u8 \<Rightarrow> bool" where
  "fc_holds f i \<longleftrightarrow> i \<in> fc_busy f \<or> i \<in> fc_rejected f"

definition consumeReleasedRetry :: "u8 \<Rightarrow> flow_control \<Rightarrow> bool \<times> flow_control" where
  "consumeReleasedRetry i f =
     (if i \<notin> fc_releasedRetries f then (False, f)
      else (True, f\<lparr>fc_releasedRetries := fc_releasedRetries f - {i}\<rparr>))"

definition clearReleasedRetries :: "flow_control \<Rightarrow> flow_control" where
  "clearReleasedRetries f = f\<lparr>fc_releasedRetries := {}\<rparr>"

datatype fc_event =
    FcBusy "u8 list option" | FcNotProcessed u8 | FcDisplay | FcConsume u8 | FcClear | FcReset

fun fc_step :: "flow_control \<Rightarrow> fc_event \<Rightarrow> flow_control" where
  "fc_step f (FcBusy ids) = onBusy ids f"
| "fc_step f (FcNotProcessed i) = onRequestNotProcessed i f"
| "fc_step f FcDisplay = onDisplay f"
| "fc_step f (FcConsume i) = snd (consumeReleasedRetry i f)"
| "fc_step f FcClear = clearReleasedRetries f"
| "fc_step f FcReset = fc_reset"

lemmas fc_ops = onBusy_def onRequestNotProcessed_def onDisplay_def consumeReleasedRetry_def
  clearReleasedRetries_def fc_reset_def

text \<open>
  A request id is never both waiting for its release and already released, so a rejected
  request cannot be retried early.
\<close>

definition fc_inv :: "flow_control \<Rightarrow> bool" where
  "fc_inv f \<longleftrightarrow> fc_rejected f \<inter> fc_releasedRetries f = {}"

lemma fc_step_inv: "fc_inv f \<Longrightarrow> fc_inv (fc_step f e)"
  by (cases e) (auto simp: fc_inv_def fc_ops)

interpretation flow: event_machine fc_step fc_inv
  by unfold_locales (rule fc_step_inv)

text \<open>
  The protocol's own wording as a specification over the history, newest event first: the
  ids of the last busy report are owned by the detector until the second display after it.
\<close>

fun busy_spec :: "nat \<Rightarrow> fc_event list \<Rightarrow> u8 set" where
  "busy_spec displays [] = {}"
| "busy_spec displays (FcBusy ids # es) =
     (if displays < 2 then (case ids of None \<Rightarrow> {} | Some is \<Rightarrow> set is) else {})"
| "busy_spec displays (FcDisplay # es) = busy_spec (Suc displays) es"
| "busy_spec displays (FcReset # es) = {}"
| "busy_spec displays (e # es) = busy_spec displays es"

fun reported_spec :: "fc_event list \<Rightarrow> bool" where
  "reported_spec [] = False"
| "reported_spec (FcBusy ids # es) = True"
| "reported_spec (FcDisplay # es) = False"
| "reported_spec (FcReset # es) = False"
| "reported_spec (e # es) = reported_spec es"

text \<open>The ids rejected since the last display that released them.\<close>

fun rejected_spec :: "fc_event list \<Rightarrow> u8 set" where
  "rejected_spec [] = {}"
| "rejected_spec (FcNotProcessed i # es) = insert i (rejected_spec es)"
| "rejected_spec (FcDisplay # es) = (if reported_spec es then rejected_spec es else {})"
| "rejected_spec (FcReset # es) = {}"
| "rejected_spec (e # es) = rejected_spec es"

lemma busy_spec_gone: "2 \<le> n \<Longrightarrow> busy_spec n es = {}"
  by (induction n es rule: busy_spec.induct) simp_all

lemma busy_spec_one: "busy_spec (Suc 0) es = (if reported_spec es then busy_spec 0 es else {})"
  by (induction es rule: reported_spec.induct) (simp_all add: busy_spec_gone)

lemma flow_tracks:
  "let f = foldr (\<lambda>e f. fc_step f e) es fc_reset in
     fc_busy f = busy_spec 0 es \<and> fc_rejected f = rejected_spec es \<and>
     fc_busySinceLastDisplay f = reported_spec es"
proof (induction es)
  case Nil
  then show ?case by (simp add: fc_reset_def)
next
  case (Cons e es)
  then show ?case
    by (cases e) (auto simp: fc_ops Let_def busy_spec_one split: option.splits)
qed

text \<open>
  Claim C22. After any history the flow control holds exactly the ids of the last busy report
  within its two-display window and the ids rejected since the last releasing display.
\<close>

theorem flow_control_holds:
  "fc_holds (foldl fc_step fc_reset es) i \<longleftrightarrow>
     i \<in> busy_spec 0 (rev es) \<or> i \<in> rejected_spec (rev es)"
  using flow_tracks [of "rev es"] by (simp add: fc_holds_def Let_def foldr_conv_foldl)

text \<open>The retries a history grants to an id and the rejections it saw: one pending retry is saved.\<close>

definition grants_retry :: "u8 \<Rightarrow> flow_control \<Rightarrow> fc_event \<Rightarrow> nat" where
  "grants_retry i f e = (if e = FcConsume i \<and> fst (consumeReleasedRetry i f) then 1 else 0)"

definition rejects_id :: "u8 \<Rightarrow> flow_control \<Rightarrow> fc_event \<Rightarrow> nat" where
  "rejects_id i f e = (if e = FcNotProcessed i then 1 else 0)"

definition pending_retry :: "u8 \<Rightarrow> flow_control \<Rightarrow> nat" where
  "pending_retry i f = (if i \<in> fc_rejected f \<or> i \<in> fc_releasedRetries f then 1 else 0)"

interpretation retries: budget_machine fc_step fc_inv "pending_retry i" "grants_retry i" "rejects_id i" for i
proof
  fix f e
  assume "fc_inv f"
  then show "grants_retry i f e + pending_retry i (fc_step f e) \<le> pending_retry i f + rejects_id i f e"
    by (cases e) (auto simp: grants_retry_def rejects_id_def pending_retry_def fc_ops fc_inv_def)
qed

text \<open>A history grants at most one retry per rejection of a request id.\<close>

theorem retries_within_rejections:
  "total fc_step (grants_retry i) fc_reset es \<le> count_list es (FcNotProcessed i)"
  using retries.total_budget [of fc_reset i es]
  by (simp add: fc_inv_def fc_reset_def pending_retry_def rejects_id_def [abs_def] total_const)

section \<open>Pacing of alert-data requests\<close>

record alert_gate =
  ag_sessionGeneration :: u32
  ag_lastSuccessfulSendMs :: u32
  ag_stoppingPhoneGeneration :: u32
  ag_stopIngressBoundary :: u32
  ag_hasSuccessfulSend :: bool
  ag_stopped :: bool

definition new_gate :: alert_gate where
  "new_gate = \<lparr> ag_sessionGeneration = 0, ag_lastSuccessfulSendMs = 0, ag_stoppingPhoneGeneration = 0,
     ag_stopIngressBoundary = 0, ag_hasSuccessfulSend = False, ag_stopped = False \<rparr>"

definition ALERT_MIN_INTERVAL_MS :: u32 where "ALERT_MIN_INTERVAL_MS = 1000"

definition ag_hasSent :: "alert_gate \<Rightarrow> u32 \<Rightarrow> bool" where
  "ag_hasSent g session \<longleftrightarrow>
     ag_hasSuccessfulSend g \<and> \<not> ag_stopped g \<and> session = ag_sessionGeneration g"

definition ag_permits :: "alert_gate \<Rightarrow> u32 \<Rightarrow> u32 \<Rightarrow> bool" where
  "ag_permits g session nowMs \<longleftrightarrow>
     (if \<not> ag_hasSuccessfulSend g \<or> session \<noteq> ag_sessionGeneration g then True
      else elapsed_ms nowMs (ag_lastSuccessfulSendMs g) \<ge> ALERT_MIN_INTERVAL_MS)"

definition recordSuccessfulSend :: "u32 \<Rightarrow> u32 \<Rightarrow> alert_gate \<Rightarrow> alert_gate" where
  "recordSuccessfulSend session sentAtMs g =
     g\<lparr>ag_sessionGeneration := session, ag_lastSuccessfulSendMs := sentAtMs,
       ag_hasSuccessfulSend := True, ag_stopped := False, ag_stoppingPhoneGeneration := 0\<rparr>"

definition recordStop :: "u32 \<Rightarrow> u32 \<Rightarrow> u32 \<Rightarrow> alert_gate \<Rightarrow> alert_gate" where
  "recordStop session phone boundary g =
     (let g = (if session \<noteq> ag_sessionGeneration g
               then g\<lparr>ag_sessionGeneration := session, ag_hasSuccessfulSend := False\<rparr> else g)
      in g\<lparr>ag_stopped := True, ag_stoppingPhoneGeneration := phone, ag_stopIngressBoundary := boundary\<rparr>)"

definition ag_stoppedIn :: "alert_gate \<Rightarrow> u32 \<Rightarrow> bool" where
  "ag_stoppedIn g session \<longleftrightarrow> ag_stopped g \<and> session = ag_sessionGeneration g"

definition stoppedByPhone :: "alert_gate \<Rightarrow> u32 \<Rightarrow> u32 \<Rightarrow> bool" where
  "stoppedByPhone g session phone \<longleftrightarrow>
     phone \<noteq> 0 \<and> phone = ag_stoppingPhoneGeneration g \<and> ag_stoppedIn g session"

definition receivedAfterPhoneStop :: "alert_gate \<Rightarrow> u32 \<Rightarrow> u32 \<Rightarrow> u32 \<Rightarrow> bool" where
  "receivedAfterPhoneStop g session phone ingress \<longleftrightarrow>
     stoppedByPhone g session phone \<and> ingress \<noteq> 0 \<and> later_than ingress (ag_stopIngressBoundary g)"

definition ag_invalidate :: "u32 \<Rightarrow> alert_gate \<Rightarrow> alert_gate" where
  "ag_invalidate session g =
     (if ag_hasSent g session then g\<lparr>ag_hasSuccessfulSend := False\<rparr> else g)"

text \<open>
  The contract its two producers rely on: between two sends of a session that the gate
  permitted, with anything but an invalidation between them, lies the minimum interval.
\<close>

locale pacing_gate =
  fixes permits :: "'g \<Rightarrow> u32 \<Rightarrow> u32 \<Rightarrow> bool"
    and record_send :: "u32 \<Rightarrow> u32 \<Rightarrow> 'g \<Rightarrow> 'g"
    and sent_at :: "'g \<Rightarrow> (u32 \<times> u32) option"
    and other :: "'e \<Rightarrow> 'g \<Rightarrow> 'g"
    and keeps_history :: "u32 \<Rightarrow> 'e \<Rightarrow> bool"
    and interval :: u32
  assumes permits_after: "sent_at g = Some (s, t) \<Longrightarrow> permits g s now \<Longrightarrow> interval \<le> elapsed_ms now t"
    and permits_first: "sent_at g = None \<Longrightarrow> permits g s now"
    and sent_record: "sent_at (record_send s t g) = Some (s, t)"
    and sent_other: "sent_at g = Some (s, t) \<Longrightarrow> keeps_history s e \<Longrightarrow> sent_at (other e g) = Some (s, t)"
begin

lemma history_kept:
  "sent_at g = Some (s, t) \<Longrightarrow> list_all (keeps_history s) es \<Longrightarrow> sent_at (fold other es g) = Some (s, t)"
  by (induction es arbitrary: g) (simp_all add: sent_other)

lemma spaced_sends:
  assumes "list_all (keeps_history s) es" "permits (fold other es (record_send s t g)) s now"
  shows "interval \<le> elapsed_ms now t"
  using permits_after [OF history_kept [OF sent_record assms(1)] assms(2)] .

end

datatype gate_event = GateStop u32 u32 u32 | GateInvalidate u32

fun gate_other :: "gate_event \<Rightarrow> alert_gate \<Rightarrow> alert_gate" where
  "gate_other (GateStop s phone boundary) g = recordStop s phone boundary g"
| "gate_other (GateInvalidate s) g = ag_invalidate s g"

fun gate_keeps :: "u32 \<Rightarrow> gate_event \<Rightarrow> bool" where
  "gate_keeps s (GateStop s' phone boundary) = (s' = s)"
| "gate_keeps s (GateInvalidate s') = (s' \<noteq> s)"

definition gate_sent_at :: "alert_gate \<Rightarrow> (u32 \<times> u32) option" where
  "gate_sent_at g =
     (if ag_hasSuccessfulSend g then Some (ag_sessionGeneration g, ag_lastSuccessfulSendMs g) else None)"

interpretation alert_pacing: pacing_gate ag_permits recordSuccessfulSend gate_sent_at gate_other
    gate_keeps ALERT_MIN_INTERVAL_MS
proof unfold_locales
  fix g s t e
  assume "gate_sent_at g = Some (s, t)" "gate_keeps s e"
  then show "gate_sent_at (gate_other e g) = Some (s, t)"
    by (cases e) (auto simp: gate_sent_at_def recordStop_def ag_invalidate_def ag_hasSent_def
        Let_def split: if_splits)
qed (auto simp: gate_sent_at_def ag_permits_def recordSuccessfulSend_def split: if_splits)

text \<open>
  Two alert-data requests of one session that the gate permits are at least a second
  apart, also across a wrap of the clock and across stops of the stream in between.
\<close>

theorem alert_requests_spaced:
  assumes "list_all (gate_keeps s) es"
    and "ag_permits (fold gate_other es (recordSuccessfulSend s t g)) s (t + d)"
  shows "1000 \<le> d"
  using alert_pacing.spaced_sends [OF assms]
  by (simp add: ALERT_MIN_INTERVAL_MS_def elapsed_ms_def)

theorem alert_requests_spaced_witness:
  "ag_permits (fold gate_other [GateStop 7 2 30, GateInvalidate 6] (recordSuccessfulSend 7 0xFFFFFF00 new_gate))
     7 (0xFFFFFF00 + 1001) \<and> (1000 :: u32) \<le> 1001"
  using alert_requests_spaced [of 7 "[GateStop 7 2 30, GateInvalidate 6]" "0xFFFFFF00" new_gate 1001]
  by (simp add: new_gate_def recordSuccessfulSend_def recordStop_def ag_invalidate_def
      ag_hasSent_def ag_permits_def elapsed_ms_def ALERT_MIN_INTERVAL_MS_def)

text \<open>
  A frame counts as received after the phone's stop only when that phone stopped this
  session's stream last, no start was sent since, and the frame's ingress lies after the
  boundary recorded with the stop.
\<close>

theorem after_phone_stop:
  "(receivedAfterPhoneStop (recordStop s phone boundary g) s' phone' ingress \<longleftrightarrow>
     s' = s \<and> phone' = phone \<and> phone \<noteq> 0 \<and> ingress \<noteq> 0 \<and> later_than ingress boundary) \<and>
   \<not> receivedAfterPhoneStop (recordSuccessfulSend s t g) s' phone' ingress"
  by (auto simp: receivedAfterPhoneStop_def stoppedByPhone_def ag_stoppedIn_def recordStop_def
      recordSuccessfulSend_def Let_def)

end
