(* ===== verification/V1_Volume_Fade.thy ===== *)
theory V1_Volume_Fade
  imports V1_Prelude
begin

text \<open>
  The volume-fade owner (\<open>src/modules/volume_fade\<close>): after an alert has sounded for a
  while it lowers the detector's volume, and it owes the detector its old volume until a
  canonical observation shows that it is back. Volumes are bytes, \<open>0xFF\<close> meaning "none"; time
  is the 32-bit \<open>millis()\<close>. The settings manager is a parameter: \<open>None\<close> before \<open>begin\<close>,
  otherwise the three settings the module reads.
\<close>

section \<open>State, inputs and actions\<close>

record fade_settings =
  vs_enabled :: bool
  vs_delaySec :: u8
  vs_volume :: u8

record fade_context =
  vc_hasAlert :: bool
  vc_alertEpisodeEnded :: bool
  vc_alertMuted :: bool
  vc_alertSuppressed :: bool
  vc_currentVolume :: u8
  vc_currentMuteVolume :: u8
  vc_hasVolumeObservation :: bool
  vc_volumeObservationIngress :: u32
  vc_sessionGeneration :: u32
  vc_volumeOwnerChanged :: bool
  vc_restoreCommandInFlight :: bool
  vc_currentFrequency :: u16
  vc_priorityIsLaser :: bool
  vc_now :: u32

datatype fade_action =
    FadeNone
  | FadeDown u8 u8
  | FadeRestore u8 u8

definition MAX_FADE_SEEN_FREQS :: nat where "MAX_FADE_SEEN_FREQS = 15"
definition RESTORE_RETRY_MIN_INTERVAL_MS :: u32 where "RESTORE_RETRY_MIN_INTERVAL_MS = 75"
definition HINT_WINDOW_MS :: u32 where "HINT_WINDOW_MS = 1500"

record volume_fade =
  vf_alertStartMs :: u32
  vf_originalVolume :: u8
  vf_originalMuteVolume :: u8
  vf_fadeActive :: bool
  vf_commandSent :: bool
  vf_restoreLogEmitted :: bool
  vf_seenCount :: nat
  vf_seenLaser :: bool
  vf_seenFreqs :: "u16 list"
  vf_nextSeenFrequency :: nat
  vf_fadeTargetVolume :: u8
  vf_fadeTargetMuteVolume :: u8
  vf_volumeObservationKnown :: bool
  vf_volumeObservationSession :: u32
  vf_volumeObservationIngress :: u32
  vf_manualChoiceActive :: bool
  vf_manualChoiceFrequency :: u16
  vf_manualChoiceLaser :: bool
  vf_pendingRestoreVolume :: u8
  vf_pendingRestoreMuteVolume :: u8
  vf_lastRestoreAttemptMs :: u32
  vf_restoreSent :: bool
  vf_restoreSentSession :: u32
  vf_restoreSentIngress :: u32
  vf_hintBaselineVolume :: u8
  vf_hintBaselineMuteVolume :: u8
  vf_hintSetMs :: u32

definition new_fade :: volume_fade where
  "new_fade = \<lparr> vf_alertStartMs = 0, vf_originalVolume = 0xFF, vf_originalMuteVolume = 0,
     vf_fadeActive = False, vf_commandSent = False, vf_restoreLogEmitted = False, vf_seenCount = 0,
     vf_seenLaser = False, vf_seenFreqs = replicate MAX_FADE_SEEN_FREQS 0, vf_nextSeenFrequency = 0,
     vf_fadeTargetVolume = 0xFF, vf_fadeTargetMuteVolume = 0, vf_volumeObservationKnown = False,
     vf_volumeObservationSession = 0, vf_volumeObservationIngress = 0,
     vf_manualChoiceActive = False, vf_manualChoiceFrequency = 0, vf_manualChoiceLaser = False,
     vf_pendingRestoreVolume = 0xFF, vf_pendingRestoreMuteVolume = 0, vf_lastRestoreAttemptMs = 0,
     vf_restoreSent = False, vf_restoreSentSession = 0, vf_restoreSentIngress = 0,
     vf_hintBaselineVolume = 0xFF, vf_hintBaselineMuteVolume = 0, vf_hintSetMs = 0 \<rparr>"

section \<open>Resets and small operations\<close>

definition resetSessionState :: "volume_fade \<Rightarrow> volume_fade" where
  "resetSessionState v = v\<lparr>
     vf_alertStartMs := 0, vf_originalVolume := 0xFF, vf_originalMuteVolume := 0,
     vf_fadeActive := False, vf_commandSent := False, vf_restoreLogEmitted := False,
     vf_lastRestoreAttemptMs := 0, vf_seenCount := 0, vf_nextSeenFrequency := 0,
     vf_seenLaser := False, vf_fadeTargetVolume := 0xFF, vf_fadeTargetMuteVolume := 0,
     vf_volumeObservationKnown := False, vf_manualChoiceActive := False,
     vf_seenFreqs := replicate MAX_FADE_SEEN_FREQS 0\<rparr>"

definition fade_reset :: "volume_fade \<Rightarrow> volume_fade" where
  "fade_reset v = (resetSessionState v)\<lparr>
     vf_pendingRestoreVolume := 0xFF, vf_restoreSent := False, vf_pendingRestoreMuteVolume := 0,
     vf_lastRestoreAttemptMs := 0, vf_hintBaselineVolume := 0xFF, vf_hintBaselineMuteVolume := 0,
     vf_hintSetMs := 0\<rparr>"

definition rememberFrequency :: "u16 \<Rightarrow> volume_fade \<Rightarrow> volume_fade" where
  "rememberFrequency frequency v =
     (if frequency = 0 then v
      else if frequency \<in> set (take (vf_seenCount v) (vf_seenFreqs v)) then v
      else v\<lparr>vf_seenFreqs := (vf_seenFreqs v)[vf_nextSeenFrequency v := frequency],
             vf_nextSeenFrequency := (vf_nextSeenFrequency v + 1) mod MAX_FADE_SEEN_FREQS,
             vf_seenCount := (if vf_seenCount v < MAX_FADE_SEEN_FREQS then vf_seenCount v + 1
                              else vf_seenCount v)\<rparr>)"

definition setBaselineHint :: "u8 \<Rightarrow> u8 \<Rightarrow> u32 \<Rightarrow> volume_fade \<Rightarrow> volume_fade" where
  "setBaselineHint mainVol muteVol nowMs v =
     v\<lparr>vf_hintBaselineVolume := mainVol, vf_hintBaselineMuteVolume := muteVol, vf_hintSetMs := nowMs\<rparr>"

definition noteRestoreSent :: "u32 \<Rightarrow> u32 \<Rightarrow> volume_fade \<Rightarrow> volume_fade" where
  "noteRestoreSent session ingress v =
     (if vf_pendingRestoreVolume v = 0xFF then v
      else if \<not> vf_restoreSent v \<or> vf_restoreSentSession v \<noteq> session then
        v\<lparr>vf_restoreSent := True, vf_restoreSentSession := session, vf_restoreSentIngress := ingress\<rparr>
      else v)"

definition hasActiveVolumeOverride :: "volume_fade \<Rightarrow> bool" where
  "hasActiveVolumeOverride v \<longleftrightarrow> vf_originalVolume v \<noteq> 0xFF \<or> vf_pendingRestoreVolume v \<noteq> 0xFF"

definition releaseClearedAlert :: "volume_fade \<Rightarrow> fade_action \<times> volume_fade" where
  "releaseClearedAlert v =
     ((if vf_originalVolume v \<noteq> 0xFF \<and> (vf_fadeActive v \<or> vf_pendingRestoreVolume v \<noteq> 0xFF)
       then FadeRestore (vf_originalVolume v) (vf_originalMuteVolume v) else FadeNone),
      fade_reset v)"

section \<open>Ownership of the volume\<close>

definition adopt_choice :: "fade_context \<Rightarrow> volume_fade \<Rightarrow> volume_fade" where
  "adopt_choice ctx v = (fade_reset v)\<lparr>vf_manualChoiceActive := vc_hasAlert ctx,
     vf_manualChoiceFrequency := vc_currentFrequency ctx,
     vf_manualChoiceLaser := vc_priorityIsLaser ctx\<rparr>"

definition fresh_observation :: "fade_context \<Rightarrow> volume_fade \<Rightarrow> bool" where
  "fresh_observation ctx v \<longleftrightarrow>
     vc_hasVolumeObservation ctx \<and> vc_volumeObservationIngress ctx \<noteq> 0 \<and>
     (\<not> vf_volumeObservationKnown v \<or> vc_sessionGeneration ctx \<noteq> vf_volumeObservationSession v \<or>
      later_than (vc_volumeObservationIngress ctx) (vf_volumeObservationIngress v))"

definition at_pair :: "fade_context \<Rightarrow> u8 \<Rightarrow> u8 \<Rightarrow> bool" where
  "at_pair ctx mainVol muteVol \<longleftrightarrow>
     vc_currentVolume ctx = mainVol \<and> vc_currentMuteVolume ctx = muteVol"

definition observeVolumeOwnership :: "fade_context \<Rightarrow> volume_fade \<Rightarrow> bool \<times> volume_fade" where
  "observeVolumeOwnership ctx v =
     (if vc_volumeOwnerChanged ctx then (True, adopt_choice ctx v)
      else if fresh_observation ctx v then
        (if vf_originalVolume v \<noteq> 0xFF \<and>
            \<not> at_pair ctx (vf_originalVolume v) (vf_originalMuteVolume v) \<and>
            \<not> at_pair ctx (vf_fadeTargetVolume v) (vf_fadeTargetMuteVolume v)
         then (True, adopt_choice ctx v)
         else (False, v\<lparr>vf_volumeObservationKnown := True,
                 vf_volumeObservationSession := vc_sessionGeneration ctx,
                 vf_volumeObservationIngress := vc_volumeObservationIngress ctx\<rparr>))
      else (False, v))"

section \<open>The decision\<close>

definition fade_delay :: "fade_settings \<Rightarrow> u32" where
  "fade_delay s = ucast (vs_delaySec s) * 1000"

definition restore_confirmed :: "fade_context \<Rightarrow> volume_fade \<Rightarrow> bool" where
  "restore_confirmed ctx v \<longleftrightarrow>
     \<not> vc_restoreCommandInFlight ctx \<and> vf_restoreSent v \<and> vc_hasVolumeObservation ctx \<and>
     vc_sessionGeneration ctx = vf_restoreSentSession v \<and>
     later_than (vc_volumeObservationIngress ctx) (vf_restoreSentIngress v) \<and>
     at_pair ctx (vf_pendingRestoreVolume v) (vf_pendingRestoreMuteVolume v)"

definition confirm_restore :: "fade_settings \<Rightarrow> fade_context \<Rightarrow> volume_fade \<Rightarrow> volume_fade" where
  "confirm_restore s ctx v =
     (if vf_pendingRestoreVolume v \<noteq> 0xFF \<and> restore_confirmed ctx v then
        v\<lparr>vf_pendingRestoreVolume := 0xFF, vf_restoreSent := False, vf_pendingRestoreMuteVolume := 0,
          vf_fadeActive := False,
          vf_alertStartMs := (if vc_hasAlert ctx \<and> vc_now ctx - vf_alertStartMs v \<ge> fade_delay s
                              then vc_now ctx else vf_alertStartMs v)\<rparr>
      else v)"

definition expire_hint :: "fade_context \<Rightarrow> volume_fade \<Rightarrow> volume_fade" where
  "expire_hint ctx v =
     (if vf_hintBaselineVolume v \<noteq> 0xFF \<and>
         (at_pair ctx (vf_hintBaselineVolume v) (vf_hintBaselineMuteVolume v) \<or>
          vc_now ctx - vf_hintSetMs v > HINT_WINDOW_MS)
      then v\<lparr>vf_hintBaselineVolume := 0xFF, vf_hintBaselineMuteVolume := 0, vf_hintSetMs := 0\<rparr>
      else v)"

text \<open>
  The restore attempt of the two releasing branches (no alert, or muted or suppressed): held
  back within the retry interval, else it is attempted and owed.
\<close>

definition attempt_restore :: "fade_context \<Rightarrow> volume_fade \<Rightarrow> fade_action \<times> volume_fade" where
  "attempt_restore ctx v =
     (if \<not> (vf_lastRestoreAttemptMs v = 0 \<or>
            vc_now ctx - vf_lastRestoreAttemptMs v \<ge> RESTORE_RETRY_MIN_INTERVAL_MS)
      then (FadeNone, v)
      else
        let v = v\<lparr>vf_lastRestoreAttemptMs := vc_now ctx\<rparr>;
            v = (if vf_pendingRestoreVolume v = 0xFF
                 then v\<lparr>vf_restoreSent := False, vf_pendingRestoreVolume := vf_originalVolume v,
                        vf_pendingRestoreMuteVolume := vf_originalMuteVolume v\<rparr>
                 else v);
            v = v\<lparr>vf_restoreLogEmitted := True\<rparr>
        in (FadeRestore (vf_originalVolume v) (vf_originalMuteVolume v), v))"

definition release_no_alert :: "fade_context \<Rightarrow> volume_fade \<Rightarrow> fade_action \<times> volume_fade" where
  "release_no_alert ctx v =
     (let restoreInFlight = (vf_pendingRestoreVolume v \<noteq> 0xFF);
          firstRestoreAttempt = (vf_fadeActive v \<and> \<not> restoreInFlight)
      in if vf_originalVolume v \<noteq> 0xFF \<and> (firstRestoreAttempt \<or> restoreInFlight)
         then attempt_restore ctx v else (FadeNone, resetSessionState v))"

definition release_muted :: "fade_context \<Rightarrow> volume_fade \<Rightarrow> fade_action \<times> volume_fade" where
  "release_muted ctx v =
     (let restoreInFlight = (vf_pendingRestoreVolume v \<noteq> 0xFF);
          firstRestoreAttempt = (\<not> restoreInFlight \<and>
            \<not> at_pair ctx (vf_originalVolume v) (vf_originalMuteVolume v))
      in if vf_originalVolume v \<noteq> 0xFF \<and> (firstRestoreAttempt \<or> restoreInFlight)
         then attempt_restore ctx v else (FadeNone, resetSessionState v))"

text \<open>A clear and a reappearance within one pass start a new delay.\<close>

definition end_episode :: "fade_context \<Rightarrow> volume_fade \<Rightarrow> volume_fade" where
  "end_episode ctx v =
     (if vc_alertEpisodeEnded ctx then
        let v = (if \<not> vf_fadeActive v \<and> vf_pendingRestoreVolume v = 0xFF then resetSessionState v else v)
        in v\<lparr>vf_seenCount := 0, vf_nextSeenFrequency := 0, vf_seenLaser := False\<rparr>
      else v)"

definition is_new_frequency :: "fade_context \<Rightarrow> volume_fade \<Rightarrow> bool" where
  "is_new_frequency ctx v \<longleftrightarrow>
     vc_currentFrequency ctx \<noteq> 0 \<and>
     vc_currentFrequency ctx \<notin> set (take (vf_seenCount v) (vf_seenFreqs v))"

definition is_new_laser :: "fade_context \<Rightarrow> volume_fade \<Rightarrow> bool" where
  "is_new_laser ctx v \<longleftrightarrow> vc_priorityIsLaser ctx \<and> \<not> vf_seenLaser v"

text \<open>A new distinct threat releases the fade (Valentine's Law).\<close>

definition release_new_threat :: "fade_context \<Rightarrow> volume_fade \<Rightarrow> fade_action \<times> volume_fade" where
  "release_new_threat ctx v =
     (let newFrequency = is_new_frequency ctx v; newLaser = is_new_laser ctx v;
          (action, v) =
            (if vf_originalVolume v \<noteq> 0xFF then
               (FadeRestore (vf_originalVolume v) (vf_originalMuteVolume v),
                v\<lparr>vf_restoreSent := (if vf_pendingRestoreVolume v = 0xFF then False else vf_restoreSent v),
                  vf_pendingRestoreVolume := vf_originalVolume v,
                  vf_pendingRestoreMuteVolume := vf_originalMuteVolume v,
                  vf_lastRestoreAttemptMs := vc_now ctx\<rparr>)
             else (FadeNone, v));
          v = v\<lparr>vf_alertStartMs := vc_now ctx, vf_fadeActive := False, vf_commandSent := False\<rparr>;
          v = (if newFrequency then rememberFrequency (vc_currentFrequency ctx) v else v);
          v = (if newLaser then v\<lparr>vf_seenLaser := True\<rparr> else v)
      in (action, v))"

definition service_restore :: "fade_context \<Rightarrow> volume_fade \<Rightarrow> fade_action \<times> volume_fade" where
  "service_restore ctx v =
     (if vc_now ctx - vf_lastRestoreAttemptMs v \<ge> RESTORE_RETRY_MIN_INTERVAL_MS
      then (FadeRestore (vf_pendingRestoreVolume v) (vf_pendingRestoreMuteVolume v),
            v\<lparr>vf_lastRestoreAttemptMs := vc_now ctx\<rparr>)
      else (FadeNone, v))"

definition capture_baseline :: "fade_context \<Rightarrow> volume_fade \<Rightarrow> volume_fade" where
  "capture_baseline ctx v =
     (if vf_alertStartMs v = 0 then
        let v = v\<lparr>vf_alertStartMs := vc_now ctx\<rparr>;
            v = (if vf_hintBaselineVolume v \<noteq> 0xFF \<and> vc_currentVolume ctx < vf_hintBaselineVolume v
                 then v\<lparr>vf_originalVolume := vf_hintBaselineVolume v,
                        vf_originalMuteVolume := vf_hintBaselineMuteVolume v,
                        vf_hintBaselineVolume := 0xFF, vf_hintBaselineMuteVolume := 0,
                        vf_hintSetMs := 0\<rparr>
                 else v\<lparr>vf_originalVolume := vc_currentVolume ctx,
                        vf_originalMuteVolume := vc_currentMuteVolume ctx\<rparr>);
            v = v\<lparr>vf_fadeActive := False, vf_commandSent := False, vf_seenCount := 0,
                  vf_nextSeenFrequency := 0, vf_seenLaser := vc_priorityIsLaser ctx\<rparr>
        in rememberFrequency (vc_currentFrequency ctx) v
      else v)"

definition fade_down :: "fade_settings \<Rightarrow> fade_context \<Rightarrow> volume_fade \<Rightarrow> fade_action \<times> volume_fade" where
  "fade_down s ctx v =
     (if \<not> vf_commandSent v \<and> vc_now ctx - vf_alertStartMs v \<ge> fade_delay s then
        let fadeVol = max 1 (vs_volume s);
            (action, v) =
              (if vc_currentVolume ctx > fadeVol then
                 let v = v\<lparr>vf_fadeTargetVolume := fadeVol,
                           vf_fadeTargetMuteVolume := vf_originalMuteVolume v\<rparr>;
                     v = rememberFrequency (vc_currentFrequency ctx) v;
                     v = (if vc_priorityIsLaser ctx then v\<lparr>vf_seenLaser := True\<rparr> else v)
                 in (FadeDown fadeVol (vf_originalMuteVolume v), v\<lparr>vf_fadeActive := True\<rparr>)
               else (FadeNone, v))
        in (action, v\<lparr>vf_commandSent := True\<rparr>)
      else (FadeNone, v))"

text \<open>The part of \<open>process\<close> after ownership, manual choice and confirmation are settled.\<close>

definition decide :: "fade_settings \<Rightarrow> fade_context \<Rightarrow> volume_fade \<Rightarrow> fade_action \<times> volume_fade" where
  "decide s ctx v =
     (if \<not> vs_enabled s then (FadeNone, fade_reset v)
      else if \<not> vc_hasAlert ctx then release_no_alert ctx v
      else if (vc_alertMuted ctx \<and> \<not> vf_fadeActive v) \<or> vc_alertSuppressed ctx then release_muted ctx v
      else
        let v = end_episode ctx v in
        if (vf_fadeActive v \<or> vf_pendingRestoreVolume v \<noteq> 0xFF) \<and>
           (is_new_frequency ctx v \<or> is_new_laser ctx v \<or> vc_alertEpisodeEnded ctx)
        then release_new_threat ctx v
        else if vf_pendingRestoreVolume v \<noteq> 0xFF then service_restore ctx v
        else fade_down s ctx (capture_baseline ctx v))"

definition same_choice :: "fade_context \<Rightarrow> volume_fade \<Rightarrow> bool" where
  "same_choice ctx v \<longleftrightarrow>
     vc_hasAlert ctx \<and> \<not> vc_alertEpisodeEnded ctx \<and>
     vc_currentFrequency ctx = vf_manualChoiceFrequency v \<and>
     vc_priorityIsLaser ctx = vf_manualChoiceLaser v"

definition fade_process ::
    "fade_settings option \<Rightarrow> fade_context \<Rightarrow> volume_fade \<Rightarrow> fade_action \<times> volume_fade" where
  "fade_process settings ctx v =
     (case settings of None \<Rightarrow> (FadeNone, v)
      | Some s \<Rightarrow>
          let (changed, v) = observeVolumeOwnership ctx v in
          if changed then (FadeNone, v)
          else if vf_manualChoiceActive v \<and> same_choice ctx v then (FadeNone, v)
          else
            let v = (if vf_manualChoiceActive v then fade_reset v else v)
            in decide s ctx (expire_hint ctx (confirm_restore s ctx v)))"

lemmas fade_ops = resetSessionState_def fade_reset_def rememberFrequency_def setBaselineHint_def
  noteRestoreSent_def releaseClearedAlert_def adopt_choice_def observeVolumeOwnership_def
  confirm_restore_def expire_hint_def attempt_restore_def release_no_alert_def release_muted_def
  end_episode_def release_new_threat_def service_restore_def capture_baseline_def fade_down_def

end
