(* ===== verification/V1_Volume_Fade_Owner.thy ===== *)
theory V1_Volume_Fade_Owner
  imports V1_Volume_Fade
begin

text \<open>
  What the volume-fade owner guarantees: a reduction never silences the detector, a
  restoration always carries the captured baseline, and a baseline that was reduced stays
  owed until it is confirmed or the volume has another owner.
\<close>

section \<open>Histories\<close>

datatype fade_event =
    FadeProcess "fade_settings option" fade_context
  | FadeObserve fade_context
  | FadeRelease
  | FadeNoteSent u32 u32
  | FadeHint u8 u8 u32
  | FadeReset

fun fade_step :: "volume_fade \<Rightarrow> fade_event \<Rightarrow> volume_fade" where
  "fade_step v (FadeProcess s ctx) = snd (fade_process s ctx v)"
| "fade_step v (FadeObserve ctx) = snd (observeVolumeOwnership ctx v)"
| "fade_step v FadeRelease = snd (releaseClearedAlert v)"
| "fade_step v (FadeNoteSent session ingress) = noteRestoreSent session ingress v"
| "fade_step v (FadeHint m mu t) = setBaselineHint m mu t v"
| "fade_step v FadeReset = fade_reset v"

text \<open>
  The settings store keeps the delay within 1 to 10 seconds, and the detector's volumes are
  0 to 9: neither a zero delay nor the reserved byte reaches the owner.
\<close>

definition fade_input_ok :: "fade_settings option \<Rightarrow> fade_context \<Rightarrow> bool" where
  "fade_input_ok settings ctx \<longleftrightarrow>
     vc_currentVolume ctx \<le> 9 \<and>
     (case settings of None \<Rightarrow> True | Some s \<Rightarrow> 1 \<le> vs_delaySec s \<and> vs_delaySec s \<le> 10)"

fun fade_event_ok :: "fade_event \<Rightarrow> bool" where
  "fade_event_ok (FadeProcess s ctx) = fade_input_ok s ctx"
| "fade_event_ok _ = True"

section \<open>The invariant\<close>

definition seen_inv :: "volume_fade \<Rightarrow> bool" where
  "seen_inv v \<longleftrightarrow> length (vf_seenFreqs v) = MAX_FADE_SEEN_FREQS \<and>
     vf_seenCount v \<le> MAX_FADE_SEEN_FREQS \<and> vf_nextSeenFrequency v < MAX_FADE_SEEN_FREQS"

definition baseline_inv :: "volume_fade \<Rightarrow> bool" where
  "baseline_inv v \<longleftrightarrow>
     (vf_pendingRestoreVolume v \<noteq> 0xFF \<longrightarrow>
        vf_pendingRestoreVolume v = vf_originalVolume v \<and>
        vf_pendingRestoreMuteVolume v = vf_originalMuteVolume v) \<and>
     (vf_fadeActive v \<longrightarrow> vf_alertStartMs v \<noteq> 0) \<and>
     (vf_alertStartMs v \<noteq> 0 \<longrightarrow> vf_originalVolume v \<noteq> 0xFF) \<and>
     (vf_manualChoiceActive v \<longrightarrow> \<not> vf_fadeActive v \<and> vf_originalVolume v = 0xFF)"

definition fade_inv :: "volume_fade \<Rightarrow> bool" where
  "fade_inv v \<longleftrightarrow> seen_inv v \<and> baseline_inv v"

lemma seen_reset [simp]: "seen_inv (resetSessionState v)" "seen_inv (fade_reset v)"
  by (simp_all add: seen_inv_def resetSessionState_def fade_reset_def MAX_FADE_SEEN_FREQS_def)

lemma seen_other_fields [simp]:
  "seen_inv (v\<lparr>vf_alertStartMs := x0\<rparr>) = seen_inv v"
  "seen_inv (v\<lparr>vf_originalVolume := x1\<rparr>) = seen_inv v"
  "seen_inv (v\<lparr>vf_originalMuteVolume := x2\<rparr>) = seen_inv v"
  "seen_inv (v\<lparr>vf_fadeActive := x3\<rparr>) = seen_inv v"
  "seen_inv (v\<lparr>vf_commandSent := x4\<rparr>) = seen_inv v"
  "seen_inv (v\<lparr>vf_restoreLogEmitted := x5\<rparr>) = seen_inv v"
  "seen_inv (v\<lparr>vf_seenLaser := x6\<rparr>) = seen_inv v"
  "seen_inv (v\<lparr>vf_fadeTargetVolume := x7\<rparr>) = seen_inv v"
  "seen_inv (v\<lparr>vf_fadeTargetMuteVolume := x8\<rparr>) = seen_inv v"
  "seen_inv (v\<lparr>vf_volumeObservationKnown := x9\<rparr>) = seen_inv v"
  "seen_inv (v\<lparr>vf_volumeObservationSession := x10\<rparr>) = seen_inv v"
  "seen_inv (v\<lparr>vf_volumeObservationIngress := x11\<rparr>) = seen_inv v"
  "seen_inv (v\<lparr>vf_manualChoiceActive := x12\<rparr>) = seen_inv v"
  "seen_inv (v\<lparr>vf_pendingRestoreVolume := x13\<rparr>) = seen_inv v"
  "seen_inv (v\<lparr>vf_pendingRestoreMuteVolume := x14\<rparr>) = seen_inv v"
  "seen_inv (v\<lparr>vf_lastRestoreAttemptMs := x15\<rparr>) = seen_inv v"
  "seen_inv (v\<lparr>vf_restoreSent := x16\<rparr>) = seen_inv v"
  "seen_inv (v\<lparr>vf_hintBaselineVolume := x17\<rparr>) = seen_inv v"
  "seen_inv (v\<lparr>vf_hintBaselineMuteVolume := x18\<rparr>) = seen_inv v"
  "seen_inv (v\<lparr>vf_hintSetMs := x19\<rparr>) = seen_inv v"
  "seen_inv (v\<lparr>vf_restoreSentSession := x20\<rparr>) = seen_inv v"
  "seen_inv (v\<lparr>vf_restoreSentIngress := x21\<rparr>) = seen_inv v"
  by (simp_all add: seen_inv_def)

lemma seen_remember: "seen_inv v \<Longrightarrow> seen_inv (rememberFrequency f v)"
  by (auto simp: seen_inv_def rememberFrequency_def MAX_FADE_SEEN_FREQS_def)

lemma remember_fields [simp]:
  "vf_pendingRestoreVolume (rememberFrequency f v) = vf_pendingRestoreVolume v"
  "vf_pendingRestoreMuteVolume (rememberFrequency f v) = vf_pendingRestoreMuteVolume v"
  "vf_originalVolume (rememberFrequency f v) = vf_originalVolume v"
  "vf_originalMuteVolume (rememberFrequency f v) = vf_originalMuteVolume v"
  "vf_fadeActive (rememberFrequency f v) = vf_fadeActive v"
  "vf_alertStartMs (rememberFrequency f v) = vf_alertStartMs v"
  "vf_manualChoiceActive (rememberFrequency f v) = vf_manualChoiceActive v"
  "vf_commandSent (rememberFrequency f v) = vf_commandSent v"
  "vf_fadeTargetVolume (rememberFrequency f v) = vf_fadeTargetVolume v"
  "vf_fadeTargetMuteVolume (rememberFrequency f v) = vf_fadeTargetMuteVolume v"
  by (simp_all add: rememberFrequency_def)

lemma baseline_remember [simp]: "baseline_inv (rememberFrequency f v) = baseline_inv v"
  by (simp add: baseline_inv_def)

lemma inv_fade_reset [simp]: "fade_inv (fade_reset v)" "fade_inv (adopt_choice ctx v)"
  by (simp_all add: fade_inv_def baseline_inv_def)
    (simp_all add: fade_reset_def resetSessionState_def adopt_choice_def seen_inv_def
      MAX_FADE_SEEN_FREQS_def)

text \<open>A session reset keeps a pending restoration only if there is none.\<close>

lemma inv_reset_session: "vf_pendingRestoreVolume v = 0xFF \<Longrightarrow> fade_inv (resetSessionState v)"
  by (simp add: fade_inv_def baseline_inv_def) (simp add: resetSessionState_def)

lemma inv_observe: "fade_inv v \<Longrightarrow> fade_inv (snd (observeVolumeOwnership ctx v))"
  by (auto simp: observeVolumeOwnership_def) (auto simp: fade_inv_def baseline_inv_def)

lemma inv_confirm:
  "fade_inv v \<Longrightarrow> fade_inv (confirm_restore s ctx v)"
  by (auto simp: confirm_restore_def fade_inv_def baseline_inv_def)

lemma inv_expire: "fade_inv v \<Longrightarrow> fade_inv (expire_hint ctx v)"
  by (simp add: expire_hint_def fade_inv_def baseline_inv_def)

lemma inv_attempt: "fade_inv v \<Longrightarrow> fade_inv (snd (attempt_restore ctx v))"
  by (auto simp: attempt_restore_def fade_inv_def baseline_inv_def Let_def)

lemma inv_release_no_alert: "fade_inv v \<Longrightarrow> fade_inv (snd (release_no_alert ctx v))"
  by (auto simp: release_no_alert_def Let_def inv_attempt fade_inv_def [of v] baseline_inv_def
      intro: inv_reset_session)

lemma inv_release_muted: "fade_inv v \<Longrightarrow> fade_inv (snd (release_muted ctx v))"
  by (auto simp: release_muted_def Let_def inv_attempt fade_inv_def [of v] baseline_inv_def
      intro: inv_reset_session)

lemma inv_seen_cleared:
  "fade_inv v \<Longrightarrow> fade_inv (v\<lparr>vf_seenCount := 0, vf_nextSeenFrequency := 0, vf_seenLaser := b\<rparr>)"
  by (simp add: fade_inv_def seen_inv_def baseline_inv_def MAX_FADE_SEEN_FREQS_def)

lemma inv_end_episode: "fade_inv v \<Longrightarrow> fade_inv (end_episode ctx v)"
  by (auto simp: end_episode_def Let_def intro!: inv_seen_cleared inv_reset_session)

text \<open>A manual choice is over before the decision is taken.\<close>

lemma inv_release_new_threat:
  "fade_inv v \<Longrightarrow> \<not> vf_manualChoiceActive v \<Longrightarrow> vf_originalVolume v \<noteq> 0xFF \<Longrightarrow>
   fade_inv (snd (release_new_threat ctx v))"
  by (auto simp: release_new_threat_def Let_def fade_inv_def baseline_inv_def intro!: seen_remember)

lemma inv_service: "fade_inv v \<Longrightarrow> fade_inv (snd (service_restore ctx v))"
  by (simp add: service_restore_def fade_inv_def baseline_inv_def)

lemma inv_capture:
  assumes "fade_inv v" "\<not> vf_manualChoiceActive v" "vf_pendingRestoreVolume v = 0xFF"
    and "vc_currentVolume ctx \<le> 9"
  shows "fade_inv (capture_baseline ctx v)"
proof -
  have "vc_currentVolume ctx \<noteq> 0xFF" using assms(4) by auto
  with assms(1-3) show ?thesis
    by (auto simp: capture_baseline_def Let_def fade_inv_def baseline_inv_def intro!: seen_remember)
      (simp_all add: seen_inv_def MAX_FADE_SEEN_FREQS_def)
qed

lemma fade_delay_pos: "1 \<le> vs_delaySec s \<Longrightarrow> vs_delaySec s \<le> 10 \<Longrightarrow> 0 < fade_delay s"
proof -
  assume d: "1 \<le> vs_delaySec s" "vs_delaySec s \<le> 10"
  define n where "n = unat (vs_delaySec s)"
  have "1 \<le> n" "n \<le> 10" using d by (simp_all add: n_def word_le_nat_alt)
  then have "n \<in> set [1,2,3,4,5,6,7,8,9,10]" by simp presburger
  moreover have "vs_delaySec s = word_of_nat n" by (simp add: n_def)
  ultimately show ?thesis by (simp, elim disjE) (simp_all add: fade_delay_def)
qed

lemma inv_fade_down:
  assumes "fade_inv v" "\<not> vf_manualChoiceActive v" "0 < fade_delay s"
    and "vf_alertStartMs v = 0 \<Longrightarrow> vc_now ctx = 0"
  shows "fade_inv (snd (fade_down s ctx v))"
proof (cases "vf_alertStartMs v = 0")
  case True
  with assms(3,4) have "\<not> vc_now ctx - vf_alertStartMs v \<ge> fade_delay s" by (simp add: not_le)
  with assms(1) show ?thesis by (simp add: fade_down_def)
next
  case False
  with assms(1,2) show ?thesis
    by (auto simp: fade_down_def Let_def fade_inv_def baseline_inv_def intro!: seen_remember)
qed

lemma end_episode_fields [simp]:
  "vf_pendingRestoreVolume (end_episode ctx v) = vf_pendingRestoreVolume v"
  "\<not> vf_manualChoiceActive v \<Longrightarrow> \<not> vf_manualChoiceActive (end_episode ctx v)"
  "vf_fadeActive (end_episode ctx v) = vf_fadeActive v"
  by (auto simp: end_episode_def Let_def resetSessionState_def)

lemma capture_fields [simp]:
  "\<not> vf_manualChoiceActive v \<Longrightarrow> \<not> vf_manualChoiceActive (capture_baseline ctx v)"
  "vf_alertStartMs (capture_baseline ctx v) = (if vf_alertStartMs v = 0 then vc_now ctx else vf_alertStartMs v)"
  by (auto simp: capture_baseline_def Let_def)

lemma inv_decide:
  assumes inv: "fade_inv v" "\<not> vf_manualChoiceActive v" and ok: "fade_input_ok (Some s) ctx"
  shows "fade_inv (snd (decide s ctx v))"
proof -
  let ?e = "end_episode ctx v"
  have e: "fade_inv ?e" "\<not> vf_manualChoiceActive ?e" using inv by (simp_all add: inv_end_episode)
  have vol: "vc_currentVolume ctx \<le> 9" and pos: "0 < fade_delay s"
    using ok by (auto simp: fade_input_ok_def intro: fade_delay_pos)
  have owed: "vf_originalVolume ?e \<noteq> 0xFF" if "vf_fadeActive ?e \<or> vf_pendingRestoreVolume ?e \<noteq> 0xFF"
    using e(1) that by (auto simp: fade_inv_def baseline_inv_def)
  have "fade_inv (snd (fade_down s ctx (capture_baseline ctx ?e)))" if "vf_pendingRestoreVolume ?e = 0xFF"
    using that e vol pos by (intro inv_fade_down inv_capture) (auto split: if_splits)
  with inv e owed show ?thesis
    by (auto simp: decide_def Let_def inv_release_no_alert inv_release_muted
        inv_release_new_threat inv_service)
qed

lemma manual_after:
  "vf_manualChoiceActive (expire_hint ctx (confirm_restore s ctx v)) = vf_manualChoiceActive v"
  by (simp add: expire_hint_def confirm_restore_def)

lemma manual_reset: "\<not> vf_manualChoiceActive (fade_reset v)"
  by (simp add: fade_reset_def resetSessionState_def)

lemma inv_process:
  "fade_inv v \<Longrightarrow> fade_input_ok settings ctx \<Longrightarrow> fade_inv (snd (fade_process settings ctx v))"
  by (auto simp: fade_process_def Let_def case_prod_unfold manual_after manual_reset
      split: option.split intro!: inv_observe inv_decide inv_expire inv_confirm)

lemma inv_small_ops:
  "fade_inv v \<Longrightarrow> fade_inv (noteRestoreSent g t v)"
  "fade_inv v \<Longrightarrow> fade_inv (setBaselineHint m mu t v)"
  by (auto simp: noteRestoreSent_def setBaselineHint_def fade_inv_def baseline_inv_def)

lemma fade_step_inv: "fade_inv v \<Longrightarrow> fade_event_ok e \<Longrightarrow> fade_inv (fade_step v e)"
  by (cases e) (simp_all add: inv_process inv_observe inv_small_ops releaseClearedAlert_def)

interpretation volume_owner: guarded_machine fade_step fade_inv fade_event_ok
  by unfold_locales (rule fade_step_inv)

lemma new_fade_inv: "fade_inv new_fade"
  by (simp add: fade_inv_def seen_inv_def baseline_inv_def new_fade_def MAX_FADE_SEEN_FREQS_def)

text \<open>
  Claim C36. After any history of admissible inputs the owner's state is consistent: an owed
  restoration is the captured baseline, a fade has a baseline and a running delay, and a
  manual choice holds no fade.
\<close>

theorem fade_history_invariant:
  "list_all fade_event_ok es \<Longrightarrow> fade_inv (foldl fade_step new_fade es)"
  by (rule volume_owner.guarded_run [OF new_fade_inv])

section \<open>Reductions\<close>

lemma attempt_not_down: "fst (attempt_restore ctx v) \<noteq> FadeDown a m"
  by (simp add: attempt_restore_def Let_def)

lemma others_not_down:
  "fst (release_no_alert ctx v) \<noteq> FadeDown a m" "fst (release_muted ctx v) \<noteq> FadeDown a m"
  "fst (release_new_threat ctx v) \<noteq> FadeDown a m" "fst (service_restore ctx v) \<noteq> FadeDown a m"
  by (simp_all add: release_no_alert_def release_muted_def release_new_threat_def
      service_restore_def attempt_not_down Let_def case_prod_unfold)

lemma fade_down_action:
  assumes "fst (fade_down s ctx v) = FadeDown a m"
  shows "a = max 1 (vs_volume s) \<and> a < vc_currentVolume ctx \<and> m = vf_originalMuteVolume v \<and>
    vc_now ctx - vf_alertStartMs v \<ge> fade_delay s \<and> vf_fadeActive (snd (fade_down s ctx v)) \<and>
    vf_originalMuteVolume (snd (fade_down s ctx v)) = vf_originalMuteVolume v \<and>
    vf_alertStartMs (snd (fade_down s ctx v)) = vf_alertStartMs v"
  using assms by (auto simp: fade_down_def Let_def split: if_splits)

text \<open>One pass, as the choice between leaving the volume alone and taking a decision.\<close>

definition decision_state :: "fade_settings \<Rightarrow> fade_context \<Rightarrow> volume_fade \<Rightarrow> volume_fade" where
  "decision_state s ctx v = expire_hint ctx (confirm_restore s ctx
     (if vf_manualChoiceActive v then fade_reset v else v))"

lemma fade_process_decides:
  "fade_process (Some s) ctx v =
     (let (changed, u) = observeVolumeOwnership ctx v in
      if changed \<or> vf_manualChoiceActive u \<and> same_choice ctx u then (FadeNone, u)
      else decide s ctx (decision_state s ctx u))"
  by (auto simp: fade_process_def decision_state_def Let_def case_prod_unfold)

lemma fade_process_acts:
  assumes "fst (fade_process (Some s) ctx v) \<noteq> FadeNone"
  defines "u \<equiv> snd (observeVolumeOwnership ctx v)"
  shows "\<not> fst (observeVolumeOwnership ctx v)"
    "fade_process (Some s) ctx v = decide s ctx (decision_state s ctx u)"
  using assms by (auto simp: fade_process_decides Let_def case_prod_unfold split: if_splits)

text \<open>An active fade has had its one command, so it takes no second one.\<close>

definition fade_sent :: "volume_fade \<Rightarrow> bool" where
  "fade_sent v \<longleftrightarrow> (vf_fadeActive v \<longrightarrow> vf_commandSent v)"

lemma sent_reset [simp]: "fade_sent (resetSessionState v)" "fade_sent (fade_reset v)" "fade_sent (adopt_choice ctx v)"
  by (simp_all add: fade_sent_def resetSessionState_def fade_reset_def adopt_choice_def)

lemma sent_restores:
  "fade_sent v \<Longrightarrow> fade_sent (snd (release_no_alert ctx v))" "fade_sent v \<Longrightarrow> fade_sent (snd (release_muted ctx v))"
  "fade_sent (snd (release_new_threat ctx v))" "fade_sent v \<Longrightarrow> fade_sent (snd (service_restore ctx v))"
proof -
  have "fade_sent v \<Longrightarrow> fade_sent (snd (attempt_restore ctx v))" by (simp add: attempt_restore_def fade_sent_def Let_def)
  then show "fade_sent v \<Longrightarrow> fade_sent (snd (release_no_alert ctx v))" "fade_sent v \<Longrightarrow> fade_sent (snd (release_muted ctx v))"
    by (simp_all add: release_no_alert_def release_muted_def Let_def)
  show "fade_sent (snd (release_new_threat ctx v))" by (simp add: release_new_threat_def fade_sent_def Let_def)
  show "fade_sent v \<Longrightarrow> fade_sent (snd (service_restore ctx v))" by (simp add: service_restore_def fade_sent_def)
qed

lemma sent_steps:
  "fade_sent v \<Longrightarrow> fade_sent (snd (observeVolumeOwnership ctx v))" "fade_sent v \<Longrightarrow> fade_sent (confirm_restore s ctx v)"
  "fade_sent v \<Longrightarrow> fade_sent (expire_hint ctx v)" "fade_sent v \<Longrightarrow> fade_sent (end_episode ctx v)"
  "fade_sent v \<Longrightarrow> fade_sent (capture_baseline ctx v)" "fade_sent v \<Longrightarrow> fade_sent (snd (fade_down s ctx v))"
proof -
  show "fade_sent v \<Longrightarrow> fade_sent (snd (observeVolumeOwnership ctx v))"
    by (auto simp: observeVolumeOwnership_def) (simp_all add: fade_sent_def)
  show "fade_sent v \<Longrightarrow> fade_sent (end_episode ctx v)"
    by (simp add: end_episode_def Let_def) (simp add: fade_sent_def resetSessionState_def)
qed (simp_all add: confirm_restore_def expire_hint_def capture_baseline_def fade_down_def fade_sent_def Let_def)

lemma sent_small: "fade_sent (noteRestoreSent g t v) = fade_sent v" "fade_sent (setBaselineHint m mu now v) = fade_sent v"
  by (simp_all add: fade_sent_def noteRestoreSent_def setBaselineHint_def)

lemma sent_decide: "fade_sent v \<Longrightarrow> fade_sent (snd (decide s ctx v))"
  by (simp add: decide_def sent_restores sent_steps Let_def)

lemma fade_step_sent: "fade_sent v \<Longrightarrow> fade_sent (fade_step v e)"
proof (cases e)
  case (FadeProcess settings ctx)
  then show "fade_sent v \<Longrightarrow> ?thesis"
    by (simp add: fade_process_def sent_decide sent_steps Let_def split_beta split: option.split)
qed (simp_all add: sent_steps releaseClearedAlert_def sent_small)

text \<open>So a pass that reduces the volume comes from a state without an active fade.\<close>

lemma delay_nonzero: "vs_delaySec s \<noteq> 0 \<Longrightarrow> 0 < fade_delay s"
proof -
  assume "vs_delaySec s \<noteq> 0"
  then have "0 < unat (vs_delaySec s)" by (simp add: unat_gt_0)
  moreover have "unat (vs_delaySec s) < 256" using unsigned_less [of "vs_delaySec s"] by simp
  moreover have "unat (fade_delay s) = unat (vs_delaySec s) * 1000"
    using calculation(2) by (simp add: fade_delay_def unat_word_ariths unsigned_ucast_eq take_bit_nat_eq_self)
  ultimately have "0 < unat (fade_delay s)" by simp
  then show ?thesis by (simp add: word_less_nat_alt)
qed

lemma down_not_active:
  assumes "fade_sent v" "vs_delaySec s \<noteq> 0" "fst (fade_down s ctx (capture_baseline ctx (end_episode ctx v))) = FadeDown a m"
  shows "\<not> vf_fadeActive v"
proof
  assume "vf_fadeActive v"
  then have e: "vf_commandSent (end_episode ctx v)"
    using assms(1) by (simp add: fade_sent_def end_episode_def Let_def)
  let ?c = "capture_baseline ctx (end_episode ctx v)"
  have d: "\<not> vf_commandSent ?c" "fade_delay s \<le> vc_now ctx - vf_alertStartMs ?c"
    using assms(3) by (simp_all add: fade_down_def split: if_splits)
  have "vf_alertStartMs (end_episode ctx v) \<noteq> 0"
    using d(2) delay_nonzero [OF assms(2)] by (auto simp: not_le)
  then have "?c = end_episode ctx v" by (simp add: capture_baseline_def)
  with d(1) e show False by simp
qed

interpretation fade_commands: event_machine fade_step fade_sent
  by unfold_locales (rule fade_step_sent)


text \<open>A two-second delay at volume 7, then the reduction to the configured 1.\<close>

definition sample_fade_settings :: fade_settings where
  "sample_fade_settings = \<lparr> vs_enabled = True, vs_delaySec = 2, vs_volume = 1 \<rparr>"

definition sample_fade_context :: "bool \<Rightarrow> u32 \<Rightarrow> fade_context" where
  "sample_fade_context alert now = \<lparr> vc_hasAlert = alert, vc_alertEpisodeEnded = False, vc_alertMuted = False,
     vc_alertSuppressed = False, vc_currentVolume = 7, vc_currentMuteVolume = 2,
     vc_hasVolumeObservation = True, vc_volumeObservationIngress = 5, vc_sessionGeneration = 1,
     vc_volumeOwnerChanged = False, vc_restoreCommandInFlight = False, vc_currentFrequency = 24150,
     vc_priorityIsLaser = False, vc_now = now \<rparr>"

definition sample_fade :: volume_fade where
  "sample_fade = snd (fade_process (Some sample_fade_settings) (sample_fade_context True 1000) new_fade)"

lemmas sample_fade_defs = sample_fade_def sample_fade_settings_def sample_fade_context_def

theorem fade_history_invariant_witness:
  "fade_inv (foldl fade_step new_fade
     [FadeProcess (Some sample_fade_settings) (sample_fade_context True 1000),
      FadeProcess (Some sample_fade_settings) (sample_fade_context True 3000)])"
  by (rule fade_history_invariant) (simp add: fade_input_ok_def sample_fade_defs)


section \<open>Restorations\<close>

lemma attempt_restores:
  "fst (attempt_restore ctx v) = FadeRestore a m \<Longrightarrow> a = vf_originalVolume v \<and> m = vf_originalMuteVolume v"
  by (auto simp: attempt_restore_def Let_def split: if_splits)

lemma release_restores:
  "fst (release_no_alert ctx v) = FadeRestore a m \<Longrightarrow>
     a = vf_originalVolume v \<and> m = vf_originalMuteVolume v \<and> a \<noteq> 0xFF"
  "fst (release_muted ctx v) = FadeRestore a m \<Longrightarrow>
     a = vf_originalVolume v \<and> m = vf_originalMuteVolume v \<and> a \<noteq> 0xFF"
  "fst (release_new_threat ctx v) = FadeRestore a m \<Longrightarrow>
     a = vf_originalVolume v \<and> m = vf_originalMuteVolume v \<and> a \<noteq> 0xFF"
  by (auto simp: release_no_alert_def release_muted_def release_new_threat_def Let_def
      dest: attempt_restores split: if_splits)

lemma service_restores:
  "fade_inv v \<Longrightarrow> vf_pendingRestoreVolume v \<noteq> 0xFF \<Longrightarrow> fst (service_restore ctx v) = FadeRestore a m \<Longrightarrow>
     a = vf_originalVolume v \<and> m = vf_originalMuteVolume v \<and> a \<noteq> 0xFF"
  by (auto simp: service_restore_def fade_inv_def baseline_inv_def split: if_splits)

lemma end_episode_original:
  "fade_inv v \<Longrightarrow> vf_originalVolume (end_episode ctx v) \<noteq> 0xFF \<Longrightarrow>
     vf_originalVolume (end_episode ctx v) = vf_originalVolume v \<and>
     vf_originalMuteVolume (end_episode ctx v) = vf_originalMuteVolume v"
  by (auto simp: end_episode_def Let_def resetSessionState_def)

lemma decide_restores:
  assumes "fade_inv v" "fst (decide s ctx v) = FadeRestore a m"
  shows "a = vf_originalVolume v \<and> m = vf_originalMuteVolume v \<and> a \<noteq> 0xFF"
proof -
  have down: "fst (fade_down s ctx w) \<noteq> FadeRestore a m" for w
    by (simp add: fade_down_def Let_def)
  have e: "fade_inv (end_episode ctx v)" using assms(1) by (rule inv_end_episode)
  let ?e = "end_episode ctx v" and ?R = "FadeRestore a m"
  from assms(2) down have "fst (release_no_alert ctx v) = ?R \<or> fst (release_muted ctx v) = ?R \<or>
      fst (release_new_threat ctx ?e) = ?R \<or>
      vf_pendingRestoreVolume ?e \<noteq> 0xFF \<and> fst (service_restore ctx ?e) = ?R"
    by (simp add: decide_def Let_def split: if_splits)
  then consider "a = vf_originalVolume v \<and> m = vf_originalMuteVolume v \<and> a \<noteq> 0xFF"
    | "a = vf_originalVolume ?e \<and> m = vf_originalMuteVolume ?e \<and> a \<noteq> 0xFF"
    using release_restores(1,2) [of ctx v a m] release_restores(3) [of ctx ?e a m]
      service_restores [OF e, of ctx a m] by blast
  then show ?thesis
  proof cases
    case 2
    with end_episode_original [OF assms(1), of ctx] show ?thesis by auto
  qed
qed

lemma decision_state_original:
  "\<not> vf_manualChoiceActive v \<Longrightarrow> vf_originalVolume (decision_state s ctx v) = vf_originalVolume v"
  "\<not> vf_manualChoiceActive v \<Longrightarrow> vf_originalMuteVolume (decision_state s ctx v) = vf_originalMuteVolume v"
  "vf_manualChoiceActive v \<Longrightarrow> vf_originalVolume (decision_state s ctx v) = 0xFF"
  by (simp_all add: decision_state_def expire_hint_def confirm_restore_def fade_reset_def
      resetSessionState_def)

lemma inv_decision_state: "fade_inv v \<Longrightarrow> fade_inv (decision_state s ctx v)"
  by (simp add: decision_state_def inv_expire inv_confirm)

lemma observe_keeps:
  "\<not> fst (observeVolumeOwnership ctx v) \<Longrightarrow>
     vf_originalVolume (snd (observeVolumeOwnership ctx v)) = vf_originalVolume v \<and>
     vf_originalMuteVolume (snd (observeVolumeOwnership ctx v)) = vf_originalMuteVolume v \<and>
     vf_fadeActive (snd (observeVolumeOwnership ctx v)) = vf_fadeActive v \<and>
     vf_pendingRestoreVolume (snd (observeVolumeOwnership ctx v)) = vf_pendingRestoreVolume v \<and>
     vf_manualChoiceActive (snd (observeVolumeOwnership ctx v)) = vf_manualChoiceActive v"
  by (auto simp: observeVolumeOwnership_def split: if_splits)


text \<open>The same alert, faded, then gone: the restoration of 7 and 2.\<close>

definition sample_faded :: volume_fade where
  "sample_faded = snd (fade_process (Some sample_fade_settings) (sample_fade_context True 3000) sample_fade)"


section \<open>The debt\<close>

text \<open>
  A reduced volume is owed: there is a baseline, and either the fade is active or its
  restoration is pending. The documented ways to be released from it:
\<close>

definition owes :: "volume_fade \<Rightarrow> bool" where
  "owes v \<longleftrightarrow> vf_originalVolume v \<noteq> 0xFF \<and> (vf_fadeActive v \<or> vf_pendingRestoreVolume v \<noteq> 0xFF)"

definition at_baseline :: "fade_context \<Rightarrow> volume_fade \<Rightarrow> bool" where
  "at_baseline ctx v \<longleftrightarrow> at_pair ctx (vf_originalVolume v) (vf_originalMuteVolume v)"

definition another_owner :: "fade_context \<Rightarrow> volume_fade \<Rightarrow> bool" where
  "another_owner ctx v \<longleftrightarrow> vc_volumeOwnerChanged ctx \<or>
     (fresh_observation ctx v \<and> \<not> at_baseline ctx v \<and>
      \<not> at_pair ctx (vf_fadeTargetVolume v) (vf_fadeTargetMuteVolume v))"

definition debt_released :: "fade_settings \<Rightarrow> fade_context \<Rightarrow> volume_fade \<Rightarrow> bool" where
  "debt_released s ctx v \<longleftrightarrow>
     \<not> vs_enabled s \<or> another_owner ctx v \<or>
     (vf_pendingRestoreVolume v \<noteq> 0xFF \<and> restore_confirmed ctx v) \<or>
     (vf_pendingRestoreVolume v = 0xFF \<and> vc_alertSuppressed ctx \<and> at_baseline ctx v)"

definition same_debt :: "volume_fade \<Rightarrow> volume_fade \<Rightarrow> bool" where
  "same_debt v w \<longleftrightarrow> owes w \<and> vf_originalVolume w = vf_originalVolume v \<and>
     vf_originalMuteVolume w = vf_originalMuteVolume v"

lemma debt_attempt: "owes v \<Longrightarrow> same_debt v (snd (attempt_restore ctx v))"
  by (auto simp: attempt_restore_def same_debt_def owes_def Let_def)

lemma debt_no_alert: "owes v \<Longrightarrow> same_debt v (snd (release_no_alert ctx v))"
  using debt_attempt [of v ctx] by (auto simp: release_no_alert_def Let_def owes_def)

lemma debt_muted:
  "owes v \<Longrightarrow> vf_pendingRestoreVolume v \<noteq> 0xFF \<or> \<not> at_baseline ctx v \<Longrightarrow>
   same_debt v (snd (release_muted ctx v))"
  using debt_attempt [of v ctx] by (auto simp: release_muted_def Let_def owes_def at_baseline_def)

lemma debt_end_episode:
  "owes v \<Longrightarrow> same_debt v (end_episode ctx v)"
  by (auto simp: end_episode_def Let_def owes_def same_debt_def)

lemma debt_new_threat: "owes v \<Longrightarrow> same_debt v (snd (release_new_threat ctx v))"
  by (auto simp: release_new_threat_def Let_def same_debt_def owes_def)

lemma debt_service: "owes v \<Longrightarrow> same_debt v (snd (service_restore ctx v))"
  by (auto simp: service_restore_def same_debt_def owes_def)

lemma debt_capture: "vf_alertStartMs v \<noteq> 0 \<Longrightarrow> capture_baseline ctx v = v"
  by (simp add: capture_baseline_def)

lemma debt_fade_down: "owes v \<Longrightarrow> same_debt v (snd (fade_down s ctx v))"
  by (auto simp: fade_down_def Let_def same_debt_def owes_def)

lemma debt_trans: "same_debt u v \<Longrightarrow> same_debt v w \<Longrightarrow> same_debt u w"
  by (simp add: same_debt_def)

lemma debt_decide:
  assumes inv: "fade_inv v" and owes: "owes v" and s: "vs_enabled s"
    and sup: "vf_pendingRestoreVolume v = 0xFF \<Longrightarrow> vc_alertSuppressed ctx \<Longrightarrow> \<not> at_baseline ctx v"
  shows "same_debt v (snd (decide s ctx v))"
proof -
  let ?e = "end_episode ctx v"
  have e: "same_debt v ?e" "owes ?e" using debt_end_episode [OF owes] by (simp_all add: same_debt_def)
  have muted: "same_debt v (snd (release_muted ctx v))"
    if "vc_alertMuted ctx \<and> \<not> vf_fadeActive v \<or> vc_alertSuppressed ctx"
    using that owes sup by (intro debt_muted) (auto simp: owes_def)
  have down: "same_debt v (snd (fade_down s ctx (capture_baseline ctx ?e)))"
    if "vf_pendingRestoreVolume ?e = 0xFF"
  proof -
    have "fade_inv ?e" using inv by (rule inv_end_episode)
    then have "vf_alertStartMs ?e \<noteq> 0"
      using that e(2) by (auto simp: owes_def fade_inv_def baseline_inv_def)
    then have "capture_baseline ctx ?e = ?e" by (rule debt_capture)
    with debt_trans [OF e(1) debt_fade_down [OF e(2)]] show ?thesis by simp
  qed
  show ?thesis
    using s muted down debt_no_alert [OF owes] debt_trans [OF e(1) debt_new_threat [OF e(2)]]
      debt_trans [OF e(1) debt_service [OF e(2)]]
    by (simp add: decide_def Let_def)
qed

lemma confirm_only:
  "\<not> (vf_pendingRestoreVolume v \<noteq> 0xFF \<and> restore_confirmed ctx v) \<Longrightarrow> confirm_restore s ctx v = v"
  by (auto simp: confirm_restore_def)

lemma debt_expire: "same_debt v (expire_hint ctx v) \<longleftrightarrow> owes v"
  by (simp add: expire_hint_def same_debt_def owes_def)

lemma observe_confirm_fields:
  "\<not> fst (observeVolumeOwnership ctx v) \<Longrightarrow>
     restore_confirmed ctx (snd (observeVolumeOwnership ctx v)) = restore_confirmed ctx v \<and>
     at_baseline ctx (snd (observeVolumeOwnership ctx v)) = at_baseline ctx v"
  by (auto simp: observeVolumeOwnership_def restore_confirmed_def at_baseline_def split: if_splits)

lemma expire_fields:
  "vf_pendingRestoreVolume (expire_hint ctx v) = vf_pendingRestoreVolume v"
  "at_baseline ctx (expire_hint ctx v) = at_baseline ctx v"
  by (simp_all add: expire_hint_def at_baseline_def)

text \<open>
  Claim C19. A reduced volume stays owed, with the same baseline pair, through every pass of the
  module except the documented releases: the feature is disabled, the volume has another
  owner, a canonical observation after the sent restoration shows the pair, or a suppressed
  alert is already at the baseline.
\<close>

theorem restoration_stays_owed:
  assumes inv: "fade_inv v" and owes: "owes v" and held: "\<not> debt_released s ctx v"
  shows "same_debt v (snd (fade_process (Some s) ctx v))"
proof -
  let ?o = "observeVolumeOwnership ctx v"
  let ?u = "snd ?o"
  from held have "\<not> another_owner ctx v" and s: "vs_enabled s" by (auto simp: debt_released_def)
  then have unchanged: "\<not> fst ?o"
    by (auto simp: observeVolumeOwnership_def another_owner_def at_baseline_def split: if_splits)
  note u = observe_keeps [OF unchanged] observe_confirm_fields [OF unchanged]
  have manual: "\<not> vf_manualChoiceActive ?u"
    using inv owes u by (auto simp: fade_inv_def baseline_inv_def owes_def)
  have "\<not> (vf_pendingRestoreVolume ?u \<noteq> 0xFF \<and> restore_confirmed ctx ?u)"
    using held u by (auto simp: debt_released_def)
  from confirm_only [OF this] manual have d: "decision_state s ctx ?u = expire_hint ctx ?u"
    by (simp add: decision_state_def)
  have du: "same_debt v ?u" "owes ?u" using owes u by (auto simp: same_debt_def owes_def)
  then have de: "same_debt v (expire_hint ctx ?u)" "owes (expire_hint ctx ?u)"
    using debt_expire [of ?u ctx] by (auto simp: same_debt_def)
  have "same_debt (expire_hint ctx ?u) (snd (decide s ctx (expire_hint ctx ?u)))"
  proof (rule debt_decide [OF _ de(2) s])
    show "fade_inv (expire_hint ctx ?u)" using inv by (intro inv_expire inv_observe)
    show "\<not> at_baseline ctx (expire_hint ctx ?u)"
      if "vf_pendingRestoreVolume (expire_hint ctx ?u) = 0xFF" "vc_alertSuppressed ctx"
      using that held u by (auto simp: expire_fields debt_released_def)
  qed
  with de(1) have "same_debt v (snd (decide s ctx (expire_hint ctx ?u)))" by (rule debt_trans)
  with unchanged manual d show ?thesis
    by (simp add: fade_process_decides case_prod_unfold Let_def)
qed

theorem restoration_stays_owed_witness:
  "same_debt sample_faded (snd (fade_process (Some sample_fade_settings)
     ((sample_fade_context False 4000)\<lparr>vc_currentVolume := 1\<rparr>) sample_faded))"
proof (rule restoration_stays_owed)
  have ok: "list_all fade_event_ok [FadeProcess (Some sample_fade_settings) (sample_fade_context True 1000),
      FadeProcess (Some sample_fade_settings) (sample_fade_context True 3000)]"
    by code_simp
  show "fade_inv sample_faded"
    using volume_owner.guarded_run [OF new_fade_inv ok] by (simp add: sample_faded_def sample_fade_def)
  show "owes sample_faded" by code_simp
  show "\<not> debt_released sample_fade_settings ((sample_fade_context False 4000)\<lparr>vc_currentVolume := 1\<rparr>) sample_faded"
    by code_simp
qed

text \<open>
  Ending a cleared alert for another owner hands over exactly the owed pair and
  leaves the module without any authority over the volume.
\<close>

theorem release_hands_over:
  "fst (releaseClearedAlert v) =
     (if owes v then FadeRestore (vf_originalVolume v) (vf_originalMuteVolume v) else FadeNone) \<and>
   \<not> hasActiveVolumeOverride (snd (releaseClearedAlert v)) \<and> \<not> owes (snd (releaseClearedAlert v))"
  by (auto simp: releaseClearedAlert_def owes_def hasActiveVolumeOverride_def fade_reset_def
      resetSessionState_def)

end
