(* ===== verification/V1_Rate_Limiter.thy ===== *)
theory V1_Rate_Limiter
  imports V1_Prelude
begin

text \<open>
  The sliding-window rate limiter of the maintenance web server
  (\<open>include/wifi_rate_limiter.h\<close>): a ring buffer of the time stamps it accepted. It is
  refined to a queue, and the window bound is proved over the queue.
\<close>

definition WINDOW_MS :: u32 where "WINDOW_MS = 60000"
definition MAX_REQUESTS :: nat where "MAX_REQUESTS = 120"

record rate_decision =
  rd_allowed :: bool
  rd_retryAfterMs :: u32
  rd_requestCount :: nat

record rate_limiter =
  rl_timestamps :: "u32 list"
  rl_head :: nat
  rl_count :: nat

definition rl_reset :: "rate_limiter \<Rightarrow> rate_limiter" where
  "rl_reset rl = rl\<lparr>rl_head := 0, rl_count := 0, rl_timestamps := replicate MAX_REQUESTS 0\<rparr>"

definition new_limiter :: rate_limiter where
  "new_limiter = \<lparr> rl_timestamps = replicate MAX_REQUESTS 0, rl_head = 0, rl_count = 0 \<rparr>"

function evictExpired :: "u32 \<Rightarrow> rate_limiter \<Rightarrow> rate_limiter" where
  "evictExpired nowMs rl =
     (if rl_count rl > 0 \<and> elapsed_ms nowMs (rl_timestamps rl ! rl_head rl) \<ge> WINDOW_MS
      then evictExpired nowMs (rl\<lparr>rl_head := (rl_head rl + 1) mod MAX_REQUESTS, rl_count := rl_count rl - 1\<rparr>)
      else rl)"
  by pat_completeness auto
termination
  by (relation "measure (\<lambda>(now, rl). rl_count rl)") auto

declare evictExpired.simps [simp del]

definition rl_evaluate :: "u32 \<Rightarrow> rate_limiter \<Rightarrow> rate_decision \<times> rate_limiter" where
  "rl_evaluate nowMs rl =
     (let rl = evictExpired nowMs rl in
      if rl_count rl \<ge> MAX_REQUESTS then
        (\<lparr> rd_allowed = False,
           rd_retryAfterMs = WINDOW_MS - elapsed_ms nowMs (rl_timestamps rl ! rl_head rl),
           rd_requestCount = rl_count rl \<rparr>, rl)
      else
        let insertIndex = (rl_head rl + rl_count rl) mod MAX_REQUESTS;
            rl = rl\<lparr>rl_timestamps := (rl_timestamps rl)[insertIndex := nowMs], rl_count := rl_count rl + 1\<rparr>
        in (\<lparr> rd_allowed = True, rd_retryAfterMs = 0, rd_requestCount = rl_count rl \<rparr>, rl))"

section \<open>Refinement to a queue\<close>

definition rl_inv :: "rate_limiter \<Rightarrow> bool" where
  "rl_inv rl \<longleftrightarrow> length (rl_timestamps rl) = MAX_REQUESTS \<and> rl_head rl < MAX_REQUESTS \<and>
     rl_count rl \<le> MAX_REQUESTS"

definition rl_queue :: "rate_limiter \<Rightarrow> u32 list" where
  "rl_queue rl = map (\<lambda>i. rl_timestamps rl ! ((rl_head rl + i) mod MAX_REQUESTS)) [0..<rl_count rl]"

definition expired :: "u32 \<Rightarrow> u32 \<Rightarrow> bool" where
  "expired now t \<longleftrightarrow> elapsed_ms now t \<ge> WINDOW_MS"

definition spec_evaluate :: "u32 \<Rightarrow> u32 list \<Rightarrow> rate_decision \<times> u32 list" where
  "spec_evaluate now q =
     (let q = dropWhile (expired now) q in
      if length q \<ge> MAX_REQUESTS
      then (\<lparr> rd_allowed = False, rd_retryAfterMs = WINDOW_MS - elapsed_ms now (hd q),
              rd_requestCount = length q \<rparr>, q)
      else (\<lparr> rd_allowed = True, rd_retryAfterMs = 0, rd_requestCount = length q + 1 \<rparr>, q @ [now]))"

lemma length_rl_queue [simp]: "length (rl_queue rl) = rl_count rl"
  by (simp add: rl_queue_def)

lemma rl_queue_pop:
  assumes "0 < rl_count rl"
  shows "rl_queue rl = rl_timestamps rl ! (rl_head rl mod MAX_REQUESTS) #
    rl_queue (rl\<lparr>rl_head := (rl_head rl + 1) mod MAX_REQUESTS, rl_count := rl_count rl - 1\<rparr>)"
proof -
  obtain n where n: "rl_count rl = Suc n" using assms by (cases "rl_count rl") auto
  have "[0..<Suc n] = 0 # map Suc [0..<n]" by (simp add: map_Suc_upt upt_conv_Cons del: upt_Suc)
  then show ?thesis
    by (simp add: rl_queue_def n o_def mod_simps add.commute add.left_commute del: upt_Suc)
qed

lemma evict_refines:
  "rl_inv rl \<Longrightarrow> rl_queue (evictExpired now rl) = dropWhile (expired now) (rl_queue rl) \<and>
     rl_inv (evictExpired now rl)"
proof (induction now rl rule: evictExpired.induct)
  case (1 now rl)
  let ?pop = "rl\<lparr>rl_head := (rl_head rl + 1) mod MAX_REQUESTS, rl_count := rl_count rl - 1\<rparr>"
  show ?case
  proof (cases "0 < rl_count rl")
    case False
    then show ?thesis using 1 by (subst (1 2) evictExpired.simps) (simp add: rl_queue_def)
  next
    case True
    have head: "rl_head rl mod MAX_REQUESTS = rl_head rl" using 1 by (simp add: rl_inv_def)
    note q = rl_queue_pop [OF True, unfolded head]
    show ?thesis
    proof (cases "elapsed_ms now (rl_timestamps rl ! rl_head rl) \<ge> WINDOW_MS")
      case exp: True
      have "rl_inv ?pop" using 1 by (auto simp: rl_inv_def MAX_REQUESTS_def)
      moreover have "expired now (rl_timestamps rl ! rl_head rl)" using exp by (simp add: expired_def)
      ultimately show ?thesis using "1.IH" True exp
        by (subst (1 2) evictExpired.simps) (simp add: q)
    next
      case False
      then have "\<not> expired now (rl_timestamps rl ! rl_head rl)" by (simp add: expired_def)
      with False 1 show ?thesis by (subst (1 2) evictExpired.simps) (simp add: q)
    qed
  qed
qed

lemma rl_queue_push:
  assumes "rl_inv rl" "rl_count rl < MAX_REQUESTS"
  shows "rl_queue (rl\<lparr>rl_timestamps := (rl_timestamps rl)[(rl_head rl + rl_count rl) mod MAX_REQUESTS := t],
     rl_count := rl_count rl + 1\<rparr>) = rl_queue rl @ [t]"
proof -
  have "(rl_head rl + rl_count rl) mod MAX_REQUESTS \<noteq> (rl_head rl + i) mod MAX_REQUESTS"
    if "i < rl_count rl" for i
  proof
    assume "(rl_head rl + rl_count rl) mod MAX_REQUESTS = (rl_head rl + i) mod MAX_REQUESTS"
    then have "MAX_REQUESTS dvd (rl_head rl + rl_count rl) - (rl_head rl + i)"
      using that by (intro mod_eq_dvd_iff_nat [THEN iffD1]) auto
    then have "MAX_REQUESTS dvd rl_count rl - i" by simp
    then show False using that assms(2) by (auto dest: dvd_imp_le)
  qed
  moreover have "(rl_head rl + rl_count rl) mod MAX_REQUESTS < length (rl_timestamps rl)"
    using assms by (simp add: rl_inv_def MAX_REQUESTS_def)
  ultimately show ?thesis by (auto simp: rl_queue_def nth_list_update)
qed

lemma limiter_refines:
  assumes "rl_inv rl"
  shows "fst (rl_evaluate now rl) = fst (spec_evaluate now (rl_queue rl)) \<and>
    rl_queue (snd (rl_evaluate now rl)) = snd (spec_evaluate now (rl_queue rl)) \<and>
    rl_inv (snd (rl_evaluate now rl))"
proof -
  let ?e = "evictExpired now rl"
  have e: "rl_queue ?e = dropWhile (expired now) (rl_queue rl)" "rl_inv ?e"
    using evict_refines [OF assms] by auto
  then have len: "length (dropWhile (expired now) (rl_queue rl)) = rl_count ?e"
    by (metis length_rl_queue)
  show ?thesis
  proof (cases "rl_count ?e \<ge> MAX_REQUESTS")
    case True
    then have "0 < rl_count ?e" by (simp add: MAX_REQUESTS_def)
    from rl_queue_pop [OF this] e(2) have "hd (rl_queue ?e) = rl_timestamps ?e ! rl_head ?e"
      by (simp add: rl_inv_def)
    with True e len show ?thesis by (simp add: rl_evaluate_def spec_evaluate_def Let_def)
  next
    case False
    with e len rl_queue_push [OF e(2)] show ?thesis
      by (simp add: rl_evaluate_def spec_evaluate_def Let_def) (simp add: rl_inv_def)
  qed
qed

interpretation limiter_machine: event_machine "\<lambda>rl now. snd (rl_evaluate now rl)" rl_inv
  by unfold_locales (use limiter_refines in blast)

text \<open>
  Claim C23. The ring buffer implements the sliding-window queue: the same decision, retry time
  and count, and the same accepted time stamps.
\<close>

theorem limiter_refines_queue:
  assumes "rl_inv rl"
  shows "fst (rl_evaluate now rl) = fst (spec_evaluate now (rl_queue rl)) \<and>
    rl_queue (snd (rl_evaluate now rl)) = snd (spec_evaluate now (rl_queue rl)) \<and>
    rl_inv (snd (rl_evaluate now rl))"
  using assms by (rule limiter_refines)

lemma new_limiter_inv [simp]: "rl_inv new_limiter" "rl_queue new_limiter = []"
  by (simp_all add: rl_inv_def rl_queue_def new_limiter_def MAX_REQUESTS_def)

theorem limiter_refines_queue_witness:
  "rl_queue (snd (rl_evaluate 5 new_limiter)) = [5]"
  using limiter_refines_queue [of new_limiter 5] by (simp add: spec_evaluate_def MAX_REQUESTS_def)

section \<open>What the window promises\<close>

text \<open>
  Waiting for the announced retry time is enough: a request that comes then is
  accepted.
\<close>

theorem retry_time_suffices:
  assumes "rl_inv rl" "\<not> rd_allowed (fst (rl_evaluate now rl))"
  defines "r \<equiv> rd_retryAfterMs (fst (rl_evaluate now rl))"
  shows "rd_allowed (fst (rl_evaluate (now + r) (snd (rl_evaluate now rl)))) \<and> 0 < r \<and> r \<le> WINDOW_MS"
proof -
  let ?q = "dropWhile (expired now) (rl_queue rl)"
  note ref = limiter_refines [OF assms(1), of now]
  from assms(2) ref have full: "length ?q \<ge> MAX_REQUESTS"
    by (auto simp: spec_evaluate_def Let_def split: if_splits)
  then have r: "r = WINDOW_MS - elapsed_ms now (hd ?q)" and q: "rl_queue (snd (rl_evaluate now rl)) = ?q"
    using ref by (auto simp: r_def spec_evaluate_def Let_def)
  have "0 < MAX_REQUESTS" by (simp add: MAX_REQUESTS_def)
  then have "0 < length ?q" using full by (rule less_le_trans)
  then have ne: "?q \<noteq> []" by (rule length_greater_0_conv [THEN iffD1])
  then have "\<not> expired now (hd ?q)" by (rule hd_dropWhile)
  then have lt: "elapsed_ms now (hd ?q) < WINDOW_MS" by (simp add: expired_def)
  have later: "elapsed_ms (now + r) (hd ?q) = WINDOW_MS"
    by (simp add: r elapsed_ms_def)
  have "length ?q = rl_count (evictExpired now rl)"
    using evict_refines [OF assms(1), of now] by (metis length_rl_queue)
  then have "length ?q \<le> MAX_REQUESTS" using evict_refines [OF assms(1), of now] by (simp add: rl_inv_def)
  then have "length (dropWhile (expired (now + r)) ?q) < MAX_REQUESTS"
    using ne later length_dropWhile_le [of "expired (now + r)" "tl ?q"]
    by (cases ?q) (auto simp: expired_def)
  then have "rd_allowed (fst (spec_evaluate (now + r) ?q))"
    by (simp add: spec_evaluate_def Let_def)
  moreover have "0 < r" "r \<le> WINDOW_MS" using lt unfolding r by unat_arith+
  ultimately show ?thesis using limiter_refines [of "snd (rl_evaluate now rl)" "now + r"] ref q by simp
qed

definition full_limiter :: rate_limiter where
  "full_limiter = new_limiter\<lparr>rl_count := MAX_REQUESTS\<rparr>"

theorem retry_time_suffices_witness:
  "\<not> rd_allowed (fst (rl_evaluate 10 full_limiter)) \<and>
   rd_allowed (fst (rl_evaluate 60000 (snd (rl_evaluate 10 full_limiter))))"
proof -
  have keep: "evictExpired 10 full_limiter = full_limiter"
    by (subst evictExpired.simps) (simp add: full_limiter_def new_limiter_def MAX_REQUESTS_def
        WINDOW_MS_def elapsed_ms_def)
  have fields: "rl_count full_limiter = MAX_REQUESTS" "rl_timestamps full_limiter ! rl_head full_limiter = 0"
    by (simp_all add: full_limiter_def new_limiter_def MAX_REQUESTS_def)
  have "rl_evaluate 10 full_limiter =
      (\<lparr>rd_allowed = False, rd_retryAfterMs = 59990, rd_requestCount = MAX_REQUESTS\<rparr>, full_limiter)"
    by (simp add: rl_evaluate_def keep fields WINDOW_MS_def elapsed_ms_def)
  then show ?thesis
    using retry_time_suffices [of full_limiter 10]
    by (simp add: rl_inv_def full_limiter_def new_limiter_def MAX_REQUESTS_def)
qed

text \<open>
  The requests a limiter accepts out of a series at the offsets \<open>ds\<close> (in milliseconds, in
  order) from a start of the clock.
\<close>

fun accepted_times :: "u32 \<Rightarrow> rate_limiter \<Rightarrow> nat list \<Rightarrow> nat list" where
  "accepted_times t0 rl [] = []"
| "accepted_times t0 rl (d # ds) =
     (let (dec, rl) = rl_evaluate (t0 + word_of_nat d) rl in
      (if rd_allowed dec then [d] else []) @ accepted_times t0 rl ds)"

lemma expired_offsets:
  assumes "a \<le> b" "b < 2 ^ 32"
  shows "expired (t0 + word_of_nat b) (t0 + word_of_nat a) \<longleftrightarrow> 60000 \<le> b - a"
proof -
  have "unat (word_of_nat (b - a) :: u32) = b - a" using assms(2) by (simp add: unat_of_nat)
  then show ?thesis
    by (simp add: expired_def elapsed_window [OF assms(1)] WINDOW_MS_def word_le_nat_alt)
qed

text \<open>
  The accepted requests so far are old ones, all outside the window of the newest request, and
  those still in the queue.
\<close>

definition window_state :: "u32 \<Rightarrow> nat list \<Rightarrow> nat \<Rightarrow> rate_limiter \<Rightarrow> bool" where
  "window_state t0 acc now rl \<longleftrightarrow> rl_inv rl \<and> sorted acc \<and> (\<forall>a\<in>set acc. a \<le> now) \<and>
     (\<exists>old q. acc = old @ q \<and> rl_queue rl = map (\<lambda>d. t0 + word_of_nat d) q \<and>
        (\<forall>a\<in>set old. 60000 \<le> now - a))"

definition spaced :: "nat list \<Rightarrow> bool" where
  "spaced acc \<longleftrightarrow> (\<forall>i. i + MAX_REQUESTS < length acc \<longrightarrow> 60000 \<le> acc ! (i + MAX_REQUESTS) - acc ! i)"

lemma window_step:
  assumes st: "window_state t0 acc now rl" and sp: "spaced acc" and d: "now \<le> d" "d < 2 ^ 32"
  defines "r \<equiv> rl_evaluate (t0 + word_of_nat d) rl"
  defines "acc' \<equiv> acc @ (if rd_allowed (fst r) then [d] else [])"
  shows "window_state t0 acc' d (snd r) \<and> spaced acc'"
proof -
  let ?f = "\<lambda>d. t0 + word_of_nat d :: u32"
  from st obtain old q where inv: "rl_inv rl" and acc: "acc = old @ q" "sorted acc" "\<forall>a\<in>set acc. a \<le> now"
    and queue: "rl_queue rl = map ?f q" and old: "\<forall>a\<in>set old. 60000 \<le> now - a"
    by (auto simp: window_state_def)
  define P where "P = (\<lambda>a::nat. 60000 \<le> d - a)"
  have P: "expired (?f d) (?f a) = P a" if "a \<in> set q" for a
  proof -
    have "a \<le> now" using that acc(1,3) by simp
    then have "a \<le> d" using d(1) by (rule order_trans)
    then show ?thesis using expired_offsets [of a d t0] d(2) by (simp add: P_def)
  qed
  have "dropWhile (expired (?f d)) (map ?f q) = map ?f (dropWhile (expired (?f d) \<circ> ?f) q)"
    by (simp add: dropWhile_map)
  also have "dropWhile (expired (?f d) \<circ> ?f) q = dropWhile P q"
    using P by (intro dropWhile_cong) auto
  finally have drop: "dropWhile (expired (?f d)) (rl_queue rl) = map ?f (dropWhile P q)"
    by (simp only: queue)
  note ref = limiter_refines [OF inv, of "?f d", folded r_def]
  let ?old = "old @ takeWhile P q" and ?q = "dropWhile P q"
  have split: "acc = ?old @ ?q" using acc(1) by simp
  have old': "\<forall>a\<in>set ?old. 60000 \<le> d - a"
    using old d(1) by (fastforce simp: P_def dest: set_takeWhileD)
  have le: "\<forall>a\<in>set acc. a \<le> d" using acc(3) d(1) by auto
  show ?thesis
  proof (cases "MAX_REQUESTS \<le> length ?q")
    case True
    then have "\<not> rd_allowed (fst r)" "rl_queue (snd r) = map ?f ?q"
      using ref drop by (simp_all add: spec_evaluate_def Let_def)
    then have "acc' = ?old @ ?q" using split by (simp add: acc'_def)
    then have "\<exists>old q. acc' = old @ q \<and> rl_queue (snd r) = map ?f q \<and> (\<forall>a\<in>set old. 60000 \<le> d - a)"
      using old' \<open>rl_queue (snd r) = map ?f ?q\<close> by blast
    then have "window_state t0 acc' d (snd r)"
      using ref acc(2) le \<open>\<not> rd_allowed (fst r)\<close> by (simp add: window_state_def acc'_def)
    with sp show ?thesis using \<open>\<not> rd_allowed (fst r)\<close> by (simp add: acc'_def)
  next
    case False
    then have ok: "rd_allowed (fst r)" "rl_queue (snd r) = map ?f (?q @ [d])"
      using ref drop by (simp_all add: spec_evaluate_def Let_def)
    then have a': "acc' = ?old @ (?q @ [d])" using split by (simp add: acc'_def)
    have "\<exists>old q. acc' = old @ q \<and> rl_queue (snd r) = map ?f q \<and> (\<forall>a\<in>set old. 60000 \<le> d - a)"
      using old' ok(2) a' by blast
    then have "window_state t0 acc' d (snd r)"
      using ref acc(2) le ok(1) unfolding window_state_def by (simp add: acc'_def sorted_append)
    moreover have "60000 \<le> acc' ! (i + MAX_REQUESTS) - acc' ! i" if i: "i + MAX_REQUESTS < length acc'" for i
    proof (cases "i + MAX_REQUESTS < length acc")
      case True
      with sp show ?thesis by (simp add: acc'_def ok spaced_def nth_append)
    next
      case False
      with i ok have eq: "i + MAX_REQUESTS = length acc" by (simp add: acc'_def)
      with \<open>\<not> MAX_REQUESTS \<le> length ?q\<close> have "i < length ?old" using split
        by (metis add_less_cancel_right length_append not_le nat_add_left_cancel_less add.commute)
      moreover from this have "acc' ! i = ?old ! i" using a' by (simp only: nth_append if_True)
      ultimately have "acc' ! i \<in> set ?old" by (simp only: nth_mem)
      with old' have "60000 \<le> d - acc' ! i" by blast
      with eq ok(1) show ?thesis by (simp add: acc'_def)
    qed
    ultimately show ?thesis by (simp add: spaced_def)
  qed
qed

lemma accepted_spaced:
  assumes "window_state t0 acc now rl" "spaced acc" "sorted ds" "\<forall>d\<in>set ds. now \<le> d \<and> d < 2 ^ 32"
  shows "spaced (acc @ accepted_times t0 rl ds)"
  using assms
proof (induction ds arbitrary: acc now rl)
  case (Cons d ds)
  from window_step [OF Cons.prems(1,2), of d] Cons.prems(4)
  have "window_state t0 (acc @ (if rd_allowed (fst (rl_evaluate (t0 + word_of_nat d) rl)) then [d] else [])) d
      (snd (rl_evaluate (t0 + word_of_nat d) rl))"
    "spaced (acc @ (if rd_allowed (fst (rl_evaluate (t0 + word_of_nat d) rl)) then [d] else []))" by auto
  from Cons.IH [OF this] Cons.prems(3,4) show ?case
    by (simp add: Let_def case_prod_unfold)
qed simp

text \<open>
  Claim C34. Whatever comes in, over a run of the clock, any 121 accepted requests in a row span
  at least the whole window: never more than 120 are accepted within a minute.
\<close>

theorem window_bound:
  assumes "sorted ds" "\<forall>d\<in>set ds. d < 2 ^ 32"
  shows "spaced (accepted_times t0 new_limiter ds)"
proof -
  have "window_state t0 [] 0 new_limiter" by (simp add: window_state_def)
  moreover have "spaced []" by (simp add: spaced_def)
  ultimately show ?thesis using accepted_spaced [of t0 "[]" 0 new_limiter ds] assms by simp
qed

theorem window_bound_witness:
  "spaced (accepted_times 0xFFFFFFF0 new_limiter (replicate 130 7 @ [60007]))"
proof (rule window_bound)
  show "sorted (replicate 130 7 @ [60007::nat])" by (simp add: sorted_append)
qed auto

end
