(* ===== verification/V1_Client_Write.thy ===== *)
theory V1_Client_Write
  imports V1_Prelude "HOL-Library.Sublist"
begin

text \<open>
  The retrying socket write of the maintenance server (\<open>include/client_write_retry.h\<close>). The
  client is a parameter: \<open>client k n\<close> is what its \<open>k\<close>-th \<open>write\<close> returns when asked for \<open>n\<close>
  bytes; \<open>mil j\<close> is the \<open>j\<close>-th reading of \<open>millis()\<close>. What the loop does is its list of
  effects.
\<close>

record write_config =
  wc_maxZeroWriteRetries :: u8
  wc_maxWriteWindowMs :: u16
  wc_backoffStartMs :: u16
  wc_backoffMaxMs :: u16

definition kDefaultConfig :: write_config where
  "kDefaultConfig = \<lparr> wc_maxZeroWriteRetries = 2, wc_maxWriteWindowMs = 2500, wc_backoffStartMs = 1,
     wc_backoffMaxMs = 16 \<rparr>"

text \<open>A write of some bytes from an offset with the number accepted, or a pause.\<close>

datatype write_effect = WroteAt nat nat nat | Service u16

definition next_backoff :: "write_config \<Rightarrow> u16 \<Rightarrow> u16" where
  "next_backoff cfg backoffMs =
     (if backoffMs < wc_backoffMaxMs cfg then
        (let doubled = backoffMs * 2 in
         if doubled > wc_backoffMaxMs cfg then wc_backoffMaxMs cfg else doubled)
      else backoffMs)"

definition bounded_backoff :: "write_config \<Rightarrow> u32 \<Rightarrow> u16 \<Rightarrow> u16" where
  "bounded_backoff cfg elapsed backoffMs =
     (let remaining = ucast (wc_maxWriteWindowMs cfg) - elapsed in
      if ucast backoffMs > remaining then ucast remaining else backoffMs)"

text \<open>The state of the loop; \<open>wl_calls\<close> and \<open>wl_reads\<close> count the calls of client and clock.\<close>

record write_loop =
  wl_offset :: nat
  wl_zeroWriteRetries :: u8
  wl_backoffMs :: u16
  wl_calls :: nat
  wl_reads :: nat

text \<open>One round of the loop: the result when it returns, else the next state, and its effects.\<close>

definition zero_round ::
    "(nat \<Rightarrow> u32) \<Rightarrow> write_config \<Rightarrow> u32 \<Rightarrow> write_loop \<Rightarrow> bool option \<times> write_loop \<times> write_effect list" where
  "zero_round mil cfg start w =
     (if wl_zeroWriteRetries w \<ge> wc_maxZeroWriteRetries cfg then (Some False, w, [])
      else
        let w = w\<lparr>wl_zeroWriteRetries := wl_zeroWriteRetries w + 1\<rparr>;
            next = w\<lparr>wl_backoffMs := next_backoff cfg (wl_backoffMs w)\<rparr>
        in if wc_maxWriteWindowMs cfg > 0 then
             let elapsed = elapsed_ms (mil (wl_reads w)) start in
             if elapsed \<ge> ucast (wc_maxWriteWindowMs cfg) then (Some False, w, [])
             else (None, next\<lparr>wl_reads := wl_reads w + 1\<rparr>,
               [Service (bounded_backoff cfg elapsed (wl_backoffMs w))])
           else (None, next, [Service (wl_backoffMs w)]))"

definition progress_round ::
    "(nat \<Rightarrow> u32) \<Rightarrow> write_config \<Rightarrow> u32 \<Rightarrow> nat \<Rightarrow> nat \<Rightarrow> write_loop \<Rightarrow>
     bool option \<times> write_loop \<times> write_effect list" where
  "progress_round mil cfg start len written w =
     (let w = w\<lparr>wl_offset := wl_offset w + written, wl_zeroWriteRetries := 0,
                wl_backoffMs := wc_backoffStartMs cfg\<rparr>;
          effects = (if wl_offset w < len then [Service 0] else [])
      in if wc_maxWriteWindowMs cfg > 0 \<and> wl_offset w < len then
           (if elapsed_ms (mil (wl_reads w)) start \<ge> ucast (wc_maxWriteWindowMs cfg)
            then (Some False, w, effects)
            else (None, w\<lparr>wl_reads := wl_reads w + 1\<rparr>, effects))
         else (None, w, effects))"

definition write_round ::
    "(nat \<Rightarrow> nat \<Rightarrow> nat) \<Rightarrow> (nat \<Rightarrow> u32) \<Rightarrow> write_config \<Rightarrow> u32 \<Rightarrow> nat \<Rightarrow> write_loop \<Rightarrow>
     bool option \<times> write_loop \<times> write_effect list" where
  "write_round client mil cfg start len w =
     (let asked = len - wl_offset w;
          written = client (wl_calls w) asked;
          (res, w', es) = (if written = 0 then zero_round mil cfg start w
                           else progress_round mil cfg start len written w)
      in (res, w'\<lparr>wl_calls := wl_calls w + 1\<rparr>, WroteAt (wl_offset w) asked written # es))"

lemma retry_progress:
  "\<not> m \<le> (z :: u8) \<Longrightarrow> unat m - unat (z + 1) < unat m - unat z"
  by unat_arith

lemma zero_round_next:
  assumes "zero_round mil cfg start w = (None, w', es)"
  shows "wl_offset w' = wl_offset w \<and> wl_zeroWriteRetries w < wc_maxZeroWriteRetries cfg \<and>
    wl_zeroWriteRetries w' = wl_zeroWriteRetries w + 1"
  using assms by (auto simp: zero_round_def Let_def split: if_splits)

lemma progress_round_next:
  assumes "progress_round mil cfg start len n w = (res, w', es)"
  shows "wl_offset w' = wl_offset w + n \<and> wl_zeroWriteRetries w' = 0"
  using assms by (auto simp: progress_round_def Let_def split: if_splits)

lemma write_round_next:
  assumes "write_round client mil cfg start len w = (None, w', es)"
  shows "wl_offset w < wl_offset w' \<or> wl_offset w' = wl_offset w \<and>
    unat (wc_maxZeroWriteRetries cfg) - unat (wl_zeroWriteRetries w') <
    unat (wc_maxZeroWriteRetries cfg) - unat (wl_zeroWriteRetries w)"
  using assms
  by (auto simp: write_round_def Let_def not_le split: if_splits prod.splits
      dest!: zero_round_next progress_round_next intro!: retry_progress)

function write_rounds ::
    "(nat \<Rightarrow> nat \<Rightarrow> nat) \<Rightarrow> (nat \<Rightarrow> u32) \<Rightarrow> write_config \<Rightarrow> u32 \<Rightarrow> nat \<Rightarrow> write_loop \<Rightarrow>
     bool \<times> write_effect list" where
  "write_rounds client mil cfg start len w =
     (if wl_offset w < len then
        (case write_round client mil cfg start len w of
           (Some res, w', es) \<Rightarrow> (res, es)
         | (None, w', es) \<Rightarrow>
             (let (res, more) = write_rounds client mil cfg start len w' in (res, es @ more)))
      else (True, []))"
  by pat_completeness auto
termination
  by (relation "measures [\<lambda>(client, mil, cfg, start, len, w). len - wl_offset w,
    \<lambda>(client, mil, cfg, start, len, w).
      unat (wc_maxZeroWriteRetries cfg) - unat (wl_zeroWriteRetries w)]")
    (auto dest!: sym [THEN write_round_next])

declare write_rounds.simps [simp del]

text \<open>\<open>None\<close> is the null data pointer.\<close>

definition writeAll ::
    "(nat \<Rightarrow> nat \<Rightarrow> nat) \<Rightarrow> (nat \<Rightarrow> u32) \<Rightarrow> u8 list option \<Rightarrow> nat \<Rightarrow> write_config \<Rightarrow>
     bool \<times> write_effect list" where
  "writeAll client mil data len cfg =
     (if len = 0 then (True, [])
      else case data of None \<Rightarrow> (False, [])
      | Some bytes \<Rightarrow> write_rounds client mil cfg (mil 0) len
          \<lparr> wl_offset = 0, wl_zeroWriteRetries = 0, wl_backoffMs = wc_backoffStartMs cfg, wl_calls = 0,
            wl_reads = 1 \<rparr>)"

section \<open>What arrives\<close>

text \<open>The bytes the client accepted, in order, and the writes it was asked for.\<close>

fun accepted :: "u8 list \<Rightarrow> write_effect list \<Rightarrow> u8 list" where
  "accepted bytes [] = []"
| "accepted bytes (WroteAt offset asked n # es) = take n (take asked (drop offset bytes)) @ accepted bytes es"
| "accepted bytes (Service d # es) = accepted bytes es"

lemma accepted_append: "accepted bytes (es @ fs) = accepted bytes es @ accepted bytes fs"
  by (induction bytes es rule: accepted.induct) simp_all

fun writes :: "write_effect list \<Rightarrow> nat" where
  "writes [] = 0"
| "writes (WroteAt offset asked n # es) = Suc (writes es)"
| "writes (Service d # es) = writes es"

lemma writes_append: "writes (es @ fs) = writes es + writes fs"
  by (induction es rule: writes.induct) simp_all

text \<open>The client's contract: it never accepts more than it was given.\<close>

definition honest_client :: "(nat \<Rightarrow> nat \<Rightarrow> nat) \<Rightarrow> bool" where
  "honest_client client \<longleftrightarrow> (\<forall>k n. client k n \<le> n)"

lemma round_services:
  "zero_round mil cfg start w = (res, w', es) \<Longrightarrow> accepted bytes es = [] \<and> writes es = 0"
  "progress_round mil cfg start len n w = (res, w', es) \<Longrightarrow> accepted bytes es = [] \<and> writes es = 0"
  by (auto simp: zero_round_def progress_round_def Let_def split: if_splits)

lemma zero_round_offset: "zero_round mil cfg start w = (res, w', es) \<Longrightarrow> wl_offset w' = wl_offset w"
  by (auto simp: zero_round_def Let_def split: if_splits)

lemma rounds_fail:
  "zero_round mil cfg start w = (Some b, w', es) \<Longrightarrow> \<not> b"
  "progress_round mil cfg start len n w = (Some b, w', es) \<Longrightarrow> \<not> b \<and> wl_offset w' < len"
  by (auto simp: zero_round_def progress_round_def Let_def split: if_splits)

lemma write_round_accepted:
  assumes "honest_client client" "wl_offset w < len"
    and "write_round client mil cfg start len w = (res, w', es)"
  shows "wl_offset w \<le> wl_offset w' \<and> wl_offset w' \<le> len \<and> (res \<noteq> None \<longrightarrow> res = Some False \<and> wl_offset w' < len) \<and>
    writes es = 1 \<and>
    accepted bytes es = take (wl_offset w' - wl_offset w) (drop (wl_offset w) bytes)"
proof -
  let ?n = "client (wl_calls w) (len - wl_offset w)"
  have n: "?n \<le> len - wl_offset w" using assms(1) by (simp add: honest_client_def)
  show ?thesis
  proof (cases "?n = 0")
    case True
    with assms(3) obtain v fs where z: "zero_round mil cfg start w = (res, v, fs)" "wl_offset w' = wl_offset v"
      "es = WroteAt (wl_offset w) (len - wl_offset w) 0 # fs"
      by (auto simp: write_round_def Let_def split: prod.splits)
    with assms(2) show ?thesis
      using zero_round_offset [OF z(1)] round_services(1) [OF z(1), of bytes] rounds_fail(1) by (cases res) fastforce+
  next
    case False
    with assms(3) obtain v fs where p: "progress_round mil cfg start len ?n w = (res, v, fs)"
      "wl_offset w' = wl_offset v" "es = WroteAt (wl_offset w) (len - wl_offset w) ?n # fs"
      by (auto simp: write_round_def Let_def split: prod.splits)
    with assms(2) n show ?thesis
      using progress_round_next [OF p(1)] round_services(2) [OF p(1), of bytes] rounds_fail(2)
      by (cases res) (fastforce simp: min_absorb1)+
  qed
qed

lemma take_drop_step:
  "a \<le> b \<Longrightarrow> b \<le> c \<Longrightarrow> take (b - a) (drop a xs) @ take (c - b) (drop b xs) = take (c - a) (drop a xs)"
  by (metis (no_types, lifting) add_diff_inverse_nat diff_add_assoc2 drop_drop le_add_diff_inverse
      le_add_diff_inverse2 not_le take_add)

lemma write_rounds_accepted:
  assumes "honest_client client" "wl_offset w \<le> len" "write_rounds client mil cfg start len w = (ok, es)"
  shows "\<exists>m. wl_offset w \<le> m \<and> m \<le> len \<and> (ok \<longleftrightarrow> m = len) \<and>
    accepted bytes es = take (m - wl_offset w) (drop (wl_offset w) bytes)"
  using assms
proof (induction client mil cfg start len w arbitrary: ok es rule: write_rounds.induct)
  case (1 client mil cfg start len w)
  show ?case
  proof (cases "wl_offset w < len")
    case False
    with "1.prems" show ?thesis by (auto simp: write_rounds.simps [of client mil cfg start len w])
  next
    case lt: True
    obtain res w' fs where r: "write_round client mil cfg start len w = (res, w', fs)"
      by (cases "write_round client mil cfg start len w")
    note step = write_round_accepted [OF "1.prems"(1) lt r, of bytes]
    show ?thesis
    proof (cases res)
      case (Some b)
      with lt r step "1.prems"(3) show ?thesis
        by (auto simp: write_rounds.simps [of client mil cfg start len w])
    next
      case None
      obtain gs where gs: "write_rounds client mil cfg start len w' = (ok, gs)" "es = fs @ gs"
        using lt r None "1.prems"(3)
        by (auto simp: write_rounds.simps [of client mil cfg start len w] split: prod.splits)
      from "1.IH" [OF lt r [symmetric] None refl "1.prems"(1) _ gs(1)] step
      obtain m where "wl_offset w' \<le> m" "m \<le> len" "ok \<longleftrightarrow> m = len"
        "accepted bytes gs = take (m - wl_offset w') (drop (wl_offset w') bytes)" by auto
      with step gs(2) show ?thesis
        by (auto simp: accepted_append take_drop_step intro!: exI [of _ m])
    qed
  qed
qed

section \<open>How often it is asked\<close>

abbreviation retry_limit :: "write_config \<Rightarrow> nat" where
  "retry_limit cfg \<equiv> unat (wc_maxZeroWriteRetries cfg)"

lemma write_round_credit:
  assumes "honest_client client" "wl_offset w < len" "unat (wl_zeroWriteRetries w) \<le> retry_limit cfg"
    and "write_round client mil cfg start len w = (None, w', es)"
  shows "unat (wl_zeroWriteRetries w') \<le> retry_limit cfg \<and>
    (wl_offset w' = wl_offset w \<and> unat (wl_zeroWriteRetries w') = Suc (unat (wl_zeroWriteRetries w)) \<or>
     wl_offset w < wl_offset w' \<and> wl_zeroWriteRetries w' = 0)"
proof -
  have inc: "unat z < retry_limit cfg \<Longrightarrow> unat (z + 1) = Suc (unat z)" for z :: u8
    by unat_arith
  from assms(4) show ?thesis
    by (auto simp: write_round_def Let_def word_less_nat_alt inc split: if_splits prod.splits
        dest!: zero_round_next progress_round_next)
qed

lemma write_rounds_calls:
  assumes "honest_client client" "unat (wl_zeroWriteRetries w) \<le> retry_limit cfg"
    and "wl_offset w < len \<or> wl_zeroWriteRetries w = 0"
  shows "writes (snd (write_rounds client mil cfg start len w)) + unat (wl_zeroWriteRetries w) \<le>
    (len - wl_offset w) * (retry_limit cfg + 1)"
  using assms
proof (induction client mil cfg start len w rule: write_rounds.induct)
  case (1 client mil cfg start len w)
  show ?case
  proof (cases "wl_offset w < len")
    case False
    with "1.prems" show ?thesis by (auto simp: write_rounds.simps [of client mil cfg start len w])
  next
    case lt: True
    obtain res w' fs where r: "write_round client mil cfg start len w = (res, w', fs)"
      by (cases "write_round client mil cfg start len w")
    note one = write_round_accepted [OF "1.prems"(1) lt r]
    have room: "Suc (retry_limit cfg) \<le> (len - wl_offset w) * (retry_limit cfg + 1)"
      using lt by (cases "len - wl_offset w") auto
    show ?thesis
    proof (cases res)
      case (Some b)
      with lt r one room "1.prems"(2) show ?thesis
        by (simp add: write_rounds.simps [of client mil cfg start len w])
    next
      case None
      note credit = write_round_credit [OF "1.prems"(1) lt "1.prems"(2) r [unfolded None]]
      then have "writes (snd (write_rounds client mil cfg start len w')) + unat (wl_zeroWriteRetries w') \<le>
          (len - wl_offset w') * (retry_limit cfg + 1)"
        using "1.IH" [OF lt r [symmetric] None refl "1.prems"(1)] lt by auto
      moreover have "(len - wl_offset w') * (retry_limit cfg + 1) + Suc (retry_limit cfg) \<le>
          (len - wl_offset w) * (retry_limit cfg + 1)" if "wl_offset w < wl_offset w'"
      proof -
        have "Suc (len - wl_offset w') \<le> len - wl_offset w" using that lt one by linarith
        from mult_le_mono1 [OF this, of "retry_limit cfg + 1"] show ?thesis by simp
      qed
      ultimately show ?thesis
        using lt r None one credit "1.prems"(2)
        by (auto simp: write_rounds.simps [of client mil cfg start len w] writes_append
            case_prod_unfold Let_def)
    qed
  qed
qed

text \<open>
  Claim C25. With a client that never takes more than it is given, the loop ends after at most
  one call per byte and allowed retry, what the client took is a prefix of the data, and the
  result is True exactly when that prefix is all of it.
\<close>

theorem write_all_delivers:
  fixes bytes :: "u8 list" and cfg :: write_config and client :: "nat \<Rightarrow> nat \<Rightarrow> nat"
    and mil :: "nat \<Rightarrow> u32" and len :: nat
  assumes "honest_client client"
  defines "r \<equiv> writeAll client mil (Some bytes) len cfg"
  shows "(\<exists>m\<le>len. accepted bytes (snd r) = take m bytes \<and> (fst r \<longleftrightarrow> m = len)) \<and>
    writes (snd r) \<le> len * (unat (wc_maxZeroWriteRetries cfg) + 1)"
proof (cases "len = 0")
  case True
  then show ?thesis by (simp add: r_def writeAll_def)
next
  case False
  let ?w = "\<lparr> wl_offset = 0, wl_zeroWriteRetries = 0, wl_backoffMs = wc_backoffStartMs cfg, wl_calls = 0,
            wl_reads = 1 \<rparr>"
  have r: "r = write_rounds client mil cfg (mil 0) len ?w"
    using False by (simp add: r_def writeAll_def)
  obtain ok es where eq: "write_rounds client mil cfg (mil 0) len ?w = (ok, es)"
    by (cases "write_rounds client mil cfg (mil 0) len ?w")
  have "\<exists>m\<le>len. accepted bytes es = take m bytes \<and> (ok \<longleftrightarrow> m = len)"
    using write_rounds_accepted [OF assms(1) _ eq, of bytes] by auto
  moreover have "writes es \<le> len * (retry_limit cfg + 1)"
    using write_rounds_calls [OF assms(1), of ?w cfg len mil "mil 0"] False by (simp add: eq [simplified])
  ultimately show ?thesis unfolding r eq by simp
qed

text \<open>A client that takes two bytes at most and nothing at its second call.\<close>

definition sample_client :: "nat \<Rightarrow> nat \<Rightarrow> nat" where
  "sample_client k n = (if k = 1 then 0 else min 2 n)"

theorem write_all_delivers_witness:
  "fst (writeAll sample_client (\<lambda>k. word_of_nat k) (Some [1, 2, 3]) 3 kDefaultConfig) \<and>
   accepted [1, 2, 3] (snd (writeAll sample_client (\<lambda>k. word_of_nat k) (Some [1, 2, 3]) 3 kDefaultConfig)) =
     [1, 2, 3]"
proof -
  have "honest_client sample_client" by (simp add: honest_client_def sample_client_def)
  moreover have "fst (writeAll sample_client (\<lambda>k. word_of_nat k) (Some [1, 2, 3]) 3 kDefaultConfig)"
    by code_simp
  ultimately show ?thesis
    using write_all_delivers [where client = sample_client and mil = "\<lambda>k. word_of_nat k"
        and bytes = "[1, 2, 3]" and len = 3 and cfg = kDefaultConfig] by auto
qed

end
