(* ===== verification/V1_Command_State.thy ===== *)
theory V1_Command_State
  imports V1_Request_Gates
begin

text \<open>
  The small objects the command channel of the Bluetooth client is made of: the publication
  gate of a session and the result and owner types (\<open>src/ble_client.h\<close>), the counter that
  stamps notifications, the continuity of the alert input that an automatic mute rests on
  (same file), and the receipt of volume writes (\<open>src/ble_volume_write_receipt.h\<close>). Each is
  a value with one function per member; the atomics and the short critical sections make each
  function a single step.
\<close>

section \<open>Results and owners\<close>

datatype send_result = SendSent | SendNotYet | SendInFlight | SendFailed

datatype command_owner =
    OwnLegacy | OwnConnectedFollowup | OwnAutoPush | OwnSettingsRecapture | OwnFactoryReset
  | OwnPhoneProxy | OwnAlertStreamRecovery | OwnTapGesture | OwnInTheBox | OwnSpeedVolume
  | OwnVolumeFade | OwnQuietRestore | OwnDisplayPolicy | OwnWifiCommand

datatype ble_state =
    BleDisconnected | BleScanning | BleScanStopping | BleConnecting | BleConnectingWait
  | BleDiscovering | BleSubscribing | BleSubscribeYield | BleConnected | BleQuiescing

section \<open>The publication gate\<close>

text \<open>The gate holds the generation of the open session, or zero.\<close>

type_synonym publication_gate = u32

definition gate_open :: "u32 \<Rightarrow> publication_gate" where
  "gate_open generation = generation"

definition gate_close :: publication_gate where
  "gate_close = 0"

definition gate_accepts :: "publication_gate \<Rightarrow> u32 \<Rightarrow> bool" where
  "gate_accepts token generation \<longleftrightarrow> generation \<noteq> 0 \<and> token = generation"

text \<open>The claim is a compare-and-exchange of the generation with itself.\<close>

definition gate_claim :: "publication_gate \<Rightarrow> u32 \<Rightarrow> bool \<times> publication_gate" where
  "gate_claim token generation =
     (if generation = 0 then (False, token)
      else if token = generation then (True, generation) else (False, token))"

lemma gate_closed [simp]: "\<not> gate_accepts gate_close g"
  by (auto simp: gate_accepts_def gate_close_def)

lemma gate_claim_accepts: "gate_claim token g = (gate_accepts token g, token)"
  by (auto simp: gate_claim_def gate_accepts_def)

section \<open>The notification counter\<close>

text \<open>Zero is the sentinel for "no provenance", so the counter skips it.\<close>

definition skip_zero :: "u32 \<Rightarrow> u32" where
  "skip_zero next_value = (if next_value = 0 then 1 else next_value)"

definition noteV1NotificationIngress :: "u32 \<Rightarrow> u32" where
  "noteV1NotificationIngress current = skip_zero (current + 1)"

lemma skip_zero_nonzero [simp]: "skip_zero x \<noteq> 0"
  by (simp add: skip_zero_def)

lemma ingress_nonzero [simp]: "noteV1NotificationIngress x \<noteq> 0"
  by (simp add: noteV1NotificationIngress_def)

section \<open>Continuity of the alert input\<close>

record alert_input =
  ai_session :: u32
  ai_lossIngress :: u32
  ai_continuous :: bool
  ai_revision :: u32

definition resetV1AlertInput :: "u32 \<Rightarrow> alert_input \<Rightarrow> alert_input" where
  "resetV1AlertInput generation a =
     a\<lparr>ai_session := generation, ai_lossIngress := 0, ai_continuous := generation \<noteq> 0,
       ai_revision := ai_revision a + 1\<rparr>"

definition noteV1NotificationLoss :: "u32 \<Rightarrow> u32 \<Rightarrow> alert_input \<Rightarrow> alert_input" where
  "noteV1NotificationLoss generation ingress a =
     (if generation \<noteq> 0 \<and> generation = ai_session a \<and> ingress \<noteq> 0
      then a\<lparr>ai_lossIngress := (if ai_continuous a \<or> ai_lossIngress a = 0 \<or>
                                   later_than ingress (ai_lossIngress a)
                                then ingress else ai_lossIngress a),
             ai_continuous := False, ai_revision := ai_revision a + 1\<rparr>
      else a)"

definition qualifyV1AlertInput :: "u32 \<Rightarrow> u32 \<Rightarrow> alert_input \<Rightarrow> alert_input" where
  "qualifyV1AlertInput generation ingress a =
     (if generation \<noteq> 0 \<and> generation = ai_session a \<and> \<not> ai_continuous a \<and> ingress \<noteq> 0 \<and>
         later_than ingress (ai_lossIngress a)
      then a\<lparr>ai_continuous := True\<rparr> else a)"

text \<open>The answer and the revision it was given at.\<close>

definition hasContinuousV1AlertInput :: "alert_input \<Rightarrow> bool \<times> u32" where
  "hasContinuousV1AlertInput a = (ai_continuous a, ai_revision a)"

definition permitsInTheBoxMute :: "alert_input \<Rightarrow> u32 \<Rightarrow> bool" where
  "permitsInTheBoxMute a revision \<longleftrightarrow> ai_continuous a \<and> revision = ai_revision a"

datatype alert_input_event = AiReset u32 | AiLoss u32 u32 | AiQualify u32 u32

fun ai_step :: "alert_input \<Rightarrow> alert_input_event \<Rightarrow> alert_input" where
  "ai_step a (AiReset g) = resetV1AlertInput g a"
| "ai_step a (AiLoss g x) = noteV1NotificationLoss g x a"
| "ai_step a (AiQualify g x) = qualifyV1AlertInput g x a"

lemmas ai_ops = resetV1AlertInput_def noteV1NotificationLoss_def qualifyV1AlertInput_def

text \<open>
  Interruptions are what withdraws the authority: a reset, and a loss reported for the
  current session. The revision counts them, modulo the word.
\<close>

fun interrupts :: "alert_input \<Rightarrow> alert_input_event \<Rightarrow> nat" where
  "interrupts a (AiReset g) = 1"
| "interrupts a (AiLoss g x) = (if g \<noteq> 0 \<and> g = ai_session a \<and> x \<noteq> 0 then 1 else 0)"
| "interrupts a (AiQualify g x) = 0"

lemma revision_step: "ai_revision (ai_step a e) = ai_revision a + word_of_nat (interrupts a e)"
  by (cases e) (auto simp: ai_ops)

lemma revision_counts:
  "ai_revision (foldl ai_step a es) = ai_revision a + word_of_nat (total ai_step interrupts a es)"
  by (induction es arbitrary: a) (simp_all add: revision_step ac_simps)

lemma unat_u32: "n < 2 ^ 32 \<Longrightarrow> unat (word_of_nat n :: u32) = n"
  by (simp add: unat_of_nat take_bit_nat_eq_self)

lemma u32_of_nat_zero: "n < 2 ^ 32 \<Longrightarrow> (word_of_nat n :: u32) = 0 \<longleftrightarrow> n = 0"
  using unat_u32 [of n] by (auto simp del: unat_of_nat)

lemma unbroken_input:
  assumes "total ai_step interrupts a es < 2 ^ 32" "permitsInTheBoxMute (foldl ai_step a es) (ai_revision a)"
  shows "total ai_step interrupts a es = 0"
  using assms by (simp add: permitsInTheBoxMute_def revision_counts u32_of_nat_zero)

text \<open>A loss stays a loss until a notification stamped after it qualifies the input again.\<close>

lemma loss_needs_newer:
  assumes "\<not> ai_continuous a" "ai_continuous (ai_step a e)"
  shows "(\<exists>g. e = AiReset g \<and> g \<noteq> 0) \<or>
    (\<exists>x. e = AiQualify (ai_session a) x \<and> later_than x (ai_lossIngress a))"
  using assms by (cases e) (auto simp: ai_ops split: if_splits)

section \<open>The receipt of volume writes\<close>

record volume_receipt =
  vr_revision :: u32
  vr_session :: u32
  vr_ingressBoundary :: u32
  vr_rejected :: bool

definition new_receipt :: volume_receipt where
  "new_receipt = \<lparr>vr_revision = 0, vr_session = 0, vr_ingressBoundary = 0, vr_rejected = False\<rparr>"

definition receipt_sent :: "u32 \<Rightarrow> u32 \<Rightarrow> volume_receipt \<Rightarrow> volume_receipt" where
  "receipt_sent session ingressBoundary r =
     r\<lparr>vr_revision := skip_zero (vr_revision r + 1), vr_session := session,
       vr_ingressBoundary := ingressBoundary, vr_rejected := False\<rparr>"

definition receipt_reject :: "u8 \<Rightarrow> u32 \<Rightarrow> u32 \<Rightarrow> volume_receipt \<Rightarrow> volume_receipt" where
  "receipt_reject packetId session ingress r =
     (if packetId = 0x39 \<and> vr_revision r \<noteq> 0 \<and> session = vr_session r \<and> ingress \<noteq> 0 \<and>
         later_than ingress (vr_ingressBoundary r)
      then r\<lparr>vr_rejected := True\<rparr> else r)"

definition receipt_rejected :: "volume_receipt \<Rightarrow> u32 \<Rightarrow> u32 \<Rightarrow> bool" where
  "receipt_rejected r revision session \<longleftrightarrow>
     revision \<noteq> 0 \<and> revision = vr_revision r \<and> session = vr_session r \<and> vr_rejected r"

datatype receipt_event = WriteSent u32 u32 | WriteRejected u8 u32 u32

fun receipt_step :: "volume_receipt \<Rightarrow> receipt_event \<Rightarrow> volume_receipt" where
  "receipt_step r (WriteSent s b) = receipt_sent s b r"
| "receipt_step r (WriteRejected i s x) = receipt_reject i s x r"

text \<open>
  The specification reads the history, newest event first: the last write, how many there
  were, and whether a rejection that came in after its boundary followed it.
\<close>

fun latest_write :: "receipt_event list \<Rightarrow> (u32 \<times> u32) option" where
  "latest_write [] = None"
| "latest_write (WriteSent s b # es) = Some (s, b)"
| "latest_write (WriteRejected i s x # es) = latest_write es"

fun writes_sent :: "receipt_event list \<Rightarrow> nat" where
  "writes_sent [] = 0"
| "writes_sent (WriteSent s b # es) = Suc (writes_sent es)"
| "writes_sent (WriteRejected i s x # es) = writes_sent es"

fun rejection_since :: "receipt_event list \<Rightarrow> bool" where
  "rejection_since [] = False"
| "rejection_since (WriteSent s b # es) = False"
| "rejection_since (WriteRejected i s x # es) =
     (rejection_since es \<or>
      (case latest_write es of None \<Rightarrow> False
       | Some (s', b) \<Rightarrow> i = 0x39 \<and> s = s' \<and> x \<noteq> 0 \<and> later_than x b))"

fun nth_revision :: "nat \<Rightarrow> u32" where
  "nth_revision 0 = 0"
| "nth_revision (Suc n) = word_of_nat (n mod (2 ^ 32 - 1) + 1)"

lemma unat_nth_revision: "unat (nth_revision (Suc n)) = n mod (2 ^ 32 - 1) + 1"
proof -
  have "n mod (2 ^ 32 - 1) < 2 ^ 32 - (1 :: nat)" by (rule mod_less_divisor) simp
  then have "n mod (2 ^ 32 - 1) + 1 < (2 :: nat) ^ 32" by simp
  then show ?thesis unfolding nth_revision.simps by (rule unat_u32)
qed

lemma nth_revision_zero [simp]: "nth_revision n = 0 \<longleftrightarrow> n = 0"
proof (cases n)
  case (Suc m)
  then show ?thesis using unat_nth_revision [of m] by (metis add_is_0 nat.distinct(1) one_neq_zero unat_0)
qed simp

lemma nth_revision_Suc: "skip_zero (nth_revision n + 1) = nth_revision (Suc n)"
proof (cases n)
  case (Suc m)
  let ?M = "2 ^ 32 - (1 :: nat)"
  show ?thesis
  proof (cases "m mod ?M + 1 = ?M")
    case True
    then have "nth_revision n + 1 = (0 :: u32)" by (simp add: Suc)
    moreover have "Suc m mod ?M = 0" using True by (simp add: mod_Suc)
    ultimately show ?thesis by (simp add: Suc skip_zero_def)
  next
    case False
    then have next_mod: "Suc m mod ?M = Suc (m mod ?M)" by (simp add: mod_Suc)
    have "m mod ?M < ?M" by simp
    with False have lt: "m mod ?M + 2 < 2 ^ 32" by simp
    have "nth_revision n + 1 = (word_of_nat (m mod ?M + 2) :: u32)" by (simp add: Suc)
    moreover have "(word_of_nat (m mod ?M + 2) :: u32) \<noteq> 0"
      using u32_of_nat_zero [OF lt] by simp
    ultimately show ?thesis by (simp add: skip_zero_def next_mod [simplified] Suc)
  qed
qed (simp add: skip_zero_def)

lemma receipt_tracks:
  "let r = foldr (\<lambda>e r. receipt_step r e) es new_receipt in
     vr_revision r = nth_revision (writes_sent es) \<and>
     (case latest_write es of None \<Rightarrow> writes_sent es = 0
      | Some (s, b) \<Rightarrow> writes_sent es \<noteq> 0 \<and> vr_session r = s \<and> vr_ingressBoundary r = b) \<and>
     vr_rejected r = rejection_since es"
proof (induction es)
  case (Cons e es)
  show ?case
  proof (cases e)
    case (WriteSent s b)
    with Cons show ?thesis by (simp add: receipt_sent_def Let_def nth_revision_Suc del: nth_revision.simps)
  next
    case (WriteRejected i s x)
    with Cons show ?thesis
      by (cases "latest_write es") (auto simp: receipt_reject_def Let_def split: prod.splits)
  qed
qed (simp add: new_receipt_def)

end
