(* ===== verification/V1_Tap_Gesture.thy ===== *)
theory V1_Tap_Gesture
  imports V1_Parser_Types V1_Command_State
begin

text \<open>
  Two small modules behind the touch screen and the display: the persisted alert
  (\<open>src/modules/alert_persistence\<close>) and the tap gestures
  (\<open>src/modules/touch/tap_gesture_module.cpp\<close>), which mute a sounding alert with one tap and
  change the profile with three.
\<close>

section \<open>The persisted alert\<close>

record alert_persistence =
  ap_alert :: alert_data
  ap_clearedTime :: u32
  ap_active :: bool

definition new_persistence :: alert_persistence where
  "new_persistence = \<lparr> ap_alert = default_alert, ap_clearedTime = 0, ap_active = False \<rparr>"

definition setPersistedAlert :: "alert_data \<Rightarrow> alert_persistence \<Rightarrow> alert_persistence" where
  "setPersistedAlert a m = m\<lparr>ap_alert := a, ap_active := False, ap_clearedTime := 0\<rparr>"

definition startPersistence :: "u32 \<Rightarrow> alert_persistence \<Rightarrow> alert_persistence" where
  "startPersistence now m =
     (if \<not> ad_isValid (ap_alert m) then m
      else if ap_active m then m
      else m\<lparr>ap_clearedTime := now, ap_active := True\<rparr>)"

definition clearPersistence :: "alert_persistence \<Rightarrow> alert_persistence" where
  "clearPersistence m = m\<lparr>ap_alert := default_alert, ap_active := False, ap_clearedTime := 0\<rparr>"

definition shouldShowPersisted :: "alert_persistence \<Rightarrow> u32 \<Rightarrow> u32 \<Rightarrow> bool" where
  "shouldShowPersisted m now persistMs \<longleftrightarrow> ap_active m \<and> elapsed_ms now (ap_clearedTime m) < persistMs"

lemma start_idle: "ap_active m \<Longrightarrow> fold startPersistence ts m = m"
  by (induction ts) (simp_all add: startPersistence_def)

text \<open>
  A valid alert that is persisted is shown for exactly the requested time after the
  first start; the repeated starts of every idle frame do not extend it, and without a valid
  alert nothing is shown.
\<close>

theorem persistence_window:
  "shouldShowPersisted (fold startPersistence (t # ts) (setPersistedAlert a m)) now ms \<longleftrightarrow>
     ad_isValid a \<and> elapsed_ms now t < ms"
proof (cases "ad_isValid a")
  case True
  then have "fold startPersistence (t # ts) (setPersistedAlert a m) =
      startPersistence t (setPersistedAlert a m)"
    by (simp add: start_idle startPersistence_def setPersistedAlert_def)
  with True show ?thesis
    by (simp add: shouldShowPersisted_def startPersistence_def setPersistedAlert_def)
next
  case False
  then have "fold startPersistence xs (setPersistedAlert a m) = setPersistedAlert a m" for xs
    by (induction xs) (simp_all add: startPersistence_def setPersistedAlert_def)
  from this [of "t # ts"] False show ?thesis
    unfolding shouldShowPersisted_def by (simp only:) (simp add: setPersistedAlert_def)
qed

section \<open>Tap gestures\<close>

definition PROFILE_CHANGE_TAP_COUNT :: nat where "PROFILE_CHANGE_TAP_COUNT = 3"
definition TAP_WINDOW_MS :: u32 where "TAP_WINDOW_MS = 600"
definition TAP_DEBOUNCE_MS :: u32 where "TAP_DEBOUNCE_MS = 150"
definition MUTE_RETRY_INTERVAL_MS :: u32 where "MUTE_RETRY_INTERVAL_MS = 25"
definition TOUCH_POLL_INTERVAL_MS :: u32 where "TOUCH_POLL_INTERVAL_MS = 25"

text \<open>
  What one pass does to the rest of the firmware, in order. The answers of the other modules
  may depend on it: \<open>te_inFlight\<close> is \<open>commandInFlight(TapGesture)\<close>, \<open>te_sendMute\<close> the quiet
  coordinator's \<open>sendMuteResult\<close>, both after the effects of the pass so far.
\<close>

datatype tap_effect =
    CancelCommand
  | SendMute bool
  | BeginProfileCycle int
  | SetActiveSlot int
  | ShowIdle
  | ClearPersisted
  | DrawProfileIndicator int

record tap_environment =
  te_inFlight :: "tap_effect list \<Rightarrow> bool"
  te_sendMute :: "tap_effect list \<Rightarrow> bool \<Rightarrow> send_result"
  te_activeSlot :: int
  te_slotSaved :: bool
  te_tapEdge :: bool

text \<open>\<open>tg_wired\<close>: all required pointers were given to \<open>begin\<close>.\<close>

record tap_gesture =
  tg_wired :: bool
  tg_hasQuiet :: bool
  tg_hasCycleCallback :: bool
  tg_lastTapTime :: u32
  tg_tapCount :: nat
  tg_nextTouchPollMs :: u32
  tg_touchPollScheduled :: bool
  tg_observedAlertLifetime :: u32
  tg_pendingMuteCommand :: bool
  tg_pendingMuteValue :: bool
  tg_pendingMuteLastAttemptMs :: u32

definition new_tap_gesture :: tap_gesture where
  "new_tap_gesture = \<lparr> tg_wired = False, tg_hasQuiet = False, tg_hasCycleCallback = False,
     tg_lastTapTime = 0, tg_tapCount = 0, tg_nextTouchPollMs = 0, tg_touchPollScheduled = False,
     tg_observedAlertLifetime = 0, tg_pendingMuteCommand = False, tg_pendingMuteValue = False,
     tg_pendingMuteLastAttemptMs = 0 \<rparr>"

definition tap_begin :: "bool \<Rightarrow> bool \<Rightarrow> bool \<Rightarrow> parser option \<Rightarrow> tap_gesture \<Rightarrow> tap_gesture" where
  "tap_begin wired hasQuiet hasCallback parser t =
     t\<lparr>tg_wired := wired \<and> parser \<noteq> None, tg_hasQuiet := hasQuiet, tg_hasCycleCallback := hasCallback,
       tg_observedAlertLifetime := (case parser of None \<Rightarrow> 0 | Some p \<Rightarrow> p_alertLifetime p)\<rparr>"

type_synonym tap_pass = "tap_gesture \<times> tap_effect list"

abbreviation softMuted :: "parser \<Rightarrow> bool" where
  "softMuted p \<equiv> ds_softMuted (p_displayState p)"

text \<open>A new alert lifetime cancels a pending mute and partial taps.\<close>

definition observe_lifetime :: "tap_environment \<Rightarrow> parser \<Rightarrow> tap_pass \<Rightarrow> tap_pass" where
  "observe_lifetime env p = (\<lambda>(t, es).
     if p_alertLifetime p \<noteq> tg_observedAlertLifetime t
     then (t\<lparr>tg_observedAlertLifetime := p_alertLifetime p, tg_tapCount := 0, tg_pendingMuteCommand := False\<rparr>,
           if te_inFlight env es then es @ [CancelCommand] else es)
     else (t, es))"

definition retry_mute :: "tap_environment \<Rightarrow> parser \<Rightarrow> u32 \<Rightarrow> tap_pass \<Rightarrow> tap_pass" where
  "retry_mute env p nowMs = (\<lambda>(t, es).
     if \<not> tg_pendingMuteCommand t then (t, es)
     else
       let desiredStateAlreadyCommitted = (softMuted p = tg_pendingMuteValue t);
           inFlight = te_inFlight env es
       in if \<not> hasAlerts p \<or> \<not> tg_hasQuiet t then
            (t\<lparr>tg_pendingMuteCommand := False\<rparr>, if inFlight then es @ [CancelCommand] else es)
          else if desiredStateAlreadyCommitted \<and> \<not> inFlight then (t\<lparr>tg_pendingMuteCommand := False\<rparr>, es)
          else if nowMs - tg_pendingMuteLastAttemptMs t \<ge> MUTE_RETRY_INTERVAL_MS then
            (let t = t\<lparr>tg_pendingMuteLastAttemptMs := nowMs\<rparr>;
                 result = te_sendMute env es (tg_pendingMuteValue t)
             in (if result \<noteq> SendNotYet \<and> result \<noteq> SendInFlight then t\<lparr>tg_pendingMuteCommand := False\<rparr> else t,
                 es @ [SendMute (tg_pendingMuteValue t)]))
          else (t, es))"

definition performMuteToggle :: "tap_environment \<Rightarrow> parser \<Rightarrow> u32 \<Rightarrow> tap_pass \<Rightarrow> tap_pass" where
  "performMuteToggle env p nowMs = (\<lambda>(t, es).
     if \<not> hasAlerts p then (t, es)
     else
       let newMuted = (\<not> softMuted p);
           (result, es) = (if tg_hasQuiet t then (te_sendMute env es newMuted, es @ [SendMute newMuted])
                           else (SendFailed, es))
       in if result = SendNotYet \<or> result = SendInFlight
          then (t\<lparr>tg_pendingMuteCommand := True, tg_pendingMuteValue := newMuted,
                  tg_pendingMuteLastAttemptMs := nowMs\<rparr>, es)
          else (t, es))"

text \<open>C's remainder truncates towards zero.\<close>

definition next_slot :: "int \<Rightarrow> int" where
  "next_slot s = (if s + 1 < 0 then - ((- (s + 1)) mod 3) else (s + 1) mod 3)"

definition performProfileCycle :: "tap_environment \<Rightarrow> tap_pass \<Rightarrow> tap_pass" where
  "performProfileCycle env = (\<lambda>(t, es).
     let newSlot = next_slot (te_activeSlot env) in
     if tg_hasCycleCallback t then (t, es @ [BeginProfileCycle newSlot])
     else if \<not> te_slotSaved env then (t, es @ [SetActiveSlot newSlot])
     else (t, es @ [SetActiveSlot newSlot, ShowIdle, ClearPersisted, DrawProfileIndicator newSlot]))"

definition reset_taps :: "tap_pass \<Rightarrow> tap_pass" where
  "reset_taps = (\<lambda>(t, es). (t\<lparr>tg_tapCount := 0\<rparr>, es))"

definition handle_tap :: "tap_environment \<Rightarrow> parser \<Rightarrow> u32 \<Rightarrow> bool \<Rightarrow> tap_pass \<Rightarrow> tap_pass" where
  "handle_tap env p nowMs profileCycleAllowed = (\<lambda>(t, es).
     if \<not> hasAlerts p \<and> \<not> profileCycleAllowed then (t, es)
     else if nowMs - tg_lastTapTime t \<ge> TAP_DEBOUNCE_MS then
       let t = t\<lparr>tg_tapCount := (if nowMs - tg_lastTapTime t \<le> TAP_WINDOW_MS then tg_tapCount t + 1 else 1),
                 tg_lastTapTime := nowMs\<rparr>
       in if hasAlerts p \<and> tg_tapCount t = 1 then reset_taps (performMuteToggle env p nowMs (t, es))
          else if \<not> hasAlerts p \<and> tg_tapCount t \<ge> PROFILE_CHANGE_TAP_COUNT
          then reset_taps (performProfileCycle env (t, es))
          else if hasAlerts p then reset_taps (performMuteToggle env p nowMs (t, es))
          else (t, es)
     else (t, es))"

text \<open>One call of \<open>process\<close>: the new state and the effects of the pass.\<close>

definition tap_process :: "tap_environment \<Rightarrow> parser \<Rightarrow> u32 \<Rightarrow> bool \<Rightarrow> tap_gesture \<Rightarrow> tap_pass" where
  "tap_process env p nowMs profileCycleAllowed t =
     (if \<not> tg_wired t then (t, [])
      else
        let (t, es) = observe_lifetime env p (t, []);
            t = (if \<not> profileCycleAllowed then t\<lparr>tg_tapCount := 0\<rparr> else t)
        in if tg_touchPollScheduled t \<and> sint (nowMs - tg_nextTouchPollMs t) < 0 then (t, es)
           else
             let t = t\<lparr>tg_nextTouchPollMs := nowMs + TOUCH_POLL_INTERVAL_MS, tg_touchPollScheduled := True\<rparr>;
                 (t, es) = retry_mute env p nowMs (t, es)
             in if te_tapEdge env then handle_tap env p nowMs profileCycleAllowed (t, es) else (t, es))"

text \<open>Without a client nothing is in flight.\<close>

definition suspendForPresentationOwner :: "tap_environment \<Rightarrow> tap_gesture \<Rightarrow> tap_pass" where
  "suspendForPresentationOwner env t =
     (t\<lparr>tg_lastTapTime := 0, tg_tapCount := 0, tg_touchPollScheduled := False,
        tg_pendingMuteCommand := False, tg_pendingMuteValue := False, tg_pendingMuteLastAttemptMs := 0\<rparr>,
      if te_inFlight env [] then [CancelCommand] else [])"

section \<open>Histories of passes\<close>

datatype tap_event =
    TapPass tap_environment parser u32 bool
  | TapSuspend tap_environment
  | TapBegin bool bool bool "parser option"

fun tap_step :: "tap_gesture \<Rightarrow> tap_event \<Rightarrow> tap_gesture" where
  "tap_step t (TapPass env p now allowed) = fst (tap_process env p now allowed t)"
| "tap_step t (TapSuspend env) = fst (suspendForPresentationOwner env t)"
| "tap_step t (TapBegin w q c p) = tap_begin w q c p t"

fun tap_effects :: "tap_gesture \<Rightarrow> tap_event \<Rightarrow> tap_effect list" where
  "tap_effects t (TapPass env p now allowed) = snd (tap_process env p now allowed t)"
| "tap_effects t (TapSuspend env) = snd (suspendForPresentationOwner env t)"
| "tap_effects t (TapBegin w q c p) = []"

fun changes_profile :: "tap_effect \<Rightarrow> bool" where
  "changes_profile (BeginProfileCycle s) = True"
| "changes_profile (SetActiveSlot s) = True"
| "changes_profile _ = False"

text \<open>Between passes fewer than three taps are collected.\<close>

definition tap_inv :: "tap_gesture \<Rightarrow> bool" where
  "tap_inv t \<longleftrightarrow> tg_tapCount t < PROFILE_CHANGE_TAP_COUNT"

definition profile_changes :: "tap_gesture \<Rightarrow> tap_event \<Rightarrow> nat" where
  "profile_changes t e = length (filter changes_profile (tap_effects t e))"

fun idle_tap :: "tap_gesture \<Rightarrow> tap_event \<Rightarrow> nat" where
  "idle_tap t (TapPass env p now allowed) = (if te_tapEdge env \<and> \<not> hasAlerts p \<and> allowed then 1 else 0)"
| "idle_tap t _ = 0"

text \<open>A stage of the pass that leaves the taps alone and does not change the profile.\<close>

definition tap_neutral :: "tap_pass \<Rightarrow> tap_pass \<Rightarrow> bool" where
  "tap_neutral r r' \<longleftrightarrow> tg_tapCount (fst r') \<le> tg_tapCount (fst r) \<and>
     length (filter changes_profile (snd r')) = length (filter changes_profile (snd r))"

lemma neutral_stages:
  "tap_neutral r (observe_lifetime env p r)" "tap_neutral r (retry_mute env p now r)"
  "tap_neutral r (performMuteToggle env p now r)"
  by (cases r; auto simp: tap_neutral_def observe_lifetime_def retry_mute_def performMuteToggle_def
      Let_def split: prod.splits if_splits)+

lemma reset_taps_sel [simp]:
  "tg_tapCount (fst (reset_taps r)) = 0" "snd (reset_taps r) = snd r"
  by (simp_all add: reset_taps_def case_prod_unfold)

text \<open>During an alert every tap outside the debounce is a mute toggle.\<close>

abbreviation counted_tap :: "u32 \<Rightarrow> tap_gesture \<Rightarrow> tap_gesture" where
  "counted_tap now t \<equiv> t\<lparr>tg_tapCount := (if now - tg_lastTapTime t \<le> TAP_WINDOW_MS then tg_tapCount t + 1 else 1),
     tg_lastTapTime := now\<rparr>"

lemma handle_tap_alert:
  "hasAlerts p \<Longrightarrow> handle_tap env p now allowed (t, es) =
     (if now - tg_lastTapTime t \<ge> TAP_DEBOUNCE_MS
      then reset_taps (performMuteToggle env p now (counted_tap now t, es)) else (t, es))"
  unfolding handle_tap_def Let_def
  by (simp only: prod.case simp_thms if_True if_False if_cancel cong: if_cong)

lemma handle_tap_idle:
  "\<not> hasAlerts p \<Longrightarrow> handle_tap env p now allowed (t, es) =
     (if allowed \<and> now - tg_lastTapTime t \<ge> TAP_DEBOUNCE_MS
      then if tg_tapCount (counted_tap now t) \<ge> PROFILE_CHANGE_TAP_COUNT
           then reset_taps (performProfileCycle env (counted_tap now t, es)) else (counted_tap now t, es)
      else (t, es))"
  by (simp add: handle_tap_def Let_def)

lemma profile_cycle_sel:
  "length (filter changes_profile (snd (performProfileCycle env (t, es)))) =
     Suc (length (filter changes_profile es))"
  "SendMute v \<in> set (snd (performProfileCycle env (t, es))) \<longleftrightarrow> SendMute v \<in> set es"
  by (auto simp: performProfileCycle_def Let_def)

lemma handle_tap_counts:
  fixes t :: tap_gesture and es :: "tap_effect list" and env :: tap_environment and p :: parser
    and now :: u32 and allowed :: bool
  defines "r \<equiv> handle_tap env p now allowed (t, es)"
  assumes "tap_inv t"
  shows "tap_inv (fst r) \<and> 3 * length (filter changes_profile (snd r)) + tg_tapCount (fst r) \<le>
    3 * length (filter changes_profile es) + tg_tapCount t + (if \<not> hasAlerts p \<and> allowed then 1 else 0)"
proof (cases "hasAlerts p")
  case True
  have "tap_neutral (counted_tap now t, es) (performMuteToggle env p now (counted_tap now t, es))"
    by (rule neutral_stages)
  with True assms(2) show ?thesis
    by (simp add: r_def handle_tap_alert tap_neutral_def tap_inv_def PROFILE_CHANGE_TAP_COUNT_def)
next
  case False
  with assms(2) show ?thesis
    by (simp add: r_def handle_tap_idle tap_inv_def PROFILE_CHANGE_TAP_COUNT_def profile_cycle_sel)
qed

text \<open>The two ways through a pass of a wired module.\<close>

lemma tap_process_cases:
  assumes "tg_wired t"
  obtains (throttled) t1 es1 where "observe_lifetime env p (t, []) = (t1, es1)"
      "tap_process env p now allowed t = (if \<not> allowed then t1\<lparr>tg_tapCount := 0\<rparr> else t1, es1)"
  | (polled) t1 es1 t3 r where "observe_lifetime env p (t, []) = (t1, es1)"
      "t3 = (if \<not> allowed then t1\<lparr>tg_tapCount := 0\<rparr> else t1)
         \<lparr>tg_nextTouchPollMs := now + TOUCH_POLL_INTERVAL_MS, tg_touchPollScheduled := True\<rparr>"
      "r = retry_mute env p now (t3, es1)"
      "tap_process env p now allowed t =
         (if te_tapEdge env then handle_tap env p now allowed (fst r, snd r) else (fst r, snd r))"
proof -
  obtain t1 es1 where o: "observe_lifetime env p (t, []) = (t1, es1)" by fastforce
  show ?thesis
  proof (cases "tg_touchPollScheduled (if \<not> allowed then t1\<lparr>tg_tapCount := 0\<rparr> else t1) \<and>
      sint (now - tg_nextTouchPollMs (if \<not> allowed then t1\<lparr>tg_tapCount := 0\<rparr> else t1)) < 0")
    case True
    then show ?thesis by (intro throttled [OF o]) (simp add: tap_process_def assms o Let_def)
  next
    case False
    then show ?thesis
      by (intro polled [OF o refl refl])
        (cases allowed; auto simp: tap_process_def assms o Let_def case_prod_unfold)
  qed
qed

lemma tap_process_counts:
  assumes "tap_inv t"
  shows "tap_inv (fst (tap_process env p now allowed t)) \<and>
    3 * length (filter changes_profile (snd (tap_process env p now allowed t))) +
      tg_tapCount (fst (tap_process env p now allowed t)) \<le>
    tg_tapCount t + (if te_tapEdge env \<and> \<not> hasAlerts p \<and> allowed then 1 else 0)"
proof (cases "tg_wired t")
  case False
  with assms show ?thesis by (simp add: tap_process_def)
next
  case True
  have n1: "tg_tapCount t1 \<le> tg_tapCount t \<and> length (filter changes_profile es1) = 0"
    if "observe_lifetime env p (t, []) = (t1, es1)" for t1 es1
    using neutral_stages(1) [of "(t, [])" env p] that by (simp add: tap_neutral_def)
  from True show ?thesis
  proof (cases rule: tap_process_cases [where env = env and p = p and now = now and allowed = allowed])
    case (throttled t1 es1)
    with n1 assms show ?thesis by (auto simp: tap_inv_def)
  next
    case (polled t1 es1 t3 r)
    have "tg_tapCount t3 \<le> tg_tapCount t1" by (simp add: polled(2))
    with n1 [OF polled(1)] neutral_stages(2) [of "(t3, es1)" env p now]
    have n2: "tg_tapCount (fst r) \<le> tg_tapCount t" "length (filter changes_profile (snd r)) = 0"
      by (simp_all add: tap_neutral_def polled(3) [symmetric])
    then have inv: "tap_inv (fst r)" using assms by (simp add: tap_inv_def)
    from handle_tap_counts [OF inv, of env p now allowed "snd r"] inv n2 polled(4) show ?thesis by auto
  qed
qed

interpretation taps: budget_machine tap_step tap_inv tg_tapCount "\<lambda>t e. 3 * profile_changes t e" idle_tap
proof
  fix t e
  assume inv: "tap_inv t"
  show "tap_inv (tap_step t e)"
    using inv tap_process_counts [OF inv]
    by (cases e) (simp_all add: tap_inv_def suspendForPresentationOwner_def tap_begin_def
        PROFILE_CHANGE_TAP_COUNT_def)
  show "3 * profile_changes t e + tg_tapCount (tap_step t e) \<le> tg_tapCount t + idle_tap t e"
    using tap_process_counts [OF inv]
    by (cases e) (simp_all add: profile_changes_def suspendForPresentationOwner_def tap_begin_def)
qed

text \<open>
  In every history the profile is changed at most once per three taps made while no
  alert sounds and profile changes are allowed.
\<close>

theorem profile_needs_three_taps:
  "3 * total tap_step profile_changes new_tap_gesture es \<le> total tap_step idle_tap new_tap_gesture es"
proof -
  have "total tap_step (\<lambda>t e. 3 * profile_changes t e) s es = 3 * total tap_step profile_changes s es" for s
    by (induction es arbitrary: s) simp_all
  with taps.total_budget [of new_tap_gesture es] show ?thesis
    by (simp add: tap_inv_def new_tap_gesture_def PROFILE_CHANGE_TAP_COUNT_def)
qed

section \<open>Mutes\<close>


text \<open>A tap while a laser sounds.\<close>

definition sample_environment :: tap_environment where
  "sample_environment = \<lparr> te_inFlight = (\<lambda>_. False), te_sendMute = (\<lambda>_ _. SendNotYet), te_activeSlot = 0,
     te_slotSaved = True, te_tapEdge = True \<rparr>"

definition sounding_parser :: parser where
  "sounding_parser = new_parser\<lparr>p_alertCount := 1\<rparr>"


end
