(* ===== verification/V1_Power_Policies.thy ===== *)
theory V1_Power_Policies
  imports V1_Prelude
begin

text \<open>
  The pure policies of the power path: the battery arithmetic (\<open>include/battery_math.h\<close>), the
  latch shutdown (\<open>battery_latch_shutdown_policy.h\<close>), the supply source
  (\<open>battery_source_policy.h\<close>), the wake plan (\<open>poweroff_policy.h\<close>) and the Bluetooth quiesce
  before sleep (\<open>ble_quiesce_policy.h\<close>).
\<close>

section \<open>Battery arithmetic\<close>

definition kFullMv :: u16 where "kFullMv = 4095"
definition kEmptyMv :: u16 where "kEmptyMv = 3200"
definition kCriticalMv :: u16 where "kCriticalMv = 3250"

text \<open>The products are of the 32-bit type; the result is cast to a byte.\<close>

definition voltageToPercent :: "u16 \<Rightarrow> u8" where
  "voltageToPercent voltageMV =
     (if voltageMV \<ge> kFullMv then 100
      else if voltageMV \<le> kEmptyMv then 0
      else ucast ((ucast (voltageMV - kEmptyMv) * 100 :: u32) div ucast (kFullMv - kEmptyMv)))"

definition isCritical :: "u16 \<Rightarrow> bool" where
  "isCritical voltageMV \<longleftrightarrow> voltageMV < kCriticalMv \<and> voltageMV > 0"

definition criticalProtectionRequired :: "bool \<Rightarrow> u16 \<Rightarrow> bool" where
  "criticalProtectionRequired sourceIsBattery voltageMV \<longleftrightarrow> sourceIsBattery \<and> isCritical voltageMV"

lemma voltageToPercent_between:
  assumes "3200 < v" "v < 4095"
  shows "unat (voltageToPercent v) = (unat v - 3200) * 100 div 895"
proof -
  have v: "unat v < 4095" "3200 < unat v" using assms by (simp_all add: word_less_nat_alt)
  have diff: "unat (v - 3200) = unat v - 3200" using assms by (simp add: unat_sub word_le_nat_alt word_less_nat_alt)
  have prod: "unat (ucast (v - 3200) * 100 :: u32) = (unat v - 3200) * 100"
    using v by (simp add: unat_word_ariths unsigned_ucast_eq take_bit_nat_eq_self diff)
  have "(unat v - 3200) * 100 div 895 < 256" using v by (simp add: less_mult_imp_div_less)
  then show ?thesis
    using assms by (simp add: voltageToPercent_def kFullMv_def kEmptyMv_def not_le unsigned_ucast_eq take_bit_nat_eq_self unat_div prod)
qed

text \<open>
  The battery percentage is at most 100, grows with the voltage, is zero at the empty
  voltage and full at the full one.
\<close>

theorem percent_monotone:
  "unat (voltageToPercent v) \<le> 100 \<and> voltageToPercent (min v kEmptyMv) = 0 \<and>
   voltageToPercent (max v kFullMv) = 100 \<and>
   unat (voltageToPercent (min v w)) \<le> unat (voltageToPercent (max v w))"
proof -
  have ends: "v \<le> 3200 \<Longrightarrow> voltageToPercent v = 0" "4095 \<le> v \<Longrightarrow> voltageToPercent v = 100" for v
    by (simp_all add: voltageToPercent_def kFullMv_def kEmptyMv_def word_le_nat_alt)
  have mid: "unat (voltageToPercent v) \<le> 100" for v
  proof (cases "v \<le> 3200 \<or> 4095 \<le> v")
    case False
    then have "3200 < v" "v < 4095" by auto
    moreover from this have "unat v < 4095" by (simp add: word_less_nat_alt)
    then have "(unat v - 3200) * 100 div 895 \<le> 100" by simp
    ultimately show ?thesis using voltageToPercent_between by simp
  qed (auto simp: ends)
  have "unat (voltageToPercent v) \<le> unat (voltageToPercent w)" if le: "v \<le> w" for v w
  proof -
    consider "v \<le> 3200" | "4095 \<le> w" | "3200 < v" "v < 4095" "3200 < w" "w < 4095"
      using le by fastforce
    then show ?thesis
    proof cases
      case 1 then show ?thesis by (simp add: ends)
    next
      case 2 then show ?thesis by (simp add: ends mid)
    next
      case 3
      then show ?thesis using le
        by (simp add: voltageToPercent_between div_le_mono word_le_nat_alt diff_le_mono)
    qed
  qed
  moreover have "min v w \<le> max v w" by (rule order.trans [OF min.cobounded1 max.cobounded1])
  ultimately have "unat (voltageToPercent (min v w)) \<le> unat (voltageToPercent (max v w))" by blast
  with mid show ?thesis
    by (auto simp: ends kFullMv_def kEmptyMv_def)
qed

section \<open>Supply source and wake plan\<close>

datatype supply_source = SupplyUnknown | SupplyBattery | SupplyUsb

definition resolveOnBattery :: "supply_source \<Rightarrow> bool" where
  "resolveOnBattery source \<longleftrightarrow> source \<noteq> SupplyUsb"

definition supplySourceName :: "supply_source \<Rightarrow> string" where
  "supplySourceName source =
     (if source = SupplyBattery then ''battery'' else if source = SupplyUsb then ''usb'' else ''unknown'')"

datatype wake_input = PWR_GPIO16 | BOOT_GPIO0

definition planBatteryFallbackWake :: "bool \<Rightarrow> wake_input" where
  "planBatteryFallbackWake pwrPinHigh = (if pwrPinHigh then PWR_GPIO16 else BOOT_GPIO0)"

definition wakePlanIsInactive :: "wake_input \<Rightarrow> bool \<Rightarrow> bool \<Rightarrow> bool" where
  "wakePlanIsInactive plan pwrPinHigh bootPinHigh =
     (if plan = PWR_GPIO16 then pwrPinHigh else bootPinHigh)"

definition wakeInputName :: "wake_input \<Rightarrow> string" where
  "wakeInputName input = (if input = PWR_GPIO16 then ''PWR_GPIO16'' else ''BOOT_GPIO0'')"

section \<open>Latch shutdown\<close>

datatype latch_verification = WRITE_FAILED | READBACK_FAILED | LATCH_LOW | LATCH_HIGH

record latch_input =
  li_writeSucceeded :: bool
  li_readbackSucceeded :: bool
  li_latchLow :: bool

record latch_decision =
  ld_verification :: latch_verification
  ld_waitForRailCollapse :: bool

definition latch_evaluate :: "latch_input \<Rightarrow> latch_decision" where
  "latch_evaluate i =
     (if \<not> li_writeSucceeded i then \<lparr> ld_verification = WRITE_FAILED, ld_waitForRailCollapse = False \<rparr>
      else if \<not> li_readbackSucceeded i then
        \<lparr> ld_verification = READBACK_FAILED, ld_waitForRailCollapse = True \<rparr>
      else \<lparr> ld_verification = (if li_latchLow i then LATCH_LOW else LATCH_HIGH),
             ld_waitForRailCollapse = True \<rparr>)"

fun batteryFallbackReason :: "latch_verification \<Rightarrow> string" where
  "batteryFallbackReason WRITE_FAILED = ''latch_write_failed''"
| "batteryFallbackReason READBACK_FAILED = ''latch_readback_failed''"
| "batteryFallbackReason LATCH_LOW = ''rail_alive_after_latch''"
| "batteryFallbackReason LATCH_HIGH = ''latch_readback_high''"

section \<open>Quiescing Bluetooth\<close>

datatype quiesce_action =
  QWait | QRetryPendingOperations | QRequestDisconnect | QFinalize | QFatalRestart

record quiesce_input =
  qi_waitingForConnectCancel :: bool
  qi_waitingForDiscovery :: bool
  qi_waitingForDisconnect :: bool
  qi_clientStillConnected :: bool
  qi_nowMs :: u32
  qi_startedMs :: u32
  qi_lastRetryMs :: u32
  qi_retryIntervalMs :: u32
  qi_fatalTimeoutMs :: u32

record quiesce_decision =
  qd_action :: quiesce_action
  qd_retryConnectCancel :: bool
  qd_retryDisconnect :: bool

definition elapsedAtLeast :: "u32 \<Rightarrow> u32 \<Rightarrow> u32 \<Rightarrow> bool" where
  "elapsedAtLeast nowMs startedMs intervalMs \<longleftrightarrow> nowMs - startedMs \<ge> intervalMs"

definition waiting_for_callback :: "quiesce_input \<Rightarrow> bool" where
  "waiting_for_callback i \<longleftrightarrow>
     qi_waitingForConnectCancel i \<or> qi_waitingForDiscovery i \<or> qi_waitingForDisconnect i"

definition quiesce_evaluate :: "quiesce_input \<Rightarrow> quiesce_decision" where
  "quiesce_evaluate i =
     (let waitingForCallback = waiting_for_callback i;
          teardownIncomplete = (waitingForCallback \<or> qi_clientStillConnected i);
          plain = (\<lambda>a. \<lparr> qd_action = a, qd_retryConnectCancel = False, qd_retryDisconnect = False \<rparr>)
      in if teardownIncomplete \<and> elapsedAtLeast (qi_nowMs i) (qi_startedMs i) (qi_fatalTimeoutMs i)
         then plain QFatalRestart
         else if waitingForCallback then
           (if \<not> elapsedAtLeast (qi_nowMs i) (qi_lastRetryMs i) (qi_retryIntervalMs i) then plain QWait
            else \<lparr> qd_action = QRetryPendingOperations,
                   qd_retryConnectCancel = qi_waitingForConnectCancel i,
                   qd_retryDisconnect = qi_waitingForDisconnect i \<rparr>)
         else if qi_clientStillConnected i then plain QRequestDisconnect
         else plain QFinalize)"

section \<open>The quiesce loop of the Bluetooth client\<close>

text \<open>
  \<open>V1BLEClient::processClientQuiesce\<close> of \<open>src/ble_connection.cpp\<close> polls the policy. Its
  own state is the pending connect cancel, the pending disconnect callback and the two clocks;
  a poll brings what the Bluetooth stack answers. Finalisation itself is not modelled here.
\<close>

definition QUIESCE_RETRY_MS :: u32 where "QUIESCE_RETRY_MS = 250"
definition QUIESCE_FATAL_TIMEOUT_MS :: u32 where "QUIESCE_FATAL_TIMEOUT_MS = 15000"

record quiesce =
  qz_awaitingConnectCancel :: bool
  qz_disconnectCallbackPending :: bool
  qz_startedMs :: u32
  qz_lastRetryMs :: u32

record quiesce_poll =
  qp_hasClient :: bool
  qp_asyncConnectPending :: bool
  qp_discoveryRunning :: bool
  qp_disconnectCallback :: bool
  qp_connected :: bool
  qp_disconnectAccepted :: bool

datatype quiesce_call = CancelConnect | Disconnect
datatype quiesce_outcome = QuiesceRestart | QuiesceGoesOn "quiesce_call list" | QuiesceFinalized

text \<open>The callback that ran since the last poll clears its flag; then the handler runs.\<close>

definition quiesce_observe :: "quiesce_poll \<Rightarrow> quiesce \<Rightarrow> quiesce" where
  "quiesce_observe i q =
     (let q = (if qp_disconnectCallback i then q\<lparr>qz_disconnectCallbackPending := False\<rparr> else q)
      in if qz_awaitingConnectCancel q \<and> \<not> qp_asyncConnectPending i
         then q\<lparr>qz_awaitingConnectCancel := False\<rparr> else q)"

definition quiesce_question :: "u32 \<Rightarrow> quiesce_poll \<Rightarrow> quiesce \<Rightarrow> quiesce_input" where
  "quiesce_question now i q =
     \<lparr> qi_waitingForConnectCancel = qz_awaitingConnectCancel q,
       qi_waitingForDiscovery = qp_discoveryRunning i,
       qi_waitingForDisconnect = qz_disconnectCallbackPending q,
       qi_clientStillConnected = (qp_hasClient i \<and> qp_connected i),
       qi_nowMs = now, qi_startedMs = qz_startedMs q, qi_lastRetryMs = qz_lastRetryMs q,
       qi_retryIntervalMs = QUIESCE_RETRY_MS, qi_fatalTimeoutMs = QUIESCE_FATAL_TIMEOUT_MS \<rparr>"

definition processClientQuiesce ::
    "u32 \<Rightarrow> quiesce_poll \<Rightarrow> quiesce \<Rightarrow> quiesce_outcome \<times> quiesce" where
  "processClientQuiesce now i q =
     (let q = quiesce_observe i q; d = quiesce_evaluate (quiesce_question now i q) in
      case qd_action d of
        QFatalRestart \<Rightarrow> (QuiesceRestart, q)
      | QWait \<Rightarrow> (QuiesceGoesOn [], q)
      | QRetryPendingOperations \<Rightarrow>
          (QuiesceGoesOn ((if qd_retryConnectCancel d \<and> qp_hasClient i then [CancelConnect] else []) @
             (if qd_retryDisconnect d \<and> qp_hasClient i then [Disconnect] else [])), q\<lparr>qz_lastRetryMs := now\<rparr>)
      | QRequestDisconnect \<Rightarrow>
          (QuiesceGoesOn [Disconnect], q\<lparr>qz_disconnectCallbackPending := qp_disconnectAccepted i\<rparr>)
      | QFinalize \<Rightarrow> (QuiesceFinalized, q\<lparr>qz_startedMs := 0, qz_lastRetryMs := 0\<rparr>))"

text \<open>The polls at their offsets from the start, up to the first that ends the quiesce.\<close>

fun quiesce_run :: "u32 \<Rightarrow> quiesce \<Rightarrow> (nat \<times> quiesce_poll) list \<Rightarrow> (quiesce_outcome \<times> nat) option" where
  "quiesce_run t0 q [] = None"
| "quiesce_run t0 q ((d, i) # polls) =
     (case processClientQuiesce (t0 + word_of_nat d) i q of
        (QuiesceGoesOn calls, q) \<Rightarrow> quiesce_run t0 q polls
      | (outcome, q) \<Rightarrow> Some (outcome, d))"

lemma quiesce_observe_started [simp]: "qz_startedMs (quiesce_observe i q) = qz_startedMs q"
  by (simp add: quiesce_observe_def Let_def)

lemma quiesce_step_cases:
  assumes "processClientQuiesce (t0 + word_of_nat d) i q = (outcome, q')" "qz_startedMs q = t0" "d < 2 ^ 32"
  shows "case outcome of
      QuiesceRestart \<Rightarrow> 15000 \<le> d
    | QuiesceGoesOn calls \<Rightarrow> d < 15000 \<and> qz_startedMs q' = t0
    | QuiesceFinalized \<Rightarrow> \<not> waiting_for_callback (quiesce_question (t0 + word_of_nat d) i (quiesce_observe i q)) \<and>
        \<not> (qp_hasClient i \<and> qp_connected i)"
proof -
  have late: "elapsedAtLeast (t0 + word_of_nat d) t0 QUIESCE_FATAL_TIMEOUT_MS \<longleftrightarrow> 15000 \<le> d"
    using assms(3) by (simp add: elapsedAtLeast_def QUIESCE_FATAL_TIMEOUT_MS_def word_le_nat_alt
        unat_of_nat take_bit_nat_eq_self)
  let ?q = "quiesce_observe i q"
  have st: "qi_startedMs (quiesce_question (t0 + word_of_nat d) i ?q) = t0"
    "qi_nowMs (quiesce_question (t0 + word_of_nat d) i ?q) = t0 + word_of_nat d"
    "qi_fatalTimeoutMs (quiesce_question (t0 + word_of_nat d) i ?q) = QUIESCE_FATAL_TIMEOUT_MS"
    "qi_clientStillConnected (quiesce_question (t0 + word_of_nat d) i ?q) = (qp_hasClient i \<and> qp_connected i)"
    using assms(2) by (simp_all add: quiesce_question_def)
  show ?thesis
    using assms(1,2) late st
    by (auto simp: processClientQuiesce_def quiesce_evaluate_def Let_def not_le split: if_splits)
qed

text \<open>The state after some polls, and what a quiesce that finalises must have seen.\<close>

fun quiesce_after :: "u32 \<Rightarrow> quiesce \<Rightarrow> (nat \<times> quiesce_poll) list \<Rightarrow> quiesce" where
  "quiesce_after t0 q [] = q"
| "quiesce_after t0 q ((d, i) # polls) = quiesce_after t0 (snd (processClientQuiesce (t0 + word_of_nat d) i q)) polls"

definition callbacks_seen :: "u32 \<Rightarrow> quiesce \<Rightarrow> (nat \<times> quiesce_poll) list \<Rightarrow> bool" where
  "callbacks_seen t0 q polls \<longleftrightarrow> (\<forall>k < length polls.
     (qz_disconnectCallbackPending (quiesce_after t0 q (take k polls)) \<longrightarrow>
        (\<exists>x\<in>set (drop k polls). qp_disconnectCallback (snd x))) \<and>
     (qz_awaitingConnectCancel (quiesce_after t0 q (take k polls)) \<longrightarrow>
        (\<exists>x\<in>set (drop k polls). \<not> qp_asyncConnectPending (snd x))))"

lemma owed_callback:
  assumes "processClientQuiesce now i q = (outcome, q')"
  shows "qz_disconnectCallbackPending q \<Longrightarrow> \<not> qp_disconnectCallback i \<Longrightarrow>
      outcome \<noteq> QuiesceFinalized \<and> qz_disconnectCallbackPending q'"
    and "qz_awaitingConnectCancel q \<Longrightarrow> qp_asyncConnectPending i \<Longrightarrow>
      outcome \<noteq> QuiesceFinalized \<and> qz_awaitingConnectCancel q'"
  using assms
  by (auto simp: processClientQuiesce_def quiesce_evaluate_def quiesce_observe_def quiesce_question_def
      waiting_for_callback_def Let_def split: if_splits)

lemma callbacks_seen_last:
  assumes "processClientQuiesce (t0 + word_of_nat d) i q = (QuiesceFinalized, q')"
  shows "callbacks_seen t0 q [(d, i)]"
  using owed_callback [OF assms] by (auto simp: callbacks_seen_def)

lemma callbacks_seen_step:
  assumes r: "processClientQuiesce (t0 + word_of_nat d) i q = (outcome, q')" and c: "callbacks_seen t0 q' polls" "polls \<noteq> []"
  shows "callbacks_seen t0 q ((d, i) # polls)"
proof -
  let ?rest = "\<lambda>P. \<exists>x\<in>set polls. P (snd x)"
  have now: "qz_disconnectCallbackPending q' \<longrightarrow> ?rest qp_disconnectCallback"
    "qz_awaitingConnectCancel q' \<longrightarrow> ?rest (\<lambda>i. \<not> qp_asyncConnectPending i)"
    using c(1) [unfolded callbacks_seen_def, rule_format, of 0] c(2) by simp_all
  have "(qz_disconnectCallbackPending (quiesce_after t0 q (take k ((d, i) # polls))) \<longrightarrow>
        (\<exists>x\<in>set (drop k ((d, i) # polls)). qp_disconnectCallback (snd x))) \<and>
     (qz_awaitingConnectCancel (quiesce_after t0 q (take k ((d, i) # polls))) \<longrightarrow>
        (\<exists>x\<in>set (drop k ((d, i) # polls)). \<not> qp_asyncConnectPending (snd x)))"
    if "k < length ((d, i) # polls)" for k
  proof (cases k)
    case 0
    with now owed_callback [OF r] show ?thesis by auto
  next
    case (Suc j)
    with that c(1) r show ?thesis by (simp add: callbacks_seen_def)
  qed
  then show ?thesis unfolding callbacks_seen_def by blast
qed

text \<open>
  Claim C31. A quiesce never outlives its deadline: it goes on only through polls before fifteen
  seconds and a restart comes only after them. It is finalised only when the link is down and no
  discovery runs, and every disconnect callback and connect cancellation that was outstanding at
  its start or after any of its polls has been seen by a later poll up to the finalising one.
\<close>

theorem quiesce_deadline:
  assumes "qz_startedMs q = t0" "list_all (\<lambda>(d, i). d < 2 ^ 32) polls"
  shows "case quiesce_run t0 q polls of
      None \<Rightarrow> list_all (\<lambda>(d, i). d < 15000) polls
    | Some (outcome, d) \<Rightarrow> outcome = QuiesceRestart \<and> 15000 \<le> d \<or>
        outcome = QuiesceFinalized \<and> (\<exists>i before after. polls = before @ (d, i) # after \<and>
          \<not> (qp_hasClient i \<and> qp_connected i) \<and> \<not> qp_discoveryRunning i \<and> callbacks_seen t0 q (before @ [(d, i)]))"
  using assms
proof (induction polls arbitrary: q)
  case (Cons x polls)
  obtain d i where x: "x = (d, i)" by (cases x)
  obtain outcome q' where r: "processClientQuiesce (t0 + word_of_nat d) i q = (outcome, q')"
    by (cases "processClientQuiesce (t0 + word_of_nat d) i q")
  from Cons.prems x have "d < 2 ^ 32" by simp
  note step = quiesce_step_cases [OF r Cons.prems(1) this]
  show ?case
  proof (cases outcome)
    case (QuiesceGoesOn calls)
    with step have s: "d < 15000" "qz_startedMs q' = t0" by simp_all
    note IH = Cons.IH [OF s(2)]
    show ?thesis
    proof (cases "quiesce_run t0 q' polls")
      case None
      with IH Cons.prems x r QuiesceGoesOn s show ?thesis by simp
    next
      case (Some y)
      obtain out e where y: "y = (out, e)" by (cases y)
      have "out = QuiesceRestart \<and> 15000 \<le> e \<or> out = QuiesceFinalized \<and> (\<exists>j before after. polls = before @ (e, j) # after \<and>
          \<not> (qp_hasClient j \<and> qp_connected j) \<and> \<not> qp_discoveryRunning j \<and> callbacks_seen t0 q' (before @ [(e, j)]))"
        using IH Some y Cons.prems(2) by simp
      then have "out = QuiesceRestart \<and> 15000 \<le> e \<or> out = QuiesceFinalized \<and> (\<exists>j before after. x # polls = before @ (e, j) # after \<and>
          \<not> (qp_hasClient j \<and> qp_connected j) \<and> \<not> qp_discoveryRunning j \<and> callbacks_seen t0 q (before @ [(e, j)]))"
      proof (elim disjE conjE exE)
        fix j before after
        assume f: "out = QuiesceFinalized" "polls = before @ (e, j) # after" "\<not> (qp_hasClient j \<and> qp_connected j)"
          "\<not> qp_discoveryRunning j" "callbacks_seen t0 q' (before @ [(e, j)])"
        have "callbacks_seen t0 q ((x # before) @ [(e, j)])"
          using callbacks_seen_step [OF r f(5)] by (simp add: x)
        with f show ?thesis by (intro disjI2 conjI exI [of _ j] exI [of _ "x # before"] exI [of _ after]) auto
      qed simp
      then show ?thesis using Some y r x QuiesceGoesOn by simp
    qed
  next
    case QuiesceFinalized
    with step have f: "\<not> qp_discoveryRunning i" "\<not> (qp_hasClient i \<and> qp_connected i)"
      by (auto simp: waiting_for_callback_def quiesce_question_def)
    have "callbacks_seen t0 q ([] @ [(d, i)])" using callbacks_seen_last r QuiesceFinalized by simp
    with f have "\<exists>j before after. x # polls = before @ (d, j) # after \<and>
          \<not> (qp_hasClient j \<and> qp_connected j) \<and> \<not> qp_discoveryRunning j \<and> callbacks_seen t0 q (before @ [(d, j)])"
      by (intro exI [of _ i] exI [of _ "[]"] exI [of _ polls]) (simp add: x)
    then show ?thesis using r x QuiesceFinalized by simp
  next
    case QuiesceRestart
    with step x r show ?thesis by simp
  qed
qed simp

text \<open>A peer that never confirms the disconnect.\<close>

definition stuck_poll :: quiesce_poll where
  "stuck_poll = \<lparr> qp_hasClient = True, qp_asyncConnectPending = False, qp_discoveryRunning = False, qp_disconnectCallback = False,
     qp_connected = True, qp_disconnectAccepted = True \<rparr>"

definition stuck_quiesce :: quiesce where
  "stuck_quiesce = \<lparr> qz_awaitingConnectCancel = False, qz_disconnectCallbackPending = True,
     qz_startedMs = 0xFFFFFF00, qz_lastRetryMs = 0xFFFFFF00 \<rparr>"

theorem quiesce_deadline_witness:
  "quiesce_run 0xFFFFFF00 stuck_quiesce [(500, stuck_poll), (1500, stuck_poll), (15000, stuck_poll)] =
     Some (QuiesceRestart, 15000)"
proof -
  have "quiesce_run 0xFFFFFF00 stuck_quiesce [(500, stuck_poll), (1500, stuck_poll), (15000, stuck_poll)] =
      Some (QuiesceRestart, 15000)"
    by code_simp
  with quiesce_deadline [of stuck_quiesce "0xFFFFFF00"
      "[(500, stuck_poll), (1500, stuck_poll), (15000, stuck_poll)]"]
  show ?thesis by (simp add: stuck_quiesce_def)
qed

end
