(* ===== verification/V1_Obd_Parser.thy ===== *)
theory V1_Obd_Parser
  imports V1_Prelude
begin

text \<open>
  The parser of ELM327/STN responses (\<open>src/modules/obd/obd_elm327_parser.cpp\<close>). A response is
  the list of its characters; a C string in a line buffer is the list up to its first NUL.
  \<open>-1\<close> results of the digit decoders are \<open>None\<close>.
\<close>

section \<open>Characters and lines\<close>

definition kMaxNormalizedLines :: nat where "kMaxNormalizedLines = 12"
definition kMaxLineLength :: nat where "kMaxLineLength = 96"
definition kMaxPayloadBytes :: nat where "kMaxPayloadBytes = 48"

abbreviation char_code :: "char \<Rightarrow> nat" where "char_code c \<equiv> of_char c"

definition isTrimChar :: "char \<Rightarrow> bool" where
  "isTrimChar c \<longleftrightarrow> c \<in> {CHR '' '', CHR 0x0D, CHR 0x0A, CHR 0x09, CHR ''>''}"

definition trim :: "string \<Rightarrow> string" where
  "trim s = rev (dropWhile isTrimChar (rev (dropWhile isTrimChar s)))"

definition hexDigit :: "char \<Rightarrow> nat option" where
  "hexDigit c =
     (let n = char_code c in
      if 0x30 \<le> n \<and> n \<le> 0x39 then Some (n - 0x30)
      else if 0x41 \<le> n \<and> n \<le> 0x46 then Some (n - 0x41 + 10)
      else if 0x61 \<le> n \<and> n \<le> 0x66 then Some (n - 0x61 + 10)
      else None)"

definition hexByte :: "char \<Rightarrow> char \<Rightarrow> nat option" where
  "hexByte h l = (case hexDigit h of None \<Rightarrow> None
     | Some hi \<Rightarrow> (case hexDigit l of None \<Rightarrow> None | Some lo \<Rightarrow> Some (16 * hi + lo)))"

definition isDigitChar :: "char \<Rightarrow> bool" where
  "isDigitChar c \<longleftrightarrow> 0x30 \<le> char_code c \<and> char_code c \<le> 0x39"

definition toUpperChar :: "char \<Rightarrow> char" where
  "toUpperChar c = (if 0x61 \<le> char_code c \<and> char_code c \<le> 0x7A then char_of (char_code c - 0x20) else c)"

definition startsWithCI :: "string \<Rightarrow> string \<Rightarrow> bool" where
  "startsWithCI s prefix \<longleftrightarrow>
     (if length s < length prefix then False
      else map toUpperChar (take (length prefix) s) = map toUpperChar prefix)"

definition equalsCI :: "string \<Rightarrow> string \<Rightarrow> bool" where
  "equalsCI a b \<longleftrightarrow> map toUpperChar a = map toUpperChar b"

definition containsDigit :: "string \<Rightarrow> bool" where
  "containsDigit s = list_ex isDigitChar s"

section \<open>Line classes\<close>

text \<open>The compaction loop of the echo test; \<open>None\<close> is its early \<open>false\<close>.\<close>

fun compact_hex :: "string \<Rightarrow> string \<Rightarrow> string option" where
  "compact_hex [] compact = Some compact"
| "compact_hex (c # cs) compact =
     (if c = CHR '' '' then compact_hex cs compact
      else if hexDigit c = None then None
      else if length compact + 1 \<ge> kMaxLineLength then None
      else compact_hex cs (compact @ [c]))"

definition isLikelyEchoLine :: "string \<Rightarrow> bool" where
  "isLikelyEchoLine line =
     (if line = [] then False
      else if startsWithCI line ''AT'' then True
      else if startsWithCI line ''ST'' then True
      else
        (case compact_hex line [] of
           None \<Rightarrow> False
         | Some compact \<Rightarrow>
             if length compact < 2 \<or> length compact mod 2 \<noteq> 0 then False
             else
               (case hexByte (compact ! 0) (compact ! 1) of
                  None \<Rightarrow> False
                | Some firstByte \<Rightarrow>
                    if firstByte \<in> {0x41, 0x49, 0x61, 0x62} then False
                    else if firstByte \<in> {0x01, 0x09, 0x21, 0x22} then True
                    else length compact \<le> 8)))"

definition isBusInitLine :: "string \<Rightarrow> bool" where
  "isBusInitLine line \<longleftrightarrow> startsWithCI line ''SEARCHING'' \<or> startsWithCI line ''BUS INIT''"

definition isStatusLine :: "string \<Rightarrow> bool" where
  "isStatusLine line \<longleftrightarrow>
     (if line = [] then False
      else startsWithCI line ''SEARCHING'' \<or> startsWithCI line ''BUS INIT'' \<or>
           startsWithCI line ''OK'' \<or> startsWithCI line ''ELM327'' \<or>
           startsWithCI line ''OBDLINK'' \<or> startsWithCI line ''STN'')"

definition isErrorLine :: "string \<Rightarrow> bool" where
  "isErrorLine line \<longleftrightarrow>
     (if line = [] then False
      else equalsCI line ''?'' \<or> startsWithCI line ''UNABLE TO CONNECT'' \<or>
           startsWithCI line ''CAN ERROR'' \<or> startsWithCI line ''BUFFER FULL'' \<or>
           startsWithCI line ''BUS ERROR'' \<or> startsWithCI line ''ERROR'' \<or>
           startsWithCI line ''STOPPED'')"

definition isNoDataLine :: "string \<Rightarrow> bool" where
  "isNoDataLine line = startsWithCI line ''NO DATA''"

section \<open>Splitting into lines\<close>

definition isLineBreak :: "char \<Rightarrow> bool" where
  "isLineBreak c \<longleftrightarrow> c = CHR 0x0D \<or> c = CHR 0x0A"

text \<open>One step of the cursor: the raw line, and what is left after the run of line breaks.\<close>

definition nextRawLine :: "string \<Rightarrow> (string \<times> string) option" where
  "nextRawLine s =
     (if s = [] then None
      else Some (takeWhile (\<lambda>c. \<not> isLineBreak c) s,
                 dropWhile isLineBreak (dropWhile (\<lambda>c. \<not> isLineBreak c) s)))"

text \<open>Each step consumes at least one character, so the loops over the cursor end.\<close>

lemma nextRawLine_shrinks: "nextRawLine s = Some (l, r) \<Longrightarrow> length r < length s"
proof -
  assume "nextRawLine s = Some (l, r)"
  then obtain c cs where s: "s = c # cs"
    and r: "r = dropWhile isLineBreak (dropWhile (\<lambda>c. \<not> isLineBreak c) s)"
    by (cases s) (auto simp: nextRawLine_def)
  have "length r \<le> length cs"
  proof (cases "isLineBreak c")
    case True
    then show ?thesis by (simp add: r s length_dropWhile_le)
  next
    case False
    then have "length r \<le> length (dropWhile (\<lambda>c. \<not> isLineBreak c) cs)"
      by (simp add: r s length_dropWhile_le)
    then show ?thesis using length_dropWhile_le [of "\<lambda>c. \<not> isLineBreak c" cs] by linarith
  qed
  with s show ?thesis by simp
qed

function raw_lines :: "string \<Rightarrow> string list" where
  "raw_lines s = (case nextRawLine s of None \<Rightarrow> [] | Some (l, r) \<Rightarrow> l # raw_lines r)"
  by pat_completeness auto
termination
  by (relation "measure length") (auto dest: nextRawLine_shrinks)

declare raw_lines.simps [simp del]

definition copyNormalizedLine :: "string \<Rightarrow> string" where
  "copyNormalizedLine raw = trim (takeWhile (\<lambda>c. c \<noteq> CHR 0x00) (take (kMaxLineLength - 1) raw))"

fun line_overflow :: "nat \<Rightarrow> string list \<Rightarrow> bool" where
  "line_overflow lineCount [] = False"
| "line_overflow lineCount (raw # raws) =
     (if lineCount \<ge> kMaxNormalizedLines then True
      else line_overflow (if copyNormalizedLine raw \<noteq> [] then lineCount + 1 else lineCount) raws)"

definition hasNormalizedLineOverflow :: "string \<Rightarrow> bool" where
  "hasNormalizedLineOverflow s = line_overflow 0 (raw_lines s)"

text \<open>The lines that successive \<open>nextNormalizedLine\<close> calls deliver.\<close>

definition normalized_lines :: "string \<Rightarrow> string list" where
  "normalized_lines s = filter (\<lambda>l. l \<noteq> []) (map copyNormalizedLine (raw_lines s))"

section \<open>Collecting the payload\<close>

text \<open>The part of a line after a frame-number prefix \<open>n:\<close>; \<open>None\<close> is a prefix without digits after it.\<close>

definition strip_prefix :: "string \<Rightarrow> string option" where
  "strip_prefix raw =
     (let before = takeWhile (\<lambda>c. c \<noteq> CHR '':'') raw; rest = dropWhile (\<lambda>c. c \<noteq> CHR '':'') raw in
      if rest = [] \<or> before = [] then Some raw
      else if \<not> containsDigit (tl rest) then None
      else if list_all (\<lambda>c. isDigitChar c \<or> c = CHR '' '') before then Some (tl rest)
      else Some raw)"

text \<open>The loop over hex pairs, appending to \<open>out\<close> up to the capacity.\<close>

fun hex_pairs :: "nat \<Rightarrow> string \<Rightarrow> u8 list \<Rightarrow> u8 list option" where
  "hex_pairs cap [] out = Some out"
| "hex_pairs cap [c] out = (if c = CHR '' '' then Some out else None)"
| "hex_pairs cap (c # d # cs) out =
     (if c = CHR '' '' then hex_pairs cap (d # cs) out
      else if length out \<ge> cap then None
      else (case hexByte c d of None \<Rightarrow> None | Some v \<Rightarrow> hex_pairs cap cs (out @ [word_of_nat v])))"

definition collectHexBytesFromLine :: "string \<Rightarrow> nat \<Rightarrow> u8 list \<Rightarrow> u8 list option" where
  "collectHexBytesFromLine raw cap out =
     (case strip_prefix raw of None \<Rightarrow> None | Some line \<Rightarrow> hex_pairs cap line out)"

record elm_acc =
  ea_bytes :: "u8 list"
  ea_busInit :: bool
  ea_noData :: bool
  ea_error :: bool

fun collect_lines :: "string list \<Rightarrow> elm_acc \<Rightarrow> bool \<times> elm_acc" where
  "collect_lines [] acc = (ea_bytes acc \<noteq> [], acc)"
| "collect_lines (line # lines) acc =
     (if isNoDataLine line then collect_lines lines (acc\<lparr>ea_noData := True\<rparr>)
      else if isErrorLine line then collect_lines lines (acc\<lparr>ea_error := True\<rparr>)
      else if isBusInitLine line then collect_lines lines (acc\<lparr>ea_busInit := True\<rparr>)
      else if isLikelyEchoLine line then collect_lines lines acc
      else if isStatusLine line then collect_lines lines acc
      else
        (case collectHexBytesFromLine line kMaxPayloadBytes (ea_bytes acc) of
           None \<Rightarrow> (False, acc\<lparr>ea_error := True\<rparr>)
         | Some out \<Rightarrow>
             if length out = length (ea_bytes acc) then (False, acc\<lparr>ea_error := True\<rparr>)
             else collect_lines lines (acc\<lparr>ea_bytes := out\<rparr>)))"

definition collectNormalizedHexPayload :: "string \<Rightarrow> bool \<times> elm_acc" where
  "collectNormalizedHexPayload s =
     (let acc = \<lparr> ea_bytes = [], ea_busInit = False, ea_noData = False, ea_error = False \<rparr> in
      if hasNormalizedLineOverflow s then (False, acc\<lparr>ea_error := True\<rparr>)
      else collect_lines (normalized_lines s) acc)"

section \<open>The result\<close>

record elm_result =
  er_valid :: bool
  er_service :: u8
  er_pid :: u8
  er_did :: u16
  er_dataBytes :: "u8 list"
  er_dataLen :: u8
  er_noData :: bool
  er_error :: bool
  er_busInit :: bool

definition default_result :: elm_result where
  "default_result = \<lparr> er_valid = False, er_service = 0, er_pid = 0, er_did = 0,
     er_dataBytes = replicate 32 0, er_dataLen = 0, er_noData = False, er_error = False,
     er_busInit = False \<rparr>"

text \<open>\<open>memcpy\<close> of at most 32 of the bytes after the header into the zeroed array.\<close>

definition data_bytes :: "u8 list \<Rightarrow> u8 list" where
  "data_bytes bs = take 32 bs @ replicate (32 - length bs) 0"

definition payload_result :: "u8 list \<Rightarrow> elm_result \<Rightarrow> elm_result" where
  "payload_result bytes result =
     (if length bytes < 2 then result\<lparr>er_error := True\<rparr>
      else
        let result = result\<lparr>er_valid := True, er_service := bytes ! 0\<rparr> in
        if er_service result = 0x62 then
          (if length bytes < 3 then result\<lparr>er_error := True, er_valid := False\<rparr>
           else result\<lparr>er_did := push_bit 8 (ucast (bytes ! 1)) OR ucast (bytes ! 2),
                  er_pid := bytes ! 2, er_dataLen := word_of_nat (length bytes - 3),
                  er_dataBytes := data_bytes (drop 3 bytes)\<rparr>)
        else result\<lparr>er_pid := bytes ! 1, er_dataLen := word_of_nat (length bytes - 2),
               er_dataBytes := data_bytes (drop 2 bytes)\<rparr>)"

definition parseElm327Response :: "string option \<Rightarrow> elm_result" where
  "parseElm327Response response =
     (case response of None \<Rightarrow> default_result\<lparr>er_error := True\<rparr>
      | Some r \<Rightarrow>
          if r = [] then default_result\<lparr>er_error := True\<rparr>
          else if trim r = [] then default_result\<lparr>er_error := True\<rparr>
          else
            let (hasPayload, acc) = collectNormalizedHexPayload (trim r);
                result = default_result\<lparr>er_busInit := ea_busInit acc\<rparr>
            in
            if ea_busInit acc \<and> \<not> hasPayload \<and> \<not> ea_noData acc \<and> \<not> ea_error acc then result
            else if ea_noData acc \<and> \<not> hasPayload then result\<lparr>er_noData := True\<rparr>
            else if ea_error acc \<and> \<not> hasPayload then result\<lparr>er_error := True\<rparr>
            else if \<not> hasPayload then result\<lparr>er_error := True\<rparr>
            else payload_result (ea_bytes acc) result)"

text \<open>\<open>None\<close> is the \<open>-1\<close> of a result that is not a speed.\<close>

definition decodeSpeedKmh :: "elm_result \<Rightarrow> nat option" where
  "decodeSpeedKmh r =
     (if \<not> er_valid r \<or> er_service r \<noteq> 0x41 \<or> er_pid r \<noteq> 0x0D \<or> er_dataLen r < 1 then None
      else Some (unat (er_dataBytes r ! 0)))"

end
