(* ===== verification/V1_Obd_Responses.thy ===== *)
theory V1_Obd_Responses
  imports V1_Obd_Parser
begin

text \<open>
  What the ELM327 parser makes of a response: every outcome is exactly one of payload, no
  data, error and bus initialisation; a payload line is read back byte by byte.
\<close>

section \<open>Outcomes\<close>

lemma payload_result_flags:
  "er_noData (payload_result bs r) = er_noData r"
  "er_busInit (payload_result bs r) = er_busInit r"
  "\<not> er_valid r \<Longrightarrow> \<not> er_error r \<Longrightarrow> er_error (payload_result bs r) \<longleftrightarrow> \<not> er_valid (payload_result bs r)"
  by (auto simp: payload_result_def Let_def)

text \<open>
  A response is exactly one of a payload, "no data", an error, or a bus still
  initialising.
\<close>

theorem one_outcome:
  fixes response :: "string option"
  defines "r \<equiv> parseElm327Response response"
  shows "length (filter id [er_valid r, er_noData r, er_error r,
     er_busInit r \<and> \<not> er_valid r \<and> \<not> er_noData r \<and> \<not> er_error r]) = 1"
proof (cases "\<exists>s. response = Some s \<and> s \<noteq> [] \<and> trim s \<noteq> []")
  case False
  then show ?thesis
    by (cases response) (auto simp: r_def parseElm327Response_def default_result_def)
next
  case True
  then obtain s where s: "response = Some s" "s \<noteq> []" "trim s \<noteq> []" by auto
  obtain ok acc where c: "collectNormalizedHexPayload (trim s) = (ok, acc)" by fastforce
  let ?res = "default_result\<lparr>er_busInit := ea_busInit acc\<rparr>"
  have d: "\<not> er_valid ?res" "\<not> er_error ?res" "\<not> er_noData ?res" by (simp_all add: default_result_def)
  have eq: "r = (if ea_busInit acc \<and> \<not> ok \<and> \<not> ea_noData acc \<and> \<not> ea_error acc then ?res
      else if ea_noData acc \<and> \<not> ok then ?res\<lparr>er_noData := True\<rparr>
      else if ea_error acc \<and> \<not> ok then ?res\<lparr>er_error := True\<rparr>
      else if \<not> ok then ?res\<lparr>er_error := True\<rparr>
      else payload_result (ea_bytes acc) ?res)"
    using s c by (simp add: r_def parseElm327Response_def)
  show ?thesis
  proof (cases ok)
    case True
    then have "r = payload_result (ea_bytes acc) ?res" by (simp add: eq)
    with payload_result_flags(1,2) [of "ea_bytes acc" ?res]
      payload_result_flags(3) [OF d(1,2), of "ea_bytes acc"] d show ?thesis
      by (cases "er_valid r") auto
  next
    case False
    with d show ?thesis by (auto simp: eq)
  qed
qed

section \<open>Rendered payloads\<close>

definition hex_char :: "nat \<Rightarrow> char" where
  "hex_char n = ''0123456789ABCDEF'' ! n"

definition hex_byte_text :: "u8 \<Rightarrow> string" where
  "hex_byte_text b = [hex_char (unat b div 16), hex_char (unat b mod 16)]"

fun hex_text :: "u8 list \<Rightarrow> string" where
  "hex_text [] = []"
| "hex_text [b] = hex_byte_text b"
| "hex_text (b # c # bs) = hex_byte_text b @ CHR '' '' # hex_text (c # bs)"

lemma hex_char_cases:
  assumes "n < 16"
  shows "hexDigit (hex_char n) = Some n \<and> hex_char n \<noteq> CHR '' '' \<and> \<not> isTrimChar (hex_char n) \<and>
    \<not> isLineBreak (hex_char n) \<and> hex_char n \<noteq> CHR 0x00 \<and> hex_char n \<noteq> CHR '':''"
proof -
  have "n \<in> set [0..<16]" using assms by simp
  then show ?thesis
    by (simp add: upt_rec) (elim disjE; simp add: hex_char_def hexDigit_def isTrimChar_def isLineBreak_def)
qed

lemma hex_nibbles: "unat (b :: u8) div 16 < 16" "unat b mod 16 < 16"
  using unat_u8_lt [of b] by auto

lemmas hex_chars = hex_char_cases [OF hex_nibbles(1)] hex_char_cases [OF hex_nibbles(2)]

lemma hexByte_text: "hexByte (hex_char (unat b div 16)) (hex_char (unat b mod 16)) = Some (unat (b :: u8))"
  using hex_chars [of b] by (simp add: hexByte_def)

lemma hex_pairs_text:
  "length out + length bs \<le> cap \<Longrightarrow> hex_pairs cap (hex_text bs) out = Some (out @ bs)"
proof (induction bs arbitrary: out rule: hex_text.induct)
  case 1
  then show ?case by simp
next
  case (2 b)
  then show ?case using hex_chars [of b] by (simp add: hex_byte_text_def hexByte_text)
next
  case (3 b c bs)
  have skip: "hex_pairs cap (CHR '' '' # cs) out' = hex_pairs cap cs out'" if "cs \<noteq> []" for cs out'
    using that by (cases cs) simp_all
  have ne: "hex_text (c # bs) \<noteq> []" by (cases bs) (simp_all add: hex_byte_text_def)
  from 3 hex_chars [of b] show ?case
    by (simp add: hex_byte_text_def hexByte_text skip [OF ne])
qed

lemma hex_text_chars:
  "c \<in> set (hex_text bs) \<Longrightarrow> c = CHR '' '' \<or> (\<exists>n<16. c = hex_char n)"
proof (induction bs rule: hex_text.induct)
  case (2 b)
  then have "c = hex_char (unat b div 16) \<or> c = hex_char (unat b mod 16)"
    by (simp add: hex_byte_text_def)
  with hex_nibbles [of b] show ?case by blast
next
  case (3 b d bs)
  then have "c = hex_char (unat b div 16) \<or> c = hex_char (unat b mod 16) \<or> c = CHR '' '' \<or>
      c \<in> set (hex_text (d # bs))"
    by (simp add: hex_byte_text_def)
  with hex_nibbles [of b] "3.IH" show ?case by blast
qed simp

lemma length_hex_text: "length (hex_text bs) = 3 * length bs - 1"
  by (induction bs rule: hex_text.induct) (simp_all add: hex_byte_text_def)

lemma compact_hex_text:
  "length compact + 2 * length bs < kMaxLineLength \<Longrightarrow>
   compact_hex (hex_text bs) compact = Some (compact @ concat (map hex_byte_text bs))"
proof (induction bs arbitrary: compact rule: hex_text.induct)
  case 1
  then show ?case by simp
next
  case (2 b)
  then show ?case using hex_chars [of b] by (simp add: hex_byte_text_def)
next
  case (3 b c bs)
  then show ?case using hex_chars [of b] by (simp add: hex_byte_text_def)
qed

lemma length_concat_hex: "length (concat (map hex_byte_text bs)) = 2 * length bs"
  by (induction bs) (simp_all add: hex_byte_text_def)

lemma hex_text_first:
  "bs \<noteq> [] \<Longrightarrow> \<exists>rest. hex_text bs = hex_char (unat (hd bs) div 16) # rest"
  by (cases bs rule: hex_text.cases) (simp_all add: hex_byte_text_def)

lemma hex_text_last:
  "bs \<noteq> [] \<Longrightarrow> \<exists>front. hex_text bs = front @ [hex_char (unat (last bs) mod 16)]"
proof (induction bs rule: hex_text.induct)
  case (3 b c bs)
  then obtain front where "hex_text (c # bs) = front @ [hex_char (unat (last (c # bs)) mod 16)]" by auto
  then have "hex_text (b # c # bs) = (hex_byte_text b @ CHR '' '' # front) @
      [hex_char (unat (last (b # c # bs)) mod 16)]" by simp
  then show ?case by blast
qed (simp_all add: hex_byte_text_def)

lemma trim_hex_text:
  assumes "bs \<noteq> []" "list_all isTrimChar tail"
  shows "trim (hex_text bs @ tail) = hex_text bs"
proof -
  obtain rest where first: "hex_text bs = hex_char (unat (hd bs) div 16) # rest"
    using hex_text_first [OF assms(1)] by blast
  then have front: "dropWhile isTrimChar (hex_text bs @ tail) = hex_text bs @ tail"
    using hex_chars [of "hd bs"] by simp
  obtain init where last: "hex_text bs = init @ [hex_char (unat (last bs) mod 16)]"
    using hex_text_last [OF assms(1)] by blast
  have "dropWhile isTrimChar (rev tail @ rev (hex_text bs)) = dropWhile isTrimChar (rev (hex_text bs))"
    using assms(2) by (intro dropWhile_append2) (auto simp: list_all_iff)
  also have "\<dots> = rev (hex_text bs)"
    using hex_chars [of "last bs"] by (simp add: last)
  finally show ?thesis by (simp add: trim_def front)
qed

lemma hex_text_plain:
  assumes "c \<in> set (hex_text bs)"
  shows "\<not> isLineBreak c" "c \<noteq> CHR 0x00" "c \<noteq> CHR '':''"
proof -
  have "\<not> isLineBreak c \<and> c \<noteq> CHR 0x00 \<and> c \<noteq> CHR '':''"
    using hex_text_chars [OF assms]
  proof
    assume "\<exists>n<16. c = hex_char n"
    then obtain n where "n < 16" "c = hex_char n" by blast
    with hex_char_cases [of n] show ?thesis by simp
  qed (simp add: isLineBreak_def)
  then show "\<not> isLineBreak c" "c \<noteq> CHR 0x00" "c \<noteq> CHR '':''" by simp_all
qed

lemma raw_lines_hex_text: "bs \<noteq> [] \<Longrightarrow> raw_lines (hex_text bs) = [hex_text bs]"
proof -
  assume "bs \<noteq> []"
  then have ne: "hex_text bs \<noteq> []" using hex_text_first by fastforce
  have "takeWhile (\<lambda>c. \<not> isLineBreak c) (hex_text bs) = hex_text bs"
    using hex_text_plain(1) by (intro takeWhile_eq_all_conv [THEN iffD2]) blast
  moreover have "dropWhile (\<lambda>c. \<not> isLineBreak c) (hex_text bs) = []"
    using hex_text_plain(1) by (intro dropWhile_eq_Nil_conv [THEN iffD2]) blast
  ultimately have "nextRawLine (hex_text bs) = Some (hex_text bs, [])"
    using ne by (simp only: nextRawLine_def if_False dropWhile.simps)
  moreover have "raw_lines [] = []" by (subst raw_lines.simps) (simp add: nextRawLine_def)
  ultimately show ?thesis by (subst raw_lines.simps) simp
qed

lemma normalized_hex_text:
  assumes "bs \<noteq> []" "length bs \<le> 32"
  shows "copyNormalizedLine (hex_text bs) = hex_text bs"
proof -
  have "take (kMaxLineLength - 1) (hex_text bs) = hex_text bs"
    using assms(2) by (simp add: length_hex_text kMaxLineLength_def)
  moreover have "takeWhile (\<lambda>c. c \<noteq> CHR 0x00) (hex_text bs) = hex_text bs"
    using hex_text_plain(2) by (intro takeWhile_eq_all_conv [THEN iffD2]) blast
  ultimately show ?thesis
    using trim_hex_text [OF assms(1), of "[]"] by (simp only: copyNormalizedLine_def) simp
qed

lemma startsWithCI_Cons:
  "startsWithCI (c # s) (p # ps) \<longleftrightarrow> toUpperChar c = toUpperChar p \<and> startsWithCI s ps"
  by (simp add: startsWithCI_def)

text \<open>
  The reply services the parser tells from an echo whatever their length: 0x41, 0x49 and 0x61 with
  one parameter byte, 0x62 with the two bytes of a data identifier.
\<close>

definition response_service :: "u8 \<Rightarrow> bool" where
  "response_service b \<longleftrightarrow> b \<in> {0x41, 0x49, 0x61, 0x62}"

lemma response_line_class:
  assumes "bs \<noteq> []" "length bs \<le> 32" "response_service (hd bs)"
  defines "s \<equiv> hex_text bs"
  shows "\<not> isNoDataLine s" "\<not> isErrorLine s" "\<not> isBusInitLine s" "\<not> isStatusLine s" "\<not> isLikelyEchoLine s"
proof -
  obtain rest where "s = hex_char (unat (hd bs) div 16) # rest"
    using hex_text_first [OF assms(1)] unfolding s_def by blast
  moreover have "hex_char (unat (hd bs) div 16) \<in> {CHR ''4'', CHR ''6''}"
    using assms(3) by (auto simp: response_service_def hex_char_def)
  ultimately have s: "s = CHR ''4'' # rest \<or> s = CHR ''6'' # rest" by auto
  then show n: "\<not> isNoDataLine s" "\<not> isErrorLine s" "\<not> isBusInitLine s" "\<not> isStatusLine s"
    by (auto simp: isNoDataLine_def isErrorLine_def isBusInitLine_def isStatusLine_def equalsCI_def
        startsWithCI_Cons toUpperChar_def)
  have at: "\<not> startsWithCI s ''AT''" "\<not> startsWithCI s ''ST''"
    using s by (auto simp: startsWithCI_Cons toUpperChar_def)
  have c: "compact_hex s [] = Some (concat (map hex_byte_text bs))"
    using compact_hex_text [of "[]" bs] assms(2) by (simp add: s_def kMaxLineLength_def)
  obtain b bs' where bs: "bs = b # bs'" using assms(1) by (cases bs) auto
  have "hexByte (concat (map hex_byte_text bs) ! 0) (concat (map hex_byte_text bs) ! 1) = Some (unat (hd bs))"
    using hexByte_text [of b] by (simp add: bs hex_byte_text_def)
  moreover have "unat (hd bs) \<in> {0x41, 0x49, 0x61, 0x62}"
    using assms(3) by (auto simp: response_service_def)
  ultimately show "\<not> isLikelyEchoLine s"
    using c at by (auto simp: isLikelyEchoLine_def length_concat_hex)
qed

lemma collect_hex_text:
  assumes "bs \<noteq> []" "length bs \<le> 32" "response_service (hd bs)"
  shows "collectNormalizedHexPayload (hex_text bs) =
    (True, \<lparr> ea_bytes = bs, ea_busInit = False, ea_noData = False, ea_error = False \<rparr>)"
proof -
  have ne: "hex_text bs \<noteq> []" using hex_text_first [OF assms(1)] by fastforce
  have "takeWhile (\<lambda>c. c \<noteq> CHR '':'') (hex_text bs) = hex_text bs"
    "dropWhile (\<lambda>c. c \<noteq> CHR '':'') (hex_text bs) = []"
    using hex_text_plain by (auto simp: takeWhile_eq_all_conv dropWhile_eq_Nil_conv)
  then have "strip_prefix (hex_text bs) = Some (hex_text bs)"
    by (simp add: strip_prefix_def)
  then have pairs: "collectHexBytesFromLine (hex_text bs) kMaxPayloadBytes [] = Some bs"
    using hex_pairs_text [of "[]" bs kMaxPayloadBytes] assms(2)
    by (simp add: collectHexBytesFromLine_def kMaxPayloadBytes_def)
  have "normalized_lines (hex_text bs) = [hex_text bs]" "\<not> hasNormalizedLineOverflow (hex_text bs)"
    using ne by (simp_all add: normalized_lines_def hasNormalizedLineOverflow_def
        raw_lines_hex_text [OF assms(1)] normalized_hex_text [OF assms(1,2)] kMaxNormalizedLines_def)
  with pairs response_line_class [OF assms] assms(1) show ?thesis
    by (simp add: collectNormalizedHexPayload_def)
qed

text \<open>
  Claim C35. A single response line that renders a reply of up to 32 bytes of one of the services
  0x41, 0x49, 0x61 (one parameter byte) and 0x62 (a two-byte data identifier) is read back:
  service, parameter or identifier, and data bytes, whatever prompt and line breaks follow it.
  Other services are outside the claim: a short line of theirs is taken for an echo.
\<close>

theorem response_roundtrip:
  assumes "response_service service" "length params = (if service = 0x62 then 2 else 1)"
    and "length params + length dat \<le> 31" "list_all isTrimChar tail"
  shows "parseElm327Response (Some (hex_text (service # params @ dat) @ tail)) =
    default_result\<lparr>er_valid := True, er_service := service, er_pid := last params,
      er_did := (if service = 0x62 then push_bit 8 (ucast (hd params)) OR ucast (last params) else 0),
      er_dataLen := word_of_nat (length dat), er_dataBytes := data_bytes dat\<rparr>"
proof -
  let ?bs = "service # params @ dat"
  have t: "trim (hex_text ?bs @ tail) = hex_text ?bs"
    using assms(4) by (intro trim_hex_text) simp_all
  have ne: "hex_text ?bs \<noteq> []" using hex_text_first [of ?bs] by auto
  have "collectNormalizedHexPayload (hex_text ?bs) =
    (True, \<lparr> ea_bytes = ?bs, ea_busInit = False, ea_noData = False, ea_error = False \<rparr>)"
    using assms by (intro collect_hex_text) simp_all
  with t ne have p: "parseElm327Response (Some (hex_text ?bs @ tail)) = payload_result ?bs (default_result\<lparr>er_busInit := False\<rparr>)"
    by (simp add: parseElm327Response_def del: hex_text.simps)
  show ?thesis
  proof (cases "service = 0x62")
    case True
    then obtain x y where "params = [x, y]" using assms(2) by (auto simp: length_Suc_conv numeral_2_eq_2)
    with True show ?thesis unfolding p by (simp add: payload_result_def default_result_def)
  next
    case False
    then obtain x where "params = [x]" using assms(2) by (auto simp: length_Suc_conv)
    with False show ?thesis unfolding p by (simp add: payload_result_def default_result_def)
  qed
qed

theorem response_roundtrip_witness:
  "decodeSpeedKmh (parseElm327Response (Some (hex_text [0x41, 0x0D, 0x3C] @ [CHR 0x0D, CHR 0x0D, CHR ''>'']))) = Some 60 \<and>
   er_did (parseElm327Response (Some (hex_text [0x62, 0xF4, 0x0D, 0x3C] @ [CHR ''>'']))) = 0xF40D"
proof -
  have "parseElm327Response (Some (hex_text (0x41 # [0x0D] @ [0x3C]) @ [CHR 0x0D, CHR 0x0D, CHR ''>''])) =
    default_result\<lparr>er_valid := True, er_service := 0x41, er_pid := last [0x0D],
      er_did := (if (0x41 :: u8) = 0x62 then push_bit 8 (ucast (hd [0x0D :: u8])) OR ucast (last [0x0D :: u8]) else 0),
      er_dataLen := word_of_nat (length [0x3C :: u8]), er_dataBytes := data_bytes [0x3C]\<rparr>"
    by (rule response_roundtrip) (simp_all add: response_service_def isTrimChar_def)
  moreover have "parseElm327Response (Some (hex_text (0x62 # [0xF4, 0x0D] @ [0x3C]) @ [CHR ''>''])) =
    default_result\<lparr>er_valid := True, er_service := 0x62, er_pid := last [0xF4, 0x0D],
      er_did := (if (0x62 :: u8) = 0x62 then push_bit 8 (ucast (hd [0xF4 :: u8, 0x0D])) OR ucast (last [0xF4 :: u8, 0x0D]) else 0),
      er_dataLen := word_of_nat (length [0x3C :: u8]), er_dataBytes := data_bytes [0x3C]\<rparr>"
    by (rule response_roundtrip) (simp_all add: response_service_def isTrimChar_def)
  ultimately show ?thesis by (simp add: decodeSpeedKmh_def default_result_def data_bytes_def)
qed

section \<open>Bounds\<close>

lemma hex_pairs_bound:
  "hex_pairs cap s out = Some out' \<Longrightarrow> length out \<le> cap \<Longrightarrow> length out' \<le> cap"
  by (induction cap s out rule: hex_pairs.induct) (auto split: if_splits option.splits)

lemma collect_lines_bound:
  "length (ea_bytes acc) \<le> kMaxPayloadBytes \<Longrightarrow>
   length (ea_bytes (snd (collect_lines ls acc))) \<le> kMaxPayloadBytes"
proof (induction ls acc rule: collect_lines.induct)
  case (2 line lines acc)
  have "length out \<le> kMaxPayloadBytes"
    if "collectHexBytesFromLine line kMaxPayloadBytes (ea_bytes acc) = Some out" for out
    using that "2.prems"
    by (auto simp: collectHexBytesFromLine_def split: option.splits dest: hex_pairs_bound)
  with 2 show ?case by (auto split: option.split)
qed simp

text \<open>
  Whatever a response holds, the reported data length fits the payload buffer and the
  data array keeps its 32 bytes.
\<close>

theorem data_bounds:
  "er_dataLen (parseElm327Response response) \<le> 46 \<and>
   length (er_dataBytes (parseElm327Response response)) = 32"
proof -
  have pr: "er_dataLen (payload_result bs r) \<le> 46 \<and> length (er_dataBytes (payload_result bs r)) = 32"
    if "length bs \<le> 48" "er_dataLen r = 0" "length (er_dataBytes r) = 32" for bs r
  proof -
    have small: "(word_of_nat n :: u8) \<le> 46" if "n \<le> 46" for n
      using that by (simp add: word_le_nat_alt unat_of_nat)
    have "(word_of_nat (length bs - 3) :: u8) \<le> 46" "(word_of_nat (length bs - 2) :: u8) \<le> 46"
      using that(1) by (intro small; simp)+
    with that show ?thesis by (simp add: payload_result_def Let_def data_bytes_def min_def del: of_nat_diff)
  qed
  have bytes: "length (ea_bytes (snd (collectNormalizedHexPayload s))) \<le> 48" for s
    using collect_lines_bound [of _ "normalized_lines s"]
    by (simp add: collectNormalizedHexPayload_def Let_def kMaxPayloadBytes_def)
  show ?thesis
    by (auto simp: parseElm327Response_def Let_def case_prod_unfold default_result_def
        intro: pr [THEN conjunct1] pr [THEN conjunct2] bytes split: option.split)
qed

end
