(* ===== verification/V1_Speed_Policy.thy ===== *)
theory V1_Speed_Policy
  imports V1_Prelude Complex_Main
begin

text \<open>
  The speed consumers: the selector that commits one speed per loop
  (\<open>src/modules/speed/speed_source_selector.cpp\<close>) and the low-speed mute policy
  (\<open>src/modules/speed_mute\<close>). A \<open>float\<close> is compared but never computed with here: it is a
  rational, an infinity or NaN, and the comparisons follow IEEE 754 (false on NaN).
\<close>

section \<open>Float comparisons\<close>

datatype flt = FNaN | FNegInf | Fin rat | FPosInf

fun flt_less :: "flt \<Rightarrow> flt \<Rightarrow> bool" where
  "flt_less FNaN y = False"
| "flt_less x FNaN = False"
| "flt_less (Fin a) (Fin b) = (a < b)"
| "flt_less FNegInf y = (y \<noteq> FNegInf)"
| "flt_less x FPosInf = (x \<noteq> FPosInf)"
| "flt_less x y = False"

fun flt_le :: "flt \<Rightarrow> flt \<Rightarrow> bool" where
  "flt_le FNaN y = False"
| "flt_le x FNaN = False"
| "flt_le (Fin a) (Fin b) = (a \<le> b)"
| "flt_le FNegInf y = True"
| "flt_le x FPosInf = True"
| "flt_le x y = False"

definition flt_of_nat :: "nat \<Rightarrow> flt" where
  "flt_of_nat n = Fin (of_nat n)"

lemma flt_less_le: "flt_less x (Fin a) \<Longrightarrow> \<not> flt_le (Fin a) x"
  by (cases x) auto

section \<open>The low-speed mute\<close>

definition TRANSITION_DEBOUNCE_MS :: u32 where "TRANSITION_DEBOUNCE_MS = 1500"

record speed_mute_settings =
  sms_enabled :: bool
  sms_thresholdMph :: u8
  sms_hysteresisMph :: u8
  sms_v1Volume :: u8
  sms_voice :: bool

record speed_mute_context =
  smc_speedMph :: flt
  smc_speedValid :: bool
  smc_nowMs :: u32

record speed_mute_state =
  smt_muteActive :: bool
  smt_lastTransitionMs :: u32

record speed_mute_module =
  smm_settings :: speed_mute_settings
  smm_state :: speed_mute_state

definition mute_release :: "speed_mute_context \<Rightarrow> speed_mute_state \<Rightarrow> speed_mute_state" where
  "mute_release ctx st =
     (if smt_muteActive st
      then st\<lparr>smt_muteActive := False, smt_lastTransitionMs := smc_nowMs ctx\<rparr> else st)"

definition want_mute :: "speed_mute_settings \<Rightarrow> speed_mute_context \<Rightarrow> speed_mute_state \<Rightarrow> bool" where
  "want_mute s ctx st =
     (let muteBelow = flt_of_nat (unat (sms_thresholdMph s));
          unmuteAbove = flt_of_nat (unat (sms_thresholdMph s) + unat (sms_hysteresisMph s))
      in if \<not> smt_muteActive st \<and> flt_less (smc_speedMph ctx) muteBelow then True
         else if smt_muteActive st \<and> flt_le unmuteAbove (smc_speedMph ctx) then False
         else smt_muteActive st)"

text \<open>The decision \<open>shouldMute\<close> and the new state.\<close>

definition evaluateSpeedMute ::
    "speed_mute_settings \<Rightarrow> speed_mute_context \<Rightarrow> speed_mute_state \<Rightarrow> bool \<times> speed_mute_state" where
  "evaluateSpeedMute s ctx st =
     (if \<not> sms_enabled s then (False, mute_release ctx st)
      else if \<not> smc_speedValid ctx then (False, mute_release ctx st)
      else
        let wantMute = want_mute s ctx st;
            st = (if wantMute \<noteq> smt_muteActive st \<and>
                     elapsed_ms (smc_nowMs ctx) (smt_lastTransitionMs st) \<ge> TRANSITION_DEBOUNCE_MS
                  then st\<lparr>smt_muteActive := wantMute, smt_lastTransitionMs := smc_nowMs ctx\<rparr> else st)
        in (smt_muteActive st, st))"

definition speed_mute_begin :: "speed_mute_settings \<Rightarrow> speed_mute_module" where
  "speed_mute_begin s =
     \<lparr> smm_settings = s, smm_state = \<lparr> smt_muteActive = False, smt_lastTransitionMs = 0 \<rparr> \<rparr>"

definition speed_mute_sync :: "speed_mute_settings \<Rightarrow> speed_mute_module \<Rightarrow> speed_mute_module" where
  "speed_mute_sync s m = m\<lparr>smm_settings := s\<rparr>"

definition speed_mute_update :: "flt \<Rightarrow> bool \<Rightarrow> u32 \<Rightarrow> speed_mute_module \<Rightarrow> bool \<times> speed_mute_module" where
  "speed_mute_update speed valid now m =
     (let (mute, st) = evaluateSpeedMute (smm_settings m)
            \<lparr> smc_speedMph = speed, smc_speedValid = valid, smc_nowMs = now \<rparr> (smm_state m)
      in (mute, m\<lparr>smm_state := st\<rparr>))"

text \<open>
  The policy fails open: whenever it is disabled or the speed is not trusted it does
  not mute, at once and whatever its state; and it mutes otherwise exactly while its state is
  muted.
\<close>

theorem speed_mute_fails_open:
  "fst (speed_mute_update speed valid now m) \<longleftrightarrow>
     sms_enabled (smm_settings m) \<and> valid \<and> smt_muteActive (smm_state (snd (speed_mute_update speed valid now m)))"
  by (simp add: speed_mute_update_def evaluateSpeedMute_def mute_release_def Let_def)

text \<open>
  The mute changes only as documented: it starts below the threshold, it ends at
  threshold plus hysteresis or by failing open, and, failing open apart, never within the
  debounce time of the previous change.
\<close>

theorem speed_mute_transitions:
  fixes m :: speed_mute_module and speed :: flt and valid :: bool and now :: u32
  defines "m' \<equiv> snd (speed_mute_update speed valid now m)"
  assumes change: "smt_muteActive (smm_state m') \<noteq> smt_muteActive (smm_state m)"
  shows "smt_lastTransitionMs (smm_state m') = now \<and>
    (if smt_muteActive (smm_state m') then
       sms_enabled (smm_settings m) \<and> valid \<and>
       flt_less speed (flt_of_nat (unat (sms_thresholdMph (smm_settings m)))) \<and>
       1500 \<le> elapsed_ms now (smt_lastTransitionMs (smm_state m))
     else \<not> sms_enabled (smm_settings m) \<or> \<not> valid \<or>
       (flt_le (flt_of_nat (unat (sms_thresholdMph (smm_settings m)) +
                            unat (sms_hysteresisMph (smm_settings m)))) speed \<and>
        1500 \<le> elapsed_ms now (smt_lastTransitionMs (smm_state m))))"
  using change unfolding m'_def
  by (auto simp: speed_mute_update_def evaluateSpeedMute_def mute_release_def want_mute_def Let_def
      TRANSITION_DEBOUNCE_MS_def split: if_splits)

definition sample_mute :: speed_mute_module where
  "sample_mute = speed_mute_begin \<lparr> sms_enabled = True, sms_thresholdMph = 25, sms_hysteresisMph = 3,
     sms_v1Volume = 0, sms_voice = True \<rparr>"

theorem speed_mute_transitions_witness:
  "smt_lastTransitionMs (smm_state (snd (speed_mute_update (Fin 10) True 2000 sample_mute))) = 2000 \<and>
   fst (speed_mute_update (Fin 10) True 2000 sample_mute)"
proof -
  have on: "smt_muteActive (smm_state (snd (speed_mute_update (Fin 10) True 2000 sample_mute)))"
    by (simp add: sample_mute_def speed_mute_begin_def speed_mute_update_def evaluateSpeedMute_def
        want_mute_def flt_of_nat_def elapsed_ms_def TRANSITION_DEBOUNCE_MS_def Let_def)
  have off: "\<not> smt_muteActive (smm_state sample_mute)" "sms_enabled (smm_settings sample_mute)"
    by (simp_all add: sample_mute_def speed_mute_begin_def)
  from speed_mute_transitions [of "Fin 10" True 2000 sample_mute] on off
  have "smt_lastTransitionMs (smm_state (snd (speed_mute_update (Fin 10) True 2000 sample_mute))) = 2000"
    by simp
  with on off show ?thesis
    by (simp add: speed_mute_update_def evaluateSpeedMute_def Let_def)
qed

section \<open>The speed selector\<close>

datatype speed_source = SrcNone | SrcGps | SrcObd

definition MAX_VALID_SPEED_MPH :: flt where "MAX_VALID_SPEED_MPH = Fin 250"
definition GPS_MIN_SATELLITES :: u8 where "GPS_MIN_SATELLITES = 4"
definition GPS_MAX_HDOP :: flt where "GPS_MAX_HDOP = Fin 5"

record speed_selection =
  sel_source :: speed_source
  sel_speedMph :: flt
  sel_timestampMs :: u32
  sel_ageMs :: u32
  sel_valid :: bool

definition no_selection :: speed_selection where
  "no_selection = \<lparr> sel_source = SrcNone, sel_speedMph = Fin 0, sel_timestampMs = 0, sel_ageMs = -1,
     sel_valid = False \<rparr>"

text \<open>What the two runtime modules answer at one instant: a fresh speed with its time stamp.\<close>

record gps_status =
  gs_satellites :: u8
  gs_hdop :: flt
  gs_qualityFresh :: bool
  gs_stableHasFix :: bool

record speed_inputs =
  in_obd :: "(flt \<times> u32) option option"
  in_gps :: "((flt \<times> u32) option \<times> gps_status) option"

record selector_status =
  sst_obdEnabled :: bool
  sst_gpsEnabled :: bool
  sst_obdFresh :: bool
  sst_obdSpeedMph :: flt
  sst_obdAgeMs :: u32
  sst_gpsFresh :: bool
  sst_gpsGoodSignal :: bool
  sst_gpsSpeedMph :: flt
  sst_gpsAgeMs :: u32
  sst_gpsSatellites :: u8
  sst_gpsHdop :: flt
  sst_selectedSource :: speed_source
  sst_selectedSpeedMph :: flt
  sst_selectedAgeMs :: u32
  sst_sourceSwitches :: u32
  sst_obdSelections :: u32
  sst_gpsSelections :: u32
  sst_noSourceSelections :: u32

record speed_selector =
  sp_obdEnabled :: bool
  sp_gpsEnabled :: bool
  sp_lastSource :: speed_source
  sp_sourceSwitches :: u32
  sp_obdSelections :: u32
  sp_gpsSelections :: u32
  sp_noSourceSelections :: u32
  sp_selectedSpeed :: speed_selection

definition selector_sync :: "bool \<Rightarrow> bool \<Rightarrow> speed_selector \<Rightarrow> speed_selector" where
  "selector_sync obdEnabled gpsEnabled s = s\<lparr>sp_obdEnabled := obdEnabled, sp_gpsEnabled := gpsEnabled\<rparr>"

definition selector_begin :: "bool \<Rightarrow> bool \<Rightarrow> speed_selector \<Rightarrow> speed_selector" where
  "selector_begin obdEnabled gpsEnabled s =
     (selector_sync obdEnabled gpsEnabled s)\<lparr>sp_lastSource := SrcNone, sp_sourceSwitches := 0,
       sp_obdSelections := 0, sp_gpsSelections := 0, sp_noSourceSelections := 0,
       sp_selectedSpeed := no_selection\<rparr>"

text \<open>A module answer counts only below the sanity bound.\<close>

definition sane_sample :: "(flt \<times> u32) option \<Rightarrow> (flt \<times> u32) option" where
  "sane_sample r = (case r of None \<Rightarrow> None
     | Some (speed, ts) \<Rightarrow> if flt_le speed MAX_VALID_SPEED_MPH then Some (speed, ts) else None)"

definition obd_sample :: "speed_selector \<Rightarrow> speed_inputs \<Rightarrow> (flt \<times> u32) option" where
  "obd_sample s i = (if \<not> sp_obdEnabled s then None
     else case in_obd i of None \<Rightarrow> None | Some r \<Rightarrow> sane_sample r)"

definition gps_sample :: "speed_selector \<Rightarrow> speed_inputs \<Rightarrow> (flt \<times> u32) option" where
  "gps_sample s i = (if \<not> sp_gpsEnabled s then None
     else case in_gps i of None \<Rightarrow> None | Some (r, st) \<Rightarrow> sane_sample r)"

definition gps_good :: "speed_selector \<Rightarrow> speed_inputs \<Rightarrow> bool" where
  "gps_good s i \<longleftrightarrow> gps_sample s i \<noteq> None \<and>
     (case in_gps i of None \<Rightarrow> False
      | Some (r, st) \<Rightarrow> gs_qualityFresh st \<and> gs_stableHasFix st \<and>
          gs_satellites st \<ge> GPS_MIN_SATELLITES \<and> flt_less (Fin 0) (gs_hdop st) \<and>
          flt_le (gs_hdop st) GPS_MAX_HDOP)"

definition sample_speed :: "(flt \<times> u32) option \<Rightarrow> flt" where
  "sample_speed r = (case r of None \<Rightarrow> Fin 0 | Some (v, t) \<Rightarrow> v)"

definition sample_age :: "u32 \<Rightarrow> (flt \<times> u32) option \<Rightarrow> u32" where
  "sample_age now r = (case r of None \<Rightarrow> -1 | Some (v, t) \<Rightarrow> now - t)"

text \<open>Satellites and HDOP are reported whenever the GPS module is asked at all.\<close>

definition gps_quality :: "speed_selector \<Rightarrow> speed_inputs \<Rightarrow> u8 \<times> flt" where
  "gps_quality s i = (if \<not> sp_gpsEnabled s then (0, Fin 0)
     else case in_gps i of None \<Rightarrow> (0, Fin 0) | Some (r, st) \<Rightarrow> (gs_satellites st, gs_hdop st))"

definition buildStatus :: "u32 \<Rightarrow> speed_inputs \<Rightarrow> speed_selector \<Rightarrow> selector_status" where
  "buildStatus now i s =
     (let obd = obd_sample s i; gps = gps_sample s i in
      \<lparr> sst_obdEnabled = sp_obdEnabled s, sst_gpsEnabled = sp_gpsEnabled s,
        sst_obdFresh = (obd \<noteq> None), sst_obdSpeedMph = sample_speed obd, sst_obdAgeMs = sample_age now obd,
        sst_gpsFresh = (gps \<noteq> None), sst_gpsGoodSignal = gps_good s i,
        sst_gpsSpeedMph = sample_speed gps, sst_gpsAgeMs = sample_age now gps,
        sst_gpsSatellites = fst (gps_quality s i), sst_gpsHdop = snd (gps_quality s i),
        sst_selectedSource = (if obd \<noteq> None then SrcObd else if gps_good s i then SrcGps else SrcNone),
        sst_selectedSpeedMph = (if obd \<noteq> None then sample_speed obd
          else if gps_good s i then sample_speed gps else Fin 0),
        sst_selectedAgeMs = (if obd \<noteq> None then sample_age now obd
          else if gps_good s i then sample_age now gps else -1),
        sst_sourceSwitches = sp_sourceSwitches s, sst_obdSelections = sp_obdSelections s,
        sst_gpsSelections = sp_gpsSelections s, sst_noSourceSelections = sp_noSourceSelections s \<rparr>)"

definition snapshotAt :: "u32 \<Rightarrow> speed_inputs \<Rightarrow> speed_selector \<Rightarrow> selector_status" where
  "snapshotAt now i s = buildStatus now i s"

definition sourceName :: "speed_source \<Rightarrow> string" where
  "sourceName src = (case src of SrcObd \<Rightarrow> ''obd'' | SrcGps \<Rightarrow> ''gps'' | SrcNone \<Rightarrow> ''none'')"

definition commit_selection :: "speed_source \<Rightarrow> u32 \<Rightarrow> selector_status \<Rightarrow> speed_selection" where
  "commit_selection src now st = \<lparr> sel_source = src, sel_speedMph = sst_selectedSpeedMph st,
     sel_timestampMs = now - sst_selectedAgeMs st, sel_ageMs = sst_selectedAgeMs st, sel_valid = True \<rparr>"

definition selector_update :: "u32 \<Rightarrow> speed_inputs \<Rightarrow> speed_selector \<Rightarrow> speed_selector" where
  "selector_update now i s =
     (if \<not> sp_obdEnabled s \<and> \<not> sp_gpsEnabled s then
        (let s = (if sel_valid (sp_selectedSpeed s) then s\<lparr>sp_selectedSpeed := no_selection\<rparr> else s)
         in s\<lparr>sp_lastSource := SrcNone\<rparr>)
      else
        let st = buildStatus now i s;
            picked = sst_selectedSource st;
            s = (case picked of
                   SrcObd \<Rightarrow> s\<lparr>sp_obdSelections := sp_obdSelections s + 1,
                                sp_selectedSpeed := commit_selection SrcObd now st\<rparr>
                 | SrcGps \<Rightarrow> s\<lparr>sp_gpsSelections := sp_gpsSelections s + 1,
                                sp_selectedSpeed := commit_selection SrcGps now st\<rparr>
                 | SrcNone \<Rightarrow> s\<lparr>sp_noSourceSelections := sp_noSourceSelections s + 1,
                                 sp_selectedSpeed := no_selection\<rparr>);
            s = (if picked \<noteq> sp_lastSource s \<and> sp_lastSource s \<noteq> SrcNone
                 then s\<lparr>sp_sourceSwitches := sp_sourceSwitches s + 1\<rparr> else s)
        in s\<lparr>sp_lastSource := picked\<rparr>)"


definition sample_selector :: speed_selector where
  "sample_selector = selector_begin True True \<lparr> sp_obdEnabled = False, sp_gpsEnabled = False,
     sp_lastSource = SrcNone, sp_sourceSwitches = 0, sp_obdSelections = 0, sp_gpsSelections = 0,
     sp_noSourceSelections = 0, sp_selectedSpeed = no_selection \<rparr>"


end
