(* ===== verification/V1_Utf8_Text.thy ===== *)
theory V1_Utf8_Text
  imports V1_Prelude
begin

text \<open>
  UTF-8 as the exact JSON input check reads it (\<open>src/json_exact_input.h\<close>): the decoder that
  \<open>parseUtf8\<close> and \<open>validSemanticString\<close> share, and the encoder of the standard as its
  specification. A data pointer with its length is an option of a list of bytes; the byte
  after the last one is the terminator.
\<close>

section \<open>Decoding\<close>

text \<open>What a lead byte says: continuation bytes, the first bits, the least code point.\<close>

definition utf8_lead :: "u8 \<Rightarrow> (nat \<times> u32 \<times> u32) option" where
  "utf8_lead first =
     (if first AND 0xE0 = 0xC0 then Some (1, ucast (first AND 0x1F), 0x80)
      else if first AND 0xF0 = 0xE0 then Some (2, ucast (first AND 0x0F), 0x800)
      else if first AND 0xF8 = 0xF0 then Some (3, ucast (first AND 0x07), 0x10000)
      else None)"

fun utf8_continue :: "nat \<Rightarrow> u32 \<Rightarrow> u8 list \<Rightarrow> (u32 \<times> u8 list) option" where
  "utf8_continue 0 cp bs = Some (cp, bs)"
| "utf8_continue (Suc n) cp [] = None"
| "utf8_continue (Suc n) cp (b # bs) =
     (if b AND 0xC0 \<noteq> 0x80 then None
      else utf8_continue n (push_bit 6 cp OR ucast (b AND 0x3F)) bs)"

definition scalar_value :: "u32 \<Rightarrow> bool" where
  "scalar_value cp \<longleftrightarrow> cp \<le> 0x10FFFF \<and> \<not> (0xD800 \<le> cp \<and> cp \<le> 0xDFFF)"

definition parseUtf8 :: "u8 \<Rightarrow> u8 list \<Rightarrow> (u32 \<times> u8 list) option" where
  "parseUtf8 first bs =
     (case utf8_lead first of None \<Rightarrow> None
      | Some (count, cp, minimum) \<Rightarrow>
          if count > length bs then None
          else (case utf8_continue count cp bs of None \<Rightarrow> None
            | Some (cp, rest) \<Rightarrow>
                if minimum \<le> cp \<and> scalar_value cp then Some (cp, rest) else None))"

text \<open>The five control characters that have a JSON escape.\<close>

definition safe_controls :: "u32 list" where
  "safe_controls = [0x08, 0x09, 0x0A, 0x0C, 0x0D]"

definition forbidden_control :: "u32 \<Rightarrow> bool" where
  "forbidden_control cp \<longleftrightarrow> cp < 0x20 \<and> cp \<notin> set safe_controls"

lemma utf8_continue_length:
  "utf8_continue n cp bs = Some (cp', rest) \<Longrightarrow> length rest \<le> length bs"
  by (induction n cp bs rule: utf8_continue.induct) (auto split: if_splits)

lemma parseUtf8_length: "parseUtf8 b bs = Some (cp, rest) \<Longrightarrow> length rest \<le> length bs"
  by (simp add: parseUtf8_def split: option.splits if_splits prod.splits)
    (auto elim!: utf8_continue_length)

function semantic_bytes :: "u8 list \<Rightarrow> bool" where
  "semantic_bytes [] = True"
| "semantic_bytes (first # bs) =
     (if first < 0x20 then
        (if ucast first \<notin> set safe_controls then False else semantic_bytes bs)
      else if first < 0x80 then semantic_bytes bs
      else (case parseUtf8 first bs of None \<Rightarrow> False | Some (cp, rest) \<Rightarrow> semantic_bytes rest))"
  by pat_completeness auto
termination
  by (relation "measure length") (auto dest: parseUtf8_length simp: le_imp_less_Suc)

text \<open>A string is shorter than its stated length exactly when it holds a NUL.\<close>

definition validSemanticString :: "u8 list option \<Rightarrow> nat \<Rightarrow> bool" where
  "validSemanticString data len =
     (case data of None \<Rightarrow> len = 0
      | Some bytes \<Rightarrow>
          if length (takeWhile (\<lambda>b. b \<noteq> 0) bytes) \<noteq> len then False
          else semantic_bytes (take len bytes))"

section \<open>Encoding\<close>

fun utf8_tail :: "nat \<Rightarrow> nat \<Rightarrow> u8 list" where
  "utf8_tail 0 c = []"
| "utf8_tail (Suc n) c = word_of_nat (0x80 + c div 64 ^ n mod 64) # utf8_tail n c"

definition utf8_encode :: "u32 \<Rightarrow> u8 list" where
  "utf8_encode cp =
     (let c = unat cp in
      if c < 0x80 then [word_of_nat c]
      else if c < 0x800 then word_of_nat (0xC0 + c div 64) # utf8_tail 1 c
      else if c < 0x10000 then word_of_nat (0xE0 + c div 64 ^ 2) # utf8_tail 2 c
      else word_of_nat (0xF0 + c div 64 ^ 3) # utf8_tail 3 c)"

text \<open>The masks of the decoder read as ranges and remainders of the byte.\<close>

lemma byte_top_bits:
  "(b AND 0xE0 = 0xC0) = (drop_bit 5 b = (6 :: u8))"
  "(b AND 0xF0 = 0xE0) = (drop_bit 4 b = (14 :: u8))"
  "(b AND 0xF8 = 0xF0) = (drop_bit 3 b = (30 :: u8))"
  "(b AND 0xC0 = 0x80) = (drop_bit 6 b = (2 :: u8))"
  by (auto simp: u8_bits)

lemma drop_bit_u8_eq:
  "n < 256 \<Longrightarrow> (drop_bit k (b :: u8) = word_of_nat n) = (unat b div 2 ^ k = n)"
  by (simp add: word_unat_eq_iff unat_drop_bit_eq unat_of_nat del: drop_bit_eq_div)
    (simp add: drop_bit_eq_div)

lemma div_is:
  fixes x :: nat
  assumes "0 < m"
  shows "x div m = q \<longleftrightarrow> m * q \<le> x \<and> x < m * q + m"
proof
  assume "x div m = q"
  then have "x = m * q + x mod m" using mult_div_mod_eq [of m x] by simp
  with mod_less_divisor [OF assms, of x] show "m * q \<le> x \<and> x < m * q + m" by linarith
qed (auto intro: div_nat_eqI)

lemma lead_ranges:
  "(b AND 0xE0 = 0xC0) = (0xC0 \<le> unat b \<and> unat (b :: u8) < 0xE0)"
  "(b AND 0xF0 = 0xE0) = (0xE0 \<le> unat b \<and> unat b < 0xF0)"
  "(b AND 0xF8 = 0xF0) = (0xF0 \<le> unat b \<and> unat b < 0xF8)"
  "(b AND 0xC0 = 0x80) = (0x80 \<le> unat b \<and> unat b < 0xC0)"
  using drop_bit_u8_eq [of 6 5 b] drop_bit_u8_eq [of 14 4 b] drop_bit_u8_eq [of 30 3 b]
    drop_bit_u8_eq [of 2 6 b]
  unfolding byte_top_bits by (simp_all add: div_is)

lemma low_bits:
  "unat (b AND 0x1F :: u8) = unat b mod 32"
  "unat (b AND 0x0F :: u8) = unat b mod 16"
  "unat (b AND 0x07 :: u8) = unat b mod 8"
  "unat (b AND 0x3F :: u8) = unat b mod 64"
proof -
  have "b AND mask k = take_bit k b" for k by (simp add: take_bit_eq_mask)
  from this [of 5] this [of 4] this [of 3] this [of 6]
  show "unat (b AND 0x1F :: u8) = unat b mod 32" "unat (b AND 0x0F :: u8) = unat b mod 16"
    "unat (b AND 0x07 :: u8) = unat b mod 8" "unat (b AND 0x3F :: u8) = unat b mod 64"
    by (simp_all add: mask_eq_exp_minus_1 unsigned_take_bit_eq take_bit_eq_mod unat_mod)
qed

lemma unat_ucast_u8 [simp]: "unat (ucast (b :: u8) :: u32) = unat b"
  using unat_u8_lt [of b] by (simp add: unsigned_ucast_eq take_bit_nat_eq_self)

text \<open>Appending six bits.\<close>

lemma append_six:
  assumes "unat (cp :: u32) < 2 ^ 26"
  shows "unat (push_bit 6 cp OR ucast (b AND 0x3F :: u8)) = unat cp * 64 + unat b mod 64"
proof -
  have "push_bit 6 cp OR ucast (b AND 0x3F) = push_bit 6 cp + (ucast (b AND 0x3F) :: u32)"
  proof (rule disjunctive_add_eq_or [symmetric], rule bit_eqI)
    fix n
    have "\<not> bit (b AND 0x3F) n" if "6 \<le> n"
      using that take_bit_eq_mask [of 6 b] bit_take_bit_iff [of 6 b n] by (simp add: mask_eq_exp_minus_1)
    then show "bit (push_bit 6 cp AND ucast (b AND 0x3F)) n = bit (0 :: u32) n"
      by (auto simp: bit_push_bit_iff bit_and_iff bit_unsigned_iff)
  qed
  also have "unat \<dots> = unat cp * 64 + unat b mod 64"
    using assms low_bits(4) [of b] mod_less_divisor [of 64 "unat b"]
    by (simp add: unat_word_ariths push_bit_eq_mult mult.commute)
  finally show ?thesis .
qed


section \<open>The decoder reads exactly the encoder's output\<close>

lemma word_of_unat: "unat w = n \<Longrightarrow> w = word_of_nat n"
  by auto

lemma unat_word_of_nat: "n < 2 ^ LENGTH('a) \<Longrightarrow> unat (word_of_nat n :: 'a::len word) = n"
  by (simp add: unat_of_nat)

lemma tail_byte_range: "unat (word_of_nat (0x80 + y mod 64) :: u8) = 0x80 + y mod 64"
proof -
  have "0x80 + y mod 64 < (256 :: nat)" by presburger
  then show ?thesis by (simp add: unat_word_of_nat del: of_nat_add)
qed

lemma split_base:
  fixes x :: nat
  shows "k < m \<Longrightarrow> x * m + k = y \<longleftrightarrow> x = y div m \<and> k = y mod m"
  by auto

lemma byte_is_word:
  "k + x < 256 \<Longrightarrow> b = (word_of_nat (k + x) :: u8) \<longleftrightarrow> unat b = k + x"
  by (simp add: word_unat_eq_iff unat_word_of_nat del: of_nat_add)

lemma continuation_byte:
  assumes "0x80 \<le> unat (b :: u8)" "unat b < 0xC0"
  shows "x * 64 + unat b mod 64 = y \<longleftrightarrow> x = y div 64 \<and> b = word_of_nat (0x80 + y mod 64)"
proof -
  have "(0x80 + k) mod 64 = k" if "k < 64" for k :: nat
  proof -
    have "(k + 64 * 2) mod 64 = k mod 64" by (rule mod_mult_self2)
    with that show ?thesis by (simp add: add.commute)
  qed
  from this [of "unat b - 0x80"] have "unat b = 0x80 + unat b mod 64" using assms by simp
  moreover have "b = word_of_nat (0x80 + y mod 64) \<longleftrightarrow> unat b = 0x80 + y mod 64"
    by (rule byte_is_word) (rule less_trans [of _ "0x80 + 64"], simp_all)
  ultimately show ?thesis by (subst split_base) auto
qed

lemma utf8_continue_iff:
  "(unat cp + 1) * 64 ^ n \<le> 2 ^ 32 \<Longrightarrow>
   utf8_continue n cp bs = Some (cp', rest) \<longleftrightarrow>
   unat cp = unat cp' div 64 ^ n \<and> bs = utf8_tail n (unat cp') @ rest"
proof (induction n arbitrary: cp bs)
  case 0
  then show ?case by (auto simp: word_unat_eq_iff)
next
  case (Suc n)
  note small = Suc.prems
  show ?case
  proof (cases bs)
    case (Cons b ds)
    let ?y = "unat cp' div 64 ^ n" and ?cp = "push_bit 6 cp OR ucast (b AND 0x3F) :: u32"
    have split: "unat cp' div 64 ^ Suc n = ?y div 64"
      by (simp only: power_Suc2 div_mult2_eq)
    show ?thesis
    proof (cases "0x80 \<le> unat b \<and> unat b < 0xC0")
      case True
      have "(unat cp + 1) * 64 ^ Suc 0 \<le> (unat cp + 1) * 64 ^ Suc n"
        by (rule mult_le_mono2, rule power_increasing) simp_all
      from le_trans [OF this small] have "(unat cp + 1) * 64 ^ Suc 0 \<le> 2 ^ 32" .
      then have "unat cp < 2 ^ 26" by simp
      then have cp: "unat ?cp = unat cp * 64 + unat b mod 64" by (rule append_six)
      have "(unat ?cp + 1) * 64 ^ n \<le> ((unat cp + 1) * 64) * 64 ^ n"
        unfolding cp
        using mod_less_divisor [of 64 "unat b"] by (intro mult_le_mono1) (simp add: Suc_leI)
      also have "\<dots> = (unat cp + 1) * 64 ^ Suc n" by (simp only: power_Suc mult.assoc)
      also note small
      finally have "(unat ?cp + 1) * 64 ^ n \<le> 2 ^ 32" .
      from Suc.IH [OF this, of ds] True Cons show ?thesis
        by (simp only: split cp) (auto simp: lead_ranges continuation_byte simp del: of_nat_add)
    next
      case False
      with Cons show ?thesis using tail_byte_range [of ?y] by (auto simp: lead_ranges simp del: of_nat_add)
    qed
  qed simp
qed

lemma mod_block: "m * q \<le> x \<Longrightarrow> x < m * q + m \<Longrightarrow> x mod m = x - m * q" for x :: nat
  using div_is [of m x q] minus_mult_div_eq_mod [of x m] by simp

lemma unat_lead:
  "0xC0 \<le> unat b \<Longrightarrow> unat b < 0xE0 \<Longrightarrow> (ucast (b AND 0x1F :: u8) :: u32) = word_of_nat (unat b - 0xC0)"
  "0xE0 \<le> unat b \<Longrightarrow> unat b < 0xF0 \<Longrightarrow> (ucast (b AND 0x0F :: u8) :: u32) = word_of_nat (unat b - 0xE0)"
  "0xF0 \<le> unat b \<Longrightarrow> unat b < 0xF8 \<Longrightarrow> (ucast (b AND 0x07 :: u8) :: u32) = word_of_nat (unat b - 0xF0)"
  using mod_block [of 32 6 "unat b"] mod_block [of 16 14 "unat b"] mod_block [of 8 30 "unat b"]
  by (auto intro!: word_of_unat simp: low_bits simp del: of_nat_diff word_of_nat_eq_iff)

lemma utf8_lead_eq:
  "utf8_lead b =
     (if 0xC0 \<le> unat b \<and> unat b < 0xE0 then Some (1, word_of_nat (unat b - 0xC0), 0x80)
      else if 0xE0 \<le> unat b \<and> unat b < 0xF0 then Some (2, word_of_nat (unat b - 0xE0), 0x800)
      else if 0xF0 \<le> unat b \<and> unat b < 0xF8 then Some (3, word_of_nat (unat b - 0xF0), 0x10000)
      else None)"
  by (simp add: utf8_lead_def lead_ranges unat_lead)



lemma scalar_unat:
  "scalar_value cp \<longleftrightarrow> unat cp \<le> 0x10FFFF \<and> \<not> (0xD800 \<le> unat cp \<and> unat cp \<le> 0xDFFF)"
  by (simp add: scalar_value_def word_le_nat_alt)

lemma length_utf8_tail [simp]: "length (utf8_tail n c) = n"
  by (induction n) simp_all

lemma parse_with_lead:
  assumes "utf8_lead b = Some (n, word_of_nat v, least)" "n \<le> 3" "v < 64"
  shows "parseUtf8 b bs = Some (cp, rest) \<longleftrightarrow>
    v = unat cp div 64 ^ n \<and> bs = utf8_tail n (unat cp) @ rest \<and> least \<le> cp \<and> scalar_value cp"
proof -
  have v: "unat (word_of_nat v :: u32) = v" using assms(3) by (simp add: unat_word_of_nat)
  have "(v + 1) * 64 ^ n \<le> 64 * 64 ^ (3 :: nat)"
    by (rule mult_le_mono) (use assms power_increasing [of n 3 "64 :: nat"] in simp_all)
  then have *: "utf8_continue n (word_of_nat v) bs = Some (c, r) \<longleftrightarrow>
      v = unat c div 64 ^ n \<and> bs = utf8_tail n (unat c) @ r" for c r
    using utf8_continue_iff [of "word_of_nat v" n bs c r] by (simp add: v)
  have "n \<le> length bs" if "bs = utf8_tail n (unat cp) @ rest" using that by simp
  then show ?thesis using * [of cp rest]
    by (auto simp: parseUtf8_def assms(1) split: option.splits)
qed

lemma utf8_encode_lead:
  assumes "0x80 \<le> unat cp" "scalar_value cp" "b # bs = utf8_encode cp @ rest"
  shows "(0xC0 \<le> unat b \<and> unat b < 0xE0 \<longrightarrow> unat cp < 0x800) \<and>
    (0xE0 \<le> unat b \<and> unat b < 0xF0 \<longrightarrow> 0x800 \<le> unat cp \<and> unat cp < 0x10000) \<and>
    (0xF0 \<le> unat b \<and> unat b < 0xF8 \<longrightarrow> 0x10000 \<le> unat cp) \<and> 0xC0 \<le> unat b \<and> unat b < 0xF8"
proof -
  have range: "unat cp \<le> 0x10FFFF" using assms(2) by (simp add: scalar_unat)
  consider "unat cp < 0x800" | "0x800 \<le> unat cp" "unat cp < 0x10000" | "0x10000 \<le> unat cp"
    by linarith
  then show ?thesis
  proof cases
    case 1
    then have "unat b = 0xC0 + unat cp div 64"
      using assms by (simp add: utf8_encode_def Let_def unat_word_of_nat del: of_nat_add)
    with less_mult_imp_div_less [of "unat cp" 32 64] 1 show ?thesis by simp
  next
    case 2
    then have "unat b = 0xE0 + unat cp div 64 ^ 2"
      using assms by (simp add: utf8_encode_def Let_def unat_word_of_nat del: of_nat_add)
    with less_mult_imp_div_less [of "unat cp" 16 4096] 2 show ?thesis by simp
  next
    case 3
    then have "unat b = 0xF0 + unat cp div 64 ^ 3"
      using assms range by (simp add: utf8_encode_def Let_def unat_word_of_nat del: of_nat_add)
    with less_mult_imp_div_less [of "unat cp" 8 262144] 3 range show ?thesis by simp
  qed
qed

text \<open>The decoder accepts exactly the shortest form of each scalar value.\<close>

lemma parseUtf8_iff:
  "parseUtf8 b bs = Some (cp, rest) \<longleftrightarrow>
     0x80 \<le> unat cp \<and> scalar_value cp \<and> b # bs = utf8_encode cp @ rest"
proof -
  have range: "unat cp \<le> 0x10FFFF" if "scalar_value cp" using that by (simp add: scalar_unat)
  consider "0xC0 \<le> unat b \<and> unat b < 0xE0" | "0xE0 \<le> unat b \<and> unat b < 0xF0"
    | "0xF0 \<le> unat b \<and> unat b < 0xF8" | "unat b < 0xC0 \<or> 0xF8 \<le> unat b" by linarith
  then show ?thesis
  proof cases
    case 1
    have "parseUtf8 b bs = Some (cp, rest) \<longleftrightarrow> unat b - 0xC0 = unat cp div 64 ^ 1 \<and>
        bs = utf8_tail 1 (unat cp) @ rest \<and> 0x80 \<le> cp \<and> scalar_value cp"
      by (rule parse_with_lead) (use 1 in \<open>auto simp: utf8_lead_eq\<close>)
    also have "\<dots> \<longleftrightarrow> 0x80 \<le> unat cp \<and> scalar_value cp \<and> b # bs = utf8_encode cp @ rest"
    proof (cases "0x80 \<le> unat cp \<and> unat cp < 0x800")
      case True
      then show ?thesis using 1 less_mult_imp_div_less [of "unat cp" 32 64]
        by (auto simp: utf8_encode_def Let_def word_le_nat_alt byte_is_word simp del: of_nat_add)
    next
      case False
      then show ?thesis using 1 utf8_encode_lead [of cp b bs rest] div_le_mono [of "0x800" "unat cp" 64]
        by (auto simp: word_le_nat_alt)
    qed
    finally show ?thesis .
  next
    case 2
    have "parseUtf8 b bs = Some (cp, rest) \<longleftrightarrow> unat b - 0xE0 = unat cp div 64 ^ 2 \<and>
        bs = utf8_tail 2 (unat cp) @ rest \<and> 0x800 \<le> cp \<and> scalar_value cp"
      by (rule parse_with_lead) (use 2 in \<open>auto simp: utf8_lead_eq\<close>)
    also have "\<dots> \<longleftrightarrow> 0x80 \<le> unat cp \<and> scalar_value cp \<and> b # bs = utf8_encode cp @ rest"
    proof (cases "0x800 \<le> unat cp \<and> unat cp < 0x10000")
      case True
      then show ?thesis using 2 less_mult_imp_div_less [of "unat cp" 16 4096]
        by (auto simp: utf8_encode_def Let_def word_le_nat_alt byte_is_word simp del: of_nat_add utf8_tail.simps)
    next
      case False
      then show ?thesis using 2 utf8_encode_lead [of cp b bs rest] div_le_mono [of "0x10000" "unat cp" 4096]
        by (auto simp: word_le_nat_alt)
    qed
    finally show ?thesis .
  next
    case 3
    have "parseUtf8 b bs = Some (cp, rest) \<longleftrightarrow> unat b - 0xF0 = unat cp div 64 ^ 3 \<and>
        bs = utf8_tail 3 (unat cp) @ rest \<and> 0x10000 \<le> cp \<and> scalar_value cp"
      by (rule parse_with_lead) (use 3 in \<open>auto simp: utf8_lead_eq\<close>)
    also have "\<dots> \<longleftrightarrow> 0x80 \<le> unat cp \<and> scalar_value cp \<and> b # bs = utf8_encode cp @ rest"
    proof (cases "0x10000 \<le> unat cp \<and> scalar_value cp")
      case True
      then show ?thesis using 3 range less_mult_imp_div_less [of "unat cp" 8 262144]
        by (auto simp: utf8_encode_def Let_def word_le_nat_alt byte_is_word simp del: of_nat_add utf8_tail.simps)
    next
      case False
      then show ?thesis using 3 utf8_encode_lead [of cp b bs rest]
        by (auto simp: word_le_nat_alt)
    qed
    finally show ?thesis .
  next
    case 4
    then show ?thesis using utf8_encode_lead [of cp b bs rest] by (auto simp: parseUtf8_def utf8_lead_eq)
  qed
qed


section \<open>Semantic strings\<close>

text \<open>
  The specification: the data is the UTF-8 text of some sequence of scalar values, none of
  them a control character without a JSON escape. The encoder of a code point below 128 is
  the byte itself.
\<close>

definition semantic_char :: "u32 \<Rightarrow> bool" where
  "semantic_char cp \<longleftrightarrow> scalar_value cp \<and> \<not> forbidden_control cp"

definition utf8_text :: "u32 list \<Rightarrow> u8 list" where
  "utf8_text cps = concat (map utf8_encode cps)"

lemma utf8_text_simps [simp]:
  "utf8_text [] = []"
  "utf8_text (cp # cps) = utf8_encode cp @ utf8_text cps"
  by (simp_all add: utf8_text_def)

lemma utf8_encode_ascii: "unat cp < 0x80 \<Longrightarrow> utf8_encode cp = [ucast cp]"
  by (simp add: utf8_encode_def Let_def)

lemma ascii_scalar: "unat cp < 0x80 \<Longrightarrow> scalar_value cp"
  by (simp add: scalar_unat)

lemma utf8_encode_not_Nil [simp]: "utf8_encode cp \<noteq> []"
  by (simp add: utf8_encode_def Let_def)

lemma forbidden_ucast: "forbidden_control (ucast (b :: u8)) \<longleftrightarrow> b < 0x20 \<and> ucast b \<notin> set safe_controls"
  by (simp add: forbidden_control_def word_less_nat_alt)

lemma not_forbidden: "0x20 \<le> unat cp \<Longrightarrow> \<not> forbidden_control cp"
  by (simp add: forbidden_control_def word_less_nat_alt)

text \<open>One character of a text, as both byte loops read it.\<close>

lemma encode_first:
  "scalar_value cp \<and> first # bs = utf8_encode cp @ rest \<longleftrightarrow>
     (if first < 0x80 then cp = ucast first \<and> rest = bs else parseUtf8 first bs = Some (cp, rest))"
proof (cases "unat cp < 0x80")
  case True
  then have "parseUtf8 first bs \<noteq> Some (cp, rest)" by (simp add: parseUtf8_iff)
  moreover have "cp = ucast first \<longleftrightarrow> first = ucast cp" if "first < 0x80 \<or> first = ucast cp"
  proof -
    have "unat (ucast cp :: u8) = unat cp" using True by (simp add: unsigned_ucast_eq take_bit_nat_eq_self)
    then show ?thesis by (auto simp: word_unat_eq_iff)
  qed
  moreover have "(ucast cp :: u8) < 0x80"
    using True by (simp add: word_less_nat_alt unsigned_ucast_eq take_bit_nat_eq_self)
  ultimately show ?thesis using True by (auto simp: utf8_encode_ascii ascii_scalar)
next
  case False
  have "\<not> first < 0x80" if "parseUtf8 first bs = Some (cp, rest)"
    using utf8_encode_lead [of cp first bs rest] that by (simp add: parseUtf8_iff word_less_nat_alt)
  moreover have "cp \<noteq> ucast first" if "first < 0x80"
    using that False by (auto simp: word_less_nat_alt)
  ultimately show ?thesis using False by (auto simp: parseUtf8_iff)
qed

lemma utf8_text_first:
  "(\<exists>cps. list_all P cps \<and> first # bs = utf8_text cps) \<longleftrightarrow>
   (\<exists>cp rest. P cp \<and> first # bs = utf8_encode cp @ rest \<and> (\<exists>cps. list_all P cps \<and> rest = utf8_text cps))"
proof safe
  fix cps assume *: "list_all P cps" "first # bs = utf8_text cps"
  then obtain cp cps' where "cps = cp # cps'" by (cases cps) auto
  with * show "\<exists>cp rest. P cp \<and> first # bs = utf8_encode cp @ rest \<and> (\<exists>cps. list_all P cps \<and> rest = utf8_text cps)"
    by auto
next
  fix cp cps assume "P cp" "list_all P cps" "first # bs = utf8_encode cp @ utf8_text cps"
  then have "list_all P (cp # cps) \<and> first # bs = utf8_text (cp # cps)" by simp
  then show "\<exists>cps. list_all P cps \<and> first # bs = utf8_text cps" by blast
qed

lemma semantic_bytes_iff:
  "semantic_bytes bs \<longleftrightarrow> (\<exists>cps. list_all semantic_char cps \<and> bs = utf8_text cps)"
proof (induction bs rule: semantic_bytes.induct)
  case 1
  have "list_all semantic_char [] \<and> [] = utf8_text []" by simp
  then show ?case by (simp only: semantic_bytes.simps) blast
next
  case (2 first bs)
  let ?texts = "\<lambda>r. \<exists>cps. list_all semantic_char cps \<and> r = utf8_text cps"
  have "?texts (first # bs) \<longleftrightarrow>
      (\<exists>cp rest. \<not> forbidden_control cp \<and> scalar_value cp \<and> first # bs = utf8_encode cp @ rest \<and> ?texts rest)"
    by (subst utf8_text_first) (auto simp: semantic_char_def)
  also have "\<dots> \<longleftrightarrow> (\<exists>cp rest. \<not> forbidden_control cp \<and>
      (if first < 0x80 then cp = ucast first \<and> rest = bs else parseUtf8 first bs = Some (cp, rest)) \<and> ?texts rest)"
    by (simp only: encode_first [symmetric] conj_assoc)
  also have "\<dots> \<longleftrightarrow> semantic_bytes (first # bs)"
  proof (cases "first < 0x80")
    case True
    show ?thesis
    proof (cases "first < 0x20")
      case True
      with \<open>first < 0x80\<close> 2(1) show ?thesis by (auto simp: forbidden_ucast)
    next
      case False
      with \<open>first < 0x80\<close> 2(2) show ?thesis by (auto simp: forbidden_ucast)
    qed
  next
    case False
    then have low: "\<not> first < 0x20" by (simp add: word_less_nat_alt)
    show ?thesis
    proof (cases "parseUtf8 first bs")
      case (Some p)
      then obtain cp rest where p: "parseUtf8 first bs = Some (cp, rest)" by (cases p) auto
      then have "\<not> forbidden_control cp" by (simp add: parseUtf8_iff not_forbidden)
      with p False low 2(3) [OF low False p] show ?thesis by simp
    qed (use False low in simp)
  qed
  finally show ?case ..
qed

theorem validSemanticString_iff:
  "validSemanticString (Some bytes) len \<longleftrightarrow>
     (\<exists>cps. list_all semantic_char cps \<and> takeWhile (\<lambda>b. b \<noteq> 0) bytes = utf8_text cps \<and>
        len = length (utf8_text cps))"
proof -
  have "take (length (takeWhile (\<lambda>b. b \<noteq> 0) bytes)) bytes = takeWhile (\<lambda>b. b \<noteq> 0) bytes"
    by (metis takeWhile_eq_take)
  then show ?thesis by (auto simp: validSemanticString_def semantic_bytes_iff)
qed

end
