(* ===== verification/V1_Json_Input.thy ===== *)
theory V1_Json_Input
  imports V1_Utf8_Text
begin

text \<open>
  The exact JSON input check, \<open>ExactJsonInput::Detail::Parser\<close> of
  \<open>src/json_exact_input.h\<close>. The position of the parser in its input is the list of the bytes
  that are left; a key's \<open>rawStart\<close> and \<open>rawEnd\<close> are the slice they delimit. A function whose
  only failure is \<open>invalid()\<close> returns an option; the others return the failing status, since
  every caller unwinds on the first \<open>false\<close>. The heap is a parameter: whether a reallocation
  to so many bytes succeeds.
\<close>

datatype exact_status = StatusOk | StatusInvalid | StatusMemoryUnavailable

record KeyRecord =
  objectId :: u32
  codePoints :: u32
  hash :: u64
  rawKey :: "u8 list"

record json_parser =
  jrest :: "u8 list"
  jkeys :: "KeyRecord list"
  keyCapacity :: u32
  nextObjectId :: u32

type_synonym 'a exact_result = "exact_status + 'a"

section \<open>Tokens\<close>

definition is_space :: "u8 \<Rightarrow> bool" where
  "is_space b \<longleftrightarrow> b \<in> {0x20, 0x09, 0x0D, 0x0A}"

definition skipWhitespace :: "u8 list \<Rightarrow> u8 list" where
  "skipWhitespace = dropWhile is_space"

fun consume :: "u8 \<Rightarrow> u8 list \<Rightarrow> u8 list option" where
  "consume c [] = None"
| "consume c (b # bs) = (if b = c then Some bs else None)"

definition consumeLiteral :: "u8 list \<Rightarrow> u8 list \<Rightarrow> u8 list option" where
  "consumeLiteral literal bs =
     (if length literal > length bs \<or> take (length literal) bs \<noteq> literal then None
      else Some (drop (length literal) bs))"

definition lit_true :: "u8 list" where "lit_true = [0x74, 0x72, 0x75, 0x65]"
definition lit_false :: "u8 list" where "lit_false = [0x66, 0x61, 0x6C, 0x73, 0x65]"
definition lit_null :: "u8 list" where "lit_null = [0x6E, 0x75, 0x6C, 0x6C]"

subsection \<open>Numbers\<close>

definition is_digit :: "u8 \<Rightarrow> bool" where
  "is_digit b \<longleftrightarrow> 0x30 \<le> b \<and> b \<le> 0x39"

text \<open>One digit at least, then as many as there are.\<close>

fun digits1 :: "u8 list \<Rightarrow> u8 list option" where
  "digits1 [] = None"
| "digits1 (b # bs) = (if is_digit b then Some (dropWhile is_digit bs) else None)"

definition skip_optional :: "u8 list \<Rightarrow> u8 list \<Rightarrow> u8 list" where
  "skip_optional cs bs = (case bs of [] \<Rightarrow> [] | b # bs' \<Rightarrow> if b \<in> set cs then bs' else bs)"

definition number_integer :: "u8 list \<Rightarrow> u8 list option" where
  "number_integer bs =
     (case consume 0x30 bs of
        Some rest \<Rightarrow> (case rest of [] \<Rightarrow> Some rest | b # _ \<Rightarrow> if is_digit b then None else Some rest)
      | None \<Rightarrow> digits1 bs)"

definition number_fraction :: "u8 list \<Rightarrow> u8 list option" where
  "number_fraction bs = (case consume 0x2E bs of None \<Rightarrow> Some bs | Some rest \<Rightarrow> digits1 rest)"

definition number_exponent :: "u8 list \<Rightarrow> u8 list option" where
  "number_exponent bs =
     (case bs of [] \<Rightarrow> Some bs
      | b # rest \<Rightarrow>
          if b = 0x65 \<or> b = 0x45 then digits1 (skip_optional [0x2B, 0x2D] rest) else Some bs)"

definition parseNumber :: "u8 list \<Rightarrow> u8 list option" where
  "parseNumber bs =
     (case number_integer (skip_optional [0x2D] bs) of None \<Rightarrow> None
      | Some bs1 \<Rightarrow> (case number_fraction bs1 of None \<Rightarrow> None | Some bs2 \<Rightarrow> number_exponent bs2))"

subsection \<open>Strings\<close>

definition hex_digit :: "u8 \<Rightarrow> u8 option" where
  "hex_digit b =
     (if 0x30 \<le> b \<and> b \<le> 0x39 then Some (b - 0x30)
      else if 0x61 \<le> b \<and> b \<le> 0x66 then Some (b - 0x61 + 10)
      else if 0x41 \<le> b \<and> b \<le> 0x46 then Some (b - 0x41 + 10)
      else None)"

fun hex_loop :: "nat \<Rightarrow> u32 \<Rightarrow> u8 list \<Rightarrow> (u32 \<times> u8 list) option" where
  "hex_loop 0 v bs = Some (v, bs)"
| "hex_loop (Suc n) v [] = None"
| "hex_loop (Suc n) v (b # bs) =
     (case hex_digit b of None \<Rightarrow> None | Some d \<Rightarrow> hex_loop n (push_bit 4 v OR ucast d) bs)"

definition parseHex4 :: "u8 list \<Rightarrow> (u32 \<times> u8 list) option" where
  "parseHex4 bs = (if 4 > length bs then None else hex_loop 4 0 bs)"

definition simple_escape :: "u8 \<Rightarrow> u32 option" where
  "simple_escape e =
     (if e = 0x22 then Some 0x22 else if e = 0x5C then Some 0x5C else if e = 0x2F then Some 0x2F
      else if e = 0x62 then Some 0x08 else if e = 0x66 then Some 0x0C else if e = 0x6E then Some 0x0A
      else if e = 0x72 then Some 0x0D else if e = 0x74 then Some 0x09 else None)"

definition join_surrogates :: "u32 \<Rightarrow> u32 \<Rightarrow> u32" where
  "join_surrogates first second = 0x10000 + push_bit 10 (first - 0xD800) + (second - 0xDC00)"

definition low_surrogate :: "u8 list \<Rightarrow> (u32 \<times> u8 list) option" where
  "low_surrogate bs =
     (if 2 > length bs \<or> bs ! 0 \<noteq> 0x5C \<or> bs ! 1 \<noteq> 0x75 then None
      else (case parseHex4 (drop 2 bs) of None \<Rightarrow> None
        | Some (second, rest) \<Rightarrow> if second < 0xDC00 \<or> second > 0xDFFF then None else Some (second, rest)))"

definition unicode_escape :: "u8 list \<Rightarrow> (u32 \<times> u8 list) option" where
  "unicode_escape bs =
     (case parseHex4 bs of None \<Rightarrow> None
      | Some (first, rest) \<Rightarrow>
          if 0xD800 \<le> first \<and> first \<le> 0xDBFF then
            (case low_surrogate rest of None \<Rightarrow> None
             | Some (second, rest') \<Rightarrow> Some (join_surrogates first second, rest'))
          else if 0xDC00 \<le> first \<and> first \<le> 0xDFFF then None
          else Some (first, rest))"

text \<open>One character of a string, its first byte (not a quote) already read.\<close>

definition string_char :: "u8 \<Rightarrow> u8 list \<Rightarrow> (u32 \<times> u8 list) option" where
  "string_char byte bs =
     (case
        (if byte < 0x20 then None
         else if byte = 0x5C then
           (case bs of [] \<Rightarrow> None
            | escaped # rest \<Rightarrow>
                (case simple_escape escaped of Some cp \<Rightarrow> Some (cp, rest)
                 | None \<Rightarrow> if escaped = 0x75 then unicode_escape rest else None))
         else if byte < 0x80 then Some (ucast byte, bs)
         else parseUtf8 byte bs)
      of None \<Rightarrow> None
       | Some (cp, rest) \<Rightarrow> if forbidden_control cp then None else Some (cp, rest))"

definition kFnvOffset :: u64 where "kFnvOffset = 1469598103934665603"
definition kFnvPrime :: u64 where "kFnvPrime = 1099511628211"

definition hash_byte :: "u32 \<Rightarrow> nat \<Rightarrow> u64 \<Rightarrow> u64" where
  "hash_byte cp shift h = (h XOR ucast (drop_bit (shift * 8) cp AND 0xFF)) * kFnvPrime"

text \<open>The running hash and the number of code points, when the caller asks for them.\<close>

definition note_code_point :: "u32 \<Rightarrow> (u64 \<times> u32) option \<Rightarrow> (u64 \<times> u32) option" where
  "note_code_point cp = map_option (\<lambda>(h, n). (fold (hash_byte cp) [0, 1, 2, 3] h, n + 1))"

lemma hex_loop_length: "hex_loop n v bs = Some (w, rest) \<Longrightarrow> length rest + n = length bs"
  by (induction n v bs rule: hex_loop.induct) (auto split: option.splits)

lemma parseHex4_length: "parseHex4 bs = Some (w, rest) \<Longrightarrow> length rest + 4 = length bs"
  by (simp add: parseHex4_def hex_loop_length split: if_splits)

lemma low_surrogate_length: "low_surrogate bs = Some (w, rest) \<Longrightarrow> length rest + 6 = length bs"
  by (auto simp: low_surrogate_def split: if_splits option.splits dest: parseHex4_length)

lemma unicode_escape_length: "unicode_escape bs = Some (cp, rest) \<Longrightarrow> length rest < length bs"
  by (auto simp: unicode_escape_def split: if_splits option.splits dest!: parseHex4_length low_surrogate_length)

lemma string_char_length:
  assumes "string_char b bs = Some (cp, rest)"
  shows "length rest \<le> length bs"
proof -
  have "length rest \<le> Suc (length r)" if "unicode_escape r = Some (cp, rest)" for r
    using unicode_escape_length [OF that] by simp
  then show ?thesis
    using assms parseUtf8_length [of b bs cp rest]
    by (auto simp: string_char_def split: if_splits option.splits list.splits)
qed

function string_loop :: "(u64 \<times> u32) option \<Rightarrow> u8 list \<Rightarrow> ((u64 \<times> u32) option \<times> u8 list) option" where
  "string_loop acc [] = None"
| "string_loop acc (byte # bs) =
     (if byte = 0x22 then Some (acc, bs)
      else (case string_char byte bs of None \<Rightarrow> None
        | Some (cp, rest) \<Rightarrow> string_loop (note_code_point cp acc) rest))"
  by pat_completeness auto
termination
  by (relation "measure (\<lambda>(acc, bs). length bs)") (auto dest: string_char_length simp: le_imp_less_Suc)

text \<open>The opening quote, the characters, and the raw slice up to the closing quote.\<close>

definition parseString ::
    "(u64 \<times> u32) option \<Rightarrow> u8 list \<Rightarrow> ((u64 \<times> u32) option \<times> u8 list \<times> u8 list) option" where
  "parseString acc bs =
     (case consume 0x22 bs of None \<Rightarrow> None
      | Some start \<Rightarrow>
          (case string_loop acc start of None \<Rightarrow> None
           | Some (acc', rest) \<Rightarrow> Some (acc', take (length start - length rest - 1) start, rest)))"

section \<open>Unique keys\<close>

text \<open>The second decoder reads the raw slice of an accepted key again.\<close>

fun utf8_continue_raw :: "nat \<Rightarrow> u32 \<Rightarrow> u8 list \<Rightarrow> (u32 \<times> u8 list) option" where
  "utf8_continue_raw 0 cp bs = Some (cp, bs)"
| "utf8_continue_raw (Suc n) cp [] = None"
| "utf8_continue_raw (Suc n) cp (b # bs) =
     utf8_continue_raw n (push_bit 6 cp OR ucast (b AND 0x3F)) bs"

definition decodeHex4 :: "u8 list \<Rightarrow> (u32 \<times> u8 list) option" where
  "decodeHex4 bs = (if 4 > length bs then None else hex_loop 4 0 bs)"

definition decode_low_surrogate :: "u8 list \<Rightarrow> (u32 \<times> u8 list) option" where
  "decode_low_surrogate bs =
     (if 2 > length bs \<or> bs ! 0 \<noteq> 0x5C \<or> bs ! 1 \<noteq> 0x75 then None
      else (case decodeHex4 (drop 2 bs) of None \<Rightarrow> None
        | Some (second, rest) \<Rightarrow> if second < 0xDC00 \<or> second > 0xDFFF then None else Some (second, rest)))"

definition decode_unicode_escape :: "u8 list \<Rightarrow> (u32 \<times> u8 list) option" where
  "decode_unicode_escape bs =
     (case decodeHex4 bs of None \<Rightarrow> None
      | Some (first, rest) \<Rightarrow>
          if 0xD800 \<le> first \<and> first \<le> 0xDBFF then
            (case decode_low_surrogate rest of None \<Rightarrow> None
             | Some (second, rest') \<Rightarrow> Some (join_surrogates first second, rest'))
          else Some (first, rest))"

lemma decode_hex_same: "decodeHex4 = parseHex4" "decode_low_surrogate = low_surrogate"
  by (simp_all add: fun_eq_iff decodeHex4_def parseHex4_def decode_low_surrogate_def low_surrogate_def)

fun decodeKeyCodePoint :: "u8 list \<Rightarrow> (u32 \<times> u8 list) option" where
  "decodeKeyCodePoint [] = None"
| "decodeKeyCodePoint (first # bs) =
     (if first = 0x5C then
        (case bs of [] \<Rightarrow> None
         | escaped # rest \<Rightarrow>
             (case simple_escape escaped of Some cp \<Rightarrow> Some (cp, rest)
              | None \<Rightarrow> if escaped = 0x75 then decode_unicode_escape rest else None))
      else if first < 0x80 then Some (ucast first, bs)
      else (case utf8_lead first of None \<Rightarrow> None
        | Some (count, cp, minimum) \<Rightarrow>
            if count > length bs then None else utf8_continue_raw count cp bs))"

lemma utf8_continue_raw_length:
  "utf8_continue_raw n cp bs = Some (cp', rest) \<Longrightarrow> length rest + n = length bs"
  by (induction n cp bs rule: utf8_continue_raw.induct) auto

lemma decode_unicode_escape_length:
  "decode_unicode_escape bs = Some (cp, rest) \<Longrightarrow> length rest < length bs"
  by (auto simp: decode_unicode_escape_def decode_hex_same split: if_splits option.splits
      dest!: parseHex4_length low_surrogate_length)

lemma decodeKeyCodePoint_length:
  assumes "decodeKeyCodePoint bs = Some (cp, rest)"
  shows "length rest < length bs"
proof (cases bs)
  case (Cons first ds)
  have "length rest < Suc (Suc (length r))" if "decode_unicode_escape r = Some (cp, rest)" for r
    using decode_unicode_escape_length [OF that] by simp
  moreover have "length rest < Suc (length ds)" if "utf8_continue_raw n c ds = Some (cp, rest)" for n c
    using utf8_continue_raw_length [OF that] by simp
  ultimately show ?thesis using assms Cons by (auto split: if_splits option.splits list.splits)
qed (use assms in simp)

function decodedKeysEqual :: "u8 list \<Rightarrow> u8 list \<Rightarrow> bool" where
  "decodedKeysEqual lhs rhs =
     (if lhs \<noteq> [] \<and> rhs \<noteq> [] then
        (case decodeKeyCodePoint lhs of None \<Rightarrow> False
         | Some (cp1, lhs') \<Rightarrow>
             (case decodeKeyCodePoint rhs of None \<Rightarrow> False
              | Some (cp2, rhs') \<Rightarrow> if cp1 \<noteq> cp2 then False else decodedKeysEqual lhs' rhs'))
      else lhs = [] \<and> rhs = [])"
  by pat_completeness auto
termination
  by (relation "measure (\<lambda>(lhs, rhs). length lhs)") (auto dest: decodeKeyCodePoint_length)

declare decodedKeysEqual.simps [simp del]

text \<open>
  \<open>SIZE_MAX / sizeof(KeyRecord)\<close> for the ESP32's 32-bit \<open>size_t\<close>: two 32-bit fields, a 64-bit
  field and two positions make 24 bytes.
\<close>

definition key_record_size :: u32 where "key_record_size = 24"

definition same_key :: "u32 \<Rightarrow> u64 \<Rightarrow> u32 \<Rightarrow> u8 list \<Rightarrow> KeyRecord \<Rightarrow> bool" where
  "same_key oid h n raw r \<longleftrightarrow>
     objectId r = oid \<and> hash r = h \<and> codePoints r = n \<and> decodedKeysEqual (rawKey r) raw"

definition grow_keys :: "(u32 \<Rightarrow> bool) \<Rightarrow> json_parser \<Rightarrow> json_parser exact_result" where
  "grow_keys alloc p =
     (if length (jkeys p) = unat (keyCapacity p) then
        (let nextCapacity = (if keyCapacity p = 0 then 32 else keyCapacity p * 2) in
         if nextCapacity < keyCapacity p \<or> nextCapacity > 0xFFFFFFFF div key_record_size
         then Inl StatusInvalid
         else if \<not> alloc (nextCapacity * key_record_size) then Inl StatusMemoryUnavailable
         else Inr (p\<lparr>keyCapacity := nextCapacity\<rparr>))
      else Inr p)"

definition rememberUniqueKey ::
    "(u32 \<Rightarrow> bool) \<Rightarrow> u32 \<Rightarrow> u64 \<Rightarrow> u32 \<Rightarrow> u8 list \<Rightarrow> json_parser \<Rightarrow> json_parser exact_result" where
  "rememberUniqueKey alloc oid h n raw p =
     (if list_ex (same_key oid h n raw) (jkeys p) then Inl StatusInvalid
      else (case grow_keys alloc p of Inl status \<Rightarrow> Inl status
        | Inr p' \<Rightarrow> Inr (p'\<lparr>jkeys := jkeys p' @ [\<lparr>objectId = oid, codePoints = n, hash = h, rawKey = raw\<rparr>]\<rparr>)))"

section \<open>Values\<close>

definition kMaxDepth :: u8 where "kMaxDepth = 32"

definition set_rest :: "json_parser \<Rightarrow> u8 list option \<Rightarrow> json_parser exact_result" where
  "set_rest p r = (case r of None \<Rightarrow> Inl StatusInvalid | Some bs \<Rightarrow> Inr (p\<lparr>jrest := bs\<rparr>))"

text \<open>A member up to its value: the key, remembered, and the colon.\<close>

definition member_key :: "(u32 \<Rightarrow> bool) \<Rightarrow> u32 \<Rightarrow> json_parser \<Rightarrow> json_parser exact_result" where
  "member_key alloc oid p =
     (case parseString (Some (kFnvOffset, 0)) (jrest p) of
        Some (Some (h, n), raw, rest) \<Rightarrow>
          (case rememberUniqueKey alloc oid h n raw (p\<lparr>jrest := rest\<rparr>) of
             Inl status \<Rightarrow> Inl status
           | Inr p1 \<Rightarrow> set_rest p1 (map_option skipWhitespace (consume 0x3A (skipWhitespace (jrest p1)))))
      | _ \<Rightarrow> Inl StatusInvalid)"

lemma string_loop_length: "string_loop acc bs = Some (acc', rest) \<Longrightarrow> length rest < length bs"
proof (induction acc bs rule: string_loop.induct)
  case (2 acc byte bs)
  then show ?case using string_char_length [of byte bs]
    by (fastforce split: if_splits option.splits)
qed simp

lemma skipWhitespace_length: "length (skipWhitespace bs) \<le> length bs"
  by (simp add: skipWhitespace_def length_dropWhile_le)

lemma consume_length: "consume c bs = Some rest \<Longrightarrow> length bs = Suc (length rest)"
  by (cases bs) (auto split: if_splits)


lemma set_rest_Inr: "set_rest p r = Inr q \<longleftrightarrow> (\<exists>bs. r = Some bs \<and> q = p\<lparr>jrest := bs\<rparr>)"
  by (auto simp: set_rest_def split: option.splits)

lemma grow_keys_rest: "grow_keys alloc p = Inr q \<Longrightarrow> jrest q = jrest p"
  by (auto simp: grow_keys_def Let_def split: if_splits)

lemma remember_rest: "rememberUniqueKey alloc oid h n raw p = Inr q \<Longrightarrow> jrest q = jrest p"
  by (auto simp: rememberUniqueKey_def split: if_splits sum.splits dest: grow_keys_rest)

lemma parseString_length: "parseString acc bs = Some (acc', raw, rest) \<Longrightarrow> length rest < length bs"
  by (auto simp: parseString_def split: option.splits dest!: consume_length string_loop_length)

lemma member_key_length:
  assumes "member_key alloc oid p = Inr q"
  shows "length (jrest q) < length (jrest p)"
proof -
  obtain h n raw rest p1 bs where *: "parseString (Some (kFnvOffset, 0)) (jrest p) = Some (Some (h, n), raw, rest)"
      "rememberUniqueKey alloc oid h n raw (p\<lparr>jrest := rest\<rparr>) = Inr p1"
      "consume 0x3A (skipWhitespace (jrest p1)) = Some bs" "q = p1\<lparr>jrest := skipWhitespace bs\<rparr>"
    using assms by (auto simp: member_key_def set_rest_Inr split: option.splits sum.splits)
  have "length (skipWhitespace bs) \<le> length bs" "length bs < length (skipWhitespace (jrest p1))"
      "length (skipWhitespace (jrest p1)) \<le> length (jrest p1)"
    using skipWhitespace_length [of bs] skipWhitespace_length [of "jrest p1"] consume_length [OF *(3)] by simp_all
  with *(4) remember_rest [OF *(2)] parseString_length [OF *(1)] show ?thesis by simp
qed

datatype container_step = Failed exact_status | Closed json_parser | More json_parser

text \<open>After the opening bracket: an empty container, or its first item.\<close>

definition open_container :: "u8 \<Rightarrow> json_parser \<Rightarrow> container_step" where
  "open_container close p =
     (let bs = skipWhitespace (tl (jrest p)) in
      case consume close bs of Some rest \<Rightarrow> Closed (p\<lparr>jrest := rest\<rparr>) | None \<Rightarrow> More (p\<lparr>jrest := bs\<rparr>))"

text \<open>After an item: the closing bracket, or a comma and the next item.\<close>

definition next_item :: "u8 \<Rightarrow> json_parser \<Rightarrow> container_step" where
  "next_item close p =
     (let bs = skipWhitespace (jrest p) in
      case consume close bs of Some rest \<Rightarrow> Closed (p\<lparr>jrest := rest\<rparr>)
      | None \<Rightarrow>
          (case consume 0x2C bs of None \<Rightarrow> Failed StatusInvalid
           | Some rest \<Rightarrow> More (p\<lparr>jrest := skipWhitespace rest\<rparr>)))"

definition parse_scalar :: "json_parser \<Rightarrow> json_parser exact_result" where
  "parse_scalar p =
     (let bs = jrest p; b = hd bs in
      set_rest p
        (if b = 0x22 then map_option (\<lambda>(acc, raw, rest). rest) (parseString None bs)
         else if b = 0x74 then consumeLiteral lit_true bs
         else if b = 0x66 then consumeLiteral lit_false bs
         else if b = 0x6E then consumeLiteral lit_null bs
         else parseNumber bs))"

definition new_object :: "json_parser \<Rightarrow> json_parser" where
  "new_object p = p\<lparr>nextObjectId := nextObjectId p + 1\<rparr>"

function parseValue :: "(u32 \<Rightarrow> bool) \<Rightarrow> u8 \<Rightarrow> json_parser \<Rightarrow> json_parser exact_result"
  and parseObject_loop :: "(u32 \<Rightarrow> bool) \<Rightarrow> u8 \<Rightarrow> u32 \<Rightarrow> json_parser \<Rightarrow> json_parser exact_result"
  and parseArray_loop :: "(u32 \<Rightarrow> bool) \<Rightarrow> u8 \<Rightarrow> json_parser \<Rightarrow> json_parser exact_result" where
  "parseValue alloc depth p =
     (if depth > kMaxDepth \<or> jrest p = [] then Inl StatusInvalid
      else if hd (jrest p) = 0x7B then
        (case open_container 0x7D (new_object p) of Failed status \<Rightarrow> Inl status | Closed q \<Rightarrow> Inr q
         | More q \<Rightarrow> parseObject_loop alloc depth (nextObjectId q) q)
      else if hd (jrest p) = 0x5B then
        (case open_container 0x5D p of Failed status \<Rightarrow> Inl status | Closed q \<Rightarrow> Inr q
         | More q \<Rightarrow> parseArray_loop alloc depth q)
      else parse_scalar p)"
| "parseObject_loop alloc depth oid p =
     (if jrest p = [] then Inl StatusInvalid
      else (case member_key alloc oid p of Inl status \<Rightarrow> Inl status
        | Inr p1 \<Rightarrow>
            (case parseValue alloc (depth + 1) p1 of Inl status \<Rightarrow> Inl status
             | Inr p2 \<Rightarrow>
                 (case next_item 0x7D p2 of Failed status \<Rightarrow> Inl status | Closed q \<Rightarrow> Inr q
                  | More q \<Rightarrow> parseObject_loop alloc depth oid q))))"
| "parseArray_loop alloc depth p =
     (if jrest p = [] then Inl StatusInvalid
      else (case parseValue alloc (depth + 1) p of Inl status \<Rightarrow> Inl status
        | Inr p2 \<Rightarrow>
            (case next_item 0x5D p2 of Failed status \<Rightarrow> Inl status | Closed q \<Rightarrow> Inr q
             | More q \<Rightarrow> parseArray_loop alloc depth q)))"
  by pat_completeness auto


lemma open_container_length:
  assumes "jrest p \<noteq> []"
  shows "open_container c p = Closed q \<Longrightarrow> length (jrest q) < length (jrest p)"
    "open_container c p = More q \<Longrightarrow> length (jrest q) < length (jrest p)"
  using assms skipWhitespace_length [of "tl (jrest p)"] consume_length [of c "skipWhitespace (tl (jrest p))"]
  by (cases "jrest p"; force simp: open_container_def Let_def split: option.splits)+

lemma next_item_length:
  "next_item c p = Closed q \<Longrightarrow> length (jrest q) < length (jrest p)"
  "next_item c p = More q \<Longrightarrow> length (jrest q) < length (jrest p)"
proof -
  have "length rest < length (jrest p)" "length (skipWhitespace rest) < length (jrest p)"
    if "consume d (skipWhitespace (jrest p)) = Some rest" for d rest
    using consume_length [OF that] skipWhitespace_length [of "jrest p"] skipWhitespace_length [of rest] by simp_all
  then show "next_item c p = Closed q \<Longrightarrow> length (jrest q) < length (jrest p)"
    "next_item c p = More q \<Longrightarrow> length (jrest q) < length (jrest p)"
    by (auto simp: next_item_def Let_def split: option.splits)
qed

lemma digits1_length: "digits1 bs = Some rest \<Longrightarrow> length rest < length bs"
  by (cases bs) (auto simp: length_dropWhile_le le_imp_less_Suc split: if_splits)

lemma skip_optional_length: "length (skip_optional cs bs) \<le> length bs"
  by (simp add: skip_optional_def split: list.splits)

lemma parseNumber_length: "parseNumber bs = Some rest \<Longrightarrow> length rest < length bs"
proof -
  have int: "length r < length b" if "number_integer b = Some r" for b r
    using that by (auto simp: number_integer_def split: option.splits list.splits if_splits
        dest: digits1_length consume_length)
  have frac: "length r \<le> length b" if "number_fraction b = Some r" for b r
    using that digits1_length consume_length
    by (fastforce simp: number_fraction_def split: option.splits dest: less_imp_le_nat)
  have expo: "length r \<le> length b" if "number_exponent b = Some r" for b r
    using that digits1_length [of "skip_optional [0x2B, 0x2D] (tl b)" r] skip_optional_length [of "[0x2B, 0x2D]" "tl b"]
    by (auto simp: number_exponent_def split: list.splits if_splits)
  assume "parseNumber bs = Some rest"
  then show ?thesis
    using skip_optional_length [of "[0x2D]" bs]
    by (fastforce simp: parseNumber_def split: option.splits dest!: int frac expo)
qed

lemma consumeLiteral_length:
  "consumeLiteral (c # cs) bs = Some rest \<Longrightarrow> length rest < length bs"
  by (auto simp: consumeLiteral_def split: if_splits)

lemma parse_scalar_length: "parse_scalar p = Inr q \<Longrightarrow> length (jrest q) < length (jrest p)"
  by (auto simp: parse_scalar_def Let_def set_rest_Inr lit_true_def lit_false_def lit_null_def
      split: if_splits dest: parseNumber_length consumeLiteral_length parseString_length)

lemma json_progress:
  "parseValue_parseObject_loop_parseArray_loop_dom (Inl (alloc, d, p)) \<Longrightarrow>
     parseValue alloc d p = Inr q \<Longrightarrow> length (jrest q) < length (jrest p)"
  "parseValue_parseObject_loop_parseArray_loop_dom (Inr (Inl (alloc, d, oid, p))) \<Longrightarrow>
     parseObject_loop alloc d oid p = Inr q \<Longrightarrow> length (jrest q) < length (jrest p)"
  "parseValue_parseObject_loop_parseArray_loop_dom (Inr (Inr (alloc, d, p))) \<Longrightarrow>
     parseArray_loop alloc d p = Inr q \<Longrightarrow> length (jrest q) < length (jrest p)"
proof (induction alloc d p and alloc d oid p and alloc d p arbitrary: q and q and q
    rule: parseValue_parseObject_loop_parseArray_loop.pinduct)
  case (1 alloc depth p)
  have len: "jrest (new_object p) = jrest p" by (simp add: new_object_def)
  have step: "length (jrest q) < length (jrest p)"
    if "open_container c p' = x" "jrest p' = jrest p" "jrest p \<noteq> []"
      "x = Closed q \<or> (\<exists>r. x = More r \<and> length (jrest q) < length (jrest r))" for c p' x
    using that open_container_length [of p' c] by fastforce
  show ?case
    using 1(4) step [OF refl len, of "0x7D"] step [OF refl refl, of "0x5D"] parse_scalar_length [of p q] 1(2) 1(3)
    by (simp add: parseValue.psimps [OF 1(1)] split: if_splits container_step.splits)
next
  case (2 alloc depth oid p)
  note loop = parseObject_loop.psimps [OF 2(1)] and ne = 2(4)
  obtain p1 p2 where key: "jrest p \<noteq> []" "member_key alloc oid p = Inr p1"
      and val: "parseValue alloc (depth + 1) p1 = Inr p2"
    using ne by (auto simp: loop split: if_splits sum.splits)
  have "length (jrest p2) < length (jrest p)"
    using 2(2) [OF key val] member_key_length [OF key(2)] by simp
  moreover have "length (jrest q) < length (jrest p2)"
  proof (cases "next_item 0x7D p2")
    case (More r)
    with ne key val 2(3) [OF key val More] next_item_length(2) [OF More] show ?thesis by (simp add: loop)
  qed (use ne key val next_item_length(1) [of "0x7D" p2] in \<open>simp_all add: loop\<close>)
  ultimately show ?case by simp
next
  case (3 alloc depth p)
  note loop = parseArray_loop.psimps [OF 3(1)] and ne = 3(4)
  obtain p2 where ok: "jrest p \<noteq> []" and val: "parseValue alloc (depth + 1) p = Inr p2"
    using ne by (auto simp: loop split: if_splits sum.splits)
  have "length (jrest p2) < length (jrest p)" using 3(2) [OF ok val] .
  moreover have "length (jrest q) < length (jrest p2)"
  proof (cases "next_item 0x5D p2")
    case (More r)
    with ne ok val 3(3) [OF ok val More] next_item_length(2) [OF More] show ?thesis by (simp add: loop)
  qed (use ne ok val next_item_length(1) [of "0x5D" p2] in \<open>simp_all add: loop\<close>)
  ultimately show ?case by simp
qed

lemma new_object_rest [simp]: "jrest (new_object p) = jrest p"
  by (simp add: new_object_def)

lemma open_container_progress:
  "jrest p \<noteq> [] \<Longrightarrow> open_container c p = More q \<Longrightarrow> Suc (2 * length (jrest q)) < 2 * length (jrest p)"
  "jrest p \<noteq> [] \<Longrightarrow> open_container c (new_object p) = More q \<Longrightarrow>
     Suc (2 * length (jrest q)) < 2 * length (jrest p)"
  using open_container_length(2) [of p c q] open_container_length(2) [of "new_object p" c q] by simp_all

termination parseValue
proof (relation "measure (\<lambda>x. case x of Inl (_, _, p) \<Rightarrow> 2 * length (jrest p)
    | Inr (Inl (_, _, _, p)) \<Rightarrow> 2 * length (jrest p) + 1 | Inr (Inr (_, _, p)) \<Rightarrow> 2 * length (jrest p) + 1)")
qed (auto simp: open_container_progress dest!: member_key_length next_item_length(2) json_progress(1))

declare parseValue.simps [simp del] parseObject_loop.simps [simp del] parseArray_loop.simps [simp del]

definition exact_parse :: "(u32 \<Rightarrow> bool) \<Rightarrow> u8 list option \<Rightarrow> exact_status" where
  "exact_parse alloc data =
     (case data of None \<Rightarrow> StatusInvalid
      | Some bytes \<Rightarrow>
          if bytes = [] then StatusInvalid
          else (case parseValue alloc 0
                  \<lparr>jrest = skipWhitespace bytes, jkeys = [], keyCapacity = 0, nextObjectId = 0\<rparr> of
                  Inl status \<Rightarrow> status
                | Inr p \<Rightarrow> if skipWhitespace (jrest p) = [] then StatusOk else StatusInvalid))"

definition validate :: "(u32 \<Rightarrow> bool) \<Rightarrow> u8 list option \<Rightarrow> exact_status" where
  "validate alloc data = exact_parse alloc data"

end
