(* ===== verification/V1_Json_Tokens.thy ===== *)
theory V1_Json_Tokens
  imports V1_Json_Input
begin

text \<open>
  What the tokens of the exact JSON check accept: the grammar of RFC 8259 for white space,
  numbers, strings and escapes, stated without the parser, and the proofs that each token
  function of \<open>src/json_exact_input.h\<close> reads exactly that.
\<close>

section \<open>White space and literals\<close>

definition spaces :: "u8 list \<Rightarrow> bool" where
  "spaces ws \<longleftrightarrow> list_all is_space ws"

lemma spaces_simps [simp]: "spaces []" "spaces (b # bs) = (is_space b \<and> spaces bs)"
  "spaces (xs @ ys) = (spaces xs \<and> spaces ys)"
  by (simp_all add: spaces_def)

lemma skipWhitespace_split: "\<exists>ws. spaces ws \<and> bs = ws @ skipWhitespace bs"
  unfolding skipWhitespace_def spaces_def
  by (rule exI [of _ "takeWhile is_space bs"]) (auto simp: list_all_iff dest: set_takeWhileD)

lemma skipWhitespace_skips: "spaces ws \<Longrightarrow> skipWhitespace (ws @ bs) = skipWhitespace bs"
  by (induction ws) (auto simp: skipWhitespace_def)

lemma skipWhitespace_stops [simp]: "\<not> is_space b \<Longrightarrow> skipWhitespace (b # bs) = b # bs"
  by (simp add: skipWhitespace_def)

lemma skipWhitespace_Nil: "skipWhitespace bs = [] \<longleftrightarrow> spaces bs"
  by (simp add: skipWhitespace_def spaces_def list_all_iff)

lemma consume_iff: "consume c bs = Some rest \<longleftrightarrow> bs = c # rest"
  by (cases bs) auto

lemma consume_None: "consume c bs = None \<longleftrightarrow> (\<forall>rest. bs \<noteq> c # rest)"
  by (cases bs) auto

lemma consumeLiteral_iff: "consumeLiteral lit bs = Some rest \<longleftrightarrow> bs = lit @ rest"
proof
  assume "consumeLiteral lit bs = Some rest"
  then have "take (length lit) bs = lit" "drop (length lit) bs = rest"
    by (auto simp: consumeLiteral_def split: if_splits)
  then show "bs = lit @ rest" by (metis append_take_drop_id)
qed (simp add: consumeLiteral_def)

section \<open>Numbers\<close>

definition digits :: "u8 list \<Rightarrow> bool" where
  "digits ds \<longleftrightarrow> ds \<noteq> [] \<and> list_all is_digit ds"

definition integer_text :: "u8 list \<Rightarrow> bool" where
  "integer_text t \<longleftrightarrow> t = [0x30] \<or> digits t \<and> hd t \<noteq> 0x30"

definition fraction_text :: "u8 list \<Rightarrow> bool" where
  "fraction_text t \<longleftrightarrow> t = [] \<or> (\<exists>ds. digits ds \<and> t = 0x2E # ds)"

definition exponent_text :: "u8 list \<Rightarrow> bool" where
  "exponent_text t \<longleftrightarrow> t = [] \<or>
     (\<exists>e sign ds. e \<in> {0x65, 0x45} \<and> sign \<in> {[], [0x2B], [0x2D]} \<and> digits ds \<and> t = e # sign @ ds)"

definition number_text :: "u8 list \<Rightarrow> bool" where
  "number_text t \<longleftrightarrow>
     (\<exists>sign i f e. sign \<in> {[], [0x2D]} \<and> integer_text i \<and> fraction_text f \<and> exponent_text e \<and>
        t = sign @ i @ f @ e)"

text \<open>A number ends where none of these follows.\<close>

definition number_byte :: "u8 \<Rightarrow> bool" where
  "number_byte b \<longleftrightarrow> is_digit b \<or> b \<in> {0x2E, 0x65, 0x45}"

definition ends_number :: "u8 list \<Rightarrow> bool" where
  "ends_number rest \<longleftrightarrow> (case rest of [] \<Rightarrow> True | b # _ \<Rightarrow> \<not> number_byte b)"

lemma dropWhile_digits:
  "list_all is_digit ds \<Longrightarrow> (case rest of [] \<Rightarrow> True | b # _ \<Rightarrow> \<not> is_digit b) \<Longrightarrow>
   dropWhile is_digit (ds @ rest) = rest"
  by (induction ds) (auto split: list.splits)

lemma digits1_split: "digits1 bs = Some rest \<Longrightarrow> \<exists>ds. digits ds \<and> bs = ds @ rest \<and> hd bs = hd ds"
proof (cases bs)
  case (Cons b ds)
  assume "digits1 bs = Some rest"
  with Cons have "is_digit b" "rest = dropWhile is_digit ds" by (auto split: if_splits)
  then have "digits (b # takeWhile is_digit ds) \<and> bs = (b # takeWhile is_digit ds) @ rest"
    using Cons by (auto simp: digits_def list_all_iff dest: set_takeWhileD)
  with Cons show ?thesis by (metis list.sel(1))
qed simp

lemma digits1_append:
  "digits ds \<Longrightarrow> (case rest of [] \<Rightarrow> True | b # _ \<Rightarrow> \<not> is_digit b) \<Longrightarrow> digits1 (ds @ rest) = Some rest"
  by (cases ds) (auto simp: digits_def dropWhile_digits)

lemma not_digits:
  "\<not> is_digit 0x2D" "\<not> is_digit 0x2E" "\<not> is_digit 0x65" "\<not> is_digit 0x45" "\<not> is_digit 0x2B" "is_digit 0x30"
  by (simp_all add: is_digit_def)

lemma digits_append_first: "digits ds \<Longrightarrow> \<exists>d ds'. ds = d # ds' \<and> is_digit d"
  by (cases ds) (auto simp: digits_def)

lemma number_integer_sound:
  "number_integer bs = Some rest \<Longrightarrow> \<exists>i. integer_text i \<and> bs = i @ rest"
  by (cases "consume 0x30 bs")
    (auto simp: number_integer_def integer_text_def consume_iff consume_None split: list.splits if_splits
      dest!: digits1_split, metis append_Cons list.exhaust_sel digits_def)

lemma number_integer_complete:
  assumes "integer_text i" "case rest of [] \<Rightarrow> True | b # _ \<Rightarrow> \<not> is_digit b"
  shows "number_integer (i @ rest) = Some rest"
proof (cases "i = [0x30]")
  case False
  then obtain d ds where "i = d # ds" "d \<noteq> 0x30" "digits i"
    using assms(1) by (cases i) (auto simp: integer_text_def digits_def)
  then show ?thesis using digits1_append [OF _ assms(2), of i] by (simp add: number_integer_def)
qed (use assms(2) in \<open>auto simp: number_integer_def split: list.splits\<close>)

lemma number_fraction_sound: "number_fraction bs = Some rest \<Longrightarrow> \<exists>f. fraction_text f \<and> bs = f @ rest"
  by (fastforce simp: number_fraction_def fraction_text_def consume_iff split: option.splits dest: digits1_split)

lemma number_fraction_complete:
  assumes "fraction_text f" "case rest of [] \<Rightarrow> True | b # _ \<Rightarrow> \<not> is_digit b \<and> b \<noteq> 0x2E"
  shows "number_fraction (f @ rest) = Some rest"
  using assms digits1_append [of _ rest]
  by (auto simp: fraction_text_def number_fraction_def split: list.splits option.splits)

lemma skip_optional_split: "\<exists>sign. (sign = [] \<or> (\<exists>c \<in> set cs. sign = [c])) \<and> bs = sign @ skip_optional cs bs"
  by (cases bs) (auto simp: skip_optional_def)

lemma number_exponent_sound: "number_exponent bs = Some rest \<Longrightarrow> \<exists>e. exponent_text e \<and> bs = e @ rest"
proof (cases bs)
  case (Cons b ds)
  assume *: "number_exponent bs = Some rest"
  show ?thesis
  proof (cases "b = 0x65 \<or> b = 0x45")
    case True
    with * Cons have "digits1 (skip_optional [0x2B, 0x2D] ds) = Some rest" by (auto simp: number_exponent_def)
    then obtain es where "digits es" "skip_optional [0x2B, 0x2D] ds = es @ rest" by (auto dest: digits1_split)
    moreover obtain sign where "sign \<in> {[], [0x2B], [0x2D]}" "ds = sign @ skip_optional [0x2B, 0x2D] ds"
      using skip_optional_split [of "[0x2B, 0x2D]" ds] by auto
    ultimately have "exponent_text (b # sign @ es) \<and> bs = (b # sign @ es) @ rest"
      using True Cons by (simp add: exponent_text_def) blast
    then show ?thesis by blast
  qed (use * Cons in \<open>simp add: number_exponent_def exponent_text_def\<close>)
qed (simp add: number_exponent_def exponent_text_def)

lemma number_exponent_complete:
  assumes "exponent_text e" "ends_number rest"
  shows "number_exponent (e @ rest) = Some rest"
proof (cases "e = []")
  case True
  with assms(2) show ?thesis by (auto simp: number_exponent_def ends_number_def number_byte_def split: list.splits)
next
  case False
  then obtain c sign ds where e: "c \<in> {0x65, 0x45}" "sign \<in> {[], [0x2B], [0x2D]}" "digits ds" "e = c # sign @ ds"
    using assms(1) by (auto simp: exponent_text_def)
  obtain d ds' where "ds = d # ds'" "is_digit d" using digits_append_first [OF e(3)] by blast
  then have "skip_optional [0x2B, 0x2D] (sign @ ds @ rest) = ds @ rest"
    using e(2) not_digits by (auto simp: skip_optional_def)
  moreover have "digits1 (ds @ rest) = Some rest"
    using e(3) assms(2) by (intro digits1_append) (auto simp: ends_number_def number_byte_def split: list.splits)
  ultimately show ?thesis using e(1,4) by (auto simp: number_exponent_def)
qed

lemma parseNumber_sound:
  assumes "parseNumber bs = Some rest"
  shows "\<exists>t. number_text t \<and> bs = t @ rest"
proof -
  obtain b1 b2 where *: "number_integer (skip_optional [0x2D] bs) = Some b1" "number_fraction b1 = Some b2"
      "number_exponent b2 = Some rest"
    using assms by (auto simp: parseNumber_def split: option.splits)
  obtain sign where "sign \<in> {[], [0x2D]}" "bs = sign @ skip_optional [0x2D] bs"
    using skip_optional_split [of "[0x2D]" bs] by auto
  moreover obtain i where "integer_text i" "skip_optional [0x2D] bs = i @ b1" using number_integer_sound [OF *(1)] by blast
  moreover obtain f where "fraction_text f" "b1 = f @ b2" using number_fraction_sound [OF *(2)] by blast
  moreover obtain e where "exponent_text e" "b2 = e @ rest" using number_exponent_sound [OF *(3)] by blast
  ultimately have "number_text (sign @ i @ f @ e) \<and> bs = (sign @ i @ f @ e) @ rest"
    by (auto simp: number_text_def)
  then show ?thesis by blast
qed

lemma parseNumber_complete:
  assumes "number_text t" "ends_number rest"
  shows "parseNumber (t @ rest) = Some rest"
proof -
  obtain sign i f e where t: "sign \<in> {[], [0x2D]}" "integer_text i" "fraction_text f" "exponent_text e"
      "t = sign @ i @ f @ e"
    using assms(1) by (auto simp: number_text_def)
  have e: "case e @ rest of [] \<Rightarrow> True | b # _ \<Rightarrow> \<not> is_digit b \<and> b \<noteq> 0x2E"
    using t(4) assms(2) not_digits
    by (auto simp: exponent_text_def ends_number_def number_byte_def split: list.splits)
  have fe: "case f @ e @ rest of [] \<Rightarrow> True | b # _ \<Rightarrow> \<not> is_digit b"
    using t(3) e not_digits by (auto simp: fraction_text_def split: list.splits)
  have "\<exists>d ds. i = d # ds \<and> is_digit d"
    using t(2) digits_append_first [of i] not_digits by (auto simp: integer_text_def)
  then have "skip_optional [0x2D] (sign @ i @ f @ e @ rest) = i @ f @ e @ rest"
    using t(1) not_digits by (auto simp: skip_optional_def)
  with t number_integer_complete [OF t(2) fe] number_fraction_complete [OF t(3) e]
    number_exponent_complete [OF t(4) assms(2)] show ?thesis
    by (simp add: parseNumber_def)
qed


section \<open>Strings\<close>

definition hex4 :: "u8 list \<Rightarrow> u32 \<Rightarrow> bool" where
  "hex4 hs v \<longleftrightarrow> length hs = 4 \<and> (\<forall>h \<in> set hs. hex_digit h \<noteq> None) \<and>
     unat v = foldl (\<lambda>a h. a * 16 + unat (the (hex_digit h))) 0 hs"

definition high_surrogate :: "u32 \<Rightarrow> bool" where
  "high_surrogate u \<longleftrightarrow> 0xD800 \<le> u \<and> u \<le> 0xDBFF"

definition is_low_surrogate :: "u32 \<Rightarrow> bool" where
  "is_low_surrogate u \<longleftrightarrow> 0xDC00 \<le> u \<and> u \<le> 0xDFFF"

text \<open>The spellings of a character, and of a text between its quotes.\<close>

inductive spells_char :: "u32 \<Rightarrow> u8 list \<Rightarrow> bool" where
  plain: "scalar_value cp \<Longrightarrow> 0x20 \<le> cp \<Longrightarrow> cp \<noteq> 0x22 \<Longrightarrow> cp \<noteq> 0x5C \<Longrightarrow> spells_char cp (utf8_encode cp)"
| simple: "simple_escape e = Some cp \<Longrightarrow> spells_char cp [0x5C, e]"
| unicode: "hex4 hs cp \<Longrightarrow> scalar_value cp \<Longrightarrow> \<not> forbidden_control cp \<Longrightarrow> spells_char cp (0x5C # 0x75 # hs)"
| pair: "hex4 hs u \<Longrightarrow> hex4 ls l \<Longrightarrow> high_surrogate u \<Longrightarrow> is_low_surrogate l \<Longrightarrow>
    unat cp = 0x10000 + (unat u - 0xD800) * 1024 + (unat l - 0xDC00) \<Longrightarrow>
    spells_char cp (0x5C # 0x75 # hs @ 0x5C # 0x75 # ls)"

inductive spells_text :: "u32 list \<Rightarrow> u8 list \<Rightarrow> bool" where
  empty: "spells_text [] []"
| char: "spells_char cp s \<Longrightarrow> spells_text cps t \<Longrightarrow> spells_text (cp # cps) (s @ t)"

lemma hex_digit_bound: "hex_digit b = Some d \<Longrightarrow> unat d < 16"
proof -
  have sub: "unat (x - y) = unat x - unat y" if "y \<le> x" for x y :: u8
    using that by (simp add: unat_sub)
  have add: "unat (x + 10) = unat x + 10" if "unat x < 6" for x :: u8
    using that by (simp add: unat_word_ariths)
  assume "hex_digit b = Some d"
  then show ?thesis
    by (auto simp: hex_digit_def word_le_nat_alt sub add split: if_splits)
qed

lemma append_four:
  assumes "unat (v :: u32) < 2 ^ 28" "unat (d :: u8) < 16"
  shows "unat (push_bit 4 v OR ucast d) = unat v * 16 + unat d"
proof -
  have "take_bit 4 d = d" using assms(2) by (simp add: word_unat_eq_iff unsigned_take_bit_eq take_bit_nat_eq_self)
  then have high: "\<not> bit d n" if "4 \<le> n" for n using that by (metis bit_take_bit_iff not_le)
  have "push_bit 4 v OR ucast d = push_bit 4 v + (ucast d :: u32)"
    by (rule disjunctive_add_eq_or [symmetric], rule bit_eqI)
      (auto simp: bit_push_bit_iff bit_and_iff bit_unsigned_iff high)
  also have "unat \<dots> = unat v * 16 + unat d"
    using assms by (simp add: unat_word_ariths push_bit_eq_mult mult.commute)
  finally show ?thesis .
qed

lemma hex_loop_iff:
  "(unat v + 1) * 16 ^ n \<le> 2 ^ 32 \<Longrightarrow>
   hex_loop n v bs = Some (w, rest) \<longleftrightarrow>
   n \<le> length bs \<and> rest = drop n bs \<and> (\<forall>h \<in> set (take n bs). hex_digit h \<noteq> None) \<and>
     unat w = foldl (\<lambda>a h. a * 16 + unat (the (hex_digit h))) (unat v) (take n bs)"
proof (induction n arbitrary: v bs)
  case 0
  then show ?case by (auto simp: word_unat_eq_iff)
next
  case (Suc n)
  note small = Suc.prems
  show ?case
  proof (cases bs)
    case (Cons b ds)
    show ?thesis
    proof (cases "hex_digit b")
      case (Some d)
      let ?v = "push_bit 4 v OR ucast d :: u32"
      have "(unat v + 1) * 16 ^ Suc 0 \<le> (unat v + 1) * 16 ^ Suc n"
        by (rule mult_le_mono2, rule power_increasing) simp_all
      from le_trans [OF this small] have "unat v < 2 ^ 28" by simp
      then have v: "unat ?v = unat v * 16 + unat d" using hex_digit_bound [OF Some] by (rule append_four)
      have "(unat ?v + 1) * 16 ^ n \<le> ((unat v + 1) * 16) * 16 ^ n"
        unfolding v using hex_digit_bound [OF Some] by (intro mult_le_mono1) simp
      also have "\<dots> = (unat v + 1) * 16 ^ Suc n" by (simp only: power_Suc mult.assoc)
      also note small
      finally have "(unat ?v + 1) * 16 ^ n \<le> 2 ^ 32" .
      from Suc.IH [OF this, of ds] show ?thesis using Some Cons by (simp add: v)
    qed (use Cons in simp)
  qed simp
qed

lemma parseHex4_iff: "parseHex4 bs = Some (v, rest) \<longleftrightarrow> (\<exists>hs. hex4 hs v \<and> bs = hs @ rest)"
proof
  assume "parseHex4 bs = Some (v, rest)"
  then have "hex4 (take 4 bs) v \<and> bs = take 4 bs @ rest"
    by (simp add: parseHex4_def hex4_def hex_loop_iff split: if_splits)
  then show "\<exists>hs. hex4 hs v \<and> bs = hs @ rest" by blast
next
  assume "\<exists>hs. hex4 hs v \<and> bs = hs @ rest"
  then obtain hs where "hex4 hs v" "bs = hs @ rest" by blast
  then show "parseHex4 bs = Some (v, rest)"
    by (simp add: parseHex4_def hex4_def hex_loop_iff)
qed

lemma parseHex4_append: "hex4 hs v \<Longrightarrow> parseHex4 (hs @ rest) = Some (v, rest)"
  using parseHex4_iff by blast

lemma low_surrogate_iff:
  "low_surrogate bs = Some (l, rest) \<longleftrightarrow>
     (\<exists>ls. hex4 ls l \<and> is_low_surrogate l \<and> bs = 0x5C # 0x75 # ls @ rest)"
proof (cases "\<exists>ds. bs = 0x5C # 0x75 # ds")
  case True
  then obtain ds where ds: "bs = 0x5C # 0x75 # ds" by blast
  show ?thesis
  proof
    assume "low_surrogate bs = Some (l, rest)"
    then show "\<exists>ls. hex4 ls l \<and> is_low_surrogate l \<and> bs = 0x5C # 0x75 # ls @ rest"
      using ds by (auto simp: low_surrogate_def is_low_surrogate_def parseHex4_iff not_less
          split: option.splits if_splits)
  next
    assume "\<exists>ls. hex4 ls l \<and> is_low_surrogate l \<and> bs = 0x5C # 0x75 # ls @ rest"
    then show "low_surrogate bs = Some (l, rest)"
      by (auto simp: low_surrogate_def is_low_surrogate_def parseHex4_append)
  qed
next
  case False
  then have "2 > length bs \<or> bs ! 0 \<noteq> 0x5C \<or> bs ! 1 \<noteq> 0x75"
    by (cases bs; cases "tl bs") auto
  with False show ?thesis by (auto simp: low_surrogate_def)
qed

lemma unat_push_ten: "unat (x :: u32) < 1024 \<Longrightarrow> unat (push_bit 10 x) = unat x * 1024"
  by (simp add: push_bit_eq_mult unat_word_ariths mult.commute)

lemma join_surrogates_unat:
  assumes "high_surrogate u" "is_low_surrogate l"
  shows "unat (join_surrogates u l) = 0x10000 + (unat u - 0xD800) * 1024 + (unat l - 0xDC00)"
proof -
  have u: "unat (u - 0xD800) = unat u - 0xD800" "unat u - 0xD800 < 1024"
    using assms(1) by (auto simp: high_surrogate_def word_le_nat_alt unat_sub)
  have l: "unat (l - 0xDC00) = unat l - 0xDC00" "unat l - 0xDC00 < 1024" "0xDC00 \<le> unat l"
    using assms(2) by (auto simp: is_low_surrogate_def word_le_nat_alt unat_sub)
  have "unat (push_bit 10 (u - 0xD800)) = (unat u - 0xD800) * 1024"
    using unat_push_ten [of "u - 0xD800"] u by simp
  then show ?thesis using u(2) l by (simp add: join_surrogates_def unat_word_ariths)
qed

lemma join_surrogates_valid:
  assumes "high_surrogate u" "is_low_surrogate l"
  shows "scalar_value (join_surrogates u l)" "0x10000 \<le> unat (join_surrogates u l)"
proof -
  have "unat u \<le> 0xDBFF" "unat l \<le> 0xDFFF" using assms
    by (simp_all add: high_surrogate_def is_low_surrogate_def word_le_nat_alt)
  then show "scalar_value (join_surrogates u l)" "0x10000 \<le> unat (join_surrogates u l)"
    by (auto simp: scalar_unat join_surrogates_unat [OF assms])
qed

text \<open>One character: the parser reads exactly a spelling of it.\<close>

lemma scalar_no_surrogate: "scalar_value cp \<Longrightarrow> \<not> high_surrogate cp" "scalar_value cp \<Longrightarrow> \<not> is_low_surrogate cp"
  by (auto simp: scalar_unat high_surrogate_def is_low_surrogate_def word_le_nat_alt)

lemma hex4_scalar:
  assumes "hex4 hs u" "\<not> high_surrogate u" "\<not> is_low_surrogate u"
  shows "scalar_value u"
proof -
  have digit: "unat (the (hex_digit h)) \<le> 15" if "h \<in> set hs" for h
    using assms(1) that hex_digit_bound [of h "the (hex_digit h)"] by (auto simp: hex4_def)
  obtain a b c d where "hs = [a, b, c, d]" using assms(1)
    by (auto simp: hex4_def numeral_eq_Suc length_Suc_conv)
  then have "unat u \<le> 0xFFFF" using assms(1) digit [of a] digit [of b] digit [of c] digit [of d]
    by (simp add: hex4_def)
  with assms(2,3) show ?thesis by (auto simp: scalar_unat high_surrogate_def is_low_surrogate_def word_le_nat_alt)
qed

lemma unicode_escape_iff:
  "unicode_escape bs = Some (cp, rest) \<longleftrightarrow>
     (\<exists>hs. hex4 hs cp \<and> scalar_value cp \<and> bs = hs @ rest) \<or>
     (\<exists>hs u ls l. hex4 hs u \<and> hex4 ls l \<and> high_surrogate u \<and> is_low_surrogate l \<and>
        cp = join_surrogates u l \<and> bs = hs @ 0x5C # 0x75 # ls @ rest)"
proof (cases "parseHex4 bs")
  case None
  then show ?thesis using parseHex4_append by (auto simp: unicode_escape_def)
next
  case (Some p)
  then obtain u r where p: "parseHex4 bs = Some (u, r)" by (cases p) auto
  then obtain hs where hs: "hex4 hs u" "bs = hs @ r" by (auto simp: parseHex4_iff)
  have unique: "u' = u \<and> r' = r" if "hex4 hs' u'" "bs = hs' @ r'" for hs' u' r'
    using parseHex4_append [OF that(1), of r'] that(2) p by simp
  show ?thesis
  proof (cases "high_surrogate u")
    case True
    then have "unicode_escape bs = Some (cp, rest) \<longleftrightarrow> (\<exists>l. low_surrogate r = Some (l, rest) \<and> cp = join_surrogates u l)"
      using p by (auto simp: unicode_escape_def high_surrogate_def split: option.splits)
    also have "\<dots> \<longleftrightarrow> (\<exists>ls l. hex4 ls l \<and> is_low_surrogate l \<and> r = 0x5C # 0x75 # ls @ rest \<and>
        cp = join_surrogates u l)"
      by (auto simp: low_surrogate_iff)
    also have "\<dots> \<longleftrightarrow> (\<exists>hs ls u l. hex4 hs u \<and> hex4 ls l \<and> high_surrogate u \<and> is_low_surrogate l \<and>
        cp = join_surrogates u l \<and> bs = hs @ 0x5C # 0x75 # ls @ rest)" (is "?l = ?r")
    proof
      assume ?r
      then obtain hs' ls u' l where *: "hex4 hs' u'" "hex4 ls l" "is_low_surrogate l" "cp = join_surrogates u' l"
          "bs = hs' @ 0x5C # 0x75 # ls @ rest" by blast
      with unique [OF *(1,5)] show ?l by blast
    qed (use True hs in blast)
    finally show ?thesis using True hs unique scalar_no_surrogate(1) [of cp] by blast
  next
    case False
    then have "unicode_escape bs = Some (cp, rest) \<longleftrightarrow> \<not> is_low_surrogate u \<and> cp = u \<and> rest = r"
      using p by (auto simp: unicode_escape_def high_surrogate_def is_low_surrogate_def)
    then show ?thesis using False hs unique scalar_no_surrogate(2) [of u] hex4_scalar [OF hs(1) False] by blast
  qed
qed


lemma simple_escape_cases:
  "simple_escape e = Some cp \<Longrightarrow> scalar_value cp \<and> \<not> forbidden_control cp"
  "simple_escape 0x75 = None"
  by (auto simp: simple_escape_def scalar_unat forbidden_control_def safe_controls_def split: if_splits)

lemma string_char_sound:
  assumes "string_char b bs = Some (cp, rest)" "b \<noteq> 0x22"
  shows "\<exists>s. spells_char cp s \<and> b # bs = s @ rest"
proof (cases "b = 0x5C")
  case True
  then obtain e ds where bs: "bs = e # ds" using assms(1) by (auto simp: string_char_def split: list.splits)
  show ?thesis
  proof (cases "simple_escape e")
    case None
    with True bs assms(1) have "e = 0x75" and u: "unicode_escape ds = Some (cp, rest)" "\<not> forbidden_control cp"
      by (auto simp: string_char_def split: if_splits option.splits)
    from u(1) consider (one) hs where "hex4 hs cp" "scalar_value cp" "ds = hs @ rest"
      | (two) hs u ls l where "hex4 hs u" "hex4 ls l" "high_surrogate u" "is_low_surrogate l"
        "cp = join_surrogates u l" "ds = hs @ 0x5C # 0x75 # ls @ rest"
      unfolding unicode_escape_iff by blast
    then show ?thesis
    proof cases
      case one
      from spells_char.unicode [OF one(1,2) u(2)] one(3) True bs \<open>e = 0x75\<close> show ?thesis by force
    next
      case two
      from spells_char.pair [OF two(1-4), of cp] two(5,6) True bs \<open>e = 0x75\<close> join_surrogates_unat [OF two(3,4)]
      show ?thesis by force
    qed
  next
    case (Some c)
    with True bs assms(1) have "c = cp" "ds = rest" by (auto simp: string_char_def split: if_splits)
    with Some True bs spells_char.simple [of e cp] show ?thesis by force
  qed
next
  case False
  with assms(1) have "0x20 \<le> b" and *: "if b < 0x80 then cp = ucast b \<and> rest = bs else parseUtf8 b bs = Some (cp, rest)"
    by (auto simp: string_char_def split: if_splits option.splits)
  then have cp: "scalar_value cp" "b # bs = utf8_encode cp @ rest" using encode_first [of cp b bs rest] by auto
  have "0x20 \<le> cp \<and> cp \<noteq> 0x22 \<and> cp \<noteq> 0x5C"
    using * False assms(2) \<open>0x20 \<le> b\<close>
    by (auto simp: word_le_nat_alt word_unat_eq_iff parseUtf8_iff split: if_splits)
  with cp spells_char.plain show ?thesis by blast
qed

lemma string_char_complete:
  assumes "spells_char cp s"
  shows "\<exists>b t. s = b # t \<and> b \<noteq> 0x22 \<and> string_char b (t @ rest) = Some (cp, rest)"
  using assms
proof cases
  case plain
  obtain b t where s: "utf8_encode cp = b # t" by (cases "utf8_encode cp") auto
  have *: "if b < 0x80 then cp = ucast b \<and> rest = t @ rest else parseUtf8 b (t @ rest) = Some (cp, rest)"
    using encode_first [of cp b "t @ rest" rest] plain(2) s by simp
  have "\<not> forbidden_control cp" using plain(3) by (simp add: not_forbidden word_le_nat_alt)
  moreover have "b \<noteq> 0x22 \<and> b \<noteq> 0x5C \<and> \<not> b < 0x20"
    using * plain(3-5) by (auto simp: word_le_nat_alt word_less_nat_alt split: if_splits)
  ultimately show ?thesis using * s plain(1) by (auto simp: string_char_def split: if_splits)
next
  case (simple e)
  then show ?thesis using simple_escape_cases(1) [OF simple(2)] by (simp add: string_char_def)
next
  case (unicode hs)
  have "unicode_escape (hs @ rest) = Some (cp, rest)" using unicode unicode_escape_iff by blast
  with unicode simple_escape_cases(2) show ?thesis by (simp add: string_char_def)
next
  case (pair hs u ls l)
  have cp: "cp = join_surrogates u l" using pair(6) join_surrogates_unat [OF pair(4,5)] by (simp add: word_unat_eq_iff)
  then have "unicode_escape (hs @ 0x5C # 0x75 # ls @ rest) = Some (cp, rest)"
    using pair unicode_escape_iff by blast
  moreover have "\<not> forbidden_control cp"
    using join_surrogates_valid(2) [OF pair(4,5)] cp by (simp add: not_forbidden)
  ultimately show ?thesis using pair(1) simple_escape_cases(2) by (simp add: string_char_def)
qed

definition key_hash :: "u32 list \<Rightarrow> u64" where
  "key_hash cps = fold (\<lambda>cp. fold (hash_byte cp) [0, 1, 2, 3]) cps kFnvOffset"

lemma fold_note_None: "fold note_code_point cps None = None"
  by (induction cps) (simp_all add: note_code_point_def)

lemma fold_note_Some:
  "fold note_code_point cps (Some (h, n)) =
     Some (fold (\<lambda>cp. fold (hash_byte cp) [0, 1, 2, 3]) cps h, n + word_of_nat (length cps))"
  by (induction cps arbitrary: h n) (simp_all add: note_code_point_def)

lemma string_loop_sound:
  "string_loop acc bs = Some (acc', rest) \<Longrightarrow>
     \<exists>cps t. spells_text cps t \<and> bs = t @ 0x22 # rest \<and> acc' = fold note_code_point cps acc"
proof (induction acc bs rule: string_loop.induct)
  case (2 acc byte bs)
  show ?case
  proof (cases "byte = 0x22")
    case True
    with 2(2) show ?thesis by (auto intro!: exI [of _ "[]"] spells_text.empty)
  next
    case False
    with 2(2) obtain cp r where c: "string_char byte bs = Some (cp, r)"
        "string_loop (note_code_point cp acc) r = Some (acc', rest)"
      by (auto split: option.splits)
    obtain cps t where t: "spells_text cps t" "r = t @ 0x22 # rest"
        "acc' = fold note_code_point cps (note_code_point cp acc)"
      using 2(1) [OF False c(1) refl c(2)] by blast
    obtain s where "spells_char cp s" "byte # bs = s @ r" using string_char_sound [OF c(1) False] by blast
    with spells_text.char [OF _ t(1), of cp s] t(2,3)
    have "spells_text (cp # cps) (s @ t) \<and> byte # bs = (s @ t) @ 0x22 # rest \<and>
        acc' = fold note_code_point (cp # cps) acc" by simp
    then show ?thesis by blast
  qed
qed simp

lemma string_loop_complete:
  "spells_text cps t \<Longrightarrow> string_loop acc (t @ 0x22 # rest) = Some (fold note_code_point cps acc, rest)"
proof (induction arbitrary: acc rule: spells_text.induct)
  case (char cp s cps t)
  obtain b u where "s = b # u" "b \<noteq> 0x22"
      "string_char b (u @ t @ 0x22 # rest) = Some (cp, t @ 0x22 # rest)"
    using string_char_complete [OF char(1)] by blast
  with char.IH show ?case by simp
qed simp

lemma parseString_iff:
  "parseString acc bs = Some (acc', raw, rest) \<longleftrightarrow>
     (\<exists>cps. spells_text cps raw \<and> bs = 0x22 # raw @ 0x22 # rest \<and> acc' = fold note_code_point cps acc)"
proof
  assume "parseString acc bs = Some (acc', raw, rest)"
  then obtain start where s: "bs = 0x22 # start" "string_loop acc start = Some (acc', rest)"
      "raw = take (length start - length rest - 1) start"
    by (auto simp: parseString_def consume_iff split: option.splits)
  obtain cps t where "spells_text cps t" "start = t @ 0x22 # rest" "acc' = fold note_code_point cps acc"
    using string_loop_sound [OF s(2)] by blast
  with s show "\<exists>cps. spells_text cps raw \<and> bs = 0x22 # raw @ 0x22 # rest \<and> acc' = fold note_code_point cps acc"
    by auto
next
  assume "\<exists>cps. spells_text cps raw \<and> bs = 0x22 # raw @ 0x22 # rest \<and> acc' = fold note_code_point cps acc"
  then show "parseString acc bs = Some (acc', raw, rest)"
    by (auto simp: parseString_def string_loop_complete)
qed

section \<open>Keys\<close>

text \<open>On accepted text the second decoder agrees with the first.\<close>

lemma utf8_continue_raw_agrees: "utf8_continue n cp bs = Some r \<Longrightarrow> utf8_continue_raw n cp bs = Some r"
  by (induction n cp bs rule: utf8_continue.induct) (auto split: if_splits)

lemma decode_agrees:
  assumes "string_char b bs = Some (cp, rest)"
  shows "decodeKeyCodePoint (b # bs) = Some (cp, rest)"
proof -
  have "decode_unicode_escape ds = Some (cp, rest)" if "unicode_escape ds = Some (cp, rest)" for ds
    using that by (auto simp: unicode_escape_def decode_unicode_escape_def decode_hex_same split: option.splits if_splits)
  moreover have "\<not> length bs < n \<and> utf8_continue_raw n c bs = Some (cp, rest)"
    if "parseUtf8 b bs = Some (cp, rest)" "utf8_lead b = Some (n, c, m)" for n c m
    using that utf8_continue_raw_agrees [of n c bs] by (auto simp: parseUtf8_def split: option.splits if_splits)
  moreover have "utf8_lead b \<noteq> None" if "parseUtf8 b bs = Some (cp, rest)"
    using that by (auto simp: parseUtf8_def split: option.splits)
  ultimately show ?thesis using assms
    by (auto simp: string_char_def split: option.splits if_splits list.splits)
qed

lemma decodedKeysEqual_iff:
  "spells_text cps s \<Longrightarrow> spells_text cps' s' \<Longrightarrow> decodedKeysEqual s s' \<longleftrightarrow> cps = cps'"
proof (induction arbitrary: cps' s' rule: spells_text.induct)
  case empty
  then show ?case
    using string_char_complete by (cases rule: spells_text.cases) (force simp: decodedKeysEqual.simps)+
next
  case (char cp s cps t)
  obtain b u where s: "s = b # u" "decodeKeyCodePoint (s @ t) = Some (cp, t)"
    using string_char_complete [OF char(1), of t] decode_agrees by fastforce
  from char.prems show ?case
  proof cases
    case empty
    with s show ?thesis by (simp add: decodedKeysEqual.simps)
  next
    case (char cp' r' cps'' t')
    obtain c v where "r' = c # v" "decodeKeyCodePoint (r' @ t') = Some (cp', t')"
      using string_char_complete [OF char(3), of t'] decode_agrees by fastforce
    with s char(1,2) local.char.IH [OF char(4)] show ?thesis
      by (subst decodedKeysEqual.simps) auto
  qed
qed

end
