(* ===== verification/V1_Json_Grammar.thy ===== *)
theory V1_Json_Grammar
  imports V1_Json_Tokens
begin

text \<open>
  What the exact JSON check accepts (\<open>validate\<close> of \<open>src/json_exact_input.h\<close>): one JSON value
  between white space, with unique decoded keys in every object and at most 32 levels of
  values inside the root. The grammar is a relation between a value and its spellings; the
  parser is proved sound for it whatever the heap does, and complete when the heap has room.
\<close>

datatype json = JNull | JTrue | JFalse | JNumber "u8 list" | JString "u32 list"
  | JArray "json list" | JObject "(u32 list \<times> json) list"

inductive spells :: "json \<Rightarrow> u8 list \<Rightarrow> bool"
  and spells_items :: "json list \<Rightarrow> u8 list \<Rightarrow> bool"
  and spells_members :: "(u32 list \<times> json) list \<Rightarrow> u8 list \<Rightarrow> bool" where
  null: "spells JNull lit_null"
| true: "spells JTrue lit_true"
| false: "spells JFalse lit_false"
| number: "number_text t \<Longrightarrow> spells (JNumber t) t"
| string: "spells_text cps t \<Longrightarrow> spells (JString cps) (0x22 # t @ [0x22])"
| empty_array: "spaces ws \<Longrightarrow> spells (JArray []) (0x5B # ws @ [0x5D])"
| array: "spells_items js t \<Longrightarrow> spells (JArray js) (0x5B # t @ [0x5D])"
| empty_object: "spaces ws \<Longrightarrow> spells (JObject []) (0x7B # ws @ [0x7D])"
| object: "spells_members ms t \<Longrightarrow> spells (JObject ms) (0x7B # t @ [0x7D])"
| last_item: "spaces w1 \<Longrightarrow> spells j t \<Longrightarrow> spaces w2 \<Longrightarrow> spells_items [j] (w1 @ t @ w2)"
| more_items: "spaces w1 \<Longrightarrow> spells j t \<Longrightarrow> spaces w2 \<Longrightarrow> spells_items js u \<Longrightarrow>
    spells_items (j # js) (w1 @ t @ w2 @ 0x2C # u)"
| last_member: "spaces w1 \<Longrightarrow> spells_text k s \<Longrightarrow> spaces w2 \<Longrightarrow> spaces w3 \<Longrightarrow> spells j t \<Longrightarrow> spaces w4 \<Longrightarrow>
    spells_members [(k, j)] (w1 @ 0x22 # s @ 0x22 # w2 @ 0x3A # w3 @ t @ w4)"
| more_members: "spaces w1 \<Longrightarrow> spells_text k s \<Longrightarrow> spaces w2 \<Longrightarrow> spaces w3 \<Longrightarrow> spells j t \<Longrightarrow> spaces w4 \<Longrightarrow>
    spells_members ms u \<Longrightarrow>
    spells_members ((k, j) # ms) (w1 @ 0x22 # s @ 0x22 # w2 @ 0x3A # w3 @ t @ w4 @ 0x2C # u)"

text \<open>Unique keys everywhere, and at most so many levels below.\<close>

fun acceptable :: "nat \<Rightarrow> json \<Rightarrow> bool" where
  "acceptable n (JArray js) = (js = [] \<or> 0 < n \<and> list_all (acceptable (n - 1)) js)"
| "acceptable n (JObject ms) =
     (distinct (map fst ms) \<and> (ms = [] \<or> 0 < n \<and> list_all (\<lambda>m. acceptable (n - 1) (snd m)) ms))"
| "acceptable n j = True"

definition exact_document :: "u8 list \<Rightarrow> bool" where
  "exact_document bytes \<longleftrightarrow>
     (\<exists>w1 j t w2. spaces w1 \<and> spells j t \<and> spaces w2 \<and> acceptable 32 j \<and> bytes = w1 @ t @ w2)"

lemma items_space: "spells_items js t \<Longrightarrow> spaces ws \<Longrightarrow> spells_items js (ws @ t)"
proof (erule spells_items.cases)
  fix w1 j u w2 assume "js = [j]" "t = w1 @ u @ w2" "spaces w1" "spells j u" "spaces w2" "spaces ws"
  then show ?thesis using last_item [of "ws @ w1" j u w2] by simp
next
  fix w1 j u w2 js' v
  assume "js = j # js'" "t = w1 @ u @ w2 @ 0x2C # v" "spaces w1" "spells j u" "spaces w2" "spells_items js' v" "spaces ws"
  then show ?thesis using more_items [of "ws @ w1" j u w2 js' v] by simp
qed

lemma members_space: "spells_members ms t \<Longrightarrow> spaces ws \<Longrightarrow> spells_members ms (ws @ t)"
proof (erule spells_members.cases)
  fix w1 k s w2 w3 j u w4
  assume "ms = [(k, j)]" "t = w1 @ 0x22 # s @ 0x22 # w2 @ 0x3A # w3 @ u @ w4" "spaces w1" "spells_text k s"
    "spaces w2" "spaces w3" "spells j u" "spaces w4" "spaces ws"
  then show ?thesis using last_member [of "ws @ w1" k s w2 w3 j u w4] by simp
next
  fix w1 k s w2 w3 j u w4 ms' v
  assume "ms = (k, j) # ms'" "t = w1 @ 0x22 # s @ 0x22 # w2 @ 0x3A # w3 @ u @ w4 @ 0x2C # v" "spaces w1" "spells_text k s"
    "spaces w2" "spaces w3" "spells j u" "spaces w4" "spells_members ms' v" "spaces ws"
  then show ?thesis using more_members [of "ws @ w1" k s w2 w3 j u w4 ms' v] by simp
qed

section \<open>The recorded keys\<close>

definition key_ok :: "KeyRecord \<Rightarrow> bool" where
  "key_ok r \<longleftrightarrow> (\<exists>cps. spells_text cps (rawKey r) \<and> hash r = key_hash cps \<and>
     codePoints r = word_of_nat (length cps))"

definition keys_ok :: "json_parser \<Rightarrow> bool" where
  "keys_ok p \<longleftrightarrow> list_all key_ok (jkeys p)"

definition keys_of :: "u32 \<Rightarrow> json_parser \<Rightarrow> u32 list set" where
  "keys_of oid p = {cps. \<exists>r \<in> set (jkeys p). objectId r = oid \<and> spells_text cps (rawKey r)}"

definition keys_grow :: "json_parser \<Rightarrow> json_parser \<Rightarrow> bool" where
  "keys_grow p q \<longleftrightarrow> keys_ok q \<and> (\<forall>oid. keys_of oid p \<subseteq> keys_of oid q)"

lemma keys_grow_trans: "keys_grow p q \<Longrightarrow> keys_grow q r \<Longrightarrow> keys_grow p r"
  unfolding keys_grow_def by blast

lemma keys_grow_refl: "keys_ok p \<Longrightarrow> jkeys q = jkeys p \<Longrightarrow> keys_grow p q"
  by (simp add: keys_grow_def keys_ok_def keys_of_def)

lemma same_key_iff:
  assumes "keys_ok p" "spells_text cps raw"
  shows "list_ex (same_key oid (key_hash cps) (word_of_nat (length cps)) raw) (jkeys p) \<longleftrightarrow> cps \<in> keys_of oid p"
proof -
  have "same_key oid (key_hash cps) (word_of_nat (length cps)) raw r \<longleftrightarrow>
      objectId r = oid \<and> spells_text cps (rawKey r)" if "r \<in> set (jkeys p)" for r
  proof -
    have "key_ok r" using assms(1) that by (simp add: keys_ok_def list_all_iff)
    then obtain cps' where r: "spells_text cps' (rawKey r)" "hash r = key_hash cps'" "codePoints r = word_of_nat (length cps')"
      by (auto simp: key_ok_def)
    have "spells_text cps (rawKey r) \<longleftrightarrow> cps' = cps"
      using r(1) decodedKeysEqual_iff [OF r(1) r(1)] decodedKeysEqual_iff [OF r(1), of cps] by blast
    with r decodedKeysEqual_iff [OF r(1) assms(2)] show ?thesis by (auto simp: same_key_def)
  qed
  then show ?thesis by (auto simp: list_ex_iff keys_of_def)
qed

lemma grow_keys_same:
  "grow_keys alloc p = Inr q \<Longrightarrow> jkeys q = jkeys p \<and> jrest q = jrest p \<and> nextObjectId q = nextObjectId p"
  by (auto simp: grow_keys_def Let_def split: if_splits)

lemma remember_sound:
  assumes "rememberUniqueKey alloc oid (key_hash cps) (word_of_nat (length cps)) raw p = Inr q"
    "keys_ok p" "spells_text cps raw"
  shows "cps \<notin> keys_of oid p" "keys_grow p q" "jrest q = jrest p" "cps \<in> keys_of oid q"
    "nextObjectId q = nextObjectId p"
    "jkeys q = jkeys p @ [\<lparr>objectId = oid, codePoints = word_of_nat (length cps), hash = key_hash cps, rawKey = raw\<rparr>]"
proof -
  obtain p' where p': "grow_keys alloc p = Inr p'"
      "q = p'\<lparr>jkeys := jkeys p' @ [\<lparr>objectId = oid, codePoints = word_of_nat (length cps), hash = key_hash cps, rawKey = raw\<rparr>]\<rparr>"
      "\<not> list_ex (same_key oid (key_hash cps) (word_of_nat (length cps)) raw) (jkeys p)"
    using assms(1) by (auto simp: rememberUniqueKey_def split: if_splits sum.splits)
  show keys: "jkeys q = jkeys p @ [\<lparr>objectId = oid, codePoints = word_of_nat (length cps), hash = key_hash cps, rawKey = raw\<rparr>]"
    using p'(2) grow_keys_same [OF p'(1)] by simp
  show "cps \<notin> keys_of oid p" using p'(3) same_key_iff [OF assms(2,3)] by simp
  show "keys_grow p q"
    using keys assms(2,3) by (auto simp: keys_grow_def keys_ok_def keys_of_def key_ok_def)
  show "cps \<in> keys_of oid q" using keys assms(3) by (simp add: keys_of_def)
  show "jrest q = jrest p" "nextObjectId q = nextObjectId p"
    using p'(2) grow_keys_same [OF p'(1)] by simp_all
qed

lemma member_key_sound:
  assumes "member_key alloc oid p = Inr q" "keys_ok p"
  shows "\<exists>k s w2 w3. spells_text k s \<and> spaces w2 \<and> spaces w3 \<and>
    jrest p = 0x22 # s @ 0x22 # w2 @ 0x3A # w3 @ jrest q \<and>
    k \<notin> keys_of oid p \<and> k \<in> keys_of oid q \<and> keys_grow p q"
proof -
  obtain h n raw rest p1 bs where *: "parseString (Some (kFnvOffset, 0)) (jrest p) = Some (Some (h, n), raw, rest)"
      "rememberUniqueKey alloc oid h n raw (p\<lparr>jrest := rest\<rparr>) = Inr p1"
      "skipWhitespace (jrest p1) = 0x3A # bs" "q = p1\<lparr>jrest := skipWhitespace bs\<rparr>"
    using assms by (auto simp: member_key_def set_rest_Inr consume_iff split: option.splits sum.splits)
  obtain cps where c: "spells_text cps raw" "jrest p = 0x22 # raw @ 0x22 # rest"
      "h = key_hash cps" "n = word_of_nat (length cps)"
    using *(1) by (auto simp: parseString_iff fold_note_Some key_hash_def)
  have ok: "keys_ok (p\<lparr>jrest := rest\<rparr>)" using assms(2) by (simp add: keys_ok_def)
  note r = remember_sound [OF *(2) [unfolded c(3,4)] ok c(1)]
  obtain w2 where w2: "spaces w2" "jrest p1 = w2 @ 0x3A # bs" using skipWhitespace_split [of "jrest p1"] *(3) by auto
  obtain w3 where w3: "spaces w3" "bs = w3 @ skipWhitespace bs" using skipWhitespace_split [of bs] by auto
  have "jrest p = 0x22 # raw @ 0x22 # w2 @ 0x3A # w3 @ jrest q"
    using c(2) r(3) w2(2) w3(2) *(4) by simp
  moreover have "cps \<notin> keys_of oid p \<and> cps \<in> keys_of oid q \<and> keys_grow p q"
    using r(1,2,4) *(4) by (auto simp: keys_of_def keys_grow_def keys_ok_def)
  ultimately show ?thesis using c(1) w2(1) w3(1) by blast
qed


section \<open>Soundness\<close>

lemma open_container_shape:
  assumes "open_container c p = x" "jrest p = b # ds"
  shows "x = Closed q \<Longrightarrow> \<exists>ws. spaces ws \<and> ds = ws @ c # jrest q \<and> jkeys q = jkeys p \<and> nextObjectId q = nextObjectId p"
    "x = More q \<Longrightarrow> \<exists>ws. spaces ws \<and> ds = ws @ jrest q \<and> jkeys q = jkeys p \<and> nextObjectId q = nextObjectId p"
    "x \<noteq> Failed status"
proof -
  obtain ws where "spaces ws" "ds = ws @ skipWhitespace ds" using skipWhitespace_split [of ds] by blast
  then show "x = Closed q \<Longrightarrow> \<exists>ws. spaces ws \<and> ds = ws @ c # jrest q \<and> jkeys q = jkeys p \<and> nextObjectId q = nextObjectId p"
    "x = More q \<Longrightarrow> \<exists>ws. spaces ws \<and> ds = ws @ jrest q \<and> jkeys q = jkeys p \<and> nextObjectId q = nextObjectId p"
    "x \<noteq> Failed status"
    using assms by (auto simp: open_container_def Let_def consume_iff split: option.splits)
qed

lemma next_item_shape:
  assumes "next_item c p = x"
  shows "x = Closed q \<Longrightarrow> \<exists>ws. spaces ws \<and> jrest p = ws @ c # jrest q \<and> jkeys q = jkeys p \<and> nextObjectId q = nextObjectId p"
    "x = More q \<Longrightarrow> \<exists>w1 w2. spaces w1 \<and> spaces w2 \<and> jrest p = w1 @ 0x2C # w2 @ jrest q \<and> jkeys q = jkeys p \<and>
       nextObjectId q = nextObjectId p"
proof -
  obtain ws where ws: "spaces ws" "jrest p = ws @ skipWhitespace (jrest p)"
    using skipWhitespace_split [of "jrest p"] by blast
  then show "x = Closed q \<Longrightarrow> \<exists>ws. spaces ws \<and> jrest p = ws @ c # jrest q \<and> jkeys q = jkeys p \<and> nextObjectId q = nextObjectId p"
    using assms by (auto simp: next_item_def Let_def consume_iff split: option.splits)
  assume "x = More q"
  then obtain r where r: "skipWhitespace (jrest p) = 0x2C # r" "q = p\<lparr>jrest := skipWhitespace r\<rparr>"
    using assms by (auto simp: next_item_def Let_def consume_iff split: option.splits)
  obtain w2 where "spaces w2" "r = w2 @ skipWhitespace r" using skipWhitespace_split [of r] by blast
  with ws r show "\<exists>w1 w2. spaces w1 \<and> spaces w2 \<and> jrest p = w1 @ 0x2C # w2 @ jrest q \<and> jkeys q = jkeys p \<and>
       nextObjectId q = nextObjectId p" by auto
qed

lemma parse_scalar_sound:
  assumes "parse_scalar p = Inr q"
  shows "\<exists>j t. spells j t \<and> acceptable n j \<and> jrest p = t @ jrest q \<and> jkeys q = jkeys p"
proof -
  let ?b = "hd (jrest p)"
  have q: "jkeys q = jkeys p" using assms by (auto simp: parse_scalar_def Let_def set_rest_Inr)
  consider (str) acc raw where "parseString None (jrest p) = Some (acc, raw, jrest q)"
    | (t) "consumeLiteral lit_true (jrest p) = Some (jrest q)" | (f) "consumeLiteral lit_false (jrest p) = Some (jrest q)"
    | (n) "consumeLiteral lit_null (jrest p) = Some (jrest q)" | (num) "parseNumber (jrest p) = Some (jrest q)"
    using assms by (auto simp: parse_scalar_def Let_def set_rest_Inr split: if_splits)
  then have "\<exists>j t. spells j t \<and> (\<forall>js ms. j \<noteq> JArray js \<and> j \<noteq> JObject ms) \<and> jrest p = t @ jrest q"
  proof cases
    case (str acc raw)
    then obtain cps where "spells_text cps raw" "jrest p = 0x22 # raw @ 0x22 # jrest q" by (auto simp: parseString_iff)
    then show ?thesis using spells_spells_items_spells_members.string by force
  next
    case t then show ?thesis using spells_spells_items_spells_members.true by (force simp: consumeLiteral_iff)
  next
    case f then show ?thesis using spells_spells_items_spells_members.false by (force simp: consumeLiteral_iff)
  next
    case n then show ?thesis using spells_spells_items_spells_members.null by (force simp: consumeLiteral_iff)
  next
    case num then show ?thesis using parseNumber_sound spells_spells_items_spells_members.number by blast
  qed
  moreover have "acceptable n j" if "\<forall>js ms. j \<noteq> JArray js \<and> j \<noteq> JObject ms" for j
    using that by (cases j) auto
  ultimately show ?thesis using q by blast
qed

lemma depth_step: "d \<le> kMaxDepth \<Longrightarrow> unat (d + 1) = unat d + 1"
  by (simp add: kMaxDepth_def word_le_nat_alt unat_word_ariths)

lemma parseValue_depth: "parseValue alloc d p = Inr q \<Longrightarrow> unat d \<le> 32"
  by (simp add: parseValue.simps kMaxDepth_def word_less_nat_alt split: if_splits)

theorem parse_sound:
  "parseValue alloc d p = Inr q \<Longrightarrow> keys_ok p \<Longrightarrow>
     (\<exists>j t. spells j t \<and> acceptable (32 - unat d) j \<and> jrest p = t @ jrest q) \<and> keys_grow p q"
  "parseObject_loop alloc d oid p = Inr q \<Longrightarrow> keys_ok p \<Longrightarrow> d \<le> kMaxDepth \<Longrightarrow>
     (\<exists>ms t. spells_members ms t \<and> distinct (map fst ms) \<and> set (map fst ms) \<inter> keys_of oid p = {} \<and>
        unat d < 32 \<and> list_all (\<lambda>m. acceptable (31 - unat d) (snd m)) ms \<and>
        jrest p = t @ 0x7D # jrest q) \<and> keys_grow p q"
  "parseArray_loop alloc d p = Inr q \<Longrightarrow> keys_ok p \<Longrightarrow> d \<le> kMaxDepth \<Longrightarrow>
     (\<exists>js t. spells_items js t \<and> unat d < 32 \<and> list_all (acceptable (31 - unat d)) js \<and>
        jrest p = t @ 0x5D # jrest q) \<and> keys_grow p q"
proof (induction alloc d p and alloc d oid p and alloc d p arbitrary: q and q and q
    rule: parseValue_parseObject_loop_parseArray_loop.induct)
  case (1 alloc depth p)
  have guard: "\<not> (depth > kMaxDepth \<or> jrest p = [])"
    using 1(3) by (simp add: parseValue.simps split: if_splits)
  then obtain b ds where p: "jrest p = b # ds" by (cases "jrest p") auto
  have d: "depth \<le> kMaxDepth" using guard by auto
  consider (obj) "b = 0x7B" | (arr) "b = 0x5B" | (scalar) "b \<noteq> 0x7B" "b \<noteq> 0x5B" by blast
  then show ?case
  proof cases
    case obj
    have hd: "hd (jrest p) = 0x7B" using obj p by simp
    have new: "jrest (new_object p) = b # ds" "jkeys (new_object p) = jkeys p" using p by (simp_all add: new_object_def)
    note shape = open_container_shape [OF refl new(1), of "0x7D"]
    show ?thesis
    proof (cases "open_container 0x7D (new_object p)")
      case (Closed r)
      then have "q = r" using 1(3) guard hd by (simp add: parseValue.simps)
      obtain ws where "spaces ws" "ds = ws @ 0x7D # jrest q" "jkeys q = jkeys p"
        using shape(1) [OF Closed] new \<open>q = r\<close> by auto
      with obj p 1(4) empty_object [of ws] show ?thesis by (force intro: keys_grow_refl)
    next
      case (More r)
      then have loop: "parseObject_loop alloc depth (nextObjectId r) r = Inr q"
        using 1(3) guard hd by (simp add: parseValue.simps)
      obtain ws where ws: "spaces ws" "ds = ws @ jrest r" "jkeys r = jkeys p" using shape(2) [OF More] new by auto
      have "keys_ok r" using ws(3) 1(4) by (simp add: keys_ok_def)
      from 1(1) [OF guard hd More loop this d] obtain ms t where
        m: "spells_members ms t" "distinct (map fst ms)" "unat depth < 32"
          "list_all (\<lambda>m. acceptable (31 - unat depth) (snd m)) ms" "jrest r = t @ 0x7D # jrest q" "keys_grow r q"
        by blast
      have "spells (JObject ms) (0x7B # (ws @ t) @ [0x7D])" by (rule object, rule members_space) fact+
      moreover have "acceptable (32 - unat depth) (JObject ms)" using m by simp
      moreover have "jrest p = (0x7B # (ws @ t) @ [0x7D]) @ jrest q" using p obj ws m by simp
      moreover have "keys_grow p q" using m(6) ws(3) by (simp add: keys_grow_def keys_of_def)
      ultimately show ?thesis by blast
    qed (use shape(3) in blast)
  next
    case arr
    have hd: "hd (jrest p) \<noteq> 0x7B" "hd (jrest p) = 0x5B" using arr p by simp_all
    note shape = open_container_shape [OF refl p(1), of "0x5D"]
    show ?thesis
    proof (cases "open_container 0x5D p")
      case (Closed r)
      then have "q = r" using 1(3) guard hd by (simp add: parseValue.simps)
      obtain ws where "spaces ws" "ds = ws @ 0x5D # jrest q" "jkeys q = jkeys p"
        using shape(1) [OF Closed] \<open>q = r\<close> by auto
      with arr p 1(4) empty_array [of ws] show ?thesis by (force intro: keys_grow_refl)
    next
      case (More r)
      then have loop: "parseArray_loop alloc depth r = Inr q"
        using 1(3) guard hd by (simp add: parseValue.simps)
      obtain ws where ws: "spaces ws" "ds = ws @ jrest r" "jkeys r = jkeys p" using shape(2) [OF More] by auto
      have "keys_ok r" using ws(3) 1(4) by (simp add: keys_ok_def)
      from 1(2) [OF guard hd More loop this d] obtain js t where
        m: "spells_items js t" "unat depth < 32" "list_all (acceptable (31 - unat depth)) js"
          "jrest r = t @ 0x5D # jrest q" "keys_grow r q" by blast
      have "spells (JArray js) (0x5B # (ws @ t) @ [0x5D])" by (rule array, rule items_space) fact+
      moreover have "acceptable (32 - unat depth) (JArray js)" using m by simp
      moreover have "jrest p = (0x5B # (ws @ t) @ [0x5D]) @ jrest q" using p arr ws m by simp
      moreover have "keys_grow p q" using m(5) ws(3) by (simp add: keys_grow_def keys_of_def)
      ultimately show ?thesis by blast
    qed (use shape(3) in blast)
  next
    case scalar
    with 1(3) guard p have "parse_scalar p = Inr q" by (simp add: parseValue.simps)
    from parse_scalar_sound [OF this, of "32 - unat depth"] keys_grow_refl [OF 1(4), of q] show ?thesis by blast
  qed
next
  case (2 alloc depth oid p)
  then obtain p1 p2 where key: "jrest p \<noteq> []" "member_key alloc oid p = Inr p1"
      and val: "parseValue alloc (depth + 1) p1 = Inr p2"
    by (auto simp: parseObject_loop.simps split: if_splits sum.splits)
  obtain k s w2 w3 where k: "spells_text k s" "spaces w2" "spaces w3"
      "jrest p = 0x22 # s @ 0x22 # w2 @ 0x3A # w3 @ jrest p1"
      "k \<notin> keys_of oid p" "k \<in> keys_of oid p1" "keys_grow p p1"
    using member_key_sound [OF key(2) 2(4)] by blast
  have ok1: "keys_ok p1" using k(7) by (simp add: keys_grow_def)
  have d: "unat (depth + 1) = unat depth + 1" using depth_step 2(5) by simp
  obtain j t where j: "spells j t" "acceptable (32 - unat (depth + 1)) j" "jrest p1 = t @ jrest p2" "keys_grow p1 p2"
    using 2(1) [OF key val ok1] by blast
  have d32: "unat depth < 32" using parseValue_depth [OF val] d by simp
  have acc: "acceptable (31 - unat depth) j" using j(2) d by simp
  show ?case
  proof (cases "next_item 0x7D p2")
    case (Failed st)
    with 2(3) key val show ?thesis by (simp add: parseObject_loop.simps)
  next
    case (Closed r)
    with 2(3) key val have "q = r" by (simp add: parseObject_loop.simps)
    with next_item_shape(1) [OF Closed refl] obtain w4 where w4: "spaces w4" "jrest p2 = w4 @ 0x7D # jrest q" "jkeys q = jkeys p2"
      by blast
    have "keys_grow p q"
      using keys_grow_trans [OF k(7) j(4)] w4(3) by (simp add: keys_grow_def keys_ok_def keys_of_def)
    moreover have "spells_members [(k, j)] ([] @ 0x22 # s @ 0x22 # w2 @ 0x3A # w3 @ t @ w4)"
      by (rule last_member) (use k j w4 in simp_all)
    ultimately show ?thesis using k j acc w4 d32
      by (intro conjI exI [of _ "[(k, j)]"] exI [of _ "[] @ 0x22 # s @ 0x22 # w2 @ 0x3A # w3 @ t @ w4"]) simp_all
  next
    case (More r)
    with 2(3) key val have loop: "parseObject_loop alloc depth oid r = Inr q" by (simp add: parseObject_loop.simps)
    obtain w4 w5 where w: "spaces w4" "spaces w5" "jrest p2 = w4 @ 0x2C # w5 @ jrest r" "jkeys r = jkeys p2"
      using next_item_shape(2) [OF More refl] by blast
    have grow: "keys_grow p r" "keys_grow p1 r"
      using keys_grow_trans [OF k(7) j(4)] j(4) w(4) by (simp_all add: keys_grow_def keys_ok_def keys_of_def)
    then have "keys_ok r" by (simp add: keys_grow_def)
    from 2(2) [OF key val More loop this 2(5)] obtain ms u where
      m: "spells_members ms u" "distinct (map fst ms)" "set (map fst ms) \<inter> keys_of oid r = {}"
        "list_all (\<lambda>m. acceptable (31 - unat depth) (snd m)) ms" "jrest r = u @ 0x7D # jrest q" "keys_grow r q"
      by blast
    have "keys_of oid p \<subseteq> keys_of oid r" "k \<in> keys_of oid r" using grow k(6) by (auto simp: keys_grow_def)
    with m(3) k(5) have new: "k \<notin> set (map fst ms)" "set (map fst ms) \<inter> keys_of oid p = {}" by blast+
    have "spells_members ((k, j) # ms) ([] @ 0x22 # s @ 0x22 # w2 @ 0x3A # w3 @ t @ w4 @ 0x2C # (w5 @ u))"
      by (rule more_members) (use k j w m members_space in simp_all)
    moreover have "keys_grow p q" using keys_grow_trans [OF grow(1) m(6)] .
    ultimately show ?thesis using k j acc w m new d32
      by (intro conjI exI [of _ "(k, j) # ms"]
          exI [of _ "[] @ 0x22 # s @ 0x22 # w2 @ 0x3A # w3 @ t @ w4 @ 0x2C # (w5 @ u)"]) simp_all
  qed
next
  case (3 alloc depth p)
  then obtain p2 where ne: "jrest p \<noteq> []" and val: "parseValue alloc (depth + 1) p = Inr p2"
    by (auto simp: parseArray_loop.simps split: if_splits sum.splits)
  have d: "unat (depth + 1) = unat depth + 1" using depth_step 3(5) by simp
  obtain j t where j: "spells j t" "acceptable (32 - unat (depth + 1)) j" "jrest p = t @ jrest p2" "keys_grow p p2"
    using 3(1) [OF ne val 3(4)] by blast
  have d32: "unat depth < 32" using parseValue_depth [OF val] d by simp
  have acc: "acceptable (31 - unat depth) j" using j(2) d by simp
  show ?case
  proof (cases "next_item 0x5D p2")
    case (Failed st)
    with 3(3) ne val show ?thesis by (simp add: parseArray_loop.simps)
  next
    case (Closed r)
    with 3(3) ne val have "q = r" by (simp add: parseArray_loop.simps)
    with next_item_shape(1) [OF Closed refl] obtain w where w: "spaces w" "jrest p2 = w @ 0x5D # jrest q" "jkeys q = jkeys p2"
      by blast
    have "keys_grow p q" using j(4) w(3) by (simp add: keys_grow_def keys_ok_def keys_of_def)
    moreover have "spells_items [j] ([] @ t @ w)" by (rule last_item) (use j w in simp_all)
    ultimately show ?thesis using j acc w d32
      by (intro conjI exI [of _ "[j]"] exI [of _ "[] @ t @ w"]) simp_all
  next
    case (More r)
    with 3(3) ne val have loop: "parseArray_loop alloc depth r = Inr q" by (simp add: parseArray_loop.simps)
    obtain w4 w5 where w: "spaces w4" "spaces w5" "jrest p2 = w4 @ 0x2C # w5 @ jrest r" "jkeys r = jkeys p2"
      using next_item_shape(2) [OF More refl] by blast
    have grow: "keys_grow p r" using j(4) w(4) by (simp add: keys_grow_def keys_ok_def keys_of_def)
    then have "keys_ok r" by (simp add: keys_grow_def)
    from 3(2) [OF ne val More loop this 3(5)] obtain js u where
      m: "spells_items js u" "list_all (acceptable (31 - unat depth)) js" "jrest r = u @ 0x5D # jrest q" "keys_grow r q"
      by blast
    have "spells_items (j # js) ([] @ t @ w4 @ 0x2C # (w5 @ u))"
      by (rule more_items) (use j w m items_space in simp_all)
    moreover have "keys_grow p q" using keys_grow_trans [OF grow m(4)] .
    ultimately show ?thesis using j acc w m d32
      by (intro conjI exI [of _ "j # js"] exI [of _ "[] @ t @ w4 @ 0x2C # (w5 @ u)"]) simp_all
  qed
qed

end
