(* ===== verification/V1_Json_Complete.thy ===== *)
theory V1_Json_Complete
  imports V1_Json_Grammar
begin

text \<open>
  Completeness of the exact JSON check: with a heap that grants every request and a document
  below 128 MiB, every document of the grammar passes. The bound keeps the key table under the
  largest capacity its size check admits (two to the power 27) and the object numbers distinct.
\<close>

section \<open>Room for the keys\<close>

definition roomy :: "json_parser \<Rightarrow> bool" where
  "roomy p \<longleftrightarrow> keys_ok p \<and> length (jkeys p) + length (jrest p) \<le> 2 ^ 27 \<and>
     unat (nextObjectId p) + length (jrest p) < 2 ^ 32 \<and>
     (\<forall>r \<in> set (jkeys p). objectId r \<le> nextObjectId p) \<and>
     length (jkeys p) \<le> unat (keyCapacity p) \<and>
     (unat (keyCapacity p) = 0 \<or> (\<exists>k \<le> 22. unat (keyCapacity p) = 2 ^ (5 + k)))"

definition extends :: "json_parser \<Rightarrow> json_parser \<Rightarrow> bool" where
  "extends p q \<longleftrightarrow> roomy q \<and> nextObjectId p \<le> nextObjectId q \<and>
     (\<forall>oid \<le> nextObjectId p. keys_of oid q = keys_of oid p)"

text \<open>Between the members of an object only its own keys grow.\<close>

definition extends_object :: "u32 \<Rightarrow> json_parser \<Rightarrow> json_parser \<Rightarrow> bool" where
  "extends_object oid p q \<longleftrightarrow> roomy q \<and> nextObjectId p \<le> nextObjectId q \<and>
     (\<forall>oid' \<le> nextObjectId p. oid' \<noteq> oid \<longrightarrow> keys_of oid' q = keys_of oid' p)"

lemma extends_object_trans: "extends_object oid p q \<Longrightarrow> extends_object oid q r \<Longrightarrow> extends_object oid p r"
  unfolding extends_object_def by (metis order_trans)

lemma extends_trans: "extends p q \<Longrightarrow> extends q r \<Longrightarrow> extends p r"
  unfolding extends_def by (metis order_trans)

lemma roomy_shrink: "roomy p \<Longrightarrow> length bs \<le> length (jrest p) \<Longrightarrow> roomy (p\<lparr>jrest := bs\<rparr>)"
  by (auto simp: roomy_def keys_ok_def)

lemma extends_shrink: "roomy p \<Longrightarrow> length bs \<le> length (jrest p) \<Longrightarrow> extends p (p\<lparr>jrest := bs\<rparr>)"
  by (simp add: extends_def roomy_shrink keys_of_def)

lemma grow_keys_room:
  assumes "\<forall>n. alloc n" "roomy p" "length (jkeys p) < 2 ^ 27"
  shows "\<exists>c. grow_keys alloc p = Inr (p\<lparr>keyCapacity := c\<rparr>) \<and> length (jkeys p) < unat c \<and>
    (unat c = 0 \<or> (\<exists>k \<le> 22. unat c = 2 ^ (5 + k)))"
proof (cases "length (jkeys p) = unat (keyCapacity p)")
  case True
  show ?thesis
  proof (cases "keyCapacity p = 0")
    case zero: True
    have "unat (32 :: u32) = 2 ^ (5 + 0)" by simp
    then have "\<exists>k \<le> 22. unat (32 :: u32) = 2 ^ (5 + k)" by (metis zero_le)
    with zero True assms(1) show ?thesis by (auto simp: grow_keys_def key_record_size_def)
  next
    case False
    then obtain k where k: "k \<le> 22" "unat (keyCapacity p) = 2 ^ (5 + k)"
      using assms(2) by (auto simp: roomy_def word_unat_eq_iff)
    have "(2 :: nat) ^ (5 + k) < 2 ^ 27" using True k(2) assms(3) by simp
    then have "5 + k < 27" by (rule power_less_imp_less_exp [rotated]) simp
    have bound: "(2 :: nat) ^ (5 + k) \<le> 2 ^ 26" by (rule power_increasing) (use \<open>5 + k < 27\<close> in simp_all)
    have c: "unat (keyCapacity p * 2) = 2 ^ (5 + Suc k)" using bound k(2)
      by (simp add: unat_word_ariths power_add)
    have "\<not> keyCapacity p * 2 < keyCapacity p" using c k(2) by (simp add: word_less_nat_alt)
    moreover have "unat (keyCapacity p * 2) \<le> 2 ^ 27" using bound c by (simp add: power_add)
    then have "\<not> keyCapacity p * 2 > 0xFFFFFFFF div key_record_size"
      by (simp add: word_less_nat_alt key_record_size_def)
    moreover have "\<exists>k \<le> 22. unat (keyCapacity p * 2) = 2 ^ (5 + k)"
      by (rule exI [of _ "Suc k"]) (use c \<open>5 + k < 27\<close> in simp)
    moreover have "length (jkeys p) < unat (keyCapacity p * 2)" using c True k(2) by simp
    ultimately show ?thesis using True False assms(1) by (auto simp: grow_keys_def Let_def)
  qed
next
  case False
  with assms(2) show ?thesis
    by (intro exI [of _ "keyCapacity p"]) (auto simp: grow_keys_def roomy_def)
qed

lemma member_key_complete:
  assumes "\<forall>n. alloc n" "roomy p" "jrest p = 0x22 # s @ 0x22 # w2 @ 0x3A # w3 @ rest"
    "skipWhitespace rest = rest" "spaces w2" "spaces w3" "spells_text k s"
    "k \<notin> keys_of oid p" "oid \<le> nextObjectId p"
  shows "\<exists>q. member_key alloc oid p = Inr q \<and> jrest q = rest \<and> roomy q \<and> nextObjectId q = nextObjectId p \<and>
    (\<forall>o'. keys_of o' q = (if o' = oid then insert k (keys_of o' p) else keys_of o' p))"
proof -
  let ?r = "w2 @ 0x3A # w3 @ rest" and ?n = "word_of_nat (length k) :: u32"
  let ?p = "p\<lparr>jrest := ?r\<rparr>" and ?rec = "\<lparr>objectId = oid, codePoints = ?n, hash = key_hash k, rawKey = s\<rparr>"
  have "parseString (Some (kFnvOffset, 0)) (jrest p) = Some (Some (key_hash k, ?n), s, ?r)"
    unfolding parseString_iff using assms(3,7) by (auto simp: fold_note_Some key_hash_def)
  moreover have room: "roomy ?p" using assms(3) by (intro roomy_shrink assms(2)) simp
  moreover have "length (jkeys ?p) < 2 ^ 27" using assms(2,3) by (simp add: roomy_def)
  from grow_keys_room [OF assms(1) room this] obtain c where
    c: "grow_keys alloc ?p = Inr (?p\<lparr>keyCapacity := c\<rparr>)" "length (jkeys p) < unat c"
      "unat c = 0 \<or> (\<exists>k \<le> 22. unat c = 2 ^ (5 + k))" by auto
  have ok: "keys_ok ?p" using room by (simp add: roomy_def)
  have "k \<notin> keys_of oid ?p" using assms(8) by (simp add: keys_of_def)
  with same_key_iff [OF ok assms(7), of oid] c(1)
  have "rememberUniqueKey alloc oid (key_hash k) ?n s ?p = Inr (?p\<lparr>keyCapacity := c, jkeys := jkeys p @ [?rec]\<rparr>)"
    by (simp add: rememberUniqueKey_def)
  ultimately have m: "member_key alloc oid p = Inr (p\<lparr>jrest := rest, keyCapacity := c, jkeys := jkeys p @ [?rec]\<rparr>)"
    using skipWhitespace_skips [OF assms(5), of "0x3A # w3 @ rest"] skipWhitespace_skips [OF assms(6), of rest] assms(4)
    by (simp add: member_key_def set_rest_def is_space_def)
  have "key_ok ?rec" using assms(7) by (auto simp: key_ok_def)
  then have "roomy (p\<lparr>jrest := rest, keyCapacity := c, jkeys := jkeys p @ [?rec]\<rparr>)"
    using assms(2,3,9) c(2,3) by (auto simp: roomy_def keys_ok_def)
  moreover have "spells_text k' s \<longleftrightarrow> k' = k" for k'
    using assms(7) decodedKeysEqual_iff [OF assms(7) assms(7)] decodedKeysEqual_iff [OF assms(7), of k' s] by blast
  then have "keys_of o' (p\<lparr>jrest := rest, keyCapacity := c, jkeys := jkeys p @ [?rec]\<rparr>) =
      (if o' = oid then insert k (keys_of o' p) else keys_of o' p)" for o'
    by (auto simp: keys_of_def)
  ultimately show ?thesis using m by auto
qed

section \<open>First bytes\<close>

lemma number_first:
  assumes "number_text t"
  shows "\<exists>b u. t = b # u \<and> (is_digit b \<or> b = 0x2D)"
proof -
  obtain sign i f e where t: "sign \<in> {[], [0x2D]}" "integer_text i" "t = sign @ i @ f @ e"
    using assms by (auto simp: number_text_def)
  have "\<exists>d ds. i = d # ds \<and> is_digit d"
    using t(2) digits_append_first [of i] not_digits by (auto simp: integer_text_def)
  with t show ?thesis by auto
qed

definition value_byte :: "u8 \<Rightarrow> bool" where
  "value_byte b \<longleftrightarrow> b \<in> {0x7B, 0x5B, 0x22, 0x74, 0x66, 0x6E, 0x2D} \<or> is_digit b"

lemma spells_first: "spells j t \<Longrightarrow> \<exists>b u. t = b # u \<and> value_byte b"
  by (erule spells.cases) (auto simp: value_byte_def lit_true_def lit_false_def lit_null_def dest!: number_first)

lemma value_byte_not_space: "value_byte b \<Longrightarrow> \<not> is_space b \<and> b \<noteq> 0x5D \<and> b \<noteq> 0x7D"
  by (auto simp: value_byte_def is_space_def is_digit_def)

lemma skip_value_byte: "value_byte b \<Longrightarrow> skipWhitespace (b # bs) = b # bs"
  by (simp add: value_byte_not_space)

lemma skip_value: "spells j t \<Longrightarrow> skipWhitespace (t @ rest) = t @ rest"
  using spells_first value_byte_not_space by fastforce

lemma ends_number_space: "spaces w \<Longrightarrow> c \<in> {0x2C, 0x5D, 0x7D} \<Longrightarrow> ends_number (w @ c # rest)"
  by (cases w) (auto simp: ends_number_def number_byte_def is_digit_def is_space_def)

lemma next_item_closed: "jrest p = w @ c # rest \<Longrightarrow> spaces w \<Longrightarrow> c \<in> {0x5D, 0x7D} \<Longrightarrow>
    next_item c p = Closed (p\<lparr>jrest := rest\<rparr>)"
  using skipWhitespace_skips [of w "c # rest"] by (auto simp: next_item_def is_space_def)

lemma next_item_more: "jrest p = w @ 0x2C # rest \<Longrightarrow> spaces w \<Longrightarrow> c \<in> {0x5D, 0x7D} \<Longrightarrow>
    next_item c p = More (p\<lparr>jrest := skipWhitespace rest\<rparr>)"
  using skipWhitespace_skips [of w "0x2C # rest"] by (auto simp: next_item_def is_space_def)

lemma open_container_closed: "jrest p = b # w @ c # rest \<Longrightarrow> spaces w \<Longrightarrow> c \<in> {0x5D, 0x7D} \<Longrightarrow>
    open_container c p = Closed (p\<lparr>jrest := rest\<rparr>)"
  using skipWhitespace_skips [of w "c # rest"] by (auto simp: open_container_def is_space_def)

lemma open_container_more: "jrest p = b # ds \<Longrightarrow> skipWhitespace ds = e # u \<Longrightarrow> e \<noteq> c \<Longrightarrow>
    open_container c p = More (p\<lparr>jrest := skipWhitespace ds\<rparr>)"
  by (simp add: open_container_def)

lemma items_first: "spells_items js t \<Longrightarrow> \<exists>b u. skipWhitespace (t @ rest) = b # u \<and> value_byte b"
  by (erule spells_items.cases)
    (auto simp: skipWhitespace_skips skip_value_byte dest!: spells_first)

lemma members_first: "spells_members ms t \<Longrightarrow> \<exists>u. skipWhitespace (t @ rest) = 0x22 # u"
  by (erule spells_members.cases) (auto simp: skipWhitespace_skips is_space_def)

lemma parse_scalar_complete:
  assumes "parse_scalar p = Inr (p\<lparr>jrest := rest\<rparr>)" "jrest p = b # ds" "b \<noteq> 0x7B" "b \<noteq> 0x5B" "unat d \<le> 32"
    "roomy p" "length rest \<le> length (jrest p)"
  shows "\<exists>q. parseValue alloc d p = Inr q \<and> jrest q = rest \<and> extends p q"
  using assms extends_shrink [OF assms(6,7)]
  by (simp add: parseValue.simps kMaxDepth_def word_less_nat_alt)


section \<open>Every document of the grammar\<close>

definition value_complete :: "(u32 \<Rightarrow> bool) \<Rightarrow> json \<Rightarrow> u8 list \<Rightarrow> bool" where
  "value_complete alloc j t \<longleftrightarrow> (\<forall>d p rest. roomy p \<longrightarrow> unat d \<le> 32 \<longrightarrow> acceptable (32 - unat d) j \<longrightarrow>
     jrest p = t @ rest \<longrightarrow> ends_number rest \<longrightarrow>
     (\<exists>q. parseValue alloc d p = Inr q \<and> jrest q = rest \<and> extends p q))"

definition items_complete :: "(u32 \<Rightarrow> bool) \<Rightarrow> json list \<Rightarrow> u8 list \<Rightarrow> bool" where
  "items_complete alloc js t \<longleftrightarrow> (\<forall>d p rest. roomy p \<longrightarrow> unat d < 32 \<longrightarrow> list_all (acceptable (31 - unat d)) js \<longrightarrow>
     jrest p = skipWhitespace (t @ 0x5D # rest) \<longrightarrow>
     (\<exists>q. parseArray_loop alloc d p = Inr q \<and> jrest q = rest \<and> extends p q))"

definition members_complete :: "(u32 \<Rightarrow> bool) \<Rightarrow> (u32 list \<times> json) list \<Rightarrow> u8 list \<Rightarrow> bool" where
  "members_complete alloc ms t \<longleftrightarrow> (\<forall>d oid p rest. roomy p \<longrightarrow> unat d < 32 \<longrightarrow>
     list_all (\<lambda>m. acceptable (31 - unat d) (snd m)) ms \<longrightarrow> distinct (map fst ms) \<longrightarrow>
     set (map fst ms) \<inter> keys_of oid p = {} \<longrightarrow> oid \<le> nextObjectId p \<longrightarrow>
     jrest p = skipWhitespace (t @ 0x7D # rest) \<longrightarrow>
     (\<exists>q. parseObject_loop alloc d oid p = Inr q \<and> jrest q = rest \<and> extends_object oid p q))"

lemma value_completeD:
  "value_complete alloc j t \<Longrightarrow> roomy p \<Longrightarrow> unat d \<le> 32 \<Longrightarrow> acceptable (32 - unat d) j \<Longrightarrow>
   jrest p = t @ rest \<Longrightarrow> ends_number rest \<Longrightarrow>
   \<exists>q. parseValue alloc d p = Inr q \<and> jrest q = rest \<and> extends p q"
  by (simp add: value_complete_def)

lemma items_completeD:
  "items_complete alloc js t \<Longrightarrow> roomy p \<Longrightarrow> unat d < 32 \<Longrightarrow> list_all (acceptable (31 - unat d)) js \<Longrightarrow>
   jrest p = skipWhitespace (t @ 0x5D # rest) \<Longrightarrow>
   \<exists>q. parseArray_loop alloc d p = Inr q \<and> jrest q = rest \<and> extends p q"
  by (simp add: items_complete_def)

lemma depth_succ: "unat d < 32 \<Longrightarrow> unat (d + 1 :: u8) = unat d + 1"
  by (simp add: unat_word_ariths)

lemma array_complete:
  assumes "items_complete alloc js t" "spells_items js t" "js \<noteq> []"
  shows "value_complete alloc (JArray js) (0x5B # t @ [0x5D])"
  unfolding value_complete_def
proof (intro allI impI)
  fix d :: u8 and p rest assume p: "roomy p" "unat d \<le> 32" "acceptable (32 - unat d) (JArray js)"
    "jrest p = (0x5B # t @ [0x5D]) @ rest" "ends_number rest"
  have d: "unat d < 32" "list_all (acceptable (31 - unat d)) js" using p(2,3) assms(3) by simp_all
  obtain b u where b: "skipWhitespace (t @ 0x5D # rest) = b # u" "value_byte b"
    using items_first [OF assms(2)] by blast
  let ?r = "p\<lparr>jrest := skipWhitespace (t @ 0x5D # rest)\<rparr>"
  have more: "open_container 0x5D p = More ?r"
    using open_container_more [of p "0x5B" "t @ 0x5D # rest"] p(4) b value_byte_not_space by auto
  have len: "length (skipWhitespace (t @ 0x5D # rest)) \<le> length (jrest p)"
    using skipWhitespace_length [of "t @ 0x5D # rest"] p(4) by simp
  obtain q where q: "parseArray_loop alloc d ?r = Inr q" "jrest q = rest" "extends ?r q"
    using items_completeD [OF assms(1) roomy_shrink [OF p(1) len] d] by auto
  have "parseValue alloc d p = Inr q"
    using more p(2,4) q(1) by (simp add: parseValue.simps kMaxDepth_def word_less_nat_alt)
  with q extends_trans [OF extends_shrink [OF p(1) len]]
  show "\<exists>q. parseValue alloc d p = Inr q \<and> jrest q = rest \<and> extends p q" by blast
qed

lemma object_complete:
  assumes "members_complete alloc ms t" "spells_members ms t" "ms \<noteq> []"
  shows "value_complete alloc (JObject ms) (0x7B # t @ [0x7D])"
  unfolding value_complete_def
proof (intro allI impI)
  fix d :: u8 and p rest assume p: "roomy p" "unat d \<le> 32" "acceptable (32 - unat d) (JObject ms)"
    "jrest p = (0x7B # t @ [0x7D]) @ rest" "ends_number rest"
  have d: "unat d < 32" "list_all (\<lambda>m. acceptable (31 - unat d) (snd m)) ms" "distinct (map fst ms)"
    using p(2,3) assms(3) by simp_all
  obtain u where b: "skipWhitespace (t @ 0x7D # rest) = 0x22 # u" using members_first [OF assms(2)] by blast
  let ?n = "new_object p"
  let ?r = "?n\<lparr>jrest := skipWhitespace (t @ 0x7D # rest)\<rparr>"
  have more: "open_container 0x7D ?n = More ?r"
    using open_container_more [of ?n "0x7B" "t @ 0x7D # rest"] p(4) b by simp
  have len: "length (skipWhitespace (t @ 0x7D # rest)) < length (jrest p)"
    using skipWhitespace_length [of "t @ 0x7D # rest"] p(4) by simp
  have nid: "unat (nextObjectId p + 1) = unat (nextObjectId p) + 1"
    using p(1,4) by (simp add: roomy_def unat_word_ariths)
  have below: "objectId x \<le> nextObjectId p \<Longrightarrow> objectId x \<le> nextObjectId p + 1" for x
    using nid by (simp add: word_le_nat_alt)
  have room: "roomy ?r" using p(1) len nid below by (auto simp: roomy_def keys_ok_def new_object_def)
  have "\<not> objectId x = nextObjectId p + 1" if "x \<in> set (jkeys p)" for x
    using p(1) that nid by (auto simp: roomy_def word_le_nat_alt)
  then have "keys_of (nextObjectId p + 1) ?r = {}" by (auto simp: keys_of_def new_object_def)
  then obtain q where q: "parseObject_loop alloc d (nextObjectId ?r) ?r = Inr q" "jrest q = rest" "extends_object (nextObjectId ?r) ?r q"
    using assms(1) [unfolded members_complete_def, rule_format, OF room d(1), of "nextObjectId ?r" rest] d
    by (auto simp: new_object_def)
  have "parseValue alloc d p = Inr q"
    using more p(2,4) q(1) by (simp add: parseValue.simps kMaxDepth_def word_less_nat_alt new_object_def)
  moreover have "extends p q"
  proof -
    have "oid' \<le> nextObjectId p + 1 \<and> oid' \<noteq> nextObjectId p + 1" if "oid' \<le> nextObjectId p" for oid'
      using that nid by (auto simp: word_le_nat_alt)
    moreover have "keys_of oid' ?r = keys_of oid' p" for oid' by (simp add: keys_of_def new_object_def)
    moreover have "nextObjectId p \<le> nextObjectId q"
      using q(3) nid by (simp add: extends_object_def new_object_def word_le_nat_alt)
    ultimately show ?thesis using q(3) by (simp add: extends_def extends_object_def new_object_def)
  qed
  ultimately show "\<exists>q. parseValue alloc d p = Inr q \<and> jrest q = rest \<and> extends p q"
    using q by blast
qed

lemma last_item_complete:
  assumes "value_complete alloc j t" "spells j t" "spaces w1" "spaces w2"
  shows "items_complete alloc [j] (w1 @ t @ w2)"
  unfolding items_complete_def
proof (intro allI impI)
  fix d :: u8 and p rest assume p: "roomy p" "unat d < 32" "list_all (acceptable (31 - unat d)) [j]"
    "jrest p = skipWhitespace ((w1 @ t @ w2) @ 0x5D # rest)"
  have start: "jrest p = t @ w2 @ 0x5D # rest"
    using p(4) skipWhitespace_skips [OF assms(3)] skip_value [OF assms(2)] by simp
  obtain q where q: "parseValue alloc (d + 1) p = Inr q" "jrest q = w2 @ 0x5D # rest" "extends p q"
    using value_completeD [OF assms(1) p(1), of "d + 1"] p start depth_succ [OF p(2)] ends_number_space [OF assms(4)]
    by auto
  have "next_item 0x5D q = Closed (q\<lparr>jrest := rest\<rparr>)" using q(2) assms(4) by (intro next_item_closed) auto
  moreover have "extends q (q\<lparr>jrest := rest\<rparr>)" using q(2,3) by (intro extends_shrink) (auto simp: extends_def)
  moreover have "jrest p \<noteq> []" using start by simp
  ultimately show "\<exists>q. parseArray_loop alloc d p = Inr q \<and> jrest q = rest \<and> extends p q"
    using q(1) extends_trans [OF q(3)] by (simp add: parseArray_loop.simps)
qed

lemma more_items_complete:
  assumes "value_complete alloc j t" "spells j t" "spaces w1" "spaces w2" "items_complete alloc js u"
  shows "items_complete alloc (j # js) (w1 @ t @ w2 @ 0x2C # u)"
  unfolding items_complete_def
proof (intro allI impI)
  fix d :: u8 and p rest assume p: "roomy p" "unat d < 32" "list_all (acceptable (31 - unat d)) (j # js)"
    "jrest p = skipWhitespace ((w1 @ t @ w2 @ 0x2C # u) @ 0x5D # rest)"
  have start: "jrest p = t @ w2 @ 0x2C # u @ 0x5D # rest"
    using p(4) skipWhitespace_skips [OF assms(3)] skip_value [OF assms(2)] by simp
  obtain q where q: "parseValue alloc (d + 1) p = Inr q" "jrest q = w2 @ 0x2C # u @ 0x5D # rest" "extends p q"
    using value_completeD [OF assms(1) p(1), of "d + 1"] p start depth_succ [OF p(2)] ends_number_space [OF assms(4)]
    by auto
  let ?r = "q\<lparr>jrest := skipWhitespace (u @ 0x5D # rest)\<rparr>"
  have nxt: "next_item 0x5D q = More ?r" using q(2) assms(4) by (intro next_item_more) auto
  have r: "extends q ?r" using q(2,3) skipWhitespace_length [of "u @ 0x5D # rest"]
    by (intro extends_shrink) (auto simp: extends_def)
  then have "roomy ?r" by (simp add: extends_def)
  from items_completeD [OF assms(5) this p(2), of rest] p(3)
  obtain s where "parseArray_loop alloc d ?r = Inr s" "jrest s = rest" "extends ?r s" by auto
  moreover have "jrest p \<noteq> []" using start spells_first [OF assms(2)] by auto
  ultimately show "\<exists>q. parseArray_loop alloc d p = Inr q \<and> jrest q = rest \<and> extends p q"
    using q(1) nxt extends_trans [OF extends_trans [OF q(3) r]] by (simp add: parseArray_loop.simps)
qed

lemma member_value_complete:
  assumes "\<forall>n. alloc n" "value_complete alloc j t" "spells j t" "spells_text k s"
    "spaces w1" "spaces w2" "spaces w3" "spaces w4" "c \<in> {0x2C, 0x7D}"
    "roomy p" "unat d < 32" "acceptable (31 - unat d) j" "k \<notin> keys_of oid p" "oid \<le> nextObjectId p"
    "jrest p = skipWhitespace (w1 @ 0x22 # s @ 0x22 # w2 @ 0x3A # w3 @ t @ w4 @ c # rest)"
  shows "\<exists>p1 q. jrest p \<noteq> [] \<and> member_key alloc oid p = Inr p1 \<and> parseValue alloc (d + 1) p1 = Inr q \<and>
    jrest q = w4 @ c # rest \<and> extends_object oid p q \<and> keys_of oid q = insert k (keys_of oid p)"
proof -
  have start: "jrest p = 0x22 # s @ 0x22 # w2 @ 0x3A # w3 @ t @ w4 @ c # rest"
    using assms(15) skipWhitespace_skips [OF assms(5)] by (simp add: is_space_def)
  obtain p1 where p1: "member_key alloc oid p = Inr p1" "jrest p1 = t @ w4 @ c # rest" "roomy p1"
      "nextObjectId p1 = nextObjectId p"
      "\<forall>o'. keys_of o' p1 = (if o' = oid then insert k (keys_of o' p) else keys_of o' p)"
    using member_key_complete [OF assms(1,10) start skip_value [OF assms(3)] assms(6,7,4,13,14)] by blast
  have "ends_number (w4 @ c # rest)" using assms(8,9) by (intro ends_number_space) auto
  then obtain q where q: "parseValue alloc (d + 1) p1 = Inr q" "jrest q = w4 @ c # rest" "extends p1 q"
    using value_completeD [OF assms(2) p1(3), of "d + 1"] assms(11,12) p1(2) depth_succ [OF assms(11)] by auto
  with p1 start assms(14) show ?thesis
    by (intro exI [of _ p1] exI [of _ q]) (simp add: extends_def extends_object_def)
qed

lemma last_member_complete:
  assumes "\<forall>n. alloc n" "value_complete alloc j t" "spells j t" "spells_text k s"
    "spaces w1" "spaces w2" "spaces w3" "spaces w4"
  shows "members_complete alloc [(k, j)] (w1 @ 0x22 # s @ 0x22 # w2 @ 0x3A # w3 @ t @ w4)"
  unfolding members_complete_def
proof (intro allI impI)
  fix d :: u8 and oid p rest assume p: "roomy p" "unat d < 32" "list_all (\<lambda>m. acceptable (31 - unat d) (snd m)) [(k, j)]"
    "distinct (map fst [(k, j)])" "set (map fst [(k, j)]) \<inter> keys_of oid p = {}" "oid \<le> nextObjectId p"
    "jrest p = skipWhitespace ((w1 @ 0x22 # s @ 0x22 # w2 @ 0x3A # w3 @ t @ w4) @ 0x7D # rest)"
  have k: "k \<notin> keys_of oid p" and j: "acceptable (31 - unat d) j" using p(3,5) by simp_all
  obtain p1 q where q: "jrest p \<noteq> []" "member_key alloc oid p = Inr p1" "parseValue alloc (d + 1) p1 = Inr q"
      "jrest q = w4 @ 0x7D # rest" "extends_object oid p q"
    using member_value_complete [OF assms(1-8) _ p(1,2) j k p(6), of "0x7D" rest] p(7) by auto
  have "next_item 0x7D q = Closed (q\<lparr>jrest := rest\<rparr>)" using q(4) assms(8) by (intro next_item_closed) auto
  moreover have "extends_object oid q (q\<lparr>jrest := rest\<rparr>)"
    using q(4,5) by (simp add: extends_object_def roomy_shrink keys_of_def)
  ultimately show "\<exists>q. parseObject_loop alloc d oid p = Inr q \<and> jrest q = rest \<and> extends_object oid p q"
    using q extends_object_trans [OF q(5)] by (simp add: parseObject_loop.simps)
qed

lemma more_members_complete:
  assumes "\<forall>n. alloc n" "value_complete alloc j t" "spells j t" "spells_text k s"
    "spaces w1" "spaces w2" "spaces w3" "spaces w4" "members_complete alloc ms u"
  shows "members_complete alloc ((k, j) # ms) (w1 @ 0x22 # s @ 0x22 # w2 @ 0x3A # w3 @ t @ w4 @ 0x2C # u)"
  unfolding members_complete_def
proof (intro allI impI)
  fix d :: u8 and oid p rest
  assume p: "roomy p" "unat d < 32" "list_all (\<lambda>m. acceptable (31 - unat d) (snd m)) ((k, j) # ms)"
    "distinct (map fst ((k, j) # ms))" "set (map fst ((k, j) # ms)) \<inter> keys_of oid p = {}" "oid \<le> nextObjectId p"
    "jrest p = skipWhitespace ((w1 @ 0x22 # s @ 0x22 # w2 @ 0x3A # w3 @ t @ w4 @ 0x2C # u) @ 0x7D # rest)"
  have k: "k \<notin> keys_of oid p" and j: "acceptable (31 - unat d) j" using p(3,5) by simp_all
  obtain p1 q where q: "jrest p \<noteq> []" "member_key alloc oid p = Inr p1" "parseValue alloc (d + 1) p1 = Inr q"
      "jrest q = w4 @ 0x2C # u @ 0x7D # rest" "extends_object oid p q" "keys_of oid q = insert k (keys_of oid p)"
    using member_value_complete [OF assms(1-8) _ p(1,2) j k p(6), of "0x2C" "u @ 0x7D # rest"] p(7) by auto
  let ?r = "q\<lparr>jrest := skipWhitespace (u @ 0x7D # rest)\<rparr>"
  have nxt: "next_item 0x7D q = More ?r" using q(4) assms(8) by (intro next_item_more) auto
  have r: "extends_object oid q ?r" using q(4,5) skipWhitespace_length [of "u @ 0x7D # rest"]
    by (simp add: extends_object_def roomy_shrink keys_of_def)
  have oid: "oid \<le> nextObjectId ?r" using q(5) p(6) by (auto simp: extends_object_def)
  have "keys_of oid ?r = insert k (keys_of oid p)" using q(6) by (simp add: keys_of_def)
  then have disjoint: "set (map fst ms) \<inter> keys_of oid ?r = {}" using p(4,5) by auto
  have room: "roomy ?r" using r by (simp add: extends_object_def)
  have "list_all (\<lambda>m. acceptable (31 - unat d) (snd m)) ms" "distinct (map fst ms)" using p(3,4) by simp_all
  with assms(9) [unfolded members_complete_def, rule_format, OF room p(2) _ _ disjoint oid] obtain x where
    "parseObject_loop alloc d oid ?r = Inr x" "jrest x = rest" "extends_object oid ?r x" by auto
  with q nxt extends_object_trans [OF extends_object_trans [OF q(5) r]]
  show "\<exists>q. parseObject_loop alloc d oid p = Inr q \<and> jrest q = rest \<and> extends_object oid p q"
    by (simp add: parseObject_loop.simps)
qed


lemma scalar_complete:
  assumes "spells j t" "\<And>(p :: json_parser) rest. jrest p = t @ rest \<Longrightarrow> ends_number rest \<Longrightarrow> parse_scalar p = Inr (p\<lparr>jrest := rest\<rparr>)"
    "hd t \<noteq> 0x7B" "hd t \<noteq> 0x5B"
  shows "value_complete alloc j t"
  unfolding value_complete_def
proof (intro allI impI)
  fix d :: u8 and p rest
  assume p: "roomy p" "unat d \<le> 32" "jrest p = t @ rest" "ends_number rest"
  obtain b u where "t = b # u" using spells_first [OF assms(1)] by blast
  then show "\<exists>q. parseValue alloc d p = Inr q \<and> jrest q = rest \<and> extends p q"
    using parse_scalar_complete [OF assms(2) [OF p(3,4)], of b "u @ rest" d] p assms(3,4) by simp
qed

theorem spells_complete:
  assumes "\<forall>n. alloc n"
  shows "spells j t \<Longrightarrow> value_complete alloc j t"
    "spells_items js t \<Longrightarrow> items_complete alloc js t"
    "spells_members ms t \<Longrightarrow> members_complete alloc ms t"
proof (induction rule: spells_spells_items_spells_members.inducts)
  case null
  show ?case by (rule scalar_complete [OF spells_spells_items_spells_members.null])
    (auto simp: parse_scalar_def Let_def lit_null_def consumeLiteral_def set_rest_def)
next
  case true
  show ?case by (rule scalar_complete [OF spells_spells_items_spells_members.true])
    (auto simp: parse_scalar_def Let_def lit_true_def consumeLiteral_def set_rest_def)
next
  case false
  show ?case by (rule scalar_complete [OF spells_spells_items_spells_members.false])
    (auto simp: parse_scalar_def Let_def lit_false_def consumeLiteral_def set_rest_def)
next
  case (number t)
  obtain b u where b: "t = b # u" "is_digit b \<or> b = 0x2D" using number_first [OF number] by blast
  then have "b \<notin> {0x22, 0x74, 0x66, 0x6E, 0x7B, 0x5B}" by (auto simp: is_digit_def)
  with b(1) show ?case
    using parseNumber_complete [OF number]
    by (intro scalar_complete spells_spells_items_spells_members.number number)
      (auto simp: parse_scalar_def Let_def set_rest_def)
next
  case (string cps t)
  show ?case
  proof (rule scalar_complete [OF spells_spells_items_spells_members.string [OF string]])
    fix p :: json_parser and rest assume p: "jrest p = (0x22 # t @ [0x22]) @ rest"
    have "parseString None (jrest p) = Some (fold note_code_point cps None, t, rest)"
      unfolding parseString_iff using string p by auto
    with p show "parse_scalar p = Inr (p\<lparr>jrest := rest\<rparr>)" by (simp add: parse_scalar_def Let_def set_rest_def)
  qed simp_all
next
  case (empty_array ws)
  show ?case unfolding value_complete_def
  proof (intro allI impI)
    fix d :: u8 and p rest
    assume p: "roomy p" "unat d \<le> 32" "jrest p = (0x5B # ws @ [0x5D]) @ rest"
    have "open_container 0x5D p = Closed (p\<lparr>jrest := rest\<rparr>)"
      by (rule open_container_closed [of _ "0x5B" ws]) (use p empty_array in auto)
    with p extends_shrink [OF p(1), of rest]
    show "\<exists>q. parseValue alloc d p = Inr q \<and> jrest q = rest \<and> extends p q"
      by (simp add: parseValue.simps kMaxDepth_def word_less_nat_alt)
  qed
next
  case (array js t)
  have "js \<noteq> []" using array(1) by (auto elim: spells_items.cases)
  with array show ?case by (intro array_complete)
next
  case (empty_object ws)
  show ?case unfolding value_complete_def
  proof (intro allI impI)
    fix d :: u8 and p rest
    assume p: "roomy p" "unat d \<le> 32" "jrest p = (0x7B # ws @ [0x7D]) @ rest"
    have "open_container 0x7D (new_object p) = Closed ((new_object p)\<lparr>jrest := rest\<rparr>)"
      by (rule open_container_closed [of _ "0x7B" ws]) (use p empty_object in auto)
    moreover have "unat (nextObjectId p + 1) = unat (nextObjectId p) + 1"
      using p(1,3) by (simp add: roomy_def unat_word_ariths)
    then have "nextObjectId p \<le> nextObjectId p + 1" "\<And>x. x \<le> nextObjectId p \<Longrightarrow> x \<le> nextObjectId p + 1"
      by (simp_all add: word_le_nat_alt)
    then have "extends p ((new_object p)\<lparr>jrest := rest\<rparr>)"
      using p(1,3) \<open>unat (nextObjectId p + 1) = _\<close>
      by (auto simp: extends_def roomy_def keys_ok_def keys_of_def new_object_def)
    ultimately show "\<exists>q. parseValue alloc d p = Inr q \<and> jrest q = rest \<and> extends p q"
      using p by (simp add: parseValue.simps kMaxDepth_def word_less_nat_alt)
  qed
next
  case (object ms t)
  have "ms \<noteq> []" using object(1) by (auto elim: spells_members.cases)
  with object show ?case by (intro object_complete)
next
  case (last_item w1 j t w2)
  then show ?case by (intro last_item_complete)
next
  case (more_items w1 j t w2 js u)
  then show ?case by (intro more_items_complete)
next
  case (last_member w1 k s w2 w3 j t w4)
  then show ?case by (intro last_member_complete assms)
next
  case (more_members w1 k s w2 w3 j t w4 ms u)
  then show ?case by (intro more_members_complete assms)
qed


section \<open>The whole input\<close>

definition start_parser :: "u8 list \<Rightarrow> json_parser" where
  "start_parser bytes = \<lparr>jrest = bytes, jkeys = [], keyCapacity = 0, nextObjectId = 0\<rparr>"

lemma start_roomy: "length bytes \<le> 2 ^ 27 \<Longrightarrow> roomy (start_parser bytes)"
  by (simp add: roomy_def start_parser_def keys_ok_def)

lemma validate_start:
  "validate alloc (Some bytes) = StatusOk \<longleftrightarrow>
     bytes \<noteq> [] \<and> (\<exists>p. parseValue alloc 0 (start_parser (skipWhitespace bytes)) = Inr p \<and> spaces (jrest p)) \<or>
     bytes \<noteq> [] \<and> parseValue alloc 0 (start_parser (skipWhitespace bytes)) = Inl StatusOk"
  by (auto simp: validate_def exact_parse_def start_parser_def skipWhitespace_Nil split: sum.splits)

text \<open>A failing parse never carries \<open>Ok\<close> as its status, and fails for memory only when the heap refuses.\<close>

definition failure :: "(u32 \<Rightarrow> bool) \<Rightarrow> exact_status \<Rightarrow> bool" where
  "failure alloc s \<longleftrightarrow> s = StatusInvalid \<or> s = StatusMemoryUnavailable \<and> (\<exists>n. \<not> alloc n)"

lemma failure_invalid [simp]: "failure alloc StatusInvalid"
  by (simp add: failure_def)

lemma failure_memory: "\<not> alloc n \<Longrightarrow> failure alloc StatusMemoryUnavailable"
  by (auto simp: failure_def)

lemma member_key_failure: "member_key alloc oid p = Inl s \<Longrightarrow> failure alloc s"
  by (auto simp: member_key_def rememberUniqueKey_def grow_keys_def Let_def set_rest_def
      split: option.splits sum.splits if_splits) (erule failure_memory)+

lemma next_item_failure: "next_item c p = Failed s \<Longrightarrow> failure alloc s"
  by (auto simp: next_item_def Let_def split: option.splits)

lemma parse_failure:
  "parseValue alloc d p = Inl s \<Longrightarrow> failure alloc s"
  "parseObject_loop alloc d oid p = Inl s \<Longrightarrow> failure alloc s"
  "parseArray_loop alloc d p = Inl s \<Longrightarrow> failure alloc s"
proof (induction alloc d p and alloc d oid p and alloc d p arbitrary: s and s and s
    rule: parseValue_parseObject_loop_parseArray_loop.induct)
  case (1 alloc depth p)
  have scalar: "failure alloc s" if "parse_scalar p = Inl s" for p
    using that by (auto simp: parse_scalar_def Let_def set_rest_def split: option.splits)
  have opened: "open_container c x \<noteq> Failed st" for c x st by (simp add: open_container_def Let_def split: option.splits)
  from 1(3) 1(1) 1(2) scalar show ?case
    by (subst (asm) parseValue.simps) (auto simp: opened split: if_splits container_step.splits)
next
  case (2 alloc depth oid p)
  note shut = next_item_failure [of _ _ s alloc]
  show ?case
    using 2(3) 2(1) 2(2) member_key_failure [of alloc oid p s] shut
    by (subst (asm) parseObject_loop.simps)
      (auto split: if_splits sum.splits container_step.splits)
next
  case (3 alloc depth p)
  note shut = next_item_failure [of _ _ s alloc]
  show ?case
    using 3(3) 3(1) 3(2) shut
    by (subst (asm) parseArray_loop.simps)
      (auto split: if_splits sum.splits container_step.splits)
qed

lemma validate_sound: "validate alloc (Some bytes) = StatusOk \<Longrightarrow> exact_document bytes"
proof -
  assume ok: "validate alloc (Some bytes) = StatusOk"
  have "parseValue alloc 0 (start_parser (skipWhitespace bytes)) \<noteq> Inl StatusOk"
    using parse_failure(1) by (fastforce simp: failure_def)
  with ok obtain p where p: "parseValue alloc 0 (start_parser (skipWhitespace bytes)) = Inr p" "spaces (jrest p)"
    unfolding validate_start by blast
  have "keys_ok (start_parser (skipWhitespace bytes))" by (simp add: keys_ok_def start_parser_def)
  from parse_sound(1) [OF p(1) this] obtain j t where
    "spells j t" "acceptable 32 j" "skipWhitespace bytes = t @ jrest p" by (auto simp: start_parser_def)
  moreover obtain w where "spaces w" "bytes = w @ skipWhitespace bytes" using skipWhitespace_split by blast
  ultimately show ?thesis using p(2) unfolding exact_document_def by metis
qed

lemma validate_complete:
  assumes "\<forall>n. alloc n" "exact_document bytes" "length bytes \<le> 2 ^ 27"
  shows "validate alloc (Some bytes) = StatusOk"
proof -
  obtain w1 j t w2 where d: "spaces w1" "spells j t" "spaces w2" "acceptable 32 j" "bytes = w1 @ t @ w2"
    using assms(2) by (auto simp: exact_document_def)
  have skip: "skipWhitespace bytes = t @ w2" using d skipWhitespace_skips skip_value by simp
  have "ends_number w2" using d(3)
    by (cases w2) (auto simp: ends_number_def number_byte_def is_digit_def is_space_def)
  then obtain q where "parseValue alloc 0 (start_parser (t @ w2)) = Inr q" "jrest q = w2"
    using value_completeD [OF spells_complete(1) [OF assms(1) d(2)] start_roomy, of "t @ w2" 0 w2] d assms(3)
    by (auto simp: start_parser_def)
  with d(2,3) d(5) skip spells_first [OF d(2)] show ?thesis unfolding validate_start by auto
qed

end
