(* ===== verification/V1_Json_Properties.thy ===== *)
theory V1_Json_Properties
  imports V1_Json_Complete
begin

text \<open>
  The promises of the exact JSON check: it accepts exactly the documents of its grammar, it
  fails closed whatever the heap does, and every string it lets through is one the form and
  query check accepts too.
\<close>

lemma semantic_no_NUL: "list_all semantic_char cps \<Longrightarrow> 0 \<notin> set (utf8_text cps)"
proof (induction cps)
  case (Cons cp cps)
  have "0 \<notin> set (utf8_encode cp)"
  proof (cases "unat cp < 0x80")
    case True
    moreover have "cp \<noteq> 0" using Cons.prems by (auto simp: semantic_char_def forbidden_control_def safe_controls_def)
    ultimately show ?thesis
      by (auto simp: utf8_encode_ascii word_unat_eq_iff unsigned_ucast_eq take_bit_nat_eq_self)
  next
    case False
    have cp: "scalar_value cp" using Cons.prems by (simp add: semantic_char_def)
    obtain b t where s: "utf8_encode cp = b # t" by (cases "utf8_encode cp") auto
    have tail: "c \<noteq> 0" if "c \<in> set (utf8_tail n x)" for c n x
      using that
      by (induction n) (auto simp: word_unat_eq_iff tail_byte_range simp del: of_nat_add)
    have "0xC0 \<le> unat b" using utf8_encode_lead [of cp b t "[]"] cp False s by simp
    then have "b \<noteq> 0" by auto
    moreover have "\<exists>n. t = utf8_tail n (unat cp)" 
      using s False by (auto simp: utf8_encode_def Let_def simp del: utf8_tail.simps split: if_splits)
    ultimately show ?thesis using s tail by auto
  qed
  with Cons show ?case by simp
qed simp

lemma spells_text_semantic: "spells_text cps t \<Longrightarrow> list_all semantic_char cps"
proof (induction rule: spells_text.induct)
  case (char cp s cps t)
  have "semantic_char cp" using char(1)
  proof cases
    case plain
    then show ?thesis by (simp add: semantic_char_def not_forbidden word_le_nat_alt)
  next
    case (simple e)
    then show ?thesis using simple_escape_cases(1) by (simp add: semantic_char_def)
  next
    case (pair hs u ls l)
    then have "cp = join_surrogates u l" using join_surrogates_unat by (simp add: word_unat_eq_iff)
    with pair join_surrogates_valid [of u l] show ?thesis by (simp add: semantic_char_def not_forbidden)
  qed (simp add: semantic_char_def)
  with char show ?case by simp
qed simp

definition grants_all :: "u32 \<Rightarrow> bool" where
  "grants_all n = True"

text \<open>\<open>{"a":[1,"\u00e9"]}\<close>\<close>

definition sample_document :: "u8 list" where
  "sample_document = [0x7B, 0x22, 0x61, 0x22, 0x3A, 0x5B, 0x31, 0x2C, 0x22, 0x5C, 0x75, 0x30, 0x30, 0x65, 0x39, 0x22, 0x5D, 0x7D]"

lemma sample_accepted: "validate grants_all (Some sample_document) = StatusOk"
  by code_simp


text \<open>
  Claim C13. With a heap that grants every request and at most 128 MiB of input, the check
  accepts exactly the documents of the grammar: one JSON value between white space, its
  strings valid UTF-8 or escapes of scalar values other than the forbidden controls, no two
  members of one object with the same decoded key, and no value more than 32 levels below the
  root. The parser, its hash table of keys and its second decoder are equivalent to the
  relation between values and spellings.
\<close>

theorem json_check_exact:
  assumes "\<forall>n. alloc n" "length bytes \<le> 2 ^ 27"
  shows "validate alloc (Some bytes) = StatusOk \<longleftrightarrow> exact_document bytes"
  using validate_sound validate_complete [OF assms(1) _ assms(2)] by blast

lemma json_check_exact_witness: "exact_document sample_document"
proof -
  have "\<forall>n. grants_all n" "length sample_document \<le> 2 ^ 27"
    by (simp_all add: grants_all_def sample_document_def)
  from json_check_exact [OF this] sample_accepted show ?thesis by blast
qed

text \<open>
  Claim C26. Whatever the heap does, the check fails closed: it accepts only a document of the
  grammar, never a null pointer, and it reports missing memory only when the heap refused a
  request.
\<close>

theorem json_check_fails_closed:
  "(validate alloc data = StatusOk \<longrightarrow> (\<exists>bytes. data = Some bytes \<and> exact_document bytes)) \<and>
   (validate alloc data = StatusMemoryUnavailable \<longrightarrow> (\<exists>n. \<not> alloc n))"
proof (cases data)
  case None
  then show ?thesis by (simp add: validate_def exact_parse_def)
next
  case (Some bytes)
  have "\<exists>n. \<not> alloc n" if "validate alloc (Some bytes) = StatusMemoryUnavailable"
    using that by (auto simp: validate_def exact_parse_def failure_def dest!: parse_failure(1) split: if_splits sum.splits)
  with Some validate_sound [of alloc bytes] show ?thesis by blast
qed

lemma json_check_fails_closed_witness:
  "exact_document sample_document \<and> validate (\<lambda>n. False) (Some sample_document) = StatusMemoryUnavailable \<and>
   (\<exists>n :: u32. \<not> (\<lambda>n. False) n)"
proof -
  have "validate (\<lambda>n. False) (Some sample_document) = StatusMemoryUnavailable" by code_simp
  with json_check_fails_closed [of grants_all "Some sample_document"]
    json_check_fails_closed [of "\<lambda>n. False" "Some sample_document"] sample_accepted
  show ?thesis by auto
qed

text \<open>
  Claim C32. The form and query check accepts a C string exactly when its bytes are the UTF-8
  text of scalar values none of which is a control character without a JSON escape, and its
  stated length is the length of that text (so it holds no NUL).
\<close>

theorem semantic_string_exact:
  "validSemanticString (Some bytes) len \<longleftrightarrow>
     (\<exists>cps. list_all semantic_char cps \<and> takeWhile (\<lambda>b. b \<noteq> 0) bytes = utf8_text cps \<and>
        len = length (utf8_text cps))"
  by (rule validSemanticString_iff)

text \<open>
  Claim C33. The two ingress checks agree: the decoded text of any string token the JSON check
  accepts, written back as UTF-8, is a string the form and query check accepts.
\<close>

theorem json_string_is_semantic:
  assumes "parseString acc bs = Some (acc', raw, rest)"
  shows "\<exists>cps. spells_text cps raw \<and> validSemanticString (Some (utf8_text cps)) (length (utf8_text cps))"
proof -
  obtain cps where c: "spells_text cps raw" using assms parseString_iff by blast
  then have "0 \<notin> set (utf8_text cps)" "list_all semantic_char cps"
    using spells_text_semantic semantic_no_NUL by blast+
  moreover from this have "takeWhile (\<lambda>b. b \<noteq> 0) (utf8_text cps) = utf8_text cps"
    by (intro takeWhile_eq_all_conv [THEN iffD2]) auto
  ultimately show ?thesis using c validSemanticString_iff by metis
qed

lemma json_string_is_semantic_witness:
  "\<exists>cps. spells_text cps [0x5C, 0x75, 0x30, 0x30, 0x65, 0x39] \<and>
     validSemanticString (Some (utf8_text cps)) (length (utf8_text cps))"
proof -
  have "parseString None [0x22, 0x5C, 0x75, 0x30, 0x30, 0x65, 0x39, 0x22] =
      Some (None, [0x5C, 0x75, 0x30, 0x30, 0x65, 0x39], [])" by code_simp
  from json_string_is_semantic [OF this] show ?thesis .
qed

end
