(* ===== verification/V1_In_The_Box.thy ===== *)
theory V1_In_The_Box
  imports V1_Parser_Types "HOL-Library.Multiset"
begin

text \<open>
  The in-the-box audio policy (\<open>src/modules/in_the_box/in_the_box_module.h\<close> and the settings
  of \<open>src/v1_in_the_box.h\<close>): which alerts lie inside the user's frequency boxes, and which of
  them appear there for the first time. Alerts have no identity on the bus, so the module
  matches the rows of successive tables one to one by an augmenting-path search. The fixed
  arrays with a count are lists; \<open>-1\<close> in \<open>previousToCurrent\<close> is \<open>None\<close>.
\<close>

section \<open>Settings and classification\<close>

record itb_band_settings =
  itb_muteOutside :: bool
  itb_unmuteInside :: bool

record itb_range =
  itb_enabled :: bool
  itb_lowerMHz :: u16
  itb_upperMHz :: u16

record itb_settings =
  itb_bands :: "itb_band_settings list"
  itb_boxes :: "itb_range list"

definition default_itb_settings :: itb_settings where
  "default_itb_settings =
     \<lparr>itb_bands = replicate 4 \<lparr>itb_muteOutside = False, itb_unmuteInside = False\<rparr>,
      itb_boxes = [\<lparr>itb_enabled = True, itb_lowerMHz = 10500, itb_upperMHz = 10550\<rparr>,
        \<lparr>itb_enabled = True, itb_lowerMHz = 13400, itb_upperMHz = 13500\<rparr>,
        \<lparr>itb_enabled = True, itb_lowerMHz = 24050, itb_upperMHz = 24250\<rparr>,
        \<lparr>itb_enabled = True, itb_lowerMHz = 33700, itb_upperMHz = 33900\<rparr>,
        \<lparr>itb_enabled = True, itb_lowerMHz = 34600, itb_upperMHz = 34800\<rparr>,
        \<lparr>itb_enabled = True, itb_lowerMHz = 35400, itb_upperMHz = 35600\<rparr>]\<rparr>"

text \<open>The arrays have four bands (X, Ku, K, Ka) and six boxes.\<close>

definition itb_shape :: "itb_settings \<Rightarrow> bool" where
  "itb_shape s \<longleftrightarrow> length (itb_bands s) = 4 \<and> length (itb_boxes s) = 6"

definition box_lower :: "u16 list" where "box_lower = [10500, 13400, 23900, 33400, 33400, 33400]"
definition box_upper :: "u16 list" where "box_upper = [10550, 13500, 24250, 36000, 36000, 36000]"

definition isValidV1InTheBoxSettings :: "itb_settings \<Rightarrow> bool" where
  "isValidV1InTheBoxSettings s \<longleftrightarrow>
     list_all (\<lambda>i. let box = itb_boxes s ! i in
       \<not> (itb_lowerMHz box < box_lower ! i \<or> itb_upperMHz box > box_upper ! i \<or>
          itb_lowerMHz box > itb_upperMHz box)) [0..<6]"

definition v1InTheBoxSettingsEqual :: "itb_settings \<Rightarrow> itb_settings \<Rightarrow> bool" where
  "v1InTheBoxSettingsEqual a b \<longleftrightarrow>
     list_all (\<lambda>i. \<not> (itb_muteOutside (itb_bands a ! i) \<noteq> itb_muteOutside (itb_bands b ! i) \<or>
        itb_unmuteInside (itb_bands a ! i) \<noteq> itb_unmuteInside (itb_bands b ! i))) [0..<4] \<and>
     list_all (\<lambda>i. \<not> (itb_enabled (itb_boxes a ! i) \<noteq> itb_enabled (itb_boxes b ! i) \<or>
        itb_lowerMHz (itb_boxes a ! i) \<noteq> itb_lowerMHz (itb_boxes b ! i) \<or>
        itb_upperMHz (itb_boxes a ! i) \<noteq> itb_upperMHz (itb_boxes b ! i))) [0..<6]"

datatype itb_class = ItbUnknown | ItbOutside | ItbInside

definition ENCOUNTER_TOLERANCE_MHZ :: nat where "ENCOUNTER_TOLERANCE_MHZ = 5"

fun bandIndex :: "band \<Rightarrow> nat option" where
  "bandIndex BAND_X = Some 0"
| "bandIndex BAND_KU = Some 1"
| "bandIndex BAND_K = Some 2"
| "bandIndex BAND_KA = Some 3"
| "bandIndex _ = None"

definition box_contains :: "itb_settings \<Rightarrow> nat \<Rightarrow> u32 \<Rightarrow> bool" where
  "box_contains s band freq \<longleftrightarrow>
     list_ex (\<lambda>i. let box = itb_boxes s ! i in
       itb_enabled box \<and> freq \<ge> ucast (itb_lowerMHz box) \<and> freq \<le> ucast (itb_upperMHz box))
       [band..<(if band = 3 then 6 else band + 1)]"

definition validFrequency :: "nat \<Rightarrow> u32 \<Rightarrow> bool" where
  "validFrequency band freq \<longleftrightarrow>
     freq \<ge> [10500, 13400, 23900, 33400] ! band \<and> freq \<le> [10550, 13500, 24250, 36000] ! band"

definition classify :: "itb_settings \<Rightarrow> alert_data \<Rightarrow> itb_class" where
  "classify s alert =
     (case bandIndex (ad_band alert) of None \<Rightarrow> ItbUnknown
      | Some band \<Rightarrow>
          if \<not> isValidV1InTheBoxSettings s \<or> \<not> ad_isValid alert \<or> \<not> validFrequency band (ad_frequency alert)
          then ItbUnknown
          else if box_contains s band (ad_frequency alert) then ItbInside else ItbOutside)"

section \<open>Encounters\<close>

record encounter =
  en_frequencyMHz :: u32
  en_band :: nat
  en_insideSeen :: bool

record in_the_box =
  ib_encounters :: "encounter list"

definition itb_reset :: in_the_box where
  "itb_reset = \<lparr>ib_encounters = []\<rparr>"

record itb_decision =
  id_allOutsideMuteEligible :: bool
  id_anyInside :: bool
  id_anyInsideUnmuteEligible :: bool
  id_newInsideUnmute :: bool

definition no_decision :: itb_decision where
  "no_decision = \<lparr>id_allOutsideMuteEligible = False, id_anyInside = False,
     id_anyInsideUnmuteEligible = False, id_newInsideUnmute = False\<rparr>"

text \<open>One row of the table: the decision so far, the known rows so far, and whether some row is unknown.\<close>

fun scan_row :: "itb_settings \<Rightarrow> alert_data \<Rightarrow> itb_decision \<times> encounter list \<times> bool \<Rightarrow>
    itb_decision \<times> encounter list \<times> bool" where
  "scan_row s alert (d, current, uncertain) =
     (case classify s alert of
        ItbUnknown \<Rightarrow> (d\<lparr>id_allOutsideMuteEligible := False\<rparr>, current, True)
      | c \<Rightarrow>
          let band = the (bandIndex (ad_band alert)); inside = (c = ItbInside);
              policy = itb_bands s ! band in
          (d\<lparr>id_anyInside := id_anyInside d \<or> inside,
             id_anyInsideUnmuteEligible := id_anyInsideUnmuteEligible d \<or> inside \<and> itb_unmuteInside policy,
             id_allOutsideMuteEligible := id_allOutsideMuteEligible d \<and> \<not> inside \<and> itb_muteOutside policy\<rparr>,
           current @ [\<lparr>en_frequencyMHz = ad_frequency alert, en_band = band, en_insideSeen = False\<rparr>],
           uncertain))"

subsection \<open>Canonical order\<close>

definition comesBefore :: "encounter \<Rightarrow> encounter \<Rightarrow> bool" where
  "comesBefore a b \<longleftrightarrow> en_band a < en_band b \<or>
     en_band a = en_band b \<and> en_frequencyMHz a < en_frequencyMHz b"

text \<open>The item moves left past the larger items of the sorted prefix, here read from its end.\<close>

fun shift_left :: "encounter \<Rightarrow> encounter list \<Rightarrow> encounter list" where
  "shift_left item [] = [item]"
| "shift_left item (x # prefix) =
     (if comesBefore item x then x # shift_left item prefix else item # x # prefix)"

definition sort_encounters :: "encounter list \<Rightarrow> encounter list" where
  "sort_encounters current = fold (\<lambda>item sorted. rev (shift_left item (rev sorted))) current []"

subsection \<open>Matching\<close>

definition encounter_delta :: "encounter \<Rightarrow> encounter \<Rightarrow> nat" where
  "encounter_delta old new =
     unat (if en_frequencyMHz old > en_frequencyMHz new then en_frequencyMHz old - en_frequencyMHz new
           else en_frequencyMHz new - en_frequencyMHz old)"

text \<open>
  The old encounters a row may take, in the order of the two loops of \<open>matchEncounter\<close>: by
  distance, then by index. The visited test stays in the search.
\<close>

definition candidates :: "encounter list \<Rightarrow> encounter \<Rightarrow> nat list" where
  "candidates old row =
     concat (map (\<lambda>distance. filter (\<lambda>i. en_band (old ! i) = en_band row \<and>
        encounter_delta (old ! i) row = distance) [0..<length old]) [0..<ENCOUNTER_TOLERANCE_MHZ + 1])"

definition mark :: "nat \<Rightarrow> u16 \<Rightarrow> u16" where
  "mark i visited = visited OR push_bit i 1"

definition unvisited :: "u16 \<Rightarrow> nat" where
  "unvisited visited = card {i. i < 16 \<and> \<not> bit visited i}"

type_synonym matching = "nat option list"

text \<open>
  The recursive search. A row's visited old encounters are a 16-bit mask; an index of 16 or
  more does not occur, since the arrays have 15 entries.
\<close>

function (domintros) match_from :: "encounter list \<Rightarrow> encounter list \<Rightarrow> nat \<Rightarrow> nat list \<Rightarrow> matching \<Rightarrow> u16 \<Rightarrow>
    bool \<times> matching \<times> u16" where
  "match_from old current row [] m visited = (False, m, visited)"
| "match_from old current row (i # is) m visited =
     (if bit visited i \<or> 16 \<le> i then match_from old current row is m visited
      else (case m ! i of
          None \<Rightarrow> (True, m[i := Some row], mark i visited)
        | Some owner \<Rightarrow>
            (case match_from old current owner (candidates old (current ! owner)) m (mark i visited) of
               (True, m', visited') \<Rightarrow> (True, m'[i := Some row], visited')
             | (False, m', visited') \<Rightarrow> match_from old current row is m' visited')))"
  by pat_completeness auto


lemma bit_mark: "i < 16 \<Longrightarrow> bit (mark i v) j \<longleftrightarrow> bit v j \<or> j = i"
  by (auto simp: mark_def bit_or_iff bit_exp_iff)

lemma unvisited_mark: "i < 16 \<Longrightarrow> \<not> bit v i \<Longrightarrow> unvisited (mark i v) < unvisited v"
  unfolding unvisited_def by (rule psubset_card_mono) (auto simp: bit_mark)

lemma unvisited_mono: "(\<And>j. bit v j \<Longrightarrow> bit w j) \<Longrightarrow> unvisited w \<le> unvisited v"
  unfolding unvisited_def by (rule card_mono) auto

lemma match_from_visits:
  "match_from_dom (old, current, row, is, m, visited) \<Longrightarrow>
   match_from old current row is m visited = (found, m', visited') \<Longrightarrow> bit visited j \<Longrightarrow> bit visited' j"
proof (induction arbitrary: found m' visited' j rule: match_from.pinduct)
  case (1 old current row m visited)
  then show ?case by (simp add: match_from.psimps)
next
  case (2 old current row i "is" m visited)
  show ?case
  proof (cases "bit visited i \<or> 16 \<le> i")
    case True
    with 2(2) [OF True _ 2(6)] 2(5) show ?thesis by (simp add: match_from.psimps(2) [OF 2(1)])
  next
    case False
    then have marked: "bit (mark i visited) j" using 2(6) by (simp add: bit_mark)
    show ?thesis
    proof (cases "m ! i")
      case None
      with False 2(5) marked show ?thesis by (auto simp: match_from.psimps(2) [OF 2(1)])
    next
      case (Some owner)
      obtain f m1 v1 where rec: "match_from old current owner (candidates old (current ! owner)) m (mark i visited) = (f, m1, v1)"
        by (metis prod_cases3)
      have v1: "bit v1 j" using 2(3) [OF False Some rec marked] .
      show ?thesis
      proof (cases f)
        case True
        with False Some rec v1 2(5) show ?thesis by (auto simp: match_from.psimps(2) [OF 2(1)])
      next
        case f: False
        with False Some rec v1 2(5) 2(4) [OF False Some rec [symmetric] _ refl] show ?thesis
          by (auto simp: match_from.psimps(2) [OF 2(1)])
      qed
    qed
  qed
qed

lemma match_from_unvisited:
  assumes "(f, m', v') = match_from old current row is m (mark i visited)"
    "match_from_dom (old, current, row, is, m, mark i visited)" "\<not> bit visited i" "\<not> 16 \<le> i"
  shows "unvisited v' < unvisited visited"
proof -
  have "bit v' j" if "bit (mark i visited) j" for j
    using match_from_visits [OF assms(2) assms(1) [symmetric] that] .
  then have "unvisited v' \<le> unvisited (mark i visited)" by (rule unvisited_mono)
  also have "\<dots> < unvisited visited" using assms by (simp add: unvisited_mark)
  finally show ?thesis .
qed

termination match_from
proof (relation "measures [\<lambda>(old, current, row, is, m, visited). unvisited visited,
    \<lambda>(old, current, row, is, m, visited). length is]")
qed (auto simp: unvisited_mark dest: match_from_unvisited)

lemma match_from_total: "match_from_dom (old, current, row, is, m, visited)"
  by (induction old current row "is" m visited rule: match_from.induct) (blast intro: match_from.domintros)+

lemma match_from_marks:
  "match_from old current row is m visited = (found, m', visited') \<Longrightarrow> bit visited j \<Longrightarrow> bit visited' j"
  using match_from_visits match_from_total by blast

text \<open>Every known row in canonical order tries to take an old encounter.\<close>

definition match_all :: "encounter list \<Rightarrow> encounter list \<Rightarrow> matching" where
  "match_all old current =
     fold (\<lambda>row m. fst (snd (match_from old current row (candidates old (current ! row)) m 0)))
       [0..<length current] (replicate MAX_ALERTS None)"

definition inherit_seen :: "encounter list \<Rightarrow> matching \<Rightarrow> encounter list \<Rightarrow> encounter list" where
  "inherit_seen old m current =
     fold (\<lambda>i current. case m ! i of None \<Rightarrow> current
        | Some row \<Rightarrow> current[row := (current ! row)\<lparr>en_insideSeen := en_insideSeen (old ! i)\<rparr>])
       [0..<length old] current"

definition see_inside :: "itb_settings \<Rightarrow> encounter \<Rightarrow> encounter" where
  "see_inside s e =
     (if box_contains s (en_band e) (en_frequencyMHz e) then e\<lparr>en_insideSeen := True\<rparr> else e)"

definition new_inside :: "itb_settings \<Rightarrow> encounter \<Rightarrow> bool" where
  "new_inside s e \<longleftrightarrow> box_contains s (en_band e) (en_frequencyMHz e) \<and> \<not> en_insideSeen e \<and>
     itb_unmuteInside (itb_bands s ! en_band e)"

definition itb_process :: "itb_settings \<Rightarrow> alert_data list option \<Rightarrow> nat \<Rightarrow> bool \<Rightarrow> in_the_box \<Rightarrow>
    itb_decision \<times> in_the_box" where
  "itb_process s alerts n laserActive ib =
     (if \<not> isValidV1InTheBoxSettings s \<or> n > MAX_ALERTS \<or> n \<noteq> 0 \<and> alerts = None then (no_decision, ib)
      else
        (let rows = (case alerts of None \<Rightarrow> [] | Some as \<Rightarrow> take n as);
             start = no_decision\<lparr>id_allOutsideMuteEligible := n \<noteq> 0 \<and> \<not> laserActive\<rparr>;
             (d, known, uncertain) = fold (scan_row s) rows (start, [], False) in
         if uncertain then (d, ib)
         else
           (let old = ib_encounters ib; current = sort_encounters known;
                current = inherit_seen old (match_all old current) current in
            (d\<lparr>id_newInsideUnmute := id_newInsideUnmute d \<or> list_ex (new_inside s) current\<rparr>,
             ib\<lparr>ib_encounters := map (see_inside s) current\<rparr>))))"

section \<open>The matching\<close>

definition may_take :: "encounter list \<Rightarrow> encounter \<Rightarrow> nat \<Rightarrow> bool" where
  "may_take old row i \<longleftrightarrow> i < length old \<and> en_band (old ! i) = en_band row \<and>
     encounter_delta (old ! i) row \<le> ENCOUNTER_TOLERANCE_MHZ"

lemma set_candidates: "set (candidates old row) = {i. may_take old row i}"
  by (auto simp: candidates_def may_take_def ENCOUNTER_TOLERANCE_MHZ_def)

end
