(* ===== verification/V1_Encounter_Matching.thy ===== *)
theory V1_Encounter_Matching
  imports V1_In_The_Box
begin

text \<open>
  The augmenting-path search of \<open>matchEncounter\<close> is correct: the matching of old encounters to
  new rows is one to one and within the tolerance, and no other assignment pairs more rows.
  The proof keeps a certificate: a set of old encounters, all taken, that contains everything
  an unmatched row or a taker of the set may take.
\<close>

section \<open>What one search does to the matching\<close>

definition allowed :: "encounter list \<Rightarrow> encounter list \<Rightarrow> matching \<Rightarrow> bool" where
  "allowed old current m \<longleftrightarrow> length m = MAX_ALERTS \<and>
     (\<forall>i r. i < length m \<longrightarrow> m ! i = Some r \<longrightarrow> r < length current \<and> may_take old (current ! r) i)"

lemma search_effect:
  "match_from old current row is m visited = (found, m', visited') \<Longrightarrow>
   length old \<le> MAX_ALERTS \<Longrightarrow> row < length current \<Longrightarrow> (\<forall>i \<in> set is. may_take old (current ! row) i) \<Longrightarrow>
   allowed old current m \<Longrightarrow>
   allowed old current m' \<and> (\<forall>i. bit visited i \<longrightarrow> m' ! i = m ! i) \<and>
   (\<not> found \<longrightarrow> m' = m) \<and>
   (found \<longrightarrow> None \<in># mset m \<and> mset m' = add_mset (Some row) (mset m - {#None#}))"
proof (induction old current row "is" m visited arbitrary: found m' visited' rule: match_from.induct)
  case (1 old current row m visited)
  then show ?case by auto
next
  case (2 old current row i "is" m visited)
  have i: "i < length m" "i < 16" "may_take old (current ! row) i"
    using 2(5,7,8) by (auto simp: may_take_def allowed_def MAX_ALERTS_def)
  have set_row: "allowed old current (x[i := Some row])" if "allowed old current x" for x
    using that i(1,3) 2(6,8) by (auto simp: allowed_def nth_list_update split: if_splits)
  show ?case
  proof (cases "bit visited i \<or> 16 \<le> i")
    case True
    with 2(1) [OF True _ 2(5,6) _ 2(8)] 2(4,7) show ?thesis by simp
  next
    case False
    then have fresh: "i \<noteq> j" if "bit visited j" for j using that by auto
    show ?thesis
    proof (cases "m ! i")
      case None
      then have "None \<in># mset m" using i(1) by (metis in_multiset_in_set nth_mem)
      with None False 2(4) i(1) set_row [OF 2(8)] fresh show ?thesis
        by (auto simp: mset_update)
    next
      case (Some owner)
      obtain f m1 v1 where rec: "match_from old current owner (candidates old (current ! owner)) m (mark i visited) = (f, m1, v1)"
        by (metis prod_cases3)
      have owner: "owner < length current" using Some i(1) 2(8) by (auto simp: allowed_def)
      note IH = 2(2) [OF False Some rec 2(5) owner _ 2(8)]
      have IH: "allowed old current m1" "\<forall>j. bit (mark i visited) j \<longrightarrow> m1 ! j = m ! j" "\<not> f \<longrightarrow> m1 = m"
          "f \<longrightarrow> None \<in># mset m \<and> mset m1 = add_mset (Some owner) (mset m - {#None#})"
        using IH by (auto simp: set_candidates)
      show ?thesis
      proof (cases f)
        case True
        have m1i: "m1 ! i = Some owner" "i < length m1" using IH(1,2) Some i 2(8) bit_mark [of i visited i]
          by (auto simp: allowed_def)
        have "mset (m1[i := Some row]) = add_mset (Some row) (mset m - {#None#})"
          using mset_update [OF m1i(2), of "Some row"] IH(4) True m1i(1) by simp
        moreover have "bit visited j \<longrightarrow> m1[i := Some row] ! j = m ! j" for j
          using IH(2) fresh i(2) by (auto simp: bit_mark)
        ultimately show ?thesis
          using False Some rec True 2(4) set_row [OF IH(1)] IH(4) by auto
      next
        case f: False
        have step: "match_from old current row is m1 v1 = (found, m', visited')"
          using False Some rec f 2(4) by simp
        have "m1 = m" using IH(3) f by simp
        have "\<And>j. bit visited j \<Longrightarrow> bit v1 j"
        proof -
          fix j assume "bit visited j"
          then have "bit (mark i visited) j" using i(2) by (simp add: bit_mark)
          then show "bit v1 j" using match_from_marks [OF rec] by simp
        qed
        moreover have "\<forall>j \<in> set is. may_take old (current ! row) j" using 2(7) by simp
        ultimately show ?thesis
          using 2(3) [OF False Some rec [symmetric] _ refl, of found m' visited'] step f 2(5,6) IH(1) \<open>m1 = m\<close>
          by auto
      qed
    qed
  qed
qed


text \<open>A set of taken encounters that holds everything its takers may take is closed: no search leaves it or changes it.\<close>

definition closed_set :: "encounter list \<Rightarrow> encounter list \<Rightarrow> matching \<Rightarrow> nat set \<Rightarrow> bool" where
  "closed_set old current m V \<longleftrightarrow>
     (\<forall>i \<in> V. i < length m \<and> (\<exists>r. m ! i = Some r \<and> (\<forall>k. may_take old (current ! r) k \<longrightarrow> k \<in> V)))"

lemma search_avoids_closed:
  "match_from old current row is m visited = (found, m', visited') \<Longrightarrow>
   length old \<le> MAX_ALERTS \<Longrightarrow> row < length current \<Longrightarrow> (\<forall>i \<in> set is. may_take old (current ! row) i) \<Longrightarrow>
   allowed old current m \<Longrightarrow> closed_set old current m V \<Longrightarrow>
   (\<forall>i \<in> V. m' ! i = m ! i) \<and> (set is \<subseteq> V \<longrightarrow> \<not> found)"
proof (induction old current row "is" m visited arbitrary: found m' visited' rule: match_from.induct)
  case (1 old current row m visited)
  then show ?case by auto
next
  case (2 old current row i "is" m visited)
  show ?case
  proof (cases "bit visited i \<or> 16 \<le> i")
    case True
    with 2(1) [OF True _ 2(5,6) _ 2(8,9)] 2(4,7) show ?thesis by simp
  next
    case False
    have i: "i < length m" using 2(5,7,8) by (auto simp: may_take_def allowed_def)
    show ?thesis
    proof (cases "m ! i")
      case None
      with 2(9) have "i \<notin> V" by (auto simp: closed_set_def)
      then have "m[i := x] ! j = m ! j" if "j \<in> V" for j x using that by (cases "i = j") auto
      with None False 2(4) \<open>i \<notin> V\<close> show ?thesis by auto
    next
      case (Some owner)
      obtain f m1 v1 where rec: "match_from old current owner (candidates old (current ! owner)) m (mark i visited) = (f, m1, v1)"
        by (metis prod_cases3)
      have owner: "owner < length current" using Some i 2(8) by (auto simp: allowed_def)
      have IH: "\<forall>j \<in> V. m1 ! j = m ! j" "set (candidates old (current ! owner)) \<subseteq> V \<longrightarrow> \<not> f"
        using 2(2) [OF False Some rec 2(5) owner _ 2(8,9)] by (auto simp: set_candidates)
      have inV: "\<not> f" if "i \<in> V"
        using IH(2) that 2(9) Some by (auto simp: closed_set_def set_candidates)
      show ?thesis
      proof (cases f)
        case True
        with inV have "i \<notin> V" by blast
        then have "m1[i := x] ! j = m1 ! j" if "j \<in> V" for j x using that by (cases "i = j") auto
        with True False Some rec 2(4) IH(1) \<open>i \<notin> V\<close> show ?thesis by auto
      next
        case f: False
        have step: "match_from old current row is m1 v1 = (found, m', visited')"
          using False Some rec f 2(4) by simp
        have "m1 = m" using search_effect [OF rec 2(5) owner _ 2(8)] f by (auto simp: set_candidates)
        with 2(3) [OF False Some rec [symmetric] _ refl, of found m' visited'] step f 2(5-9) show ?thesis by auto
      qed
    qed
  qed
qed

text \<open>A failed search leaves a closed set that holds everything its row may take.\<close>

lemma failed_search:
  "match_from old current row is m visited = (False, m', visited') \<Longrightarrow>
   length old \<le> MAX_ALERTS \<Longrightarrow> row < length current \<Longrightarrow> (\<forall>i \<in> set is. may_take old (current ! row) i) \<Longrightarrow>
   allowed old current m \<Longrightarrow>
   (\<forall>i \<in> set is. bit visited' i) \<and>
   (\<forall>i. bit visited' i \<longrightarrow> \<not> bit visited i \<longrightarrow>
      i < length m \<and> (\<exists>r. m ! i = Some r \<and> (\<forall>k. may_take old (current ! r) k \<longrightarrow> bit visited' k)))"
proof (induction old current row "is" m visited arbitrary: m' visited' rule: match_from.induct)
  case (1 old current row m visited)
  then show ?case by auto
next
  case (2 old current row i "is" m visited)
  have i: "i < length m" "i < 16" using 2(5,7,8) by (auto simp: may_take_def allowed_def MAX_ALERTS_def)
  show ?case
  proof (cases "bit visited i \<or> 16 \<le> i")
    case True
    then have "bit visited' i" using match_from_marks [OF 2(4)] i(2) by auto
    with True 2(1) [OF True _ 2(5,6) _ 2(8)] 2(4,7) show ?thesis by simp
  next
    case False
    with 2(4) obtain owner where Some: "m ! i = Some owner" by (cases "m ! i") auto
    obtain f m1 v1 where rec: "match_from old current owner (candidates old (current ! owner)) m (mark i visited) = (f, m1, v1)"
      by (metis prod_cases3)
    have owner: "owner < length current" using Some i 2(8) by (auto simp: allowed_def)
    have f: "\<not> f" and step: "match_from old current row is m1 v1 = (False, m', visited')"
      using 2(4) False Some rec by (auto split: bool.splits)
    have "m1 = m" using search_effect [OF rec 2(5) owner _ 2(8)] f by (auto simp: set_candidates)
    have nested: "\<forall>k. may_take old (current ! owner) k \<longrightarrow> bit v1 k"
        "\<forall>j. bit v1 j \<longrightarrow> \<not> bit (mark i visited) j \<longrightarrow>
           j < length m \<and> (\<exists>r. m ! j = Some r \<and> (\<forall>k. may_take old (current ! r) k \<longrightarrow> bit v1 k))"
      using 2(2) [OF False Some _ 2(5) owner _ 2(8), of m1 v1] rec f by (auto simp: set_candidates)
    have "\<forall>j \<in> set is. may_take old (current ! row) j" using 2(7) by simp
    note IH = 2(3) [OF False Some rec [symmetric] _ refl step 2(5,6) this]
    have rest_step: "(\<forall>j \<in> set is. bit visited' j) \<and>
        (\<forall>j. bit visited' j \<longrightarrow> \<not> bit v1 j \<longrightarrow>
           j < length m \<and> (\<exists>r. m ! j = Some r \<and> (\<forall>k. may_take old (current ! r) k \<longrightarrow> bit visited' k)))"
      using IH f 2(8) \<open>m1 = m\<close> by simp
    note rest = conjunct1 [OF rest_step] conjunct2 [OF rest_step]
    have mono: "bit v1 j \<Longrightarrow> bit visited' j" for j
      using match_from_marks [OF step] by blast
    have "bit (mark i visited) i" using i(2) by (simp add: bit_mark)
    then have "bit visited' i" using match_from_marks [OF rec] mono by blast
    moreover have "j < length m \<and> (\<exists>r. m ! j = Some r \<and> (\<forall>k. may_take old (current ! r) k \<longrightarrow> bit visited' k))"
      if "bit visited' j" "\<not> bit visited j" for j
    proof (cases "j = i")
      case True
      with Some nested(1) mono i(1) show ?thesis by auto
    next
      case False
      with that(2) have new: "\<not> bit (mark i visited) j" using i(2) by (simp add: bit_mark)
      show ?thesis
      proof (cases "bit v1 j")
        case True
        with nested(2) new obtain r where "j < length m" "m ! j = Some r"
            "\<forall>k. may_take old (current ! r) k \<longrightarrow> bit v1 k" by blast
        with mono show ?thesis by simp
      next
        case False
        with rest(2) that(1) show ?thesis by simp
      qed
    qed
    ultimately show ?thesis using rest(1) by simp
  qed
qed


section \<open>The whole matching\<close>

text \<open>The rows that hold an old encounter, with their multiplicity.\<close>

definition takers :: "matching \<Rightarrow> nat multiset" where
  "takers m = mset (map the (filter (\<lambda>x. x \<noteq> None) m))"

lemma takers_alt: "takers m = image_mset the (filter_mset (\<lambda>x. x \<noteq> None) (mset m))"
  by (simp add: takers_def)

lemma in_takers: "r \<in># takers m \<longleftrightarrow> Some r \<in> set m"
  by (force simp: takers_def)

lemma takers_search:
  assumes "None \<in># mset m" "mset m' = add_mset (Some row) (mset m - {#None#})"
  shows "takers m' = add_mset row (takers m)"
proof -
  obtain x where x: "mset m = add_mset None x" using multi_member_split [OF assms(1)] by blast
  with assms(2) show ?thesis by (simp add: takers_alt)
qed

lemma one_place:
  "distinct (map the (filter (\<lambda>x. x \<noteq> None) m)) \<Longrightarrow> i < length m \<Longrightarrow> j < length m \<Longrightarrow>
   m ! i = Some r \<Longrightarrow> m ! j = Some r \<Longrightarrow> i = j"
proof (induction m arbitrary: i j)
  case (Cons x m)
  have "r \<in> set (map the (filter (\<lambda>x. x \<noteq> None) m))" if "k < length m" "m ! k = Some r" for k
    using that by (force simp: in_set_conv_nth)
  with Cons show ?case by (cases i; cases j) (auto split: if_splits)
qed simp

definition matched_rows :: "encounter list \<Rightarrow> encounter list \<Rightarrow> nat \<Rightarrow> matching" where
  "matched_rows old current n =
     fold (\<lambda>row m. fst (snd (match_from old current row (candidates old (current ! row)) m 0)))
       [0..<n] (replicate MAX_ALERTS None)"

definition certified :: "encounter list \<Rightarrow> encounter list \<Rightarrow> nat \<Rightarrow> matching \<Rightarrow> bool" where
  "certified old current n m \<longleftrightarrow> allowed old current m \<and>
     (\<forall>r. count (takers m) r \<le> (if r < n then 1 else 0)) \<and>
     (\<exists>V. closed_set old current m V \<and>
        (\<forall>r < n. r \<notin># takers m \<longrightarrow> (\<forall>k. may_take old (current ! r) k \<longrightarrow> k \<in> V)))"

lemma certified_start: "certified old current 0 (replicate MAX_ALERTS None)"
  by (auto simp: certified_def allowed_def takers_def closed_set_def filter_empty_conv intro!: exI [of _ "{}"])

lemma closed_set_cong: "closed_set old current m V \<Longrightarrow> length m' = length m \<Longrightarrow> (\<And>i. i \<in> V \<Longrightarrow> m' ! i = m ! i) \<Longrightarrow>
    closed_set old current m' V"
  by (simp add: closed_set_def)

lemma certified_step:
  assumes "certified old current n m" "n < length current" "length old \<le> MAX_ALERTS"
    "match_from old current n (candidates old (current ! n)) m 0 = (found, m', visited')"
  shows "certified old current (Suc n) m'"
proof -
  obtain V where V: "closed_set old current m V"
      "\<forall>r < n. r \<notin># takers m \<longrightarrow> (\<forall>k. may_take old (current ! r) k \<longrightarrow> k \<in> V)"
    using assms(1) by (auto simp: certified_def)
  have ok: "allowed old current m" and once: "\<forall>r. count (takers m) r \<le> (if r < n then 1 else 0)"
    using assms(1) by (auto simp: certified_def)
  have c: "\<forall>i \<in> set (candidates old (current ! n)). may_take old (current ! n) i" by (simp add: set_candidates)
  note effect = search_effect [OF assms(4,3,2) c ok]
  have new: "n \<notin># takers m" using once [rule_format, of n] by (simp add: not_in_iff)
  show ?thesis
  proof (cases found)
    case True
    then have t: "takers m' = add_mset n (takers m)" using effect takers_search by blast
    have "\<forall>i \<in> V. m' ! i = m ! i" using search_avoids_closed [OF assms(4,3,2) c ok V(1)] by blast
    moreover have "length m' = length m" using effect ok by (simp add: allowed_def)
    ultimately have "closed_set old current m' V" by (intro closed_set_cong [OF V(1)]) blast+
    moreover have "\<forall>r < Suc n. r \<notin># takers m' \<longrightarrow> (\<forall>k. may_take old (current ! r) k \<longrightarrow> k \<in> V)"
      using V(2) t by (auto simp: less_Suc_eq)
    moreover have "count (takers m') r \<le> (if r < Suc n then 1 else 0)" for r
      using once [rule_format, of r] new t by (auto simp: less_Suc_eq not_in_iff split: if_splits)
    ultimately show ?thesis using effect by (auto simp: certified_def)
  next
    case False
    then have m: "m' = m" using effect by blast
    let ?W = "{i. bit visited' i}"
    have fail: "match_from old current n (candidates old (current ! n)) m 0 = (False, m', visited')"
      using assms(4) False by simp
    note f = failed_search [OF fail assms(3,2) c ok]
    have "closed_set old current m (V \<union> ?W)"
      unfolding closed_set_def
    proof
      fix i assume "i \<in> V \<union> ?W"
      then consider "i \<in> V" | "bit visited' i" by blast
      then show "i < length m \<and> (\<exists>r. m ! i = Some r \<and> (\<forall>k. may_take old (current ! r) k \<longrightarrow> k \<in> V \<union> ?W))"
      proof cases
        case 1
        then obtain r where "i < length m" "m ! i = Some r" "\<forall>k. may_take old (current ! r) k \<longrightarrow> k \<in> V"
          using V(1) unfolding closed_set_def by blast
        then show ?thesis by auto
      next
        case 2
        then obtain r where "i < length m" "m ! i = Some r" "\<forall>k. may_take old (current ! r) k \<longrightarrow> bit visited' k"
          using f by auto
        then show ?thesis by auto
      qed
    qed
    moreover have "\<forall>r < Suc n. r \<notin># takers m \<longrightarrow> (\<forall>k. may_take old (current ! r) k \<longrightarrow> k \<in> V \<union> ?W)"
      using V(2) f by (auto simp: less_Suc_eq set_candidates)
    moreover have "count (takers m) r \<le> (if r < Suc n then 1 else 0)" for r
      using once [rule_format, of r] by (auto split: if_splits)
    ultimately show ?thesis using ok m unfolding certified_def by blast
  qed
qed

lemma certified_rows:
  assumes "n \<le> length current" "length old \<le> MAX_ALERTS"
  shows "certified old current n (matched_rows old current n)"
  using assms(1)
proof (induction n)
  case (Suc n)
  obtain f m' v' where "match_from old current n (candidates old (current ! n)) (matched_rows old current n) 0 = (f, m', v')"
    by (metis prod_cases3)
  with certified_step [OF Suc.IH _ assms(2) this] Suc.prems show ?case by (simp add: matched_rows_def)
qed (simp add: matched_rows_def certified_start)

lemma match_all_certified:
  "length old \<le> MAX_ALERTS \<Longrightarrow> certified old current (length current) (match_all old current)"
  using certified_rows [of "length current" current old] by (simp add: matched_rows_def match_all_def)

section \<open>One to one, within tolerance, and of largest size\<close>

definition assignment :: "encounter list \<Rightarrow> encounter list \<Rightarrow> (nat \<rightharpoonup> nat) \<Rightarrow> bool" where
  "assignment old current f \<longleftrightarrow> inj_on f (dom f) \<and>
     (\<forall>r i. f r = Some i \<longrightarrow> r < length current \<and> may_take old (current ! r) i)"

definition matched_count :: "matching \<Rightarrow> nat" where
  "matched_count m = length (filter (\<lambda>x. x \<noteq> None) m)"

lemma certified_count: "certified old current n m \<Longrightarrow> count (takers m) r \<le> (if r < n then 1 else 0)"
  unfolding certified_def by blast

lemma certified_distinct:
  assumes "certified old current n m"
  shows "distinct (map the (filter (\<lambda>x. x \<noteq> None) m))"
proof -
  have le: "count (takers m) r \<le> 1" for r
    using assms by (auto simp: certified_def intro: le_trans)
  have "count (mset (map the (filter (\<lambda>x. x \<noteq> None) m))) r = (if r \<in> set (map the (filter (\<lambda>x. x \<noteq> None) m)) then 1 else 0)" for r
  proof (cases "r \<in> set (map the (filter (\<lambda>x. x \<noteq> None) m))")
    case True
    then have "r \<in># takers m" by (simp add: takers_def)
    then have "0 < count (takers m) r" by (rule count_greater_zero_iff [THEN iffD2])
    with le [of r] have "count (takers m) r = 1" by linarith
    with True show ?thesis by (simp only: takers_def if_True)
  next
    case False
    then have "r \<notin># takers m" by (simp add: takers_def)
    then have "count (takers m) r = 0" by (rule not_in_iff [THEN iffD1])
    with False show ?thesis by (simp only: takers_def if_False)
  qed
  then show ?thesis by (simp only: distinct_count_atmost_1) simp
qed

lemma takers_set:
  assumes "certified old current n m"
  shows "matched_count m = card (set_mset (takers m))" "finite (set_mset (takers m))"
    "set_mset (takers m) \<subseteq> {..<n}"
proof -
  have "card (set (map the (filter (\<lambda>x. x \<noteq> None) m))) = length (map the (filter (\<lambda>x. x \<noteq> None) m))"
    by (rule distinct_card [OF certified_distinct [OF assms]])
  then show "matched_count m = card (set_mset (takers m))" by (simp add: matched_count_def takers_def)
  show "set_mset (takers m) \<subseteq> {..<n}"
  proof
    fix r assume "r \<in># takers m"
    have "\<not> r < n \<Longrightarrow> count (takers m) r = 0" using certified_count [OF assms, of r] by simp
    with \<open>r \<in># takers m\<close> show "r \<in> {..<n}" by (metis lessThan_iff not_in_iff)
  qed
qed simp

lemma matching_maximal:
  assumes "certified old current (length current) m" "assignment old current f" "length old \<le> MAX_ALERTS"
  shows "card (dom f) \<le> matched_count m"
proof -
  obtain V where V: "closed_set old current m V"
      "\<forall>r < length current. r \<notin># takers m \<longrightarrow> (\<forall>k. may_take old (current ! r) k \<longrightarrow> k \<in> V)"
    using assms(1) by (auto simp: certified_def)
  let ?n = "length current" and ?T = "set_mset (takers m)"
  define owner where "owner i = the (m ! i)" for i
  have own: "i < length m \<and> m ! i = Some (owner i) \<and> owner i \<in> ?T" if "i \<in> V" for i
  proof -
    from bspec [OF V(1) [unfolded closed_set_def] that] obtain r where r: "i < length m" "m ! i = Some r" by auto
    then have "Some r \<in> set m" by (metis nth_mem)
    with r show ?thesis by (simp add: owner_def in_takers)
  qed
  have finV: "finite V" using own by (intro finite_subset [of V "{..<length m}"]) auto
  have inj: "inj_on owner V"
  proof (rule inj_onI)
    fix i j assume "i \<in> V" "j \<in> V" "owner i = owner j"
    then have "i < length m" "j < length m" "m ! i = Some (owner i)" "m ! j = Some (owner i)"
      using own by metis+
    then show "i = j" by (rule one_place [OF certified_distinct [OF assms(1)]])
  qed
  let ?U = "{..<?n} - ?T" and ?O = "owner ` V"
  let ?S = "?U \<union> ?O"
  have cardS: "card ?S = card ?U + card V"
    using own finV inj by (subst card_Un_disjoint) (auto simp: card_image)
  have domn: "dom f \<subseteq> {..<?n}" using assms(2) by (auto simp: assignment_def)
  have "f ` (dom f \<inter> ?S) \<subseteq> Some ` V"
  proof
    fix y assume "y \<in> f ` (dom f \<inter> ?S)"
    then obtain r i where r: "r \<in> ?S" "f r = Some i" "y = Some i" by auto
    then have t: "r < ?n" "may_take old (current ! r) i" using assms(2) by (auto simp: assignment_def)
    from r(1) have "i \<in> V"
    proof
      assume "r \<in> ?U" then show ?thesis using V(2) t by auto
    next
      assume "r \<in> ?O"
      then obtain j where "j \<in> V" "r = owner j" by blast
      with V(1) own [of j] t(2) show ?thesis by (auto simp: closed_set_def)
    qed
    with r(3) show "y \<in> Some ` V" by blast
  qed
  then have "card (dom f \<inter> ?S) \<le> card V"
  proof -
    assume sub: "f ` (dom f \<inter> ?S) \<subseteq> Some ` V"
    have "inj_on f (dom f \<inter> ?S)" using assms(2) by (auto simp: assignment_def intro: inj_on_subset)
    then have "card (dom f \<inter> ?S) = card (f ` (dom f \<inter> ?S))" by (simp add: card_image)
    also have "\<dots> \<le> card (Some ` V)" using sub finV by (intro card_mono) auto
    also have "\<dots> \<le> card V" by (rule card_image_le [OF finV])
    finally show ?thesis .
  qed
  moreover have Sn: "?S \<subseteq> {..<?n}" using own takers_set(3) [OF assms(1)] by auto
  have "card (dom f) = card (dom f \<inter> ?S) + card (dom f - ?S)"
    using domn by (metis card_Int_Diff finite_lessThan finite_subset)
  moreover have "card (dom f - ?S) \<le> card ({..<?n} - ?S)" using domn by (intro card_mono) auto
  moreover have "card ({..<?n} - ?S) = ?n - card ?S" 
    using card_Diff_subset [OF finite_subset [OF Sn finite_lessThan] Sn] by (simp only: card_lessThan)
  moreover have "card ?S \<le> ?n" using card_mono [OF _ Sn] by simp
  moreover have "card ?U = ?n - card ?T" using takers_set(3) [OF assms(1)] by (simp add: card_Diff_subset)
  moreover have "card ?T \<le> ?n" using card_mono [OF _ takers_set(3) [OF assms(1)]] by simp
  ultimately show ?thesis using cardS takers_set(1) [OF assms(1)] by linarith
qed

end
