(* ===== verification/V1_In_The_Box_Properties.thy ===== *)
theory V1_In_The_Box_Properties
  imports V1_Encounter_Matching
begin

text \<open>
  The promises of the in-the-box policy: its decision does not depend on the order of the
  table's rows, it asks for a mute only when every row is known to be outside, an unknown row
  leaves its history alone, and an encounter that was seen inside asks for no second unmute.
\<close>

section \<open>The scan of the table\<close>

definition row_policy :: "itb_settings \<Rightarrow> alert_data \<Rightarrow> itb_band_settings" where
  "row_policy s a = itb_bands s ! the (bandIndex (ad_band a))"

definition row_encounter :: "alert_data \<Rightarrow> encounter" where
  "row_encounter a = \<lparr>en_frequencyMHz = ad_frequency a, en_band = the (bandIndex (ad_band a)), en_insideSeen = False\<rparr>"

definition known_rows :: "itb_settings \<Rightarrow> alert_data list \<Rightarrow> encounter list" where
  "known_rows s rows = map row_encounter (filter (\<lambda>a. classify s a \<noteq> ItbUnknown) rows)"

lemma scan_rows:
  "fold (scan_row s) rows (d, current, u) =
     (d\<lparr>id_allOutsideMuteEligible := id_allOutsideMuteEligible d \<and>
          (\<forall>a \<in> set rows. classify s a = ItbOutside \<and> itb_muteOutside (row_policy s a)),
        id_anyInside := id_anyInside d \<or> (\<exists>a \<in> set rows. classify s a = ItbInside),
        id_anyInsideUnmuteEligible := id_anyInsideUnmuteEligible d \<or>
          (\<exists>a \<in> set rows. classify s a = ItbInside \<and> itb_unmuteInside (row_policy s a))\<rparr>,
      current @ known_rows s rows, u \<or> (\<exists>a \<in> set rows. classify s a = ItbUnknown))"
proof (induction rows arbitrary: d current u)
  case (Cons a rows)
  have "fold (scan_row s) (a # rows) (d, current, u) = fold (scan_row s) rows (scan_row s a (d, current, u))"
    by simp
  then show ?case
    by (cases "classify s a")
      (auto simp: Cons.IH known_rows_def row_policy_def row_encounter_def Let_def)
qed (simp add: known_rows_def)

section \<open>Canonical order\<close>

definition en_key :: "encounter \<Rightarrow> nat" where
  "en_key e = en_band e * 2 ^ 32 + unat (en_frequencyMHz e)"

lemma comesBefore_key: "comesBefore a b \<longleftrightarrow> en_key a < en_key b"
proof -
  have bound: "unat f < 2 ^ 32" for f :: u32 using unsigned_less [of f] by simp
  have "x * 2 ^ 32 + f < y * 2 ^ 32 + g \<longleftrightarrow> x < y \<or> x = y \<and> f < g"
    if "f < 2 ^ 32" "g < 2 ^ 32" for x y f g :: nat
    using that by (cases x y rule: linorder_cases) (auto dest: less_imp_Suc_add)
  from this [OF bound bound] show ?thesis by (simp only: comesBefore_def en_key_def word_less_nat_alt)
qed

lemma mset_shift_left: "mset (shift_left e xs) = add_mset e (mset xs)"
  by (induction xs) auto

lemma sorted_shift_left:
  "sorted (map en_key (rev xs)) \<Longrightarrow> sorted (map en_key (rev (shift_left e xs)))"
proof (induction xs)
  case (Cons x xs)
  have "set (shift_left e xs) = insert e (set xs)"
    using mset_shift_left [of e xs] by (metis set_mset_add_mset_insert set_mset_mset)
  with Cons show ?case by (auto simp: sorted_append comesBefore_key)
qed simp

lemma sort_encounters_spec:
  "mset (sort_encounters xs) = mset xs" "sorted (map en_key (sort_encounters xs))"
proof -
  let ?f = "\<lambda>item sorted. rev (shift_left item (rev sorted))"
  have "mset (fold ?f xs ys) = mset xs + mset ys" for ys
    by (induction xs arbitrary: ys) (simp_all add: mset_shift_left)
  then show "mset (sort_encounters xs) = mset xs" by (simp add: sort_encounters_def)
  have "sorted (map en_key ys) \<Longrightarrow> sorted (map en_key (fold ?f xs ys))" for ys
    by (induction xs arbitrary: ys) (simp_all add: sorted_shift_left)
  then show "sorted (map en_key (sort_encounters xs))" by (simp add: sort_encounters_def)
qed

lemma en_key_fresh:
  assumes "en_key a = en_key b" "\<not> en_insideSeen a" "\<not> en_insideSeen b"
  shows "a = b"
proof -
  have "\<not> comesBefore a b" "\<not> comesBefore b a" using assms(1) by (simp_all add: comesBefore_key)
  then have "en_band a = en_band b" "en_frequencyMHz a = en_frequencyMHz b"
    by (auto simp: comesBefore_def)
  with assms(2,3) show ?thesis by simp
qed

lemma sort_encounters_cong:
  assumes "mset xs = mset ys" "\<forall>e \<in> set xs. \<not> en_insideSeen e"
  shows "sort_encounters xs = sort_encounters ys"
proof -
  let ?a = "sort_encounters xs" and ?b = "sort_encounters ys"
  have ms: "mset ?a = mset ?b" using sort_encounters_spec(1) assms(1) by simp
  then have "mset (map en_key ?a) = mset (map en_key ?b)" by (metis mset_map)
  then have keys: "map en_key ?a = map en_key ?b"
    using sort_encounters_spec(2) properties_for_sort by metis
  have "set ?a = set xs" "set ?b = set xs"
    using ms sort_encounters_spec(1) [of xs] mset_eq_setD by metis+
  with assms(2) have "inj_on en_key (set ?a \<union> set ?b)" by (auto intro!: inj_onI en_key_fresh)
  with keys show ?thesis by (metis inj_on_map_eq_map)
qed

section \<open>The decision\<close>

definition itb_rows :: "alert_data list option \<Rightarrow> nat \<Rightarrow> alert_data list" where
  "itb_rows alerts n = (case alerts of None \<Rightarrow> [] | Some as \<Rightarrow> take n as)"

definition admissible_table :: "itb_settings \<Rightarrow> alert_data list option \<Rightarrow> nat \<Rightarrow> bool" where
  "admissible_table s alerts n \<longleftrightarrow>
     isValidV1InTheBoxSettings s \<and> n \<le> MAX_ALERTS \<and> (n = 0 \<or> alerts \<noteq> None)"

definition inherited :: "itb_settings \<Rightarrow> in_the_box \<Rightarrow> alert_data list \<Rightarrow> encounter list" where
  "inherited s ib rows =
     (let current = sort_encounters (known_rows s rows) in
      inherit_seen (ib_encounters ib) (match_all (ib_encounters ib) current) current)"

lemma itb_process_eq:
  "itb_process s alerts n laser ib =
     (if \<not> admissible_table s alerts n then (no_decision, ib)
      else
        (let rows = itb_rows alerts n;
             d = \<lparr>id_allOutsideMuteEligible = n \<noteq> 0 \<and> \<not> laser \<and>
                    (\<forall>a \<in> set rows. classify s a = ItbOutside \<and> itb_muteOutside (row_policy s a)),
                  id_anyInside = (\<exists>a \<in> set rows. classify s a = ItbInside),
                  id_anyInsideUnmuteEligible =
                    (\<exists>a \<in> set rows. classify s a = ItbInside \<and> itb_unmuteInside (row_policy s a)),
                  id_newInsideUnmute = False\<rparr> in
         if \<exists>a \<in> set rows. classify s a = ItbUnknown then (d, ib)
         else (d\<lparr>id_newInsideUnmute := list_ex (new_inside s) (inherited s ib rows)\<rparr>,
               ib\<lparr>ib_encounters := map (see_inside s) (inherited s ib rows)\<rparr>)))"
  by (cases alerts) (auto simp: itb_process_def admissible_table_def itb_rows_def scan_rows no_decision_def Let_def
      inherited_def known_rows_def)


section \<open>Inherited history\<close>

definition inherit_upto :: "encounter list \<Rightarrow> matching \<Rightarrow> nat \<Rightarrow> encounter list \<Rightarrow> encounter list" where
  "inherit_upto old m n current =
     fold (\<lambda>i current. case m ! i of None \<Rightarrow> current
        | Some row \<Rightarrow> current[row := (current ! row)\<lparr>en_insideSeen := en_insideSeen (old ! i)\<rparr>]) [0..<n] current"

lemma inherit_seen_upto: "inherit_seen old m current = inherit_upto old m (length old) current"
  by (simp add: inherit_seen_def inherit_upto_def)

lemma inherit_upto_length: "length (inherit_upto old m n current) = length current"
  by (induction n) (auto simp: inherit_upto_def split: option.split)

lemma inherit_upto_nth:
  assumes "\<forall>i j r. i < length old \<longrightarrow> j < length old \<longrightarrow> m ! i = Some r \<longrightarrow> m ! j = Some r \<longrightarrow> i = j"
    "r < length current" "n \<le> length old" "\<not> en_insideSeen (current ! r)"
  shows "inherit_upto old m n current ! r =
    (current ! r)\<lparr>en_insideSeen := (\<exists>i < n. m ! i = Some r \<and> en_insideSeen (old ! i))\<rparr>"
  using assms(3)
proof (induction n)
  case 0
  then show ?case using assms(4) by (simp add: inherit_upto_def)
next
  case (Suc n)
  let ?c = "inherit_upto old m n current"
  have IH: "?c ! r = (current ! r)\<lparr>en_insideSeen := (\<exists>i < n. m ! i = Some r \<and> en_insideSeen (old ! i))\<rparr>"
    using Suc by simp
  have len: "r < length ?c" using assms(2) by (simp add: inherit_upto_length)
  have step: "inherit_upto old m (Suc n) current = (case m ! n of None \<Rightarrow> ?c
      | Some row \<Rightarrow> ?c[row := (?c ! row)\<lparr>en_insideSeen := en_insideSeen (old ! n)\<rparr>])"
    by (simp add: inherit_upto_def split: option.split)
  show ?case
  proof (cases "m ! n = Some r")
    case True
    have "\<not> (\<exists>i < n. m ! i = Some r)"
    proof
      assume "\<exists>i < n. m ! i = Some r"
      then obtain i where "i < n" "m ! i = Some r" by blast
      with assms(1) [rule_format, of i n r] True Suc.prems show False by simp
    qed
    then have "(\<exists>i < Suc n. m ! i = Some r \<and> en_insideSeen (old ! i)) = en_insideSeen (old ! n)"
      using True by (auto simp: less_Suc_eq)
    with IH len True show ?thesis by (simp add: step)
  next
    case False
    then have "(\<exists>i < Suc n. m ! i = Some r \<and> en_insideSeen (old ! i)) = (\<exists>i < n. m ! i = Some r \<and> en_insideSeen (old ! i))"
      by (auto simp: less_Suc_eq)
    with IH False show ?thesis by (cases "m ! n") (auto simp: step)
  qed
qed

lemma match_all_one_place:
  assumes "length old \<le> MAX_ALERTS"
    "i < MAX_ALERTS" "j < MAX_ALERTS" "match_all old current ! i = Some r" "match_all old current ! j = Some r"
  shows "i = j"
proof -
  note c = match_all_certified [OF assms(1), of current]
  have "length (match_all old current) = MAX_ALERTS" using c by (simp add: certified_def allowed_def)
  with one_place [OF certified_distinct [OF c], of i j r] assms(2-5) show ?thesis by simp
qed

lemma inherited_nth:
  assumes "length (ib_encounters ib) \<le> MAX_ALERTS" "current = sort_encounters (known_rows s rows)" "r < length current"
  shows "inherited s ib rows ! r = (current ! r)\<lparr>en_insideSeen :=
      (\<exists>i < length (ib_encounters ib). match_all (ib_encounters ib) current ! i = Some r \<and>
         en_insideSeen (ib_encounters ib ! i))\<rparr>"
proof -
  have "current ! r \<in> set (known_rows s rows)"
    using assms(2,3) sort_encounters_spec(1) [of "known_rows s rows"] by (metis mset_eq_setD nth_mem)
  then have "\<not> en_insideSeen (current ! r)" by (auto simp: known_rows_def row_encounter_def)
  moreover have "\<forall>i j r. i < length (ib_encounters ib) \<longrightarrow> j < length (ib_encounters ib) \<longrightarrow>
      match_all (ib_encounters ib) current ! i = Some r \<longrightarrow> match_all (ib_encounters ib) current ! j = Some r \<longrightarrow> i = j"
    using match_all_one_place [OF assms(1)] assms(1) by (meson less_le_trans)
  ultimately show ?thesis
    using inherit_upto_nth [of "ib_encounters ib" "match_all (ib_encounters ib) current" r current "length (ib_encounters ib)"]
      assms(2,3)
    by (simp add: inherited_def inherit_seen_upto Let_def)
qed

lemma length_inherited: "length (inherited s ib rows) = length (known_rows s rows)"
  using sort_encounters_spec(1) [of "known_rows s rows"]
  by (simp add: inherited_def inherit_seen_upto inherit_upto_length Let_def) (metis size_mset)

lemma all_rows_matched:
  assumes "length old \<le> MAX_ALERTS" "assignment old current f" "dom f = {..<length current}" "r < length current"
  shows "\<exists>i < length old. match_all old current ! i = Some r"
proof -
  note c = match_all_certified [OF assms(1), of current]
  have "length current \<le> card (set_mset (takers (match_all old current)))"
    using matching_maximal [OF c assms(2,1)] takers_set(1) [OF c] assms(3) by simp
  moreover have "set_mset (takers (match_all old current)) \<subseteq> {..<length current}" by (rule takers_set(3) [OF c])
  ultimately have "set_mset (takers (match_all old current)) = {..<length current}"
    by (intro card_subset_eq) (auto dest: card_mono [rotated] intro: le_antisym)
  with assms(4) have "Some r \<in> set (match_all old current)" using in_takers by blast
  then obtain i where i: "i < length (match_all old current)" "match_all old current ! i = Some r"
    by (auto simp: in_set_conv_nth)
  with c have "may_take old (current ! r) i" by (auto simp: certified_def allowed_def)
  with i(2) show ?thesis by (auto simp: may_take_def)
qed


section \<open>Properties\<close>

text \<open>
  Claim C20. The matching of successive alert tables: no old encounter is given to two rows and
  no row takes two, a row takes only an encounter of its own band within 5 MHz, and no other
  one-to-one assignment pairs more rows. The augmenting paths of \<open>matchEncounter\<close> find a
  matching of the largest size.
\<close>

theorem encounter_matching_maximal:
  assumes "length old \<le> MAX_ALERTS"
  shows "length (match_all old current) = MAX_ALERTS \<and>
    (\<forall>i < MAX_ALERTS. \<forall>r. match_all old current ! i = Some r \<longrightarrow>
       r < length current \<and> may_take old (current ! r) i \<and>
       (\<forall>j < MAX_ALERTS. match_all old current ! j = Some r \<longrightarrow> j = i)) \<and>
    (\<forall>f. assignment old current f \<longrightarrow> card (dom f) \<le> matched_count (match_all old current))"
proof -
  note c = match_all_certified [OF assms, of current]
  then have "allowed old current (match_all old current)" by (simp add: certified_def)
  with match_all_one_place [OF assms] matching_maximal [OF c _ assms] show ?thesis
    by (simp add: allowed_def)
qed

definition ka_encounter :: "u32 \<Rightarrow> bool \<Rightarrow> encounter" where
  "ka_encounter mhz seen = \<lparr>en_frequencyMHz = mhz, en_band = 3, en_insideSeen = seen\<rparr>"

text \<open>Two old encounters at 34700 and 34704, two rows at 34697 and 34700: greedy nearest-first
  would give 34700 to the second row only after the first took it.\<close>

lemma encounter_matching_maximal_witness:
  "assignment [ka_encounter 34700 True, ka_encounter 34704 False] [ka_encounter 34697 False, ka_encounter 34700 False]
      [0 \<mapsto> 0, 1 \<mapsto> 1] \<and>
   card (dom [0::nat \<mapsto> 0, 1 \<mapsto> (1::nat)]) \<le> matched_count (match_all [ka_encounter 34700 True, ka_encounter 34704 False]
      [ka_encounter 34697 False, ka_encounter 34700 False])"
  (is "?a \<and> ?c")
proof -
  have l: "length [ka_encounter 34700 True, ka_encounter 34704 False] \<le> MAX_ALERTS" by (simp add: MAX_ALERTS_def)
  have "encounter_delta (ka_encounter 34700 True) (ka_encounter 34697 False) \<le> ENCOUNTER_TOLERANCE_MHZ"
    "encounter_delta (ka_encounter 34704 False) (ka_encounter 34700 False) \<le> ENCOUNTER_TOLERANCE_MHZ"
    by code_simp+
  then have a: ?a
    by (auto simp: assignment_def may_take_def ka_encounter_def inj_on_def split: if_splits)
  with encounter_matching_maximal [OF l, of "[ka_encounter 34697 False, ka_encounter 34700 False]"]
  show ?thesis by blast
qed

text \<open>
  Claim C27. The decision and the remembered encounters depend on the alert table only as a
  multiset: permuting the rows (another assignment of table indices, another priority order)
  changes nothing.
\<close>

theorem itb_row_order_irrelevant:
  assumes "mset (take n as) = mset (take n bs)"
  shows "itb_process s (Some as) n laser ib = itb_process s (Some bs) n laser ib"
proof -
  have set: "set (take n as) = set (take n bs)" using assms by (rule mset_eq_setD)
  have "mset (known_rows s (take n as)) = mset (known_rows s (take n bs))"
    using assms by (simp add: known_rows_def)
  then have "sort_encounters (known_rows s (take n as)) = sort_encounters (known_rows s (take n bs))"
    by (rule sort_encounters_cong) (auto simp: known_rows_def row_encounter_def)
  then have "inherited s ib (take n as) = inherited s ib (take n bs)" by (simp add: inherited_def)
  then show ?thesis unfolding itb_process_eq by (simp add: admissible_table_def itb_rows_def set Let_def)
qed

definition itb_alert :: "band \<Rightarrow> u32 \<Rightarrow> alert_data" where
  "itb_alert b mhz = default_alert\<lparr>ad_band := b, ad_frequency := mhz, ad_isValid := True\<rparr>"

lemma itb_row_order_irrelevant_witness:
  "itb_process default_itb_settings (Some [itb_alert BAND_K 24150, itb_alert BAND_KA 34700]) 2 False itb_reset =
   itb_process default_itb_settings (Some [itb_alert BAND_KA 34700, itb_alert BAND_K 24150]) 2 False itb_reset"
  by (rule itb_row_order_irrelevant) simp

text \<open>
  The outside mute is asked for exactly when the settings are valid, the table has
  between one and fifteen rows, no laser is active, and every row is known to lie outside the
  boxes of a band whose policy mutes outside alerts: one unknown or inside row forbids it.
\<close>

theorem itb_outside_mute:
  "id_allOutsideMuteEligible (fst (itb_process s alerts n laser ib)) \<longleftrightarrow>
     admissible_table s alerts n \<and> n \<noteq> 0 \<and> \<not> laser \<and>
     (\<forall>a \<in> set (itb_rows alerts n). classify s a = ItbOutside \<and> itb_muteOutside (row_policy s a))"
  by (auto simp: itb_process_eq Let_def no_decision_def)

definition muting_settings :: itb_settings where
  "muting_settings = default_itb_settings\<lparr>itb_bands := replicate 4 \<lparr>itb_muteOutside = True, itb_unmuteInside = False\<rparr>\<rparr>"

lemma itb_outside_mute_witness:
  "id_allOutsideMuteEligible (fst (itb_process muting_settings (Some [itb_alert BAND_K 23950]) 1 False itb_reset)) \<and>
    \<not> id_allOutsideMuteEligible (fst (itb_process muting_settings (Some [itb_alert BAND_K 24150]) 1 False itb_reset))"
  unfolding itb_outside_mute muting_settings_def by code_simp

text \<open>
  A table with an unknown row (or an inadmissible one) never asks for a new unmute
  and leaves the remembered encounters as they were.
\<close>

theorem itb_unknown_keeps_history:
  assumes "\<not> admissible_table s alerts n \<or> (\<exists>a \<in> set (itb_rows alerts n). classify s a = ItbUnknown)"
  shows "snd (itb_process s alerts n laser ib) = ib \<and>
    \<not> id_newInsideUnmute (fst (itb_process s alerts n laser ib))"
  using assms by (auto simp: itb_process_eq Let_def no_decision_def)

lemma itb_unknown_keeps_history_witness:
  "snd (itb_process default_itb_settings (Some [itb_alert BAND_LASER 0]) 1 False
     \<lparr>ib_encounters = [ka_encounter 34700 True]\<rparr>) = \<lparr>ib_encounters = [ka_encounter 34700 True]\<rparr>"
proof -
  have "\<exists>a \<in> set (itb_rows (Some [itb_alert BAND_LASER 0]) 1). classify default_itb_settings a = ItbUnknown"
    by code_simp
  then show ?thesis using itb_unknown_keeps_history by blast
qed

text \<open>
  An encounter unmutes once: when every remembered encounter was already seen inside
  and the rows can be assigned one to one to remembered encounters (drift of at most 5 MHz
  between tables), the table asks for no new unmute.
\<close>

theorem itb_no_second_unmute:
  assumes "length (ib_encounters ib) \<le> MAX_ALERTS" "\<forall>e \<in> set (ib_encounters ib). en_insideSeen e"
    "assignment (ib_encounters ib) (sort_encounters (known_rows s (itb_rows alerts n))) f"
    "dom f = {..<length (known_rows s (itb_rows alerts n))}"
  shows "\<not> id_newInsideUnmute (fst (itb_process s alerts n laser ib))"
proof -
  let ?rows = "itb_rows alerts n" and ?old = "ib_encounters ib"
  let ?current = "sort_encounters (known_rows s ?rows)"
  have len: "length ?current = length (known_rows s ?rows)"
    using sort_encounters_spec(1) [of "known_rows s ?rows"] by (metis size_mset)
  have "en_insideSeen e" if e_in: "e \<in> set (inherited s ib ?rows)" for e
  proof -
    obtain r where "r < length (inherited s ib ?rows)" and e: "inherited s ib ?rows ! r = e"
      using e_in unfolding in_set_conv_nth by blast
    then have r: "r < length ?current" "e = inherited s ib ?rows ! r" by (simp_all add: length_inherited len)
    obtain i where "i < length ?old" "match_all ?old ?current ! i = Some r"
      using all_rows_matched [OF assms(1,3) _ r(1)] assms(4) len by auto
    then have "\<exists>i < length ?old. match_all ?old ?current ! i = Some r \<and> en_insideSeen (?old ! i)"
      using assms(2) by auto
    with inherited_nth [OF assms(1) refl r(1)] r(2) show ?thesis by simp
  qed
  then have "\<not> list_ex (new_inside s) (inherited s ib ?rows)" by (auto simp: list_ex_iff new_inside_def)
  then show ?thesis by (simp add: itb_process_eq Let_def no_decision_def)
qed

definition unmuting_settings :: itb_settings where
  "unmuting_settings = default_itb_settings\<lparr>itb_bands := replicate 4 \<lparr>itb_muteOutside = False, itb_unmuteInside = True\<rparr>\<rparr>"

lemma itb_no_second_unmute_witness:
  "id_newInsideUnmute (fst (itb_process unmuting_settings (Some [itb_alert BAND_KA 34703]) 1 False itb_reset)) \<and>
    \<not> id_newInsideUnmute (fst (itb_process unmuting_settings (Some [itb_alert BAND_KA 34703]) 1 False
         \<lparr>ib_encounters = [ka_encounter 34700 True]\<rparr>))"
proof
  show "id_newInsideUnmute (fst (itb_process unmuting_settings (Some [itb_alert BAND_KA 34703]) 1 False itb_reset))"
    unfolding unmuting_settings_def by code_simp
  have k: "known_rows unmuting_settings (itb_rows (Some [itb_alert BAND_KA 34703]) 1) = [ka_encounter 34703 False]"
    unfolding unmuting_settings_def by code_simp
  have so: "sort_encounters [ka_encounter 34703 False] = [ka_encounter 34703 False]" by code_simp
  have "encounter_delta (ka_encounter 34700 True) (ka_encounter 34703 False) \<le> ENCOUNTER_TOLERANCE_MHZ" by code_simp
  then have a: "assignment [ka_encounter 34700 True] [ka_encounter 34703 False] [0 \<mapsto> 0]"
    by (auto simp: assignment_def may_take_def ka_encounter_def)
  show "\<not> id_newInsideUnmute (fst (itb_process unmuting_settings (Some [itb_alert BAND_KA 34703]) 1 False
         \<lparr>ib_encounters = [ka_encounter 34700 True]\<rparr>))"
    by (rule itb_no_second_unmute [where f = "[0 \<mapsto> 0]"])
      (use a in \<open>simp_all add: k so so [unfolded ka_encounter_def] MAX_ALERTS_def ka_encounter_def lessThan_Suc del: One_nat_def\<close>)
qed

end
