(* ===== verification/V1_Client_Link.thy ===== *)
theory V1_Client_Link
  imports V1_Command_State V1_Power_Policies
begin

text \<open>
  The session of the Bluetooth client with the detector (\<open>src/ble_connection.cpp\<close>,
  \<open>src/ble_subscription.cpp\<close>, \<open>src/ble_client.cpp\<close>): how a generation is opened, published,
  closed by a callback and quiesced by the main loop. The NimBLE stack is not in the repository:
  its answers (the link status, the handle, whether a disconnect request is accepted) are inputs
  or the field \<open>lk_linkUp\<close>, which only the stack's own event changes. The stores of one function
  are one step; where the code rechecks after a store, the events of the other tasks that may
  come in between are an argument.
\<close>

section \<open>State\<close>

datatype followup_step =
    FollowNone | FollowRequestAlertData | FollowWaitConnectBurstSettle | FollowRequestVersion
  | FollowWaitVersion | FollowRequestAllVolume | FollowRequestUserBytes | FollowWaitSettingsSnapshot
  | FollowRequestSweepSections | FollowRequestMaxSweepIndex | FollowRequestAllSweepDefinitions
  | FollowWaitSweepSnapshot | FollowNotifyStableCallback | FollowBackupBonds

datatype subscribe_step =
    SubGetService | SubGetDisplayChar | SubGetCommandChar | SubGetCommandLong | SubSubscribeDisplay
  | SubGetDisplayLong | SubSubscribeLong | SubRequestAlertData | SubRequestVersion | SubComplete

text \<open>
  What the stack's attribute cache says of a remote characteristic; a pointer to one is its
  record, and the cache is the list of services with their characteristics.
\<close>

type_synonym uuid = string

record remote_characteristic =
  ch_uuid :: uuid
  ch_handle :: nat
  ch_canWrite :: bool
  ch_canWriteNoResponse :: bool
  ch_canNotify :: bool
  ch_canIndicate :: bool

type_synonym remote_service = "uuid \<times> remote_characteristic list"

text \<open>
  The worker that runs discovery or a subscription write behind the running gate, with its
  copy of the context; the worker of a command is kept with the command channel.
\<close>

datatype attribute_worker =
    NoAttributeWorker
  | DiscoveryWorker u32
  | SubscriptionWorker remote_characteristic u32 bool
  | SubscribingWorker u32
  | RefusedWorker u32

text \<open>An address is an opaque number; \<open>lk_scanTarget\<close> is the one a scan callback published.\<close>

definition NO_HANDLE :: u16 where "NO_HANDLE = 0xFFFF"

record v1_link =
  lk_hasClient :: bool
  lk_linkUp :: bool
  lk_connected :: bool
  lk_state :: ble_state
  lk_stateEnteredMs :: u32
  lk_scanStopResultsCleared :: bool
  lk_scanStopRequestedMs :: u32
  lk_acceptCallbacks :: bool
  lk_gate :: publication_gate
  lk_generation :: u32
  lk_taskRunning :: bool
  lk_activeHandle :: u16
  lk_quiescingHandle :: u16
  lk_asyncConnectPending :: bool
  lk_asyncConnectSuccess :: bool
  lk_connectUpdate :: bool
  lk_connectUpdateGeneration :: u32
  lk_disconnectCallbackPending :: bool
  lk_disconnectReason :: int
  lk_disconnectCleanup :: bool
  lk_lastConnectionEventMs :: u32
  lk_connectInProgress :: bool
  lk_connectStartMs :: u32
  lk_connectAttempt :: u8
  lk_connectCompletedAtMs :: u32
  lk_firstRxAfterConnectMs :: u32
  lk_burstStableLoopCount :: u8
  lk_followupStep :: followup_step
  lk_followupNextAttemptMs :: u32
  lk_followupSendDeadlineMs :: u32
  lk_followupRetryUsed :: "u8 set"
  lk_timeSliceHoldoff :: bool
  lk_flow :: flow_control
  lk_verifyPushMatchEdge :: bool
  lk_hardReset :: bool
  lk_awaitingConnectCancel :: bool
  lk_quiesceStartedMs :: u32
  lk_quiesceLastRetryMs :: u32
  lk_closedSessions :: "u32 list"
  lk_openedSessions :: "u32 list"
  lk_shouldConnect :: bool
  lk_consecutiveConnectFailures :: u8
  lk_nextConnectAllowedMs :: u32
  lk_versionRequestStartedMs :: u32
  lk_taskDone :: bool
  lk_taskResult :: bool
  lk_taskCompletedGeneration :: u32
  lk_activeDiscoveryGeneration :: u32
  lk_attributeWorker :: attribute_worker
  lk_subscribeStep :: subscribe_step
  lk_subscribeYieldUntilMs :: u32
  lk_lastScanStart :: u32
  lk_firstScanAfterBoot :: bool
  lk_bootReady :: bool
  lk_scanEndUpdate :: bool
  lk_scanTarget :: "nat option"
  lk_targetAddress :: nat
  lk_service :: "remote_service option"
  lk_displayChar :: "remote_characteristic option"
  lk_notifyShort :: "remote_characteristic option"
  lk_notifyLong :: "remote_characteristic option"
  lk_commandChar :: "remote_characteristic option"
  lk_commandCharLong :: "remote_characteristic option"

definition new_link :: v1_link where
  "new_link = \<lparr>lk_hasClient = False, lk_linkUp = False, lk_connected = False, lk_state = BleDisconnected,
     lk_stateEnteredMs = 0, lk_scanStopResultsCleared = False, lk_scanStopRequestedMs = 0,
     lk_acceptCallbacks = False, lk_gate = gate_close, lk_generation = 0, lk_taskRunning = False,
     lk_activeHandle = NO_HANDLE, lk_quiescingHandle = NO_HANDLE, lk_asyncConnectPending = False,
     lk_asyncConnectSuccess = False, lk_connectUpdate = False, lk_connectUpdateGeneration = 0,
     lk_disconnectCallbackPending = False, lk_disconnectReason = 0, lk_disconnectCleanup = False,
     lk_lastConnectionEventMs = 0, lk_connectInProgress = False, lk_connectStartMs = 0,
     lk_connectAttempt = 0, lk_connectCompletedAtMs = 0, lk_firstRxAfterConnectMs = 0,
     lk_burstStableLoopCount = 0, lk_followupStep = FollowNone, lk_followupNextAttemptMs = 0,
     lk_followupSendDeadlineMs = 0, lk_followupRetryUsed = {}, lk_timeSliceHoldoff = True,
     lk_flow = fc_reset, lk_verifyPushMatchEdge = False, lk_hardReset = False,
     lk_awaitingConnectCancel = False, lk_quiesceStartedMs = 0, lk_quiesceLastRetryMs = 0,
     lk_closedSessions = [], lk_openedSessions = [], lk_shouldConnect = False,
     lk_consecutiveConnectFailures = 0, lk_nextConnectAllowedMs = 0, lk_versionRequestStartedMs = 0,
     lk_taskDone = False, lk_taskResult = False, lk_taskCompletedGeneration = 0,
     lk_activeDiscoveryGeneration = 0, lk_attributeWorker = NoAttributeWorker,
     lk_subscribeStep = SubGetService, lk_subscribeYieldUntilMs = 0, lk_lastScanStart = 0,
     lk_firstScanAfterBoot = True, lk_bootReady = False, lk_scanEndUpdate = False, lk_scanTarget = None, lk_targetAddress = 0, lk_service = None,
     lk_displayChar = None, lk_notifyShort = None, lk_notifyLong = None, lk_commandChar = None,
     lk_commandCharLong = None\<rparr>"

text \<open>
  \<open>lk_closedSessions\<close> and \<open>lk_openedSessions\<close> are the calls of the two session callbacks,
  newest first. What a function asks the stack (or the mutex and the task creation) for is an
  input:
\<close>

record stack_answers =
  sa_now :: u32
  sa_scanning :: bool
  sa_connHandle :: u16
  sa_disconnectAccepted :: bool
  sa_clientCreated :: bool
  sa_connectInitiated :: bool
  sa_lastError :: int
  sa_scanStarted :: bool
  sa_taskCreated :: bool
  sa_lockFree :: bool
  sa_services :: "remote_service list"

definition setBLEState :: "u32 \<Rightarrow> ble_state \<Rightarrow> 'a v1_link_scheme \<Rightarrow> 'a v1_link_scheme" where
  "setBLEState now newState l =
     (if lk_state l = newState then l
      else l\<lparr>lk_state := newState, lk_stateEnteredMs := now,
             lk_scanStopResultsCleared :=
               (if newState = BleScanStopping \<or> lk_state l = BleScanStopping then False
                else lk_scanStopResultsCleared l)\<rparr>)"

definition stack_connected :: "'a v1_link_scheme \<Rightarrow> bool" where
  "stack_connected l \<longleftrightarrow> lk_hasClient l \<and> lk_linkUp l"

definition isConnected :: "'a v1_link_scheme \<Rightarrow> bool" where
  "isConnected l \<longleftrightarrow> lk_connected l \<and> stack_connected l"

text \<open>The triple check of \<open>sessionStillAccepted\<close> and of the workers.\<close>

definition session_accepted :: "'a v1_link_scheme \<Rightarrow> u32 \<Rightarrow> bool" where
  "session_accepted l generation \<longleftrightarrow>
     lk_acceptCallbacks l \<and> lk_generation l = generation \<and> gate_accepts (lk_gate l) generation"

section \<open>Opening\<close>

definition connectToServer :: "stack_answers \<Rightarrow> 'a v1_link_scheme \<Rightarrow> bool \<times> 'a v1_link_scheme" where
  "connectToServer a l =
     (if lk_connectInProgress l then (False, l)
      else if lk_state l = BleQuiescing \<or> lk_taskRunning l then (False, l)
      else if sa_scanning a
      then (False, setBLEState (sa_now a) BleScanStopping (l\<lparr>lk_scanStopRequestedMs := sa_now a\<rparr>))
      else
        let nextGeneration = skip_zero (lk_generation l + 1) in
        (True, setBLEState (sa_now a) BleConnecting
           (l\<lparr>lk_generation := nextGeneration, lk_timeSliceHoldoff := True, lk_flow := fc_reset,
              lk_followupRetryUsed := {}, lk_connectUpdate := False, lk_connectUpdateGeneration := 0,
              lk_gate := gate_open nextGeneration, lk_acceptCallbacks := True,
              lk_connectInProgress := True, lk_connectStartMs := sa_now a, lk_connectAttempt := 0,
              lk_asyncConnectPending := False, lk_asyncConnectSuccess := False\<rparr>)))"

definition onConnect :: "stack_answers \<Rightarrow> 'a v1_link_scheme \<Rightarrow> 'a v1_link_scheme" where
  "onConnect a l =
     (let generation = lk_generation l in
      if \<not> lk_acceptCallbacks l \<or> \<not> gate_accepts (lk_gate l) generation
      then l\<lparr>lk_quiescingHandle := sa_connHandle a, lk_asyncConnectSuccess := False,
             lk_asyncConnectPending := False,
             lk_disconnectCallbackPending := sa_disconnectAccepted a\<rparr>
      else l\<lparr>lk_activeHandle := sa_connHandle a, lk_asyncConnectSuccess := True,
             lk_asyncConnectPending := False, lk_connectUpdateGeneration := generation,
             lk_connectUpdate := True\<rparr>)"

text \<open>
  The end of \<open>processSubscribing\<close> when the last subscription step is complete, without another
  task in between: the session is checked, published, claimed and checked again. The result
  says whether the immediate callback runs.
\<close>

definition CONNECTED_FOLLOWUP_SEND_TIMEOUT_MS :: u32 where
  "CONNECTED_FOLLOWUP_SEND_TIMEOUT_MS = 1500"

definition note_connected :: "u32 \<Rightarrow> 'a v1_link_scheme \<Rightarrow> 'a v1_link_scheme" where
  "note_connected now l =
     l\<lparr>lk_lastConnectionEventMs := now, lk_connectCompletedAtMs := now,
       lk_firstRxAfterConnectMs := 0, lk_burstStableLoopCount := 0, lk_followupNextAttemptMs := 0,
       lk_followupSendDeadlineMs := now + CONNECTED_FOLLOWUP_SEND_TIMEOUT_MS,
       lk_followupStep := FollowRequestAlertData, lk_connectInProgress := False,
       lk_connectStartMs := 0\<rparr>"

definition onConnectFail :: "'a v1_link_scheme \<Rightarrow> 'a v1_link_scheme" where
  "onConnectFail l = l\<lparr>lk_asyncConnectSuccess := False, lk_asyncConnectPending := False\<rparr>"

section \<open>Closing\<close>

definition beginClientQuiesce ::
    "stack_answers \<Rightarrow> bool \<Rightarrow> 'a v1_link_scheme \<Rightarrow> 'a v1_link_scheme" where
  "beginClientQuiesce a requestHardReset l =
     (let l = l\<lparr>lk_hardReset := lk_hardReset l \<or> requestHardReset\<rparr>;
          l = (if lk_state l = BleQuiescing then l
               else
                 let nextGeneration = skip_zero (lk_generation l + 1);
                     outgoingHandle = (if lk_activeHandle l = NO_HANDLE \<and> stack_connected l
                                       then sa_connHandle a else lk_activeHandle l)
                 in setBLEState (sa_now a) BleQuiescing
                      (l\<lparr>lk_acceptCallbacks := False, lk_gate := gate_close, lk_connected := False,
                         lk_generation := nextGeneration, lk_timeSliceHoldoff := True,
                         lk_flow := fc_reset, lk_followupRetryUsed := {},
                         lk_closedSessions := nextGeneration # lk_closedSessions l,
                         lk_connectInProgress := False, lk_connectStartMs := 0,
                         lk_followupStep := FollowNone, lk_quiesceStartedMs := sa_now a,
                         lk_quiesceLastRetryMs := sa_now a, lk_quiescingHandle := outgoingHandle\<rparr>));
          l = (if lk_hasClient l \<and> lk_asyncConnectPending l
               then l\<lparr>lk_awaitingConnectCancel := True\<rparr> else l)
      in if stack_connected l \<and> \<not> lk_disconnectCallbackPending l
         then l\<lparr>lk_disconnectCallbackPending := sa_disconnectAccepted a\<rparr> else l)"

text \<open>
  The disconnect callback of the stack: a callback whose handle is not the one this session
  (or the one being quiesced) knows is stale and changes nothing.
\<close>

definition disconnect_is_current :: "u16 \<Rightarrow> 'a v1_link_scheme \<Rightarrow> bool" where
  "disconnect_is_current callbackHandle l \<longleftrightarrow>
     (let expectedHandle = (if lk_acceptCallbacks l then lk_activeHandle l else lk_quiescingHandle l)
      in \<not> (expectedHandle \<noteq> NO_HANDLE \<and> callbackHandle \<noteq> expectedHandle))"

definition queue_teardown :: "u32 \<Rightarrow> int \<Rightarrow> 'a v1_link_scheme \<Rightarrow> 'a v1_link_scheme" where
  "queue_teardown now reason l =
     l\<lparr>lk_lastConnectionEventMs := now, lk_verifyPushMatchEdge := False,
       lk_acceptCallbacks := False, lk_gate := gate_close, lk_connected := False,
       lk_asyncConnectSuccess := False, lk_asyncConnectPending := False,
       lk_disconnectCallbackPending := False, lk_disconnectReason := reason,
       lk_disconnectCleanup := True\<rparr>"

definition retract_connected :: "stack_answers \<Rightarrow> 'a v1_link_scheme \<Rightarrow> 'a v1_link_scheme" where
  "retract_connected a l = beginClientQuiesce a False (l\<lparr>lk_connected := False\<rparr>)"

definition publishConnected ::
    "stack_answers \<Rightarrow> u32 \<Rightarrow> 'a v1_link_scheme \<Rightarrow> bool \<times> 'a v1_link_scheme" where
  "publishConnected a generation l =
     (if \<not> session_accepted l generation then (False, retract_connected a l)
      else
        let l = l\<lparr>lk_connected := True\<rparr>;
            (claimed, token) = gate_claim (lk_gate l) generation;
            l = l\<lparr>lk_gate := token\<rparr>
        in if \<not> claimed \<or> \<not> session_accepted l generation then (False, retract_connected a l)
        else
          let l = note_connected (sa_now a) l in
          if \<not> session_accepted l generation then (False, retract_connected a l)
          else let l = setBLEState (sa_now a) BleConnected l in (session_accepted l generation, l))"

definition onDisconnect :: "u32 \<Rightarrow> u16 \<Rightarrow> int \<Rightarrow> 'a v1_link_scheme \<Rightarrow> 'a v1_link_scheme" where
  "onDisconnect now callbackHandle reason l =
     (if \<not> disconnect_is_current callbackHandle l then l else queue_teardown now reason l)"

end
