(* ===== verification/V1_Client_Connect.thy ===== *)
theory V1_Client_Connect
  imports V1_Client_Link
begin

text \<open>
  The connection sequence of the Bluetooth client on the main loop: the asynchronous connect and
  its retries, discovery and the subscription steps (\<open>src/ble_connection.cpp\<close>,
  \<open>src/ble_subscription.cpp\<close>). The two attribute workers are events of their own.
\<close>

section \<open>Connecting\<close>

definition MAX_CONNECT_ATTEMPTS :: u8 where "MAX_CONNECT_ATTEMPTS = 5"
definition CONNECT_TIMEOUT_MS :: u32 where "CONNECT_TIMEOUT_MS = 3000"
definition DISCOVERY_TIMEOUT_MS :: u32 where "DISCOVERY_TIMEOUT_MS = 5000"
definition SUBSCRIBE_TIMEOUT_MS :: u32 where "SUBSCRIBE_TIMEOUT_MS = 3000"
definition SUBSCRIBE_YIELD_MS :: u32 where "SUBSCRIBE_YIELD_MS = 5"
definition V1_BLE_MAX_BACKOFF_FAILURES :: u8 where "V1_BLE_MAX_BACKOFF_FAILURES = 5"

definition hitsV1BleHardResetThreshold :: "u8 \<Rightarrow> bool" where
  "hitsV1BleHardResetThreshold failures \<longleftrightarrow> failures \<ge> V1_BLE_MAX_BACKOFF_FAILURES"

definition hardResetBLEClient :: "stack_answers \<Rightarrow> 'a v1_link_scheme \<Rightarrow> 'a v1_link_scheme" where
  "hardResetBLEClient a l = beginClientQuiesce a True l"

text \<open>The fields every failed attempt clears before its own exit.\<close>

definition drop_attempt :: "'a v1_link_scheme \<Rightarrow> 'a v1_link_scheme" where
  "drop_attempt l = l\<lparr>lk_connectInProgress := False, lk_connectStartMs := 0\<rparr>"

text \<open>A failed sequence is counted; at the threshold the client is reset instead of the exit.\<close>

definition after_failure ::
    "stack_answers \<Rightarrow> ('a v1_link_scheme \<Rightarrow> 'a v1_link_scheme) \<Rightarrow> 'a v1_link_scheme \<Rightarrow> 'a v1_link_scheme" where
  "after_failure a exit l =
     (let l = l\<lparr>lk_consecutiveConnectFailures := lk_consecutiveConnectFailures l + 1\<rparr>
      in if hitsV1BleHardResetThreshold (lk_consecutiveConnectFailures l) then hardResetBLEClient a l
         else exit (drop_attempt (l\<lparr>lk_nextConnectAllowedMs := 0\<rparr>)))"

definition startAsyncConnect :: "stack_answers \<Rightarrow> 'a v1_link_scheme \<Rightarrow> bool \<times> 'a v1_link_scheme" where
  "startAsyncConnect a l =
     (if lk_state l = BleQuiescing \<or> lk_taskRunning l then (False, l)
      else
        let l = l\<lparr>lk_connectAttempt := lk_connectAttempt l + 1\<rparr>
        in if \<not> lk_hasClient l \<and> \<not> sa_clientCreated a
           then (False, setBLEState (sa_now a) BleDisconnected (drop_attempt l))
        else
          let l = l\<lparr>lk_linkUp := stack_connected l, lk_hasClient := True\<rparr>
          in if stack_connected l
             then (False, beginClientQuiesce a False (drop_attempt (l\<lparr>lk_nextConnectAllowedMs := 0\<rparr>)))
          else
            let l = l\<lparr>lk_asyncConnectPending := True, lk_asyncConnectSuccess := False\<rparr>
            in if sa_connectInitiated a then (True, setBLEState (sa_now a) BleConnectingWait l)
            else
              let l = l\<lparr>lk_asyncConnectPending := False\<rparr>
              in if lk_connectAttempt l < MAX_CONNECT_ATTEMPTS then (True, l)
                 else (False, after_failure a (setBLEState (sa_now a) BleDisconnected) l))"

definition finishConnection :: "stack_answers \<Rightarrow> 'a v1_link_scheme \<Rightarrow> bool \<times> 'a v1_link_scheme" where
  "finishConnection a l =
     (if \<not> lk_acceptCallbacks l \<or> \<not> gate_accepts (lk_gate l) (lk_generation l) \<or> lk_taskRunning l
      then (False, beginClientQuiesce a False l)
      else (True, setBLEState (sa_now a) BleDiscovering
             (l\<lparr>lk_consecutiveConnectFailures := 0, lk_nextConnectAllowedMs := 0,
                lk_activeDiscoveryGeneration := lk_generation l, lk_taskDone := False,
                lk_taskResult := False, lk_taskCompletedGeneration := 0\<rparr>)))"

text \<open>Error 13 is the stack's "busy": the sequence is given up at once.\<close>

definition processConnectingWait :: "stack_answers \<Rightarrow> 'a v1_link_scheme \<Rightarrow> 'a v1_link_scheme" where
  "processConnectingWait a l =
     (let elapsed = elapsed_ms (sa_now a) (lk_connectStartMs l) in
      if lk_asyncConnectSuccess l then snd (finishConnection a l)
      else if lk_asyncConnectPending l
      then (if elapsed > CONNECT_TIMEOUT_MS then after_failure a (beginClientQuiesce a False) l else l)
      else if lk_connectAttempt l < MAX_CONNECT_ATTEMPTS
      then (if (if lk_hasClient l then sa_lastError a else -1) = 13
            then setBLEState (sa_now a) BleDisconnected (drop_attempt (l\<lparr>lk_nextConnectAllowedMs := 0\<rparr>))
            else setBLEState (sa_now a) BleConnecting (l\<lparr>lk_nextConnectAllowedMs := sa_now a + 20\<rparr>))
      else after_failure a (setBLEState (sa_now a) BleDisconnected) l)"

section \<open>Discovery\<close>

definition processDiscovering :: "stack_answers \<Rightarrow> 'a v1_link_scheme \<Rightarrow> 'a v1_link_scheme" where
  "processDiscovering a l =
     (let elapsed = elapsed_ms (sa_now a) (lk_connectStartMs l) in
      if elapsed > CONNECT_TIMEOUT_MS + DISCOVERY_TIMEOUT_MS
      then beginClientQuiesce a False (drop_attempt l)
      else if lk_taskRunning l then l
      else if \<not> lk_taskDone l
      then (if sa_taskCreated a
            then l\<lparr>lk_taskRunning := True,
                   lk_attributeWorker := DiscoveryWorker (lk_activeDiscoveryGeneration l)\<rparr>
            else after_failure a (beginClientQuiesce a False)
                   (l\<lparr>lk_taskResult := False, lk_taskDone := True, lk_taskRunning := False\<rparr>))
      else if lk_taskCompletedGeneration l \<noteq> lk_activeDiscoveryGeneration l \<or>
              lk_taskCompletedGeneration l \<noteq> lk_generation l
      then beginClientQuiesce a False l
      else if \<not> lk_taskResult l then beginClientQuiesce a False (drop_attempt l)
      else setBLEState (sa_now a) BleSubscribing
             (l\<lparr>lk_taskDone := False, lk_taskResult := False, lk_taskCompletedGeneration := 0,
                lk_subscribeStep := SubGetService\<rparr>))"

section \<open>The attribute workers\<close>

definition attribute_task_done :: "bool \<Rightarrow> u32 \<Rightarrow> 'a v1_link_scheme \<Rightarrow> 'a v1_link_scheme" where
  "attribute_task_done result generation l =
     l\<lparr>lk_taskResult := result, lk_taskCompletedGeneration := generation, lk_taskDone := True,
       lk_taskRunning := False, lk_attributeWorker := NoAttributeWorker\<rparr>"

text \<open>
  A step of the worker. The subscription worker first checks the session, then waits for the
  acknowledgement; \<open>ok\<close> is what the blocking call of the stack answers.
\<close>

definition attribute_worker_step :: "bool \<Rightarrow> 'a v1_link_scheme \<Rightarrow> 'a v1_link_scheme" where
  "attribute_worker_step ok l =
     (case lk_attributeWorker l of
        NoAttributeWorker \<Rightarrow> l
      | DiscoveryWorker g \<Rightarrow> attribute_task_done (lk_hasClient l \<and> ok) g l
      | SubscriptionWorker chr g notifications \<Rightarrow>
          l\<lparr>lk_attributeWorker := (if session_accepted l g then SubscribingWorker g else RefusedWorker g)\<rparr>
      | SubscribingWorker g \<Rightarrow> attribute_task_done ok g l
      | RefusedWorker g \<Rightarrow> attribute_task_done False g l)"

section \<open>Subscribing\<close>

datatype subscribe_result = SubInProgress | SubDone | SubFailed

definition processSubscriptionWrite ::
    "stack_answers \<Rightarrow> remote_characteristic \<Rightarrow> bool \<Rightarrow> 'a v1_link_scheme \<Rightarrow> subscribe_result \<times> 'a v1_link_scheme" where
  "processSubscriptionWrite a chr notifications l =
     (if lk_taskRunning l then (SubInProgress, l)
      else
        let generation = lk_activeDiscoveryGeneration l in
        if \<not> session_accepted l generation then (SubFailed, l)
        else if lk_taskDone l
        then (if lk_taskCompletedGeneration l = generation \<and> lk_taskResult l then SubDone else SubFailed,
              l\<lparr>lk_taskDone := False\<rparr>)
        else if sa_taskCreated a
        then (SubInProgress, l\<lparr>lk_taskRunning := True,
                lk_attributeWorker := SubscriptionWorker chr generation notifications\<rparr>)
        else (SubFailed, l))"

definition V1_SERVICE_UUID :: uuid where "V1_SERVICE_UUID = ''92A0AFF4-9E05-11E2-AA59-F23C91AEC05E''"
definition V1_DISPLAY_DATA_UUID :: uuid where "V1_DISPLAY_DATA_UUID = ''92A0B2CE-9E05-11E2-AA59-F23C91AEC05E''"
definition V1_DISPLAY_DATA_LONG_UUID :: uuid where
  "V1_DISPLAY_DATA_LONG_UUID = ''92A0B4E0-9E05-11E2-AA59-F23C91AEC05E''"
definition V1_COMMAND_WRITE_UUID :: uuid where "V1_COMMAND_WRITE_UUID = ''92A0B6D4-9E05-11E2-AA59-F23C91AEC05E''"
definition V1_COMMAND_WRITE_ALT_UUID :: uuid where
  "V1_COMMAND_WRITE_ALT_UUID = ''92A0BAD4-9E05-11E2-AA59-F23C91AEC05E''"
definition V1_COMMAND_WRITE_LONG_UUID :: uuid where
  "V1_COMMAND_WRITE_LONG_UUID = ''92A0B8D2-9E05-11E2-AA59-F23C91AEC05E''"

definition cachedService :: "bool \<Rightarrow> remote_service list \<Rightarrow> uuid \<Rightarrow> remote_service option" where
  "cachedService hasClient services u = (if hasClient then find (\<lambda>s. fst s = u) services else None)"

definition cachedCharacteristic :: "remote_service option \<Rightarrow> uuid \<Rightarrow> remote_characteristic option" where
  "cachedCharacteristic service u =
     (case service of None \<Rightarrow> None | Some s \<Rightarrow> find (\<lambda>c. ch_uuid c = u) (snd s))"

definition can_command :: "remote_characteristic \<Rightarrow> bool" where
  "can_command c \<longleftrightarrow> ch_canWrite c \<or> ch_canWriteNoResponse c"

definition pick_command_char :: "remote_service option \<Rightarrow> remote_characteristic option" where
  "pick_command_char service =
     (let primary = cachedCharacteristic service V1_COMMAND_WRITE_UUID;
          alt = cachedCharacteristic service V1_COMMAND_WRITE_ALT_UUID
      in case primary of
           Some c \<Rightarrow> if can_command c then Some c
                     else (case alt of Some d \<Rightarrow> if can_command d then Some d else None | None \<Rightarrow> None)
         | None \<Rightarrow> (case alt of Some d \<Rightarrow> if can_command d then Some d else None | None \<Rightarrow> None))"

text \<open>A subscription write and the step that follows its success.\<close>

definition subscribe_then ::
    "subscribe_step \<Rightarrow> subscribe_result \<times> 'a v1_link_scheme \<Rightarrow> subscribe_result \<times> 'a v1_link_scheme" where
  "subscribe_then after r =
     (case fst r of
        SubInProgress \<Rightarrow> r
      | SubFailed \<Rightarrow> r
      | SubDone \<Rightarrow> (SubInProgress, (snd r)\<lparr>lk_subscribeStep := after\<rparr>))"

fun executeSubscribeStep ::
    "stack_answers \<Rightarrow> subscribe_step \<Rightarrow> 'a v1_link_scheme \<Rightarrow> subscribe_result \<times> 'a v1_link_scheme" where
  "executeSubscribeStep a SubGetService l =
     (let s = cachedService (lk_hasClient l) (sa_services a) V1_SERVICE_UUID; l = l\<lparr>lk_service := s\<rparr>
      in if s = None then (SubFailed, l) else (SubInProgress, l\<lparr>lk_subscribeStep := SubGetDisplayChar\<rparr>))"
| "executeSubscribeStep a SubGetDisplayChar l =
     (let c = cachedCharacteristic (lk_service l) V1_DISPLAY_DATA_UUID; l = l\<lparr>lk_displayChar := c\<rparr>
      in if c = None then (SubFailed, l)
         else (SubInProgress, l\<lparr>lk_notifyShort := c, lk_subscribeStep := SubGetCommandChar\<rparr>))"
| "executeSubscribeStep a SubGetCommandChar l =
     (let c = pick_command_char (lk_service l); l = l\<lparr>lk_commandChar := c\<rparr>
      in if c = None then (SubFailed, l) else (SubInProgress, l\<lparr>lk_subscribeStep := SubGetCommandLong\<rparr>))"
| "executeSubscribeStep a SubGetCommandLong l =
     (SubInProgress, l\<lparr>lk_commandCharLong := cachedCharacteristic (lk_service l) V1_COMMAND_WRITE_LONG_UUID,
                       lk_subscribeStep := SubSubscribeDisplay\<rparr>)"
| "executeSubscribeStep a SubSubscribeDisplay l =
     (case lk_displayChar l of
        None \<Rightarrow> (SubFailed, l)
      | Some c \<Rightarrow>
          if ch_canNotify c \<or> ch_canIndicate c
          then subscribe_then SubGetDisplayLong (processSubscriptionWrite a c (ch_canNotify c) l)
          else (SubFailed, l))"
| "executeSubscribeStep a SubGetDisplayLong l =
     (let c = cachedCharacteristic (lk_service l) V1_DISPLAY_DATA_LONG_UUID
      in (SubInProgress, l\<lparr>lk_notifyLong := c,
            lk_subscribeStep := (if (case c of Some d \<Rightarrow> ch_canNotify d | None \<Rightarrow> False)
                                 then SubSubscribeLong else SubRequestAlertData)\<rparr>))"
| "executeSubscribeStep a SubSubscribeLong l =
     (case cachedCharacteristic (lk_service l) V1_DISPLAY_DATA_LONG_UUID of
        None \<Rightarrow> (SubFailed, l)
      | Some c \<Rightarrow> subscribe_then SubRequestAlertData (processSubscriptionWrite a c True l))"
| "executeSubscribeStep a SubRequestAlertData l = (SubInProgress, l\<lparr>lk_subscribeStep := SubRequestVersion\<rparr>)"
| "executeSubscribeStep a SubRequestVersion l = (SubDone, l\<lparr>lk_subscribeStep := SubComplete\<rparr>)"
| "executeSubscribeStep a SubComplete l = (SubDone, l)"

text \<open>The result says whether the immediate-connect callback runs.\<close>

definition processSubscribing :: "stack_answers \<Rightarrow> 'a v1_link_scheme \<Rightarrow> bool \<times> 'a v1_link_scheme" where
  "processSubscribing a l =
     (let elapsed = elapsed_ms (sa_now a) (lk_connectStartMs l);
          drop_request = (\<lambda>l. l\<lparr>lk_shouldConnect := False\<rparr>)
      in if elapsed > CONNECT_TIMEOUT_MS + DISCOVERY_TIMEOUT_MS + SUBSCRIBE_TIMEOUT_MS
      then (False, beginClientQuiesce a False (drop_attempt (drop_request l)))
      else
        let (r, l) = executeSubscribeStep a (lk_subscribeStep l) l
        in case r of
             SubFailed \<Rightarrow> (False, beginClientQuiesce a False (drop_attempt (drop_request l)))
           | SubDone \<Rightarrow> publishConnected a (lk_activeDiscoveryGeneration l) l
           | SubInProgress \<Rightarrow>
               (False, setBLEState (sa_now a) BleSubscribeYield
                  (l\<lparr>lk_subscribeYieldUntilMs := sa_now a + SUBSCRIBE_YIELD_MS\<rparr>)))"

text \<open>\<open>static_cast<int32_t>(now - until) >= 0\<close>.\<close>

definition reached :: "u32 \<Rightarrow> u32 \<Rightarrow> bool" where
  "reached now until \<longleftrightarrow> 0 \<le> sint (now - until)"

definition processSubscribeYield :: "stack_answers \<Rightarrow> 'a v1_link_scheme \<Rightarrow> 'a v1_link_scheme" where
  "processSubscribeYield a l =
     (if reached (sa_now a) (lk_subscribeYieldUntilMs l) then setBLEState (sa_now a) BleSubscribing l else l)"

end
