(* ===== verification/V1_Session_Publication.thy ===== *)
theory V1_Session_Publication
  imports V1_Client_Connect
begin

text \<open>
  The race between the main loop that publishes a connected session
  (\<open>processSubscribing\<close>, \<open>src/ble_subscription.cpp\<close>) and the stack's disconnect callback
  (\<open>ClientCallbacks::onDisconnect\<close>, \<open>src/ble_connection.cpp\<close>), at the grain of the single atomic
  loads and stores. Each side has a program counter; a configuration steps by a move of either.
\<close>

section \<open>The two programs\<close>

text \<open>The publisher: the check before the store, the claim, and the checks after it.\<close>

datatype publish_pc =
    LoadAccept nat | LoadGeneration nat | LoadGate nat | StoreConnected | Claim | Note
  | SetConnected | Retract | Published | Retired

definition after_check :: "nat \<Rightarrow> publish_pc" where
  "after_check n = (if n = 1 then StoreConnected else if n = 2 then Note else SetConnected)"

fun publish_move ::
    "stack_answers \<Rightarrow> u32 \<Rightarrow> publish_pc \<Rightarrow> 'a v1_link_scheme \<Rightarrow> publish_pc \<times> 'a v1_link_scheme" where
  "publish_move a g (LoadAccept n) l = (if lk_acceptCallbacks l then LoadGeneration n else Retract, l)"
| "publish_move a g (LoadGeneration n) l = (if lk_generation l = g then LoadGate n else Retract, l)"
| "publish_move a g (LoadGate n) l = (if gate_accepts (lk_gate l) g then after_check n else Retract, l)"
| "publish_move a g StoreConnected l = (Claim, l\<lparr>lk_connected := True\<rparr>)"
| "publish_move a g Claim l =
     (let (claimed, token) = gate_claim (lk_gate l) g
      in (if claimed then LoadAccept 2 else Retract, l\<lparr>lk_gate := token\<rparr>))"
| "publish_move a g Note l = (LoadAccept 3, note_connected (sa_now a) l)"
| "publish_move a g SetConnected l = (Published, setBLEState (sa_now a) BleConnected l)"
| "publish_move a g Retract l = (Retired, retract_connected a l)"
| "publish_move a g Published l = (Published, l)"
| "publish_move a g Retired l = (Retired, l)"

text \<open>The callback: its stores in the order the code has them.\<close>

datatype callback_pc = CbEnter | CbStoreAccept | CbCloseGate | CbStoreConnected | CbQueue | CbDone | CbStale

fun callback_move ::
    "u32 \<Rightarrow> u16 \<Rightarrow> int \<Rightarrow> callback_pc \<Rightarrow> 'a v1_link_scheme \<Rightarrow> callback_pc \<times> 'a v1_link_scheme" where
  "callback_move now h r CbEnter l =
     (if \<not> disconnect_is_current h l then (CbStale, l)
      else (CbStoreAccept, l\<lparr>lk_lastConnectionEventMs := now, lk_verifyPushMatchEdge := False\<rparr>))"
| "callback_move now h r CbStoreAccept l = (CbCloseGate, l\<lparr>lk_acceptCallbacks := False\<rparr>)"
| "callback_move now h r CbCloseGate l = (CbStoreConnected, l\<lparr>lk_gate := gate_close\<rparr>)"
| "callback_move now h r CbStoreConnected l = (CbQueue, l\<lparr>lk_connected := False\<rparr>)"
| "callback_move now h r CbQueue l =
     (CbDone, l\<lparr>lk_asyncConnectSuccess := False, lk_asyncConnectPending := False,
        lk_disconnectCallbackPending := False, lk_disconnectReason := r, lk_disconnectCleanup := True\<rparr>)"
| "callback_move now h r CbDone l = (CbDone, l)"
| "callback_move now h r CbStale l = (CbStale, l)"

section \<open>Each program alone\<close>

text \<open>Without interference the moves are the sequential functions.\<close>

fun publish_alone ::
    "stack_answers \<Rightarrow> u32 \<Rightarrow> nat \<Rightarrow> publish_pc \<times> 'a v1_link_scheme \<Rightarrow> publish_pc \<times> 'a v1_link_scheme" where
  "publish_alone a g 0 c = c"
| "publish_alone a g (Suc n) c = publish_alone a g n (publish_move a g (fst c) (snd c))"

fun callback_alone ::
    "u32 \<Rightarrow> u16 \<Rightarrow> int \<Rightarrow> nat \<Rightarrow> callback_pc \<times> 'a v1_link_scheme \<Rightarrow> callback_pc \<times> 'a v1_link_scheme" where
  "callback_alone now h r 0 c = c"
| "callback_alone now h r (Suc n) c = callback_alone now h r n (callback_move now h r (fst c) (snd c))"

lemma callback_alone_is_onDisconnect:
  "snd (callback_alone now h r 5 (CbEnter, l)) = onDisconnect now h r l"
  by (simp add: eval_nat_numeral onDisconnect_def queue_teardown_def)

lemma note_connected_same [simp]:
  "lk_acceptCallbacks (note_connected now l) = lk_acceptCallbacks l"
  "lk_generation (note_connected now l) = lk_generation l"
  "lk_gate (note_connected now l) = lk_gate l"
  "lk_connected (note_connected now l) = lk_connected l"
  "lk_disconnectCleanup (note_connected now l) = lk_disconnectCleanup l"
  by (simp_all add: note_connected_def)

lemma setBLEState_same [simp]:
  "lk_acceptCallbacks (setBLEState now s l) = lk_acceptCallbacks l"
  "lk_generation (setBLEState now s l) = lk_generation l"
  "lk_gate (setBLEState now s l) = lk_gate l"
  "lk_connected (setBLEState now s l) = lk_connected l"
  "lk_disconnectCleanup (setBLEState now s l) = lk_disconnectCleanup l"
  "lk_state (setBLEState now s l) = s"
  by (simp_all add: setBLEState_def)

lemma retract_moves:
  "publish_alone a g (Suc n) (Retract, l) = (Retired, retract_connected a l)"
proof -
  have "publish_alone a g n (Retired, x) = (Retired, x)" for x :: "'a v1_link_scheme"
    by (induction n) simp_all
  then show ?thesis by simp
qed

lemma publish_alone_accepted:
  assumes "session_accepted l g"
  shows "publish_alone a g 13 (LoadAccept 1, l) =
    (Published, setBLEState (sa_now a) BleConnected (note_connected (sa_now a) (l\<lparr>lk_connected := True\<rparr>)))"
proof -
  have "lk_acceptCallbacks l" "lk_generation l = g" "gate_accepts (lk_gate l) g"
    using assms by (simp_all add: session_accepted_def)
  then show ?thesis by (simp add: eval_nat_numeral after_check_def gate_claim_accepts)
qed

lemma publish_alone_refused:
  assumes "\<not> session_accepted l g"
  shows "publish_alone a g 13 (LoadAccept 1, l) = (Retired, retract_connected a l)"
proof -
  consider "\<not> lk_acceptCallbacks l" | "lk_acceptCallbacks l" "lk_generation l \<noteq> g"
    | "lk_acceptCallbacks l" "lk_generation l = g" "\<not> gate_accepts (lk_gate l) g"
    using assms by (auto simp: session_accepted_def)
  then show ?thesis by cases (simp_all add: eval_nat_numeral)
qed

lemma publishConnected_cases:
  "publishConnected a g l =
     (if session_accepted l g
      then (True, setBLEState (sa_now a) BleConnected (note_connected (sa_now a) (l\<lparr>lk_connected := True\<rparr>)))
      else (False, retract_connected a l))"
  by (simp add: publishConnected_def session_accepted_def gate_claim_accepts)

lemma publish_alone_is_publishConnected:
  "snd (publish_alone a g 13 (LoadAccept 1, l)) = snd (publishConnected a g l)"
  by (simp add: publishConnected_cases publish_alone_accepted publish_alone_refused del: One_nat_def)

section \<open>The race\<close>

record 'l race =
  rc_publisher :: publish_pc
  rc_callback :: callback_pc
  rc_link :: 'l

inductive race_step ::
    "stack_answers \<Rightarrow> u32 \<Rightarrow> u32 \<Rightarrow> u16 \<Rightarrow> int \<Rightarrow> v1_link race \<Rightarrow> v1_link race \<Rightarrow> bool"
  for a :: stack_answers and g now :: u32 and h :: u16 and r :: int where
  publisher: "publish_move a g (rc_publisher c) (rc_link c) = (pc, l) \<Longrightarrow>
    race_step a g now h r c (c\<lparr>rc_publisher := pc, rc_link := l\<rparr>)"
| callback: "callback_move now h r (rc_callback c) (rc_link c) = (pc, l) \<Longrightarrow>
    race_step a g now h r c (c\<lparr>rc_callback := pc, rc_link := l\<rparr>)"

inductive_cases race_stepE: "race_step a g now h r c d"

definition race_start :: "v1_link \<Rightarrow> v1_link race" where
  "race_start l = \<lparr>rc_publisher = LoadAccept 1, rc_callback = CbEnter, rc_link = l\<rparr>"

definition gate_was_closed :: "callback_pc \<Rightarrow> bool" where
  "gate_was_closed c \<longleftrightarrow> c \<in> {CbStoreConnected, CbQueue, CbDone}"

definition flag_was_cleared :: "callback_pc \<Rightarrow> bool" where
  "flag_was_cleared c \<longleftrightarrow> c \<in> {CbQueue, CbDone}"

text \<open>
  What every interleaving keeps: a gate the callback closed stays closed; after the callback
  cleared the flag only a publisher that has not yet claimed, or is about to retract, can have
  set it again; and a retired publisher left it clear.
\<close>

definition race_inv :: "v1_link race \<Rightarrow> bool" where
  "race_inv c \<longleftrightarrow>
     (gate_was_closed (rc_callback c) \<longrightarrow> lk_gate (rc_link c) = gate_close) \<and>
     (flag_was_cleared (rc_callback c) \<and> lk_connected (rc_link c) \<longrightarrow> rc_publisher c \<in> {Claim, Retract}) \<and>
     (rc_publisher c = Retired \<longrightarrow> \<not> lk_connected (rc_link c)) \<and>
     (rc_callback c = CbDone \<longrightarrow> lk_disconnectCleanup (rc_link c))"

lemma beginClientQuiesce_closed:
  assumes "lk_state l \<noteq> BleQuiescing"
  shows "lk_gate (beginClientQuiesce a hard l) = gate_close" "\<not> lk_connected (beginClientQuiesce a hard l)"
    "\<not> lk_acceptCallbacks (beginClientQuiesce a hard l)" "lk_state (beginClientQuiesce a hard l) = BleQuiescing"
    "lk_generation (beginClientQuiesce a hard l) = skip_zero (lk_generation l + 1)"
  using assms by (simp_all add: beginClientQuiesce_def Let_def)

lemma beginClientQuiesce_again:
  assumes "lk_state l = BleQuiescing"
  shows "lk_gate (beginClientQuiesce a hard l) = lk_gate l"
    "lk_connected (beginClientQuiesce a hard l) = lk_connected l"
    "lk_acceptCallbacks (beginClientQuiesce a hard l) = lk_acceptCallbacks l"
    "lk_state (beginClientQuiesce a hard l) = BleQuiescing"
    "lk_generation (beginClientQuiesce a hard l) = lk_generation l"
  using assms by (simp_all add: beginClientQuiesce_def Let_def)

lemma beginClientQuiesce_cleanup [simp]:
  "lk_disconnectCleanup (beginClientQuiesce a hard l) = lk_disconnectCleanup l"
  by (simp add: beginClientQuiesce_def Let_def)

lemma retract_same:
  "\<not> lk_connected (retract_connected a l)"
  "lk_gate (retract_connected a l) = (if lk_state l = BleQuiescing then lk_gate l else gate_close)"
  "lk_disconnectCleanup (retract_connected a l) = lk_disconnectCleanup l"
  by (cases "lk_state l = BleQuiescing";
      simp add: retract_connected_def beginClientQuiesce_again beginClientQuiesce_closed)+

lemma publish_move_inv:
  assumes "race_inv c" "publish_move a g (rc_publisher c) (rc_link c) = (pc, l)"
  shows "race_inv (c\<lparr>rc_publisher := pc, rc_link := l\<rparr>)"
  using assms
  by (cases "rc_publisher c")
    (auto simp: race_inv_def retract_same gate_claim_accepts after_check_def gate_was_closed_def
      flag_was_cleared_def split: if_splits)

lemma callback_move_inv:
  assumes "race_inv c" "callback_move now h r (rc_callback c) (rc_link c) = (pc, l)"
  shows "race_inv (c\<lparr>rc_callback := pc, rc_link := l\<rparr>)"
  using assms
  by (cases "rc_callback c")
    (auto simp: race_inv_def gate_was_closed_def flag_was_cleared_def split: if_splits)

lemma race_step_inv: "race_step a g now h r c d \<Longrightarrow> race_inv c \<Longrightarrow> race_inv d"
  by (erule race_stepE) (auto intro: publish_move_inv callback_move_inv)

lemma race_reachable_inv:
  assumes "(race_step a g now h r)\<^sup>*\<^sup>* c d" "race_inv c"
  shows "race_inv d"
  using assms by (induction rule: rtranclp_induct) (auto intro: race_step_inv)

text \<open>
  Claim C17. The publication gate linearizes: whatever the interleaving of the publisher's loads
  and stores with the disconnect callback's, once both have finished the connected flag is
  clear, the gate is closed and the main loop has a teardown to apply, even when the flag was
  published after the callback had cleared it.
\<close>

theorem publication_linearizes:
  assumes "(race_step a g now h r)\<^sup>*\<^sup>* (race_start l) c"
    and "rc_callback c = CbDone" "rc_publisher c \<in> {Published, Retired}"
  shows "\<not> lk_connected (rc_link c) \<and> lk_gate (rc_link c) = gate_close \<and> lk_disconnectCleanup (rc_link c)"
proof -
  have "race_inv (race_start l)" by (simp add: race_inv_def race_start_def gate_was_closed_def flag_was_cleared_def)
  with assms(1) have "race_inv c" by (rule race_reachable_inv)
  with assms(2,3) show ?thesis by (auto simp: race_inv_def gate_was_closed_def flag_was_cleared_def)
qed

text \<open>
  The witness runs the dangerous schedule: the publisher's first check passes, the whole
  callback runs, and only then the publisher stores the flag. It is set for two steps, the
  claim fails, and the publisher retracts.
\<close>

fun race_run ::
    "stack_answers \<Rightarrow> u32 \<Rightarrow> u32 \<Rightarrow> u16 \<Rightarrow> int \<Rightarrow> bool list \<Rightarrow> v1_link race \<Rightarrow> v1_link race" where
  "race_run a g now h r [] c = c"
| "race_run a g now h r (True # ms) c =
     (let (pc, l) = publish_move a g (rc_publisher c) (rc_link c)
      in race_run a g now h r ms (c\<lparr>rc_publisher := pc, rc_link := l\<rparr>))"
| "race_run a g now h r (False # ms) c =
     (let (pc, l) = callback_move now h r (rc_callback c) (rc_link c)
      in race_run a g now h r ms (c\<lparr>rc_callback := pc, rc_link := l\<rparr>))"

lemma race_run_reaches: "(race_step a g now h r)\<^sup>*\<^sup>* c (race_run a g now h r ms c)"
proof (induction ms arbitrary: c)
  case (Cons m ms)
  show ?case
  proof (cases m)
    case True
    obtain pc l where m: "publish_move a g (rc_publisher c) (rc_link c) = (pc, l)" by fastforce
    with Cons [of "c\<lparr>rc_publisher := pc, rc_link := l\<rparr>"] True show ?thesis
      by (auto intro: converse_rtranclp_into_rtranclp race_step.publisher [OF m])
  next
    case False
    obtain pc l where m: "callback_move now h r (rc_callback c) (rc_link c) = (pc, l)" by fastforce
    with Cons [of "c\<lparr>rc_callback := pc, rc_link := l\<rparr>"] False show ?thesis
      by (auto intro: converse_rtranclp_into_rtranclp race_step.callback [OF m])
  qed
qed simp

definition sample_answers :: stack_answers where
  "sample_answers = \<lparr>sa_now = 5000, sa_scanning = False, sa_connHandle = 7, sa_disconnectAccepted = True,
     sa_clientCreated = True, sa_connectInitiated = True, sa_lastError = 0, sa_scanStarted = True,
     sa_taskCreated = True, sa_lockFree = True, sa_services = []\<rparr>"

definition subscribing_link :: v1_link where
  "subscribing_link = new_link\<lparr>lk_hasClient := True, lk_linkUp := True, lk_state := BleSubscribing,
     lk_acceptCallbacks := True, lk_gate := gate_open 3, lk_generation := 3, lk_activeHandle := 7\<rparr>"

definition late_publication :: "bool list" where
  "late_publication = [True, True, True, False, False, False, False, False, True]"

lemma publication_linearizes_witness:
  "lk_connected (rc_link (race_run sample_answers 3 4990 7 19 late_publication (race_start subscribing_link))) \<and>
   \<not> lk_connected (rc_link (race_run sample_answers 3 4990 7 19 (late_publication @ [True, True])
      (race_start subscribing_link)))"
  (is "?set \<and> \<not> lk_connected (rc_link ?c)")
proof
  show ?set by code_simp
  have "rc_callback ?c = CbDone" "rc_publisher ?c = Retired" by code_simp+
  with publication_linearizes [OF race_run_reaches] show "\<not> lk_connected (rc_link ?c)" by blast
qed

end
