(* ===== verification/V1_Command_Channel.thy ===== *)
theory V1_Command_Channel
  imports V1_Session_Publication V1_Packet_Parser V1_Firmware_Compat
begin

text \<open>
  The command channel of the Bluetooth client (\<open>src/ble_commands.cpp\<close>, with the members it
  uses in \<open>src/ble_client.h\<close>): one write of a characteristic at a time, run by a worker task,
  harvested only by the owner that asked for it. The worker and the callbacks of the stack are
  events; \<open>sendCharacteristicCommand\<close> takes the events that come in between its own reads.
\<close>

section \<open>State\<close>

text \<open>The readback of detector settings that one session collects.\<close>

record session_capture =
  sc_hasUserBytes :: bool
  sc_userBytes :: "u8 list"
  sc_userBytesRevision :: u32
  sc_userBytesIngress :: u32
  sc_userBytesBoundary :: u32
  sc_userBytesArmed :: bool
  sc_expectsAllVolume :: bool
  sc_hasAllVolume :: bool
  sc_allVolumeBoundary :: u32
  sc_allVolumeArmed :: bool
  sc_expectsSweeps :: bool
  sc_hasSweepSections :: bool
  sc_hasSweepMax :: bool
  sc_hasSweepDefinitions :: bool
  sc_sectionsResetPending :: bool
  sc_maxResetPending :: bool
  sc_definitionsResetPending :: bool
  sc_sectionsBoundary :: u32
  sc_maxBoundary :: u32
  sc_definitionsBoundary :: u32
  sc_timedOut :: bool

definition new_capture :: session_capture where
  "new_capture = \<lparr>sc_hasUserBytes = False, sc_userBytes = replicate 6 0xFF, sc_userBytesRevision = 0,
     sc_userBytesIngress = 0, sc_userBytesBoundary = 0, sc_userBytesArmed = False,
     sc_expectsAllVolume = False, sc_hasAllVolume = False, sc_allVolumeBoundary = 0,
     sc_allVolumeArmed = False, sc_expectsSweeps = False, sc_hasSweepSections = False,
     sc_hasSweepMax = False, sc_hasSweepDefinitions = False, sc_sectionsResetPending = False,
     sc_maxResetPending = False, sc_definitionsResetPending = False, sc_sectionsBoundary = 0,
     sc_maxBoundary = 0, sc_definitionsBoundary = 0, sc_timedOut = False\<rparr>"

text \<open>
  The first \<open>length\<close> bytes of the buffer
  \<open>data[64]\<close> are the list \<open>cx_data\<close>.
\<close>

record command_context =
  cx_characteristic :: "remote_characteristic option"
  cx_generation :: u32
  cx_phoneGeneration :: u32
  cx_owner :: command_owner
  cx_alertInputRevision :: u32
  cx_requiresContinuousAlertInput :: bool
  cx_data :: "u8 list"
  cx_response :: bool

definition no_context :: command_context where
  "no_context = \<lparr>cx_characteristic = None, cx_generation = 0, cx_phoneGeneration = 0,
     cx_owner = OwnLegacy, cx_alertInputRevision = 0, cx_requiresContinuousAlertInput = False,
     cx_data = [], cx_response = True\<rparr>"

definition COMMAND_BUFFER :: nat where "COMMAND_BUFFER = 64"
definition COMMAND_WRITE_TIMEOUT_MS :: u32 where "COMMAND_WRITE_TIMEOUT_MS = 1000"

text \<open>
  Where the worker task stands; while it writes it holds its copy of the context. The other workers that share the running gate (discovery,
  subscription) are not commands: for them the phase is \<open>WorkerAbsent\<close>.
\<close>

datatype worker_phase = WorkerAbsent | WorkerCreated | WorkerWriting command_context | WorkerRefused

text \<open>A write the stack reported done, with the session it was made in: a history variable.\<close>

record wire_write =
  ww_characteristic :: nat
  ww_generation :: u32
  ww_data :: "u8 list"
  ww_response :: bool

record v1_client = v1_link +
  bc_phoneSession :: u32
  bc_proxyClientConnected :: bool
  bc_proxyDisconnectRequested :: bool
  bc_firmwareVersion :: u32
  bc_alertInput :: alert_input
  bc_notificationIngress :: u32
  bc_alertGate :: alert_gate
  bc_receipt :: volume_receipt
  bc_commandOwner :: command_owner
  bc_context :: command_context
  bc_active :: bool
  bc_startedMs :: u32
  bc_lastSentMs :: u32
  bc_rejectionIngress :: u32
  bc_workerStarted :: bool
  bc_workerIngress :: u32
  bc_workerResult :: bool
  bc_completedIngress :: "command_owner \<Rightarrow> u32"
  bc_capture :: session_capture
  bc_verifiedApplyGeneration :: u32
  bc_captureStartedMs :: u32
  bc_lastBondBackupCount :: u8
  bc_pendingBondBackup :: bool
  bc_pendingBondBackupCount :: u8
  bc_pendingBondBackupRetryAtMs :: u32
  bc_stableCalls :: nat
  bc_worker :: worker_phase
  bc_wire :: "wire_write list"

section \<open>Queries\<close>

definition acceptsPhoneSession :: "v1_client \<Rightarrow> u32 \<Rightarrow> bool" where
  "acceptsPhoneSession c generation \<longleftrightarrow> generation \<noteq> 0 \<and> bc_phoneSession c = generation"

definition commandInFlight :: "v1_client \<Rightarrow> command_owner \<Rightarrow> bool" where
  "commandInFlight c owner \<longleftrightarrow> bc_active c \<and> cx_owner (bc_context c) = owner"

definition commandIngressBoundary :: "v1_client \<Rightarrow> command_owner \<Rightarrow> u32" where
  "commandIngressBoundary c owner =
     (if commandInFlight c owner then (if bc_workerStarted c then bc_workerIngress c else 0)
      else bc_completedIngress c owner)"

text \<open>The request id of the outstanding command, when it has one.\<close>

definition outstanding_id :: "v1_client \<Rightarrow> u8 option" where
  "outstanding_id c =
     (if bc_active c \<and> 3 < length (cx_data (bc_context c)) then Some (cx_data (bc_context c) ! 3) else None)"

definition commandResponseBoundary :: "v1_client \<Rightarrow> u8 \<Rightarrow> u32 \<Rightarrow> u32" where
  "commandResponseBoundary c requestId fallback =
     (if outstanding_id c = Some requestId then (if bc_workerStarted c then bc_workerIngress c else 0)
      else fallback)"

definition commandResponseEligible :: "v1_client \<Rightarrow> u8 \<Rightarrow> u32 \<Rightarrow> u32 \<Rightarrow> bool" where
  "commandResponseEligible c requestId ingress fallback =
     (if outstanding_id c = Some requestId \<and> \<not> bc_workerStarted c then False
      else later_than ingress (commandResponseBoundary c requestId fallback))"

definition isV1RequestHeldOff :: "v1_client \<Rightarrow> u8 \<Rightarrow> u8 \<Rightarrow> bool \<Rightarrow> bool" where
  "isV1RequestHeldOff c destination requestId hasRequestId =
     (if destination AND 0x0F \<noteq> 0x0A then False
      else if lk_timeSliceHoldoff c then True
      else hasRequestId \<and> fc_holds (lk_flow c) requestId)"

definition isV1WriteHeldOff :: "v1_client \<Rightarrow> u8 list option \<Rightarrow> bool" where
  "isV1WriteHeldOff c data =
     (case data of None \<Rightarrow> False
      | Some d \<Rightarrow> if length d < 2 then False
          else isV1RequestHeldOff c (d ! 1) (if 3 < length d then d ! 3 else 0) (3 < length d))"

definition localV1WriteSuppressedByProxy :: "v1_client \<Rightarrow> bool" where
  "localV1WriteSuppressedByProxy c = (if \<not> bc_proxyClientConnected c then False else True)"

definition phoneOwnsStoppedAlertStream :: "v1_client \<Rightarrow> bool" where
  "phoneOwnsStoppedAlertStream c \<longleftrightarrow> bc_proxyClientConnected c \<and>
     stoppedByPhone (bc_alertGate c) (lk_generation c) (bc_phoneSession c)"

definition receivedAfterPhoneAlertStop :: "v1_client \<Rightarrow> u32 \<Rightarrow> bool" where
  "receivedAfterPhoneAlertStop c ingress \<longleftrightarrow> bc_proxyClientConnected c \<and>
     receivedAfterPhoneStop (bc_alertGate c) (lk_generation c) (bc_phoneSession c) ingress"

definition needsAlertDataStartRecovery :: "v1_client \<Rightarrow> bool" where
  "needsAlertDataStartRecovery c \<longleftrightarrow> \<not> phoneOwnsStoppedAlertStream c \<and> lk_state c = BleConnected \<and>
     lk_followupStep c = FollowNone \<and> \<not> ag_hasSent (bc_alertGate c) (lk_generation c)"

definition volumeWriteRejected :: "v1_client \<Rightarrow> u32 \<Rightarrow> bool" where
  "volumeWriteRejected c revision = receipt_rejected (bc_receipt c) revision (lk_generation c)"

section \<open>Notifications of the detector\<close>

definition onV1DisplayFlowControl :: "bool \<Rightarrow> v1_client \<Rightarrow> v1_client" where
  "onV1DisplayFlowControl holdoff c =
     c\<lparr>lk_timeSliceHoldoff := holdoff, lk_flow := onDisplay (lk_flow c)\<rparr>"

definition onV1Busy :: "u8 list option \<Rightarrow> v1_client \<Rightarrow> v1_client" where
  "onV1Busy packetIds c = c\<lparr>lk_flow := onBusy packetIds (lk_flow c)\<rparr>"

definition onV1RequestNotProcessed :: "u8 \<Rightarrow> u32 \<Rightarrow> v1_client \<Rightarrow> v1_client" where
  "onV1RequestNotProcessed packetId ingress c =
     (let c = c\<lparr>lk_flow := onRequestNotProcessed packetId (lk_flow c)\<rparr>;
          c = (if packetId = 0x41
               then c\<lparr>bc_alertGate := ag_invalidate (lk_generation c) (bc_alertGate c)\<rparr> else c)
      in if outstanding_id c = Some packetId \<and> bc_workerStarted c \<and> ingress \<noteq> 0 \<and>
            later_than ingress (bc_workerIngress c)
         then c\<lparr>bc_rejectionIngress := ingress\<rparr>
         else c\<lparr>bc_receipt := receipt_reject packetId (lk_generation c) ingress (bc_receipt c)\<rparr>)"

definition onV1FirmwareVersionReceived :: "u32 \<Rightarrow> v1_client \<Rightarrow> v1_client" where
  "onV1FirmwareVersionReceived version c = (if version \<noteq> 0 then c\<lparr>bc_firmwareVersion := version\<rparr> else c)"

definition clearVerifiedSettingsApplyEdge :: "v1_client \<Rightarrow> v1_client" where
  "clearVerifiedSettingsApplyEdge c = c\<lparr>lk_verifyPushMatchEdge := False\<rparr>"

definition publishVerifiedSettingsApplyEdge :: "u32 \<Rightarrow> v1_client \<Rightarrow> v1_client" where
  "publishVerifiedSettingsApplyEdge generation c =
     c\<lparr>bc_verifiedApplyGeneration := generation, lk_verifyPushMatchEdge := True\<rparr>"

definition consumeVerifyPushMatchEdge :: "v1_client \<Rightarrow> bool \<times> v1_client" where
  "consumeVerifyPushMatchEdge c =
     (let pending = lk_verifyPushMatchEdge c; c = c\<lparr>lk_verifyPushMatchEdge := False\<rparr>
      in if \<not> pending then (False, c) else (bc_verifiedApplyGeneration c = lk_generation c, c))"

section \<open>The other tasks\<close>

datatype async_event =
    AsNotification | AsLoss u32 u32 | AsPhoneSession u32 | AsLink bool
  | AsConnect stack_answers | AsConnectFail | AsDisconnect u32 u16 int
  | AsWorkerStart | AsWorkerFinish bool | AsAttributeWorker bool | AsScanEnd | AsScanTarget nat

definition command_accepted :: "v1_client \<Rightarrow> bool" where
  "command_accepted c \<longleftrightarrow> (let x = bc_context c in
     lk_acceptCallbacks c \<and> lk_generation c = cx_generation x \<and> gate_accepts (lk_gate c) (cx_generation x) \<and>
     (cx_phoneGeneration x = 0 \<or> acceptsPhoneSession c (cx_phoneGeneration x)))"

text \<open>
  \<open>commandTaskFunc\<close> in its two steps: the checks up to the call of \<open>writeValue\<close>, and its
  return, after which the result is stored and the gate released.
\<close>

definition worker_start :: "v1_client \<Rightarrow> v1_client" where
  "worker_start c =
     (let x = bc_context c in
      if command_accepted c \<and> cx_characteristic x \<noteq> None \<and>
         (\<not> cx_requiresContinuousAlertInput x \<or> permitsInTheBoxMute (bc_alertInput c) (cx_alertInputRevision x))
      then c\<lparr>bc_workerIngress := bc_notificationIngress c, bc_workerStarted := True, 
             bc_worker := WorkerWriting x\<rparr>
      else c\<lparr>bc_worker := WorkerRefused\<rparr>)"

definition worker_finish :: "bool \<Rightarrow> v1_client \<Rightarrow> v1_client" where
  "worker_finish ok c =
     c\<lparr>bc_workerResult := ok, lk_taskRunning := False, bc_worker := WorkerAbsent\<rparr>"

definition written :: "command_context \<Rightarrow> wire_write" where
  "written x =
     \<lparr>ww_characteristic = (case cx_characteristic x of None \<Rightarrow> 0 | Some h \<Rightarrow> ch_handle h),
      ww_generation = cx_generation x, ww_data = cx_data x, ww_response = cx_response x\<rparr>"

definition commandTaskFunc :: "bool \<Rightarrow> v1_client \<Rightarrow> v1_client" where
  "commandTaskFunc ok c =
     (case bc_worker c of
        WorkerWriting x \<Rightarrow> worker_finish ok (if ok then c\<lparr>bc_wire := written x # bc_wire c\<rparr> else c)
      | WorkerRefused \<Rightarrow> worker_finish False c
      | _ \<Rightarrow> c)"

fun async_step :: "v1_client \<Rightarrow> async_event \<Rightarrow> v1_client" where
  "async_step c AsNotification = c\<lparr>bc_notificationIngress := noteV1NotificationIngress (bc_notificationIngress c)\<rparr>"
| "async_step c (AsLoss g x) = c\<lparr>bc_alertInput := noteV1NotificationLoss g x (bc_alertInput c)\<rparr>"
| "async_step c (AsPhoneSession g) = c\<lparr>bc_phoneSession := g\<rparr>"
| "async_step c (AsLink up) = c\<lparr>lk_linkUp := up\<rparr>"
| "async_step c (AsConnect a) = onConnect a c"
| "async_step c AsConnectFail = onConnectFail c"
| "async_step c (AsDisconnect now h r) = onDisconnect now h r c"
| "async_step c AsWorkerStart = (if bc_worker c = WorkerCreated then worker_start c else c)"
| "async_step c (AsWorkerFinish ok) = commandTaskFunc ok c"
| "async_step c (AsAttributeWorker ok) = attribute_worker_step ok c"
| "async_step c AsScanEnd = c\<lparr>lk_scanEndUpdate := True\<rparr>"
| "async_step c (AsScanTarget address) = c\<lparr>lk_scanTarget := Some address\<rparr>"

abbreviation async_run :: "v1_client \<Rightarrow> async_event list \<Rightarrow> v1_client" where
  "async_run \<equiv> foldl async_step"

end
