(* ===== verification/V1_Command_Send.thy ===== *)
theory V1_Command_Send
  imports V1_Command_Channel
begin

text \<open>
  The main-loop side of the command channel (\<open>src/ble_commands.cpp\<close>): admitting a write,
  serving the outstanding one, harvesting its completion, and the cleanup that ends a quiesce
  (\<open>src/ble_connection.cpp\<close>). Within one call every \<open>millis()\<close> reads the same value.
\<close>

section \<open>Serving the outstanding command\<close>

definition cancelCommand :: "stack_answers \<Rightarrow> command_owner \<Rightarrow> v1_client \<Rightarrow> v1_client" where
  "cancelCommand a owner c =
     (if commandInFlight c owner \<and> lk_state c \<noteq> BleQuiescing then beginClientQuiesce a False c else c)"

definition serviceCommandWrite :: "stack_answers \<Rightarrow> v1_client \<Rightarrow> v1_client" where
  "serviceCommandWrite a c =
     (if \<not> bc_active c \<or> lk_state c = BleQuiescing then c
      else
        let x = bc_context c;
            stale = (\<not> gate_accepts (lk_gate c) (cx_generation x) \<or>
                     (cx_phoneGeneration x \<noteq> 0 \<and> \<not> acceptsPhoneSession c (cx_phoneGeneration x)));
            running = lk_taskRunning c;
            timedOut = (elapsed_ms (sa_now a) (bc_startedMs c) \<ge> COMMAND_WRITE_TIMEOUT_MS)
        in if stale \<or> timedOut \<or> (\<not> running \<and> \<not> bc_workerResult c)
           then beginClientQuiesce a False c else c)"

definition promoteCommandCaptureBoundary :: "u8 \<Rightarrow> u32 \<Rightarrow> session_capture \<Rightarrow> session_capture" where
  "promoteCommandCaptureBoundary requestId boundary s =
     (if requestId = 0x11 then s\<lparr>sc_userBytesBoundary := boundary\<rparr>
      else if requestId = PACKET_ID_REQ_ALL_VOLUME then s\<lparr>sc_allVolumeBoundary := boundary\<rparr>
      else if requestId = PACKET_ID_REQ_SWEEP_SECTIONS then s\<lparr>sc_sectionsBoundary := boundary\<rparr>
      else if requestId = PACKET_ID_REQ_MAX_SWEEP_INDEX then s\<lparr>sc_maxBoundary := boundary\<rparr>
      else if requestId = PACKET_ID_REQ_ALL_SWEEP_DEFINITIONS then s\<lparr>sc_definitionsBoundary := boundary\<rparr>
      else s)"

text \<open>The frame check before a command's success is booked: header, length byte, end and sum.\<close>

definition canonical_command :: "u8 list \<Rightarrow> bool" where
  "canonical_command d \<longleftrightarrow>
     length d \<ge> 7 \<and> d ! 0 = ESP_PACKET_START \<and> d ! 1 = 0xDA \<and> d ! 2 = 0xE6 \<and>
     unat (d ! 4) + 6 = length d \<and> d ! (length d - 1) = ESP_PACKET_END \<and>
     d ! (length d - 2) = checksum8 (take (length d - 2) d)"

definition publishCommandSuccess ::
    "u32 \<Rightarrow> u8 list \<Rightarrow> u32 \<Rightarrow> u32 \<Rightarrow> u32 \<Rightarrow> v1_client \<Rightarrow> v1_client" where
  "publishCommandSuccess now d sentSession ingressBoundary rejectedIngress c =
     (let canonical = canonical_command d;
          c = (if canonical \<and> length d = 7
               then if d ! 3 = 0x42 then c\<lparr>bc_alertGate := recordStop sentSession 0 0 (bc_alertGate c)\<rparr>
                    else if d ! 3 = 0x41 \<and> rejectedIngress = 0
                    then c\<lparr>bc_alertGate := recordSuccessfulSend sentSession now (bc_alertGate c)\<rparr>
                    else c
               else c)
      in if canonical \<and> length d = 10 \<and> d ! 3 = PACKET_ID_REQ_WRITE_VOLUME
         then
           let r = receipt_sent sentSession ingressBoundary (bc_receipt c)
           in c\<lparr>bc_receipt := (if rejectedIngress \<noteq> 0
                               then receipt_reject (d ! 3) sentSession rejectedIngress r else r)\<rparr>
         else c)"

section \<open>Sending\<close>

text \<open>
  What a send asks of its surroundings: the stack's answers, the MTU, the result of a
  synchronous write, whether the task could be created, and the events of the other tasks
  after the service call, between the two reads of the alert input and during a synchronous
  write.
\<close>

record send_environment =
  se_answers :: stack_answers
  se_mtu :: u16
  se_writeOk :: bool
  se_taskCreated :: bool
  se_afterService :: "async_event list"
  se_beforeWrite :: "async_event list"
  se_duringWrite :: "async_event list"

text \<open>The outstanding command meets another request.\<close>

definition harvest ::
    "send_environment \<Rightarrow> remote_characteristic \<Rightarrow> u8 list \<Rightarrow> bool \<Rightarrow> u32 \<Rightarrow> v1_client \<Rightarrow> send_result \<times> v1_client" where
  "harvest e chr d response phone c =
     (let x = bc_context c in
      if cx_owner x \<noteq> bc_commandOwner c then (SendNotYet, c)
      else if cx_characteristic x \<noteq> Some chr \<or> length (cx_data x) \<noteq> length d \<or>
              cx_response x \<noteq> response \<or> cx_phoneGeneration x \<noteq> phone \<or> cx_data x \<noteq> d
      then (SendFailed, cancelCommand (se_answers e) (bc_commandOwner c) c)
      else if lk_taskRunning c then (SendInFlight, c)
      else
        let boundary = bc_workerIngress c;
            c = c\<lparr>bc_completedIngress := (bc_completedIngress c)(bc_commandOwner c := boundary)\<rparr>;
            c = (if 3 < length d
                 then c\<lparr>bc_capture := promoteCommandCaptureBoundary (d ! 3) boundary (bc_capture c)\<rparr> else c);
            c = publishCommandSuccess (sa_now (se_answers e)) d (cx_generation x) boundary
                  (bc_rejectionIngress c) c
        in (SendSent, c\<lparr>bc_active := False\<rparr>))"

definition att_payload :: "u16 \<Rightarrow> nat" where
  "att_payload mtu = (if mtu \<ge> 3 then unat mtu - 3 else 0)"

text \<open>One ATT write command without response, on the shared loop.\<close>

definition write_now ::
    "send_environment \<Rightarrow> remote_characteristic \<Rightarrow> u8 list \<Rightarrow> bool \<Rightarrow> u32 \<Rightarrow> u32 \<Rightarrow> v1_client \<Rightarrow> send_result \<times> v1_client" where
  "write_now e chr d guarded revision generation c =
     (let boundary = bc_notificationIngress c;
          c = async_run c (se_beforeWrite e)
      in if guarded \<and> \<not> permitsInTheBoxMute (bc_alertInput c) revision then (SendNotYet, c)
      else if \<not> se_writeOk e then (SendNotYet, async_run c (se_duringWrite e))
      else
        let c = c\<lparr>bc_wire := \<lparr>ww_characteristic = ch_handle chr, ww_generation = generation, ww_data = d,
                              ww_response = False\<rparr> # bc_wire c\<rparr>;
            c = async_run c (se_duringWrite e)
        in if \<not> gate_accepts (lk_gate c) generation then (SendFailed, c)
           else
             let c = c\<lparr>bc_completedIngress := (bc_completedIngress c)(bc_commandOwner c := boundary)\<rparr>
             in (SendSent, publishCommandSuccess (sa_now (se_answers e)) d generation boundary 0 c))"

text \<open>Everything else is handed to a worker task.\<close>

definition start_worker ::
    "send_environment \<Rightarrow> remote_characteristic \<Rightarrow> u8 list \<Rightarrow> bool \<Rightarrow> u32 \<Rightarrow> bool \<Rightarrow> u32 \<Rightarrow> u32 \<Rightarrow> v1_client \<Rightarrow>
      send_result \<times> v1_client" where
  "start_worker e chr d response phone guarded revision generation c =
     (let c = c\<lparr>bc_context := \<lparr>cx_characteristic = Some chr, cx_generation = generation,
                 cx_phoneGeneration = phone, cx_owner = bc_commandOwner c,
                 cx_alertInputRevision = revision, cx_requiresContinuousAlertInput = guarded,
                 cx_data = d, cx_response = response\<rparr>,
               bc_startedMs := sa_now (se_answers e), bc_rejectionIngress := 0,
               bc_workerStarted := False, bc_workerResult := False, bc_active := True,
               lk_taskRunning := True\<rparr>
      in if \<not> se_taskCreated e
         then (SendFailed, c\<lparr>lk_taskRunning := False, bc_active := False\<rparr>)
         else (SendInFlight, c\<lparr>bc_worker := WorkerCreated\<rparr>))"

definition admit ::
    "send_environment \<Rightarrow> remote_characteristic \<Rightarrow> u8 list \<Rightarrow> bool \<Rightarrow> u32 \<Rightarrow> v1_client \<Rightarrow> send_result \<times> v1_client" where
  "admit e chr d response phone c =
     (if lk_taskRunning c then (SendNotYet, c)
      else
        let guarded = (bc_commandOwner c = OwnInTheBox \<and> 3 < length d \<and> d ! 3 = PACKET_ID_MUTE_ON);
            (continuous, sampled) = hasContinuousV1AlertInput (bc_alertInput c);
            revision = (if guarded then sampled else 0)
        in if guarded \<and> \<not> continuous then (SendNotYet, c)
        else
          let now = sa_now (se_answers e);
              paced = (lk_commandCharLong c \<noteq> Some chr)
          in if paced \<and> bc_lastSentMs c \<noteq> 0 \<and> elapsed_ms now (bc_lastSentMs c) < 5 then (SendNotYet, c)
          else
            let c = (if paced then c\<lparr>bc_lastSentMs := now\<rparr> else c);
                generation = lk_generation c;
                mtu = (if lk_hasClient c then se_mtu e else 23)
            in if \<not> response \<and> length d \<le> att_payload mtu
               then write_now e chr d guarded revision generation c
               else start_worker e chr d response phone guarded revision generation c)"

definition sendCharacteristicCommand ::
    "send_environment \<Rightarrow> remote_characteristic option \<Rightarrow> u8 list option \<Rightarrow> bool \<Rightarrow> u32 \<Rightarrow> v1_client \<Rightarrow>
      send_result \<times> v1_client" where
  "sendCharacteristicCommand e characteristic data response phone c =
     (case data of None \<Rightarrow> (SendFailed, c)
      | Some d \<Rightarrow>
          if length d = 0 \<or> length d > COMMAND_BUFFER then (SendFailed, c)
          else
            let c = async_run (serviceCommandWrite (se_answers e) c) (se_afterService e)
            in case characteristic of None \<Rightarrow> (SendFailed, c)
               | Some chr \<Rightarrow>
                   if \<not> isConnected c \<or> lk_state c = BleQuiescing then (SendFailed, c)
                   else if bc_active c then harvest e chr d response phone c
                   else admit e chr d response phone c)"

text \<open>The short channel.\<close>

definition sendCommandWithResult ::
    "send_environment \<Rightarrow> u8 list option \<Rightarrow> v1_client \<Rightarrow> send_result \<times> v1_client" where
  "sendCommandWithResult e data c =
     (case lk_commandChar c of None \<Rightarrow> (SendFailed, c)
      | Some chr \<Rightarrow>
          if \<not> ch_canWrite chr \<and> \<not> ch_canWriteNoResponse chr then (SendFailed, c)
          else if \<not> commandInFlight c (bc_commandOwner c) \<and> isV1WriteHeldOff c data then (SendNotYet, c)
          else sendCharacteristicCommand e (Some chr) data (ch_canWrite chr) 0 c)"

definition sendCommand ::
    "send_environment \<Rightarrow> u8 list option \<Rightarrow> v1_client \<Rightarrow> bool \<times> v1_client" where
  "sendCommand e data c =
     (let (r, c) = sendCommandWithResult e data c in (r = SendSent, c))"

text \<open>\<open>CommandScope\<close>: the owner of the calls made inside, restored by the destructor.\<close>

definition command_scope ::
    "command_owner \<Rightarrow> (v1_client \<Rightarrow> 'r \<times> v1_client) \<Rightarrow> v1_client \<Rightarrow> 'r \<times> v1_client" where
  "command_scope owner body c =
     (let (r, c') = body (c\<lparr>bc_commandOwner := owner\<rparr>) in (r, c'\<lparr>bc_commandOwner := bc_commandOwner c\<rparr>))"

section \<open>The end of a quiesce\<close>

text \<open>The connect request is dropped only when its mutex could be taken.\<close>

definition cleanupConnection :: "stack_answers \<Rightarrow> v1_client \<Rightarrow> v1_client" where
  "cleanupConnection a c =
     c\<lparr>bc_active := False, bc_context := no_context, bc_completedIngress := (\<lambda>_. 0),
       bc_lastSentMs := 0, lk_displayChar := None, lk_commandChar := None, lk_commandCharLong := None,
       lk_service := None, lk_notifyShort := None, lk_notifyLong := None,
       lk_scanStopResultsCleared := False, lk_connected := False, lk_timeSliceHoldoff := True,
       lk_flow := fc_reset, lk_followupRetryUsed := {},
       lk_shouldConnect := (if sa_lockFree a then False else lk_shouldConnect c), lk_connectInProgress := False,
       lk_followupStep := FollowNone, bc_firmwareVersion := 0, lk_versionRequestStartedMs := 0\<rparr>"

definition quiesce_view :: "v1_client \<Rightarrow> quiesce" where
  "quiesce_view c = \<lparr>qz_awaitingConnectCancel = lk_awaitingConnectCancel c,
     qz_disconnectCallbackPending = lk_disconnectCallbackPending c,
     qz_startedMs = lk_quiesceStartedMs c, qz_lastRetryMs = lk_quiesceLastRetryMs c\<rparr>"

definition quiesce_inputs :: "stack_answers \<Rightarrow> v1_client \<Rightarrow> quiesce_poll" where
  "quiesce_inputs a c = \<lparr>qp_hasClient = lk_hasClient c, qp_asyncConnectPending = lk_asyncConnectPending c,
     qp_discoveryRunning = lk_taskRunning c, qp_disconnectCallback = False,
     qp_connected = lk_linkUp c, qp_disconnectAccepted = sa_disconnectAccepted a\<rparr>"

definition with_quiesce :: "quiesce \<Rightarrow> v1_client \<Rightarrow> v1_client" where
  "with_quiesce q c = c\<lparr>lk_awaitingConnectCancel := qz_awaitingConnectCancel q,
     lk_disconnectCallbackPending := qz_disconnectCallbackPending q,
     lk_quiesceStartedMs := qz_startedMs q, lk_quiesceLastRetryMs := qz_lastRetryMs q\<rparr>"

text \<open>Past this point no task can touch the attribute cache, so the outgoing handles are retired.\<close>

definition completeHardResetBLEClient :: "stack_answers \<Rightarrow> 'a v1_link_scheme \<Rightarrow> 'a v1_link_scheme" where
  "completeHardResetBLEClient a l =
     l\<lparr>lk_hasClient := lk_hasClient l \<or> sa_clientCreated a, lk_linkUp := stack_connected l,
       lk_consecutiveConnectFailures := 0, lk_nextConnectAllowedMs := 0\<rparr>"

definition finalize_quiesce :: "stack_answers \<Rightarrow> v1_client \<Rightarrow> v1_client" where
  "finalize_quiesce a c =
     (let c = (cleanupConnection a c)\<lparr>lk_taskDone := False, lk_taskResult := False,
          lk_taskCompletedGeneration := 0, lk_activeDiscoveryGeneration := 0, lk_activeHandle := NO_HANDLE, lk_quiescingHandle := NO_HANDLE,
          lk_quiesceStartedMs := 0, lk_quiesceLastRetryMs := 0, lk_asyncConnectPending := False,
          lk_asyncConnectSuccess := False, lk_connectUpdate := False, lk_connectUpdateGeneration := 0\<rparr>;
          c = (if lk_hardReset c then (completeHardResetBLEClient a c)\<lparr>lk_hardReset := False\<rparr> else c)
      in setBLEState (sa_now a) BleDisconnected (c\<lparr>lk_nextConnectAllowedMs := 0\<rparr>))"

definition poll_quiesce :: "stack_answers \<Rightarrow> v1_client \<Rightarrow> quiesce_outcome \<times> v1_client" where
  "poll_quiesce a c =
     (let (outcome, q) = processClientQuiesce (sa_now a) (quiesce_inputs a c) (quiesce_view c);
          c = with_quiesce q c
      in (outcome, if outcome = QuiesceFinalized then finalize_quiesce a c else c))"

end
