(* ===== verification/V1_Session_Capture.thy ===== *)
theory V1_Session_Capture
  imports V1_Command_Send
begin

text \<open>
  The readback of detector settings that one session collects (\<open>src/ble_client.h\<close>,
  \<open>src/ble_commands.cpp\<close>): a response counts only when its notification entered after the
  request that asks for it was written.
\<close>

section \<open>Responses\<close>

text \<open>
  Ingress stamps are compared in the half window of the word; zero is the stamp of a response
  whose provenance is unknown.
\<close>

definition onUserBytesReceived :: "u8 list option \<Rightarrow> u32 \<Rightarrow> v1_client \<Rightarrow> v1_client" where
  "onUserBytesReceived bytes ingress c =
     (let s = bc_capture c;
          sessionEligible = (sc_userBytesArmed s \<and> ingress \<noteq> 0 \<and>
            commandResponseEligible c 0x11 ingress (sc_userBytesBoundary s))
      in case bytes of
           Some b \<Rightarrow>
             if sessionEligible
             then c\<lparr>bc_capture := s\<lparr>sc_userBytes := take 6 b, sc_hasUserBytes := True,
                     sc_userBytesRevision := sc_userBytesRevision s + 1, sc_userBytesIngress := ingress\<rparr>\<rparr>
             else c
         | None \<Rightarrow> c)"

definition onAllVolumeReceived :: "u32 \<Rightarrow> v1_client \<Rightarrow> v1_client" where
  "onAllVolumeReceived ingress c =
     (if sc_allVolumeArmed (bc_capture c) \<and> ingress \<noteq> 0 \<and>
         commandResponseEligible c 0x3C ingress (sc_allVolumeBoundary (bc_capture c))
      then c\<lparr>bc_capture := (bc_capture c)\<lparr>sc_hasAllVolume := True\<rparr>\<rparr> else c)"

definition onSweepSectionsReceived :: "bool \<Rightarrow> v1_client \<Rightarrow> v1_client" where
  "onSweepSectionsReceived complete c = c\<lparr>bc_capture := (bc_capture c)\<lparr>sc_hasSweepSections := complete\<rparr>\<rparr>"

definition onSweepMaxReceived :: "bool \<Rightarrow> v1_client \<Rightarrow> v1_client" where
  "onSweepMaxReceived complete c = c\<lparr>bc_capture := (bc_capture c)\<lparr>sc_hasSweepMax := complete\<rparr>\<rparr>"

definition onSweepDefinitionsReceived :: "bool \<Rightarrow> v1_client \<Rightarrow> v1_client" where
  "onSweepDefinitionsReceived complete c = c\<lparr>bc_capture := (bc_capture c)\<lparr>sc_hasSweepDefinitions := complete\<rparr>\<rparr>"

section \<open>Arming\<close>

definition beginSessionUserBytesCapture :: "u32 \<Rightarrow> v1_client \<Rightarrow> v1_client" where
  "beginSessionUserBytesCapture boundary c =
     c\<lparr>bc_capture := (bc_capture c)\<lparr>sc_userBytesBoundary := boundary, sc_userBytesArmed := True,
         sc_hasUserBytes := False, sc_userBytesIngress := 0\<rparr>\<rparr>"

definition beginSessionAllVolumeCapture :: "u32 \<Rightarrow> v1_client \<Rightarrow> v1_client" where
  "beginSessionAllVolumeCapture boundary c =
     c\<lparr>bc_capture := (bc_capture c)\<lparr>sc_allVolumeBoundary := boundary, sc_allVolumeArmed := True,
         sc_hasAllVolume := False\<rparr>\<rparr>"

definition beginSessionSweepSectionsCapture :: "u32 \<Rightarrow> v1_client \<Rightarrow> v1_client" where
  "beginSessionSweepSectionsCapture boundary c =
     c\<lparr>bc_capture := (bc_capture c)\<lparr>sc_sectionsBoundary := boundary, sc_sectionsResetPending := True,
         sc_expectsSweeps := True, sc_hasSweepSections := False\<rparr>\<rparr>"

definition beginSessionSweepMaxCapture :: "u32 \<Rightarrow> v1_client \<Rightarrow> v1_client" where
  "beginSessionSweepMaxCapture boundary c =
     c\<lparr>bc_capture := (bc_capture c)\<lparr>sc_maxBoundary := boundary, sc_maxResetPending := True,
         sc_hasSweepMax := False\<rparr>\<rparr>"

definition beginSessionSweepDefinitionsCapture :: "u32 \<Rightarrow> v1_client \<Rightarrow> v1_client" where
  "beginSessionSweepDefinitionsCapture boundary c =
     c\<lparr>bc_capture := (bc_capture c)\<lparr>sc_definitionsBoundary := boundary, sc_definitionsResetPending := True,
         sc_hasSweepDefinitions := False\<rparr>\<rparr>"

definition resetSessionSettingsCapture :: "v1_client \<Rightarrow> v1_client" where
  "resetSessionSettingsCapture c = c\<lparr>bc_capture := new_capture\<rparr>"

section \<open>Sweep responses\<close>

definition sessionSweepIngressBoundary :: "v1_client \<Rightarrow> u8 \<Rightarrow> u32" where
  "sessionSweepIngressBoundary c packetId =
     (let s = bc_capture c in
      if packetId = 0x23 then commandResponseBoundary c 0x22 (sc_sectionsBoundary s)
      else if packetId = 0x20 then commandResponseBoundary c 0x19 (sc_maxBoundary s)
      else if packetId = 0x17 then commandResponseBoundary c 0x16 (sc_definitionsBoundary s)
      else 0)"

definition sessionSweepResponseEligible :: "v1_client \<Rightarrow> u8 \<Rightarrow> u32 \<Rightarrow> bool" where
  "sessionSweepResponseEligible c packetId ingress =
     (if \<not> sc_expectsSweeps (bc_capture c) \<or> ingress = 0 then False
      else let boundary = sessionSweepIngressBoundary c packetId
           in boundary \<noteq> 0 \<and> later_than ingress boundary)"

definition consumeSessionSweepParserReset :: "u8 \<Rightarrow> v1_client \<Rightarrow> bool \<times> v1_client" where
  "consumeSessionSweepParserReset packetId c =
     (let s = bc_capture c in
      if packetId = 0x23
      then (sc_sectionsResetPending s, c\<lparr>bc_capture := s\<lparr>sc_sectionsResetPending := False\<rparr>\<rparr>)
      else if packetId = 0x20
      then (sc_maxResetPending s, c\<lparr>bc_capture := s\<lparr>sc_maxResetPending := False\<rparr>\<rparr>)
      else if packetId = 0x17
      then (sc_definitionsResetPending s, c\<lparr>bc_capture := s\<lparr>sc_definitionsResetPending := False\<rparr>\<rparr>)
      else (False, c))"

text \<open>The caller passes an output buffer or null; the copy is the answer.\<close>

definition copySessionUserBytes :: "bool \<Rightarrow> v1_client \<Rightarrow> u8 list option" where
  "copySessionUserBytes hasOut c =
     (if \<not> hasOut \<or> \<not> sc_hasUserBytes (bc_capture c) then None else Some (sc_userBytes (bc_capture c)))"

lemmas capture_ops = onUserBytesReceived_def onAllVolumeReceived_def onSweepSectionsReceived_def
  onSweepMaxReceived_def onSweepDefinitionsReceived_def beginSessionUserBytesCapture_def
  beginSessionAllVolumeCapture_def beginSessionSweepSectionsCapture_def beginSessionSweepMaxCapture_def
  beginSessionSweepDefinitionsCapture_def resetSessionSettingsCapture_def

section \<open>The capture's events\<close>

datatype capture_event =
    CapUserBytes "u8 list option" u32 | CapAllVolume u32 | CapSections bool | CapMax bool | CapDefinitions bool
  | CapReset | CapTakeReset u8

fun capture_step :: "v1_client \<Rightarrow> capture_event \<Rightarrow> v1_client" where
  "capture_step c (CapUserBytes b x) = onUserBytesReceived b x c"
| "capture_step c (CapAllVolume x) = onAllVolumeReceived x c"
| "capture_step c (CapSections ok) = onSweepSectionsReceived ok c"
| "capture_step c (CapMax ok) = onSweepMaxReceived ok c"
| "capture_step c (CapDefinitions ok) = onSweepDefinitionsReceived ok c"
| "capture_step c CapReset = resetSessionSettingsCapture c"
| "capture_step c (CapTakeReset i) = snd (consumeSessionSweepParserReset i c)"

text \<open>They touch the capture alone.\<close>

lemma capture_step_alone: "capture_step c e = c\<lparr>bc_capture := bc_capture (capture_step c e)\<rparr>"
  by (cases e) (simp_all add: capture_ops consumeSessionSweepParserReset_def Let_def split: option.split)

end
