(* ===== verification/V1_Command_Packets.thy ===== *)
theory V1_Command_Packets
  imports V1_Session_Capture
begin

text \<open>
  The commands of \<open>src/ble_commands.cpp\<close>: each builds one frame and hands it to the command
  channel. The frames are lists built from the same bytes; the checksum is added by
  \<open>calcV1Checksum\<close> over everything before it.
\<close>

section \<open>Frames\<close>

definition ESP_PACKET_DEST_V1 :: u8 where "ESP_PACKET_DEST_V1 = 0x0A"
definition ESP_PACKET_REMOTE :: u8 where "ESP_PACKET_REMOTE = 0x06"
definition PACKET_ID_REQ_START_ALERT :: u8 where "PACKET_ID_REQ_START_ALERT = 0x41"
definition PACKET_ID_REQ_USER_BYTES :: u8 where "PACKET_ID_REQ_USER_BYTES = 0x11"

fun calcV1Checksum :: "u8 list \<Rightarrow> u8" where
  "calcV1Checksum [] = 0"
| "calcV1Checksum (b # bs) = b + calcV1Checksum bs"

definition request_frame :: "u8 \<Rightarrow> u8 \<Rightarrow> u8 list \<Rightarrow> u8 list" where
  "request_frame packetId len payload =
     (let packet = [ESP_PACKET_START, 0xD0 + ESP_PACKET_DEST_V1, 0xE0 + ESP_PACKET_REMOTE, packetId, len] @ payload
      in packet @ [calcV1Checksum packet, ESP_PACKET_END])"

definition sendEmptyV1Request :: "send_environment \<Rightarrow> u8 \<Rightarrow> v1_client \<Rightarrow> send_result \<times> v1_client" where
  "sendEmptyV1Request e packetId c = sendCommandWithResult e (Some (request_frame packetId 0x01 [])) c"

section \<open>Requests\<close>

definition requestAlertData :: "send_environment \<Rightarrow> v1_client \<Rightarrow> bool \<times> v1_client" where
  "requestAlertData e c =
     (if \<not> isConnected c \<or> phoneOwnsStoppedAlertStream c then (False, c)
      else if \<not> ag_permits (bc_alertGate c) (lk_generation c) (sa_now (se_answers e)) then (True, c)
      else sendCommand e (Some (request_frame PACKET_ID_REQ_START_ALERT 0x01 [])) c)"

definition requestAllVolumeResult :: "send_environment \<Rightarrow> v1_client \<Rightarrow> send_result \<times> v1_client" where
  "requestAllVolumeResult e c = sendCommandWithResult e (Some (request_frame PACKET_ID_REQ_ALL_VOLUME 0x01 [])) c"

definition requestCurrentVolume :: "send_environment \<Rightarrow> v1_client \<Rightarrow> bool \<times> v1_client" where
  "requestCurrentVolume e c = sendCommand e (Some (request_frame PACKET_ID_REQ_CURRENT_VOLUME 0x01 [])) c"

definition requestMaxSweepIndexResult :: "send_environment \<Rightarrow> v1_client \<Rightarrow> send_result \<times> v1_client" where
  "requestMaxSweepIndexResult e c = sendEmptyV1Request e PACKET_ID_REQ_MAX_SWEEP_INDEX c"

definition requestSweepSectionsResult :: "send_environment \<Rightarrow> v1_client \<Rightarrow> send_result \<times> v1_client" where
  "requestSweepSectionsResult e c = sendEmptyV1Request e PACKET_ID_REQ_SWEEP_SECTIONS c"

definition requestAllSweepDefinitionsResult :: "send_environment \<Rightarrow> v1_client \<Rightarrow> send_result \<times> v1_client" where
  "requestAllSweepDefinitionsResult e c = sendEmptyV1Request e PACKET_ID_REQ_ALL_SWEEP_DEFINITIONS c"

definition requestUserBytesResult :: "send_environment \<Rightarrow> v1_client \<Rightarrow> send_result \<times> v1_client" where
  "requestUserBytesResult e c = sendCommandWithResult e (Some (request_frame PACKET_ID_REQ_USER_BYTES 0x01 [])) c"

section \<open>Settings commands\<close>

definition setDisplayOnResult :: "send_environment \<Rightarrow> bool \<Rightarrow> bool \<Rightarrow> v1_client \<Rightarrow> send_result \<times> v1_client" where
  "setDisplayOnResult e on keepBluetoothIndicatorOn c =
     (if localV1WriteSuppressedByProxy c then (SendFailed, c)
      else if on then sendCommandWithResult e (Some (request_frame PACKET_ID_TURN_ON_DISPLAY 0x01 [])) c
      else if keepBluetoothIndicatorOn
      then (if bc_firmwareVersion c < kKeepBluetoothLedOnVersion then (SendFailed, c)
            else sendCommandWithResult e (Some (request_frame PACKET_ID_TURN_OFF_DISPLAY 0x02 [0x01])) c)
      else sendCommandWithResult e (Some (request_frame PACKET_ID_TURN_OFF_DISPLAY 0x01 [])) c)"

definition setMuteResult :: "send_environment \<Rightarrow> bool \<Rightarrow> v1_client \<Rightarrow> send_result \<times> v1_client" where
  "setMuteResult e muted c =
     (if localV1WriteSuppressedByProxy c then (SendFailed, c)
      else sendCommandWithResult e
             (Some (request_frame (if muted then PACKET_ID_MUTE_ON else PACKET_ID_MUTE_OFF) 0x01 [])) c)"

definition setModeResult :: "send_environment \<Rightarrow> u8 \<Rightarrow> v1_client \<Rightarrow> send_result \<times> v1_client" where
  "setModeResult e mode c =
     (if localV1WriteSuppressedByProxy c then (SendFailed, c)
      else sendCommandWithResult e (Some (request_frame 0x36 0x02 [mode])) c)"

definition kKeepCurrentVolumeOnDisconnectVersion :: u32 where
  "kKeepCurrentVolumeOnDisconnectVersion = 41038"

definition setVolumeResult :: "send_environment \<Rightarrow> u8 \<Rightarrow> u8 \<Rightarrow> u8 \<Rightarrow> v1_client \<Rightarrow> send_result \<times> v1_client" where
  "setVolumeResult e mainVolume mutedVolume aux0 c =
     (if localV1WriteSuppressedByProxy c then (SendFailed, c)
      else if mainVolume = 0xFF \<or> mutedVolume = 0xFF \<or> mainVolume > 9 \<or> mutedVolume > 9 \<or> aux0 AND 0xF0 \<noteq> 0
      then (SendFailed, c)
      else if aux0 AND 0x04 \<noteq> 0 \<and> bc_firmwareVersion c < kSavedVolumeVersion then (SendFailed, c)
      else if aux0 AND 0x08 \<noteq> 0 \<and> bc_firmwareVersion c < kKeepCurrentVolumeOnDisconnectVersion then (SendFailed, c)
      else if aux0 AND 0x0C = 0x0C then (SendFailed, c)
      else sendCommandWithResult e
             (Some (request_frame PACKET_ID_REQ_WRITE_VOLUME 0x04 [mainVolume, mutedVolume, aux0])) c)"

text \<open>The two edges are 16-bit; each byte is the low one of a shifted value.\<close>

definition high_byte :: "u16 \<Rightarrow> u8" where "high_byte w = ucast (drop_bit 8 w)"
definition low_byte :: "u16 \<Rightarrow> u8" where "low_byte w = ucast w"

definition sweep_payload :: "u8 \<Rightarrow> u16 \<Rightarrow> u16 \<Rightarrow> bool \<Rightarrow> u8 list" where
  "sweep_payload index lowerMHz upperMHz commit =
     [0x80 OR (if commit then 0x40 else 0x00) OR index, high_byte upperMHz, low_byte upperMHz,
      high_byte lowerMHz, low_byte lowerMHz]"

definition writeSweepDefinition ::
    "send_environment \<Rightarrow> u8 \<Rightarrow> u16 \<Rightarrow> u16 \<Rightarrow> bool \<Rightarrow> v1_client \<Rightarrow> send_result \<times> v1_client" where
  "writeSweepDefinition e index lowerMHz upperMHz commit c =
     (if localV1WriteSuppressedByProxy c \<or> index > 0x3F \<or> lowerMHz = 0 \<or> upperMHz = 0 \<or>
         lowerMHz \<ge> upperMHz \<or> \<not> customSweeps (capabilities (bc_firmwareVersion c))
      then (SendFailed, c)
      else sendCommandWithResult e
             (Some (request_frame PACKET_ID_WRITE_SWEEP_DEFINITION 0x06 (sweep_payload index lowerMHz upperMHz commit))) c)"

definition factoryResetDetector :: "send_environment \<Rightarrow> v1_client \<Rightarrow> send_result \<times> v1_client" where
  "factoryResetDetector e c =
     (if localV1WriteSuppressedByProxy c \<or> \<not> gen2 (capabilities (bc_firmwareVersion c)) then (SendFailed, c)
      else sendCommandWithResult e (Some (request_frame PACKET_ID_FACTORY_DEFAULT 0x01 [])) c)"

definition writeUserBytes :: "send_environment \<Rightarrow> u8 list option \<Rightarrow> v1_client \<Rightarrow> bool \<times> v1_client" where
  "writeUserBytes e bytes c =
     (if localV1WriteSuppressedByProxy c then (False, c)
      else case bytes of None \<Rightarrow> (False, c)
        | Some b \<Rightarrow>
            (case prepareUserBytesForWrite (Some b) (Some (replicate 6 0)) (bc_firmwareVersion c) of
               None \<Rightarrow> (False, c)
             | Some out \<Rightarrow> sendCommand e (Some (request_frame PACKET_ID_WRITE_USER_BYTES 0x07 (take 6 out))) c))"

definition writeUserBytesExactResult ::
    "send_environment \<Rightarrow> u8 list option \<Rightarrow> v1_client \<Rightarrow> send_result \<times> v1_client" where
  "writeUserBytesExactResult e bytes c =
     (case bytes of None \<Rightarrow> (SendFailed, c)
      | Some b \<Rightarrow> if localV1WriteSuppressedByProxy c then (SendFailed, c)
                  else sendCommandWithResult e (Some (request_frame PACKET_ID_WRITE_USER_BYTES 0x07 (take 6 b))) c)"

section \<open>The wrappers that report success only\<close>

definition sent_only :: "send_result \<times> v1_client \<Rightarrow> bool \<times> v1_client" where
  "sent_only r = (fst r = SendSent, snd r)"

definition requestAllVolume :: "send_environment \<Rightarrow> v1_client \<Rightarrow> bool \<times> v1_client" where
  "requestAllVolume e c = sent_only (requestAllVolumeResult e c)"

definition setDisplayOn :: "send_environment \<Rightarrow> bool \<Rightarrow> bool \<Rightarrow> v1_client \<Rightarrow> bool \<times> v1_client" where
  "setDisplayOn e on keepBluetoothIndicatorOn c = sent_only (setDisplayOnResult e on keepBluetoothIndicatorOn c)"

definition setMute :: "send_environment \<Rightarrow> bool \<Rightarrow> v1_client \<Rightarrow> bool \<times> v1_client" where
  "setMute e muted c = sent_only (setMuteResult e muted c)"

definition setMode :: "send_environment \<Rightarrow> u8 \<Rightarrow> v1_client \<Rightarrow> bool \<times> v1_client" where
  "setMode e mode c = sent_only (setModeResult e mode c)"

definition setVolume :: "send_environment \<Rightarrow> u8 \<Rightarrow> u8 \<Rightarrow> v1_client \<Rightarrow> bool \<times> v1_client" where
  "setVolume e mainVolume mutedVolume c = sent_only (setVolumeResult e mainVolume mutedVolume 0 c)"

definition requestMaxSweepIndex :: "send_environment \<Rightarrow> v1_client \<Rightarrow> bool \<times> v1_client" where
  "requestMaxSweepIndex e c = sent_only (requestMaxSweepIndexResult e c)"

definition requestSweepSections :: "send_environment \<Rightarrow> v1_client \<Rightarrow> bool \<times> v1_client" where
  "requestSweepSections e c = sent_only (requestSweepSectionsResult e c)"

definition requestAllSweepDefinitions :: "send_environment \<Rightarrow> v1_client \<Rightarrow> bool \<times> v1_client" where
  "requestAllSweepDefinitions e c = sent_only (requestAllSweepDefinitionsResult e c)"

definition requestUserBytes :: "send_environment \<Rightarrow> v1_client \<Rightarrow> bool \<times> v1_client" where
  "requestUserBytes e c = sent_only (requestUserBytesResult e c)"

definition writeUserBytesExact :: "send_environment \<Rightarrow> u8 list option \<Rightarrow> v1_client \<Rightarrow> bool \<times> v1_client" where
  "writeUserBytesExact e bytes c = sent_only (writeUserBytesExactResult e bytes c)"

section \<open>What the commands send\<close>

text \<open>
  The specification names each command by what it asks for; its frame has an identifier and a
  payload of at most six bytes. A command is refused before the channel when the phone owns the
  detector's settings, when the firmware lacks the feature or when a value is out of range.
\<close>

datatype v1_command =
    CmdRequest u8 | CmdDisplay bool bool | CmdMute bool | CmdMode u8 | CmdVolume u8 u8 u8
  | CmdSweep u8 u16 u16 bool | CmdFactoryReset | CmdUserBytes "u8 list"

fun command_id :: "v1_command \<Rightarrow> u8" where
  "command_id (CmdRequest i) = i"
| "command_id (CmdDisplay on keep) = (if on then 0x33 else 0x32)"
| "command_id (CmdMute m) = (if m then 0x34 else 0x35)"
| "command_id (CmdMode m) = 0x36"
| "command_id (CmdVolume m q x) = 0x39"
| "command_id (CmdSweep i l u commit) = 0x15"
| "command_id CmdFactoryReset = 0x14"
| "command_id (CmdUserBytes b) = 0x13"

fun command_payload :: "v1_command \<Rightarrow> u8 list" where
  "command_payload (CmdDisplay on keep) = (if \<not> on \<and> keep then [0x01] else [])"
| "command_payload (CmdMode m) = [m]"
| "command_payload (CmdVolume m q x) = [m, q, x]"
| "command_payload (CmdSweep i l u commit) = sweep_payload i l u commit"
| "command_payload (CmdUserBytes b) = take 6 b"
| "command_payload _ = []"

fun command_allowed :: "u32 \<Rightarrow> bool \<Rightarrow> v1_command \<Rightarrow> bool" where
  "command_allowed version phone (CmdRequest i) \<longleftrightarrow> True"
| "command_allowed version phone (CmdDisplay on keep) \<longleftrightarrow> \<not> phone \<and> (on \<or> \<not> keep \<or> 41032 \<le> version)"
| "command_allowed version phone (CmdMute m) \<longleftrightarrow> \<not> phone"
| "command_allowed version phone (CmdMode m) \<longleftrightarrow> \<not> phone"
| "command_allowed version phone (CmdVolume m q x) \<longleftrightarrow>
     \<not> phone \<and> m \<le> 9 \<and> q \<le> 9 \<and> x AND 0xF0 = 0 \<and> x AND 0x0C \<noteq> 0x0C \<and>
     (x AND 0x04 = 0 \<or> 41037 \<le> version) \<and> (x AND 0x08 = 0 \<or> 41038 \<le> version)"
| "command_allowed version phone (CmdSweep i l u commit) \<longleftrightarrow>
     \<not> phone \<and> i < 64 \<and> 0 < l \<and> l < u \<and> customSweeps (capabilities version)"
| "command_allowed version phone CmdFactoryReset \<longleftrightarrow> \<not> phone \<and> gen2 (capabilities version)"
| "command_allowed version phone (CmdUserBytes b) \<longleftrightarrow> \<not> phone"

definition command_frame :: "v1_command \<Rightarrow> u8 list" where
  "command_frame k = request_frame (command_id k) (word_of_nat (length (command_payload k) + 1)) (command_payload k)"

definition command_result :: "send_environment \<Rightarrow> v1_command \<Rightarrow> v1_client \<Rightarrow> send_result \<times> v1_client" where
  "command_result e k c =
     (if command_allowed (bc_firmwareVersion c) (bc_proxyClientConnected c) k
      then sendCommandWithResult e (Some (command_frame k)) c else (SendFailed, c))"

lemma checksum_same: "calcV1Checksum bs = checksum8 bs"
proof -
  have "foldl (\<lambda>c b. c + b) s bs = s + calcV1Checksum bs" for s :: u8
    by (induction bs arbitrary: s) (simp_all add: ac_simps)
  then show ?thesis by (simp add: checksum8_def)
qed


lemma length_payload: "length (command_payload k) \<le> 6"
  by (cases k) (simp_all add: sweep_payload_def)

lemma length_frame [simp]: "length (request_frame i len payload) = length payload + 7"
  by (simp add: request_frame_def Let_def)

lemma frame_nth:
  "request_frame i len payload ! 0 = ESP_PACKET_START" "request_frame i len payload ! 1 = 0xDA"
  "request_frame i len payload ! 2 = 0xE6" "request_frame i len payload ! 3 = i" "request_frame i len payload ! 4 = len"
  "request_frame i len payload ! (length payload + 6) = ESP_PACKET_END"
  "request_frame i len payload ! (length payload + 5) = checksum8 (take (length payload + 5) (request_frame i len payload))"
  by (simp_all add: request_frame_def Let_def nth_append nth_Cons' checksum_same ESP_PACKET_DEST_V1_def
      ESP_PACKET_REMOTE_def take_Cons' numeral_eq_Suc)

lemma frame_canonical:
  assumes "unat len = length payload + 1"
  shows "canonical_command (request_frame i len payload)"
  using frame_nth [of i len payload] assms by (simp add: canonical_command_def add.commute)

lemma length_byte: "n \<le> 6 \<Longrightarrow> unat (word_of_nat (n + 1) :: u8) = n + 1"
  by (subst unsigned_of_nat) (simp add: take_bit_nat_eq_self)

lemmas command_ids = PACKET_ID_REQ_ALL_VOLUME_def PACKET_ID_REQ_CURRENT_VOLUME_def
  PACKET_ID_REQ_MAX_SWEEP_INDEX_def PACKET_ID_REQ_SWEEP_SECTIONS_def
  PACKET_ID_REQ_ALL_SWEEP_DEFINITIONS_def PACKET_ID_REQ_USER_BYTES_def PACKET_ID_TURN_ON_DISPLAY_def
  PACKET_ID_TURN_OFF_DISPLAY_def PACKET_ID_MUTE_ON_def PACKET_ID_MUTE_OFF_def
  PACKET_ID_REQ_WRITE_VOLUME_def PACKET_ID_WRITE_SWEEP_DEFINITION_def PACKET_ID_FACTORY_DEFAULT_def
  PACKET_ID_WRITE_USER_BYTES_def kKeepBluetoothLedOnVersion_def kSavedVolumeVersion_def
  kKeepCurrentVolumeOnDisconnectVersion_def

text \<open>
  Each operation is its entry of the table: the same refusals and the same frame.
\<close>

lemma requests_refine:
  "requestAllVolumeResult e c = command_result e (CmdRequest 0x3C) c"
  "requestCurrentVolume e c = sent_only (command_result e (CmdRequest 0x37) c)"
  "requestMaxSweepIndexResult e c = command_result e (CmdRequest 0x19) c"
  "requestSweepSectionsResult e c = command_result e (CmdRequest 0x22) c"
  "requestAllSweepDefinitionsResult e c = command_result e (CmdRequest 0x16) c"
  "requestUserBytesResult e c = command_result e (CmdRequest 0x11) c"
  by (simp_all add: command_result_def command_frame_def command_ids requestAllVolumeResult_def
      requestCurrentVolume_def requestMaxSweepIndexResult_def requestSweepSectionsResult_def
      requestAllSweepDefinitionsResult_def requestUserBytesResult_def sendEmptyV1Request_def sendCommand_def
      sent_only_def split_beta)

lemma settings_refine:
  "setDisplayOnResult e on keep c = command_result e (CmdDisplay on keep) c"
  "setMuteResult e muted c = command_result e (CmdMute muted) c"
  "setModeResult e mode c = command_result e (CmdMode mode) c"
  "factoryResetDetector e c = command_result e CmdFactoryReset c"
  by (auto simp: command_result_def command_frame_def command_ids setDisplayOnResult_def setMuteResult_def
      setModeResult_def factoryResetDetector_def localV1WriteSuppressedByProxy_def not_le)

lemma volume_refines: "setVolumeResult e m q x c = command_result e (CmdVolume m q x) c"
proof -
  have "(0xFF :: u8) \<le> 9 \<longleftrightarrow> False" by simp
  then show ?thesis
    by (auto simp: command_result_def command_frame_def command_ids setVolumeResult_def
        localV1WriteSuppressedByProxy_def not_le)
qed

lemma sweep_refines: "writeSweepDefinition e i l u commit c = command_result e (CmdSweep i l u commit) c"
proof -
  have "(0x3F :: u8) < i \<longleftrightarrow> \<not> i < 64" by (simp add: word_less_nat_alt) linarith
  moreover have "(l = 0 \<or> u = 0 \<or> u \<le> l) \<longleftrightarrow> \<not> (0 < l \<and> l < u)"
    by (auto simp: word_less_nat_alt word_le_nat_alt unat_eq_0)
  ultimately show ?thesis
    by (auto simp: command_result_def command_frame_def command_ids writeSweepDefinition_def
        localV1WriteSuppressedByProxy_def sweep_payload_def not_le)
qed

lemma user_bytes_refine:
  assumes "length b = 6"
  shows "writeUserBytesExactResult e (Some b) c = command_result e (CmdUserBytes b) c"
    and "writeUserBytes e (Some b) c = sent_only (command_result e (CmdUserBytes
      (map (\<lambda>k. if k < supportedUserByteCount (bc_firmwareVersion c) then b ! k else 0xFF) [0..<6])) c)"
  using assms
  by (auto simp: command_result_def command_frame_def command_ids writeUserBytesExactResult_def
      writeUserBytes_def prepareUserBytesForWrite_def kUserByteCount_def sendCommand_def sent_only_def
      localV1WriteSuppressedByProxy_def split_beta)

end
