(* ===== verification/V1_Connected_Followup.thy ===== *)
theory V1_Connected_Followup
  imports V1_Command_Packets
begin

text \<open>
  What the client does after a session is published (\<open>src/ble_connected_followup.cpp\<close>): it starts
  the alert data, lets the first burst settle, asks for the firmware version, and collects the
  detector's settings before anything is pushed to it, each request with a deadline and at most
  one retry of its own. Every \<open>millis()\<close> of one pass reads the same value.
\<close>

section \<open>Requests of the follow-up\<close>

definition CONNECT_BURST_STABLE_CONSECUTIVE_LOOPS :: u8 where "CONNECT_BURST_STABLE_CONSECUTIVE_LOOPS = 3"
definition CONNECT_BURST_SETTLE_AFTER_FIRST_RX_MS :: u32 where "CONNECT_BURST_SETTLE_AFTER_FIRST_RX_MS = 1500"
definition CONNECT_BURST_SETTLE_AFTER_CONNECTED_MS :: u32 where "CONNECT_BURST_SETTLE_AFTER_CONNECTED_MS = 2500"
definition CONNECTED_FOLLOWUP_RETRY_MS :: u32 where "CONNECTED_FOLLOWUP_RETRY_MS = 5"
definition VERSION_RESPONSE_TIMEOUT_MS :: u32 where "VERSION_RESPONSE_TIMEOUT_MS = 1500"
definition SETTINGS_SNAPSHOT_RESPONSE_TIMEOUT_MS :: u32 where "SETTINGS_SNAPSHOT_RESPONSE_TIMEOUT_MS = 1500"

definition sendEmptyPayloadFollowupRequest ::
    "send_environment \<Rightarrow> u8 \<Rightarrow> v1_client \<Rightarrow> send_result \<times> v1_client" where
  "sendEmptyPayloadFollowupRequest e packetId c = sendCommandWithResult e (Some (request_frame packetId 0x01 [])) c"

definition consumeBoundedRetry :: "u8 \<Rightarrow> v1_client \<Rightarrow> bool \<times> v1_client" where
  "consumeBoundedRetry packetId c =
     (let (released, f) = consumeReleasedRetry packetId (lk_flow c); c = c\<lparr>lk_flow := f\<rparr>
      in if \<not> released then (False, c)
         else if packetId \<in> lk_followupRetryUsed c then (False, c)
         else (True, c\<lparr>lk_followupRetryUsed := insert packetId (lk_followupRetryUsed c)\<rparr>))"

text \<open>A step waits for its next attempt; zero means none is set.\<close>

definition attempt_later :: "u32 \<Rightarrow> v1_client \<Rightarrow> bool" where
  "attempt_later now c \<longleftrightarrow> lk_followupNextAttemptMs c \<noteq> 0 \<and> \<not> reached now (lk_followupNextAttemptMs c)"

definition next_step :: "u32 \<Rightarrow> followup_step \<Rightarrow> v1_client \<Rightarrow> v1_client" where
  "next_step deadline step c =
     c\<lparr>lk_followupNextAttemptMs := 0, lk_followupSendDeadlineMs := deadline, lk_followupStep := step\<rparr>"

definition capture_timed_out :: "v1_client \<Rightarrow> v1_client" where
  "capture_timed_out c = c\<lparr>bc_capture := (bc_capture c)\<lparr>sc_timedOut := True\<rparr>\<rparr>"

definition expect_all_volume :: "bool \<Rightarrow> v1_client \<Rightarrow> v1_client" where
  "expect_all_volume b c = c\<lparr>bc_capture := (bc_capture c)\<lparr>sc_expectsAllVolume := b\<rparr>\<rparr>"

text \<open>
  The five requests whose answers are captured have one shape: the boundary is sampled before
  the send, the capture is armed when the write is admitted, a refusal is retried until the
  deadline, and the rest is the step's own.
\<close>

definition captured_request ::
    "send_environment \<Rightarrow> u8 \<Rightarrow> (u32 \<Rightarrow> v1_client \<Rightarrow> v1_client) \<Rightarrow> (v1_client \<Rightarrow> v1_client) \<Rightarrow>
      (v1_client \<Rightarrow> v1_client) \<Rightarrow> v1_client \<Rightarrow> v1_client" where
  "captured_request e packetId arm given_up sent c =
     (let now = sa_now (se_answers e) in
      if attempt_later now c then c
      else
        let wasInFlight = commandInFlight c OwnConnectedFollowup;
            boundary = bc_notificationIngress c;
            (result, c) = sendEmptyPayloadFollowupRequest e packetId c;
            armed = (if \<not> wasInFlight then arm boundary c else c)
        in if result = SendInFlight then armed
           else if result \<noteq> SendSent
           then (if result = SendNotYet \<and> \<not> reached now (lk_followupSendDeadlineMs c)
                 then c\<lparr>lk_followupNextAttemptMs := now + CONNECTED_FOLLOWUP_RETRY_MS\<rparr>
                 else given_up c)
           else sent armed)"

section \<open>The steps\<close>

definition follow_request_alert_data :: "send_environment \<Rightarrow> v1_client \<Rightarrow> v1_client" where
  "follow_request_alert_data e c =
     (let now = sa_now (se_answers e) in
      if attempt_later now c then c
      else
        let (ok, c) = requestAlertData e c;
            proceed = (next_step 0 FollowWaitConnectBurstSettle c)\<lparr>lk_burstStableLoopCount := 0\<rparr>
        in if ok then proceed
           else if commandInFlight c OwnConnectedFollowup then c
           else if \<not> reached now (lk_followupSendDeadlineMs c)
           then c\<lparr>lk_followupNextAttemptMs := now + CONNECTED_FOLLOWUP_RETRY_MS\<rparr>
           else proceed)"

definition follow_wait_burst :: "send_environment \<Rightarrow> v1_client \<Rightarrow> v1_client" where
  "follow_wait_burst e c =
     (let c = (if lk_burstStableLoopCount c < 0xFF
               then c\<lparr>lk_burstStableLoopCount := lk_burstStableLoopCount c + 1\<rparr> else c);
          now = sa_now (se_answers e);
          connectedAt = lk_connectCompletedAtMs c;
          firstRx = lk_firstRxAfterConnectMs c;
          firstRxSeen = (firstRx \<noteq> 0 \<and> connectedAt \<noteq> 0 \<and> reached firstRx connectedAt);
          settleStart = (if firstRxSeen then firstRx else connectedAt);
          settleBudget = (if firstRxSeen then CONNECT_BURST_SETTLE_AFTER_FIRST_RX_MS
                          else CONNECT_BURST_SETTLE_AFTER_CONNECTED_MS);
          timedOut = (settleStart \<noteq> 0 \<and> reached now (settleStart + settleBudget))
      in if lk_burstStableLoopCount c \<ge> CONNECT_BURST_STABLE_CONSECUTIVE_LOOPS \<or> timedOut
         then next_step (now + CONNECTED_FOLLOWUP_SEND_TIMEOUT_MS) FollowRequestVersion c else c)"

definition follow_request_version :: "send_environment \<Rightarrow> v1_client \<Rightarrow> v1_client" where
  "follow_request_version e c =
     (let now = sa_now (se_answers e) in
      if attempt_later now c then c
      else
        let (result, c) = sendEmptyPayloadFollowupRequest e PACKET_ID_VERSION c
        in if result = SendInFlight then c
           else if result \<noteq> SendSent
           then (if result = SendNotYet \<and> \<not> reached now (lk_followupSendDeadlineMs c)
                 then c\<lparr>lk_followupNextAttemptMs := now + CONNECTED_FOLLOWUP_RETRY_MS\<rparr>
                 else next_step (now + CONNECTED_FOLLOWUP_SEND_TIMEOUT_MS) FollowRequestUserBytes
                        (capture_timed_out c))
           else next_step 0 FollowWaitVersion (c\<lparr>lk_versionRequestStartedMs := now\<rparr>))"

definition follow_wait_version :: "send_environment \<Rightarrow> v1_client \<Rightarrow> v1_client" where
  "follow_wait_version e c =
     (let now = sa_now (se_answers e);
          deadline = now + CONNECTED_FOLLOWUP_SEND_TIMEOUT_MS;
          (retry, c) = consumeBoundedRetry PACKET_ID_VERSION c
      in if retry then next_step deadline FollowRequestVersion c
         else if bc_firmwareVersion c = 0
         then (if \<not> reached now (lk_versionRequestStartedMs c + VERSION_RESPONSE_TIMEOUT_MS) then c
               else next_step deadline FollowRequestUserBytes (capture_timed_out c))
         else if allVolume (capabilities (bc_firmwareVersion c))
         then next_step deadline FollowRequestAllVolume (expect_all_volume True c)
         else next_step deadline FollowRequestUserBytes c)"

definition follow_request_all_volume :: "send_environment \<Rightarrow> v1_client \<Rightarrow> v1_client" where
  "follow_request_all_volume e =
     (let deadline = sa_now (se_answers e) + CONNECTED_FOLLOWUP_SEND_TIMEOUT_MS
      in captured_request e PACKET_ID_REQ_ALL_VOLUME beginSessionAllVolumeCapture
           (\<lambda>c. next_step deadline FollowRequestUserBytes (expect_all_volume False (capture_timed_out c)))
           (next_step deadline FollowRequestUserBytes))"

definition follow_request_user_bytes :: "send_environment \<Rightarrow> v1_client \<Rightarrow> v1_client" where
  "follow_request_user_bytes e =
     captured_request e PACKET_ID_REQ_USER_BYTES beginSessionUserBytesCapture
       (\<lambda>c. next_step 0 FollowNotifyStableCallback (capture_timed_out c))
       (\<lambda>c. next_step 0 FollowWaitSettingsSnapshot (c\<lparr>bc_captureStartedMs := sa_now (se_answers e)\<rparr>))"

text \<open>The retries are tried in turn; the result is the step to repeat.\<close>

fun first_retry :: "(u8 \<times> followup_step) list \<Rightarrow> v1_client \<Rightarrow> followup_step option \<times> v1_client" where
  "first_retry [] c = (None, c)"
| "first_retry ((packetId, step) # rs) c =
     (let (retry, c) = consumeBoundedRetry packetId c
      in if retry then (Some step, c) else first_retry rs c)"

definition follow_wait_settings :: "send_environment \<Rightarrow> v1_client \<Rightarrow> v1_client" where
  "follow_wait_settings e c =
     (let now = sa_now (se_answers e);
          deadline = now + CONNECTED_FOLLOWUP_SEND_TIMEOUT_MS;
          (retry, c) = first_retry [(PACKET_ID_REQ_ALL_VOLUME, FollowRequestAllVolume),
                                    (PACKET_ID_REQ_USER_BYTES, FollowRequestUserBytes)] c
      in case retry of Some step \<Rightarrow> next_step deadline step c
         | None \<Rightarrow>
             let timedOut = reached now (bc_captureStartedMs c + SETTINGS_SNAPSHOT_RESPONSE_TIMEOUT_MS);
                 missing = (\<not> sc_hasUserBytes (bc_capture c) \<or>
                            sc_expectsAllVolume (bc_capture c) \<and> \<not> sc_hasAllVolume (bc_capture c))
             in if missing \<and> \<not> timedOut then c
                else
                  let c = (if timedOut \<and> missing then capture_timed_out c else c)
                  in if customSweeps (capabilities (bc_firmwareVersion c))
                     then next_step deadline FollowRequestSweepSections c
                     else c\<lparr>lk_followupStep := FollowNotifyStableCallback\<rparr>)"

definition follow_request_sweeps ::
    "send_environment \<Rightarrow> u8 \<Rightarrow> (u32 \<Rightarrow> v1_client \<Rightarrow> v1_client) \<Rightarrow> (v1_client \<Rightarrow> v1_client) \<Rightarrow> v1_client \<Rightarrow> v1_client" where
  "follow_request_sweeps e packetId arm sent =
     captured_request e packetId arm
       (\<lambda>c. (capture_timed_out c)\<lparr>lk_followupStep := FollowNotifyStableCallback\<rparr>) sent"

definition follow_wait_sweeps :: "send_environment \<Rightarrow> v1_client \<Rightarrow> v1_client" where
  "follow_wait_sweeps e c =
     (let now = sa_now (se_answers e);
          deadline = now + CONNECTED_FOLLOWUP_SEND_TIMEOUT_MS;
          (retry, c) = first_retry [(PACKET_ID_REQ_SWEEP_SECTIONS, FollowRequestSweepSections),
                                    (PACKET_ID_REQ_MAX_SWEEP_INDEX, FollowRequestMaxSweepIndex),
                                    (PACKET_ID_REQ_ALL_SWEEP_DEFINITIONS, FollowRequestAllSweepDefinitions)] c
      in case retry of Some step \<Rightarrow> next_step deadline step c
         | None \<Rightarrow>
             let s = bc_capture c;
                 complete = (sc_hasSweepSections s \<and> sc_hasSweepMax s \<and> sc_hasSweepDefinitions s);
                 timedOut = reached now (bc_captureStartedMs c + SETTINGS_SNAPSHOT_RESPONSE_TIMEOUT_MS)
             in if \<not> complete \<and> \<not> timedOut then c
                else (if \<not> complete then capture_timed_out c else c)\<lparr>lk_followupStep := FollowNotifyStableCallback\<rparr>)"

text \<open>The number of bonds is an answer of the stack.\<close>

definition follow_backup_bonds :: "u8 \<Rightarrow> v1_client \<Rightarrow> v1_client" where
  "follow_backup_bonds currentBondCount c =
     (let c = (if bc_lastBondBackupCount c \<noteq> currentBondCount
               then c\<lparr>bc_pendingBondBackup := True, bc_pendingBondBackupCount := currentBondCount,
                      bc_pendingBondBackupRetryAtMs := 0\<rparr> else c)
      in c\<lparr>lk_followupStep := FollowNone\<rparr>)"

definition followup_body :: "send_environment \<Rightarrow> u8 \<Rightarrow> v1_client \<Rightarrow> v1_client" where
  "followup_body e bonds c =
     (let now = sa_now (se_answers e);
          deadline = now + CONNECTED_FOLLOWUP_SEND_TIMEOUT_MS
      in case lk_followupStep c of
           FollowNone \<Rightarrow> c
         | FollowRequestAlertData \<Rightarrow> follow_request_alert_data e c
         | FollowWaitConnectBurstSettle \<Rightarrow> follow_wait_burst e c
         | FollowRequestVersion \<Rightarrow> follow_request_version e c
         | FollowWaitVersion \<Rightarrow> follow_wait_version e c
         | FollowRequestAllVolume \<Rightarrow> follow_request_all_volume e c
         | FollowRequestUserBytes \<Rightarrow> follow_request_user_bytes e c
         | FollowWaitSettingsSnapshot \<Rightarrow> follow_wait_settings e c
         | FollowRequestSweepSections \<Rightarrow>
             follow_request_sweeps e PACKET_ID_REQ_SWEEP_SECTIONS beginSessionSweepSectionsCapture
               (next_step deadline FollowRequestMaxSweepIndex) c
         | FollowRequestMaxSweepIndex \<Rightarrow>
             follow_request_sweeps e PACKET_ID_REQ_MAX_SWEEP_INDEX beginSessionSweepMaxCapture
               (next_step deadline FollowRequestAllSweepDefinitions) c
         | FollowRequestAllSweepDefinitions \<Rightarrow>
             follow_request_sweeps e PACKET_ID_REQ_ALL_SWEEP_DEFINITIONS beginSessionSweepDefinitionsCapture
               (\<lambda>c. next_step 0 FollowWaitSweepSnapshot (c\<lparr>bc_captureStartedMs := now\<rparr>)) c
         | FollowWaitSweepSnapshot \<Rightarrow> follow_wait_sweeps e c
         | FollowNotifyStableCallback \<Rightarrow>
             c\<lparr>bc_stableCalls := bc_stableCalls c + 1, lk_followupStep := FollowBackupBonds\<rparr>
         | FollowBackupBonds \<Rightarrow> follow_backup_bonds bonds c)"

definition processConnectedFollowup :: "send_environment \<Rightarrow> u8 \<Rightarrow> v1_client \<Rightarrow> v1_client" where
  "processConnectedFollowup e bonds c =
     snd (command_scope OwnConnectedFollowup (\<lambda>c. ((), followup_body e bonds c)) c)"

text \<open>The part of the pass that runs it.\<close>

definition drain_followup :: "send_environment \<Rightarrow> u8 \<Rightarrow> v1_client \<Rightarrow> v1_client" where
  "drain_followup e bonds c =
     (if lk_followupStep c \<noteq> FollowNone \<and> isConnected c then processConnectedFollowup e bonds c else c)"

section \<open>Recapture and the bond backup\<close>

definition beginSettingsRecapture :: "u32 \<Rightarrow> v1_client \<Rightarrow> bool \<times> v1_client" where
  "beginSettingsRecapture now c =
     (if \<not> isConnected c \<or> lk_followupStep c \<noteq> FollowNone \<or> commandInFlight c OwnConnectedFollowup \<or>
         bc_firmwareVersion c = 0
      then (False, c)
      else
        let c = (resetSessionSettingsCapture c)\<lparr>lk_flow := clearReleasedRetries (lk_flow c),
                  lk_followupRetryUsed := {}\<rparr>;
            deadline = now + CONNECTED_FOLLOWUP_SEND_TIMEOUT_MS
        in (True, if allVolume (capabilities (bc_firmwareVersion c))
                  then next_step deadline FollowRequestAllVolume (expect_all_volume True c)
                  else next_step deadline FollowRequestUserBytes c))"

definition DEFERRED_BOND_BACKUP_RETRY_MS :: u32 where "DEFERRED_BOND_BACKUP_RETRY_MS = 1000"

text \<open>\<open>backed\<close> is the answer of the writer's queue, negative when it is full.\<close>

definition serviceDeferredBondBackup :: "u32 \<Rightarrow> int \<Rightarrow> v1_client \<Rightarrow> v1_client" where
  "serviceDeferredBondBackup now backed c =
     (if \<not> bc_pendingBondBackup c then c
      else if bc_pendingBondBackupCount c = bc_lastBondBackupCount c
      then c\<lparr>bc_pendingBondBackup := False, bc_pendingBondBackupRetryAtMs := 0\<rparr>
      else if bc_pendingBondBackupRetryAtMs c \<noteq> 0 \<and> \<not> reached now (bc_pendingBondBackupRetryAtMs c) then c
      else if backed \<ge> 0
      then c\<lparr>bc_lastBondBackupCount := bc_pendingBondBackupCount c, bc_pendingBondBackup := False,
             bc_pendingBondBackupRetryAtMs := 0\<rparr>
      else c\<lparr>bc_pendingBondBackupRetryAtMs := now + DEFERRED_BOND_BACKUP_RETRY_MS\<rparr>)"

definition schedulePostDeleteBondBackup :: "u32 \<Rightarrow> u8 \<Rightarrow> int \<Rightarrow> v1_client \<Rightarrow> v1_client" where
  "schedulePostDeleteBondBackup now bonds backed c =
     serviceDeferredBondBackup now backed
       (c\<lparr>bc_lastBondBackupCount := 0xFF, bc_pendingBondBackup := True, bc_pendingBondBackupCount := bonds,
          bc_pendingBondBackupRetryAtMs := 0\<rparr>)"

section \<open>What the follow-up can change\<close>

text \<open>
  The follow-up has fields of its own; everything else it changes through its sends. A property
  that does not read those fields and that a send keeps is kept by the whole follow-up.
\<close>

definition followup_free :: "v1_client \<Rightarrow> v1_client" where
  "followup_free c = c\<lparr>lk_flow := fc_reset, lk_followupStep := FollowNone, lk_followupNextAttemptMs := 0,
     lk_followupSendDeadlineMs := 0, lk_followupRetryUsed := {}, lk_burstStableLoopCount := 0,
     lk_versionRequestStartedMs := 0, lk_verifyPushMatchEdge := False, bc_commandOwner := OwnLegacy,
     bc_capture := new_capture, bc_verifiedApplyGeneration := 0, bc_captureStartedMs := 0,
     bc_lastBondBackupCount := 0, bc_pendingBondBackup := False, bc_pendingBondBackupCount := 0,
     bc_pendingBondBackupRetryAtMs := 0, bc_stableCalls := 0\<rparr>"

lemma free_next_step [simp]: "followup_free (next_step deadline s c) = followup_free c"
  by (simp add: followup_free_def next_step_def)

lemma free_fields [simp]:
  "followup_free (capture_timed_out c) = followup_free c"
  "followup_free (expect_all_volume b c) = followup_free c"
  "followup_free (c\<lparr>lk_followupStep := s\<rparr>) = followup_free c"
  "followup_free (c\<lparr>lk_followupNextAttemptMs := t\<rparr>) = followup_free c"
  "followup_free (c\<lparr>lk_burstStableLoopCount := n\<rparr>) = followup_free c"
  "followup_free (c\<lparr>lk_versionRequestStartedMs := t\<rparr>) = followup_free c"
  "followup_free (c\<lparr>bc_captureStartedMs := t\<rparr>) = followup_free c"
  "followup_free (c\<lparr>bc_commandOwner := owner\<rparr>) = followup_free c"
  "followup_free (c\<lparr>bc_capture := s'\<rparr>) = followup_free c"
  by (simp_all add: followup_free_def capture_timed_out_def expect_all_volume_def)

lemma free_arms [simp]:
  "followup_free (beginSessionUserBytesCapture b c) = followup_free c"
  "followup_free (beginSessionAllVolumeCapture b c) = followup_free c"
  "followup_free (beginSessionSweepSectionsCapture b c) = followup_free c"
  "followup_free (beginSessionSweepMaxCapture b c) = followup_free c"
  "followup_free (beginSessionSweepDefinitionsCapture b c) = followup_free c"
  by (simp_all add: capture_ops)

lemma free_capture_step [simp]: "followup_free (capture_step c e) = followup_free c"
  by (subst capture_step_alone) (simp del: capture_step.simps)

lemma free_bonds [simp]:
  "followup_free (follow_backup_bonds n c) = followup_free c"
  "followup_free (serviceDeferredBondBackup now backed c) = followup_free c"
  "followup_free (snd (beginSettingsRecapture now c)) = followup_free c"
  "followup_free (publishVerifiedSettingsApplyEdge g c) = followup_free c"
  "followup_free (clearVerifiedSettingsApplyEdge c) = followup_free c"
  "followup_free (snd (consumeVerifyPushMatchEdge c)) = followup_free c"
  by (simp_all add: followup_free_def follow_backup_bonds_def serviceDeferredBondBackup_def
      beginSettingsRecapture_def resetSessionSettingsCapture_def next_step_def expect_all_volume_def
      publishVerifiedSettingsApplyEdge_def clearVerifiedSettingsApplyEdge_def consumeVerifyPushMatchEdge_def Let_def)

lemma free_retry [simp]: "followup_free (snd (consumeBoundedRetry i c)) = followup_free c"
  by (simp add: followup_free_def consumeBoundedRetry_def Let_def split_beta)

lemma free_first_retry [simp]: "followup_free (snd (first_retry rs c)) = followup_free c"
  by (induction rs arbitrary: c) (auto simp: Let_def split_beta)

lemma free_waits [simp]:
  "followup_free (follow_wait_burst e c) = followup_free c"
  "followup_free (follow_wait_version e c) = followup_free c"
  "followup_free (follow_wait_settings e c) = followup_free c"
  "followup_free (follow_wait_sweeps e c) = followup_free c"
  by (simp_all add: follow_wait_burst_def follow_wait_version_def follow_wait_settings_def
      follow_wait_sweeps_def Let_def split_beta split: option.split)

text \<open>A request step leaves the client as it was or as its send leaves it, up to those fields.\<close>

lemma captured_request_shape:
  assumes "\<And>b c. followup_free (arm b c) = followup_free c" "\<And>c. followup_free (given_up c) = followup_free c"
    and "\<And>c. followup_free (sent c) = followup_free c"
  shows "followup_free (captured_request e i arm given_up sent c) = followup_free c \<or>
    followup_free (captured_request e i arm given_up sent c) =
      followup_free (snd (sendEmptyPayloadFollowupRequest e i c))"
  by (simp add: captured_request_def Let_def split_beta assms)

lemma request_shapes:
  "followup_free (follow_request_all_volume e c) = followup_free c \<or>
   followup_free (follow_request_all_volume e c) =
     followup_free (snd (sendEmptyPayloadFollowupRequest e PACKET_ID_REQ_ALL_VOLUME c))"
  "followup_free (follow_request_user_bytes e c) = followup_free c \<or>
   followup_free (follow_request_user_bytes e c) =
     followup_free (snd (sendEmptyPayloadFollowupRequest e PACKET_ID_REQ_USER_BYTES c))"
  unfolding follow_request_all_volume_def follow_request_user_bytes_def Let_def
  by (rule captured_request_shape; simp)+

lemma sweep_shape:
  assumes "\<And>b c. followup_free (arm b c) = followup_free c" "\<And>c. followup_free (sent c) = followup_free c"
  shows "followup_free (follow_request_sweeps e i arm sent c) = followup_free c \<or>
    followup_free (follow_request_sweeps e i arm sent c) =
      followup_free (snd (sendEmptyPayloadFollowupRequest e i c))"
  unfolding follow_request_sweeps_def by (rule captured_request_shape) (simp_all add: assms)

lemma alert_shape:
  "followup_free (follow_request_alert_data e c) \<in>
     {followup_free c,
      followup_free (snd (sendCommandWithResult e (Some (request_frame PACKET_ID_REQ_START_ALERT 0x01 [])) c))}"
  by (simp add: follow_request_alert_data_def requestAlertData_def sendCommand_def Let_def split_beta)

lemma version_shape:
  "followup_free (follow_request_version e c) \<in>
     {followup_free c, followup_free (snd (sendEmptyPayloadFollowupRequest e PACKET_ID_VERSION c))}"
  by (simp add: follow_request_version_def Let_def split_beta)

text \<open>The rule: \<open>P\<close> does not read the follow-up's fields and survives a send of the short channel.\<close>

lemma followup_body_shape:
  "followup_free (followup_body e bonds c) = followup_free c \<or>
   (\<exists>d. followup_free (followup_body e bonds c) = followup_free (snd (sendCommandWithResult e (Some d) c)))"
proof (cases "lk_followupStep c")
  case FollowRequestAlertData
  with alert_shape [of e c] show ?thesis by (auto simp: followup_body_def)
next
  case FollowRequestVersion
  with version_shape [of e c] show ?thesis by (auto simp: followup_body_def sendEmptyPayloadFollowupRequest_def)
next
  case FollowRequestAllVolume
  with request_shapes(1) [of e c] show ?thesis by (auto simp: followup_body_def sendEmptyPayloadFollowupRequest_def)
next
  case FollowRequestUserBytes
  with request_shapes(2) [of e c] show ?thesis by (auto simp: followup_body_def sendEmptyPayloadFollowupRequest_def)
next
  case FollowRequestSweepSections
  with sweep_shape [of beginSessionSweepSectionsCapture
      "next_step (sa_now (se_answers e) + CONNECTED_FOLLOWUP_SEND_TIMEOUT_MS) FollowRequestMaxSweepIndex" e
      PACKET_ID_REQ_SWEEP_SECTIONS c] show ?thesis
    by (auto simp: followup_body_def sendEmptyPayloadFollowupRequest_def)
next
  case FollowRequestMaxSweepIndex
  with sweep_shape [of beginSessionSweepMaxCapture
      "next_step (sa_now (se_answers e) + CONNECTED_FOLLOWUP_SEND_TIMEOUT_MS) FollowRequestAllSweepDefinitions" e
      PACKET_ID_REQ_MAX_SWEEP_INDEX c] show ?thesis
    by (auto simp: followup_body_def sendEmptyPayloadFollowupRequest_def)
next
  case FollowRequestAllSweepDefinitions
  with sweep_shape [of beginSessionSweepDefinitionsCapture
      "\<lambda>c. next_step 0 FollowWaitSweepSnapshot (c\<lparr>bc_captureStartedMs := sa_now (se_answers e)\<rparr>)" e
      PACKET_ID_REQ_ALL_SWEEP_DEFINITIONS c] show ?thesis
    by (auto simp: followup_body_def sendEmptyPayloadFollowupRequest_def)
next
  case FollowNotifyStableCallback
  then show ?thesis by (simp add: followup_body_def followup_free_def)
qed (simp_all add: followup_body_def)

lemma followup_keeps:
  assumes free: "\<And>c d. followup_free c = followup_free d \<Longrightarrow> P d \<Longrightarrow> P c"
    and send: "\<And>d c. P c \<Longrightarrow> P (snd (sendCommandWithResult e (Some d) c))"
    and c: "P c"
  shows "P (drain_followup e bonds c)"
proof -
  have o: "P (c\<lparr>bc_commandOwner := OwnConnectedFollowup\<rparr>)" by (rule free [OF _ c]) simp
  from followup_body_shape [of e bonds "c\<lparr>bc_commandOwner := OwnConnectedFollowup\<rparr>"]
  have "P (followup_body e bonds (c\<lparr>bc_commandOwner := OwnConnectedFollowup\<rparr>))"
    using free o send [OF o] by metis
  then have "P (processConnectedFollowup e bonds c)"
    by (rule free [rotated]) (simp add: processConnectedFollowup_def command_scope_def)
  with c show ?thesis by (simp add: drain_followup_def)
qed

end
