(* ===== verification/V1_Client_Dispatch.thy ===== *)
theory V1_Client_Dispatch
  imports V1_Connected_Followup
begin

text \<open>
  The client's pass of the main loop (\<open>src/ble_runtime.cpp\<close>): what the callbacks deferred to it,
  the connected follow-up and the connection state machine.
\<close>

section \<open>Deferred events\<close>

text \<open>A deferred connect is published only while its session is still the accepted one.\<close>

definition apply_connect_update :: "stack_answers \<Rightarrow> v1_client \<Rightarrow> v1_client" where
  "apply_connect_update a c =
     (if lk_connectUpdate c \<and> sa_lockFree a
      then
        let edgeGeneration = lk_connectUpdateGeneration c;
            c = c\<lparr>lk_connectUpdate := False, lk_connectUpdateGeneration := 0\<rparr>;
            edgeStillAccepted = (edgeGeneration = lk_generation c \<and> lk_acceptCallbacks c \<and>
                                 gate_accepts (lk_gate c) edgeGeneration);
            c = (if edgeStillAccepted
                 then c\<lparr>bc_firmwareVersion := 0, lk_versionRequestStartedMs := 0\<rparr> else c);
            c = c\<lparr>lk_connected := edgeStillAccepted\<rparr>
        in if edgeStillAccepted then c\<lparr>lk_openedSessions := edgeGeneration # lk_openedSessions c\<rparr> else c
      else c)"

definition apply_disconnect_cleanup :: "stack_answers \<Rightarrow> v1_client \<Rightarrow> v1_client" where
  "apply_disconnect_cleanup a c =
     (if lk_disconnectCleanup c \<and> sa_lockFree a
      then
        let disconnectWasExpected = (lk_state c = BleQuiescing)
        in beginClientQuiesce a False
             (c\<lparr>lk_disconnectCleanup := False, lk_disconnectReason := 0, lk_connected := False,
                lk_connectInProgress := False, lk_connectStartMs := 0, lk_followupStep := FollowNone,
                bc_firmwareVersion := 0, lk_versionRequestStartedMs := 0, lk_connectCompletedAtMs := 0,
                lk_firstRxAfterConnectMs := 0, lk_burstStableLoopCount := 0,
                bc_proxyClientConnected := False, bc_proxyDisconnectRequested := False,
                lk_verifyPushMatchEdge := False,
                lk_consecutiveConnectFailures :=
                  (if disconnectWasExpected then lk_consecutiveConnectFailures c else 0),
                lk_nextConnectAllowedMs := 0, lk_shouldConnect := False\<rparr>)
      else c)"

definition apply_scan_end :: "stack_answers \<Rightarrow> v1_client \<Rightarrow> v1_client" where
  "apply_scan_end a c =
     (if lk_scanEndUpdate c \<and> sa_lockFree a
      then
        let c = c\<lparr>lk_scanEndUpdate := False\<rparr>
        in if lk_state c = BleScanning \<and> lk_scanTarget c = None
           then setBLEState (sa_now a) BleDisconnected c else c
      else c)"

definition apply_scan_target :: "stack_answers \<Rightarrow> v1_client \<Rightarrow> v1_client" where
  "apply_scan_target a c =
     (case lk_scanTarget c of
        None \<Rightarrow> c
      | Some address \<Rightarrow>
          if \<not> sa_lockFree a then c
          else
            let c = c\<lparr>lk_scanTarget := None\<rparr>
            in if lk_state c = BleScanning
               then setBLEState (sa_now a) BleScanStopping
                      (c\<lparr>lk_targetAddress := address, lk_shouldConnect := True,
                         lk_scanStopRequestedMs := sa_now a\<rparr>)
               else c)"

section \<open>The connection state machine\<close>

definition RECONNECT_DELAY :: u32 where "RECONNECT_DELAY = 100"
definition SCAN_DURATION :: u32 where "SCAN_DURATION = 10000"
definition SCAN_STOP_SETTLE_MS :: u32 where "SCAN_STOP_SETTLE_MS = 100"
definition SCAN_STOP_SETTLE_FRESH_MS :: u32 where "SCAN_STOP_SETTLE_FRESH_MS = 200"
definition CONNECT_INITIATION_TIMEOUT_MS :: u32 where "CONNECT_INITIATION_TIMEOUT_MS = 5000"

definition dispatch_disconnected :: "stack_answers \<Rightarrow> v1_client \<Rightarrow> v1_client" where
  "dispatch_disconnected a c =
     (if lk_taskRunning c then beginClientQuiesce a False c
      else if \<not> sa_scanning a \<and> elapsed_ms (sa_now a) (lk_lastScanStart c) \<ge> RECONNECT_DELAY
      then
        let c = c\<lparr>lk_lastScanStart := sa_now a\<rparr>
        in if sa_scanStarted a then setBLEState (sa_now a) BleScanning c else c
      else c)"

definition dispatch_scanning :: "stack_answers \<Rightarrow> v1_client \<Rightarrow> v1_client" where
  "dispatch_scanning a c =
     (let wantConnect = (sa_lockFree a \<and> lk_shouldConnect c) in
      if wantConnect then setBLEState (sa_now a) BleScanStopping (c\<lparr>lk_scanStopRequestedMs := sa_now a\<rparr>)
      else if \<not> sa_scanning a \<and> elapsed_ms (sa_now a) (lk_lastScanStart c) > SCAN_DURATION + 5000
      then setBLEState (sa_now a) BleDisconnected c
      else c)"

definition dispatch_scan_stopping :: "stack_answers \<Rightarrow> v1_client \<Rightarrow> v1_client" where
  "dispatch_scan_stopping a c =
     (let elapsed = elapsed_ms (sa_now a) (lk_scanStopRequestedMs c) in
      if sa_scanning a then c
      else
        let c = (if \<not> lk_scanStopResultsCleared c \<and> elapsed > 100
                 then c\<lparr>lk_scanStopResultsCleared := True\<rparr> else c);
            settleTime = (if lk_firstScanAfterBoot c then SCAN_STOP_SETTLE_FRESH_MS else SCAN_STOP_SETTLE_MS)
        in if elapsed \<ge> settleTime
           then
             let wantConnect = (sa_lockFree a \<and> lk_shouldConnect c);
                 c = c\<lparr>lk_firstScanAfterBoot := False,
                       lk_shouldConnect := (if sa_lockFree a then False else lk_shouldConnect c)\<rparr>
             in if wantConnect then snd (connectToServer a c)
                else setBLEState (sa_now a) BleDisconnected c
           else c)"

definition dispatch_connecting :: "stack_answers \<Rightarrow> v1_client \<Rightarrow> v1_client" where
  "dispatch_connecting a c =
     (if lk_nextConnectAllowedMs c \<noteq> 0 \<and> \<not> reached (sa_now a) (lk_nextConnectAllowedMs c) then c
      else
        let c = (if \<not> lk_asyncConnectPending c \<and> \<not> lk_asyncConnectSuccess c
                 then snd (startAsyncConnect a c) else c)
        in if lk_state c \<noteq> BleConnecting then c
           else if lk_connectStartMs c > 0 \<and>
                   elapsed_ms (sa_now a) (lk_connectStartMs c) > CONNECT_INITIATION_TIMEOUT_MS
           then beginClientQuiesce a False (drop_attempt c)
           else c)"

definition dispatch_connected :: "stack_answers \<Rightarrow> v1_client \<Rightarrow> v1_client" where
  "dispatch_connected a c =
     (if \<not> stack_connected c
      then beginClientQuiesce a False (c\<lparr>lk_connected := False, lk_connectInProgress := False\<rparr>)
      else c)"

text \<open>The outcome is \<open>QuiesceRestart\<close> when the firmware restarts itself.\<close>

definition dispatchConnectionState :: "stack_answers \<Rightarrow> v1_client \<Rightarrow> bool \<times> v1_client" where
  "dispatchConnectionState a c =
     (if \<not> lk_bootReady c then (False, c)
      else case lk_state c of
        BleDisconnected \<Rightarrow> (False, dispatch_disconnected a c)
      | BleScanning \<Rightarrow> (False, dispatch_scanning a c)
      | BleScanStopping \<Rightarrow> (False, dispatch_scan_stopping a c)
      | BleConnecting \<Rightarrow> (False, dispatch_connecting a c)
      | BleConnectingWait \<Rightarrow> (False, processConnectingWait a c)
      | BleDiscovering \<Rightarrow> (False, processDiscovering a c)
      | BleSubscribing \<Rightarrow> (False, snd (processSubscribing a c))
      | BleSubscribeYield \<Rightarrow> (False, processSubscribeYield a c)
      | BleConnected \<Rightarrow> (False, dispatch_connected a c)
      | BleQuiescing \<Rightarrow> (let (outcome, c) = poll_quiesce a c in (outcome = QuiesceRestart, c)))"

text \<open>
  The pass: the deferred events and the outstanding command, the connected follow-up, the state
  machine. The phone's queue, served just before the follow-up, and the proxy's advertising,
  just after it, are not part of it; the phone's commands are sends of their owner.
\<close>

definition deferred_work :: "stack_answers \<Rightarrow> v1_client \<Rightarrow> v1_client" where
  "deferred_work a c =
     serviceCommandWrite a
       (apply_scan_target a (apply_scan_end a (apply_disconnect_cleanup a (apply_connect_update a c))))"

definition client_pass :: "send_environment \<Rightarrow> u8 \<Rightarrow> v1_client \<Rightarrow> bool \<times> v1_client" where
  "client_pass e bonds c =
     dispatchConnectionState (se_answers e) (drain_followup e bonds (deferred_work (se_answers e) c))"

end
