(* ===== verification/V1_Client_Machine.thy ===== *)
theory V1_Client_Machine
  imports V1_Client_Dispatch
begin

text \<open>
  The Bluetooth client as a machine: the passes of the main loop, the commands its modules
  send, and the steps of the callbacks and workers, in any order. The invariant ties the running
  gate, the outstanding command and the session together.
\<close>

section \<open>Events\<close>

datatype client_event =
    EvAsync async_event
  | EvDeferred stack_answers
  | EvFollowup send_environment u8
  | EvDispatch stack_answers
  | EvSend send_environment command_owner bool "u8 list option" bool u32
  | EvCancel stack_answers command_owner
  | EvQuiesce stack_answers bool
  | EvNotProcessed u8 u32
  | EvDisplay bool
  | EvBusy "u8 list option"
  | EvVersion u32
  | EvAlertReset u32
  | EvAlertQualify u32 u32
  | EvPhoneConnected bool
  | EvBootReady bool
  | EvCapture capture_event
  | EvRecapture u32
  | EvBondBackup u32 int
  | EvVerified u32
  | EvClearVerified
  | EvConsumeVerified

definition command_channel :: "bool \<Rightarrow> v1_client \<Rightarrow> remote_characteristic option" where
  "command_channel long c = (if long then lk_commandCharLong c else lk_commandChar c)"

definition send_as ::
    "send_environment \<Rightarrow> command_owner \<Rightarrow> bool \<Rightarrow> u8 list option \<Rightarrow> bool \<Rightarrow> u32 \<Rightarrow> v1_client \<Rightarrow>
      send_result \<times> v1_client" where
  "send_as e owner long data response phone c =
     command_scope owner (\<lambda>c. sendCharacteristicCommand e (command_channel long c) data response phone c) c"

fun client_step :: "v1_client \<Rightarrow> client_event \<Rightarrow> v1_client" where
  "client_step c (EvAsync e) = async_step c e"
| "client_step c (EvDeferred a) = deferred_work a c"
| "client_step c (EvFollowup e bonds) = drain_followup e bonds c"
| "client_step c (EvDispatch a) = snd (dispatchConnectionState a c)"
| "client_step c (EvSend e owner long data response phone) = snd (send_as e owner long data response phone c)"
| "client_step c (EvCancel a owner) = cancelCommand a owner c"
| "client_step c (EvQuiesce a hard) = beginClientQuiesce a hard c"
| "client_step c (EvNotProcessed i x) = onV1RequestNotProcessed i x c"
| "client_step c (EvDisplay h) = onV1DisplayFlowControl h c"
| "client_step c (EvBusy ids) = onV1Busy ids c"
| "client_step c (EvVersion v) = onV1FirmwareVersionReceived v c"
| "client_step c (EvAlertReset g) = c\<lparr>bc_alertInput := resetV1AlertInput g (bc_alertInput c)\<rparr>"
| "client_step c (EvAlertQualify g x) = c\<lparr>bc_alertInput := qualifyV1AlertInput g x (bc_alertInput c)\<rparr>"
| "client_step c (EvPhoneConnected b) = c\<lparr>bc_proxyClientConnected := b\<rparr>"
| "client_step c (EvBootReady b) = c\<lparr>lk_bootReady := b\<rparr>"
| "client_step c (EvCapture e) = capture_step c e"
| "client_step c (EvRecapture now) = snd (beginSettingsRecapture now c)"
| "client_step c (EvBondBackup now backed) = serviceDeferredBondBackup now backed c"
| "client_step c (EvVerified g) = publishVerifiedSettingsApplyEdge g c"
| "client_step c EvClearVerified = clearVerifiedSettingsApplyEdge c"
| "client_step c EvConsumeVerified = snd (consumeVerifyPushMatchEdge c)"

text \<open>A pass of the main loop is its three steps.\<close>

lemma client_pass_steps:
  "snd (client_pass e bonds c) =
     foldl client_step c [EvDeferred (se_answers e), EvFollowup e bonds, EvDispatch (se_answers e)]"
  by (simp add: client_pass_def)

definition new_client :: v1_client where
  "new_client = v1_link.extend new_link
     \<lparr>bc_phoneSession = 0, bc_proxyClientConnected = False, bc_proxyDisconnectRequested = False,
      bc_firmwareVersion = 0,
      bc_alertInput = \<lparr>ai_session = 0, ai_lossIngress = 0, ai_continuous = True, ai_revision = 0\<rparr>,
      bc_notificationIngress = 0, bc_alertGate = new_gate, bc_receipt = new_receipt,
      bc_commandOwner = OwnLegacy, bc_context = no_context, bc_active = False, bc_startedMs = 0,
      bc_lastSentMs = 0, bc_rejectionIngress = 0, bc_workerStarted = False, bc_workerIngress = 0,
      bc_workerResult = False, bc_completedIngress = (\<lambda>_. 0), bc_capture = new_capture,
      bc_verifiedApplyGeneration = 0, bc_captureStartedMs = 0, bc_lastBondBackupCount = 0xFF,
      bc_pendingBondBackup = False, bc_pendingBondBackupCount = 0xFF, bc_pendingBondBackupRetryAtMs = 0,
      bc_stableCalls = 0, bc_worker = WorkerAbsent, bc_wire = []\<rparr>"

section \<open>The invariant\<close>

definition before_subscription :: "ble_state \<Rightarrow> bool" where
  "before_subscription s \<longleftrightarrow>
     s \<in> {BleDisconnected, BleScanning, BleScanStopping, BleConnecting, BleConnectingWait, BleDiscovering}"

definition idle_state :: "ble_state \<Rightarrow> bool" where
  "idle_state s \<longleftrightarrow> s \<in> {BleDisconnected, BleScanning, BleScanStopping}"

text \<open>The session part: what an open gate, a quiesce and the early states mean.\<close>

definition session_inv :: "'a v1_link_scheme \<Rightarrow> bool" where
  "session_inv l \<longleftrightarrow>
     (lk_gate l \<noteq> 0 \<longrightarrow> lk_gate l = lk_generation l) \<and>
     (lk_state l = BleQuiescing \<longrightarrow> lk_gate l = 0 \<and> \<not> lk_acceptCallbacks l \<and> \<not> lk_connected l) \<and>
     (lk_connected l \<longrightarrow> lk_gate l \<noteq> 0 \<and> lk_acceptCallbacks l) \<and>
     (before_subscription (lk_state l) \<longrightarrow> lk_commandChar l = None \<and> lk_commandCharLong l = None) \<and>
     (idle_state (lk_state l) \<longrightarrow> \<not> lk_connectInProgress l)"

text \<open>The worker part: the running gate belongs to exactly one worker.\<close>

definition worker_inv :: "v1_client \<Rightarrow> bool" where
  "worker_inv c \<longleftrightarrow>
     (lk_taskRunning c \<longleftrightarrow> bc_worker c \<noteq> WorkerAbsent \<or> lk_attributeWorker c \<noteq> NoAttributeWorker) \<and>
     (bc_worker c \<noteq> WorkerAbsent \<longrightarrow> bc_active c \<and> \<not> bc_workerResult c \<and> lk_attributeWorker c = NoAttributeWorker) \<and>
     (\<forall>x. bc_worker c = WorkerWriting x \<longrightarrow> x = bc_context c \<and> bc_workerStarted c)"

text \<open>The mute the in-the-box policy asks for.\<close>

definition box_mute :: "command_owner \<Rightarrow> u8 list \<Rightarrow> bool" where
  "box_mute owner d \<longleftrightarrow> owner = OwnInTheBox \<and> 3 < length d \<and> d ! 3 = PACKET_ID_MUTE_ON"

text \<open>The command part: what is outstanding, and that a result is the result of its write.\<close>

definition command_inv :: "v1_client \<Rightarrow> bool" where
  "command_inv c \<longleftrightarrow>
     (bc_active c \<longrightarrow>
        cx_data (bc_context c) \<noteq> [] \<and> length (cx_data (bc_context c)) \<le> COMMAND_BUFFER \<and>
        cx_characteristic (bc_context c) \<noteq> None \<and> \<not> before_subscription (lk_state c) \<and>
        lk_generation c = (if lk_state c = BleQuiescing then skip_zero (cx_generation (bc_context c) + 1)
                           else cx_generation (bc_context c)) \<and>
        (box_mute (cx_owner (bc_context c)) (cx_data (bc_context c)) \<longrightarrow>
           cx_requiresContinuousAlertInput (bc_context c)) \<and>
        (bc_workerResult c \<longrightarrow> written (bc_context c) \<in> set (bc_wire c)))"

definition client_inv :: "v1_client \<Rightarrow> bool" where
  "client_inv c \<longleftrightarrow> session_inv c \<and> worker_inv c \<and> command_inv c"

lemmas inv_defs = client_inv_def session_inv_def worker_inv_def command_inv_def before_subscription_def
  idle_state_def

lemma new_client_inv: "client_inv new_client"
  by (simp add: inv_defs new_client_def new_link_def v1_link.defs gate_close_def)

section \<open>The steps of the link\<close>

lemma begin_quiesce_inv: "client_inv c \<Longrightarrow> client_inv (beginClientQuiesce a hard c)"
  by (auto simp: inv_defs beginClientQuiesce_def setBLEState_def Let_def gate_close_def)

lemma set_state_inv:
  assumes "client_inv c" "lk_state c \<noteq> BleQuiescing" "s \<noteq> BleQuiescing"
    and "before_subscription s \<Longrightarrow> before_subscription (lk_state c)"
    and "idle_state s \<Longrightarrow> \<not> lk_connectInProgress c"
  shows "client_inv (setBLEState now s c)"
  using assms by (auto simp: client_inv_def session_inv_def worker_inv_def command_inv_def setBLEState_def)

text \<open>Fields the invariant does not read can be set freely.\<close>

lemma free_fields_inv [simp]:
  "client_inv (c\<lparr>lk_nextConnectAllowedMs := x1\<rparr>) = client_inv c"
  "client_inv (c\<lparr>lk_shouldConnect := x2\<rparr>) = client_inv c"
  "client_inv (c\<lparr>lk_consecutiveConnectFailures := x3\<rparr>) = client_inv c"
  "client_inv (c\<lparr>lk_scanStopRequestedMs := x4\<rparr>) = client_inv c"
  "client_inv (c\<lparr>lk_lastScanStart := x5\<rparr>) = client_inv c"
  "client_inv (c\<lparr>lk_scanStopResultsCleared := x6\<rparr>) = client_inv c"
  "client_inv (c\<lparr>lk_firstScanAfterBoot := x7\<rparr>) = client_inv c"
  "client_inv (c\<lparr>lk_bootReady := x8\<rparr>) = client_inv c"
  "client_inv (c\<lparr>bc_alertInput := x9\<rparr>) = client_inv c"
  "client_inv (c\<lparr>bc_proxyClientConnected := x10\<rparr>) = client_inv c"
  "client_inv (c\<lparr>bc_commandOwner := x11\<rparr>) = client_inv c"
  "client_inv (c\<lparr>lk_scanEndUpdate := x12\<rparr>) = client_inv c"
  "client_inv (c\<lparr>lk_scanTarget := x13\<rparr>) = client_inv c"
  "client_inv (c\<lparr>lk_targetAddress := x14\<rparr>) = client_inv c"
  "client_inv (c\<lparr>lk_subscribeYieldUntilMs := x15\<rparr>) = client_inv c"
  "client_inv (c\<lparr>bc_lastSentMs := x16\<rparr>) = client_inv c"
  "client_inv (c\<lparr>bc_completedIngress := x17\<rparr>) = client_inv c"
  "client_inv (c\<lparr>bc_capture := x18\<rparr>) = client_inv c"
  "client_inv (c\<lparr>bc_receipt := x19\<rparr>) = client_inv c"
  "client_inv (c\<lparr>bc_alertGate := x20\<rparr>) = client_inv c"
  "client_inv (c\<lparr>bc_notificationIngress := x21\<rparr>) = client_inv c"
  "client_inv (c\<lparr>bc_phoneSession := x22\<rparr>) = client_inv c"
  "client_inv (c\<lparr>lk_linkUp := x23\<rparr>) = client_inv c"
  "client_inv (c\<lparr>lk_hasClient := x24\<rparr>) = client_inv c"
  "client_inv (c\<lparr>lk_asyncConnectPending := x25\<rparr>) = client_inv c"
  "client_inv (c\<lparr>lk_asyncConnectSuccess := x26\<rparr>) = client_inv c"
  "client_inv (c\<lparr>lk_connectAttempt := x27\<rparr>) = client_inv c"
  "client_inv (c\<lparr>bc_rejectionIngress := x28\<rparr>) = client_inv c"
  "client_inv (c\<lparr>lk_flow := x29\<rparr>) = client_inv c"
  "client_inv (c\<lparr>lk_timeSliceHoldoff := x30\<rparr>) = client_inv c"
  "client_inv (c\<lparr>bc_firmwareVersion := x31\<rparr>) = client_inv c"
  "client_inv (c\<lparr>lk_subscribeStep := x32\<rparr>) = client_inv c"
  "client_inv (c\<lparr>lk_taskDone := x33\<rparr>) = client_inv c"
  "client_inv (c\<lparr>lk_taskResult := x34\<rparr>) = client_inv c"
  "client_inv (c\<lparr>lk_taskCompletedGeneration := x35\<rparr>) = client_inv c"
  "client_inv (c\<lparr>lk_activeDiscoveryGeneration := x36\<rparr>) = client_inv c"
  "client_inv (c\<lparr>lk_openedSessions := x37\<rparr>) = client_inv c"
  "client_inv (c\<lparr>lk_connectUpdate := x38\<rparr>) = client_inv c"
  "client_inv (c\<lparr>lk_connectUpdateGeneration := x39\<rparr>) = client_inv c"
  "client_inv (c\<lparr>lk_versionRequestStartedMs := x40\<rparr>) = client_inv c"
  "client_inv (c\<lparr>lk_service := x41\<rparr>) = client_inv c"
  "client_inv (c\<lparr>lk_displayChar := x42\<rparr>) = client_inv c"
  "client_inv (c\<lparr>lk_notifyShort := x43\<rparr>) = client_inv c"
  "client_inv (c\<lparr>lk_notifyLong := x44\<rparr>) = client_inv c"
  by (simp_all add: inv_defs)

lemma drop_attempt_inv: "client_inv c \<Longrightarrow> client_inv (drop_attempt c)"
  by (simp add: inv_defs drop_attempt_def)

lemma drop_attempt_same [simp]:
  "lk_state (drop_attempt l) = lk_state l" "\<not> lk_connectInProgress (drop_attempt l)"
  by (simp_all add: drop_attempt_def)

lemma after_failure_inv:
  assumes "client_inv c"
    and "\<And>d. client_inv d \<Longrightarrow> lk_state d = lk_state c \<Longrightarrow> \<not> lk_connectInProgress d \<Longrightarrow> client_inv (exit d)"
  shows "client_inv (after_failure a exit c)"
  using assms by (simp add: after_failure_def Let_def hardResetBLEClient_def begin_quiesce_inv drop_attempt_inv)

lemma connectToServer_inv:
  assumes "client_inv c" "lk_state c = BleScanStopping"
  shows "client_inv (snd (connectToServer a c))"
  using assms by (auto simp: inv_defs connectToServer_def setBLEState_def Let_def gate_open_def gate_close_def)

lemma startAsyncConnect_inv:
  assumes "client_inv c" "lk_state c = BleConnecting"
  shows "client_inv (snd (startAsyncConnect a c))"
  using assms
  by (auto simp: startAsyncConnect_def Let_def before_subscription_def idle_state_def
      intro!: set_state_inv begin_quiesce_inv drop_attempt_inv after_failure_inv)

lemma finishConnection_inv:
  assumes "client_inv c" "lk_state c = BleConnectingWait"
  shows "client_inv (snd (finishConnection a c))"
  using assms
  by (auto simp: finishConnection_def before_subscription_def idle_state_def intro!: set_state_inv begin_quiesce_inv)

lemma processConnectingWait_inv:
  assumes "client_inv c" "lk_state c = BleConnectingWait"
  shows "client_inv (processConnectingWait a c)"
  using assms finishConnection_inv [OF assms]
  by (auto simp: processConnectingWait_def Let_def before_subscription_def idle_state_def
      intro!: set_state_inv begin_quiesce_inv drop_attempt_inv after_failure_inv)

lemma attribute_task_inv:
  "client_inv c \<Longrightarrow> bc_worker c = WorkerAbsent \<Longrightarrow> client_inv (attribute_task_done r g c)"
  by (auto simp: inv_defs attribute_task_done_def)

lemma start_attribute_worker_inv:
  "client_inv c \<Longrightarrow> \<not> lk_taskRunning c \<Longrightarrow> w \<noteq> NoAttributeWorker \<Longrightarrow>
    client_inv (c\<lparr>lk_taskRunning := True, lk_attributeWorker := w\<rparr>)"
  by (auto simp: inv_defs)

lemma replace_attribute_worker_inv:
  "client_inv c \<Longrightarrow> lk_attributeWorker c \<noteq> NoAttributeWorker \<Longrightarrow> w \<noteq> NoAttributeWorker \<Longrightarrow>
    client_inv (c\<lparr>lk_attributeWorker := w\<rparr>)"
  by (auto simp: client_inv_def session_inv_def worker_inv_def command_inv_def)

lemma attribute_worker_alone:
  "client_inv c \<Longrightarrow> lk_attributeWorker c \<noteq> NoAttributeWorker \<Longrightarrow> bc_worker c = WorkerAbsent"
  by (auto simp: client_inv_def worker_inv_def)

lemma attribute_worker_inv:
  assumes "client_inv c"
  shows "client_inv (attribute_worker_step ok c)"
  using assms attribute_worker_alone [OF assms]
  by (cases "lk_attributeWorker c")
    (simp_all add: attribute_worker_step_def attribute_task_inv replace_attribute_worker_inv)

lemma processDiscovering_inv:
  assumes "client_inv c" "lk_state c = BleDiscovering"
  shows "client_inv (processDiscovering a c)"
proof -
  have "client_inv (c\<lparr>lk_taskResult := False, lk_taskDone := True, lk_taskRunning := False\<rparr>)"
    if "\<not> lk_taskRunning c"
    using assms(1) that by (auto simp: inv_defs)
  then show ?thesis
    using assms
    by (auto simp: processDiscovering_def Let_def before_subscription_def idle_state_def
        intro!: set_state_inv begin_quiesce_inv drop_attempt_inv after_failure_inv start_attribute_worker_inv)
qed

lemma processSubscriptionWrite_inv:
  "client_inv c \<Longrightarrow> client_inv (snd (processSubscriptionWrite a chr n c))"
  by (auto simp: processSubscriptionWrite_def Let_def intro!: start_attribute_worker_inv)

lemma processSubscriptionWrite_state [simp]:
  "lk_state (snd (processSubscriptionWrite a chr n l)) = lk_state l"
  by (simp add: processSubscriptionWrite_def Let_def)

lemma subscribe_then_inv: "client_inv (snd r) \<Longrightarrow> client_inv (snd (subscribe_then s r))"
  by (cases "fst r") (simp_all add: subscribe_then_def)

lemma subscribe_then_state [simp]: "lk_state (snd (subscribe_then s r)) = lk_state (snd r)"
  by (cases "fst r") (simp_all add: subscribe_then_def)

lemma set_command_chars_inv:
  "client_inv c \<Longrightarrow> \<not> before_subscription (lk_state c) \<Longrightarrow> client_inv (c\<lparr>lk_commandChar := x\<rparr>)"
  "client_inv c \<Longrightarrow> \<not> before_subscription (lk_state c) \<Longrightarrow> client_inv (c\<lparr>lk_commandCharLong := x\<rparr>)"
  by (auto simp: client_inv_def session_inv_def worker_inv_def command_inv_def)

lemma executeSubscribeStep_inv:
  assumes "client_inv c" "lk_state c = BleSubscribing"
  shows "client_inv (snd (executeSubscribeStep a s c)) \<and> lk_state (snd (executeSubscribeStep a s c)) = BleSubscribing"
  using assms
  by (cases s)
    (auto simp: Let_def before_subscription_def intro!: set_command_chars_inv processSubscriptionWrite_inv
      subscribe_then_inv split: option.splits)

lemma publishConnected_inv:
  assumes "client_inv c" "lk_state c = BleSubscribing"
  shows "client_inv (snd (publishConnected a g c))"
proof (cases "session_accepted c g")
  case True
  then have "client_inv (note_connected (sa_now a) (c\<lparr>lk_connected := True\<rparr>))"
    using assms by (auto simp: inv_defs note_connected_def session_accepted_def gate_accepts_def)
  with True assms show ?thesis
    by (auto simp: publishConnected_cases before_subscription_def idle_state_def note_connected_def
        intro!: set_state_inv)
next
  case False
  have "client_inv (c\<lparr>lk_connected := False\<rparr>)" using assms by (simp add: inv_defs)
  with False show ?thesis by (simp add: publishConnected_cases retract_connected_def begin_quiesce_inv)
qed

lemma processSubscribing_inv:
  assumes "client_inv c" "lk_state c = BleSubscribing"
  shows "client_inv (snd (processSubscribing a c))"
proof -
  obtain r d where e: "executeSubscribeStep a (lk_subscribeStep c) c = (r, d)" by fastforce
  with executeSubscribeStep_inv [OF assms, of a "lk_subscribeStep c"]
  have d: "client_inv d" "lk_state d = BleSubscribing" by simp_all
  from assms show ?thesis
    by (cases r) (auto simp: processSubscribing_def Let_def e before_subscription_def idle_state_def d
        intro!: begin_quiesce_inv drop_attempt_inv set_state_inv publishConnected_inv)
qed

lemma processSubscribeYield_inv:
  "client_inv c \<Longrightarrow> lk_state c = BleSubscribeYield \<Longrightarrow> client_inv (processSubscribeYield a c)"
  by (auto simp: processSubscribeYield_def before_subscription_def idle_state_def intro!: set_state_inv)

section \<open>The callbacks\<close>

lemma onConnect_inv: "client_inv c \<Longrightarrow> client_inv (onConnect a c)"
  by (cases "lk_acceptCallbacks c \<and> gate_accepts (lk_gate c) (lk_generation c)")
    (simp_all add: client_inv_def session_inv_def worker_inv_def command_inv_def onConnect_def Let_def)

lemma onConnectFail_inv: "client_inv c \<Longrightarrow> client_inv (onConnectFail c)"
  by (simp add: onConnectFail_def)

lemma onDisconnect_inv: "client_inv c \<Longrightarrow> client_inv (onDisconnect now h r c)"
  by (auto simp: inv_defs onDisconnect_def queue_teardown_def gate_close_def)

section \<open>The worker of a command\<close>

lemma worker_start_inv: "client_inv c \<Longrightarrow> bc_worker c = WorkerCreated \<Longrightarrow> client_inv (worker_start c)"
  by (auto simp: worker_start_def Let_def inv_defs)

lemma worker_finish_inv:
  assumes "client_inv c" "bc_worker c \<noteq> WorkerAbsent" "ok \<Longrightarrow> written (bc_context c) \<in> set (bc_wire c)"
  shows "client_inv (worker_finish ok c)"
  using assms by (auto simp: client_inv_def session_inv_def worker_inv_def command_inv_def worker_finish_def)

lemma add_write_inv: "client_inv c \<Longrightarrow> client_inv (c\<lparr>bc_wire := w # bc_wire c\<rparr>)"
  by (auto simp: client_inv_def session_inv_def worker_inv_def command_inv_def)

lemma writing_context: "client_inv c \<Longrightarrow> bc_worker c = WorkerWriting x \<Longrightarrow> x = bc_context c"
  by (simp add: client_inv_def worker_inv_def)

lemma commandTaskFunc_inv:
  assumes "client_inv c"
  shows "client_inv (commandTaskFunc ok c)"
  using assms writing_context [OF assms]
  by (cases "bc_worker c")
    (auto simp: commandTaskFunc_def intro!: worker_finish_inv add_write_inv)

lemma async_step_inv: "client_inv c \<Longrightarrow> client_inv (async_step c e)"
  by (cases e)
    (auto intro: onConnect_inv onConnectFail_inv onDisconnect_inv worker_start_inv commandTaskFunc_inv
      attribute_worker_inv)

lemma async_run_inv: "client_inv c \<Longrightarrow> client_inv (async_run c es)"
  by (induction es arbitrary: c) (simp_all add: async_step_inv)

section \<open>The pass of the main loop\<close>

text \<open>Clearing the connected flag and the attempt needs nothing; setting the flag needs the gate.\<close>

lemma clear_connected_inv:
  "client_inv c \<Longrightarrow> client_inv (c\<lparr>lk_connected := False\<rparr>)"
  "client_inv c \<Longrightarrow> client_inv (c\<lparr>lk_connectInProgress := False\<rparr>)"
  "client_inv c \<Longrightarrow> gate_accepts (lk_gate c) g \<Longrightarrow> lk_acceptCallbacks c \<Longrightarrow> client_inv (c\<lparr>lk_connected := True\<rparr>)"
  by (auto simp: client_inv_def session_inv_def worker_inv_def command_inv_def gate_accepts_def)

lemma apply_connect_update_inv:
  assumes "client_inv c"
  shows "client_inv (apply_connect_update a c)"
proof -
  let ?d = "c\<lparr>lk_connectUpdate := False, lk_connectUpdateGeneration := 0\<rparr>"
  have "client_inv ?d" using assms by simp
  then have "client_inv (?d\<lparr>lk_connected := False\<rparr>)"
    "gate_accepts (lk_gate c) (lk_connectUpdateGeneration c) \<Longrightarrow> lk_acceptCallbacks c \<Longrightarrow>
       client_inv (?d\<lparr>bc_firmwareVersion := 0, lk_versionRequestStartedMs := 0, lk_connected := True\<rparr>)"
    by (simp_all add: client_inv_def session_inv_def worker_inv_def command_inv_def gate_accepts_def)
  with assms show ?thesis
    by (cases "lk_connectUpdateGeneration c = lk_generation c"; cases "lk_acceptCallbacks c";
        cases "gate_accepts (lk_gate c) (lk_connectUpdateGeneration c)")
      (simp_all add: apply_connect_update_def Let_def)
qed

lemma apply_disconnect_cleanup_inv:
  assumes "client_inv c"
  shows "client_inv (apply_disconnect_cleanup a c)"
  using assms unfolding apply_disconnect_cleanup_def Let_def
  by (simp only: if_True if_False split: if_split)
    (intro conjI impI begin_quiesce_inv;
      simp add: client_inv_def session_inv_def worker_inv_def command_inv_def)

lemma idle_in_inv: "client_inv c \<Longrightarrow> idle_state (lk_state c) \<Longrightarrow> \<not> lk_connectInProgress c"
  by (simp add: client_inv_def session_inv_def)

lemma apply_scan_end_inv: "client_inv c \<Longrightarrow> client_inv (apply_scan_end a c)"
  by (auto simp: apply_scan_end_def Let_def before_subscription_def idle_state_def
      intro!: set_state_inv dest: idle_in_inv)

lemma apply_scan_target_inv: "client_inv c \<Longrightarrow> client_inv (apply_scan_target a c)"
  by (auto simp: apply_scan_target_def Let_def before_subscription_def idle_state_def
      intro!: set_state_inv dest: idle_in_inv split: option.splits)

lemma cancelCommand_inv: "client_inv c \<Longrightarrow> client_inv (cancelCommand a owner c)"
  by (simp add: cancelCommand_def begin_quiesce_inv)

lemma serviceCommandWrite_inv: "client_inv c \<Longrightarrow> client_inv (serviceCommandWrite a c)"
  by (simp add: serviceCommandWrite_def Let_def begin_quiesce_inv)

lemma dispatch_disconnected_inv:
  "client_inv c \<Longrightarrow> lk_state c = BleDisconnected \<Longrightarrow> client_inv (dispatch_disconnected a c)"
  using idle_in_inv [of c]
  by (auto simp: dispatch_disconnected_def Let_def before_subscription_def idle_state_def
      intro!: set_state_inv begin_quiesce_inv)

lemma dispatch_scanning_inv:
  "client_inv c \<Longrightarrow> lk_state c = BleScanning \<Longrightarrow> client_inv (dispatch_scanning a c)"
  using idle_in_inv [of c]
  by (auto simp: dispatch_scanning_def Let_def before_subscription_def idle_state_def intro!: set_state_inv)

lemma dispatch_scan_stopping_inv:
  "client_inv c \<Longrightarrow> lk_state c = BleScanStopping \<Longrightarrow> client_inv (dispatch_scan_stopping a c)"
  using idle_in_inv [of c]
  by (auto simp: dispatch_scan_stopping_def Let_def before_subscription_def idle_state_def
      intro!: set_state_inv connectToServer_inv)

lemma dispatch_connecting_inv:
  "client_inv c \<Longrightarrow> lk_state c = BleConnecting \<Longrightarrow> client_inv (dispatch_connecting a c)"
  using startAsyncConnect_inv [of c a]
  by (auto simp: dispatch_connecting_def Let_def intro!: begin_quiesce_inv drop_attempt_inv)

lemma dispatch_connected_inv: "client_inv c \<Longrightarrow> client_inv (dispatch_connected a c)"
proof -
  assume c: "client_inv c"
  then have "client_inv (c\<lparr>lk_connected := False, lk_connectInProgress := False\<rparr>)"
    by (simp add: client_inv_def session_inv_def worker_inv_def command_inv_def)
  with c show ?thesis by (simp add: dispatch_connected_def begin_quiesce_inv)
qed

lemma quiesce_finalized:
  assumes "processClientQuiesce now i q = (QuiesceFinalized, q')"
  shows "\<not> qp_discoveryRunning i"
proof -
  have "waiting_for_callback (quiesce_question now i (quiesce_observe i q)) = False"
    using quiesce_step_cases [of "qz_startedMs q" "unat (now - qz_startedMs q)" i q QuiesceFinalized q'] assms
    using unsigned_less [where 'a = nat and w = "now - qz_startedMs q"] by simp
  then show ?thesis by (simp add: waiting_for_callback_def quiesce_question_def)
qed

lemma finalize_inv:
  assumes "client_inv c" "lk_state c = BleQuiescing" "\<not> lk_taskRunning c"
  shows "client_inv (finalize_quiesce a c)"
  using assms
  by (auto simp: finalize_quiesce_def cleanupConnection_def completeHardResetBLEClient_def Let_def
      setBLEState_def client_inv_def session_inv_def worker_inv_def command_inv_def)

lemma with_quiesce_inv [simp]: "client_inv (with_quiesce q c) = client_inv c"
  by (simp add: with_quiesce_def client_inv_def session_inv_def worker_inv_def command_inv_def)

lemma with_quiesce_same [simp]:
  "lk_state (with_quiesce q c) = lk_state c" "lk_taskRunning (with_quiesce q c) = lk_taskRunning c"
  by (simp_all add: with_quiesce_def)

lemma poll_quiesce_inv:
  assumes "client_inv c" "lk_state c = BleQuiescing"
  shows "client_inv (snd (poll_quiesce a c))"
proof -
  obtain out q where p: "processClientQuiesce (sa_now a) (quiesce_inputs a c) (quiesce_view c) = (out, q)"
    by fastforce
  show ?thesis
  proof (cases "out = QuiesceFinalized")
    case True
    with quiesce_finalized p have "\<not> lk_taskRunning c" by (fastforce simp: quiesce_inputs_def)
    with assms p True show ?thesis by (simp add: poll_quiesce_def finalize_inv)
  next
    case False
    with assms p show ?thesis by (simp add: poll_quiesce_def)
  qed
qed

lemma dispatch_inv:
  assumes "client_inv c"
  shows "client_inv (snd (dispatchConnectionState a c))"
proof (cases "lk_bootReady c")
  case True
  then show ?thesis
    using assms
    by (cases "lk_state c")
      (auto simp: dispatchConnectionState_def split_beta intro!: dispatch_disconnected_inv
        dispatch_scanning_inv dispatch_scan_stopping_inv dispatch_connecting_inv processConnectingWait_inv
        processDiscovering_inv processSubscribing_inv processSubscribeYield_inv dispatch_connected_inv
        poll_quiesce_inv)
qed (simp add: dispatchConnectionState_def assms)

lemma deferred_work_inv: "client_inv c \<Longrightarrow> client_inv (deferred_work a c)"
  by (simp add: deferred_work_def serviceCommandWrite_inv apply_scan_target_inv apply_scan_end_inv
      apply_disconnect_cleanup_inv apply_connect_update_inv)

section \<open>Sending\<close>

lemma publishCommandSuccess_inv:
  "client_inv c \<Longrightarrow> client_inv (publishCommandSuccess now d s b r c)"
  by (simp add: publishCommandSuccess_def Let_def)

lemma retire_command_inv: "client_inv c \<Longrightarrow> \<not> lk_taskRunning c \<Longrightarrow> client_inv (c\<lparr>bc_active := False\<rparr>)"
  by (auto simp: client_inv_def session_inv_def worker_inv_def command_inv_def)

lemma publish_same [simp]:
  "lk_taskRunning (publishCommandSuccess now d s b r c) = lk_taskRunning c"
  by (simp add: publishCommandSuccess_def Let_def)

lemma harvest_inv: "client_inv c \<Longrightarrow> client_inv (snd (harvest e chr d response phone c))"
  by (auto simp: harvest_def Let_def intro!: cancelCommand_inv retire_command_inv publishCommandSuccess_inv)

lemma write_now_inv: "client_inv c \<Longrightarrow> client_inv (snd (write_now e chr d guarded revision g c))"
  by (auto simp: write_now_def Let_def intro!: async_run_inv add_write_inv publishCommandSuccess_inv)

lemma start_worker_inv:
  assumes "client_inv c" "\<not> lk_taskRunning c" "\<not> bc_active c" "d \<noteq> []" "length d \<le> COMMAND_BUFFER"
    "\<not> before_subscription (lk_state c)" "lk_state c \<noteq> BleQuiescing" "box_mute (bc_commandOwner c) d \<longrightarrow> guarded"
  shows "client_inv (snd (start_worker e chr d response phone guarded revision (lk_generation c) c))"
  using assms
  by (auto simp: start_worker_def Let_def client_inv_def session_inv_def worker_inv_def command_inv_def)

lemma admit_inv:
  assumes "client_inv c" "\<not> bc_active c" "d \<noteq> []" "length d \<le> COMMAND_BUFFER" "\<not> before_subscription (lk_state c)"
    "lk_state c \<noteq> BleQuiescing"
  shows "client_inv (snd (admit e chr d response phone c))"
proof -
  have "client_inv (snd (start_worker e chr d response phone g r (lk_generation c) (c\<lparr>bc_lastSentMs := x\<rparr>)))"
    "client_inv (snd (start_worker e chr d response phone g r (lk_generation c) c))"
    if "\<not> lk_taskRunning c" "box_mute (bc_commandOwner c) d \<longrightarrow> g" for g r x
    using assms that start_worker_inv [where c = "c\<lparr>bc_lastSentMs := x\<rparr>" and d = d and guarded = g]
      start_worker_inv [where c = c and d = d and guarded = g] by simp_all
  with assms show ?thesis
    by (auto simp: admit_def Let_def split_beta box_mute_def intro!: write_now_inv)
qed

text \<open>No other task moves the connection state.\<close>

lemma async_step_state [simp]: "lk_state (async_step c e) = lk_state c"
  by (cases e)
    (simp_all add: onConnect_def onConnectFail_def onDisconnect_def queue_teardown_def worker_start_def
      commandTaskFunc_def worker_finish_def attribute_worker_step_def attribute_task_done_def Let_def
      split: worker_phase.split attribute_worker.split)

lemma async_run_state [simp]: "lk_state (async_run c es) = lk_state c"
  by (induction es arbitrary: c) simp_all

lemma serviceCommandWrite_state:
  "lk_state (serviceCommandWrite a c) = lk_state c \<or> lk_state (serviceCommandWrite a c) = BleQuiescing"
  by (simp add: serviceCommandWrite_def Let_def beginClientQuiesce_closed)

lemma sendCharacteristicCommand_inv:
  assumes "client_inv c" "characteristic = command_channel long c"
  shows "client_inv (snd (sendCharacteristicCommand e characteristic data response phone c))"
proof (cases characteristic)
  case None
  have "client_inv (async_run (serviceCommandWrite (se_answers e) c) (se_afterService e))"
    using assms(1) by (intro async_run_inv serviceCommandWrite_inv)
  with None assms(1) show ?thesis
    by (simp add: sendCharacteristicCommand_def Let_def split: option.splits)
next
  case (Some chr)
  let ?d = "async_run (serviceCommandWrite (se_answers e) c) (se_afterService e)"
  have d: "client_inv ?d" using assms(1) by (intro async_run_inv serviceCommandWrite_inv)
  have "\<not> before_subscription (lk_state c)"
    using assms Some by (auto simp: client_inv_def session_inv_def command_channel_def split: if_splits)
  then have "\<not> before_subscription (lk_state ?d)"
    using serviceCommandWrite_state [of "se_answers e" c] by (auto simp: before_subscription_def)
  then have "client_inv (snd (admit e chr x response phone ?d))"
    if "\<not> bc_active ?d" "x \<noteq> []" "length x \<le> COMMAND_BUFFER" "lk_state ?d \<noteq> BleQuiescing" for x
    using d that by (intro admit_inv)
  with d assms(1) Some show ?thesis
    by (auto simp: sendCharacteristicCommand_def Let_def harvest_inv split: option.splits)
qed

lemma send_as_inv: "client_inv c \<Longrightarrow> client_inv (snd (send_as e owner long data response phone c))"
  using sendCharacteristicCommand_inv [of "c\<lparr>bc_commandOwner := owner\<rparr>", OF _ refl]
  by (simp add: send_as_def command_scope_def split_beta)

lemma short_send_cases:
  "snd (sendCommandWithResult e data c) = c \<or>
   (\<exists>chr. command_channel False c = Some chr \<and>
      sendCommandWithResult e data c = sendCharacteristicCommand e (Some chr) data (ch_canWrite chr) 0 c)"
  by (cases "lk_commandChar c") (simp_all add: sendCommandWithResult_def command_channel_def)

lemma sendCommandWithResult_inv: "client_inv c \<Longrightarrow> client_inv (snd (sendCommandWithResult e data c))"
  using short_send_cases [of e data c] by (metis sendCharacteristicCommand_inv)

text \<open>The follow-up's own fields are not part of the invariant.\<close>

lemma followup_free_inv: "client_inv (followup_free c) = client_inv c"
  by (simp add: followup_free_def client_inv_def session_inv_def worker_inv_def command_inv_def)

lemma same_free_inv: "followup_free c = followup_free d \<Longrightarrow> client_inv d \<Longrightarrow> client_inv c"
  using followup_free_inv [of c] followup_free_inv [of d] by simp

lemma drain_followup_inv: "client_inv c \<Longrightarrow> client_inv (drain_followup e bonds c)"
  by (rule followup_keeps [where P = client_inv]) (auto intro: same_free_inv sendCommandWithResult_inv)

lemma client_pass_inv: "client_inv c \<Longrightarrow> client_inv (snd (client_pass e bonds c))"
  by (simp add: client_pass_def dispatch_inv drain_followup_inv deferred_work_inv)

text \<open>The remaining events touch only those fields.\<close>

fun outside_followup :: "client_event \<Rightarrow> bool" where
  "outside_followup (EvCapture e) = True"
| "outside_followup (EvRecapture now) = True"
| "outside_followup (EvBondBackup now backed) = True"
| "outside_followup (EvVerified g) = True"
| "outside_followup EvClearVerified = True"
| "outside_followup EvConsumeVerified = True"
| "outside_followup _ = False"

lemma outside_followup_free: "outside_followup e \<Longrightarrow> followup_free (client_step c e) = followup_free c"
  by (cases e) simp_all

lemma notifications_inv:
  "client_inv c \<Longrightarrow> client_inv (onV1RequestNotProcessed i x c)"
  "client_inv c \<Longrightarrow> client_inv (onV1DisplayFlowControl h c)"
  "client_inv c \<Longrightarrow> client_inv (onV1Busy ids c)"
  "client_inv c \<Longrightarrow> client_inv (onV1FirmwareVersionReceived v c)"
  by (simp_all add: onV1RequestNotProcessed_def onV1DisplayFlowControl_def onV1Busy_def
      onV1FirmwareVersionReceived_def Let_def)

lemma client_step_inv: "client_inv c \<Longrightarrow> client_inv (client_step c e)"
proof (cases "outside_followup e")
  case True
  with same_free_inv [OF outside_followup_free] show "client_inv c \<Longrightarrow> client_inv (client_step c e)" .
next
  case False
  then show "client_inv c \<Longrightarrow> client_inv (client_step c e)"
    by (cases e)
      (simp_all add: async_step_inv deferred_work_inv drain_followup_inv dispatch_inv send_as_inv
        cancelCommand_inv begin_quiesce_inv notifications_inv)
qed

interpretation client: event_machine client_step client_inv
  by unfold_locales (rule client_step_inv)

end
