(* ===== verification/V1_Command_Ledger.thy ===== *)
theory V1_Command_Ledger
  imports V1_Client_Machine
begin

text \<open>
  The books of the command channel: every report \<open>SENT\<close> is covered by a write of its own that
  the stack completed, in the session of the report. The argument is a budget over the history:
  a completed write is earned by the worker, saved while it waits unharvested, and spent by the
  report.
\<close>

section \<open>What the steps leave alone\<close>

definition command_part :: "v1_client \<Rightarrow> bool \<times> bool \<times> command_context \<times> wire_write list" where
  "command_part c = (bc_active c, bc_workerResult c, bc_context c, bc_wire c)"

lemma begin_quiesce_part [simp]: "command_part (beginClientQuiesce a h c) = command_part c"
  by (simp add: command_part_def beginClientQuiesce_def setBLEState_def Let_def)

lemma set_state_part [simp]: "command_part (setBLEState now s c) = command_part c"
  by (simp add: command_part_def setBLEState_def)

lemma drop_attempt_part [simp]: "command_part (drop_attempt c) = command_part c"
  by (simp add: command_part_def drop_attempt_def)

lemma link_fields_part [simp]:
  "command_part (c\<lparr>lk_hasClient := x0\<rparr>) = command_part c"
  "command_part (c\<lparr>lk_linkUp := x1\<rparr>) = command_part c"
  "command_part (c\<lparr>lk_connected := x2\<rparr>) = command_part c"
  "command_part (c\<lparr>lk_state := x3\<rparr>) = command_part c"
  "command_part (c\<lparr>lk_stateEnteredMs := x4\<rparr>) = command_part c"
  "command_part (c\<lparr>lk_scanStopResultsCleared := x5\<rparr>) = command_part c"
  "command_part (c\<lparr>lk_scanStopRequestedMs := x6\<rparr>) = command_part c"
  "command_part (c\<lparr>lk_acceptCallbacks := x7\<rparr>) = command_part c"
  "command_part (c\<lparr>lk_gate := x8\<rparr>) = command_part c"
  "command_part (c\<lparr>lk_generation := x9\<rparr>) = command_part c"
  "command_part (c\<lparr>lk_taskRunning := x10\<rparr>) = command_part c"
  "command_part (c\<lparr>lk_activeHandle := x11\<rparr>) = command_part c"
  "command_part (c\<lparr>lk_quiescingHandle := x12\<rparr>) = command_part c"
  "command_part (c\<lparr>lk_asyncConnectPending := x13\<rparr>) = command_part c"
  "command_part (c\<lparr>lk_asyncConnectSuccess := x14\<rparr>) = command_part c"
  "command_part (c\<lparr>lk_connectUpdate := x15\<rparr>) = command_part c"
  "command_part (c\<lparr>lk_connectUpdateGeneration := x16\<rparr>) = command_part c"
  "command_part (c\<lparr>lk_disconnectCallbackPending := x17\<rparr>) = command_part c"
  "command_part (c\<lparr>lk_disconnectReason := x18\<rparr>) = command_part c"
  "command_part (c\<lparr>lk_disconnectCleanup := x19\<rparr>) = command_part c"
  "command_part (c\<lparr>lk_lastConnectionEventMs := x20\<rparr>) = command_part c"
  "command_part (c\<lparr>lk_connectInProgress := x21\<rparr>) = command_part c"
  "command_part (c\<lparr>lk_connectStartMs := x22\<rparr>) = command_part c"
  "command_part (c\<lparr>lk_connectAttempt := x23\<rparr>) = command_part c"
  "command_part (c\<lparr>lk_connectCompletedAtMs := x24\<rparr>) = command_part c"
  "command_part (c\<lparr>lk_firstRxAfterConnectMs := x25\<rparr>) = command_part c"
  "command_part (c\<lparr>lk_burstStableLoopCount := x26\<rparr>) = command_part c"
  "command_part (c\<lparr>lk_followupStep := x27\<rparr>) = command_part c"
  "command_part (c\<lparr>lk_followupNextAttemptMs := x28\<rparr>) = command_part c"
  "command_part (c\<lparr>lk_followupSendDeadlineMs := x29\<rparr>) = command_part c"
  "command_part (c\<lparr>lk_followupRetryUsed := x30\<rparr>) = command_part c"
  "command_part (c\<lparr>lk_timeSliceHoldoff := x31\<rparr>) = command_part c"
  "command_part (c\<lparr>lk_flow := x32\<rparr>) = command_part c"
  "command_part (c\<lparr>lk_verifyPushMatchEdge := x33\<rparr>) = command_part c"
  "command_part (c\<lparr>lk_hardReset := x34\<rparr>) = command_part c"
  "command_part (c\<lparr>lk_awaitingConnectCancel := x35\<rparr>) = command_part c"
  "command_part (c\<lparr>lk_quiesceStartedMs := x36\<rparr>) = command_part c"
  "command_part (c\<lparr>lk_quiesceLastRetryMs := x37\<rparr>) = command_part c"
  "command_part (c\<lparr>lk_closedSessions := x38\<rparr>) = command_part c"
  "command_part (c\<lparr>lk_openedSessions := x39\<rparr>) = command_part c"
  "command_part (c\<lparr>lk_shouldConnect := x40\<rparr>) = command_part c"
  "command_part (c\<lparr>lk_consecutiveConnectFailures := x41\<rparr>) = command_part c"
  "command_part (c\<lparr>lk_nextConnectAllowedMs := x42\<rparr>) = command_part c"
  "command_part (c\<lparr>lk_versionRequestStartedMs := x43\<rparr>) = command_part c"
  "command_part (c\<lparr>lk_taskDone := x44\<rparr>) = command_part c"
  "command_part (c\<lparr>lk_taskResult := x45\<rparr>) = command_part c"
  "command_part (c\<lparr>lk_taskCompletedGeneration := x46\<rparr>) = command_part c"
  "command_part (c\<lparr>lk_activeDiscoveryGeneration := x47\<rparr>) = command_part c"
  "command_part (c\<lparr>lk_attributeWorker := x48\<rparr>) = command_part c"
  "command_part (c\<lparr>lk_subscribeStep := x49\<rparr>) = command_part c"
  "command_part (c\<lparr>lk_subscribeYieldUntilMs := x50\<rparr>) = command_part c"
  "command_part (c\<lparr>lk_lastScanStart := x51\<rparr>) = command_part c"
  "command_part (c\<lparr>lk_firstScanAfterBoot := x52\<rparr>) = command_part c"
  "command_part (c\<lparr>lk_bootReady := x53\<rparr>) = command_part c"
  "command_part (c\<lparr>lk_scanEndUpdate := x54\<rparr>) = command_part c"
  "command_part (c\<lparr>lk_scanTarget := x55\<rparr>) = command_part c"
  "command_part (c\<lparr>lk_targetAddress := x56\<rparr>) = command_part c"
  "command_part (c\<lparr>lk_service := x57\<rparr>) = command_part c"
  "command_part (c\<lparr>lk_displayChar := x58\<rparr>) = command_part c"
  "command_part (c\<lparr>lk_notifyShort := x59\<rparr>) = command_part c"
  "command_part (c\<lparr>lk_notifyLong := x60\<rparr>) = command_part c"
  "command_part (c\<lparr>lk_commandChar := x61\<rparr>) = command_part c"
  "command_part (c\<lparr>lk_commandCharLong := x62\<rparr>) = command_part c"
  "command_part (c\<lparr>bc_phoneSession := x63\<rparr>) = command_part c"
  "command_part (c\<lparr>bc_proxyClientConnected := x64\<rparr>) = command_part c"
  "command_part (c\<lparr>bc_proxyDisconnectRequested := x65\<rparr>) = command_part c"
  "command_part (c\<lparr>bc_firmwareVersion := x66\<rparr>) = command_part c"
  "command_part (c\<lparr>bc_alertInput := x67\<rparr>) = command_part c"
  "command_part (c\<lparr>bc_notificationIngress := x68\<rparr>) = command_part c"
  "command_part (c\<lparr>bc_alertGate := x69\<rparr>) = command_part c"
  "command_part (c\<lparr>bc_receipt := x70\<rparr>) = command_part c"
  "command_part (c\<lparr>bc_commandOwner := x71\<rparr>) = command_part c"
  "command_part (c\<lparr>bc_startedMs := x72\<rparr>) = command_part c"
  "command_part (c\<lparr>bc_lastSentMs := x73\<rparr>) = command_part c"
  "command_part (c\<lparr>bc_rejectionIngress := x74\<rparr>) = command_part c"
  "command_part (c\<lparr>bc_workerStarted := x75\<rparr>) = command_part c"
  "command_part (c\<lparr>bc_workerIngress := x76\<rparr>) = command_part c"
  "command_part (c\<lparr>bc_completedIngress := x77\<rparr>) = command_part c"
  "command_part (c\<lparr>bc_capture := x78\<rparr>) = command_part c"
  "command_part (c\<lparr>bc_verifiedApplyGeneration := x79\<rparr>) = command_part c"
  "command_part (c\<lparr>bc_worker := x80\<rparr>) = command_part c"
  by (simp_all add: command_part_def)

lemma after_failure_part:
  "(\<And>d. command_part (exit d) = command_part d) \<Longrightarrow> command_part (after_failure a exit c) = command_part c"
  by (simp add: after_failure_def Let_def hardResetBLEClient_def)

lemma connect_parts [simp]:
  "command_part (snd (connectToServer a c)) = command_part c"
  "command_part (snd (finishConnection a c)) = command_part c"
  "command_part (processSubscribeYield a c) = command_part c"
  "command_part (snd (publishConnected a g c)) = command_part c"
  by (simp_all add: connectToServer_def finishConnection_def processSubscribeYield_def publishConnected_cases
      retract_connected_def note_connected_def Let_def)

lemma startAsyncConnect_part [simp]: "command_part (snd (startAsyncConnect a c)) = command_part c"
  by (simp add: startAsyncConnect_def Let_def after_failure_part)

lemma processConnectingWait_part [simp]: "command_part (processConnectingWait a c) = command_part c"
  by (simp add: processConnectingWait_def Let_def after_failure_part)

lemma processDiscovering_part [simp]: "command_part (processDiscovering a c) = command_part c"
  by (simp add: processDiscovering_def Let_def after_failure_part)

lemma executeSubscribeStep_part: "command_part (snd (executeSubscribeStep a s c)) = command_part c"
  by (cases s)
    (simp_all add: command_part_def Let_def subscribe_then_def processSubscriptionWrite_def
      split: option.split subscribe_result.split)

lemma processSubscribing_part [simp]: "command_part (snd (processSubscribing a c)) = command_part c"
proof -
  obtain r d where e: "executeSubscribeStep a (lk_subscribeStep c) c = (r, d)" by fastforce
  with executeSubscribeStep_part [of a "lk_subscribeStep c" c] have "command_part d = command_part c" by simp
  then show ?thesis
    by (cases r) (simp_all add: processSubscribing_def Let_def e)
qed

lemma apply_parts [simp]:
  "command_part (apply_connect_update a c) = command_part c"
  "command_part (apply_scan_end a c) = command_part c"
  "command_part (apply_scan_target a c) = command_part c"
  by (simp_all add: apply_connect_update_def apply_scan_end_def apply_scan_target_def Let_def split: option.split)

lemma apply_disconnect_part [simp]: "command_part (apply_disconnect_cleanup a c) = command_part c"
  by (simp add: apply_disconnect_cleanup_def Let_def)

lemma cancel_part [simp]: "command_part (cancelCommand a owner c) = command_part c"
  by (simp add: cancelCommand_def)

lemma service_part [simp]: "command_part (serviceCommandWrite a c) = command_part c"
  by (simp add: serviceCommandWrite_def Let_def)

lemma publish_part [simp]: "command_part (publishCommandSuccess now d s b r c) = command_part c"
  by (simp add: publishCommandSuccess_def Let_def)

lemma dispatch_case_parts [simp]:
  "command_part (dispatch_disconnected a c) = command_part c"
  "command_part (dispatch_scanning a c) = command_part c"
  "command_part (dispatch_connecting a c) = command_part c"
  by (simp_all add: dispatch_disconnected_def dispatch_scanning_def dispatch_connecting_def Let_def)

lemma dispatch_more_parts [simp]:
  "command_part (dispatch_scan_stopping a c) = command_part c"
  "command_part (dispatch_connected a c) = command_part c"
  by (simp_all add: dispatch_scan_stopping_def dispatch_connected_def Let_def)

section \<open>The budget\<close>

text \<open>A completed write waiting to be harvested.\<close>

definition saved_write :: "wire_write \<Rightarrow> v1_client \<Rightarrow> nat" where
  "saved_write w c = (if bc_active c \<and> bc_workerResult c \<and> written (bc_context c) = w then 1 else 0)"

definition earned_write :: "wire_write \<Rightarrow> v1_client \<Rightarrow> client_event \<Rightarrow> nat" where
  "earned_write w c e = count_list (bc_wire (client_step c e)) w - count_list (bc_wire c) w"

text \<open>
  A send sees the outstanding write as it was when it was served: no worker completes between
  the service call and the harvest.
\<close>

fun finishes_command :: "async_event \<Rightarrow> bool" where
  "finishes_command (AsWorkerFinish ok) = True"
| "finishes_command _ = False"

fun releases_gate :: "async_event \<Rightarrow> bool" where
  "releases_gate (AsWorkerFinish ok) = True"
| "releases_gate (AsAttributeWorker ok) = True"
| "releases_gate _ = False"

definition unraced :: "send_environment \<Rightarrow> bool" where
  "unraced e \<longleftrightarrow> list_all (\<lambda>x. \<not> releases_gate x) (se_afterService e)"

text \<open>The write a report stands for, in the session the client is then in.\<close>

definition reported :: "remote_characteristic \<Rightarrow> v1_client \<Rightarrow> u8 list \<Rightarrow> bool \<Rightarrow> wire_write" where
  "reported chr c d response = \<lparr>ww_characteristic = ch_handle chr, ww_generation = lk_generation c,
     ww_data = d, ww_response = response\<rparr>"

definition reports_sent :: "wire_write \<Rightarrow> v1_client \<Rightarrow> client_event \<Rightarrow> nat" where
  "reports_sent w c e =
     (case e of
        EvSend env owner long (Some d) response phone \<Rightarrow>
          (let (r, c') = send_as env owner long (Some d) response phone c in
           case command_channel long c of
             Some chr \<Rightarrow>
               if r = SendSent \<and> unraced env \<and> reported chr c' d response = w then 1 else 0
           | None \<Rightarrow> 0)
      | _ \<Rightarrow> 0)"

lemma saved_write_part: "command_part c = command_part d \<Longrightarrow> saved_write w c = saved_write w d"
  by (simp add: saved_write_def command_part_def)

lemma idle_saves_nothing: "\<not> bc_active c \<Longrightarrow> saved_write w c = 0"
  by (simp add: saved_write_def)

lemma wire_part: "command_part c = command_part d \<Longrightarrow> bc_wire c = bc_wire d"
  by (simp add: command_part_def)

text \<open>Steps of the other tasks: a finishing worker earns what it saves.\<close>

lemma async_part:
  assumes "\<not> finishes_command e"
  shows "command_part (async_step c e) = command_part c"
  using assms
  by (cases e)
    (simp_all add: onConnect_def onConnectFail_def onDisconnect_def queue_teardown_def worker_start_def
      attribute_worker_step_def attribute_task_done_def Let_def split: attribute_worker.split)

lemma worker_result_fresh: "client_inv c \<Longrightarrow> bc_worker c = WorkerWriting x \<Longrightarrow> \<not> bc_workerResult c"
  by (simp add: client_inv_def worker_inv_def)

lemma finish_wire:
  "bc_wire (commandTaskFunc ok c) =
     (case bc_worker c of WorkerWriting x \<Rightarrow> if ok then written x # bc_wire c else bc_wire c | _ \<Rightarrow> bc_wire c)"
  by (simp add: commandTaskFunc_def worker_finish_def split: worker_phase.split)

lemma finish_saves:
  assumes "client_inv c"
  shows "saved_write w (commandTaskFunc ok c) + count_list (bc_wire c) w \<le>
    saved_write w c + count_list (bc_wire (commandTaskFunc ok c)) w"
  using writing_context [OF assms] worker_result_fresh [OF assms]
  by (cases "bc_worker c")
    (auto simp: saved_write_def commandTaskFunc_def worker_finish_def)

lemma async_saves:
  assumes "client_inv c"
  shows "saved_write w (async_step c e) + count_list (bc_wire c) w \<le>
    saved_write w c + count_list (bc_wire (async_step c e)) w"
proof (cases "finishes_command e")
  case True
  with finish_saves [OF assms] show ?thesis by (cases e) simp_all
next
  case False
  then have "command_part (async_step c e) = command_part c" by (rule async_part)
  from saved_write_part [OF this] wire_part [OF this] show ?thesis by simp
qed

lemma async_run_saves:
  assumes "client_inv c"
  shows "saved_write w (async_run c es) + count_list (bc_wire c) w \<le>
    saved_write w c + count_list (bc_wire (async_run c es)) w"
  using assms
proof (induction es arbitrary: c)
  case (Cons e es)
  from async_saves [OF Cons.prems, of w e] Cons.IH [OF async_step_inv [OF Cons.prems], of e] show ?case by simp
qed simp

lemma async_run_part:
  assumes "list_all (\<lambda>x. \<not> finishes_command x) es"
  shows "command_part (async_run c es) = command_part c"
  using assms by (induction es arbitrary: c) (simp_all add: async_part)

text \<open>While nothing is outstanding the other tasks cannot complete a command.\<close>

lemma idle_async_part:
  assumes "client_inv c" "\<not> bc_active c"
  shows "command_part (async_step c e) = command_part c"
proof (cases "finishes_command e")
  case True
  have "bc_worker c = WorkerAbsent" using assms by (auto simp: client_inv_def worker_inv_def)
  with True show ?thesis by (cases e) (simp_all add: commandTaskFunc_def)
qed (rule async_part)

lemma idle_async_run_part:
  assumes "client_inv c" "\<not> bc_active c"
  shows "command_part (async_run c es) = command_part c"
  using assms
proof (induction es arbitrary: c)
  case (Cons e es)
  have p: "command_part (async_step c e) = command_part c" by (rule idle_async_part [OF Cons.prems])
  then have "\<not> bc_active (async_step c e)" using Cons.prems(2) by (simp add: command_part_def)
  with Cons.IH [OF async_step_inv [OF Cons.prems(1)]] p show ?case by simp
qed simp

lemma async_generation [simp]: "lk_generation (async_run c es) = lk_generation c"
proof (induction es arbitrary: c)
  case (Cons e es)
  have "lk_generation (async_step c e) = lk_generation c"
    by (cases e)
      (simp_all add: onConnect_def onConnectFail_def onDisconnect_def queue_teardown_def worker_start_def
        commandTaskFunc_def worker_finish_def attribute_worker_step_def attribute_task_done_def Let_def
        split: worker_phase.split attribute_worker.split)
  with Cons show ?case by simp
qed simp

text \<open>Without a completion in between, the running gate is as the service call saw it.\<close>

lemma unraced_running:
  assumes "list_all (\<lambda>x. \<not> releases_gate x) es"
  shows "lk_taskRunning (async_run c es) = lk_taskRunning c"
  using assms
proof (induction es arbitrary: c)
  case (Cons e es)
  then have "lk_taskRunning (async_step c e) = lk_taskRunning c"
    by (cases e)
      (simp_all add: onConnect_def onConnectFail_def onDisconnect_def queue_teardown_def worker_start_def Let_def)
  with Cons show ?case by simp
qed simp

lemma unraced_part:
  assumes "list_all (\<lambda>x. \<not> releases_gate x) es"
  shows "command_part (async_run c es) = command_part c"
proof -
  have "finishes_command x \<Longrightarrow> releases_gate x" for x by (cases x) simp_all
  with assms show ?thesis by (intro async_run_part) (auto simp: list_all_iff)
qed

section \<open>The main loop spends nothing\<close>

lemma dispatch_retires:
  "command_part (snd (dispatchConnectionState a d)) = command_part d \<or>
   \<not> bc_active (snd (dispatchConnectionState a d)) \<and> bc_wire (snd (dispatchConnectionState a d)) = bc_wire d"
proof (cases "lk_state d = BleQuiescing \<and> lk_bootReady d")
  case True
  have "command_part (snd (poll_quiesce a d)) = command_part d \<or>
      \<not> bc_active (snd (poll_quiesce a d)) \<and> bc_wire (snd (poll_quiesce a d)) = bc_wire d"
    by (simp add: poll_quiesce_def split_beta with_quiesce_def finalize_quiesce_def cleanupConnection_def
        completeHardResetBLEClient_def setBLEState_def Let_def)
  with True show ?thesis by (simp add: dispatchConnectionState_def split_beta)
next
  case False
  then show ?thesis by (cases "lk_state d") (simp_all add: dispatchConnectionState_def)
qed

lemma deferred_part [simp]: "command_part (deferred_work a c) = command_part c"
  by (simp add: deferred_work_def)

lemma dispatch_saves:
  "saved_write w (snd (dispatchConnectionState a c)) \<le> saved_write w c"
  "bc_wire (snd (dispatchConnectionState a c)) = bc_wire c"
  using dispatch_retires [of a c] saved_write_part [of "snd (dispatchConnectionState a c)" c w]
    wire_part [of "snd (dispatchConnectionState a c)" c]
  by (auto simp: idle_saves_nothing)

section \<open>The send spends what was saved\<close>

lemma publish_generation [simp]:
  "lk_generation (publishCommandSuccess now d s b r c) = lk_generation c"
  by (simp add: publishCommandSuccess_def Let_def)

lemma wire_publish [simp]: "bc_wire (publishCommandSuccess now d s b r c) = bc_wire c"
  by (rule wire_part) simp

lemma active_publish [simp]: "bc_active (publishCommandSuccess now d s b r c) = bc_active c"
  using publish_part [of now d s b r c] by (simp add: command_part_def del: publish_part)

lemma sent_harvest:
  assumes "harvest e chr d response phone c = (SendSent, c')"
  shows "written (bc_context c) = \<lparr>ww_characteristic = ch_handle chr, ww_generation = cx_generation (bc_context c),
      ww_data = d, ww_response = response\<rparr>"
    "\<not> lk_taskRunning c" "\<not> bc_active c'" "bc_wire c' = bc_wire c" "lk_generation c' = lk_generation c"
proof -
  have "bc_wire (publishCommandSuccess now d s b r x) = bc_wire x" for now s b r x
    by (rule wire_part) simp
  with assms show "written (bc_context c) = \<lparr>ww_characteristic = ch_handle chr, ww_generation = cx_generation (bc_context c),
      ww_data = d, ww_response = response\<rparr>"
    "\<not> lk_taskRunning c" "\<not> bc_active c'" "bc_wire c' = bc_wire c" "lk_generation c' = lk_generation c"
    by (auto simp: harvest_def written_def Let_def split: if_splits)
qed

lemma harvest_saves:
  "saved_write w (snd (harvest e chr d response phone c)) \<le> saved_write w c"
  "bc_wire (snd (harvest e chr d response phone c)) = bc_wire c"
proof -
  have "command_part (snd (harvest e chr d response phone c)) = command_part c \<or>
      \<not> bc_active (snd (harvest e chr d response phone c)) \<and> bc_wire (snd (harvest e chr d response phone c)) = bc_wire c"
    by (simp add: harvest_def Let_def)
  then show "saved_write w (snd (harvest e chr d response phone c)) \<le> saved_write w c"
    "bc_wire (snd (harvest e chr d response phone c)) = bc_wire c"
    by (auto simp: saved_write_def command_part_def)
qed

text \<open>A synchronous write earns and spends at once; the other tasks add nothing in an idle channel.\<close>

lemma write_now_cases:
  assumes "write_now e chr d guarded revision g c = (r, c')"
  shows "(\<exists>es. r \<noteq> SendSent \<and> c' = async_run c es) \<or>
    (\<exists>es fs. let after_write = (async_run c es)\<lparr>bc_wire := reported chr (c\<lparr>lk_generation := g\<rparr>) d False # bc_wire (async_run c es)\<rparr>
       in command_part c' = command_part (async_run after_write fs) \<and>
          lk_generation c' = lk_generation (async_run after_write fs))"
proof -
  let ?b = "async_run c (se_beforeWrite e)"
  let ?w = "?b\<lparr>bc_wire := reported chr (c\<lparr>lk_generation := g\<rparr>) d False # bc_wire ?b\<rparr>"
  consider "guarded \<and> \<not> permitsInTheBoxMute (bc_alertInput ?b) revision"
    | "\<not> (guarded \<and> \<not> permitsInTheBoxMute (bc_alertInput ?b) revision)" "\<not> se_writeOk e"
    | "\<not> (guarded \<and> \<not> permitsInTheBoxMute (bc_alertInput ?b) revision)" "se_writeOk e" by blast
  then show ?thesis
  proof cases
    case 1
    with assms have "r \<noteq> SendSent" "c' = ?b" by (auto simp: write_now_def Let_def)
    then show ?thesis by blast
  next
    case 2
    with assms have "r \<noteq> SendSent" "c' = async_run c (se_beforeWrite e @ se_duringWrite e)"
      by (auto simp: write_now_def Let_def)
    then show ?thesis by blast
  next
    case 3
    then have "command_part c' = command_part (async_run ?w (se_duringWrite e))"
      "lk_generation c' = lk_generation (async_run ?w (se_duringWrite e))"
      using assms unfolding write_now_def Let_def reported_def by (auto split: if_splits)
    then show ?thesis unfolding Let_def by blast
  qed
qed

lemma write_now_ledger:
  assumes "client_inv c" "\<not> bc_active c" "write_now e chr d guarded revision (lk_generation c) c = (r, c')"
  shows "\<not> bc_active c' \<and> (r \<noteq> SendSent \<and> bc_wire c' = bc_wire c \<or> bc_wire c' = reported chr c' d False # bc_wire c)"
proof -
  have idle: "client_inv (async_run c es)" "\<not> bc_active (async_run c es)" "bc_wire (async_run c es) = bc_wire c" for es
    using async_run_inv [OF assms(1)] idle_async_run_part [OF assms(1,2), of es] assms(2)
    by (simp_all add: command_part_def)
  have after: "\<not> bc_active (async_run ((async_run c es)\<lparr>bc_wire := w # bc_wire c\<rparr>) fs)"
    "bc_wire (async_run ((async_run c es)\<lparr>bc_wire := w # bc_wire c\<rparr>) fs) = w # bc_wire c" for es fs w
    using idle_async_run_part [of "(async_run c es)\<lparr>bc_wire := w # bc_wire c\<rparr>" fs]
      add_write_inv [OF idle(1), of w es] idle(2,3) [of es] by (simp_all add: command_part_def)
  from write_now_cases [OF assms(3)] show ?thesis
  proof (elim disjE exE)
    fix es
    assume "r \<noteq> SendSent \<and> c' = async_run c es"
    with idle [of es] show ?thesis by simp
  next
    fix es fs
    let ?a = "async_run ((async_run c es)\<lparr>bc_wire := reported chr c d False # bc_wire c\<rparr>) fs"
    assume "let after_write = (async_run c es)
        \<lparr>bc_wire := reported chr (c\<lparr>lk_generation := lk_generation c\<rparr>) d False # bc_wire (async_run c es)\<rparr>
      in command_part c' = command_part (async_run after_write fs) \<and>
         lk_generation c' = lk_generation (async_run after_write fs)"
    then have "command_part c' = command_part ?a" "lk_generation c' = lk_generation ?a"
      by (simp_all add: Let_def idle(3) reported_def)
    with after [where es = es and fs = fs and w = "reported chr c d False"] show ?thesis
      by (simp add: command_part_def reported_def)
  qed
qed

lemma start_worker_ledger:
  assumes "start_worker e chr d response phone guarded revision g c = (r, c')"
  shows "r \<noteq> SendSent" "saved_write w c' = 0" "bc_wire c' = bc_wire c"
  using assms by (auto simp: start_worker_def Let_def saved_write_def split: if_splits)

lemma three_way:
  "x = (if A then y else if B then y else if q then u else v) \<Longrightarrow> P y \<Longrightarrow> (q \<Longrightarrow> P u) \<Longrightarrow> P v \<Longrightarrow> P x"
  by simp

lemma admit_cases:
  assumes "P (SendNotYet, c)"
    and "\<And>g v d1. d1 \<in> {c, c\<lparr>bc_lastSentMs := sa_now (se_answers e)\<rparr>} \<Longrightarrow> \<not> response \<Longrightarrow>
      P (write_now e chr d g v (lk_generation c) d1)"
    and "\<And>g v d1. d1 \<in> {c, c\<lparr>bc_lastSentMs := sa_now (se_answers e)\<rparr>} \<Longrightarrow>
      P (start_worker e chr d response phone g v (lk_generation c) d1)"
  shows "P (admit e chr d response phone c)"
proof (cases "lk_taskRunning c")
  case True
  with assms(1) show ?thesis by (simp add: admit_def)
next
  case False
  let ?paced = "lk_commandCharLong c \<noteq> Some chr"
  let ?c = "if ?paced then c\<lparr>bc_lastSentMs := sa_now (se_answers e)\<rparr> else c"
  let ?mtu = "if lk_hasClient ?c then se_mtu e else 23"
  let ?g = "bc_commandOwner c = OwnInTheBox \<and> 3 < length d \<and> d ! 3 = PACKET_ID_MUTE_ON"
  let ?v = "if ?g then ai_revision (bc_alertInput c) else 0"
  have a: "admit e chr d response phone c =
     (if ?g \<and> \<not> ai_continuous (bc_alertInput c) then (SendNotYet, c)
      else if ?paced \<and> bc_lastSentMs c \<noteq> 0 \<and> elapsed_ms (sa_now (se_answers e)) (bc_lastSentMs c) < 5 then (SendNotYet, c)
      else if \<not> response \<and> length d \<le> att_payload ?mtu
           then write_now e chr d ?g ?v (lk_generation ?c) ?c
           else start_worker e chr d response phone ?g ?v (lk_generation ?c) ?c)"
    using False unfolding admit_def Let_def split_beta hasContinuousV1AlertInput_def fst_conv snd_conv by simp
  have c: "?c \<in> {c, c\<lparr>bc_lastSentMs := sa_now (se_answers e)\<rparr>}" "lk_generation ?c = lk_generation c" by simp_all
  have w: "P (write_now e chr d ?g ?v (lk_generation ?c) ?c)" if "\<not> response \<and> length d \<le> att_payload ?mtu"
    unfolding c(2) using assms(2) [OF c(1)] that by blast
  have s: "P (start_worker e chr d response phone ?g ?v (lk_generation ?c) ?c)"
    unfolding c(2) by (rule assms(3) [OF c(1)])
  show ?thesis by (rule three_way [OF a assms(1) w s])
qed

lemma admit_ledger:
  assumes "client_inv c" "\<not> bc_active c"
  shows "case admit e chr d response phone c of (r, c') \<Rightarrow> saved_write w c' = 0 \<and>
    (if r = SendSent \<and> reported chr c' d response = w then 1 else 0) + count_list (bc_wire c) w \<le> count_list (bc_wire c') w"
proof (rule admit_cases)
  show "case (SendNotYet, c) of (r, c') \<Rightarrow> saved_write w c' = 0 \<and>
    (if r = SendSent \<and> reported chr c' d response = w then 1 else 0) + count_list (bc_wire c) w \<le> count_list (bc_wire c') w"
    using assms(2) by (simp add: idle_saves_nothing)
next
  fix g v d1
  assume d1: "d1 \<in> {c, c\<lparr>bc_lastSentMs := sa_now (se_answers e)\<rparr>}" and resp: "\<not> response"
  obtain r c' where w: "write_now e chr d g v (lk_generation c) d1 = (r, c')" by fastforce
  have same: "client_inv d1" "\<not> bc_active d1" "bc_wire d1 = bc_wire c" "lk_generation d1 = lk_generation c"
    using assms d1 by auto
  with w have "write_now e chr d g v (lk_generation d1) d1 = (r, c')" by simp
  from write_now_ledger [OF same(1,2) this] same(3) resp
  show "case write_now e chr d g v (lk_generation c) d1 of (r, c') \<Rightarrow> saved_write w c' = 0 \<and>
    (if r = SendSent \<and> reported chr c' d response = w then 1 else 0) + count_list (bc_wire c) w \<le> count_list (bc_wire c') w" for w
    unfolding w by (auto simp: idle_saves_nothing)
next
  fix g v d1
  assume "d1 \<in> {c, c\<lparr>bc_lastSentMs := sa_now (se_answers e)\<rparr>}"
  then have same: "bc_wire d1 = bc_wire c" by auto
  obtain r c' where w: "start_worker e chr d response phone g v (lk_generation c) d1 = (r, c')" by fastforce
  from start_worker_ledger [OF w] same
  show "case start_worker e chr d response phone g v (lk_generation c) d1 of (r, c') \<Rightarrow> saved_write w c' = 0 \<and>
    (if r = SendSent \<and> reported chr c' d response = w then 1 else 0) + count_list (bc_wire c) w \<le> count_list (bc_wire c') w" for w
    unfolding w by simp
qed

lemma unserved_result:
  assumes "serviceCommandWrite a c = d" "bc_active d" "lk_state d \<noteq> BleQuiescing" "\<not> lk_taskRunning d"
  shows "bc_workerResult d"
  using assms beginClientQuiesce_closed(4) [of c a False]
  by (auto simp: serviceCommandWrite_def Let_def split: if_splits)

lemma send_ledger:
  assumes "client_inv c"
  shows "case sendCharacteristicCommand e (Some chr) (Some d) response phone c of (r, c') \<Rightarrow>
    (if r = SendSent \<and> unraced e \<and> reported chr c' d response = w then 1 else 0) + saved_write w c' + count_list (bc_wire c) w \<le>
      saved_write w c + count_list (bc_wire c') w"
    (is "case ?s of (r, c') \<Rightarrow> ?L r c'")
proof -
  let ?a = "serviceCommandWrite (se_answers e) c"
  let ?d = "async_run ?a (se_afterService e)"
  have inv: "client_inv ?a" "client_inv ?d"
    using assms by (simp_all add: serviceCommandWrite_inv async_run_inv)
  have served: "saved_write w ?a = saved_write w c" "bc_wire ?a = bc_wire c"
    by (rule saved_write_part, simp, rule wire_part, simp)
  note after = async_run_saves [OF inv(1), of w "se_afterService e", unfolded served]
  consider "length d = 0 \<or> length d > COMMAND_BUFFER"
    | "\<not> (length d = 0 \<or> length d > COMMAND_BUFFER)" "\<not> isConnected ?d \<or> lk_state ?d = BleQuiescing"
    | "\<not> (length d = 0 \<or> length d > COMMAND_BUFFER)" "\<not> (\<not> isConnected ?d \<or> lk_state ?d = BleQuiescing)" "bc_active ?d"
    | "\<not> (length d = 0 \<or> length d > COMMAND_BUFFER)" "\<not> (\<not> isConnected ?d \<or> lk_state ?d = BleQuiescing)" "\<not> bc_active ?d"
    by blast
  then show ?thesis
  proof cases
    case 1
    then have "?s = (SendFailed, c)" by (simp add: sendCharacteristicCommand_def)
    then show ?thesis by simp
  next
    case 2
    then have "?s = (SendFailed, ?d)" by (simp only: sendCharacteristicCommand_def Let_def option.case if_True if_False)
    with after show ?thesis by simp
  next
    case 3
    obtain r c' where h: "harvest e chr d response phone ?d = (r, c')" by fastforce
    have s: "?s = (r, c')" using 3 h by (simp add: sendCharacteristicCommand_def Let_def)
    from harvest_saves(1) [of w e chr d response phone ?d] harvest_saves(2) [of e chr d response phone ?d] h
    have le: "saved_write w c' \<le> saved_write w ?d" "bc_wire c' = bc_wire ?d" by simp_all
    show ?thesis
    proof (cases "r = SendSent \<and> unraced e \<and> reported chr c' d response = w")
      case False
      with s le after show ?thesis by auto
    next
      case True
      with h have h: "harvest e chr d response phone ?d = (SendSent, c')" by simp
      note sent = sent_harvest [OF h]
      from True have u: "list_all (\<lambda>x. \<not> releases_gate x) (se_afterService e)" by (simp add: unraced_def)
      have idle: "\<not> lk_taskRunning ?a" using sent(2) unraced_running [OF u] by simp
      have part: "command_part ?d = command_part ?a" by (rule unraced_part [OF u])
      have "lk_state ?a \<noteq> BleQuiescing" using 3(2) by simp
      with unserved_result [OF refl _ _ idle] part 3(3) have "bc_workerResult ?d" by (simp add: command_part_def)
      moreover have "cx_generation (bc_context ?d) = lk_generation ?d"
        using inv(2) 3(2,3) by (simp add: client_inv_def command_inv_def)
      ultimately have "saved_write w ?d = 1"
        using True 3(3) sent(1,5) by (simp add: saved_write_def reported_def)
      with s sent(3,4) after show ?thesis by (simp add: idle_saves_nothing)
    qed
  next
    case 4
    obtain r c' where h: "admit e chr d response phone ?d = (r, c')" by fastforce
    have s: "?s = (r, c')" using 4 h by (simp add: sendCharacteristicCommand_def Let_def)
    from admit_ledger [OF inv(2) 4(3), where e = e and chr = chr and d = d and response = response and phone = phone and w = w]
    have "saved_write w c' = 0"
      "(if r = SendSent \<and> reported chr c' d response = w then 1 else 0) + count_list (bc_wire ?d) w \<le> count_list (bc_wire c') w"
      unfolding h by simp_all
    with after s show ?thesis by (auto split: if_splits)
  qed
qed

lemma send_as_ledger:
  assumes "client_inv c" "command_channel long c = Some chr"
  shows "case send_as e owner long (Some d) response phone c of (r, c') \<Rightarrow>
    (if r = SendSent \<and> unraced e \<and> reported chr c' d response = w then 1 else 0) + saved_write w c' + count_list (bc_wire c) w \<le>
      saved_write w c + count_list (bc_wire c') w"
proof -
  let ?c = "c\<lparr>bc_commandOwner := owner\<rparr>"
  obtain r c' where s: "sendCharacteristicCommand e (Some chr) (Some d) response phone ?c = (r, c')" by fastforce
  have "client_inv ?c" using assms by simp
  from send_ledger [OF this, where e = e and chr = chr and d = d and response = response and phone = phone and w = w]
  have "(if r = SendSent \<and> unraced e \<and> reported chr c' d response = w then 1 else 0) + saved_write w c' + count_list (bc_wire c) w
      \<le> saved_write w c + count_list (bc_wire c') w"
    unfolding s by (simp add: saved_write_def)
  moreover have "command_channel long ?c = Some chr" using assms(2) by (cases long) (simp_all add: command_channel_def)
  ultimately show ?thesis
    by (simp add: send_as_def command_scope_def s saved_write_def reported_def)
qed

lemma send_as_null:
  assumes "client_inv c" "command_channel long c = None \<or> data = None"
  shows "saved_write w (snd (send_as e owner long data response phone c)) + count_list (bc_wire c) w \<le>
    saved_write w c + count_list (bc_wire (snd (send_as e owner long data response phone c))) w"
proof -
  let ?c = "c\<lparr>bc_commandOwner := owner\<rparr>"
  let ?a = "serviceCommandWrite (se_answers e) ?c"
  let ?d = "async_run ?a (se_afterService e)"
  have served: "saved_write w ?a = saved_write w c" "bc_wire ?a = bc_wire c"
    by (rule saved_write_part, simp, rule wire_part, simp)
  have "client_inv ?a" using assms by (simp add: serviceCommandWrite_inv)
  note after = async_run_saves [OF this, of w "se_afterService e", unfolded served]
  have n: "command_channel long ?c = command_channel long c" by (simp add: command_channel_def)
  have "saved_write w (x\<lparr>bc_commandOwner := y\<rparr>) = saved_write w x" for x y by (simp add: saved_write_def)
  with assms(2) after show ?thesis
    by (auto simp: send_as_def command_scope_def sendCharacteristicCommand_def n Let_def split: option.splits)
qed

text \<open>The follow-up's sends are not reports to a caller; they spend at most what was saved.\<close>

lemma free_part: "followup_free c = followup_free d \<Longrightarrow> command_part c = command_part d"
proof -
  have "command_part (followup_free x) = command_part x" for x by (simp add: command_part_def followup_free_def)
  then show "followup_free c = followup_free d \<Longrightarrow> command_part c = command_part d" by metis
qed

lemma short_send_ledger:
  assumes "client_inv c"
  shows "saved_write w (snd (sendCommandWithResult e (Some d) c)) + count_list (bc_wire c) w \<le>
    saved_write w c + count_list (bc_wire (snd (sendCommandWithResult e (Some d) c))) w"
  using short_send_cases [of e "Some d" c]
proof (elim disjE exE conjE)
  fix chr
  assume s: "sendCommandWithResult e (Some d) c = sendCharacteristicCommand e (Some chr) (Some d) (ch_canWrite chr) 0 c"
  from send_ledger [OF assms, where e = e and chr = chr and d = d and response = "ch_canWrite chr" and phone = 0 and w = w]
  show ?thesis unfolding s by (auto split: prod.splits if_splits)
qed simp

lemma followup_saves:
  assumes "client_inv c"
  shows "saved_write w (drain_followup e bonds c) + count_list (bc_wire c) w \<le>
    saved_write w c + count_list (bc_wire (drain_followup e bonds c)) w"
proof -
  let ?P = "\<lambda>d. client_inv d \<and> saved_write w d + count_list (bc_wire c) w \<le> saved_write w c + count_list (bc_wire d) w"
  have "?P (drain_followup e bonds c)"
  proof (rule followup_keeps [where P = ?P])
    show "?P x" if "followup_free x = followup_free y" "?P y" for x y
      using that(2) same_free_inv [OF that(1)] saved_write_part [OF free_part [OF that(1)], of w]
        wire_part [OF free_part [OF that(1)]] by simp
    show "?P (snd (sendCommandWithResult e (Some d) x))" if "?P x" for d x
      using that sendCommandWithResult_inv [of x e "Some d"] short_send_ledger [of x w e d] by simp
    show "?P c" using assms by simp
  qed
  then show ?thesis by simp
qed

lemma ledger_balance:
  assumes "client_inv c"
  shows "reports_sent w c e + saved_write w (client_step c e) + count_list (bc_wire c) w
    \<le> saved_write w c + count_list (bc_wire (client_step c e)) w"
proof -
  have same: "reports_sent w c e + saved_write w (client_step c e) + count_list (bc_wire c) w
      \<le> saved_write w c + count_list (bc_wire (client_step c e)) w"
    if "command_part (client_step c e) = command_part c" "reports_sent w c e = 0"
    using saved_write_part [OF that(1), of w] wire_part [OF that(1)] that(2) by simp
  show ?thesis
  proof (cases "outside_followup e")
    case True
    then have "reports_sent w c e = 0" by (cases e) (simp_all add: reports_sent_def)
    with same [OF free_part [OF outside_followup_free [OF True]]] show ?thesis .
  next
  case False
  then show ?thesis
  proof (cases e)
    case (EvSend env owner long data response phone)
    show ?thesis
    proof (cases "command_channel long c = None \<or> data = None")
      case True
      with send_as_null [OF assms True, where e = env and owner = owner and response = response and phone = phone and w = w] EvSend show ?thesis
        by (auto simp: reports_sent_def split_beta split: option.splits)
    next
      case False
      then obtain chr d where "command_channel long c = Some chr" "data = Some d" by auto
      with send_as_ledger [OF assms this(1), where e = env and owner = owner and d = d and response = response and phone = phone and w = w] EvSend show ?thesis
        by (simp add: reports_sent_def split_beta)
    qed
  next
    case (EvAsync x)
    with async_saves [OF assms, of w x] show ?thesis by (simp add: reports_sent_def)
  next
    case (EvDispatch a)
    with dispatch_saves(1) [of w a c] dispatch_saves(2) [of a c] show ?thesis by (simp add: reports_sent_def)
  next
    case (EvFollowup env bonds)
    with followup_saves [OF assms, of w env bonds] show ?thesis by (simp add: reports_sent_def)
  qed (rule same; use False in \<open>simp add: reports_sent_def onV1RequestNotProcessed_def
      onV1DisplayFlowControl_def onV1Busy_def onV1FirmwareVersionReceived_def Let_def\<close>)+
  qed
qed

lemma wire_grows: "client_inv c \<Longrightarrow> count_list (bc_wire c) w \<le> saved_write w c + count_list (bc_wire (client_step c e)) w"
  using ledger_balance [of c w e] by simp

text \<open>
  Claim C14. Every report is covered: over any history of sends, passes, callbacks and worker
  steps, the client reports \<open>SENT\<close> for given bytes on a characteristic in a session at most as often as
  the stack completed that very write in that session, as long as no worker completes between
  a send's service call and its harvest.
\<close>

theorem every_report_was_written:
  "total client_step (reports_sent w) new_client es \<le> count_list (bc_wire (foldl client_step new_client es)) w"
proof -
  have "total client_step (reports_sent w) c es + saved_write w (foldl client_step c es) + count_list (bc_wire c) w
      \<le> saved_write w c + count_list (bc_wire (foldl client_step c es)) w" if "client_inv c" for c
    using that
  proof (induction es arbitrary: c)
    case (Cons e es)
    from ledger_balance [OF Cons.prems, of w e] Cons.IH [OF client_step_inv [OF Cons.prems, of e]]
    show ?case by simp
  qed simp
  from this [OF new_client_inv] show ?thesis by (simp add: saved_write_def new_client_def v1_link.defs)
qed

end
