(* ===== verification/V1_Client_Examples.thy ===== *)
theory V1_Client_Examples
  imports V1_Command_Ledger
begin

text \<open>
  Concrete histories of the Bluetooth client: a connection from boot to the published session,
  on which the witnesses run, and the schedule in which a failed write is reported as sent.
\<close>

definition sample_service :: remote_service where
  "sample_service = (V1_SERVICE_UUID,
     [\<lparr>ch_uuid = V1_DISPLAY_DATA_UUID, ch_handle = 10, ch_canWrite = False, ch_canWriteNoResponse = False,
       ch_canNotify = True, ch_canIndicate = False\<rparr>,
      \<lparr>ch_uuid = V1_COMMAND_WRITE_UUID, ch_handle = 12, ch_canWrite = True, ch_canWriteNoResponse = True,
       ch_canNotify = False, ch_canIndicate = False\<rparr>])"

definition answers_at :: "u32 \<Rightarrow> stack_answers" where
  "answers_at now = \<lparr>sa_now = now, sa_scanning = False, sa_connHandle = 7, sa_disconnectAccepted = True,
     sa_clientCreated = True, sa_connectInitiated = True, sa_lastError = 0, sa_scanStarted = True,
     sa_taskCreated = True, sa_lockFree = True, sa_services = [sample_service]\<rparr>"

definition quiet_send :: "u32 \<Rightarrow> send_environment" where
  "quiet_send now = \<lparr>se_answers = answers_at now, se_mtu = 23, se_writeOk = True, se_taskCreated = True,
     se_afterService = [], se_beforeWrite = [], se_duringWrite = []\<rparr>"

text \<open>A pass of the main loop at the given time.\<close>

definition pass_at :: "u32 \<Rightarrow> client_event list" where
  "pass_at now = [EvDeferred (answers_at now), EvFollowup (quiet_send now) 1, EvDispatch (answers_at now)]"

definition connecting_history :: "client_event list" where
  "connecting_history =
     [EvBootReady True] @ pass_at 1000 @ [EvAsync (AsScanTarget 7)] @ pass_at 1100 @ pass_at 1400 @ pass_at 1410 @
     [EvAsync (AsLink True), EvAsync (AsConnect (answers_at 1450))] @ pass_at 1500 @ pass_at 1510 @
     [EvAsync (AsAttributeWorker True)] @ pass_at 1520"

definition subscribing_history :: "client_event list" where
  "subscribing_history =
     concat (map pass_at [1530, 1540, 1550, 1560, 1570, 1580, 1590, 1600, 1610]) @
     [EvAsync (AsAttributeWorker True), EvAsync (AsAttributeWorker True)] @
     concat (map pass_at [1620, 1630, 1640, 1650, 1660, 1670, 1680, 1690, 1700])"

definition connected_client :: v1_client where
  "connected_client = foldl client_step new_client (connecting_history @ subscribing_history)"

section \<open>A failed write reported as sent\<close>

text \<open>
  A mute of thirteen or fewer bytes goes to the worker on this channel. The worker starts its
  write, and the stack refuses it.
\<close>

definition mute_frame :: "u8 list" where
  "mute_frame = [0xAA, 0xDA, 0xE6, 0x34, 0x01, 0x9F, 0xAB]"

definition writing_client :: v1_client where
  "writing_client = foldl client_step connected_client
     [EvSend (quiet_send 2000) OwnAutoPush False (Some mute_frame) True 0, EvAsync AsWorkerStart]"

text \<open>
  A caller that asks again for the very command in flight, within its deadline and in its open
  session.
\<close>

definition asks_again :: "send_environment \<Rightarrow> remote_characteristic \<Rightarrow> u8 list \<Rightarrow> bool \<Rightarrow> u32 \<Rightarrow> v1_client \<Rightarrow> bool" where
  "asks_again e chr d response phone c \<longleftrightarrow>
     bc_active c \<and> lk_taskRunning c \<and> isConnected c \<and> lk_state c \<noteq> BleQuiescing \<and>
     gate_accepts (lk_gate c) (cx_generation (bc_context c)) \<and> (phone = 0 \<or> acceptsPhoneSession c phone) \<and>
     elapsed_ms (sa_now (se_answers e)) (bc_startedMs c) < COMMAND_WRITE_TIMEOUT_MS \<and>
     cx_owner (bc_context c) = bc_commandOwner c \<and> cx_characteristic (bc_context c) = Some chr \<and>
     cx_data (bc_context c) = d \<and> cx_response (bc_context c) = response \<and> cx_phoneGeneration (bc_context c) = phone \<and>
     0 < length d \<and> length d \<le> COMMAND_BUFFER"

lemma failed_before_service:
  assumes "asks_again e chr d response phone c" "bc_worker c = WorkerWriting x \<or> bc_worker c = WorkerRefused"
    and "se_afterService e = []"
  shows "fst (sendCharacteristicCommand e (Some chr) (Some d) response phone (commandTaskFunc False c)) = SendFailed"
proof -
  let ?c = "commandTaskFunc False c"
  have "bc_active ?c" "lk_state ?c \<noteq> BleQuiescing" "\<not> lk_taskRunning ?c" "\<not> bc_workerResult ?c"
    using assms(1,2) by (auto simp: commandTaskFunc_def worker_finish_def asks_again_def)
  then have s: "serviceCommandWrite (se_answers e) ?c = beginClientQuiesce (se_answers e) False ?c"
    by (simp add: serviceCommandWrite_def Let_def)
  have "lk_state (beginClientQuiesce (se_answers e) False ?c) = BleQuiescing"
    by (simp add: beginClientQuiesce_def setBLEState_def Let_def)
  then show ?thesis using assms(1,3) by (simp add: sendCharacteristicCommand_def Let_def s asks_again_def)
qed

lemma failed_after_service:
  assumes "asks_again e chr d response phone c" "bc_worker c = WorkerWriting x \<or> bc_worker c = WorkerRefused"
    and "se_afterService e = [AsWorkerFinish False]"
  shows "sendCharacteristicCommand e (Some chr) (Some d) response phone c =
    harvest e chr d response phone (commandTaskFunc False c)"
proof -
  have s: "serviceCommandWrite (se_answers e) c = c"
    using assms(1) by (auto simp: serviceCommandWrite_def Let_def asks_again_def not_le)
  have "isConnected (commandTaskFunc False c)" "lk_state (commandTaskFunc False c) \<noteq> BleQuiescing" "bc_active (commandTaskFunc False c)"
    using assms(1,2) by (auto simp: commandTaskFunc_def worker_finish_def asks_again_def isConnected_def stack_connected_def)
  then show ?thesis using assms(1,3) by (simp add: sendCharacteristicCommand_def Let_def s asks_again_def)
qed

lemma success_fields [simp]:
  "bc_wire (publishCommandSuccess now d session boundary rejected c) = bc_wire c"
  "lk_state (publishCommandSuccess now d session boundary rejected c) = lk_state c"
  "bc_completedIngress (publishCommandSuccess now d session boundary rejected c) = bc_completedIngress c"
  by (simp_all add: publishCommandSuccess_def Let_def)


text \<open>The mute of the history above, whose worker is refused by the stack.\<close>

definition owned_client :: v1_client where
  "owned_client = writing_client\<lparr>bc_commandOwner := OwnAutoPush\<rparr>"


end
