(* ===== verification/V1_Client_Steps.thy ===== *)
theory V1_Client_Steps
  imports V1_Command_Ledger
begin

text \<open>
  What the steps of the client leave alone: the clock of the outstanding command, the alert
  input and the worker, apart from the steps that are about them.
\<close>

section \<open>The link\<close>

text \<open>
  The clock of the outstanding command is set by its admission alone, the alert input by the
  callbacks and the main loop's own calls, the worker by its own steps: the steps of the link
  leave all three.
\<close>

definition admission_part :: "v1_client \<Rightarrow> u32 \<times> alert_input \<times> worker_phase" where
  "admission_part c = (bc_startedMs c, bc_alertInput c, bc_worker c)"

lemma link_keeps_admission:
  "admission_part (setBLEState now s c) = admission_part c"
  "admission_part (beginClientQuiesce a hard c) = admission_part c"
  "admission_part (drop_attempt c) = admission_part c"
  "admission_part (snd (connectToServer a c)) = admission_part c"
  "admission_part (snd (finishConnection a c)) = admission_part c"
  "admission_part (processSubscribeYield a c) = admission_part c"
  "admission_part (onConnect a c) = admission_part c"
  "admission_part (onConnectFail c) = admission_part c"
  "admission_part (onDisconnect now h r c) = admission_part c"
  by (simp_all add: admission_part_def setBLEState_def beginClientQuiesce_def drop_attempt_def connectToServer_def
      finishConnection_def processSubscribeYield_def onConnect_def onConnectFail_def onDisconnect_def
      queue_teardown_def Let_def)

lemmas link_keeps_admission_fields [simp] =
  link_keeps_admission [unfolded admission_part_def prod.inject, THEN conjunct1]
  link_keeps_admission [unfolded admission_part_def prod.inject, THEN conjunct2, THEN conjunct1]
  link_keeps_admission [unfolded admission_part_def prod.inject, THEN conjunct2, THEN conjunct2]

lemma after_failure_admission:
  "(\<And>d. bc_startedMs (exit d) = bc_startedMs d) \<Longrightarrow> bc_startedMs (after_failure a exit c) = bc_startedMs (c :: v1_client)"
  "(\<And>d. bc_alertInput (exit d) = bc_alertInput d) \<Longrightarrow> bc_alertInput (after_failure a exit c) = bc_alertInput (c :: v1_client)"
  "(\<And>d. bc_worker (exit d) = bc_worker d) \<Longrightarrow> bc_worker (after_failure a exit c) = bc_worker (c :: v1_client)"
  by (simp_all add: after_failure_def Let_def hardResetBLEClient_def)

lemma sequence_keeps_admission:
  "admission_part (snd (startAsyncConnect a c)) = admission_part c"
  "admission_part (processConnectingWait a c) = admission_part c"
  "admission_part (processDiscovering a c) = admission_part c"
  "admission_part (snd (publishConnected a g c)) = admission_part c"
  by (simp_all add: admission_part_def startAsyncConnect_def processConnectingWait_def processDiscovering_def publishConnected_cases
      retract_connected_def note_connected_def Let_def after_failure_admission)

lemmas sequence_keeps_admission_fields [simp] =
  sequence_keeps_admission [unfolded admission_part_def prod.inject, THEN conjunct1]
  sequence_keeps_admission [unfolded admission_part_def prod.inject, THEN conjunct2, THEN conjunct1]
  sequence_keeps_admission [unfolded admission_part_def prod.inject, THEN conjunct2, THEN conjunct2]

lemma executeSubscribeStep_admission: "admission_part (snd (executeSubscribeStep a s c)) = admission_part c"
  by (cases s)
    (simp_all add: admission_part_def Let_def subscribe_then_def processSubscriptionWrite_def
      split: option.split subscribe_result.split)

lemmas executeSubscribeStep_admission_fields [simp] =
  executeSubscribeStep_admission [unfolded admission_part_def prod.inject, THEN conjunct1]
  executeSubscribeStep_admission [unfolded admission_part_def prod.inject, THEN conjunct2, THEN conjunct1]
  executeSubscribeStep_admission [unfolded admission_part_def prod.inject, THEN conjunct2, THEN conjunct2]

lemma processSubscribing_admission: "admission_part (snd (processSubscribing a c)) = admission_part c"
proof -
  obtain r d where e: "executeSubscribeStep a (lk_subscribeStep c) c = (r, d)" by fastforce
  with executeSubscribeStep_admission [of a "lk_subscribeStep c" c] have "admission_part d = admission_part c" by simp
  then show ?thesis by (cases r) (simp_all add: admission_part_def processSubscribing_def Let_def e)
qed

lemmas processSubscribing_admission_fields [simp] =
  processSubscribing_admission [unfolded admission_part_def prod.inject, THEN conjunct1]
  processSubscribing_admission [unfolded admission_part_def prod.inject, THEN conjunct2, THEN conjunct1]
  processSubscribing_admission [unfolded admission_part_def prod.inject, THEN conjunct2, THEN conjunct2]

lemma deferred_keep_admission:
  "admission_part (apply_connect_update a c) = admission_part c"
  "admission_part (apply_disconnect_cleanup a c) = admission_part c"
  "admission_part (apply_scan_end a c) = admission_part c"
  "admission_part (apply_scan_target a c) = admission_part c"
  "admission_part (serviceCommandWrite a c) = admission_part c"
  by (simp_all add: admission_part_def apply_connect_update_def apply_disconnect_cleanup_def apply_scan_end_def
      apply_scan_target_def serviceCommandWrite_def Let_def split: option.split)

lemmas deferred_keep_admission_fields [simp] =
  deferred_keep_admission [unfolded admission_part_def prod.inject, THEN conjunct1]
  deferred_keep_admission [unfolded admission_part_def prod.inject, THEN conjunct2, THEN conjunct1]
  deferred_keep_admission [unfolded admission_part_def prod.inject, THEN conjunct2, THEN conjunct2]

lemma dispatch_keeps_admission:
  "admission_part (dispatch_disconnected a c) = admission_part c"
  "admission_part (dispatch_scanning a c) = admission_part c"
  "admission_part (dispatch_scan_stopping a c) = admission_part c"
  "admission_part (dispatch_connecting a c) = admission_part c"
  "admission_part (dispatch_connected a c) = admission_part c"
  "admission_part (finalize_quiesce a c) = admission_part c"
  "admission_part (with_quiesce q c) = admission_part c"
  by (simp_all add: admission_part_def dispatch_disconnected_def dispatch_scanning_def dispatch_scan_stopping_def
      dispatch_connecting_def dispatch_connected_def finalize_quiesce_def cleanupConnection_def
      completeHardResetBLEClient_def with_quiesce_def Let_def)

lemmas dispatch_keeps_admission_fields [simp] =
  dispatch_keeps_admission [unfolded admission_part_def prod.inject, THEN conjunct1]
  dispatch_keeps_admission [unfolded admission_part_def prod.inject, THEN conjunct2, THEN conjunct1]
  dispatch_keeps_admission [unfolded admission_part_def prod.inject, THEN conjunct2, THEN conjunct2]

lemma dispatch_admission: "admission_part (snd (dispatchConnectionState a c)) = admission_part c"
  by (cases "lk_state c")
    (simp_all add: admission_part_def dispatchConnectionState_def poll_quiesce_def Let_def split_beta)

lemma deferred_admission: "admission_part (deferred_work a c) = admission_part c"
  by (simp add: admission_part_def deferred_work_def)

lemmas pass_admission_fields [simp] =
  dispatch_admission [unfolded admission_part_def prod.inject, THEN conjunct1]
  dispatch_admission [unfolded admission_part_def prod.inject, THEN conjunct2, THEN conjunct1]
  dispatch_admission [unfolded admission_part_def prod.inject, THEN conjunct2, THEN conjunct2]
  deferred_admission [unfolded admission_part_def prod.inject, THEN conjunct1]
  deferred_admission [unfolded admission_part_def prod.inject, THEN conjunct2, THEN conjunct1]
  deferred_admission [unfolded admission_part_def prod.inject, THEN conjunct2, THEN conjunct2]

section \<open>The other tasks\<close>

lemma async_keeps_started [simp]:
  "bc_startedMs (async_step c e) = bc_startedMs c" "bc_active (async_step c e) = bc_active c"
  by (cases e; simp add: worker_start_def commandTaskFunc_def worker_finish_def attribute_worker_step_def
      attribute_task_done_def onConnect_def onConnectFail_def onDisconnect_def queue_teardown_def Let_def
      split: worker_phase.split attribute_worker.split)+

lemma async_run_keeps_started [simp]:
  "bc_startedMs (async_run c es) = bc_startedMs c" "bc_active (async_run c es) = bc_active c"
  by (induction es arbitrary: c) simp_all

lemma service_active [simp]: "bc_active (serviceCommandWrite a c) = bc_active c"
  using service_part [of a c] by (simp add: command_part_def)

lemma cancel_started [simp]: "bc_startedMs (cancelCommand a owner c) = bc_startedMs c"
  by (simp add: cancelCommand_def)

lemma harvest_started: "bc_startedMs (snd (harvest e chr d response phone c)) = bc_startedMs c"
  by (simp add: harvest_def publishCommandSuccess_def Let_def)


text \<open>What a step does to the alert input: the losses its callbacks report, in their order.\<close>

fun loss_events :: "async_event \<Rightarrow> alert_input_event list" where
  "loss_events (AsLoss g x) = [AiLoss g x]"
| "loss_events _ = []"

lemma async_input: "bc_alertInput (async_step c e) = foldl ai_step (bc_alertInput c) (loss_events e)"
  by (cases e)
    (simp_all add: worker_start_def commandTaskFunc_def worker_finish_def attribute_worker_step_def
      attribute_task_done_def Let_def split: worker_phase.split attribute_worker.split)

lemma async_run_input:
  "bc_alertInput (async_run c es) = foldl ai_step (bc_alertInput c) (concat (map loss_events es))"
  by (induction es arbitrary: c) (simp_all add: async_input)

lemma async_owner [simp]: "bc_commandOwner (async_step c e) = bc_commandOwner c"
  by (cases e)
    (simp_all add: worker_start_def commandTaskFunc_def worker_finish_def attribute_worker_step_def
      attribute_task_done_def onConnect_def onConnectFail_def onDisconnect_def queue_teardown_def Let_def
      split: worker_phase.split attribute_worker.split)

lemma async_run_owner [simp]: "bc_commandOwner (async_run c es) = bc_commandOwner c"
  by (induction es arbitrary: c) simp_all

section \<open>A send that meets an outstanding command\<close>

text \<open>It serves the command, the other tasks' events happen, and it harvests: it admits nothing.\<close>

definition command_view :: "v1_client \<Rightarrow> u32 \<times> alert_input \<times> worker_phase \<times> command_context" where
  "command_view c = (bc_startedMs c, bc_alertInput c, bc_worker c, bc_context c)"

definition after_service :: "send_environment \<Rightarrow> v1_client \<Rightarrow> v1_client" where
  "after_service e c = async_run (serviceCommandWrite (se_answers e) c) (se_afterService e)"

lemma service_context [simp]: "bc_context (serviceCommandWrite a c) = bc_context c"
  using service_part [of a c] by (simp add: command_part_def)

lemma service_view [simp]: "command_view (serviceCommandWrite a c) = command_view c"
  by (simp add: command_view_def)

lemma harvest_view: "command_view (snd (harvest e chr d response phone c)) = command_view c"
  using cancel_part [of "se_answers e" "bc_commandOwner c" c]
  by (simp add: harvest_def publishCommandSuccess_def cancelCommand_def command_part_def command_view_def Let_def)

lemma char_send_view:
  assumes "bc_active c"
  shows "command_view (snd (sendCharacteristicCommand e chr data response phone c)) =
    command_view (case data of None \<Rightarrow> c
      | Some d \<Rightarrow> if d = [] \<or> length d > COMMAND_BUFFER then c else after_service e c)"
  using assms
  by (auto simp: sendCharacteristicCommand_def after_service_def Let_def harvest_view split: option.split)

lemma owner_view [simp]: "command_view (c\<lparr>bc_commandOwner := owner\<rparr>) = command_view c"
  by (simp add: command_view_def)

lemma async_view_cong: "command_view c = command_view d \<Longrightarrow> bc_alertInput c = bc_alertInput d"
  by (simp add: command_view_def)

lemma send_as_view:
  assumes "bc_active c"
  shows "command_view (snd (send_as e owner long data response phone c)) =
    command_view (case data of None \<Rightarrow> c
      | Some d \<Rightarrow> if d = [] \<or> length d > COMMAND_BUFFER then c
                  else after_service e (c\<lparr>bc_commandOwner := owner\<rparr>))"
  using char_send_view [of "c\<lparr>bc_commandOwner := owner\<rparr>" e _ data response phone] assms
  by (simp add: send_as_def command_scope_def split_beta split: option.split)

lemma short_send_view:
  assumes "bc_active c"
  shows "command_view (snd (sendCommandWithResult e (Some d) c)) \<in> {command_view c, command_view (after_service e c)}"
  using short_send_cases [of e "Some d" c] char_send_view [OF assms, of e _ "Some d"] by fastforce

lemma free_view: "followup_free c = followup_free d \<Longrightarrow> command_view c = command_view d"
proof -
  have "command_view (followup_free x) = command_view x" for x by (simp add: command_view_def followup_free_def)
  then show "followup_free c = followup_free d \<Longrightarrow> command_view c = command_view d" by metis
qed

lemma followup_view:
  assumes "bc_active c"
  shows "command_view (drain_followup e bonds c) \<in>
    {command_view c, command_view (after_service e (c\<lparr>bc_commandOwner := OwnConnectedFollowup\<rparr>))}"
proof -
  let ?c = "c\<lparr>bc_commandOwner := OwnConnectedFollowup\<rparr>"
  have "followup_free (processConnectedFollowup e bonds c) = followup_free (followup_body e bonds ?c)"
    by (simp add: processConnectedFollowup_def command_scope_def)
  then have "command_view (processConnectedFollowup e bonds c) = command_view (followup_body e bonds ?c)"
    by (rule free_view)
  moreover have "command_view (followup_body e bonds ?c) \<in> {command_view ?c, command_view (after_service e ?c)}"
    using followup_body_shape [of e bonds ?c] short_send_view [of ?c e] assms
    by (fastforce dest: free_view)
  ultimately show ?thesis by (auto simp: drain_followup_def)
qed

end
