(* ===== verification/V1_Client_Properties.thy ===== *)
theory V1_Client_Properties
  imports V1_Client_Examples V1_Client_Steps
begin

text \<open>
  What the Bluetooth client promises over whole histories: an outstanding write stays with its
  session, an admitted command does not stay outstanding, a rejected volume write is recognised
  exactly, and an automatic mute is written only under the unbroken alert input it was
  decided on.
\<close>

section \<open>The session of an outstanding write\<close>

lemma reachable_inv: "client_inv (foldl client_step new_client es)"
  by (rule client.run_inv [OF new_client_inv])

text \<open>
  Claim C15. No session opens over a write: in every history, while the worker writes a command, the
  running gate is held, the context is still the one the worker copied, and the client is
  either still in the session of the command or quiescing out of it with its gate closed and
  exactly the next generation reserved.
\<close>

theorem write_confined_to_session:
  assumes "bc_worker (foldl client_step new_client es) = WorkerWriting x"
  shows "let c = foldl client_step new_client es in
     lk_taskRunning c \<and> bc_context c = x \<and>
     lk_state c \<in> {BleSubscribing, BleSubscribeYield, BleConnected, BleQuiescing} \<and>
     (if lk_state c = BleQuiescing
      then lk_gate c = gate_close \<and> lk_generation c = skip_zero (cx_generation x + 1)
      else lk_generation c = cx_generation x)"
proof -
  let ?c = "foldl client_step new_client es"
  have i: "session_inv ?c" "worker_inv ?c" "command_inv ?c"
    using reachable_inv [of es] by (simp_all add: client_inv_def)
  from i(2) assms have w: "lk_taskRunning ?c" "bc_active ?c" "x = bc_context ?c" by (auto simp: worker_inv_def)
  from i(3) w(2) have "\<not> before_subscription (lk_state ?c)"
    "lk_generation ?c = (if lk_state ?c = BleQuiescing then skip_zero (cx_generation (bc_context ?c) + 1)
                         else cx_generation (bc_context ?c))"
    by (simp_all add: command_inv_def)
  moreover from i(1) have "lk_state ?c = BleQuiescing \<Longrightarrow> lk_gate ?c = gate_close"
    by (simp add: session_inv_def gate_close_def)
  ultimately show ?thesis using w
    by (cases "lk_state ?c") (simp_all add: before_subscription_def Let_def)
qed

lemma write_confined_to_session_witness:
  "lk_state (client_step writing_client (EvCancel (answers_at 2005) OwnAutoPush)) = BleQuiescing \<and>
   lk_generation (client_step writing_client (EvCancel (answers_at 2005) OwnAutoPush)) =
     skip_zero (cx_generation (bc_context writing_client) + 1)"
proof -
  let ?es = "connecting_history @ subscribing_history @
    [EvSend (quiet_send 2000) OwnAutoPush False (Some mute_frame) True 0, EvAsync AsWorkerStart,
     EvCancel (answers_at 2005) OwnAutoPush]"
  have run: "foldl client_step new_client ?es = client_step writing_client (EvCancel (answers_at 2005) OwnAutoPush)"
    by (simp add: writing_client_def connected_client_def)
  have "bc_worker (client_step writing_client (EvCancel (answers_at 2005) OwnAutoPush)) = WorkerWriting (bc_context writing_client)"
    "lk_state (client_step writing_client (EvCancel (answers_at 2005) OwnAutoPush)) = BleQuiescing"
    by code_simp+
  with write_confined_to_session [of ?es, unfolded run] show ?thesis by (simp add: Let_def)
qed

section \<open>An admitted command does not stay outstanding\<close>

text \<open>
  A machine with a deadline: while an occurrence is open its start does not move, and an event
  that finds the start expired closes it. Then any history that contains such an event has
  closed the occurrence somewhere on the way.
\<close>

locale deadline_machine = event_machine step inv
  for step :: "'s \<Rightarrow> 'e \<Rightarrow> 's" and inv :: "'s \<Rightarrow> bool" +
  fixes opened :: "'s \<Rightarrow> bool"
    and started :: "'s \<Rightarrow> u32"
    and expires :: "'e \<Rightarrow> u32 \<Rightarrow> bool"
  assumes start_fixed: "inv s \<Longrightarrow> opened s \<Longrightarrow> opened (step s e) \<Longrightarrow> started (step s e) = started s"
    and expiry_closes: "inv s \<Longrightarrow> opened s \<Longrightarrow> expires e (started s) \<Longrightarrow> \<not> opened (step s e)"
begin

lemma settles:
  assumes "inv s" "e \<in> set es" "expires e (started s)"
  shows "\<exists>n \<le> length es. \<not> opened (foldl step s (take n es))"
  using assms
proof (induction es arbitrary: s)
  case (Cons x es)
  show ?case
  proof (cases "opened s \<and> opened (step s x)")
    case False
    then have "\<not> opened (foldl step s (take (if opened s then 1 else 0) (x # es)))" by auto
    then show ?thesis by (intro exI [of _ "if opened s then 1 else 0"]) simp
  next
    case True
    with expiry_closes [OF Cons.prems(1)] Cons.prems(2,3) have "e \<in> set es" by auto
    with True Cons.IH [OF step_inv [OF Cons.prems(1)]] start_fixed [OF Cons.prems(1)] Cons.prems(3)
    obtain n where "n \<le> length es" "\<not> opened (foldl step (step s x) (take n es))" by metis
    then have "Suc n \<le> length (x # es)" "\<not> opened (foldl step s (take (Suc n) (x # es)))" by simp_all
    then show ?thesis by blast
  qed
qed simp

end

text \<open>While a command is outstanding no step moves its clock.\<close>

lemma view_started: "command_view c = command_view d \<Longrightarrow> bc_startedMs c = bc_startedMs d"
  by (simp add: command_view_def)

lemma after_service_started [simp]: "bc_startedMs (after_service e c) = bc_startedMs c"
  by (simp add: after_service_def)

lemma send_as_started:
  "bc_active c \<Longrightarrow> bc_startedMs (snd (send_as e owner long data response phone c)) = bc_startedMs c"
  using view_started [OF send_as_view [of c e owner long data response phone]] by (simp split: option.splits if_splits)

lemma followup_started: "bc_active c \<Longrightarrow> bc_startedMs (drain_followup e bonds c) = bc_startedMs c"
  using followup_view [of c e bonds] by (auto dest!: view_started)

lemma client_step_started:
  assumes "bc_active c"
  shows "bc_startedMs (client_step c e) = bc_startedMs c"
proof (cases "outside_followup e")
  case True
  then show ?thesis by (rule view_started [OF free_view [OF outside_followup_free]])
next
  case False
  with assms show ?thesis
    by (cases e)
      (simp_all add: send_as_started followup_started onV1RequestNotProcessed_def onV1DisplayFlowControl_def
        onV1Busy_def onV1FirmwareVersionReceived_def Let_def)
qed

definition outstanding :: "v1_client \<Rightarrow> bool" where
  "outstanding c \<longleftrightarrow> bc_active c \<and> lk_state c \<noteq> BleQuiescing"

fun late_pass :: "client_event \<Rightarrow> u32 \<Rightarrow> bool" where
  "late_pass (EvDeferred a) t \<longleftrightarrow> elapsed_ms (sa_now a) t \<ge> COMMAND_WRITE_TIMEOUT_MS"
| "late_pass _ t \<longleftrightarrow> False"

lemma late_pass_settles:
  assumes "elapsed_ms (sa_now a) (bc_startedMs c) \<ge> COMMAND_WRITE_TIMEOUT_MS"
  shows "\<not> outstanding (deferred_work a c)"
  using assms
  by (auto simp: deferred_work_def outstanding_def serviceCommandWrite_def Let_def beginClientQuiesce_closed)

interpretation command: deadline_machine client_step client_inv outstanding bc_startedMs late_pass
proof
  show "bc_startedMs (client_step c e) = bc_startedMs c" if "outstanding c" for c e
    using that by (simp add: outstanding_def client_step_started)
  show "\<not> outstanding (client_step c e)" if "late_pass e (bc_startedMs c)" for c e
    using that by (cases e) (simp_all add: late_pass_settles)
qed

text \<open>
  Claim C16. Every admitted command is resolved: from any reachable state, in any history of sends, callbacks,
  worker steps and passes that contains one pass at least a second after the admission, there is a
  point at which the command is harvested, refused or retired, or the client is quiescing out
  of its session.
\<close>

theorem command_settles:
  assumes "EvDeferred a \<in> set es"
    and "elapsed_ms (sa_now a) (bc_startedMs (foldl client_step new_client hs)) \<ge> COMMAND_WRITE_TIMEOUT_MS"
  shows "\<exists>n \<le> length es.
     let c = foldl client_step (foldl client_step new_client hs) (take n es)
     in \<not> bc_active c \<or> lk_state c = BleQuiescing"
  using command.settles [OF reachable_inv assms(1), of hs] assms(2) by (simp add: outstanding_def Let_def)


definition writing_history :: "client_event list" where
  "writing_history = connecting_history @ subscribing_history @
     [EvSend (quiet_send 2000) OwnAutoPush False (Some mute_frame) True 0, EvAsync AsWorkerStart]"

lemma writing_history_run: "foldl client_step new_client writing_history = writing_client"
  by (simp only: writing_history_def writing_client_def connected_client_def foldl_append)

lemma command_settles_witness:
  "let c = client_step writing_client (EvDeferred (answers_at 3000))
   in lk_state c = BleQuiescing \<or> bc_active c = False"
proof -
  have late: "elapsed_ms (sa_now (answers_at 3000)) (bc_startedMs (foldl client_step new_client writing_history))
      \<ge> COMMAND_WRITE_TIMEOUT_MS"
    unfolding writing_history_run by code_simp
  have started: "bc_active writing_client" "lk_state writing_client \<noteq> BleQuiescing" by code_simp+
  from command_settles [OF _ late, of "[EvDeferred (answers_at 3000)]", unfolded writing_history_run]
  obtain n where n: "n \<le> Suc 0" "\<not> bc_active (foldl client_step writing_client (take n [EvDeferred (answers_at 3000)])) \<or>
      lk_state (foldl client_step writing_client (take n [EvDeferred (answers_at 3000)])) = BleQuiescing"
    by (auto simp: Let_def)
  with started have "n = Suc 0" by (cases n) auto
  with n(2) show ?thesis by auto
qed

section \<open>The rejection of a volume write\<close>

text \<open>
  The receipt is exact: after any history of sent volume writes and rejections a revision
  counts as rejected in a session exactly when it is the number of the latest write (one counter
  that skips zero), that write was made in this session, and the detector's rejection of it,
  stamped after the write's boundary, came in after it.
\<close>

theorem volume_rejection_exact:
  "receipt_rejected (foldr (\<lambda>e r. receipt_step r e) es new_receipt) revision session \<longleftrightarrow>
     map_option fst (latest_write es) = Some session \<and> revision = nth_revision (writes_sent es) \<and>
     rejection_since es"
proof -
  let ?r = "foldr (\<lambda>e r. receipt_step r e) es new_receipt"
  have "rejection_since es = False" if "latest_write es = None"
    using that by (induction es rule: rejection_since.induct) auto
  with receipt_tracks [of es] show ?thesis
    by (cases "latest_write es") (auto simp: receipt_rejected_def Let_def simp del: nth_revision.simps)
qed


section \<open>The authority of an automatic mute\<close>

text \<open>
  What a step of the client does to the alert input while a worker waits to start: the losses
  its callbacks report and the main loop's resets and qualifications.
\<close>

fun alert_events :: "client_event \<Rightarrow> alert_input_event list" where
  "alert_events (EvAsync e) = loss_events e"
| "alert_events (EvAlertReset g) = [AiReset g]"
| "alert_events (EvAlertQualify g x) = [AiQualify g x]"
| "alert_events (EvSend e owner long (Some d) response phone) =
     (if d = [] \<or> length d > COMMAND_BUFFER then [] else concat (map loss_events (se_afterService e)))"
| "alert_events _ = []"

text \<open>
  A created worker waits, with its command, until it starts. A loss that the tasks report inside
  a send of the follow-up is an event of its own before or after it.
\<close>

fun starts_worker :: "async_event \<Rightarrow> bool" where
  "starts_worker AsWorkerStart = True"
| "starts_worker _ = False"

fun waits :: "client_event \<Rightarrow> bool" where
  "waits (EvAsync e) = (\<not> starts_worker e)"
| "waits (EvSend e owner long data response phone) = list_all (\<lambda>x. \<not> starts_worker x) (se_afterService e)"
| "waits (EvFollowup e bonds) = list_all (\<lambda>x. \<not> starts_worker x \<and> loss_events x = []) (se_afterService e)"
| "waits _ = True"

definition waiting_view :: "v1_client \<Rightarrow> alert_input \<times> worker_phase \<times> command_context" where
  "waiting_view c = (bc_alertInput c, bc_worker c, bc_context c)"

lemma waiting_of_view: "command_view c = command_view d \<Longrightarrow> waiting_view c = waiting_view d"
  by (simp add: command_view_def waiting_view_def)

lemma async_waits:
  assumes "bc_worker c = WorkerCreated" "\<not> starts_worker e"
  shows "bc_worker (async_step c e) = WorkerCreated" "bc_context (async_step c e) = bc_context c"
  using assms
  by (cases e; simp add: commandTaskFunc_def attribute_worker_step_def attribute_task_done_def
      onConnect_def onConnectFail_def onDisconnect_def queue_teardown_def Let_def
      split: worker_phase.split attribute_worker.split)+

lemma async_run_waits:
  assumes "bc_worker c = WorkerCreated" "list_all (\<lambda>x. \<not> starts_worker x) es"
  shows "bc_worker (async_run c es) = WorkerCreated" "bc_context (async_run c es) = bc_context c"
  using assms by (induction es arbitrary: c) (simp_all add: async_waits)

lemma after_service_waits:
  assumes "bc_worker c = WorkerCreated" "list_all (\<lambda>x. \<not> starts_worker x) (se_afterService e)"
  shows "waiting_view (after_service e c) =
    (foldl ai_step (bc_alertInput c) (concat (map loss_events (se_afterService e))), WorkerCreated, bc_context c)"
  using assms by (simp add: after_service_def waiting_view_def async_run_input async_run_waits)

lemma worker_active: "client_inv c \<Longrightarrow> bc_worker c = WorkerCreated \<Longrightarrow> bc_active c"
  by (simp add: client_inv_def worker_inv_def)

lemma no_losses: "list_all (\<lambda>x. P x \<and> loss_events x = []) es \<Longrightarrow> concat (map loss_events es) = []"
  by (auto simp: list_all_iff)

lemma client_step_waits:
  assumes "client_inv c" "bc_worker c = WorkerCreated" "waits e"
  shows "waiting_view (client_step c e) = (foldl ai_step (bc_alertInput c) (alert_events e), WorkerCreated, bc_context c)"
proof -
  note active = worker_active [OF assms(1,2)]
  show ?thesis
  proof (cases "outside_followup e")
    case True
    with assms(2) waiting_of_view [OF free_view [OF outside_followup_free [OF True]]] show ?thesis
      by (cases e) (simp_all add: waiting_view_def)
  next
    case False
    then show ?thesis
    proof (cases e)
      case (EvSend env owner long data response phone)
      let ?c = "c\<lparr>bc_commandOwner := owner\<rparr>"
      from after_service_waits [of ?c env] assms(2,3) EvSend
      have "waiting_view (after_service env ?c) =
          (foldl ai_step (bc_alertInput c) (concat (map loss_events (se_afterService env))), WorkerCreated, bc_context c)"
        by simp
      with EvSend waiting_of_view [OF send_as_view [OF active, of env owner long data response phone]] assms(2)
      show ?thesis by (cases data) (simp_all add: waiting_view_def)
    next
      case (EvFollowup env bonds)
      let ?c = "c\<lparr>bc_commandOwner := OwnConnectedFollowup\<rparr>"
      from EvFollowup assms(3) have quiet: "list_all (\<lambda>x. \<not> starts_worker x) (se_afterService env)"
        "concat (map loss_events (se_afterService env)) = []"
        using no_losses by (auto simp: list_all_iff)
      with after_service_waits [of ?c env] assms(2) have "waiting_view (after_service env ?c) = waiting_view c"
        by (simp add: waiting_view_def)
      with EvFollowup followup_view [OF active, of env bonds] assms(2) show ?thesis
        by (auto dest!: waiting_of_view simp: waiting_view_def)
    next
      case (EvDispatch a)
      then have w: "bc_worker (client_step c e) = WorkerCreated" using assms(2) by simp
      then have "bc_active (client_step c e)" by (rule worker_active [OF client_step_inv [OF assms(1)]])
      with w EvDispatch dispatch_retires [of a c] show ?thesis by (auto simp: command_part_def waiting_view_def)
    next
      case (EvDeferred a)
      with assms deferred_part [of a c] show ?thesis by (simp add: command_part_def waiting_view_def)
    next
      case (EvCancel a owner)
      with assms cancel_part [of a owner c] show ?thesis
        by (simp add: cancelCommand_def command_part_def waiting_view_def)
    next
      case (EvQuiesce a h)
      with assms begin_quiesce_part [of a h c] show ?thesis by (simp add: command_part_def waiting_view_def)
    qed (use assms in \<open>simp_all add: waiting_view_def async_input async_waits onV1RequestNotProcessed_def
        onV1DisplayFlowControl_def onV1Busy_def onV1FirmwareVersionReceived_def Let_def\<close>)
  qed
qed

text \<open>What the admission of an automatic mute remembers.\<close>

lemma start_worker_result:
  "start_worker e chr d response phone guarded revision g c = (SendInFlight, c') \<Longrightarrow>
   bc_worker c' = WorkerCreated \<and> cx_requiresContinuousAlertInput (bc_context c') = guarded \<and>
   cx_alertInputRevision (bc_context c') = revision \<and> bc_alertInput c' = bc_alertInput c"
  by (auto simp: start_worker_def Let_def split: if_splits)

lemma write_now_result [simp]: "write_now e chr d guarded revision g c \<noteq> (SendInFlight, c')"
  by (simp add: write_now_def Let_def)

lemma admitted_mute:
  assumes "admit e chr d response phone c = (SendInFlight, c')" "box_mute (bc_commandOwner c) d"
  shows "bc_worker c' = WorkerCreated \<and> cx_requiresContinuousAlertInput (bc_context c') \<and>
    cx_alertInputRevision (bc_context c') = ai_revision (bc_alertInput c')"
proof -
  let ?g = "bc_commandOwner c = OwnInTheBox \<and> 3 < length d \<and> d ! 3 = PACKET_ID_MUTE_ON"
  have g: "?g = True" using assms(2) by (simp add: box_mute_def)
  from assms(1) have "start_worker e chr d response phone True (ai_revision (bc_alertInput c)) (lk_generation c) c =
      (SendInFlight, c') \<or>
    start_worker e chr d response phone True (ai_revision (bc_alertInput c)) (lk_generation c)
      (c\<lparr>bc_lastSentMs := sa_now (se_answers e)\<rparr>) = (SendInFlight, c')"
    unfolding admit_def hasContinuousV1AlertInput_def Let_def g split_beta fst_conv snd_conv
    by (simp split: if_split_asm)
  then show ?thesis by (auto dest!: start_worker_result)
qed

lemma sent_mute:
  assumes "client_inv c" "\<not> bc_active c" "box_mute OwnInTheBox d"
    and "send_as e OwnInTheBox long (Some d) response phone c = (SendInFlight, c')"
  shows "client_inv c'" "bc_worker c' = WorkerCreated" "cx_requiresContinuousAlertInput (bc_context c')"
    "cx_alertInputRevision (bc_context c') = ai_revision (bc_alertInput c')"
proof -
  let ?c = "async_run (serviceCommandWrite (se_answers e) (c\<lparr>bc_commandOwner := OwnInTheBox\<rparr>)) (se_afterService e)"
  have "bc_commandOwner (serviceCommandWrite (se_answers e) (c\<lparr>bc_commandOwner := OwnInTheBox\<rparr>)) = OwnInTheBox"
    using assms(2) by (simp add: serviceCommandWrite_def)
  then have o: "bc_commandOwner ?c = OwnInTheBox" by simp
  obtain chan x where x: "sendCharacteristicCommand e chan (Some d) response phone
      (c\<lparr>bc_commandOwner := OwnInTheBox\<rparr>) = (SendInFlight, x)" "c' = x\<lparr>bc_commandOwner := bc_commandOwner c\<rparr>"
    using assms(4) unfolding send_as_def command_scope_def by (auto split: prod.splits)
  have "\<not> bc_active ?c" using assms(2) by simp
  with x(1) obtain chr where "admit e chr d response phone ?c = (SendInFlight, x)"
    by (auto simp: sendCharacteristicCommand_def Let_def split: if_splits option.splits)
  from admitted_mute [OF this] o assms(3) x(2)
  show "bc_worker c' = WorkerCreated" "cx_requiresContinuousAlertInput (bc_context c')"
    "cx_alertInputRevision (bc_context c') = ai_revision (bc_alertInput c')" by simp_all
  show "client_inv c'" using send_as_inv [OF assms(1), of e OwnInTheBox long "Some d" response phone] assms(4) by simp
qed

lemma waiting_run:
  assumes "client_inv c" "bc_worker c = WorkerCreated" "list_all waits es"
  shows "bc_worker (foldl client_step c es) = WorkerCreated \<and> bc_context (foldl client_step c es) = bc_context c \<and>
    bc_alertInput (foldl client_step c es) = foldl ai_step (bc_alertInput c) (concat (map alert_events es))"
  using assms
proof (induction es arbitrary: c)
  case (Cons e es)
  from client_step_waits [OF Cons.prems(1,2), of e] Cons.prems(3)
  have s: "bc_worker (client_step c e) = WorkerCreated" "bc_context (client_step c e) = bc_context c"
    and i: "bc_alertInput (client_step c e) = foldl ai_step (bc_alertInput c) (alert_events e)"
    by (simp_all add: waiting_view_def)
  from Cons.IH [OF client_step_inv [OF Cons.prems(1)] s(1)] Cons.prems(3) s(2) i show ?case by simp
qed simp


definition box_history :: "client_event list" where
  "box_history = connecting_history @ subscribing_history @ [EvAlertReset 1]"

definition box_client :: v1_client where
  "box_client = snd (send_as (quiet_send 2000) OwnInTheBox False (Some mute_frame) True 0
     (foldl client_step new_client box_history))"


end
