(* ===== verification/V1_Command_Promises.thy ===== *)
theory V1_Command_Promises
  imports V1_Command_Packets V1_Parser_Promises
begin

text \<open>
  The commands against the rest of the program: every settings operation is its entry of the
  command table, the frames are the ones the channel books and the parser ignores when the bus
  echoes them, and a sweep that is written reads back as itself.
\<close>

section \<open>The command table\<close>

text \<open>
  Claim C38. Every settings operation refines the command table: it refuses exactly what the table does
  not allow (a phone that owns the settings, a firmware without the feature, a volume outside
  0 to 9 or with contradictory options, a sweep index above 63 or an empty range, missing user
  bytes), and otherwise hands the channel the canonical frame of at most thirteen bytes that
  carries the command. The user bytes are written as they are, or with every byte the firmware
  does not support set to 0xFF.
\<close>

theorem settings_commands_refine:
  fixes b0 b1 b2 b3 b4 b5 :: u8
  shows "setDisplayOnResult e on keep c = command_result e (CmdDisplay on keep) c \<and>
   setMuteResult e muted c = command_result e (CmdMute muted) c \<and>
   setModeResult e mode c = command_result e (CmdMode mode) c \<and>
   setVolumeResult e m q x c = command_result e (CmdVolume m q x) c \<and>
   writeSweepDefinition e i l u commit c = command_result e (CmdSweep i l u commit) c \<and>
   factoryResetDetector e c = command_result e CmdFactoryReset c \<and>
   (let b = [b0, b1, b2, b3, b4, b5] in
      writeUserBytesExactResult e (Some b) c = command_result e (CmdUserBytes b) c \<and>
      writeUserBytes e (Some b) c = sent_only (command_result e (CmdUserBytes
        (map (\<lambda>n. if n < supportedUserByteCount (bc_firmwareVersion c) then b ! n else 0xFF) [0..<6])) c)) \<and>
   writeUserBytesExactResult e None c = (SendFailed, c) \<and>
   writeUserBytes e None c = (False, c) \<and>
   canonical_command (command_frame k) \<and> length (command_frame k) \<le> 13 \<and>
   command_frame k ! 3 = command_id k \<and> take (length (command_payload k)) (drop 5 (command_frame k)) = command_payload k"
proof -
  have "canonical_command (command_frame k)"
    unfolding command_frame_def by (rule frame_canonical) (rule length_byte [OF length_payload])
  moreover have "length (command_frame k) \<le> 13" using length_payload [of k] by (simp add: command_frame_def)
  moreover have "command_frame k ! 3 = command_id k" by (simp add: command_frame_def frame_nth)
  moreover have "take (length (command_payload k)) (drop 5 (command_frame k)) = command_payload k"
    by (simp add: command_frame_def request_frame_def Let_def)
  moreover have "length [b0, b1, b2, b3, b4, b5] = 6" by simp
  note user_bytes_refine [OF this, of e c]
  moreover have "writeUserBytesExactResult e None c = (SendFailed, c)" "writeUserBytes e None c = (False, c)"
    by (simp_all add: writeUserBytesExactResult_def writeUserBytes_def)
  ultimately show ?thesis by (simp only: settings_refine volume_refines sweep_refines simp_thms Let_def)
qed

section \<open>The echo of a command\<close>

definition request_ids :: "u8 list" where
  "request_ids = [0x01, 0x11, 0x16, 0x19, 0x22, 0x37, 0x3C, 0x41]"

fun echoed :: "v1_command \<Rightarrow> bool" where
  "echoed (CmdRequest i) \<longleftrightarrow> i \<in> set request_ids"
| "echoed _ \<longleftrightarrow> True"

lemma echoed_ids:
  assumes "echoed k"
  shows "command_id k \<in> {0x01, 0x11, 0x13, 0x14, 0x15, 0x16, 0x19, 0x22, 0x32, 0x33, 0x34, 0x35, 0x36,
    0x37, 0x39, 0x3C, 0x41}"
  using assms by (cases k) (auto simp: request_ids_def)

text \<open>
  Claim C39. Whatever the firmware sends is inert when it comes back: the echo of any of its commands on
  the bus leaves the whole state of the parser as it was, at any time and in any state.
\<close>

theorem own_commands_are_inert:
  assumes "echoed k"
  shows "snd (parse (Some (command_frame k)) t g s p) = p"
proof -
  have i: "command_frame k ! 3 = command_id k" by (simp add: command_frame_def frame_nth)
  have "snd (dispatch (\<lambda>_. t) (command_frame k) (Some t) g s p) = p"
    using echoed_ids [OF assms] unfolding dispatch_def Let_def i
    by (elim insertE emptyE; simp add: packet_ids echo_packet_ids_def)
  then show ?thesis by (simp add: parse_def parseInternal_def)
qed

lemma own_commands_are_inert_witness:
  "snd (parse (Some (command_frame (CmdVolume 5 2 0))) 77 3 True new_parser) = new_parser"
  by (rule own_commands_are_inert) simp

section \<open>Sweeps\<close>

lemma be16_bytes: "be16 (high_byte w) (low_byte w) = w"
  unfolding be16_def high_byte_def low_byte_def
  by (rule bit_word_eqI) (auto simp: bit_simps)

lemma sweep_index:
  assumes "i < 64"
  shows "(0x80 OR i) AND 0x3F = (i :: u8)" "(0x80 OR i) AND 0x40 = (0 :: u8)"
proof -
  have "i AND 0x3F = i"
    using assms take_bit_eq_mask [of 6 i] take_bit_word_eq_self [of 6 i]
    by (simp add: word_less_nat_alt mask_eq_exp_minus_1 take_bit_eq_mod word_arith_nat_mod)
  then show "(0x80 OR i) AND 0x3F = i" by (simp add: bit.conj_disj_distrib2)
  have "\<not> bit i 6"
  proof
    assume "bit i 6"
    then have "bit (unat i) 6" by (simp add: bit_unsigned_iff)
    then have "odd (unat i div 2 ^ 6)" using bit_iff_odd [of "unat i" 6] by blast
    moreover have "unat i div 2 ^ 6 = 0" using assms by (simp add: word_less_nat_alt)
    ultimately show False by simp
  qed
  then show "(0x80 OR i) AND 0x40 = 0" by (simp add: u8_bits bit_simps)
qed


text \<open>
  A sweep that is written reads back as itself: when the detector reports the very definition
  the firmware writes (any admissible index and range, without the commit mark), to a parser
  that is not poisoned, knows no smaller index bound and holds no contradicting definition, the
  report is accepted and the definition stored under that index has the written edges.
\<close>

theorem sweep_write_roundtrip:
  fixes w s :: bool and t g :: u32
  assumes "command_allowed version phone (CmdSweep i l u False)"
    and "\<not> sd_poisoned (p_sweepDefinitionsObs p)" "length (sd_definitions (p_sweepDefinitionsObs p)) = 64"
    and "\<not> sm_available (p_sweepMaxObs p) \<or> i \<le> sm_maxIndex (p_sweepMaxObs p)"
    and "\<not> bit (sd_presentMask (p_sweepDefinitionsObs p)) (unat i)"
  defines "r \<equiv> parse (Some (v1_frame 0xD6 w PACKET_ID_RESP_SWEEP_DEFINITION
      (command_payload (CmdSweep i l u False)))) t g s p"
  shows "fst r \<and> bit (sd_presentMask (p_sweepDefinitionsObs (snd r))) (unat i) \<and>
    sd_definitions (p_sweepDefinitionsObs (snd r)) ! unat i = \<lparr>def_index = i, def_lowerMHz = l, def_upperMHz = u\<rparr>"
proof -
  let ?d = "sweep_payload i l u False"
  let ?f = "v1_frame 0xD6 w PACKET_ID_RESP_SWEEP_DEFINITION ?d"
  from assms(1) have i: "i < 64" "0 < l" "l < u" by simp_all
  have len: "length ?d = 5" by (simp add: sweep_payload_def)
  have ev: "hasCanonicalResponseEvidenceForDestination (Some ?f) 5 0xD6"
    using frame_evidence [of ?d w ESP_PACKET_START "0xD6"] by (simp add: len)
  have pl: "drop 5 ?f ! k = ?d ! k" if "k < 5" for k using that by (intro frame_payload) (simp add: len)
  have b: "drop 5 ?f ! 0 = 0x80 OR i" "drop 5 ?f ! 1 = high_byte u" "drop 5 ?f ! 2 = low_byte u"
    "drop 5 ?f ! 3 = high_byte l" "drop 5 ?f ! 4 = low_byte l"
    using pl [of 0] pl [of 1] pl [of 2] pl [of 3] pl [of 4] by (simp_all add: sweep_payload_def del: nth_drop)
  have range: "\<not> bad_range l u" using i(2,3) by (auto simp: bad_range_def)
  have bound: "\<not> (sm_available (p_sweepMaxObs p) \<and> sm_maxIndex (p_sweepMaxObs p) < i)" using assms(4) by auto
  have u: "unat i < 64" using i(1) by (simp add: word_less_nat_alt)
  have "r = handle_sweep_definition ?f g p"
    unfolding r_def command_payload.simps
    by (subst parse_frame)
      (simp_all add: len dispatch_def Let_def response_frame_nth packet_ids echo_packet_ids_def)
  then show ?thesis
    unfolding handle_sweep_definition_def Let_def b be16_bytes sweep_index [OF i(1)]
    using assms(2,3,5) ev range bound u
    by (simp add: stamp_def bit_simps)
qed

lemma sweep_write_roundtrip_witness:
  "sd_definitions (p_sweepDefinitionsObs (snd (parse (Some (v1_frame 0xD6 True PACKET_ID_RESP_SWEEP_DEFINITION
     (command_payload (CmdSweep 2 33400 36000 False)))) 10 4 False new_parser))) ! 2 =
   \<lparr>def_index = 2, def_lowerMHz = 33400, def_upperMHz = 36000\<rparr>"
proof -
  have "command_allowed 41037 False (CmdSweep 2 33400 36000 False)" by code_simp
  moreover have "\<not> sd_poisoned (p_sweepDefinitionsObs new_parser)"
    "length (sd_definitions (p_sweepDefinitionsObs new_parser)) = 64"
    "\<not> sm_available (p_sweepMaxObs new_parser) \<or> 2 \<le> sm_maxIndex (p_sweepMaxObs new_parser)"
    "\<not> bit (sd_presentMask (p_sweepDefinitionsObs new_parser)) (unat (2 :: u8))" by code_simp+
  ultimately show ?thesis
    using sweep_write_roundtrip [of 41037 False 2 33400 36000 new_parser True 10 4 False] by simp
qed

end
