(* ===== verification/V1_Quiet_State.thy ===== *)
theory V1_Quiet_State
  imports V1_Command_Packets V1_Volume_Fade V1_In_The_Box V1_Speed_Policy
begin

text \<open>
  The state of the quiet coordinator (\<open>src/modules/quiet/quiet_coordinator_module.h\<close>), the one
  owner of every mute and volume command: what each owner asked for, what the detector shows,
  and the obligations that a temporary change leaves behind. The members of the class are one
  record, extended by the objects the coordinator works on: the Bluetooth client and the
  volume-fade module. The parser is only read and is an argument.
\<close>

section \<open>Owners and intents\<close>

datatype quiet_owner =
  QoNone | QoSpeedVolume | QoVolumeFade | QoTapGesture | QoWifiCommand | QoAutoPush | QoInTheBox

fun commandOwnerFor :: "quiet_owner \<Rightarrow> command_owner" where
  "commandOwnerFor QoSpeedVolume = OwnSpeedVolume"
| "commandOwnerFor QoVolumeFade = OwnVolumeFade"
| "commandOwnerFor QoTapGesture = OwnTapGesture"
| "commandOwnerFor QoWifiCommand = OwnWifiCommand"
| "commandOwnerFor QoAutoPush = OwnAutoPush"
| "commandOwnerFor QoInTheBox = OwnInTheBox"
| "commandOwnerFor QoNone = OwnLegacy"

fun quietOwnerName :: "quiet_owner \<Rightarrow> string" where
  "quietOwnerName QoNone = ''none''"
| "quietOwnerName QoSpeedVolume = ''speed_volume''"
| "quietOwnerName QoVolumeFade = ''volume_fade''"
| "quietOwnerName QoTapGesture = ''tap_gesture''"
| "quietOwnerName QoWifiCommand = ''wifi_command''"
| "quietOwnerName QoAutoPush = ''auto_push''"
| "quietOwnerName QoInTheBox = ''in_the_box''"

record quiet_desired =
  qd_muteOwner :: quiet_owner
  qd_mutePending :: bool
  qd_mute :: bool
  qd_volumeOwner :: quiet_owner
  qd_volumePending :: bool
  qd_volume :: u8
  qd_muteVolume :: u8

definition no_desire :: quiet_desired where
  "no_desire = \<lparr>qd_muteOwner = QoNone, qd_mutePending = False, qd_mute = False, qd_volumeOwner = QoNone,
     qd_volumePending = False, qd_volume = 0xFF, qd_muteVolume = 0\<rparr>"

record quiet_committed =
  qm_connected :: bool
  qm_hasDisplayState :: bool
  qm_muted :: bool
  qm_mainVolume :: u8
  qm_muteVolume :: u8

definition nothing_committed :: quiet_committed where
  "nothing_committed = \<lparr>qm_connected = False, qm_hasDisplayState = False, qm_muted = False,
     qm_mainVolume = 0, qm_muteVolume = 0\<rparr>"

record quiet_presentation =
  qs_activeMuteOwner :: quiet_owner
  qs_activeVolumeOwner :: quiet_owner
  qs_speedVolZeroActive :: bool
  qs_voiceSuppressed :: bool
  qs_voiceAllowVolZeroBypass :: bool
  qs_effectiveMuted :: bool

definition nothing_presented :: quiet_presentation where
  "nothing_presented = \<lparr>qs_activeMuteOwner = QoNone, qs_activeVolumeOwner = QoNone,
     qs_speedVolZeroActive = False, qs_voiceSuppressed = False, qs_voiceAllowVolZeroBypass = False,
     qs_effectiveMuted = False\<rparr>"

section \<open>The members\<close>

text \<open>
  Whether the two pointers are set, and the address of the detector whose obligations are held,
  empty when it is unknown.
\<close>

record quiet_base =
  qc_hasBle :: bool
  qc_hasParser :: bool
  qc_desired :: quiet_desired
  qc_committed :: quiet_committed
  qc_presentation :: quiet_presentation
  qc_detector :: string

text \<open>The low-speed override and the restoration it owes.\<close>

record quiet_speed = quiet_base +
  qc_speedActive :: bool
  qc_savedOriginal :: u8
  qc_savedMuteVol :: u8
  qc_baselineUpdated :: bool
  qc_restoreVol :: u8
  qc_restoreMuteVol :: u8
  qc_restoreLastRetryMs :: u32
  qc_restoreSent :: bool
  qc_restoreSentSession :: u32
  qc_restoreSentIngress :: u32
  qc_restoreObsSession :: u32
  qc_restoreObsIngress :: u32
  qc_restoreWriteRevision :: u32
  qc_reducedVolume :: u8
  qc_reducedMuteVolume :: u8
  qc_previousVolume :: u8
  qc_previousMuteVolume :: u8
  qc_hintInvalidated :: bool
  qc_speedLastRetryMs :: u32

text \<open>The delivery of the volume fade.\<close>

record quiet_delivery = quiet_speed +
  qc_fadePending :: bool
  qc_fadeVolume :: u8
  qc_fadeMuteVolume :: u8
  qc_fadeFrequency :: u16
  qc_fadeLaser :: bool
  qc_fadeLastAttemptMs :: u32
  qc_fadeSession :: u32
  qc_fadeWriteRevision :: u32
  qc_fadeWriteIngress :: u32
  qc_fadeAuthorityRevision :: u32
  qc_fadeAuthoritySession :: u32
  qc_fadeBaselineVolume :: u8
  qc_fadeBaselineMuteVolume :: u8
  qc_fadeAlertLifetime :: u32
  qc_fadeAlertSession :: u32
  qc_fadeLifetimeKnown :: bool
  qc_autoPushActive :: bool

text \<open>The automatic mute.\<close>

record quiet = quiet_delivery +
  qc_boxSettings :: itb_settings
  qc_box :: in_the_box
  qc_boxSession :: u32
  qc_boxLifetime :: u32
  qc_boxLifetimeKnown :: bool
  qc_boxOwnsMute :: bool
  qc_boxManualOverride :: bool
  qc_boxInsidePending :: bool
  qc_boxCommandPending :: bool
  qc_boxCommandMute :: bool
  qc_boxCommandSent :: bool
  qc_boxMuteInFlight :: bool
  qc_boxRecoveryPending :: bool
  qc_boxMuteConfirmed :: bool
  qc_boxCommandRevision :: u32
  qc_boxCommandIngress :: u32
  qc_boxLastAttemptMs :: u32
  qc_boxAttempted :: bool
  qc_boxSuppressVoice :: bool
  qc_boxSuspended :: bool

text \<open>The coordinator with the client it commands and the fade module, a pointer that may be null.\<close>

record quiet_world = quiet +
  qw_client :: v1_client
  qw_fade :: "volume_fade option"

definition IN_THE_BOX_RETRY_MS :: u32 where "IN_THE_BOX_RETRY_MS = 100"
definition FADE_RETRY_INTERVAL_MS :: u32 where "FADE_RETRY_INTERVAL_MS = 25"
definition SPEED_VOL_RETRY_INTERVAL_MS :: u32 where "SPEED_VOL_RETRY_INTERVAL_MS = 75"

text \<open>The object as constructed.\<close>

definition new_quiet :: "v1_client \<Rightarrow> volume_fade option \<Rightarrow> quiet_world" where
  "new_quiet c v =
     \<lparr>qc_hasBle = False, qc_hasParser = False, qc_desired = no_desire, qc_committed = nothing_committed,
      qc_presentation = nothing_presented, qc_detector = [],
      qc_speedActive = False, qc_savedOriginal = 0xFF, qc_savedMuteVol = 0, qc_baselineUpdated = False,
      qc_restoreVol = 0xFF, qc_restoreMuteVol = 0, qc_restoreLastRetryMs = 0, qc_restoreSent = False,
      qc_restoreSentSession = 0, qc_restoreSentIngress = 0, qc_restoreObsSession = 0, qc_restoreObsIngress = 0,
      qc_restoreWriteRevision = 0, qc_reducedVolume = 0, qc_reducedMuteVolume = 0, qc_previousVolume = 0xFF,
      qc_previousMuteVolume = 0, qc_hintInvalidated = False, qc_speedLastRetryMs = 0,
      qc_fadePending = False, qc_fadeVolume = 0, qc_fadeMuteVolume = 0, qc_fadeFrequency = 0,
      qc_fadeLaser = False, qc_fadeLastAttemptMs = 0, qc_fadeSession = 0, qc_fadeWriteRevision = 0,
      qc_fadeWriteIngress = 0, qc_fadeAuthorityRevision = 0, qc_fadeAuthoritySession = 0,
      qc_fadeBaselineVolume = 0, qc_fadeBaselineMuteVolume = 0, qc_fadeAlertLifetime = 0,
      qc_fadeAlertSession = 0, qc_fadeLifetimeKnown = False, qc_autoPushActive = False,
      qc_boxSettings = default_itb_settings, qc_box = itb_reset, qc_boxSession = 0, qc_boxLifetime = 0,
      qc_boxLifetimeKnown = False, qc_boxOwnsMute = False, qc_boxManualOverride = False,
      qc_boxInsidePending = False, qc_boxCommandPending = False, qc_boxCommandMute = False,
      qc_boxCommandSent = False, qc_boxMuteInFlight = False, qc_boxRecoveryPending = False,
      qc_boxMuteConfirmed = False, qc_boxCommandRevision = 0, qc_boxCommandIngress = 0,
      qc_boxLastAttemptMs = 0, qc_boxAttempted = False, qc_boxSuppressVoice = False, qc_boxSuspended = False,
      qw_client = c, qw_fade = v\<rparr>"

section \<open>The client's answers\<close>

abbreviation sessionGeneration :: "quiet_world \<Rightarrow> u32" where
  "sessionGeneration w \<equiv> lk_generation (qw_client w)"

abbreviation volumeWriteRevision :: "quiet_world \<Rightarrow> u32" where
  "volumeWriteRevision w \<equiv> vr_revision (bc_receipt (qw_client w))"

abbreviation in_flight :: "quiet_world \<Rightarrow> command_owner \<Rightarrow> bool" where
  "in_flight w owner \<equiv> commandInFlight (qw_client w) owner"

text \<open>The pattern \<open>if (commandInFlight(o)) cancelCommand(o)\<close>.\<close>

definition abandon :: "stack_answers \<Rightarrow> command_owner \<Rightarrow> quiet_world \<Rightarrow> quiet_world" where
  "abandon a owner w =
     (if in_flight w owner then w\<lparr>qw_client := cancelCommand a owner (qw_client w)\<rparr> else w)"

definition desire :: "(quiet_desired \<Rightarrow> quiet_desired) \<Rightarrow> quiet_world \<Rightarrow> quiet_world" where
  "desire f w = w\<lparr>qc_desired := f (qc_desired w)\<rparr>"

definition present :: "(quiet_presentation \<Rightarrow> quiet_presentation) \<Rightarrow> quiet_world \<Rightarrow> quiet_world" where
  "present f w = w\<lparr>qc_presentation := f (qc_presentation w)\<rparr>"

definition with_fade :: "(volume_fade \<Rightarrow> volume_fade) \<Rightarrow> quiet_world \<Rightarrow> quiet_world" where
  "with_fade f w = w\<lparr>qw_fade := map_option f (qw_fade w)\<rparr>"

end
