(* ===== verification/V1_Quiet_Mute.thy ===== *)
theory V1_Quiet_Mute
  imports V1_Quiet_State
begin

text \<open>
  The quiet coordinator's mute side (\<open>src/modules/quiet/quiet_coordinator_module.cpp\<close>): the
  committed state, the mute commands of every owner, and the automatic in-the-box mute with the
  obligation that an interrupted mute leaves.
\<close>

section \<open>Resets\<close>

definition consumeFadeAlertEnd :: "parser \<Rightarrow> quiet_world \<Rightarrow> bool \<times> quiet_world" where
  "consumeFadeAlertEnd p w =
     (let lifetime = p_alertLifetime p;
          session = (if qc_hasBle w then sessionGeneration w else 0);
          transitions = lifetime - qc_fadeAlertLifetime w;
          ended = (qc_fadeLifetimeKnown w \<and> session = qc_fadeAlertSession w \<and>
                   (transitions > 1 \<or> transitions = 1 \<and> \<not> hasAlerts p))
      in (ended, w\<lparr>qc_fadeAlertLifetime := lifetime, qc_fadeAlertSession := session,
                   qc_fadeLifetimeKnown := True\<rparr>))"

definition refreshPendingState :: "parser \<Rightarrow> quiet_world \<Rightarrow> quiet_world" where
  "refreshPendingState p w =
     (let d = qc_desired w;
          d = (if qd_mutePending d \<and> qc_hasParser w \<and> ds_softMuted (p_displayState p) = qd_mute d
               then d\<lparr>qd_mutePending := False\<rparr> else d);
          m = qc_committed w;
          d = (if qd_volumePending d \<and> qm_hasDisplayState m \<and> qm_mainVolume m = qd_volume d \<and>
                  qm_muteVolume m = qd_muteVolume d
               then d\<lparr>qd_volumePending := False\<rparr> else d)
      in w\<lparr>qc_desired := d\<rparr>)"

definition committed_now :: "parser \<Rightarrow> quiet_world \<Rightarrow> quiet_committed" where
  "committed_now p w =
     (let connected = (qc_hasBle w \<and> isConnected (qw_client w)); s = p_displayState p
      in if qc_hasParser w
         then \<lparr>qm_connected = connected, qm_hasDisplayState = True, qm_muted = ds_muted s,
               qm_mainVolume = ds_mainVolume s, qm_muteVolume = ds_muteVolume s\<rparr>
         else nothing_committed\<lparr>qm_connected := connected\<rparr>)"

definition syncCommittedState :: "parser \<Rightarrow> quiet_world \<Rightarrow> quiet_world" where
  "syncCommittedState p w =
     refreshPendingState p
       (present (qs_effectiveMuted_update (\<lambda>_. qc_hasParser w \<and> ds_muted (p_displayState p)))
          (w\<lparr>qc_committed := committed_now p w\<rparr>))"

definition getCommittedState :: "parser \<Rightarrow> quiet_world \<Rightarrow> quiet_committed \<times> quiet_world" where
  "getCommittedState p w = (let w = syncCommittedState p w in (qc_committed w, w))"

definition quiet_resetVolumeState :: "stack_answers \<Rightarrow> quiet_world \<Rightarrow> quiet_world" where
  "quiet_resetVolumeState a w =
     (let w = (if qc_hasBle w then abandon a OwnVolumeFade (abandon a OwnSpeedVolume w) else w);
          w = desire (\<lambda>d. d\<lparr>qd_volumeOwner := QoNone, qd_volumePending := False, qd_volume := 0xFF,
                            qd_muteVolume := 0\<rparr>) w;
          w = present (\<lambda>s. s\<lparr>qs_activeVolumeOwner := QoNone, qs_speedVolZeroActive := False\<rparr>) w;
          w = w\<lparr>qc_speedActive := False, qc_savedOriginal := 0xFF, qc_savedMuteVol := 0,
                qc_baselineUpdated := False, qc_restoreVol := 0xFF, qc_restoreMuteVol := 0,
                qc_restoreLastRetryMs := 0, qc_restoreSent := False, qc_hintInvalidated := False,
                qc_speedLastRetryMs := 0\<rparr>
      in w\<lparr>qc_fadePending := False, qc_fadeVolume := 0, qc_fadeMuteVolume := 0, qc_fadeFrequency := 0,
           qc_fadeLaser := False, qc_fadeLastAttemptMs := 0, qc_fadeSession := 0, qc_fadeWriteRevision := 0,
           qc_fadeWriteIngress := 0, qc_fadeAuthorityRevision := 0, qc_fadeAuthoritySession := 0,
           qc_fadeLifetimeKnown := False, qc_autoPushActive := False\<rparr>)"

definition cancelInTheBoxCommand :: "stack_answers \<Rightarrow> quiet_world \<Rightarrow> quiet_world" where
  "cancelInTheBoxCommand a w =
     (let w = (if qc_boxMuteInFlight w \<and> qc_detector w \<noteq> [] then w\<lparr>qc_boxRecoveryPending := True\<rparr> else w);
          w = w\<lparr>qc_boxMuteInFlight := False\<rparr>
      in if qc_hasBle w then abandon a OwnInTheBox w else w)"

text \<open>The presentation drops the automatic mute as its active owner.\<close>

definition drop_box_owner :: "quiet_world \<Rightarrow> quiet_world" where
  "drop_box_owner w =
     (if qs_activeMuteOwner (qc_presentation w) = QoInTheBox
      then present (qs_activeMuteOwner_update (\<lambda>_. QoNone)) w else w)"

definition resetInTheBoxSession :: "stack_answers \<Rightarrow> quiet_world \<Rightarrow> quiet_world" where
  "resetInTheBoxSession a w =
     drop_box_owner ((cancelInTheBoxCommand a w)\<lparr>qc_boxSettings := default_itb_settings, qc_box := itb_reset,
       qc_boxSession := 0, qc_boxLifetimeKnown := False, qc_boxOwnsMute := False,
       qc_boxManualOverride := False, qc_boxInsidePending := False, qc_boxCommandPending := False,
       qc_boxCommandSent := False, qc_boxMuteConfirmed := False, qc_boxAttempted := False,
       qc_boxSuppressVoice := False\<rparr>)"

definition quiet_reset :: "stack_answers \<Rightarrow> parser \<Rightarrow> quiet_world \<Rightarrow> quiet_world" where
  "quiet_reset a p w =
     (let w = w\<lparr>qc_boxMuteInFlight := False, qc_boxRecoveryPending := False, qc_desired := no_desire,
                qc_committed := nothing_committed, qc_presentation := nothing_presented\<rparr>
      in syncCommittedState p (resetInTheBoxSession a (quiet_resetVolumeState a w)))"

definition quiet_begin :: "stack_answers \<Rightarrow> bool \<Rightarrow> bool \<Rightarrow> parser \<Rightarrow> quiet_world \<Rightarrow> quiet_world" where
  "quiet_begin a hasBle hasParser p w =
     quiet_reset a p (w\<lparr>qc_hasBle := hasBle, qc_hasParser := hasParser, qc_detector := []\<rparr>)"

section \<open>Mute commands\<close>

text \<open>A command of the client under an owner; only the client changes.\<close>

definition commanded ::
    "quiet_owner \<Rightarrow> (v1_client \<Rightarrow> send_result \<times> v1_client) \<Rightarrow> quiet_world \<Rightarrow> send_result \<times> quiet_world" where
  "commanded owner command w =
     (let (result, c) = command_scope (commandOwnerFor owner) command (qw_client w)
      in (result, w\<lparr>qw_client := c\<rparr>))"

definition sendMuteResult ::
    "send_environment \<Rightarrow> parser \<Rightarrow> quiet_owner \<Rightarrow> bool \<Rightarrow> quiet_world \<Rightarrow> send_result \<times> quiet_world" where
  "sendMuteResult e p owner muted w =
     (let w = desire (\<lambda>d. d\<lparr>qd_muteOwner := owner, qd_mute := muted, qd_mutePending :=
                if qc_hasParser w then ds_softMuted (p_displayState p) \<noteq> muted else True\<rparr>)
                (syncCommittedState p w)
      in if \<not> qc_hasBle w then (SendFailed, w)
         else
           let (result, w) = commanded owner (setMuteResult e muted) w;
               w = (if owner \<noteq> QoInTheBox \<and> (result = SendSent \<or> muted \<and> result = SendInFlight)
                    then w\<lparr>qc_boxMuteInFlight := False, qc_boxRecoveryPending := False\<rparr> else w)
           in (result,
               if result \<noteq> SendSent then w
               else
                 let w = present (qs_activeMuteOwner_update (\<lambda>_. if muted then owner else QoNone)) w
                 in if owner \<noteq> QoInTheBox
                    then w\<lparr>qc_boxOwnsMute := False, qc_boxMuteConfirmed := False, qc_boxManualOverride := True,
                           qc_boxInsidePending := False, qc_boxCommandPending := False,
                           qc_boxAttempted := False, qc_boxSuppressVoice := False\<rparr>
                    else w))"

definition sendMute ::
    "send_environment \<Rightarrow> parser \<Rightarrow> quiet_owner \<Rightarrow> bool \<Rightarrow> quiet_world \<Rightarrow> bool \<times> quiet_world" where
  "sendMute e p owner muted w = (let (r, w) = sendMuteResult e p owner muted w in (r = SendSent, w))"

section \<open>The automatic mute\<close>

definition setInTheBoxSettings :: "stack_answers \<Rightarrow> itb_settings \<Rightarrow> u32 \<Rightarrow> quiet_world \<Rightarrow> quiet_world" where
  "setInTheBoxSettings a settings session w =
     (let w = cancelInTheBoxCommand a w;
          w = (if session \<noteq> qc_boxSession w then resetInTheBoxSession a w else w)
      in w\<lparr>qc_boxSettings := (if isValidV1InTheBoxSettings settings then settings else default_itb_settings),
           qc_boxSession := session, qc_boxLifetimeKnown := False, qc_box := itb_reset,
           qc_boxManualOverride := False, qc_boxInsidePending := False, qc_boxCommandPending := False,
           qc_boxAttempted := False\<rparr>)"

definition setInTheBoxSuspended :: "bool \<Rightarrow> quiet_world \<Rightarrow> quiet_world" where
  "setInTheBoxSuspended suspended w = w\<lparr>qc_boxSuspended := suspended\<rparr>"

text \<open>The connected phone owns the detector.\<close>

definition box_yields_to_phone :: "stack_answers \<Rightarrow> quiet_world \<Rightarrow> quiet_world" where
  "box_yields_to_phone a w =
     drop_box_owner ((cancelInTheBoxCommand a w)\<lparr>qc_boxRecoveryPending := False, qc_boxOwnsMute := False,
       qc_boxInsidePending := False, qc_boxCommandPending := False, qc_boxManualOverride := True,
       qc_boxAttempted := False\<rparr>)"

text \<open>A new alert lifetime; \<open>False\<close> when the cancelled command closed the session.\<close>

definition box_lifetime_changed :: "parser \<Rightarrow> quiet_world \<Rightarrow> bool" where
  "box_lifetime_changed p w \<longleftrightarrow> qc_boxLifetimeKnown w \<and> p_alertLifetime p \<noteq> qc_boxLifetime w"

definition box_new_lifetime :: "stack_answers \<Rightarrow> parser \<Rightarrow> quiet_world \<Rightarrow> bool \<times> quiet_world" where
  "box_new_lifetime a p w =
     (if box_lifetime_changed p w then
        let w = w\<lparr>qc_box := itb_reset, qc_boxManualOverride := False, qc_boxInsidePending := False\<rparr>
        in if in_flight w OwnInTheBox
           then let w = (cancelInTheBoxCommand a w)\<lparr>qc_boxCommandPending := False, qc_boxAttempted := False\<rparr>
                in (isConnected (qw_client w), w)
           else (True, w)
      else (True, w))"

definition box_confirm :: "parser \<Rightarrow> quiet_world \<Rightarrow> quiet_world" where
  "box_confirm p w =
     (let ob = p_displayOnObs p in
      if qc_boxCommandPending w \<and> qc_boxCommandSent w \<and> \<not> in_flight w OwnInTheBox \<and>
         obs_revision ob \<noteq> qc_boxCommandRevision w \<and>
         later_than (obs_ingressSequence ob) (qc_boxCommandIngress w) \<and>
         ds_softMuted (p_displayState p) = qc_boxCommandMute w
      then
        let w = w\<lparr>qc_boxCommandPending := False, qc_boxCommandSent := False,
                  qc_boxMuteConfirmed := qc_boxCommandMute w\<rparr>
        in if \<not> qc_boxCommandMute w
           then w\<lparr>qc_boxRecoveryPending := False, qc_boxOwnsMute := False, qc_boxInsidePending := False\<rparr>
           else w
      else w)"

text \<open>A later unmute on the detector's side wins.\<close>

definition box_detector_unmuted :: "bool \<Rightarrow> parser \<Rightarrow> quiet_world \<Rightarrow> quiet_world" where
  "box_detector_unmuted lifetimeChanged p w =
     (if qc_boxOwnsMute w \<and> qc_boxMuteConfirmed w \<and> \<not> ds_softMuted (p_displayState p) \<and>
         \<not> qc_boxCommandPending w \<and> \<not> lifetimeChanged
      then drop_box_owner (w\<lparr>qc_boxOwnsMute := False, qc_boxMuteConfirmed := False,
                             qc_boxManualOverride := True\<rparr>)
      else w)"

definition ALERT_TABLE_MAX_AGE_MS :: u32 where "ALERT_TABLE_MAX_AGE_MS = 1500"

definition box_input_fresh :: "u32 \<Rightarrow> parser \<Rightarrow> quiet_world \<Rightarrow> bool" where
  "box_input_fresh now p w \<longleftrightarrow> \<not> qc_boxSuspended w \<and>
     fst (hasContinuousV1AlertInput (bc_alertInput (qw_client w))) \<and>
     hasFreshAlertTable p now ALERT_TABLE_MAX_AGE_MS"

definition box_decide :: "u32 \<Rightarrow> parser \<Rightarrow> quiet_world \<Rightarrow> itb_decision \<times> quiet_world" where
  "box_decide now p w =
     (if box_input_fresh now p w then
        let (d, box) = itb_process (qc_boxSettings w) (Some (p_alerts p)) (p_alertCount p)
                         (hasDisplayLaserAlert p) (qc_box w);
            w = w\<lparr>qc_box := box\<rparr>;
            w = (if \<not> hasAlerts p then w\<lparr>qc_boxManualOverride := False\<rparr> else w)
        in (d, w\<lparr>qc_boxInsidePending := id_anyInsideUnmuteEligible d \<and>
                  (qc_boxInsidePending w \<or> id_newInsideUnmute d)\<rparr>)
      else (no_decision, w\<lparr>qc_boxInsidePending := False\<rparr>))"

text \<open>The command the policy wants now: an unmute it owes, or a mute.\<close>

definition box_target :: "parser \<Rightarrow> itb_decision \<Rightarrow> quiet_world \<Rightarrow> bool option" where
  "box_target p d w =
     (let owns = (qc_boxOwnsMute w \<or> in_flight w OwnInTheBox \<and> qc_boxCommandMute w)
      in if qc_boxRecoveryPending w then Some False
         else if owns \<and> \<not> id_allOutsideMuteEligible d then Some False
         else if qc_boxInsidePending w then Some False
         else if id_allOutsideMuteEligible d \<and> \<not> qc_boxManualOverride w \<and>
                 (owns \<or> \<not> ds_softMuted (p_displayState p))
         then Some True else None)"

definition box_attempt ::
    "send_environment \<Rightarrow> parser \<Rightarrow> u32 \<Rightarrow> bool \<Rightarrow> bool \<Rightarrow> quiet_world \<Rightarrow> quiet_world" where
  "box_attempt e p now inFlight target w =
     (if qc_boxAttempted w \<and> elapsed_ms now (qc_boxLastAttemptMs w) < IN_THE_BOX_RETRY_MS then w
      else
        let w = w\<lparr>qc_boxAttempted := True, qc_boxLastAttemptMs := now\<rparr>;
            w = (if \<not> inFlight then w\<lparr>qc_boxCommandRevision := obs_revision (p_displayOnObs p)\<rparr> else w);
            (result, w) = sendMuteResult e p QoInTheBox target w;
            w = (if result = SendInFlight \<and> target then w\<lparr>qc_boxMuteInFlight := True\<rparr> else w)
        in if result = SendSent
           then
             let w = w\<lparr>qc_boxMuteInFlight := False, qc_boxCommandSent := True,
                       qc_boxCommandIngress := commandIngressBoundary (qw_client w) OwnInTheBox\<rparr>
             in if target then w\<lparr>qc_boxOwnsMute := True\<rparr> else w
           else if result = SendFailed \<and> qc_boxMuteInFlight w then cancelInTheBoxCommand (se_answers e) w
           else w)"

definition box_pursue ::
    "send_environment \<Rightarrow> parser \<Rightarrow> u32 \<Rightarrow> bool \<Rightarrow> bool \<Rightarrow> quiet_world \<Rightarrow> quiet_world" where
  "box_pursue e p now inFlight target w =
     (let muted = ds_softMuted (p_displayState p) in
      if \<not> qc_boxCommandPending w \<and> target \<and> muted then w
      else
        let reverse = (\<not> qc_boxCommandPending w \<or> target \<noteq> qc_boxCommandMute w);
            w = (if reverse \<and> inFlight then cancelInTheBoxCommand (se_answers e) w else w)
        in if reverse \<and> inFlight \<and> \<not> isConnected (qw_client w) then w
           else
             let w = (if reverse then w\<lparr>qc_boxCommandPending := True, qc_boxCommandMute := target,
                                        qc_boxCommandSent := False, qc_boxAttempted := False\<rparr> else w)
             in if \<not> qc_boxCommandSent w \<and> \<not> inFlight \<and> muted = target \<and> \<not> qc_boxOwnsMute w
                then w\<lparr>qc_boxCommandPending := False, qc_boxInsidePending := False\<rparr>
                else box_attempt e p now inFlight target w)"

text \<open>From the decision to the command.\<close>

definition box_act :: "send_environment \<Rightarrow> parser \<Rightarrow> u32 \<Rightarrow> itb_decision \<Rightarrow> quiet_world \<Rightarrow> quiet_world" where
  "box_act e p now d w =
     (let inFlight = in_flight w OwnInTheBox;
          w = (if qc_boxRecoveryPending w \<and> \<not> ds_softMuted (p_displayState p) \<and> \<not> inFlight
               then w\<lparr>qc_boxRecoveryPending := False\<rparr> else w);
          target = box_target p d w;
          w = w\<lparr>qc_boxSuppressVoice := (target = Some True)\<rparr>
      in case target of
           None \<Rightarrow> (if inFlight then cancelInTheBoxCommand (se_answers e) w else w)
                     \<lparr>qc_boxCommandPending := False, qc_boxAttempted := False\<rparr>
         | Some t \<Rightarrow> box_pursue e p now inFlight t w)"

definition box_session :: "send_environment \<Rightarrow> parser \<Rightarrow> u32 \<Rightarrow> quiet_world \<Rightarrow> quiet_world" where
  "box_session e p now w =
     (let changed = box_lifetime_changed p w;
          (alive, w) = box_new_lifetime (se_answers e) p w
      in if \<not> alive then w
         else
           let w = w\<lparr>qc_boxLifetime := p_alertLifetime p, qc_boxLifetimeKnown := True\<rparr>;
               w = box_detector_unmuted changed p (box_confirm p w);
               (d, w) = box_decide now p w
           in box_act e p now d w)"

definition processInTheBox :: "send_environment \<Rightarrow> parser \<Rightarrow> u32 \<Rightarrow> quiet_world \<Rightarrow> quiet_world" where
  "processInTheBox e p now w =
     (let w = w\<lparr>qc_boxSuppressVoice := False\<rparr> in
      if \<not> qc_hasBle w \<or> \<not> qc_hasParser w then w
      else if \<not> isConnected (qw_client w) \<or> sessionGeneration w \<noteq> qc_boxSession w
      then resetInTheBoxSession (se_answers e) w
      else if bc_proxyClientConnected (qw_client w) then box_yields_to_phone (se_answers e) w
      else if \<not> don_available (p_displayOnObs p) then w
      else box_session e p now w)"

section \<open>Voice\<close>

text \<open>The flag the voice module reads, with the presentation of it.\<close>

definition applyVoicePresentation ::
    "parser \<Rightarrow> speed_mute_module option \<Rightarrow> bool \<Rightarrow> quiet_world \<Rightarrow> bool \<times> quiet_world" where
  "applyVoicePresentation p speedMute hasRenderablePriority w =
     (let w = present (\<lambda>s. s\<lparr>qs_voiceSuppressed := False, qs_voiceAllowVolZeroBypass := False\<rparr>)
                (syncCommittedState p w);
          speed = (case speedMute of None \<Rightarrow> False
                   | Some m \<Rightarrow> sms_voice (smm_settings m) \<and> smt_muteActive (smm_state m) \<and> hasRenderablePriority);
          suppressed = (qc_boxSuppressVoice w \<or> speed)
      in (suppressed, if suppressed then present (qs_voiceSuppressed_update (\<lambda>_. True)) w else w))"

end
