(* ===== verification/V1_Quiet_Volume.thy ===== *)
theory V1_Quiet_Volume
  imports V1_Quiet_Mute
begin

text \<open>
  The quiet coordinator's volume side (\<open>src/modules/quiet/quiet_coordinator_module.cpp\<close> and
  \<open>quiet_coordinator_templates.h\<close>): the low-speed override and the restoration it owes, the
  delivery of the volume fade, and the lease of a settings transaction.
\<close>

section \<open>Volume commands\<close>

definition sendVolumeResult ::
    "send_environment \<Rightarrow> parser \<Rightarrow> quiet_owner \<Rightarrow> u8 \<Rightarrow> u8 \<Rightarrow> quiet_world \<Rightarrow> send_result \<times> quiet_world" where
  "sendVolumeResult e p owner volume muteVolume w =
     (let w = syncCommittedState p w in
      if qc_autoPushActive w \<and> owner \<noteq> QoAutoPush then (SendNotYet, w)
      else
        let m = qc_committed w;
            w = desire (\<lambda>d. d\<lparr>qd_volumeOwner := owner, qd_volume := volume, qd_muteVolume := muteVolume,
                  qd_volumePending := (if qm_hasDisplayState m
                    then qm_mainVolume m \<noteq> volume \<or> qm_muteVolume m \<noteq> muteVolume else True)\<rparr>) w
        in if \<not> qc_hasBle w then (SendFailed, w)
           else
             let (result, w) = commanded owner (setVolumeResult e volume muteVolume 0) w
             in (result, if result = SendSent
                         then present (qs_activeVolumeOwner_update (\<lambda>_. owner)) w else w))"

definition sendVolume ::
    "send_environment \<Rightarrow> parser \<Rightarrow> quiet_owner \<Rightarrow> u8 \<Rightarrow> u8 \<Rightarrow> quiet_world \<Rightarrow> bool \<times> quiet_world" where
  "sendVolume e p owner volume muteVolume w =
     (let (r, w) = sendVolumeResult e p owner volume muteVolume w in (r = SendSent, w))"

definition canApplyAutoPushVolumeExactly :: "quiet_world \<Rightarrow> bool" where
  "canApplyAutoPushVolumeExactly w \<longleftrightarrow> \<not> qc_speedActive w \<and> qc_restoreVol w = 0xFF \<and> \<not> qc_fadePending w \<and>
     qs_activeVolumeOwner (qc_presentation w) \<noteq> QoVolumeFade"

definition beginAutoPushVolumeTransaction :: "quiet_world \<Rightarrow> bool \<times> quiet_world" where
  "beginAutoPushVolumeTransaction w =
     (if qc_autoPushActive w \<or> \<not> canApplyAutoPushVolumeExactly w then (False, w)
      else (True, w\<lparr>qc_autoPushActive := True\<rparr>))"

definition endAutoPushVolumeTransaction :: "quiet_world \<Rightarrow> quiet_world" where
  "endAutoPushVolumeTransaction w = w\<lparr>qc_autoPushActive := False\<rparr>"

section \<open>The restoration the override owes\<close>

definition setPendingSpeedRestore :: "stack_answers \<Rightarrow> u8 \<Rightarrow> u8 \<Rightarrow> quiet_world \<Rightarrow> quiet_world" where
  "setPendingSpeedRestore a volume muteVolume w =
     (let w = (if qc_restoreVol w = 0xFF \<and> qc_hasBle w
               then w\<lparr>qc_reducedVolume := qd_volume (qc_desired w),
                      qc_reducedMuteVolume := qd_muteVolume (qc_desired w),
                      qc_previousVolume := 0xFF, qc_restoreObsSession := sessionGeneration w,
                      qc_restoreObsIngress := bc_notificationIngress (qw_client w)\<rparr> else w);
          w = (if qc_hasBle w then w\<lparr>qc_restoreWriteRevision := volumeWriteRevision w\<rparr> else w);
          w = (if qc_restoreVol w \<noteq> volume \<or> qc_restoreMuteVol w \<noteq> muteVolume
               then
                 let w = (if qc_hasBle w then abandon a OwnSpeedVolume w else w);
                     w = (if qc_restoreSent w
                          then w\<lparr>qc_previousVolume := qc_restoreVol w,
                                 qc_previousMuteVolume := qc_restoreMuteVol w\<rparr> else w)
                 in w\<lparr>qc_restoreSent := False\<rparr>
               else w)
      in w\<lparr>qc_restoreVol := volume, qc_restoreMuteVol := muteVolume\<rparr>)"

definition noteSpeedRestoreSent :: "u32 \<Rightarrow> u32 \<Rightarrow> quiet_world \<Rightarrow> quiet_world" where
  "noteSpeedRestoreSent session ingress w =
     (let w = w\<lparr>qc_restoreWriteRevision := volumeWriteRevision w\<rparr>
      in if \<not> qc_restoreSent w \<or> qc_restoreSentSession w \<noteq> session
         then w\<lparr>qc_restoreSent := True, qc_restoreSentSession := session, qc_restoreSentIngress := ingress\<rparr>
         else w)"

text \<open>What a reconciliation sees: the newest canonical pair, when it is news, and the other writers.\<close>

definition restore_new_session :: "quiet_world \<Rightarrow> bool" where
  "restore_new_session w \<longleftrightarrow> sessionGeneration w \<noteq> qc_restoreObsSession w"

definition restore_newer_writer :: "quiet_world \<Rightarrow> bool" where
  "restore_newer_writer w \<longleftrightarrow>
     \<not> restore_new_session w \<and> volumeWriteRevision w \<noteq> qc_restoreWriteRevision w"

definition fresh_pair :: "parser \<Rightarrow> quiet_world \<Rightarrow> (u8 \<times> u8 \<times> u32) option" where
  "fresh_pair p w =
     (case copyLatestCanonicalCurrentVolume p of None \<Rightarrow> None
      | Some (m, q, ingress) \<Rightarrow>
          if restore_new_session w \<or> later_than ingress (qc_restoreObsIngress w)
          then Some (m, q, ingress) else None)"

definition restore_manual_pair :: "parser \<Rightarrow> quiet_world \<Rightarrow> bool" where
  "restore_manual_pair p w =
     (case fresh_pair p w of None \<Rightarrow> False
      | Some (m, q, _) \<Rightarrow> (m, q) \<noteq> (qc_restoreVol w, qc_restoreMuteVol w) \<and>
          (m, q) \<noteq> (qc_reducedVolume w, qc_reducedMuteVolume w) \<and>
          (m, q) \<noteq> (qc_previousVolume w, qc_previousMuteVolume w))"

definition restore_was_confirmed :: "bool \<Rightarrow> parser \<Rightarrow> quiet_world \<Rightarrow> bool" where
  "restore_was_confirmed allowed p w =
     (case fresh_pair p w of None \<Rightarrow> False
      | Some (m, q, ingress) \<Rightarrow> allowed \<and> \<not> in_flight w OwnSpeedVolume \<and>
          (m, q) = (qc_restoreVol w, qc_restoreMuteVol w) \<and> qc_restoreSent w \<and>
          qc_restoreSentSession w = sessionGeneration w \<and> later_than ingress (qc_restoreSentIngress w))"

definition retire_restore :: "stack_answers \<Rightarrow> bool \<Rightarrow> bool \<Rightarrow> quiet_world \<Rightarrow> quiet_world" where
  "retire_restore a newerWriter manualPair w =
     (let w = (abandon a OwnSpeedVolume w)\<lparr>qc_restoreVol := 0xFF, qc_restoreSent := False,
                qc_hintInvalidated := newerWriter \<or> manualPair\<rparr>;
          owner = qd_volumeOwner (qc_desired w);
          w = (if (newerWriter \<or> manualPair) \<and>
                  (owner = QoSpeedVolume \<or> \<not> newerWriter \<and> owner = QoAutoPush)
               then desire (\<lambda>d. d\<lparr>qd_volumeOwner := QoNone, qd_volumePending := False\<rparr>) w else w);
          w = (if qs_activeVolumeOwner (qc_presentation w) = QoSpeedVolume
               then present (qs_activeVolumeOwner_update (\<lambda>_. QoNone)) w else w)
      in present (qs_speedVolZeroActive_update (\<lambda>_. False)) w)"

definition reconcilePendingSpeedRestore :: "stack_answers \<Rightarrow> parser \<Rightarrow> bool \<Rightarrow> quiet_world \<Rightarrow> quiet_world" where
  "reconcilePendingSpeedRestore a p allowConfirmation w =
     (if qc_restoreVol w = 0xFF \<or> \<not> qc_hasBle w \<or> \<not> qc_hasParser w \<or> \<not> qm_connected (qc_committed w) then w
      else
        let newerWriter = restore_newer_writer w; manualPair = restore_manual_pair p w
        in if newerWriter \<or> manualPair \<or> restore_was_confirmed allowConfirmation p w
           then retire_restore a newerWriter manualPair w
           else case fresh_pair p w of None \<Rightarrow> w
             | Some (_, _, ingress) \<Rightarrow>
                 if restore_new_session w
                 then w\<lparr>qc_restoreObsSession := sessionGeneration w, qc_restoreObsIngress := ingress,
                        qc_restoreWriteRevision := volumeWriteRevision w\<rparr>
                 else w)"

text \<open>A send of the restoration and the note of its admission.\<close>

definition send_restore :: "send_environment \<Rightarrow> parser \<Rightarrow> u8 \<Rightarrow> u8 \<Rightarrow> quiet_world \<Rightarrow> quiet_world" where
  "send_restore e p volume muteVolume w =
     (let session = sessionGeneration w;
          (sent, w) = sendVolume e p QoSpeedVolume volume muteVolume w
      in if sent then noteSpeedRestoreSent session (commandIngressBoundary (qw_client w) OwnSpeedVolume) w
         else w)"

definition retryPendingSpeedVolRestore ::
    "send_environment \<Rightarrow> parser \<Rightarrow> u32 \<Rightarrow> quiet_world \<Rightarrow> bool \<times> quiet_world" where
  "retryPendingSpeedVolRestore e p now w =
     (let w = reconcilePendingSpeedRestore (se_answers e) p True (syncCommittedState p w)
      in if qc_restoreVol w = 0xFF \<or> \<not> qc_hasBle w \<or> \<not> qc_hasParser w then (False, w)
         else if \<not> ds_hasVolumeData (p_displayState p) \<or> \<not> qm_connected (qc_committed w) then (True, w)
         else if elapsed_ms now (qc_restoreLastRetryMs w) < SPEED_VOL_RETRY_INTERVAL_MS then (True, w)
         else (True, send_restore e p (qc_restoreVol w) (qc_restoreMuteVol w)
                       (w\<lparr>qc_restoreLastRetryMs := now\<rparr>)))"

section \<open>The volume of a profile\<close>

definition sendAutoPushVolumeResult ::
    "send_environment \<Rightarrow> parser \<Rightarrow> u8 \<Rightarrow> u8 \<Rightarrow> u8 \<Rightarrow> quiet_world \<Rightarrow> send_result \<times> quiet_world" where
  "sendAutoPushVolumeResult e p volume muteVolume aux0 w =
     (if volume > 9 \<or> muteVolume > 9 then (SendFailed, w)
      else
        let w = syncCommittedState p w in
        if \<not> qc_hasBle w then (SendFailed, w)
        else if \<not> qc_speedActive w then
          let session = sessionGeneration w;
              (result, w) = commanded QoAutoPush (setVolumeResult e volume muteVolume aux0) w
          in if result \<noteq> SendSent then (result, w)
             else
               let ingress = commandIngressBoundary (qw_client w) OwnAutoPush;
                   w = (if qc_restoreVol w \<noteq> 0xFF
                        then (noteSpeedRestoreSent session ingress
                               ((setPendingSpeedRestore (se_answers e) volume muteVolume w)
                                  \<lparr>qc_restoreObsSession := session, qc_restoreObsIngress := ingress\<rparr>))
                               \<lparr>qc_baselineUpdated := True\<rparr>
                        else w);
                   w = desire (\<lambda>d. d\<lparr>qd_volumeOwner := QoAutoPush, qd_volume := volume,
                                     qd_muteVolume := muteVolume, qd_volumePending := True\<rparr>) w
               in (SendSent, present (qs_activeVolumeOwner_update (\<lambda>_. QoAutoPush)) w)
        else
          let temporary = (if qd_volume (qc_desired w) \<le> 9 then qd_volume (qc_desired w)
                           else qm_mainVolume (qc_committed w));
              (result, w) = commanded QoAutoPush (setVolumeResult e temporary muteVolume aux0) w
          in if result \<noteq> SendSent then (result, w)
             else
               let w = w\<lparr>qc_savedOriginal := volume, qc_savedMuteVol := muteVolume, qc_baselineUpdated := True\<rparr>;
                   m = qc_committed w;
                   w = desire (\<lambda>d. d\<lparr>qd_volumeOwner := QoSpeedVolume, qd_volume := temporary,
                         qd_muteVolume := muteVolume, qd_volumePending := \<not> qm_hasDisplayState m \<or>
                           qm_mainVolume m \<noteq> temporary \<or> qm_muteVolume m \<noteq> muteVolume\<rparr>) w
               in (SendSent, present (qs_activeVolumeOwner_update (\<lambda>_. QoSpeedVolume)) w))"

definition sendAutoPushVolume ::
    "send_environment \<Rightarrow> parser \<Rightarrow> u8 \<Rightarrow> u8 \<Rightarrow> u8 \<Rightarrow> quiet_world \<Rightarrow> bool \<times> quiet_world" where
  "sendAutoPushVolume e p volume muteVolume aux0 w =
     (let (r, w) = sendAutoPushVolumeResult e p volume muteVolume aux0 w in (r = SendSent, w))"

section \<open>Sessions and the phone\<close>

definition beginDetectorVolumeSession :: "stack_answers \<Rightarrow> string option \<Rightarrow> quiet_world \<Rightarrow> quiet_world" where
  "beginDetectorVolumeSession a address w =
     (let known = (case address of None \<Rightarrow> False | Some s \<Rightarrow> length s = 17);
          w = (if \<not> known \<or> address \<noteq> Some (qc_detector w)
               then with_fade fade_reset
                      (quiet_resetVolumeState a (w\<lparr>qc_boxMuteInFlight := False, qc_boxRecoveryPending := False\<rparr>))
               else w)
      in w\<lparr>qc_detector := (if known then the address else [])\<rparr>)"

definition syncProxyVolumeOwnership :: "stack_answers \<Rightarrow> quiet_world \<Rightarrow> bool \<times> quiet_world" where
  "syncProxyVolumeOwnership a w =
     (if \<not> qc_hasBle w \<or> \<not> bc_proxyClientConnected (qw_client w) then (False, w)
      else (True, with_fade fade_reset (quiet_resetVolumeState a w)))"

end
