(* ===== verification/V1_Quiet_Loop.thy ===== *)
theory V1_Quiet_Loop
  imports V1_Quiet_Volume
begin

text \<open>
  The two periodic volume operations of the quiet coordinator
  (\<open>src/modules/quiet/quiet_coordinator_templates.h\<close>): \<open>processSpeedVolume\<close>, which runs the
  low-speed override, and \<open>executeVolumeFade\<close>, which feeds the volume-fade module and delivers
  its actions. The fade pointer may be null; the fade settings are the ones its module was
  started with.
\<close>

section \<open>The low-speed override\<close>

definition updateSpeedVolPresentation :: "speed_mute_module \<Rightarrow> quiet_world \<Rightarrow> quiet_world" where
  "updateSpeedVolPresentation sm w =
     (let w = present (qs_speedVolZeroActive_update
                (\<lambda>_. qc_speedActive w \<and> sms_v1Volume (smm_settings sm) = 0)) w
      in if qc_speedActive w \<or> qc_restoreVol w \<noteq> 0xFF
         then present (qs_activeVolumeOwner_update (\<lambda>_. QoSpeedVolume)) w
         else if qs_activeVolumeOwner (qc_presentation w) = QoSpeedVolume
         then present (qs_activeVolumeOwner_update (\<lambda>_. QoNone)) w else w)"

definition has_fade_override :: "quiet_world \<Rightarrow> bool" where
  "has_fade_override w \<longleftrightarrow> (case qw_fade w of None \<Rightarrow> False | Some v \<Rightarrow> hasActiveVolumeOverride v)"

text \<open>A context as constructed.\<close>

definition empty_fade_context :: fade_context where
  "empty_fade_context = \<lparr>vc_hasAlert = False, vc_alertEpisodeEnded = False, vc_alertMuted = False,
     vc_alertSuppressed = False, vc_currentVolume = 0, vc_currentMuteVolume = 0,
     vc_hasVolumeObservation = False, vc_volumeObservationIngress = 0, vc_sessionGeneration = 0,
     vc_volumeOwnerChanged = False, vc_restoreCommandInFlight = False, vc_currentFrequency = 0,
     vc_priorityIsLaser = False, vc_now = 0\<rparr>"

text \<open>The newest canonical pair fills the three observation members.\<close>

definition observe_volume :: "parser \<Rightarrow> fade_context \<Rightarrow> fade_context" where
  "observe_volume p ctx =
     (case copyLatestCanonicalCurrentVolume p of None \<Rightarrow> ctx\<lparr>vc_hasVolumeObservation := False\<rparr>
      | Some (m, q, ingress) \<Rightarrow> ctx\<lparr>vc_currentVolume := m, vc_currentMuteVolume := q,
          vc_hasVolumeObservation := True, vc_volumeObservationIngress := ingress\<rparr>)"

definition fade_owner_changed :: "quiet_world \<Rightarrow> bool" where
  "fade_owner_changed w \<longleftrightarrow> qc_fadeAuthoritySession w = sessionGeneration w \<and>
     qc_fadeAuthorityRevision w \<noteq> volumeWriteRevision w \<and>
     qd_volumeOwner (qc_desired w) \<noteq> QoSpeedVolume"

text \<open>Stale fade authority is retired before its baseline is handed to the speed owner.\<close>

definition handover_context :: "parser \<Rightarrow> quiet_world \<Rightarrow> fade_context" where
  "handover_context p w =
     (let ctx = (observe_volume p (empty_fade_context\<lparr>vc_hasAlert := hasAlerts p,
                   vc_sessionGeneration := sessionGeneration w\<rparr>))
                  \<lparr>vc_volumeOwnerChanged := fade_owner_changed w\<rparr>
      in case getRenderablePriorityAlert p of None \<Rightarrow> ctx
         | Some priority \<Rightarrow> ctx\<lparr>vc_currentFrequency := ucast (ad_frequency priority),
             vc_priorityIsLaser := ad_band priority = BAND_LASER\<rparr>)"

definition start_speed_override :: "stack_answers \<Rightarrow> parser \<Rightarrow> u32 \<Rightarrow> quiet_world \<Rightarrow> quiet_world" where
  "start_speed_override a p now w =
     (let s = p_displayState p;
          restoring = (qc_restoreVol w \<noteq> 0xFF);
          w = (if \<not> restoring \<and> has_fade_override w
               then with_fade (\<lambda>v. snd (observeVolumeOwnership (handover_context p w) v)) w else w);
          w = (if \<not> restoring
               then w\<lparr>qc_baselineUpdated := qd_volumeOwner (qc_desired w) = QoAutoPush\<rparr> else w);
          pendingAutoPush = (qc_baselineUpdated w \<and> qd_volumePending (qc_desired w));
          w = w\<lparr>qc_savedOriginal := (if restoring then qc_restoreVol w
                  else if pendingAutoPush then qd_volume (qc_desired w) else ds_mainVolume s),
                qc_savedMuteVol := (if restoring then qc_restoreMuteVol w
                  else if pendingAutoPush then qd_muteVolume (qc_desired w) else ds_muteVolume s)\<rparr>;
          w = abandon a OwnVolumeFade (abandon a OwnSpeedVolume w)
      in w\<lparr>qc_restoreVol := 0xFF, qc_restoreSent := False, qc_speedActive := True,
           qc_speedLastRetryMs := now\<rparr>)"

text \<open>The end of an alert episode under the override: fade's baseline becomes the one to restore.\<close>

definition carry_fade_baseline :: "stack_answers \<Rightarrow> parser \<Rightarrow> u32 \<Rightarrow> quiet_world \<Rightarrow> quiet_world" where
  "carry_fade_baseline a p now w =
     (case qw_fade w of None \<Rightarrow> w
      | Some v \<Rightarrow>
          if \<not> qc_hasParser w \<or> \<not> (qc_speedActive w \<or> qc_restoreVol w \<noteq> 0xFF) then w
          else
            let (ended, w) = consumeFadeAlertEnd p w
            in if hasAlerts p \<and> \<not> ended then w
               else
                 let (cleared, v) = releaseClearedAlert v;
                     w = (abandon a OwnVolumeFade (w\<lparr>qw_fade := Some v\<rparr>))
                           \<lparr>qc_fadePending := False, qc_fadeWriteRevision := 0\<rparr>
                 in case cleared of
                      FadeRestore volume muteVolume \<Rightarrow>
                        if qc_baselineUpdated w then w
                        else if qc_speedActive w
                        then w\<lparr>qc_savedOriginal := volume, qc_savedMuteVol := muteVolume\<rparr>
                        else with_fade (setBaselineHint volume muteVolume now)
                               (setPendingSpeedRestore a volume muteVolume w)
                    | _ \<Rightarrow> w)"

definition end_speed_override ::
    "send_environment \<Rightarrow> parser \<Rightarrow> u32 \<Rightarrow> speed_mute_module \<Rightarrow> quiet_world \<Rightarrow> bool \<times> quiet_world" where
  "end_speed_override e p now sm w =
     (let w = setPendingSpeedRestore (se_answers e) (qc_savedOriginal w) (qc_savedMuteVol w) w;
          w = send_restore e p (qc_savedOriginal w) (qc_savedMuteVol w) w;
          w = with_fade (setBaselineHint (qc_savedOriginal w) (qc_savedMuteVol w) now) w;
          w = w\<lparr>qc_restoreLastRetryMs := now, qc_speedActive := False, qc_savedOriginal := 0xFF\<rparr>
      in retryPendingSpeedVolRestore e p now (updateSpeedVolPresentation sm w))"

definition hold_speed_override ::
    "send_environment \<Rightarrow> parser \<Rightarrow> u32 \<Rightarrow> speed_mute_module \<Rightarrow> quiet_world \<Rightarrow> quiet_world" where
  "hold_speed_override e p now sm w =
     (let m = qc_committed w; target = sms_v1Volume (smm_settings sm);
          w = (if qm_mainVolume m = target \<and> qm_muteVolume m = qc_savedMuteVol w \<and> \<not> in_flight w OwnSpeedVolume
               then w
               else if elapsed_ms now (qc_speedLastRetryMs w) \<ge> SPEED_VOL_RETRY_INTERVAL_MS
               then snd (sendVolume e p QoSpeedVolume target (qc_savedMuteVol w) (w\<lparr>qc_speedLastRetryMs := now\<rparr>))
               else w)
      in updateSpeedVolPresentation sm w)"

definition drop_stale_hint :: "u32 \<Rightarrow> quiet_world \<Rightarrow> quiet_world" where
  "drop_stale_hint now w =
     (if qc_hintInvalidated w \<and> qw_fade w \<noteq> None
      then (with_fade (setBaselineHint 0xFF 0 now) w)\<lparr>qc_hintInvalidated := False\<rparr> else w)"

text \<open>The pass once the coordinator may act: the four cases of the override.\<close>

definition speed_pass ::
    "send_environment \<Rightarrow> parser \<Rightarrow> u32 \<Rightarrow> speed_mute_module \<Rightarrow> quiet_world \<Rightarrow> bool \<times> quiet_world" where
  "speed_pass e p now sm w =
     (let a = se_answers e;
          wantsActive = smt_muteActive (smm_state sm);
          starting = (wantsActive \<and> \<not> qc_speedActive w)
      in if starting \<and> \<not> ds_hasVolumeData (p_displayState p) then (False, updateSpeedVolPresentation sm w)
         else
           let w = (if starting then start_speed_override a p now w else w);
               w = carry_fade_baseline a p now w
           in if starting
              then (True, updateSpeedVolPresentation sm
                      (snd (sendVolume e p QoSpeedVolume (sms_v1Volume (smm_settings sm)) (qc_savedMuteVol w) w)))
              else if \<not> wantsActive \<and> qc_speedActive w then end_speed_override e p now sm w
              else if qc_speedActive w then (True, hold_speed_override e p now sm w)
              else retryPendingSpeedVolRestore e p now (updateSpeedVolPresentation sm w))"

definition processSpeedVolume ::
    "send_environment \<Rightarrow> parser \<Rightarrow> u32 \<Rightarrow> speed_mute_module \<Rightarrow> quiet_world \<Rightarrow> bool \<times> quiet_world" where
  "processSpeedVolume e p now sm w =
     (let (phone, w) = syncProxyVolumeOwnership (se_answers e) w
      in if phone then (False, w)
         else
           let w = syncCommittedState p w
           in if \<not> qc_hasBle w \<or> \<not> qc_hasParser w \<or> qc_autoPushActive w then (False, w)
              else speed_pass e p now sm
                     (drop_stale_hint now (reconcilePendingSpeedRestore (se_answers e) p False w)))"

section \<open>The volume fade\<close>

definition fade_context_now :: "parser \<Rightarrow> u32 \<Rightarrow> bool \<Rightarrow> quiet_world \<Rightarrow> fade_context" where
  "fade_context_now p now ended w =
     (let m = qc_committed w; alerts = hasAlerts p;
          priority = (if alerts then getRenderablePriorityAlert p else None);
          ctx = observe_volume p (empty_fade_context\<lparr>vc_hasAlert := alerts, vc_alertEpisodeEnded := ended,
                  vc_currentVolume := qm_mainVolume m, vc_currentMuteVolume := qm_muteVolume m\<rparr>);
          ctx = ctx\<lparr>vc_sessionGeneration := sessionGeneration w,
                    vc_restoreCommandInFlight := in_flight w OwnVolumeFade,
                    vc_volumeOwnerChanged := has_fade_override w \<and> fade_owner_changed w,
                    vc_now := now\<rparr>
      in if \<not> alerts then ctx
         else ctx\<lparr>vc_alertMuted := qm_muted m, vc_alertSuppressed := False,
                  vc_currentFrequency := (case priority of None \<Rightarrow> 0 | Some x \<Rightarrow> ucast (ad_frequency x)),
                  vc_priorityIsLaser := (case priority of None \<Rightarrow> False | Some x \<Rightarrow> ad_band x = BAND_LASER)\<rparr>)"

definition stale_fade_down :: "fade_context \<Rightarrow> quiet_world \<Rightarrow> bool" where
  "stale_fade_down ctx w \<longleftrightarrow> \<not> vc_hasAlert ctx \<or> vc_alertEpisodeEnded ctx \<or> vc_alertMuted ctx \<or>
     vc_alertSuppressed ctx \<or> vc_sessionGeneration ctx \<noteq> qc_fadeSession w \<or>
     vc_currentFrequency ctx \<noteq> qc_fadeFrequency w \<or> vc_priorityIsLaser ctx \<noteq> qc_fadeLaser w"

definition drop_stale_fade :: "stack_answers \<Rightarrow> fade_context \<Rightarrow> quiet_world \<Rightarrow> quiet_world" where
  "drop_stale_fade a ctx w =
     (if stale_fade_down ctx w
      then (if qc_fadePending w then abandon a OwnVolumeFade w else w)
             \<lparr>qc_fadePending := False, qc_fadeWriteRevision := 0\<rparr>
      else w)"

text \<open>A sent reduction is watched: confirmed, superseded, or explicitly rejected.\<close>

definition watch_fade_write :: "fade_context \<Rightarrow> quiet_world \<Rightarrow> quiet_world" where
  "watch_fade_write ctx w =
     (if qc_fadeWriteRevision w = 0 then w
      else
        let newerWriter = (volumeWriteRevision w \<noteq> qc_fadeWriteRevision w \<or>
                           qd_volumeOwner (qc_desired w) \<noteq> QoVolumeFade);
            fresh = (vc_hasVolumeObservation ctx \<and>
                     later_than (vc_volumeObservationIngress ctx) (qc_fadeWriteIngress w));
            atTarget = (fresh \<and> at_pair ctx (qc_fadeVolume w) (qc_fadeMuteVolume w));
            changedPair = (fresh \<and> \<not> at_pair ctx (qc_fadeBaselineVolume w) (qc_fadeBaselineMuteVolume w))
        in if newerWriter \<or> atTarget \<or> changedPair
           then w\<lparr>qc_fadePending := False, qc_fadeWriteRevision := 0\<rparr>
           else if volumeWriteRejected (qw_client w) (qc_fadeWriteRevision w)
           then w\<lparr>qc_fadePending := True\<rparr> else w)"

text \<open>The presentation mirrors the fade's ownership; without it nothing of the fade stays pending.\<close>

definition mirror_fade :: "stack_answers \<Rightarrow> quiet_world \<Rightarrow> quiet_world" where
  "mirror_fade a w =
     (let w = (if has_fade_override w then present (qs_activeVolumeOwner_update (\<lambda>_. QoVolumeFade)) w
               else if qs_activeVolumeOwner (qc_presentation w) = QoVolumeFade
               then present (qs_activeVolumeOwner_update (\<lambda>_. QoNone)) w else w)
      in if has_fade_override w then w
         else (abandon a OwnVolumeFade w)\<lparr>qc_fadePending := False, qc_fadeWriteRevision := 0\<rparr>)"

definition adopt_fade :: "fade_context \<Rightarrow> fade_action \<Rightarrow> quiet_world \<Rightarrow> quiet_world" where
  "adopt_fade ctx action w =
     (case action of
        FadeDown volume muteVolume \<Rightarrow>
          w\<lparr>qc_fadePending := True, qc_fadeVolume := volume, qc_fadeMuteVolume := muteVolume,
            qc_fadeFrequency := vc_currentFrequency ctx, qc_fadeLaser := vc_priorityIsLaser ctx,
            qc_fadeSession := vc_sessionGeneration ctx, qc_fadeBaselineVolume := vc_currentVolume ctx,
            qc_fadeBaselineMuteVolume := vc_currentMuteVolume ctx\<rparr>
      | _ \<Rightarrow> w)"

definition is_fade_down :: "fade_action \<Rightarrow> bool" where
  "is_fade_down action \<longleftrightarrow> (case action of FadeDown _ _ \<Rightarrow> True | _ \<Rightarrow> False)"

definition deliver_fade ::
    "send_environment \<Rightarrow> parser \<Rightarrow> u32 \<Rightarrow> bool \<Rightarrow> quiet_world \<Rightarrow> bool \<times> quiet_world" where
  "deliver_fade e p now newFade w =
     (if \<not> newFade \<and> elapsed_ms now (qc_fadeLastAttemptMs w) < FADE_RETRY_INTERVAL_MS then (True, w)
      else
        let (result, w) = sendVolumeResult e p QoVolumeFade (qc_fadeVolume w) (qc_fadeMuteVolume w)
                            (w\<lparr>qc_fadeLastAttemptMs := now\<rparr>);
            w = w\<lparr>qc_fadePending := result = SendNotYet \<or> result = SendInFlight\<rparr>;
            w = (if result = SendSent
                 then w\<lparr>qc_fadeWriteRevision := volumeWriteRevision w,
                        qc_fadeAuthorityRevision := volumeWriteRevision w,
                        qc_fadeWriteIngress := commandIngressBoundary (qw_client w) OwnVolumeFade\<rparr>
                 else if result = SendFailed then w\<lparr>qc_fadeWriteRevision := 0\<rparr> else w)
        in (newFade \<or> result \<noteq> SendFailed, w))"

definition deliver_restore ::
    "send_environment \<Rightarrow> parser \<Rightarrow> u8 \<Rightarrow> u8 \<Rightarrow> quiet_world \<Rightarrow> quiet_world" where
  "deliver_restore e p volume muteVolume w =
     (let session = sessionGeneration w;
          (result, w) = sendVolumeResult e p QoVolumeFade volume muteVolume
                          (w\<lparr>qc_fadePending := False, qc_fadeWriteRevision := 0\<rparr>)
      in if result = SendSent
         then (with_fade (noteRestoreSent session (commandIngressBoundary (qw_client w) OwnVolumeFade)) w)
                \<lparr>qc_fadeAuthorityRevision := volumeWriteRevision w\<rparr>
         else w)"

definition deliver_fade_action ::
    "send_environment \<Rightarrow> parser \<Rightarrow> u32 \<Rightarrow> fade_action \<Rightarrow> quiet_world \<Rightarrow> bool \<times> quiet_world" where
  "deliver_fade_action e p now action w =
     (case action of
        FadeRestore volume muteVolume \<Rightarrow> (True, deliver_restore e p volume muteVolume w)
      | _ \<Rightarrow> if qc_fadePending w then deliver_fade e p now (is_fade_down action) w else (False, w))"

definition fade_pass ::
    "send_environment \<Rightarrow> fade_settings option \<Rightarrow> parser \<Rightarrow> u32 \<Rightarrow> volume_fade \<Rightarrow> quiet_world \<Rightarrow> bool \<times> quiet_world" where
  "fade_pass e settings p now v w =
     (let a = se_answers e;
          (ended, w) = consumeFadeAlertEnd p w;
          ctx = fade_context_now p now ended w;
          w = w\<lparr>qc_fadeAuthorityRevision := volumeWriteRevision w, qc_fadeAuthoritySession := sessionGeneration w\<rparr>;
          w = watch_fade_write ctx (drop_stale_fade a ctx w);
          (action, v) = fade_process settings ctx v;
          w = mirror_fade a (w\<lparr>qw_fade := Some v\<rparr>)
      in deliver_fade_action e p now action (adopt_fade ctx action w))"

definition executeVolumeFade ::
    "send_environment \<Rightarrow> fade_settings option \<Rightarrow> parser \<Rightarrow> u32 \<Rightarrow> quiet_world \<Rightarrow> bool \<times> quiet_world" where
  "executeVolumeFade e settings p now w =
     (let (phone, w) = syncProxyVolumeOwnership (se_answers e) w
      in if phone then (False, w)
         else
           let w = syncCommittedState p w
           in case qw_fade w of None \<Rightarrow> (False, w)
              | Some v \<Rightarrow>
                  if \<not> qc_hasBle w \<or> \<not> qc_hasParser w \<or> qc_autoPushActive w \<or>
                     \<not> ds_hasVolumeData (p_displayState p)
                  then (False, w) else fade_pass e settings p now v w)"

end
