(* ===== verification/V1_Quiet_Sends.thy ===== *)
theory V1_Quiet_Sends
  imports V1_Quiet_Loop V1_Client_Steps
begin

text \<open>
  What the quiet coordinator does to the Bluetooth client: every operation moves the client by
  steps of the client's own machine, cancellations and sends of named frames under a named
  owner. A path records which.
\<close>

section \<open>Paths of the client\<close>

text \<open>The steps a coordinator may take: it cancels, and sends the pairs of owner and frame in \<open>S\<close>.\<close>

fun sends :: "(command_owner \<times> u8 list) set \<Rightarrow> client_event \<Rightarrow> bool" where
  "sends S (EvCancel a owner) \<longleftrightarrow> True"
| "sends S (EvSend e owner long (Some d) response phone) \<longleftrightarrow> (owner, d) \<in> S \<and> \<not> long \<and> phone = 0"
| "sends S _ \<longleftrightarrow> False"

definition client_path :: "(command_owner \<times> u8 list) set \<Rightarrow> v1_client \<Rightarrow> v1_client \<Rightarrow> bool" where
  "client_path S c c' \<longleftrightarrow> (\<exists>es. list_all (sends S) es \<and> c' = foldl client_step c es)"

lemma sends_mono: "sends S e \<Longrightarrow> S \<subseteq> T \<Longrightarrow> sends T e"
  by (induction S e rule: sends.induct) auto

lemma client_path_mono: "client_path S c c' \<Longrightarrow> S \<subseteq> T \<Longrightarrow> client_path T c c'"
  unfolding client_path_def by (metis list_all_iff sends_mono)

lemma client_path_refl [simp, intro]: "client_path S c c"
  unfolding client_path_def by (rule exI [of _ "[]"]) simp

lemma client_path_trans [trans]: "client_path S c d \<Longrightarrow> client_path S d c' \<Longrightarrow> client_path S c c'"
  unfolding client_path_def by (metis foldl_append list_all_append)

lemma client_path_Un: "client_path S c d \<Longrightarrow> client_path T d c' \<Longrightarrow> client_path (S \<union> T) c c'"
  by (meson client_path_mono client_path_trans sup_ge1 sup_ge2)

lemma client_path_step: "sends S e \<Longrightarrow> client_path S c (client_step c e)"
  unfolding client_path_def by (rule exI [of _ "[e]"]) simp

lemma cancel_path [simp]: "client_path S c (cancelCommand a owner c)"
  using client_path_step [of S "EvCancel a owner" c] by simp

text \<open>A path keeps what every client step keeps.\<close>

lemma client_path_inv: "client_path S c c' \<Longrightarrow> client_inv c \<Longrightarrow> client_inv c'"
  unfolding client_path_def by (auto intro: client.run_inv)

section \<open>Commands\<close>

definition mute_command :: "bool \<Rightarrow> u8 list" where
  "mute_command muted = request_frame (if muted then PACKET_ID_MUTE_ON else PACKET_ID_MUTE_OFF) 0x01 []"

definition volume_command :: "u8 \<Rightarrow> u8 \<Rightarrow> u8 \<Rightarrow> u8 list" where
  "volume_command volume muteVolume aux0 =
     request_frame PACKET_ID_REQ_WRITE_VOLUME 0x04 [volume, muteVolume, aux0]"

lemma owner_restored: "(c :: v1_client)\<lparr>bc_commandOwner := o1, bc_commandOwner := bc_commandOwner c\<rparr> = c"
  by simp

lemma scoped_send_path:
  "client_path {(owner, d)} c (snd (command_scope owner (sendCommandWithResult e (Some d)) c))"
proof -
  let ?c = "c\<lparr>bc_commandOwner := owner\<rparr>"
  consider "snd (sendCommandWithResult e (Some d) ?c) = ?c"
    | chr where "command_channel False ?c = Some chr"
      "sendCommandWithResult e (Some d) ?c = sendCharacteristicCommand e (Some chr) (Some d) (ch_canWrite chr) 0 ?c"
    using short_send_cases [of e "Some d" ?c] by blast
  then show ?thesis
  proof cases
    case 1
    then show ?thesis by (simp add: command_scope_def split_beta)
  next
    case 2
    then have "snd (command_scope owner (sendCommandWithResult e (Some d)) c) =
        client_step c (EvSend e owner False (Some d) (ch_canWrite chr) 0)"
      by (simp add: command_scope_def send_as_def split_beta)
    with client_path_step [of "{(owner, d)}" "EvSend e owner False (Some d) (ch_canWrite chr) 0" c]
    show ?thesis by simp
  qed
qed

text \<open>A command that is refused before the channel leaves the client as it was.\<close>

lemma scoped_command_path:
  assumes "command (c\<lparr>bc_commandOwner := owner\<rparr>) = (SendFailed, c\<lparr>bc_commandOwner := owner\<rparr>) \<or>
      \<not> bc_proxyClientConnected c \<and> command (c\<lparr>bc_commandOwner := owner\<rparr>) =
        sendCommandWithResult e (Some d) (c\<lparr>bc_commandOwner := owner\<rparr>)"
  shows "client_path (if bc_proxyClientConnected c then {} else {(owner, d)}) c
    (snd (command_scope owner command c))"
  using assms
proof
  assume "command (c\<lparr>bc_commandOwner := owner\<rparr>) = (SendFailed, c\<lparr>bc_commandOwner := owner\<rparr>)"
  then show ?thesis by (simp add: command_scope_def)
next
  assume "\<not> bc_proxyClientConnected c \<and> command (c\<lparr>bc_commandOwner := owner\<rparr>) =
    sendCommandWithResult e (Some d) (c\<lparr>bc_commandOwner := owner\<rparr>)"
  with scoped_send_path [of owner d c e] show ?thesis by (simp add: command_scope_def)
qed

lemma commanded_client: "qw_client (snd (commanded owner command w)) =
    snd (command_scope (commandOwnerFor owner) command (qw_client w))"
  by (simp add: commanded_def split_beta)

text \<open>Under a connected phone no command reaches the channel.\<close>

lemma phone_suppresses: "localV1WriteSuppressedByProxy c \<longleftrightarrow> bc_proxyClientConnected c"
  by (simp add: localV1WriteSuppressedByProxy_def)

lemma setMute_cases:
  "setMuteResult e muted c = (SendFailed, c) \<or> \<not> bc_proxyClientConnected c \<and>
     setMuteResult e muted c = sendCommandWithResult e (Some (mute_command muted)) c"
  by (simp add: setMuteResult_def phone_suppresses mute_command_def)

lemma setVolume_cases:
  "setVolumeResult e v m x c = (SendFailed, c) \<or> \<not> bc_proxyClientConnected c \<and>
     setVolumeResult e v m x c = sendCommandWithResult e (Some (volume_command v m x)) c"
  by (simp add: setVolumeResult_def phone_suppresses volume_command_def)

lemma mute_path:
  "client_path (if bc_proxyClientConnected (qw_client w) then {} else {(commandOwnerFor owner, mute_command muted)})
     (qw_client w) (qw_client (snd (commanded owner (setMuteResult e muted) w)))"
  unfolding commanded_client
  by (rule scoped_command_path) (use setMute_cases in fastforce)

lemma volume_path:
  "client_path (if bc_proxyClientConnected (qw_client w) then {}
       else {(commandOwnerFor owner, volume_command volume muteVolume aux0)})
     (qw_client w) (qw_client (snd (commanded owner (setVolumeResult e volume muteVolume aux0) w)))"
  unfolding commanded_client
  by (rule scoped_command_path) (use setVolume_cases in fastforce)

section \<open>Steps that leave the client alone\<close>

lemma quiet_client_same [simp]:
  "qw_client (desire f w) = qw_client w" "qw_client (present g w) = qw_client w"
  "qw_client (with_fade h w) = qw_client w"
  by (simp_all add: desire_def present_def with_fade_def)

lemma sync_client [simp]: "qw_client (syncCommittedState p w) = qw_client w"
  by (simp add: syncCommittedState_def refreshPendingState_def Let_def)

lemma small_client [simp]:
  "qw_client (drop_box_owner w) = qw_client w"
  "qw_client (snd (consumeFadeAlertEnd p w)) = qw_client w"
  "qw_client (updateSpeedVolPresentation sm w) = qw_client w"
  "qw_client (noteSpeedRestoreSent session ingress w) = qw_client w"
  "qw_client (adopt_fade ctx action w) = qw_client w"
  "qw_client (watch_fade_write ctx w) = qw_client w"
  "qw_client (drop_stale_hint now w) = qw_client w"
  "qw_client (box_confirm p w) = qw_client w"
  "qw_client (box_detector_unmuted b p w) = qw_client w"
  "qw_client (snd (box_decide now p w)) = qw_client w"
  "qw_client (setInTheBoxSuspended b w) = qw_client w"
  "qw_client (endAutoPushVolumeTransaction w) = qw_client w"
  "qw_client (snd (beginAutoPushVolumeTransaction w)) = qw_client w"
  by (simp_all add: drop_box_owner_def consumeFadeAlertEnd_def updateSpeedVolPresentation_def
      noteSpeedRestoreSent_def adopt_fade_def watch_fade_write_def drop_stale_hint_def box_confirm_def
      box_detector_unmuted_def box_decide_def setInTheBoxSuspended_def endAutoPushVolumeTransaction_def
      beginAutoPushVolumeTransaction_def Let_def split_beta split: fade_action.split)

lemma abandon_client [simp]: "qw_client (abandon a owner w) = cancelCommand a owner (qw_client w)"
  by (simp add: abandon_def cancelCommand_def)

lemma cancel_twice_path [simp]: "client_path S c (cancelCommand a owner (cancelCommand a owner' c))"
  by (rule client_path_trans [OF cancel_path cancel_path])

section \<open>Cancellations\<close>

lemma reset_volume_path [simp]: "client_path S (qw_client w) (qw_client (quiet_resetVolumeState a w))"
  by (simp add: quiet_resetVolumeState_def Let_def)

lemma cancel_box_path [simp]: "client_path S (qw_client w) (qw_client (cancelInTheBoxCommand a w))"
  by (simp add: cancelInTheBoxCommand_def Let_def)

lemma reset_box_path [simp]: "client_path S (qw_client w) (qw_client (resetInTheBoxSession a w))"
  by (simp add: resetInTheBoxSession_def)

lemma box_settings_path [simp]: "client_path S (qw_client w) (qw_client (setInTheBoxSettings a s session w))"
  by (simp add: setInTheBoxSettings_def Let_def) (meson cancel_box_path client_path_trans reset_box_path)

lemma box_yields_path [simp]: "client_path S (qw_client w) (qw_client (box_yields_to_phone a w))"
  by (simp add: box_yields_to_phone_def)

lemma box_lifetime_path [simp]: "client_path S (qw_client w) (qw_client (snd (box_new_lifetime a p w)))"
proof -
  let ?w = "w\<lparr>qc_box := itb_reset, qc_boxManualOverride := False, qc_boxInsidePending := False\<rparr>"
  have "client_path S (qw_client w) (qw_client (cancelInTheBoxCommand a ?w))"
    using cancel_box_path [of S ?w a] by simp
  then show ?thesis by (simp add: box_new_lifetime_def Let_def)
qed

lemma retire_path [simp]: "client_path S (qw_client w) (qw_client (retire_restore a b1 b2 w))"
  by (simp add: retire_restore_def Let_def)

lemma reconcile_path [simp]: "client_path S (qw_client w) (qw_client (reconcilePendingSpeedRestore a p allow w))"
  by (simp add: reconcilePendingSpeedRestore_def Let_def split: option.split)

lemma pending_restore_path [simp]: "client_path S (qw_client w) (qw_client (setPendingSpeedRestore a v m w))"
  by (simp add: setPendingSpeedRestore_def Let_def)

lemma proxy_path [simp]: "client_path S (qw_client w) (qw_client (snd (syncProxyVolumeOwnership a w)))"
  by (simp add: syncProxyVolumeOwnership_def)

lemma detector_path [simp]: "client_path S (qw_client w) (qw_client (beginDetectorVolumeSession a address w))"
proof -
  let ?w = "w\<lparr>qc_boxMuteInFlight := False, qc_boxRecoveryPending := False\<rparr>"
  have "client_path S (qw_client w) (qw_client (quiet_resetVolumeState a ?w))"
    using reset_volume_path [of S ?w a] by simp
  then show ?thesis by (simp add: beginDetectorVolumeSession_def Let_def)
qed

end
