(* ===== verification/V1_Quiet_Machine.thy ===== *)
theory V1_Quiet_Machine
  imports V1_Quiet_Sends
begin

text \<open>
  The quiet coordinator as a machine over its calls and the client's own steps, what each of its
  passes may send, and the invariant of every history.
\<close>

section \<open>What each pass may send\<close>

lemma mute_send_client:
  "qw_client (snd (sendMuteResult e p owner muted w)) \<in>
     {qw_client w, qw_client (snd (commanded owner (setMuteResult e muted) w))}"
  by (simp add: sendMuteResult_def Let_def split_beta commanded_client)

lemma mute_send_path:
  "client_path (if bc_proxyClientConnected (qw_client w) then {} else {(commandOwnerFor owner, mute_command muted)})
     (qw_client w) (qw_client (snd (sendMuteResult e p owner muted w)))"
  using mute_send_client [of e p owner muted w] mute_path [of w owner muted e] by auto

text \<open>While a settings transaction runs only its own writes reach the client.\<close>

lemma volume_send_client:
  "qw_client (snd (sendVolumeResult e p owner volume muteVolume w)) \<in>
     (if qc_autoPushActive w \<and> owner \<noteq> QoAutoPush then {qw_client w}
      else {qw_client w, qw_client (snd (commanded owner (setVolumeResult e volume muteVolume 0) w))})"
proof -
  have "qc_autoPushActive (syncCommittedState p w) = qc_autoPushActive w"
    by (simp add: syncCommittedState_def refreshPendingState_def present_def Let_def)
  then show ?thesis by (simp add: sendVolumeResult_def Let_def split_beta commanded_client)
qed

lemma volume_send_path:
  "client_path (if bc_proxyClientConnected (qw_client w) \<or> qc_autoPushActive w \<and> owner \<noteq> QoAutoPush then {}
       else {(commandOwnerFor owner, volume_command volume muteVolume 0)})
     (qw_client w) (qw_client (snd (sendVolumeResult e p owner volume muteVolume w)))"
  using volume_send_client [of e p owner volume muteVolume w] volume_path [of w owner volume muteVolume 0 e]
  by (auto split: if_splits)


lemma cancel_after [intro]: "client_path S c d \<Longrightarrow> client_path S c (cancelCommand a owner d)"
  by (rule client_path_trans [OF _ cancel_path])

lemma cancel_box_client:
  "qw_client (cancelInTheBoxCommand a w) =
     (if qc_hasBle w then cancelCommand a OwnInTheBox (qw_client w) else qw_client w)"
  by (simp add: cancelInTheBoxCommand_def Let_def)

subsection \<open>The automatic mute\<close>

lemma mute_send_path_any:
  "client_path {(commandOwnerFor owner, mute_command muted)} (qw_client w)
     (qw_client (snd (sendMuteResult e p owner muted w)))"
  by (rule client_path_mono [OF mute_send_path]) simp

definition box_sends :: "bool \<Rightarrow> (command_owner \<times> u8 list) set" where
  "box_sends target = {(OwnInTheBox, mute_command target)}"

lemma box_attempt_path:
  "client_path (box_sends target) (qw_client w) (qw_client (box_attempt e p now inFlight target w))"
proof -
  define v where "v = (if \<not> inFlight
     then (w\<lparr>qc_boxAttempted := True, qc_boxLastAttemptMs := now\<rparr>)
            \<lparr>qc_boxCommandRevision := obs_revision (p_displayOnObs p)\<rparr>
     else w\<lparr>qc_boxAttempted := True, qc_boxLastAttemptMs := now\<rparr>)"
  define d where "d = qw_client (snd (sendMuteResult e p QoInTheBox target v))"
  have "qw_client v = qw_client w" by (simp add: v_def)
  then have "client_path (box_sends target) (qw_client w) d"
    using mute_send_path_any [of QoInTheBox target v e p] by (simp add: box_sends_def d_def)
  moreover have "qw_client (box_attempt e p now inFlight target w) \<in>
      {qw_client w, d, cancelCommand (se_answers e) OwnInTheBox d}"
    by (simp add: box_attempt_def Let_def split_beta cancel_box_client v_def [symmetric] d_def)
  ultimately show ?thesis by auto
qed

lemma box_attempt_from:
  "client_path S (qw_client w) (qw_client v) \<Longrightarrow> S \<subseteq> box_sends target \<Longrightarrow>
    client_path (box_sends target) (qw_client w) (qw_client (box_attempt e p now inFlight target v))"
  by (meson box_attempt_path client_path_mono client_path_trans)

lemma box_pursue_path:
  "client_path (box_sends target) (qw_client w) (qw_client (box_pursue e p now inFlight target w))"
proof -
  have cancel: "client_path {} (qw_client w) (qw_client (cancelInTheBoxCommand (se_answers e) w))" by simp
  show ?thesis
    by (auto simp: box_pursue_def Let_def cancel_box_client intro!: box_attempt_from [where S = "{}"])
qed

lemma box_act_path:
  "client_path (case box_target p d (if qc_boxRecoveryPending w \<and> \<not> ds_softMuted (p_displayState p) \<and>
       \<not> in_flight w OwnInTheBox then w\<lparr>qc_boxRecoveryPending := False\<rparr> else w) of
     None \<Rightarrow> {} | Some t \<Rightarrow> box_sends t)
   (qw_client w) (qw_client (box_act e p now d w))"
proof -
  define v where "v = (if qc_boxRecoveryPending w \<and> \<not> ds_softMuted (p_displayState p) \<and>
       \<not> in_flight w OwnInTheBox then w\<lparr>qc_boxRecoveryPending := False\<rparr> else w)"
  have v: "qw_client v = qw_client w" by (simp add: v_def)
  have "client_path (box_sends t) (qw_client w) (qw_client (box_pursue e p now i t (v\<lparr>qc_boxSuppressVoice := b\<rparr>)))"
    for t i b using box_pursue_path [of t "v\<lparr>qc_boxSuppressVoice := b\<rparr>" e p now i] v by simp
  then show ?thesis
    unfolding box_act_def Let_def v_def [symmetric]
    by (auto simp: cancel_box_client v split: option.split)
qed

text \<open>What the decision reads of the coordinator, and the mute it can justify.\<close>

definition box_view :: "quiet_world \<Rightarrow> bool \<times> itb_settings \<times> alert_input \<times> bool" where
  "box_view w = (qc_boxSuspended w, qc_boxSettings w, bc_alertInput (qw_client w), bc_proxyClientConnected (qw_client w))"

lemma cancel_view [simp]:
  "bc_alertInput (cancelCommand a owner c) = bc_alertInput c"
  "bc_proxyClientConnected (cancelCommand a owner c) = bc_proxyClientConnected c"
  by (simp_all add: cancelCommand_def beginClientQuiesce_def setBLEState_def Let_def)

lemma box_view_kept [simp]:
  "box_view (cancelInTheBoxCommand a w) = box_view w"
  "box_view (snd (box_new_lifetime a p w)) = box_view w"
  "box_view (box_confirm p w) = box_view w"
  "box_view (box_detector_unmuted b p w) = box_view w"
  "box_view (w\<lparr>qc_boxLifetime := l, qc_boxLifetimeKnown := k\<rparr>) = box_view w"
  by (simp_all add: box_view_def box_new_lifetime_def box_confirm_def box_detector_unmuted_def drop_box_owner_def
      present_def cancelInTheBoxCommand_def abandon_def Let_def)

definition outside_now :: "parser \<Rightarrow> itb_settings \<Rightarrow> bool" where
  "outside_now p s \<longleftrightarrow>
     id_allOutsideMuteEligible (fst (itb_process s (Some (p_alerts p)) (p_alertCount p) (hasDisplayLaserAlert p) itb_reset))"

lemma outside_any_history:
  "id_allOutsideMuteEligible (fst (itb_process s rows n laser box)) =
   id_allOutsideMuteEligible (fst (itb_process s rows n laser box'))"
  by (simp add: itb_process_def Let_def split_beta)

definition mute_justified :: "u32 \<Rightarrow> parser \<Rightarrow> quiet_world \<Rightarrow> bool" where
  "mute_justified now p w \<longleftrightarrow> box_input_fresh now p w \<and> outside_now p (qc_boxSettings w)"

lemma justified_view: "box_view w = box_view w' \<Longrightarrow> mute_justified now p w = mute_justified now p w'"
  by (simp add: box_view_def mute_justified_def box_input_fresh_def)

lemma decided_mute:
  assumes "box_target p (fst (box_decide now p w)) v = Some True"
  shows "mute_justified now p w"
proof -
  have out: "id_allOutsideMuteEligible (fst (box_decide now p w))"
    using assms by (auto simp: box_target_def Let_def split: if_splits)
  then have fresh: "box_input_fresh now p w" by (auto simp: box_decide_def no_decision_def split: if_splits)
  with out outside_any_history [of "qc_boxSettings w" "Some (p_alerts p)" "p_alertCount p" "hasDisplayLaserAlert p" "qc_box w" itb_reset]
  show ?thesis by (simp add: mute_justified_def outside_now_def box_decide_def Let_def split_beta)
qed

definition box_may_send :: "u32 \<Rightarrow> parser \<Rightarrow> quiet_world \<Rightarrow> (command_owner \<times> u8 list) set" where
  "box_may_send now p w = box_sends False \<union> (if mute_justified now p w then box_sends True else {})"

lemma box_session_path: "client_path (box_may_send now p w) (qw_client w) (qw_client (box_session e p now w))"
proof -
  obtain alive w1 where n: "box_new_lifetime (se_answers e) p w = (alive, w1)" by fastforce
  define w2 where "w2 = w1\<lparr>qc_boxLifetime := p_alertLifetime p, qc_boxLifetimeKnown := True\<rparr>"
  define w3 where "w3 = box_detector_unmuted (box_lifetime_changed p w) p (box_confirm p w2)"
  obtain d w4 where d: "box_decide now p w3 = (d, w4)" by fastforce
  have s: "box_session e p now w = (if \<not> alive then w1 else box_act e p now d w4)"
    by (simp add: box_session_def n Let_def w2_def [symmetric] w3_def [symmetric] d)
  have c1: "client_path S (qw_client w) (qw_client w1)" for S
    using box_lifetime_path [of S w "se_answers e" p] n by simp
  have c4: "qw_client w4 = qw_client w1"
  proof -
    have "qw_client (snd (box_decide now p w3)) = qw_client w3" by simp
    with d have "qw_client w4 = qw_client w3" by simp
    then show ?thesis by (simp add: w3_def w2_def)
  qed
  have v: "box_view w3 = box_view w"
    using box_view_kept(2) [of "se_answers e" p w] n by (simp add: w3_def w2_def)
  have "client_path (box_may_send now p w) (qw_client w4) (qw_client (box_act e p now d w4))"
  proof (rule client_path_mono [OF box_act_path])
    show "(case box_target p d (if qc_boxRecoveryPending w4 \<and> \<not> ds_softMuted (p_displayState p) \<and>
         \<not> in_flight w4 OwnInTheBox then w4\<lparr>qc_boxRecoveryPending := False\<rparr> else w4) of
       None \<Rightarrow> {} | Some t \<Rightarrow> box_sends t) \<subseteq> box_may_send now p w"
      using decided_mute [of p now w3] d justified_view [OF v, of now p]
      by (auto simp: box_may_send_def split: option.split) (metis (full_types) fst_conv)+
  qed
  with c1 c4 show ?thesis by (auto simp: s intro: client_path_trans)
qed

lemma processInTheBox_path:
  "client_path (if bc_proxyClientConnected (qw_client w) then {} else box_may_send now p w)
     (qw_client w) (qw_client (processInTheBox e p now w))"
proof -
  let ?w = "w\<lparr>qc_boxSuppressVoice := False\<rparr>"
  have m: "box_may_send now p ?w = box_may_send now p w"
    using justified_view [of ?w w] by (simp add: box_may_send_def box_view_def)
  show ?thesis
    using box_session_path [of now p ?w e] reset_box_path [of _ ?w "se_answers e"] box_yields_path [of _ ?w "se_answers e"]
    by (simp add: processInTheBox_def Let_def m)
qed

subsection \<open>The volumes\<close>

text \<open>The volume frames an owner may send outside a settings transaction without a phone.\<close>

definition volume_frames :: "quiet_owner \<Rightarrow> (command_owner \<times> u8 list) set" where
  "volume_frames owner = {(commandOwnerFor owner, volume_command v m x) |v m x. True}"

definition volume_free :: "quiet_world \<Rightarrow> bool" where
  "volume_free w \<longleftrightarrow> \<not> bc_proxyClientConnected (qw_client w) \<and> \<not> qc_autoPushActive w"

abbreviation may_send_volume :: "quiet_owner \<Rightarrow> quiet_world \<Rightarrow> (command_owner \<times> u8 list) set" where
  "may_send_volume owner w \<equiv> (if volume_free w then volume_frames owner else {})"

lemma volume_path_free:
  "owner \<noteq> QoAutoPush \<Longrightarrow>
     client_path (may_send_volume owner w) (qw_client w) (qw_client (snd (sendVolumeResult e p owner v m w)))"
  by (rule client_path_mono [OF volume_send_path]) (auto simp: volume_free_def volume_frames_def)

lemma sendVolume_client: "qw_client (snd (sendVolume e p owner v m w)) = qw_client (snd (sendVolumeResult e p owner v m w))"
  by (simp add: sendVolume_def split_beta)

text \<open>What the volume sends read of the coordinator; a reconciliation keeps it.\<close>

definition free_view :: "quiet_world \<Rightarrow> bool \<times> bool" where
  "free_view w = (bc_proxyClientConnected (qw_client w), qc_autoPushActive w)"

lemma free_view_volume: "free_view w = free_view w' \<Longrightarrow> volume_free w = volume_free w'"
  by (simp add: free_view_def volume_free_def)

lemma free_small [simp]:
  "free_view (abandon a owner w) = free_view w"
  "free_view (desire f w) = free_view w" "free_view (present g w) = free_view w"
  "free_view (syncCommittedState p w) = free_view w"
  by (simp_all add: free_view_def abandon_def desire_def present_def syncCommittedState_def refreshPendingState_def Let_def)

lemma free_view_fields [simp]:
  "free_view (w\<lparr>qc_restoreVol := x1, qc_restoreSent := x3, qc_hintInvalidated := x4\<rparr>) = free_view w"
  "free_view (w\<lparr>qc_restoreObsSession := g1, qc_restoreObsIngress := g2, qc_restoreWriteRevision := g3\<rparr>) = free_view w"
  "free_view (w\<lparr>qc_restoreLastRetryMs := t\<rparr>) = free_view w"
  by (simp_all add: free_view_def)

lemma free_retire [simp]: "free_view (retire_restore a b1 b2 w) = free_view w"
  by (simp add: retire_restore_def Let_def)

lemma free_reconcile [simp]: "free_view (reconcilePendingSpeedRestore a p allow w) = free_view w"
  by (simp add: reconcilePendingSpeedRestore_def Let_def split: option.split)

lemma send_restore_client:
  "qw_client (send_restore e p v m w) = qw_client (snd (sendVolumeResult e p QoSpeedVolume v m w))"
  by (simp add: send_restore_def Let_def split_beta sendVolume_client)

lemma retry_path:
  "client_path (may_send_volume QoSpeedVolume w) (qw_client w) (qw_client (snd (retryPendingSpeedVolRestore e p now w)))"
proof -
  define v where "v = reconcilePendingSpeedRestore (se_answers e) p True (syncCommittedState p w)"
  have c: "client_path S (qw_client w) (qw_client v)" for S
    using reconcile_path [of S "syncCommittedState p w"] by (simp add: v_def)
  have f: "volume_free (v\<lparr>qc_restoreLastRetryMs := now\<rparr>) = volume_free w"
    by (rule free_view_volume) (simp add: v_def)
  define S where "S = may_send_volume QoSpeedVolume w"
  have "client_path S (qw_client v)
      (qw_client (send_restore e p (qc_restoreVol v) (qc_restoreMuteVol v) (v\<lparr>qc_restoreLastRetryMs := now\<rparr>)))"
    using volume_path_free [of QoSpeedVolume "v\<lparr>qc_restoreLastRetryMs := now\<rparr>"] f
    by (simp add: send_restore_client S_def)
  with client_path_trans [OF c] have "client_path S (qw_client w)
      (qw_client (send_restore e p (qc_restoreVol v) (qc_restoreMuteVol v) (v\<lparr>qc_restoreLastRetryMs := now\<rparr>)))" .
  then show ?thesis
    using c by (simp add: retryPendingSpeedVolRestore_def Let_def v_def [symmetric] S_def [symmetric])
qed

lemma autopush_path:
  "client_path (if bc_proxyClientConnected (qw_client w) then {} else volume_frames QoAutoPush)
     (qw_client w) (qw_client (snd (sendAutoPushVolumeResult e p v m x w)))"
proof -
  have any: "client_path (if bc_proxyClientConnected (qw_client u) then {} else volume_frames QoAutoPush)
      (qw_client u) (qw_client (snd (commanded QoAutoPush (setVolumeResult e v' m x) u)))" for v' u
    by (rule client_path_mono [OF volume_path]) (auto simp: volume_frames_def)
  define s where "s = syncCommittedState p w"
  define v' where "v' = (if \<not> qc_speedActive s then v else if qd_volume (qc_desired s) \<le> 9
    then qd_volume (qc_desired s) else qm_mainVolume (qc_committed s))"
  define d where "d = snd (commanded QoAutoPush (setVolumeResult e v' m x) s)"
  have cs: "qw_client s = qw_client w" by (simp add: s_def)
  with any [of s v'] have "client_path (if bc_proxyClientConnected (qw_client w) then {} else volume_frames QoAutoPush)
      (qw_client w) (qw_client d)" by (simp add: d_def)
  moreover have "client_path S (qw_client d)
      (qw_client (setPendingSpeedRestore (se_answers e) v m d))" for S by simp
  moreover have "qw_client (snd (sendAutoPushVolumeResult e p v m x w)) \<in>
      {qw_client w, qw_client d, qw_client (setPendingSpeedRestore (se_answers e) v m d)}"
  proof (cases "v > 9 \<or> m > 9 \<or> \<not> qc_hasBle s")
    case True
    then show ?thesis by (auto simp: sendAutoPushVolumeResult_def Let_def s_def [symmetric] cs)
  next
    case False
    then show ?thesis
      by (cases "qc_speedActive s")
        (simp_all add: sendAutoPushVolumeResult_def Let_def split_beta s_def [symmetric] d_def v'_def)
  qed
  ultimately show ?thesis by (auto intro: client_path_trans)
qed

subsection \<open>The periodic passes\<close>

text \<open>Inside a pass every volume frame is the pass's own owner's.\<close>

lemma volume_path_own:
  "client_path (volume_frames owner) (qw_client w) (qw_client (snd (sendVolumeResult e p owner v m w)))"
  by (rule client_path_mono [OF volume_send_path]) (auto simp: volume_frames_def)

lemma retry_path_own:
  "client_path (volume_frames QoSpeedVolume) (qw_client w) (qw_client (snd (retryPendingSpeedVolRestore e p now w)))"
  by (rule client_path_mono [OF retry_path]) simp

lemma start_override_path [simp]: "client_path S (qw_client w) (qw_client (start_speed_override a p now w))"
  by (simp add: start_speed_override_def Let_def)

lemma carry_baseline_path [simp]: "client_path S (qw_client w) (qw_client (carry_fade_baseline a p now w))"
proof (cases "qw_fade w")
  case (Some v)
  define w1 where "w1 = snd (consumeFadeAlertEnd p w)"
  define w2 where "w2 = (abandon a OwnVolumeFade (w1\<lparr>qw_fade := Some (snd (releaseClearedAlert v))\<rparr>))
      \<lparr>qc_fadePending := False, qc_fadeWriteRevision := 0\<rparr>"
  have c1: "qw_client w1 = qw_client w" by (simp add: w1_def)
  then have c2: "client_path S (qw_client w) (qw_client w2)" by (simp add: w2_def)
  have "client_path S (qw_client w) (qw_client (setPendingSpeedRestore a volume muteVolume w2))" for volume muteVolume
    by (rule client_path_trans [OF c2 pending_restore_path])
  with c1 c2 show ?thesis
    by (simp add: carry_fade_baseline_def Some Let_def split_beta w1_def [symmetric] w2_def [symmetric]
        split: fade_action.split)
qed (simp add: carry_fade_baseline_def)

lemma end_override_path:
  "client_path (volume_frames QoSpeedVolume) (qw_client w) (qw_client (snd (end_speed_override e p now sm w)))"
proof -
  let ?S = "volume_frames QoSpeedVolume"
  define w1 where "w1 = setPendingSpeedRestore (se_answers e) (qc_savedOriginal w) (qc_savedMuteVol w) w"
  define w2 where "w2 = send_restore e p (qc_savedOriginal w1) (qc_savedMuteVol w1) w1"
  define w3 where "w3 = updateSpeedVolPresentation sm ((with_fade (setBaselineHint (qc_savedOriginal w2) (qc_savedMuteVol w2) now) w2)
      \<lparr>qc_restoreLastRetryMs := now, qc_speedActive := False, qc_savedOriginal := 0xFF\<rparr>)"
  have "client_path ?S (qw_client w) (qw_client w1)" by (simp add: w1_def)
  moreover have "client_path ?S (qw_client w1) (qw_client w2)"
    unfolding w2_def send_restore_client by (rule volume_path_own)
  moreover have "qw_client w3 = qw_client w2" by (simp add: w3_def)
  moreover have "client_path ?S (qw_client w3) (qw_client (snd (retryPendingSpeedVolRestore e p now w3)))"
    by (rule retry_path_own)
  ultimately have "client_path ?S (qw_client w) (qw_client (snd (retryPendingSpeedVolRestore e p now w3)))"
    by (metis client_path_trans)
  moreover have "end_speed_override e p now sm w = retryPendingSpeedVolRestore e p now w3"
    by (simp add: end_speed_override_def Let_def w1_def [symmetric] w2_def [symmetric] w3_def)
  ultimately show ?thesis by simp
qed

lemma hold_override_path:
  "client_path (volume_frames QoSpeedVolume) (qw_client w) (qw_client (hold_speed_override e p now sm w))"
  using volume_path_own [of QoSpeedVolume "w\<lparr>qc_speedLastRetryMs := now\<rparr>" e p]
  by (simp add: hold_speed_override_def Let_def sendVolume_client)

lemma speed_pass_path:
  "client_path (volume_frames QoSpeedVolume) (qw_client w) (qw_client (snd (speed_pass e p now sm w)))"
proof -
  let ?S = "volume_frames QoSpeedVolume"
  define starting where "starting \<longleftrightarrow> smt_muteActive (smm_state sm) \<and> \<not> qc_speedActive w"
  define w1 where "w1 = carry_fade_baseline (se_answers e) p now
    (if starting then start_speed_override (se_answers e) p now w else w)"
  have c: "client_path ?S (qw_client w) (qw_client w1)"
    unfolding w1_def by (rule client_path_trans [OF _ carry_baseline_path]) simp
  define w2 where "w2 = updateSpeedVolPresentation sm
    (snd (sendVolume e p QoSpeedVolume (sms_v1Volume (smm_settings sm)) (qc_savedMuteVol w1) w1))"
  have "client_path ?S (qw_client w1) (qw_client w2)"
    using volume_path_own [of QoSpeedVolume w1 e p] by (simp add: w2_def sendVolume_client)
  moreover have "client_path ?S (qw_client w1) (qw_client (snd (end_speed_override e p now sm w1)))"
    by (rule end_override_path)
  moreover have "client_path ?S (qw_client w1) (qw_client (hold_speed_override e p now sm w1))"
    by (rule hold_override_path)
  moreover have "client_path ?S (qw_client w1)
      (qw_client (snd (retryPendingSpeedVolRestore e p now (updateSpeedVolPresentation sm w1))))"
    using retry_path_own [of "updateSpeedVolPresentation sm w1" e p now] by simp
  moreover have "speed_pass e p now sm w =
     (if starting \<and> \<not> ds_hasVolumeData (p_displayState p) then (False, updateSpeedVolPresentation sm w)
      else if starting then (True, w2)
      else if \<not> smt_muteActive (smm_state sm) \<and> qc_speedActive w1 then end_speed_override e p now sm w1
      else if qc_speedActive w1 then (True, hold_speed_override e p now sm w1)
      else retryPendingSpeedVolRestore e p now (updateSpeedVolPresentation sm w1))"
    unfolding speed_pass_def Let_def starting_def w1_def w2_def by (rule refl)
  ultimately show ?thesis using client_path_trans [OF c] by simp
qed

lemma sync_volume_flag [simp]: "qc_autoPushActive (syncCommittedState p w) = qc_autoPushActive w"
  by (simp add: syncCommittedState_def refreshPendingState_def present_def Let_def)

lemma no_phone: "\<not> fst (syncProxyVolumeOwnership a w) \<Longrightarrow> snd (syncProxyVolumeOwnership a w) = w"
  by (auto simp: syncProxyVolumeOwnership_def)

lemma processSpeedVolume_path:
  "client_path (may_send_volume QoSpeedVolume w) (qw_client w) (qw_client (snd (processSpeedVolume e p now sm w)))"
proof (cases "fst (syncProxyVolumeOwnership (se_answers e) w)")
  case True
  then show ?thesis by (simp add: processSpeedVolume_def Let_def split_beta)
next
  case phone: False
  then have same: "snd (syncProxyVolumeOwnership (se_answers e) w) = w" by (rule no_phone)
  define v where "v = syncCommittedState p w"
  have c: "qw_client v = qw_client w" "qc_autoPushActive v = qc_autoPushActive w" by (simp_all add: v_def)
  show ?thesis
  proof (cases "\<not> qc_hasBle v \<or> \<not> qc_hasParser v \<or> qc_autoPushActive v")
    case True
    then show ?thesis using phone same c
      by (auto simp: processSpeedVolume_def Let_def split_beta v_def [symmetric])
  next
    case False
    have "qc_hasBle v = qc_hasBle w"
      by (simp add: v_def syncCommittedState_def refreshPendingState_def present_def Let_def)
    with False phone c have free: "volume_free w"
      by (auto simp: volume_free_def syncProxyVolumeOwnership_def split: if_splits)
    define u where "u = drop_stale_hint now (reconcilePendingSpeedRestore (se_answers e) p False v)"
    have "client_path (volume_frames QoSpeedVolume) (qw_client w) (qw_client u)"
      using reconcile_path [of _ v "se_answers e" p False] c by (simp add: u_def)
    then have "client_path (volume_frames QoSpeedVolume) (qw_client w) (qw_client (snd (speed_pass e p now sm u)))"
      by (rule client_path_trans [OF _ speed_pass_path])
    moreover have "processSpeedVolume e p now sm w = speed_pass e p now sm u"
      using False phone same c(2) by (simp add: processSpeedVolume_def Let_def split_beta v_def [symmetric] u_def)
    ultimately show ?thesis using free by simp
  qed
qed

lemma fade_steps_path [simp]:
  "client_path S (qw_client w) (qw_client (drop_stale_fade a ctx w))"
  "client_path S (qw_client w) (qw_client (mirror_fade a w))"
  by (simp_all add: drop_stale_fade_def mirror_fade_def Let_def)

lemma deliver_action_path:
  "client_path (volume_frames QoVolumeFade) (qw_client w) (qw_client (snd (deliver_fade_action e p now action w)))"
proof -
  have r: "client_path (volume_frames QoVolumeFade) (qw_client w) (qw_client (deliver_restore e p v m w))" for v m
    using volume_path_own [of QoVolumeFade "w\<lparr>qc_fadePending := False, qc_fadeWriteRevision := 0\<rparr>" e p v m]
    by (simp add: deliver_restore_def Let_def split_beta)
  have d: "client_path (volume_frames QoVolumeFade) (qw_client w) (qw_client (snd (deliver_fade e p now new w)))" for new
    using volume_path_own [of QoVolumeFade "w\<lparr>qc_fadeLastAttemptMs := now\<rparr>" e p "qc_fadeVolume w" "qc_fadeMuteVolume w"]
    by (simp add: deliver_fade_def Let_def split_beta)
  show ?thesis by (simp add: deliver_fade_action_def r d split: fade_action.split)
qed

lemma fade_pass_path:
  "client_path (volume_frames QoVolumeFade) (qw_client w) (qw_client (snd (fade_pass e settings p now v w)))"
proof -
  let ?S = "volume_frames QoVolumeFade" and ?a = "se_answers e"
  define w1 where "w1 = snd (consumeFadeAlertEnd p w)"
  define ctx where "ctx = fade_context_now p now (fst (consumeFadeAlertEnd p w)) w1"
  define w2 where "w2 = w1\<lparr>qc_fadeAuthorityRevision := volumeWriteRevision w1, qc_fadeAuthoritySession := sessionGeneration w1\<rparr>"
  define w3 where "w3 = watch_fade_write ctx (drop_stale_fade ?a ctx w2)"
  define w4 where "w4 = mirror_fade ?a (w3\<lparr>qw_fade := Some (snd (fade_process settings ctx v))\<rparr>)"
  define action where "action = fst (fade_process settings ctx v)"
  have "client_path ?S (qw_client w) (qw_client w3)"
    using fade_steps_path(1) [of ?S w2 ?a ctx] by (simp add: w3_def w2_def w1_def)
  also have "client_path ?S (qw_client w3) (qw_client w4)"
    using fade_steps_path(2) [of ?S "w3\<lparr>qw_fade := Some (snd (fade_process settings ctx v))\<rparr>" ?a] by (simp add: w4_def)
  finally have c: "client_path ?S (qw_client w) (qw_client w4)" .
  have "fade_pass e settings p now v w = deliver_fade_action e p now action (adopt_fade ctx action w4)"
    by (simp add: fade_pass_def Let_def split_beta action_def w4_def w3_def w2_def ctx_def w1_def)
  with client_path_trans [OF c] deliver_action_path [of "adopt_fade ctx action w4" e p now action]
  show ?thesis by simp
qed

lemma executeVolumeFade_path:
  "client_path (may_send_volume QoVolumeFade w) (qw_client w) (qw_client (snd (executeVolumeFade e settings p now w)))"
proof (cases "fst (syncProxyVolumeOwnership (se_answers e) w)")
  case True
  then show ?thesis by (simp add: executeVolumeFade_def Let_def split_beta)
next
  case phone: False
  then have same: "snd (syncProxyVolumeOwnership (se_answers e) w) = w" by (rule no_phone)
  define v where "v = syncCommittedState p w"
  have c: "qw_client v = qw_client w" "qc_autoPushActive v = qc_autoPushActive w" "qc_hasBle v = qc_hasBle w"
    by (simp_all add: v_def) (simp add: syncCommittedState_def refreshPendingState_def present_def Let_def)
  have pass: "client_path (volume_frames QoVolumeFade) (qw_client w) (qw_client (snd (fade_pass e settings p now f v)))" for f
    using fade_pass_path [of v e settings p now f] c by simp
  have "volume_free w" if "qc_hasBle v" "\<not> qc_autoPushActive v"
    using that phone c by (auto simp: volume_free_def syncProxyVolumeOwnership_def split: if_splits)
  with pass c show ?thesis using phone same
    by (auto simp: executeVolumeFade_def Let_def split_beta v_def [symmetric] split: option.split)
qed

section \<open>The calls\<close>

datatype quiet_call =
    QcBegin stack_answers bool bool parser
  | QcReset stack_answers parser
  | QcSync parser
  | QcMute send_environment parser quiet_owner bool
  | QcVolume send_environment parser quiet_owner u8 u8
  | QcAutoPushVolume send_environment parser u8 u8 u8
  | QcBeginTransaction
  | QcEndTransaction
  | QcDetector stack_answers "string option"
  | QcProxy stack_answers
  | QcBoxSettings stack_answers itb_settings u32
  | QcBoxSuspend bool
  | QcBox send_environment parser u32
  | QcSpeed send_environment parser u32 speed_mute_module
  | QcRetry send_environment parser u32
  | QcFade send_environment "fade_settings option" parser u32
  | QcVoice parser "speed_mute_module option" bool

fun quiet_do :: "quiet_world \<Rightarrow> quiet_call \<Rightarrow> quiet_world" where
  "quiet_do w (QcBegin a hasBle hasParser p) = quiet_begin a hasBle hasParser p w"
| "quiet_do w (QcReset a p) = quiet_reset a p w"
| "quiet_do w (QcSync p) = snd (getCommittedState p w)"
| "quiet_do w (QcMute e p owner muted) = snd (sendMuteResult e p owner muted w)"
| "quiet_do w (QcVolume e p owner volume muteVolume) = snd (sendVolumeResult e p owner volume muteVolume w)"
| "quiet_do w (QcAutoPushVolume e p volume muteVolume aux0) = snd (sendAutoPushVolumeResult e p volume muteVolume aux0 w)"
| "quiet_do w QcBeginTransaction = snd (beginAutoPushVolumeTransaction w)"
| "quiet_do w QcEndTransaction = endAutoPushVolumeTransaction w"
| "quiet_do w (QcDetector a address) = beginDetectorVolumeSession a address w"
| "quiet_do w (QcProxy a) = snd (syncProxyVolumeOwnership a w)"
| "quiet_do w (QcBoxSettings a settings session) = setInTheBoxSettings a settings session w"
| "quiet_do w (QcBoxSuspend suspended) = setInTheBoxSuspended suspended w"
| "quiet_do w (QcBox e p now) = processInTheBox e p now w"
| "quiet_do w (QcSpeed e p now sm) = snd (processSpeedVolume e p now sm w)"
| "quiet_do w (QcRetry e p now) = snd (retryPendingSpeedVolRestore e p now w)"
| "quiet_do w (QcFade e settings p now) = snd (executeVolumeFade e settings p now w)"
| "quiet_do w (QcVoice p sm hasPriority) = snd (applyVoicePresentation p sm hasPriority w)"

text \<open>What a call may send, in the state it meets.\<close>

fun call_sends :: "quiet_world \<Rightarrow> quiet_call \<Rightarrow> (command_owner \<times> u8 list) set" where
  "call_sends w (QcMute e p owner muted) =
     (if bc_proxyClientConnected (qw_client w) then {} else {(commandOwnerFor owner, mute_command muted)})"
| "call_sends w (QcVolume e p owner volume muteVolume) =
     (if bc_proxyClientConnected (qw_client w) \<or> qc_autoPushActive w \<and> owner \<noteq> QoAutoPush then {}
      else {(commandOwnerFor owner, volume_command volume muteVolume 0)})"
| "call_sends w (QcAutoPushVolume e p volume muteVolume aux0) =
     (if bc_proxyClientConnected (qw_client w) then {} else volume_frames QoAutoPush)"
| "call_sends w (QcBox e p now) = (if bc_proxyClientConnected (qw_client w) then {} else box_may_send now p w)"
| "call_sends w (QcSpeed e p now sm) = may_send_volume QoSpeedVolume w"
| "call_sends w (QcRetry e p now) = may_send_volume QoSpeedVolume w"
| "call_sends w (QcFade e settings p now) = may_send_volume QoVolumeFade w"
| "call_sends w _ = {}"

lemma quiet_reset_path: "client_path S (qw_client w) (qw_client (quiet_reset a p w))"
proof -
  let ?w = "w\<lparr>qc_boxMuteInFlight := False, qc_boxRecoveryPending := False, qc_desired := no_desire,
    qc_committed := nothing_committed, qc_presentation := nothing_presented\<rparr>"
  have "client_path S (qw_client w) (qw_client (quiet_resetVolumeState a ?w))"
    using reset_volume_path [of S ?w a] by simp
  also have "client_path S \<dots> (qw_client (resetInTheBoxSession a (quiet_resetVolumeState a ?w)))" by simp
  finally show ?thesis by (simp add: quiet_reset_def Let_def)
qed

lemma voice_client [simp]: "qw_client (snd (applyVoicePresentation p sm b w)) = qw_client w"
  by (simp add: applyVoicePresentation_def Let_def)

lemma call_path: "client_path (call_sends w call) (qw_client w) (qw_client (quiet_do w call))"
proof (cases call)
  case (QcBegin a hasBle hasParser p)
  then show ?thesis
    using quiet_reset_path [of "{}" "w\<lparr>qc_hasBle := hasBle, qc_hasParser := hasParser, qc_detector := []\<rparr>" a p]
    by (simp add: quiet_begin_def)
next
  case (QcMute e p owner muted)
  then show ?thesis using mute_send_path by simp
next
  case (QcVolume e p owner volume muteVolume)
  then show ?thesis using volume_send_path by simp
next
  case (QcAutoPushVolume e p volume muteVolume aux0)
  then show ?thesis using autopush_path by simp
next
  case (QcBox e p now)
  then show ?thesis using processInTheBox_path by simp
next
  case (QcSpeed e p now sm)
  then show ?thesis using processSpeedVolume_path by simp
next
  case (QcRetry e p now)
  then show ?thesis using retry_path by simp
next
  case (QcFade e settings p now)
  then show ?thesis using executeVolumeFade_path by simp
qed (simp_all add: quiet_reset_path getCommittedState_def Let_def)

end
