(* ===== verification/V1_Quiet_Properties.thy ===== *)
theory V1_Quiet_Properties
  imports V1_Quiet_Machine V1_Client_Examples
begin

text \<open>
  What the quiet coordinator promises in every history of its calls and the client's own steps:
  what may reach the detector, that a settings transaction has the volume to itself, and that an
  interrupted automatic mute stays owed until it is known to be undone.
\<close>

section \<open>Histories\<close>

type_synonym quiet_event = "client_event + quiet_call"

fun quiet_step :: "quiet_world \<Rightarrow> quiet_event \<Rightarrow> quiet_world" where
  "quiet_step w (Inl e) = w\<lparr>qw_client := client_step (qw_client w) e\<rparr>"
| "quiet_step w (Inr call) = quiet_do w call"

section \<open>The two flags\<close>

text \<open>
  Only the transaction's own calls and the resets touch its flag, and only the mute commands and
  the passes of the automatic mute touch the recovery it may owe.
\<close>

abbreviation flags_kept :: "quiet_world \<Rightarrow> quiet_world \<Rightarrow> bool" where
  "flags_kept v w \<equiv> qc_autoPushActive v = qc_autoPushActive w \<and> qc_boxRecoveryPending v = qc_boxRecoveryPending w"

lemma flags_small [simp]:
  "flags_kept (abandon a owner w) w"
  "flags_kept (desire f w) w" "flags_kept (present g w) w"
  "flags_kept (with_fade h w) w"
  "flags_kept (drop_box_owner w) w"
  "flags_kept (snd (consumeFadeAlertEnd p w)) w"
  "flags_kept (updateSpeedVolPresentation sm w) w"
  "flags_kept (noteSpeedRestoreSent session ingress w) w"
  "flags_kept (adopt_fade ctx action w) w"
  "flags_kept (watch_fade_write ctx w) w"
  "flags_kept (drop_stale_hint now w) w"
  "flags_kept (snd (commanded q command w)) w"
  by (simp_all add: abandon_def desire_def present_def with_fade_def drop_box_owner_def consumeFadeAlertEnd_def
      updateSpeedVolPresentation_def noteSpeedRestoreSent_def adopt_fade_def watch_fade_write_def drop_stale_hint_def
      commanded_def Let_def split_beta split: fade_action.split)

lemma recovery_small [simp]:
  "qc_boxRecoveryPending (syncCommittedState p w) = qc_boxRecoveryPending w"
  "qc_boxRecoveryPending (quiet_resetVolumeState a w) = qc_boxRecoveryPending w"
  by (simp_all add: syncCommittedState_def refreshPendingState_def quiet_resetVolumeState_def desire_def present_def
      abandon_def Let_def)

lemma flags_sends [simp]:
  "flags_kept (snd (sendVolumeResult e p owner v m w)) w"
  "flags_kept (snd (sendVolume e p owner v m w)) w"
  "flags_kept (send_restore e p v m w) w"
  by (simp_all add: sendVolumeResult_def sendVolume_def send_restore_def Let_def split_beta)

lemma flags_volume [simp]:
  "flags_kept (setPendingSpeedRestore a v m w) w"
  "flags_kept (retire_restore a b1 b2 w) w"
  by (simp_all add: setPendingSpeedRestore_def retire_restore_def Let_def)

lemma flags_reconcile [simp]: "flags_kept (reconcilePendingSpeedRestore a p allow w) w"
  by (simp add: reconcilePendingSpeedRestore_def Let_def split: option.split)

lemma flags_retry [simp]: "flags_kept (snd (retryPendingSpeedVolRestore e p now w)) w"
  by (simp add: retryPendingSpeedVolRestore_def Let_def)

lemma flags_autopush [simp]: "flags_kept (snd (sendAutoPushVolumeResult e p v m x w)) w"
  by (simp add: sendAutoPushVolumeResult_def Let_def split_beta)

lemma flags_speed [simp]:
  "flags_kept (start_speed_override a p now w) w"
  "flags_kept (carry_fade_baseline a p now w) w"
  "flags_kept (snd (end_speed_override e p now sm w)) w"
  "flags_kept (hold_speed_override e p now sm w) w"
  by (simp_all add: start_speed_override_def carry_fade_baseline_def end_speed_override_def hold_speed_override_def
      Let_def split_beta split: option.split fade_action.split)

lemma flags_speed_pass [simp]: "flags_kept (snd (speed_pass e p now sm w)) w"
  by (simp add: speed_pass_def Let_def)

lemma flags_fade [simp]:
  "flags_kept (drop_stale_fade a ctx w) w"
  "flags_kept (mirror_fade a w) w"
  "flags_kept (snd (deliver_fade e p now new w)) w"
  "flags_kept (deliver_restore e p v m w) w"
  by (simp_all add: drop_stale_fade_def mirror_fade_def deliver_fade_def deliver_restore_def Let_def split_beta)

lemma flags_fade_pass [simp]: "flags_kept (snd (fade_pass e settings p now v w)) w"
  by (simp add: fade_pass_def deliver_fade_action_def Let_def split_beta split: fade_action.split)

lemma autopush_mute [simp]: "qc_autoPushActive (snd (sendMuteResult e p owner muted w)) = qc_autoPushActive w"
  by (simp add: sendMuteResult_def Let_def split_beta)

section \<open>The settings transaction\<close>

text \<open>
  The lease: while a transaction holds it there is no low-speed override and no restoration that
  one owes, no volume of the fade waits for its delivery, and the fade does not hold the volume.
\<close>

abbreviation fade_holds :: "quiet_world \<Rightarrow> bool" where
  "fade_holds w \<equiv> qs_activeVolumeOwner (qc_presentation w) = QoVolumeFade"

definition lease_part :: "quiet_world \<Rightarrow> bool \<times> bool \<times> u8 \<times> bool \<times> bool" where
  "lease_part w = (qc_autoPushActive w, qc_speedActive w, qc_restoreVol w, qc_fadePending w, fade_holds w)"

definition lease_inv :: "quiet_world \<Rightarrow> bool" where
  "lease_inv w \<longleftrightarrow> (qc_autoPushActive w \<longrightarrow> \<not> qc_speedActive w \<and> qc_restoreVol w = 0xFF \<and> \<not> qc_fadePending w \<and> \<not> fade_holds w)"

lemma lease_inv_part: "lease_part w = lease_part w' \<Longrightarrow> lease_inv w = lease_inv w'"
  by (simp add: lease_part_def lease_inv_def)

lemma lease_part_small [simp]:
  "lease_part (abandon a owner w) = lease_part w" "lease_part (desire f w) = lease_part w"
  "(\<And>s. qs_activeVolumeOwner (g s) = qs_activeVolumeOwner s) \<Longrightarrow> lease_part (present g w) = lease_part w"
  "lease_part (with_fade h w) = lease_part w"
  "lease_part (syncCommittedState p w) = lease_part w" "lease_part (drop_box_owner w) = lease_part w"
  "lease_part (snd (commanded q command w)) = lease_part w"
  "lease_part (cancelInTheBoxCommand a w) = lease_part w"
  "lease_part (w\<lparr>qw_client := c\<rparr>) = lease_part w"
  by (simp_all add: lease_part_def abandon_def desire_def present_def with_fade_def syncCommittedState_def
      refreshPendingState_def drop_box_owner_def commanded_def cancelInTheBoxCommand_def Let_def split_beta)

lemma lease_part_mute [simp]: "lease_part (snd (sendMuteResult e p owner muted w)) = lease_part w"
proof -
  have "lease_part (w\<lparr>qc_boxMuteInFlight := b1, qc_boxRecoveryPending := b2\<rparr>) = lease_part w" for w b1 b2
    by (simp add: lease_part_def)
  moreover have "lease_part (w\<lparr>qc_boxOwnsMute := b1, qc_boxMuteConfirmed := b2, qc_boxManualOverride := b3,
      qc_boxInsidePending := b4, qc_boxCommandPending := b5, qc_boxAttempted := b6, qc_boxSuppressVoice := b7\<rparr>) = lease_part w"
    for w b1 b2 b3 b4 b5 b6 b7 by (simp add: lease_part_def)
  ultimately show "lease_part (snd (sendMuteResult e p owner muted w)) = lease_part w"
    by (simp add: sendMuteResult_def Let_def split_beta)
qed

text \<open>Under a transaction the only volume is the transaction's own, and it takes the volume over.\<close>

lemma lease_taken: "lease_part (desire f w) = lease_part w"
  "fade_holds (present (qs_activeVolumeOwner_update (\<lambda>_. owner)) w) \<longleftrightarrow> owner = QoVolumeFade"
  "lease_part (present (qs_activeVolumeOwner_update (\<lambda>_. owner)) w) =
     (qc_autoPushActive w, qc_speedActive w, qc_restoreVol w, qc_fadePending w, owner = QoVolumeFade)"
  by (simp_all add: lease_part_def present_def desire_def)

lemma lease_inv_small [simp]:
  "lease_inv (desire f w) = lease_inv w" "lease_inv (snd (commanded q command w)) = lease_inv w"
  "lease_inv (syncCommittedState p w) = lease_inv w"
  by (rule lease_inv_part, simp)+

lemma lease_take: "lease_inv w \<Longrightarrow> lease_inv (present (qs_activeVolumeOwner_update (\<lambda>_. QoAutoPush)) w)"
  by (simp add: lease_inv_def lease_taken) (simp add: present_def)

lemma lease_volume_inv: "lease_inv w \<Longrightarrow> lease_inv (snd (sendVolumeResult e p owner v m w))"
proof (cases "qc_autoPushActive w")
  case True
  assume "lease_inv w"
  moreover have "qc_autoPushActive (syncCommittedState p w)" using True by simp
  ultimately show ?thesis by (simp add: sendVolumeResult_def Let_def split_beta lease_take)
qed (simp add: lease_inv_def)

lemma lease_retry_inv: "lease_inv w \<Longrightarrow> lease_inv (snd (retryPendingSpeedVolRestore e p now w))"
proof (cases "qc_autoPushActive w")
  case True
  assume inv: "lease_inv w"
  define v where "v = syncCommittedState p w"
  have v: "lease_part v = lease_part w" by (simp add: v_def)
  with inv True have "reconcilePendingSpeedRestore (se_answers e) p True v = v" "qc_restoreVol v = 0xFF"
    by (simp_all add: lease_part_def lease_inv_def reconcilePendingSpeedRestore_def)
  then have "snd (retryPendingSpeedVolRestore e p now w) = v"
    by (simp add: retryPendingSpeedVolRestore_def Let_def v_def [symmetric])
  with lease_inv_part [OF v] inv show ?thesis by simp
qed (simp add: lease_inv_def)

lemma lease_autopush_inv: "lease_inv w \<Longrightarrow> lease_inv (snd (sendAutoPushVolumeResult e p v m x w))"
proof (cases "qc_autoPushActive w")
  case True
  assume inv: "lease_inv w"
  define s where "s = syncCommittedState p w"
  have s: "lease_part s = lease_part w" by (simp add: s_def)
  define c where "c = commanded QoAutoPush (setVolumeResult e v m x) s"
  have c: "lease_part (snd c) = lease_part w" by (simp add: c_def s)
  have "\<not> qc_speedActive s" "qc_restoreVol (snd c) = 0xFF" using inv True s c by (simp_all add: lease_part_def lease_inv_def)
  moreover have "lease_inv s" "lease_inv (snd c)" using inv lease_inv_part s c by blast+
  ultimately show ?thesis using inv
    by (simp add: sendAutoPushVolumeResult_def Let_def split_beta s_def [symmetric] c_def [symmetric] lease_take)
qed (simp add: lease_inv_def)

text \<open>The two periodic passes end before they act.\<close>

lemma lease_reset [simp]: "lease_inv (quiet_resetVolumeState a w)"
  by (simp add: lease_inv_def quiet_resetVolumeState_def Let_def)

lemma lease_proxy: "lease_inv w \<Longrightarrow> lease_inv (snd (syncProxyVolumeOwnership a w))"
proof -
  have "lease_inv (with_fade fade_reset (quiet_resetVolumeState a w))"
    using lease_inv_part [of "with_fade fade_reset (quiet_resetVolumeState a w)" "quiet_resetVolumeState a w"] by simp
  then show "lease_inv w \<Longrightarrow> ?thesis" by (simp add: syncProxyVolumeOwnership_def)
qed

lemma lease_sync: "lease_inv w \<Longrightarrow> lease_inv (syncCommittedState p w)"
  using lease_inv_part [of "syncCommittedState p w" w] by simp

lemma not_leased: "\<not> qc_autoPushActive w \<Longrightarrow> lease_inv w"
  by (simp add: lease_inv_def)

lemma lease_speed_inv:
  assumes "lease_inv w"
  shows "lease_inv (snd (processSpeedVolume e p now sm w))"
proof -
  define w1 where "w1 = snd (syncProxyVolumeOwnership (se_answers e) w)"
  define w2 where "w2 = syncCommittedState p w1"
  have "lease_inv w1" "lease_inv w2" using assms by (simp_all add: w1_def w2_def lease_proxy lease_sync)
  moreover have "lease_inv (snd (speed_pass e p now sm (drop_stale_hint now (reconcilePendingSpeedRestore (se_answers e) p False w2))))"
    if "\<not> qc_autoPushActive w2"
    using that by (intro not_leased) simp
  ultimately show ?thesis
    by (simp add: processSpeedVolume_def Let_def split_beta w1_def [symmetric] w2_def [symmetric])
qed

lemma lease_fade_inv:
  assumes "lease_inv w"
  shows "lease_inv (snd (executeVolumeFade e settings p now w))"
proof -
  define w1 where "w1 = snd (syncProxyVolumeOwnership (se_answers e) w)"
  define w2 where "w2 = syncCommittedState p w1"
  have "lease_inv w1" "lease_inv w2" using assms by (simp_all add: w1_def w2_def lease_proxy lease_sync)
  moreover have "lease_inv (snd (fade_pass e settings p now v w2))" if "\<not> qc_autoPushActive w2" for v
    using that by (intro not_leased) simp
  ultimately show ?thesis
    by (simp add: executeVolumeFade_def Let_def split_beta w1_def [symmetric] w2_def [symmetric] split: option.split)
qed

text \<open>The automatic mute has nothing to do with it.\<close>

lemma lease_box_fields [simp]:
  "lease_part (resetInTheBoxSession a w) = lease_part w"
  "lease_part (setInTheBoxSettings a settings session w) = lease_part w"
  "lease_part (setInTheBoxSuspended b w) = lease_part w"
  "lease_part (box_yields_to_phone a w) = lease_part w"
  "lease_part (snd (box_new_lifetime a p w)) = lease_part w"
  "lease_part (box_confirm p w) = lease_part w"
  "lease_part (box_detector_unmuted c p w) = lease_part w"
  "lease_part (snd (box_decide now p w)) = lease_part w"
proof -
  have c: "lease_part (cancelInTheBoxCommand a v) = lease_part v" for v by simp
  have d: "lease_part (drop_box_owner v) = lease_part v" for v by simp
  show r: "lease_part (resetInTheBoxSession a w) = lease_part w" for w
    unfolding resetInTheBoxSession_def d using c [of w] by (simp add: lease_part_def)
  show "lease_part (setInTheBoxSettings a settings session w) = lease_part w"
    using c [of w] r [of "cancelInTheBoxCommand a w"] by (simp add: setInTheBoxSettings_def Let_def lease_part_def)
  show "lease_part (setInTheBoxSuspended b w) = lease_part w" by (simp add: setInTheBoxSuspended_def lease_part_def)
  show "lease_part (box_yields_to_phone a w) = lease_part w"
    unfolding box_yields_to_phone_def d using c [of w] by (simp add: lease_part_def)
  show "lease_part (snd (box_new_lifetime a p w)) = lease_part w"
    using c [of "w\<lparr>qc_box := itb_reset, qc_boxManualOverride := False, qc_boxInsidePending := False\<rparr>"]
    by (simp add: box_new_lifetime_def Let_def lease_part_def)
  show "lease_part (box_confirm p w) = lease_part w" by (simp add: box_confirm_def Let_def lease_part_def)
  show "lease_part (box_detector_unmuted c p w) = lease_part w" for c
    unfolding box_detector_unmuted_def by (simp add: d) (simp add: lease_part_def)
  show "lease_part (snd (box_decide now p w)) = lease_part w"
    by (simp add: box_decide_def Let_def split_beta lease_part_def)
qed

lemma lease_part_box:
  "lease_part (w\<lparr>qc_boxAttempted := b1, qc_boxLastAttemptMs := t\<rparr>) = lease_part w"
  "lease_part (w\<lparr>qc_boxCommandRevision := r\<rparr>) = lease_part w" "lease_part (w\<lparr>qc_boxMuteInFlight := b2\<rparr>) = lease_part w"
  "lease_part (w\<lparr>qc_boxMuteInFlight := b2, qc_boxCommandSent := b3, qc_boxCommandIngress := r\<rparr>) = lease_part w"
  "lease_part (w\<lparr>qc_boxOwnsMute := b4\<rparr>) = lease_part w" "lease_part (w\<lparr>qc_boxSuppressVoice := b5\<rparr>) = lease_part w"
  "lease_part (w\<lparr>qc_boxCommandPending := b6, qc_boxInsidePending := b7\<rparr>) = lease_part w"
  "lease_part (w\<lparr>qc_boxCommandPending := b6, qc_boxAttempted := b7\<rparr>) = lease_part w"
  "lease_part (w\<lparr>qc_boxCommandPending := b6, qc_boxCommandMute := b7, qc_boxCommandSent := b8, qc_boxAttempted := b9\<rparr>) = lease_part w"
  "lease_part (w\<lparr>qc_boxRecoveryPending := b10\<rparr>) = lease_part w"
  "lease_part (w\<lparr>qc_boxLifetime := l, qc_boxLifetimeKnown := k\<rparr>) = lease_part w"
  by (simp_all add: lease_part_def)

lemma lease_attempt [simp]: "lease_part (box_attempt e p now inFlight target w) = lease_part w"
  by (simp add: box_attempt_def Let_def split_beta lease_part_box)

lemma lease_pursue [simp]: "lease_part (box_pursue e p now inFlight target w) = lease_part w"
  by (simp add: box_pursue_def Let_def lease_part_box)

lemma lease_act [simp]: "lease_part (box_act e p now d w) = lease_part w"
  by (simp add: box_act_def Let_def lease_part_box split: option.split)

lemma lease_box [simp]: "lease_part (processInTheBox e p now w) = lease_part w"
proof -
  have "lease_part (box_session e p now w) = lease_part w" for w
    by (simp add: box_session_def Let_def split_beta lease_part_box)
  then show ?thesis by (simp add: processInTheBox_def Let_def lease_part_box)
qed

lemma lease_do: "lease_inv w \<Longrightarrow> lease_inv (quiet_do w call)"
proof (cases call)
  case (QcBegin a hasBle hasParser p)
  let ?w = "w\<lparr>qc_hasBle := hasBle, qc_hasParser := hasParser, qc_detector := []\<rparr>"
  let ?v = "?w\<lparr>qc_boxMuteInFlight := False, qc_boxRecoveryPending := False, qc_desired := no_desire,
    qc_committed := nothing_committed, qc_presentation := nothing_presented\<rparr>"
  have "lease_inv (resetInTheBoxSession a (quiet_resetVolumeState a ?v))"
    using lease_inv_part [OF lease_box_fields(1)] lease_reset by blast
  then show ?thesis by (simp add: QcBegin quiet_begin_def quiet_reset_def Let_def lease_sync)
next
  case (QcReset a p)
  have "lease_inv (resetInTheBoxSession a (quiet_resetVolumeState a v))" for v
    using lease_inv_part [OF lease_box_fields(1)] lease_reset by blast
  then show ?thesis by (simp add: QcReset quiet_reset_def Let_def lease_sync)
next
  case (QcSync p)
  then show "lease_inv w \<Longrightarrow> ?thesis" by (simp add: getCommittedState_def Let_def lease_sync)
next
  case (QcMute e p owner muted)
  then show "lease_inv w \<Longrightarrow> ?thesis" using lease_inv_part [OF lease_part_mute] by simp
next
  case (QcVolume e p owner v m)
  then show "lease_inv w \<Longrightarrow> ?thesis" by (simp add: lease_volume_inv)
next
  case (QcDetector a address)
  have "lease_inv (with_fade fade_reset (quiet_resetVolumeState a v))" for v
    using lease_inv_part [of "with_fade fade_reset (quiet_resetVolumeState a v)" "quiet_resetVolumeState a v"] by simp
  moreover have "lease_inv (v\<lparr>qc_detector := d\<rparr>) = lease_inv v" for v d by (simp add: lease_inv_def)
  ultimately show "lease_inv w \<Longrightarrow> ?thesis" by (simp add: QcDetector beginDetectorVolumeSession_def Let_def)
next
  case (QcBoxSettings a settings session)
  then show "lease_inv w \<Longrightarrow> ?thesis" using lease_inv_part [OF lease_box_fields(2)] by simp
next
  case (QcBoxSuspend b)
  then show "lease_inv w \<Longrightarrow> ?thesis" using lease_inv_part [OF lease_box_fields(3)] by simp
next
  case (QcBox e p now)
  then show "lease_inv w \<Longrightarrow> ?thesis" using lease_inv_part [OF lease_box] by simp
next
  case (QcVoice p sm b)
  have "lease_part (snd (applyVoicePresentation p sm b w)) = lease_part w"
    by (simp add: applyVoicePresentation_def Let_def)
  from lease_inv_part [OF this] show "lease_inv w \<Longrightarrow> ?thesis" by (simp add: QcVoice)
next
  case (QcAutoPushVolume e p v m x)
  then show "lease_inv w \<Longrightarrow> ?thesis" by (simp add: lease_autopush_inv)
next
  case (QcProxy a)
  then show "lease_inv w \<Longrightarrow> ?thesis" by (simp add: lease_proxy)
next
  case (QcSpeed e p now sm)
  then show "lease_inv w \<Longrightarrow> ?thesis" by (simp add: lease_speed_inv)
next
  case (QcRetry e p now)
  then show "lease_inv w \<Longrightarrow> ?thesis" by (simp add: lease_retry_inv)
next
  case (QcFade e settings p now)
  then show "lease_inv w \<Longrightarrow> ?thesis" by (simp add: lease_fade_inv)
qed (simp_all add: beginAutoPushVolumeTransaction_def endAutoPushVolumeTransaction_def
    canApplyAutoPushVolumeExactly_def lease_inv_def)

section \<open>The interrupted automatic mute\<close>

text \<open>
  A mute whose last packet may have reached the detector is owed an unmute. What keeps the debt:
  every call but a new start, another owner's mute command, another detector and a pass of the
  automatic mute that sees the detector unmuted.
\<close>

fun keeps_owed :: "quiet_world \<Rightarrow> quiet_event \<Rightarrow> bool" where
  "keeps_owed w (Inr (QcBegin a b1 b2 p)) = False"
| "keeps_owed w (Inr (QcReset a p)) = False"
| "keeps_owed w (Inr (QcMute e p owner muted)) = (owner = QoInTheBox)"
| "keeps_owed w (Inr (QcDetector a address)) = (length (qc_detector w) = 17 \<and> address = Some (qc_detector w))"
| "keeps_owed w (Inr (QcBox e p now)) =
     (ds_softMuted (p_displayState p) \<and> \<not> bc_proxyClientConnected (qw_client w))"
| "keeps_owed w _ = True"

fun owed_along :: "quiet_world \<Rightarrow> quiet_event list \<Rightarrow> bool" where
  "owed_along w [] = True"
| "owed_along w (e # es) = (keeps_owed w e \<and> owed_along (quiet_step w e) es)"

lemma owed_append: "owed_along w (es @ fs) \<longleftrightarrow> owed_along w es \<and> owed_along (foldl quiet_step w es) fs"
  by (induction es arbitrary: w) auto

lemma quiet_step_inv:
  "client_inv (qw_client w) \<and> lease_inv w \<Longrightarrow> client_inv (qw_client (quiet_step w e)) \<and> lease_inv (quiet_step w e)"
proof (cases e)
  case (Inl a)
  then show "client_inv (qw_client w) \<and> lease_inv w \<Longrightarrow> ?thesis"
    using lease_inv_part [OF lease_part_small(9)] by (simp add: client_step_inv)
next
  case (Inr call)
  then show "client_inv (qw_client w) \<and> lease_inv w \<Longrightarrow> ?thesis"
    using client_path_inv [OF call_path] lease_do by simp
qed

interpretation quiet_machine: event_machine quiet_step "\<lambda>w. client_inv (qw_client w) \<and> lease_inv w"
  by unfold_locales (rule quiet_step_inv)

definition quiet_run :: "volume_fade option \<Rightarrow> quiet_event list \<Rightarrow> quiet_world" where
  "quiet_run v es = foldl quiet_step (new_quiet new_client v) es"

lemma quiet_run_inv: "client_inv (qw_client (quiet_run v es)) \<and> lease_inv (quiet_run v es)"
  unfolding quiet_run_def by (rule quiet_machine.run_inv) (simp add: new_quiet_def new_client_inv lease_inv_def)


lemma recovery_cancel: "qc_boxRecoveryPending w \<Longrightarrow> qc_boxRecoveryPending (cancelInTheBoxCommand a w)"
  by (simp add: cancelInTheBoxCommand_def Let_def)

lemma recovery_drop [simp]: "qc_boxRecoveryPending (drop_box_owner w) = qc_boxRecoveryPending w"
  by (simp add: drop_box_owner_def present_def)

lemma recovery_reset: "qc_boxRecoveryPending w \<Longrightarrow> qc_boxRecoveryPending (resetInTheBoxSession a w)"
  by (simp add: resetInTheBoxSession_def recovery_cancel)

lemma recovery_mute:
  "qc_boxRecoveryPending w \<Longrightarrow> qc_boxRecoveryPending (snd (sendMuteResult e p QoInTheBox muted w))"
  by (simp add: sendMuteResult_def Let_def split_beta)

lemma recovery_attempt:
  "qc_boxRecoveryPending w \<Longrightarrow> qc_boxRecoveryPending (box_attempt e p now inFlight target w)"
  using recovery_mute by (simp add: box_attempt_def Let_def split_beta recovery_cancel)

lemma recovery_pursue:
  "qc_boxRecoveryPending w \<Longrightarrow> qc_boxRecoveryPending (box_pursue e p now inFlight target w)"
  by (simp add: box_pursue_def Let_def recovery_attempt recovery_cancel)


text \<open>A pass that finds the detector still muted wants the unmute and nothing else.\<close>

lemma recovery_act:
  assumes "qc_boxRecoveryPending w" "ds_softMuted (p_displayState p)"
  shows "\<exists>s. box_act e p now d w = box_pursue e p now (in_flight w OwnInTheBox) False (w\<lparr>qc_boxSuppressVoice := s\<rparr>)"
  using assms by (simp add: box_act_def box_target_def Let_def) blast

lemma recovery_lifetime: "qc_boxRecoveryPending w \<Longrightarrow> qc_boxRecoveryPending (snd (box_new_lifetime a p w))"
  by (simp add: box_new_lifetime_def Let_def recovery_cancel)

lemma recovery_confirm:
  "qc_boxRecoveryPending w \<Longrightarrow> ds_softMuted (p_displayState p) \<Longrightarrow> qc_boxRecoveryPending (box_confirm p w)"
  by (auto simp: box_confirm_def Let_def)

lemma recovery_decide [simp]: "qc_boxRecoveryPending (snd (box_decide now p w)) = qc_boxRecoveryPending w"
  by (simp add: box_decide_def Let_def split_beta)

lemma recovery_unmuted [simp]: "qc_boxRecoveryPending (box_detector_unmuted c p w) = qc_boxRecoveryPending w"
  by (simp add: box_detector_unmuted_def)

lemma box_session_shape:
  assumes "qc_boxRecoveryPending w" "ds_softMuted (p_displayState p)"
  obtains v inFlight where "qc_boxRecoveryPending v" "client_path {} (qw_client w) (qw_client v)"
    "box_session e p now w \<in> {v, box_pursue e p now inFlight False v}"
proof -
  obtain alive w1 where n: "box_new_lifetime (se_answers e) p w = (alive, w1)" by fastforce
  define w2 where "w2 = w1\<lparr>qc_boxLifetime := p_alertLifetime p, qc_boxLifetimeKnown := True\<rparr>"
  define w3 where "w3 = box_detector_unmuted (box_lifetime_changed p w) p (box_confirm p w2)"
  obtain d w4 where d: "box_decide now p w3 = (d, w4)" by fastforce
  have c1: "client_path {} (qw_client w) (qw_client w1)" using box_lifetime_path [of "{}" w "se_answers e" p] n by simp
  have r1: "qc_boxRecoveryPending w1" using recovery_lifetime [OF assms(1), of "se_answers e" p] n by simp
  then have "qc_boxRecoveryPending w2" by (simp add: w2_def)
  then have "qc_boxRecoveryPending w3" using recovery_confirm assms(2) by (simp add: w3_def)
  then have r4: "qc_boxRecoveryPending w4" using recovery_decide [of now p w3] d by simp
  have "qw_client (snd (box_decide now p w3)) = qw_client w3" by simp
  with d have c4: "qw_client w4 = qw_client w1" by (simp add: w3_def w2_def)
  have s: "box_session e p now w = (if \<not> alive then w1 else box_act e p now d w4)"
    by (simp add: box_session_def n Let_def w2_def [symmetric] w3_def [symmetric] d)
  show ?thesis
  proof (cases alive)
    case False
    with that [of w1] r1 c1 s show ?thesis by simp
  next
    case True
    from recovery_act [OF r4 assms(2)] obtain b where
      "box_act e p now d w4 = box_pursue e p now (in_flight w4 OwnInTheBox) False (w4\<lparr>qc_boxSuppressVoice := b\<rparr>)" by blast
    with that [of "w4\<lparr>qc_boxSuppressVoice := b\<rparr>" "in_flight w4 OwnInTheBox"] r4 c1 c4 s True show ?thesis by simp
  qed
qed

lemma recovery_pass:
  assumes "qc_boxRecoveryPending w" "ds_softMuted (p_displayState p)" "\<not> bc_proxyClientConnected (qw_client w)"
  shows "qc_boxRecoveryPending (processInTheBox e p now w)"
    and "client_path (box_sends False) (qw_client w) (qw_client (processInTheBox e p now w))"
proof -
  let ?w = "w\<lparr>qc_boxSuppressVoice := False\<rparr>"
  obtain v i where v: "qc_boxRecoveryPending v" "client_path {} (qw_client w) (qw_client v)"
      "box_session e p now ?w \<in> {v, box_pursue e p now i False v}"
    using box_session_shape [of ?w p e now] assms by auto
  have "client_path (box_sends False) (qw_client w) (qw_client (box_pursue e p now i False v))"
    using client_path_mono [OF v(2)] box_pursue_path by (meson client_path_trans empty_subsetI)
  with v have s: "qc_boxRecoveryPending (box_session e p now ?w) \<and>
      client_path (box_sends False) (qw_client w) (qw_client (box_session e p now ?w))"
    using recovery_pursue client_path_mono [OF v(2)] by auto
  have r: "qc_boxRecoveryPending (resetInTheBoxSession (se_answers e) ?w)" using assms(1) by (simp add: recovery_reset)
  show "qc_boxRecoveryPending (processInTheBox e p now w)"
    using s r assms by (simp add: processInTheBox_def Let_def)
  show "client_path (box_sends False) (qw_client w) (qw_client (processInTheBox e p now w))"
    using s assms reset_box_path [of _ ?w "se_answers e"] by (simp add: processInTheBox_def Let_def)
qed


lemma recovery_proxy [simp]: "qc_boxRecoveryPending (snd (syncProxyVolumeOwnership a w)) = qc_boxRecoveryPending w"
  by (simp add: syncProxyVolumeOwnership_def)

lemma recovery_passes [simp]:
  "qc_boxRecoveryPending (snd (processSpeedVolume e p now sm w)) = qc_boxRecoveryPending w"
  "qc_boxRecoveryPending (snd (executeVolumeFade e settings p now w)) = qc_boxRecoveryPending w"
  by (simp_all add: processSpeedVolume_def executeVolumeFade_def Let_def split_beta split: option.split)

lemma recovery_settings: "qc_boxRecoveryPending w \<Longrightarrow> qc_boxRecoveryPending (setInTheBoxSettings a settings session w)"
  by (simp add: setInTheBoxSettings_def Let_def recovery_cancel recovery_reset)

lemma recovery_voice [simp]: "qc_boxRecoveryPending (snd (applyVoicePresentation p sm b w)) = qc_boxRecoveryPending w"
  by (simp add: applyVoicePresentation_def Let_def)

lemma recovery_calls:
  "qc_boxRecoveryPending (snd (getCommittedState p w)) = qc_boxRecoveryPending w"
  "qc_boxRecoveryPending (snd (beginAutoPushVolumeTransaction w)) = qc_boxRecoveryPending w"
  "qc_boxRecoveryPending (endAutoPushVolumeTransaction w) = qc_boxRecoveryPending w"
  "qc_boxRecoveryPending (setInTheBoxSuspended b w) = qc_boxRecoveryPending w"
  "length (qc_detector w) = 17 \<Longrightarrow> qc_boxRecoveryPending (beginDetectorVolumeSession a (Some (qc_detector w)) w) = qc_boxRecoveryPending w"
  by (simp_all add: getCommittedState_def beginAutoPushVolumeTransaction_def endAutoPushVolumeTransaction_def
      setInTheBoxSuspended_def beginDetectorVolumeSession_def Let_def)

lemma owed_step: "qc_boxRecoveryPending w \<Longrightarrow> keeps_owed w e \<Longrightarrow> qc_boxRecoveryPending (quiet_step w e)"
proof (cases "(w, e)" rule: keeps_owed.cases)
qed (auto simp: recovery_calls recovery_mute recovery_settings recovery_pass(1))

lemma owed_run: "qc_boxRecoveryPending w \<Longrightarrow> owed_along w es \<Longrightarrow> qc_boxRecoveryPending (foldl quiet_step w es)"
  by (induction es arbitrary: w) (simp_all add: owed_step)

section \<open>Properties\<close>

text \<open>
  Claim C6. Every call of the quiet coordinator, in any state, leads the client along a path of
  its own command steps and cancellations whose only commands are the call's: none at all
  while a phone is connected, no volume of another owner while a settings transaction runs, and
  from the automatic mute only its own unmute, or its own mute when the alert input is fresh and
  the settings put every current alert outside the box.
\<close>

theorem coordinator_sends_only: "client_path (call_sends w call) (qw_client w) (qw_client (quiet_do w call))"
  by (rule call_path)

text \<open>
  Claim C8. In every history of coordinator calls and client events from a fresh start the
  client keeps its own invariant, and while a settings transaction holds the volume there is no
  low-speed override, no restoration one owes, no volume of the fade waiting for its delivery,
  and the fade is not the owner the volume was last taken over by.
\<close>

theorem coordinator_composition_invariants:
  "client_inv (qw_client (quiet_run v es)) \<and> lease_inv (quiet_run v es)"
  by (rule quiet_run_inv)

text \<open>
  Claim C7. The unmute an interrupted automatic mute owes survives: through reconnections to the
  same detector, cancelled sessions, settings, the other passes and the client's own events the
  debt stands, until a phone takes over, another owner commands the mute, another detector
  comes or a pass sees the detector unmuted. While it stands, a pass of the automatic mute
  sends nothing but the unmute and keeps the debt.
\<close>

theorem recovery_stays_owed:
  assumes "qc_boxRecoveryPending w" "owed_along w (es @ [Inr (QcBox e p now)])"
  defines "v \<equiv> foldl quiet_step w es"
  shows "qc_boxRecoveryPending v \<and> qc_boxRecoveryPending (processInTheBox e p now v) \<and>
    client_path {(OwnInTheBox, mute_command False)} (qw_client v) (qw_client (processInTheBox e p now v))"
proof -
  have "qc_boxRecoveryPending v" "ds_softMuted (p_displayState p)" "\<not> bc_proxyClientConnected (qw_client v)"
    using assms owed_run by (simp_all add: owed_append)
  then show ?thesis using recovery_pass [of v p e now] by (simp add: box_sends_def)
qed


text \<open>A session whose mute was cancelled with its last packet unaccounted for, at the detector it knows.\<close>

definition owing_world :: quiet_world where
  "owing_world = cancelInTheBoxCommand (answers_at 1990)
     ((new_quiet connected_client None)\<lparr>qc_hasBle := True, qc_hasParser := True,
        qc_detector := ''AA:BB:CC:DD:EE:FF'', qc_boxSession := lk_generation connected_client,
        qc_boxMuteInFlight := True\<rparr>)"

definition muted_parser :: parser where
  "muted_parser = new_parser\<lparr>p_displayState := (p_displayState new_parser)\<lparr>ds_softMuted := True\<rparr>\<rparr>"

lemma recovery_stays_owed_witness:
  "let v = foldl quiet_step owing_world [Inr (QcDetector (answers_at 1995) (Some ''AA:BB:CC:DD:EE:FF'')), Inr (QcBoxSuspend True)]
   in qc_boxRecoveryPending v \<and> qc_boxRecoveryPending (processInTheBox (quiet_send 2000) muted_parser 2000 v)"
  (is "let v = foldl quiet_step _ ?es in _")
proof -
  have "qc_boxRecoveryPending owing_world" by code_simp
  moreover have "owed_along owing_world (?es @ [Inr (QcBox (quiet_send 2000) muted_parser 2000)])" by code_simp
  ultimately show ?thesis unfolding Let_def using recovery_stays_owed by blast
qed

end
