(* ===== verification/V1_Rx_Stream.thy ===== *)
theory V1_Rx_Stream
  imports V1_Session_Capture
begin

text \<open>
  The notification queue's own data (\<open>src/modules/ble/ble_queue_module.h\<close> and \<open>.cpp\<close>): the
  admitted notifications, the staging buffer that reassembles the short characteristic's byte
  stream, and the indexed assembly of the long characteristic. The four parallel vectors of the
  staging buffer are resized together everywhere and are one list of staged bytes; the fixed
  slots of the assembly are lists of the bytes they hold.
\<close>

section \<open>Data\<close>

record rx_packet =
  rp_data :: "u8 list"
  rp_charUUID :: u16
  rp_tsMs :: u32
  rp_session :: u32
  rp_ingress :: u32

record staged =
  sb_byte :: u8
  sb_ingress :: u32
  sb_tsMs :: u32
  sb_gap :: bool

record long_rx =
  lr_count :: nat
  lr_presentMask :: u16
  lr_payloads :: "u8 list list"
  lr_firstIngress :: u32
  lr_firstTsMs :: u32
  lr_discontinuity :: bool
  lr_shortStreamEnd :: nat

definition LONG_NOTIFY_CHARACTERISTIC :: u16 where "LONG_NOTIFY_CHARACTERISTIC = 0xB4E0"
definition MAX_LONG_CHUNKS :: nat where "MAX_LONG_CHUNKS = 15"
definition MAX_LONG_CHUNK_PAYLOAD :: nat where "MAX_LONG_CHUNK_PAYLOAD = 19"
definition RX_BUFFER_MAX :: nat where "RX_BUFFER_MAX = 1024"
definition RX_COMPACT_THRESHOLD :: nat where "RX_COMPACT_THRESHOLD = RX_BUFFER_MAX div 2"
definition RX_PACKET_BYTES :: nat where "RX_PACKET_BYTES = 256"

definition empty_long :: long_rx where
  "empty_long = \<lparr>lr_count = 0, lr_presentMask = 0, lr_payloads = replicate MAX_LONG_CHUNKS [],
     lr_firstIngress = 0, lr_firstTsMs = 0, lr_discontinuity = False, lr_shortStreamEnd = 0\<rparr>"

text \<open>
  The members of the class. Of the modules it works on the client and the parser are part of the
  state; the health counter and the power module's calls are counted, and the last two
  fields are history variables: the notifications put into the queue and the frames handled since
  the session was last opened or closed, the frames with their provenance.
\<close>

record rx_queue =
  rq_ready :: bool
  rq_depth :: nat
  rq_queue :: "rx_packet list"
  rq_accept :: bool
  rq_session :: u32
  rq_rx :: "staged list"
  rq_readPos :: nat
  rq_long :: long_rx
  rq_longNeedsStart :: bool
  rq_lastRxMillis :: u32
  rq_lastNotifyTsMs :: u32
  rq_parsed :: bool
  rq_backpressure :: bool
  rq_lastIngress :: u32
  rq_pendingGap :: bool
  rq_client :: v1_client
  rq_parser :: parser
  rq_inputDrops :: nat
  rq_powerCalls :: nat
  rq_previewCancels :: nat
  rq_admitted :: "rx_packet list"
  rq_dispatched :: "(u8 list \<times> u32 \<times> u32) list"

section \<open>The staging buffer\<close>

definition clearRxState :: "rx_queue \<Rightarrow> rx_queue" where
  "clearRxState q = q\<lparr>rq_rx := [], rq_readPos := 0, rq_long := (rq_long q)\<lparr>lr_shortStreamEnd := 0\<rparr>\<rparr>"

definition compactRxState :: "rx_queue \<Rightarrow> rx_queue" where
  "compactRxState q =
     (if rq_readPos q = 0 then q
      else
        let shift = min (rq_readPos q) (length (rq_rx q))
        in if shift \<ge> length (rq_rx q) then clearRxState q
           else q\<lparr>rq_rx := drop shift (rq_rx q),
                  rq_long := (rq_long q)\<lparr>lr_shortStreamEnd :=
                    if lr_shortStreamEnd (rq_long q) > shift then lr_shortStreamEnd (rq_long q) - shift else 0\<rparr>,
                  rq_readPos := 0\<rparr>)"

definition rx_unread :: "rx_queue \<Rightarrow> nat" where
  "rx_unread q = (if rq_readPos q < length (rq_rx q) then length (rq_rx q) - rq_readPos q else 0)"

text \<open>The bytes of one notification; only the first may carry the mark of a gap before it.\<close>

definition stage :: "u8 list \<Rightarrow> u32 \<Rightarrow> u32 \<Rightarrow> bool \<Rightarrow> staged list" where
  "stage data ingress ts gap =
     (case data of [] \<Rightarrow> []
      | b # bs \<Rightarrow> \<lparr>sb_byte = b, sb_ingress = ingress, sb_tsMs = ts, sb_gap = gap\<rparr>
                   # map (\<lambda>b. \<lparr>sb_byte = b, sb_ingress = ingress, sb_tsMs = ts, sb_gap = False\<rparr>) bs)"

definition appendRxBytes :: "u8 list \<Rightarrow> u32 \<Rightarrow> u32 \<Rightarrow> bool \<Rightarrow> rx_queue \<Rightarrow> bool \<times> rx_queue" where
  "appendRxBytes data ingress ts gap q =
     (if data = [] then (False, q)
      else
        let q = (if rq_readPos q > 0 \<and>
                    (length (rq_rx q) \<ge> RX_BUFFER_MAX \<or> rx_unread q + length data > RX_BUFFER_MAX)
                 then compactRxState q else q)
        in if rx_unread q \<ge> RX_BUFFER_MAX \<or> rx_unread q + length data > RX_BUFFER_MAX then (False, q)
           else (True, q\<lparr>rq_rx := rq_rx q @ stage data ingress ts gap\<rparr>))"

definition appendRxPacket :: "rx_packet \<Rightarrow> bool \<Rightarrow> rx_queue \<Rightarrow> bool \<times> rx_queue" where
  "appendRxPacket k gap q = appendRxBytes (rp_data k) (rp_ingress k) (rp_tsMs k) gap q"

section \<open>The long assembly\<close>

definition clearLongRxState :: "rx_queue \<Rightarrow> rx_queue" where
  "clearLongRxState q = q\<lparr>rq_long := empty_long\<rparr>"

definition long_complete :: "long_rx \<Rightarrow> bool" where
  "long_complete l \<longleftrightarrow> lr_count l \<noteq> 0 \<and> lr_count l \<le> MAX_LONG_CHUNKS \<and>
     lr_presentMask l = push_bit (lr_count l) 1 - 1"

abbreviation longRxComplete :: "rx_queue \<Rightarrow> bool" where
  "longRxComplete q \<equiv> long_complete (rq_long q)"

definition long_bytes :: "long_rx \<Rightarrow> u8 list" where
  "long_bytes l = concat (take (lr_count l) (lr_payloads l))"

definition complete_frame :: "u8 list \<Rightarrow> bool" where
  "complete_frame f \<longleftrightarrow> length f \<ge> 7 \<and> f ! 0 = ESP_PACKET_START \<and> f ! 4 \<noteq> 0 \<and>
     length f = 6 + unat (f ! 4) \<and> f ! (length f - 1) = ESP_PACKET_END"

definition longRxHasCompleteFrame :: "rx_queue \<Rightarrow> bool" where
  "longRxHasCompleteFrame q \<longleftrightarrow> complete_frame (long_bytes (rq_long q))"

text \<open>A candidate of \<open>count\<close> chunks takes its provenance from the first one seen.\<close>

definition start_candidate :: "nat \<Rightarrow> rx_packet \<Rightarrow> bool \<Rightarrow> long_rx \<Rightarrow> long_rx" where
  "start_candidate count k gap l =
     l\<lparr>lr_count := count, lr_firstIngress := rp_ingress k, lr_firstTsMs := rp_tsMs k,
       lr_discontinuity := gap\<rparr>"

definition chunk_index :: "rx_packet \<Rightarrow> nat" where
  "chunk_index k = unat (drop_bit 4 (rp_data k ! 0) AND 0x0F)"

definition chunk_count :: "rx_packet \<Rightarrow> nat" where
  "chunk_count k = unat (rp_data k ! 0 AND 0x0F)"

definition chunk_length_ok :: "rx_packet \<Rightarrow> bool" where
  "chunk_length_ok k \<longleftrightarrow> \<not> (length (rp_data k) < 2 \<or> length (rp_data k) > MAX_LONG_CHUNK_PAYLOAD + 1)"

definition chunk_prefix_ok :: "rx_packet \<Rightarrow> bool" where
  "chunk_prefix_ok k \<longleftrightarrow> \<not> (chunk_index k = 0 \<or> chunk_count k = 0 \<or> chunk_count k > MAX_LONG_CHUNKS \<or>
     chunk_index k > chunk_count k)"

text \<open>A repeated index or another count starts a new candidate.\<close>

definition place_chunk :: "rx_packet \<Rightarrow> bool \<Rightarrow> long_rx \<Rightarrow> long_rx" where
  "place_chunk k gap l =
     (let slot = chunk_index k - 1; count = chunk_count k;
          other = (lr_count l \<noteq> 0 \<and> lr_count l \<noteq> count);
          gap = (gap \<or> other);
          l = (if other then empty_long else l);
          l = (if lr_count l = 0 then start_candidate count k gap l
               else l\<lparr>lr_discontinuity := lr_discontinuity l \<or> gap\<rparr>);
          l = (if bit (lr_presentMask l) slot then start_candidate count k True empty_long else l)
      in l\<lparr>lr_payloads := (lr_payloads l)[slot := tl (rp_data k)],
           lr_presentMask := set_bit slot (lr_presentMask l)\<rparr>)"

definition appendLongRxChunk :: "rx_packet \<Rightarrow> bool \<Rightarrow> rx_queue \<Rightarrow> bool \<times> rx_queue" where
  "appendLongRxChunk k gap q =
     (if \<not> chunk_length_ok k \<or> \<not> chunk_prefix_ok k then (False, clearLongRxState q)
      else if rq_longNeedsStart q \<and> chunk_index k \<noteq> 1 then (False, q)
      else (True, q\<lparr>rq_longNeedsStart := False, rq_long := place_chunk k gap (rq_long q)\<rparr>))"

definition append_slots :: "u8 list list \<Rightarrow> u32 \<Rightarrow> u32 \<Rightarrow> bool \<Rightarrow> rx_queue \<Rightarrow> bool \<times> rx_queue" where
  "append_slots slots ingress ts gap q =
     fold (\<lambda>(slot, payload) (ok, q).
             if ok then appendRxBytes payload ingress ts (gap \<and> slot = 0) q else (False, q))
       (enumerate 0 slots) (True, q)"

definition flushCompleteLongRx :: "rx_queue \<Rightarrow> bool \<times> rx_queue" where
  "flushCompleteLongRx q =
     (if \<not> longRxComplete q then (False, q)
      else
        let l = rq_long q; total = length (long_bytes l)
        in if total = 0 \<or> total > 512 then (False, clearLongRxState q)
           else
             let q = (if rq_readPos q > 0 \<and>
                         (length (rq_rx q) \<ge> RX_BUFFER_MAX \<or> rx_unread q + total > RX_BUFFER_MAX)
                      then compactRxState q else q)
             in if rx_unread q + total > RX_BUFFER_MAX then (False, q)
                else
                  let gap = (lr_discontinuity (rq_long q) \<or> rq_pendingGap q);
                      (ok, q) = append_slots (take (lr_count l) (lr_payloads l)) (lr_firstIngress l)
                                  (lr_firstTsMs l) gap q
                  in if \<not> ok then (False, q) else (True, clearLongRxState (q\<lparr>rq_pendingGap := False\<rparr>)))"

section \<open>The notification sequence\<close>

definition ingressWouldBeDiscontinuous :: "u32 \<Rightarrow> rx_queue \<Rightarrow> bool" where
  "ingressWouldBeDiscontinuous ingress q =
     (if rq_lastIngress q = 0 then False
      else if ingress = 0 then True
      else if ingress = rq_lastIngress q then False
      else ingress \<noteq> (if rq_lastIngress q = - 1 then 1 else rq_lastIngress q + 1))"

definition acceptIngressSequence :: "u32 \<Rightarrow> rx_queue \<Rightarrow> rx_queue" where
  "acceptIngressSequence ingress q =
     (let q = (if ingressWouldBeDiscontinuous ingress q
               then (if \<not> longRxComplete q then clearLongRxState q else q)\<lparr>rq_longNeedsStart := True\<rparr>
               else q)
      in q\<lparr>rq_lastIngress := ingress\<rparr>)"

definition rx_mark_discontinuous :: "rx_queue \<Rightarrow> rx_queue" where
  "rx_mark_discontinuous q = q\<lparr>rq_parser := markAlertStreamDiscontinuous (rq_parser q)\<rparr>"

definition applyPendingDiscontinuityIfStreamDrained :: "rx_queue \<Rightarrow> rx_queue" where
  "applyPendingDiscontinuityIfStreamDrained q =
     (if rq_pendingGap q \<and> rq_readPos q \<ge> length (rq_rx q) \<and> \<not> longRxComplete q
      then (rx_mark_discontinuous q)\<lparr>rq_pendingGap := False\<rparr> else q)"

definition refreshBackpressureState :: "rx_queue \<Rightarrow> rx_queue" where
  "refreshBackpressureState q =
     (let depth = (if rq_ready q then length (rq_queue q) else 0)
      in q\<lparr>rq_backpressure := rx_unread q \<ge> 192 \<or> depth \<ge> max 4 (rq_depth q div 4)\<rparr>)"

section \<open>The session boundary\<close>

text \<open>The module as started over a client and a parser; the queue may not be allocated.\<close>

definition rx_begin :: "bool \<Rightarrow> nat \<Rightarrow> v1_client \<Rightarrow> parser \<Rightarrow> rx_queue" where
  "rx_begin allocated depth c p =
     \<lparr>rq_ready = allocated, rq_depth = depth, rq_queue = [], rq_accept = False, rq_session = 0, rq_rx = [],
      rq_readPos = 0, rq_long = empty_long, rq_longNeedsStart = False, rq_lastRxMillis = 0,
      rq_lastNotifyTsMs = 0, rq_parsed = False, rq_backpressure = False, rq_lastIngress = 0,
      rq_pendingGap = False, rq_client = c, rq_parser = p, rq_inputDrops = 0, rq_powerCalls = 0,
      rq_previewCancels = 0, rq_admitted = [], rq_dispatched = []\<rparr>"

definition reset_alert_input :: "u32 \<Rightarrow> rx_queue \<Rightarrow> rx_queue" where
  "reset_alert_input g q =
     q\<lparr>rq_client := (rq_client q)\<lparr>bc_alertInput := resetV1AlertInput g (bc_alertInput (rq_client q))\<rparr>\<rparr>"

definition rx_end :: "rx_queue \<Rightarrow> rx_queue" where
  "rx_end q =
     (clearLongRxState (clearRxState ((reset_alert_input 0 (q\<lparr>rq_accept := False\<rparr>))\<lparr>rq_ready := False,
        rq_queue := []\<rparr>)))\<lparr>rq_longNeedsStart := False, rq_backpressure := False\<rparr>"

definition closeSession :: "rx_queue \<Rightarrow> rx_queue" where
  "closeSession q =
     (clearLongRxState (clearRxState ((reset_alert_input 0 (q\<lparr>rq_accept := False\<rparr>))\<lparr>rq_queue := []\<rparr>)))
       \<lparr>rq_longNeedsStart := False, rq_lastRxMillis := 0, rq_lastNotifyTsMs := 0, rq_parsed := False,
        rq_backpressure := False, rq_lastIngress := 0, rq_pendingGap := False,
        rq_admitted := [], rq_dispatched := []\<rparr>"

definition openSession :: "u32 \<Rightarrow> rx_queue \<Rightarrow> rx_queue" where
  "openSession g q = (reset_alert_input g ((closeSession q)\<lparr>rq_session := g\<rparr>))\<lparr>rq_accept := True\<rparr>"

text \<open>
  The callback runs on the stack's task: the main loop may close or reopen the session between
  its first check and the second, and between the second and the send to the queue.
\<close>

datatype session_call = CallOpen u32 | CallClose

fun session_step :: "rx_queue \<Rightarrow> session_call \<Rightarrow> rx_queue" where
  "session_step q (CallOpen g) = openSession g q"
| "session_step q CallClose = closeSession q"

definition rx_admits :: "u32 \<Rightarrow> rx_queue \<Rightarrow> bool" where
  "rx_admits g q \<longleftrightarrow> rq_ready q \<and> rq_accept q \<and> g = rq_session q"

definition enqueue :: "rx_packet \<Rightarrow> rx_queue \<Rightarrow> bool \<times> rx_queue" where
  "enqueue k q =
     (if length (rq_queue q) < rq_depth q then (True, q\<lparr>rq_queue := rq_queue q @ [k], rq_admitted := rq_admitted q @ [k]\<rparr>)
      else (False, q\<lparr>rq_inputDrops := rq_inputDrops q + 1,
                     rq_client := (rq_client q)\<lparr>bc_alertInput :=
                       noteV1NotificationLoss (rp_session k) (rp_ingress k) (bc_alertInput (rq_client q))\<rparr>\<rparr>))"

definition tryOnNotify ::
    "session_call list \<Rightarrow> session_call list \<Rightarrow> u8 list \<Rightarrow> u16 \<Rightarrow> u32 \<Rightarrow> u32 \<Rightarrow> u32 \<Rightarrow> rx_queue \<Rightarrow>
      bool \<times> rx_queue" where
  "tryOnNotify early late data charUUID g ts ingress q =
     (if \<not> rx_admits g q then (False, q)
      else if length data = 0 \<or> length data > RX_PACKET_BYTES then (False, q)
      else
        let q = foldl session_step q early
        in if \<not> rq_accept q \<or> g \<noteq> rq_session q then (False, q)
           else enqueue \<lparr>rp_data = data, rp_charUUID = charUUID, rp_tsMs = ts, rp_session = g,
                         rp_ingress = ingress\<rparr> (foldl session_step q late))"

definition consumeParsedFlag :: "rx_queue \<Rightarrow> bool \<times> rx_queue" where
  "consumeParsedFlag q = (rq_parsed q, q\<lparr>rq_parsed := False\<rparr>)"

end
