(* ===== verification/V1_Rx_Process.thy ===== *)
theory V1_Rx_Process
  imports V1_Rx_Stream
begin

text \<open>
  \<open>BleQueueModule::process\<close> (\<open>src/modules/ble/ble_queue_module.cpp\<close>): draining the queue into the
  staging buffer and the long assembly, framing, and the effects of each frame on the parser and
  the client. The bytes waiting at the start of the buffer are judged by one decision; a frame of
  the long characteristic was checked when its last chunk came.
\<close>

section \<open>The effects of a frame\<close>

definition rx_client :: "(v1_client \<Rightarrow> v1_client) \<Rightarrow> rx_queue \<Rightarrow> rx_queue" where
  "rx_client f q = q\<lparr>rq_client := f (rq_client q)\<rparr>"

definition rx_parser :: "(parser \<Rightarrow> parser) \<Rightarrow> rx_queue \<Rightarrow> rx_queue" where
  "rx_parser f q = q\<lparr>rq_parser := f (rq_parser q)\<rparr>"

definition sweep_response :: "u8 \<Rightarrow> bool" where
  "sweep_response i \<longleftrightarrow> i = PACKET_ID_RESP_SWEEP_SECTIONS \<or> i = PACKET_ID_RESP_MAX_SWEEP_INDEX \<or>
     i = PACKET_ID_RESP_SWEEP_DEFINITION"

definition is_user_bytes :: "u8 list \<Rightarrow> bool" where
  "is_user_bytes f \<longleftrightarrow> f ! 3 = PACKET_ID_RESP_USER_BYTES \<and>
     hasCanonicalResponseEvidenceForDestination (Some f) 6 0xD6"

text \<open>A delayed reply to an earlier request of the same sweep collector.\<close>

definition stale_sweep :: "u8 list \<Rightarrow> u32 \<Rightarrow> v1_client \<Rightarrow> bool" where
  "stale_sweep f ingress c \<longleftrightarrow> sweep_response (f ! 3) \<and> sessionSweepIngressBoundary c (f ! 3) \<noteq> 0 \<and>
     \<not> sessionSweepResponseEligible c (f ! 3) ingress"

definition eligible_sweep :: "u8 list \<Rightarrow> u32 \<Rightarrow> v1_client \<Rightarrow> bool" where
  "eligible_sweep f ingress c \<longleftrightarrow> sweep_response (f ! 3) \<and> sessionSweepResponseEligible c (f ! 3) ingress"

definition take_sweep_reset :: "u8 \<Rightarrow> rx_queue \<Rightarrow> rx_queue" where
  "take_sweep_reset i q =
     (let (pending, c) = consumeSessionSweepParserReset i (rq_client q); q = q\<lparr>rq_client := c\<rparr>
      in if \<not> pending then q
         else if i = PACKET_ID_RESP_SWEEP_SECTIONS then rx_parser resetSweepSectionsObservation q
         else if i = PACKET_ID_RESP_MAX_SWEEP_INDEX then rx_parser resetSweepMaxObservation q
         else
           let q = rx_parser resetSweepDefinitionsObservation q
           in if \<not> sc_hasSweepMax (bc_capture (rq_client q)) then rx_parser resetSweepMaxObservation q else q)"

definition freshDefinitionsComplete :: "rx_queue \<Rightarrow> bool" where
  "freshDefinitionsComplete q =
     (let m = p_sweepMaxObs (rq_parser q); d = p_sweepDefinitionsObs (rq_parser q); c = rq_client q
      in if \<not> sc_hasSweepMax (bc_capture c) \<or> \<not> sm_available m \<or> sm_poisoned m \<or> sm_maxIndex m \<ge> 64 then False
         else
           let required = (if sm_maxIndex m = 63 then - 1 else push_bit (unat (sm_maxIndex m) + 1) 1 - 1)
           in if sd_poisoned d \<or> sd_presentMask d \<noteq> required then False
              else list_all (\<lambda>i. sessionSweepResponseEligible c PACKET_ID_RESP_SWEEP_DEFINITION
                                   (sd_ingressSequences d ! i)) [0..<unat (sm_maxIndex m) + 1])"

definition report_sweep :: "bool \<Rightarrow> u8 \<Rightarrow> rx_queue \<Rightarrow> rx_queue" where
  "report_sweep parseOk i q =
     (if i = PACKET_ID_RESP_SWEEP_SECTIONS then
        let s = p_sweepSectionsObs (rq_parser q)
        in rx_client (onSweepSectionsReceived (parseOk \<and> \<not> ss_poisoned s \<and> ss_complete s)) q
      else if i = PACKET_ID_RESP_MAX_SWEEP_INDEX then
        let m = p_sweepMaxObs (rq_parser q); captured = (parseOk \<and> sm_available m \<and> \<not> sm_poisoned m);
            q = rx_client (onSweepMaxReceived captured) q
        in rx_client (onSweepDefinitionsReceived (captured \<and> freshDefinitionsComplete q)) q
      else if i = PACKET_ID_RESP_SWEEP_DEFINITION
      then rx_client (onSweepDefinitionsReceived (parseOk \<and> freshDefinitionsComplete q)) q
      else q)"

text \<open>What the client learns from a frame the parser has taken.\<close>

definition report_alert :: "u32 \<Rightarrow> bool \<Rightarrow> u8 list \<Rightarrow> u32 \<Rightarrow> u32 \<Rightarrow> rx_queue \<Rightarrow> rx_queue" where
  "report_alert session parseOk f ingress ts q =
     (if f ! 3 \<noteq> PACKET_ID_ALERT_DATA then q
      else if \<not> parseOk then rx_mark_discontinuous q
      else if hasFreshAlertTable (rq_parser q) ts 1500
      then rx_client (\<lambda>c. c\<lparr>bc_alertInput := qualifyV1AlertInput session ingress (bc_alertInput c)\<rparr>) q
      else q)"

definition busy_ids :: "u8 list \<Rightarrow> u8 list option" where
  "busy_ids f =
     (let checksumBytes = (if f ! 2 = 0xEA then 1 else 0) in
      if unat (f ! 4) \<ge> checksumBytes then Some (take (unat (f ! 4) - checksumBytes) (drop 5 f)) else None)"

definition report_response :: "u8 list \<Rightarrow> u32 \<Rightarrow> rx_queue \<Rightarrow> rx_queue" where
  "report_response f ingress q =
     (let i = f ! 3; s = p_displayState (rq_parser q) in
      if i = PACKET_ID_DISPLAY_DATA then rx_client (onV1DisplayFlowControl (ds_timeSliceHoldoff s)) q
      else if i = PACKET_ID_RESP_REQUEST_NOT_PROCESSED then rx_client (onV1RequestNotProcessed (f ! 5) ingress) q
      else if i = PACKET_ID_INF_V1_BUSY
      then (case busy_ids f of None \<Rightarrow> q | Some ids \<Rightarrow> rx_client (onV1Busy (Some ids)) q)
      else if i = PACKET_ID_RESP_VERSION \<and> ds_hasV1Version s
      then rx_client (onV1FirmwareVersionReceived (ds_v1FirmwareVersion s)) q
      else if i = PACKET_ID_RESP_ALL_VOLUME \<and> ds_hasSavedVolume s
      then rx_client (onAllVolumeReceived ingress) q
      else q)"

text \<open>The presentation side: the power module, the colour preview, the flag for the display.\<close>

definition note_parsed :: "bool \<Rightarrow> bool \<times> rx_queue \<Rightarrow> bool \<times> rx_queue" where
  "note_parsed parseOk r =
     (let (previewActive, q) = r in
      if \<not> parseOk then (previewActive, q)
      else
        let q = q\<lparr>rq_powerCalls := rq_powerCalls q + 1, rq_parsed := True\<rparr>
        in if previewActive \<and> hasAlerts (rq_parser q)
           then (False, q\<lparr>rq_previewCancels := rq_previewCancels q + 1\<rparr>) else (previewActive, q))"

definition handle_frame ::
    "u32 \<Rightarrow> u8 list \<Rightarrow> u32 \<Rightarrow> u32 \<Rightarrow> bool \<times> rx_queue \<Rightarrow> bool \<times> rx_queue" where
  "handle_frame session f ingress ts r =
     (let (previewActive, q) = r; i = f ! 3;
          q = q\<lparr>rq_dispatched := rq_dispatched q @ [(f, ingress, ts)]\<rparr>
      in if is_user_bytes f
         then (previewActive, rx_client (onUserBytesReceived (Some (take 6 (drop 5 f))) ingress) q)
         else if stale_sweep f ingress (rq_client q) then (previewActive, q)
         else
           let eligible = eligible_sweep f ingress (rq_client q);
               q = (if eligible then take_sweep_reset i q else q);
               (parseOk, p) = parse (Some f) ts ingress (receivedAfterPhoneAlertStop (rq_client q) ingress)
                                (rq_parser q);
               q = report_alert session parseOk f ingress ts (q\<lparr>rq_parser := p\<rparr>);
               q = (if parseOk then report_response f ingress q else q);
               q = (if eligible then report_sweep parseOk i q else q)
           in note_parsed parseOk (previewActive, q))"

section \<open>Framing\<close>

datatype rx_decision = RxDrop | RxWait | RxResync nat | RxFrame nat

text \<open>The index of the next mark of a gap behind the first byte.\<close>

fun next_gap :: "staged list \<Rightarrow> nat option" where
  "next_gap [] = None"
| "next_gap (b # bs) = (if sb_gap b then Some 0 else map_option Suc (next_gap bs))"

fun start_at :: "staged list \<Rightarrow> nat option" where
  "start_at [] = None"
| "start_at (b # bs) = (if sb_byte b = ESP_PACKET_START then Some 0 else map_option Suc (start_at bs))"

definition gap_before :: "nat \<Rightarrow> staged list \<Rightarrow> nat option" where
  "gap_before n bs =
     (case next_gap (tl bs) of None \<Rightarrow> None | Some i \<Rightarrow> if Suc i < n then Some (Suc i) else None)"

definition rx_decide :: "staged list \<Rightarrow> rx_decision" where
  "rx_decide bs =
     (case start_at bs of None \<Rightarrow> RxDrop
      | Some (Suc i) \<Rightarrow> RxResync (Suc i)
      | Some 0 \<Rightarrow>
          (case gap_before 6 bs of Some i \<Rightarrow> RxResync i
           | None \<Rightarrow>
               if length bs < 6 then RxWait
               else
                 let len = sb_byte (bs ! 4); width = 6 + unat len
                 in if len = 0 then RxResync 1
                    else if width > 512 then RxResync 1
                    else
                      (case gap_before width bs of Some i \<Rightarrow> RxResync i
                       | None \<Rightarrow>
                           if length bs < width then RxWait
                           else if sb_byte (bs ! (width - 1)) \<noteq> ESP_PACKET_END then RxResync 1
                           else RxFrame width)))"

definition starts_after_gap :: "staged list \<Rightarrow> bool" where
  "starts_after_gap bs \<longleftrightarrow> start_at bs = Some 0 \<and> sb_gap (hd bs)"

definition rx_pending :: "rx_queue \<Rightarrow> staged list" where
  "rx_pending q = drop (rq_readPos q) (rq_rx q)"

definition dispatches_long :: "rx_queue \<Rightarrow> bool" where
  "dispatches_long q \<longleftrightarrow> longRxComplete q \<and> rq_readPos q \<ge> lr_shortStreamEnd (rq_long q)"

text \<open>
  One round of the parse loop: whether it goes on, whether it waits for more bytes of a short
  frame, and whether it handled a packet. A long candidate is a whole frame whenever it is
  complete (an invariant), so the resynchronisation of the short stream never meets one.
\<close>

datatype rx_outcome = RoundStop bool | RoundResync | RoundPacket

definition long_round :: "u32 \<Rightarrow> bool \<times> rx_queue \<Rightarrow> rx_outcome \<times> bool \<times> rx_queue" where
  "long_round session r =
     (let (previewActive, q) = r; l = rq_long q; f = long_bytes l in
      if \<not> complete_frame f then (RoundStop False, previewActive, q)
      else
        let q = (if lr_discontinuity l \<or> rq_pendingGap q then rx_mark_discontinuous q else q);
            (previewActive, q) = handle_frame session f (lr_firstIngress l) (lr_firstTsMs l) (previewActive, q)
        in (RoundPacket, previewActive, clearLongRxState (q\<lparr>rq_pendingGap := False\<rparr>)))"

definition short_round :: "u32 \<Rightarrow> bool \<times> rx_queue \<Rightarrow> rx_outcome \<times> bool \<times> rx_queue" where
  "short_round session r =
     (let (previewActive, q) = r; bs = rx_pending q;
          q = (if starts_after_gap bs then rx_mark_discontinuous q else q)
      in case rx_decide bs of
           RxDrop \<Rightarrow> (RoundStop False, previewActive, clearRxState (rx_mark_discontinuous q))
         | RxWait \<Rightarrow> (RoundStop True, previewActive, q)
         | RxResync n \<Rightarrow>
             (RoundResync, previewActive, (rx_mark_discontinuous q)\<lparr>rq_readPos := rq_readPos q + n\<rparr>)
         | RxFrame width \<Rightarrow>
             let (previewActive, q) = handle_frame session (map sb_byte (take width bs)) (sb_ingress (hd bs))
                                        (sb_tsMs (hd bs)) (previewActive, q)
             in (RoundPacket, previewActive, q\<lparr>rq_readPos := rq_readPos q + width\<rparr>))"

definition rx_round :: "u32 \<Rightarrow> bool \<times> rx_queue \<Rightarrow> rx_outcome \<times> bool \<times> rx_queue" where
  "rx_round session r =
     (if dispatches_long (snd r) then long_round session r
      else if rx_pending (snd r) = [] then (RoundStop False, r)
      else short_round session r)"


subsection \<open>What a round leaves alone\<close>

definition rx_stream_part :: "rx_queue \<Rightarrow> staged list \<times> nat \<times> long_rx \<times> rx_packet list \<times> bool \<times> u32 \<times> bool" where
  "rx_stream_part q = (rq_rx q, rq_readPos q, rq_long q, rq_queue q, rq_pendingGap q, rq_lastIngress q,
     rq_longNeedsStart q)"

lemma effects_keep_stream [simp]:
  "rx_stream_part (rx_client f q) = rx_stream_part q"
  "rx_stream_part (rx_parser g q) = rx_stream_part q"
  "rx_stream_part (rx_mark_discontinuous q) = rx_stream_part q"
  "rx_stream_part (take_sweep_reset i q) = rx_stream_part q"
  "rx_stream_part (report_sweep ok i q) = rx_stream_part q"
  "rx_stream_part (report_alert session ok frame x ts q) = rx_stream_part q"
  "rx_stream_part (report_response frame x q) = rx_stream_part q"
  by (simp_all add: rx_stream_part_def rx_client_def rx_parser_def rx_mark_discontinuous_def take_sweep_reset_def
      report_sweep_def report_alert_def report_response_def Let_def split_beta split: option.split)

lemma note_parsed_keeps_stream [simp]: "rx_stream_part (snd (note_parsed ok r)) = rx_stream_part (snd r)"
  by (simp add: note_parsed_def rx_stream_part_def Let_def split_beta)

lemma parser_update_stream [simp]:
  "rx_stream_part (q\<lparr>rq_parser := p\<rparr>) = rx_stream_part q"
  "rx_stream_part (q\<lparr>rq_dispatched := ds\<rparr>) = rx_stream_part q"
  by (simp_all add: rx_stream_part_def)

lemma handle_keeps_stream [simp]: "rx_stream_part (snd (handle_frame session f x ts r)) = rx_stream_part (snd r)"
  by (simp add: handle_frame_def Let_def split_beta)

lemmas handle_stream_fields [simp] =
  handle_keeps_stream [unfolded rx_stream_part_def prod.inject, THEN conjunct1]
  handle_keeps_stream [unfolded rx_stream_part_def prod.inject, THEN conjunct2, THEN conjunct1]
  handle_keeps_stream [unfolded rx_stream_part_def prod.inject, THEN conjunct2, THEN conjunct2, THEN conjunct1]
  handle_keeps_stream [unfolded rx_stream_part_def prod.inject, THEN conjunct2, THEN conjunct2, THEN conjunct2,
    THEN conjunct1]

lemma mark_keeps [simp]:
  "rq_rx (rx_mark_discontinuous q) = rq_rx q" "rq_readPos (rx_mark_discontinuous q) = rq_readPos q"
  "rq_long (rx_mark_discontinuous q) = rq_long q" "rq_queue (rx_mark_discontinuous q) = rq_queue q"
  "rq_dispatched (rx_mark_discontinuous q) = rq_dispatched q" "rq_pendingGap (rx_mark_discontinuous q) = rq_pendingGap q"
  by (simp_all add: rx_mark_discontinuous_def)

section \<open>The parse loop\<close>

text \<open>Every round that goes on uses up staged bytes or the long candidate.\<close>

definition rx_left :: "rx_queue \<Rightarrow> nat" where
  "rx_left q = (length (rq_rx q) - rq_readPos q) + (if longRxComplete q then 1 else 0)"

lemma empty_not_complete [simp]: "\<not> long_complete empty_long"
  by (simp add: long_complete_def empty_long_def)

lemma start_at_Suc: "start_at bs = Some i \<Longrightarrow> i < length bs"
  by (induction bs arbitrary: i) (auto split: if_splits)

lemma gap_before_bound: "gap_before n bs = Some i \<Longrightarrow> 0 < i \<and> i < n"
  by (auto simp: gap_before_def split: option.splits if_splits)

lemma resync_progress: "rx_decide bs = RxResync n \<Longrightarrow> 0 < n"
  by (auto simp: rx_decide_def Let_def split: option.splits nat.splits if_splits dest!: gap_before_bound)

lemma frame_progress: "rx_decide bs = RxFrame n \<Longrightarrow> 6 < n \<and> n \<le> length bs"
  by (auto simp: rx_decide_def Let_def unat_gt_0 split: option.splits nat.splits if_splits)

lemma round_progress:
  assumes "rx_round session r = (k, r')" "k = RoundResync \<or> k = RoundPacket"
  shows "rx_left (snd r') < rx_left (snd r)"
proof -
  obtain b q where r: "r = (b, q)" by force
  show ?thesis
  proof (cases "dispatches_long q")
    case True
    with assms r show ?thesis
      by (auto simp: rx_round_def long_round_def rx_left_def dispatches_long_def Let_def split_beta
          clearLongRxState_def split: if_splits)
  next
    case False
    then have left: "rx_pending q \<noteq> []" and eq: "short_round session r = (k, r')"
      using assms r by (auto simp: rx_round_def split: if_splits)
    from left have "rq_readPos q < length (rq_rx q)" by (simp add: rx_pending_def)
    with eq assms(2) r show ?thesis
      by (auto simp: short_round_def rx_left_def Let_def split_beta split: rx_decision.splits if_splits
          dest!: resync_progress frame_progress)
  qed
qed

lemma round_decreases:
  "(RoundResync, r') = rx_round session r \<Longrightarrow> rx_left (snd r') < rx_left (snd r)"
  "(RoundPacket, r') = rx_round session r \<Longrightarrow> rx_left (snd r') < rx_left (snd r)"
  by (auto intro: round_progress [OF sym])

text \<open>\<open>elapsed i\<close> is what \<open>micros()\<close> has advanced by the \<open>i\<close>-th round of this call.\<close>

function rx_loop ::
    "u32 \<Rightarrow> nat \<Rightarrow> u32 \<Rightarrow> (nat \<Rightarrow> u32) \<Rightarrow> nat \<Rightarrow> nat \<Rightarrow> bool \<times> rx_queue \<Rightarrow> bool \<times> bool \<times> rx_queue" where
  "rx_loop session maxPackets budget elapsed i n r =
     (if n \<ge> maxPackets \<or> n \<ge> 8 \<and> elapsed i \<ge> budget then (False, r)
      else case rx_round session r of
             (RoundStop waiting, r') \<Rightarrow> (waiting, r')
           | (RoundResync, r') \<Rightarrow> rx_loop session maxPackets budget elapsed (Suc i) n r'
           | (RoundPacket, r') \<Rightarrow> rx_loop session maxPackets budget elapsed (Suc i) (Suc n) r')"
  by pat_completeness auto

termination rx_loop
  by (relation "measure (\<lambda>(session, maxPackets, budget, elapsed, i, n, r). rx_left (snd r))")
    (auto dest: round_decreases)

declare rx_loop.simps [simp del]

section \<open>The pass\<close>

text \<open>
  A candidate with all its chunks is a frame or is given up; a frame waits for the older short
  bytes, or goes to the empty buffer at once.
\<close>

definition qualify_long :: "bool \<Rightarrow> rx_queue \<Rightarrow> rx_queue" where
  "qualify_long accepted q =
     (if accepted \<and> longRxComplete q \<and> \<not> longRxHasCompleteFrame q
      then (clearLongRxState q)\<lparr>rq_pendingGap := True, rq_inputDrops := rq_inputDrops q + 1\<rparr> else q)"

definition hold_long :: "bool \<Rightarrow> rx_queue \<Rightarrow> rx_queue" where
  "hold_long accepted q =
     (if accepted \<and> longRxComplete q
      then
        let q = q\<lparr>rq_long := (rq_long q)\<lparr>lr_shortStreamEnd := length (rq_rx q)\<rparr>\<rparr>
        in if rq_readPos q \<ge> length (rq_rx q) then snd (flushCompleteLongRx (clearRxState q)) else q
      else q)"

text \<open>One long chunk at the head of the queue.\<close>

definition take_long_chunk :: "rx_packet \<Rightarrow> rx_queue \<Rightarrow> rx_queue" where
  "take_long_chunk k q =
     (let gap = (ingressWouldBeDiscontinuous (rp_ingress k) q \<or> rq_pendingGap q);
          (accepted, q) = appendLongRxChunk k gap (acceptIngressSequence (rp_ingress k) q)
      in hold_long accepted (qualify_long accepted (q\<lparr>rq_pendingGap := \<not> accepted\<rparr>)))"

definition take_short :: "rx_packet \<Rightarrow> rx_queue \<Rightarrow> bool \<times> rx_queue" where
  "take_short k q =
     (let gap = (ingressWouldBeDiscontinuous (rp_ingress k) q \<or> rq_pendingGap q);
          (ok, q) = appendRxPacket k gap q
      in if \<not> ok then (False, q)
         else (True, (acceptIngressSequence (rp_ingress k) q)\<lparr>rq_pendingGap := False\<rparr>))"

text \<open>
  The queue from its head: the result tells whether a complete long candidate blocks it, and the
  time stamp of the last notification taken. What the callback adds meanwhile is drained by the
  next pass.
\<close>

fun rx_drain :: "bool \<Rightarrow> u32 \<Rightarrow> u32 \<Rightarrow> rx_packet list \<Rightarrow> rx_queue \<Rightarrow> bool \<times> u32 \<times> rx_queue" where
  "rx_drain sessionOpen g ts [] q = (False, ts, q\<lparr>rq_queue := []\<rparr>)"
| "rx_drain sessionOpen g ts (k # ks) q =
     (if \<not> sessionOpen \<or> rp_session k \<noteq> g then rx_drain sessionOpen g ts ks q
      else if rp_charUUID k = LONG_NOTIFY_CHARACTERISTIC then
        if longRxComplete q then (True, ts, q\<lparr>rq_queue := k # ks\<rparr>)
        else rx_drain sessionOpen g (rp_tsMs k) ks (take_long_chunk k q)
      else
        let (ok, q') = take_short k q
        in if ok then rx_drain sessionOpen g (rp_tsMs k) ks q' else (False, ts, q'\<lparr>rq_queue := k # ks\<rparr>))"

definition max_packets :: "nat \<Rightarrow> nat \<Rightarrow> nat \<Rightarrow> bool \<Rightarrow> nat" where
  "max_packets depth available queued previewActive =
     (let half = max 4 (depth div 2); high = max 6 ((depth * 3) div 4); n = 8;
          n = (if available \<ge> 192 \<or> queued \<ge> half then 16 else n);
          n = (if available \<ge> 320 \<or> queued \<ge> high then 24 else n);
          n = (if available \<ge> 448 \<and> queued \<ge> high then 32 else n)
      in if previewActive \<and> n > 16 then 16 else n)"

definition parse_budget :: "nat \<Rightarrow> u32" where
  "parse_budget n = (if n > 8 then 7000 else 2500)"

text \<open>A short frame whose tail is queued behind the next long notification is given up.\<close>

definition break_circular_wait :: "bool \<Rightarrow> bool \<Rightarrow> rx_queue \<Rightarrow> rx_queue" where
  "break_circular_wait blocked waiting q =
     (if blocked \<and> longRxComplete q \<and> waiting
      then (clearRxState (rx_mark_discontinuous q))\<lparr>rq_inputDrops := rq_inputDrops q + 1\<rparr> else q)"

definition rx_tidy :: "rx_queue \<Rightarrow> rx_queue" where
  "rx_tidy q =
     (if rq_readPos q \<ge> length (rq_rx q)
      then applyPendingDiscontinuityIfStreamDrained (clearRxState q)
      else if rq_readPos q \<ge> RX_COMPACT_THRESHOLD then compactRxState q else q)"

definition publish_held :: "rx_queue \<Rightarrow> rx_queue" where
  "publish_held q =
     (if longRxComplete q \<and> rq_readPos q \<ge> length (rq_rx q)
      then snd (flushCompleteLongRx (clearRxState q)) else q)"

definition rx_parse :: "bool \<Rightarrow> (nat \<Rightarrow> u32) \<Rightarrow> nat \<Rightarrow> bool \<Rightarrow> u32 \<Rightarrow> rx_queue \<Rightarrow> rx_queue" where
  "rx_parse previewActive elapsed queued blocked session q =
     (let n = max_packets (rq_depth q) (length (rq_rx q) - rq_readPos q) queued previewActive;
          (waiting, _, q) = rx_loop session n (parse_budget n) elapsed 0 0 (previewActive, q)
      in rx_tidy (break_circular_wait blocked waiting q))"

text \<open>The first half of a pass, up to the time stamp of the last notification taken.\<close>

definition rx_take :: "rx_queue \<Rightarrow> bool \<times> rx_queue" where
  "rx_take q =
     (let q = publish_held q;
          (blocked, ts, q) =
            (if rq_ready q then rx_drain (rq_accept q) (rq_session q) 0 (rq_queue q) q else (False, 0, q))
      in (blocked, if ts \<noteq> 0 then q\<lparr>rq_lastRxMillis := ts, rq_lastNotifyTsMs := ts\<rparr> else q))"

definition rx_process :: "bool \<Rightarrow> (nat \<Rightarrow> u32) \<Rightarrow> rx_queue \<Rightarrow> rx_queue" where
  "rx_process previewActive elapsed q =
     (let session = rq_session q; queued = (if rq_ready q then length (rq_queue q) else 0);
          (blocked, q) = rx_take q
      in refreshBackpressureState
           (if rq_readPos q \<ge> length (rq_rx q) then applyPendingDiscontinuityIfStreamDrained (clearRxState q)
            else rx_parse previewActive elapsed queued blocked session q))"

end
