(* ===== verification/V1_Rx_Frames.thy ===== *)
theory V1_Rx_Frames
  imports V1_Rx_Process
begin

text \<open>
  What the parse loop is to find in a stream: the reference extraction reads the whole stream at
  once. A frame or a resynchronisation found at the start of a stream is found there whatever
  follows, so the extraction can be cut anywhere; the loop, which sees the stream notification by
  notification, therefore finds the same frames.
\<close>

section \<open>The reference extraction\<close>

type_synonym handled_frame = "u8 list \<times> u32 \<times> u32"

definition frame_of :: "nat \<Rightarrow> staged list \<Rightarrow> handled_frame" where
  "frame_of width bs = (map sb_byte (take width bs), sb_ingress (hd bs), sb_tsMs (hd bs))"

function frames :: "staged list \<Rightarrow> handled_frame list" where
  "frames bs =
     (if bs = [] then []
      else case rx_decide bs of
             RxDrop \<Rightarrow> [] | RxWait \<Rightarrow> []
           | RxResync n \<Rightarrow> frames (drop n bs)
           | RxFrame width \<Rightarrow> frame_of width bs # frames (drop width bs))"
  by pat_completeness auto

termination frames
  by (relation "measure length") (auto dest: resync_progress frame_progress)

declare frames.simps [simp del]

lemma frames_Nil [simp]: "frames [] = []"
  by (simp add: frames.simps)

lemma decide_Nil [simp]: "rx_decide [] = RxDrop"
  by (simp add: rx_decide_def)

lemma frames_cases:
  "rx_decide bs = RxDrop \<Longrightarrow> frames bs = []"
  "rx_decide bs = RxWait \<Longrightarrow> frames bs = []"
  "rx_decide bs = RxResync n \<Longrightarrow> frames bs = frames (drop n bs)"
  "rx_decide bs = RxFrame width \<Longrightarrow> frames bs = frame_of width bs # frames (drop width bs)"
  by (cases "bs = []"; simp add: frames.simps [of bs])+

section \<open>What follows does not matter\<close>

lemma next_gap_append:
  "next_gap (xs @ ys) =
     (case next_gap xs of Some i \<Rightarrow> Some i | None \<Rightarrow> map_option (\<lambda>i. length xs + i) (next_gap ys))"
  by (cases "next_gap ys"; induction xs) (auto split: option.splits)

lemma start_at_append:
  "start_at (xs @ ys) =
     (case start_at xs of Some i \<Rightarrow> Some i | None \<Rightarrow> map_option (\<lambda>i. length xs + i) (start_at ys))"
  by (cases "start_at ys"; induction xs) (auto split: option.splits)

lemma gap_before_Some_append: "gap_before n bs = Some i \<Longrightarrow> gap_before n (bs @ cs) = Some i"
  by (cases bs) (auto simp: gap_before_def next_gap_append split: option.splits if_splits)

lemma gap_before_None_append:
  "n \<le> length bs \<Longrightarrow> gap_before n bs = None \<Longrightarrow> gap_before n (bs @ cs) = None"
  by (cases bs) (auto simp: gap_before_def next_gap_append split: option.splits if_splits)

lemma decide_Drop_iff: "rx_decide bs = RxDrop \<longleftrightarrow> start_at bs = None"
  by (auto simp: rx_decide_def Let_def split: option.splits nat.splits if_splits)

text \<open>The decision at a start byte, once the header is there.\<close>

definition header_decide :: "staged list \<Rightarrow> rx_decision" where
  "header_decide bs =
     (let width = 6 + unat (sb_byte (bs ! 4)) in
      if sb_byte (bs ! 4) = 0 \<or> width > 512 then RxResync 1
      else case gap_before width bs of Some i \<Rightarrow> RxResync i
           | None \<Rightarrow> if length bs < width then RxWait
                      else if sb_byte (bs ! (width - 1)) \<noteq> ESP_PACKET_END then RxResync 1 else RxFrame width)"

lemma decide_cases:
  "start_at bs = Some (Suc i) \<Longrightarrow> rx_decide bs = RxResync (Suc i)"
  "start_at bs = Some 0 \<Longrightarrow> gap_before 6 bs = Some k \<Longrightarrow> rx_decide bs = RxResync k"
  "start_at bs = Some 0 \<Longrightarrow> gap_before 6 bs = None \<Longrightarrow> length bs < 6 \<Longrightarrow> rx_decide bs = RxWait"
  "start_at bs = Some 0 \<Longrightarrow> gap_before 6 bs = None \<Longrightarrow> 6 \<le> length bs \<Longrightarrow> rx_decide bs = header_decide bs"
  by (simp_all add: rx_decide_def header_decide_def Let_def)

lemma header_append:
  assumes "6 \<le> length bs" "header_decide bs \<noteq> RxWait"
  shows "header_decide (bs @ cs) = header_decide bs"
proof -
  let ?w = "6 + unat (sb_byte (bs ! 4))"
  have nth: "(bs @ cs) ! 4 = bs ! 4" using assms(1) by (simp add: nth_append)
  show ?thesis
  proof (cases "sb_byte (bs ! 4) = 0 \<or> ?w > 512")
    case True
    with nth show ?thesis by (auto simp: header_decide_def Let_def)
  next
    case go: False
    show ?thesis
    proof (cases "gap_before ?w bs")
      case None
      with assms(2) go have "?w \<le> length bs" by (auto simp: header_decide_def Let_def split: if_splits)
      with None nth show ?thesis
        by (simp add: header_decide_def Let_def gap_before_None_append nth_append)
    next
      case (Some i)
      with nth show ?thesis by (simp add: header_decide_def Let_def gap_before_Some_append)
    qed
  qed
qed

lemma decide_append:
  assumes "rx_decide bs \<noteq> RxDrop" "rx_decide bs \<noteq> RxWait"
  shows "rx_decide (bs @ cs) = rx_decide bs"
proof -
  from assms(1) obtain i where i: "start_at bs = Some i" by (auto simp: decide_Drop_iff)
  then have a: "start_at (bs @ cs) = Some i" by (simp add: start_at_append)
  show ?thesis
  proof (cases i)
    case (Suc j)
    with i a show ?thesis by (simp add: decide_cases)
  next
    case 0
    show ?thesis
    proof (cases "gap_before 6 bs")
      case None
      with assms(2) i 0 have "6 \<le> length bs" using decide_cases(3) [of bs] by force
      with None assms(2) i 0 a show ?thesis
        using header_append [of bs cs] by (simp add: decide_cases gap_before_None_append)
    next
      case (Some k)
      with i 0 a show ?thesis by (simp add: decide_cases gap_before_Some_append)
    qed
  qed
qed

lemma next_gap_bound: "next_gap bs = Some i \<Longrightarrow> i < length bs"
  by (induction bs arbitrary: i) (auto split: if_splits)

lemma gap_before_within: "gap_before n bs = Some i \<Longrightarrow> i \<le> length bs"
  by (cases bs) (auto simp: gap_before_def split: option.splits if_splits dest!: next_gap_bound)

lemma resync_within: "rx_decide bs = RxResync n \<Longrightarrow> n \<le> length bs"
  by (auto simp: rx_decide_def Let_def split: option.splits nat.splits if_splits
      dest!: start_at_Suc gap_before_within)

lemma frames_start_None: "start_at xs = None \<Longrightarrow> frames (xs @ ys) = frames ys"
proof (cases "start_at ys")
  case None
  assume "start_at xs = None"
  with None have "rx_decide (xs @ ys) = RxDrop" "rx_decide ys = RxDrop"
    by (simp_all add: decide_Drop_iff start_at_append)
  then show ?thesis by (simp add: frames_cases)
next
  case (Some i)
  assume none: "start_at xs = None"
  show ?thesis
  proof (cases xs)
    case (Cons b bs)
    with none Some have "start_at (xs @ ys) = Some (Suc (length bs + i))"
      by (simp only: start_at_append) simp
    then have "rx_decide (xs @ ys) = RxResync (length xs + i)" by (simp only: rx_decide_def) (simp add: Cons)
    then have "frames (xs @ ys) = frames (drop i ys)" by (simp add: frames_cases)
    also have "\<dots> = frames ys"
    proof (cases i)
      case (Suc j)
      with Some have "rx_decide ys = RxResync i" by (simp add: rx_decide_def)
      then show ?thesis by (simp add: frames_cases)
    qed simp
    finally show ?thesis .
  qed simp
qed

text \<open>The steps of the loop, on a stream that goes on.\<close>

lemma frames_append_cases:
  "rx_decide bs = RxDrop \<Longrightarrow> frames (bs @ cs) = frames cs"
  "rx_decide bs = RxResync n \<Longrightarrow> frames (bs @ cs) = frames (drop n bs @ cs)"
  "rx_decide bs = RxFrame width \<Longrightarrow> frames (bs @ cs) = frame_of width bs # frames (drop width bs @ cs)"
proof -
  show "frames (bs @ cs) = frames cs" if "rx_decide bs = RxDrop"
    using that by (simp add: decide_Drop_iff frames_start_None)
  show "frames (bs @ cs) = frames (drop n bs @ cs)" if "rx_decide bs = RxResync n"
    using frames_cases(3) [of "bs @ cs" n] decide_append [of bs cs] resync_within [OF that] that by simp
  show "frames (bs @ cs) = frame_of width bs # frames (drop width bs @ cs)" if w: "rx_decide bs = RxFrame width"
  proof -
    from frame_progress [OF w] have "width \<le> length bs" "bs \<noteq> []" by auto
    then have "frame_of width (bs @ cs) = frame_of width bs" by (simp add: frame_of_def)
    with frames_cases(4) [of "bs @ cs" width] decide_append [of bs cs] w \<open>width \<le> length bs\<close> show ?thesis by simp
  qed
qed

section \<open>Frames lie between the gaps\<close>

lemma next_gap_None: "next_gap bs = None \<longleftrightarrow> (\<forall>b\<in>set bs. \<not> sb_gap b)"
  by (induction bs) auto

lemma next_gap_take: "next_gap bs = Some i \<Longrightarrow> n \<le> i \<Longrightarrow> b \<in> set (take n bs) \<Longrightarrow> \<not> sb_gap b"
proof (induction bs arbitrary: i n)
  case (Cons c bs)
  then show ?case by (cases n) (auto split: if_splits)
qed simp

lemma gap_before_None_unmarked:
  assumes "gap_before n bs = None" "b \<in> set (tl (take n bs))"
  shows "\<not> sb_gap b"
proof -
  from assms(2) have b: "b \<in> set (take (n - 1) (tl bs))" by (cases n; cases bs) auto
  show ?thesis
  proof (cases "next_gap (tl bs)")
    case None
    with b show ?thesis by (auto simp: next_gap_None dest: in_set_takeD)
  next
    case (Some i)
    with assms(1) have "n - 1 \<le> i" by (auto simp: gap_before_def split: if_splits)
    with Some b show ?thesis using next_gap_take by blast
  qed
qed

text \<open>What the loop takes for a frame.\<close>

definition short_frame :: "staged list \<Rightarrow> bool" where
  "short_frame seg \<longleftrightarrow> complete_frame (map sb_byte seg) \<and> list_all (\<lambda>b. \<not> sb_gap b) (tl seg)"

lemma start_at_zero: "start_at bs = Some 0 \<Longrightarrow> bs \<noteq> [] \<and> sb_byte (hd bs) = ESP_PACKET_START"
  by (cases bs) (auto split: if_splits)

lemma decide_frame_complete:
  assumes "rx_decide bs = RxFrame width"
  shows "short_frame (take width bs)"
proof -
  from assms have w: "start_at bs = Some 0" "sb_byte (bs ! 4) \<noteq> 0" "width = 6 + unat (sb_byte (bs ! 4))"
      "gap_before width bs = None" "width \<le> length bs" "sb_byte (bs ! (width - 1)) = ESP_PACKET_END"
    by (auto simp: rx_decide_def Let_def split: option.splits nat.splits if_splits)
  moreover have "6 < width" using frame_progress [OF assms] by simp
  ultimately show ?thesis
    using start_at_zero [OF w(1)] gap_before_None_unmarked [OF w(4)]
    by (auto simp: short_frame_def complete_frame_def hd_conv_nth list_all_iff)
qed

lemma frames_sound:
  "h \<in> set (frames bs) \<Longrightarrow>
     \<exists>pre seg post. bs = pre @ seg @ post \<and> short_frame seg \<and> h = (map sb_byte seg, sb_ingress (hd seg), sb_tsMs (hd seg))"
proof (induction bs rule: frames.induct)
  case (1 bs)
  show ?case
  proof (cases "rx_decide bs")
    case (RxResync n)
    with 1 obtain pre seg post where "drop n bs = pre @ seg @ post" "short_frame seg"
        "h = (map sb_byte seg, sb_ingress (hd seg), sb_tsMs (hd seg))"
      by (cases "bs = []") (auto simp: frames_cases)
    then show ?thesis by (metis append_take_drop_id append.assoc)
  next
    case (RxFrame w)
    then have w: "0 < w" "bs \<noteq> []" using frame_progress [OF RxFrame] by auto
    show ?thesis
    proof (cases "h = frame_of w bs")
      case True
      then have "h = (map sb_byte (take w bs), sb_ingress (hd (take w bs)), sb_tsMs (hd (take w bs)))"
        using w by (simp add: frame_of_def)
      moreover have "bs = [] @ take w bs @ drop w bs" by simp
      ultimately show ?thesis using decide_frame_complete [OF RxFrame] by blast
    next
      case False
      with 1 RxFrame w obtain pre seg post where "drop w bs = pre @ seg @ post" "short_frame seg"
          "h = (map sb_byte seg, sb_ingress (hd seg), sb_tsMs (hd seg))"
        by (auto simp: frames_cases)
      then show ?thesis by (metis append_take_drop_id append.assoc)
    qed
  qed (use 1 in \<open>auto simp: frames_cases\<close>)
qed

section \<open>Only the bytes and the marks count\<close>

text \<open>The extraction finds the same bytes in streams that agree on the bytes and the marks.\<close>

definition same_stream :: "staged list \<Rightarrow> staged list \<Rightarrow> bool" where
  "same_stream xs ys \<longleftrightarrow> list_all2 (\<lambda>x y. sb_byte x = sb_byte y \<and> sb_gap x = sb_gap y) xs ys"

lemma same_stream_start: "same_stream xs ys \<Longrightarrow> start_at xs = start_at ys"
  unfolding same_stream_def by (induction rule: list_all2_induct) auto

lemma same_stream_gap: "same_stream xs ys \<Longrightarrow> next_gap xs = next_gap ys"
  unfolding same_stream_def by (induction rule: list_all2_induct) auto

lemma same_stream_parts:
  "same_stream xs ys \<Longrightarrow> same_stream (tl xs) (tl ys)"
  "same_stream xs ys \<Longrightarrow> length xs = length ys"
  "same_stream xs ys \<Longrightarrow> same_stream (drop n xs) (drop n ys)"
  "same_stream xs ys \<Longrightarrow> map sb_byte xs = map sb_byte ys"
  "same_stream xs ys \<Longrightarrow> i < length xs \<Longrightarrow> sb_byte (xs ! i) = sb_byte (ys ! i)"
  by (auto simp: same_stream_def list_all2_conv_all_nth nth_tl intro: nth_equalityI)

lemma same_stream_decide: "same_stream xs ys \<Longrightarrow> rx_decide xs = rx_decide ys"
  using same_stream_start [of xs ys] same_stream_gap [of "tl xs" "tl ys"] same_stream_parts [of xs ys]
  by (auto simp: rx_decide_def gap_before_def Let_def split: option.splits nat.splits)

lemma same_stream_frames: "same_stream xs ys \<Longrightarrow> map fst (frames xs) = map fst (frames ys)"
proof (induction xs arbitrary: ys rule: frames.induct)
  case (1 xs)
  note same = same_stream_decide [OF 1(3)] same_stream_parts [OF 1(3)]
  show ?case
  proof (cases "xs = []")
    case True
    with 1(3) show ?thesis by (simp add: same_stream_def)
  next
    case False
    show ?thesis
    proof (cases "rx_decide xs")
      case (RxResync n)
      moreover have "rx_decide ys = RxResync n" using same(1) RxResync by simp
      ultimately show ?thesis using 1(1) [OF False RxResync same(4)] by (simp add: frames_cases)
    next
      case (RxFrame w)
      have "take w (map sb_byte xs) = take w (map sb_byte ys)" using same(5) by simp
      moreover have "rx_decide ys = RxFrame w" using same(1) RxFrame by simp
      ultimately show ?thesis using 1(2) [OF False RxFrame same(4)] RxFrame
        by (simp add: frames_cases frame_of_def take_map)
    qed (use same(1) in \<open>simp_all add: frames_cases\<close>)
  qed
qed

end
