(* ===== verification/V1_Rx_Invariant.thy ===== *)
theory V1_Rx_Invariant
  imports V1_Rx_Machine
begin

text \<open>
  The invariant of the notification queue: the bounds of the buffers, the shape of the long
  assembly, and the provenance of every byte and frame in the current session.
\<close>

section \<open>The invariant\<close>

definition buffer_inv :: "rx_queue \<Rightarrow> bool" where
  "buffer_inv q \<longleftrightarrow>
     rq_readPos q \<le> length (rq_rx q) \<and> length (rq_rx q) - rq_readPos q \<le> RX_BUFFER_MAX \<and>
     length (rq_rx q) < RX_BUFFER_MAX + RX_PACKET_BYTES \<and> lr_shortStreamEnd (rq_long q) \<le> length (rq_rx q)"

definition queue_inv :: "rx_queue \<Rightarrow> bool" where
  "queue_inv q \<longleftrightarrow>
     length (rq_queue q) \<le> rq_depth q \<and> set (rq_queue q) \<subseteq> set (rq_admitted q) \<and>
     list_all (\<lambda>k. 0 < length (rp_data k) \<and> length (rp_data k) \<le> RX_PACKET_BYTES) (rq_admitted q)"

definition long_shape :: "long_rx \<Rightarrow> bool" where
  "long_shape l \<longleftrightarrow>
     length (lr_payloads l) = MAX_LONG_CHUNKS \<and> list_all (\<lambda>d. length d \<le> MAX_LONG_CHUNK_PAYLOAD) (lr_payloads l) \<and>
     lr_count l \<le> MAX_LONG_CHUNKS"

definition long_whole :: "long_rx \<Rightarrow> bool" where
  "long_whole l \<longleftrightarrow> (long_complete l \<longrightarrow> complete_frame (long_bytes l))"

text \<open>A notification of the session gave the sequence number and the time.\<close>

definition origin :: "rx_queue \<Rightarrow> u32 \<Rightarrow> u32 \<Rightarrow> bool" where
  "origin q x t \<longleftrightarrow>
     (\<exists>k\<in>set (rq_admitted q). rp_session k = rq_session q \<and> rp_ingress k = x \<and> rp_tsMs k = t)"

definition staged_origin :: "rx_queue \<Rightarrow> bool" where
  "staged_origin q \<longleftrightarrow> list_all (\<lambda>b. origin q (sb_ingress b) (sb_tsMs b)) (rq_rx q) \<and>
     (lr_count (rq_long q) \<noteq> 0 \<longrightarrow> origin q (lr_firstIngress (rq_long q)) (lr_firstTsMs (rq_long q)))"

definition dispatched_origin :: "rx_queue \<Rightarrow> bool" where
  "dispatched_origin q \<longleftrightarrow> list_all (\<lambda>(f, x, t). complete_frame f \<and> origin q x t) (rq_dispatched q)"

definition rx_inv :: "rx_queue \<Rightarrow> bool" where
  "rx_inv q \<longleftrightarrow> buffer_inv q \<and> queue_inv q \<and> long_shape (rq_long q) \<and> long_whole (rq_long q) \<and>
     staged_origin q \<and> dispatched_origin q"

lemmas rx_inv_parts = rx_inv_def buffer_inv_def queue_inv_def staged_origin_def dispatched_origin_def origin_def

lemma empty_long_inv [simp]: "long_shape empty_long" "long_whole empty_long" "lr_count empty_long = 0"
    "lr_shortStreamEnd empty_long = 0"
  by (simp_all add: long_shape_def long_whole_def) (simp_all add: empty_long_def list_all_iff)

lemma stream_end_inv [simp]:
  "long_shape (l\<lparr>lr_shortStreamEnd := n\<rparr>) = long_shape l" "long_whole (l\<lparr>lr_shortStreamEnd := n\<rparr>) = long_whole l"
  "long_complete (l\<lparr>lr_shortStreamEnd := n\<rparr>) = long_complete l"
  "long_bytes (l\<lparr>lr_shortStreamEnd := n\<rparr>) = long_bytes l"
  by (simp_all add: long_shape_def long_whole_def long_complete_def long_bytes_def)

section \<open>The buffers\<close>

text \<open>Everything but the sequence numbers, the flags and the counters.\<close>

definition inv_part where
  "inv_part q = (rq_rx q, rq_readPos q, rq_long q, rq_queue q, rq_depth q, rq_admitted q, rq_dispatched q, rq_session q)"

lemma inv_part_cong: "inv_part q = inv_part q' \<Longrightarrow> rx_inv q = rx_inv q'"
  by (simp add: rx_inv_parts inv_part_def)

lemma free_fields_rx [simp]:
  "rx_inv (q\<lparr>rq_pendingGap := b\<rparr>) = rx_inv q" "rx_inv (q\<lparr>rq_inputDrops := n\<rparr>) = rx_inv q"
  "rx_inv (q\<lparr>rq_lastIngress := x\<rparr>) = rx_inv q" "rx_inv (q\<lparr>rq_longNeedsStart := b\<rparr>) = rx_inv q"
  "rx_inv (q\<lparr>rq_client := c\<rparr>) = rx_inv q" "rx_inv (q\<lparr>rq_parser := p\<rparr>) = rx_inv q"
  "rx_inv (q\<lparr>rq_parsed := b\<rparr>) = rx_inv q" "rx_inv (q\<lparr>rq_backpressure := b\<rparr>) = rx_inv q"
  "rx_inv (q\<lparr>rq_lastRxMillis := t\<rparr>) = rx_inv q" "rx_inv (q\<lparr>rq_lastNotifyTsMs := t\<rparr>) = rx_inv q"
  "rx_inv (q\<lparr>rq_accept := b\<rparr>) = rx_inv q" "rx_inv (q\<lparr>rq_ready := b\<rparr>) = rx_inv q"
  by (rule inv_part_cong, simp add: inv_part_def)+

lemma clear_inv [simp]: "rx_inv q \<Longrightarrow> rx_inv (clearRxState q)" "rx_inv q \<Longrightarrow> rx_inv (clearLongRxState q)"
  by (auto simp: rx_inv_parts clearRxState_def clearLongRxState_def RX_BUFFER_MAX_def RX_PACKET_BYTES_def)

lemma compact_shape:
  "rq_readPos q \<le> length (rq_rx q) \<Longrightarrow> rx_pending (compactRxState q) = rx_pending q"
  "rq_readPos q \<le> length (rq_rx q) \<Longrightarrow> rq_readPos (compactRxState q) = 0"
  by (auto simp: compactRxState_def rx_pending_def clearRxState_def Let_def)

lemma compact_inv [simp]: "rx_inv q \<Longrightarrow> rx_inv (compactRxState q)"
  by (auto simp: rx_inv_parts compactRxState_def Let_def clearRxState_def RX_BUFFER_MAX_def RX_PACKET_BYTES_def
      list_all_iff dest: in_set_dropD)

lemma compact_fields [simp]:
  "rq_admitted (compactRxState q) = rq_admitted q" "rq_session (compactRxState q) = rq_session q"
  "rq_dispatched (compactRxState q) = rq_dispatched q" "rq_queue (compactRxState q) = rq_queue q"
  "rq_depth (compactRxState q) = rq_depth q"
  by (simp_all add: compactRxState_def Let_def clearRxState_def)

lemma origin_cong [simp]:
  "origin (compactRxState q) x t = origin q x t" "origin (q\<lparr>rq_rx := r\<rparr>) x t = origin q x t"
  "origin (q\<lparr>rq_readPos := n\<rparr>) x t = origin q x t" "origin (q\<lparr>rq_long := l\<rparr>) x t = origin q x t"
  by (simp_all add: origin_def)

lemma stage_length [simp]: "length (stage data x ts gap) = length data"
  by (cases data) (simp_all add: stage_def)

lemma stage_origin: "b \<in> set (stage data x ts gap) \<Longrightarrow> data \<noteq> [] \<and> sb_ingress b = x \<and> sb_tsMs b = ts"
  by (cases data) (auto simp: stage_def)

lemma stage_inv:
  assumes "rx_inv q" "origin q x ts" "rq_readPos q = 0 \<or> length (rq_rx q) < RX_BUFFER_MAX"
    and "rx_unread q + length data \<le> RX_BUFFER_MAX" "length data \<le> RX_PACKET_BYTES"
  shows "rx_inv (q\<lparr>rq_rx := rq_rx q @ stage data x ts gap\<rparr>)"
proof -
  from assms(3,4,5) have "length (rq_rx q) + length data < RX_BUFFER_MAX + RX_PACKET_BYTES"
    by (auto simp: rx_unread_def RX_PACKET_BYTES_def split: if_splits)
  with assms(1,2,4) show ?thesis
    by (auto simp: rx_inv_def buffer_inv_def queue_inv_def staged_origin_def dispatched_origin_def
        list_all_iff rx_unread_def split: if_splits dest: stage_origin)
qed

lemma appendRxBytes_inv:
  assumes "rx_inv q" "origin q x ts" "length data \<le> RX_PACKET_BYTES"
  shows "rx_inv (snd (appendRxBytes data x ts gap q))"
proof (cases "data = []")
  case False
  define c where "c \<longleftrightarrow> rq_readPos q > 0 \<and>
    (length (rq_rx q) \<ge> RX_BUFFER_MAX \<or> rx_unread q + length data > RX_BUFFER_MAX)"
  let ?q = "if c then compactRxState q else q"
  from assms(1) have r: "rq_readPos q \<le> length (rq_rx q)" by (simp add: rx_inv_def buffer_inv_def)
  with assms have q: "rx_inv ?q" "origin ?q x ts" "rq_readPos ?q = 0 \<or> length (rq_rx ?q) < RX_BUFFER_MAX"
    by (auto simp: c_def compact_shape)
  have "snd (appendRxBytes data x ts gap q) =
     (if rx_unread ?q \<ge> RX_BUFFER_MAX \<or> rx_unread ?q + length data > RX_BUFFER_MAX then ?q
      else ?q\<lparr>rq_rx := rq_rx ?q @ stage data x ts gap\<rparr>)"
    using False unfolding appendRxBytes_def c_def [symmetric] Let_def by (simp del: if_distrib)
  moreover have "rx_inv (?q\<lparr>rq_rx := rq_rx ?q @ stage data x ts gap\<rparr>)"
    if "rx_unread ?q + length data \<le> RX_BUFFER_MAX"
    using stage_inv [OF q that assms(3)] .
  ultimately show ?thesis using q(1) by (simp del: if_distrib)
qed (simp add: appendRxBytes_def assms)

text \<open>What staging leaves alone; the origins of the session only change at its boundary.\<close>

definition session_part :: "rx_queue \<Rightarrow> rx_packet list \<times> u32 \<times> handled_frame list \<times> rx_packet list \<times> nat" where
  "session_part q = (rq_admitted q, rq_session q, rq_dispatched q, rq_queue q, rq_depth q)"

lemma origin_session: "session_part q = session_part q' \<Longrightarrow> origin q = origin q'"
  by (simp add: session_part_def origin_def fun_eq_iff)

lemma staging_session [simp]:
  "session_part (snd (appendRxBytes data x ts gap q)) = session_part q"
  "session_part (clearRxState q) = session_part q" "session_part (clearLongRxState q) = session_part q"
  "session_part (compactRxState q) = session_part q" "session_part (acceptIngressSequence x q) = session_part q"
  "session_part (snd (appendLongRxChunk k gap q)) = session_part q"
  "session_part (rx_mark_discontinuous q) = session_part q"
  "session_part (applyPendingDiscontinuityIfStreamDrained q) = session_part q"
  by (simp_all add: session_part_def appendRxBytes_def clearRxState_def clearLongRxState_def compactRxState_def
      acceptIngressSequence_def appendLongRxChunk_def rx_mark_discontinuous_def
      applyPendingDiscontinuityIfStreamDrained_def Let_def)

lemma append_slots_keep:
  assumes "rx_inv q" "origin q x ts" "\<forall>d\<in>set slots. length d \<le> RX_PACKET_BYTES"
  shows "rx_inv (snd (append_slots slots x ts gap q)) \<and> session_part (snd (append_slots slots x ts gap q)) = session_part q"
proof -
  let ?f = "\<lambda>(slot :: nat, payload) (ok, q). if ok then appendRxBytes payload x ts (gap \<and> slot = 0) q else (False, q)"
  have "rx_inv (snd (fold ?f xs (ok, r))) \<and> session_part (snd (fold ?f xs (ok, r))) = session_part q"
    if "rx_inv r" "session_part r = session_part q" "\<forall>d\<in>set xs. length (snd d) \<le> RX_PACKET_BYTES" for xs ok r
    using that
  proof (induction xs arbitrary: ok r)
    case (Cons s xs)
    show ?case
    proof (cases ok)
      case True
      obtain ok' r' where a: "appendRxBytes (snd s) x ts (gap \<and> fst s = 0) r = (ok', r')" by fastforce
      have o: "origin r x ts" using origin_session [OF Cons.prems(2)] assms(2) by simp
      have "rx_inv r'" using appendRxBytes_inv [OF Cons.prems(1) o, of "snd s" "gap \<and> fst s = 0"] a Cons.prems(3) by simp
      moreover have "session_part r' = session_part q"
        using staging_session(1) [of "snd s" x ts "gap \<and> fst s = 0" r] a Cons.prems(2) by simp
      ultimately show ?thesis using Cons.IH [of r' ok'] Cons.prems(3) True a by (simp add: split_beta)
    qed (use Cons in \<open>simp add: split_beta\<close>)
  qed simp
  moreover have "\<forall>d\<in>set (enumerate 0 slots). length (snd d) \<le> RX_PACKET_BYTES"
    using assms(3) by (metis map_snd_enumerate image_eqI set_map)
  ultimately show ?thesis using assms(1) by (simp add: append_slots_def)
qed

section \<open>The long assembly\<close>

lemma place_chunk_shape:
  assumes "long_shape l" "chunk_length_ok k" "chunk_prefix_ok k"
  shows "long_shape (place_chunk k gap l)"
proof -
  from assms(2,3) have k: "length (tl (rp_data k)) \<le> MAX_LONG_CHUNK_PAYLOAD" "chunk_count k \<le> MAX_LONG_CHUNKS"
    by (auto simp: chunk_length_ok_def chunk_prefix_ok_def)
  have e: "long_shape (start_candidate (chunk_count k) k g l')" if "long_shape l'" for g l'
    using that k by (simp add: long_shape_def start_candidate_def)
  have u: "long_shape (l'\<lparr>lr_payloads := (lr_payloads l')[i := tl (rp_data k)], lr_presentMask := m\<rparr>)"
    if "long_shape l'" for i m l'
    using that k by (auto simp: long_shape_def intro: list_all_update)
  have d: "long_shape (l'\<lparr>lr_discontinuity := b\<rparr>)" if "long_shape l'" for b l'
    using that by (simp add: long_shape_def)
  show ?thesis unfolding place_chunk_def Let_def by (intro u) (simp add: e d assms(1))
qed

lemma place_chunk_fields:
  "lr_count (place_chunk k gap l) = chunk_count k \<or> lr_count (place_chunk k gap l) = lr_count l"
  "lr_shortStreamEnd (place_chunk k gap l) = lr_shortStreamEnd l \<or> lr_shortStreamEnd (place_chunk k gap l) = 0"
  "(lr_firstIngress (place_chunk k gap l) = rp_ingress k \<and> lr_firstTsMs (place_chunk k gap l) = rp_tsMs k) \<or>
   (lr_count l \<noteq> 0 \<and> lr_firstIngress (place_chunk k gap l) = lr_firstIngress l \<and>
     lr_firstTsMs (place_chunk k gap l) = lr_firstTsMs l)"
  by (auto simp: place_chunk_def Let_def start_candidate_def)

text \<open>The invariant without the claim that a complete candidate is a frame.\<close>

definition rx_inv_open :: "rx_queue \<Rightarrow> bool" where
  "rx_inv_open q \<longleftrightarrow> buffer_inv q \<and> queue_inv q \<and> long_shape (rq_long q) \<and> staged_origin q \<and> dispatched_origin q"

lemma rx_inv_open: "rx_inv q \<longleftrightarrow> rx_inv_open q \<and> long_whole (rq_long q)"
  by (auto simp: rx_inv_def rx_inv_open_def)

lemma appendLongRxChunk_inv:
  assumes "rx_inv q" "origin q (rp_ingress k) (rp_tsMs k)"
  shows "rx_inv_open (snd (appendLongRxChunk k gap q))"
    and "\<not> fst (appendLongRxChunk k gap q) \<Longrightarrow> rx_inv (snd (appendLongRxChunk k gap q))"
proof -
  show "rx_inv (snd (appendLongRxChunk k gap q))" if "\<not> fst (appendLongRxChunk k gap q)"
    using that assms(1) by (auto simp: appendLongRxChunk_def split: if_splits)
  show "rx_inv_open (snd (appendLongRxChunk k gap q))"
  proof (cases "\<not> chunk_length_ok k \<or> \<not> chunk_prefix_ok k \<or> rq_longNeedsStart q \<and> chunk_index k \<noteq> 1")
    case True
    then have "snd (appendLongRxChunk k gap q) = clearLongRxState q \<or> snd (appendLongRxChunk k gap q) = q"
      by (elim disjE) (simp_all add: appendLongRxChunk_def)
    then show ?thesis using clear_inv(2) [OF assms(1)] assms(1) by (auto simp: rx_inv_open)
  next
    case False
    let ?l = "place_chunk k gap (rq_long q)"
    have "snd (appendLongRxChunk k gap q) = q\<lparr>rq_longNeedsStart := False, rq_long := ?l\<rparr>"
      using False by (auto simp: appendLongRxChunk_def)
    moreover have "long_shape ?l" using False assms(1) by (simp add: place_chunk_shape rx_inv_def)
    moreover have "lr_shortStreamEnd ?l \<le> length (rq_rx q)"
      using place_chunk_fields(2) [of k gap "rq_long q"] assms(1) by (auto simp: rx_inv_def buffer_inv_def)
    moreover have "origin q (lr_firstIngress ?l) (lr_firstTsMs ?l)"
      using place_chunk_fields(3) [of k gap "rq_long q"] assms by (auto simp: rx_inv_def staged_origin_def)
    ultimately show ?thesis using assms(1)
      by (auto simp: rx_inv_def rx_inv_open_def buffer_inv_def queue_inv_def staged_origin_def dispatched_origin_def
          origin_def)
  qed
qed

lemma acceptIngress_inv [simp]: "rx_inv q \<Longrightarrow> rx_inv (acceptIngressSequence x q)"
  by (simp add: acceptIngressSequence_def Let_def)

lemma long_slots: "long_shape l \<Longrightarrow> d \<in> set (take n (lr_payloads l)) \<Longrightarrow> length d \<le> RX_PACKET_BYTES"
  by (auto simp: long_shape_def list_all_iff MAX_LONG_CHUNK_PAYLOAD_def RX_PACKET_BYTES_def dest!: in_set_takeD)

lemma flush_inv:
  assumes "rx_inv q"
  shows "rx_inv (snd (flushCompleteLongRx q)) \<and> session_part (snd (flushCompleteLongRx q)) = session_part q"
proof (cases "longRxComplete q")
  case True
  define total where "total = length (long_bytes (rq_long q))"
  define c where "c \<longleftrightarrow> rq_readPos q > 0 \<and> (length (rq_rx q) \<ge> RX_BUFFER_MAX \<or> rx_unread q + total > RX_BUFFER_MAX)"
  define q1 where "q1 = (if c then compactRxState q else q)"
  define slots where "slots = take (lr_count (rq_long q)) (lr_payloads (rq_long q))"
  obtain ok q2 where a: "append_slots slots (lr_firstIngress (rq_long q)) (lr_firstTsMs (rq_long q))
      (lr_discontinuity (rq_long q1) \<or> rq_pendingGap q1) q1 = (ok, q2)" by fastforce
  have q1: "rx_inv q1" "session_part q1 = session_part q" using assms by (simp_all add: q1_def)
  from assms True have "origin q (lr_firstIngress (rq_long q)) (lr_firstTsMs (rq_long q))"
    by (auto simp: rx_inv_def staged_origin_def long_complete_def)
  then have o: "origin q1 (lr_firstIngress (rq_long q)) (lr_firstTsMs (rq_long q))"
    using origin_session [OF q1(2)] by simp
  from assms have "\<forall>d\<in>set slots. length d \<le> RX_PACKET_BYTES"
    unfolding slots_def rx_inv_def by (blast dest: long_slots)
  from append_slots_keep [OF q1(1) o this] a q1(2) have q2: "rx_inv q2" "session_part q2 = session_part q"
    by (metis snd_conv)+
  have "snd (flushCompleteLongRx q) \<in> {clearLongRxState q, q1, q2, clearLongRxState (q2\<lparr>rq_pendingGap := False\<rparr>)}"
    using True a unfolding flushCompleteLongRx_def Let_def total_def [symmetric] c_def [symmetric] q1_def [symmetric]
      slots_def [symmetric] by simp
  moreover have "session_part (q2\<lparr>rq_pendingGap := False\<rparr>) = session_part q2" by (simp add: session_part_def)
  ultimately show ?thesis using q1 q2 assms by auto
qed (simp add: flushCompleteLongRx_def assms)

section \<open>Draining\<close>

lemma hold_long_inv:
  assumes "rx_inv q"
  shows "rx_inv (hold_long accepted q) \<and> session_part (hold_long accepted q) = session_part q"
proof -
  let ?q = "q\<lparr>rq_long := (rq_long q)\<lparr>lr_shortStreamEnd := length (rq_rx q)\<rparr>\<rparr>"
  have "rx_inv ?q" "session_part ?q = session_part q"
    using assms by (auto simp: rx_inv_def buffer_inv_def queue_inv_def staged_origin_def dispatched_origin_def
        session_part_def)
  then show ?thesis using flush_inv [of "clearRxState ?q"] assms by (simp add: hold_long_def Let_def)
qed

lemma take_long_inv:
  assumes "rx_inv q" "origin q (rp_ingress k) (rp_tsMs k)"
  shows "rx_inv (take_long_chunk k q) \<and> session_part (take_long_chunk k q) = session_part q"
proof -
  define q0 where "q0 = acceptIngressSequence (rp_ingress k) q"
  define gap where "gap \<longleftrightarrow> ingressWouldBeDiscontinuous (rp_ingress k) q \<or> rq_pendingGap q"
  obtain accepted q1 where a: "appendLongRxChunk k gap q0 = (accepted, q1)" by fastforce
  define q2 where "q2 = q1\<lparr>rq_pendingGap := \<not> accepted\<rparr>"
  define q3 where "q3 = qualify_long accepted q2"
  have q0: "rx_inv q0" "session_part q0 = session_part q" using assms(1) by (simp_all add: q0_def)
  have "origin q0 (rp_ingress k) (rp_tsMs k)" using origin_session [OF q0(2)] assms(2) by simp
  from appendLongRxChunk_inv [OF q0(1) this, of gap] a
  have q1: "rx_inv_open q1" "\<not> accepted \<Longrightarrow> rx_inv q1" "session_part q1 = session_part q"
    using staging_session(6) [of k gap q0] q0(2) by simp_all
  have q2: "rx_inv_open q2" "\<not> accepted \<Longrightarrow> rx_inv q2" "session_part q2 = session_part q"
    using q1 by (simp_all add: q2_def rx_inv_open_def buffer_inv_def queue_inv_def staged_origin_def
        dispatched_origin_def origin_def session_part_def)
  have drop: "rx_inv (clearLongRxState q2)"
    using q2(1) by (auto simp: rx_inv_open_def rx_inv_parts clearLongRxState_def)
  have q3: "rx_inv q3" "session_part q3 = session_part q"
  proof -
    show "rx_inv q3"
    proof (cases "accepted \<and> longRxComplete q2 \<and> \<not> longRxHasCompleteFrame q2")
      case True
      with drop show ?thesis by (simp add: q3_def qualify_long_def)
    next
      case False
      with q2(1,2) show ?thesis by (auto simp: q3_def qualify_long_def rx_inv_open long_whole_def longRxHasCompleteFrame_def)
    qed
    show "session_part q3 = session_part q"
      using q2(3) staging_session(3) [of q2] unfolding session_part_def q3_def qualify_long_def by simp
  qed
  have "rx_inv (hold_long accepted q3) \<and> session_part (hold_long accepted q3) = session_part q"
    using hold_long_inv [OF q3(1), of accepted] q3(2) by simp
  moreover have "take_long_chunk k q = hold_long accepted q3"
    using a by (simp add: take_long_chunk_def Let_def gap_def q0_def q2_def q3_def)
  ultimately show ?thesis by simp
qed

lemma take_short_inv:
  assumes "rx_inv q" "origin q (rp_ingress k) (rp_tsMs k)" "length (rp_data k) \<le> RX_PACKET_BYTES"
  shows "rx_inv (snd (take_short k q)) \<and> session_part (snd (take_short k q)) = session_part q"
proof -
  define gap where "gap \<longleftrightarrow> ingressWouldBeDiscontinuous (rp_ingress k) q \<or> rq_pendingGap q"
  obtain ok q1 where a: "appendRxPacket k gap q = (ok, q1)" by fastforce
  have q1: "rx_inv q1" "session_part q1 = session_part q"
    using appendRxBytes_inv [OF assms, of gap] a by (simp_all add: appendRxPacket_def) (metis snd_conv staging_session(1))
  moreover have "session_part (acceptIngressSequence (rp_ingress k) q1\<lparr>rq_pendingGap := False\<rparr>) = session_part q1"
    using staging_session(5) [of "rp_ingress k" q1] by (simp add: session_part_def)
  ultimately show ?thesis using a unfolding take_short_def Let_def gap_def [symmetric] by simp
qed

text \<open>A pass drains the queue from its head; what it leaves is a suffix.\<close>

lemma queue_suffix_inv:
  assumes "rx_inv q" "length ks \<le> length (rq_queue q)" "set ks \<subseteq> set (rq_queue q)"
  shows "rx_inv (q\<lparr>rq_queue := ks\<rparr>)"
  using assms by (auto simp: rx_inv_def buffer_inv_def queue_inv_def staged_origin_def dispatched_origin_def origin_def)

definition kept_session :: "rx_queue \<Rightarrow> rx_packet list \<times> u32 \<times> handled_frame list \<times> nat" where
  "kept_session q = (rq_admitted q, rq_session q, rq_dispatched q, rq_depth q)"

lemma kept_session: "session_part q = session_part q' \<Longrightarrow> kept_session q = kept_session q'"
  by (simp add: session_part_def kept_session_def)

lemma drain_inv:
  assumes "rx_inv q" "set ks \<subseteq> set (rq_queue q)" "length ks \<le> length (rq_queue q)" "g = rq_session q"
  shows "rx_inv (snd (snd (rx_drain sessionOpen g ts ks q))) \<and>
    kept_session (snd (snd (rx_drain sessionOpen g ts ks q))) = kept_session q"
  using assms
proof (induction sessionOpen g ts ks q rule: rx_drain.induct)
  case (1 sessionOpen g ts q)
  then show ?case using queue_suffix_inv [of q "[]"] by (simp add: kept_session_def)
next
  case (2 sessionOpen g ts k ks q)
  have rest: "rx_inv (q'\<lparr>rq_queue := k # ks\<rparr>) \<and> kept_session (q'\<lparr>rq_queue := k # ks\<rparr>) = kept_session q"
    if "rx_inv q'" "session_part q' = session_part q" for q'
    using that 2(5,6) queue_suffix_inv [of q' "k # ks"] by (simp add: session_part_def kept_session_def)
  show ?case
  proof (cases "\<not> sessionOpen \<or> rp_session k \<noteq> g")
    case True
    with 2 show ?thesis by auto
  next
    case False
    have k: "k \<in> set (rq_admitted q)" "length (rp_data k) \<le> RX_PACKET_BYTES"
      using 2(4,5) by (auto simp: rx_inv_def queue_inv_def list_all_iff)
    with False 2(7) have o: "origin q (rp_ingress k) (rp_tsMs k)" by (auto simp: origin_def)
    have next_step: "rx_inv q' \<Longrightarrow> session_part q' = session_part q \<Longrightarrow>
        set ks \<subseteq> set (rq_queue q') \<and> length ks \<le> length (rq_queue q') \<and> g = rq_session q'" for q'
      using 2(5-7) by (auto simp: session_part_def)
    show ?thesis
    proof (cases "rp_charUUID k = LONG_NOTIFY_CHARACTERISTIC")
      case long: True
      show ?thesis
      proof (cases "longRxComplete q")
        case True
        with False long show ?thesis using rest [of q] 2(4) by simp
      next
        case incomplete: False
        note t = take_long_inv [OF 2(4) o]
        with next_step have "rx_inv (snd (snd (rx_drain sessionOpen g (rp_tsMs k) ks (take_long_chunk k q)))) \<and>
            kept_session (snd (snd (rx_drain sessionOpen g (rp_tsMs k) ks (take_long_chunk k q)))) =
            kept_session (take_long_chunk k q)"
          using 2(2) False long incomplete by blast
        with False long incomplete kept_session [OF conjunct2 [OF t]] show ?thesis by simp
      qed
    next
      case short: False
      obtain ok q' where t: "take_short k q = (ok, q')" by fastforce
      from take_short_inv [OF 2(4) o k(2)] t have q': "rx_inv q'" "session_part q' = session_part q" by simp_all
      show ?thesis
      proof (cases ok)
        case True
        with t 2(3) [OF False short, of "(ok, q')" ok q'] q' next_step [of q']
        have "rx_inv (snd (snd (rx_drain sessionOpen g (rp_tsMs k) ks q'))) \<and>
            kept_session (snd (snd (rx_drain sessionOpen g (rp_tsMs k) ks q'))) = kept_session q'" by simp
        with True t False short kept_session [OF q'(2)] show ?thesis by simp
      next
        case False': False
        with t False short rest [OF q'] show ?thesis by simp
      qed
    qed
  qed
qed

section \<open>The passes\<close>

definition owner_part ::
    "rx_queue \<Rightarrow> rx_packet list \<times> u32 \<times> nat \<times> bool \<times> bool \<times> nat \<times> handled_frame list" where
  "owner_part q = (rq_admitted q, rq_session q, rq_depth q, rq_accept q, rq_ready q, rq_inputDrops q, rq_dispatched q)"

lemma effects_keep_owner [simp]:
  "owner_part (rx_client f q) = owner_part q" "owner_part (rx_parser g q) = owner_part q"
  "owner_part (rx_mark_discontinuous q) = owner_part q" "owner_part (q\<lparr>rq_parser := p\<rparr>) = owner_part q"
  by (simp_all add: owner_part_def rx_client_def rx_parser_def rx_mark_discontinuous_def)

lemma reports_keep_owner [simp]:
  "owner_part (take_sweep_reset i q) = owner_part q" "owner_part (report_sweep ok i q) = owner_part q"
  "owner_part (report_alert session ok frame x ts q) = owner_part q"
  "owner_part (report_response frame x q) = owner_part q" "owner_part (snd (note_parsed ok r)) = owner_part (snd r)"
proof -
  have "owner_part (q\<lparr>rq_client := c\<rparr>) = owner_part q" for c by (simp add: owner_part_def)
  then show "owner_part (take_sweep_reset i q) = owner_part q" by (simp add: take_sweep_reset_def Let_def split_beta)
  show "owner_part (snd (note_parsed ok r)) = owner_part (snd r)"
    by (simp add: note_parsed_def Let_def split_beta owner_part_def)
qed (simp_all add: report_sweep_def report_alert_def report_response_def Let_def split: option.split)

lemma handle_owner:
  "owner_part (snd (handle_frame session f x ts r)) =
     owner_part ((snd r)\<lparr>rq_dispatched := rq_dispatched (snd r) @ [(f, x, ts)]\<rparr>)"
  by (simp add: handle_frame_def Let_def split_beta)

lemmas handle_admits [simp] =
  handle_owner [unfolded owner_part_def prod.inject, THEN conjunct1, simplified]
  handle_owner [unfolded owner_part_def prod.inject, THEN conjunct2, THEN conjunct1, simplified]
  handle_owner [unfolded owner_part_def prod.inject, THEN conjunct2, THEN conjunct2, THEN conjunct1, simplified]
  handle_owner [unfolded owner_part_def prod.inject, THEN conjunct2, THEN conjunct2, THEN conjunct2, THEN conjunct1,
    simplified]
  handle_owner [unfolded owner_part_def prod.inject, THEN conjunct2, THEN conjunct2, THEN conjunct2, THEN conjunct2,
    THEN conjunct1, simplified]
  handle_owner [unfolded owner_part_def prod.inject, THEN conjunct2, THEN conjunct2, THEN conjunct2, THEN conjunct2,
    THEN conjunct2, THEN conjunct1, simplified]
  handle_owner [unfolded owner_part_def prod.inject, THEN conjunct2, THEN conjunct2, THEN conjunct2, THEN conjunct2,
    THEN conjunct2, THEN conjunct2, simplified]

lemma mark_inv [simp]: "rx_inv (rx_mark_discontinuous q) = rx_inv q"
  by (rule inv_part_cong) (simp add: inv_part_def rx_mark_discontinuous_def)

lemma handle_inv:
  assumes "rx_inv (snd r)" "complete_frame f" "origin (snd r) x ts"
  shows "rx_inv (snd (handle_frame session f x ts r))"
  using assms by (auto simp: rx_inv_parts)

lemma origin_mark [simp]: "origin (rx_mark_discontinuous q) = origin q"
  by (simp add: origin_def fun_eq_iff rx_mark_discontinuous_def)

lemma advance_inv: "rx_inv q \<Longrightarrow> rq_readPos q + n \<le> length (rq_rx q) \<Longrightarrow> rx_inv (q\<lparr>rq_readPos := rq_readPos q + n\<rparr>)"
  by (auto simp: rx_inv_parts)

lemma pending_length: "length (rx_pending q) = length (rq_rx q) - rq_readPos q"
  by (simp add: rx_pending_def)

lemma pending_origin: "rx_inv q \<Longrightarrow> b \<in> set (rx_pending q) \<Longrightarrow> origin q (sb_ingress b) (sb_tsMs b)"
  by (auto simp: rx_inv_def staged_origin_def rx_pending_def list_all_iff dest: in_set_dropD)

lemma pending_mark [simp]: "rx_pending (rx_mark_discontinuous q) = rx_pending q"
  by (simp add: rx_pending_def)

lemma handle_origin [simp]: "origin (snd (handle_frame session f x ts r)) = origin (snd r)"
  by (simp add: origin_def fun_eq_iff)

lemma long_round_inv:
  assumes "rx_inv (snd r)" "longRxComplete (snd r)"
  shows "rx_inv (snd (snd (long_round session r)))"
proof -
  obtain pa q where r: "r = (pa, q)" by force
  define q1 where "q1 = (if lr_discontinuity (rq_long q) \<or> rq_pendingGap q then rx_mark_discontinuous q else q)"
  have "complete_frame (long_bytes (rq_long q))" "origin q (lr_firstIngress (rq_long q)) (lr_firstTsMs (rq_long q))"
    using assms r by (auto simp: rx_inv_def long_whole_def staged_origin_def long_complete_def)
  moreover from this have "origin q1 (lr_firstIngress (rq_long q)) (lr_firstTsMs (rq_long q))" "rx_inv q1"
    using assms(1) r by (simp_all add: q1_def)
  ultimately show ?thesis
    using r handle_inv [of "(pa, q1)" "long_bytes (rq_long q)"]
    by (simp add: long_round_def Let_def split_beta q1_def [symmetric])
qed

lemma short_round_inv:
  assumes "rx_inv (snd r)" "rx_pending (snd r) \<noteq> []"
  shows "rx_inv (snd (snd (short_round session r)))"
proof -
  obtain pa q where r: "r = (pa, q)" by force
  define bs q1 where "bs = rx_pending q" "q1 = (if starts_after_gap bs then rx_mark_discontinuous q else q)"
  have q1: "rx_inv q1" "rx_pending q1 = bs" "rq_readPos q1 = rq_readPos q" "rq_rx q1 = rq_rx q" "origin q1 = origin q"
    using assms(1) r by (simp_all add: bs_q1_def)
  have fits: "rq_readPos q + n \<le> length (rq_rx q)" if "n \<le> length bs" for n
    using that assms r by (auto simp: bs_q1_def pending_length rx_inv_def buffer_inv_def)
  have *: "short_round session r = (case rx_decide bs of
           RxDrop \<Rightarrow> (RoundStop False, pa, clearRxState (rx_mark_discontinuous q1))
         | RxWait \<Rightarrow> (RoundStop True, pa, q1)
         | RxResync n \<Rightarrow> (RoundResync, pa, (rx_mark_discontinuous q1)\<lparr>rq_readPos := rq_readPos q1 + n\<rparr>)
         | RxFrame width \<Rightarrow>
             let (pa, q) = handle_frame session (map sb_byte (take width bs)) (sb_ingress (hd bs))
                                        (sb_tsMs (hd bs)) (pa, q1)
             in (RoundPacket, pa, q\<lparr>rq_readPos := rq_readPos q + width\<rparr>))"
    unfolding short_round_def r bs_q1_def Let_def prod.case by (rule refl)
  show ?thesis
  proof (cases "rx_decide bs")
    case (RxResync n)
    with advance_inv [of "rx_mark_discontinuous q1" n] fits [OF resync_within [OF RxResync]] q1 show ?thesis
      by (simp add: *)
  next
    case (RxFrame w)
    have "hd bs \<in> set (rx_pending q)" using assms(2) r by (simp add: bs_q1_def)
    then have o: "origin q1 (sb_ingress (hd bs)) (sb_tsMs (hd bs))"
      using pending_origin assms(1) r q1(5) by simp
    have "complete_frame (map sb_byte (take w bs))"
      using decide_frame_complete [OF RxFrame] by (simp add: short_frame_def)
    then have "rx_inv (snd (handle_frame session (map sb_byte (take w bs)) (sb_ingress (hd bs)) (sb_tsMs (hd bs)) (pa, q1)))"
      using handle_inv [of "(pa, q1)"] q1(1) o by simp
    from advance_inv [OF this, of w] fits frame_progress [OF RxFrame] q1(3,4) show ?thesis
      by (simp add: * RxFrame Let_def split_beta)
  qed (simp_all add: * q1)
qed

lemma round_inv: "rx_inv (snd r) \<Longrightarrow> rx_inv (snd (snd (rx_round session r)))"
  by (simp add: rx_round_def long_round_inv short_round_inv dispatches_long_def)

lemma loop_inv: "rx_inv (snd r) \<Longrightarrow> rx_inv (snd (snd (rx_loop session m b elapsed i n r)))"
proof (induction session m b elapsed i n r rule: rx_loop.induct)
  case (1 session m b elapsed i n r)
  show ?case
  proof (cases "n \<ge> m \<or> n \<ge> 8 \<and> elapsed i \<ge> b")
    case False
    obtain k r' where k: "rx_round session r = (k, r')" by (cases "rx_round session r")
    with round_inv [OF 1(3), of session] have "rx_inv (snd r')" by simp
    with False k 1 show ?thesis
      by (cases k) (auto simp: rx_loop.simps [of session m b elapsed i n r] split: rx_outcome.split)
  qed (simp add: rx_loop.simps 1)
qed

lemma tidy_inv: "rx_inv q \<Longrightarrow> rx_inv (rx_tidy (break_circular_wait blocked waiting q))"
  by (simp add: rx_tidy_def break_circular_wait_def applyPendingDiscontinuityIfStreamDrained_def)

lemma parse_pass_inv: "rx_inv q \<Longrightarrow> rx_inv (rx_parse previewActive elapsed queued blocked session q)"
  using loop_inv [of "(previewActive, q)"] by (simp add: rx_parse_def Let_def split_beta tidy_inv)

lemma publish_inv: "rx_inv q \<Longrightarrow> rx_inv (publish_held q) \<and> session_part (publish_held q) = session_part q"
  using flush_inv [of "clearRxState q"] by (simp add: publish_held_def)

lemma take_pass_inv:
  assumes "rx_inv q"
  shows "rx_inv (snd (rx_take q)) \<and> kept_session (snd (rx_take q)) = kept_session q"
proof -
  define q0 where "q0 = publish_held q"
  have q0: "rx_inv q0" "session_part q0 = session_part q" using publish_inv [OF assms] by (simp_all add: q0_def)
  show ?thesis
  proof (cases "rq_ready q0")
    case True
    obtain blocked ts q1 where d: "rx_drain (rq_accept q0) (rq_session q0) 0 (rq_queue q0) q0 = (blocked, ts, q1)"
      by (cases "rx_drain (rq_accept q0) (rq_session q0) 0 (rq_queue q0) q0")
    with drain_inv [OF q0(1), of "rq_queue q0" "rq_session q0" "rq_accept q0" 0] kept_session [OF q0(2)]
    have "rx_inv q1" "kept_session q1 = kept_session q" by simp_all
    with True d show ?thesis by (simp add: rx_take_def Let_def q0_def [symmetric] kept_session_def)
  next
    case False
    with q0 kept_session [OF q0(2)] show ?thesis by (simp add: rx_take_def Let_def q0_def [symmetric])
  qed
qed

lemma refresh_inv [simp]: "rx_inv (refreshBackpressureState q) = rx_inv q"
  by (simp add: refreshBackpressureState_def Let_def)

lemma process_inv: "rx_inv q \<Longrightarrow> rx_inv (rx_process previewActive elapsed q)"
  using take_pass_inv [of q]
  by (simp add: rx_process_def Let_def split_beta parse_pass_inv applyPendingDiscontinuityIfStreamDrained_def)

section \<open>The boundary and the callback\<close>

lemma close_inv: "rx_inv (closeSession q)"
  by (simp add: rx_inv_parts closeSession_def clearRxState_def clearLongRxState_def reset_alert_input_def
      RX_BUFFER_MAX_def RX_PACKET_BYTES_def)

lemma open_inv: "rx_inv (openSession g q)"
  by (simp add: rx_inv_parts openSession_def closeSession_def clearRxState_def clearLongRxState_def
      reset_alert_input_def RX_BUFFER_MAX_def RX_PACKET_BYTES_def)

lemma end_inv: "rx_inv q \<Longrightarrow> rx_inv (rx_end q)"
  by (auto simp: rx_inv_parts rx_end_def clearRxState_def clearLongRxState_def reset_alert_input_def
      RX_BUFFER_MAX_def RX_PACKET_BYTES_def)

lemma calls_inv: "rx_inv q \<Longrightarrow> rx_inv (foldl session_step q calls)"
proof (induction calls arbitrary: q)
  case (Cons e calls)
  then show ?case by (cases e) (simp_all add: open_inv close_inv)
qed simp

lemma enqueue_inv:
  assumes "rx_inv q" "0 < length (rp_data k)" "length (rp_data k) \<le> RX_PACKET_BYTES"
  shows "rx_inv (snd (enqueue k q))"
proof -
  have "rx_inv (q\<lparr>rq_queue := rq_queue q @ [k], rq_admitted := rq_admitted q @ [k]\<rparr>)"
    if "length (rq_queue q) < rq_depth q"
    using assms that by (fastforce simp: rx_inv_parts list_all_iff)
  with assms(1) show ?thesis by (simp add: enqueue_def)
qed

lemma notify_inv: "rx_inv q \<Longrightarrow> rx_inv (snd (tryOnNotify early late data u g ts x q))"
  using enqueue_inv [OF calls_inv [OF calls_inv], of q] calls_inv [of q early] by (simp add: tryOnNotify_def Let_def)

lemma rx_step_inv: "rx_inv q \<Longrightarrow> rx_inv (rx_step q e)"
  by (cases e)
    (simp_all add: open_inv close_inv end_inv notify_inv process_inv consumeParsedFlag_def rx_client_def rx_parser_def)

interpretation rx: event_machine rx_step rx_inv
  by unfold_locales (rule rx_step_inv)

lemma begin_inv: "rx_inv (rx_begin allocated depth c p)"
  by (simp add: rx_inv_parts rx_begin_def RX_BUFFER_MAX_def RX_PACKET_BYTES_def)

end
