(* ===== verification/V1_Rx_Short.thy ===== *)
theory V1_Rx_Short
  imports V1_Rx_Invariant
begin

text \<open>
  Sessions in which only the short characteristic notifies: the frames handled so far, together
  with those still to be found in the staged bytes and the queue, are the frames of the whole
  admitted stream. Passes may stop anywhere and notifications cut the stream anywhere.
\<close>

section \<open>The stream of a list of notifications\<close>

definition breaks :: "u32 \<Rightarrow> u32 \<Rightarrow> bool" where
  "breaks previous x \<longleftrightarrow> previous \<noteq> 0 \<and> (x = 0 \<or> x \<noteq> previous \<and> x \<noteq> (if previous = - 1 then 1 else previous + 1))"

lemma would_break: "ingressWouldBeDiscontinuous x q = breaks (rq_lastIngress q) x"
  by (auto simp: ingressWouldBeDiscontinuous_def breaks_def)

fun stream_of :: "u32 \<Rightarrow> rx_packet list \<Rightarrow> staged list" where
  "stream_of previous [] = []"
| "stream_of previous (k # ks) =
     stage (rp_data k) (rp_ingress k) (rp_tsMs k) (breaks previous (rp_ingress k)) @ stream_of (rp_ingress k) ks"

fun last_ingress :: "u32 \<Rightarrow> rx_packet list \<Rightarrow> u32" where
  "last_ingress previous [] = previous"
| "last_ingress previous (k # ks) = last_ingress (rp_ingress k) ks"

lemma stream_of_append:
  "stream_of previous (ks @ ls) = stream_of previous ks @ stream_of (last_ingress previous ks) ls"
  by (induction ks arbitrary: previous) simp_all

lemma last_ingress_append: "last_ingress previous (ks @ ls) = last_ingress (last_ingress previous ks) ls"
  by (induction ks arbitrary: previous) simp_all

definition of_session :: "u32 \<Rightarrow> rx_packet list \<Rightarrow> rx_packet list" where
  "of_session g ks = filter (\<lambda>k. rp_session k = g) ks"

definition only_short :: "rx_packet list \<Rightarrow> bool" where
  "only_short ks \<longleftrightarrow> list_all (\<lambda>k. rp_charUUID k \<noteq> LONG_NOTIFY_CHARACTERISTIC) ks"

lemma of_session_simps [simp]:
  "of_session g [] = []" "of_session g (ks @ ls) = of_session g ks @ of_session g ls"
  "of_session g (k # ks) = (if rp_session k = g then k # of_session g ks else of_session g ks)"
  by (simp_all add: of_session_def)

lemma only_short_simps [simp]:
  "only_short []" "only_short (ks @ ls) \<longleftrightarrow> only_short ks \<and> only_short ls"
  "only_short (k # ks) \<longleftrightarrow> rp_charUUID k \<noteq> LONG_NOTIFY_CHARACTERISTIC \<and> only_short ks"
  by (simp_all add: only_short_def)

section \<open>The parse loop finds the frames\<close>

text \<open>
  The frames of a stream that goes on with \<open>X\<close>: what was handled in between, then what the
  pending bytes and \<open>X\<close> still hold.
\<close>

definition finds :: "staged list \<Rightarrow> handled_frame list \<Rightarrow> staged list \<Rightarrow> bool" where
  "finds bs hs bs' \<longleftrightarrow> (\<forall>X. frames (bs @ X) = hs @ frames (bs' @ X))"

lemma finds_refl [simp]: "finds bs [] bs"
  by (simp add: finds_def)

lemma finds_trans: "finds a hs b \<Longrightarrow> finds b js c \<Longrightarrow> finds a (hs @ js) c"
  by (simp add: finds_def)

lemma finds_append: "finds a hs b \<Longrightarrow> finds (a @ X) hs (b @ X)"
  by (simp add: finds_def)

lemma finds_nil: "finds bs hs bs' \<Longrightarrow> frames bs = hs @ frames bs'"
  using spec [of "\<lambda>X. frames (bs @ X) = hs @ frames (bs' @ X)" "[]"] by (simp add: finds_def)

definition handles :: "rx_queue \<Rightarrow> rx_queue \<Rightarrow> bool" where
  "handles q q' \<longleftrightarrow> (\<exists>hs. rq_dispatched q' = rq_dispatched q @ hs \<and> finds (rx_pending q) hs (rx_pending q'))"

lemma handles_trans: "handles p q \<Longrightarrow> handles q r \<Longrightarrow> handles p r"
  unfolding handles_def by (metis append.assoc finds_trans)

lemma handles_same: "rq_dispatched q' = rq_dispatched q \<Longrightarrow> rx_pending q' = rx_pending q \<Longrightarrow> handles q q'"
  by (auto simp: handles_def intro: exI [of _ "[]"])

lemma handle_pending [simp]: "rx_pending (snd (handle_frame session f x ts r)) = rx_pending (snd r)"
  by (simp add: rx_pending_def)

lemma pending_advance: "rx_pending (q\<lparr>rq_readPos := rq_readPos q + n\<rparr>) = drop n (rx_pending q)"
  by (simp add: rx_pending_def add.commute)

lemma pending_clear [simp]: "rx_pending (clearRxState q) = []"
  by (simp add: rx_pending_def clearRxState_def)

lemma dispatched_clear [simp]: "rq_dispatched (clearRxState q) = rq_dispatched q"
  by (simp add: clearRxState_def)

lemma short_round_handles:
  assumes "rx_pending (snd r) \<noteq> []"
  shows "handles (snd r) (snd (snd (short_round session r)))"
proof -
  obtain pa q where r: "r = (pa, q)" by force
  define q1 where "q1 = (if starts_after_gap (rx_pending q) then rx_mark_discontinuous q else q)"
  have q1: "rx_pending q1 = rx_pending q" "rq_dispatched q1 = rq_dispatched q" by (simp_all add: q1_def)
  show ?thesis
  proof (cases "rx_decide (rx_pending q)")
    case RxDrop
    then have "finds (rx_pending q) [] []" by (simp add: finds_def frames_append_cases)
    with RxDrop q1 show ?thesis
      by (auto simp: handles_def short_round_def r Let_def q1_def [symmetric] intro: exI [of _ "[]"])
  next
    case RxWait
    with q1 show ?thesis by (simp add: short_round_def r Let_def q1_def [symmetric] handles_same)
  next
    case (RxResync n)
    then have "finds (rx_pending q) [] (drop n (rx_pending q))" by (simp add: finds_def frames_append_cases)
    with RxResync q1 show ?thesis
      using pending_advance [of "rx_mark_discontinuous q1" n]
      by (auto simp: handles_def short_round_def r Let_def q1_def [symmetric] intro: exI [of _ "[]"])
  next
    case (RxFrame w)
    let ?q = "snd (handle_frame session (map sb_byte (take w (rx_pending q))) (sb_ingress (hd (rx_pending q)))
        (sb_tsMs (hd (rx_pending q))) (pa, q1))"
    from RxFrame have "finds (rx_pending q) [frame_of w (rx_pending q)] (drop w (rx_pending q))"
      by (simp add: finds_def frames_append_cases)
    moreover have "rx_pending (?q\<lparr>rq_readPos := rq_readPos ?q + w\<rparr>) = drop w (rx_pending q)"
      by (simp only: pending_advance) (simp add: q1)
    moreover have "snd (snd (short_round session r)) = ?q\<lparr>rq_readPos := rq_readPos ?q + w\<rparr>"
      using RxFrame by (simp add: short_round_def r Let_def q1_def [symmetric] split_beta)
    ultimately show ?thesis using q1 r by (auto simp: handles_def frame_of_def)
  qed
qed

text \<open>Without a complete long candidate the loop reads the short stream only.\<close>

definition quiet_long :: "rx_queue \<Rightarrow> bool" where
  "quiet_long q \<longleftrightarrow> rq_long q = empty_long \<and> \<not> rq_pendingGap q"

lemma quiet_not_complete [simp]: "quiet_long q \<Longrightarrow> \<not> longRxComplete q"
  by (simp add: quiet_long_def)

lemma short_round_quiet: "quiet_long (snd r) \<Longrightarrow> quiet_long (snd (snd (short_round session r)))"
  using handle_keeps_stream
  by (auto simp: short_round_def quiet_long_def Let_def split_beta rx_stream_part_def clearRxState_def
      empty_long_def split: rx_decision.split)

lemma round_handles:
  assumes "quiet_long (snd r)"
  shows "handles (snd r) (snd (snd (rx_round session r))) \<and> quiet_long (snd (snd (rx_round session r)))"
  using assms short_round_handles [of r session] short_round_quiet [of r session]
  by (simp add: rx_round_def dispatches_long_def handles_same)

lemma loop_handles:
  "quiet_long (snd r) \<Longrightarrow>
     handles (snd r) (snd (snd (rx_loop session m b elapsed i n r))) \<and>
     quiet_long (snd (snd (rx_loop session m b elapsed i n r)))"
proof (induction session m b elapsed i n r rule: rx_loop.induct)
  case (1 session m b elapsed i n r)
  show ?case
  proof (cases "n \<ge> m \<or> n \<ge> 8 \<and> elapsed i \<ge> b")
    case True
    then show ?thesis by (simp add: rx_loop.simps [of session m b elapsed i n r] handles_same 1(3))
  next
    case False
    obtain k r' where k: "rx_round session r = (k, r')" by (cases "rx_round session r")
    with round_handles [OF 1(3), of session] have r': "handles (snd r) (snd r')" "quiet_long (snd r')" by simp_all
    show ?thesis
    proof (cases k)
      case (RoundStop w)
      with False k r' show ?thesis by (auto simp: rx_loop.simps [of session m b elapsed i n r])
    next
      case RoundResync
      with False k 1(1) [OF False k [symmetric]] r' show ?thesis
        by (auto simp: rx_loop.simps [of session m b elapsed i n r] intro: handles_trans)
    next
      case RoundPacket
      with False k 1(2) [OF False k [symmetric]] r' show ?thesis
        by (auto simp: rx_loop.simps [of session m b elapsed i n r] intro: handles_trans)
    qed
  qed
qed

section \<open>Draining keeps the order\<close>

definition caught_up :: "rx_packet list \<Rightarrow> rx_queue \<Rightarrow> bool" where
  "caught_up taken q \<longleftrightarrow> rx_inv q \<and> quiet_long q \<and> rq_lastIngress q = last_ingress 0 taken \<and>
     finds (stream_of 0 taken) (rq_dispatched q) (rx_pending q)"

lemma pending_fields [simp]:
  "rx_pending (q\<lparr>rq_pendingGap := b\<rparr>) = rx_pending q" "rx_pending (q\<lparr>rq_queue := ks\<rparr>) = rx_pending q"
  by (simp_all add: rx_pending_def)

lemma pending_empty: "rx_pending q = [] \<longleftrightarrow> rq_readPos q \<ge> length (rq_rx q)"
  by (simp add: rx_pending_def)

lemma unread_pending: "rx_unread q = length (rx_pending q)"
  by (simp add: rx_unread_def pending_length)

lemma append_pending:
  assumes "rq_readPos q \<le> length (rq_rx q)" "data \<noteq> []"
  shows "fst (appendRxBytes data x ts gap q) \<longleftrightarrow> length (rx_pending q) + length data \<le> RX_BUFFER_MAX"
    and "rx_pending (snd (appendRxBytes data x ts gap q)) =
      (if fst (appendRxBytes data x ts gap q) then rx_pending q @ stage data x ts gap else rx_pending q)"
proof -
  define c where "c \<longleftrightarrow> rq_readPos q > 0 \<and>
    (length (rq_rx q) \<ge> RX_BUFFER_MAX \<or> rx_unread q + length data > RX_BUFFER_MAX)"
  define q1 where "q1 = (if c then compactRxState q else q)"
  have p: "rx_pending q1 = rx_pending q" "rq_readPos q1 \<le> length (rq_rx q1)"
    using compact_shape [OF assms(1)] assms(1) by (auto simp: q1_def)
  have "appendRxBytes data x ts gap q =
    (if rx_unread q1 \<ge> RX_BUFFER_MAX \<or> rx_unread q1 + length data > RX_BUFFER_MAX then (False, q1)
     else (True, q1\<lparr>rq_rx := rq_rx q1 @ stage data x ts gap\<rparr>))"
    using assms(2) unfolding appendRxBytes_def c_def [symmetric] Let_def q1_def [symmetric] by (simp only: if_False)
  moreover have "rx_pending (q1\<lparr>rq_rx := rq_rx q1 @ stage data x ts gap\<rparr>) = rx_pending q1 @ stage data x ts gap"
    using p(2) by (simp add: rx_pending_def)
  moreover have "\<not> (RX_BUFFER_MAX \<le> n \<and> n + length data \<le> RX_BUFFER_MAX)" for n
    using assms(2) by (cases data) auto
  ultimately show "fst (appendRxBytes data x ts gap q) \<longleftrightarrow> length (rx_pending q) + length data \<le> RX_BUFFER_MAX"
    "rx_pending (snd (appendRxBytes data x ts gap q)) =
      (if fst (appendRxBytes data x ts gap q) then rx_pending q @ stage data x ts gap else rx_pending q)"
    using p(1) by (auto simp: unread_pending)
qed

lemma append_stream_fields:
  "rq_long (snd (appendRxBytes data x ts gap q)) = rq_long q \<or>
     rq_long (snd (appendRxBytes data x ts gap q)) = (rq_long q)\<lparr>lr_shortStreamEnd := 0\<rparr> \<or>
     (\<exists>n. rq_long (snd (appendRxBytes data x ts gap q)) = (rq_long q)\<lparr>lr_shortStreamEnd := lr_shortStreamEnd (rq_long q) - n\<rparr>)"
  "rq_pendingGap (snd (appendRxBytes data x ts gap q)) = rq_pendingGap q"
  "rq_lastIngress (snd (appendRxBytes data x ts gap q)) = rq_lastIngress q"
  by (auto simp: appendRxBytes_def Let_def compactRxState_def clearRxState_def)

lemma empty_long_cut [simp]: "empty_long\<lparr>lr_shortStreamEnd := 0\<rparr> = empty_long"
  by (simp add: empty_long_def)

lemma append_quiet: "quiet_long q \<Longrightarrow> quiet_long (snd (appendRxBytes data x ts gap q))"
  using append_stream_fields [of data x ts gap q] by (auto simp: quiet_long_def)

lemma accept_quiet: "quiet_long q \<Longrightarrow> quiet_long (acceptIngressSequence x q)"
  by (auto simp: quiet_long_def acceptIngressSequence_def Let_def clearLongRxState_def)

lemma accept_fields [simp]:
  "rq_lastIngress (acceptIngressSequence x q) = x" "rx_pending (acceptIngressSequence x q) = rx_pending q"
  "rq_dispatched (acceptIngressSequence x q) = rq_dispatched q"
  by (simp_all add: acceptIngressSequence_def Let_def clearLongRxState_def rx_pending_def)

lemma take_short_caught_up:
  assumes "caught_up taken q" "origin q (rp_ingress k) (rp_tsMs k)" "rp_data k \<noteq> []"
    "length (rp_data k) \<le> RX_PACKET_BYTES"
  shows "if fst (take_short k q) then caught_up (taken @ [k]) (snd (take_short k q))
         else caught_up taken (snd (take_short k q))"
proof -
  define gap where "gap = breaks (rq_lastIngress q) (rp_ingress k)"
  obtain ok q1 where a: "appendRxPacket k gap q = (ok, q1)" by fastforce
  have q: "rx_inv q" "quiet_long q" "rq_lastIngress q = last_ingress 0 taken"
      "finds (stream_of 0 taken) (rq_dispatched q) (rx_pending q)"
    using assms(1) by (auto simp: caught_up_def)
  have inv: "rx_inv (snd (take_short k q))" using take_short_inv [OF q(1) assms(2,4)] by simp
  have r: "rq_readPos q \<le> length (rq_rx q)" using q(1) by (simp add: rx_inv_def buffer_inv_def)
  have t: "take_short k q = (if \<not> ok then (False, q1)
      else (True, (acceptIngressSequence (rp_ingress k) q1)\<lparr>rq_pendingGap := False\<rparr>))"
    using q(2) a by (simp add: take_short_def would_break gap_def quiet_long_def)
  have "rx_pending q1 = (if ok then rx_pending q @ stage (rp_data k) (rp_ingress k) (rp_tsMs k) gap else rx_pending q)"
    using append_pending(2) [OF r assms(3), of "rp_ingress k" "rp_tsMs k" gap] a by (simp add: appendRxPacket_def)
  moreover have "rq_dispatched q1 = rq_dispatched q" "rq_lastIngress q1 = rq_lastIngress q" "quiet_long q1"
    using staging_session(1) [of "rp_data k" "rp_ingress k" "rp_tsMs k" gap q] a append_quiet [OF q(2), of "rp_data k" "rp_ingress k" "rp_tsMs k" gap]
      append_stream_fields(3) [of "rp_data k" "rp_ingress k" "rp_tsMs k" gap q]
    by (auto simp: appendRxPacket_def session_part_def dest: arg_cong [of _ _ snd])
  moreover have "stream_of 0 (taken @ [k]) = stream_of 0 taken @ stage (rp_data k) (rp_ingress k) (rp_tsMs k) gap"
    by (simp add: stream_of_append gap_def q(3))
  ultimately show ?thesis
    using q inv t accept_quiet [of q1 "rp_ingress k"] finds_append [OF q(4)]
    by (auto simp: caught_up_def last_ingress_append quiet_long_def)
qed

lemma drain_caught_up:
  assumes "caught_up taken q" "sessionOpen" "g = rq_session q" "set ks \<subseteq> set (rq_queue q)"
    "length ks \<le> length (rq_queue q)" "only_short (of_session g ks)"
  shows "\<exists>more. of_session g ks = more @ of_session g (rq_queue (snd (snd (rx_drain sessionOpen g ts ks q)))) \<and>
    caught_up (taken @ more) (snd (snd (rx_drain sessionOpen g ts ks q)))"
  using assms
proof (induction sessionOpen g ts ks q arbitrary: taken rule: rx_drain.induct)
  case (1 sessionOpen g ts q)
  then show ?case
    using queue_suffix_inv [of q "[]"] by (simp add: caught_up_def quiet_long_def rx_pending_def)
next
  case (2 sessionOpen g ts k ks q)
  note IH = 2(1-3) and prems = 2(4-9)
  show ?case
  proof (cases "rp_session k = g")
    case False
    with IH(1) [of taken] prems show ?thesis by auto
  next
    case True
    with prems have short: "rp_charUUID k \<noteq> LONG_NOTIFY_CHARACTERISTIC" by simp
    have k: "k \<in> set (rq_admitted q)" "rp_data k \<noteq> []" "length (rp_data k) \<le> RX_PACKET_BYTES"
      using prems(1,4) by (auto simp: caught_up_def rx_inv_def queue_inv_def list_all_iff)
    with True prems(3) have o: "origin q (rp_ingress k) (rp_tsMs k)" by (auto simp: origin_def)
    obtain ok q' where t: "take_short k q = (ok, q')" by fastforce
    have inv: "rx_inv q" using prems(1) by (simp add: caught_up_def)
    from take_short_inv [OF inv o k(3)] t have s: "session_part q' = session_part q" by simp
    note c = take_short_caught_up [OF prems(1) o k(2,3)]
    show ?thesis
    proof (cases ok)
      case True
      with c t have c': "caught_up (taken @ [k]) q'" by simp
      from s prems have rest: "g = rq_session q'" "set ks \<subseteq> set (rq_queue q')" "length ks \<le> length (rq_queue q')"
        "only_short (of_session g ks)" by (auto simp: session_part_def split: if_splits)
      have "\<exists>more. of_session g ks = more @ of_session g (rq_queue (snd (snd (rx_drain sessionOpen g (rp_tsMs k) ks q')))) \<and>
          caught_up ((taken @ [k]) @ more) (snd (snd (rx_drain sessionOpen g (rp_tsMs k) ks q')))"
        using IH(3) [OF _ short t [symmetric] refl _ c' prems(2) rest] \<open>rp_session k = g\<close> \<open>ok\<close> prems(2) by simp
      then obtain more where "of_session g ks = more @ of_session g (rq_queue (snd (snd (rx_drain sessionOpen g (rp_tsMs k) ks q'))))"
          "caught_up (taken @ k # more) (snd (snd (rx_drain sessionOpen g (rp_tsMs k) ks q')))" by auto
      then show ?thesis
        using \<open>rp_session k = g\<close> short t True prems(2) by (auto intro: exI [of _ "k # more"])
    next
      case False
      with c t have "caught_up taken q'" by simp
      moreover from this s prems(4,5) have "rx_inv (q'\<lparr>rq_queue := k # ks\<rparr>)"
        using queue_suffix_inv [of q' "k # ks"] by (simp add: caught_up_def session_part_def)
      ultimately show ?thesis
        using \<open>rp_session k = g\<close> short t False prems(2)
        by (auto simp: caught_up_def quiet_long_def rx_pending_def intro: exI [of _ "[]"])
    qed
  qed
qed

section \<open>A pass\<close>

text \<open>
  In an open session that only had short notifications: what was taken from the queue is a prefix
  of what was admitted, and the frames handled are those of the bytes taken.
\<close>

definition exact_session :: "rx_queue \<Rightarrow> bool" where
  "exact_session q \<longleftrightarrow>
     (rq_accept q \<and> only_short (of_session (rq_session q) (rq_admitted q)) \<longrightarrow>
        (\<exists>taken. of_session (rq_session q) (rq_admitted q) = taken @ of_session (rq_session q) (rq_queue q) \<and>
                 caught_up taken q))"

lemma caught_up_cong:
  "caught_up taken q \<Longrightarrow> rx_inv q' \<Longrightarrow> quiet_long q' \<Longrightarrow> rq_lastIngress q' = rq_lastIngress q \<Longrightarrow> handles q q' \<Longrightarrow>
     caught_up taken q'"
  by (auto simp: caught_up_def handles_def intro: finds_trans)

lemma clear_handles: "rq_readPos q \<ge> length (rq_rx q) \<Longrightarrow> handles q (clearRxState q)"
  by (rule handles_same) (simp_all add: pending_empty [THEN iffD2])

lemma tidy_handles:
  assumes "rx_inv q" "quiet_long q"
  shows "handles q (rx_tidy (break_circular_wait blocked waiting q)) \<and>
    quiet_long (rx_tidy (break_circular_wait blocked waiting q)) \<and>
    rq_lastIngress (rx_tidy (break_circular_wait blocked waiting q)) = rq_lastIngress q"
proof -
  have r: "rq_readPos q \<le> length (rq_rx q)" using assms(1) by (simp add: rx_inv_def buffer_inv_def)
  have "applyPendingDiscontinuityIfStreamDrained (clearRxState q) = clearRxState q"
    using assms(2) by (simp add: applyPendingDiscontinuityIfStreamDrained_def quiet_long_def clearRxState_def)
  then have "rx_tidy (break_circular_wait blocked waiting q) =
      (if rq_readPos q \<ge> length (rq_rx q) then clearRxState q
       else if rq_readPos q \<ge> RX_COMPACT_THRESHOLD then compactRxState q else q)"
    using assms(2) by (simp add: rx_tidy_def break_circular_wait_def)
  moreover have "quiet_long (clearRxState q)" "quiet_long (compactRxState q)"
    using assms(2) by (auto simp: quiet_long_def clearRxState_def compactRxState_def Let_def empty_long_def)
  moreover have "rq_lastIngress (clearRxState q) = rq_lastIngress q" "rq_lastIngress (compactRxState q) = rq_lastIngress q"
    by (simp_all add: clearRxState_def compactRxState_def Let_def)
  ultimately show ?thesis using assms(2) compact_shape [OF r] by (auto simp: handles_same clear_handles)
qed

lemma round_last [simp]: "rq_lastIngress (snd (snd (rx_round session r))) = rq_lastIngress (snd r)"
proof -
  have "rq_lastIngress (snd (handle_frame session f x ts r)) = rq_lastIngress (snd r)" for f x ts r
    using handle_keeps_stream [of session f x ts r] by (simp add: rx_stream_part_def)
  then show ?thesis
    by (simp add: rx_round_def long_round_def short_round_def Let_def split_beta clearLongRxState_def clearRxState_def
        rx_mark_discontinuous_def split: rx_decision.split)
qed

lemma loop_last [simp]: "rq_lastIngress (snd (snd (rx_loop session m b elapsed i n r))) = rq_lastIngress (snd r)"
proof (induction session m b elapsed i n r rule: rx_loop.induct)
  case (1 session m b elapsed i n r)
  show ?case
  proof (cases "n \<ge> m \<or> n \<ge> 8 \<and> elapsed i \<ge> b")
    case False
    obtain k r' where k: "rx_round session r = (k, r')" by (cases "rx_round session r")
    with round_last [of session r] have "rq_lastIngress (snd r') = rq_lastIngress (snd r)" by simp
    with False k 1 show ?thesis
      by (cases k) (auto simp: rx_loop.simps [of session m b elapsed i n r] split: rx_outcome.split)
  qed (simp add: rx_loop.simps)
qed

definition forward :: "rx_queue \<Rightarrow> rx_queue \<Rightarrow> bool" where
  "forward q q' \<longleftrightarrow> handles q q' \<and> rx_inv q' \<and> quiet_long q' \<and> rq_lastIngress q' = rq_lastIngress q"

lemma forward_caught_up: "caught_up taken q \<Longrightarrow> forward q q' \<Longrightarrow> caught_up taken q'"
  by (simp add: forward_def caught_up_cong)

lemma parse_forward:
  assumes "rx_inv q" "quiet_long q"
  shows "forward q (rx_parse previewActive elapsed queued blocked session q)"
proof -
  define n where "n = max_packets (rq_depth q) (length (rq_rx q) - rq_readPos q) queued previewActive"
  obtain waiting pa q1 where l: "rx_loop session n (parse_budget n) elapsed 0 0 (previewActive, q) = (waiting, pa, q1)"
    by (cases "rx_loop session n (parse_budget n) elapsed 0 0 (previewActive, q)")
  have "rx_inv q1" "handles q q1" "quiet_long q1" "rq_lastIngress q1 = rq_lastIngress q"
    using loop_inv [of "(previewActive, q)" session n "parse_budget n" elapsed 0 0]
      loop_handles [of "(previewActive, q)" session n "parse_budget n" elapsed 0 0]
      loop_last [of session n "parse_budget n" elapsed 0 0 "(previewActive, q)"] assms l by auto
  then have "forward q (rx_tidy (break_circular_wait blocked waiting q1))"
    using tidy_handles [of q1 blocked waiting] handles_trans [of q q1] by (simp add: forward_def tidy_inv)
  then show ?thesis using l by (simp add: rx_parse_def Let_def n_def)
qed

lemma refresh_fields [simp]:
  "rq_accept (refreshBackpressureState q) = rq_accept q" "kept_session (refreshBackpressureState q) = kept_session q"
  "rq_queue (refreshBackpressureState q) = rq_queue q" "rq_ready (refreshBackpressureState q) = rq_ready q"
  "caught_up taken (refreshBackpressureState q) = caught_up taken q"
  "forward q' (refreshBackpressureState q) = forward q' q"
  by (simp_all add: refreshBackpressureState_def kept_session_def Let_def caught_up_def quiet_long_def rx_pending_def
      forward_def handles_def)

text \<open>What the parse loop leaves alone.\<close>

definition door_part :: "rx_queue \<Rightarrow> bool \<times> bool \<times> u32 \<times> rx_packet list \<times> rx_packet list \<times> nat" where
  "door_part q = (rq_accept q, rq_ready q, rq_session q, rq_admitted q, rq_queue q, rq_depth q)"

lemma door_small [simp]:
  "door_part (rx_mark_discontinuous q) = door_part q" "door_part (clearRxState q) = door_part q"
  "door_part (clearLongRxState q) = door_part q" "door_part (compactRxState q) = door_part q"
  "door_part (q\<lparr>rq_pendingGap := b\<rparr>) = door_part q" "door_part (q\<lparr>rq_readPos := n\<rparr>) = door_part q"
  "door_part (q\<lparr>rq_inputDrops := n\<rparr>) = door_part q" "door_part (q\<lparr>rq_lastIngress := x\<rparr>) = door_part q"
  "door_part (q\<lparr>rq_longNeedsStart := b\<rparr>) = door_part q" "door_part (q\<lparr>rq_long := l\<rparr>) = door_part q"
  "door_part (applyPendingDiscontinuityIfStreamDrained q) = door_part q"
  "door_part (snd (appendRxBytes data x ts gap q)) = door_part q"
  "door_part (acceptIngressSequence x q) = door_part q" "door_part (refreshBackpressureState q) = door_part q"
  "door_part (q\<lparr>rq_lastRxMillis := t, rq_lastNotifyTsMs := t\<rparr>) = door_part q"
  by (simp_all add: door_part_def rx_mark_discontinuous_def clearRxState_def clearLongRxState_def compactRxState_def
      applyPendingDiscontinuityIfStreamDrained_def appendRxBytes_def acceptIngressSequence_def
      refreshBackpressureState_def Let_def)

lemma handle_door [simp]: "door_part (snd (handle_frame session f x ts r)) = door_part (snd r)"
  by (simp add: door_part_def handle_stream_fields(4))

lemma round_door [simp]: "door_part (snd (snd (rx_round session r))) = door_part (snd r)"
  by (simp add: rx_round_def long_round_def short_round_def Let_def split_beta split: rx_decision.split)

lemma loop_door [simp]: "door_part (snd (snd (rx_loop session m b elapsed i n r))) = door_part (snd r)"
proof (induction session m b elapsed i n r rule: rx_loop.induct)
  case (1 session m b elapsed i n r)
  show ?case
  proof (cases "n \<ge> m \<or> n \<ge> 8 \<and> elapsed i \<ge> b")
    case False
    obtain k r' where k: "rx_round session r = (k, r')" by (cases "rx_round session r")
    with round_door [of session r] have "door_part (snd r') = door_part (snd r)" by simp
    with False k 1 show ?thesis
      by (cases k) (auto simp: rx_loop.simps [of session m b elapsed i n r] split: rx_outcome.split)
  qed (simp add: rx_loop.simps)
qed

lemma parse_door [simp]: "door_part (rx_parse previewActive elapsed queued blocked session q) = door_part q"
  by (simp add: rx_parse_def Let_def split_beta rx_tidy_def break_circular_wait_def)

lemma exact_fields:
  "caught_up taken q \<Longrightarrow> of_session (rq_session q) (rq_admitted q) = taken @ of_session (rq_session q) (rq_queue q) \<Longrightarrow>
     exact_session q"
  by (auto simp: exact_session_def)

lemma publish_quiet [simp]: "quiet_long q \<Longrightarrow> publish_held q = q"
  by (simp add: publish_held_def)

lemma flush_door [simp]: "door_part (snd (flushCompleteLongRx q)) = door_part q"
  using append_slots_keeps [of door_part] by (simp add: flushCompleteLongRx_def Let_def split_beta)

lemma take_door [simp]:
  "door_part (take_long_chunk k q) = door_part q" "door_part (snd (take_short k q)) = door_part q"
proof -
  have "door_part (snd (appendLongRxChunk k gap q)) = door_part q" for gap q
    by (simp add: appendLongRxChunk_def)
  then show "door_part (take_long_chunk k q) = door_part q"
    by (simp add: take_long_chunk_def qualify_long_def hold_long_def Let_def split_beta)
  show "door_part (snd (take_short k q)) = door_part q"
    by (simp add: take_short_def appendRxPacket_def Let_def split_beta)
qed

lemma drain_door: "\<exists>ls. door_part (snd (snd (rx_drain sessionOpen g ts ks q))) = door_part (q\<lparr>rq_queue := ls\<rparr>)"
proof (induction sessionOpen g ts ks q rule: rx_drain.induct)
  case (2 sessionOpen g ts k ks q)
  have cut: "\<exists>ls. door_part (q'\<lparr>rq_queue := k # ks\<rparr>) = door_part (q\<lparr>rq_queue := ls\<rparr>)" if "door_part q' = door_part q" for q'
    using that by (auto simp: door_part_def)
  have more: "\<exists>ls. x = door_part (q\<lparr>rq_queue := ls\<rparr>)"
    if "door_part q' = door_part q" "\<exists>ls. x = door_part (q'\<lparr>rq_queue := ls\<rparr>)" for x q'
    using that by (auto simp: door_part_def)
  obtain ok q' where t: "take_short k q = (ok, q')" by fastforce
  with take_door(2) [of k q] have d: "door_part q' = door_part q" by simp
  show ?case
  proof (cases "\<not> sessionOpen \<or> rp_session k \<noteq> g")
    case True
    with 2(1) show ?thesis by auto
  next
    case go: False
    show ?thesis
    proof (cases "rp_charUUID k = LONG_NOTIFY_CHARACTERISTIC")
      case True
      show ?thesis
      proof (cases "longRxComplete q")
        case complete: True
        with go True cut [of q] show ?thesis by simp
      next
        case False
        with go True more [OF take_door(1) 2(2) [OF go True False]] show ?thesis by simp
      qed
    next
      case False
      show ?thesis
      proof (cases ok)
        case True
        with go False t more [OF d 2(3) [OF go False t [symmetric] refl]] show ?thesis by simp
      next
        case stuck: False
        with go False t cut [OF d] show ?thesis by simp
      qed
    qed
  qed
qed auto

lemma take_pass_exact:
  assumes "exact_session q" "rq_accept q" "only_short (of_session (rq_session q) (rq_admitted q))"
  shows "\<exists>taken. of_session (rq_session q) (rq_admitted q) = taken @ of_session (rq_session q) (rq_queue (snd (rx_take q))) \<and>
    caught_up taken (snd (rx_take q)) \<and> (\<exists>ls. door_part (snd (rx_take q)) = door_part (q\<lparr>rq_queue := ls\<rparr>))"
proof -
  from assms obtain taken where t: "of_session (rq_session q) (rq_admitted q) = taken @ of_session (rq_session q) (rq_queue q)"
    "caught_up taken q" by (auto simp: exact_session_def)
  then have l: "publish_held q = q" by (auto simp: caught_up_def)
  have flags: "caught_up taken (q'\<lparr>rq_lastRxMillis := t, rq_lastNotifyTsMs := t\<rparr>) = caught_up taken q'" for taken q' t
    by (simp add: caught_up_def quiet_long_def rx_pending_def)
  show ?thesis
  proof (cases "rq_ready q")
    case False
    with t l show ?thesis by (auto simp: rx_take_def intro: exI [of _ "rq_queue q"])
  next
    case True
    obtain blocked ts q1 where d: "rx_drain (rq_accept q) (rq_session q) 0 (rq_queue q) q = (blocked, ts, q1)"
      by (cases "rx_drain (rq_accept q) (rq_session q) 0 (rq_queue q) q")
    from t(1) assms(3) have "only_short (of_session (rq_session q) (rq_queue q))" by simp
    from drain_caught_up [OF t(2) assms(2) refl subset_refl order_refl this, of 0] d obtain more where
      more: "of_session (rq_session q) (rq_queue q) = more @ of_session (rq_session q) (rq_queue q1)"
        "caught_up (taken @ more) q1" by auto
    from drain_door [of "rq_accept q" "rq_session q" 0 "rq_queue q" q] d obtain ls
      where ls: "door_part q1 = door_part (q\<lparr>rq_queue := ls\<rparr>)" by auto
    have "snd (rx_take q) = (if ts \<noteq> 0 then q1\<lparr>rq_lastRxMillis := ts, rq_lastNotifyTsMs := ts\<rparr> else q1)"
      using True d by (simp add: rx_take_def l)
    with t(1) more ls show ?thesis by (intro exI [of _ "taken @ more"]) (auto simp: flags)
  qed
qed

text \<open>The second half of a pass leaves the queue and its history alone.\<close>

lemma process_split:
  obtains blocked where "rx_process previewActive elapsed q = refreshBackpressureState
      (if rq_readPos (snd (rx_take q)) \<ge> length (rq_rx (snd (rx_take q)))
       then applyPendingDiscontinuityIfStreamDrained (clearRxState (snd (rx_take q)))
       else rx_parse previewActive elapsed (if rq_ready q then length (rq_queue q) else 0) blocked (rq_session q)
              (snd (rx_take q)))"
proof -
  obtain b q1 where t: "rx_take q = (b, q1)" by (cases "rx_take q")
  show ?thesis by (rule that [of b]) (simp add: rx_process_def Let_def t)
qed

lemma process_door [simp]: "door_part (rx_process previewActive elapsed q) = door_part (snd (rx_take q))"
  by (rule process_split [of previewActive elapsed q]) simp

lemma process_forward:
  assumes "rx_inv (snd (rx_take q))" "quiet_long (snd (rx_take q))"
  shows "forward (snd (rx_take q)) (rx_process previewActive elapsed q)"
proof -
  let ?q = "snd (rx_take q)"
  have "forward ?q (applyPendingDiscontinuityIfStreamDrained (clearRxState ?q))"
    if "rq_readPos ?q \<ge> length (rq_rx ?q)"
  proof -
    have "applyPendingDiscontinuityIfStreamDrained (clearRxState ?q) = clearRxState ?q"
      using assms by (simp add: applyPendingDiscontinuityIfStreamDrained_def quiet_long_def clearRxState_def)
    moreover have "quiet_long (clearRxState ?q)" "rq_lastIngress (clearRxState ?q) = rq_lastIngress ?q"
      using assms by (auto simp: quiet_long_def clearRxState_def)
    ultimately show ?thesis using assms(1) clear_handles [OF that] by (simp add: forward_def)
  qed
  moreover obtain blocked where "rx_process previewActive elapsed q = refreshBackpressureState
      (if rq_readPos ?q \<ge> length (rq_rx ?q) then applyPendingDiscontinuityIfStreamDrained (clearRxState ?q)
       else rx_parse previewActive elapsed (if rq_ready q then length (rq_queue q) else 0) blocked (rq_session q) ?q)"
    by (rule process_split)
  ultimately show ?thesis by (simp add: parse_forward [OF assms])
qed

lemma process_caught_up:
  "caught_up taken (snd (rx_take q)) \<Longrightarrow> caught_up taken (rx_process previewActive elapsed q)"
  using process_forward [of q previewActive elapsed] forward_caught_up
  by (metis caught_up_def)

lemma process_exact:
  assumes "exact_session q"
  shows "exact_session (rx_process previewActive elapsed q)"
proof -
  let ?q = "rx_process previewActive elapsed q"
  have door: "\<exists>ls. door_part (snd (rx_take q)) = door_part (q\<lparr>rq_queue := ls\<rparr>)"
  proof -
    have p: "door_part (publish_held q) = door_part q" by (simp add: publish_held_def)
    have "\<exists>ls. door_part (snd (rx_take q)) = door_part ((publish_held q)\<lparr>rq_queue := ls\<rparr>)"
    proof (cases "rq_ready (publish_held q)")
      case True
      with drain_door [of "rq_accept (publish_held q)" "rq_session (publish_held q)" 0 "rq_queue (publish_held q)"
          "publish_held q"]
      show ?thesis by (simp add: rx_take_def Let_def split_beta)
    next
      case False
      then show ?thesis by (auto simp: rx_take_def Let_def intro: exI [of _ "rq_queue (publish_held q)"])
    qed
    with p show ?thesis by (auto simp: door_part_def)
  qed
  then have same: "rq_accept ?q = rq_accept q" "rq_session ?q = rq_session q" "rq_admitted ?q = rq_admitted q"
      "rq_queue ?q = rq_queue (snd (rx_take q))"
    using process_door [of previewActive elapsed q] by (auto simp: door_part_def)
  show ?thesis
    unfolding exact_session_def same
    using take_pass_exact [OF assms] process_caught_up by blast
qed

section \<open>Every history\<close>

lemma open_exact: "exact_session (openSession g q)"
proof -
  have "caught_up [] (openSession g q)"
    using open_inv [of g q]
    by (simp add: caught_up_def quiet_long_def openSession_def closeSession_def clearRxState_def clearLongRxState_def
        reset_alert_input_def rx_pending_def)
  then show ?thesis
    by (rule exact_fields)
      (simp add: openSession_def closeSession_def clearRxState_def clearLongRxState_def reset_alert_input_def)
qed

lemma shut_exact: "\<not> rq_accept q \<Longrightarrow> exact_session q"
  by (simp add: exact_session_def)

lemma calls_exact: "exact_session q \<Longrightarrow> exact_session (foldl session_step q calls)"
proof (induction calls arbitrary: q)
  case (Cons e calls)
  have "exact_session (closeSession q)"
    by (rule shut_exact) (simp add: closeSession_def clearRxState_def clearLongRxState_def reset_alert_input_def)
  with Cons show ?case by (cases e) (simp_all add: open_exact)
qed simp

text \<open>Whatever else happens to the client, the parser, the counters and the flags.\<close>

definition stream_view where
  "stream_view q = (rq_rx q, rq_readPos q, rq_long q, rq_queue q, rq_depth q, rq_admitted q, rq_dispatched q,
     rq_session q, rq_accept q, rq_lastIngress q, rq_pendingGap q)"

lemma view_caught_up: "stream_view q = stream_view q' \<Longrightarrow> caught_up taken q = caught_up taken q'"
  using inv_part_cong [of q q']
  by (simp add: stream_view_def caught_up_def quiet_long_def rx_pending_def inv_part_def)

lemma view_exact: "stream_view q = stream_view q' \<Longrightarrow> exact_session q = exact_session q'"
  using view_caught_up [of q q'] by (simp add: exact_session_def stream_view_def)

lemma enqueue_exact:
  assumes "rx_inv q" "exact_session q" "0 < length (rp_data k)" "length (rp_data k) \<le> RX_PACKET_BYTES"
  shows "exact_session (snd (enqueue k q))"
proof (cases "length (rq_queue q) < rq_depth q")
  case True
  let ?q = "q\<lparr>rq_queue := rq_queue q @ [k], rq_admitted := rq_admitted q @ [k]\<rparr>"
  have inv: "rx_inv ?q" using enqueue_inv [OF assms(1,3,4)] True by (simp add: enqueue_def)
  have "caught_up taken ?q" if "caught_up taken q" for taken
    using that inv by (simp add: caught_up_def quiet_long_def rx_pending_def)
  then have "exact_session ?q" using assms(2) by (auto simp: exact_session_def)
  with True show ?thesis by (simp add: enqueue_def)
next
  case False
  then show ?thesis using assms(2)
    by (simp add: enqueue_def) (subst view_exact [of _ q], simp_all add: stream_view_def)
qed

lemma notify_exact:
  "rx_inv q \<Longrightarrow> exact_session q \<Longrightarrow> exact_session (snd (tryOnNotify early late data u g ts x q))"
  using enqueue_exact [OF calls_inv [OF calls_inv] calls_exact [OF calls_exact], of q] calls_exact [of q early]
  by (simp add: tryOnNotify_def Let_def)

lemma rx_step_exact:
  assumes "rx_inv q" "exact_session q"
  shows "exact_session (rx_step q e)"
proof (cases e)
  case RxClose
  then show ?thesis
    by (simp add: shut_exact closeSession_def clearRxState_def clearLongRxState_def reset_alert_input_def)
next
  case RxEnd
  then show ?thesis
    by (simp add: shut_exact rx_end_def clearRxState_def clearLongRxState_def reset_alert_input_def)
next
  case RxConsume
  with assms(2) show ?thesis
    by (simp add: consumeParsedFlag_def) (subst view_exact [of _ q], simp_all add: stream_view_def)
next
  case (RxClientEvent e)
  with assms(2) show ?thesis by (simp add: rx_client_def) (subst view_exact [of _ q], simp_all add: stream_view_def)
next
  case (RxParserEvent e)
  with assms(2) show ?thesis by (simp add: rx_parser_def) (subst view_exact [of _ q], simp_all add: stream_view_def)
qed (simp_all add: assms open_exact notify_exact process_exact)

interpretation rx_exact: event_machine rx_step "\<lambda>q. rx_inv q \<and> exact_session q"
  by unfold_locales (simp add: rx_step_inv rx_step_exact)

text \<open>What the staged bytes and the queue of a session still hold.\<close>

definition remaining :: "rx_queue \<Rightarrow> staged list" where
  "remaining q = rx_pending q @ stream_of (rq_lastIngress q) (of_session (rq_session q) (rq_queue q))"

definition session_stream :: "rx_queue \<Rightarrow> staged list" where
  "session_stream q = stream_of 0 (of_session (rq_session q) (rq_admitted q))"

lemma exact_frames:
  assumes "exact_session q" "rq_accept q" "only_short (of_session (rq_session q) (rq_admitted q))"
  shows "frames (session_stream q) = rq_dispatched q @ frames (remaining q)"
proof -
  from assms obtain taken where t: "of_session (rq_session q) (rq_admitted q) = taken @ of_session (rq_session q) (rq_queue q)"
    "caught_up taken q" by (auto simp: exact_session_def)
  then have "frames (stream_of 0 taken @ X) = rq_dispatched q @ frames (rx_pending q @ X)" for X
    by (simp add: caught_up_def finds_def)
  with t show ?thesis by (simp add: session_stream_def remaining_def stream_of_append caught_up_def)
qed

end
