(* ===== verification/V1_Rx_Progress.thy ===== *)
theory V1_Rx_Progress
  imports V1_Rx_Short
begin

text \<open>
  Passes make progress: while a session has something to give, every pass uses up staged bytes or
  takes notifications from the queue, so a bounded number of passes handles every frame of the
  admitted stream.
\<close>

section \<open>A measure of the work left\<close>

definition weight :: "rx_packet list \<Rightarrow> nat" where
  "weight ks = sum_list (map (\<lambda>k. length (rp_data k)) ks)"

definition work :: "rx_queue \<Rightarrow> nat" where
  "work q = 2 * weight (rq_queue q) + length (rx_pending q)"

lemma weight_simps [simp]: "weight [] = 0" "weight (k # ks) = length (rp_data k) + weight ks"
  by (simp_all add: weight_def)

definition settled :: "rx_queue \<Rightarrow> bool" where
  "settled q \<longleftrightarrow> rq_queue q = [] \<and> frames (rx_pending q) = []"

section \<open>The loop consumes\<close>

lemma wait_short: "rx_decide bs = RxWait \<Longrightarrow> length bs < 512"
  by (auto simp: rx_decide_def Let_def split: option.splits nat.splits if_splits)

lemma stop_cases:
  assumes "rx_round session r = (RoundStop w, r')" "quiet_long (snd r)"
  shows "rx_pending (snd r') = [] \<or> rx_pending (snd r') = rx_pending (snd r) \<and> rx_decide (rx_pending (snd r)) = RxWait"
  using assms
  by (auto simp: rx_round_def dispatches_long_def short_round_def Let_def split_beta split: if_splits rx_decision.splits)

lemma round_shorter:
  assumes "rx_round session r = (k, r')" "k = RoundResync \<or> k = RoundPacket" "quiet_long (snd r)"
  shows "length (rx_pending (snd r')) < length (rx_pending (snd r)) \<and> quiet_long (snd r')"
proof -
  have "quiet_long (snd r')" using round_handles [OF assms(3), of session] assms(1) by simp
  with round_progress [OF assms(1,2)] assms(3) show ?thesis
    by (simp add: rx_left_def rx_pending_def)
qed

lemma loop_consumes:
  "quiet_long (snd r) \<Longrightarrow> length (rx_pending (snd (snd (rx_loop session m b elapsed i n r)))) \<le> length (rx_pending (snd r))"
proof (induction session m b elapsed i n r rule: rx_loop.induct)
  case (1 session m b elapsed i n r)
  show ?case
  proof (cases "n \<ge> m \<or> n \<ge> 8 \<and> elapsed i \<ge> b")
    case False
    obtain k r' where k: "rx_round session r = (k, r')" by (cases "rx_round session r")
    show ?thesis
    proof (cases k)
      case (RoundStop w)
      with k stop_cases [of session r w r'] 1(3) False show ?thesis
        by (auto simp: rx_loop.simps [of session m b elapsed i n r])
    next
      case RoundResync
      with k round_shorter [of session r k r'] 1(3) False 1(1) [OF False k [symmetric] RoundResync] show ?thesis
        by (auto simp: rx_loop.simps [of session m b elapsed i n r])
    next
      case RoundPacket
      with k round_shorter [of session r k r'] 1(3) False 1(2) [OF False k [symmetric] RoundPacket] show ?thesis
        by (auto simp: rx_loop.simps [of session m b elapsed i n r])
    qed
  qed (simp add: rx_loop.simps)
qed

lemma loop_works:
  assumes "quiet_long (snd r)" "n < m" "n < 8"
  shows "length (rx_pending (snd (snd (rx_loop session m b elapsed i n r)))) < length (rx_pending (snd r)) \<or>
    rx_pending (snd (snd (rx_loop session m b elapsed i n r))) = rx_pending (snd r) \<and>
    (rx_pending (snd r) = [] \<or> rx_decide (rx_pending (snd r)) = RxWait)"
proof -
  from assms(2,3) have go: "\<not> (n \<ge> m \<or> n \<ge> 8 \<and> elapsed i \<ge> b)" by simp
  obtain k r' where k: "rx_round session r = (k, r')" by (cases "rx_round session r")
  show ?thesis
  proof (cases k)
    case (RoundStop w)
    with k stop_cases [of session r w r'] assms(1) go show ?thesis
      by (auto simp: rx_loop.simps [of session m b elapsed i n r])
  next
    case RoundResync
    with k round_shorter [of session r k r'] assms(1) have "length (rx_pending (snd r')) < length (rx_pending (snd r))"
      "quiet_long (snd r')" by auto
    with RoundResync k go loop_consumes [of r' session m b elapsed "Suc i" n] show ?thesis
      by (auto simp: rx_loop.simps [of session m b elapsed i n r])
  next
    case RoundPacket
    with k round_shorter [of session r k r'] assms(1) have "length (rx_pending (snd r')) < length (rx_pending (snd r))"
      "quiet_long (snd r')" by auto
    with RoundPacket k go loop_consumes [of r' session m b elapsed "Suc i" "Suc n"] show ?thesis
      by (auto simp: rx_loop.simps [of session m b elapsed i n r])
  qed
qed

lemma tidy_pending:
  assumes "rx_inv q" "quiet_long q"
  shows "rx_pending (rx_tidy (break_circular_wait blocked waiting q)) = rx_pending q"
proof -
  have r: "rq_readPos q \<le> length (rq_rx q)" using assms(1) by (simp add: rx_inv_def buffer_inv_def)
  have "applyPendingDiscontinuityIfStreamDrained (clearRxState q) = clearRxState q"
    using assms(2) by (simp add: applyPendingDiscontinuityIfStreamDrained_def quiet_long_def clearRxState_def)
  then show ?thesis
    using assms(2) compact_shape(1) [OF r] pending_empty [of q]
    by (cases "rq_readPos q \<ge> length (rq_rx q)") (simp_all add: rx_tidy_def break_circular_wait_def)
qed

lemma max_packets_base: "8 \<le> max_packets depth available queued previewActive"
  by (simp add: max_packets_def Let_def)

lemma parse_works:
  assumes "rx_inv q" "quiet_long q"
  shows "length (rx_pending (rx_parse previewActive elapsed queued blocked session q)) < length (rx_pending q) \<or>
    rx_pending (rx_parse previewActive elapsed queued blocked session q) = rx_pending q \<and>
    (rx_pending q = [] \<or> rx_decide (rx_pending q) = RxWait)"
proof -
  define n where "n = max_packets (rq_depth q) (length (rq_rx q) - rq_readPos q) queued previewActive"
  obtain waiting pa q1 where l: "rx_loop session n (parse_budget n) elapsed 0 0 (previewActive, q) = (waiting, pa, q1)"
    by (cases "rx_loop session n (parse_budget n) elapsed 0 0 (previewActive, q)")
  have "0 < n" using max_packets_base [of "rq_depth q" "length (rq_rx q) - rq_readPos q" queued previewActive]
    by (simp add: n_def)
  moreover have "rx_inv q1" "quiet_long q1"
    using loop_inv [of "(previewActive, q)" session n "parse_budget n" elapsed 0 0] assms l
      loop_handles [of "(previewActive, q)" session n "parse_budget n" elapsed 0 0] by auto
  ultimately show ?thesis
    using loop_works [of "(previewActive, q)" 0 n session "parse_budget n" elapsed 0] assms(2) l tidy_pending [of q1]
    by (auto simp: rx_parse_def Let_def n_def [symmetric])
qed

section \<open>Draining takes what fits\<close>

lemma take_short_pending:
  assumes "rx_inv q" "rp_data k \<noteq> []"
  shows "fst (take_short k q) \<longleftrightarrow> length (rx_pending q) + length (rp_data k) \<le> RX_BUFFER_MAX"
    and "length (rx_pending (snd (take_short k q))) =
      length (rx_pending q) + (if fst (take_short k q) then length (rp_data k) else 0)"
    and "\<not> fst (take_short k q) \<Longrightarrow> rx_pending (snd (take_short k q)) = rx_pending q"
proof -
  define gap where "gap \<longleftrightarrow> ingressWouldBeDiscontinuous (rp_ingress k) q \<or> rq_pendingGap q"
  obtain ok q1 where a: "appendRxPacket k gap q = (ok, q1)" by fastforce
  have r: "rq_readPos q \<le> length (rq_rx q)" using assms(1) by (simp add: rx_inv_def buffer_inv_def)
  have t: "take_short k q = (if \<not> ok then (False, q1)
      else (True, (acceptIngressSequence (rp_ingress k) q1)\<lparr>rq_pendingGap := False\<rparr>))"
    using a by (simp add: take_short_def gap_def [symmetric])
  have p: "ok \<longleftrightarrow> length (rx_pending q) + length (rp_data k) \<le> RX_BUFFER_MAX"
    "rx_pending q1 = (if ok then rx_pending q @ stage (rp_data k) (rp_ingress k) (rp_tsMs k) gap else rx_pending q)"
    using append_pending [OF r assms(2), of "rp_ingress k" "rp_tsMs k" gap] a by (simp_all add: appendRxPacket_def)
  show "fst (take_short k q) \<longleftrightarrow> length (rx_pending q) + length (rp_data k) \<le> RX_BUFFER_MAX"
    using t p(1) by simp
  show "length (rx_pending (snd (take_short k q))) =
      length (rx_pending q) + (if fst (take_short k q) then length (rp_data k) else 0)"
    using t p(2) by simp
  show "rx_pending (snd (take_short k q)) = rx_pending q" if "\<not> fst (take_short k q)"
    using that t p(2) by (simp split: if_splits)
qed

lemma drain_works:
  assumes "caught_up taken q" "sessionOpen" "g = rq_session q" "set ks \<subseteq> set (rq_queue q)"
    "length ks \<le> length (rq_queue q)" "only_short (of_session g ks)"
    "q' = snd (snd (rx_drain sessionOpen g ts ks q))"
  shows "2 * weight (rq_queue q') + length (rx_pending q') < 2 * weight ks + length (rx_pending q) \<or>
    rq_queue q' = ks \<and> rx_pending q' = rx_pending q \<and>
    (ks \<noteq> [] \<longrightarrow> length (rx_pending q) + RX_PACKET_BYTES > RX_BUFFER_MAX)"
  using assms
proof (induction sessionOpen g ts ks q arbitrary: taken rule: rx_drain.induct)
  case (1 sessionOpen g ts q)
  then show ?case by simp
next
  case (2 sessionOpen g ts k ks q)
  note IH = 2(1-3) and prems = 2(4-10)
  have inv: "rx_inv q" using prems(1) by (simp add: caught_up_def)
  have k: "k \<in> set (rq_admitted q)" "rp_data k \<noteq> []" "length (rp_data k) \<le> RX_PACKET_BYTES"
    using prems(1,4) by (auto simp: caught_up_def rx_inv_def queue_inv_def list_all_iff)
  then have pos: "0 < length (rp_data k)" by simp
  show ?case
  proof (cases "rp_session k = g")
    case False
    with prems have "q' = snd (snd (rx_drain sessionOpen g ts ks q))" "only_short (of_session g ks)" by simp_all
    with IH(1) [of taken] False prems pos show ?thesis by auto
  next
    case True
    with prems have short: "rp_charUUID k \<noteq> LONG_NOTIFY_CHARACTERISTIC" by simp
    from True k(1) prems(3) have o: "origin q (rp_ingress k) (rp_tsMs k)" by (auto simp: origin_def)
    obtain ok q1 where t: "take_short k q = (ok, q1)" by fastforce
    from take_short_inv [OF inv o k(3)] t have s: "session_part q1 = session_part q" by simp
    note c = take_short_caught_up [OF prems(1) o k(2,3)]
    note p = take_short_pending [OF inv k(2)]
    show ?thesis
    proof (cases ok)
      case ok: True
      with c t have c': "caught_up (taken @ [k]) q1" by simp
      from s prems have rest: "g = rq_session q1" "set ks \<subseteq> set (rq_queue q1)" "length ks \<le> length (rq_queue q1)"
        "only_short (of_session g ks)" by (auto simp: session_part_def split: if_splits)
      have "q' = snd (snd (rx_drain sessionOpen g (rp_tsMs k) ks q1))"
        using prems(7) True short t ok prems(2) by simp
      from IH(3) [OF _ short t [symmetric] refl ok c' prems(2) rest this] True prems(2)
      have "2 * weight (rq_queue q') + length (rx_pending q') \<le> 2 * weight ks + length (rx_pending q1)" by auto
      moreover have "length (rx_pending q1) = length (rx_pending q) + length (rp_data k)" using p(2) t ok by simp
      moreover have "weight (k # ks) = length (rp_data k) + weight ks" by simp
      ultimately have "2 * weight (rq_queue q') + length (rx_pending q') < 2 * weight (k # ks) + length (rx_pending q)"
        using pos by linarith
      then show ?thesis ..
    next
      case stuck: False
      then have "q' = q1\<lparr>rq_queue := k # ks\<rparr>" using prems(2,7) True short t by simp
      with stuck t p(1,3) k(3) show ?thesis by simp
    qed
  qed
qed

section \<open>A pass works\<close>

lemma take_pass_works:
  assumes "caught_up taken q" "rq_accept q" "rq_ready q" "only_short (of_session (rq_session q) (rq_queue q))"
  shows "work (snd (rx_take q)) < work q \<or>
    rq_queue (snd (rx_take q)) = rq_queue q \<and> rx_pending (snd (rx_take q)) = rx_pending q \<and>
    (rq_queue q \<noteq> [] \<longrightarrow> length (rx_pending q) + RX_PACKET_BYTES > RX_BUFFER_MAX)"
proof -
  from assms(1) have l: "publish_held q = q" by (simp add: caught_up_def)
  obtain blocked ts q1 where d: "rx_drain (rq_accept q) (rq_session q) 0 (rq_queue q) q = (blocked, ts, q1)"
    by (cases "rx_drain (rq_accept q) (rq_session q) 0 (rq_queue q) q")
  have "snd (rx_take q) = (if ts \<noteq> 0 then q1\<lparr>rq_lastRxMillis := ts, rq_lastNotifyTsMs := ts\<rparr> else q1)"
    using assms(3) d by (simp add: rx_take_def l)
  moreover have "rx_pending (q1\<lparr>rq_lastRxMillis := ts, rq_lastNotifyTsMs := ts\<rparr>) = rx_pending q1"
    by (simp add: rx_pending_def)
  ultimately show ?thesis
    using drain_works [OF assms(1,2) refl subset_refl order_refl assms(4) refl, of 0] d by (simp add: work_def)
qed

lemma pass_works:
  assumes "caught_up taken q" "rq_accept q" "rq_ready q" "only_short (of_session (rq_session q) (rq_queue q))"
    and "caught_up taken' (snd (rx_take q))"
  shows "work (rx_process previewActive elapsed q) < work q \<or> settled (rx_process previewActive elapsed q)"
proof -
  let ?t = "snd (rx_take q)" and ?q = "rx_process previewActive elapsed q"
  obtain blocked where e: "?q = refreshBackpressureState
      (if rq_readPos ?t \<ge> length (rq_rx ?t) then applyPendingDiscontinuityIfStreamDrained (clearRxState ?t)
       else rx_parse previewActive elapsed (if rq_ready q then length (rq_queue q) else 0) blocked (rq_session q) ?t)"
    by (rule process_split)
  have t: "rx_inv ?t" "quiet_long ?t" using assms(5) by (auto simp: caught_up_def)
  have r: "rx_pending (refreshBackpressureState x) = rx_pending x" for x
    by (simp add: refreshBackpressureState_def rx_pending_def Let_def)
  have queue: "rq_queue ?q = rq_queue ?t" using process_door [of previewActive elapsed q] by (simp add: door_part_def)
  have loop: "length (rx_pending ?q) < length (rx_pending ?t) \<or>
      rx_pending ?q = rx_pending ?t \<and> (rx_pending ?t = [] \<or> rx_decide (rx_pending ?t) = RxWait)"
  proof (cases "rq_readPos ?t \<ge> length (rq_rx ?t)")
    case True
    then have "rx_pending ?t = []" by (simp add: pending_empty)
    moreover have "rx_pending ?q = []"
      using True t(2)
      by (simp add: e r) (simp add: applyPendingDiscontinuityIfStreamDrained_def quiet_long_def clearRxState_def rx_pending_def)
    ultimately show ?thesis by simp
  next
    case False
    with parse_works [OF t] show ?thesis by (simp add: e r)
  qed
  from take_pass_works [OF assms(1-4)] show ?thesis
  proof
    assume "work ?t < work q"
    with loop queue show ?thesis by (auto simp: work_def)
  next
    assume stuck: "rq_queue ?t = rq_queue q \<and> rx_pending ?t = rx_pending q \<and>
      (rq_queue q \<noteq> [] \<longrightarrow> length (rx_pending q) + RX_PACKET_BYTES > RX_BUFFER_MAX)"
    from loop show ?thesis
    proof
      assume "length (rx_pending ?q) < length (rx_pending ?t)"
      with stuck queue show ?thesis by (simp add: work_def)
    next
      assume w: "rx_pending ?q = rx_pending ?t \<and> (rx_pending ?t = [] \<or> rx_decide (rx_pending ?t) = RxWait)"
      then have "length (rx_pending ?t) < 512" using wait_short by auto
      with stuck have "rq_queue q = []" by (auto simp: RX_BUFFER_MAX_def RX_PACKET_BYTES_def)
      with w stuck queue show ?thesis by (auto simp: settled_def frames_cases)
    qed
  qed
qed

section \<open>Enough passes\<close>

text \<open>A session that can be served: its queue is there, it is open, and it had short notifications only.\<close>

definition serving :: "rx_queue \<Rightarrow> bool" where
  "serving q \<longleftrightarrow> rx_inv q \<and> exact_session q \<and> rq_ready q \<and> rq_accept q \<and>
     only_short (of_session (rq_session q) (rq_admitted q))"

lemma serving_taken:
  assumes "serving q"
  obtains taken where "of_session (rq_session q) (rq_admitted q) = taken @ of_session (rq_session q) (rq_queue q)"
    "caught_up taken q"
  using assms by (auto simp: serving_def exact_session_def)

lemma process_serving:
  assumes "serving q"
  shows "serving (rx_process previewActive elapsed q)"
    and "session_stream (rx_process previewActive elapsed q) = session_stream q"
proof -
  from take_pass_exact [of q] assms obtain ls where "door_part (snd (rx_take q)) = door_part (q\<lparr>rq_queue := ls\<rparr>)"
    by (auto simp: serving_def)
  then have "rq_ready (rx_process previewActive elapsed q) = rq_ready q"
    "rq_accept (rx_process previewActive elapsed q) = rq_accept q"
    "rq_session (rx_process previewActive elapsed q) = rq_session q"
    "rq_admitted (rx_process previewActive elapsed q) = rq_admitted q"
    using process_door [of previewActive elapsed q] by (auto simp: door_part_def)
  with assms show "serving (rx_process previewActive elapsed q)"
    "session_stream (rx_process previewActive elapsed q) = session_stream q"
    by (simp_all add: serving_def process_inv process_exact session_stream_def)
qed

lemma serving_works:
  assumes "serving q"
  shows "work (rx_process previewActive elapsed q) < work q \<or> settled (rx_process previewActive elapsed q)"
proof -
  from assms obtain taken where t: "of_session (rq_session q) (rq_admitted q) = taken @ of_session (rq_session q) (rq_queue q)"
    "caught_up taken q" by (rule serving_taken)
  from take_pass_exact [of q] assms obtain taken' where "caught_up taken' (snd (rx_take q))"
    by (auto simp: serving_def)
  moreover have "only_short (of_session (rq_session q) (rq_queue q))" using assms t(1) by (auto simp: serving_def)
  ultimately show ?thesis using pass_works [OF t(2)] assms by (simp add: serving_def)
qed

lemma settled_stays:
  assumes "serving q" "settled q"
  shows "settled (rx_process previewActive elapsed q)"
proof -
  let ?t = "snd (rx_take q)" and ?q = "rx_process previewActive elapsed q"
  from assms(1) obtain taken where t: "caught_up taken q" by (rule serving_taken)
  then have l: "publish_held q = q" by (simp add: caught_up_def)
  have q: "rq_queue ?t = []" "rx_pending ?t = rx_pending q" "rq_long ?t = rq_long q" "rq_pendingGap ?t = rq_pendingGap q"
    using assms(2) l by (simp_all add: rx_take_def settled_def rx_pending_def)
  have "rx_inv ?t" "quiet_long ?t" using take_pass_inv [of q] assms(1) t q by (auto simp: serving_def caught_up_def quiet_long_def)
  from process_forward [OF this, of previewActive elapsed] have "frames (rx_pending ?q) = []"
    using q(2) assms(2) finds_nil by (fastforce simp: forward_def handles_def settled_def)
  moreover have "rq_queue ?q = []" using process_door [of previewActive elapsed q] q(1) by (simp add: door_part_def)
  ultimately show ?thesis by (simp add: settled_def)
qed

definition passes :: "(bool \<times> (nat \<Rightarrow> u32)) list \<Rightarrow> rx_event list" where
  "passes ps = map (\<lambda>(previewActive, elapsed). RxProcess previewActive elapsed) ps"

lemma passes_settle:
  "serving q \<Longrightarrow> settled q \<or> work q < length ps \<Longrightarrow>
     settled (foldl rx_step q (passes ps)) \<and> serving (foldl rx_step q (passes ps)) \<and>
     session_stream (foldl rx_step q (passes ps)) = session_stream q"
proof (induction ps arbitrary: q)
  case (Cons p ps)
  obtain pa el where p: "p = (pa, el)" by force
  let ?q = "rx_process pa el q"
  have "settled ?q \<or> work ?q < length ps"
    using Cons.prems serving_works [of q pa el] settled_stays [of q pa el] by auto
  with Cons.IH [of ?q] process_serving [OF Cons.prems(1), of pa el] show ?case by (simp add: passes_def p)
qed (simp add: passes_def)

lemma settled_all:
  assumes "serving q" "settled q"
  shows "rq_dispatched q = frames (session_stream q)"
  using exact_frames [of q] assms by (simp add: serving_def settled_def remaining_def)

end
