(* ===== verification/V1_Rx_Long.thy ===== *)
theory V1_Rx_Long
  imports V1_Rx_Progress
begin

text \<open>
  The long characteristic: a frame cut into at most fifteen indexed chunks is reassembled from
  them in whatever order they arrive, and handled in the pass that takes them, as long as the
  notifications are unbroken and nothing older is staged.
\<close>

section \<open>Chunks\<close>

definition chunk_data :: "u8 list list \<Rightarrow> nat \<Rightarrow> u8 list" where
  "chunk_data slots i = word_of_nat (16 * (i + 1) + length slots) # slots ! i"

definition chunked :: "u8 list list \<Rightarrow> bool" where
  "chunked slots \<longleftrightarrow> slots \<noteq> [] \<and> length slots \<le> MAX_LONG_CHUNKS \<and>
     list_all (\<lambda>d. 0 < length d \<and> length d \<le> MAX_LONG_CHUNK_PAYLOAD) slots"

fun unbroken :: "u32 \<Rightarrow> rx_packet list \<Rightarrow> bool" where
  "unbroken previous [] \<longleftrightarrow> True"
| "unbroken previous (k # ks) \<longleftrightarrow> \<not> breaks previous (rp_ingress k) \<and> unbroken (rp_ingress k) ks"

text \<open>The notifications carry the chunks with these indices, in this order.\<close>

definition carries :: "u32 \<Rightarrow> u8 list list \<Rightarrow> nat list \<Rightarrow> rx_packet list \<Rightarrow> bool" where
  "carries g slots order ks \<longleftrightarrow> list_all2 (\<lambda>i k. i < length slots \<and> rp_data k = chunk_data slots i \<and> rp_session k = g \<and>
     rp_charUUID k = LONG_NOTIFY_CHARACTERISTIC) order ks"

lemma nibble_values:
  assumes "i < 15" "c \<le> 15"
  shows "unat (drop_bit 4 (word_of_nat (16 * (i + 1) + c) :: u8) AND 0x0F) = i + 1"
    and "unat ((word_of_nat (16 * (i + 1) + c) :: u8) AND 0x0F) = c"
proof -
  from assms have w: "16 * (i + 1) + c < 2 ^ 8" by simp
  then have u: "unat (word_of_nat (16 * (i + 1) + c) :: u8) = 16 * (i + 1) + c"
    by (intro of_nat_inverse [OF refl]) simp
  have m: "unat (v AND 0x0F :: u8) = unat v mod 16" for v
  proof -
    have "v AND 0x0F = take_bit 4 v" by (simp add: take_bit_eq_mask mask_eq_exp_minus_1)
    then show ?thesis by (simp only: unsigned_take_bit_eq) (simp add: take_bit_eq_mod)
  qed
  have "unat (drop_bit 4 (word_of_nat (16 * (i + 1) + c) :: u8)) = (16 * (i + 1) + c) div 16"
    by (simp only: unat_drop_bit_eq u) (simp add: drop_bit_eq_div)
  also have "\<dots> = i + 1" using assms by simp
  finally have d: "unat (drop_bit 4 (word_of_nat (16 * (i + 1) + c) :: u8)) = i + 1" .
  show "unat (drop_bit 4 (word_of_nat (16 * (i + 1) + c) :: u8) AND 0x0F) = i + 1"
    unfolding m d using assms by simp
  show "unat ((word_of_nat (16 * (i + 1) + c) :: u8) AND 0x0F) = c" unfolding m u using assms by presburger
qed

lemma chunk_prefix:
  assumes "chunked slots" "i < length slots" "rp_data k = chunk_data slots i"
  shows "chunk_index k = i + 1" "chunk_count k = length slots" "chunk_length_ok k" "chunk_prefix_ok k"
    "tl (rp_data k) = slots ! i"
proof -
  have b: "i < 15" "length slots \<le> 15" using assms(1,2) by (auto simp: chunked_def MAX_LONG_CHUNKS_def)
  show i: "chunk_index k = i + 1" "chunk_count k = length slots"
    using nibble_values [OF b] assms(3) by (simp_all add: chunk_index_def chunk_count_def chunk_data_def)
  show "chunk_prefix_ok k" using i assms(1,2) by (auto simp: chunk_prefix_ok_def chunked_def)
  show "tl (rp_data k) = slots ! i" using assms(3) by (simp add: chunk_data_def)
  have "0 < length (slots ! i)" "length (slots ! i) \<le> MAX_LONG_CHUNK_PAYLOAD"
    using assms(1,2) by (auto simp: chunked_def list_all_length)
  then show "chunk_length_ok k" using assms(3) by (auto simp: chunk_length_ok_def chunk_data_def)
qed

section \<open>The assembly\<close>

text \<open>The candidate that has the chunks \<open>S\<close>; the provenance is the first one's.\<close>

definition assembled :: "u8 list list \<Rightarrow> nat set \<Rightarrow> u32 \<Rightarrow> u32 \<Rightarrow> long_rx \<Rightarrow> bool" where
  "assembled slots S x t l \<longleftrightarrow>
     length (lr_payloads l) = MAX_LONG_CHUNKS \<and> (\<forall>i. bit (lr_presentMask l) i \<longleftrightarrow> i \<in> S) \<and>
     \<not> lr_discontinuity l \<and>
     (S \<noteq> {} \<longrightarrow> lr_count l = length slots \<and> lr_firstIngress l = x \<and> lr_firstTsMs l = t \<and>
        (\<forall>i\<in>S. lr_payloads l ! i = slots ! i))"

lemma empty_assembled [simp]: "assembled slots {} x t empty_long"
  by (simp add: assembled_def empty_long_def)

lemma place_assembled:
  assumes "chunked slots" "i < length slots" "rp_data k = chunk_data slots i" "assembled slots S x t l"
    "i \<notin> S" "S = {} \<Longrightarrow> lr_count l = 0 \<and> rp_ingress k = x \<and> rp_tsMs k = t"
  shows "assembled slots (insert i S) x t (place_chunk k False l)"
proof -
  note p = chunk_prefix [OF assms(1-3)]
  have i: "i < 15" "i < MAX_LONG_CHUNKS" using assms(1,2) by (auto simp: chunked_def MAX_LONG_CHUNKS_def)
  have c: "lr_count l = 0 \<or> lr_count l = length slots" using assms(4,6) by (cases "S = {}") (auto simp: assembled_def)
  have b: "\<not> bit (lr_presentMask l) i" using assms(4,5) by (simp add: assembled_def)
  define l1 where "l1 = (if lr_count l = 0 then start_candidate (length slots) k False l else l)"
  have pc: "place_chunk k False l = l1\<lparr>lr_payloads := (lr_payloads l1)[i := slots ! i],
      lr_presentMask := set_bit i (lr_presentMask l1)\<rparr>"
    using c b p by (auto simp: place_chunk_def l1_def Let_def start_candidate_def)
  have "lr_payloads l1 = lr_payloads l" "lr_presentMask l1 = lr_presentMask l" "lr_count l1 = length slots"
    "\<not> lr_discontinuity l1"
    using c assms(4) by (auto simp: l1_def start_candidate_def assembled_def)
  moreover have "lr_firstIngress l1 = x \<and> lr_firstTsMs l1 = t"
    using assms(1,2,4,6) by (cases "S = {}") (auto simp: l1_def start_candidate_def assembled_def)
  ultimately show ?thesis
    using assms(4,5) i by (auto simp: pc assembled_def bit_set_bit_iff nth_list_update)
qed

lemma assembled_complete:
  assumes "assembled slots S x t l" "S \<subseteq> {..<length slots}" "S \<noteq> {}" "length slots \<le> 15"
  shows "long_complete l \<longleftrightarrow> S = {..<length slots}"
proof -
  have c: "lr_count l = length slots" "lr_count l \<noteq> 0" using assms by (auto simp: assembled_def)
  have m: "push_bit (length slots) 1 - 1 = (mask (length slots) :: u16)"
    by (simp add: mask_eq_exp_minus_1 push_bit_of_1)
  have b: "bit (mask (length slots) :: u16) i \<longleftrightarrow> i < length slots" for i
    using assms(4) by (auto simp: bit_simps)
  have "lr_presentMask l = push_bit (length slots) 1 - 1 \<longleftrightarrow> (\<forall>i. i \<in> S \<longleftrightarrow> i < length slots)"
    unfolding m using assms(1) b by (auto simp: assembled_def intro: bit_eqI)
  then show ?thesis using c assms(4) by (auto simp: long_complete_def MAX_LONG_CHUNKS_def)
qed

lemma assembled_bytes:
  assumes "assembled slots {..<length slots} x t l" "slots \<noteq> []" "length slots \<le> 15"
  shows "take (lr_count l) (lr_payloads l) = slots" "long_bytes l = concat slots"
proof -
  have "lr_count l = length slots" "length (lr_payloads l) = 15" "\<forall>i<length slots. lr_payloads l ! i = slots ! i"
    using assms by (auto simp: assembled_def MAX_LONG_CHUNKS_def lessThan_empty_iff)
  then show "take (lr_count l) (lr_payloads l) = slots" using assms(3) by (intro nth_equalityI) auto
  then show "long_bytes l = concat slots" by (simp add: long_bytes_def)
qed

section \<open>Publication\<close>

definition staged_bytes :: "u8 list \<Rightarrow> u32 \<Rightarrow> u32 \<Rightarrow> staged list" where
  "staged_bytes d x ts = map (\<lambda>b. \<lparr>sb_byte = b, sb_ingress = x, sb_tsMs = ts, sb_gap = False\<rparr>) d"

lemma stage_no_gap: "stage d x ts False = staged_bytes d x ts"
  by (cases d) (simp_all add: stage_def staged_bytes_def)

lemma append_slots_fit:
  assumes "rq_readPos q = 0" "\<forall>d\<in>set slots. d \<noteq> []" "length (rq_rx q) + length (concat slots) \<le> RX_BUFFER_MAX"
  shows "append_slots slots x ts False q = (True, q\<lparr>rq_rx := rq_rx q @ staged_bytes (concat slots) x ts\<rparr>)"
proof -
  have "fold (\<lambda>(slot, payload) (ok, q). if ok then appendRxBytes payload x ts (False \<and> slot = 0) q else (False, q))
      xs (True, q) = (True, q\<lparr>rq_rx := rq_rx q @ staged_bytes (concat (map snd xs)) x ts\<rparr>)"
    if "rq_readPos q = 0" "\<forall>d\<in>set xs. snd d \<noteq> []" "length (rq_rx q) + length (concat (map snd xs)) \<le> RX_BUFFER_MAX"
    for xs :: "(nat \<times> u8 list) list" and q
    using that
  proof (induction xs arbitrary: q)
    case Nil
    then show ?case by (simp add: staged_bytes_def)
  next
    case (Cons s xs)
    have n: "snd s \<noteq> []" "0 < length (snd s)" using Cons.prems(2) by auto
    have "length (concat (map snd (s # xs))) = length (snd s) + length (concat (map snd xs))" by simp
    with Cons.prems(3) n(2) have "length (rq_rx q) < RX_BUFFER_MAX" by linarith
    then have "appendRxBytes (snd s) x ts False q = (True, q\<lparr>rq_rx := rq_rx q @ staged_bytes (snd s) x ts\<rparr>)"
      using Cons.prems n by (auto simp: appendRxBytes_def rx_unread_def Let_def stage_no_gap)
    with Cons show ?case by (simp add: split_beta staged_bytes_def)
  qed
  from this [of q "enumerate 0 slots"] assms show ?thesis
    by (simp add: append_slots_def) (metis enumerate_eq_zip snd_conv set_zip_rightD surj_pair)
qed

section \<open>One chunk after another\<close>

text \<open>
  A candidate over an empty short stream. The last chunk publishes it to the buffer; until then
  each chunk only joins it.
\<close>

definition collecting :: "u8 list list \<Rightarrow> nat set \<Rightarrow> u32 \<Rightarrow> u32 \<Rightarrow> rx_queue \<Rightarrow> bool" where
  "collecting slots S x t q \<longleftrightarrow>
     assembled slots S x t (rq_long q) \<and> (S = {} \<longrightarrow> lr_count (rq_long q) = 0) \<and> rq_rx q = [] \<and> rq_readPos q = 0 \<and>
     \<not> rq_pendingGap q \<and> \<not> rq_longNeedsStart q"

lemma set_stream_end:
  "assembled slots S x t (l\<lparr>lr_shortStreamEnd := n\<rparr>) = assembled slots S x t l"
  by (simp add: assembled_def)

lemma slots_fit: "chunked slots \<Longrightarrow> 0 < length (concat slots) \<and> length (concat slots) \<le> 285"
proof -
  assume c: "chunked slots"
  have "length (concat xs) \<le> 19 * length xs" if "list_all (\<lambda>d. length d \<le> 19) xs" for xs :: "u8 list list"
    using that by (induction xs) auto
  moreover have "list_all (\<lambda>d. length d \<le> 19) slots" using c by (auto simp: chunked_def list_all_iff MAX_LONG_CHUNK_PAYLOAD_def)
  ultimately have "length (concat slots) \<le> 19 * length slots" by blast
  moreover have "length slots \<le> 15" using c by (simp add: chunked_def MAX_LONG_CHUNKS_def)
  moreover have "concat slots \<noteq> []" using c by (cases slots) (auto simp: chunked_def)
  ultimately show ?thesis by simp
qed

lemma flush_assembled:
  assumes "chunked slots" "assembled slots {..<length slots} x t (rq_long q)" "rq_rx q = []" "rq_readPos q = 0"
    "\<not> rq_pendingGap q"
  shows "snd (flushCompleteLongRx q) =
    clearLongRxState (q\<lparr>rq_rx := staged_bytes (concat slots) x t, rq_pendingGap := False\<rparr>)"
proof -
  let ?l = "rq_long q"
  have s: "slots \<noteq> []" "length slots \<le> 15" "{..<length slots} \<noteq> {}"
    using assms(1) by (auto simp: chunked_def MAX_LONG_CHUNKS_def)
  have c: "long_complete ?l" using assembled_complete [OF assms(2) subset_refl s(3,2)] by simp
  note b = assembled_bytes [OF assms(2) s(1,2)]
  have f: "lr_firstIngress ?l = x" "lr_firstTsMs ?l = t" "\<not> lr_discontinuity ?l"
    using assms(2) s(3) by (auto simp: assembled_def)
  have "\<forall>d\<in>set slots. d \<noteq> []" using assms(1) by (auto simp: chunked_def list_all_iff)
  with assms(3,4) slots_fit [OF assms(1)]
  have a: "append_slots slots x t False q = (True, q\<lparr>rq_rx := staged_bytes (concat slots) x t\<rparr>)"
    using append_slots_fit [of q slots x t] by (simp add: RX_BUFFER_MAX_def)
  have u: "rx_unread q = 0" using assms(3) by (simp add: rx_unread_def)
  show ?thesis
    using c slots_fit [OF assms(1)] assms(4,5)
    by (auto simp: flushCompleteLongRx_def Let_def b f a u RX_BUFFER_MAX_def)
qed

lemma take_chunk:
  assumes "chunked slots" "complete_frame (concat slots)" "collecting slots S x t q" "i < length slots"
    "rp_data k = chunk_data slots i" "i \<notin> S" "S \<subseteq> {..<length slots}" "\<not> breaks (rq_lastIngress q) (rp_ingress k)"
    "S = {} \<longrightarrow> rp_ingress k = x \<and> rp_tsMs k = t"
  defines "q' \<equiv> q\<lparr>rq_lastIngress := rp_ingress k, rq_long := place_chunk k False (rq_long q)\<rparr>"
  shows "take_long_chunk k q =
      (if insert i S = {..<length slots}
       then q'\<lparr>rq_rx := staged_bytes (concat slots) x t, rq_long := empty_long\<rparr> else q')"
    and "insert i S \<noteq> {..<length slots} \<Longrightarrow> collecting slots (insert i S) x t q'"
proof -
  note p = chunk_prefix [OF assms(1,4,5)]
  have q: "assembled slots S x t (rq_long q)" "rq_rx q = []" "rq_readPos q = 0" "\<not> rq_pendingGap q" "\<not> rq_longNeedsStart q"
      "S = {} \<longrightarrow> lr_count (rq_long q) = 0"
    using assms(3) by (auto simp: collecting_def)
  have l: "assembled slots (insert i S) x t (rq_long q')"
    using place_assembled [OF assms(1,4,5) q(1) assms(6)] q(6) assms(9) by (simp add: q'_def)
  have s: "length slots \<le> 15" "slots \<noteq> []" using assms(1) by (auto simp: chunked_def MAX_LONG_CHUNKS_def)
  have sub: "insert i S \<subseteq> {..<length slots}" using assms(4,7) by auto
  note complete = assembled_complete [OF l sub insert_not_empty s(1)]
  show "collecting slots (insert i S) x t q'" if "insert i S \<noteq> {..<length slots}"
    using l q by (simp add: collecting_def q'_def)
  have a: "appendLongRxChunk k False (acceptIngressSequence (rp_ingress k) q) = (True, q')"
    using p q assms(8) by (simp add: appendLongRxChunk_def acceptIngressSequence_def would_break q'_def)
  have g: "q'\<lparr>rq_pendingGap := False\<rparr> = q'" using q(4) by (simp add: q'_def)
  have t: "take_long_chunk k q = hold_long True (qualify_long True q')"
    using a g q(4) assms(8) by (simp add: take_long_chunk_def would_break)
  show "take_long_chunk k q =
      (if insert i S = {..<length slots}
       then q'\<lparr>rq_rx := staged_bytes (concat slots) x t, rq_long := empty_long\<rparr> else q')"
  proof (cases "insert i S = {..<length slots}")
    case False
    with complete show ?thesis by (simp add: t qualify_long_def hold_long_def)
  next
    case True
    then have l': "assembled slots {..<length slots} x t (rq_long q')" using l by simp
    have "longRxComplete q'" using complete True by simp
    moreover have "longRxHasCompleteFrame q'"
      using assembled_bytes(2) [OF l' s(2,1)] assms(2) by (simp add: longRxHasCompleteFrame_def)
    moreover have rx: "rq_rx q' = []" "rq_readPos q' = 0" "\<not> rq_pendingGap q'" using q by (simp_all add: q'_def)
    moreover define q2 where "q2 = q'\<lparr>rq_long := (rq_long q')\<lparr>lr_shortStreamEnd := 0\<rparr>\<rparr>"
    moreover have "clearRxState q2 = q2" using rx by (simp add: clearRxState_def q2_def)
    moreover have "snd (flushCompleteLongRx q2) = q'\<lparr>rq_rx := staged_bytes (concat slots) x t, rq_long := empty_long\<rparr>"
      using flush_assembled [OF assms(1), of x t q2] l' rx
      by (simp add: q2_def set_stream_end clearLongRxState_def q'_def q(4))
    ultimately show ?thesis using True by (simp add: t qualify_long_def hold_long_def Let_def)
  qed
qed

section \<open>The whole frame\<close>

text \<open>Draining the notifications of all the chunks.\<close>

lemma drain_chunks:
  assumes "chunked slots" "complete_frame (concat slots)" "collecting slots S x t q" "carries g slots order ks"
    "distinct order" "S \<inter> set order = {}" "S \<union> set order = {..<length slots}" "S \<noteq> {..<length slots}"
    "unbroken (rq_lastIngress q) ks" "S = {} \<Longrightarrow> rp_ingress (hd ks) = x \<and> rp_tsMs (hd ks) = t"
  shows "\<exists>ts'. rx_drain True g ts ks q =
    (False, ts', q\<lparr>rq_rx := staged_bytes (concat slots) x t, rq_long := empty_long,
       rq_lastIngress := last_ingress (rq_lastIngress q) ks, rq_queue := []\<rparr>)"
  using assms(3-)
proof (induction ks arbitrary: order S q ts)
  case Nil
  then show ?case by (auto simp: carries_def)
next
  case (Cons k ks)
  from Cons.prems(2) obtain i rest where o: "order = i # rest" "i < length slots" "rp_data k = chunk_data slots i"
      "rp_session k = g" "rp_charUUID k = LONG_NOTIFY_CHARACTERISTIC" "carries g slots rest ks"
    by (cases order) (auto simp: carries_def)
  let ?q = "q\<lparr>rq_lastIngress := rp_ingress k, rq_long := place_chunk k False (rq_long q)\<rparr>"
  have i: "i \<notin> S" "S \<subseteq> {..<length slots}" "\<not> breaks (rq_lastIngress q) (rp_ingress k)"
      "S = {} \<longrightarrow> rp_ingress k = x \<and> rp_tsMs k = t"
    using Cons.prems o by auto
  note t = take_chunk [OF assms(1,2) Cons.prems(1) o(2,3) i]
  have open_candidate: "\<not> longRxComplete q"
  proof (cases "S = {}")
    case True
    with Cons.prems(1) show ?thesis by (simp add: collecting_def long_complete_def)
  next
    case False
    have "length slots \<le> 15" using assms(1) by (simp add: chunked_def MAX_LONG_CHUNKS_def)
    with False Cons.prems(1,6) i(2) assembled_complete [of slots S x t "rq_long q"] show ?thesis
      by (simp add: collecting_def)
  qed
  have d: "rx_drain True g ts (k # ks) q = rx_drain True g (rp_tsMs k) ks (take_long_chunk k q)"
    using o open_candidate by simp
  show ?case
  proof (cases "insert i S = {..<length slots}")
    case True
    have "set rest \<subseteq> {..<length slots}" using Cons.prems(5) o(1) by auto
    then have "set rest \<subseteq> insert i S" unfolding True .
    moreover have "set rest \<inter> insert i S = {}" using Cons.prems(3,4) o(1) by auto
    ultimately have "set rest = {}" by (metis inf.absorb_iff1)
    with o(6) have "ks = []" by (simp add: carries_def)
    with True d t(1) show ?thesis by simp
  next
    case False
    have "\<exists>ts'. rx_drain True g (rp_tsMs k) ks ?q =
        (False, ts', ?q\<lparr>rq_rx := staged_bytes (concat slots) x t, rq_long := empty_long,
           rq_lastIngress := last_ingress (rq_lastIngress ?q) ks, rq_queue := []\<rparr>)"
    proof (rule Cons.IH [OF t(2) [OF False] o(6)])
      show "distinct rest" "insert i S \<inter> set rest = {}" using Cons.prems(3,4) o(1) by auto
      show "insert i S \<union> set rest = {..<length slots}" using Cons.prems(5) o(1) by simp
      show "insert i S \<noteq> {..<length slots}" by (rule False)
      show "unbroken (rq_lastIngress ?q) ks" using Cons.prems(7) by simp
    qed simp
    then show ?thesis using d t(1) False by simp
  qed
qed

text \<open>A frame alone in the buffer is found and handled, and nothing is left.\<close>

lemma gap_free: "list_all (\<lambda>b. \<not> sb_gap b) bs \<Longrightarrow> gap_before n bs = None"
proof -
  assume a: "list_all (\<lambda>b. \<not> sb_gap b) bs"
  then have "next_gap (tl bs) = None" by (cases bs) (auto simp: next_gap_None list_all_iff)
  then show ?thesis by (simp add: gap_before_def)
qed

lemma decide_frame:
  assumes "complete_frame f" "length f \<le> 512"
  shows "rx_decide (staged_bytes f x t) = RxFrame (length f)"
proof -
  let ?bs = "staged_bytes f x t"
  have b: "length ?bs = length f" "\<And>i. i < length f \<Longrightarrow> sb_byte (?bs ! i) = f ! i"
    by (simp_all add: staged_bytes_def)
  have f: "7 \<le> length f" "f ! 0 = ESP_PACKET_START" "f ! 4 \<noteq> 0" "length f = 6 + unat (f ! 4)"
    "f ! (length f - 1) = ESP_PACKET_END"
    using assms(1) by (auto simp: complete_frame_def)
  have s: "start_at ?bs = Some 0" using f(1,2) by (cases f) (auto simp: staged_bytes_def)
  have g: "gap_before n ?bs = None" for n by (rule gap_free) (simp add: staged_bytes_def list_all_iff)
  have n: "sb_byte (?bs ! 4) = f ! 4" "sb_byte (?bs ! (length f - 1)) = ESP_PACKET_END"
    using b f by auto
  have "rx_decide ?bs = header_decide ?bs" using decide_cases(4) [OF s g] b(1) f(1) by simp
  also have "header_decide ?bs = RxFrame (length f)"
    unfolding header_decide_def Let_def n(1) f(4) [symmetric] using f(3) assms(2) b(1) n(2) g by simp
  finally show ?thesis .
qed

lemma lone_frame_parsed:
  assumes "complete_frame f" "length f \<le> 512" "rq_rx q = staged_bytes f x t" "rq_readPos q = 0" "quiet_long q"
  shows "rq_dispatched (rx_parse previewActive elapsed queued blocked session q) = rq_dispatched q @ [(f, x, t)]"
    and "rx_pending (rx_parse previewActive elapsed queued blocked session q) = []"
proof -
  define n where "n = max_packets (rq_depth q) (length (rq_rx q) - rq_readPos q) queued previewActive"
  have n: "0 < n" "1 < n"
    using max_packets_base [of "rq_depth q" "length (rq_rx q) - rq_readPos q" queued previewActive]
    by (simp_all add: n_def)
  let ?h = "handle_frame session f x t (previewActive, q)"
  let ?r = "(fst ?h, (snd ?h)\<lparr>rq_readPos := rq_readPos (snd ?h) + length f\<rparr>)"
  have f: "f \<noteq> []" using assms(1) by (auto simp: complete_frame_def)
  have p: "rx_pending q = staged_bytes f x t" "staged_bytes f x t \<noteq> []" using assms(3,4) f
    by (simp_all add: rx_pending_def staged_bytes_def)
  have hd: "sb_ingress (hd (staged_bytes f x t)) = x" "sb_tsMs (hd (staged_bytes f x t)) = t"
      "map sb_byte (staged_bytes f x t) = f" "\<not> sb_gap (hd (staged_bytes f x t))" "length (staged_bytes f x t) = length f"
    using f by (cases f; simp add: staged_bytes_def comp_def)+
  have "rx_round session (previewActive, q) = (RoundPacket, ?r)"
    using assms(5) p hd decide_frame [OF assms(1,2), of x t]
    by (simp add: rx_round_def dispatches_long_def short_round_def starts_after_gap_def Let_def split_beta)
  moreover have "rx_pending (snd ?r) = []"
    using pending_advance [of "snd ?h" "length f"] p hd(5) by simp
  moreover have "\<not> longRxComplete (snd ?r)" using assms(5) handle_stream_fields(3) [of session f x t "(previewActive, q)"]
    by simp
  ultimately have l: "rx_loop session n (parse_budget n) elapsed 0 0 (previewActive, q) = (False, ?r)"
    using n by (simp add: rx_loop.simps [of _ _ _ _ 0 0] rx_loop.simps [of _ _ _ _ "Suc 0"] rx_round_def dispatches_long_def)
  have "rx_parse previewActive elapsed queued blocked session q = rx_tidy (break_circular_wait blocked False (snd ?r))"
    using l by (simp add: rx_parse_def Let_def n_def [symmetric])
  moreover have "rx_tidy (snd ?r) = applyPendingDiscontinuityIfStreamDrained (clearRxState (snd ?r))"
    using assms(3,4) by (simp add: rx_tidy_def staged_bytes_def)
  moreover have "rq_dispatched (applyPendingDiscontinuityIfStreamDrained (clearRxState r)) = rq_dispatched r"
    "rx_pending (applyPendingDiscontinuityIfStreamDrained (clearRxState r)) = []" for r
    by (simp_all add: applyPendingDiscontinuityIfStreamDrained_def)
  ultimately show "rq_dispatched (rx_parse previewActive elapsed queued blocked session q) = rq_dispatched q @ [(f, x, t)]"
    "rx_pending (rx_parse previewActive elapsed queued blocked session q) = []"
    by (simp_all add: break_circular_wait_def)
qed

text \<open>A queue ready to collect the chunks of a frame: nothing staged, no candidate, no loss pending.\<close>

definition idle_stream :: "rx_queue \<Rightarrow> bool" where
  "idle_stream q \<longleftrightarrow> rq_ready q \<and> rq_accept q \<and> rq_rx q = [] \<and> rq_readPos q = 0 \<and> quiet_long q \<and> \<not> rq_longNeedsStart q"

lemma chunks_handled:
  assumes "idle_stream q" "chunked slots" "complete_frame (concat slots)"
    "carries (rq_session q) slots order (rq_queue q)" "distinct order" "set order = {..<length slots}"
    "unbroken (rq_lastIngress q) (rq_queue q)"
  shows "rq_dispatched (rx_process previewActive elapsed q) =
      rq_dispatched q @ [(concat slots, rp_ingress (hd (rq_queue q)), rp_tsMs (hd (rq_queue q)))]"
    and "rq_queue (rx_process previewActive elapsed q) = []"
    and "rx_pending (rx_process previewActive elapsed q) = []"
proof -
  let ?x = "rp_ingress (hd (rq_queue q))" and ?t = "rp_tsMs (hd (rq_queue q))"
  have q: "rq_rx q = []" "rq_readPos q = 0" "quiet_long q" "rq_ready q" "rq_accept q" using assms(1)
    by (auto simp: idle_stream_def)
  have s: "{} \<noteq> {..<length slots}" using assms(2) by (auto simp: chunked_def)
  have "collecting slots {} ?x ?t q" using assms(1) by (simp add: idle_stream_def collecting_def quiet_long_def)
  from drain_chunks [OF assms(2,3) this assms(4,5) _ _ s assms(7), of 0] assms(6) obtain ts' where
    d: "rx_drain True (rq_session q) 0 (rq_queue q) q =
      (False, ts', q\<lparr>rq_rx := staged_bytes (concat slots) ?x ?t, rq_long := empty_long,
         rq_lastIngress := last_ingress (rq_lastIngress q) (rq_queue q), rq_queue := []\<rparr>)" by auto
  define q1 where "q1 = snd (rx_take q)"
  have q1: "rq_rx q1 = staged_bytes (concat slots) ?x ?t" "rq_readPos q1 = 0" "quiet_long q1" "rq_queue q1 = []"
    "rq_dispatched q1 = rq_dispatched q"
    using q d by (simp_all add: q1_def rx_take_def quiet_long_def)
  have len: "length (concat slots) \<le> 512" "concat slots \<noteq> []" using slots_fit [OF assms(2)] by auto
  obtain blocked where e: "rx_process previewActive elapsed q = refreshBackpressureState
      (if rq_readPos q1 \<ge> length (rq_rx q1) then applyPendingDiscontinuityIfStreamDrained (clearRxState q1)
       else rx_parse previewActive elapsed (if rq_ready q then length (rq_queue q) else 0) blocked (rq_session q) q1)"
    unfolding q1_def by (rule process_split)
  have r: "rx_pending (refreshBackpressureState q') = rx_pending q'" "rq_dispatched (refreshBackpressureState q') = rq_dispatched q'" for q'
    by (simp_all add: refreshBackpressureState_def rx_pending_def Let_def)
  have "\<not> rq_readPos q1 \<ge> length (rq_rx q1)" using q1 len by (simp add: staged_bytes_def)
  with e r lone_frame_parsed [OF assms(3) len(1) q1(1-3)] q1(5)
  show "rq_dispatched (rx_process previewActive elapsed q) = rq_dispatched q @ [(concat slots, ?x, ?t)]"
    "rx_pending (rx_process previewActive elapsed q) = []" by simp_all
  show "rq_queue (rx_process previewActive elapsed q) = []"
    using process_door [of previewActive elapsed q] q1(4) by (simp add: door_part_def q1_def)
qed

end
