(* ===== verification/V1_Rx_Properties.thy ===== *)
theory V1_Rx_Properties
  imports V1_Rx_Long
begin

text \<open>
  What the notification queue promises: the frames of a session are handled exactly once, in
  order and from that session's notifications only, however the stream is cut into notifications
  and passes; a long frame survives any order of its chunks; and the client and the parser behind
  the queue keep their invariants.
\<close>

section \<open>Histories\<close>

definition rx_run :: "nat \<Rightarrow> rx_event list \<Rightarrow> rx_queue" where
  "rx_run depth es = foldl rx_step (rx_begin True depth new_client new_parser) es"

lemma run_rx_inv: "rx_inv (rx_run depth es)"
  unfolding rx_run_def by (rule rx.run_inv) (rule begin_inv)

lemma run_exact: "exact_session (rx_run depth es)"
proof -
  have "exact_session (rx_begin True depth new_client new_parser)"
    by (rule shut_exact) (simp add: rx_begin_def)
  with rx_exact.run_inv [of "rx_begin True depth new_client new_parser" es] begin_inv show ?thesis
    by (simp add: rx_run_def)
qed

lemma close_moves: "rx_moves q (closeSession q)"
  using moves_reset [of "q\<lparr>rq_accept := False\<rparr>" 0]
  by (simp add: closeSession_def rx_moves_def clearRxState_def clearLongRxState_def)

lemma open_moves: "rx_moves q (openSession g q)"
proof -
  have "rx_moves q (reset_alert_input g ((closeSession q)\<lparr>rq_session := g\<rparr>))"
    using moves_trans [OF close_moves moves_reset, of q g] by (simp add: rx_moves_def reset_alert_input_def)
  then show ?thesis by (simp add: openSession_def rx_moves_def)
qed

lemma calls_moves: "rx_moves q (foldl session_step q calls)"
proof (induction calls arbitrary: q)
  case (Cons c calls)
  have "rx_moves q (session_step q c)" by (cases c) (simp_all add: close_moves open_moves)
  with Cons.IH show ?case by (auto intro: moves_trans)
qed simp

lemma enqueue_moves: "rx_moves q (snd (enqueue k q))"
proof -
  have "driven client_step c (c\<lparr>bc_alertInput := noteV1NotificationLoss (rp_session k) (rp_ingress k) (bc_alertInput c)\<rparr>)" for c
    using driven_step [of client_step c "EvAsync (AsLoss (rp_session k) (rp_ingress k))"] by simp
  then show ?thesis by (simp add: enqueue_def rx_moves_def)
qed

lemma step_moves: "rx_moves q (rx_step q e)"
proof (cases e)
  case RxEnd
  then show ?thesis
    using moves_reset [of "q\<lparr>rq_accept := False\<rparr>" 0]
    by (simp add: rx_end_def rx_moves_def clearRxState_def clearLongRxState_def)
next
  case (RxNotify early late data u g ts x)
  from calls_moves [of q early] calls_moves [of "foldl session_step q early" late] enqueue_moves RxNotify
  show ?thesis by (auto simp: tryOnNotify_def Let_def intro: moves_trans)
next
  case (RxClientEvent e)
  then show ?thesis by (simp add: rx_client_def rx_moves_def driven_step)
next
  case (RxParserEvent e)
  then show ?thesis by (simp add: rx_parser_def rx_moves_def driven_step)
qed (simp_all add: process_moves close_moves open_moves consumeParsedFlag_def moves_still)

lemma run_moves: "rx_moves q (foldl rx_step q es)"
  by (induction es arbitrary: q) (auto intro: moves_trans step_moves)

text \<open>The client and the parser behind the queue only move by their own operations.\<close>

lemma run_behind_inv: "client_inv (rq_client (rx_run depth es)) \<and> parser_inv (rq_parser (rx_run depth es))"
proof -
  have "rx_moves (rx_begin True depth new_client new_parser) (rx_run depth es)"
    by (simp add: rx_run_def run_moves)
  then show ?thesis
    using client.driven_inv [of new_client] parser_machine.driven_inv [of new_parser] new_client_inv new_parser_inv
    by (simp add: rx_moves_def rx_begin_def)
qed

section \<open>Sessions\<close>

text \<open>
  Claim C2. Session isolation and bounds: every frame handled since the session was opened is a
  whole ESP frame and carries the sequence number and time of a notification that this session
  admitted; at most 1024 staged bytes are unread and at most 1279 are held.
\<close>

theorem handled_frames_isolated:
  "list_all (\<lambda>(f, x, t). complete_frame f \<and>
       (\<exists>k\<in>set (rq_admitted (rx_run depth es)). rp_session k = rq_session (rx_run depth es) \<and>
          rp_ingress k = x \<and> rp_tsMs k = t)) (rq_dispatched (rx_run depth es)) \<and>
   rq_readPos (rx_run depth es) \<le> length (rq_rx (rx_run depth es)) \<and>
   rx_unread (rx_run depth es) \<le> 1024 \<and> length (rq_rx (rx_run depth es)) \<le> 1279 \<and>
   length (rq_queue (rx_run depth es)) \<le> rq_depth (rx_run depth es)"
  using run_rx_inv [of depth es]
  by (simp add: rx_inv_def dispatched_origin_def origin_def buffer_inv_def queue_inv_def rx_unread_def
      RX_BUFFER_MAX_def RX_PACKET_BYTES_def)

section \<open>The short stream\<close>

text \<open>Where a handled frame lies in the stream: a whole frame with no gap inside.\<close>

definition lies_in :: "staged list \<Rightarrow> handled_frame \<Rightarrow> bool" where
  "lies_in stream h \<longleftrightarrow> (\<exists>before piece after. stream = before @ piece @ after \<and> complete_frame (map sb_byte piece) \<and>
     \<not> list_ex sb_gap (tl piece) \<and> h = (map sb_byte piece, sb_ingress (hd piece), sb_tsMs (hd piece)))"

lemma frames_lie: "h \<in> set (frames bs) \<Longrightarrow> lies_in bs h"
  using frames_sound [of h bs] by (fastforce simp: lies_in_def short_frame_def list_all_iff list_ex_iff)

text \<open>
  Claim C1. In an open session that had short notifications only, the frames handled so far,
  followed by those still in the staged bytes and the queue, are exactly the frames of the whole
  admitted stream, each with its provenance: no frame is lost, repeated or reordered wherever the
  notifications and the passes cut the stream; and every one of them is a contiguous piece of that
  stream with no gap in the notification sequence inside it.
\<close>

theorem short_frames_exact:
  assumes "rq_accept (rx_run depth es)"
    and "only_short (of_session (rq_session (rx_run depth es)) (rq_admitted (rx_run depth es)))"
  shows "frames (session_stream (rx_run depth es)) =
      rq_dispatched (rx_run depth es) @ frames (remaining (rx_run depth es)) \<and>
    list_all (lies_in (session_stream (rx_run depth es))) (rq_dispatched (rx_run depth es))"
proof -
  note e = exact_frames [OF run_exact assms]
  then have "set (rq_dispatched (rx_run depth es)) \<subseteq> set (frames (session_stream (rx_run depth es)))" by simp
  with e frames_lie show ?thesis by (auto simp: list_all_iff)
qed

definition split_frame :: "u8 list" where
  "split_frame = [0xAA, 0xD6, 0xEA, 0x7F, 0x02, 0x11, 0x9C, 0xAB]"

definition split_history :: "nat \<Rightarrow> rx_event list" where
  "split_history n = [RxOpen 5, RxNotify [] [] (take n split_frame) 0xB2CE 5 100 1,
     RxNotify [] [] (drop n split_frame) 0xB2CE 5 110 2]"

definition split_queue :: "nat \<Rightarrow> rx_queue" where
  "split_queue n = rx_run 24 (split_history n)"

text \<open>The two notifications are admitted; their stream holds one frame.\<close>

lemma split_queue:
  "n \<in> {3, 5} \<Longrightarrow> rq_ready (split_queue n) \<and> rq_accept (split_queue n) \<and>
     of_session (rq_session (split_queue n)) (rq_admitted (split_queue n)) =
       [\<lparr>rp_data = take n split_frame, rp_charUUID = 0xB2CE, rp_tsMs = 100, rp_session = 5, rp_ingress = 1\<rparr>,
        \<lparr>rp_data = drop n split_frame, rp_charUUID = 0xB2CE, rp_tsMs = 110, rp_session = 5, rp_ingress = 2\<rparr>] \<and>
     work (split_queue n) = 16"
  by (elim insertE; simp; code_simp)

lemma short_frames_exact_witness:
  "frames (session_stream (split_queue 3)) = rq_dispatched (split_queue 3) @ frames (remaining (split_queue 3)) \<and>
   list_all (lies_in (session_stream (split_queue 3))) (rq_dispatched (split_queue 3))"
  unfolding split_queue_def
  by (rule short_frames_exact)
    (use split_queue [of 3] in \<open>simp_all add: split_queue_def only_short_def LONG_NOTIFY_CHARACTERISTIC_def\<close>)

lemma serving_run:
  "rq_ready (rx_run depth es) \<Longrightarrow> rq_accept (rx_run depth es) \<Longrightarrow>
     only_short (of_session (rq_session (rx_run depth es)) (rq_admitted (rx_run depth es))) \<Longrightarrow> serving (rx_run depth es)"
  using run_rx_inv run_exact by (simp add: serving_def)

lemma passes_done:
  assumes "serving q" "work q < length ps"
  shows "rq_dispatched (foldl rx_step q (passes ps)) = frames (session_stream q) \<and>
    rq_queue (foldl rx_step q (passes ps)) = []"
proof -
  from passes_settle [OF assms(1), of ps] assms(2)
  have s: "settled (foldl rx_step q (passes ps))" "serving (foldl rx_step q (passes ps))"
    "session_stream (foldl rx_step q (passes ps)) = session_stream q" by auto
  from settled_all [OF s(2,1)] s(1,3) show ?thesis by (simp add: settled_def)
qed

text \<open>
  Claim C3. Nothing waits for ever: from any state of an open session with short notifications
  only, after more passes than twice the bytes queued plus the bytes staged the queue is empty and
  every frame of the admitted stream has been handled, in order.
\<close>

theorem passes_handle_everything:
  assumes "rq_ready (rx_run depth es)" "rq_accept (rx_run depth es)"
    and "only_short (of_session (rq_session (rx_run depth es)) (rq_admitted (rx_run depth es)))"
    and "work (rx_run depth es) < length ps"
  shows "rq_dispatched (foldl rx_step (rx_run depth es) (passes ps)) = frames (session_stream (rx_run depth es)) \<and>
    rq_queue (foldl rx_step (rx_run depth es) (passes ps)) = []"
  by (rule passes_done [OF serving_run [OF assms(1-3)] assms(4)])

lemma split_serves:
  assumes "n \<in> {3, 5}"
  shows "rq_ready (rx_run 24 (split_history n))" "rq_accept (rx_run 24 (split_history n))"
    "only_short (of_session (rq_session (rx_run 24 (split_history n))) (rq_admitted (rx_run 24 (split_history n))))"
    "work (rx_run 24 (split_history n)) < length (replicate 17 (False, \<lambda>_ :: nat. 0 :: u32))"
  using split_queue [OF assms] by (simp_all add: split_queue_def only_short_def LONG_NOTIFY_CHARACTERISTIC_def)

lemma passes_handle_everything_witness:
  "rq_dispatched (foldl rx_step (rx_run 24 (split_history 3)) (passes (replicate 17 (False, \<lambda>_. 0)))) =
      frames (session_stream (rx_run 24 (split_history 3))) \<and>
   rq_queue (foldl rx_step (rx_run 24 (split_history 3)) (passes (replicate 17 (False, \<lambda>_. 0)))) = []"
  by (rule passes_handle_everything) (use split_serves [of 3] in simp_all)

section \<open>Fragmentation\<close>

definition bytes_of :: "rx_packet list \<Rightarrow> u8 list" where
  "bytes_of ks = concat (map rp_data ks)"

lemma stage_bytes [simp]: "map sb_byte (stage d x t gap) = d"
  by (cases d) (simp_all add: stage_def comp_def)

lemma unbroken_stream:
  "unbroken previous ks \<Longrightarrow>
     map sb_byte (stream_of previous ks) = bytes_of ks \<and> list_all (\<lambda>b. \<not> sb_gap b) (stream_of previous ks)"
  by (induction ks arbitrary: previous)
    (auto simp: bytes_of_def stage_no_gap staged_bytes_def list_all_iff comp_def)

lemma same_stream_free:
  assumes "map sb_byte xs = map sb_byte ys" "list_all (\<lambda>b. \<not> sb_gap b) xs" "list_all (\<lambda>b. \<not> sb_gap b) ys"
  shows "same_stream xs ys"
proof -
  have "length xs = length ys" using assms(1) map_eq_imp_length_eq by blast
  with assms show ?thesis
    by (auto simp: same_stream_def list_all2_conv_all_nth list_all_length dest: nth_map) (metis nth_map)
qed

text \<open>
  Claim C4. Fragmentation does not matter: two sessions whose unbroken short notifications carry
  the same bytes, cut and timed in any two ways and served by any passes, end with the same
  frames handled.
\<close>

theorem fragmentation_irrelevant:
  assumes "rq_ready (rx_run depth es)" "rq_accept (rx_run depth es)"
    and "only_short (of_session (rq_session (rx_run depth es)) (rq_admitted (rx_run depth es)))"
    and "work (rx_run depth es) < length ps"
    and "rq_ready (rx_run depth' es')" "rq_accept (rx_run depth' es')"
    and "only_short (of_session (rq_session (rx_run depth' es')) (rq_admitted (rx_run depth' es')))"
    and "work (rx_run depth' es') < length ps'"
    and "unbroken 0 (of_session (rq_session (rx_run depth es)) (rq_admitted (rx_run depth es)))"
    and "unbroken 0 (of_session (rq_session (rx_run depth' es')) (rq_admitted (rx_run depth' es')))"
    and "bytes_of (of_session (rq_session (rx_run depth es)) (rq_admitted (rx_run depth es))) =
         bytes_of (of_session (rq_session (rx_run depth' es')) (rq_admitted (rx_run depth' es')))"
  shows "map fst (rq_dispatched (foldl rx_step (rx_run depth es) (passes ps))) =
    map fst (rq_dispatched (foldl rx_step (rx_run depth' es') (passes ps')))"
proof -
  have "same_stream (session_stream (rx_run depth es)) (session_stream (rx_run depth' es'))"
    using unbroken_stream [OF assms(9)] unbroken_stream [OF assms(10)] assms(11)
    by (auto simp: session_stream_def intro: same_stream_free)
  then show ?thesis
    using passes_done [OF serving_run [OF assms(1-3)] assms(4)] passes_done [OF serving_run [OF assms(5-7)] assms(8)]
      same_stream_frames by simp
qed

lemma split_unbroken:
  assumes "n \<in> {3, 5}"
  shows "unbroken 0 (of_session (rq_session (rx_run 24 (split_history n))) (rq_admitted (rx_run 24 (split_history n))))"
    "bytes_of (of_session (rq_session (rx_run 24 (split_history n))) (rq_admitted (rx_run 24 (split_history n)))) = split_frame"
  using split_queue [OF assms] by (simp_all add: split_queue_def breaks_def bytes_of_def)

lemma fragmentation_irrelevant_witness:
  "map fst (rq_dispatched (foldl rx_step (rx_run 24 (split_history 3)) (passes (replicate 17 (False, \<lambda>_. 0))))) =
    map fst (rq_dispatched (foldl rx_step (rx_run 24 (split_history 5)) (passes (replicate 17 (False, \<lambda>_. 0)))))"
  by (rule fragmentation_irrelevant)
    (use split_serves [of 3] split_serves [of 5] split_unbroken [of 3] split_unbroken [of 5] in simp_all)

section \<open>The long characteristic\<close>

text \<open>
  Claim C5. The stream is idle (accepting notifications, nothing staged, no unfinished candidate on
  the long characteristic), and the queue holds exactly the chunks of one frame, all of this
  session, each once, with an unbroken run of arrival numbers: then the pass that takes them
  handles the frame exactly once and byte for byte, in whatever order the chunks arrived, stamped
  with the first arrival, and leaves nothing of it behind.
\<close>

theorem long_frame_any_order:
  assumes "idle_stream q" "chunked slots" "complete_frame (concat slots)"
    and "carries (rq_session q) slots order (rq_queue q)" "distinct order" "set order = {..<length slots}"
    and "unbroken (rq_lastIngress q) (rq_queue q)"
  shows "rq_dispatched (rx_process previewActive elapsed q) =
      rq_dispatched q @ [(concat slots, rp_ingress (hd (rq_queue q)), rp_tsMs (hd (rq_queue q)))] \<and>
    rq_queue (rx_process previewActive elapsed q) = [] \<and> rx_pending (rx_process previewActive elapsed q) = []"
  using chunks_handled [OF assms] by simp

definition chunk_slots :: "u8 list list" where
  "chunk_slots = [take 5 split_frame, drop 5 split_frame]"

definition chunk_queue :: rx_queue where
  "chunk_queue = rx_run 24 [RxOpen 5, RxNotify [] [] (chunk_data chunk_slots 1) 0xB4E0 5 100 1,
     RxNotify [] [] (chunk_data chunk_slots 0) 0xB4E0 5 110 2]"

lemma chunk_queue:
  "idle_stream chunk_queue \<and> rq_session chunk_queue = 5 \<and> rq_lastIngress chunk_queue = 0 \<and>
   rq_queue chunk_queue =
     [\<lparr>rp_data = chunk_data chunk_slots 1, rp_charUUID = 0xB4E0, rp_tsMs = 100, rp_session = 5, rp_ingress = 1\<rparr>,
      \<lparr>rp_data = chunk_data chunk_slots 0, rp_charUUID = 0xB4E0, rp_tsMs = 110, rp_session = 5, rp_ingress = 2\<rparr>]"
  by code_simp

lemma long_frame_any_order_witness:
  "rq_dispatched (rx_process False (\<lambda>_. 0) chunk_queue) = rq_dispatched chunk_queue @ [(concat chunk_slots, 1, 100)] \<and>
   rq_queue (rx_process False (\<lambda>_. 0) chunk_queue) = [] \<and> rx_pending (rx_process False (\<lambda>_. 0) chunk_queue) = []"
proof -
  have "chunked chunk_slots" "complete_frame (concat chunk_slots)" "length chunk_slots = 2" by code_simp+
  moreover have "{Suc 0, 0} = {..<2}" by auto
  moreover from calculation have "carries 5 chunk_slots [1, 0] (rq_queue chunk_queue)"
    using chunk_queue by (simp add: carries_def LONG_NOTIFY_CHARACTERISTIC_def)
  ultimately show ?thesis
    using long_frame_any_order [of chunk_queue chunk_slots "[1, 0]" False "\<lambda>_. 0"] chunk_queue
    by (auto simp: breaks_def)
qed

end
