(* ===== verification/V1_Obd_State.thy ===== *)
theory V1_Obd_State
  imports V1_Obd_Parser
begin

text \<open>
  The state of the OBD runtime (\<open>src/modules/obd/obd_runtime_module.h\<close>) with the transport it
  shares with its task (\<open>obd_runtime_transport.cpp\<close>, \<open>obd_transport_control_dispatch.h\<close>): the
  connection state, the adapter's addresses, the command in flight, the response buffer and the
  callbacks' event queue, and the request, control and result queues of depth one.

  The low-level client is a pointer that may be null; whether its link is up, and what it answers,
  are arguments. The speed is kept in the km/h it was reported in; \<open>speedMph_\<close> is its product with
  a constant.
\<close>

section \<open>The enumerations\<close>

datatype obd_state =
  ObdIdle | ObdWaitBoot | ObdScanning | ObdConnecting | ObdSecuring | ObdDiscovering | ObdAtInit |
  ObdPolling | ObdErrorBackoff | ObdDisconnected | ObdEcuIdle

datatype obd_kind = KindNone | KindAtInit | KindSanity | KindSpeed

datatype obd_failure =
  FailNone | FailConnectStart | FailConnectTimeout | FailDiscovery | FailSubscribe | FailInitTimeout |
  FailInitResponse | FailCommandTimeout | FailCommandResponse | FailWrite | FailBufferOverflow |
  FailSecurityStart | FailSecurityTimeout

datatype obd_op =
  OpNone | OpConnect | OpDisconnect | OpSecurityStart | OpDiscover | OpSubscribe | OpWrite | OpRssiRead

section \<open>Constants\<close>

definition SCAN_DURATION_MS :: u32 where "SCAN_DURATION_MS = 5000"
definition OBD_CONNECT_TIMEOUT_MS :: u32 where "OBD_CONNECT_TIMEOUT_MS = 5000"
definition MAX_DIRECT_CONNECT_FAILURES :: u8 where "MAX_DIRECT_CONNECT_FAILURES = 3"
definition POST_CONNECT_SETTLE_MS :: u32 where "POST_CONNECT_SETTLE_MS = 500"
definition POST_SUBSCRIBE_SETTLE_MS :: u32 where "POST_SUBSCRIBE_SETTLE_MS = 150"
definition POLL_INTERVAL_MS :: u32 where "POLL_INTERVAL_MS = 500"
definition POLL_TIMEOUT_MS :: u32 where "POLL_TIMEOUT_MS = 1000"
definition SEARCH_EXTENDED_TIMEOUT_MS :: u32 where "SEARCH_EXTENDED_TIMEOUT_MS = 10000"
definition POLL_COMMAND_RETRIES :: u8 where "POLL_COMMAND_RETRIES = 1"
definition SPEED_MAX_AGE_MS :: u32 where "SPEED_MAX_AGE_MS = 3000"
definition MAX_CONSECUTIVE_ERRORS :: u32 where "MAX_CONSECUTIVE_ERRORS = 5"
definition ERROR_PAUSE_MS :: u32 where "ERROR_PAUSE_MS = 5000"
definition ERRORS_BEFORE_DISCONNECT :: u32 where "ERRORS_BEFORE_DISCONNECT = 10"
definition ECU_IDLE_BACKOFF_THRESHOLD :: u32 where "ECU_IDLE_BACKOFF_THRESHOLD = 6"
definition DEFAULT_MIN_RSSI :: u8 where "DEFAULT_MIN_RSSI = - 80"
definition AT_INIT_RESPONSE_TIMEOUT_MS :: u32 where "AT_INIT_RESPONSE_TIMEOUT_MS = 2000"
definition AT_INIT_RETRIES :: u8 where "AT_INIT_RETRIES = 1"
definition OBD_RSSI_REFRESH_MS :: u32 where "OBD_RSSI_REFRESH_MS = 2000"

abbreviation CR :: char where "CR \<equiv> CHR 0x0D"

definition DEVICE_NAME_CX :: string where "DEVICE_NAME_CX = ''OBDLink CX''"
definition SPEED_POLL_CMD :: string where "SPEED_POLL_CMD = ''010D'' @ [CR]"

definition WARM_INIT_COMMANDS :: "string list" where
  "WARM_INIT_COMMANDS = map (\<lambda>s. s @ [CR]) [''ATE0'', ''ATL0'', ''ATS0'', ''ATAL'', ''ATH0'', ''ATSP0'', ''ATAT1'']"

definition COLD_INIT_COMMANDS :: "string list" where
  "COLD_INIT_COMMANDS =
     map (\<lambda>s. s @ [CR]) [''ATZ'', ''ATE0'', ''ATL0'', ''ATS0'', ''ATAL'', ''ATH0'', ''ATSP0'', ''ATAT1'']"

definition ADDR_BUF_LEN :: nat where "ADDR_BUF_LEN = 18"
definition CMD_BUF_LEN :: nat where "CMD_BUF_LEN = 16"
definition BLE_BUF_LEN :: nat where "BLE_BUF_LEN = 256"
definition BLE_EVENT_QUEUE_DEPTH :: nat where "BLE_EVENT_QUEUE_DEPTH = 8"
definition MAX_COMMAND_ATTEMPTS :: u8 where "MAX_COMMAND_ATTEMPTS = 3"
definition MAX_CONFIRM_PASSES :: u16 where "MAX_CONFIRM_PASSES = 250"

text \<open>A copy into a buffer of \<open>n\<close> bytes keeps at most \<open>n - 1\<close> characters.\<close>

definition copyString :: "nat \<Rightarrow> string \<Rightarrow> string" where
  "copyString n src = take (n - 1) src"

section \<open>The transport's items\<close>

record obd_result =
  tr_ready :: bool
  tr_op :: obd_op
  tr_requestId :: u32
  tr_issuedMs :: u32
  tr_success :: bool
  tr_timedOut :: bool
  tr_bondDeleteAttempted :: bool
  tr_bondDeleted :: bool
  tr_bleError :: int
  tr_rssi :: u8

definition no_result :: obd_result where
  "no_result = \<lparr>tr_ready = False, tr_op = OpNone, tr_requestId = 0, tr_issuedMs = 0, tr_success = False,
     tr_timedOut = False, tr_bondDeleteAttempted = False, tr_bondDeleted = False, tr_bleError = 0, tr_rssi = 0\<rparr>"

record obd_request =
  tq_op :: obd_op
  tq_requestId :: u32
  tq_timeoutMs :: u32
  tq_nowMs :: u32
  tq_dispatchEpoch :: u32
  tq_state :: obd_state
  tq_address :: string
  tq_addrType :: u8
  tq_preferCached :: bool
  tq_cmd :: string
  tq_withResponse :: bool
  tq_deleteBond :: bool

definition empty_request :: obd_request where
  "empty_request = \<lparr>tq_op = OpNone, tq_requestId = 0, tq_timeoutMs = 0, tq_nowMs = 0, tq_dispatchEpoch = 0,
     tq_state = ObdIdle, tq_address = [], tq_addrType = 0, tq_preferCached = False, tq_cmd = [],
     tq_withResponse = False, tq_deleteBond = False\<rparr>"

text \<open>
  Where the transport task stands: not created, before its control check, before it waits for a
  request, with a request before the second control check, before its claim, and in the client's
  call.
\<close>

datatype obd_task =
  TaskNone | TaskLoop | TaskWaiting | TaskReceived obd_request | TaskChecked obd_request | TaskWorking obd_request

record obd_dispatch =
  dc_request :: obd_request
  dc_active :: bool
  dc_commandAccepted :: bool
  dc_bondDeleteAttempted :: bool
  dc_bondDeleted :: bool
  dc_settledPasses :: u8
  dc_commandAttempts :: u8
  dc_confirmPasses :: u16
  dc_targetGeneration :: u32

definition new_dispatch :: obd_dispatch where
  "new_dispatch = \<lparr>dc_request = empty_request, dc_active = False, dc_commandAccepted = False,
     dc_bondDeleteAttempted = False, dc_bondDeleted = False, dc_settledPasses = 0, dc_commandAttempts = 0,
     dc_confirmPasses = 0, dc_targetGeneration = 0\<rparr>"

section \<open>The runtime\<close>

text \<open>The callbacks' events; only the fields that their type uses.\<close>

datatype obd_event =
  DeviceFound (ev_address: string) (ev_rssi: u8) (ev_addrType: u8)
| LinkLost (ev_reason: int)
| LinkData (ev_data: string) (ev_receivedMs: u32) (ev_dataReady: bool) (ev_overflowed: bool)

record obd_command =
  ac_active :: bool
  ac_kind :: obd_kind
  ac_tx :: string
  ac_timeoutMs :: u32
  ac_retriesRemaining :: u8
  ac_sentMs :: u32
  ac_writeResultPending :: bool
  ac_writeWithResponse :: bool
  ac_alternateWriteModeTried :: bool

definition no_command :: obd_command where
  "no_command = \<lparr>ac_active = False, ac_kind = KindNone, ac_tx = [], ac_timeoutMs = 0, ac_retriesRemaining = 0,
     ac_sentMs = 0, ac_writeResultPending = False, ac_writeWithResponse = True, ac_alternateWriteModeTried = False\<rparr>"

record obd_link =
  or_client :: "nat option"
  or_enabled :: bool
  or_state :: obd_state
  or_stateEnteredMs :: u32
  or_stateEntryPending :: bool
  or_lastProxyAdvertising :: bool
  or_lastProxyClientConnected :: bool
  or_lastObdRetryAllowed :: bool
  or_speedKmh :: u8
  or_speedSampleTsMs :: u32
  or_speedValid :: bool

record obd_target = obd_link +
  or_savedAddress :: string
  or_connectAddress :: string
  or_manualCandidateAddress :: string
  or_pendingAddress :: string
  or_minRssi :: u8
  or_rssi :: u8
  or_pendingRssi :: u8
  or_pendingAddrType :: u8
  or_savedAddrType :: u8
  or_connectAddrType :: u8
  or_manualCandidateAddrType :: u8
  or_pendingDeviceFound :: bool
  or_scanRequested :: bool
  or_manualScanPending :: bool
  or_manualScanPreemptProxy :: bool
  or_manualCandidateValid :: bool
  or_connectTargetFromManualCandidate :: bool
  or_preferWarmReconnect :: bool
  or_warmInitPreferred :: bool
  or_coldInitFallbackUsed :: bool
  or_preferWriteWithResponse :: bool

record obd_counters = obd_target +
  or_connectAttempts :: u8
  or_connectSuccesses :: u32
  or_connectFailures :: u32
  or_pollCount :: u32
  or_pollErrors :: u32
  or_staleSpeedCount :: u32
  or_consecutiveErrors :: u32
  or_backoffCycles :: u32
  or_v1WasConnectedAtEcuIdle :: bool
  or_totalBytesReceived :: u32
  or_lastRssiMs :: u32
  or_bufferOverflowCount :: u32
  or_initRetries :: u8
  or_securityRepairs :: u32
  or_lastConnectStartMs :: u32
  or_lastConnectSuccessMs :: u32
  or_lastFailureMs :: u32
  or_lastFailure :: obd_failure
  or_repairedBondAddress :: string
  or_nextSpeedDueMs :: u32
  or_initIndex :: u8

record obd_requests = obd_counters +
  or_activeCommand :: obd_command
  or_requestActive :: bool
  or_pendingOp :: obd_op
  or_nextRequestId :: u32
  or_pendingRequestId :: u32
  or_pendingIssuedMs :: u32
  or_pendingTimeoutMs :: u32
  or_pendingTimedOut :: bool
  or_readyResult :: obd_result
  or_disconnectPending :: bool
  or_disconnectQueued :: bool
  or_disconnectDeleteBond :: bool
  or_followupDeleteBond :: bool
  or_lastDisconnectSucceeded :: bool
  or_disconnectRequestId :: u32
  or_disconnectAddress :: string
  or_disconnectAddrType :: u8
  or_bleBuf :: string
  or_bleDataReady :: bool
  or_bleResponseReceivedMs :: u32
  or_bleDisconnected :: bool
  or_bleDisconnectReason :: int
  or_bleOverflowed :: bool
  or_eventQueue :: "obd_event list"

text \<open>
  The runtime with the transport: whether each queue exists, what it holds, the task and the
  dispatcher, the objects the task is bound to and the epoch token with the claim in its lowest bit.
\<close>

record obd = obd_requests +
  ot_hasRequestQueue :: bool
  ot_hasControlQueue :: bool
  ot_hasResultQueue :: bool
  ot_requestQueue :: "obd_request option"
  ot_controlQueue :: "obd_request option"
  ot_resultQueue :: "obd_result option"
  ot_task :: obd_task
  ot_boundClient :: "nat option"
  ot_token :: u32
  ot_dispatch :: obd_dispatch

definition new_obd :: obd where
  "new_obd = \<lparr>or_client = None, or_enabled = False, or_state = ObdIdle, or_stateEnteredMs = 0,
     or_stateEntryPending = False, or_lastProxyAdvertising = False, or_lastProxyClientConnected = False,
     or_lastObdRetryAllowed = True, or_speedKmh = 0, or_speedSampleTsMs = 0, or_speedValid = False,
     or_savedAddress = [], or_connectAddress = [], or_manualCandidateAddress = [], or_pendingAddress = [],
     or_minRssi = - 80, or_rssi = 0, or_pendingRssi = 0, or_pendingAddrType = 0, or_savedAddrType = 0,
     or_connectAddrType = 0, or_manualCandidateAddrType = 0, or_pendingDeviceFound = False,
     or_scanRequested = False, or_manualScanPending = False, or_manualScanPreemptProxy = False,
     or_manualCandidateValid = False, or_connectTargetFromManualCandidate = False,
     or_preferWarmReconnect = False, or_warmInitPreferred = False, or_coldInitFallbackUsed = False,
     or_preferWriteWithResponse = True, or_connectAttempts = 0, or_connectSuccesses = 0,
     or_connectFailures = 0, or_pollCount = 0, or_pollErrors = 0, or_staleSpeedCount = 0,
     or_consecutiveErrors = 0, or_backoffCycles = 0, or_v1WasConnectedAtEcuIdle = False,
     or_totalBytesReceived = 0, or_lastRssiMs = 0, or_bufferOverflowCount = 0, or_initRetries = 0,
     or_securityRepairs = 0, or_lastConnectStartMs = 0, or_lastConnectSuccessMs = 0, or_lastFailureMs = 0,
     or_lastFailure = FailNone, or_repairedBondAddress = [], or_nextSpeedDueMs = 0, or_initIndex = 0,
     or_activeCommand = no_command, or_requestActive = False, or_pendingOp = OpNone, or_nextRequestId = 0,
     or_pendingRequestId = 0, or_pendingIssuedMs = 0, or_pendingTimeoutMs = 0, or_pendingTimedOut = False,
     or_readyResult = no_result, or_disconnectPending = False, or_disconnectQueued = False,
     or_disconnectDeleteBond = False, or_followupDeleteBond = False, or_lastDisconnectSucceeded = False,
     or_disconnectRequestId = 0, or_disconnectAddress = [], or_disconnectAddrType = 0, or_bleBuf = [],
     or_bleDataReady = False, or_bleResponseReceivedMs = 0, or_bleDisconnected = False,
     or_bleDisconnectReason = 0, or_bleOverflowed = False, or_eventQueue = [],
     ot_hasRequestQueue = False, ot_hasControlQueue = False, ot_hasResultQueue = False,
     ot_requestQueue = None, ot_controlQueue = None, ot_resultQueue = None, ot_task = TaskNone,
     ot_boundClient = None, ot_token = 0, ot_dispatch = new_dispatch\<rparr>"

section \<open>What a call meets\<close>

text \<open>
  The clock, whether the link is up, whether a scan starts, and whether the heap grants each queue
  and the task when one is missing.
\<close>

record obd_answers =
  oa_millis :: u32
  oa_linked :: bool
  oa_scanStarted :: bool
  oa_requestQueue :: bool
  oa_controlQueue :: bool
  oa_resultQueue :: bool
  oa_task :: bool

record obd_context =
  ox_bootReady :: bool
  ox_v1Connected :: bool
  ox_bleScanIdle :: bool
  ox_proxyAdvertising :: bool
  ox_proxyClientConnected :: bool
  ox_v1ConnectInProgress :: bool
  ox_obdScanAllowed :: bool
  ox_obdConnectAllowed :: bool
  ox_obdRetryAllowed :: bool

definition isBleConnected :: "obd_answers \<Rightarrow> obd \<Rightarrow> bool" where
  "isBleConnected a s \<longleftrightarrow> or_client s \<noteq> None \<and> oa_linked a"

definition startBleScan :: "obd_answers \<Rightarrow> obd \<Rightarrow> bool" where
  "startBleScan a s \<longleftrightarrow> or_client s \<noteq> None \<and> oa_scanStarted a"

section \<open>Small resets\<close>

definition clearBleResponseState :: "obd \<Rightarrow> obd" where
  "clearBleResponseState s = s\<lparr>or_bleBuf := [], or_bleDataReady := False, or_bleResponseReceivedMs := 0,
     or_bleOverflowed := False\<rparr>"

definition clearSpeedState :: "obd \<Rightarrow> obd" where
  "clearSpeedState s = s\<lparr>or_speedKmh := 0, or_speedSampleTsMs := 0, or_speedValid := False\<rparr>"

definition resetPollingSchedule :: "u32 \<Rightarrow> obd \<Rightarrow> obd" where
  "resetPollingSchedule now s = s\<lparr>or_nextSpeedDueMs := now\<rparr>"

definition resetCommandState :: "obd \<Rightarrow> obd" where
  "resetCommandState s = s\<lparr>or_activeCommand := no_command\<rparr>"

definition completeActiveCommand :: "obd \<Rightarrow> obd" where
  "completeActiveCommand s = resetCommandState s"

definition clearBleEventQueue :: "obd \<Rightarrow> obd" where
  "clearBleEventQueue s = s\<lparr>or_eventQueue := []\<rparr>"

definition clearTransportRequest :: "obd \<Rightarrow> obd" where
  "clearTransportRequest s = s\<lparr>or_requestActive := False, or_pendingOp := OpNone, or_pendingRequestId := 0,
     or_pendingIssuedMs := 0, or_pendingTimeoutMs := 0, or_pendingTimedOut := False\<rparr>"

definition drop_result :: "obd \<Rightarrow> obd" where
  "drop_result s = s\<lparr>or_readyResult := no_result\<rparr>"

definition drop_found :: "obd \<Rightarrow> obd" where
  "drop_found s = s\<lparr>or_pendingDeviceFound := False, or_pendingAddress := []\<rparr>"

definition resetInitState :: "bool \<Rightarrow> obd \<Rightarrow> obd" where
  "resetInitState preferWarmInit s =
     clearBleResponseState (resetCommandState (s\<lparr>or_initIndex := 0, or_warmInitPreferred := preferWarmInit,
       or_coldInitFallbackUsed := False, or_initRetries := 0\<rparr>))"

definition setMinRssi :: "u8 \<Rightarrow> obd \<Rightarrow> obd" where
  "setMinRssi minRssi s =
     (let m = (if sint minRssi < - 100 then - 100 else minRssi);
          m = (if sint m > - 40 then - 40 else m)
      in s\<lparr>or_minRssi := m\<rparr>)"

section \<open>The callbacks' event queue\<close>

fun is_data :: "obd_event \<Rightarrow> bool" where
  "is_data (LinkData d t r v) = True"
| "is_data _ = False"

fun mark_overflowed :: "obd_event \<Rightarrow> obd_event" where
  "mark_overflowed (LinkData d t r v) = LinkData d t r True"
| "mark_overflowed e = e"

text \<open>A full queue drops its oldest event; data after dropped data carry the overflow.\<close>

definition enqueueBleEvent :: "obd_event \<Rightarrow> obd \<Rightarrow> obd" where
  "enqueueBleEvent e s =
     (if length (or_eventQueue s) \<ge> BLE_EVENT_QUEUE_DEPTH
      then s\<lparr>or_eventQueue := tl (or_eventQueue s) @
               [if is_data e \<and> is_data (hd (or_eventQueue s)) then mark_overflowed e else e]\<rparr>
      else s\<lparr>or_eventQueue := or_eventQueue s @ [e]\<rparr>)"

fun applyBleEvent :: "obd_event \<Rightarrow> obd \<Rightarrow> obd" where
  "applyBleEvent (DeviceFound address rssi addrType) s =
     (if or_state s \<noteq> ObdScanning \<or> address = [] \<or> sint rssi < sint (or_minRssi s) then s
      else s\<lparr>or_pendingAddress := copyString ADDR_BUF_LEN address, or_pendingRssi := rssi,
             or_pendingAddrType := addrType, or_pendingDeviceFound := True\<rparr>)"
| "applyBleEvent (LinkLost reason) s = s\<lparr>or_bleDisconnected := True, or_bleDisconnectReason := reason\<rparr>"
| "applyBleEvent (LinkData d received ready overflowed) s =
     (if or_state s \<noteq> ObdAtInit \<and> or_state s \<noteq> ObdPolling then s
      else
        let remaining = BLE_BUF_LEN - 1 - length (or_bleBuf s);
            toCopy = min (length d) remaining;
            s = s\<lparr>or_bleBuf := or_bleBuf s @ take toCopy d\<rparr>;
            s = (if toCopy < length d \<or> overflowed then s\<lparr>or_bleOverflowed := True\<rparr> else s)
        in if ready
           then (if \<not> or_bleDataReady s then s\<lparr>or_bleResponseReceivedMs := received\<rparr> else s)
                  \<lparr>or_bleDataReady := True\<rparr>
           else s)"

definition drainBleEventQueue :: "obd \<Rightarrow> obd" where
  "drainBleEventQueue s = fold applyBleEvent (or_eventQueue s) (s\<lparr>or_eventQueue := []\<rparr>)"

text \<open>The callbacks of the client. A name is the advertised one or null.\<close>

definition onDeviceFound :: "string option \<Rightarrow> string \<Rightarrow> int \<Rightarrow> u8 \<Rightarrow> obd \<Rightarrow> obd" where
  "onDeviceFound name address rssi addrType s =
     (if address = [] then s
      else if name \<noteq> None \<and> name \<noteq> Some DEVICE_NAME_CX then s
      else enqueueBleEvent (DeviceFound (copyString ADDR_BUF_LEN address) (word_of_int rssi) addrType) s)"

definition onBleDisconnect :: "int \<Rightarrow> obd \<Rightarrow> obd" where
  "onBleDisconnect reason s = enqueueBleEvent (LinkLost reason) s"

definition onBleData :: "u32 \<Rightarrow> string \<Rightarrow> obd \<Rightarrow> obd" where
  "onBleData now d s =
     (if d = [] then s
      else enqueueBleEvent (LinkData (take (BLE_BUF_LEN - 1) d) now (CHR ''>'' \<in> set d)
             (length d > BLE_BUF_LEN - 1)) s)"

section \<open>Addresses\<close>

definition setSavedAddressFromBuffer :: "string \<Rightarrow> obd \<Rightarrow> obd" where
  "setSavedAddressFromBuffer address s = s\<lparr>or_savedAddress := copyString ADDR_BUF_LEN address\<rparr>"

definition setConnectTarget :: "string \<Rightarrow> u8 \<Rightarrow> bool \<Rightarrow> obd \<Rightarrow> obd" where
  "setConnectTarget address addrType fromManualCandidate s =
     s\<lparr>or_connectAddress := copyString ADDR_BUF_LEN address, or_connectAddrType := addrType,
       or_connectTargetFromManualCandidate := fromManualCandidate \<and> copyString ADDR_BUF_LEN address \<noteq> []\<rparr>"

definition setConnectTargetFromSaved :: "obd \<Rightarrow> obd" where
  "setConnectTargetFromSaved s = setConnectTarget (or_savedAddress s) (or_savedAddrType s) False s"

definition clearConnectTarget :: "obd \<Rightarrow> obd" where
  "clearConnectTarget s = s\<lparr>or_connectAddress := [], or_connectAddrType := 0,
     or_connectTargetFromManualCandidate := False\<rparr>"

definition clearManualScanState :: "obd \<Rightarrow> obd" where
  "clearManualScanState s = clearConnectTarget (s\<lparr>or_manualScanPending := False, or_manualScanPreemptProxy := False,
     or_manualCandidateValid := False, or_manualCandidateAddress := [], or_manualCandidateAddrType := 0\<rparr>)"

definition commitManualScanCandidate :: "obd \<Rightarrow> obd" where
  "commitManualScanCandidate s =
     (if \<not> or_manualScanPending s \<or> \<not> or_manualCandidateValid s then s
      else
        let changed = (or_savedAddress s \<noteq> or_manualCandidateAddress s \<or>
                       or_savedAddrType s \<noteq> or_manualCandidateAddrType s);
            s = (setSavedAddressFromBuffer (or_manualCandidateAddress s) s)
                  \<lparr>or_savedAddrType := or_manualCandidateAddrType s\<rparr>;
            s = (if changed then s\<lparr>or_preferWarmReconnect := False\<rparr> else s)
        in clearManualScanState s)"

definition transitionTo :: "obd_state \<Rightarrow> u32 \<Rightarrow> obd \<Rightarrow> obd" where
  "transitionTo newState now s =
     (if newState = ObdPolling then commitManualScanCandidate s else s)
       \<lparr>or_state := newState, or_stateEnteredMs := now, or_stateEntryPending := True\<rparr>"

text \<open>The address a request or a disconnect is about.\<close>

definition target_address :: "obd \<Rightarrow> string" where
  "target_address s = (if or_connectAddress s \<noteq> [] then or_connectAddress s else or_savedAddress s)"

definition target_addrType :: "obd \<Rightarrow> u8" where
  "target_addrType s = (if or_connectAddress s \<noteq> [] then or_connectAddrType s else or_savedAddrType s)"

end
