(* ===== verification/V1_Obd_Transport.thy ===== *)
theory V1_Obd_Transport
  imports V1_Obd_State
begin

text \<open>
  The transport of the OBD runtime (\<open>src/modules/obd/obd_runtime_transport.cpp\<close> and
  \<open>obd_transport_control_dispatch.h\<close>): requests to the task and their results, the priority
  disconnect that fences them off, the epoch token that retires queued work, and the task itself,
  one step between two of its accesses to what it shares with the main loop.
\<close>

section \<open>Resources\<close>

definition obdTransportBindingAccepted :: "bool \<Rightarrow> nat option \<Rightarrow> nat option \<Rightarrow> bool" where
  "obdTransportBindingAccepted taskActive bound requested \<longleftrightarrow> \<not> taskActive \<or> bound = requested"

definition ensureObdTransportRuntime :: "obd_answers \<Rightarrow> obd \<Rightarrow> bool \<times> obd" where
  "ensureObdTransportRuntime a s =
     (if or_client s = None then (False, s)
      else if \<not> obdTransportBindingAccepted (ot_task s \<noteq> TaskNone) (ot_boundClient s) (or_client s) then (False, s)
      else if \<not> ot_hasRequestQueue s \<and> \<not> oa_requestQueue a then (False, s)
      else
        let s = s\<lparr>ot_hasRequestQueue := True\<rparr>
        in if \<not> ot_hasControlQueue s \<and> \<not> oa_controlQueue a then (False, s)
           else
             let s = s\<lparr>ot_hasControlQueue := True\<rparr>
             in if \<not> ot_hasResultQueue s \<and> \<not> oa_resultQueue a then (False, s)
                else
                  let s = s\<lparr>ot_hasResultQueue := True\<rparr>
                  in if ot_task s = TaskNone
                     then let s = s\<lparr>ot_boundClient := or_client s\<rparr>
                          in if oa_task a then (True, s\<lparr>ot_task := TaskLoop\<rparr>) else (False, s)
                     else (True, s))"

definition ensureRuntimeResources :: "obd_answers \<Rightarrow> obd \<Rightarrow> obd" where
  "ensureRuntimeResources a s = snd (ensureObdTransportRuntime a s)"

section \<open>The epoch token\<close>

definition epoch_snapshot :: "u32 \<Rightarrow> u32" where
  "epoch_snapshot token = token AND NOT 1"

definition cancelQueuedWork :: "u32 \<Rightarrow> u32" where
  "cancelQueuedWork token = token + 2"

definition tryClaim :: "u32 \<Rightarrow> u32 \<Rightarrow> bool \<times> u32" where
  "tryClaim epoch token = (if token = epoch then (True, epoch OR 1) else (False, token))"

definition releaseClaim :: "u32 \<Rightarrow> u32" where
  "releaseClaim token = token AND NOT 1"

section \<open>The disconnect\<close>

definition queuePendingTransportDisconnect :: "obd_answers \<Rightarrow> obd \<Rightarrow> bool \<times> obd" where
  "queuePendingTransportDisconnect a s =
     (if \<not> or_disconnectPending s \<or> or_disconnectQueued s then (True, s)
      else
        let (ok, s) = ensureObdTransportRuntime a s
        in if \<not> ok \<or> \<not> ot_hasControlQueue s then (False, s)
           else (True, s\<lparr>ot_controlQueue := Some (empty_request\<lparr>tq_op := OpDisconnect,
                   tq_requestId := or_disconnectRequestId s, tq_nowMs := oa_millis a,
                   tq_deleteBond := or_disconnectDeleteBond s, tq_addrType := or_disconnectAddrType s,
                   tq_address := or_disconnectAddress s\<rparr>),
                 or_disconnectQueued := True\<rparr>))"

definition disconnectBle :: "obd_answers \<Rightarrow> bool \<Rightarrow> obd \<Rightarrow> bool \<times> obd" where
  "disconnectBle a deleteBond s =
     (let s = drop_result (clearTransportRequest s) in
      if or_disconnectPending s
      then
        let s = (if deleteBond \<and> \<not> or_disconnectDeleteBond s
                 then let s = s\<lparr>or_disconnectAddress := target_address s, or_disconnectAddrType := target_addrType s\<rparr>
                      in if or_disconnectQueued s then s\<lparr>or_followupDeleteBond := True\<rparr>
                         else s\<lparr>or_disconnectDeleteBond := True\<rparr>
                 else s)
        in queuePendingTransportDisconnect a s
      else queuePendingTransportDisconnect a
             (s\<lparr>ot_token := cancelQueuedWork (ot_token s), or_disconnectPending := True, or_disconnectQueued := False,
                or_disconnectDeleteBond := deleteBond, or_followupDeleteBond := False,
                or_lastDisconnectSucceeded := False, or_nextRequestId := or_nextRequestId s + 1,
                or_disconnectRequestId := or_nextRequestId s + 1,
                or_disconnectAddress := target_address s, or_disconnectAddrType := target_addrType s\<rparr>))"

abbreviation drop_link :: "obd_answers \<Rightarrow> obd \<Rightarrow> obd" where
  "drop_link a s \<equiv> snd (disconnectBle a False s)"

section \<open>Results\<close>

text \<open>The acknowledgement of the disconnect that is pending.\<close>

definition disconnect_acknowledged :: "obd_answers \<Rightarrow> obd_result \<Rightarrow> obd \<Rightarrow> obd" where
  "disconnect_acknowledged a r s =
     (let s = s\<lparr>or_disconnectQueued := False, or_lastDisconnectSucceeded := tr_success r \<and> \<not> tr_timedOut r\<rparr>
      in if \<not> or_lastDisconnectSucceeded s then s
         else if or_followupDeleteBond s
         then snd (queuePendingTransportDisconnect a
                (s\<lparr>or_followupDeleteBond := False, or_disconnectDeleteBond := True,
                   or_nextRequestId := or_nextRequestId s + 1, or_disconnectRequestId := or_nextRequestId s + 1,
                   or_lastDisconnectSucceeded := False\<rparr>))
         else s\<lparr>or_disconnectPending := False, or_disconnectDeleteBond := False, or_disconnectRequestId := 0,
                or_disconnectAddress := [], or_disconnectAddrType := 0\<rparr>)"

definition receive_result :: "obd_answers \<Rightarrow> obd_result \<Rightarrow> obd \<Rightarrow> obd" where
  "receive_result a r s =
     (if tr_op r = OpDisconnect
      then if or_disconnectPending s \<and> tr_requestId r = or_disconnectRequestId s
           then disconnect_acknowledged a r s else s
      else if \<not> or_requestActive s \<or> tr_requestId r \<noteq> or_pendingRequestId s then s
      else clearTransportRequest (s\<lparr>or_readyResult := r\<lparr>tr_timedOut := or_pendingTimedOut s\<rparr>\<rparr>))"

text \<open>The result queue holds one item, so its loop runs at most once.\<close>

definition pumpTransportResults :: "obd_answers \<Rightarrow> obd \<Rightarrow> obd" where
  "pumpTransportResults a s =
     (let s = (if or_disconnectPending s \<and> \<not> or_disconnectQueued s
               then snd (queuePendingTransportDisconnect a s) else s)
      in if \<not> ot_hasResultQueue s then s
         else case ot_resultQueue s of None \<Rightarrow> s
              | Some r \<Rightarrow> receive_result a r (s\<lparr>ot_resultQueue := None\<rparr>))"

definition pendingTransportTimedOut :: "u32 \<Rightarrow> obd \<Rightarrow> bool" where
  "pendingTransportTimedOut now s \<longleftrightarrow> or_requestActive s \<and> or_pendingTimeoutMs s > 0 \<and>
     sint (now - or_pendingIssuedMs s) \<ge> sint (or_pendingTimeoutMs s)"

definition takeTransportResult :: "obd_op \<Rightarrow> obd \<Rightarrow> obd_result option \<times> obd" where
  "takeTransportResult op s =
     (if \<not> tr_ready (or_readyResult s) \<or> tr_op (or_readyResult s) \<noteq> op then (None, s)
      else (Some (or_readyResult s), drop_result s))"

abbreviation failed :: "obd_result \<Rightarrow> bool" where
  "failed r \<equiv> \<not> tr_success r \<or> tr_timedOut r"

section \<open>Requests\<close>

definition beginTransportRequest ::
    "obd_answers \<Rightarrow> obd_op \<Rightarrow> u32 \<Rightarrow> u32 \<Rightarrow> string \<Rightarrow> bool \<Rightarrow> bool \<Rightarrow> obd \<Rightarrow> bool \<times> obd" where
  "beginTransportRequest a op now timeoutMs cmd withResponse preferCached s =
     (let s = pumpTransportResults a s in
      if or_requestActive s \<or> or_disconnectPending s then (False, s)
      else
        let (ok, s) = ensureObdTransportRuntime a (drop_result s)
        in if \<not> ok \<or> \<not> ot_hasRequestQueue s then (False, s)
           else
             let r = \<lparr>tq_op = op, tq_requestId = or_nextRequestId s + 1, tq_timeoutMs = timeoutMs, tq_nowMs = now,
                      tq_dispatchEpoch = epoch_snapshot (ot_token s), tq_state = or_state s,
                      tq_address = target_address s, tq_addrType = target_addrType s,
                      tq_preferCached = preferCached, tq_cmd = copyString CMD_BUF_LEN cmd,
                      tq_withResponse = withResponse, tq_deleteBond = False\<rparr>;
                 s = s\<lparr>or_nextRequestId := tq_requestId r\<rparr>
             in if ot_requestQueue s \<noteq> None then (False, s)
                else (True, s\<lparr>ot_requestQueue := Some r, or_requestActive := True, or_pendingOp := op,
                        or_pendingRequestId := tq_requestId r, or_pendingIssuedMs := now,
                        or_pendingTimeoutMs := timeoutMs, or_pendingTimedOut := False\<rparr>))"

section \<open>The task\<close>

text \<open>
  The client's answers to one step: the generation of its link, the deletion of a bond, whether it
  accepts a disconnect, whether a generation's link is confirmed down, and the outcome of an
  operation.
\<close>

record task_answers =
  ta_generation :: u32
  ta_bondDeleted :: bool
  ta_disconnectAccepted :: bool
  ta_linkDown :: "u32 \<Rightarrow> bool"
  ta_success :: bool
  ta_bleError :: int
  ta_rssi :: u8

definition publishObdTransportResult :: "obd_result \<Rightarrow> obd \<Rightarrow> obd" where
  "publishObdTransportResult r s = (if ot_hasResultQueue s then s\<lparr>ot_resultQueue := Some r\<rparr> else s)"

definition dispatch_reset :: "obd_dispatch \<Rightarrow> obd_dispatch" where
  "dispatch_reset d = d\<lparr>dc_active := False, dc_commandAccepted := False, dc_settledPasses := 0,
     dc_commandAttempts := 0, dc_confirmPasses := 0\<rparr>"

text \<open>The acknowledgement and the reset after it.\<close>

definition acknowledge :: "task_answers \<Rightarrow> bool \<Rightarrow> bool \<Rightarrow> obd \<Rightarrow> obd" where
  "acknowledge t success timedOut s =
     (let d = ot_dispatch s;
          r = \<lparr>tr_ready = True, tr_op = OpDisconnect, tr_requestId = tq_requestId (dc_request d),
               tr_issuedMs = tq_nowMs (dc_request d), tr_success = success, tr_timedOut = timedOut,
               tr_bondDeleteAttempted = dc_bondDeleteAttempted d, tr_bondDeleted = dc_bondDeleted d,
               tr_bleError = ta_bleError t, tr_rssi = 0\<rparr>
      in (publishObdTransportResult r s)\<lparr>ot_dispatch := dispatch_reset d\<rparr>)"

definition dispatch_accept :: "task_answers \<Rightarrow> obd_request \<Rightarrow> obd \<Rightarrow> obd" where
  "dispatch_accept t r s =
     s\<lparr>ot_controlQueue := None, ot_requestQueue := None,
       ot_dispatch := \<lparr>dc_request = r, dc_active = True, dc_commandAccepted = False,
         dc_bondDeleteAttempted = tq_deleteBond r,
         dc_bondDeleted = (if tq_deleteBond r then ta_bondDeleted t else True),
         dc_settledPasses = 0, dc_commandAttempts = 0, dc_confirmPasses = 0,
         dc_targetGeneration = ta_generation t\<rparr>\<rparr>"

definition dispatch_pass :: "task_answers \<Rightarrow> obd \<Rightarrow> obd" where
  "dispatch_pass t s =
     (let d = ot_dispatch s in
      if \<not> dc_commandAccepted d
      then
        let d = d\<lparr>dc_commandAttempts := dc_commandAttempts d + 1, dc_settledPasses := 0\<rparr>
        in if \<not> ta_disconnectAccepted t
           then if dc_commandAttempts d \<ge> MAX_COMMAND_ATTEMPTS
                then acknowledge t False False (s\<lparr>ot_dispatch := d\<rparr>) else s\<lparr>ot_dispatch := d\<rparr>
           else s\<lparr>ot_dispatch := d\<lparr>dc_commandAccepted := True, dc_confirmPasses := 0\<rparr>\<rparr>
      else if \<not> ta_linkDown t (dc_targetGeneration d)
      then
        let d = d\<lparr>dc_settledPasses := 0, dc_confirmPasses := dc_confirmPasses d + 1\<rparr>
        in if dc_confirmPasses d \<ge> MAX_CONFIRM_PASSES
           then acknowledge t False True (s\<lparr>ot_dispatch := d\<rparr>) else s\<lparr>ot_dispatch := d\<rparr>
      else
        let d = d\<lparr>dc_settledPasses := dc_settledPasses d + 1\<rparr>
        in if dc_settledPasses d < 2 then s\<lparr>ot_dispatch := d\<rparr>
           else acknowledge t True False (s\<lparr>ot_dispatch := d\<rparr>))"

definition dispatch_service :: "task_answers \<Rightarrow> obd \<Rightarrow> bool \<times> obd" where
  "dispatch_service t s =
     (if dc_active (ot_dispatch s) then (True, dispatch_pass t s)
      else if \<not> ot_hasControlQueue s then (False, s)
      else case ot_controlQueue s of None \<Rightarrow> (False, s)
           | Some r \<Rightarrow> (True, dispatch_pass t (dispatch_accept t r s)))"

text \<open>The result of a client call; a disconnect on the request queue is never taken as done.\<close>

definition op_result :: "task_answers \<Rightarrow> obd_request \<Rightarrow> obd_result" where
  "op_result t r =
     no_result\<lparr>tr_ready := True, tr_op := tq_op r, tr_requestId := tq_requestId r, tr_issuedMs := tq_nowMs r,
       tr_success := (case tq_op r of OpRssiRead \<Rightarrow> True
                      | OpConnect \<Rightarrow> ta_success t | OpDiscover \<Rightarrow> ta_success t | OpSubscribe \<Rightarrow> ta_success t
                      | OpWrite \<Rightarrow> ta_success t | _ \<Rightarrow> False),
       tr_rssi := (if tq_op r = OpRssiRead then ta_rssi t else 0),
       tr_bleError := (if tq_op r \<in> {OpNone, OpSecurityStart} then 0 else ta_bleError t)\<rparr>"

definition task_step :: "task_answers \<Rightarrow> obd \<Rightarrow> obd" where
  "task_step t s =
     (case ot_task s of
        TaskNone \<Rightarrow> s
      | TaskLoop \<Rightarrow> (let (busy, s) = dispatch_service t s in if busy then s else s\<lparr>ot_task := TaskWaiting\<rparr>)
      | TaskWaiting \<Rightarrow> (case ot_requestQueue s of None \<Rightarrow> s\<lparr>ot_task := TaskLoop\<rparr>
                       | Some r \<Rightarrow> s\<lparr>ot_requestQueue := None, ot_task := TaskReceived r\<rparr>)
      | TaskReceived r \<Rightarrow> (let (busy, s) = dispatch_service t s
                          in s\<lparr>ot_task := (if busy then TaskLoop else TaskChecked r)\<rparr>)
      | TaskChecked r \<Rightarrow> (let (claimed, token) = tryClaim (tq_dispatchEpoch r) (ot_token s)
                         in s\<lparr>ot_token := token, ot_task := (if claimed then TaskWorking r else TaskLoop)\<rparr>)
      | TaskWorking r \<Rightarrow> publishObdTransportResult (op_result t r)
                          (s\<lparr>ot_token := releaseClaim (ot_token s), ot_task := TaskLoop\<rparr>))"

end
