(* ===== verification/V1_Obd_Runtime.thy ===== *)
theory V1_Obd_Runtime
  imports V1_Obd_Transport
begin

text \<open>
  The OBD runtime on the main loop (\<open>src/modules/obd/obd_runtime_module.cpp\<close>,
  \<open>obd_runtime_state_machine.cpp\<close>, \<open>obd_runtime_commands.cpp\<close>): the commands to the adapter and the
  validation of its responses, the recovery from failures, the handler of each connection state,
  the pass, and the calls of the other modules.
\<close>

section \<open>Responses\<close>

text \<open>What a C string function sees of the buffer.\<close>

definition c_string :: "string \<Rightarrow> string" where
  "c_string d = takeWhile (\<lambda>c. c \<noteq> CHR 0x00) d"

fun contains_at :: "string \<Rightarrow> string \<Rightarrow> bool" where
  "contains_at [] needle = (needle = [])"
| "contains_at (c # cs) needle = (take (length needle) (c # cs) = needle \<or> contains_at cs needle)"

definition stringContainsCI :: "string \<Rightarrow> string \<Rightarrow> bool" where
  "stringContainsCI haystack needle \<longleftrightarrow>
     needle \<noteq> [] \<and> contains_at (map toUpperChar (c_string haystack)) (map toUpperChar needle)"

definition starts_with :: "string \<Rightarrow> string \<Rightarrow> bool" where
  "starts_with prefix d \<longleftrightarrow> take (length prefix) d = prefix"

definition validateSimpleResponse :: "u8 \<Rightarrow> u8 \<Rightarrow> string \<Rightarrow> bool" where
  "validateSimpleResponse service pid response =
     (let r = parseElm327Response (Some response) in er_valid r \<and> er_service r = service \<and> er_pid r = pid)"

definition validateAtResponse :: "string \<Rightarrow> string \<Rightarrow> bool" where
  "validateAtResponse command response =
     (if response = [] then False
      else if starts_with ''0100'' command then validateSimpleResponse 0x41 0x00 response
      else if starts_with ''ATZ'' command \<or> starts_with ''ATI'' command
      then stringContainsCI response ''OBDLINK'' \<or> stringContainsCI response ''STN'' \<or>
           stringContainsCI response ''ELM327''
      else stringContainsCI response ''OK'')"

section \<open>Commands\<close>

definition send_command :: "obd_answers \<Rightarrow> u32 \<Rightarrow> obd \<Rightarrow> bool \<times> obd" where
  "send_command a now s =
     beginTransportRequest a OpWrite now 0 (ac_tx (or_activeCommand s)) (ac_writeWithResponse (or_activeCommand s)) False
       (s\<lparr>or_activeCommand := (or_activeCommand s)\<lparr>ac_writeResultPending := True\<rparr>\<rparr>)"

definition startCommand ::
    "obd_answers \<Rightarrow> obd_kind \<Rightarrow> string \<Rightarrow> u32 \<Rightarrow> u8 \<Rightarrow> u32 \<Rightarrow> obd \<Rightarrow> bool \<times> obd" where
  "startCommand a kind tx timeoutMs retries now s =
     (if tx = [] then (False, s)
      else
        let s = clearBleResponseState s;
            s = s\<lparr>or_activeCommand := \<lparr>ac_active = True, ac_kind = kind, ac_tx = copyString CMD_BUF_LEN tx,
                    ac_timeoutMs = timeoutMs, ac_retriesRemaining = retries, ac_sentMs = 0,
                    ac_writeResultPending = False, ac_writeWithResponse = or_preferWriteWithResponse s,
                    ac_alternateWriteModeTried = False\<rparr>\<rparr>;
            (ok, s) = send_command a now s
        in if ok then (True, s) else (False, resetCommandState s))"

text \<open>Both retries spend one of the command's; the second also turns the write mode.\<close>

definition spend_retry :: "bool \<Rightarrow> obd \<Rightarrow> obd" where
  "spend_retry alternate s =
     (let c = (or_activeCommand s)\<lparr>ac_retriesRemaining := ac_retriesRemaining (or_activeCommand s) - 1\<rparr>;
          c = (if alternate then c\<lparr>ac_alternateWriteModeTried := True,
                                   ac_writeWithResponse := \<not> ac_writeWithResponse c\<rparr> else c)
      in clearBleResponseState (s\<lparr>or_activeCommand := c, or_initRetries := or_initRetries s + 1\<rparr>))"

definition retryActiveCommand :: "obd_answers \<Rightarrow> u32 \<Rightarrow> obd \<Rightarrow> bool \<times> obd" where
  "retryActiveCommand a now s =
     (if \<not> ac_active (or_activeCommand s) \<or> ac_retriesRemaining (or_activeCommand s) = 0 then (False, s)
      else send_command a now (spend_retry False s))"

definition retryActiveCommandWithAlternateWriteMode :: "obd_answers \<Rightarrow> u32 \<Rightarrow> obd \<Rightarrow> bool \<times> obd" where
  "retryActiveCommandWithAlternateWriteMode a now s =
     (if \<not> ac_active (or_activeCommand s) \<or> ac_retriesRemaining (or_activeCommand s) = 0 \<or>
         ac_alternateWriteModeTried (or_activeCommand s) then (False, s)
      else send_command a now (spend_retry True s))"

section \<open>Failures\<close>

definition markFailure :: "obd_failure \<Rightarrow> u32 \<Rightarrow> obd \<Rightarrow> obd" where
  "markFailure reason now s = s\<lparr>or_lastFailure := reason, or_lastFailureMs := now\<rparr>"

definition canAutoHealBond :: "obd \<Rightarrow> bool" where
  "canAutoHealBond s \<longleftrightarrow> target_address s \<noteq> [] \<and> or_repairedBondAddress s \<noteq> target_address s"

definition autoHealBondIfAllowed :: "obd_answers \<Rightarrow> u32 \<Rightarrow> obd \<Rightarrow> bool \<times> obd" where
  "autoHealBondIfAllowed a now s =
     (if \<not> canAutoHealBond s then (False, s)
      else
        let (ok, s) = disconnectBle a True s
        in if \<not> ok then (False, s)
           else
             let s = (resetCommandState (clearBleResponseState s))
                       \<lparr>or_bleDisconnected := False, or_preferWarmReconnect := False, or_warmInitPreferred := False\<rparr>;
                 s = s\<lparr>or_repairedBondAddress := copyString ADDR_BUF_LEN (target_address s),
                       or_securityRepairs := or_securityRepairs s + 1\<rparr>
             in (True, transitionTo ObdDisconnected now s))"

definition handleConnectFailure :: "obd_answers \<Rightarrow> u32 \<Rightarrow> obd_failure \<Rightarrow> obd \<Rightarrow> obd" where
  "handleConnectFailure a now reason s =
     (let s = markFailure reason now s;
          s = s\<lparr>or_connectFailures := or_connectFailures s + 1, or_connectAttempts := or_connectAttempts s + 1\<rparr>;
          s = (resetCommandState (clearBleResponseState s))\<lparr>or_bleDisconnected := False\<rparr>
      in if or_manualScanPending s
         then
           let (healed, s) = (if reason \<in> {FailDiscovery, FailSubscribe, FailWrite, FailInitTimeout}
                              then autoHealBondIfAllowed a now s else (False, s))
           in if healed then s
              else transitionTo ObdIdle now (clearManualScanState (s\<lparr>or_connectAttempts := 0\<rparr>))
         else if or_connectAttempts s \<ge> MAX_DIRECT_CONNECT_FAILURES
         then transitionTo ObdIdle now (s\<lparr>or_connectAttempts := 0\<rparr>)
         else transitionTo ObdDisconnected now s)"

definition drop_and_fail :: "obd_answers \<Rightarrow> u32 \<Rightarrow> obd_failure \<Rightarrow> obd \<Rightarrow> obd" where
  "drop_and_fail a now reason s = handleConnectFailure a now reason (drop_link a s)"

fun shouldDisconnectAfterPollingError :: "obd_failure \<Rightarrow> bool" where
  "shouldDisconnectAfterPollingError FailWrite = True"
| "shouldDisconnectAfterPollingError FailBufferOverflow = True"
| "shouldDisconnectAfterPollingError _ = False"

definition handlePollingError :: "obd_answers \<Rightarrow> u32 \<Rightarrow> bool \<Rightarrow> obd_failure \<Rightarrow> obd \<Rightarrow> obd" where
  "handlePollingError a now disconnectNow reason s =
     (let s = markFailure reason now s;
          s = s\<lparr>or_pollErrors := or_pollErrors s + 1, or_consecutiveErrors := or_consecutiveErrors s + 1\<rparr>;
          s = resetCommandState (clearBleResponseState s);
          s = (if disconnectNow then drop_link a s else s)
      in if or_consecutiveErrors s \<ge> ERRORS_BEFORE_DISCONNECT \<and> shouldDisconnectAfterPollingError reason
         then transitionTo ObdDisconnected now s
         else if or_consecutiveErrors s \<ge> MAX_CONSECUTIVE_ERRORS
         then transitionTo ObdErrorBackoff now s else s)"

section \<open>Polling\<close>

definition isSpeedFresh :: "u32 \<Rightarrow> obd \<Rightarrow> bool" where
  "isSpeedFresh now s \<longleftrightarrow> or_speedValid s \<and> elapsed_ms now (or_speedSampleTsMs s) \<le> SPEED_MAX_AGE_MS"

text \<open>The speed is the km/h of the sample; the output pair is \<open>None\<close> when the call returns false.\<close>

definition getFreshSpeed :: "u32 \<Rightarrow> obd \<Rightarrow> (u8 \<times> u32) option" where
  "getFreshSpeed now s = (if \<not> isSpeedFresh now s then None else Some (or_speedKmh s, or_speedSampleTsMs s))"

definition speedDue :: "u32 \<Rightarrow> obd \<Rightarrow> bool" where
  "speedDue now s \<longleftrightarrow> or_nextSpeedDueMs s = 0 \<or> sint (now - or_nextSpeedDueMs s) \<ge> 0"

definition startSpeedCommand :: "obd_answers \<Rightarrow> u32 \<Rightarrow> obd \<Rightarrow> bool \<times> obd" where
  "startSpeedCommand a now s =
     (if or_requestActive s \<or> or_disconnectPending s \<or> tr_ready (or_readyResult s) then (False, s)
      else
        let (ok, s) = startCommand a KindSpeed SPEED_POLL_CMD POLL_TIMEOUT_MS POLL_COMMAND_RETRIES now s
        in if \<not> ok then (False, handlePollingError a now False FailWrite s)
           else (True, s\<lparr>or_nextSpeedDueMs := now + POLL_INTERVAL_MS\<rparr>))"

definition sendNextPollingCommand :: "obd_answers \<Rightarrow> u32 \<Rightarrow> obd \<Rightarrow> bool \<times> obd" where
  "sendNextPollingCommand a now s = (if speedDue now s then startSpeedCommand a now s else (False, s))"

definition handleSpeedResponse :: "u32 \<Rightarrow> obd \<Rightarrow> bool \<times> obd" where
  "handleSpeedResponse now s =
     (if elapsed_ms now (or_bleResponseReceivedMs s) > SPEED_MAX_AGE_MS then (False, s)
      else
        let r = parseElm327Response (Some (or_bleBuf s))
        in if \<not> er_valid r \<or> er_service r \<noteq> 0x41 \<or> er_pid r \<noteq> 0x0D then (False, s)
           else case decodeSpeedKmh r of None \<Rightarrow> (False, s)
                | Some kmh \<Rightarrow> (True, s\<lparr>or_speedKmh := word_of_nat kmh, or_speedSampleTsMs := or_bleResponseReceivedMs s,
                    or_speedValid := True, or_consecutiveErrors := 0, or_backoffCycles := 0,
                    or_pollCount := or_pollCount s + 1, or_nextSpeedDueMs := now + POLL_INTERVAL_MS\<rparr>))"

definition handlePollingResponse :: "obd_answers \<Rightarrow> u32 \<Rightarrow> obd \<Rightarrow> obd" where
  "handlePollingResponse a now s =
     (if \<not> ac_active (or_activeCommand s) then s
      else
        let overflowed = or_bleOverflowed s;
            (handled, s) = (if overflowed then (False, s\<lparr>or_bufferOverflowCount := or_bufferOverflowCount s + 1\<rparr>)
                            else if ac_kind (or_activeCommand s) = KindSpeed then handleSpeedResponse now s
                            else (False, s));
            s = s\<lparr>or_totalBytesReceived := or_totalBytesReceived s + word_of_nat (length (or_bleBuf s))\<rparr>;
            s = clearBleResponseState s;
            withResponse = ac_writeWithResponse (or_activeCommand s);
            s = completeActiveCommand s
        in if handled then s\<lparr>or_preferWriteWithResponse := withResponse\<rparr>
           else handlePollingError a now False (if overflowed then FailBufferOverflow else FailCommandResponse) s)"

text \<open>The command was written; its time starts with the write.\<close>

definition note_written :: "obd_result \<Rightarrow> obd \<Rightarrow> obd" where
  "note_written r s = s\<lparr>or_activeCommand :=
     (or_activeCommand s)\<lparr>ac_writeResultPending := False, ac_sentMs := tr_issuedMs r\<rparr>\<rparr>"

definition command_timed_out :: "u32 \<Rightarrow> obd \<Rightarrow> bool" where
  "command_timed_out now s \<longleftrightarrow>
     elapsed_ms now (ac_sentMs (or_activeCommand s)) \<ge> ac_timeoutMs (or_activeCommand s)"

text \<open>A speed command without an answer.\<close>

definition poll_timeout :: "obd_answers \<Rightarrow> u32 \<Rightarrow> obd \<Rightarrow> obd" where
  "poll_timeout a now s =
     (let c = or_activeCommand s; n = length (or_bleBuf s) in
      if ac_kind c = KindSpeed \<and> n \<ge> 9 \<and> contains_at (c_string (or_bleBuf s)) ''SEARCHING'' \<and>
         elapsed_ms now (ac_sentMs c) < SEARCH_EXTENDED_TIMEOUT_MS then s
      else
        let (retried, s) = (if ac_kind c = KindSpeed \<and> n = 0
                            then retryActiveCommandWithAlternateWriteMode a now s else (False, s))
        in if retried then s
           else handlePollingError a now False FailCommandTimeout (completeActiveCommand (clearBleResponseState s)))"

text \<open>
  The command in flight: the state after it, and whether the pass goes on to the next command.
\<close>

definition poll_command :: "obd_answers \<Rightarrow> u32 \<Rightarrow> obd \<Rightarrow> bool \<times> obd" where
  "poll_command a now s =
     (if \<not> ac_active (or_activeCommand s) then (True, s)
      else if ac_writeResultPending (or_activeCommand s)
      then (case takeTransportResult OpWrite s of
              (None, s) \<Rightarrow> (False, s)
            | (Some r, s) \<Rightarrow>
                if failed r
                then (False, handlePollingError a now False (if tr_timedOut r then FailCommandTimeout else FailWrite)
                               (completeActiveCommand (clearBleResponseState s)))
                else (False, note_written r s))
      else if or_bleDataReady s
      then if sint (now - or_bleResponseReceivedMs s) < 0 then (False, s)
           else let s = handlePollingResponse a now s in (or_state s = ObdPolling, s)
      else if command_timed_out now s then (False, poll_timeout a now s)
      else (True, s))"

definition poll_rssi :: "obd_answers \<Rightarrow> u32 \<Rightarrow> obd \<Rightarrow> obd" where
  "poll_rssi a now s =
     (case takeTransportResult OpRssiRead s of
        (Some r, s) \<Rightarrow> s\<lparr>or_rssi := tr_rssi r, or_lastRssiMs := now\<rparr>
      | (None, s) \<Rightarrow>
          if \<not> or_requestActive s \<and> \<not> tr_ready (or_readyResult s) \<and>
             \<not> (ac_active (or_activeCommand s) \<and> ac_writeResultPending (or_activeCommand s)) \<and>
             sint (now - or_lastRssiMs s) \<ge> sint OBD_RSSI_REFRESH_MS
          then let (ok, s) = beginTransportRequest a OpRssiRead now 0 [] False False s
               in if ok then s\<lparr>or_lastRssiMs := now\<rparr> else s
          else s)"

definition expire_speed :: "u32 \<Rightarrow> obd \<Rightarrow> obd" where
  "expire_speed now s =
     (if or_speedValid s \<and> \<not> isSpeedFresh now s
      then s\<lparr>or_speedValid := False, or_staleSpeedCount := or_staleSpeedCount s + 1\<rparr> else s)"

definition updatePolling :: "obd_answers \<Rightarrow> u32 \<Rightarrow> obd \<Rightarrow> obd" where
  "updatePolling a now s =
     (if or_bleDisconnected s
      then transitionTo ObdDisconnected now
             (resetCommandState (clearBleResponseState (clearSpeedState (s\<lparr>or_bleDisconnected := False\<rparr>))))
      else
        let (on, s) = poll_command a now s
        in if \<not> on then s
           else
             let s = (if \<not> ac_active (or_activeCommand s) then snd (sendNextPollingCommand a now s) else s)
             in expire_speed now (poll_rssi a now s))"

section \<open>Initialisation of the adapter\<close>

definition handleAtInitResponse :: "obd_answers \<Rightarrow> u32 \<Rightarrow> obd \<Rightarrow> obd" where
  "handleAtInitResponse a now s =
     (if \<not> ac_active (or_activeCommand s) then s
      else
        let valid = (\<not> or_bleOverflowed s \<and> validateAtResponse (ac_tx (or_activeCommand s)) (or_bleBuf s));
            s = clearBleResponseState s
        in if valid
           then (completeActiveCommand (s\<lparr>or_preferWriteWithResponse := ac_writeWithResponse (or_activeCommand s)\<rparr>))
                  \<lparr>or_initIndex := or_initIndex s + 1\<rparr>
           else if ac_kind (or_activeCommand s) = KindSanity
           then (completeActiveCommand s)\<lparr>or_initIndex := or_initIndex s + 1\<rparr>
           else
             let (retried, s) = retryActiveCommand a now s
             in if retried then s
                else if or_warmInitPreferred s \<and> \<not> or_coldInitFallbackUsed s
                then resetInitState False (s\<lparr>or_coldInitFallbackUsed := True\<rparr>)
                else drop_and_fail a now FailInitResponse s)"

definition init_timeout :: "obd_answers \<Rightarrow> u32 \<Rightarrow> obd \<Rightarrow> obd" where
  "init_timeout a now s =
     (if ac_kind (or_activeCommand s) = KindSanity
      then (completeActiveCommand (clearBleResponseState s))\<lparr>or_initIndex := or_initIndex s + 1\<rparr>
      else
        let (retried, s) = (if or_bleBuf s = [] then retryActiveCommandWithAlternateWriteMode a now s else (False, s))
        in if retried then s
           else
             let (retried, s) = retryActiveCommand a now s
             in if retried then s
                else if or_warmInitPreferred s \<and> \<not> or_coldInitFallbackUsed s
                then resetInitState False (s\<lparr>or_coldInitFallbackUsed := True\<rparr>)
                else drop_and_fail a now FailInitTimeout s)"

text \<open>Healing a stale bond comes before the failure, on the first command only.\<close>

definition heal_or_fail :: "obd_answers \<Rightarrow> u32 \<Rightarrow> obd_failure \<Rightarrow> obd \<Rightarrow> obd" where
  "heal_or_fail a now reason s =
     (let (healed, s) = (if or_initIndex s = 0 then autoHealBondIfAllowed a now s else (False, s))
      in if healed then s else drop_and_fail a now reason s)"

definition init_command :: "obd_answers \<Rightarrow> u32 \<Rightarrow> obd \<Rightarrow> obd" where
  "init_command a now s =
     (if ac_writeResultPending (or_activeCommand s)
      then (case takeTransportResult OpWrite s of
              (None, s) \<Rightarrow> s
            | (Some r, s) \<Rightarrow>
                if failed r then heal_or_fail a now (if tr_timedOut r then FailInitTimeout else FailWrite) s
                else note_written r s)
      else if or_bleDataReady s then handleAtInitResponse a now s
      else if command_timed_out now s then init_timeout a now s
      else s)"

definition init_commands :: "obd \<Rightarrow> string list" where
  "init_commands s = (if or_warmInitPreferred s then WARM_INIT_COMMANDS else COLD_INIT_COMMANDS)"

definition init_next :: "obd_answers \<Rightarrow> u32 \<Rightarrow> obd \<Rightarrow> obd" where
  "init_next a now s =
     (if elapsed_ms now (or_stateEnteredMs s) < POST_SUBSCRIBE_SETTLE_MS then s
      else if unat (or_initIndex s) \<ge> length (init_commands s)
      then transitionTo ObdPolling now
             (clearBleResponseState (resetPollingSchedule now (s\<lparr>or_consecutiveErrors := 0\<rparr>)))
      else
        let command = init_commands s ! unat (or_initIndex s);
            (ok, s) = startCommand a (if starts_with ''0100'' command then KindSanity else KindAtInit) command
                        AT_INIT_RESPONSE_TIMEOUT_MS AT_INIT_RETRIES now s
        in if ok then s else heal_or_fail a now FailWrite s)"

text \<open>A link lost before the adapter is ready.\<close>

definition link_lost :: "obd_answers \<Rightarrow> u32 \<Rightarrow> obd \<Rightarrow> obd" where
  "link_lost a now s =
     (let (healed, s) = autoHealBondIfAllowed a now (s\<lparr>or_bleDisconnected := False\<rparr>)
      in if healed then s
         else if or_manualScanPending s then transitionTo ObdIdle now (clearManualScanState s)
         else transitionTo ObdDisconnected now s)"

definition updateAtInit :: "obd_answers \<Rightarrow> u32 \<Rightarrow> obd \<Rightarrow> obd" where
  "updateAtInit a now s =
     (if or_bleDisconnected s then link_lost a now s
      else if ac_active (or_activeCommand s) then init_command a now s
      else init_next a now s)"

section \<open>Connecting\<close>

definition updateConnecting :: "obd_answers \<Rightarrow> u32 \<Rightarrow> bool \<Rightarrow> obd \<Rightarrow> obd" where
  "updateConnecting a now justEntered s =
     (if or_bleDisconnected s then handleConnectFailure a now FailConnectStart s
      else
        let (result, s) = takeTransportResult OpConnect s
        in if (case result of None \<Rightarrow> False | Some r \<Rightarrow> failed r)
           then handleConnectFailure a now
                  (if tr_timedOut (the result) then FailConnectTimeout else FailConnectStart) s
           else
             let (ok, s) = (if justEntered
                            then beginTransportRequest a OpConnect now OBD_CONNECT_TIMEOUT_MS [] False
                                   (or_preferWarmReconnect s \<and> or_savedAddress s \<noteq> [])
                                   (s\<lparr>or_bleDisconnectReason := 0, or_lastConnectStartMs := now\<rparr>)
                            else (True, s))
             in if \<not> ok then handleConnectFailure a now FailConnectStart s
                else if isBleConnected a s
                then
                  let s = s\<lparr>or_connectAttempts := 0, or_connectSuccesses := or_connectSuccesses s + 1,
                            or_lastConnectSuccessMs := now\<rparr>;
                      s = (if or_pendingOp s = OpConnect \<or> tr_op (or_readyResult s) = OpConnect
                           then drop_result (clearTransportRequest s) else s)
                  in transitionTo ObdDiscovering now s
                else if elapsed_ms now (or_stateEnteredMs s) \<ge> OBD_CONNECT_TIMEOUT_MS
                then drop_and_fail a now FailConnectTimeout (drop_result (clearTransportRequest s))
                else s)"

definition updateDiscovering :: "obd_answers \<Rightarrow> u32 \<Rightarrow> obd \<Rightarrow> obd" where
  "updateDiscovering a now s =
     (if or_bleDisconnected s then link_lost a now s
      else if elapsed_ms now (or_stateEnteredMs s) < POST_CONNECT_SETTLE_MS then s
      else (case takeTransportResult OpDiscover s of
          (Some r, s) \<Rightarrow>
            if failed r then drop_and_fail a now FailDiscovery s
            else (case beginTransportRequest a OpSubscribe now OBD_CONNECT_TIMEOUT_MS [] False False s of
                    (True, s) \<Rightarrow> s
                  | (False, s) \<Rightarrow> drop_and_fail a now FailSubscribe s)
        | (None, s) \<Rightarrow>
           (case takeTransportResult OpSubscribe s of
              (Some r, s) \<Rightarrow>
                if failed r then drop_and_fail a now FailSubscribe s
                else transitionTo ObdAtInit now
                       ((resetInitState (or_preferWarmReconnect s) s)\<lparr>or_preferWarmReconnect := True\<rparr>)
            | (None, s) \<Rightarrow>
                if \<not> or_requestActive s \<and> \<not> tr_ready (or_readyResult s)
                then (case beginTransportRequest a OpDiscover now OBD_CONNECT_TIMEOUT_MS [] False False s of
                        (True, s) \<Rightarrow> s
                      | (False, s) \<Rightarrow> drop_and_fail a now FailDiscovery s)
                else s)))"

section \<open>Scanning and reconnecting\<close>

definition scan_may_start :: "obd_context \<Rightarrow> obd \<Rightarrow> bool" where
  "scan_may_start x s \<longleftrightarrow> or_scanRequested s \<and> (or_manualScanPending s \<or> ox_obdScanAllowed x) \<and>
     ox_bleScanIdle x \<and> \<not> ox_v1ConnectInProgress x"

definition start_scanning :: "u32 \<Rightarrow> obd \<Rightarrow> obd" where
  "start_scanning now s = transitionTo ObdScanning now (s\<lparr>or_scanRequested := False\<rparr>)"

definition updateIdle :: "obd_answers \<Rightarrow> u32 \<Rightarrow> obd_context \<Rightarrow> obd \<Rightarrow> obd" where
  "updateIdle a now x s =
     (if isBleConnected a s then drop_link a s
      else if or_manualScanPreemptProxy s \<and> (ox_proxyAdvertising x \<or> ox_proxyClientConnected x) then s
      else if scan_may_start x s \<and> startBleScan a s then start_scanning now s
      else s)"

definition updateWaitBoot :: "u32 \<Rightarrow> obd_context \<Rightarrow> obd \<Rightarrow> obd" where
  "updateWaitBoot now x s =
     (if \<not> ox_bootReady x \<or> \<not> ox_obdConnectAllowed x then s
      else transitionTo ObdConnecting now (setConnectTargetFromSaved s))"

definition updateScanning :: "u32 \<Rightarrow> obd \<Rightarrow> obd" where
  "updateScanning now s =
     (if or_pendingDeviceFound s
      then
        let s = s\<lparr>or_pendingDeviceFound := False, or_rssi := or_pendingRssi s, or_connectAttempts := 0,
                  or_preferWarmReconnect := False\<rparr>;
            s = (if or_manualScanPending s
                 then let s = s\<lparr>or_manualCandidateAddress := copyString ADDR_BUF_LEN (or_pendingAddress s),
                                or_manualCandidateAddrType := or_pendingAddrType s, or_manualCandidateValid := True\<rparr>
                      in (setConnectTarget (or_manualCandidateAddress s) (or_manualCandidateAddrType s) True s)
                           \<lparr>or_manualScanPreemptProxy := False\<rparr>
                 else setConnectTargetFromSaved ((setSavedAddressFromBuffer (or_pendingAddress s) s)
                        \<lparr>or_savedAddrType := or_pendingAddrType s\<rparr>))
        in transitionTo ObdConnecting now s
      else if elapsed_ms now (or_stateEnteredMs s) \<ge> SCAN_DURATION_MS
      then transitionTo ObdIdle now (if or_manualScanPending s then clearManualScanState s else s)
      else s)"

definition retry_target :: "u32 \<Rightarrow> obd \<Rightarrow> obd" where
  "retry_target now s =
     (if or_connectTargetFromManualCandidate s \<and> or_manualCandidateValid s
      then transitionTo ObdConnecting now
             (setConnectTarget (or_manualCandidateAddress s) (or_manualCandidateAddrType s) True s)
      else if or_savedAddress s \<noteq> [] then transitionTo ObdConnecting now (setConnectTargetFromSaved s)
      else if or_connectAddress s \<noteq> [] then transitionTo ObdConnecting now s
      else transitionTo ObdIdle now s)"

definition updateDisconnected :: "obd_answers \<Rightarrow> u32 \<Rightarrow> bool \<Rightarrow> obd_context \<Rightarrow> obd \<Rightarrow> obd" where
  "updateDisconnected a now justEntered x s =
     (let unowned = isBleConnected a s;
          s = (if justEntered then drop_link a (resetCommandState (clearBleResponseState s))
               else if unowned then drop_link a s else s)
      in if unowned then s
         else if scan_may_start x s \<and> startBleScan a s then start_scanning now s
         else if ox_obdRetryAllowed x \<or> or_connectTargetFromManualCandidate s then retry_target now s
         else s)"

definition updateErrorBackoff :: "obd_answers \<Rightarrow> u32 \<Rightarrow> obd_context \<Rightarrow> obd \<Rightarrow> obd" where
  "updateErrorBackoff a now x s =
     (if elapsed_ms now (or_stateEnteredMs s) < ERROR_PAUSE_MS then s
      else if shouldDisconnectAfterPollingError (or_lastFailure s) \<and> or_consecutiveErrors s \<ge> ERRORS_BEFORE_DISCONNECT
      then transitionTo ObdDisconnected now (drop_link a s)
      else
        let s = s\<lparr>or_backoffCycles := or_backoffCycles s + 1\<rparr>;
            s = (if \<not> shouldDisconnectAfterPollingError (or_lastFailure s) then s\<lparr>or_consecutiveErrors := 0\<rparr> else s)
        in if or_backoffCycles s \<ge> ECU_IDLE_BACKOFF_THRESHOLD
           then transitionTo ObdEcuIdle now
                  (clearSpeedState (drop_link a (s\<lparr>or_v1WasConnectedAtEcuIdle := ox_v1Connected x\<rparr>)))
           else transitionTo ObdPolling now s)"

definition updateEcuIdle :: "u32 \<Rightarrow> bool \<Rightarrow> obd_context \<Rightarrow> obd \<Rightarrow> obd" where
  "updateEcuIdle now justEntered x s =
     (let s = (if justEntered then resetCommandState (clearBleResponseState s) else s)
      in if \<not> or_v1WasConnectedAtEcuIdle s \<and> ox_v1Connected x
         then transitionTo ObdWaitBoot now (s\<lparr>or_backoffCycles := 0\<rparr>)
         else if ox_obdRetryAllowed x \<and> or_savedAddress s \<noteq> []
         then transitionTo ObdConnecting now ((setConnectTargetFromSaved s)\<lparr>or_preferWarmReconnect := True\<rparr>)
         else s)"

section \<open>The pass\<close>

text \<open>Everything of a session the runtime forgets when it gives the link up.\<close>

definition forget_session :: "obd_answers \<Rightarrow> obd \<Rightarrow> obd" where
  "forget_session a s =
     (drop_result (clearTransportRequest (resetCommandState (clearBleResponseState (clearBleEventQueue
        (drop_link a s))))))\<lparr>or_bleDisconnected := False\<rparr>"

definition reconcileProxyOwnership :: "obd_answers \<Rightarrow> u32 \<Rightarrow> bool \<Rightarrow> obd \<Rightarrow> bool \<times> obd" where
  "reconcileProxyOwnership a now proxyClientConnected s =
     (if \<not> proxyClientConnected then (False, s)
      else
        let s = drop_found (s\<lparr>or_scanRequested := False\<rparr>);
            s = (if or_manualScanPending s then clearManualScanState s else s)
        in (True, if isBleConnected a s \<or> or_state s \<noteq> ObdIdle
                  then transitionTo ObdIdle now (clearSpeedState (forget_session a s)) else s))"

definition obd_state_pass :: "obd_answers \<Rightarrow> u32 \<Rightarrow> obd_context \<Rightarrow> bool \<Rightarrow> obd \<Rightarrow> obd" where
  "obd_state_pass a now x justEntered s =
     (case or_state s of
        ObdIdle \<Rightarrow> updateIdle a now x s
      | ObdWaitBoot \<Rightarrow> updateWaitBoot now x s
      | ObdScanning \<Rightarrow> updateScanning now s
      | ObdConnecting \<Rightarrow> updateConnecting a now justEntered s
      | ObdSecuring \<Rightarrow> s
      | ObdDiscovering \<Rightarrow> updateDiscovering a now s
      | ObdAtInit \<Rightarrow> updateAtInit a now s
      | ObdPolling \<Rightarrow> updatePolling a now s
      | ObdErrorBackoff \<Rightarrow> updateErrorBackoff a now x s
      | ObdDisconnected \<Rightarrow> updateDisconnected a now justEntered x s
      | ObdEcuIdle \<Rightarrow> updateEcuIdle now justEntered x s)"

text \<open>A runtime that is off still rejects a link that comes up late.\<close>

definition reject_late_link :: "obd_answers \<Rightarrow> obd \<Rightarrow> obd" where
  "reject_late_link a s =
     (if \<not> or_disconnectPending s \<and> or_state s \<in> {ObdIdle, ObdDisconnected} \<and> isBleConnected a s
      then drop_link a s else s)"

definition obd_prepare :: "u32 \<Rightarrow> obd_context \<Rightarrow> obd \<Rightarrow> obd" where
  "obd_prepare now x s =
     (let s = drainBleEventQueue s;
          s = (if pendingTransportTimedOut now s then s\<lparr>or_pendingTimedOut := True\<rparr> else s)
      in s\<lparr>or_lastProxyAdvertising := ox_proxyAdvertising x,
           or_lastProxyClientConnected := ox_proxyClientConnected x,
           or_lastObdRetryAllowed := ox_obdRetryAllowed x\<rparr>)"

definition obd_update :: "obd_answers \<Rightarrow> u32 \<Rightarrow> obd_context \<Rightarrow> obd \<Rightarrow> obd" where
  "obd_update a now x s =
     (let s = pumpTransportResults a s in
      if \<not> or_enabled s then reject_late_link a s
      else
        let s = obd_prepare now x s
        in if or_disconnectPending s then s
           else
             let justEntered = or_stateEntryPending s;
                 (proxy, s) = reconcileProxyOwnership a now (ox_proxyClientConnected x) (s\<lparr>or_stateEntryPending := False\<rparr>)
             in if proxy then s else obd_state_pass a now x justEntered s)"

section \<open>The calls of the other modules\<close>

definition resetForBegin :: "obd \<Rightarrow> obd" where
  "resetForBegin s =
     new_obd\<lparr>or_client := or_client s, or_enabled := or_enabled s, or_minRssi := DEFAULT_MIN_RSSI,
       or_preferWriteWithResponse := False,
       ot_hasRequestQueue := ot_hasRequestQueue s, ot_hasControlQueue := ot_hasControlQueue s,
       ot_hasResultQueue := ot_hasResultQueue s, ot_requestQueue := ot_requestQueue s,
       ot_controlQueue := ot_controlQueue s, ot_resultQueue := ot_resultQueue s, ot_task := ot_task s,
       ot_boundClient := ot_boundClient s, ot_token := ot_token s, ot_dispatch := ot_dispatch s\<rparr>"

definition obd_begin :: "obd_answers \<Rightarrow> nat option \<Rightarrow> bool \<Rightarrow> string \<Rightarrow> u8 \<Rightarrow> u8 \<Rightarrow> obd \<Rightarrow> obd" where
  "obd_begin a client enabled savedAddress savedAddrType minRssi s =
     (let s = setMinRssi minRssi (resetForBegin (s\<lparr>or_client := client, or_enabled := enabled\<rparr>));
          s = (setSavedAddressFromBuffer savedAddress s)\<lparr>or_savedAddrType := savedAddrType\<rparr>
      in if \<not> or_enabled s then s
         else if or_savedAddress s \<noteq> [] then (ensureRuntimeResources a s)\<lparr>or_state := ObdWaitBoot\<rparr> else s)"

definition obd_setEnabled :: "obd_answers \<Rightarrow> bool \<Rightarrow> obd \<Rightarrow> obd" where
  "obd_setEnabled a enabled s =
     (if or_enabled s = enabled then s
      else
        let s = s\<lparr>or_enabled := enabled\<rparr>
        in if \<not> enabled
           then
             let s = clearBleEventQueue (drop_link a s);
                 s = drop_found (clearManualScanState (s\<lparr>or_scanRequested := False\<rparr>));
                 s = drop_result (clearTransportRequest (resetCommandState (clearBleResponseState s)))
             in (clearSpeedState (s\<lparr>or_bleDisconnected := False\<rparr>))
                  \<lparr>or_state := ObdIdle, or_stateEnteredMs := 0, or_stateEntryPending := False\<rparr>
           else
             let s = clearSpeedState (ensureRuntimeResources a s);
                 s = clearBleEventQueue (resetPollingSchedule 0 (s\<lparr>or_connectAttempts := 0\<rparr>));
                 s = clearManualScanState ((resetCommandState (clearBleResponseState s))\<lparr>or_bleDisconnected := False\<rparr>)
             in s\<lparr>or_state := (if or_savedAddress s \<noteq> [] then ObdWaitBoot else ObdIdle),
                  or_stateEnteredMs := 0, or_stateEntryPending := False\<rparr>)"

definition stopActiveScan :: "obd_answers \<Rightarrow> obd \<Rightarrow> obd" where
  "stopActiveScan a s =
     (let s = drop_found (s\<lparr>or_scanRequested := False\<rparr>);
          s = (if or_manualScanPending s then clearManualScanState s else s)
      in if or_state s = ObdScanning
         then transitionTo ObdIdle (oa_millis a)
                ((drop_result (clearTransportRequest s))\<lparr>or_bleDisconnected := False\<rparr>)
         else s)"

definition requestManualPairScan :: "obd_answers \<Rightarrow> u32 \<Rightarrow> obd \<Rightarrow> bool \<times> obd" where
  "requestManualPairScan a now s =
     (if \<not> or_enabled s \<or> isBleConnected a s \<or> or_manualScanPending s \<or> or_scanRequested s \<or>
         or_state s = ObdScanning then (False, s)
      else
        let s = forget_session a (ensureRuntimeResources a s);
            s = clearManualScanState ((drop_found s)\<lparr>or_connectAttempts := 0\<rparr>)
        in (True, s\<lparr>or_manualScanPending := True, or_manualScanPreemptProxy := True, or_scanRequested := True,
                    or_state := ObdIdle, or_stateEnteredMs := now, or_stateEntryPending := False\<rparr>))"

definition connect_state_active :: "obd \<Rightarrow> bool" where
  "connect_state_active s \<longleftrightarrow> or_state s \<in> {ObdConnecting, ObdDiscovering, ObdAtInit}"

definition connect_transport_active :: "obd \<Rightarrow> bool" where
  "connect_transport_active s \<longleftrightarrow> or_requestActive s \<and> or_pendingOp s \<in> {OpConnect, OpDiscover, OpSubscribe}"

definition cancelPendingConnect :: "obd_answers \<Rightarrow> obd \<Rightarrow> obd" where
  "cancelPendingConnect a s =
     (if \<not> connect_state_active s \<and> \<not> connect_transport_active s \<and> \<not> isBleConnected a s then s
      else
        let s = forget_session a s;
            s = clearSpeedState (if or_manualScanPending s then clearManualScanState s else s)
        in transitionTo (if or_enabled s \<and> or_savedAddress s \<noteq> [] then ObdDisconnected else ObdIdle) (oa_millis a) s)"

definition isScanStopped :: "obd \<Rightarrow> bool" where
  "isScanStopped s \<longleftrightarrow> or_state s \<noteq> ObdScanning \<and> \<not> or_scanRequested s \<and> \<not> or_pendingDeviceFound s"

definition isConnectIdle :: "obd_answers \<Rightarrow> obd \<Rightarrow> bool" where
  "isConnectIdle a s \<longleftrightarrow> \<not> connect_state_active s \<and> \<not> connect_transport_active s \<and>
     \<not> or_disconnectPending s \<and> \<not> isBleConnected a s"

definition forgetDevice :: "obd_answers \<Rightarrow> obd \<Rightarrow> obd" where
  "forgetDevice a s =
     (let s = clearBleEventQueue (snd (disconnectBle a True s));
          s = drop_found (setSavedAddressFromBuffer [] s);
          s = (clearManualScanState (s\<lparr>or_scanRequested := False\<rparr>))\<lparr>or_connectAttempts := 0\<rparr>;
          s = resetCommandState (clearBleResponseState (clearSpeedState s))
      in s\<lparr>or_bleDisconnected := False, or_repairedBondAddress := [], or_state := ObdIdle,
           or_stateEnteredMs := 0, or_stateEntryPending := False\<rparr>)"

text \<open>
  The disconnect before a shutdown waits in a loop; each round has the clock it reads, the task's
  steps during it and the answers its pump gets. Without a further round the call has not returned.
\<close>

fun shutdown_wait ::
    "u32 \<Rightarrow> u32 \<Rightarrow> (u32 \<times> obd_answers \<times> task_answers list) list \<Rightarrow> obd \<Rightarrow> obd option" where
  "shutdown_wait started timeoutMs rounds s =
     (case rounds of [] \<Rightarrow> None
      | (now, a, ts) # rs \<Rightarrow>
          if or_disconnectPending s \<and> sint (now - started) < sint timeoutMs
          then shutdown_wait started timeoutMs rs (fold task_step ts (pumpTransportResults a s))
          else Some (pumpTransportResults a (fold task_step ts s)))"

definition disconnectForShutdown ::
    "obd_answers \<Rightarrow> u32 \<Rightarrow> u32 \<Rightarrow> (u32 \<times> obd_answers \<times> task_answers list) list \<Rightarrow> obd \<Rightarrow> (bool \<times> obd) option" where
  "disconnectForShutdown a started timeoutMs rounds s =
     (let (queued, s) = disconnectBle a False s in
      if \<not> queued then Some (False, s)
      else map_option (\<lambda>s. (\<not> or_disconnectPending s \<and> or_lastDisconnectSucceeded s, s))
             (shutdown_wait started timeoutMs rounds s))"

text \<open>The status; the answers of the client that it repeats are an argument.\<close>

record client_status =
  os_securityReady :: bool
  os_encrypted :: bool
  os_bonded :: bool
  os_lastBleError :: int
  os_lastSecurityError :: int

record obd_status = client_status +
  os_enabled :: bool
  os_connected :: bool
  os_speedValid :: bool
  os_speedKmh :: u8
  os_speedAgeMs :: u32
  os_speedSampleTsMs :: u32
  os_rssi :: u8
  os_connectAttempts :: u8
  os_connectSuccesses :: u32
  os_connectFailures :: u32
  os_securityRepairs :: u32
  os_scanInProgress :: bool
  os_manualScanPending :: bool
  os_savedAddressValid :: bool
  os_initRetries :: u8
  os_pollCount :: u32
  os_pollErrors :: u32
  os_staleSpeedCount :: u32
  os_consecutiveErrors :: u32
  os_totalBytesReceived :: u32
  os_bufferOverflows :: u32
  os_lastConnectStartMs :: u32
  os_lastConnectSuccessMs :: u32
  os_lastFailureMs :: u32
  os_lastFailure :: obd_failure
  os_commandInFlight :: obd_kind
  os_state :: obd_state

definition no_status :: obd_status where
  "no_status = \<lparr>os_securityReady = False, os_encrypted = False, os_bonded = False, os_lastBleError = 0,
     os_lastSecurityError = 0, os_enabled = False, os_connected = False, os_speedValid = False, os_speedKmh = 0,
     os_speedAgeMs = - 1, os_speedSampleTsMs = 0, os_rssi = 0, os_connectAttempts = 0, os_connectSuccesses = 0,
     os_connectFailures = 0, os_securityRepairs = 0, os_scanInProgress = False, os_manualScanPending = False,
     os_savedAddressValid = False, os_initRetries = 0, os_pollCount = 0, os_pollErrors = 0,
     os_staleSpeedCount = 0, os_consecutiveErrors = 0, os_totalBytesReceived = 0, os_bufferOverflows = 0,
     os_lastConnectStartMs = 0, os_lastConnectSuccessMs = 0, os_lastFailureMs = 0, os_lastFailure = FailNone,
     os_commandInFlight = KindNone, os_state = ObdIdle\<rparr>"

definition obd_snapshot :: "obd_answers \<Rightarrow> client_status \<Rightarrow> u32 \<Rightarrow> obd \<Rightarrow> obd_status" where
  "obd_snapshot a c now s =
     (if or_client s = None then no_status
      else \<lparr>os_securityReady = os_securityReady c, os_encrypted = os_encrypted c, os_bonded = os_bonded c,
             os_lastBleError = os_lastBleError c, os_lastSecurityError = os_lastSecurityError c,
             os_enabled = or_enabled s,
             os_connected = (isBleConnected a s \<or>
               or_state s \<in> {ObdDiscovering, ObdAtInit, ObdPolling, ObdErrorBackoff}),
             os_speedValid = isSpeedFresh now s, os_speedKmh = or_speedKmh s,
             os_speedAgeMs = (if isSpeedFresh now s then elapsed_ms now (or_speedSampleTsMs s) else - 1),
             os_speedSampleTsMs = or_speedSampleTsMs s, os_rssi = or_rssi s,
             os_connectAttempts = or_connectAttempts s, os_connectSuccesses = or_connectSuccesses s,
             os_connectFailures = or_connectFailures s, os_securityRepairs = or_securityRepairs s,
             os_scanInProgress = (or_state s = ObdScanning), os_manualScanPending = or_manualScanPending s,
             os_savedAddressValid = (or_savedAddress s \<noteq> []), os_initRetries = or_initRetries s,
             os_pollCount = or_pollCount s, os_pollErrors = or_pollErrors s,
             os_staleSpeedCount = or_staleSpeedCount s, os_consecutiveErrors = or_consecutiveErrors s,
             os_totalBytesReceived = or_totalBytesReceived s, os_bufferOverflows = or_bufferOverflowCount s,
             os_lastConnectStartMs = or_lastConnectStartMs s, os_lastConnectSuccessMs = or_lastConnectSuccessMs s,
             os_lastFailureMs = or_lastFailureMs s, os_lastFailure = or_lastFailure s,
             os_commandInFlight = (if ac_active (or_activeCommand s) then ac_kind (or_activeCommand s) else KindNone),
             os_state = or_state s\<rparr>)"

end
