(* ===== verification/V1_Obd_Fence.thy ===== *)
theory V1_Obd_Fence
  imports V1_Obd_Runtime
begin

text \<open>
  The fence between the main loop and the transport task. A disconnect retires the requests that
  are queued, and until the dispatcher has confirmed it no request reaches the client; the
  disconnect itself is always held by exactly one of the control queue, the dispatcher and the
  result queue, and a request the main loop waits for by one of the request queue, the task and
  the result queue.
\<close>

section \<open>The invariant\<close>

text \<open>The request a task state holds, and whether it has been claimed.\<close>

fun held :: "obd_task \<Rightarrow> obd_request option" where
  "held (TaskReceived r) = Some r"
| "held (TaskChecked r) = Some r"
| "held (TaskWorking r) = Some r"
| "held _ = None"

fun working :: "obd_task \<Rightarrow> bool" where
  "working (TaskWorking r) = True"
| "working _ = False"

definition unclaimed :: "obd \<Rightarrow> obd_request set" where
  "unclaimed s = set_option (ot_requestQueue s) \<union> (if working (ot_task s) then {} else set_option (held (ot_task s)))"

definition carried :: "obd \<Rightarrow> obd_request set" where
  "carried s = set_option (ot_requestQueue s) \<union> set_option (held (ot_task s))"

text \<open>The acknowledgement in the result queue.\<close>

definition acked :: "obd \<Rightarrow> bool" where
  "acked s \<longleftrightarrow> (\<exists>r. ot_resultQueue s = Some r \<and> tr_op r = OpDisconnect)"

definition resources_ok :: "obd \<Rightarrow> bool" where
  "resources_ok s \<longleftrightarrow>
     (if ot_task s = TaskNone
      then ot_requestQueue s = None \<and> ot_controlQueue s = None \<and> ot_resultQueue s = None \<and>
           \<not> dc_active (ot_dispatch s) \<and> \<not> or_requestActive s
      else ot_hasRequestQueue s \<and> ot_hasControlQueue s \<and> ot_hasResultQueue s \<and> ot_boundClient s = or_client s \<and> or_client s \<noteq> None)"

definition epochs_ok :: "obd \<Rightarrow> bool" where
  "epochs_ok s \<longleftrightarrow> (bit (ot_token s) 0 \<longleftrightarrow> working (ot_task s)) \<and>
     (\<forall>r\<in>unclaimed s. tq_dispatchEpoch r =
        (if or_disconnectPending s then epoch_snapshot (ot_token s) - 2 else epoch_snapshot (ot_token s)))"

definition disconnect_ok :: "obd \<Rightarrow> bool" where
  "disconnect_ok s \<longleftrightarrow>
     (or_disconnectQueued s \<longleftrightarrow> ot_controlQueue s \<noteq> None \<or> dc_active (ot_dispatch s) \<or> acked s) \<and>
     (or_disconnectQueued s \<longrightarrow> or_disconnectPending s) \<and>
     (\<forall>c. ot_controlQueue s = Some c \<longrightarrow> tq_requestId c = or_disconnectRequestId s \<and>
        \<not> dc_active (ot_dispatch s) \<and> \<not> acked s) \<and>
     (dc_active (ot_dispatch s) \<longrightarrow> tq_requestId (dc_request (ot_dispatch s)) = or_disconnectRequestId s \<and>
        dc_settledPasses (ot_dispatch s) \<le> 1 \<and> \<not> acked s \<and> ot_task s = TaskLoop \<and> ot_requestQueue s = None) \<and>
     (\<forall>r. ot_resultQueue s = Some r \<and> tr_op r = OpDisconnect \<longrightarrow> tr_requestId r = or_disconnectRequestId s \<and>
        ot_requestQueue s = None \<and> (ot_task s = TaskLoop \<or> ot_task s = TaskWaiting))"

text \<open>The request waited for is the newest one, so nothing can overtake it.\<close>

definition wanted :: "obd \<Rightarrow> obd_request \<Rightarrow> bool" where
  "wanted s r \<longleftrightarrow> tq_requestId r = or_pendingRequestId s \<and> tq_op r = or_pendingOp s"

definition answered :: "obd \<Rightarrow> obd_result \<Rightarrow> bool" where
  "answered s r \<longleftrightarrow> tr_ready r \<and> tr_requestId r = or_pendingRequestId s \<and> tr_op r = or_pendingOp s \<and> tr_op r \<noteq> OpDisconnect"

definition requests_ok :: "obd \<Rightarrow> bool" where
  "requests_ok s \<longleftrightarrow> (\<forall>r\<in>carried s. tq_op r \<noteq> OpDisconnect) \<and>
     (or_requestActive s \<longrightarrow> \<not> or_disconnectPending s \<and>
       ((\<exists>r. ot_requestQueue s = Some r \<and> wanted s r) \<or>
        ot_requestQueue s = None \<and> (\<exists>r. held (ot_task s) = Some r \<and> wanted s r) \<or>
        ot_requestQueue s = None \<and> held (ot_task s) = None \<and> (\<exists>r. ot_resultQueue s = Some r \<and> answered s r)))"

definition fence :: "obd \<Rightarrow> bool" where
  "fence s \<longleftrightarrow> resources_ok s \<and> epochs_ok s \<and> disconnect_ok s \<and> requests_ok s"

lemmas fence_defs = fence_def resources_ok_def epochs_ok_def disconnect_ok_def requests_ok_def wanted_def answered_def

section \<open>The token\<close>

lemma snapshot_split: "epoch_snapshot token + (token AND 1) = token"
proof -
  have "(token AND NOT 1) AND (token AND 1) = 0" by (rule bit_word_eqI) (auto simp: bit_simps)
  then have "epoch_snapshot token + (token AND 1) = (token AND NOT 1) OR (token AND 1)"
    by (simp add: epoch_snapshot_def disjunctive_add_eq_or)
  also have "\<dots> = token" by (rule bit_word_eqI) (auto simp: bit_simps)
  finally show ?thesis .
qed

lemma low_bit: "(token :: u32) AND 1 = of_bool (bit token 0)"
  by (rule bit_word_eqI) (auto simp: bit_simps)

lemma low_bit_next [simp]: "bit (token + 2 :: u32) 0 = bit token 0"
  by (simp add: bit_0)

lemma snapshot_low [simp]: "\<not> bit (epoch_snapshot token) 0"
  by (simp add: epoch_snapshot_def bit_simps)

lemma snapshot_diff: "epoch_snapshot token = token - of_bool (bit token 0)"
  using snapshot_split [of token] by (simp add: low_bit eq_diff_eq)

lemma snapshot_next [simp]: "epoch_snapshot (cancelQueuedWork token) = epoch_snapshot token + 2"
  by (simp add: cancelQueuedWork_def snapshot_diff)

lemma snapshot_release [simp]: "epoch_snapshot (releaseClaim token) = epoch_snapshot token" "\<not> bit (releaseClaim token) 0"
  by (simp_all add: epoch_snapshot_def releaseClaim_def bit_simps)

lemma snapshot_claim [simp]: "epoch_snapshot (token OR 1) = epoch_snapshot token" "bit (token OR 1 :: u32) 0"
  unfolding epoch_snapshot_def by (rule bit_word_eqI) (auto simp: bit_simps)

lemma snapshot_free: "\<not> bit token 0 \<Longrightarrow> epoch_snapshot token = token"
  by (simp add: snapshot_diff)

lemma cancel_low [simp]: "bit (cancelQueuedWork token) 0 = bit token 0"
  by (simp add: cancelQueuedWork_def)

section \<open>What the invariant does not see\<close>

text \<open>The fields the invariant reads.\<close>

definition fence_part where
  "fence_part s = (or_requestActive s, or_pendingRequestId s, or_pendingOp s, or_disconnectPending s,
     or_disconnectQueued s, or_disconnectRequestId s, or_client s, ot_hasRequestQueue s, ot_hasControlQueue s,
     ot_hasResultQueue s, ot_requestQueue s, ot_controlQueue s, ot_resultQueue s, ot_task s, ot_boundClient s,
     ot_token s, ot_dispatch s)"

lemma fence_part_cong: "fence_part s = fence_part t \<Longrightarrow> fence s = fence t"
  by (simp add: fence_part_def fence_defs unclaimed_def carried_def acked_def)

lemma fence_fields [simp]:
  "fence (s\<lparr>or_enabled := x_or_enabled\<rparr>) = fence s"
  "fence (s\<lparr>or_state := x_or_state\<rparr>) = fence s"
  "fence (s\<lparr>or_stateEnteredMs := x_or_stateEnteredMs\<rparr>) = fence s"
  "fence (s\<lparr>or_stateEntryPending := x_or_stateEntryPending\<rparr>) = fence s"
  "fence (s\<lparr>or_lastProxyAdvertising := x_or_lastProxyAdvertising\<rparr>) = fence s"
  "fence (s\<lparr>or_lastProxyClientConnected := x_or_lastProxyClientConnected\<rparr>) = fence s"
  "fence (s\<lparr>or_lastObdRetryAllowed := x_or_lastObdRetryAllowed\<rparr>) = fence s"
  "fence (s\<lparr>or_speedKmh := x_or_speedKmh\<rparr>) = fence s"
  "fence (s\<lparr>or_speedSampleTsMs := x_or_speedSampleTsMs\<rparr>) = fence s"
  "fence (s\<lparr>or_speedValid := x_or_speedValid\<rparr>) = fence s"
  "fence (s\<lparr>or_savedAddress := x_or_savedAddress\<rparr>) = fence s"
  "fence (s\<lparr>or_connectAddress := x_or_connectAddress\<rparr>) = fence s"
  "fence (s\<lparr>or_manualCandidateAddress := x_or_manualCandidateAddress\<rparr>) = fence s"
  "fence (s\<lparr>or_pendingAddress := x_or_pendingAddress\<rparr>) = fence s"
  "fence (s\<lparr>or_minRssi := x_or_minRssi\<rparr>) = fence s"
  "fence (s\<lparr>or_rssi := x_or_rssi\<rparr>) = fence s"
  "fence (s\<lparr>or_pendingRssi := x_or_pendingRssi\<rparr>) = fence s"
  "fence (s\<lparr>or_pendingAddrType := x_or_pendingAddrType\<rparr>) = fence s"
  "fence (s\<lparr>or_savedAddrType := x_or_savedAddrType\<rparr>) = fence s"
  "fence (s\<lparr>or_connectAddrType := x_or_connectAddrType\<rparr>) = fence s"
  "fence (s\<lparr>or_manualCandidateAddrType := x_or_manualCandidateAddrType\<rparr>) = fence s"
  "fence (s\<lparr>or_pendingDeviceFound := x_or_pendingDeviceFound\<rparr>) = fence s"
  "fence (s\<lparr>or_scanRequested := x_or_scanRequested\<rparr>) = fence s"
  "fence (s\<lparr>or_manualScanPending := x_or_manualScanPending\<rparr>) = fence s"
  "fence (s\<lparr>or_manualScanPreemptProxy := x_or_manualScanPreemptProxy\<rparr>) = fence s"
  "fence (s\<lparr>or_manualCandidateValid := x_or_manualCandidateValid\<rparr>) = fence s"
  "fence (s\<lparr>or_connectTargetFromManualCandidate := x_or_connectTargetFromManualCandidate\<rparr>) = fence s"
  "fence (s\<lparr>or_preferWarmReconnect := x_or_preferWarmReconnect\<rparr>) = fence s"
  "fence (s\<lparr>or_warmInitPreferred := x_or_warmInitPreferred\<rparr>) = fence s"
  "fence (s\<lparr>or_coldInitFallbackUsed := x_or_coldInitFallbackUsed\<rparr>) = fence s"
  "fence (s\<lparr>or_preferWriteWithResponse := x_or_preferWriteWithResponse\<rparr>) = fence s"
  "fence (s\<lparr>or_connectAttempts := x_or_connectAttempts\<rparr>) = fence s"
  "fence (s\<lparr>or_connectSuccesses := x_or_connectSuccesses\<rparr>) = fence s"
  "fence (s\<lparr>or_connectFailures := x_or_connectFailures\<rparr>) = fence s"
  "fence (s\<lparr>or_pollCount := x_or_pollCount\<rparr>) = fence s"
  "fence (s\<lparr>or_pollErrors := x_or_pollErrors\<rparr>) = fence s"
  "fence (s\<lparr>or_staleSpeedCount := x_or_staleSpeedCount\<rparr>) = fence s"
  "fence (s\<lparr>or_consecutiveErrors := x_or_consecutiveErrors\<rparr>) = fence s"
  "fence (s\<lparr>or_backoffCycles := x_or_backoffCycles\<rparr>) = fence s"
  "fence (s\<lparr>or_v1WasConnectedAtEcuIdle := x_or_v1WasConnectedAtEcuIdle\<rparr>) = fence s"
  "fence (s\<lparr>or_totalBytesReceived := x_or_totalBytesReceived\<rparr>) = fence s"
  "fence (s\<lparr>or_lastRssiMs := x_or_lastRssiMs\<rparr>) = fence s"
  "fence (s\<lparr>or_bufferOverflowCount := x_or_bufferOverflowCount\<rparr>) = fence s"
  "fence (s\<lparr>or_initRetries := x_or_initRetries\<rparr>) = fence s"
  "fence (s\<lparr>or_securityRepairs := x_or_securityRepairs\<rparr>) = fence s"
  "fence (s\<lparr>or_lastConnectStartMs := x_or_lastConnectStartMs\<rparr>) = fence s"
  "fence (s\<lparr>or_lastConnectSuccessMs := x_or_lastConnectSuccessMs\<rparr>) = fence s"
  "fence (s\<lparr>or_lastFailureMs := x_or_lastFailureMs\<rparr>) = fence s"
  "fence (s\<lparr>or_lastFailure := x_or_lastFailure\<rparr>) = fence s"
  "fence (s\<lparr>or_repairedBondAddress := x_or_repairedBondAddress\<rparr>) = fence s"
  "fence (s\<lparr>or_nextSpeedDueMs := x_or_nextSpeedDueMs\<rparr>) = fence s"
  "fence (s\<lparr>or_initIndex := x_or_initIndex\<rparr>) = fence s"
  "fence (s\<lparr>or_activeCommand := x_or_activeCommand\<rparr>) = fence s"
  "fence (s\<lparr>or_nextRequestId := x_or_nextRequestId\<rparr>) = fence s"
  "fence (s\<lparr>or_pendingIssuedMs := x_or_pendingIssuedMs\<rparr>) = fence s"
  "fence (s\<lparr>or_pendingTimeoutMs := x_or_pendingTimeoutMs\<rparr>) = fence s"
  "fence (s\<lparr>or_pendingTimedOut := x_or_pendingTimedOut\<rparr>) = fence s"
  "fence (s\<lparr>or_readyResult := x_or_readyResult\<rparr>) = fence s"
  "fence (s\<lparr>or_disconnectDeleteBond := x_or_disconnectDeleteBond\<rparr>) = fence s"
  "fence (s\<lparr>or_followupDeleteBond := x_or_followupDeleteBond\<rparr>) = fence s"
  "fence (s\<lparr>or_lastDisconnectSucceeded := x_or_lastDisconnectSucceeded\<rparr>) = fence s"
  "fence (s\<lparr>or_disconnectAddress := x_or_disconnectAddress\<rparr>) = fence s"
  "fence (s\<lparr>or_disconnectAddrType := x_or_disconnectAddrType\<rparr>) = fence s"
  "fence (s\<lparr>or_bleBuf := x_or_bleBuf\<rparr>) = fence s"
  "fence (s\<lparr>or_bleDataReady := x_or_bleDataReady\<rparr>) = fence s"
  "fence (s\<lparr>or_bleResponseReceivedMs := x_or_bleResponseReceivedMs\<rparr>) = fence s"
  "fence (s\<lparr>or_bleDisconnected := x_or_bleDisconnected\<rparr>) = fence s"
  "fence (s\<lparr>or_bleDisconnectReason := x_or_bleDisconnectReason\<rparr>) = fence s"
  "fence (s\<lparr>or_bleOverflowed := x_or_bleOverflowed\<rparr>) = fence s"
  "fence (s\<lparr>or_eventQueue := x_or_eventQueue\<rparr>) = fence s"
  by (rule fence_part_cong, simp add: fence_part_def)+

lemma fence_resets [simp]:
  "fence (clearBleResponseState s) = fence s"
  "fence (clearSpeedState s) = fence s"
  "fence (resetPollingSchedule now s) = fence s"
  "fence (resetCommandState s) = fence s"
  "fence (clearBleEventQueue s) = fence s"
  "fence (drop_result s) = fence s"
  "fence (drop_found s) = fence s"
  "fence (setMinRssi m s) = fence s"
  "fence (markFailure f now s) = fence s"
  "fence (note_written r s) = fence s"
  by (simp_all add: clearBleResponseState_def clearSpeedState_def resetPollingSchedule_def resetCommandState_def clearBleEventQueue_def
    drop_result_def drop_found_def setMinRssi_def markFailure_def note_written_def)

lemma fence_targets [simp]:
  "fence (setSavedAddressFromBuffer t s) = fence s"
  "fence (setConnectTarget t k b s) = fence s"
  "fence (clearConnectTarget s) = fence s"
  by (simp_all add: setSavedAddressFromBuffer_def setConnectTarget_def clearConnectTarget_def)

lemma fence_manual [simp]:
  "fence (setConnectTargetFromSaved s) = fence s"
  "fence (clearManualScanState s) = fence s"
  "fence (completeActiveCommand s) = fence s"
  "fence (resetInitState b s) = fence s"
  "fence (spend_retry b s) = fence s"
  by (simp_all add: setConnectTargetFromSaved_def clearManualScanState_def completeActiveCommand_def resetInitState_def spend_retry_def Let_def)

lemma fence_commit [simp]:
  "fence (commitManualScanCandidate s) = fence s"
  "fence (enqueueBleEvent e s) = fence s"
  "fence (expire_speed now s) = fence s"
  by (simp_all add: commitManualScanCandidate_def enqueueBleEvent_def expire_speed_def Let_def)

lemma fence_transition [simp]:
  "fence (transitionTo q now s) = fence s"
  by (simp_all add: transitionTo_def)

lemma fence_event [simp]: "fence (applyBleEvent e s) = fence s"
  by (cases e) (simp_all add: Let_def)

lemma fence_drain [simp]: "fence (drainBleEventQueue s) = fence s"
proof -
  have "fence (fold applyBleEvent es s) = fence s" for es s by (induction es arbitrary: s) simp_all
  then show ?thesis by (simp add: drainBleEventQueue_def)
qed

lemma fence_take [simp]: "fence (snd (takeTransportResult op s)) = fence s"
  by (simp add: takeTransportResult_def)

lemma fence_speed_response [simp]: "fence (snd (handleSpeedResponse now s)) = fence s"
  by (simp add: handleSpeedResponse_def Let_def split: option.split)

section \<open>The main loop's side\<close>

lemma fence_clear: "fence s \<Longrightarrow> fence (clearTransportRequest s)"
proof -
  have "resources_ok s \<Longrightarrow> resources_ok (clearTransportRequest s)"
    by (simp add: clearTransportRequest_def resources_ok_def)
  moreover have "epochs_ok (clearTransportRequest s) = epochs_ok s"
    by (simp add: clearTransportRequest_def epochs_ok_def unclaimed_def)
  moreover have "disconnect_ok (clearTransportRequest s) = disconnect_ok s"
    by (simp add: clearTransportRequest_def disconnect_ok_def acked_def)
  moreover have "requests_ok s \<Longrightarrow> requests_ok (clearTransportRequest s)"
    by (simp add: clearTransportRequest_def requests_ok_def wanted_def answered_def carried_def)
  ultimately show "fence s \<Longrightarrow> ?thesis" by (simp add: fence_def)
qed

text \<open>A running transport needs nothing; a new one starts from nothing.\<close>

lemma ensure_running:
  assumes "fence s" "ot_task s \<noteq> TaskNone"
  shows "ensureObdTransportRuntime a s = (True, s)"
proof -
  have "ot_hasRequestQueue s" "ot_hasControlQueue s" "ot_hasResultQueue s" "ot_boundClient s = or_client s" "or_client s \<noteq> None"
    using assms by (simp_all add: fence_def resources_ok_def)
  with assms(2) show ?thesis by (simp add: ensureObdTransportRuntime_def obdTransportBindingAccepted_def)
qed

lemma nothing_yet:
  assumes "fence s" "ot_task s = TaskNone"
  shows "ot_requestQueue s = None" "ot_controlQueue s = None" "ot_resultQueue s = None"
    "\<not> dc_active (ot_dispatch s)" "\<not> or_requestActive s" "\<not> bit (ot_token s) 0" "\<not> or_disconnectQueued s"
  using assms by (simp_all add: fence_def resources_ok_def epochs_ok_def disconnect_ok_def acked_def)

lemma fence_new:
  assumes "fence s" "ot_task s = TaskNone"
  shows "fence (s\<lparr>ot_hasRequestQueue := b1\<rparr>)" "fence (s\<lparr>ot_hasControlQueue := b2\<rparr>)"
    "fence (s\<lparr>ot_hasResultQueue := b3\<rparr>)" "fence (s\<lparr>ot_boundClient := c\<rparr>)"
  using assms by (simp_all add: fence_defs unclaimed_def carried_def acked_def)

lemma fence_task:
  assumes f: "fence s" and n: "ot_task s = TaskNone"
    and q: "ot_hasRequestQueue s" "ot_hasControlQueue s" "ot_hasResultQueue s" "ot_boundClient s = or_client s" "or_client s \<noteq> None"
  shows "fence (s\<lparr>ot_task := TaskLoop\<rparr>)"
proof -
  note none = nothing_yet [OF f n]
  have "resources_ok (s\<lparr>ot_task := TaskLoop\<rparr>)" using q by (simp add: resources_ok_def)
  moreover have "epochs_ok (s\<lparr>ot_task := TaskLoop\<rparr>)" using none by (simp add: epochs_ok_def unclaimed_def)
  moreover have "disconnect_ok (s\<lparr>ot_task := TaskLoop\<rparr>)" using none by (simp add: disconnect_ok_def acked_def)
  moreover have "requests_ok (s\<lparr>ot_task := TaskLoop\<rparr>)" using none by (simp add: requests_ok_def wanted_def answered_def carried_def)
  ultimately show ?thesis by (simp add: fence_def)
qed

lemma fence_ensure:
  assumes f: "fence s"
  shows "fence (snd (ensureObdTransportRuntime a s))"
proof (cases "ot_task s = TaskNone")
  case n: True
  let ?s1 = "s\<lparr>ot_hasRequestQueue := True\<rparr>"
  let ?s2 = "?s1\<lparr>ot_hasControlQueue := True\<rparr>"
  let ?s3 = "?s2\<lparr>ot_hasResultQueue := True\<rparr>"
  let ?s4 = "?s3\<lparr>ot_boundClient := or_client s\<rparr>"
  have f1: "fence ?s1" by (rule fence_new [OF f n])
  have f2: "fence ?s2" by (rule fence_new [OF f1]) (simp add: n)
  have f3: "fence ?s3" by (rule fence_new [OF f2]) (simp add: n)
  have f4: "fence ?s4" by (rule fence_new [OF f3]) (simp add: n)
  have f5: "fence (?s4\<lparr>ot_task := TaskLoop\<rparr>)" if "or_client s \<noteq> None"
    by (rule fence_task [OF f4]) (simp_all add: n that)
  have "ensureObdTransportRuntime a s =
     (if or_client s = None then (False, s)
      else if \<not> ot_hasRequestQueue s \<and> \<not> oa_requestQueue a then (False, s)
      else if \<not> ot_hasControlQueue s \<and> \<not> oa_controlQueue a then (False, ?s1)
      else if \<not> ot_hasResultQueue s \<and> \<not> oa_resultQueue a then (False, ?s2)
      else if oa_task a then (True, ?s4\<lparr>ot_task := TaskLoop\<rparr>) else (False, ?s4))"
    by (simp add: ensureObdTransportRuntime_def obdTransportBindingAccepted_def Let_def n)
  with f f1 f2 f4 f5 show ?thesis by simp
qed (simp add: ensure_running f)

lemma ensure_ready:
  "fst (ensureObdTransportRuntime a s) \<Longrightarrow> fence s \<Longrightarrow> ot_task (snd (ensureObdTransportRuntime a s)) \<noteq> TaskNone"
  by (cases "ot_task s = TaskNone") (auto simp: ensure_running ensureObdTransportRuntime_def Let_def split: if_splits)

lemma ensure_keeps [simp]:
  "or_disconnectPending (snd (ensureObdTransportRuntime a s)) = or_disconnectPending s"
  "or_disconnectQueued (snd (ensureObdTransportRuntime a s)) = or_disconnectQueued s"
  "or_requestActive (snd (ensureObdTransportRuntime a s)) = or_requestActive s"
  "or_disconnectRequestId (snd (ensureObdTransportRuntime a s)) = or_disconnectRequestId s"
  "or_nextRequestId (snd (ensureObdTransportRuntime a s)) = or_nextRequestId s"
  "ot_requestQueue (snd (ensureObdTransportRuntime a s)) = ot_requestQueue s"
  "ot_controlQueue (snd (ensureObdTransportRuntime a s)) = ot_controlQueue s"
  "ot_resultQueue (snd (ensureObdTransportRuntime a s)) = ot_resultQueue s"
  "ot_dispatch (snd (ensureObdTransportRuntime a s)) = ot_dispatch s"
  "ot_token (snd (ensureObdTransportRuntime a s)) = ot_token s"
  by (simp_all add: ensureObdTransportRuntime_def Let_def)


lemma idle_disconnect:
  assumes "fence s" "\<not> or_disconnectQueued s"
  shows "ot_controlQueue s = None" "\<not> dc_active (ot_dispatch s)" "\<not> acked s"
  using assms by (simp_all add: fence_def disconnect_ok_def)

lemma queued_pending: "fence s \<Longrightarrow> or_disconnectQueued s \<Longrightarrow> or_disconnectPending s"
  by (simp add: fence_def disconnect_ok_def)

lemma fence_put:
  assumes f: "fence s" and p: "or_disconnectPending s" "\<not> or_disconnectQueued s" "ot_task s \<noteq> TaskNone"
    and c: "tq_requestId c = or_disconnectRequestId s"
  shows "fence (s\<lparr>ot_controlQueue := Some c, or_disconnectQueued := True\<rparr>)" (is "fence ?s")
proof -
  have "resources_ok ?s" using f p by (simp add: fence_def resources_ok_def)
  moreover have "epochs_ok ?s" using f by (simp add: fence_def epochs_ok_def unclaimed_def)
  moreover have "disconnect_ok ?s"
    using idle_disconnect [OF f p(2)] p(1) c by (auto simp: disconnect_ok_def acked_def)
  moreover have "requests_ok ?s" using f by (simp add: fence_def requests_ok_def wanted_def answered_def carried_def)
  ultimately show ?thesis by (simp add: fence_def)
qed

lemma fence_queue: "fence s \<Longrightarrow> fence (snd (queuePendingTransportDisconnect a s))"
proof (cases "\<not> or_disconnectPending s \<or> or_disconnectQueued s")
  case False
  assume f: "fence s"
  obtain ok v where e: "ensureObdTransportRuntime a s = (ok, v)" by fastforce
  have v: "fence v" "or_disconnectPending v" "\<not> or_disconnectQueued v" "ok \<Longrightarrow> ot_task v \<noteq> TaskNone"
    using fence_ensure [OF f, of a] ensure_keeps(1,2) [of a s] ensure_ready [of a s] f False e by auto
  have "fence (v\<lparr>ot_controlQueue := Some c, or_disconnectQueued := True\<rparr>)"
    if "ok" "tq_requestId c = or_disconnectRequestId v" for c
    using fence_put [OF v(1-3)] v(4) that by simp
  with v(1) False show ?thesis by (simp add: queuePendingTransportDisconnect_def e)
qed (simp add: queuePendingTransportDisconnect_def)

lemma fence_cancel:
  assumes f: "fence s" and p: "\<not> or_disconnectPending s" "\<not> or_requestActive s"
  shows "fence (s\<lparr>ot_token := cancelQueuedWork (ot_token s), or_disconnectPending := True,
    or_disconnectQueued := False, or_disconnectRequestId := n\<rparr>)" (is "fence ?s")
proof -
  have q: "\<not> or_disconnectQueued s" using f p by (auto simp: fence_def disconnect_ok_def)
  have "resources_ok ?s" using f p by (simp add: fence_def resources_ok_def)
  moreover have "epochs_ok ?s" using f p by (simp add: fence_def epochs_ok_def unclaimed_def)
  moreover have "disconnect_ok ?s" using idle_disconnect [OF f q] by (auto simp: disconnect_ok_def acked_def)
  moreover have "requests_ok ?s" using f p by (simp add: fence_def requests_ok_def wanted_def answered_def carried_def)
  ultimately show ?thesis by (simp add: fence_def)
qed

lemma fence_disconnect: "fence s \<Longrightarrow> fence (snd (disconnectBle a b s))"
proof -
  assume "fence s"
  define v where "v = drop_result (clearTransportRequest s)"
  have v: "fence v" "\<not> or_requestActive v"
    using fence_clear [OF \<open>fence s\<close>] by (simp_all add: v_def) (simp add: drop_result_def clearTransportRequest_def)
  have "fence (v\<lparr>ot_token := cancelQueuedWork (ot_token v), or_disconnectPending := True, or_disconnectQueued := False,
      or_disconnectDeleteBond := x1, or_followupDeleteBond := x2, or_lastDisconnectSucceeded := x3, or_nextRequestId := n,
      or_disconnectRequestId := m, or_disconnectAddress := x4, or_disconnectAddrType := x5\<rparr>)"
    if "\<not> or_disconnectPending v" for n m x1 x2 x3 x4 x5
    using fence_cancel [OF v(1) that v(2), of m] by (rule fence_part_cong [THEN iffD1, rotated]) (simp add: fence_part_def)
  then show ?thesis
    using v(1) by (simp add: disconnectBle_def Let_def v_def [symmetric] fence_queue)
qed


text \<open>Results: the acknowledgement is consumed, or an operation's result.\<close>

lemma fence_consume:
  assumes f: "fence s" and r: "ot_resultQueue s = Some r" "tr_op r = OpDisconnect"
  shows "fence (s\<lparr>ot_resultQueue := None, or_disconnectQueued := False\<rparr>)" (is "fence ?s")
proof -
  have a: "acked s" using r by (simp add: acked_def)
  have q: "or_disconnectQueued s" "ot_controlQueue s = None" "\<not> dc_active (ot_dispatch s)"
    using f a by (auto simp: fence_def disconnect_ok_def)
  have p: "\<not> or_requestActive s" using queued_pending [OF f q(1)] f by (auto simp: fence_def requests_ok_def)
  have "resources_ok ?s" using f by (simp add: fence_def resources_ok_def)
  moreover have "epochs_ok ?s" using f by (simp add: fence_def epochs_ok_def unclaimed_def)
  moreover have "disconnect_ok ?s" using q by (simp add: disconnect_ok_def acked_def)
  moreover have "requests_ok ?s" using f p by (simp add: fence_def requests_ok_def wanted_def answered_def carried_def)
  ultimately show ?thesis by (simp add: fence_def)
qed

lemma ack_shape:
  assumes f: "fence s" and r: "ot_resultQueue s = Some r" "tr_op r = OpDisconnect"
  shows "or_disconnectPending s" "tr_requestId r = or_disconnectRequestId s" "unclaimed s = {}"
proof -
  have "acked s" using r by (simp add: acked_def)
  then show "or_disconnectPending s" using f queued_pending by (auto simp: fence_def disconnect_ok_def)
  have "\<forall>r. ot_resultQueue s = Some r \<and> tr_op r = OpDisconnect \<longrightarrow> tr_requestId r = or_disconnectRequestId s \<and>
      ot_requestQueue s = None \<and> (ot_task s = TaskLoop \<or> ot_task s = TaskWaiting)"
    using f unfolding fence_def disconnect_ok_def by blast
  with r show "tr_requestId r = or_disconnectRequestId s" "unclaimed s = {}" by (auto simp: unclaimed_def)
qed

lemma fence_open:
  assumes f: "fence s" and p: "\<not> or_disconnectQueued s" "unclaimed s = {}" "\<not> or_requestActive s"
  shows "fence (s\<lparr>or_disconnectPending := False, or_disconnectRequestId := n\<rparr>)" (is "fence ?s")
proof -
  have "resources_ok ?s" using f by (simp add: fence_def resources_ok_def)
  moreover have "unclaimed ?s = unclaimed s" by (simp add: unclaimed_def)
  with p(2) have "epochs_ok ?s" using f by (simp add: fence_def epochs_ok_def)
  moreover have "disconnect_ok ?s" using idle_disconnect [OF f p(1)] p(1) by (auto simp: disconnect_ok_def acked_def)
  moreover have "requests_ok ?s" using f p by (simp add: fence_def requests_ok_def wanted_def answered_def carried_def)
  ultimately show ?thesis by (simp add: fence_def)
qed

lemma fence_id:
  assumes f: "fence s" and q: "\<not> or_disconnectQueued s"
  shows "fence (s\<lparr>or_disconnectRequestId := n\<rparr>)" (is "fence ?s")
proof -
  have "resources_ok ?s" using f by (simp add: fence_def resources_ok_def)
  moreover have "epochs_ok ?s" using f by (simp add: fence_def epochs_ok_def unclaimed_def)
  moreover have "disconnect_ok ?s" using idle_disconnect [OF f q] q by (auto simp: disconnect_ok_def acked_def)
  moreover have "requests_ok ?s" using f by (simp add: fence_def requests_ok_def wanted_def answered_def carried_def)
  ultimately show ?thesis by (simp add: fence_def)
qed

lemma fence_skip:
  assumes f: "fence s" and r: "ot_resultQueue s = Some r" "tr_op r \<noteq> OpDisconnect"
    "\<not> or_requestActive s \<or> tr_requestId r \<noteq> or_pendingRequestId s"
  shows "fence (s\<lparr>ot_resultQueue := None\<rparr>)" (is "fence ?s")
proof -
  have "resources_ok ?s" using f by (simp add: fence_def resources_ok_def)
  moreover have "epochs_ok ?s" using f by (simp add: fence_def epochs_ok_def unclaimed_def)
  moreover have "disconnect_ok ?s" using f r by (simp add: fence_def disconnect_ok_def acked_def)
  moreover have "requests_ok ?s" using f r by (auto simp: fence_def requests_ok_def wanted_def answered_def carried_def)
  ultimately show ?thesis by (simp add: fence_def)
qed

lemma fence_acknowledged:
  assumes f: "fence s" and r: "ot_resultQueue s = Some r" "tr_op r = OpDisconnect"
  shows "fence (disconnect_acknowledged a r (s\<lparr>ot_resultQueue := None\<rparr>))"
proof -
  define v where "v = s\<lparr>ot_resultQueue := None, or_disconnectQueued := False\<rparr>"
  have v: "fence v" "\<not> or_disconnectQueued v" "unclaimed v = {}" "\<not> or_requestActive v"
    using fence_consume [OF f r] ack_shape [OF f r] f
    by (auto simp: v_def unclaimed_def fence_def requests_ok_def)
  have l: "fence (v\<lparr>or_lastDisconnectSucceeded := b\<rparr>)" for b using v(1) by simp
  have o: "fence (v\<lparr>or_disconnectPending := False, or_disconnectRequestId := 0\<rparr>)" using fence_open [OF v] .
  have i: "fence (v\<lparr>or_disconnectRequestId := n\<rparr>)" for n using fence_id [OF v(1,2)] .
  have o': "fence (v\<lparr>or_lastDisconnectSucceeded := x1, or_disconnectPending := False, or_disconnectDeleteBond := x2,
      or_disconnectRequestId := 0, or_disconnectAddress := x3, or_disconnectAddrType := x4\<rparr>)" for x1 x2 x3 x4
    using o by (rule fence_part_cong [THEN iffD1, rotated]) (simp add: fence_part_def)
  have i': "fence (v\<lparr>or_lastDisconnectSucceeded := x5, or_followupDeleteBond := x1, or_disconnectDeleteBond := x2,
      or_nextRequestId := x3, or_disconnectRequestId := n, or_lastDisconnectSucceeded := x4\<rparr>)" for x1 x2 x3 x4 x5 n
    using i [of n] by (rule fence_part_cong [THEN iffD1, rotated]) (simp add: fence_part_def)
  have w: "s\<lparr>ot_resultQueue := None, or_disconnectQueued := False, or_lastDisconnectSucceeded := b\<rparr> =
      v\<lparr>or_lastDisconnectSucceeded := b\<rparr>" for b by (simp add: v_def)
  show ?thesis unfolding disconnect_acknowledged_def Let_def w
    using l o' i' fence_queue by simp
qed

lemma fence_pump: "fence s \<Longrightarrow> fence (pumpTransportResults a s)"
proof -
  assume f: "fence s"
  define v where "v = (if or_disconnectPending s \<and> \<not> or_disconnectQueued s
     then snd (queuePendingTransportDisconnect a s) else s)"
  have v: "fence v" using fence_queue [OF f] f by (simp add: v_def)
  have "fence (receive_result a r (v\<lparr>ot_resultQueue := None\<rparr>))" if r: "ot_resultQueue v = Some r" for r
  proof (cases "tr_op r = OpDisconnect")
    case True
    have "fence (v\<lparr>ot_resultQueue := None\<rparr>)" if "\<not> (or_disconnectPending v \<and> tr_requestId r = or_disconnectRequestId v)"
      using ack_shape [OF v r True] that by simp
    with fence_acknowledged [OF v r True] True show ?thesis by (auto simp: receive_result_def)
  next
    case op: False
    show ?thesis
    proof (cases "or_requestActive v \<and> tr_requestId r = or_pendingRequestId v")
      case True
      have "fence ((clearTransportRequest v)\<lparr>ot_resultQueue := None\<rparr>)"
        by (rule fence_skip [OF fence_clear [OF v], of r]) (simp_all add: clearTransportRequest_def r op)
      then have "fence (clearTransportRequest (v\<lparr>ot_resultQueue := None, or_readyResult := x\<rparr>))" for x
        by (rule fence_part_cong [THEN iffD1, rotated]) (simp add: fence_part_def clearTransportRequest_def)
      with True op show ?thesis by (simp add: receive_result_def)
    next
      case other: False
      with fence_skip [OF v r op] op show ?thesis by (auto simp: receive_result_def)
    qed
  qed
  with v show ?thesis by (simp add: pumpTransportResults_def Let_def v_def [symmetric] split: option.split)
qed


text \<open>A request goes out only through an open fence.\<close>

lemma fence_request:
  assumes f: "fence s" and p: "\<not> or_disconnectPending s" "ot_task s \<noteq> TaskNone"
    and r: "ot_requestQueue s = None" "tq_dispatchEpoch r = epoch_snapshot (ot_token s)" "tq_op r \<noteq> OpDisconnect"
  shows "fence (s\<lparr>ot_requestQueue := Some r, or_requestActive := True, or_pendingOp := tq_op r,
    or_pendingRequestId := tq_requestId r\<rparr>)" (is "fence ?s")
proof -
  have q: "\<not> or_disconnectQueued s" using queued_pending [OF f] p by blast
  have "resources_ok ?s" using f p by (simp add: fence_def resources_ok_def)
  moreover have "epochs_ok ?s" using f p r by (auto simp: fence_def epochs_ok_def unclaimed_def)
  moreover have "disconnect_ok ?s" using idle_disconnect [OF f q] q by (auto simp: disconnect_ok_def acked_def)
  moreover have "requests_ok ?s" using f p r by (auto simp: fence_def requests_ok_def wanted_def answered_def carried_def)
  ultimately show ?thesis by (simp add: fence_def)
qed

lemma fence_begin:
  assumes f: "fence s" and op: "op \<noteq> OpDisconnect"
  shows "fence (snd (beginTransportRequest a op now timeoutMs cmd withResponse preferCached s))"
proof -
  define v where "v = pumpTransportResults a s"
  obtain ok w where e: "ensureObdTransportRuntime a (drop_result v) = (ok, w)" by fastforce
  have v: "fence (drop_result v)" using fence_pump [OF f] by (simp add: v_def)
  have w: "fence w" using fence_ensure [OF v, of a] e by simp
  have t: "ot_task w \<noteq> TaskNone" if ok using ensure_ready [of a "drop_result v"] v e that by simp
  have p: "or_disconnectPending w = or_disconnectPending v"
    using ensure_keeps(1) [of a "drop_result v"] unfolding e by (simp add: drop_result_def)
  have r: "fence (w\<lparr>or_nextRequestId := n, ot_requestQueue := Some r, or_requestActive := True, or_pendingOp := op,
      or_pendingRequestId := i, or_pendingIssuedMs := now, or_pendingTimeoutMs := timeoutMs, or_pendingTimedOut := False\<rparr>)"
    if "ok" "\<not> or_disconnectPending v" "ot_requestQueue w = None" "tq_op r = op" "tq_requestId r = i"
      "tq_dispatchEpoch r = epoch_snapshot (ot_token w)" for r n i
  proof -
    have "fence (w\<lparr>ot_requestQueue := Some r, or_requestActive := True, or_pendingOp := op,
        or_pendingRequestId := i\<rparr>)" using fence_request [OF w, of r] t p that op by simp
    then show ?thesis by (rule fence_part_cong [THEN iffD1, rotated]) (simp add: fence_part_def)
  qed
  have n: "fence (w\<lparr>or_nextRequestId := n\<rparr>)" for n using w by simp
  have "fence v" using fence_pump [OF f] by (simp add: v_def)
  then show ?thesis
    unfolding beginTransportRequest_def Let_def v_def [symmetric] e using w n r by (simp del: fence_fields)
qed

section \<open>The task's side\<close>

lemma fence_publish:
  assumes f: "fence s" and t: "ot_task s = TaskWorking r"
  shows "fence ((s\<lparr>ot_token := releaseClaim (ot_token s), ot_task := TaskLoop\<rparr>)\<lparr>ot_resultQueue := Some (op_result x r)\<rparr>)"
    (is "fence ?s")
proof -
  have a: "\<not> acked s" "\<not> dc_active (ot_dispatch s)"
    using f t by (auto simp: fence_def disconnect_ok_def acked_def)
  have r: "r \<in> carried s" "tq_op r \<noteq> OpDisconnect"
    using f t by (auto simp: fence_def requests_ok_def wanted_def answered_def carried_def)
  have "tr_op (op_result x r) = tq_op r" "tr_requestId (op_result x r) = tq_requestId r" "tr_ready (op_result x r)"
    by (simp_all add: op_result_def)
  note o = this
  have "resources_ok ?s" using f t by (simp add: fence_def resources_ok_def)
  moreover have "epochs_ok ?s" using f t by (simp add: fence_def epochs_ok_def unclaimed_def)
  moreover have "disconnect_ok ?s" using f t r a o by (auto simp: fence_def disconnect_ok_def acked_def)
  moreover have "requests_ok ?s" using f t r o a by (auto simp: fence_def requests_ok_def wanted_def answered_def carried_def acked_def)
  ultimately show ?thesis by (simp add: fence_def)
qed


text \<open>The dispatcher takes the disconnect over, pursues it and acknowledges it.\<close>

lemma fence_dispatch:
  assumes f: "fence s" and d: "dc_active (ot_dispatch s)" "dc_active d" "dc_request d = dc_request (ot_dispatch s)"
    "dc_settledPasses d \<le> 1"
  shows "fence (s\<lparr>ot_dispatch := d\<rparr>)" (is "fence ?s")
proof -
  have "resources_ok ?s" using f d by (auto simp: fence_def resources_ok_def)
  moreover have "epochs_ok ?s" using f by (simp add: fence_def epochs_ok_def unclaimed_def)
  moreover have "disconnect_ok ?s" using f d by (simp add: fence_def disconnect_ok_def acked_def)
  moreover have "requests_ok ?s" using f by (simp add: fence_def requests_ok_def wanted_def answered_def carried_def)
  ultimately show ?thesis by (simp add: fence_def)
qed

lemma active_shape:
  assumes "fence s" "dc_active (ot_dispatch s)"
  shows "or_disconnectQueued s" "or_disconnectPending s" "ot_task s = TaskLoop" "ot_requestQueue s = None"
    "tq_requestId (dc_request (ot_dispatch s)) = or_disconnectRequestId s" "dc_settledPasses (ot_dispatch s) \<le> 1"
    "\<not> acked s" "ot_controlQueue s = None" "ot_hasResultQueue s" "\<not> or_requestActive s"
  using assms by (auto simp: fence_def disconnect_ok_def resources_ok_def requests_ok_def)

lemma fence_acknowledge:
  assumes f: "fence s" and d: "dc_active (ot_dispatch s)" "dc_request d = dc_request (ot_dispatch s)"
  shows "fence (acknowledge t ok late (s\<lparr>ot_dispatch := d\<rparr>))" (is "fence ?s")
proof -
  note a = active_shape [OF f d(1)]
  have "ot_dispatch ?s = dispatch_reset d" "ot_resultQueue ?s \<noteq> None"
    "\<forall>r. ot_resultQueue ?s = Some r \<longrightarrow> tr_op r = OpDisconnect \<and> tr_requestId r = or_disconnectRequestId s"
    using a d by (simp_all add: acknowledge_def publishObdTransportResult_def Let_def)
  moreover have "resources_ok ?s"
    using f a by (simp add: fence_def resources_ok_def acknowledge_def publishObdTransportResult_def Let_def)
  moreover have "epochs_ok ?s"
    using f a by (simp add: fence_def epochs_ok_def unclaimed_def acknowledge_def publishObdTransportResult_def Let_def)
  moreover have "disconnect_ok ?s"
    using a d by (simp add: disconnect_ok_def acked_def acknowledge_def publishObdTransportResult_def dispatch_reset_def Let_def)
  moreover have "requests_ok ?s"
    using f a by (simp add: fence_def requests_ok_def carried_def acknowledge_def publishObdTransportResult_def Let_def)
  ultimately show ?thesis by (simp add: fence_def)
qed

lemma settled_next: "(n :: u8) \<le> 1 \<Longrightarrow> n + 1 < 2 \<Longrightarrow> n + 1 \<le> 1"
  by (simp add: word_less_nat_alt word_le_nat_alt unat_word_ariths)

lemma fence_pass:
  assumes f: "fence s" and d: "dc_active (ot_dispatch s)"
  shows "fence (dispatch_pass t s)"
  using active_shape(6) [OF f d] settled_next [of "dc_settledPasses (ot_dispatch s)"]
  by (simp add: dispatch_pass_def Let_def fence_dispatch [OF f d] fence_acknowledge [OF f d] d)

lemma fence_accept:
  assumes f: "fence s" and c: "ot_controlQueue s = Some c" and t: "ot_task s = TaskLoop \<or> ot_task s = TaskReceived r"
  shows "fence ((dispatch_accept x c s)\<lparr>ot_task := TaskLoop\<rparr>)" (is "fence ?s")
proof -
  have q: "or_disconnectQueued s" "tq_requestId c = or_disconnectRequestId s" "\<not> acked s"
    using f c by (auto simp: fence_def disconnect_ok_def)
  note p = queued_pending [OF f q(1)]
  have "resources_ok ?s" using f t by (auto simp: fence_def resources_ok_def dispatch_accept_def)
  moreover have "epochs_ok ?s" using f t by (auto simp: fence_def epochs_ok_def unclaimed_def dispatch_accept_def)
  moreover have "disconnect_ok ?s" using q p by (auto simp: disconnect_ok_def acked_def dispatch_accept_def)
  moreover have "requests_ok ?s"
    using f p by (auto simp: fence_def requests_ok_def carried_def dispatch_accept_def)
  ultimately show ?thesis by (simp add: fence_def)
qed

lemma pass_task: "fence ((dispatch_pass t s)\<lparr>ot_task := k\<rparr>) = fence (dispatch_pass t (s\<lparr>ot_task := k\<rparr>))"
  by (rule fence_part_cong)
    (simp add: fence_part_def dispatch_pass_def acknowledge_def publishObdTransportResult_def Let_def)

text \<open>Between its accesses the task only moves on.\<close>

lemma fence_move:
  assumes f: "fence s" and d: "\<not> dc_active (ot_dispatch s)" "k \<noteq> TaskNone" "ot_task s \<noteq> TaskNone"
    and h: "held k = held (ot_task s)" "\<not> working k" "\<not> working (ot_task s)"
    and a: "acked s \<Longrightarrow> k = TaskLoop \<or> k = TaskWaiting"
  shows "fence (s\<lparr>ot_task := k\<rparr>)" (is "fence ?s")
proof -
  have "resources_ok ?s" using f d by (simp add: fence_def resources_ok_def)
  moreover have "epochs_ok ?s" using f h by (simp add: fence_def epochs_ok_def unclaimed_def)
  moreover have "disconnect_ok ?s" using f d a by (auto simp: fence_def disconnect_ok_def acked_def)
  moreover have "requests_ok ?s" using f h by (simp add: fence_def requests_ok_def wanted_def answered_def carried_def)
  ultimately show ?thesis by (simp add: fence_def)
qed


lemma not_loop:
  assumes f: "fence s" and t: "ot_task s \<noteq> TaskLoop"
  shows "\<not> dc_active (ot_dispatch s)"
  using assms by (auto simp: fence_def disconnect_ok_def)

lemma not_acked:
  assumes f: "fence s" and t: "ot_requestQueue s \<noteq> None \<or> ot_task s \<noteq> TaskLoop \<and> ot_task s \<noteq> TaskWaiting"
  shows "\<not> acked s"
  using assms by (auto simp: fence_def disconnect_ok_def acked_def)

lemma fence_receive:
  assumes f: "fence s" and t: "ot_task s = TaskWaiting" and r: "ot_requestQueue s = Some r"
  shows "fence (s\<lparr>ot_requestQueue := None, ot_task := TaskReceived r\<rparr>)" (is "fence ?s")
proof -
  have a: "\<not> acked s" "\<not> dc_active (ot_dispatch s)" using not_acked [OF f] not_loop [OF f] t r by simp_all
  have "resources_ok ?s" using f t by (simp add: fence_def resources_ok_def)
  moreover have "epochs_ok ?s" using f t r by (simp add: fence_def epochs_ok_def unclaimed_def)
  moreover have "disconnect_ok ?s" using f a by (auto simp: fence_def disconnect_ok_def acked_def)
  moreover have "requests_ok ?s" using f t r by (auto simp: fence_def requests_ok_def wanted_def answered_def carried_def)
  ultimately show ?thesis by (simp add: fence_def)
qed

lemma free_token: "fence s \<Longrightarrow> \<not> working (ot_task s) \<Longrightarrow> epoch_snapshot (ot_token s) = ot_token s"
  by (rule snapshot_free) (simp add: fence_def epochs_ok_def)

lemma checked_epoch:
  assumes "fence s" "ot_task s = TaskChecked r"
  shows "tq_dispatchEpoch r = (if or_disconnectPending s then ot_token s - 2 else ot_token s)"
  using assms free_token [of s] by (simp add: fence_def epochs_ok_def unclaimed_def)

lemma claim_open: "fence s \<Longrightarrow> ot_task s = TaskChecked r \<Longrightarrow>
    ot_token s = tq_dispatchEpoch r \<longleftrightarrow> \<not> or_disconnectPending s"
  using checked_epoch [of s r] by (auto simp: eq_diff_eq)

lemma fence_claim:
  assumes f: "fence s" and t: "ot_task s = TaskChecked r" and e: "ot_token s = tq_dispatchEpoch r"
  shows "fence (s\<lparr>ot_token := tq_dispatchEpoch r OR 1, ot_task := TaskWorking r\<rparr>)" (is "fence ?s")
proof -
  have a: "\<not> acked s" "\<not> dc_active (ot_dispatch s)" using not_acked [OF f] not_loop [OF f] t by simp_all
  have p: "\<not> or_disconnectPending s" using claim_open [OF f t] e by blast
  have "resources_ok ?s" using f t by (simp add: fence_def resources_ok_def)
  moreover have "epochs_ok ?s"
    using f t p e [symmetric] free_token [OF f] by (simp add: fence_def epochs_ok_def unclaimed_def)
  moreover have "disconnect_ok ?s" using f a by (auto simp: fence_def disconnect_ok_def acked_def)
  moreover have "requests_ok ?s" using f t by (simp add: fence_def requests_ok_def wanted_def answered_def carried_def)
  ultimately show ?thesis by (simp add: fence_def)
qed

lemma fence_stale:
  assumes f: "fence s" and t: "ot_task s = TaskChecked r" and e: "ot_token s \<noteq> tq_dispatchEpoch r"
  shows "fence (s\<lparr>ot_task := TaskLoop\<rparr>)" (is "fence ?s")
proof -
  have a: "\<not> acked s" "\<not> dc_active (ot_dispatch s)" using not_acked [OF f] not_loop [OF f] t by simp_all
  have p: "or_disconnectPending s" using claim_open [OF f t] e by blast
  have "resources_ok ?s" using f t by (simp add: fence_def resources_ok_def)
  moreover have "epochs_ok ?s" using f t by (simp add: fence_def epochs_ok_def unclaimed_def)
  moreover have "disconnect_ok ?s" using f a by (auto simp: fence_def disconnect_ok_def acked_def)
  moreover have "requests_ok ?s" using f p by (auto simp: fence_def requests_ok_def carried_def)
  ultimately show ?thesis by (simp add: fence_def)
qed

text \<open>The control check of the task: an active dispatch, a new one, or nothing.\<close>

lemma fence_service:
  assumes f: "fence s" and t: "ot_task s = TaskLoop \<or> ot_task s = TaskReceived r"
  shows "if fst (dispatch_service x s) then fence ((snd (dispatch_service x s))\<lparr>ot_task := TaskLoop\<rparr>)
    else snd (dispatch_service x s) = s \<and> \<not> dc_active (ot_dispatch s)"
proof (cases "dc_active (ot_dispatch s)")
  case True
  then have "ot_task s = TaskLoop" using active_shape(3) [OF f] by simp
  then have "fence (s\<lparr>ot_task := TaskLoop\<rparr>)" using f by (rule_tac fence_part_cong [THEN iffD1, of s]) (simp_all add: fence_part_def)
  with True show ?thesis by (simp add: dispatch_service_def pass_task fence_pass)
next
  case False
  have "fence ((dispatch_pass x (dispatch_accept x c s))\<lparr>ot_task := TaskLoop\<rparr>)" if "ot_controlQueue s = Some c" for c
    using fence_pass [OF fence_accept [OF f that t]] by (simp add: pass_task dispatch_accept_def)
  with False show ?thesis by (simp add: dispatch_service_def split: option.split)
qed

lemma fence_step: "fence s \<Longrightarrow> fence (task_step x s)"
proof (cases "ot_task s")
  case TaskLoop
  assume f: "fence s"
  have k: "fence ((snd (dispatch_service x s))\<lparr>ot_task := TaskLoop\<rparr>) \<Longrightarrow> ot_task (snd (dispatch_service x s)) = TaskLoop \<Longrightarrow>
      fence (snd (dispatch_service x s))"
    by (erule fence_part_cong [THEN iffD1, rotated]) (simp add: fence_part_def)
  have l: "ot_task (snd (dispatch_service x s)) = TaskLoop"
    using TaskLoop by (simp add: dispatch_service_def dispatch_pass_def dispatch_accept_def acknowledge_def
      publishObdTransportResult_def Let_def split: option.split)
  have "fence (s\<lparr>ot_task := TaskWaiting\<rparr>)" if "\<not> dc_active (ot_dispatch s)"
    using fence_move [OF f that, of TaskWaiting] TaskLoop by simp
  then show ?thesis using fence_service [OF f, of undefined x] k l TaskLoop
    by (auto simp: task_step_def split_beta split: if_splits)
next
  case TaskWaiting
  assume f: "fence s"
  show ?thesis
    using fence_receive [OF f TaskWaiting] fence_move [OF f not_loop [OF f], of TaskLoop] TaskWaiting
    by (simp add: task_step_def split: option.split)
next
  case (TaskReceived r)
  assume f: "fence s"
  have "fence (s\<lparr>ot_task := TaskChecked r\<rparr>)" if "\<not> dc_active (ot_dispatch s)"
    using fence_move [OF f that, of "TaskChecked r"] TaskReceived not_acked [OF f] by simp
  then show ?thesis using fence_service [OF f, of r x] TaskReceived
    by (auto simp: task_step_def split_beta split: if_splits)
next
  case (TaskChecked r)
  assume f: "fence s"
  have "fence (s\<lparr>ot_token := ot_token s, ot_task := TaskLoop\<rparr>)" if "ot_token s \<noteq> tq_dispatchEpoch r"
    using fence_stale [OF f TaskChecked that] by simp
  then show ?thesis using fence_claim [OF f TaskChecked] TaskChecked by (simp add: task_step_def tryClaim_def)
next
  case (TaskWorking r)
  assume f: "fence s"
  then have "ot_hasResultQueue s" using TaskWorking by (simp add: fence_def resources_ok_def)
  with fence_publish [OF f TaskWorking] TaskWorking show ?thesis
    by (simp add: task_step_def publishObdTransportResult_def)
qed (simp add: task_step_def)

end
