(* ===== verification/V1_Obd_Machine.thy ===== *)
theory V1_Obd_Machine
  imports V1_Obd_Fence
begin

text \<open>
  The OBD runtime as a machine over the calls of the main loop, the callbacks of the link and the
  steps of the transport task, in any order; the fence is an invariant of every history.
\<close>

section \<open>The main loop keeps the fence\<close>

named_theorems fenced \<open>operations that keep the fence\<close>

lemmas fence_transport [fenced] = fence_clear fence_disconnect fence_pump fence_ensure fence_queue

lemma fence_begin_op [fenced]:
  "fence s \<Longrightarrow> fence (snd (beginTransportRequest a OpConnect now ms cmd b1 b2 s))"
  "fence s \<Longrightarrow> fence (snd (beginTransportRequest a OpDiscover now ms cmd b1 b2 s))"
  "fence s \<Longrightarrow> fence (snd (beginTransportRequest a OpSubscribe now ms cmd b1 b2 s))"
  "fence s \<Longrightarrow> fence (snd (beginTransportRequest a OpWrite now ms cmd b1 b2 s))"
  "fence s \<Longrightarrow> fence (snd (beginTransportRequest a OpRssiRead now ms cmd b1 b2 s))"
  by (simp_all add: fence_begin)

lemma fence_send [fenced]: "fence s \<Longrightarrow> fence (snd (send_command a now s))"
  by (simp add: send_command_def fenced)

lemma fence_start [fenced]: "fence s \<Longrightarrow> fence (snd (startCommand a kind tx ms n now s))"
  by (simp add: startCommand_def Let_def split_beta fenced)

lemma fence_retry [fenced]:
  "fence s \<Longrightarrow> fence (snd (retryActiveCommand a now s))"
  "fence s \<Longrightarrow> fence (snd (retryActiveCommandWithAlternateWriteMode a now s))"
  by (simp_all add: retryActiveCommand_def retryActiveCommandWithAlternateWriteMode_def fenced)

lemma fence_heal [fenced]: "fence s \<Longrightarrow> fence (snd (autoHealBondIfAllowed a now s))"
  by (simp add: autoHealBondIfAllowed_def Let_def split_beta fenced)

lemma fence_connect_failure [fenced]: "fence s \<Longrightarrow> fence (handleConnectFailure a now reason s)"
  by (simp add: handleConnectFailure_def Let_def split_beta fenced)

lemma fence_drop_and_fail [fenced]: "fence s \<Longrightarrow> fence (drop_and_fail a now reason s)"
  by (simp add: drop_and_fail_def fenced)

lemma fence_polling_error [fenced]: "fence s \<Longrightarrow> fence (handlePollingError a now b reason s)"
  by (simp add: handlePollingError_def Let_def fenced)

lemma fence_speed_command [fenced]: "fence s \<Longrightarrow> fence (snd (startSpeedCommand a now s))"
  by (simp add: startSpeedCommand_def Let_def split_beta fenced)

lemma fence_next_command [fenced]: "fence s \<Longrightarrow> fence (snd (sendNextPollingCommand a now s))"
  by (simp add: sendNextPollingCommand_def fenced)

lemma fence_polling_response [fenced]: "fence s \<Longrightarrow> fence (handlePollingResponse a now s)"
  by (simp add: handlePollingResponse_def Let_def split_beta fenced)

lemma fence_poll_timeout [fenced]: "fence s \<Longrightarrow> fence (poll_timeout a now s)"
  by (simp add: poll_timeout_def Let_def split_beta fenced)

lemma take_cases: "takeTransportResult op s = (r, v) \<Longrightarrow> fence v = fence s"
  using fence_take [of op s] by simp

lemma fence_poll_command [fenced]: "fence s \<Longrightarrow> fence (snd (poll_command a now s))"
  by (auto simp: poll_command_def Let_def fenced take_cases split: option.split prod.split)

lemma fence_poll_rssi [fenced]: "fence s \<Longrightarrow> fence (poll_rssi a now s)"
  by (auto simp: poll_rssi_def Let_def split_beta fenced take_cases split: option.split prod.split)

lemma fence_polling [fenced]: "fence s \<Longrightarrow> fence (updatePolling a now s)"
  by (simp add: updatePolling_def Let_def split_beta fenced)

lemma fence_at_response [fenced]: "fence s \<Longrightarrow> fence (handleAtInitResponse a now s)"
  by (simp add: handleAtInitResponse_def Let_def split_beta fenced)

lemma fence_init_timeout [fenced]: "fence s \<Longrightarrow> fence (init_timeout a now s)"
  by (simp add: init_timeout_def Let_def split_beta fenced)

lemma fence_heal_or_fail [fenced]: "fence s \<Longrightarrow> fence (heal_or_fail a now reason s)"
  by (simp add: heal_or_fail_def Let_def split_beta fenced)

lemma fence_init_command [fenced]: "fence s \<Longrightarrow> fence (init_command a now s)"
  by (auto simp: init_command_def fenced take_cases split: option.split prod.split)

lemma fence_init_next [fenced]: "fence s \<Longrightarrow> fence (init_next a now s)"
  by (simp add: init_next_def Let_def split_beta fenced)

lemma fence_link_lost [fenced]: "fence s \<Longrightarrow> fence (link_lost a now s)"
  by (simp add: link_lost_def Let_def split_beta fenced)

lemma fence_at_init [fenced]: "fence s \<Longrightarrow> fence (updateAtInit a now s)"
  by (simp add: updateAtInit_def fenced)

lemma fence_connecting [fenced]: "fence s \<Longrightarrow> fence (updateConnecting a now b s)"
  by (simp add: updateConnecting_def Let_def split_beta fenced)

lemma fence_discovering [fenced]: "fence s \<Longrightarrow> fence (updateDiscovering a now s)"
proof -
  have b: "beginTransportRequest a op now ms cmd b1 b2 s = (ok, v) \<Longrightarrow> op \<noteq> OpDisconnect \<Longrightarrow> fence s \<Longrightarrow> fence v"
    for op ms cmd b1 b2 s ok v using fence_begin [of s op a now ms cmd b1 b2] by simp
  show "fence s \<Longrightarrow> ?thesis"
    by (auto simp: updateDiscovering_def fenced take_cases dest!: b split: option.split prod.split bool.split)
qed

lemma fence_idle [fenced]: "fence s \<Longrightarrow> fence (updateIdle a now x s)"
  by (simp add: updateIdle_def start_scanning_def fenced)

lemma fence_wait_boot [fenced]: "fence s \<Longrightarrow> fence (updateWaitBoot now x s)"
  by (simp add: updateWaitBoot_def)

lemma fence_scanning [fenced]: "fence s \<Longrightarrow> fence (updateScanning now s)"
  by (simp add: updateScanning_def Let_def)

lemma fence_disconnected [fenced]: "fence s \<Longrightarrow> fence (updateDisconnected a now b x s)"
  by (simp add: updateDisconnected_def retry_target_def start_scanning_def Let_def fenced)

lemma fence_backoff [fenced]: "fence s \<Longrightarrow> fence (updateErrorBackoff a now x s)"
  by (simp add: updateErrorBackoff_def Let_def fenced)

lemma fence_ecu_idle [fenced]: "fence s \<Longrightarrow> fence (updateEcuIdle now b x s)"
  by (simp add: updateEcuIdle_def Let_def)

lemma fence_state_pass [fenced]: "fence s \<Longrightarrow> fence (obd_state_pass a now x b s)"
  by (simp add: obd_state_pass_def fenced split: obd_state.split)

lemma fence_forget [fenced]: "fence s \<Longrightarrow> fence (forget_session a s)"
  by (simp add: forget_session_def fenced)

lemma fence_reconcile [fenced]: "fence s \<Longrightarrow> fence (snd (reconcileProxyOwnership a now b s))"
  by (simp add: reconcileProxyOwnership_def Let_def fenced)

lemma fence_prepare [fenced]: "fence s \<Longrightarrow> fence (obd_prepare now x s)"
  by (simp add: obd_prepare_def Let_def)

lemma fence_update [fenced]: "fence s \<Longrightarrow> fence (obd_update a now x s)"
  by (simp add: obd_update_def reject_late_link_def Let_def split_beta fenced)

lemma fence_calls [fenced]:
  "fence s \<Longrightarrow> fence (obd_setEnabled a b s)" "fence s \<Longrightarrow> fence (stopActiveScan a s)"
  "fence s \<Longrightarrow> fence (snd (requestManualPairScan a now s))" "fence s \<Longrightarrow> fence (cancelPendingConnect a s)"
  "fence s \<Longrightarrow> fence (forgetDevice a s)"
  by (simp_all add: obd_setEnabled_def stopActiveScan_def requestManualPairScan_def cancelPendingConnect_def
      forgetDevice_def ensureRuntimeResources_def Let_def fenced)

lemma fence_callbacks [fenced]:
  "fence s \<Longrightarrow> fence (onDeviceFound name address rssi k s)" "fence s \<Longrightarrow> fence (onBleDisconnect reason s)"
  "fence s \<Longrightarrow> fence (onBleData now d s)"
  by (simp_all add: onDeviceFound_def onBleDisconnect_def onBleData_def)

section \<open>Histories\<close>

datatype obd_call =
  ObUpdate obd_answers u32 obd_context
| ObEnable obd_answers bool
| ObMinRssi u8
| ObStopScan obd_answers
| ObPair obd_answers u32
| ObCancel obd_answers
| ObForget obd_answers
| ObDisconnect obd_answers
| ObPump obd_answers

text \<open>
  The last two are the steps of the disconnect before a shutdown: its request and each round of
  its loop.
\<close>

fun obd_do :: "obd \<Rightarrow> obd_call \<Rightarrow> obd" where
  "obd_do s (ObUpdate a now x) = obd_update a now x s"
| "obd_do s (ObEnable a b) = obd_setEnabled a b s"
| "obd_do s (ObMinRssi m) = setMinRssi m s"
| "obd_do s (ObStopScan a) = stopActiveScan a s"
| "obd_do s (ObPair a now) = snd (requestManualPairScan a now s)"
| "obd_do s (ObCancel a) = cancelPendingConnect a s"
| "obd_do s (ObForget a) = forgetDevice a s"
| "obd_do s (ObDisconnect a) = drop_link a s"
| "obd_do s (ObPump a) = pumpTransportResults a s"

datatype obd_input =
  ObCall obd_call
| ObFound "string option" string int u8
| ObLost int
| ObData u32 string
| ObTask task_answers

fun obd_step :: "obd \<Rightarrow> obd_input \<Rightarrow> obd" where
  "obd_step s (ObCall c) = obd_do s c"
| "obd_step s (ObFound name address rssi k) = onDeviceFound name address rssi k s"
| "obd_step s (ObLost reason) = onBleDisconnect reason s"
| "obd_step s (ObData now d) = onBleData now d s"
| "obd_step s (ObTask t) = task_step t s"

text \<open>A unit that begins with the given adapter, and its history.\<close>

definition obd_run :: "obd_answers \<Rightarrow> nat option \<Rightarrow> bool \<Rightarrow> string \<Rightarrow> u8 \<Rightarrow> u8 \<Rightarrow> obd_input list \<Rightarrow> obd" where
  "obd_run a client enabled address k rssi es = foldl obd_step (obd_begin a client enabled address k rssi new_obd) es"

lemma fence_do [fenced]: "fence s \<Longrightarrow> fence (obd_do s c)"
  by (cases c) (simp_all add: fenced)

lemma fence_obd_step: "fence s \<Longrightarrow> fence (obd_step s e)"
  by (cases e) (simp_all add: fenced fence_step)

interpretation obd: event_machine obd_step fence
  by unfold_locales (rule fence_obd_step)

lemma fence_start_up: "fence (obd_begin a client enabled address k rssi new_obd)"
proof -
  have "fence (resetForBegin (new_obd\<lparr>or_client := c, or_enabled := b\<rparr>))" for c b
    by (simp add: resetForBegin_def fence_defs unclaimed_def carried_def acked_def new_obd_def new_dispatch_def)
  then show ?thesis by (simp add: obd_begin_def ensureRuntimeResources_def Let_def fenced)
qed

lemma fence_run: "fence (obd_run a client enabled address k rssi es)"
  unfolding obd_run_def by (rule obd.run_inv [OF fence_start_up])

end
