(* ===== verification/V1_Obd_Progress.thy ===== *)
theory V1_Obd_Progress
  imports V1_Obd_Machine
begin

text \<open>
  The fence opens again: while a disconnect is pending, every round of a pump of the main loop and
  some steps of the task brings it nearer, as long as the client accepts the disconnect and its
  link goes down. And a request that is waited for is answered within eight steps of the task.
\<close>

section \<open>Rounds\<close>

definition cooperative :: "task_answers \<Rightarrow> bool" where
  "cooperative t \<longleftrightarrow> ta_disconnectAccepted t \<and> ta_linkDown t = (\<lambda>_. True)"

definition granted :: "obd_answers \<Rightarrow> bool" where
  "granted a \<longleftrightarrow> oa_requestQueue a \<and> oa_controlQueue a \<and> oa_resultQueue a \<and> oa_task a"

definition obd_round :: "obd \<Rightarrow> obd_answers \<Rightarrow> task_answers list \<Rightarrow> obd" where
  "obd_round s a ts = fold task_step ts (pumpTransportResults a s)"

text \<open>How far the pending disconnect still is.\<close>

fun approach :: "obd_task \<Rightarrow> nat" where
  "approach TaskLoop = 7"
| "approach (TaskReceived r) = 7"
| "approach _ = 8"

definition stops_left :: "obd \<Rightarrow> nat" where
  "stops_left s =
     (if \<not> or_disconnectQueued s then 12
      else if ot_controlQueue s \<noteq> None then approach (ot_task s)
      else if dc_active (ot_dispatch s)
      then (if \<not> dc_commandAccepted (ot_dispatch s) then 6
            else if dc_settledPasses (ot_dispatch s) = 0 then 5 else 4)
      else case ot_resultQueue s of None \<Rightarrow> 3 | Some r \<Rightarrow> if failed r then 13 else 3)"

definition distance :: "obd \<Rightarrow> nat" where
  "distance s = (if \<not> or_disconnectPending s then 0 else stops_left s + (if or_followupDeleteBond s then 13 else 0))"

lemma stops_left_bound: "stops_left s \<le> 13"
  by (cases "ot_task s") (auto simp: stops_left_def split: option.split)

lemma stops_left_positive: "0 < stops_left s"
  by (cases "ot_task s") (auto simp: stops_left_def split: option.split)

lemma distance_bound: "distance s \<le> 26"
  using stops_left_bound [of s] by (simp add: distance_def)

section \<open>The pump\<close>

definition owed_view :: "obd \<Rightarrow> bool \<times> bool \<times> nat option" where
  "owed_view s = (or_disconnectPending s, or_followupDeleteBond s, or_client s)"

lemma task_view [simp]:
  "owed_view (task_step t s) = owed_view s" "or_disconnectQueued (task_step t s) = or_disconnectQueued s"
  by (simp_all add: task_step_def owed_view_def dispatch_service_def dispatch_pass_def dispatch_accept_def acknowledge_def
      publishObdTransportResult_def Let_def split_beta split: obd_task.split option.split)

lemma queue_works:
  assumes f: "fence s" and g: "granted a" "or_client s \<noteq> None" and p: "or_disconnectPending s" "\<not> or_disconnectQueued s"
  shows "stops_left (snd (queuePendingTransportDisconnect a s)) \<le> 8"
    "owed_view (snd (queuePendingTransportDisconnect a s)) = owed_view s"
    "or_disconnectQueued (snd (queuePendingTransportDisconnect a s))"
    "ot_controlQueue (snd (queuePendingTransportDisconnect a s)) \<noteq> None"
proof -
  obtain ok v where e: "ensureObdTransportRuntime a s = (ok, v)" by fastforce
  have ok
  proof (cases "ot_task s = TaskNone")
    case True
    then have "fst (ensureObdTransportRuntime a s)"
      using g by (simp add: ensureObdTransportRuntime_def obdTransportBindingAccepted_def granted_def Let_def)
    with e show ?thesis by simp
  next
    case False
    with ensure_running [OF f] e show ?thesis by simp
  qed
  moreover have t: "ot_task v \<noteq> TaskNone" using ensure_ready [of a s] f \<open>ok\<close> e by simp
  moreover have "ot_hasControlQueue v" using fence_ensure [OF f, of a] t e by (simp add: fence_def resources_ok_def)
  moreover have o: "owed_view v = owed_view s"
  proof -
    have "owed_view (snd (ensureObdTransportRuntime a s)) = owed_view s"
      by (simp add: ensureObdTransportRuntime_def owed_view_def Let_def)
    with e show ?thesis by simp
  qed
  moreover have "approach (ot_task v) \<le> 8" by (cases "ot_task v") simp_all
  ultimately show "stops_left (snd (queuePendingTransportDisconnect a s)) \<le> 8"
    "owed_view (snd (queuePendingTransportDisconnect a s)) = owed_view s"
    "or_disconnectQueued (snd (queuePendingTransportDisconnect a s))"
    "ot_controlQueue (snd (queuePendingTransportDisconnect a s)) \<noteq> None"
    using p by (simp_all add: queuePendingTransportDisconnect_def e stops_left_def owed_view_def)
qed

text \<open>What the pump makes of the two halves of the fence.\<close>

lemma receive_other:
  assumes "tr_op r \<noteq> OpDisconnect" "\<not> or_requestActive s"
  shows "receive_result a r s = s"
  using assms by (simp add: receive_result_def)

lemma pump_unqueued:
  assumes f: "fence s" and g: "granted a" "or_client s \<noteq> None" and p: "or_disconnectPending s" "\<not> or_disconnectQueued s"
  shows "distance (pumpTransportResults a s) < distance s"
proof -
  define v where "v = snd (queuePendingTransportDisconnect a s)"
  note q = queue_works [OF f g p, folded v_def]
  have v: "fence v" using fence_queue [OF f] by (simp add: v_def)
  have pv: "or_disconnectPending v" using q(2) p by (simp add: owed_view_def)
  then have n: "\<not> or_requestActive v" using v by (auto simp: fence_def requests_ok_def)
  have c: "tr_op r \<noteq> OpDisconnect" if "ot_resultQueue v = Some r" for r
    using v q(4) that by (auto simp: fence_def disconnect_ok_def acked_def)
  have "stops_left (v\<lparr>ot_resultQueue := None\<rparr>) = stops_left v" using q(3,4) by (simp add: stops_left_def)
  then have "distance (v\<lparr>ot_resultQueue := None\<rparr>) = distance v" by (simp add: distance_def)
  moreover have "distance v < distance s" using q(1,2) p pv by (simp add: distance_def owed_view_def stops_left_def)
  ultimately show ?thesis
    using p c n by (simp add: pumpTransportResults_def v_def [symmetric] receive_other split: option.split)
qed

text \<open>With the disconnect at the task the pump only drops an operation's late result.\<close>

lemma pump_waiting:
  assumes f: "fence s" and q: "or_disconnectQueued s" "\<not> acked s"
  shows "distance (pumpTransportResults a s) = distance s"
proof -
  have n: "\<not> or_requestActive s" using f queued_pending [OF f q(1)] by (auto simp: fence_def requests_ok_def)
  have "ot_controlQueue s \<noteq> None \<or> dc_active (ot_dispatch s)" using f q by (auto simp: fence_def disconnect_ok_def)
  then have "stops_left (s\<lparr>ot_resultQueue := None\<rparr>) = stops_left s" using q by (auto simp: stops_left_def)
  then have "distance (s\<lparr>ot_resultQueue := None\<rparr>) = distance s" by (simp add: distance_def)
  moreover have "tr_op r \<noteq> OpDisconnect" if "ot_resultQueue s = Some r" for r using q(2) that by (auto simp: acked_def)
  ultimately show ?thesis using q n by (simp add: pumpTransportResults_def receive_other split: option.split)
qed

lemma queue_pending [simp]:
  "or_disconnectPending (snd (queuePendingTransportDisconnect a s)) = or_disconnectPending s"
  "or_followupDeleteBond (snd (queuePendingTransportDisconnect a s)) = or_followupDeleteBond s"
  by (simp_all add: queuePendingTransportDisconnect_def ensureObdTransportRuntime_def Let_def split_beta)

lemma acked_stops_left:
  assumes f: "fence s" and r: "ot_resultQueue s = Some r" "tr_op r = OpDisconnect"
  shows "stops_left s = (if failed r then 13 else 3)" "or_disconnectQueued s" "ot_controlQueue s = None" "\<not> dc_active (ot_dispatch s)"
proof -
  have a: "acked s" using r by (simp add: acked_def)
  show q: "or_disconnectQueued s" "ot_controlQueue s = None" "\<not> dc_active (ot_dispatch s)"
    using f a by (auto simp: fence_def disconnect_ok_def)
  then show "stops_left s = (if failed r then 13 else 3)" using r by (simp add: stops_left_def)
qed

lemma pump_acked:
  assumes f: "fence s" and r: "ot_resultQueue s = Some r" "tr_op r = OpDisconnect"
  shows "distance (pumpTransportResults a s) < distance s"
proof -
  note k = ack_shape(1,2) [OF f r] acked_stops_left [OF f r]
  have "ot_hasResultQueue s" using f r by (auto simp: fence_def resources_ok_def split: if_splits)
  with k r have p: "pumpTransportResults a s = disconnect_acknowledged a r (s\<lparr>ot_resultQueue := None\<rparr>)"
    by (simp add: pumpTransportResults_def receive_result_def)
  have d: "distance s = stops_left s + (if or_followupDeleteBond s then 13 else 0)" using k by (simp add: distance_def)
  show ?thesis
  proof (cases "failed r")
    case True
    then have "or_disconnectPending (pumpTransportResults a s)" "\<not> or_disconnectQueued (pumpTransportResults a s)"
      "or_followupDeleteBond (pumpTransportResults a s) = or_followupDeleteBond s"
      using k by (simp_all add: p disconnect_acknowledged_def)
    with True k show ?thesis by (simp add: d distance_def [of "pumpTransportResults a s"] stops_left_def [of "pumpTransportResults a s"])
  next
    case good: False
    show ?thesis
    proof (cases "or_followupDeleteBond s")
      case True
      then have "\<not> or_followupDeleteBond (pumpTransportResults a s)"
        using good by (simp add: p disconnect_acknowledged_def)
      with True good k stops_left_bound [of "pumpTransportResults a s"] show ?thesis
        by (simp add: d distance_def [of "pumpTransportResults a s"])
    next
      case False
      then have "\<not> or_disconnectPending (pumpTransportResults a s)"
        using good by (simp add: p disconnect_acknowledged_def)
      with good k show ?thesis by (simp add: d distance_def [of "pumpTransportResults a s"])
    qed
  qed
qed

section \<open>The task\<close>

lemma pass_accepts:
  assumes "\<not> dc_commandAccepted (ot_dispatch s)" "cooperative t"
  shows "dc_active (ot_dispatch (dispatch_pass t s)) = dc_active (ot_dispatch s)"
    "dc_commandAccepted (ot_dispatch (dispatch_pass t s))" "dc_settledPasses (ot_dispatch (dispatch_pass t s)) = 0"
    "ot_controlQueue (dispatch_pass t s) = ot_controlQueue s"
    "or_disconnectQueued (dispatch_pass t s) = or_disconnectQueued s"
  using assms by (simp_all add: dispatch_pass_def cooperative_def Let_def)

lemma settled_cases: "(n :: u8) \<le> 1 \<Longrightarrow> n = 0 \<or> n = 1"
  by (simp add: word_le_nat_alt word_unat_eq_iff le_Suc_eq)

lemma pass_control [simp]:
  "ot_controlQueue (dispatch_pass t s) = ot_controlQueue s" "or_disconnectQueued (dispatch_pass t s) = or_disconnectQueued s"
  by (simp_all add: dispatch_pass_def acknowledge_def publishObdTransportResult_def Let_def)

lemma pass_settles:
  assumes f: "fence s" and d: "dc_active (ot_dispatch s)" "dc_commandAccepted (ot_dispatch s)" and c: "cooperative t"
  shows "stops_left (dispatch_pass t s) < stops_left s"
proof -
  note a = active_shape [OF f d(1)]
  from settled_cases [OF a(6)] show ?thesis
  proof
    assume n: "dc_settledPasses (ot_dispatch s) = 0"
    then have "dispatch_pass t s = s\<lparr>ot_dispatch := (ot_dispatch s)\<lparr>dc_settledPasses := 1\<rparr>\<rparr>"
      using d c unfolding dispatch_pass_def cooperative_def Let_def by (simp only: simp_thms if_True if_False) simp
    with n d a show ?thesis by (simp add: stops_left_def)
  next
    assume n: "dc_settledPasses (ot_dispatch s) = 1"
    define d' where "d' = (ot_dispatch s)\<lparr>dc_settledPasses := 2\<rparr>"
    have p: "dispatch_pass t s = acknowledge t True False (s\<lparr>ot_dispatch := d'\<rparr>)"
      using d c n unfolding dispatch_pass_def cooperative_def Let_def d'_def by (simp only: simp_thms if_True if_False) simp
    have "\<not> dc_active (ot_dispatch (dispatch_pass t s))" "\<exists>r. ot_resultQueue (dispatch_pass t s) = Some r \<and> \<not> failed r"
      using a unfolding p by (simp_all add: acknowledge_def publishObdTransportResult_def dispatch_reset_def)
    then have "stops_left (dispatch_pass t s) = 3" using a by (auto simp: stops_left_def)
    then show ?thesis using a d n by (simp add: stops_left_def)
  qed
qed

lemma stops_left_task [simp]: "ot_controlQueue s = None \<Longrightarrow> stops_left (s\<lparr>ot_task := k\<rparr>) = stops_left s"
  by (simp add: stops_left_def)

lemma service_nearer:
  assumes f: "fence s" and q: "ot_controlQueue s \<noteq> None \<or> dc_active (ot_dispatch s)" and c: "cooperative t"
    and k: "ot_task s = TaskLoop \<or> ot_task s = TaskReceived r"
  shows "fst (dispatch_service t s)" "stops_left ((snd (dispatch_service t s))\<lparr>ot_task := TaskLoop\<rparr>) < stops_left s"
proof -
  have h: "ot_hasControlQueue s" using f k by (auto simp: fence_def resources_ok_def)
  then show "fst (dispatch_service t s)" using q by (auto simp: dispatch_service_def)
  show "stops_left ((snd (dispatch_service t s))\<lparr>ot_task := TaskLoop\<rparr>) < stops_left s"
  proof (cases "dc_active (ot_dispatch s)")
    case True
    note a = active_shape [OF f True]
    show ?thesis
    proof (cases "dc_commandAccepted (ot_dispatch s)")
      case acc: True
      from pass_settles [OF f True acc c] True a(8) show ?thesis by (simp add: dispatch_service_def)
    next
      case False
      from pass_accepts [OF False c] True False a show ?thesis
        by (simp add: dispatch_service_def stops_left_def)
    qed
  next
    case False
    then obtain x where x: "ot_controlQueue s = Some x" using q by auto
    have w: "or_disconnectQueued s" using f x by (simp add: fence_def disconnect_ok_def)
    have "\<not> dc_commandAccepted (ot_dispatch (dispatch_accept t x s))" "dc_active (ot_dispatch (dispatch_accept t x s))"
      "ot_controlQueue (dispatch_accept t x s) = None" "or_disconnectQueued (dispatch_accept t x s)"
      using w by (simp_all add: dispatch_accept_def)
    note y = this and pass_accepts [OF this(1) c]
    then have "stops_left (dispatch_pass t (dispatch_accept t x s)) = 5"
      "dc_active (ot_dispatch (dispatch_pass t (dispatch_accept t x s)))"
      "ot_controlQueue (dispatch_pass t (dispatch_accept t x s)) = None" by (simp_all add: stops_left_def)
    moreover have "stops_left s \<ge> 7" using w x k by (auto simp: stops_left_def)
    ultimately show ?thesis using False h x by (simp add: dispatch_service_def)
  qed
qed

lemma service_task [simp]: "ot_task (snd (dispatch_service t s)) = ot_task s"
  by (simp add: dispatch_service_def dispatch_pass_def dispatch_accept_def acknowledge_def publishObdTransportResult_def Let_def
      split: option.split)

lemma task_nearer:
  assumes f: "fence s" and q: "or_disconnectQueued s" "\<not> acked s" and c: "cooperative t"
  shows "stops_left (task_step t s) < stops_left s"
proof -
  have w: "ot_controlQueue s \<noteq> None \<or> dc_active (ot_dispatch s)" using f q by (auto simp: fence_def disconnect_ok_def)
  have n: "ot_task s \<noteq> TaskNone" using f w by (auto simp: fence_def resources_ok_def split: if_splits)
  have k: "ot_controlQueue s \<noteq> None" if "ot_task s \<noteq> TaskLoop" using w active_shape(3) [OF f] that by auto
  show ?thesis
  proof (cases "ot_task s")
    case TaskLoop
    have "ot_task (snd (dispatch_service t s)) = TaskLoop" using TaskLoop by simp
    then have "stops_left ((snd (dispatch_service t s))\<lparr>ot_task := TaskLoop\<rparr>) = stops_left (snd (dispatch_service t s))"
      by (simp add: stops_left_def)
    with service_nearer [OF f w c] TaskLoop show ?thesis by (simp add: task_step_def split_beta)
  next
    case TaskWaiting
    then show ?thesis using k q by (simp add: task_step_def stops_left_def split: option.split)
  next
    case (TaskReceived r)
    with service_nearer [OF f w c, of r] show ?thesis by (simp add: task_step_def split_beta)
  next
    case (TaskChecked r)
    then have "ot_token s \<noteq> tq_dispatchEpoch r" using claim_open [OF f] queued_pending [OF f q(1)] by blast
    then show ?thesis using TaskChecked k q by (simp add: task_step_def tryClaim_def stops_left_def)
  next
    case (TaskWorking r)
    then show ?thesis using k q by (simp add: task_step_def publishObdTransportResult_def stops_left_def)
  qed (use n in simp)
qed

lemma task_acked:
  assumes f: "fence s" and r: "ot_resultQueue s = Some r" "tr_op r = OpDisconnect"
  shows "ot_resultQueue (task_step t s) = Some r" "stops_left (task_step t s) = stops_left s"
proof -
  have q: "ot_requestQueue s = None" using f r by (auto simp: fence_def disconnect_ok_def)
  have "ot_task s = TaskLoop \<or> ot_task s = TaskWaiting" using f r by (auto simp: fence_def disconnect_ok_def)
  then have "\<exists>k. task_step t s = s\<lparr>ot_task := k\<rparr>"
  proof
    assume "ot_task s = TaskLoop"
    then have "task_step t s = s\<lparr>ot_task := TaskWaiting\<rparr>"
      using acked_stops_left(3,4) [OF f r] by (simp add: task_step_def dispatch_service_def)
    then show ?thesis by blast
  next
    assume "ot_task s = TaskWaiting"
    then have "task_step t s = s\<lparr>ot_task := TaskLoop\<rparr>" using q by (simp add: task_step_def)
    then show ?thesis by blast
  qed
  then obtain k where k: "task_step t s = s\<lparr>ot_task := k\<rparr>" by blast
  show "ot_resultQueue (task_step t s) = Some r" "stops_left (task_step t s) = stops_left s"
    unfolding k using acked_stops_left(3) [OF f r] r(1) by simp_all
qed

section \<open>The fence opens\<close>

lemma task_distance:
  assumes f: "fence s" and c: "cooperative t"
  shows "distance (task_step t s) \<le> distance s"
    "or_disconnectPending s \<Longrightarrow> or_disconnectQueued s \<Longrightarrow> \<not> acked s \<Longrightarrow> distance (task_step t s) < distance s"
proof -
  have o: "owed_view (task_step t s) = owed_view s" "or_disconnectQueued (task_step t s) = or_disconnectQueued s" by simp_all
  have "stops_left (task_step t s) \<le> stops_left s"
  proof (cases "or_disconnectQueued s")
    case False
    with o(2) show ?thesis by (simp add: stops_left_def)
  next
    case q: True
    show ?thesis
    proof (cases "acked s")
      case True
      then obtain r where r: "ot_resultQueue s = Some r" "tr_op r = OpDisconnect" by (auto simp: acked_def)
      show ?thesis using task_acked(2) [OF f r] by simp
    next
      case False
      from task_nearer [OF f q False c] show ?thesis by simp
    qed
  qed
  with o(1) show "distance (task_step t s) \<le> distance s" by (simp add: distance_def owed_view_def)
  assume "or_disconnectPending s" "or_disconnectQueued s" "\<not> acked s"
  with task_nearer [OF f _ _ c] o(1) show "distance (task_step t s) < distance s" by (simp add: distance_def owed_view_def)
qed

lemma tasks_keep:
  assumes "fence s"
  shows "fence (fold task_step ts s)" "owed_view (fold task_step ts s) = owed_view s"
    "list_all cooperative ts \<Longrightarrow> distance (fold task_step ts s) \<le> distance s"
  using assms
proof (induction ts arbitrary: s)
  case (Cons t ts)
  case 1 from Cons(1) [OF fence_step [OF 1]] show ?case by simp
next
  case (Cons t ts)
  case 2 from Cons(2) [OF fence_step [OF 2]] show ?case by simp
next
  case (Cons t ts)
  case 3
  have "distance (fold task_step ts (task_step t s)) \<le> distance (task_step t s)"
    using Cons(3) [OF _ fence_step [OF 3(2)], of t] 3(1) by simp
  with task_distance(1) [OF 3(2), of t] 3(1) show ?case by simp
qed simp_all

text \<open>The pump alone never takes it further away, and only a disconnect at the task waits for the task.\<close>

lemma pump_distance:
  assumes f: "fence s" and g: "granted a" "or_client s \<noteq> None" and p: "or_disconnectPending s"
  shows "distance (pumpTransportResults a s) < distance s \<or> or_disconnectQueued s \<and> \<not> acked s"
proof (cases "or_disconnectQueued s \<and> acked s")
  case True
  then obtain r where "ot_resultQueue s = Some r" "tr_op r = OpDisconnect" by (auto simp: acked_def)
  from pump_acked [OF f this] show ?thesis by blast
next
  case False
  with pump_unqueued [OF f g p] show ?thesis by blast
qed

lemma pump_same:
  assumes f: "fence s" and q: "or_disconnectQueued s" "\<not> acked s"
  shows "or_disconnectPending (pumpTransportResults a s)" "or_disconnectQueued (pumpTransportResults a s)"
    "\<not> acked (pumpTransportResults a s)"
proof -
  note p = queued_pending [OF f q(1)]
  have n: "\<not> or_requestActive s" using f p by (auto simp: fence_def requests_ok_def)
  have d: "tr_op r \<noteq> OpDisconnect" if "ot_resultQueue s = Some r" for r using q(2) that by (auto simp: acked_def)
  have "pumpTransportResults a s = s \<or> pumpTransportResults a s = s\<lparr>ot_resultQueue := None\<rparr>"
    using q(1) n d by (simp add: pumpTransportResults_def receive_other split: option.split)
  then show "or_disconnectPending (pumpTransportResults a s)" "or_disconnectQueued (pumpTransportResults a s)"
    "\<not> acked (pumpTransportResults a s)"
    using p q by (auto simp: acked_def)
qed

lemma round_nearer:
  assumes f: "fence s" and p: "or_disconnectPending s" "or_client s \<noteq> None"
    and c: "granted a" "list_all cooperative ts" "ts \<noteq> []"
  shows "distance (obd_round s a ts) < distance s"
proof -
  define v where "v = pumpTransportResults a s"
  have v: "fence v" using fence_pump [OF f] by (simp add: v_def)
  consider "distance v < distance s" | "or_disconnectQueued s \<and> \<not> acked s"
    using pump_distance [OF f c(1) p(2,1)] by (auto simp: v_def)
  then show ?thesis
  proof cases
    case 1
    with tasks_keep(3) [OF v c(2)] show ?thesis by (simp add: obd_round_def v_def)
  next
    case 2
    then have e: "distance v = distance s" "or_disconnectPending v" "or_disconnectQueued v" "\<not> acked v"
      using pump_waiting [OF f, of a] pump_same [OF f, of a] by (simp_all add: v_def)
    obtain t us where ts: "ts = t # us" using c(3) by (cases ts) auto
    have "distance (task_step t v) < distance v" using task_distance(2) [OF v, of t] e c(2) ts by simp
    moreover have "distance (fold task_step us (task_step t v)) \<le> distance (task_step t v)"
      using tasks_keep(3) [OF fence_step [OF v]] c(2) ts by simp
    ultimately show ?thesis using e by (simp add: obd_round_def ts v_def)
  qed
qed

lemma pump_client [simp]: "or_client (pumpTransportResults a s) = or_client s"
proof -
  have q: "or_client (snd (queuePendingTransportDisconnect a s)) = or_client s" for a s
    by (simp add: queuePendingTransportDisconnect_def ensureObdTransportRuntime_def Let_def split_beta)
  show ?thesis
    by (simp add: pumpTransportResults_def receive_result_def disconnect_acknowledged_def clearTransportRequest_def q Let_def
        split: option.split)
qed

lemma round_keeps:
  assumes "fence s"
  shows "fence (obd_round s a ts)" "or_client (obd_round s a ts) = or_client s"
  using tasks_keep(1,2) [OF fence_pump [OF assms]] by (simp_all add: obd_round_def owed_view_def)

section \<open>The disconnect before a shutdown\<close>

text \<open>A round within the time limit, with a heap that grants what is missing and a cooperating client.\<close>

definition good_round :: "u32 \<Rightarrow> u32 \<Rightarrow> u32 \<times> obd_answers \<times> task_answers list \<Rightarrow> bool" where
  "good_round started timeoutMs r \<longleftrightarrow> sint (fst r - started) < sint timeoutMs \<and> granted (fst (snd r)) \<and>
     list_all cooperative (snd (snd r)) \<and> snd (snd r) \<noteq> []"

lemma queue_succeeded [simp]:
  "or_lastDisconnectSucceeded (snd (queuePendingTransportDisconnect a s)) = or_lastDisconnectSucceeded s"
  by (simp add: queuePendingTransportDisconnect_def ensureObdTransportRuntime_def Let_def split_beta)

lemma queue_result [simp]:
  "ot_resultQueue (snd (queuePendingTransportDisconnect a s)) = ot_resultQueue s"
  "or_disconnectRequestId (snd (queuePendingTransportDisconnect a s)) = or_disconnectRequestId s"
  by (simp_all add: queuePendingTransportDisconnect_def Let_def split_beta)

lemma task_succeeded [simp]: "or_lastDisconnectSucceeded (task_step t s) = or_lastDisconnectSucceeded s"
  by (simp add: task_step_def dispatch_service_def dispatch_pass_def dispatch_accept_def acknowledge_def
      publishObdTransportResult_def Let_def split_beta split: obd_task.split option.split)

lemma fold_succeeded [simp]: "or_lastDisconnectSucceeded (fold task_step ts s) = or_lastDisconnectSucceeded s"
  by (induction ts arbitrary: s) simp_all

text \<open>The confirmed acknowledgement of the disconnect that is pending.\<close>

definition confirmed :: "obd \<Rightarrow> bool" where
  "confirmed s \<longleftrightarrow> (\<exists>r. ot_resultQueue s = Some r \<and> tr_op r = OpDisconnect \<and>
     tr_requestId r = or_disconnectRequestId s \<and> tr_success r \<and> \<not> tr_timedOut r)"

lemma pump_opens:
  assumes "or_disconnectPending s" "\<not> or_disconnectPending (pumpTransportResults a s)"
  shows "confirmed s" "or_lastDisconnectSucceeded (pumpTransportResults a s)"
proof -
  define v where "v = (if or_disconnectPending s \<and> \<not> or_disconnectQueued s
     then snd (queuePendingTransportDisconnect a s) else s)"
  have v: "or_disconnectPending v" "ot_resultQueue v = ot_resultQueue s" "or_disconnectRequestId v = or_disconnectRequestId s"
    using assms(1) by (simp_all add: v_def)
  from assms(2) v(1) obtain r where r: "ot_resultQueue v = Some r"
    "\<not> or_disconnectPending (receive_result a r (v\<lparr>ot_resultQueue := None\<rparr>))"
    "pumpTransportResults a s = receive_result a r (v\<lparr>ot_resultQueue := None\<rparr>)"
    unfolding pumpTransportResults_def Let_def v_def [symmetric] by (auto split: if_splits option.splits)
  from r(2) v(1) have k: "tr_op r = OpDisconnect" "tr_requestId r = or_disconnectRequestId v" "\<not> failed r" "\<not> or_followupDeleteBond v"
    by (auto simp: receive_result_def disconnect_acknowledged_def clearTransportRequest_def Let_def split: if_splits)
  with r(1) v show "confirmed s" by (simp add: confirmed_def)
  from k v(1) show "or_lastDisconnectSucceeded (pumpTransportResults a s)"
    unfolding r(3) by (simp add: receive_result_def disconnect_acknowledged_def)
qed

lemma pump_open [simp]:
  assumes "\<not> or_disconnectPending s"
  shows "\<not> or_disconnectPending (pumpTransportResults a s)"
    "or_lastDisconnectSucceeded (pumpTransportResults a s) = or_lastDisconnectSucceeded s"
  using assms by (simp_all add: pumpTransportResults_def receive_result_def clearTransportRequest_def split: option.split)

lemma shutdown_returns:
  assumes "fence s" "or_client s \<noteq> None" "or_disconnectPending s \<or> or_lastDisconnectSucceeded s"
    "list_all (good_round started timeoutMs) rounds" "distance s < length rounds"
  shows "\<exists>v. shutdown_wait started timeoutMs rounds s = Some v \<and> \<not> or_disconnectPending v \<and> or_lastDisconnectSucceeded v"
  using assms
proof (induction rounds arbitrary: s)
  case (Cons r rs)
  obtain now a ts where r: "r = (now, a, ts)" by (cases r) auto
  have o: "owed_view (fold task_step ts v) = owed_view v" if "fence v" for v using tasks_keep(2) [OF that] .
  show ?case
  proof (cases "or_disconnectPending s")
    case True
    have n: "distance (obd_round s a ts) < distance s"
      using round_nearer [OF Cons.prems(1) True Cons.prems(2)] Cons.prems(4) by (simp add: r good_round_def)
    have "or_disconnectPending (obd_round s a ts) \<or> or_lastDisconnectSucceeded (obd_round s a ts)"
      using o [OF fence_pump [OF Cons.prems(1), of a]] pump_opens(2) [OF True, of a] by (auto simp: obd_round_def owed_view_def)
    then have "\<exists>v. shutdown_wait started timeoutMs rs (obd_round s a ts) = Some v \<and>
        \<not> or_disconnectPending v \<and> or_lastDisconnectSucceeded v"
      using Cons.IH [OF round_keeps(1) [OF Cons.prems(1)], of a ts] round_keeps(2) [OF Cons.prems(1), of a ts] Cons.prems n by simp
    then show ?thesis using True Cons.prems(4) by (simp add: r good_round_def obd_round_def)
  next
    case False
    then have "\<not> or_disconnectPending (fold task_step ts s)" using o [OF Cons.prems(1)] by (simp add: owed_view_def)
    then show ?thesis using False Cons.prems(3) by (simp add: r)
  qed
qed simp

lemma disconnect_queued:
  assumes f: "fence s" and g: "granted a" "or_client s \<noteq> None"
  shows "fst (disconnectBle a False s)" "or_disconnectPending (snd (disconnectBle a False s))"
    "or_client (snd (disconnectBle a False s)) = or_client s"
proof -
  have q: "fst (queuePendingTransportDisconnect a v)" "or_client (snd (queuePendingTransportDisconnect a v)) = or_client v"
    if v: "fence v" "or_client v \<noteq> None" for v
  proof -
    show "or_client (snd (queuePendingTransportDisconnect a v)) = or_client v"
      by (simp add: queuePendingTransportDisconnect_def ensureObdTransportRuntime_def Let_def split_beta)
    show "fst (queuePendingTransportDisconnect a v)"
    proof (cases "or_disconnectPending v \<and> \<not> or_disconnectQueued v")
      case True
      then show ?thesis using queue_works(3) [OF v(1) g(1) v(2)]
        by (auto simp: queuePendingTransportDisconnect_def Let_def split_beta split: if_splits)
    next
      case False
      then show ?thesis by (auto simp: queuePendingTransportDisconnect_def)
    qed
  qed
  define v where "v = drop_result (clearTransportRequest s)"
  have v: "fence v" "or_client v \<noteq> None" "or_client v = or_client s"
    using fence_clear [OF f] g(2) by (simp_all add: v_def) (simp_all add: drop_result_def clearTransportRequest_def)
  show "or_disconnectPending (snd (disconnectBle a False s))" by (simp add: disconnectBle_def Let_def)
  have n: "\<not> or_requestActive v" by (simp add: v_def drop_result_def clearTransportRequest_def)
  define w where "w = v\<lparr>ot_token := cancelQueuedWork (ot_token v), or_disconnectPending := True, or_disconnectQueued := False,
      or_disconnectDeleteBond := False, or_followupDeleteBond := False, or_lastDisconnectSucceeded := False,
      or_nextRequestId := or_nextRequestId v + 1, or_disconnectRequestId := or_nextRequestId v + 1,
      or_disconnectAddress := target_address v, or_disconnectAddrType := target_addrType v\<rparr>"
  have w: "fence w" if "\<not> or_disconnectPending v"
    using fence_cancel [OF v(1) that n, of "or_nextRequestId v + 1"]
    by (rule fence_part_cong [THEN iffD1, rotated]) (simp add: fence_part_def w_def)
  have e: "disconnectBle a False s = queuePendingTransportDisconnect a (if or_disconnectPending v then v else w)"
    unfolding disconnectBle_def Let_def v_def [symmetric] w_def by simp
  have u: "fence (if or_disconnectPending v then v else w)" "or_client (if or_disconnectPending v then v else w) = or_client s"
    using v w by (simp_all add: w_def)
  show "fst (disconnectBle a False s)" "or_client (snd (disconnectBle a False s)) = or_client s"
    unfolding e using q [OF u(1)] u(2) g(2) by simp_all
qed

section \<open>Requests\<close>

text \<open>How many steps of the task the request that is waited for still needs.\<close>

fun steps_held :: "obd_task \<Rightarrow> nat" where
  "steps_held (TaskReceived r) = 3"
| "steps_held (TaskChecked r) = 2"
| "steps_held (TaskWorking r) = 1"
| "steps_held _ = 0"

definition steps_left :: "obd \<Rightarrow> nat" where
  "steps_left s = (if ot_requestQueue s = None then steps_held (ot_task s)
     else if ot_task s = TaskWaiting then 4 else 5 + steps_held (ot_task s))"

lemma steps_bound: "steps_left s \<le> 8"
  by (cases "ot_task s") (simp_all add: steps_left_def)

definition request_view :: "obd \<Rightarrow> bool \<times> bool \<times> u32 \<times> obd_op \<times> bool" where
  "request_view s = (or_requestActive s, or_disconnectPending s, or_pendingRequestId s, or_pendingOp s, or_pendingTimedOut s)"

lemma request_kept [simp]: "request_view (task_step t s) = request_view s"
  by (simp add: task_step_def request_view_def dispatch_service_def dispatch_pass_def dispatch_accept_def acknowledge_def
      publishObdTransportResult_def Let_def split_beta split: obd_task.split option.split)

lemma waiting_shape:
  assumes "fence s" "or_requestActive s"
  shows "\<not> or_disconnectPending s" "ot_controlQueue s = None" "\<not> dc_active (ot_dispatch s)" "ot_task s \<noteq> TaskNone"
proof -
  show p: "\<not> or_disconnectPending s" using assms by (simp add: fence_def requests_ok_def)
  then have "\<not> or_disconnectQueued s" using queued_pending [OF assms(1)] by blast
  with idle_disconnect [OF assms(1)] show "ot_controlQueue s = None" "\<not> dc_active (ot_dispatch s)" by blast+
  show "ot_task s \<noteq> TaskNone" using nothing_yet(5) [OF assms(1)] assms(2) by blast
qed

lemma task_works:
  assumes f: "fence s" and w: "or_requestActive s"
  shows "steps_left (task_step t s) = steps_left s - 1"
proof (cases "ot_task s")
  case (TaskChecked r)
  then have "ot_token s = tq_dispatchEpoch r" using claim_open [OF f] waiting_shape(1) [OF f w] by blast
  then show ?thesis using TaskChecked by (simp add: task_step_def tryClaim_def steps_left_def)
next
  case TaskLoop
  have "task_step t s = s\<lparr>ot_task := TaskWaiting\<rparr>"
    using TaskLoop waiting_shape(2,3) [OF f w] by (simp add: task_step_def dispatch_service_def)
  then show ?thesis using TaskLoop by (simp add: steps_left_def)
next
  case TaskWaiting
  then show ?thesis by (simp add: task_step_def steps_left_def split: option.split)
next
  case (TaskReceived r)
  have "task_step t s = s\<lparr>ot_task := TaskChecked r\<rparr>"
    using TaskReceived waiting_shape(2,3) [OF f w] by (simp add: task_step_def dispatch_service_def)
  then show ?thesis using TaskReceived by (simp add: steps_left_def)
next
  case (TaskWorking r)
  then show ?thesis by (simp add: task_step_def publishObdTransportResult_def steps_left_def)
qed (use waiting_shape(4) [OF f w] in simp)

lemma answer_ready:
  assumes f: "fence s" and w: "or_requestActive s" and n: "steps_left s = 0"
  shows "\<exists>r. ot_resultQueue s = Some r \<and> answered s r"
proof -
  have "ot_requestQueue s = None" "steps_held (ot_task s) = 0" using n by (auto simp: steps_left_def split: if_splits)
  then have "ot_requestQueue s = None" "held (ot_task s) = None" by (auto elim!: steps_held.elims)
  then show ?thesis using f w by (auto simp: fence_def requests_ok_def)
qed

lemma task_fold:
  assumes "fence s" "or_requestActive s"
  shows "fence (fold task_step ts s) \<and> request_view (fold task_step ts s) = request_view s \<and>
    steps_left (fold task_step ts s) = steps_left s - length ts"
  using assms
proof (induction ts arbitrary: s)
  case (Cons t ts)
  have "or_requestActive (task_step t s)" using request_kept [of t s] Cons.prems(2) by (simp add: request_view_def)
  from Cons.IH [OF fence_step [OF Cons.prems(1)] this] task_works [OF Cons.prems, of t] show ?case by simp
qed simp

lemma answered_within:
  fixes a :: obd_answers
  assumes f: "fence s" and w: "or_requestActive s" and n: "8 \<le> length ts"
  defines "v \<equiv> pumpTransportResults a (fold task_step ts s)"
  shows "\<not> or_requestActive v" "\<exists>r. fst (takeTransportResult (or_pendingOp s) v) = Some r \<and>
    tr_requestId r = or_pendingRequestId s \<and> tr_timedOut r = or_pendingTimedOut s"
proof -
  define u where "u = fold task_step ts s"
  note k = task_fold [OF f w, of ts, folded u_def]
  have u: "fence u" "or_requestActive u" using k w by (simp_all add: request_view_def)
  have "steps_left u = 0" using k n steps_bound [of s] by simp
  then obtain r where r: "ot_resultQueue u = Some r" "answered u r" using answer_ready [OF u] by blast
  have h: "ot_hasResultQueue u" using u(1) waiting_shape(4) [OF u] by (simp add: fence_def resources_ok_def)
  have "v = receive_result a r (u\<lparr>ot_resultQueue := None\<rparr>)"
    using h r(1) waiting_shape(1) [OF u] by (simp add: v_def u_def [symmetric] pumpTransportResults_def)
  moreover have "tr_op r \<noteq> OpDisconnect" "tr_requestId r = or_pendingRequestId u" using r(2) unfolding answered_def by auto
  ultimately have v: "v = clearTransportRequest (u\<lparr>ot_resultQueue := None, or_readyResult := r\<lparr>tr_timedOut := or_pendingTimedOut u\<rparr>\<rparr>)"
    using u(2) by (simp add: receive_result_def)
  show "\<not> or_requestActive v" unfolding v by (simp add: clearTransportRequest_def)
  have "or_readyResult v = r\<lparr>tr_timedOut := or_pendingTimedOut u\<rparr>" unfolding v by (simp add: clearTransportRequest_def)
  then have "fst (takeTransportResult (or_pendingOp s) v) = Some (r\<lparr>tr_timedOut := or_pendingTimedOut u\<rparr>)"
    using r(2) k by (simp add: takeTransportResult_def answered_def request_view_def)
  with r(2) k show "\<exists>r. fst (takeTransportResult (or_pendingOp s) v) = Some r \<and>
      tr_requestId r = or_pendingRequestId s \<and> tr_timedOut r = or_pendingTimedOut s"
    by (simp add: answered_def request_view_def)
qed

end
