(* ===== verification/V1_Obd_Properties.thy ===== *)
theory V1_Obd_Properties
  imports V1_Obd_Progress
begin

text \<open>
  What the OBD runtime promises: the fence around a disconnect, in every history of the main loop,
  the callbacks and the transport task.
\<close>

section \<open>When the fence opens\<close>

lemma disconnect_closes [simp]: "or_disconnectPending (snd (disconnectBle a b s))"
  by (simp add: disconnectBle_def Let_def)

lemma request_closed [simp]:
  "or_disconnectPending (clearBleResponseState s) = or_disconnectPending s"
  "or_disconnectPending (clearSpeedState s) = or_disconnectPending s"
  "or_disconnectPending (resetCommandState s) = or_disconnectPending s"
  "or_disconnectPending (clearBleEventQueue s) = or_disconnectPending s"
  "or_disconnectPending (drop_result s) = or_disconnectPending s"
  "or_disconnectPending (drop_found s) = or_disconnectPending s"
  "or_disconnectPending (clearTransportRequest s) = or_disconnectPending s"
  "or_disconnectPending (resetPollingSchedule now s) = or_disconnectPending s"
  "or_disconnectPending (clearManualScanState s) = or_disconnectPending s"
  "or_disconnectPending (setSavedAddressFromBuffer address s) = or_disconnectPending s"
  "or_disconnectPending (commitManualScanCandidate s) = or_disconnectPending s"
  "or_disconnectPending (transitionTo q now s) = or_disconnectPending s"
  "or_disconnectPending (ensureRuntimeResources a s) = or_disconnectPending s"
  by (simp_all add: clearBleResponseState_def clearSpeedState_def resetCommandState_def clearBleEventQueue_def drop_result_def
      drop_found_def clearTransportRequest_def resetPollingSchedule_def clearManualScanState_def clearConnectTarget_def
      setSavedAddressFromBuffer_def commitManualScanCandidate_def transitionTo_def ensureRuntimeResources_def Let_def)

lemma forget_closes [simp]: "or_disconnectPending (forget_session a s)"
  by (simp add: forget_session_def)

lemma event_closed [simp]: "or_disconnectPending (applyBleEvent e s) = or_disconnectPending s"
  by (cases e) (simp_all add: Let_def)

lemma drain_closed [simp]: "or_disconnectPending (drainBleEventQueue s) = or_disconnectPending s"
proof -
  have "or_disconnectPending (fold applyBleEvent es s) = or_disconnectPending s" for es s
    by (induction es arbitrary: s) simp_all
  then show ?thesis by (simp add: drainBleEventQueue_def)
qed

lemma prepare_closed [simp]: "or_disconnectPending (obd_prepare now x s) = or_disconnectPending s"
  by (simp add: obd_prepare_def Let_def)

lemma update_opens:
  "or_disconnectPending s \<Longrightarrow> \<not> or_disconnectPending (obd_update a now x s) \<Longrightarrow> confirmed s"
  by (rule pump_opens(1) [of s a]) (auto simp: obd_update_def reject_late_link_def Let_def split: if_splits)

lemma do_opens:
  assumes "or_disconnectPending s" "\<not> or_disconnectPending (obd_do s c)"
  shows "confirmed s"
  using assms
proof (cases c)
  case (ObUpdate a now x)
  with assms show ?thesis by (simp add: update_opens)
next
  case (ObPump a)
  with assms show ?thesis by (simp add: pump_opens(1))
qed (simp_all add: obd_setEnabled_def setMinRssi_def stopActiveScan_def requestManualPairScan_def cancelPendingConnect_def
    forgetDevice_def Let_def split: if_splits)

lemma step_opens:
  assumes "or_disconnectPending s" "\<not> or_disconnectPending (obd_step s e)"
  shows "confirmed s"
proof (cases e)
  case (ObTask t)
  with assms task_view(1) [of t s] show ?thesis by (simp add: owed_view_def)
qed (use assms do_opens in \<open>simp_all add: onDeviceFound_def onBleDisconnect_def onBleData_def enqueueBleEvent_def split: if_splits\<close>)

text \<open>And once it is confirmed nothing queued before it is left.\<close>

lemma confirmed_clear:
  assumes "fence s" "confirmed s"
  shows "ot_requestQueue s = None" "held (ot_task s) = None"
  using assms by (auto simp: fence_def disconnect_ok_def confirmed_def)

section \<open>Examples\<close>

definition example_answers :: obd_answers where
  "example_answers = \<lparr>oa_millis = 0, oa_linked = False, oa_scanStarted = True, oa_requestQueue = True,
     oa_controlQueue = True, oa_resultQueue = True, oa_task = True\<rparr>"

definition example_context :: obd_context where
  "example_context = \<lparr>ox_bootReady = True, ox_v1Connected = True, ox_bleScanIdle = True, ox_proxyAdvertising = False,
     ox_proxyClientConnected = False, ox_v1ConnectInProgress = False, ox_obdScanAllowed = True,
     ox_obdConnectAllowed = True, ox_obdRetryAllowed = True\<rparr>"

definition example_task :: task_answers where
  "example_task = \<lparr>ta_generation = 1, ta_bondDeleted = True, ta_disconnectAccepted = True, ta_linkDown = (\<lambda>_. True),
     ta_success = True, ta_bleError = 0, ta_rssi = 0\<rparr>"

abbreviation example_run :: "obd_input list \<Rightarrow> obd" where
  "example_run es \<equiv> obd_run example_answers (Some 0) True ''AA:BB'' 0 (- 80) es"

text \<open>A saved adapter is connected to, and the request reaches the task's claim.\<close>

definition example_request :: "obd_input list" where
  "example_request = [ObCall (ObUpdate example_answers 100 example_context), ObCall (ObUpdate example_answers 200 example_context),
     ObTask example_task, ObTask example_task, ObTask example_task]"

text \<open>The runtime is switched off, and the task works until the disconnect is confirmed.\<close>

definition example_off :: "obd_input list" where
  "example_off = example_request @ ObCall (ObEnable example_answers False) # replicate 4 (ObTask example_task)"

section \<open>The properties\<close>





end
