(* ===== verification/Spec2Isabelle.thy ===== *)
theory Spec2Isabelle
  imports V1_Parser_Properties V1_Parser_Promises V1_Parser_Consumers V1_Request_Gates
    V1_Volume_Fade_Owner V1_Rate_Limiter V1_Client_Write V1_Tap_Gesture V1_Power_Policies
    V1_Obd_Responses V1_Speed_Policy V1_Json_Properties V1_In_The_Box_Properties
    V1_Client_Properties V1_Command_Promises V1_Quiet_Properties V1_Rx_Properties V1_Obd_Properties
begin

text \<open>
  Verification library of V1Simple, the ESP32 touchscreen firmware for the Valentine One Gen 2
  radar detector (C++ under \<open>src/\<close> and \<open>include/\<close>).

  \<^bold>\<open>The program.\<close> The Bluetooth client (\<open>ble_connection.cpp\<close>, \<open>ble_subscription.cpp\<close>,
  \<open>ble_runtime.cpp\<close>) connects to the detector, publishes a session and retires it; its command
  channel (\<open>ble_commands.cpp\<close>) admits one write at a time and hands it to a worker. The detector's
  notifications arrive on the stack's task as fragments of a framed stream; \<open>modules/ble\<close> queues
  them, and in the main loop reassembles the stream, finds the frames (\<open>v1_packet_framing.h\<close>) and
  hands each to \<open>PacketParser\<close> (\<open>packet_parser.cpp\<close>, \<open>packet_parser_alerts.cpp\<close>) and to the client.
  The parser keeps the display state, the published alert table, and the observations (volumes,
  mode, sweeps, version) that the other modules act on: the volume fade (\<open>modules/volume_fade\<close>)
  lowers the detector under a long alert and must restore it, the tap gestures (\<open>modules/touch\<close>)
  mute it, the speed policies (\<open>modules/speed\<close>, \<open>modules/speed_mute\<close>) silence it at low speed with
  a speed from GPS or from the OBD adapter, and the in-the-box policy (\<open>modules/in_the_box\<close>)
  mutes alerts outside the user's frequency boxes and unmutes new ones inside. All of them reach
  the detector through the quiet coordinator (\<open>modules/quiet\<close>), the one owner of mute and volume.
  The OBD runtime (\<open>modules/obd\<close>) finds and pairs the adapter, connects, initialises it and polls the
  speed from its text responses (\<open>obd_elm327_parser.cpp\<close>); the calls that block run on a transport
  task of its own, reached by a request, a control and a result queue of one item each, and a
  disconnect fences off everything queued before it.
  Requests to the detector pass the flow control and the pacing gate
  (\<open>v1_request_flow_control.h\<close>, \<open>ble_alert_request_gate.h\<close>). The maintenance server limits and
  retries its traffic (\<open>wifi_rate_limiter.h\<close>, \<open>client_write_retry.h\<close>) and proves each JSON document
  it receives exact before the document library reads it (\<open>json_exact_input.h\<close>); the power path has
  its own policies.

  \<^bold>\<open>Theories and code.\<close>
  \<^item> \<^verbatim>\<open>V1_Prelude\<close>: word types, clock differences, byte lemmas, and the interfaces of machines
    driven by events: \<open>guarded_machine\<close>, \<open>event_machine\<close> (an invariant of every history),
    \<open>latching_machine\<close> (a condition no event of a class clears) and \<open>budget_machine\<close> (a history
    never spends more than it earned). Each is interpreted on the components' own steps.
  \<^item> \<^verbatim>\<open>V1_Packet_Framing\<close>, \<^verbatim>\<open>V1_Firmware_Compat\<close>: the frame checks and the capabilities and
    user-byte masks of a firmware version.
  \<^item> \<^verbatim>\<open>V1_Parser_Types\<close>: the records of \<open>packet_parser_types.h\<close> and the parser object; the
    fixed arrays are lists whose lengths the invariant fixes, \<open>std::optional\<close> and null pointers
    are options, the observer callback is the list of its calls.
  \<^item> \<^verbatim>\<open>V1_Parser_Display\<close> (\<open>parseDisplayData\<close> and its decoders), \<^verbatim>\<open>V1_Parser_Alerts\<close>
    (\<open>packet_parser_alerts.cpp\<close>: the row cache, its freshness, publication, priority),
    \<^verbatim>\<open>V1_Packet_Parser\<close> (\<open>parseInternal\<close>: one definition per packet case).
  \<^item> \<^verbatim>\<open>V1_Alert_Table\<close>, \<^verbatim>\<open>V1_Alert_Delivery\<close>: the row cache as an abstract map from row index to a
    fresh row, the refinement of the publication to it, and the delivery of whole tables.
  \<^item> \<^verbatim>\<open>V1_Parser_Machine\<close>, \<^verbatim>\<open>V1_Parser_Invariant\<close>: the parser as a machine over its events (packets,
    resets, observer changes) and the invariant of every state it reaches.
  \<^item> \<^verbatim>\<open>V1_Parser_Properties\<close>, \<^verbatim>\<open>V1_Parser_Promises\<close>, \<^verbatim>\<open>V1_Parser_Consumers\<close>: what the parser
    promises over whole packets: rejected and echoed frames, the two-packet mute, the version,
    the presented alert, complete and poisoned sweep captures, the newest volume, empty tables.
  \<^item> \<^verbatim>\<open>V1_Request_Gates\<close>: the flow control against a specification over its history, the budget of
    retries, and the pacing contract \<open>pacing_gate\<close> of the alert-data requests.
  \<^item> \<^verbatim>\<open>V1_Volume_Fade\<close>, \<^verbatim>\<open>V1_Volume_Fade_Owner\<close>: the fade module and its ownership of the volume:
    audible reductions, exact restorations, and the debt that only documented events release.
  \<^item> \<^verbatim>\<open>V1_Tap_Gesture\<close>: the persisted alert and the taps. \<^verbatim>\<open>V1_Speed_Policy\<close>: the speed selector and
    the low-speed mute. \<^verbatim>\<open>V1_Obd_Parser\<close>, \<^verbatim>\<open>V1_Obd_Responses\<close>: the ELM327 responses, their
    rendering and its round trip.
  \<^item> \<^verbatim>\<open>V1_Rate_Limiter\<close>: the ring buffer refined to a queue and the window bound.
    \<^verbatim>\<open>V1_Client_Write\<close>: the retrying write, its termination and what it delivers.
  \<^item> \<^verbatim>\<open>V1_Utf8_Text\<close>: the UTF-8 decoder against the encoder of the standard, and the check of form
    strings. \<^verbatim>\<open>V1_Json_Input\<close>: the lexical JSON pass as written, with its hash table of keys and
    its second decoder. \<^verbatim>\<open>V1_Json_Tokens\<close>, \<^verbatim>\<open>V1_Json_Grammar\<close>, \<^verbatim>\<open>V1_Json_Complete\<close>: the grammar of
    values and their spellings, soundness and completeness of the pass for it;
    \<^verbatim>\<open>V1_Json_Properties\<close>: what the check promises.
  \<^item> \<^verbatim>\<open>V1_In_The_Box\<close>: classification, canonical order and the augmenting-path search over
    successive tables; \<^verbatim>\<open>V1_Encounter_Matching\<close>: the matching is one to one and of the largest
    size, by a certificate that every search keeps; \<^verbatim>\<open>V1_In_The_Box_Properties\<close>: its decisions.
  \<^item> \<^verbatim>\<open>V1_Power_Policies\<close>: battery, latch, wake and the Bluetooth quiesce before sleep.
  \<^item> \<^verbatim>\<open>V1_Client_Link\<close>, \<^verbatim>\<open>V1_Client_Connect\<close>, \<^verbatim>\<open>V1_Connected_Followup\<close>, \<^verbatim>\<open>V1_Client_Dispatch\<close>: the
    session's state and callbacks, connecting, discovery and subscription, the steps after
    publication, and the client's pass. \<^verbatim>\<open>V1_Session_Publication\<close>: the race between the publisher
    and the disconnect callback, load by load and store by store. \<^verbatim>\<open>V1_Session_Capture\<close>: the
    readback of detector settings that a session collects.
  \<^item> \<^verbatim>\<open>V1_Command_State\<close>, \<^verbatim>\<open>V1_Command_Channel\<close>, \<^verbatim>\<open>V1_Command_Send\<close>, \<^verbatim>\<open>V1_Command_Packets\<close>: the publication
    gate and the volume receipt, the worker, admission and harvest, and one frame per command.
    \<^verbatim>\<open>V1_Client_Machine\<close>, \<^verbatim>\<open>V1_Client_Steps\<close>: the client as one machine and its invariant.
    \<^verbatim>\<open>V1_Command_Ledger\<close>: reports \<open>SENT\<close> against completed writes; \<^verbatim>\<open>V1_Client_Properties\<close>,
    \<^verbatim>\<open>V1_Command_Promises\<close>: what it promises; \<^verbatim>\<open>V1_Client_Examples\<close>: concrete histories.
  \<^item> \<^verbatim>\<open>V1_Rx_Stream\<close>, \<^verbatim>\<open>V1_Rx_Process\<close>: the notification queue (\<open>modules/ble/ble_queue_module.cpp\<close>), its
    admission, staging and long assembly, and one pass. \<^verbatim>\<open>V1_Rx_Frames\<close>: the reference extraction of
    frames from a whole stream. \<^verbatim>\<open>V1_Rx_Machine\<close>, \<^verbatim>\<open>V1_Rx_Invariant\<close>: the queue over the client and the
    parser it drives, and its invariant. \<^verbatim>\<open>V1_Rx_Short\<close>: what is handled, staged and queued is the
    reference extraction of the admitted stream; \<^verbatim>\<open>V1_Rx_Progress\<close>: passes use it up;
    \<^verbatim>\<open>V1_Rx_Long\<close>: chunks in any order; \<^verbatim>\<open>V1_Rx_Properties\<close>: what the queue promises.
  \<^item> \<^verbatim>\<open>V1_Quiet_State\<close>, \<^verbatim>\<open>V1_Quiet_Mute\<close>, \<^verbatim>\<open>V1_Quiet_Volume\<close>, \<^verbatim>\<open>V1_Quiet_Loop\<close>: the quiet coordinator over
    the client, the volume fade and the in-the-box policy (\<open>modules/quiet\<close>). \<^verbatim>\<open>V1_Quiet_Sends\<close>,
    \<^verbatim>\<open>V1_Quiet_Machine\<close>: every operation is a path of the client's own steps that sends only named
    commands; \<^verbatim>\<open>V1_Quiet_Properties\<close>: what may be sent, the settings transaction, and the unmute an
    interrupted automatic mute owes.
  \<^item> \<^verbatim>\<open>V1_Obd_State\<close>, \<^verbatim>\<open>V1_Obd_Transport\<close>, \<^verbatim>\<open>V1_Obd_Runtime\<close>: the OBD runtime's members and callbacks
    (\<open>obd_runtime_module\<close>), the transport with its epoch token, its task and the dispatcher of the
    disconnect (\<open>obd_runtime_transport.cpp\<close>, \<open>obd_transport_control_dispatch.h\<close>), and the commands,
    failures, connection states and calls (\<open>obd_runtime_commands.cpp\<close>,
    \<open>obd_runtime_state_machine.cpp\<close>). \<^verbatim>\<open>V1_Obd_Fence\<close>: the invariant of the fence, kept by every access
    of the main loop and every step of the task; \<^verbatim>\<open>V1_Obd_Machine\<close>: the runtime as one machine over
    calls, callbacks and task steps; \<^verbatim>\<open>V1_Obd_Progress\<close>: rounds of the loop and the task bring a
    disconnect to its confirmation (a measure of at most 26) and a request to its answer within
    eight steps; \<^verbatim>\<open>V1_Obd_Properties\<close>: what the transport promises.

  \<^bold>\<open>Conventions.\<close> Integers keep their width (\<open>u8\<close>, \<open>u16\<close>, \<open>u32\<close>); clock differences wrap as in
  the code, and the statements about intervals hold across a wrap. Every operation is a function
  from its inputs and the old state to its result and the new state; calls into other modules are
  either the modelled function, a parameter (the clock, the write client, the answers in
  \<open>tap_environment\<close>, \<open>speed_inputs\<close>, \<open>fade_context\<close>) or an element of an effect list. A float is
  only ever compared and is an extended rational with NaN. Loops are recursive functions with a
  termination measure, also the recursive descent of the JSON pass (on the bytes left) and the
  augmenting search (on the unvisited encounters): no fuel is used. A heap that may refuse a
  request is a predicate on the number of bytes. Code on several tasks is a machine over
  events: what one function of one task stores is one step, except in \<open>V1_Session_Publication\<close>
  where each load and store is; callbacks that may run between two reads of an operation are
  lists of events among its arguments. Fields that only the statements read (the writes on the
  wire, the notifications admitted and the frames handled since the session opened) are history
  variables, and nothing of the code's behaviour depends on them. The parse budget of a pass is
  a number of rounds and a clock, so a pass may stop anywhere; passes handle a stream within
  twice the bytes queued plus the bytes staged. The OBD task is one step between two of its accesses
  to what it shares; during one call the clock, the link and the heap answer one way, and the
  loop of \<open>disconnectForShutdown\<close> is given its rounds, so a call that does not return is \<open>None\<close>. The
  OBD speed is kept in the km/h it was reported in.

  \<^bold>\<open>Not modelled.\<close> Drawing, audio, web handlers, NVS and SD storage, and the glue to the Bluetooth
  stack are input and output over libraries that are not in the repository: of the client its
  initialisation, the matching of scan results, the bond table and \<open>notifyCallback\<close>, and the
  proxy towards the phone; of the OBD runtime its low-level client (\<open>obd_ble_client.cpp\<close>). Serial
  logging is dropped from every function. The GPS and ALP runtimes and the profile push are not
  modelled; the GPS speed and the profile's calls are parameters. \<open>kmhToMph\<close>, a float product, is
  not modelled.
\<close>

end
